(* ===== verification/Prelude.thy ===== *)
theory Prelude
  imports Main "HOL-Library.Char_ord" "HOL-Library.List_Lexorder"
begin

text \<open>
  Shared vocabulary of the development: results with errors as values, tables as lists of
  rows with the SQL statements the control plane issues on them, JavaScript numbers and
  strings, and the generic lemmas on these that carry the component proofs.

  A table of the database is the list of its rows. \<open>UPDATE t SET f WHERE P\<close> is
  \<open>sql_update P f\<close>, \<open>rows[0]\<close> of a \<open>SELECT ... WHERE P\<close> is \<open>find P\<close>, and
  an aggregate is a \<open>sum_list\<close> over a \<open>filter\<close>. Instants are integers counting
  milliseconds, the resolution of a JavaScript \<open>Date\<close>; the database clock is read at that
  resolution too, and a transaction reads it once.
\<close>

named_theorems tbl \<open>rewriting SQL statements on tables\<close>
named_theorems frame \<open>what an operation leaves unchanged\<close>

type_synonym uuid = string
type_synonym time = int

abbreviation seconds :: "int \<Rightarrow> time" where
  "seconds n \<equiv> 1000 * n"

abbreviation minutes :: "int \<Rightarrow> time" where
  "minutes n \<equiv> 60000 * n"

section \<open>JavaScript numbers\<close>

text \<open>
  A number that reaches a validation. Everything that is not an integer (a fraction, NaN,
  an infinity) is one value, since \<open>Number.isSafeInteger\<close> refuses all of it.
\<close>

datatype js_number = JSInt int | JSOther

definition MAX_SAFE_INTEGER :: int where
  "MAX_SAFE_INTEGER = 9007199254740991"

fun isSafeInteger :: "js_number \<Rightarrow> bool" where
  "isSafeInteger (JSInt n) = (\<bar>n\<bar> \<le> MAX_SAFE_INTEGER)"
| "isSafeInteger JSOther = False"

fun js_int :: "js_number \<Rightarrow> int" where
  "js_int (JSInt n) = n"
| "js_int JSOther = 0"

definition ceil_div :: "int \<Rightarrow> int \<Rightarrow> int" where
  "ceil_div a b = - ((- a) div b)"

lemma ceil_div_ge:
  assumes "0 < b"
  shows "a \<le> b * ceil_div a b"
proof -
  have "b * ((- a) div b) \<le> - a"
    using assms by (metis mult_div_mod_eq pos_mod_sign add_increasing2 order_refl le_add_same_cancel1)
  then show ?thesis by (simp add: ceil_div_def)
qed

lemma ceil_div_least:
  assumes "0 < b" and "a \<le> b * c"
  shows "ceil_div a b \<le> c"
proof -
  have "(- c * b) div b \<le> (- a) div b"
    using assms by (intro zdiv_mono1) (auto simp: mult.commute)
  moreover have "(- c * b) div b = - c"
    using assms(1) by (intro nonzero_mult_div_cancel_right) simp
  ultimately show ?thesis by (simp add: ceil_div_def)
qed

lemma ceil_div_nonneg [simp]: "0 \<le> a \<Longrightarrow> 0 < b \<Longrightarrow> 0 \<le> ceil_div a b"
  using ceil_div_ge [of b a] by (metis mult_pos_neg not_less order.strict_trans1)

lemma ceil_div_mono: "0 < b \<Longrightarrow> a \<le> a' \<Longrightarrow> ceil_div a b \<le> ceil_div a' b"
  by (meson ceil_div_ge ceil_div_least order_trans)

section \<open>Characters and strings\<close>

definition is_digit :: "char \<Rightarrow> bool" where
  "is_digit c \<longleftrightarrow> CHR ''0'' \<le> c \<and> c \<le> CHR ''9''"

definition is_lower :: "char \<Rightarrow> bool" where
  "is_lower c \<longleftrightarrow> CHR ''a'' \<le> c \<and> c \<le> CHR ''z''"

definition is_upper :: "char \<Rightarrow> bool" where
  "is_upper c \<longleftrightarrow> CHR ''A'' \<le> c \<and> c \<le> CHR ''Z''"

definition is_alnum :: "char \<Rightarrow> bool" where
  "is_alnum c \<longleftrightarrow> is_digit c \<or> is_lower c \<or> is_upper c"

definition is_hex :: "char \<Rightarrow> bool" where
  "is_hex c \<longleftrightarrow> is_digit c \<or> (CHR ''a'' \<le> c \<and> c \<le> CHR ''f'')"

text \<open>The pattern \<open>^[0-9a-f]{64}$\<close> of every digest.\<close>

definition hex64 :: "string \<Rightarrow> bool" where
  "hex64 s \<longleftrightarrow> length s = 64 \<and> list_all is_hex s"

text \<open>Decimal digits of a number, as \<open>String(n)\<close> and template literals print them.\<close>

definition digit_char :: "nat \<Rightarrow> char" where
  "digit_char d = char_of (d + 48)"

definition char_digit :: "char \<Rightarrow> nat" where
  "char_digit c = of_char c - 48"

fun show_nat :: "nat \<Rightarrow> string" where
  "show_nat n = (if n < 10 then [digit_char n] else show_nat (n div 10) @ [digit_char (n mod 10)])"

declare show_nat.simps [simp del]

definition show_int :: "int \<Rightarrow> string" where
  "show_int i = (if i < 0 then CHR ''-'' # show_nat (nat (- i)) else show_nat (nat i))"

definition read_nat :: "string \<Rightarrow> nat" where
  "read_nat s = foldl (\<lambda>n c. 10 * n + char_digit c) 0 s"

lemma char_digit_digit_char [simp]: "d < 10 \<Longrightarrow> char_digit (digit_char d) = d"
  by (simp add: char_digit_def digit_char_def)

lemma digit_char_cases: "d < 10 \<Longrightarrow> d \<in> {0, 1, 2, 3, 4, 5, 6, 7, 8, 9}" for d :: nat
  by auto

lemma is_digit_digit_char [simp]: "d < 10 \<Longrightarrow> is_digit (digit_char d)"
  by (drule digit_char_cases) (auto simp: is_digit_def digit_char_def less_eq_char_def)

lemma read_nat_append [simp]: "read_nat (s @ [c]) = 10 * read_nat s + char_digit c"
  by (simp add: read_nat_def)

lemma read_show_nat [simp]: "read_nat (show_nat n) = n"
proof (induction n rule: show_nat.induct)
  case (1 n)
  show ?case
  proof (cases "n < 10")
    case True
    then show ?thesis by (simp add: show_nat.simps [of n] read_nat_def)
  next
    case False
    with 1 show ?thesis by (simp add: show_nat.simps [of n])
  qed
qed

lemma show_nat_digits: "list_all is_digit (show_nat n)"
proof (induction n rule: show_nat.induct)
  case (1 n)
  then show ?case by (cases "n < 10") (simp_all add: show_nat.simps [of n])
qed

lemma show_nat_nonempty [simp]: "show_nat n \<noteq> []"
  by (simp add: show_nat.simps [of n])

lemma inj_show_nat: "inj show_nat"
  by (metis injI read_show_nat)

text \<open>\<open>padStart(k, '0')\<close> of a number's digits, for a number below \<open>10 ^ k\<close>.\<close>

fun pad_nat :: "nat \<Rightarrow> nat \<Rightarrow> string" where
  "pad_nat 0 n = []"
| "pad_nat (Suc k) n = pad_nat k (n div 10) @ [digit_char (n mod 10)]"

lemma length_pad_nat [simp]: "length (pad_nat k n) = k"
  by (induction k arbitrary: n) auto

lemma pad_nat_digits: "list_all is_digit (pad_nat k n)"
  by (induction k arbitrary: n) auto

lemma read_pad_nat: "n < 10 ^ k \<Longrightarrow> read_nat (pad_nat k n) = n"
proof (induction k arbitrary: n)
  case 0
  then show ?case by (simp add: read_nat_def)
next
  case (Suc k)
  from Suc.prems have "n div 10 < 10 ^ k" by (simp add: div_less_iff_less_mult mult.commute)
  with Suc.IH show ?case by simp
qed

lemma read_nat_append_digits: "read_nat (xs @ ys) = read_nat xs * 10 ^ length ys + read_nat ys"
proof (induction ys rule: rev_induct)
  case Nil
  then show ?case by (simp add: read_nat_def)
next
  case (snoc y ys)
  then show ?case by (simp add: append.assoc [symmetric] algebra_simps del: append_assoc)
qed

section \<open>Dates\<close>

text \<open>
  \<open>Date.prototype.toISOString\<close>, with the proleptic Gregorian calendar computed from the
  day count (years of March to February, 400-year eras).
\<close>

definition civil_from_days :: "int \<Rightarrow> int \<times> int \<times> int" where
  "civil_from_days days =
     (let z = days + 719468;
          era = z div 146097;
          doe = z mod 146097;
          yoe = (doe - doe div 1460 + doe div 36524 - doe div 146096) div 365;
          doy = doe - (365 * yoe + yoe div 4 - yoe div 100);
          mp = (5 * doy + 2) div 153;
          d = doy - (153 * mp + 2) div 5 + 1;
          m = (if mp < 10 then mp + 3 else mp - 9)
      in (yoe + era * 400 + (if m \<le> 2 then 1 else 0), m, d))"

definition iso_year :: "int \<Rightarrow> string" where
  "iso_year y =
     (if 0 \<le> y \<and> y \<le> 9999 then pad_nat 4 (nat y)
      else (if y < 0 then CHR ''-'' else CHR ''+'') # pad_nat 6 (nat \<bar>y\<bar>))"

definition toISOString :: "time \<Rightarrow> string" where
  "toISOString t =
     (case civil_from_days (t div 86400000) of
        (y, m, d) \<Rightarrow>
          (let ms = nat (t mod 86400000) in
           iso_year y @ ''-'' @ pad_nat 2 (nat m) @ ''-'' @ pad_nat 2 (nat d) @ ''T'' @
           pad_nat 2 (ms div 3600000) @ '':'' @ pad_nat 2 (ms div 60000 mod 60) @ '':'' @
           pad_nat 2 (ms div 1000 mod 60) @ ''.'' @ pad_nat 3 (ms mod 1000) @ ''Z''))"

section \<open>Tables\<close>

definition sql_update :: "('r \<Rightarrow> bool) \<Rightarrow> ('r \<Rightarrow> 'r) \<Rightarrow> 'r list \<Rightarrow> 'r list" where
  "sql_update P f rs = map (\<lambda>r. if P r then f r else r) rs"

lemma sql_update_Nil [simp, tbl]: "sql_update P f [] = []"
  by (simp add: sql_update_def)

lemma sql_update_Cons [simp, tbl]:
  "sql_update P f (r # rs) = (if P r then f r else r) # sql_update P f rs"
  by (simp add: sql_update_def)

lemma sql_update_append [simp, tbl]:
  "sql_update P f (rs @ ss) = sql_update P f rs @ sql_update P f ss"
  by (simp add: sql_update_def)

lemma length_sql_update [simp, tbl]: "length (sql_update P f rs) = length rs"
  by (simp add: sql_update_def)

lemma set_sql_update: "set (sql_update P f rs) = (\<lambda>r. if P r then f r else r) ` set rs"
  by (simp add: sql_update_def)

lemma sql_update_id [tbl]: "(\<And>r. r \<in> set rs \<Longrightarrow> \<not> P r) \<Longrightarrow> sql_update P f rs = rs"
  by (induction rs) auto

lemma map_sql_update [tbl]:
  "(\<And>r. P r \<Longrightarrow> k (f r) = k r) \<Longrightarrow> map k (sql_update P f rs) = map k rs"
  by (induction rs) auto

lemma in_sql_update:
  "r' \<in> set (sql_update P f rs) \<longleftrightarrow> (\<exists>r\<in>set rs. r' = (if P r then f r else r))"
  by (auto simp: set_sql_update)

lemma sql_update_kept: "r \<in> set rs \<Longrightarrow> \<not> P r \<Longrightarrow> r \<in> set (sql_update P f rs)"
  and sql_update_changed: "r \<in> set rs \<Longrightarrow> P r \<Longrightarrow> f r \<in> set (sql_update P f rs)"
  by (force simp: in_sql_update)+

lemma sql_updateE [elim]:
  assumes "r' \<in> set (sql_update P f rs)"
  obtains r where "r \<in> set rs" and "P r" and "r' = f r"
    | "r' \<in> set rs" and "\<not> P r'"
  using assms by (auto simp: in_sql_update split: if_splits)

text \<open>
  The effect of an update on a sum over the table: what the touched rows gained.
\<close>

lemma sum_list_sql_update:
  fixes w :: "'r \<Rightarrow> 'a :: ab_group_add"
  shows "sum_list (map w (sql_update P f rs)) =
    sum_list (map w rs) + sum_list (map (\<lambda>r. w (f r) - w r) (filter P rs))"
  by (induction rs) (auto simp: algebra_simps)

lemma sum_list_map_zero: "(\<And>r. r \<in> set rs \<Longrightarrow> w r = (0 :: 'a :: comm_monoid_add)) \<Longrightarrow> sum_list (map w rs) = 0"
  by (induction rs) auto

lemma find_filter: "find P rs = (case filter P rs of [] \<Rightarrow> None | r # _ \<Rightarrow> Some r)"
  by (induction rs) auto

lemma find_SomeD: "find P rs = Some r \<Longrightarrow> r \<in> set rs \<and> P r"
  by (induction rs) (auto split: if_splits)

lemma find_append: "find P (xs @ ys) = (case find P xs of None \<Rightarrow> find P ys | Some x \<Rightarrow> Some x)"
  by (induction xs) auto

lemma find_None_list_ex: "find P rs = None \<longleftrightarrow> \<not> list_ex P rs"
  by (induction rs) auto

lemma find_Some_list_ex: "find P rs = Some r \<Longrightarrow> list_ex P rs"
  by (metis find_None_list_ex option.distinct(1))

lemma find_NoneD: "find P rs = None \<Longrightarrow> r \<in> set rs \<Longrightarrow> \<not> P r"
  by (induction rs) (auto split: if_splits)

lemma find_sql_update:
  "(\<And>r. P r \<Longrightarrow> K (f r) = K r) \<Longrightarrow>
    find K (sql_update P f rs) = map_option (\<lambda>r. if P r then f r else r) (find K rs)"
  by (induction rs) auto

lemma find_map: "find P (map f xs) = map_option f (find (\<lambda>x. P (f x)) xs)"
  by (induction xs) auto

text \<open>
  A table with a primary key: the key column is a function of the row. The lemmas of this
  locale are what a client may use of a key: a row is found by its key, an update that
  keeps the key leaves every other row alone, and at most one row matches.
\<close>

locale keyed =
  fixes key :: "'r \<Rightarrow> 'k"
begin

lemma filter_key:
  "distinct (map key rs) \<Longrightarrow> r \<in> set rs \<Longrightarrow> Q r \<Longrightarrow> filter (\<lambda>x. key x = key r \<and> Q x) rs = [r]"
proof (induction rs)
  case Nil
  then show ?case by simp
next
  case (Cons x xs)
  show ?case
  proof (cases "x = r")
    case True
    with Cons.prems have "\<forall>y\<in>set xs. key y \<noteq> key r" by (metis distinct.simps(2) image_eqI list.map(2) list.set_map)
    then have "filter (\<lambda>x. key x = key r \<and> Q x) xs = []" by (simp add: filter_empty_conv)
    with True Cons.prems show ?thesis by simp
  next
    case False
    with Cons.prems have r: "r \<in> set xs" by simp
    with Cons.prems have "key x \<noteq> key r" by (metis distinct.simps(2) image_eqI list.map(2) list.set_map)
    with Cons r show ?thesis by simp
  qed
qed

lemma find_key:
  "distinct (map key rs) \<Longrightarrow> r \<in> set rs \<Longrightarrow> Q r \<Longrightarrow> find (\<lambda>x. key x = key r \<and> Q x) rs = Some r"
  by (simp add: find_filter filter_key)

lemma key_unique:
  "distinct (map key rs) \<Longrightarrow> r \<in> set rs \<Longrightarrow> r' \<in> set rs \<Longrightarrow> key r = key r' \<Longrightarrow> r = r'"
  by (metis distinct_map inj_onD)

lemma distinct_update:
  "distinct (map key rs) \<Longrightarrow> (\<And>r. P r \<Longrightarrow> key (f r) = key r) \<Longrightarrow>
    distinct (map key (sql_update P f rs))"
  by (simp add: map_sql_update)

lemma sum_update_key:
  fixes w :: "'r \<Rightarrow> 'a :: ab_group_add"
  assumes "distinct (map key rs)" and "r \<in> set rs" and "Q r"
  shows "sum_list (map w (sql_update (\<lambda>x. key x = key r \<and> Q x) f rs)) =
    sum_list (map w rs) + (w (f r) - w r)"
  using assms by (simp add: sum_list_sql_update filter_key)

lemma sum_update_key_only:
  fixes w :: "'r \<Rightarrow> 'a :: ab_group_add"
  assumes "distinct (map key rs)" and "r \<in> set rs"
  shows "sum_list (map w (sql_update (\<lambda>x. key x = key r) f rs)) =
    sum_list (map w rs) + (w (f r) - w r)"
  using sum_update_key [OF assms, of "\<lambda>_. True"] by simp

end

section \<open>Sorting by a comparator\<close>

text \<open>
  \<open>Array.prototype.sort\<close> with a comparator is a stable sort; so is the model, which inserts
  each element before the first one it does not exceed. \<open>ORDER BY\<close> is read the same way.
\<close>

fun sort_insert :: "('a \<Rightarrow> 'a \<Rightarrow> int) \<Rightarrow> 'a \<Rightarrow> 'a list \<Rightarrow> 'a list" where
  "sort_insert cmp x [] = [x]"
| "sort_insert cmp x (y # ys) = (if cmp x y \<le> 0 then x # y # ys else y # sort_insert cmp x ys)"

definition sort_by :: "('a \<Rightarrow> 'a \<Rightarrow> int) \<Rightarrow> 'a list \<Rightarrow> 'a list" where
  "sort_by cmp xs = foldr (sort_insert cmp) xs []"

definition first_row :: "'a list \<Rightarrow> 'a option" where
  "first_row xs = (case xs of [] \<Rightarrow> None | x # _ \<Rightarrow> Some x)"

lemma set_sort_insert [simp]: "set (sort_insert cmp x ys) = insert x (set ys)"
  by (induction ys) auto

lemma set_sort_by [simp]: "set (sort_by cmp xs) = set xs"
  by (induction xs) (auto simp: sort_by_def)

lemma length_sort_insert [simp]: "length (sort_insert cmp x ys) = Suc (length ys)"
  by (induction ys) auto

lemma length_sort_by [simp]: "length (sort_by cmp xs) = length xs"
  by (induction xs) (auto simp: sort_by_def)

lemma sort_by_Nil_iff [simp]: "sort_by cmp xs = [] \<longleftrightarrow> xs = []"
  by (metis length_0_conv length_sort_by)

lemma first_row_SomeD: "first_row xs = Some x \<Longrightarrow> x \<in> set xs"
  by (auto simp: first_row_def split: list.splits)

lemma first_row_None [simp]: "first_row xs = None \<longleftrightarrow> xs = []"
  by (auto simp: first_row_def split: list.splits)

locale comparator =
  fixes cmp :: "'a \<Rightarrow> 'a \<Rightarrow> int"
  assumes cmp_total: "cmp x y \<le> 0 \<or> cmp y x \<le> 0"
    and cmp_trans: "cmp x y \<le> 0 \<Longrightarrow> cmp y z \<le> 0 \<Longrightarrow> cmp x z \<le> 0"
begin

lemma sorted_insert:
  "sorted_wrt (\<lambda>x y. cmp x y \<le> 0) ys \<Longrightarrow> sorted_wrt (\<lambda>x y. cmp x y \<le> 0) (sort_insert cmp x ys)"
proof (induction ys)
  case Nil
  then show ?case by simp
next
  case (Cons y ys)
  show ?case
  proof (cases "cmp x y \<le> 0")
    case True
    with Cons.prems show ?thesis by (auto intro: cmp_trans)
  next
    case False
    then have "cmp y x \<le> 0" using cmp_total by blast
    with False Cons show ?thesis by simp
  qed
qed

lemma sorted_sort_by: "sorted_wrt (\<lambda>x y. cmp x y \<le> 0) (sort_by cmp xs)"
  unfolding sort_by_def by (induction xs) (simp_all add: sorted_insert)

lemma cmp_refl: "cmp x x \<le> 0"
  using cmp_total by blast

lemma first_minimal:
  assumes "first_row (sort_by cmp xs) = Some x"
  shows "x \<in> set xs \<and> (\<forall>y\<in>set xs. cmp x y \<le> 0)"
proof -
  from assms obtain ys where ys: "sort_by cmp xs = x # ys"
    by (auto simp: first_row_def split: list.splits)
  with sorted_sort_by [of xs] have "\<forall>y\<in>set ys. cmp x y \<le> 0" by simp
  moreover have "set xs = insert x (set ys)" using ys by (metis list.simps(15) set_sort_by)
  ultimately show ?thesis using cmp_refl by auto
qed

end

end
