(* ===== verification/Capacity.thy ===== *)
theory Capacity
  imports Prelude
begin

text \<open>
  Host capacity and host choice, \<open>scheduler/capacity.ts\<close> and \<open>scheduler/placement.ts\<close>:
  the resource vector of a machine, what a host has left, the validation of a request and
  the deterministic best-fit choice. The vector is an ordered abelian group, so that the
  library's sums and order reasoning apply to reservations.
\<close>

section \<open>Resources\<close>

datatype resources = Resources (vcpus: int) (memoryMb: int) (diskMb: int)

instantiation resources :: ab_group_add
begin

definition zero_resources :: resources where
  "zero_resources = Resources 0 0 0"

definition plus_resources :: "resources \<Rightarrow> resources \<Rightarrow> resources" where
  "plus_resources a b =
     Resources (vcpus a + vcpus b) (memoryMb a + memoryMb b) (diskMb a + diskMb b)"

definition minus_resources :: "resources \<Rightarrow> resources \<Rightarrow> resources" where
  "minus_resources a b =
     Resources (vcpus a - vcpus b) (memoryMb a - memoryMb b) (diskMb a - diskMb b)"

definition uminus_resources :: "resources \<Rightarrow> resources" where
  "uminus_resources a = Resources (- vcpus a) (- memoryMb a) (- diskMb a)"

instance
  by standard
    (auto simp: zero_resources_def plus_resources_def minus_resources_def uminus_resources_def
      resources.expand)

end

instantiation resources :: ordered_ab_group_add
begin

definition less_eq_resources :: "resources \<Rightarrow> resources \<Rightarrow> bool" where
  "less_eq_resources a b \<longleftrightarrow>
     vcpus a \<le> vcpus b \<and> memoryMb a \<le> memoryMb b \<and> diskMb a \<le> diskMb b"

definition less_resources :: "resources \<Rightarrow> resources \<Rightarrow> bool" where
  "less_resources a b \<longleftrightarrow> a \<le> b \<and> \<not> b \<le> (a :: resources)"

instance
  by standard (auto simp: less_eq_resources_def less_resources_def plus_resources_def
      resources.expand)

end

lemma resources_sel [simp]:
  "vcpus 0 = 0" "memoryMb 0 = 0" "diskMb 0 = 0"
  "vcpus (a + b) = vcpus a + vcpus b" "memoryMb (a + b) = memoryMb a + memoryMb b"
  "diskMb (a + b) = diskMb a + diskMb b"
  "vcpus (a - b) = vcpus a - vcpus b" "memoryMb (a - b) = memoryMb a - memoryMb b"
  "diskMb (a - b) = diskMb a - diskMb b"
  by (simp_all add: zero_resources_def plus_resources_def minus_resources_def)

lemma resources_le:
  "a \<le> b \<longleftrightarrow> vcpus a \<le> vcpus b \<and> memoryMb a \<le> memoryMb b \<and> diskMb a \<le> diskMb b"
  by (simp add: less_eq_resources_def)

definition rscale :: "int \<Rightarrow> resources \<Rightarrow> resources" where
  "rscale n r = Resources (vcpus r * n) (memoryMb r * n) (diskMb r * n)"

lemma rscale_sel [simp]: "vcpus (rscale n r) = vcpus r * n" "memoryMb (rscale n r) = memoryMb r * n"
  "diskMb (rscale n r) = diskMb r * n"
  by (simp_all add: rscale_def)

lemma rscale_Suc: "rscale (int (Suc n)) r = r + rscale (int n) r" and rscale_0 [simp]: "rscale 0 r = 0"
  by (simp_all add: rscale_def plus_resources_def zero_resources_def algebra_simps)

text \<open>Componentwise \<open>GREATEST(0, a - b)\<close>, the release statement's subtraction.\<close>

definition sub_clamp :: "resources \<Rightarrow> resources \<Rightarrow> resources" where
  "sub_clamp a b =
     Resources (max 0 (vcpus a - vcpus b)) (max 0 (memoryMb a - memoryMb b))
       (max 0 (diskMb a - diskMb b))"

lemma sub_clamp_exact: "b \<le> a \<Longrightarrow> sub_clamp a b = a - b"
  by (auto simp: sub_clamp_def resources_le minus_resources_def)

lemma sub_clamp_nonneg [simp]: "0 \<le> sub_clamp a b"
  by (auto simp: sub_clamp_def resources_le)

section \<open>Capacity\<close>

datatype architecture = X86_64 | Aarch64

datatype host_state = Ready | Draining | Unhealthy | Stale

text \<open>\<open>HostCapacity\<close>; the cached templates are a set, held as a list.\<close>

record host_capacity =
  hc_id :: string
  hc_region :: string
  hc_architecture :: architecture
  hc_state :: host_state
  hc_total :: resources
  hc_reserved :: resources
  hc_cachedTemplates :: "string list"

definition available :: "host_capacity \<Rightarrow> resources" where
  "available host = hc_total host - hc_reserved host"

definition fits :: "host_capacity \<Rightarrow> resources \<Rightarrow> bool" where
  "fits host r \<longleftrightarrow>
     hc_state host = Ready \<and>
     vcpus (available host) \<ge> vcpus r \<and>
     memoryMb (available host) \<ge> memoryMb r \<and>
     diskMb (available host) \<ge> diskMb r"

text \<open>
  A request's resources before validation. The entries are checked in the order of the
  object's keys, then each bound in turn; a failed check is its message.
\<close>

record raw_resources =
  raw_vcpus :: js_number
  raw_memoryMb :: js_number
  raw_diskMb :: js_number

definition not_positive :: "js_number \<Rightarrow> bool" where
  "not_positive v \<longleftrightarrow> \<not> isSafeInteger v \<or> js_int v \<le> 0"

definition validateResources :: "raw_resources \<Rightarrow> string + resources" where
  "validateResources r =
     (if not_positive (raw_vcpus r) then Inl ''vcpus must be positive''
      else if not_positive (raw_memoryMb r) then Inl ''memoryMb must be positive''
      else if not_positive (raw_diskMb r) then Inl ''diskMb must be positive''
      else if js_int (raw_vcpus r) > 4 then Inl ''vcpus must not exceed 4''
      else if js_int (raw_memoryMb r) > 4096 then Inl ''memoryMb must not exceed 4096''
      else if js_int (raw_diskMb r) > 20480 then Inl ''diskMb must not exceed 20480''
      else Inr (Resources (js_int (raw_vcpus r)) (js_int (raw_memoryMb r)) (js_int (raw_diskMb r))))"

definition raw_of :: "resources \<Rightarrow> raw_resources" where
  "raw_of r = \<lparr>raw_vcpus = JSInt (vcpus r), raw_memoryMb = JSInt (memoryMb r), raw_diskMb = JSInt (diskMb r)\<rparr>"

definition machine_sized :: "resources \<Rightarrow> bool" where
  "machine_sized r \<longleftrightarrow> 0 < vcpus r \<and> vcpus r \<le> 4 \<and> 0 < memoryMb r \<and> memoryMb r \<le> 4096 \<and>
     0 < diskMb r \<and> diskMb r \<le> 20480"

lemma not_positive_JSInt: "not_positive v \<or> (\<exists>n. v = JSInt n \<and> 0 < n \<and> n \<le> MAX_SAFE_INTEGER)"
  by (cases v) (auto simp: not_positive_def)

lemma validateResources_sized:
  assumes "validateResources r = Inr q"
  shows "machine_sized q \<and> r = raw_of q"
proof -
  from assms have np: "\<not> not_positive (raw_vcpus r)" "\<not> not_positive (raw_memoryMb r)"
      "\<not> not_positive (raw_diskMb r)"
    by (auto simp: validateResources_def split: if_splits)
  then obtain a b c where "raw_vcpus r = JSInt a" "raw_memoryMb r = JSInt b" "raw_diskMb r = JSInt c"
      "0 < a" "0 < b" "0 < c"
    using not_positive_JSInt by metis
  with assms show ?thesis
    by (auto simp: validateResources_def machine_sized_def raw_of_def split: if_splits)
qed

lemma validateResources_raw_of: "validateResources (raw_of r) = Inr q \<longleftrightarrow> machine_sized r \<and> q = r"
  by (auto simp: validateResources_def raw_of_def machine_sized_def not_positive_def
      MAX_SAFE_INTEGER_def resources.expand split: if_splits)

text \<open>\<open>validateResources\<close> accepts exactly the sizes a machine may have: positive safe integers
  within four processors, 4096 MiB and 20480 MiB of disk, and it returns what it was given.\<close>

theorem validateResources_exact: "validateResources r = Inr q \<longleftrightarrow> machine_sized q \<and> r = raw_of q"
  using validateResources_sized validateResources_raw_of by blast

section \<open>Placement\<close>

record placement_request =
  pr_region :: string
  pr_architecture :: architecture
  pr_resources :: resources
  pr_templateId :: "string option"

text \<open>
  The comparator of \<open>chooseHost\<close>. \<open>String.prototype.localeCompare\<close> depends on the
  host's collation, so it is a parameter.
\<close>

definition placement_cached :: "placement_request \<Rightarrow> host_capacity \<Rightarrow> bool" where
  "placement_cached request h =
     (case pr_templateId request of
        None \<Rightarrow> True
      | Some t \<Rightarrow> (if t = [] then True else t \<in> set (hc_cachedTemplates h)))"

definition placement_cmp ::
    "(string \<Rightarrow> string \<Rightarrow> int) \<Rightarrow> placement_request \<Rightarrow> host_capacity \<Rightarrow> host_capacity \<Rightarrow> int" where
  "placement_cmp localeCompare request left right =
     (let leftCached = placement_cached request left;
          rightCached = placement_cached request right;
          memory = memoryMb (available left) - memoryMb (pr_resources request) -
            (memoryMb (available right) - memoryMb (pr_resources request));
          cpu = vcpus (available left) - vcpus (pr_resources request) -
            (vcpus (available right) - vcpus (pr_resources request))
      in if leftCached \<noteq> rightCached then (if leftCached then -1 else 1)
         else if memory \<noteq> 0 then memory
         else if cpu \<noteq> 0 then cpu
         else localeCompare (hc_id left) (hc_id right))"

definition chooseHost ::
    "(string \<Rightarrow> string \<Rightarrow> int) \<Rightarrow> host_capacity list \<Rightarrow> placement_request \<Rightarrow> host_capacity option" where
  "chooseHost localeCompare hosts request =
     first_row (sort_by (placement_cmp localeCompare request)
       (filter (\<lambda>host. hc_region host = pr_region request \<and>
          hc_architecture host = pr_architecture request \<and>
          fits host (pr_resources request)) hosts))"

lemma placement_comparator:
  assumes "\<And>x y. lc x y \<le> 0 \<or> lc y x \<le> (0 :: int)"
    and "\<And>x y z. lc x y \<le> 0 \<Longrightarrow> lc y z \<le> 0 \<Longrightarrow> lc x z \<le> 0"
  shows "comparator (placement_cmp lc request)"
proof
  fix x y z
  show "placement_cmp lc request x y \<le> 0 \<or> placement_cmp lc request y x \<le> 0"
    using assms(1) [of "hc_id x" "hc_id y"] by (auto simp: placement_cmp_def Let_def)
  assume "placement_cmp lc request x y \<le> 0" and "placement_cmp lc request y z \<le> 0"
  then show "placement_cmp lc request x z \<le> 0"
    using assms(2) [of "hc_id x" "hc_id y" "hc_id z"]
    by (auto simp: placement_cmp_def Let_def split: if_splits)
qed

definition placement_candidate :: "placement_request \<Rightarrow> host_capacity \<Rightarrow> bool" where
  "placement_candidate request host \<longleftrightarrow> hc_region host = pr_region request \<and>
     hc_architecture host = pr_architecture request \<and> fits host (pr_resources request)"

text \<open>\<open>chooseHost\<close> packs tightly. It finds a host whenever one of the region and architecture
  has room, prefers one that has the template over one that has not, and among those the one with
  the least memory left over.\<close>

theorem chooseHost_tightest:
  assumes "\<And>x y. lc x y \<le> 0 \<or> lc y x \<le> (0 :: int)"
    and "\<And>x y z. lc x y \<le> 0 \<Longrightarrow> lc y z \<le> 0 \<Longrightarrow> lc x z \<le> 0"
  shows "case chooseHost lc hs request of
      None \<Rightarrow> \<not> list_ex (placement_candidate request) hs
    | Some h \<Rightarrow> h \<in> set hs \<and> placement_candidate request h \<and>
        list_all (\<lambda>h'. placement_candidate request h' \<longrightarrow>
          (if placement_cached request h' = placement_cached request h
           then memoryMb (available h) \<le> memoryMb (available h') else placement_cached request h)) hs"
proof (cases "chooseHost lc hs request")
  case None
  then have "\<not> list_ex (placement_candidate request) hs"
    by (auto simp: chooseHost_def placement_candidate_def filter_empty_conv list_ex_iff)
  with None show ?thesis by simp
next
  case (Some h)
  note best = comparator.first_minimal [OF placement_comparator [OF assms] Some [unfolded chooseHost_def]]
  have "if placement_cached request h' = placement_cached request h
      then memoryMb (available h) \<le> memoryMb (available h') else placement_cached request h"
    if "h' \<in> set hs" "placement_candidate request h'" for h'
  proof -
    from best that have "placement_cmp lc request h h' \<le> 0" by (auto simp: placement_candidate_def)
    then show ?thesis by (auto simp: placement_cmp_def Let_def split: if_splits)
  qed
  with best Some show ?thesis by (auto simp: placement_candidate_def list_all_iff)
qed

end
