(* ===== verification/Json.thy ===== *)
theory Json
  imports Prelude
begin

text \<open>
  Untyped values, as \<open>JSON.parse\<close> and a request body deliver them, and the string
  operations the validators apply to them: splitting, trimming, lower-casing, prefix and
  suffix tests. \<open>undefined\<close> is the absence of a key, \<open>None\<close> of \<open>get_prop\<close>.
\<close>

datatype json =
    JNull
  | JBool bool
  | JNum js_number
  | JStr string
  | JArr "json list"
  | JObj "(string \<times> json) list"

fun is_object :: "json \<Rightarrow> bool" where
  "is_object (JObj _) = True"
| "is_object _ = False"

fun object_keys :: "json \<Rightarrow> string list" where
  "object_keys (JObj kvs) = map fst kvs"
| "object_keys _ = []"

fun get_prop :: "json \<Rightarrow> string \<Rightarrow> json option" where
  "get_prop (JObj kvs) k = map_of kvs k"
| "get_prop _ k = None"

fun string_items :: "json list \<Rightarrow> string list option" where
  "string_items [] = Some []"
| "string_items (JStr s # js) = map_option ((#) s) (string_items js)"
| "string_items (_ # js) = None"

text \<open>
  \<open>value === undefined || Array.isArray(value) && value.every(x => typeof x === 'string')\<close>,
  with \<open>[]\<close> for an absent value.
\<close>

fun string_array :: "json option \<Rightarrow> string list option" where
  "string_array None = Some []"
| "string_array (Some (JArr js)) = string_items js"
| "string_array (Some _) = None"

lemma string_items_JStr [simp]: "string_items (map JStr xs) = Some xs"
  by (induction xs) auto

section \<open>Strings\<close>

fun split_on :: "char \<Rightarrow> string \<Rightarrow> string list" where
  "split_on c [] = [[]]"
| "split_on c (x # xs) =
     (if x = c then [] # split_on c xs
      else (case split_on c xs of [] \<Rightarrow> [[x]] | p # ps \<Rightarrow> (x # p) # ps))"

definition is_space :: "char \<Rightarrow> bool" where
  "is_space c \<longleftrightarrow> of_char c \<in> {9, 10, 11, 12, 13, 32, 160 :: nat}"

definition js_trim :: "string \<Rightarrow> string" where
  "js_trim s = rev (dropWhile is_space (rev (dropWhile is_space s)))"

definition lower_char :: "char \<Rightarrow> char" where
  "lower_char c = (if is_upper c then char_of (of_char c + (32 :: nat)) else c)"

definition toLowerCase :: "string \<Rightarrow> string" where
  "toLowerCase s = map lower_char s"

definition startsWith :: "string \<Rightarrow> string \<Rightarrow> bool" where
  "startsWith s p \<longleftrightarrow> take (length p) s = p"

definition endsWith :: "string \<Rightarrow> string \<Rightarrow> bool" where
  "endsWith s p \<longleftrightarrow> length p \<le> length s \<and> drop (length s - length p) s = p"

lemma dropWhile_idem [simp]: "dropWhile P (dropWhile P xs) = dropWhile P xs"
  by (induction xs) auto

lemma dropWhile_rev_dropWhile:
  "dropWhile P (rev (dropWhile P (rev (dropWhile P s)))) = rev (dropWhile P (rev (dropWhile P s)))"
proof (cases "dropWhile P s")
  case Nil
  show ?thesis unfolding Nil by simp
next
  case (Cons x xs)
  then have "\<not> P x" by (metis hd_dropWhile list.distinct(1) list.sel(1))
  with Cons have "hd (rev (dropWhile P (rev (x # xs)))) = x"
    by (simp add: dropWhile_append split: if_splits)
  moreover have "rev (dropWhile P (rev (x # xs))) \<noteq> []"
    using \<open>\<not> P x\<close> by (simp add: dropWhile_append)
  ultimately show ?thesis
    using \<open>\<not> P x\<close> Cons by (cases "rev (dropWhile P (rev (x # xs)))") auto
qed

lemma js_trim_idem [simp]: "js_trim (js_trim s) = js_trim s"
  by (simp add: js_trim_def dropWhile_rev_dropWhile)

lemma of_char_cmp: "(c \<le> d) = ((of_char c :: nat) \<le> of_char d)"
  by (simp add: less_eq_char_def)

lemma is_upper_lower_char [simp]: "\<not> is_upper (lower_char c)"
proof (cases "is_upper c")
  case True
  then have r: "65 \<le> (of_char c :: nat)" "(of_char c :: nat) \<le> 90"
    by (simp_all add: is_upper_def of_char_cmp)
  then have "(of_char (char_of (of_char c + 32 :: nat)) :: nat) = of_char c + 32"
    by (simp add: of_char_of)
  with True r show ?thesis
    by (simp add: lower_char_def is_upper_def of_char_cmp)
next
  case False
  then show ?thesis by (simp add: lower_char_def)
qed

lemma lower_char_idem [simp]: "lower_char (lower_char c) = lower_char c"
  by (metis is_upper_lower_char lower_char_def)

lemma toLowerCase_idem [simp]: "toLowerCase (toLowerCase s) = toLowerCase s"
  by (simp add: toLowerCase_def)

lemma split_on_nonempty [simp]: "split_on c s \<noteq> []"
  by (induction s) (auto split: list.splits)

lemma last_split_on: "s \<noteq> [] \<Longrightarrow> last s = c \<Longrightarrow> last (split_on c s) = []"
proof (induction s)
  case Nil
  then show ?case by simp
next
  case (Cons x xs)
  show ?case
  proof (cases "xs = []")
    case True
    with Cons.prems show ?thesis by simp
  next
    case False
    with Cons have l: "last (split_on c xs) = []" by simp
    show ?thesis
    proof (cases "x = c")
      case True
      with l show ?thesis by simp
    next
      case neq: False
      from False Cons.prems have "c \<in> set xs" using last_in_set by fastforce
      then have "length (split_on c xs) > 1"
        by (induction xs) (auto split: list.splits)
      then obtain q r ps where "split_on c xs = q # r # ps"
        by (metis One_nat_def length_Suc_conv less_imp_Suc_add plus_1_eq_Suc add.commute add_Suc_right)
      with neq l show ?thesis by simp
    qed
  qed
qed


section \<open>Printing\<close>

text \<open>
  \<open>JSON.stringify\<close>. A property whose value is \<open>undefined\<close> is not printed; the callers build
  their objects without it (\<open>opt_field\<close>). Only whole numbers are ever printed.
\<close>

definition hex_digit :: "nat \<Rightarrow> char" where
  "hex_digit d = (if d < 10 then digit_char d else char_of (d + 87))"

definition escape_char :: "char \<Rightarrow> string" where
  "escape_char c =
     (if c = CHR 0x22 then [CHR 0x5C, CHR 0x22]
      else if c = CHR 0x5C then [CHR 0x5C, CHR 0x5C]
      else if c = CHR 0x08 then [CHR 0x5C, CHR ''b'']
      else if c = CHR 0x0C then [CHR 0x5C, CHR ''f'']
      else if c = CHR 0x0A then [CHR 0x5C, CHR ''n'']
      else if c = CHR 0x0D then [CHR 0x5C, CHR ''r'']
      else if c = CHR 0x09 then [CHR 0x5C, CHR ''t'']
      else if (of_char c :: nat) < 32
      then [CHR 0x5C, CHR ''u'', CHR ''0'', CHR ''0'', hex_digit (of_char c div 16), hex_digit (of_char c mod 16)]
      else [c])"

definition quote :: "string \<Rightarrow> string" where
  "quote s = CHR 0x22 # concat (map escape_char s) @ [CHR 0x22]"

fun join :: "string \<Rightarrow> string list \<Rightarrow> string" where
  "join sep [] = []"
| "join sep [s] = s"
| "join sep (s # t # ss) = s @ sep @ join sep (t # ss)"

fun stringify :: "json \<Rightarrow> string" where
  "stringify JNull = ''null''"
| "stringify (JBool b) = (if b then ''true'' else ''false'')"
| "stringify (JNum n) = (case n of JSInt i \<Rightarrow> show_int i | JSOther \<Rightarrow> ''null'')"
| "stringify (JStr s) = quote s"
| "stringify (JArr js) = ''['' @ join '','' (map stringify js) @ '']''"
| "stringify (JObj kvs) = ''{'' @ join '','' (map (\<lambda>(k, j). quote k @ '':'' @ stringify j) kvs) @ ''}''"

definition opt_field :: "string \<Rightarrow> string option \<Rightarrow> (string \<times> json) list" where
  "opt_field k v = (case v of None \<Rightarrow> [] | Some s \<Rightarrow> [(k, JStr s)])"

end
