(* ===== verification/NetPolicy.thy ===== *)
theory NetPolicy
  imports Json
begin

text \<open>
  The egress policy of a managed guest, \<open>domain/network-policy.ts\<close>: the hard-deny floor,
  the validation and canonical form of a declaration, the addresses learned from DNS and
  the decision for an address.

  Node's \<open>isIP\<close>, \<open>BlockList\<close> and the text-to-number conversion \<open>Number(text)\<close> are
  the runtime's: they are the fields of a \<open>js_net\<close> argument, and nothing is assumed of them.
\<close>

record js_net =
  isIP :: "string \<Rightarrow> nat"
  inSubnet :: "string \<Rightarrow> int \<Rightarrow> nat \<Rightarrow> string \<Rightarrow> nat \<Rightarrow> bool"
  toNumber :: "string option \<Rightarrow> js_number"

text \<open>A \<open>BlockList\<close> is the list of the subnets added to it: network, prefix, IP version.\<close>

type_synonym block_list = "(string \<times> int \<times> nat) list"

definition block_check :: "js_net \<Rightarrow> block_list \<Rightarrow> string \<Rightarrow> nat \<Rightarrow> bool" where
  "block_check net block ip version \<longleftrightarrow>
     (\<exists>(network, prefix, v) \<in> set block. inSubnet net network prefix v ip version)"

definition hardFloorCidrs :: "string list" where
  "hardFloorCidrs =
     [''0.0.0.0/8'', ''10.0.0.0/8'', ''100.64.0.0/10'', ''127.0.0.0/8'', ''169.254.0.0/16'',
      ''172.16.0.0/12'', ''192.0.0.0/24'', ''192.168.0.0/16'', ''198.18.0.0/15'', ''224.0.0.0/4'',
      ''240.0.0.0/4'', ''::/128'', ''::1/128'', ''fc00::/7'', ''fe80::/10'', ''ff00::/8'']"

definition addCidr :: "js_net \<Rightarrow> block_list \<Rightarrow> string \<Rightarrow> string + block_list" where
  "addCidr net block cidr =
     (let parts = split_on (CHR ''/'') cidr;
          network = hd parts;
          prefixText = (if length parts > 1 then Some (parts ! 1) else None);
          version = (if network = [] then 0 else isIP net network);
          prefixNum = toNumber net prefixText;
          prefix = js_int prefixNum
      in if network = [] \<or> length parts > 2 \<or> \<not> isSafeInteger prefixNum \<or>
            (version = 4 \<and> (prefix < 0 \<or> prefix > 32)) \<or>
            (version = 6 \<and> (prefix < 0 \<or> prefix > 128)) \<or> version = 0
         then Inl (''invalid IP CIDR: '' @ cidr)
         else Inr (block @ [(network, prefix, if version = 4 then 4 else 6)]))"

fun addCidrs :: "js_net \<Rightarrow> block_list \<Rightarrow> string list \<Rightarrow> string + block_list" where
  "addCidrs net block [] = Inr block"
| "addCidrs net block (c # cs) =
     (case addCidr net block c of Inl e \<Rightarrow> Inl e | Inr block' \<Rightarrow> addCidrs net block' cs)"

definition isHardBlockedAddress :: "js_net \<Rightarrow> string \<Rightarrow> string list \<Rightarrow> string + bool" where
  "isHardBlockedAddress net ip additionalBlockedCidrs =
     (let version = isIP net ip in
      if version = 0 then Inr True
      else case addCidrs net [] (hardFloorCidrs @ additionalBlockedCidrs) of
          Inl e \<Rightarrow> Inl e
        | Inr block \<Rightarrow> Inr (block_check net block ip (if version = 4 then 4 else 6)))"

definition normalizeHostname :: "string \<Rightarrow> string" where
  "normalizeHostname hostname =
     (let l = toLowerCase hostname in if l \<noteq> [] \<and> last l = CHR ''.'' then butlast l else l)"

text \<open>
  \<open>/^(?:\*\.)?(?:[a-z0-9](?:[a-z0-9-]{0,61}[a-z0-9])?\.)+[a-z]{2,63}$/\<close>: after an optional
  \<open>*.\<close>, the dot-separated labels, at least one before the top-level label.
\<close>

definition label_edge :: "char \<Rightarrow> bool" where
  "label_edge c \<longleftrightarrow> is_digit c \<or> is_lower c"

definition valid_label :: "string \<Rightarrow> bool" where
  "valid_label l \<longleftrightarrow> l \<noteq> [] \<and> length l \<le> 63 \<and> label_edge (hd l) \<and> label_edge (last l) \<and>
     list_all (\<lambda>c. label_edge c \<or> c = CHR ''-'') l"

definition valid_top_label :: "string \<Rightarrow> bool" where
  "valid_top_label l \<longleftrightarrow> 2 \<le> length l \<and> length l \<le> 63 \<and> list_all is_lower l"

definition validHostnameRule :: "string \<Rightarrow> bool" where
  "validHostnameRule hostname =
     (let body = (if startsWith hostname ''*.'' then drop 2 hostname else hostname);
          labels = split_on (CHR ''.'') body
      in 2 \<le> length labels \<and> list_all valid_label (butlast labels) \<and> valid_top_label (last labels))"

definition hostnameMatches :: "string \<Rightarrow> string \<Rightarrow> bool" where
  "hostnameMatches rule hostname =
     (if startsWith rule ''*.''
      then endsWith hostname (drop 1 rule) \<and> hostname \<noteq> drop 2 rule
      else hostname = rule)"

section \<open>The policy object\<close>

datatype net_mode = NetOff | NetAllowlist

record net_decl =
  nd_mode :: net_mode
  nd_hostnames :: "string list"
  nd_cidrs :: "string list"

record learned_address =
  la_hostname :: string
  la_expiresAt :: time

record egress_policy =
  ep_declaration :: net_decl
  ep_hostnames :: "string list"
  ep_allowedAddresses :: block_list
  ep_learned :: "string \<rightharpoonup> learned_address"
  ep_additionalBlockedCidrs :: "string list"

definition mode_of :: "json option \<Rightarrow> net_mode option" where
  "mode_of j = (if j = Some (JStr ''off'') then Some NetOff
     else if j = Some (JStr ''allowlist'') then Some NetAllowlist else None)"

text \<open>The allowlist loop of the constructor: IPv6 networks are refused, the rest are added.\<close>

fun add_allowed :: "js_net \<Rightarrow> block_list \<Rightarrow> string list \<Rightarrow> string + block_list" where
  "add_allowed net block [] = Inr block"
| "add_allowed net block (c # cs) =
     (let network = hd (split_on (CHR ''/'') c) in
      if network \<noteq> [] \<and> isIP net network = 6
      then Inl ''IPv6 egress allowlists are unavailable while managed IPv6 is disabled''
      else case addCidr net block c of Inl e \<Rightarrow> Inl e | Inr block' \<Rightarrow> add_allowed net block' cs)"

fun validate_blocked :: "js_net \<Rightarrow> string list \<Rightarrow> string + unit" where
  "validate_blocked net [] = Inr ()"
| "validate_blocked net (c # cs) =
     (case addCidr net [] c of Inl e \<Rightarrow> Inl e | Inr _ \<Rightarrow> validate_blocked net cs)"

text \<open>
  The constructor after the shape of the declaration has been checked: the canonical
  hostnames and CIDRs, the mode rules and the block lists.
\<close>

definition egress_build :: "js_net \<Rightarrow> net_mode \<Rightarrow> string list \<Rightarrow> string list \<Rightarrow> string list \<Rightarrow>
    string + egress_policy" where
  "egress_build net mode hs cs blocked =
     (let hostnames = sort (remdups (map normalizeHostname hs));
          cidrs = sort (remdups (map js_trim cs))
      in if list_ex (\<lambda>h. \<not> validHostnameRule h) hostnames
         then Inl ''network hostname allowlist contains an invalid rule''
         else if mode = NetOff \<and> (hostnames \<noteq> [] \<or> cidrs \<noteq> [])
         then Inl ''network allowlists require mode=allowlist''
         else if mode = NetAllowlist \<and> hostnames = [] \<and> cidrs = []
         then Inl ''allowlist mode requires at least one hostname or CIDR''
         else case add_allowed net [] cidrs of
             Inl e \<Rightarrow> Inl e
           | Inr allowed \<Rightarrow>
               (case validate_blocked net blocked of
                  Inl e \<Rightarrow> Inl e
                | Inr _ \<Rightarrow>
                    Inr \<lparr>ep_declaration = \<lparr>nd_mode = mode, nd_hostnames = hostnames, nd_cidrs = cidrs\<rparr>,
                         ep_hostnames = hostnames, ep_allowedAddresses = allowed,
                         ep_learned = Map.empty, ep_additionalBlockedCidrs = blocked\<rparr>))"

definition EgressPolicy :: "js_net \<Rightarrow> json \<Rightarrow> string list \<Rightarrow> string + egress_policy" where
  "EgressPolicy net declaration blocked =
     (if \<not> is_object declaration then Inl ''network policy must be an object''
      else if list_ex (\<lambda>k. k \<notin> {''mode'', ''hostnames'', ''cidrs''}) (object_keys declaration)
      then Inl ''network policy contains an unknown field''
      else case mode_of (get_prop declaration ''mode'') of
          None \<Rightarrow> Inl ''network mode must be off or allowlist''
        | Some mode \<Rightarrow>
            (case (string_array (get_prop declaration ''hostnames''), string_array (get_prop declaration ''cidrs'')) of
               (Some hs, Some cs) \<Rightarrow>
                 (if length hs > 64 \<or> length cs > 64
                  then Inl ''network allowlist is limited to 64 hostnames and CIDRs''
                  else egress_build net mode hs cs blocked)
             | _ \<Rightarrow> Inl ''network hostnames and CIDRs must be string arrays''))"

definition allowsHostname :: "egress_policy \<Rightarrow> string \<Rightarrow> bool" where
  "allowsHostname p hostname =
     (if nd_mode (ep_declaration p) = NetOff then False
      else list_ex (\<lambda>rule. hostnameMatches rule (normalizeHostname hostname)) (ep_hostnames p))"

fun any_hard_blocked :: "js_net \<Rightarrow> string list \<Rightarrow> string list \<Rightarrow> string + bool" where
  "any_hard_blocked net blocked [] = Inr False"
| "any_hard_blocked net blocked (ip # ips) =
     (case isHardBlockedAddress net ip blocked of
        Inl e \<Rightarrow> Inl e
      | Inr True \<Rightarrow> Inr True
      | Inr False \<Rightarrow> any_hard_blocked net blocked ips)"

fun learn_all :: "js_net \<Rightarrow> string \<Rightarrow> time \<Rightarrow> string list \<Rightarrow> (string \<rightharpoonup> learned_address) \<Rightarrow>
    string option \<times> (string \<rightharpoonup> learned_address)" where
  "learn_all net hostname expiresAt [] m = (None, m)"
| "learn_all net hostname expiresAt (a # as) m =
     (if isIP net a = 0 then (Some ''DNS response contains an invalid address'', m)
      else learn_all net hostname expiresAt as
        (m(a \<mapsto> \<lparr>la_hostname = hostname, la_expiresAt = expiresAt\<rparr>)))"

text \<open>
  \<open>learnDns\<close> mutates the policy: the result is the error thrown, if any, with the policy as
  the call leaves it. \<open>ttlSeconds\<close> is \<open>Math.floor\<close> of the resolver's value.
\<close>

definition learnDns :: "js_net \<Rightarrow> egress_policy \<Rightarrow> string \<Rightarrow> string list \<Rightarrow> int \<Rightarrow> time \<Rightarrow>
    string option \<times> egress_policy" where
  "learnDns net p hostname addresses ttlSeconds now =
     (let normalized = normalizeHostname hostname in
      if \<not> allowsHostname p normalized then (Some ''hostname is not allowlisted'', p)
      else if addresses = [] then (Some ''DNS response has no addresses'', p)
      else case any_hard_blocked net (ep_additionalBlockedCidrs p) addresses of
          Inl e \<Rightarrow> (Some e, p)
        | Inr True \<Rightarrow> (Some ''DNS response resolves into the Nehemiah hard-deny floor'', p)
        | Inr False \<Rightarrow>
            (let ttl = min (max ttlSeconds 5) 300;
                 (e, m) = learn_all net normalized (now + ttl * 1000) addresses (ep_learned p)
             in (e, p\<lparr>ep_learned := m\<rparr>)))"

definition allowsAddress :: "js_net \<Rightarrow> egress_policy \<Rightarrow> string \<Rightarrow> time \<Rightarrow> string + (bool \<times> egress_policy)" where
  "allowsAddress net p ip now =
     (if nd_mode (ep_declaration p) = NetOff then Inr (False, p)
      else case isHardBlockedAddress net ip (ep_additionalBlockedCidrs p) of
          Inl e \<Rightarrow> Inl e
        | Inr True \<Rightarrow> Inr (False, p)
        | Inr False \<Rightarrow>
            (let version = isIP net ip in
             if version \<noteq> 0 \<and>
                block_check net (ep_allowedAddresses p) ip (if version = 4 then 4 else 6)
             then Inr (True, p)
             else case ep_learned p ip of
                 None \<Rightarrow> Inr (False, p)
               | Some learned \<Rightarrow>
                   (if la_expiresAt learned \<le> now
                    then Inr (False, p\<lparr>ep_learned := (ep_learned p)(ip := None)\<rparr>)
                    else Inr (True, p))))"

definition decl_json :: "net_decl \<Rightarrow> json" where
  "decl_json d = JObj
     [(''mode'', JStr (case nd_mode d of NetOff \<Rightarrow> ''off'' | NetAllowlist \<Rightarrow> ''allowlist'')),
      (''hostnames'', JArr (map JStr (nd_hostnames d))),
      (''cidrs'', JArr (map JStr (nd_cidrs d)))]"

definition net_off :: net_decl where
  "net_off = \<lparr>nd_mode = NetOff, nd_hostnames = [], nd_cidrs = []\<rparr>"

text \<open>\<open>new EgressPolicy(d).declaration\<close>, the canonical form the control plane stores and compares.\<close>

definition canonical_policy :: "js_net \<Rightarrow> json \<Rightarrow> string + net_decl" where
  "canonical_policy net j = map_sum id ep_declaration (EgressPolicy net j [])"

section \<open>Canonical declarations\<close>

lemma validHostnameRule_last: "validHostnameRule r \<Longrightarrow> r \<noteq> [] \<and> last r \<noteq> CHR ''.''"
proof -
  assume v: "validHostnameRule r"
  define body where "body = (if startsWith r ''*.'' then drop 2 r else r)"
  from v have top: "valid_top_label (last (split_on (CHR ''.'') body))"
    by (simp add: validHostnameRule_def body_def Let_def)
  then have "body \<noteq> []" by (auto simp: valid_top_label_def)
  moreover from this top have "last body \<noteq> CHR ''.''"
    using last_split_on [of body "CHR ''.''"] by (auto simp: valid_top_label_def)
  moreover have "body \<noteq> [] \<Longrightarrow> last body = last r \<and> r \<noteq> []"
    by (auto simp: body_def last_drop split: if_splits)
  ultimately show ?thesis by simp
qed

lemma toLowerCase_normalizeHostname: "toLowerCase (normalizeHostname h) = normalizeHostname h"
  by (simp add: normalizeHostname_def Let_def toLowerCase_def map_butlast [symmetric])

lemma normalizeHostname_idem:
  "validHostnameRule (normalizeHostname h) \<Longrightarrow>
    normalizeHostname (normalizeHostname h) = normalizeHostname h"
  using validHostnameRule_last [of "normalizeHostname h"]
  by (simp add: normalizeHostname_def [of "normalizeHostname h"] toLowerCase_normalizeHostname)

lemma map_fixed: "(\<And>x. x \<in> set xs \<Longrightarrow> f x = x) \<Longrightarrow> map f xs = xs"
  by (induction xs) auto

lemma sort_remdups_fixed:
  "sort (remdups (sort (remdups xs))) = sort (remdups (xs :: 'a :: linorder list))"
  by (simp add: distinct_remdups_id sort_key_id_if_sorted)

lemma length_canonical: "length (sort (remdups (map f xs))) \<le> length (xs :: 'b list)"
  for f :: "'b \<Rightarrow> 'a :: linorder"
  by simp (metis length_map length_remdups_leq)

lemma mode_of_decl_json: "mode_of (get_prop (decl_json d) ''mode'') = Some (nd_mode d)"
  by (cases "nd_mode d") (simp_all add: decl_json_def mode_of_def)

lemma EgressPolicy_decl_json:
  assumes "length (nd_hostnames d) \<le> 64" and "length (nd_cidrs d) \<le> 64"
  shows "EgressPolicy net (decl_json d) blocked =
    egress_build net (nd_mode d) (nd_hostnames d) (nd_cidrs d) blocked"
proof -
  have shape: "is_object (decl_json d)" "object_keys (decl_json d) = [''mode'', ''hostnames'', ''cidrs'']"
      "string_array (get_prop (decl_json d) ''hostnames'') = Some (nd_hostnames d)"
      "string_array (get_prop (decl_json d) ''cidrs'') = Some (nd_cidrs d)"
    by (simp_all add: decl_json_def)
  with assms show ?thesis by (simp add: EgressPolicy_def mode_of_decl_json)
qed

lemma egress_build_canonical:
  assumes "egress_build net mode hs cs blocked = Inr p"
  shows "egress_build net mode (nd_hostnames (ep_declaration p)) (nd_cidrs (ep_declaration p)) blocked = Inr p"
proof -
  define hostnames where "hostnames = sort (remdups (map normalizeHostname hs))"
  define cidrs where "cidrs = sort (remdups (map js_trim cs))"
  from assms have d: "nd_hostnames (ep_declaration p) = hostnames" "nd_cidrs (ep_declaration p) = cidrs"
      and valid: "list_all validHostnameRule hostnames"
    unfolding egress_build_def Let_def hostnames_def [symmetric] cidrs_def [symmetric]
    by (auto simp: list_ex_iff list_all_iff split: if_splits sum.splits)
  have "map normalizeHostname hostnames = hostnames"
    using valid by (intro map_fixed) (auto simp: hostnames_def list_all_iff normalizeHostname_idem)
  moreover have "map js_trim cidrs = cidrs"
    by (intro map_fixed) (auto simp: cidrs_def)
  moreover have "sort (remdups hostnames) = hostnames" "sort (remdups cidrs) = cidrs"
    unfolding hostnames_def cidrs_def by (rule sort_remdups_fixed)+
  ultimately have fixed: "sort (remdups (map normalizeHostname hostnames)) = hostnames"
      "sort (remdups (map js_trim cidrs)) = cidrs"
    by simp_all
  have "egress_build net mode hostnames cidrs blocked = egress_build net mode hs cs blocked"
    unfolding egress_build_def Let_def hostnames_def [symmetric] cidrs_def [symmetric]
    by (simp only: fixed)
  with assms d show ?thesis by simp
qed

lemma egress_build_fields:
  assumes "egress_build net mode hs cs blocked = Inr p"
  shows "nd_mode (ep_declaration p) = mode \<and> ep_hostnames p = nd_hostnames (ep_declaration p) \<and>
    ep_learned p = Map.empty \<and> ep_additionalBlockedCidrs p = blocked \<and>
    length (nd_hostnames (ep_declaration p)) \<le> length hs \<and> length (nd_cidrs (ep_declaration p)) \<le> length cs"
  using assms length_canonical [of normalizeHostname hs] length_canonical [of js_trim cs]
  by (auto simp: egress_build_def Let_def split: if_splits sum.splits)

lemma EgressPolicy_build:
  assumes "EgressPolicy net j blocked = Inr p"
  obtains mode hs cs where "mode_of (get_prop j ''mode'') = Some mode"
    and "length hs \<le> 64" and "length cs \<le> 64" and "egress_build net mode hs cs blocked = Inr p"
  using assms
  by (auto simp: EgressPolicy_def not_less intro: that split: if_splits option.splits prod.splits)

text \<open>C38: A network policy accepted by the constructor is canonical: parsing the declaration
  it exposes (which is what is stored with the machine and compared with the host's answer)
  yields exactly the same policy, so canonicalisation is idempotent on every accepted input.\<close>

theorem EgressPolicy_idempotent:
  assumes "EgressPolicy net j blocked = Inr p"
  shows "EgressPolicy net (decl_json (ep_declaration p)) blocked = Inr p"
proof -
  from assms obtain mode hs cs where h: "length hs \<le> 64" "length cs \<le> 64"
      and b: "egress_build net mode hs cs blocked = Inr p"
    by (rule EgressPolicy_build)
  from egress_build_fields [OF b] h show ?thesis
    by (simp add: EgressPolicy_decl_json egress_build_canonical [OF b])
qed

section \<open>Decisions\<close>

text \<open>C39: An address is let out only by an allowlist policy, only when it is outside the
  hard-deny floor and the deployment's own deny rules, and only when a CIDR of the
  declaration covers it or an unexpired DNS answer taught it; the decision then changes
  nothing.\<close>

theorem allowsAddress_safe:
  assumes "allowsAddress net p ip now = Inr (True, p')"
  shows "nd_mode (ep_declaration p) = NetAllowlist \<and> p' = p \<and>
    isHardBlockedAddress net ip (ep_additionalBlockedCidrs p) = Inr False \<and>
    (block_check net (ep_allowedAddresses p) ip (if isIP net ip = 4 then 4 else 6) \<or>
     (\<exists>learned. ep_learned p ip = Some learned \<and> now < la_expiresAt learned))"
  using assms
  by (cases "nd_mode (ep_declaration p)")
    (auto simp: allowsAddress_def Let_def split: if_splits sum.splits bool.splits option.splits)

lemma learn_all_result:
  assumes "learn_all net hostname e as m = (None, m')"
  shows "m' a = (if a \<in> set as then Some \<lparr>la_hostname = hostname, la_expiresAt = e\<rparr> else m a)"
  using assms by (induction as arbitrary: m) (auto split: if_splits)

lemma any_hard_blocked_False:
  "any_hard_blocked net blocked as = Inr False \<Longrightarrow> a \<in> set as \<Longrightarrow>
    isHardBlockedAddress net a blocked = Inr False"
  by (induction as) (auto split: sum.splits bool.splits)

text \<open>A DNS answer is learned only for an allowlisted hostname and only if every address
  in it is outside the deny floor; each learned address then lives between 5 and 300 seconds
  whatever TTL the resolver reported, and no other entry changes.\<close>

theorem learnDns_bounded:
  assumes "learnDns net p hostname addresses ttlSeconds now = (None, p')"
  shows "allowsHostname p (normalizeHostname hostname) \<and>
    ep_learned p' a = (if a \<in> set addresses
      then Some \<lparr>la_hostname = normalizeHostname hostname,
                 la_expiresAt = now + seconds (min (max ttlSeconds 5) 300)\<rparr>
      else ep_learned p a) \<and>
    (a \<in> set addresses \<longrightarrow>
      isHardBlockedAddress net a (ep_additionalBlockedCidrs p) = Inr False \<and>
      now + seconds 5 \<le> la_expiresAt (the (ep_learned p' a)) \<and>
      la_expiresAt (the (ep_learned p' a)) \<le> now + seconds 300)"
proof -
  from assms have h: "allowsHostname p (normalizeHostname hostname)"
      and nb: "any_hard_blocked net (ep_additionalBlockedCidrs p) addresses = Inr False"
      and l: "learn_all net (normalizeHostname hostname) (now + min (max ttlSeconds 5) 300 * 1000)
        addresses (ep_learned p) = (None, ep_learned p')"
    by (auto simp: learnDns_def Let_def split: if_splits sum.splits bool.splits prod.splits)
  from learn_all_result [OF l, of a] any_hard_blocked_False [OF nb, of a] h
  show ?thesis by (auto simp: algebra_simps)
qed

end
