(* ===== verification/HostApi.thy ===== *)
theory HostApi
  imports Capacity NetPolicy
begin

text \<open>
  The control plane's side of the host protocol, \<open>clients/nehemiahd.ts\<close>: what a host
  reports, the errors that cross the component boundaries, and the client that turns an
  HTTP exchange into a value only if the answer matches the lease, the resources and the
  policy that were asked for. The exchange itself (fetch, body, JSON decoding) is the
  parameter: a value of \<open>exchange\<close>.
\<close>

section \<open>Host observations\<close>

text \<open>\<open>new Date(text)\<close>; an absent or empty text is \<open>None\<close> of the field's option.\<close>

datatype js_date = InvalidDate | Date time

fun date_ms :: "js_date option \<Rightarrow> time option" where
  "date_ms (Some (Date t)) = Some t"
| "date_ms _ = None"

record host_machine =
  hm_id :: string
  hm_status :: string
  hm_lease_id :: "string option"
  hm_lease_generation :: "int option"
  hm_metadata :: "(string \<times> string) list"
  hm_ready :: bool
  hm_started_at :: "js_date option"
  hm_ready_at :: "js_date option"
  hm_expires_at :: "js_date option"
  hm_resources :: "resources option"
  hm_network_policy :: "json option"
  hm_runtime_cohort_id :: "string option"
  hm_source_sha256 :: "string option"

abbreviation hm_meta :: "host_machine \<Rightarrow> string \<Rightarrow> string option" where
  "hm_meta m \<equiv> map_of (hm_metadata m)"

text \<open>
  \<open>new EgressPolicy(machine.network_policy).declaration\<close> inside a try: \<open>None\<close> when the
  host sent no policy or a malformed one.
\<close>

definition observed_policy :: "js_net \<Rightarrow> host_machine \<Rightarrow> net_decl option" where
  "observed_policy net m =
     (case hm_network_policy m of
        None \<Rightarrow> None
      | Some j \<Rightarrow> (case canonical_policy net j of Inl _ \<Rightarrow> None | Inr d \<Rightarrow> Some d))"

record exec_result =
  ex_stdout :: string
  ex_stderr :: string
  ex_exit_code :: "int option"
  ex_timed_out :: bool
  ex_duration_ms :: int

section \<open>Errors\<close>

datatype error =
    QuotaExceeded string
  | CapacityUnavailable string
  | BillingAdmissionRejected string string
  | InvalidMachineRequest string
  | IdempotencyConflict string
  | ManagedNetworkEgressUnavailable string
  | MachineNotForkable string
  | ReplayedCreateFailure int string string
  | ReplayedForkFailure int string string "uuid option"
  | HostRequestError "int option" string bool "string option"
  | HostForkContractError string "host_machine list"
  | HostEnrollmentError string string
  | HostHeartbeatError string string "int option"
  | MeteringInputError string
  | MeteringHostLifecycleError string
  | MeteringRateLimitError string
  | InvalidVolumeRequest string
  | VolumeProjectUnavailable string
  | VolumeQuotaExceeded string
  | VolumeIdempotencyConflict string
  | VolumeInfrastructureUnavailable string
  | VolumeIntegrityError string
  | InvalidTemplateRequest string
  | TemplateSourceNotFound string
  | TemplateSourceNotReady string
  | TemplateVersionConflict string
  | TemplateInfrastructureUnavailable string
  | TemplateIntegrityError string
  | DbError string
  | PlainError string

text \<open>\<open>HostForkContractError\<close> is a \<open>HostRequestError\<close> without status, ambiguous, without code.\<close>

fun is_host_error :: "error \<Rightarrow> bool" where
  "is_host_error (HostRequestError _ _ _ _) = True"
| "is_host_error (HostForkContractError _ _) = True"
| "is_host_error _ = False"

fun host_status :: "error \<Rightarrow> int option" where
  "host_status (HostRequestError s _ _ _) = s"
| "host_status _ = None"

fun host_ambiguous :: "error \<Rightarrow> bool" where
  "host_ambiguous (HostRequestError _ _ a _) = a"
| "host_ambiguous (HostForkContractError _ _) = True"
| "host_ambiguous _ = False"

fun host_code :: "error \<Rightarrow> string option" where
  "host_code (HostRequestError _ _ _ c) = c"
| "host_code _ = None"

definition is_not_found :: "error \<Rightarrow> bool" where
  "is_not_found e \<longleftrightarrow> is_host_error e \<and> host_status e = Some 404"

section \<open>Requests\<close>

record create_on_host =
  ch_leaseId :: uuid
  ch_leaseGeneration :: int
  ch_idempotencyKey :: string
  ch_template :: "string option"
  ch_ociReference :: "string option"
  ch_ttlSeconds :: int
  ch_resources :: resources
  ch_networkPolicy :: net_decl
  ch_metadata :: "(string \<times> string) list"
  ch_runtimeCohortId :: "string option"
  ch_sourceSha256 :: "string option"

record fork_child =
  fc_leaseId :: uuid
  fc_leaseGeneration :: int
  fc_expiresAt :: time
  fc_networkPolicy :: net_decl
  fc_resources :: resources
  fc_metadata :: "(string \<times> string) list"
  fc_runtimeCohortId :: "string option"
  fc_sourceSha256 :: "string option"

text \<open>The interface \<open>HostClient\<close>: the outcome of each call the services make.\<close>

record host_client =
  host_create :: "string \<Rightarrow> create_on_host \<Rightarrow> error + host_machine"
  host_get :: "string \<Rightarrow> string \<Rightarrow> error + host_machine option"
  host_destroy :: "string \<Rightarrow> string \<Rightarrow> uuid \<Rightarrow> error + unit"
  host_extend :: "string \<Rightarrow> string \<Rightarrow> uuid \<Rightarrow> string \<Rightarrow> time \<Rightarrow> error + host_machine"
  host_fork :: "string \<Rightarrow> string \<Rightarrow> uuid \<Rightarrow> string \<Rightarrow> fork_child list \<Rightarrow> error + host_machine list"
  host_exec :: "string \<Rightarrow> string \<Rightarrow> uuid \<Rightarrow> string \<Rightarrow> int \<Rightarrow> error + exec_result option"

section \<open>The client\<close>

datatype http_method = GET | POST | DELETE

text \<open>
  One exchange: something threw (credentials, timeout, transport, an oversized or undecodable
  body), or a response arrived with its status, its text, the \<open>error\<close> code found in it and
  the decoded body.
\<close>

datatype 'a exchange = Threw string | Responded int string "string option" "'a option"

definition client_request :: "js_net \<Rightarrow> string \<Rightarrow> http_method \<Rightarrow> 'a exchange \<Rightarrow> error + 'a option" where
  "client_request net address method x =
     (if isIP net address = 0 then Inl (HostRequestError None ''invalid host address'' False None)
      else case x of
          Threw message \<Rightarrow>
            Inl (HostRequestError None message (method = POST \<or> method = DELETE) None)
        | Responded status body code decoded \<Rightarrow>
            (if \<not> (200 \<le> status \<and> status \<le> 299)
             then Inl (HostRequestError (Some status) body
               ((status \<ge> 500 \<or> status = 429 \<or> status = 408) \<and> (method = POST \<or> method = DELETE)) code)
             else if status = 204 then Inr None
             else Inr decoded))"

definition create_matches :: "js_net \<Rightarrow> create_on_host \<Rightarrow> host_machine \<Rightarrow> bool" where
  "create_matches net request machine \<longleftrightarrow>
     hm_lease_id machine = Some (ch_leaseId request) \<and>
     hm_lease_generation machine = Some (ch_leaseGeneration request) \<and>
     hm_meta machine ''public_machine_id'' = map_of (ch_metadata request) ''public_machine_id'' \<and>
     hm_resources machine = Some (ch_resources request) \<and>
     hm_runtime_cohort_id machine = ch_runtimeCohortId request \<and>
     hm_source_sha256 machine = ch_sourceSha256 request \<and>
     observed_policy net machine = Some (ch_networkPolicy request)"

text \<open>An absent body makes the property reads of the caller throw; it is a plain error.\<close>

definition no_body :: error where
  "no_body = PlainError ''Cannot read properties of undefined''"

definition falsy :: "string option \<Rightarrow> bool" where
  "falsy s \<longleftrightarrow> s = None \<or> s = Some []"

definition client_create ::
    "js_net \<Rightarrow> host_machine exchange \<Rightarrow> string \<Rightarrow> create_on_host \<Rightarrow> error + host_machine" where
  "client_create net x address request =
     (if falsy (ch_runtimeCohortId request) \<or> falsy (ch_sourceSha256 request)
      then Inl (HostRequestError None
        ''managed host create requires an immutable runtime cohort and source digest'' False
        (Some ''invalid_runtime_binding''))
      else case client_request net address POST x of
          Inl e \<Rightarrow> Inl e
        | Inr None \<Rightarrow> Inl no_body
        | Inr (Some machine) \<Rightarrow>
            (if create_matches net request machine then Inr machine
             else Inl (HostRequestError None
               ''host create response did not match the requested lease and resources'' True None)))"

definition client_get :: "js_net \<Rightarrow> host_machine exchange \<Rightarrow> string \<Rightarrow> error + host_machine option" where
  "client_get net x address =
     (case client_request net address GET x of
        Inl e \<Rightarrow> (if is_not_found e then Inr None else Inl e)
      | Inr m \<Rightarrow> Inr m)"

definition client_destroy :: "js_net \<Rightarrow> unit exchange \<Rightarrow> string \<Rightarrow> error + unit" where
  "client_destroy net x address =
     (case client_request net address DELETE x of Inl e \<Rightarrow> Inl e | Inr _ \<Rightarrow> Inr ())"

definition client_extend ::
    "js_net \<Rightarrow> host_machine exchange \<Rightarrow> string \<Rightarrow> uuid \<Rightarrow> time \<Rightarrow> error + host_machine" where
  "client_extend net x address leaseId targetExpiresAt =
     (case client_request net address POST x of
        Inl e \<Rightarrow> Inl e
      | Inr None \<Rightarrow> Inl no_body
      | Inr (Some machine) \<Rightarrow>
          (if hm_lease_id machine \<noteq> Some leaseId \<or>
              (case date_ms (hm_expires_at machine) of None \<Rightarrow> True | Some t \<Rightarrow> t < targetExpiresAt)
           then Inl (HostRequestError None
             ''host extend response did not match the requested lease and expiry'' True None)
           else Inr machine))"

text \<open>One reported child against its reservation, with the ids already seen in the batch.\<close>

definition fork_child_ok ::
    "js_net \<Rightarrow> fork_child list \<Rightarrow> string list \<Rightarrow> string list \<Rightarrow> host_machine \<Rightarrow> bool" where
  "fork_child_ok net children observed hostIds machine =
     (case hm_meta machine ''public_machine_id'' of
        None \<Rightarrow> False
      | Some pid \<Rightarrow>
          (case find (\<lambda>c. map_of (fc_metadata c) ''public_machine_id'' = Some pid) (rev children) of
             None \<Rightarrow> False
           | Some child \<Rightarrow>
               hm_id machine \<noteq> [] \<and> hm_id machine \<notin> set hostIds \<and> pid \<noteq> [] \<and> pid \<notin> set observed \<and>
               hm_lease_id machine = Some (fc_leaseId child) \<and>
               hm_lease_generation machine = Some (fc_leaseGeneration child) \<and>
               hm_meta machine ''parent_machine_id'' = map_of (fc_metadata child) ''parent_machine_id'' \<and>
               hm_meta machine ''fork_operation_id'' = map_of (fc_metadata child) ''fork_operation_id'' \<and>
               hm_resources machine = Some (fc_resources child) \<and>
               hm_runtime_cohort_id machine = fc_runtimeCohortId child \<and>
               hm_source_sha256 machine = fc_sourceSha256 child \<and>
               observed_policy net machine = Some (fc_networkPolicy child) \<and>
               date_ms (hm_expires_at machine) = Some (fc_expiresAt child) \<and>
               hm_started_at machine \<noteq> Some InvalidDate \<and> hm_ready_at machine \<noteq> Some InvalidDate))"

fun fork_batch_ok ::
    "js_net \<Rightarrow> fork_child list \<Rightarrow> string list \<Rightarrow> string list \<Rightarrow> host_machine list \<Rightarrow> bool" where
  "fork_batch_ok net children observed hostIds [] = True"
| "fork_batch_ok net children observed hostIds (m # ms) =
     (fork_child_ok net children observed hostIds m \<and>
      fork_batch_ok net children (the (hm_meta m ''public_machine_id'') # observed) (hm_id m # hostIds) ms)"

text \<open>
  The decoded body of a fork answer: the entries of \<open>machines\<close>, \<open>None\<close> for an entry that is
  not an object; no decoded value when \<open>machines\<close> is missing or not an array.
\<close>

definition client_fork ::
    "js_net \<Rightarrow> host_machine option list exchange \<Rightarrow> string \<Rightarrow> fork_child list \<Rightarrow> error + host_machine list" where
  "client_fork net x address children =
     (if list_ex (\<lambda>c. falsy (fc_runtimeCohortId c) \<or> falsy (fc_sourceSha256 c)) children
      then Inl (HostRequestError None
        ''managed host fork requires immutable runtime cohort and source digests'' False
        (Some ''invalid_runtime_binding''))
      else case client_request net address POST x of
          Inl e \<Rightarrow> (if is_host_error e \<and> host_status e = Some 429
            then (case e of HostRequestError s m _ c \<Rightarrow> Inl (HostRequestError s m False c) | _ \<Rightarrow> Inl e)
            else Inl e)
        | Inr None \<Rightarrow> Inl (HostForkContractError ''host fork response did not contain the full batch'' [])
        | Inr (Some raw) \<Rightarrow>
            (let inspectable = List.map_filter id raw in
             if length raw \<noteq> length children \<or> length inspectable \<noteq> length raw
             then Inl (HostForkContractError ''host fork response did not contain the full batch'' inspectable)
             else if \<not> fork_batch_ok net children [] [] inspectable
             then Inl (HostForkContractError ''host fork child did not match its reserved descriptor'' inspectable)
             else Inr inspectable))"

definition client_exec :: "js_net \<Rightarrow> exec_result exchange \<Rightarrow> string \<Rightarrow> error + exec_result option" where
  "client_exec net x address =
     (case client_request net address POST x of
        Inl e \<Rightarrow>
          (case e of
             HostRequestError s m _ c \<Rightarrow>
               (if (s = Some 429 \<and> c = Some ''guest_operation_capacity_reached'') \<or>
                   (s = Some 503 \<and> c = Some ''guest_agent_unavailable'')
                then Inl (HostRequestError s m False c) else Inl e)
           | _ \<Rightarrow> Inl e)
      | Inr r \<Rightarrow> Inr r)"

section \<open>What an accepted answer guarantees\<close>

abbreviation hm_pid :: "host_machine \<Rightarrow> string" where
  "hm_pid m \<equiv> the (hm_meta m ''public_machine_id'')"

abbreviation fc_pid :: "fork_child \<Rightarrow> string option" where
  "fc_pid c \<equiv> map_of (fc_metadata c) ''public_machine_id''"

lemma fork_child_okD:
  assumes "fork_child_ok net children observed hostIds m"
  shows "hm_id m \<noteq> [] \<and> hm_id m \<notin> set hostIds \<and> hm_pid m \<notin> set observed \<and>
    (\<exists>c\<in>set children. fc_pid c = Some (hm_pid m) \<and> hm_lease_id m = Some (fc_leaseId c) \<and>
      hm_resources m = Some (fc_resources c) \<and> date_ms (hm_expires_at m) = Some (fc_expiresAt c))"
  using assms
  by (auto simp: fork_child_ok_def split: option.splits dest!: find_SomeD)

lemma fork_batch_ok_distinct:
  assumes "fork_batch_ok net children observed hostIds ms"
  shows "distinct (map hm_id ms) \<and> distinct (map hm_pid ms) \<and>
    set (map hm_id ms) \<inter> set hostIds = {} \<and> set (map hm_pid ms) \<inter> set observed = {} \<and>
    (\<forall>m\<in>set ms. hm_id m \<noteq> [] \<and> (\<exists>c\<in>set children. fc_pid c = Some (hm_pid m) \<and>
      hm_lease_id m = Some (fc_leaseId c) \<and> hm_resources m = Some (fc_resources c) \<and>
      date_ms (hm_expires_at m) = Some (fc_expiresAt c)))"
  using assms
proof (induction ms arbitrary: observed hostIds)
  case Nil
  then show ?case by simp
next
  case (Cons m ms)
  from Cons.prems have m: "fork_child_ok net children observed hostIds m"
      and ms: "fork_batch_ok net children (hm_pid m # observed) (hm_id m # hostIds) ms"
    by simp_all
  from fork_child_okD [OF m] Cons.IH [OF ms] show ?case by auto
qed

text \<open>The client accepts a fork answer only if it is a full batch: as many machines as
  reserved children, distinct on the host and in the control plane, and one for every
  reserved child, each with the lease, the resources and the expiry of its child.\<close>

theorem client_fork_full_batch:
  assumes "client_fork net x address children = Inr ms"
    and "distinct (map fc_pid children)" and "\<forall>c\<in>set children. fc_pid c \<noteq> None"
  shows "length ms = length children \<and> distinct (map hm_id ms) \<and>
    (\<forall>c\<in>set children. \<exists>m\<in>set ms. fc_pid c = Some (hm_pid m) \<and> hm_id m \<noteq> [] \<and>
      hm_lease_id m = Some (fc_leaseId c) \<and> hm_resources m = Some (fc_resources c) \<and>
      date_ms (hm_expires_at m) = Some (fc_expiresAt c))"
proof -
  from assms(1) have len: "length ms = length children" and ok: "fork_batch_ok net children [] [] ms"
    by (auto simp: client_fork_def Let_def split: if_splits sum.splits option.splits error.splits)
  note b = fork_batch_ok_distinct [OF ok]
  from b have bd: "distinct (map hm_id ms)" by simp
  from b have bm: "\<forall>m\<in>set ms. hm_id m \<noteq> [] \<and> (\<exists>c\<in>set children. fc_pid c = Some (hm_pid m) \<and>
      hm_lease_id m = Some (fc_leaseId c) \<and> hm_resources m = Some (fc_resources c) \<and>
      date_ms (hm_expires_at m) = Some (fc_expiresAt c))"
    by (elim conjE)
  have "(Some \<circ> hm_pid) ` set ms \<subseteq> fc_pid ` set children" using b by force
  moreover have "card ((Some \<circ> hm_pid) ` set ms) = length ms"
  proof -
    have "inj_on (Some \<circ> hm_pid) (set ms)" and d: "distinct ms"
      using b by (auto simp: distinct_map inj_on_def)
    then have "card ((Some \<circ> hm_pid) ` set ms) = card (set ms)" by (intro card_image)
    with distinct_card [OF d] show ?thesis by (simp only:)
  qed
  moreover have "card (fc_pid ` set children) = length children"
    using distinct_card [OF assms(2)] by simp
  ultimately have all: "(Some \<circ> hm_pid) ` set ms = fc_pid ` set children"
    using len by (intro card_subset_eq) auto
  have "\<exists>m\<in>set ms. fc_pid c = Some (hm_pid m) \<and> hm_id m \<noteq> [] \<and> hm_lease_id m = Some (fc_leaseId c) \<and>
      hm_resources m = Some (fc_resources c) \<and> date_ms (hm_expires_at m) = Some (fc_expiresAt c)"
    if c: "c \<in> set children" for c
  proof -
    from c have "fc_pid c \<in> (Some \<circ> hm_pid) ` set ms" unfolding all by (rule imageI)
    then obtain m where m: "m \<in> set ms" "fc_pid c = Some (hm_pid m)" by auto
    from bspec [OF bm m(1)] obtain c' where c': "c' \<in> set children" "fc_pid c' = Some (hm_pid m)"
        and h: "hm_id m \<noteq> []" "hm_lease_id m = Some (fc_leaseId c')"
        "hm_resources m = Some (fc_resources c')" "date_ms (hm_expires_at m) = Some (fc_expiresAt c')"
      by (elim conjE bexE)
    have "inj_on fc_pid (set children)" using assms(2) by (simp add: distinct_map)
    then have "c' = c" using c' m c by (intro inj_onD [of fc_pid "set children" c' c]) simp_all
    with m h show ?thesis by (intro bexI [of _ m]) simp_all
  qed
  with len bd show ?thesis by simp
qed

end
