(* ===== verification/Cohort.thy ===== *)
theory Cohort
  imports Json Capacity
begin

text \<open>
  Runtime cohorts, \<open>domain/runtime-cohort.ts\<close>: the immutable set of digests (kernel, VMM,
  jailer and root filesystems) a host runs, its canonical text and its identifier, the
  SHA-256 of that text. SHA-256 is the parameter \<open>sha256\<close>, from text to lower-case hex.
\<close>

text \<open>\<open>String(value)\<close>; the conversion that a template literal applies too.\<close>

fun join_commas :: "string list \<Rightarrow> string" where
  "join_commas [] = []"
| "join_commas [s] = s"
| "join_commas (s # ss) = s @ '','' @ join_commas ss"

fun js_string :: "json \<Rightarrow> string" where
  "js_string JNull = ''null''"
| "js_string (JBool b) = (if b then ''true'' else ''false'')"
| "js_string (JNum (JSInt n)) = show_int n"
| "js_string (JNum JSOther) = ''NaN''"
| "js_string (JStr s) = s"
| "js_string (JArr js) = join_commas (map (\<lambda>j. if j = JNull then [] else js_string j) js)"
| "js_string (JObj _) = ''[object Object]''"

fun js_string_opt :: "json option \<Rightarrow> string" where
  "js_string_opt None = ''undefined''"
| "js_string_opt (Some j) = js_string j"

text \<open>
  \<open>RuntimeCohort\<close>. The type of \<open>arch\<close> is the union of two strings, but the parser
  converts before it compares and stores the value it was given, so the field is untyped.
\<close>

record cohort_body =
  rc_contractVersion :: int
  rc_arch :: json
  rc_kernelSha256 :: string
  rc_firecrackerSha256 :: string
  rc_jailerSha256 :: string
  rc_pythonRootfsSha256 :: string
  rc_desktopRootfsSha256 :: string

record runtime_cohort = cohort_body +
  rc_id :: string

definition cohort_fields :: "string list" where
  "cohort_fields =
     [''id'', ''contract_version'', ''arch'', ''kernel_sha256'', ''firecracker_sha256'',
      ''jailer_sha256'', ''python_rootfs_sha256'', ''desktop_rootfs_sha256'']"

definition databaseRuntimeArchitecture :: "architecture \<Rightarrow> json" where
  "databaseRuntimeArchitecture a = JStr (if a = X86_64 then ''amd64'' else ''arm64'')"

definition newline :: string where
  "newline = [char_of (10 :: nat)]"

definition canonicalRuntimeCohort :: "'a cohort_body_scheme \<Rightarrow> string" where
  "canonicalRuntimeCohort c =
     ''contract_version='' @ show_int (rc_contractVersion c) @ newline @
     ''arch='' @ js_string (rc_arch c) @ newline @
     ''python='' @ rc_pythonRootfsSha256 c @ newline @
     ''desktop='' @ rc_desktopRootfsSha256 c @ newline @
     ''kernel='' @ rc_kernelSha256 c @ newline @
     ''firecracker='' @ rc_firecrackerSha256 c @ newline @
     ''jailer='' @ rc_jailerSha256 c @ newline"

definition runtimeCohortId :: "(string \<Rightarrow> string) \<Rightarrow> 'a cohort_body_scheme \<Rightarrow> string" where
  "runtimeCohortId sha256 c = sha256 (canonicalRuntimeCohort c)"

definition equalDigest :: "string \<Rightarrow> string \<Rightarrow> bool" where
  "equalDigest left right \<longleftrightarrow> length left = length right \<and> left = right"

fun digest_of :: "json option \<Rightarrow> string option" where
  "digest_of (Some (JStr s)) = (if hex64 s then Some s else None)"
| "digest_of _ = None"

definition parseRuntimeCohort ::
    "(string \<Rightarrow> string) \<Rightarrow> json \<Rightarrow> architecture option \<Rightarrow> string + runtime_cohort" where
  "parseRuntimeCohort sha256 value expectedArchitecture =
     (if \<not> is_object value \<or> length (object_keys value) \<noteq> length cohort_fields \<or>
         list_ex (\<lambda>k. k \<notin> set cohort_fields) (object_keys value)
      then Inl ''runtime_cohort must contain the exact signed cohort fields''
      else if get_prop value ''contract_version'' \<noteq> Some (JNum (JSInt 4)) \<or>
         js_string_opt (get_prop value ''arch'') \<notin> {''amd64'', ''arm64''}
      then Inl ''runtime_cohort contains an invalid contract, arch, or digest''
      else case (get_prop value ''arch'', digest_of (get_prop value ''id''),
                 digest_of (get_prop value ''kernel_sha256''),
                 digest_of (get_prop value ''firecracker_sha256''),
                 digest_of (get_prop value ''jailer_sha256''),
                 digest_of (get_prop value ''python_rootfs_sha256''),
                 digest_of (get_prop value ''desktop_rootfs_sha256'')) of
          (Some arch, Some cid, Some kern, Some firecracker, Some jailer, Some python, Some desktop) \<Rightarrow>
            (let c = \<lparr>rc_contractVersion = 4, rc_arch = arch, rc_kernelSha256 = kern,
                      rc_firecrackerSha256 = firecracker, rc_jailerSha256 = jailer,
                      rc_pythonRootfsSha256 = python, rc_desktopRootfsSha256 = desktop,
                      rc_id = cid\<rparr>
             in if (case expectedArchitecture of None \<Rightarrow> False
                    | Some a \<Rightarrow> arch \<noteq> databaseRuntimeArchitecture a)
                then Inl ''runtime_cohort architecture does not match the host''
                else if \<not> equalDigest cid (runtimeCohortId sha256 c)
                then Inl ''runtime_cohort id does not match its canonical digest set''
                else Inr c)
        | _ \<Rightarrow> Inl ''runtime_cohort contains an invalid contract, arch, or digest'')"

definition runtimeCohortWire :: "runtime_cohort \<Rightarrow> json" where
  "runtimeCohortWire c = JObj
     [(''id'', JStr (rc_id c)),
      (''contract_version'', JNum (JSInt (rc_contractVersion c))),
      (''arch'', rc_arch c),
      (''kernel_sha256'', JStr (rc_kernelSha256 c)),
      (''firecracker_sha256'', JStr (rc_firecrackerSha256 c)),
      (''jailer_sha256'', JStr (rc_jailerSha256 c)),
      (''python_rootfs_sha256'', JStr (rc_pythonRootfsSha256 c)),
      (''desktop_rootfs_sha256'', JStr (rc_desktopRootfsSha256 c))]"

datatype builtin_template = Python | Desktop

definition runtimeSourceSha256 :: "runtime_cohort \<Rightarrow> builtin_template \<Rightarrow> string" where
  "runtimeSourceSha256 c template =
     (if template = Python then rc_pythonRootfsSha256 c else rc_desktopRootfsSha256 c)"

section \<open>Well-formed cohorts\<close>

definition cohort_digests :: "'a cohort_body_scheme \<Rightarrow> string list" where
  "cohort_digests c = [rc_kernelSha256 c, rc_firecrackerSha256 c, rc_jailerSha256 c,
     rc_pythonRootfsSha256 c, rc_desktopRootfsSha256 c]"

definition cohort_wf :: "(string \<Rightarrow> string) \<Rightarrow> runtime_cohort \<Rightarrow> bool" where
  "cohort_wf sha256 c \<longleftrightarrow> rc_contractVersion c = 4 \<and>
     js_string (rc_arch c) \<in> {''amd64'', ''arm64''} \<and>
     list_all hex64 (cohort_digests c) \<and> hex64 (rc_id c) \<and> rc_id c = runtimeCohortId sha256 c"

lemma digest_of_Some [simp]: "digest_of j = Some s \<longleftrightarrow> j = Some (JStr s) \<and> hex64 s"
  by (cases j rule: digest_of.cases) auto

lemma parseRuntimeCohort_wf:
  assumes "parseRuntimeCohort sha256 value expected = Inr c"
  shows "cohort_wf sha256 c \<and> (\<forall>a. expected = Some a \<longrightarrow> rc_arch c = databaseRuntimeArchitecture a)"
  using assms
  by (cases c) (auto simp: parseRuntimeCohort_def cohort_wf_def cohort_digests_def Let_def
      equalDigest_def split: if_splits option.splits)

lemma runtimeCohortWire_props:
  "is_object (runtimeCohortWire c)" "object_keys (runtimeCohortWire c) = cohort_fields"
  "get_prop (runtimeCohortWire c) ''id'' = Some (JStr (rc_id c))"
  "get_prop (runtimeCohortWire c) ''contract_version'' = Some (JNum (JSInt (rc_contractVersion c)))"
  "get_prop (runtimeCohortWire c) ''arch'' = Some (rc_arch c)"
  "get_prop (runtimeCohortWire c) ''kernel_sha256'' = Some (JStr (rc_kernelSha256 c))"
  "get_prop (runtimeCohortWire c) ''firecracker_sha256'' = Some (JStr (rc_firecrackerSha256 c))"
  "get_prop (runtimeCohortWire c) ''jailer_sha256'' = Some (JStr (rc_jailerSha256 c))"
  "get_prop (runtimeCohortWire c) ''python_rootfs_sha256'' = Some (JStr (rc_pythonRootfsSha256 c))"
  "get_prop (runtimeCohortWire c) ''desktop_rootfs_sha256'' = Some (JStr (rc_desktopRootfsSha256 c))"
  by (simp_all add: runtimeCohortWire_def cohort_fields_def)

lemma parse_wire:
  assumes "cohort_wf sha256 c" and "\<And>a. expected = Some a \<Longrightarrow> rc_arch c = databaseRuntimeArchitecture a"
  shows "parseRuntimeCohort sha256 (runtimeCohortWire c) expected = Inr c"
proof -
  have "digest_of (get_prop (runtimeCohortWire c) k) = Some s"
    if "get_prop (runtimeCohortWire c) k = Some (JStr s)" "hex64 s" for k s
    using that by simp
  with assms show ?thesis
    by (cases c; cases expected)
      (auto simp: parseRuntimeCohort_def cohort_wf_def cohort_digests_def Let_def equalDigest_def
        runtimeCohortId_def canonicalRuntimeCohort_def runtimeCohortWire_props list_ex_iff)
qed

text \<open>C40: The wire form of a cohort and its parser are inverse: a parsed cohort printed with
  \<open>runtimeCohortWire\<close> parses to itself, with or without the architecture check it passed.\<close>

theorem parse_wire_roundtrip:
  assumes "parseRuntimeCohort sha256 value expected = Inr c"
  shows "parseRuntimeCohort sha256 (runtimeCohortWire c) expected = Inr c \<and>
    parseRuntimeCohort sha256 (runtimeCohortWire c) None = Inr c"
  using parseRuntimeCohort_wf [OF assms] by (auto intro!: parse_wire)

lemma canonical_inj:
  assumes "canonicalRuntimeCohort c = canonicalRuntimeCohort d"
    and "rc_contractVersion c = rc_contractVersion d"
    and "length (js_string (rc_arch c)) = length (js_string (rc_arch d))"
    and "list_all (\<lambda>s. length s = 64) (cohort_digests c)" and "list_all (\<lambda>s. length s = 64) (cohort_digests d)"
  shows "js_string (rc_arch c) = js_string (rc_arch d) \<and> cohort_digests c = cohort_digests d"
  using assms by (simp add: canonicalRuntimeCohort_def cohort_digests_def newline_def)

text \<open>A cohort identifier binds its contents: if SHA-256 does not collide on the two
  canonical texts, two parsed cohorts with the same identifier have the same architecture
  and the same five digests.\<close>

theorem cohort_id_binds:
  assumes "parseRuntimeCohort sha256 v e = Inr c" and "parseRuntimeCohort sha256 w f = Inr d"
    and "rc_id c = rc_id d"
    and no_collision: "sha256 (canonicalRuntimeCohort c) = sha256 (canonicalRuntimeCohort d) \<Longrightarrow>
      canonicalRuntimeCohort c = canonicalRuntimeCohort d"
  shows "js_string (rc_arch c) = js_string (rc_arch d) \<and> cohort_digests c = cohort_digests d"
proof -
  from parseRuntimeCohort_wf [OF assms(1)] parseRuntimeCohort_wf [OF assms(2)]
  have wf: "cohort_wf sha256 c" "cohort_wf sha256 d" by simp_all
  then have eq: "canonicalRuntimeCohort c = canonicalRuntimeCohort d"
    using assms(3) no_collision by (simp add: cohort_wf_def runtimeCohortId_def)
  have "list_all (\<lambda>s. length s = 64) (cohort_digests x)" if "cohort_wf sha256 x" for x
    using that by (auto simp: cohort_wf_def cohort_digests_def hex64_def)
  with wf have "list_all (\<lambda>s. length s = 64) (cohort_digests c)" "list_all (\<lambda>s. length s = 64) (cohort_digests d)"
    by blast+
  moreover from wf have "rc_contractVersion c = rc_contractVersion d"
      "length (js_string (rc_arch c)) = length (js_string (rc_arch d))"
    by (auto simp: cohort_wf_def)
  ultimately show ?thesis using canonical_inj [OF eq] by blast
qed

end
