(* ===== verification/Fleet.thy ===== *)
theory Fleet
  imports HostApi Cohort
begin

text \<open>
  The durable state of the control plane: the rows of the PostgreSQL tables that the
  scheduler, the machine repository, the reconciler and the billing admission share
  (\<open>db/schema.ts\<close> and the row types of \<open>domain/machines.ts\<close>), the row constraints and the
  trigger the migrations put on them, and the statements that write through them.

  A nullable column is an option; resource triples are one field. A statement whose row
  breaks a CHECK or the trigger fails with \<open>DbError\<close>, and its transaction with it.
\<close>

section \<open>Row types\<close>

datatype machine_state = Requested | Placing | Starting | Running | Stopping | Stopped | Failed | Lost

definition terminal :: "machine_state \<Rightarrow> bool" where
  "terminal s \<longleftrightarrow> s \<in> {Stopped, Failed, Lost}"

definition unplaced :: "machine_state \<Rightarrow> bool" where
  "unplaced s \<longleftrightarrow> s \<in> {Requested, Placing}"

text \<open>\<open>state NOT IN ('requested', 'placing', 'stopped', 'failed', 'lost')\<close>: counts against quota.\<close>

definition allocated :: "machine_state \<Rightarrow> bool" where
  "allocated s \<longleftrightarrow> s \<notin> {Requested, Placing, Stopped, Failed, Lost}"

datatype desired_state = DActive | DDraining | DQuarantined | DRevoked

datatype credential_status = CredActive | CredRevoked

datatype fork_state = Pending | Succeeded | ForkFailed

datatype replica_state = ReplicaRequested | ReplicaPulling | ReplicaReady | ReplicaFailed

datatype meter_dimension =
  vcpu_seconds | gib_seconds | storage_gib_hours | egress_bytes | inference_units

record org_row =
  o_id :: uuid
  o_max_machines :: int
  o_max :: resources
  o_max_storage_mb :: int

record project_row =
  p_id :: uuid
  p_organization_id :: uuid
  p_max_machines :: int
  p_max :: resources
  p_max_storage_mb :: int

record host_row =
  h_id :: uuid
  h_provider_id :: string
  h_region_id :: string
  h_address :: string
  h_architecture :: architecture
  h_state :: host_state
  h_desired_state :: desired_state
  h_credential_status :: credential_status
  h_credential_hash :: "string option"
  h_control_ciphertext :: "string option"
  h_gateway_ciphertext :: "string option"
  h_credential_generation :: int
  h_credential_rotated_at :: time
  h_credential_revoked_at :: "time option"
  h_enrollment_completed_at :: "time option"
  h_daemon_version :: string
  h_total :: resources
  h_reserved :: resources
  h_reported_vcpus :: "int option"
  h_reported_memory_mb :: "int option"
  h_reported_disk_mb :: "int option"
  h_reported_machine_count :: "int option"
  h_last_heartbeat_at :: "time option"
  h_lifecycle_reason :: "string option"
  h_last_metering_batch_at :: "time option"
  h_metering_quarantined_at :: "time option"
  h_cohort :: "runtime_cohort option"

record template_row =
  t_id :: uuid
  t_organization_id :: uuid
  t_project_id :: uuid
  t_name :: string
  t_version :: string
  t_host_template_name :: string
  t_source_machine_id :: "string option"
  t_manifest :: json
  t_object_key :: string
  t_checksum :: string
  t_size_bytes :: int
  t_created_at :: time
  t_deleted_at :: "time option"

record replica_row =
  r_template_id :: uuid
  r_host_id :: uuid
  r_state :: replica_state
  r_progress :: int
  r_verified_checksum :: "string option"
  r_error :: "string option"
  r_updated_at :: time

record machine_row =
  m_id :: string
  m_organization_id :: uuid
  m_project_id :: uuid
  m_host_id :: "uuid option"
  m_host_machine_id :: "string option"
  m_runtime_cohort_id :: "string option"
  m_source_sha256 :: "string option"
  m_lease_id :: uuid
  m_lease_generation :: int
  m_idempotency_key :: "string option"
  m_idempotency_request_hash :: string
  m_state :: machine_state
  m_state_reason :: "string option"
  m_region_id :: string
  m_architecture :: architecture
  m_resources :: resources
  m_template_id :: "uuid option"
  m_template_name :: "string option"
  m_source_oci_ref :: "string option"
  m_network_policy :: net_decl
  m_requested_ttl_seconds :: int
  m_ready :: bool
  m_created_at :: time
  m_placed_at :: "time option"
  m_started_at :: "time option"
  m_ready_at :: "time option"
  m_stopping_at :: "time option"
  m_stopped_at :: "time option"
  m_reservation_released_at :: "time option"
  m_usage_checkpoint_at :: "time option"
  m_usage_finalized_at :: "time option"
  m_usage_quarantined_at :: "time option"
  m_usage_quarantine_reason :: "string option"
  m_expires_at :: time
  m_startup_deadline_at :: "time option"
  m_create_claim_token :: "uuid option"
  m_create_claimed_until :: "time option"
  m_create_failure_status :: "int option"
  m_create_failure_code :: "string option"
  m_create_failure_message :: "string option"
  m_parent_machine_id :: "string option"
  m_fork_operation_id :: "uuid option"
  m_reconcile_after :: time
  m_reconcile_claim_token :: "uuid option"
  m_reconcile_claimed_until :: "time option"

record event_row =
  e_key :: string
  e_machine_id :: string
  e_organization_id :: uuid
  e_from_state :: "machine_state option"
  e_to_state :: machine_state
  e_reason :: "string option"
  e_observed_by :: string
  e_metadata :: "(string \<times> string) list"

record extend_row =
  x_id :: int
  x_organization_id :: uuid
  x_project_id :: uuid
  x_machine_id :: string
  x_idempotency_key :: string
  x_request_hash :: string
  x_target_expires_at :: time
  x_result_expires_at :: "time option"
  x_completed_at :: "time option"

record fork_row =
  f_id :: uuid
  f_audit_operation_id :: uuid
  f_organization_id :: uuid
  f_project_id :: uuid
  f_source_machine_id :: string
  f_source_host_id :: uuid
  f_source_host_machine_id :: string
  f_source_lease_id :: uuid
  f_idempotency_key :: string
  f_request_hash :: string
  f_child_count :: int
  f_state :: fork_state
  f_failure_status :: "int option"
  f_failure_code :: "string option"
  f_failure_message :: "string option"
  f_reconcile_after :: time
  f_reconcile_claim_token :: "uuid option"
  f_reconcile_claimed_until :: "time option"
  f_cleanup_requested_at :: "time option"
  f_cleanup_failure_status :: "int option"
  f_cleanup_failure_code :: "string option"
  f_cleanup_failure_message :: "string option"
  f_cleanup_claim_token :: "uuid option"
  f_cleanup_claimed_until :: "time option"
  f_created_at :: time
  f_completed_at :: "time option"

record child_row =
  c_operation_id :: uuid
  c_ordinal :: nat
  c_machine_id :: string
  c_lease_id :: uuid

record audit_row =
  a_key :: string
  a_operation_id :: "uuid option"
  a_organization_id :: "uuid option"
  a_project_id :: "uuid option"
  a_actor_type :: string
  a_actor_id :: "string option"
  a_action :: string
  a_outcome :: string
  a_reason_code :: "string option"
  a_resource_type :: string
  a_resource_id :: string
  a_request_id :: "string option"
  a_user_agent :: "string option"
  a_metadata :: "(string \<times> json) list"

record billing_row =
  b_organization_id :: uuid
  b_plan :: string
  b_spend_cap_cents :: "int option"
  b_delinquent_at :: "time option"

text \<open>
  SQL numerics are integers counting \<open>10\<^sup>-\<^sup>1\<^sup>3\<close>: milliseconds over 1000, divided by 1024,
  and the nine decimals of \<open>usage_events.quantity\<close> are all whole in that unit.
\<close>

type_synonym numeric13 = int

record usage_row =
  u_key :: string
  u_organization_id :: uuid
  u_project_id :: uuid
  u_machine_id :: "string option"
  u_dimension :: meter_dimension
  u_quantity :: numeric13
  u_period_start :: time
  u_period_end :: time
  u_source :: string

record outbox_row =
  q_key :: string
  q_organization_id :: uuid
  q_project_id :: uuid
  q_machine_id :: string
  q_vcpus :: int
  q_memory_mb :: int
  q_period_start :: time
  q_period_end :: time
  q_final :: bool
  q_source :: string
  q_attempts :: nat
  q_last_error :: "string option"
  q_processed_at :: "time option"
  q_next_attempt_at :: time
  q_claim_token :: "uuid option"
  q_claimed_until :: "time option"
  q_created_at :: time

record volume_row =
  v_id :: string
  v_organization_id :: uuid
  v_project_id :: uuid
  v_object_prefix :: string
  v_size_limit_bytes :: int
  v_observed_size_bytes :: int
  v_created_at :: time
  v_expires_at :: time
  v_deleted_at :: "time option"
  v_idempotency_key :: "string option"
  v_create_request_hash :: "string option"

record write_grant_row =
  wg_id :: uuid
  wg_volume_id :: string
  wg_organization_id :: uuid
  wg_project_id :: uuid
  wg_operation_key :: "string option"
  wg_attempt :: int
  wg_observed_size_at_reservation :: int
  wg_maximum_bytes :: int
  wg_created_at :: time
  wg_expires_at :: time
  wg_issued_at :: "time option"

record deletion_job_row =
  vd_volume_id :: string
  vd_organization_id :: uuid
  vd_project_id :: uuid
  vd_delete_after :: time
  vd_requested_at :: time
  vd_next_attempt_at :: time
  vd_attempt_count :: int
  vd_claim_token :: "uuid option"
  vd_claimed_at :: "time option"
  vd_claim_expires_at :: "time option"
  vd_scheduled_at :: "time option"
  vd_last_error_code :: "string option"

text \<open>Nanosecond and byte counters are \<open>numeric(30, 0)\<close> columns: integers.\<close>

record observation_row =
  ob_id :: nat
  ob_host_id :: uuid
  ob_machine_id :: string
  ob_host_machine_id :: string
  ob_lease_id :: uuid
  ob_lease_generation :: int
  ob_host_boot_id :: uuid
  ob_sequence :: int
  ob_kind :: string
  ob_quality :: string
  ob_quality_reason :: string
  ob_runtime_ns :: int
  ob_egress_bytes :: int
  ob_egress_counter_epoch :: int
  ob_observed_monotonic_ns :: int
  ob_observed_at :: time
  ob_received_at :: time
  ob_vcpus :: int
  ob_memory_bytes :: int
  ob_process_id :: int
  ob_payload_hash :: string

record meter_row =
  mm_machine_id :: string
  mm_host_id :: uuid
  mm_host_machine_id :: string
  mm_lease_id :: uuid
  mm_lease_generation :: int
  mm_host_boot_id :: uuid
  mm_last_sequence :: int
  mm_last_runtime_ns :: int
  mm_projected_runtime_ns :: int
  mm_start_monotonic_ns :: "int option"
  mm_last_observed_monotonic_ns :: "int option"
  mm_last_egress_bytes :: int
  mm_egress_counter_epoch :: int
  mm_start_seen :: bool
  mm_final_seen :: bool
  mm_last_observed_at :: "time option"
  mm_last_period_end :: "time option"
  mm_last_received_at :: "time option"
  mm_loss_closed_at :: "time option"
  mm_quarantined_at :: "time option"
  mm_quarantine_reason :: "string option"

record raw_usage_row =
  rw_key :: string
  rw_observation_id :: nat
  rw_organization_id :: uuid
  rw_project_id :: uuid
  rw_machine_id :: string
  rw_lease_id :: uuid
  rw_lease_generation :: int
  rw_dimension :: string
  rw_unit :: string
  rw_quantity :: int
  rw_period_start :: time
  rw_period_end :: time

record exception_row =
  me_key :: string
  me_host_id :: "uuid option"
  me_machine_id :: string
  me_lease_id :: uuid
  me_lease_generation :: int
  me_host_boot_id :: "uuid option"
  me_sequence :: "int option"
  me_reason :: string

text \<open>A resolution names its exception by the unique key of the exception.\<close>

record resolution_row =
  mr_exception_key :: string
  mr_resolution :: string

record region_row =
  rg_id :: string
  rg_enabled :: bool

record grant_row =
  g_id :: uuid
  g_token_hash :: string
  g_host_id :: uuid
  g_provider_id :: string
  g_region_id :: string
  g_address :: string
  g_architecture :: architecture
  g_total :: resources
  g_issued_by_organization_id :: uuid
  g_issued_by_user_id :: string
  g_cohort :: "runtime_cohort option"
  g_created_at :: time
  g_expires_at :: time
  g_consumed_at :: "time option"
  g_revoked_at :: "time option"

record heartbeat_row =
  hb_host_id :: uuid
  hb_sample_slot :: int
  hb_observed_at :: time
  hb_state :: host_state
  hb_available :: resources
  hb_machine_count :: int
  hb_kvm_available :: bool
  hb_daemon_version :: string
  hb_credential_generation :: int
  hb_cohort :: runtime_cohort

record fleet =
  regions :: "region_row list"
  organizations :: "org_row list"
  projects :: "project_row list"
  hosts :: "host_row list"
  templates :: "template_row list"
  template_replicas :: "replica_row list"
  machines :: "machine_row list"
  machine_events :: "event_row list"
  extend_ops :: "extend_row list"
  fork_ops :: "fork_row list"
  fork_children :: "child_row list"
  audit_events :: "audit_row list"
  billing_accounts :: "billing_row list"
  usage_events :: "usage_row list"
  usage_outbox :: "outbox_row list"
  volumes :: "volume_row list"
  volume_write_grants :: "write_grant_row list"
  volume_deletion_jobs :: "deletion_job_row list"
  host_usage_observations :: "observation_row list"
  machine_meter_state :: "meter_row list"
  meter_raw_usage_events :: "raw_usage_row list"
  metering_exceptions :: "exception_row list"
  metering_exception_resolutions :: "resolution_row list"
  host_enrollment_grants :: "grant_row list"
  host_heartbeats :: "heartbeat_row list"
  fleet_operator_organizations :: "uuid list"

end
