(* ===== verification/Store.thy ===== *)
theory Store
  imports Fleet
begin

text \<open>
  Writing to the fleet tables: the CHECK constraints and triggers of the migrations, as
  predicates on rows, and the INSERT and UPDATE statements that go through them. A CHECK
  fails only when it is definitely false, so a clause on a NULL column passes (\<open>opt_ok\<close>).
\<close>

section \<open>Row constraints\<close>

definition opt_ok :: "('a \<Rightarrow> bool) \<Rightarrow> 'a option \<Rightarrow> bool" where
  "opt_ok P x = (case x of None \<Rightarrow> True | Some v \<Rightarrow> P v)"

lemma opt_ok_simps [simp]: "opt_ok P None" "opt_ok P (Some v) = P v"
  by (simp_all add: opt_ok_def)

definition machine_id_ok :: "string \<Rightarrow> bool" where
  "machine_id_ok s \<longleftrightarrow> startsWith s ''m_'' \<and> length s \<ge> 14 \<and>
     list_all (\<lambda>c. is_alnum c \<or> c \<in> set ''_-'') (drop 2 s)"

definition failure_code_ok :: "string \<Rightarrow> bool" where
  "failure_code_ok s \<longleftrightarrow> s \<noteq> [] \<and> length s \<le> 128 \<and> is_lower (hd s) \<and>
     list_all (\<lambda>c. is_lower c \<or> is_digit c \<or> c \<in> set ''._:-'') s"

text \<open>\<open>^[A-Za-z0-9._:-]{1,128}$\<close>.\<close>

definition idempotency_key_ok :: "string \<Rightarrow> bool" where
  "idempotency_key_ok s \<longleftrightarrow> s \<noteq> [] \<and> length s \<le> 128 \<and>
     list_all (\<lambda>c. is_alnum c \<or> c \<in> set ''._:-'') s"

definition template_name_ok :: "string \<Rightarrow> bool" where
  "template_name_ok s \<longleftrightarrow> s \<noteq> [] \<and> length s \<le> 255 \<and> is_alnum (hd s) \<and>
     list_all (\<lambda>c. is_alnum c \<or> c \<in> set ''._/-'') s"

definition network_policy_shape :: "net_decl \<Rightarrow> bool" where
  "network_policy_shape d \<longleftrightarrow> length (nd_hostnames d) \<le> 64 \<and> length (nd_cidrs d) \<le> 64 \<and>
     (if nd_mode d = NetOff then nd_hostnames d = [] \<and> nd_cidrs d = []
      else length (nd_hostnames d) + length (nd_cidrs d) > 0)"

text \<open>\<open>machines_runtime_source_binding_check\<close> of migration 0025.\<close>

definition runtime_binding_check :: "machine_row \<Rightarrow> bool" where
  "runtime_binding_check m \<longleftrightarrow>
     terminal (m_state m) \<or>
     (m_state m \<in> {Requested, Placing} \<and> m_host_id m = None \<and>
      m_runtime_cohort_id m = None \<and> m_source_sha256 m = None) \<or>
     (m_state m \<in> {Starting, Running, Stopping} \<and> m_host_id m \<noteq> None \<and>
      opt_ok hex64 (m_runtime_cohort_id m) \<and> opt_ok hex64 (m_source_sha256 m))"

definition machine_check :: "machine_row \<Rightarrow> bool" where
  "machine_check m \<longleftrightarrow>
     machine_id_ok (m_id m) \<and> hex64 (m_idempotency_request_hash m) \<and>
     opt_ok template_name_ok (m_template_name m) \<and>
     15 \<le> m_requested_ttl_seconds m \<and> m_requested_ttl_seconds m \<le> 86400 \<and>
     0 < vcpus (m_resources m) \<and> 0 < memoryMb (m_resources m) \<and> 0 < diskMb (m_resources m) \<and>
     length (filter (\<lambda>x. x \<noteq> None) [m_template_id m, m_template_name m, m_source_oci_ref m]) = 1 \<and>
     (m_ready m \<longleftrightarrow> m_ready_at m \<noteq> None) \<and>
     (m_create_claim_token m = None \<longleftrightarrow> m_create_claimed_until m = None) \<and>
     opt_ok (\<lambda>n. 400 \<le> n \<and> n \<le> 599) (m_create_failure_status m) \<and>
     opt_ok failure_code_ok (m_create_failure_code m) \<and>
     opt_ok (\<lambda>t. 1 \<le> length t \<and> length t \<le> 512) (m_create_failure_message m) \<and>
     network_policy_shape (m_network_policy m) \<and>
     (terminal (m_state m) \<or> m_network_policy m = net_off) \<and>
     0 < m_lease_generation m \<and> runtime_binding_check m"

definition strip_sha256 :: "string \<Rightarrow> string" where
  "strip_sha256 s = (if startsWith s ''sha256:'' then drop 7 s else s)"

text \<open>
  The digest a machine must run on a host: its template's checksum, or the host's root
  filesystem for a built-in. \<open>live\<close> restricts templates to those not deleted.
\<close>

definition source_digest :: "bool \<Rightarrow> fleet \<Rightarrow> host_row \<Rightarrow> machine_row \<Rightarrow> string option" where
  "source_digest live s h m =
     (case m_template_id m of
        Some t \<Rightarrow>
          map_option (\<lambda>r. strip_sha256 (t_checksum r))
            (find (\<lambda>r. t_id r = t \<and> (live \<longrightarrow> t_deleted_at r = None)) (templates s))
      | None \<Rightarrow>
          (if m_template_name m = Some ''python'' then map_option rc_pythonRootfsSha256 (h_cohort h)
           else if m_template_name m = Some ''desktop'' then map_option rc_desktopRootfsSha256 (h_cohort h)
           else None))"

text \<open>The trigger \<open>enforce_machine_runtime_source_immutable\<close>; it may fill in the binding.\<close>

definition machine_trigger :: "fleet \<Rightarrow> machine_row option \<Rightarrow> machine_row \<Rightarrow> error + machine_row" where
  "machine_trigger s old new =
     (if (case old of None \<Rightarrow> False
          | Some r \<Rightarrow> m_runtime_cohort_id r \<noteq> None \<and>
              (m_runtime_cohort_id new \<noteq> m_runtime_cohort_id r \<or> m_source_sha256 new \<noteq> m_source_sha256 r))
      then Inl (DbError ''machine runtime source binding is immutable'')
      else if m_state new \<in> {Starting, Running, Stopping} then
        (case find (\<lambda>h. Some (h_id h) = m_host_id new) (hosts s) of
           None \<Rightarrow> Inl (DbError ''assigned machine host or immutable source is not runtime-cohort ready'')
         | Some h \<Rightarrow>
             (case h_cohort h of
                None \<Rightarrow> Inl (DbError ''assigned machine host or immutable source is not runtime-cohort ready'')
              | Some c \<Rightarrow>
                  (let src = source_digest False s h new;
                       new' = new\<lparr>m_runtime_cohort_id :=
                                    (if m_runtime_cohort_id new = None then Some (rc_id c)
                                     else m_runtime_cohort_id new),
                                  m_source_sha256 :=
                                    (if m_source_sha256 new = None then src else m_source_sha256 new)\<rparr>
                   in if src \<noteq> None \<and> \<not> hex64 (the src)
                      then Inl (DbError ''assigned machine host or immutable source is not runtime-cohort ready'')
                      else if m_runtime_cohort_id new' \<noteq> Some (rc_id c) \<or> m_source_sha256 new' \<noteq> src
                      then Inl (DbError ''machine runtime source does not match its assigned host'')
                      else Inr new')))
      else Inr new)"

text \<open>\<open>hosts_runtime_cohort_check\<close> and its twin on the enrollment grants.\<close>

definition cohort_check :: "architecture \<Rightarrow> runtime_cohort \<Rightarrow> bool" where
  "cohort_check arch c \<longleftrightarrow> hex64 (rc_id c) \<and> rc_contractVersion c = 4 \<and>
     rc_arch c = databaseRuntimeArchitecture arch \<and> hex64 (rc_kernelSha256 c) \<and>
     hex64 (rc_firecrackerSha256 c) \<and> hex64 (rc_jailerSha256 c) \<and> hex64 (rc_pythonRootfsSha256 c) \<and>
     hex64 (rc_desktopRootfsSha256 c)"

definition host_check :: "host_row \<Rightarrow> bool" where
  "host_check h \<longleftrightarrow>
     0 < vcpus (h_total h) \<and> 0 < memoryMb (h_total h) \<and> 0 < diskMb (h_total h) \<and>
     0 \<le> h_reserved h \<and> h_reserved h \<le> h_total h \<and>
     opt_ok ((\<le>) 0) (h_reported_vcpus h) \<and> opt_ok ((\<le>) 0) (h_reported_memory_mb h) \<and>
     opt_ok ((\<le>) 0) (h_reported_disk_mb h) \<and> opt_ok ((\<le>) 0) (h_reported_machine_count h) \<and>
     0 < h_credential_generation h \<and>
     (if h_credential_status h = CredActive
      then h_credential_hash h \<noteq> None \<and> h_control_ciphertext h \<noteq> None \<and>
           h_gateway_ciphertext h \<noteq> None \<and> h_credential_revoked_at h = None
      else h_credential_hash h = None \<and> h_control_ciphertext h = None \<and>
           h_gateway_ciphertext h = None \<and> h_credential_revoked_at h \<noteq> None) \<and>
     opt_ok (\<lambda>t. 1 \<le> length t \<and> length t \<le> 512) (h_lifecycle_reason h) \<and>
     (h_desired_state h = DRevoked \<longrightarrow> h_credential_status h = CredRevoked) \<and>
     opt_ok (cohort_check (h_architecture h)) (h_cohort h)"

definition fork_check :: "fork_row \<Rightarrow> bool" where
  "fork_check f \<longleftrightarrow>
     1 \<le> f_child_count f \<and> f_child_count f \<le> 8 \<and> hex64 (f_request_hash f) \<and>
     idempotency_key_ok (f_idempotency_key f) \<and>
     (f_reconcile_claim_token f = None \<longleftrightarrow> f_reconcile_claimed_until f = None) \<and>
     (case f_state f of
        Pending \<Rightarrow> f_completed_at f = None \<and> f_failure_status f = None \<and> f_failure_code f = None \<and>
          f_failure_message f = None
      | Succeeded \<Rightarrow> f_completed_at f \<noteq> None \<and> f_failure_status f = None \<and> f_failure_code f = None \<and>
          f_failure_message f = None
      | ForkFailed \<Rightarrow> f_completed_at f \<noteq> None \<and> opt_ok (\<lambda>n. 400 \<le> n \<and> n \<le> 599) (f_failure_status f) \<and>
          opt_ok failure_code_ok (f_failure_code f) \<and>
          opt_ok (\<lambda>t. 1 \<le> length t \<and> length t \<le> 512) (f_failure_message f)) \<and>
     (if f_cleanup_requested_at f = None
      then f_cleanup_failure_status f = None \<and> f_cleanup_failure_code f = None \<and>
           f_cleanup_failure_message f = None \<and> f_cleanup_claim_token f = None \<and>
           f_cleanup_claimed_until f = None
      else opt_ok (\<lambda>n. 400 \<le> n \<and> n \<le> 599) (f_cleanup_failure_status f) \<and>
           opt_ok failure_code_ok (f_cleanup_failure_code f) \<and>
           opt_ok (\<lambda>t. 1 \<le> length t \<and> length t \<le> 512) (f_cleanup_failure_message f) \<and>
           (f_cleanup_claim_token f = None \<longleftrightarrow> f_cleanup_claimed_until f = None))"

definition extend_check :: "extend_row \<Rightarrow> bool" where
  "extend_check x \<longleftrightarrow>
     (case x_result_expires_at x of
        None \<Rightarrow> x_completed_at x = None
      | Some t \<Rightarrow> x_completed_at x \<noteq> None \<and> x_target_expires_at x \<le> t)"

section \<open>Statements\<close>

text \<open>UPDATE of the rows that satisfy \<open>P\<close>, each new row stored through \<open>g\<close>.\<close>

fun store_rows :: "('r \<Rightarrow> bool) \<Rightarrow> ('r \<Rightarrow> error + 'r) \<Rightarrow> 'r list \<Rightarrow> error + 'r list" where
  "store_rows P g [] = Inr []"
| "store_rows P g (r # rs) =
     (if P r then
        (case g r of Inl e \<Rightarrow> Inl e
         | Inr r' \<Rightarrow> (case store_rows P g rs of Inl e \<Rightarrow> Inl e | Inr rs' \<Rightarrow> Inr (r' # rs')))
      else (case store_rows P g rs of Inl e \<Rightarrow> Inl e | Inr rs' \<Rightarrow> Inr (r # rs')))"

definition store_machine :: "fleet \<Rightarrow> machine_row option \<Rightarrow> machine_row \<Rightarrow> error + machine_row" where
  "store_machine s old new =
     (case machine_trigger s old new of
        Inl e \<Rightarrow> Inl e
      | Inr r \<Rightarrow> if machine_check r then Inr r else Inl (DbError ''machines check constraint''))"

definition update_machines ::
    "(machine_row \<Rightarrow> bool) \<Rightarrow> (machine_row \<Rightarrow> machine_row) \<Rightarrow> fleet \<Rightarrow> error + fleet" where
  "update_machines P f s =
     (case store_rows P (\<lambda>r. store_machine s (Some r) (f r)) (machines s) of
        Inl e \<Rightarrow> Inl e
      | Inr ms \<Rightarrow> Inr (s\<lparr>machines := ms\<rparr>))"

definition insert_machine :: "machine_row \<Rightarrow> fleet \<Rightarrow> error + fleet" where
  "insert_machine m s =
     (if m_id m \<in> set (map m_id (machines s)) then Inl (DbError ''machines_pkey'')
      else if m_lease_id m \<in> set (map m_lease_id (machines s)) then Inl (DbError ''machines_lease_id_key'')
      else if m_idempotency_key m \<noteq> None \<and>
        list_ex (\<lambda>r. m_organization_id r = m_organization_id m \<and> m_project_id r = m_project_id m \<and>
          m_idempotency_key r = m_idempotency_key m) (machines s)
      then Inl (DbError ''machines_organization_id_project_id_idempotency_key_key'')
      else if \<not> list_ex (\<lambda>p. p_id p = m_project_id m \<and> p_organization_id p = m_organization_id m) (projects s)
      then Inl (DbError ''machines_project_id_organization_id_fkey'')
      else if m_template_id m \<noteq> None \<and> \<not> list_ex (\<lambda>t. Some (t_id t) = m_template_id m \<and>
          t_organization_id t = m_organization_id m \<and> t_project_id t = m_project_id m) (templates s)
      then Inl (DbError ''machines_template_fk'')
      else if m_region_id m \<notin> set (map rg_id (regions s)) then Inl (DbError ''machines_region_id_fkey'')
      else if m_fork_operation_id m \<noteq> None \<and> \<not> list_ex (\<lambda>f. Some (f_id f) = m_fork_operation_id m \<and>
          f_organization_id f = m_organization_id m \<and> f_project_id f = m_project_id m) (fork_ops s)
      then Inl (DbError ''machines_fork_operation_fk'')
      else if m_parent_machine_id m \<noteq> None \<and> \<not> list_ex (\<lambda>r. Some (m_id r) = m_parent_machine_id m \<and>
          m_organization_id r = m_organization_id m) (machines s)
      then Inl (DbError ''machines_parent_tenant_fk'')
      else case store_machine s None m of
          Inl e \<Rightarrow> Inl e
        | Inr r \<Rightarrow> Inr (s\<lparr>machines := machines s @ [r]\<rparr>))"

definition update_hosts :: "(host_row \<Rightarrow> bool) \<Rightarrow> (host_row \<Rightarrow> host_row) \<Rightarrow> fleet \<Rightarrow> error + fleet" where
  "update_hosts P f s =
     (case store_rows P (\<lambda>r. if h_cohort r \<noteq> None \<and> h_cohort (f r) \<noteq> h_cohort r
          then Inl (DbError ''host runtime cohort is immutable'')
          else if host_check (f r) then Inr (f r) else Inl (DbError ''hosts check constraint'')) (hosts s) of
        Inl e \<Rightarrow> Inl e
      | Inr hs \<Rightarrow> Inr (s\<lparr>hosts := hs\<rparr>))"

definition update_forks :: "(fork_row \<Rightarrow> bool) \<Rightarrow> (fork_row \<Rightarrow> fork_row) \<Rightarrow> fleet \<Rightarrow> error + fleet" where
  "update_forks P f s =
     (case store_rows P (\<lambda>r. if fork_check (f r) then Inr (f r)
          else Inl (DbError ''machine_fork_operations check constraint'')) (fork_ops s) of
        Inl e \<Rightarrow> Inl e
      | Inr fs \<Rightarrow> Inr (s\<lparr>fork_ops := fs\<rparr>))"

definition update_extends :: "(extend_row \<Rightarrow> bool) \<Rightarrow> (extend_row \<Rightarrow> extend_row) \<Rightarrow> fleet \<Rightarrow> error + fleet" where
  "update_extends P f s =
     (case store_rows P (\<lambda>r. if extend_check (f r) then Inr (f r)
          else Inl (DbError ''machine_extend_operations check constraint'')) (extend_ops s) of
        Inl e \<Rightarrow> Inl e
      | Inr xs \<Rightarrow> Inr (s\<lparr>extend_ops := xs\<rparr>))"

text \<open>\<open>INSERT INTO machine_events ... ON CONFLICT DO NOTHING\<close>: the key is unique.\<close>

definition insert_event :: "event_row \<Rightarrow> fleet \<Rightarrow> fleet" where
  "insert_event e s =
     (if e_key e \<in> set (map e_key (machine_events s)) then s
      else s\<lparr>machine_events := machine_events s @ [e]\<rparr>)"

text \<open>Transactions: an error rolls every statement back.\<close>

type_synonym 'a tx = "fleet \<Rightarrow> error + ('a \<times> fleet)"

section \<open>Lemmas on the statements\<close>

interpretation mkey: keyed m_id .

interpretation hkey: keyed h_id .

interpretation fkey: keyed f_id .

text \<open>A row stored by an update: what was written, with the binding the trigger may have filled.\<close>

definition stored_as :: "machine_row \<Rightarrow> machine_row \<Rightarrow> bool" where
  "stored_as w r \<longleftrightarrow> machine_check r \<and>
     r = w\<lparr>m_runtime_cohort_id := m_runtime_cohort_id r, m_source_sha256 := m_source_sha256 r\<rparr>"

lemma machine_trigger_keeps:
  assumes "machine_trigger s old new = Inr r"
  shows "r = new\<lparr>m_runtime_cohort_id := m_runtime_cohort_id r, m_source_sha256 := m_source_sha256 r\<rparr>"
  using assms
  by (auto simp: machine_trigger_def Let_def split: if_splits option.splits)

lemma store_machine_stored: "store_machine s old new = Inr r \<Longrightarrow> stored_as new r"
  by (auto simp: store_machine_def stored_as_def split: sum.splits if_splits dest: machine_trigger_keeps)

lemma stored_as_sel:
  assumes "stored_as w r"
  shows "m_id r = m_id w" "m_organization_id r = m_organization_id w" "m_project_id r = m_project_id w"
    "m_host_id r = m_host_id w" "m_host_machine_id r = m_host_machine_id w" "m_lease_id r = m_lease_id w"
    "m_idempotency_key r = m_idempotency_key w"
    "m_idempotency_request_hash r = m_idempotency_request_hash w"
    "m_state r = m_state w" "m_state_reason r = m_state_reason w" "m_resources r = m_resources w"
    "m_ready r = m_ready w" "m_ready_at r = m_ready_at w" "m_stopped_at r = m_stopped_at w"
    "m_reservation_released_at r = m_reservation_released_at w" "m_expires_at r = m_expires_at w"
    "m_create_claim_token r = m_create_claim_token w"
    "m_create_claimed_until r = m_create_claimed_until w"
    "m_create_failure_status r = m_create_failure_status w"
    "m_fork_operation_id r = m_fork_operation_id w" "m_parent_machine_id r = m_parent_machine_id w"
proof -
  from assms have r: "r = w\<lparr>m_runtime_cohort_id := m_runtime_cohort_id r, m_source_sha256 := m_source_sha256 r\<rparr>"
    by (simp add: stored_as_def)
  show "m_id r = m_id w" "m_organization_id r = m_organization_id w" "m_project_id r = m_project_id w"
    "m_host_id r = m_host_id w" "m_host_machine_id r = m_host_machine_id w" "m_lease_id r = m_lease_id w"
    "m_idempotency_key r = m_idempotency_key w"
    "m_idempotency_request_hash r = m_idempotency_request_hash w"
    "m_state r = m_state w" "m_state_reason r = m_state_reason w" "m_resources r = m_resources w"
    "m_ready r = m_ready w" "m_ready_at r = m_ready_at w" "m_stopped_at r = m_stopped_at w"
    "m_reservation_released_at r = m_reservation_released_at w" "m_expires_at r = m_expires_at w"
    "m_create_claim_token r = m_create_claim_token w"
    "m_create_claimed_until r = m_create_claimed_until w"
    "m_create_failure_status r = m_create_failure_status w"
    "m_fork_operation_id r = m_fork_operation_id w" "m_parent_machine_id r = m_parent_machine_id w"
    by (subst r, simp)+
qed

lemma store_rows_Inr:
  assumes "store_rows P g rs = Inr rs'"
  shows "rs' = sql_update P (\<lambda>r. projr (g r)) rs \<and> (\<forall>r\<in>set rs. P r \<longrightarrow> (\<exists>r'. g r = Inr r'))"
  using assms
  by (induction rs arbitrary: rs') (auto split: if_splits sum.splits)

lemma store_rows_checked:
  assumes "store_rows P (\<lambda>r. if chk (f r) then Inr (f r) else Inl e) rs = Inr rs'"
  shows "rs' = sql_update P f rs"
  using store_rows_Inr [OF assms] by (auto simp: sql_update_def split: if_splits)

lemma update_machines_Inr:
  assumes "update_machines P f s = Inr s'"
  obtains g where "s' = s\<lparr>machines := sql_update P g (machines s)\<rparr>"
    and "\<And>r. r \<in> set (machines s) \<Longrightarrow> P r \<Longrightarrow> stored_as (f r) (g r)"
proof -
  from assms obtain ms where
      ms: "store_rows P (\<lambda>r. store_machine s (Some r) (f r)) (machines s) = Inr ms"
      and s': "s' = s\<lparr>machines := ms\<rparr>"
    by (auto simp: update_machines_def split: sum.splits)
  let ?g = "\<lambda>r. projr (store_machine s (Some r) (f r))"
  from store_rows_Inr [OF ms] have "ms = sql_update P ?g (machines s)"
      and st: "\<And>r. r \<in> set (machines s) \<Longrightarrow> P r \<Longrightarrow> \<exists>r'. store_machine s (Some r) (f r) = Inr r'"
    by auto
  moreover have "stored_as (f r) (?g r)" if "r \<in> set (machines s)" "P r" for r
    using st [OF that] store_machine_stored by fastforce
  ultimately show thesis using s' that by blast
qed

lemma insert_machine_Inr:
  assumes "insert_machine m s = Inr s'"
  obtains r where "s' = s\<lparr>machines := machines s @ [r]\<rparr>" and "stored_as m r"
    and "m_id m \<notin> set (map m_id (machines s))"
  using assms store_machine_stored [of s None m]
  by (auto simp: insert_machine_def split: if_splits sum.splits)

text \<open>An update of hosts, forks or extensions that succeeds changed exactly the rows it selects.\<close>

lemma update_hosts_Inr:
  assumes "update_hosts P f s = Inr s'"
  shows "s' = s\<lparr>hosts := sql_update P f (hosts s)\<rparr>"
    and "\<And>h. h \<in> set (hosts s) \<Longrightarrow> P h \<Longrightarrow> host_check (f h)"
    and "\<And>h. h \<in> set (hosts s) \<Longrightarrow> P h \<Longrightarrow> h_cohort h \<noteq> None \<Longrightarrow> h_cohort (f h) = h_cohort h"
proof -
  let ?g = "\<lambda>r. if h_cohort r \<noteq> None \<and> h_cohort (f r) \<noteq> h_cohort r
      then Inl (DbError ''host runtime cohort is immutable'')
      else if host_check (f r) then Inr (f r) else Inl (DbError ''hosts check constraint'')"
  from assms obtain hs where hs: "store_rows P ?g (hosts s) = Inr hs" and s': "s' = s\<lparr>hosts := hs\<rparr>"
    by (auto simp: update_hosts_def split: sum.splits)
  note st = store_rows_Inr [OF hs]
  have ok: "?g h = Inr (f h)" if "h \<in> set (hosts s)" "P h" for h
    using st that by (auto split: if_splits)
  have "hs = sql_update P f (hosts s)"
    unfolding st [THEN conjunct1] sql_update_def using ok by (intro map_cong) auto
  with s' show "s' = s\<lparr>hosts := sql_update P f (hosts s)\<rparr>" by simp
  fix h assume h: "h \<in> set (hosts s)" "P h"
  from ok [OF h] show "host_check (f h)" by (auto split: if_splits)
  assume "h_cohort h \<noteq> None"
  with ok [OF h] show "h_cohort (f h) = h_cohort h" by (auto split: if_splits)
qed

lemma update_forks_Inr:
  assumes "update_forks P f s = Inr s'"
  shows "s' = s\<lparr>fork_ops := sql_update P f (fork_ops s)\<rparr>"
proof -
  let ?g = "\<lambda>r. if fork_check (f r) then Inr (f r)
      else Inl (DbError ''machine_fork_operations check constraint'')"
  from assms obtain fs where fs: "store_rows P ?g (fork_ops s) = Inr fs" and s': "s' = s\<lparr>fork_ops := fs\<rparr>"
    by (auto simp: update_forks_def split: sum.splits)
  note st = store_rows_Inr [OF fs]
  have "fs = sql_update P f (fork_ops s)"
    unfolding st [THEN conjunct1] sql_update_def using st by (intro map_cong) (auto split: if_splits)
  with s' show ?thesis by simp
qed

lemma update_extends_Inr:
  assumes "update_extends P f s = Inr s'"
  shows "s' = s\<lparr>extend_ops := sql_update P f (extend_ops s)\<rparr>"
proof -
  let ?g = "\<lambda>r. if extend_check (f r) then Inr (f r)
      else Inl (DbError ''machine_extend_operations check constraint'')"
  from assms obtain xs where xs: "store_rows P ?g (extend_ops s) = Inr xs" and s': "s' = s\<lparr>extend_ops := xs\<rparr>"
    by (auto simp: update_extends_def split: sum.splits)
  note st = store_rows_Inr [OF xs]
  have "xs = sql_update P f (extend_ops s)"
    unfolding st [THEN conjunct1] sql_update_def using st by (intro map_cong) (auto split: if_splits)
  with s' show ?thesis by simp
qed

lemma insert_event_frame [simp, frame]:
  "machines (insert_event e s) = machines s" "hosts (insert_event e s) = hosts s"
  "fork_ops (insert_event e s) = fork_ops s" "fork_children (insert_event e s) = fork_children s"
  "extend_ops (insert_event e s) = extend_ops s" "organizations (insert_event e s) = organizations s"
  "projects (insert_event e s) = projects s" "templates (insert_event e s) = templates s"
  "usage_events (insert_event e s) = usage_events s" "usage_outbox (insert_event e s) = usage_outbox s"
  "audit_events (insert_event e s) = audit_events s"
  by (simp_all add: insert_event_def)


lemma store_rows_none: "(\<And>r. r \<in> set rs \<Longrightarrow> \<not> P r) \<Longrightarrow> store_rows P g rs = Inr rs"
  by (induction rs) auto

lemma update_machines_none: "\<not> list_ex P (machines s) \<Longrightarrow> update_machines P f s = Inr s"
  by (simp add: update_machines_def store_rows_none list_ex_iff)

end
