(* ===== verification/Billing.thy ===== *)
theory Billing
  imports Complex_Main Store
begin

text \<open>
  Billing: the rate card (\<open>billing/rates.ts\<close>), the admission check made before any new
  commitment (\<open>billing/admission.ts\<close>) and the usage ledger (\<open>billing/usage.ts\<close>).

  Quantities come from SQL as text and are priced with integers; the theorems compare the
  result with the exact rational cost. PostgreSQL's numeric division by 1024 rounds at a
  scale that depends on its operand, and a JavaScript product of doubles is rounded on
  insertion, so both are parameters.
\<close>

section \<open>Rates\<close>

record rate =
  rt_dimension :: meter_dimension
  rt_unitPriceMicros :: int
  rt_unit :: string

definition privateBetaRates :: "rate list" where
  "privateBetaRates =
     [\<lparr>rt_dimension = vcpu_seconds, rt_unitPriceMicros = 0, rt_unit = ''vCPU-second''\<rparr>,
      \<lparr>rt_dimension = gib_seconds, rt_unitPriceMicros = 0, rt_unit = ''GiB-second''\<rparr>,
      \<lparr>rt_dimension = storage_gib_hours, rt_unitPriceMicros = 0, rt_unit = ''GiB-hour''\<rparr>,
      \<lparr>rt_dimension = egress_bytes, rt_unitPriceMicros = 0, rt_unit = ''byte''\<rparr>,
      \<lparr>rt_dimension = inference_units, rt_unitPriceMicros = 0, rt_unit = ''provider unit''\<rparr>]"

definition microsPerCent :: int where "microsPerCent = 10000"

definition mebibytesPerGibibyte :: int where "mebibytesPerGibibyte = 1024"

definition bytesPerGibibyteHour :: int where "bytesPerGibibyteHour = 1073741824 * 3600"

definition meterDimensions :: "meter_dimension list" where
  "meterDimensions = [vcpu_seconds, gib_seconds, storage_gib_hours, egress_bytes, inference_units]"

section \<open>Prices\<close>

text \<open>The pattern \<open>^(\d+)(?:\.(\d+))?$\<close>.\<close>

definition decimal :: "string \<Rightarrow> (int \<times> int) option" where
  "decimal value =
     (let whole = takeWhile is_digit value; rest = dropWhile is_digit value in
      if whole = [] then None
      else case rest of
          [] \<Rightarrow> Some (int (read_nat whole), 1)
        | c # fractional \<Rightarrow>
            (if c = CHR ''.'' \<and> fractional \<noteq> [] \<and> list_all is_digit fractional
             then Some (int (read_nat (whole @ fractional)), 10 ^ length fractional)
             else None))"

datatype quantity = QText string | QBig int

definition ceilingPrice :: "quantity \<Rightarrow> int \<Rightarrow> int \<Rightarrow> error + int" where
  "ceilingPrice quantity rate divisor =
     (if rate < 0 \<or> divisor < 1 then Inl (PlainError ''billing rate configuration is invalid'')
      else case (case quantity of QBig n \<Rightarrow> Some (n, 1) | QText t \<Rightarrow> decimal t) of
          None \<Rightarrow> Inl (PlainError ''billing quantity is not a non-negative decimal'')
        | Some (n, d) \<Rightarrow>
            (if n < 0 then Inl (PlainError ''billing commitment cannot be negative'')
             else let numerator = n * rate; denominator = d * divisor in
               Inr (if numerator = 0 then 0 else (numerator + denominator - 1) div denominator)))"

text \<open>\<open>numeric::text\<close> at thirteen decimals (trailing zeros do not change what \<open>decimal\<close> reads).\<close>

definition numeric_text :: "numeric13 \<Rightarrow> string" where
  "numeric_text v =
     (if v < 0 then ''-'' else []) @ show_nat (nat \<bar>v\<bar> div 10 ^ 13) @ ''.'' @ pad_nat 13 (nat \<bar>v\<bar> mod 10 ^ 13)"

section \<open>Admission\<close>

record commitment_delta =
  bd_vcpuSeconds :: "int option"
  bd_memoryMebibyteSeconds :: "int option"
  bd_storageByteSeconds :: "int option"

record admission_policy =
  ap_rates :: "(meter_dimension \<times> int) list"
  ap_plan :: string

fun configure_rates :: "(meter_dimension \<times> int) list \<Rightarrow> rate list \<Rightarrow> error + (meter_dimension \<times> int) list" where
  "configure_rates configured [] = Inr configured"
| "configure_rates configured (r # rs) =
     (if map_of configured (rt_dimension r) \<noteq> None \<or> rt_unitPriceMicros r < 0
      then Inl (PlainError ''billing rate configuration is invalid'')
      else configure_rates ((rt_dimension r, rt_unitPriceMicros r) # configured) rs)"

definition BillingAdmissionPolicy :: "rate list \<Rightarrow> string \<Rightarrow> error + admission_policy" where
  "BillingAdmissionPolicy rates plan =
     (case configure_rates [] rates of
        Inl e \<Rightarrow> Inl e
      | Inr configured \<Rightarrow>
          (if list_ex (\<lambda>d. map_of configured d = None) meterDimensions
           then Inl (PlainError ''billing rate is missing'')
           else Inr \<lparr>ap_rates = configured, ap_plan = plan\<rparr>))"

definition rate_of :: "admission_policy \<Rightarrow> meter_dimension \<Rightarrow> int" where
  "rate_of policy d = the (map_of (ap_rates policy) d)"

text \<open>A span of milliseconds as SQL seconds, and \<open>EXTRACT(EPOCH FROM ...)\<close> floored at zero.\<close>

definition numeric_seconds :: "time \<Rightarrow> numeric13" where
  "numeric_seconds ms = ms * 10 ^ 10"

definition epoch_span :: "time \<Rightarrow> time \<Rightarrow> numeric13" where
  "epoch_span from to = numeric_seconds (max 0 (to - from))"

text \<open>The \<open>durable_usage\<close> rows: the ledger, and the outbox rows not yet flushed to it.\<close>

definition durable_usage :: "(numeric13 \<Rightarrow> numeric13) \<Rightarrow> fleet \<Rightarrow> uuid \<Rightarrow> (meter_dimension \<times> numeric13) list" where
  "durable_usage pgdiv1024 s org =
     (let out = filter (\<lambda>x. q_organization_id x = org \<and> q_processed_at x = None) (usage_outbox s) in
      map (\<lambda>u. (u_dimension u, u_quantity u)) (filter (\<lambda>u. u_organization_id u = org) (usage_events s)) @
      map (\<lambda>x. (vcpu_seconds, epoch_span (q_period_start x) (q_period_end x) * q_vcpus x)) out @
      map (\<lambda>x. (gib_seconds, pgdiv1024 (epoch_span (q_period_start x) (q_period_end x) * q_memory_mb x))) out)"

definition usage_by_dimension :: "(meter_dimension \<times> numeric13) list \<Rightarrow> (meter_dimension \<times> numeric13) list" where
  "usage_by_dimension rows =
     map (\<lambda>d. (d, sum_list (map snd (filter (\<lambda>r. fst r = d) rows))))
       (filter (\<lambda>d. list_ex (\<lambda>r. fst r = d) rows) meterDimensions)"

definition max_time :: "time list \<Rightarrow> time option" where
  "max_time ts = (case ts of [] \<Rightarrow> None | t # us \<Rightarrow> Some (foldl max t us))"

text \<open>\<open>GREATEST(expires_at, COALESCE(max(target_expires_at), '-infinity'))\<close>.\<close>

definition committed_until :: "fleet \<Rightarrow> machine_row \<Rightarrow> time" where
  "committed_until s m =
     (case max_time (map x_target_expires_at
        (filter (\<lambda>x. x_machine_id x = m_id m \<and> x_organization_id x = m_organization_id m) (extend_ops s))) of
        None \<Rightarrow> m_expires_at m
      | Some t \<Rightarrow> max (m_expires_at m) t)"

lemma foldl_max_start: "(a :: time) \<le> foldl max a ts"
  by (induction ts arbitrary: a) (auto intro: order_trans [OF max.cobounded1])

lemma foldl_max_member: "t \<in> set ts \<Longrightarrow> (t :: time) \<le> foldl max a ts"
  by (induction ts arbitrary: a) (auto intro: order_trans [OF max.cobounded2 foldl_max_start])

lemma max_time_ge: "t \<in> set ts \<Longrightarrow> \<exists>u. max_time ts = Some u \<and> t \<le> u"
  by (cases ts) (auto simp: max_time_def foldl_max_start foldl_max_member)

lemma committed_until_ge:
  "x \<in> set (extend_ops s) \<Longrightarrow> x_machine_id x = m_id m \<and> x_organization_id x = m_organization_id m \<Longrightarrow>
    x_target_expires_at x \<le> committed_until s m"
  using max_time_ge [of "x_target_expires_at x" "map x_target_expires_at
    (filter (\<lambda>x. x_machine_id x = m_id m \<and> x_organization_id x = m_organization_id m) (extend_ops s))"]
  by (auto simp: committed_until_def)

definition coalesce :: "'a option \<Rightarrow> 'a option \<Rightarrow> 'a option" where
  "coalesce a b = (case a of None \<Rightarrow> b | Some _ \<Rightarrow> a)"

definition metered_through :: "fleet \<Rightarrow> machine_row \<Rightarrow> meter_dimension \<Rightarrow> time" where
  "metered_through s m d =
     the (coalesce (max_time
            (map u_period_end (filter (\<lambda>u. u_machine_id u = Some (m_id m) \<and>
               u_organization_id u = m_organization_id m \<and> u_dimension u = d) (usage_events s)) @
             map q_period_end (filter (\<lambda>x. q_machine_id x = m_id m \<and>
               q_organization_id x = m_organization_id m \<and> q_processed_at x = None) (usage_outbox s))))
          (coalesce (m_started_at m) (coalesce (m_placed_at m) (Some (m_created_at m)))))"

definition machine_commitments :: "fleet \<Rightarrow> uuid \<Rightarrow> machine_row list" where
  "machine_commitments s org =
     filter (\<lambda>m. m_organization_id m = org \<and>
       (allocated (m_state m) \<or> terminal (m_state m) \<and> m_usage_finalized_at m = None)) (machines s)"

definition committed_span :: "fleet \<Rightarrow> time \<Rightarrow> meter_dimension \<Rightarrow> machine_row \<Rightarrow> numeric13" where
  "committed_span s now d m =
     (if terminal (m_state m) then 0 else epoch_span now (committed_until s m)) +
     epoch_span (metered_through s m d) (the (coalesce (m_stopped_at m) (Some now)))"

definition durable_vcpu_seconds :: "fleet \<Rightarrow> uuid \<Rightarrow> time \<Rightarrow> numeric13" where
  "durable_vcpu_seconds s org now =
     sum_list (map (\<lambda>m. committed_span s now vcpu_seconds m * vcpus (m_resources m)) (machine_commitments s org))"

definition durable_memory_seconds :: "fleet \<Rightarrow> uuid \<Rightarrow> time \<Rightarrow> numeric13" where
  "durable_memory_seconds s org now =
     sum_list (map (\<lambda>m. committed_span s now gib_seconds m * memoryMb (m_resources m)) (machine_commitments s org))"

definition durable_storage_seconds :: "fleet \<Rightarrow> uuid \<Rightarrow> time \<Rightarrow> numeric13" where
  "durable_storage_seconds s org now =
     sum_list (map (\<lambda>v. v_size_limit_bytes v * epoch_span now (v_expires_at v))
       (filter (\<lambda>v. v_organization_id v = org \<and> v_deleted_at v = None \<and>
          v_expires_at v > now) (volumes s)))"

definition or_zero :: "int option \<Rightarrow> int" where
  "or_zero x = (case x of None \<Rightarrow> 0 | Some v \<Rightarrow> v)"

text \<open>Everything priced, in the order it is added: quantity, rate and divisor.\<close>

definition priced_items ::
    "(numeric13 \<Rightarrow> numeric13) \<Rightarrow> admission_policy \<Rightarrow> fleet \<Rightarrow> uuid \<Rightarrow> commitment_delta \<Rightarrow> time \<Rightarrow>
     (quantity \<times> int \<times> int) list" where
  "priced_items pgdiv1024 policy s org additional now =
     map (\<lambda>r. (QText (numeric_text (snd r)), rate_of policy (fst r), 1))
       (usage_by_dimension (durable_usage pgdiv1024 s org)) @
     [(QText (numeric_text (durable_vcpu_seconds s org now)), rate_of policy vcpu_seconds, 1),
      (QText (numeric_text (durable_memory_seconds s org now)), rate_of policy gib_seconds, mebibytesPerGibibyte),
      (QText (numeric_text (durable_storage_seconds s org now)), rate_of policy storage_gib_hours, bytesPerGibibyteHour),
      (QBig (or_zero (bd_vcpuSeconds additional)), rate_of policy vcpu_seconds, 1),
      (QBig (or_zero (bd_memoryMebibyteSeconds additional)), rate_of policy gib_seconds, mebibytesPerGibibyte),
      (QBig (or_zero (bd_storageByteSeconds additional)), rate_of policy storage_gib_hours, bytesPerGibibyteHour)]"

fun total_price :: "(quantity \<times> int \<times> int) list \<Rightarrow> error + int" where
  "total_price [] = Inr 0"
| "total_price ((q, r, d) # items) =
     (case ceilingPrice q r d of
        Inl e \<Rightarrow> Inl e
      | Inr p \<Rightarrow> (case total_price items of Inl e \<Rightarrow> Inl e | Inr t \<Rightarrow> Inr (p + t)))"

definition enforce ::
    "(numeric13 \<Rightarrow> numeric13) \<Rightarrow> admission_policy \<Rightarrow> fleet \<Rightarrow> uuid \<Rightarrow> commitment_delta \<Rightarrow> time \<Rightarrow> error option" where
  "enforce pgdiv1024 policy s org additional now =
     (case find (\<lambda>b. b_organization_id b = org) (billing_accounts s) of
        None \<Rightarrow> None
      | Some account \<Rightarrow>
          (if b_delinquent_at account \<noteq> None
           then Some (BillingAdmissionRejected ''billing_delinquent''
             ''Organization billing is delinquent; new resource commitments are suspended.'')
           else if b_plan account \<noteq> ap_plan policy
           then Some (BillingAdmissionRejected ''billing_plan_unavailable''
             ''Organization billing plan has no active admission rate card.'')
           else case b_spend_cap_cents account of
               None \<Rightarrow> None
             | Some cap \<Rightarrow>
                 (case total_price (priced_items pgdiv1024 policy s org additional now) of
                    Inl e \<Rightarrow> Some e
                  | Inr projectedMicros \<Rightarrow>
                      (if projectedMicros > cap * microsPerCent
                       then Some (BillingAdmissionRejected ''spend_cap_exceeded''
                         ''Organization spend cap would be exceeded by this resource commitment.'')
                       else None))))"


section \<open>The usage ledger\<close>

text \<open>
  \<open>UsageLedger.append\<close>: the check constraints and foreign keys of \<open>usage_events\<close>, and the
  unique event key that makes a repeated append a no-op. The answer says whether a row was added.
\<close>

definition append_usage :: "usage_row \<Rightarrow> fleet \<Rightarrow> error + (bool \<times> fleet)" where
  "append_usage event s =
     (if u_quantity event < 0 then Inl (PlainError ''usage quantity must be a non-negative finite number'')
      else if u_period_end event < u_period_start event then Inl (PlainError ''usage period is inverted'')
      else if \<not> list_ex (\<lambda>p. p_id p = u_project_id event \<and> p_organization_id p = u_organization_id event) (projects s)
      then Inl (DbError ''usage_events_project_id_organization_id_fkey'')
      else if u_machine_id event \<noteq> None \<and> \<not> list_ex (\<lambda>m. Some (m_id m) = u_machine_id event \<and>
          m_organization_id m = u_organization_id event) (machines s)
      then Inl (DbError ''usage_events_machine_id_organization_id_fkey'')
      else if u_key event \<in> set (map u_key (usage_events s)) then Inr (False, s)
      else Inr (True, s\<lparr>usage_events := usage_events s @ [event]\<rparr>))"

text \<open>\<open>Date.UTC(year, month, date + 1)\<close>: the next midnight of an instant.\<close>

definition nextMidnight :: "time \<Rightarrow> time" where
  "nextMidnight t = (t div 86400000 + 1) * 86400000"

lemma nextMidnight_greater: "t < nextMidnight t"
  unfolding nextMidnight_def by (simp add: algebra_simps)

record runtime_input =
  ru_eventPrefix :: string
  ru_organizationId :: uuid
  ru_projectId :: uuid
  ru_machineId :: string
  ru_vcpus :: int
  ru_memoryMb :: int
  ru_start :: time
  ru_end :: time
  ru_source :: string

text \<open>
  The two events of one segment. \<open>number ms n d\<close> is the stored value of the double
  \<open>ms / 1000 * (n / d)\<close>.
\<close>

definition segment_events ::
    "(time \<Rightarrow> int \<Rightarrow> int \<Rightarrow> numeric13) \<Rightarrow> runtime_input \<Rightarrow> nat \<Rightarrow> time \<Rightarrow> time \<Rightarrow> usage_row list" where
  "segment_events number input segment start to =
     (let prefix = ru_eventPrefix input @ '':'' @ show_nat segment @ '':'' @ toISOString start in
      [\<lparr>u_key = prefix @ '':vcpu'', u_organization_id = ru_organizationId input,
        u_project_id = ru_projectId input, u_machine_id = Some (ru_machineId input),
        u_dimension = vcpu_seconds, u_quantity = number (to - start) (ru_vcpus input) 1,
        u_period_start = start, u_period_end = to, u_source = ru_source input\<rparr>,
       \<lparr>u_key = prefix @ '':memory'', u_organization_id = ru_organizationId input,
        u_project_id = ru_projectId input, u_machine_id = Some (ru_machineId input),
        u_dimension = gib_seconds, u_quantity = number (to - start) (ru_memoryMb input) 1024,
        u_period_start = start, u_period_end = to, u_source = ru_source input\<rparr>])"

text \<open>
  Statements outside a transaction keep what the earlier ones wrote: a result, and the fleet
  as it is when the call ends. \<open>Promise.all\<close> starts both appends and reports the first error.
\<close>

type_synonym 'a svc = "fleet \<Rightarrow> (error + 'a) \<times> fleet"

fun append_all :: "usage_row list \<Rightarrow> unit svc" where
  "append_all [] s = (Inr (), s)"
| "append_all (e # es) s =
     (case append_usage e s of
        Inl err \<Rightarrow> (Inl err, snd (append_all es s))
      | Inr (_, s') \<Rightarrow> append_all es s')"

function runtime_loop ::
    "(time \<Rightarrow> int \<Rightarrow> int \<Rightarrow> numeric13) \<Rightarrow> runtime_input \<Rightarrow> time \<Rightarrow> nat \<Rightarrow> unit svc" where
  "runtime_loop number input start segment s =
     (if start < ru_end input then
        (let to = (if nextMidnight start < ru_end input then nextMidnight start else ru_end input) in
         case append_all (segment_events number input segment start to) s of
           (Inl e, s') \<Rightarrow> (Inl e, s')
         | (Inr _, s') \<Rightarrow> runtime_loop number input to (Suc segment) s')
      else (Inr (), s))"
  by pat_completeness auto
termination
  by (relation "measure (\<lambda>(_, input, start, _, _). nat (ru_end input - start))")
    (auto simp: nextMidnight_greater)

declare runtime_loop.simps [simp del]

definition recordMachineRuntime :: "(time \<Rightarrow> int \<Rightarrow> int \<Rightarrow> numeric13) \<Rightarrow> runtime_input \<Rightarrow> unit svc" where
  "recordMachineRuntime number input s =
     (if ru_end input < ru_start input then (Inl (PlainError ''usage period is inverted''), s)
      else runtime_loop number input (ru_start input) 0 s)"

section \<open>Prices are exact ceilings\<close>

definition quantity_value :: "quantity \<Rightarrow> real" where
  "quantity_value q =
     (case q of QBig n \<Rightarrow> real_of_int n
      | QText t \<Rightarrow> (case decimal t of None \<Rightarrow> 0 | Some (n, d) \<Rightarrow> real_of_int n / real_of_int d))"

lemma takeWhile_digits: "list_all P xs \<Longrightarrow> \<not> P y \<Longrightarrow> takeWhile P (xs @ y # zs) = xs"
  and dropWhile_digits: "list_all P xs \<Longrightarrow> \<not> P y \<Longrightarrow> dropWhile P (xs @ y # zs) = y # zs"
  by (induction xs) auto

lemma not_digit [simp]: "\<not> is_digit (CHR ''.'')" "\<not> is_digit (CHR ''-'')"
  by (simp_all add: is_digit_def less_eq_char_def)

lemma decimal_numeric_text:
  "decimal (numeric_text v) = (if v < 0 then None else Some (v, 10 ^ 13))"
proof (cases "v < 0")
  case True
  then show ?thesis by (simp add: decimal_def numeric_text_def)
next
  case False
  define w f where "w = nat v div 10 ^ 13" and "f = nat v mod 10 ^ 13"
  have t: "numeric_text v = show_nat w @ CHR ''.'' # pad_nat 13 f"
    using False by (simp add: numeric_text_def w_def f_def)
  have pad: "pad_nat 13 f \<noteq> []" by (metis length_pad_nat list.size(3) zero_neq_numeral)
  have "read_nat (show_nat w @ pad_nat 13 f) = w * 10 ^ 13 + f"
    by (simp add: read_nat_append_digits read_pad_nat f_def)
  also have "\<dots> = nat v" unfolding w_def f_def by (rule div_mult_mod_eq)
  finally have r: "read_nat (show_nat w @ pad_nat 13 f) = nat v" .
  have tw: "takeWhile is_digit (numeric_text v) = show_nat w"
    and dw: "dropWhile is_digit (numeric_text v) = CHR ''.'' # pad_nat 13 f"
    unfolding t using show_nat_digits [of w] not_digit(1)
    by (rule takeWhile_digits, rule dropWhile_digits)
  show ?thesis
    using False pad r pad_nat_digits [of 13 f] by (simp add: decimal_def tw dw Let_def)
qed

lemma decimal_denominator: "decimal t = Some (n, d) \<Longrightarrow> 0 < d"
  by (auto simp: decimal_def Let_def split: if_splits list.splits)

lemma ceiling_div:
  assumes "0 < b"
  shows "\<lceil>real_of_int a / real_of_int b\<rceil> = (a + b - 1) div b"
proof -
  have "a + b - 1 = b * (- (- a div b)) + (b - 1 - (- a) mod b)"
    using mult_div_mod_eq [of b "- a"] by (simp add: algebra_simps)
  then have "(a + b - 1) div b = - (- a div b)"
    using assms pos_mod_sign [OF assms, of "- a"] pos_mod_bound [OF assms, of "- a"]
    by (intro int_div_pos_eq [where r = "b - 1 - (- a) mod b"]) linarith+
  then show ?thesis by (simp add: ceiling_divide_eq_div)
qed

lemma ceilingPrice_value:
  assumes "ceilingPrice q r d = Inr p"
  shows "p = \<lceil>quantity_value q * real_of_int r / real_of_int d\<rceil> \<and> 0 \<le> p"
proof -
  from assms obtain n k where nk: "(case q of QBig n \<Rightarrow> Some (n, 1) | QText t \<Rightarrow> decimal t) = Some (n, k)"
      and cond: "0 \<le> r" "1 \<le> d" "0 \<le> n"
      and p: "p = (if n * r = 0 then 0 else (n * r + k * d - 1) div (k * d))"
    by (auto simp: ceilingPrice_def Let_def split: if_splits option.splits)
  from nk have k: "0 < k" and v: "quantity_value q = real_of_int n / real_of_int k"
    by (auto simp: quantity_value_def decimal_denominator split: quantity.splits)
  from k cond have kd: "0 < k * d" by simp
  have "quantity_value q * real_of_int r / real_of_int d = real_of_int (n * r) / real_of_int (k * d)"
    by (simp add: v)
  moreover have "p = (n * r + k * d - 1) div (k * d)"
    using p kd by (simp add: div_pos_pos_trivial)
  ultimately have "p = \<lceil>quantity_value q * real_of_int r / real_of_int d\<rceil>"
    using ceiling_div [OF kd, of "n * r"] by simp
  moreover have "0 \<le> p"
    using p kd mult_nonneg_nonneg [OF cond(3) cond(1)] by (auto simp: pos_imp_zdiv_nonneg_iff)
  ultimately show ?thesis ..
qed

text \<open>C36: A price is the exact ceiling: what \<open>ceilingPrice\<close> returns is the least whole number of
  micros not below quantity times rate over divisor.\<close>

theorem ceilingPrice_exact:
  assumes "ceilingPrice q r d = Inr p"
  shows "p = \<lceil>quantity_value q * real_of_int r / real_of_int d\<rceil>"
  using ceilingPrice_value [OF assms] by simp

definition item_cost :: "quantity \<times> int \<times> int \<Rightarrow> real" where
  "item_cost i = (case i of (q, r, d) \<Rightarrow> quantity_value q * real_of_int r / real_of_int d)"

lemma total_price_bounds:
  assumes "total_price items = Inr p"
  shows "sum_list (map item_cost items) \<le> real_of_int p \<and>
    real_of_int p \<le> sum_list (map item_cost items) + real (length items)"
  using assms
proof (induction items arbitrary: p)
  case Nil
  then show ?case by simp
next
  case (Cons i items)
  obtain q r d where i: "i = (q, r, d)" by (cases i) auto
  from Cons.prems i obtain a b where "ceilingPrice q r d = Inr a" and b: "total_price items = Inr b"
      and p: "p = a + b"
    by (auto split: sum.splits)
  then have "a = \<lceil>item_cost i\<rceil>"
    using ceilingPrice_value [of q r d a] by (simp add: item_cost_def i)
  then have "item_cost i \<le> real_of_int a" "real_of_int a \<le> item_cost i + 1"
    by linarith+
  with Cons.IH [OF b] p show ?case by simp
qed

lemma total_price_quantities:
  "total_price items = Inr p \<Longrightarrow> (q, r, d) \<in> set items \<Longrightarrow> \<exists>c. ceilingPrice q r d = Inr c"
proof (induction items arbitrary: p)
  case Nil
  then show ?case by simp
next
  case (Cons i items)
  then show ?case by (cases i) (auto split: sum.splits)
qed

section \<open>Admission is sound\<close>

text \<open>The exact projection in micros, from the numeric quantities.\<close>

definition projected_cost ::
    "(numeric13 \<Rightarrow> numeric13) \<Rightarrow> admission_policy \<Rightarrow> fleet \<Rightarrow> uuid \<Rightarrow> commitment_delta \<Rightarrow> time \<Rightarrow> real" where
  "projected_cost pgdiv1024 policy s org additional now =
     (\<Sum>(d, v)\<leftarrow>usage_by_dimension (durable_usage pgdiv1024 s org). v / 10 ^ 13 * rate_of policy d) +
     (durable_vcpu_seconds s org now / 10 ^ 13 + or_zero (bd_vcpuSeconds additional)) *
       rate_of policy vcpu_seconds +
     (durable_memory_seconds s org now / 10 ^ 13 + or_zero (bd_memoryMebibyteSeconds additional)) *
       rate_of policy gib_seconds / 1024 +
     (durable_storage_seconds s org now / 10 ^ 13 + or_zero (bd_storageByteSeconds additional)) *
       rate_of policy storage_gib_hours / (1073741824 * 3600)"

lemma text_cost: "0 \<le> v \<Longrightarrow> item_cost (QText (numeric_text v), r, d) = v / 10 ^ 13 * r / d"
  by (simp add: item_cost_def quantity_value_def decimal_numeric_text)

lemma big_cost: "item_cost (QBig n, r, d) = n * r / d"
  by (simp add: item_cost_def quantity_value_def)

lemma priced_text_nonneg:
  assumes "total_price items = Inr p" and "(QText (numeric_text v), r, d) \<in> set items"
  shows "0 \<le> v"
  using total_price_quantities [OF assms]
  by (auto simp: ceilingPrice_def decimal_numeric_text split: if_splits)

lemma priced_items_cost:
  assumes "total_price (priced_items g policy s org additional now) = Inr p"
  shows "sum_list (map item_cost (priced_items g policy s org additional now)) =
    projected_cost g policy s org additional now"
proof -
  note nonneg = priced_text_nonneg [OF assms]
  let ?u = "usage_by_dimension (durable_usage g s org)"
  have "0 \<le> v" if "(d, v) \<in> set ?u" for d v
    by (rule nonneg [of v "rate_of policy d" 1])
      (use that in \<open>auto simp: priced_items_def intro!: image_eqI [of _ _ "(d, v)"]\<close>)
  then have u: "(\<Sum>r\<leftarrow>?u. item_cost (QText (numeric_text (snd r)), rate_of policy (fst r), 1)) =
      (\<Sum>(d, v)\<leftarrow>?u. v / 10 ^ 13 * rate_of policy d)"
    by (intro arg_cong [of _ _ sum_list] map_cong refl) (auto simp: text_cost)
  have "0 \<le> durable_vcpu_seconds s org now"
    by (rule nonneg [of _ "rate_of policy vcpu_seconds" 1]) (simp add: priced_items_def)
  moreover have "0 \<le> durable_memory_seconds s org now"
    by (rule nonneg [of _ "rate_of policy gib_seconds" mebibytesPerGibibyte]) (simp add: priced_items_def)
  moreover have "0 \<le> durable_storage_seconds s org now"
    by (rule nonneg [of _ "rate_of policy storage_gib_hours" bytesPerGibibyteHour]) (simp add: priced_items_def)
  ultimately show ?thesis
    by (simp add: priced_items_def projected_cost_def comp_def u text_cost big_cost
        mebibytesPerGibibyte_def bytesPerGibibyteHour_def algebra_simps add_divide_distrib)
qed

text \<open>C35: An admitted commitment never exceeds the spend cap: if \<open>enforce\<close> lets an organization
  with a capped account through, the account is not delinquent, it is on the policy's plan, and
  the exact cost of its durable usage, its outstanding commitments and the new commitment is
  within the cap.\<close>

theorem enforce_within_cap:
  assumes "enforce g policy s org additional now = None"
    and "find (\<lambda>b. b_organization_id b = org) (billing_accounts s) = Some account"
    and "b_spend_cap_cents account = Some cap"
  shows "b_delinquent_at account = None \<and> b_plan account = ap_plan policy \<and>
    projected_cost g policy s org additional now \<le> cap * 10000"
proof -
  from assms obtain p where ok: "b_delinquent_at account = None" "b_plan account = ap_plan policy"
      and p: "total_price (priced_items g policy s org additional now) = Inr p" and le: "p \<le> cap * 10000"
    by (auto simp: enforce_def microsPerCent_def split: if_splits sum.splits)
  have "projected_cost g policy s org additional now \<le> real_of_int p"
    using total_price_bounds [OF p] priced_items_cost [OF p] by simp
  also have "\<dots> \<le> real_of_int (cap * 10000)" using le by (simp only: of_int_le_iff)
  finally show ?thesis using ok by simp
qed

text \<open>The check is not over-strict either: it reports an exceeded spend cap only when the exact
  cost is within eleven micros of the cap or above it (each of at most eleven prices is
  rounded up by less than one micro).\<close>

theorem enforce_rejects_only_near_cap:
  assumes "enforce g policy s org additional now =
      Some (BillingAdmissionRejected ''spend_cap_exceeded'' message)"
    and "find (\<lambda>b. b_organization_id b = org) (billing_accounts s) = Some account"
  shows "\<exists>cap. b_spend_cap_cents account = Some cap \<and>
    cap * 10000 < projected_cost g policy s org additional now + 11"
proof -
  from assms obtain cap where cap: "b_spend_cap_cents account = Some cap"
    by (auto simp: enforce_def split: if_splits option.splits)
  have "\<exists>p. total_price (priced_items g policy s org additional now) = Inr p \<and> cap * 10000 < p"
  proof (cases "total_price (priced_items g policy s org additional now)")
    case (Inl e)
    have "total_price items = Inl e \<Longrightarrow> \<exists>m. e = PlainError m" for items
      by (induction items rule: total_price.induct)
        (auto simp: ceilingPrice_def Let_def split: sum.splits if_splits option.splits quantity.splits)
    with Inl assms cap show ?thesis by (fastforce simp: enforce_def split: if_splits)
  next
    case (Inr p)
    with assms cap show ?thesis by (auto simp: enforce_def microsPerCent_def split: if_splits)
  qed
  then obtain p where p: "total_price (priced_items g policy s org additional now) = Inr p"
      and lt: "cap * 10000 < p"
    by blast
  have "length (usage_by_dimension (durable_usage g s org)) \<le> length meterDimensions"
    by (simp add: usage_by_dimension_def)
  then have "length (priced_items g policy s org additional now) \<le> 11"
    by (simp add: priced_items_def meterDimensions_def)
  then have "real_of_int p \<le> projected_cost g policy s org additional now + 11"
    using total_price_bounds [OF p] priced_items_cost [OF p] by simp
  moreover have "real_of_int (cap * 10000) < real_of_int p" using lt by (simp only: of_int_less_iff)
  ultimately show ?thesis using cap by auto
qed


section \<open>The ledger records a run exactly once\<close>

function runtime_segments :: "time \<Rightarrow> time \<Rightarrow> (time \<times> time) list" where
  "runtime_segments start to =
     (if start < to then (start, min (nextMidnight start) to) # runtime_segments (min (nextMidnight start) to) to
      else [])"
  by pat_completeness auto
termination
  by (relation "measure (\<lambda>(start, to). nat (to - start))") (auto simp: nextMidnight_greater min_def)

declare runtime_segments.simps [simp del]

text \<open>Consecutive intervals from \<open>a\<close> to \<open>b\<close>, none empty and none crossing a midnight.\<close>

fun day_chain :: "time \<Rightarrow> (time \<times> time) list \<Rightarrow> time \<Rightarrow> bool" where
  "day_chain a [] b = (a = b)"
| "day_chain a ((x, y) # ps) b = (x = a \<and> x < y \<and> y \<le> nextMidnight x \<and> day_chain y ps b)"

lemma runtime_segments_chain: "start \<le> to \<Longrightarrow> day_chain start (runtime_segments start to) to"
proof (induction start to rule: runtime_segments.induct)
  case (1 start to)
  then show ?case
    by (cases "start < to")
      (auto simp: runtime_segments.simps [of start to] runtime_segments.simps [of to to] nextMidnight_greater)
qed

lemma day_chain_length: "day_chain a ps b \<Longrightarrow> (\<Sum>(x, y)\<leftarrow>ps. y - x) = b - a"
  by (induction ps arbitrary: a) auto

definition add_usage :: "usage_row list \<Rightarrow> usage_row \<Rightarrow> usage_row list" where
  "add_usage us e = (if u_key e \<in> set (map u_key us) then us else us @ [e])"

definition usage_valid :: "fleet \<Rightarrow> usage_row \<Rightarrow> bool" where
  "usage_valid s e \<longleftrightarrow> (\<exists>r. append_usage e s = Inr r)"

lemma append_usage_valid:
  "usage_valid s e \<Longrightarrow> \<exists>b. append_usage e s = Inr (b, s\<lparr>usage_events := add_usage (usage_events s) e\<rparr>)"
  by (auto simp: usage_valid_def append_usage_def add_usage_def split: if_splits)

lemma usage_valid_frame [simp]: "usage_valid (s\<lparr>usage_events := us\<rparr>) e = usage_valid s e"
  by (auto simp: usage_valid_def append_usage_def split: if_splits)

lemma append_all_Inr:
  "append_all es s = (Inr (), s') \<longleftrightarrow>
     list_all (usage_valid s) es \<and> s' = s\<lparr>usage_events := foldl add_usage (usage_events s) es\<rparr>"
proof (induction es arbitrary: s)
  case Nil
  then show ?case by auto
next
  case (Cons e es)
  show ?case
  proof (cases "usage_valid s e")
    case True
    then obtain b where b: "append_usage e s = Inr (b, s\<lparr>usage_events := add_usage (usage_events s) e\<rparr>)"
      using append_usage_valid by blast
    have vf: "usage_valid (s\<lparr>usage_events := us\<rparr>) = usage_valid s" for us by (simp add: fun_eq_iff)
    show ?thesis
      using True by (simp add: b Cons.IH [of "s\<lparr>usage_events := add_usage (usage_events s) e\<rparr>"] vf)
  next
    case False
    then obtain err where "append_usage e s = Inl err"
      by (cases "append_usage e s") (auto simp: usage_valid_def)
    with False show ?thesis by simp
  qed
qed

lemma append_all_append:
  "append_all (es @ fs) s = (Inr (), s') \<longleftrightarrow>
     (\<exists>t. append_all es s = (Inr (), t) \<and> append_all fs t = (Inr (), s'))"
  by (auto simp: append_all_Inr list_all_iff)

fun runtime_events ::
    "(time \<Rightarrow> int \<Rightarrow> int \<Rightarrow> numeric13) \<Rightarrow> runtime_input \<Rightarrow> nat \<Rightarrow> (time \<times> time) list \<Rightarrow> usage_row list" where
  "runtime_events number input n [] = []"
| "runtime_events number input n ((a, b) # ps) =
     segment_events number input n a b @ runtime_events number input (Suc n) ps"

lemma runtime_loop_Inr:
  "runtime_loop number input start n s = (Inr (), s') \<longleftrightarrow>
     append_all (runtime_events number input n (runtime_segments start (ru_end input))) s = (Inr (), s')"
proof (induction number input start n s arbitrary: s' rule: runtime_loop.induct)
  case (1 number input start n s)
  show ?case
  proof (cases "start < ru_end input")
    case False
    then show ?thesis
      by (simp add: runtime_loop.simps [of number input start] runtime_segments.simps [of start])
  next
    case True
    have m: "(if nextMidnight start < ru_end input then nextMidnight start else ru_end input) =
        min (nextMidnight start) (ru_end input)" by auto
    note IH = 1 [OF True, unfolded m, OF refl]
    obtain r t where a: "append_all (segment_events number input n start
        (min (nextMidnight start) (ru_end input))) s = (r, t)" by fastforce
    show ?thesis
      using True IH [OF a [symmetric]] a
      by (cases r) (auto simp: runtime_loop.simps [of number input start] runtime_segments.simps [of start]
          m append_all_append)
  qed
qed

lemma recordMachineRuntime_Inr:
  "recordMachineRuntime number input s = (Inr (), s') \<longleftrightarrow> ru_start input \<le> ru_end input \<and>
     append_all (runtime_events number input 0 (runtime_segments (ru_start input) (ru_end input))) s = (Inr (), s')"
  by (simp add: recordMachineRuntime_def runtime_loop_Inr)

lemma foldl_add_keys: "set (map u_key (foldl add_usage us es)) = set (map u_key us) \<union> set (map u_key es)"
  by (induction es arbitrary: us) (auto simp: add_usage_def)

lemma foldl_add_known: "set (map u_key es) \<subseteq> set (map u_key us) \<Longrightarrow> foldl add_usage us es = us"
  by (induction es) (auto simp: add_usage_def)

lemma foldl_add_new:
  "distinct (map u_key es) \<Longrightarrow> set (map u_key es) \<inter> set (map u_key us) = {} \<Longrightarrow>
    foldl add_usage us es = us @ es"
proof (induction es arbitrary: us)
  case Nil
  then show ?case by simp
next
  case (Cons e es)
  then have "foldl add_usage (us @ [e]) es = (us @ [e]) @ es" by (intro Cons.IH) auto
  moreover have "add_usage us e = us @ [e]" using Cons.prems by (simp add: add_usage_def)
  ultimately show ?case by simp
qed

text \<open>Recording a run is idempotent: once \<open>recordMachineRuntime\<close> has succeeded, repeating it
  with the same prefix (a retried flush) succeeds and changes nothing.\<close>

theorem recordMachineRuntime_retry:
  assumes "recordMachineRuntime number input s = (Inr (), s')"
  shows "recordMachineRuntime number input s' = (Inr (), s')"
proof -
  let ?es = "runtime_events number input 0 (runtime_segments (ru_start input) (ru_end input))"
  from assms have ok: "ru_start input \<le> ru_end input" "list_all (usage_valid s) ?es"
      and s': "s' = s\<lparr>usage_events := foldl add_usage (usage_events s) ?es\<rparr>"
    by (simp_all add: recordMachineRuntime_Inr append_all_Inr)
  have "foldl add_usage (foldl add_usage (usage_events s) ?es) ?es = foldl add_usage (usage_events s) ?es"
    by (rule foldl_add_known) (simp add: foldl_add_keys del: set_map)
  with ok show ?thesis by (auto simp: recordMachineRuntime_Inr append_all_Inr s' list_all_iff)
qed


lemma segment_key_inj:
  assumes "show_nat a @ CHR '':'' # x = show_nat b @ CHR '':'' # y"
  shows "a = b"
proof -
  have "\<not> is_digit (CHR '':'')" by (simp add: is_digit_def less_eq_char_def)
  then have "takeWhile is_digit (show_nat n @ CHR '':'' # z) = show_nat n" for n z
    by (rule takeWhile_digits [OF show_nat_digits])
  with assms have "show_nat a = show_nat b" by metis
  then show ?thesis by (metis read_show_nat)
qed

text \<open>The keys a run can use.\<close>

definition prefix_of :: "string \<Rightarrow> string \<Rightarrow> bool" where
  "prefix_of p k \<longleftrightarrow> take (Suc (length p)) k = p @ '':''"

lemma runtime_events_key:
  "k \<in> set (map u_key (runtime_events number input n ps)) \<Longrightarrow>
    \<exists>i\<ge>n. \<exists>x. k = ru_eventPrefix input @ '':'' @ show_nat i @ CHR '':'' # x"
proof (induction ps arbitrary: n)
  case Nil
  then show ?case by simp
next
  case (Cons p ps)
  obtain a b where p: "p = (a, b)" by fastforce
  consider "k \<in> set (map u_key (segment_events number input n a b))"
    | "k \<in> set (map u_key (runtime_events number input (Suc n) ps))"
    using Cons.prems p by auto
  then show ?case
  proof cases
    case 1
    then show ?thesis by (intro exI [of _ n]) (auto simp: segment_events_def Let_def)
  next
    case 2
    with Cons.IH show ?thesis by (meson Suc_leD)
  qed
qed

lemma runtime_events_distinct: "distinct (map u_key (runtime_events number input n ps))"
proof (induction ps arbitrary: n)
  case Nil
  then show ?case by simp
next
  case (Cons p ps)
  obtain a b where p: "p = (a, b)" by fastforce
  have "distinct (map u_key (segment_events number input n a b))"
    by (simp add: segment_events_def Let_def)
  moreover have "k \<notin> set (map u_key (runtime_events number input (Suc n) ps))"
    if k: "k \<in> set (map u_key (segment_events number input n a b))" for k
  proof
    assume "k \<in> set (map u_key (runtime_events number input (Suc n) ps))"
    then obtain i x where i: "Suc n \<le> i" and "k = ru_eventPrefix input @ '':'' @ show_nat i @ CHR '':'' # x"
      using runtime_events_key by blast
    moreover from k obtain y where "k = ru_eventPrefix input @ '':'' @ show_nat n @ CHR '':'' # y"
      by (auto simp: segment_events_def Let_def)
    ultimately have "show_nat i @ CHR '':'' # x = show_nat n @ CHR '':'' # y" by simp
    from segment_key_inj [OF this] i show False by simp
  qed
  ultimately show ?case using Cons.IH [of "Suc n"] p by auto
qed

lemma runtime_events_periods:
  assumes "d = vcpu_seconds \<or> d = gib_seconds"
  shows "map (\<lambda>u. (u_period_start u, u_period_end u))
    (filter (\<lambda>u. u_dimension u = d) (runtime_events number input n ps)) = ps"
  using assms by (induction ps arbitrary: n) (auto simp: segment_events_def Let_def)

lemma runtime_events_quantity:
  assumes "day_chain a ps b" and "\<And>ms. 0 \<le> ms \<Longrightarrow> number ms (ru_vcpus input) 1 = numeric_seconds ms * ru_vcpus input"
  shows "sum_list (map u_quantity (filter (\<lambda>u. u_dimension u = vcpu_seconds) (runtime_events number input n ps))) =
    numeric_seconds (b - a) * ru_vcpus input"
  using assms(1)
  by (induction ps arbitrary: a n)
    (auto simp: segment_events_def Let_def assms(2) numeric_seconds_def algebra_simps)

text \<open>A run is billed exactly: on a ledger that holds none of its keys, a successful
  \<open>recordMachineRuntime\<close> only appends, for each dimension, one event per interval of a chain that
  covers the run from start to end without gap or overlap and never crosses a UTC midnight, and
  the vCPU-seconds add up to the run's length times its vCPUs (where the product of doubles is
  exact).\<close>

theorem recordMachineRuntime_exact:
  assumes "recordMachineRuntime number input s = (Inr (), s')"
    and "\<And>u. u \<in> set (usage_events s) \<Longrightarrow> \<not> prefix_of (ru_eventPrefix input) (u_key u)"
    and "\<And>ms. 0 \<le> ms \<Longrightarrow> number ms (ru_vcpus input) 1 = numeric_seconds ms * ru_vcpus input"
  shows "\<exists>es ps. s' = s\<lparr>usage_events := usage_events s @ es\<rparr> \<and> day_chain (ru_start input) ps (ru_end input) \<and>
    (\<forall>d\<in>{vcpu_seconds, gib_seconds}. map (\<lambda>u. (u_period_start u, u_period_end u)) (filter (\<lambda>u. u_dimension u = d) es) = ps) \<and>
    sum_list (map u_quantity (filter (\<lambda>u. u_dimension u = vcpu_seconds) es)) =
      numeric_seconds (ru_end input - ru_start input) * ru_vcpus input"
proof -
  let ?ps = "runtime_segments (ru_start input) (ru_end input)"
  let ?es = "runtime_events number input 0 ?ps"
  from assms(1) have le: "ru_start input \<le> ru_end input"
      and s': "s' = s\<lparr>usage_events := foldl add_usage (usage_events s) ?es\<rparr>"
    by (simp_all add: recordMachineRuntime_Inr append_all_Inr)
  have "set (map u_key ?es) \<inter> set (map u_key (usage_events s)) = {}"
  proof (rule ccontr)
    assume "set (map u_key ?es) \<inter> set (map u_key (usage_events s)) \<noteq> {}"
    then obtain k where "k \<in> set (map u_key ?es)" "k \<in> set (map u_key (usage_events s))" by blast
    then obtain u where u: "u \<in> set (usage_events s)" "u_key u \<in> set (map u_key ?es)"
      by (metis imageE set_map)
    from runtime_events_key [OF u(2)] obtain i x where
        "u_key u = ru_eventPrefix input @ '':'' @ show_nat i @ CHR '':'' # x" by blast
    then have "prefix_of (ru_eventPrefix input) (u_key u)" by (simp add: prefix_of_def)
    with assms(2) u show False by blast
  qed
  then have "s' = s\<lparr>usage_events := usage_events s @ ?es\<rparr>"
    using s' foldl_add_new [OF runtime_events_distinct] by simp
  moreover note chain = runtime_segments_chain [OF le]
  moreover have "\<forall>d\<in>{vcpu_seconds, gib_seconds}.
      map (\<lambda>u. (u_period_start u, u_period_end u)) (filter (\<lambda>u. u_dimension u = d) ?es) = ?ps"
    by (auto simp: runtime_events_periods)
  moreover have "sum_list (map u_quantity (filter (\<lambda>u. u_dimension u = vcpu_seconds) ?es)) =
      numeric_seconds (ru_end input - ru_start input) * ru_vcpus input"
    by (rule runtime_events_quantity [OF chain]) (rule assms(3))
  ultimately show ?thesis by (intro exI conjI) assumption+
qed

section \<open>The loop over days ends\<close>

lemma runtime_segments_length:
  "start \<le> to \<Longrightarrow> int (length (runtime_segments start to)) \<le> to div 86400000 - start div 86400000 + 1"
proof (induction start to rule: runtime_segments.induct)
  case (1 start to)
  show ?case
  proof (cases "nextMidnight start < to")
    case True
    then have lt: "start < to" using nextMidnight_greater [of start] by simp
    have "nextMidnight start div 86400000 = start div 86400000 + 1" by (simp add: nextMidnight_def)
    with 1(1) [OF lt] True lt show ?thesis by (simp add: runtime_segments.simps [of start to] min_def)
  next
    case False
    then have "length (runtime_segments start to) \<le> 1"
      by (simp add: runtime_segments.simps [of start to] runtime_segments.simps [of to to] min_def)
    moreover have "start div 86400000 \<le> to div 86400000" using 1(2) by (rule zdiv_mono1) simp
    ultimately show ?thesis by simp
  qed
qed

lemma runtime_events_length: "length (runtime_events number input n ps) = 2 * length ps"
  by (induction number input n ps rule: runtime_events.induct) (simp_all add: segment_events_def Let_def)

lemma runtime_events_valid:
  assumes "day_chain a ps b" and "list_ex (\<lambda>p. p_id p = ru_projectId input \<and> p_organization_id p = ru_organizationId input) (projects s)"
    and "list_ex (\<lambda>m. m_id m = ru_machineId input \<and> m_organization_id m = ru_organizationId input) (machines s)"
    and "0 \<le> ru_vcpus input" and "0 \<le> ru_memoryMb input"
    and "\<And>ms n d. 0 \<le> ms \<Longrightarrow> 0 \<le> n \<Longrightarrow> 0 < d \<Longrightarrow> 0 \<le> number ms n d"
  shows "list_all (usage_valid s) (runtime_events number input n ps)"
  using assms(1)
proof (induction ps arbitrary: a n)
  case (Cons p ps)
  obtain x y where p: "p = (x, y)" by fastforce
  with Cons.prems have "x < y" "day_chain y ps b" by auto
  then have "\<not> number (y - x) (ru_vcpus input) 1 < 0" "\<not> number (y - x) (ru_memoryMb input) 1024 < 0"
    using assms(4,5) assms(6) [of "y - x"] by (simp_all add: not_less)
  with \<open>x < y\<close> have "usage_valid s e" if "e \<in> set (segment_events number input n x y)" for e
    using that assms(2,3) by (auto simp: segment_events_def Let_def usage_valid_def append_usage_def)
  with Cons.IH \<open>day_chain y ps b\<close> show ?case by (auto simp: p list_all_iff)
qed simp

lemma foldl_add_length: "length (foldl add_usage us es) \<le> length us + length es"
proof (induction es arbitrary: us)
  case (Cons e es)
  from Cons [of "add_usage us e"] show ?case by (simp add: add_usage_def split: if_splits)
qed simp

text \<open>C37: \<open>recordMachineRuntime\<close> ends. Its loop over the days of a run makes at most one pass for
  each day the run touches, so for a machine and a project the database has it returns, having
  stored at most two events a day.\<close>

theorem recordMachineRuntime_completes:
  assumes "ru_start input \<le> ru_end input" and "0 \<le> ru_vcpus input" and "0 \<le> ru_memoryMb input"
    and "\<And>ms n d. 0 \<le> ms \<Longrightarrow> 0 \<le> n \<Longrightarrow> 0 < d \<Longrightarrow> 0 \<le> number ms n d"
    and "list_ex (\<lambda>p. p_id p = ru_projectId input \<and> p_organization_id p = ru_organizationId input) (projects s)"
    and "list_ex (\<lambda>m. m_id m = ru_machineId input \<and> m_organization_id m = ru_organizationId input) (machines s)"
  shows "\<exists>s'. recordMachineRuntime number input s = (Inr (), s') \<and>
    int (length (usage_events s')) \<le>
      int (length (usage_events s)) + 2 * (ru_end input div 86400000 - ru_start input div 86400000 + 1)"
proof -
  let ?ps = "runtime_segments (ru_start input) (ru_end input)"
  let ?es = "runtime_events number input 0 ?ps"
  let ?s = "s\<lparr>usage_events := foldl add_usage (usage_events s) ?es\<rparr>"
  have "list_all (usage_valid s) ?es"
    by (rule runtime_events_valid [OF runtime_segments_chain [OF assms(1)] assms(5,6,2-4)])
  then have "recordMachineRuntime number input s = (Inr (), ?s)"
    using assms(1) by (simp add: recordMachineRuntime_Inr append_all_Inr)
  moreover have "int (length (usage_events ?s)) \<le> int (length (usage_events s)) + 2 * int (length ?ps)"
    using foldl_add_length [of "usage_events s" ?es] by (simp add: runtime_events_length)
  ultimately show ?thesis using runtime_segments_length [OF assms(1)] by (intro exI [of _ ?s]) simp
qed

end
