(* ===== verification/Scheduler.thy ===== *)
theory Scheduler
  imports Billing
begin

text \<open>
  The scheduler, \<open>scheduler/scheduler.ts\<close>: admission of a request against the organization and
  project quotas, the choice of a host and the reservation made on it together with the
  assignment of the machine, and the release of a reservation. Each is one transaction.

  \<open>SKIP LOCKED\<close> leaves out the hosts another transaction holds; which ones these are is an
  argument.
\<close>

section \<open>Requests and reservations\<close>

record schedule_request =
  sr_organizationId :: uuid
  sr_projectId :: uuid
  sr_region :: string
  sr_architecture :: architecture
  sr_resources :: resources
  sr_templateId :: "uuid option"
  sr_machineId :: "string option"

record reservation =
  rv_hostId :: uuid
  rv_address :: string
  rv_cachedTemplate :: bool
  rv_runtimeCohortId :: "string option"
  rv_sourceSha256 :: "string option"
  rv_assignmentCommitted :: bool

section \<open>Quotas\<close>

text \<open>The allocated machines a quota counts: \<open>count(*)\<close> and \<open>sum(...)\<close> over them.\<close>

definition used_machines :: "(machine_row \<Rightarrow> bool) \<Rightarrow> fleet \<Rightarrow> int" where
  "used_machines P s = int (length (filter (\<lambda>m. P m \<and> allocated (m_state m)) (machines s)))"

definition used_resources :: "(machine_row \<Rightarrow> bool) \<Rightarrow> fleet \<Rightarrow> resources" where
  "used_resources P s =
     sum_list (map m_resources (filter (\<lambda>m. P m \<and> allocated (m_state m)) (machines s)))"

text \<open>The disjunction both admissions test, for \<open>n\<close> more machines of \<open>r\<close> in all.\<close>

definition quota_exceeded :: "int \<Rightarrow> resources \<Rightarrow> int \<Rightarrow> resources \<Rightarrow> int \<Rightarrow> resources \<Rightarrow> bool" where
  "quota_exceeded count used max_machines max_resources n r \<longleftrightarrow>
     count + n > max_machines \<or>
     vcpus used + vcpus r > vcpus max_resources \<or>
     memoryMb used + memoryMb r > memoryMb max_resources \<or>
     diskMb used + diskMb r > diskMb max_resources"

text \<open>\<open>CEIL(GREATEST(EXTRACT(EPOCH FROM (expires_at - statement_timestamp())), 0))\<close>.\<close>

definition seconds_left :: "time \<Rightarrow> time \<Rightarrow> int" where
  "seconds_left now expires = ceil_div (max 0 (expires - now)) 1000"

definition present :: "string option \<Rightarrow> bool" where
  "present x \<longleftrightarrow> \<not> falsy x"

definition candidate_seconds :: "fleet \<Rightarrow> schedule_request \<Rightarrow> time \<Rightarrow> int" where
  "candidate_seconds s request now =
     (if present (sr_machineId request) then
        (case find (\<lambda>m. Some (m_id m) = sr_machineId request \<and>
             m_organization_id m = sr_organizationId request \<and> m_project_id m = sr_projectId request \<and>
             unplaced (m_state m)) (machines s) of
           None \<Rightarrow> 0
         | Some m \<Rightarrow> seconds_left now (m_expires_at m))
      else 0)"

definition enforceQuota ::
    "(numeric13 \<Rightarrow> numeric13) \<Rightarrow> admission_policy \<Rightarrow> schedule_request \<Rightarrow> time \<Rightarrow> fleet \<Rightarrow> error option" where
  "enforceQuota pgdiv1024 policy request now s =
     (case find (\<lambda>x. o_id x = sr_organizationId request) (organizations s) of
        None \<Rightarrow> Some (QuotaExceeded ''Organization does not exist.'')
      | Some org \<Rightarrow>
          (let candidateSeconds = candidate_seconds s request now in
           case enforce pgdiv1024 policy s (sr_organizationId request)
               \<lparr>bd_vcpuSeconds = Some (candidateSeconds * vcpus (sr_resources request)),
                bd_memoryMebibyteSeconds = Some (candidateSeconds * memoryMb (sr_resources request)),
                bd_storageByteSeconds = None\<rparr> now of
             Some e \<Rightarrow> Some e
           | None \<Rightarrow>
               (case find (\<lambda>p. p_id p = sr_projectId request \<and>
                    p_organization_id p = sr_organizationId request) (projects s) of
                  None \<Rightarrow> Some (QuotaExceeded ''Project does not belong to this organization.'')
                | Some project \<Rightarrow>
                    (if quota_exceeded
                          (used_machines (\<lambda>m. m_organization_id m = sr_organizationId request) s)
                          (used_resources (\<lambda>m. m_organization_id m = sr_organizationId request) s)
                          (o_max_machines org) (o_max org) 1 (sr_resources request)
                     then Some (QuotaExceeded ''Organization machine quota would be exceeded.'')
                     else if quota_exceeded
                          (used_machines (\<lambda>m. m_project_id m = sr_projectId request) s)
                          (used_resources (\<lambda>m. m_project_id m = sr_projectId request) s)
                          (p_max_machines project) (p_max project) 1 (sr_resources request)
                     then Some (QuotaExceeded ''Project machine quota would be exceeded.'')
                     else None))))"

section \<open>Host selection\<close>

text \<open>\<open>LEAST(total - reserved, COALESCE(reported, total - reserved))\<close> in one dimension.\<close>

definition least_available :: "int \<Rightarrow> int option \<Rightarrow> int" where
  "least_available free reported = (case reported of None \<Rightarrow> free | Some r \<Rightarrow> min free r)"

definition host_free :: "host_row \<Rightarrow> resources" where
  "host_free h = h_total h - h_reserved h"

definition host_has_room :: "host_row \<Rightarrow> resources \<Rightarrow> bool" where
  "host_has_room h r \<longleftrightarrow>
     vcpus r \<le> least_available (vcpus (host_free h)) (h_reported_vcpus h) \<and>
     memoryMb r \<le> least_available (memoryMb (host_free h)) (h_reported_memory_mb h) \<and>
     diskMb r \<le> least_available (diskMb (host_free h)) (h_reported_disk_mb h)"

definition host_fresh :: "time \<Rightarrow> host_row \<Rightarrow> bool" where
  "host_fresh now h =
     (case h_last_heartbeat_at h of None \<Rightarrow> False | Some t \<Rightarrow> t > now - seconds 30)"

definition host_accepting :: "time \<Rightarrow> host_row \<Rightarrow> bool" where
  "host_accepting now h \<longleftrightarrow> h_state h = Ready \<and> h_desired_state h = DActive \<and>
     h_credential_status h = CredActive \<and> host_fresh now h"

text \<open>The live requested template, and whether a ready replica of it is on the host.\<close>

definition requested_template :: "fleet \<Rightarrow> schedule_request \<Rightarrow> template_row option" where
  "requested_template s request =
     (case sr_templateId request of
        None \<Rightarrow> None
      | Some t \<Rightarrow> find (\<lambda>r. t_id r = t \<and> t_deleted_at r = None) (templates s))"

definition cached_template :: "fleet \<Rightarrow> schedule_request \<Rightarrow> host_row \<Rightarrow> bool" where
  "cached_template s request h =
     (case requested_template s request of
        None \<Rightarrow> False
      | Some t \<Rightarrow> list_ex (\<lambda>r. r_host_id r = h_id h \<and> r_template_id r = t_id t \<and> r_state r = ReplicaReady)
          (template_replicas s))"

definition reserve_candidate :: "fleet \<Rightarrow> schedule_request \<Rightarrow> machine_row option" where
  "reserve_candidate s request =
     (case sr_machineId request of None \<Rightarrow> None | Some i \<Rightarrow> find (\<lambda>m. m_id m = i) (machines s))"

definition reserve_source :: "fleet \<Rightarrow> schedule_request \<Rightarrow> host_row \<Rightarrow> string option" where
  "reserve_source s request h =
     (case reserve_candidate s request of None \<Rightarrow> None | Some m \<Rightarrow> source_digest True s h m)"

definition eligible :: "fleet \<Rightarrow> schedule_request \<Rightarrow> time \<Rightarrow> host_row \<Rightarrow> bool" where
  "eligible s request now h \<longleftrightarrow>
     h_region_id h = sr_region request \<and> h_architecture h = sr_architecture request \<and>
     host_accepting now h \<and> host_has_room h (sr_resources request) \<and>
     (sr_templateId request = None \<or> cached_template s request h) \<and>
     (sr_machineId request = None \<or>
      (reserve_candidate s request \<noteq> None \<and> h_cohort h \<noteq> None \<and>
       (case reserve_source s request h of None \<Rightarrow> False | Some d \<Rightarrow> hex64 d)))"

definition cmp_of :: "'a :: linorder \<Rightarrow> 'a \<Rightarrow> int" where
  "cmp_of a b = (if a < b then -1 else if a = b then 0 else 1)"

text \<open>The \<open>ORDER BY\<close>: cached template first, then the tightest memory, the tightest CPU, the id.\<close>

definition reserve_cmp :: "fleet \<Rightarrow> schedule_request \<Rightarrow> host_row \<Rightarrow> host_row \<Rightarrow> int" where
  "reserve_cmp s request a b =
     (if cached_template s request a \<noteq> cached_template s request b
      then (if cached_template s request a then -1 else 1)
      else if memoryMb (host_free a) \<noteq> memoryMb (host_free b)
      then cmp_of (memoryMb (host_free a) - memoryMb (sr_resources request))
             (memoryMb (host_free b) - memoryMb (sr_resources request))
      else if vcpus (host_free a) \<noteq> vcpus (host_free b)
      then cmp_of (vcpus (host_free a) - vcpus (sr_resources request))
             (vcpus (host_free b) - vcpus (sr_resources request))
      else cmp_of (h_id a) (h_id b))"

definition select_host :: "fleet \<Rightarrow> uuid list \<Rightarrow> schedule_request \<Rightarrow> time \<Rightarrow> host_row option" where
  "select_host s locked request now =
     first_row (sort_by (reserve_cmp s request)
       (filter (\<lambda>h. eligible s request now h \<and> h_id h \<notin> set locked) (hosts s)))"

section \<open>Reserve and release\<close>

definition assign_machine :: "string \<Rightarrow> uuid \<Rightarrow> string option \<Rightarrow> string option \<Rightarrow> time \<Rightarrow> fleet \<Rightarrow> error + fleet" where
  "assign_machine i host cohort source now =
     update_machines (\<lambda>m. m_id m = i \<and> unplaced (m_state m))
       (\<lambda>m. m\<lparr>m_host_id := Some host, m_runtime_cohort_id := cohort, m_source_sha256 := source,
              m_state := Starting, m_placed_at := Some now,
              m_startup_deadline_at := Some (now + minutes 2)\<rparr>)"

definition add_reserved :: "uuid \<Rightarrow> resources \<Rightarrow> fleet \<Rightarrow> error + fleet" where
  "add_reserved host r =
     update_hosts (\<lambda>h. h_id h = host) (\<lambda>h. h\<lparr>h_reserved := h_reserved h + r\<rparr>)"

definition sub_reserved :: "uuid \<Rightarrow> resources \<Rightarrow> fleet \<Rightarrow> error + fleet" where
  "sub_reserved host r =
     update_hosts (\<lambda>h. h_id h = host) (\<lambda>h. h\<lparr>h_reserved := sub_clamp (h_reserved h) r\<rparr>)"

definition assigned_event :: "string \<Rightarrow> uuid \<Rightarrow> event_row" where
  "assigned_event i org =
     \<lparr>e_key = i @ '':assigned'', e_machine_id = i, e_organization_id = org, e_from_state = Some Requested,
      e_to_state = Starting, e_reason = None, e_observed_by = ''control-plane'', e_metadata = []\<rparr>"

definition reserve ::
    "(numeric13 \<Rightarrow> numeric13) \<Rightarrow> admission_policy \<Rightarrow> uuid list \<Rightarrow> schedule_request \<Rightarrow> time \<Rightarrow> reservation tx" where
  "reserve pgdiv1024 policy locked request now s =
     (case validateResources (raw_of (sr_resources request)) of
        Inl message \<Rightarrow> Inl (PlainError message)
      | Inr _ \<Rightarrow>
     (case enforceQuota pgdiv1024 policy request now s of
        Some e \<Rightarrow> Inl e
      | None \<Rightarrow>
     (case select_host s locked request now of
        None \<Rightarrow> Inl (CapacityUnavailable ''No healthy host has enough reserved capacity.'')
      | Some host \<Rightarrow>
          (let result = \<lparr>rv_hostId = h_id host, rv_address = h_address host,
                 rv_cachedTemplate = cached_template s request host,
                 rv_runtimeCohortId = map_option rc_id (h_cohort host),
                 rv_sourceSha256 = reserve_source s request host,
                 rv_assignmentCommitted = present (sr_machineId request)\<rparr> in
           case add_reserved (h_id host) (sr_resources request) s of
             Inl e \<Rightarrow> Inl e
           | Inr s1 \<Rightarrow>
               (if present (sr_machineId request) then
                  (let i = the (sr_machineId request) in
                   case assign_machine i (h_id host) (map_option rc_id (h_cohort host))
                       (reserve_source s request host) now s1 of
                     Inl e \<Rightarrow> Inl e
                   | Inr s2 \<Rightarrow>
                       (case find (\<lambda>m. m_id m = i \<and> unplaced (m_state m)) (machines s1) of
                          None \<Rightarrow> Inl (PlainError ''machine could not be assigned atomically'')
                        | Some m \<Rightarrow> Inr (result, insert_event (assigned_event i (m_organization_id m)) s2)))
                else Inr (result, s1))))))"

text \<open>\<open>UPDATE machines SET reservation_released_at = now() WHERE ... IS NULL\<close>, shared by all releases.\<close>

definition claim_release :: "string \<Rightarrow> time \<Rightarrow> fleet \<Rightarrow> error + fleet" where
  "claim_release i now =
     update_machines (\<lambda>m. m_id m = i \<and> m_reservation_released_at m = None)
       (\<lambda>m. m\<lparr>m_reservation_released_at := Some now\<rparr>)"

definition release :: "uuid \<Rightarrow> resources \<Rightarrow> string option \<Rightarrow> time \<Rightarrow> fleet \<Rightarrow> error + fleet" where
  "release host r machineId now s =
     (if present machineId then
        (case claim_release (the machineId) now s of
           Inl e \<Rightarrow> Inl e
         | Inr s1 \<Rightarrow>
             (if list_ex (\<lambda>m. m_id m = the machineId \<and> m_reservation_released_at m = None) (machines s)
              then sub_reserved host r s1 else Inr s))
      else sub_reserved host r s)"


section \<open>The choice of host\<close>

lemma cmp_of_le [simp]: "cmp_of a b \<le> 0 \<longleftrightarrow> a \<le> b"
  by (auto simp: cmp_of_def)

interpretation reserve_order: comparator "reserve_cmp s request" for s request
proof
  fix x y z
  show "reserve_cmp s request x y \<le> 0 \<or> reserve_cmp s request y x \<le> 0"
    by (auto simp: reserve_cmp_def)
  assume "reserve_cmp s request x y \<le> 0" and "reserve_cmp s request y z \<le> 0"
  then show "reserve_cmp s request x z \<le> 0"
    by (auto simp: reserve_cmp_def split: if_splits)
qed

lemma select_host_best:
  assumes "select_host s locked request now = Some h"
  shows "h \<in> set (hosts s) \<and> eligible s request now h \<and> h_id h \<notin> set locked \<and>
    (\<forall>h'\<in>set (hosts s). eligible s request now h' \<and> h_id h' \<notin> set locked \<longrightarrow> reserve_cmp s request h h' \<le> 0)"
  using reserve_order.first_minimal [OF assms [unfolded select_host_def]] by auto

lemma select_host_None:
  "select_host s locked request now = None \<longleftrightarrow>
     (\<forall>h\<in>set (hosts s). \<not> (eligible s request now h \<and> h_id h \<notin> set locked))"
  by (auto simp: select_host_def filter_empty_conv)

lemma reserve_select:
  assumes "reserve g policy locked request now s = Inr (rv, s')"
  obtains h where "select_host s locked request now = Some h" and "rv_hostId rv = h_id h"
    and "rv_address rv = h_address h" and "rv_runtimeCohortId rv = map_option rc_id (h_cohort h)"
    and "rv_sourceSha256 rv = reserve_source s request h"
  using assms by (auto simp: reserve_def Let_def split: sum.splits option.splits if_splits)

lemma reserve_cmp_le:
  "reserve_cmp s request h h' \<le> 0 \<longleftrightarrow>
     (cached_template s request h' \<longrightarrow> cached_template s request h) \<and>
     (cached_template s request h' = cached_template s request h \<longrightarrow>
       memoryMb (host_free h) \<le> memoryMb (host_free h') \<and>
       (memoryMb (host_free h) = memoryMb (host_free h') \<longrightarrow>
         vcpus (host_free h) \<le> vcpus (host_free h') \<and>
         (vcpus (host_free h) = vcpus (host_free h') \<longrightarrow> h_id h \<le> h_id h')))"
  by (simp add: reserve_cmp_def)

text \<open>What being eligible means for the host that is chosen.\<close>

lemma eligible_placed:
  assumes "eligible s request now h"
  shows "h_region_id h = sr_region request \<and> h_architecture h = sr_architecture request \<and>
    h_state h = Ready \<and> h_desired_state h = DActive \<and> h_credential_status h = CredActive \<and>
    (\<exists>t. h_last_heartbeat_at h = Some t \<and> now - t < 30000) \<and> host_has_room h (sr_resources request)"
  using assms by (auto simp: eligible_def host_accepting_def host_fresh_def split: option.splits)

lemma eligible_template:
  assumes "eligible s request now h"
  shows "case sr_templateId request of
      None \<Rightarrow> True
    | Some i \<Rightarrow> (\<exists>t\<in>set (templates s). t_id t = i \<and> t_deleted_at t = None) \<and>
        (\<exists>r\<in>set (template_replicas s). r_host_id r = h_id h \<and> r_template_id r = i \<and> r_state r = ReplicaReady)"
  using assms
  by (auto simp: eligible_def cached_template_def requested_template_def list_ex_iff split: option.splits dest!: find_SomeD)

lemma eligible_source:
  assumes "eligible s request now h"
  shows "sr_machineId request = None \<or>
    (\<exists>c d. h_cohort h = Some c \<and> reserve_source s request h = Some d \<and> hex64 d)"
  using assms by (auto simp: eligible_def split: option.splits)


end
