(* ===== verification/Accounting.thy ===== *)
theory Accounting
  imports Scheduler
begin

text \<open>
  The reservation invariant that the scheduler, the machine repository, the fork operations and
  the reconciler maintain together: what a host has reserved is exactly the sum of the resources
  of the machines placed on it whose reservation has not been released, and never more than the
  host has. The theory states it and shows how each kind of statement keeps it.
\<close>

section \<open>The invariant\<close>

definition weight :: "uuid \<Rightarrow> machine_row \<Rightarrow> resources" where
  "weight h m = (if m_host_id m = Some h \<and> m_reservation_released_at m = None then m_resources m else 0)"

definition committed :: "uuid \<Rightarrow> machine_row list \<Rightarrow> resources" where
  "committed h ms = sum_list (map (weight h) ms)"

definition accounted :: "host_row list \<Rightarrow> machine_row list \<Rightarrow> bool" where
  "accounted hs ms \<longleftrightarrow>
     (\<forall>h\<in>set hs. h_reserved h = committed (h_id h) ms \<and> h_reserved h \<le> h_total h)"

definition machine_ok :: "machine_row \<Rightarrow> bool" where
  "machine_ok m \<longleftrightarrow> machine_check m \<and>
     (unplaced (m_state m) \<longrightarrow> m_reservation_released_at m = None \<and> m_fork_operation_id m = None)"

text \<open>While a fork is pending its children stay as they were allocated.\<close>

definition child_ok :: "fork_row \<Rightarrow> machine_row \<Rightarrow> bool" where
  "child_ok f m \<longleftrightarrow>
     (f_state f = Pending \<and> m_fork_operation_id m = Some (f_id f) \<longrightarrow>
      m_state m = Starting \<and> m_host_id m = Some (f_source_host_id f) \<and> m_reservation_released_at m = None)"

definition extends_ok :: "extend_row list \<Rightarrow> bool" where
  "extends_ok xs \<longleftrightarrow> distinct (map x_id xs) \<and> list_all extend_check xs"

definition fleet_inv :: "fleet \<Rightarrow> bool" where
  "fleet_inv s \<longleftrightarrow>
     distinct (map m_id (machines s)) \<and> distinct (map h_id (hosts s)) \<and> distinct (map f_id (fork_ops s)) \<and>
     accounted (hosts s) (machines s) \<and>
     (\<forall>m\<in>set (machines s). machine_ok m) \<and>
     (\<forall>m\<in>set (machines s). opt_ok (\<lambda>h. h \<in> h_id ` set (hosts s)) (m_host_id m)) \<and>
     (\<forall>m\<in>set (machines s). opt_ok (\<lambda>f. f \<in> f_id ` set (fork_ops s)) (m_fork_operation_id m)) \<and>
     (\<forall>f\<in>set (fork_ops s). \<forall>m\<in>set (machines s). child_ok f m) \<and>
     extends_ok (extend_ops s)"

text \<open>A machine whose fork has not been decided: no operation but the fork's own may touch it.\<close>

definition pending_child :: "fleet \<Rightarrow> machine_row \<Rightarrow> bool" where
  "pending_child s m \<longleftrightarrow>
     list_ex (\<lambda>f. m_fork_operation_id m = Some (f_id f) \<and> f_state f = Pending) (fork_ops s)"

lemma pending_childI:
  "f \<in> set (fork_ops s) \<Longrightarrow> f_state f = Pending \<Longrightarrow> m_fork_operation_id m = Some (f_id f) \<Longrightarrow> pending_child s m"
  by (auto simp: pending_child_def list_ex_iff)

lemma fleet_invD:
  assumes "fleet_inv s"
  shows "distinct (map m_id (machines s))" "distinct (map h_id (hosts s))" "distinct (map f_id (fork_ops s))"
    "accounted (hosts s) (machines s)" "\<And>m. m \<in> set (machines s) \<Longrightarrow> machine_ok m"
    "\<And>m h. m \<in> set (machines s) \<Longrightarrow> m_host_id m = Some h \<Longrightarrow> h \<in> h_id ` set (hosts s)"
    "\<And>m f. m \<in> set (machines s) \<Longrightarrow> m_fork_operation_id m = Some f \<Longrightarrow> f \<in> f_id ` set (fork_ops s)"
    "\<And>f m. f \<in> set (fork_ops s) \<Longrightarrow> m \<in> set (machines s) \<Longrightarrow> child_ok f m"
    "extends_ok (extend_ops s)"
  using assms by (auto simp: fleet_inv_def opt_ok_def split: option.splits)

lemma fleet_inv_cong:
  "machines s' = machines s \<Longrightarrow> hosts s' = hosts s \<Longrightarrow> fork_ops s' = fork_ops s \<Longrightarrow>
    extend_ops s' = extend_ops s \<Longrightarrow> fleet_inv s' = fleet_inv s"
  by (simp add: fleet_inv_def)

lemma fleet_inv_insert_event [simp]: "fleet_inv (insert_event e s) = fleet_inv s"
  by (rule fleet_inv_cong) simp_all

lemma machine_ok_unplaced: "machine_ok m \<Longrightarrow> unplaced (m_state m) \<Longrightarrow> m_host_id m = None"
  by (auto simp: machine_ok_def machine_check_def runtime_binding_check_def terminal_def unplaced_def)

lemma machine_ok_resources: "machine_ok m \<Longrightarrow> 0 \<le> m_resources m"
  by (auto simp: machine_ok_def machine_check_def resources_le)

lemma weight_nonneg: "machine_ok m \<Longrightarrow> 0 \<le> weight h m"
  by (simp add: weight_def machine_ok_resources)

lemma committed_nonneg: "(\<And>m. m \<in> set ms \<Longrightarrow> machine_ok m) \<Longrightarrow> 0 \<le> committed h ms"
  unfolding committed_def
  by (rule sum_list_nonneg) (auto simp: weight_nonneg)

lemma committed_unknown: "(\<And>m. m \<in> set ms \<Longrightarrow> m_host_id m \<noteq> Some h) \<Longrightarrow> committed h ms = 0"
  unfolding committed_def by (rule sum_list_map_zero) (simp add: weight_def)

section \<open>Statements that leave reservations alone\<close>

text \<open>What reservations depend on in a machine row.\<close>

definition same_core :: "machine_row \<Rightarrow> machine_row \<Rightarrow> bool" where
  "same_core m m' \<longleftrightarrow> m_id m' = m_id m \<and> m_host_id m' = m_host_id m \<and> m_resources m' = m_resources m \<and>
     m_reservation_released_at m' = m_reservation_released_at m \<and>
     m_fork_operation_id m' = m_fork_operation_id m"

lemma same_core_weight: "same_core m m' \<Longrightarrow> weight h m' = weight h m"
  by (simp add: same_core_def weight_def)

text \<open>A change of a row that keeps the invariant, whatever else the statement did.\<close>

definition touch :: "fleet \<Rightarrow> machine_row \<Rightarrow> machine_row \<Rightarrow> bool" where
  "touch s m m' \<longleftrightarrow> m' = m \<or>
     (same_core m m' \<and> machine_check m' \<and> (unplaced (m_state m') \<longrightarrow> unplaced (m_state m)) \<and>
      (pending_child s m \<longrightarrow> m_state m' = Starting))"

lemma touch_refl [simp]: "touch s m m"
  by (simp add: touch_def)

lemma touch_core: "touch s m m' \<Longrightarrow> same_core m m'"
  by (auto simp: touch_def same_core_def)

lemma touch_ok: "touch s m m' \<Longrightarrow> machine_ok m \<Longrightarrow> machine_ok m'"
  by (auto simp: touch_def machine_ok_def same_core_def)

lemma committed_touch: "list_all2 (touch s) ms ms' \<Longrightarrow> committed h ms' = committed h ms"
  unfolding committed_def
  by (induction rule: list_all2_induct) (auto simp: same_core_weight dest!: touch_core)

lemma inv_rows:
  assumes inv: "fleet_inv s" and s': "s' = s\<lparr>machines := ms'\<rparr>" and t: "list_all2 (touch s) (machines s) ms'"
  shows "fleet_inv s'"
proof -
  note I = fleet_invD [OF inv]
  have rows: "\<exists>m\<in>set (machines s). touch s m m'" if "m' \<in> set ms'" for m'
    using t that by (metis in_set_conv_nth list_all2_conv_all_nth)
  have "map m_id ms' = map m_id (machines s)"
    using t by (induction rule: list_all2_induct) (auto dest!: touch_core simp: same_core_def)
  moreover have "accounted (hosts s) ms'"
    using I(4) committed_touch [OF t] by (auto simp: accounted_def)
  moreover have "machine_ok m'" if "m' \<in> set ms'" for m'
    using rows [OF that] I(5) touch_ok by blast
  moreover have "opt_ok (\<lambda>h. h \<in> h_id ` set (hosts s)) (m_host_id m')" if "m' \<in> set ms'" for m'
    using rows [OF that] I(6) by (auto simp: same_core_def opt_ok_def dest!: touch_core split: option.splits)
  moreover have "opt_ok (\<lambda>f. f \<in> f_id ` set (fork_ops s)) (m_fork_operation_id m')" if "m' \<in> set ms'" for m'
    using rows [OF that] I(7) by (auto simp: same_core_def opt_ok_def dest!: touch_core split: option.splits)
  moreover have "child_ok f m'" if f: "f \<in> set (fork_ops s)" and m': "m' \<in> set ms'" for f m'
  proof -
    from rows [OF m'] obtain m where m: "m \<in> set (machines s)" and c: "touch s m m'" by blast
    from I(8) [OF f m] c pending_childI [OF f] show ?thesis
      by (auto simp: child_ok_def touch_def same_core_def)
  qed
  ultimately show ?thesis using I(1-3,9) by (simp add: fleet_inv_def s')
qed

lemma list_all2_sql_update:
  "(\<And>r. R r r) \<Longrightarrow> (\<And>r. r \<in> set rs \<Longrightarrow> P r \<Longrightarrow> R r (f r)) \<Longrightarrow> list_all2 R rs (sql_update P f rs)"
  by (induction rs) auto

text \<open>A successful update of the machine table, row by row.\<close>

lemma update_touch:
  assumes up: "update_machines P f s = Inr s'"
    and core: "\<And>m. m \<in> set (machines s) \<Longrightarrow> P m \<Longrightarrow> same_core m (f m)"
    and placed: "\<And>m. m \<in> set (machines s) \<Longrightarrow> P m \<Longrightarrow> unplaced (m_state (f m)) \<Longrightarrow> unplaced (m_state m)"
    and child: "\<And>m. m \<in> set (machines s) \<Longrightarrow> P m \<Longrightarrow> pending_child t m \<Longrightarrow> m_state (f m) = Starting"
  shows "list_all2 (touch t) (machines s) (machines s')"
proof -
  from up obtain g where s': "s' = s\<lparr>machines := sql_update P g (machines s)\<rparr>"
      and st: "\<And>m. m \<in> set (machines s) \<Longrightarrow> P m \<Longrightarrow> stored_as (f m) (g m)"
    by (rule update_machines_Inr) blast
  have "touch t m (g m)" if m: "m \<in> set (machines s)" "P m" for m
    using core [OF m] placed [OF m] child [OF m] stored_as_sel [OF st [OF m]] st [OF m]
    by (auto simp: touch_def same_core_def stored_as_def)
  then show ?thesis unfolding s' by (auto intro!: list_all2_sql_update)
qed

lemma inv_update_machines:
  assumes inv: "fleet_inv s" and up: "update_machines P f s = Inr s'"
    and "\<And>m. m \<in> set (machines s) \<Longrightarrow> P m \<Longrightarrow> same_core m (f m)"
    and "\<And>m. m \<in> set (machines s) \<Longrightarrow> P m \<Longrightarrow> unplaced (m_state (f m)) \<Longrightarrow> unplaced (m_state m)"
    and "\<And>m. m \<in> set (machines s) \<Longrightarrow> P m \<Longrightarrow> pending_child s m \<Longrightarrow> m_state (f m) = Starting"
  shows "fleet_inv s'"
proof -
  have "s' = s\<lparr>machines := machines s'\<rparr>" using up by (elim update_machines_Inr) simp
  then show ?thesis by (rule inv_rows [OF inv _ update_touch [OF assms(2-5)]])
qed

lemma touch_trans:
  assumes "touch t a b" and "touch t b c"
  shows "touch t a c"
  using assms by (auto simp: touch_def same_core_def pending_child_def)

lemma touch_all_trans: "list_all2 (touch t) xs ys \<Longrightarrow> list_all2 (touch t) ys zs \<Longrightarrow> list_all2 (touch t) xs zs"
  by (rule list_all2_trans [OF touch_trans])

lemma inv_update_hosts:
  assumes inv: "fleet_inv s" and up: "update_hosts P f s = Inr s'"
    and keep: "\<And>h. P h \<Longrightarrow> h_id (f h) = h_id h \<and> h_reserved (f h) = h_reserved h"
  shows "fleet_inv s'"
proof -
  note s' = update_hosts_Inr(1) [OF up] and ok = update_hosts_Inr(2) [OF up]
  note I = fleet_invD [OF inv]
  have ids: "map h_id (sql_update P f (hosts s)) = map h_id (hosts s)"
    using keep by (simp add: map_sql_update)
  have "accounted (sql_update P f (hosts s)) (machines s)"
    using I(4) ok keep by (auto simp: accounted_def in_sql_update host_check_def)
  moreover have "h_id ` set (sql_update P f (hosts s)) = h_id ` set (hosts s)"
    using ids by (metis set_map)
  ultimately show ?thesis using inv ids by (simp add: s' fleet_inv_def)
qed

lemma inv_update_forks:
  assumes inv: "fleet_inv s" and up: "update_forks P f s = Inr s'"
    and keep: "\<And>r. P r \<Longrightarrow> f_id (f r) = f_id r \<and> f_source_host_id (f r) = f_source_host_id r"
    and "\<And>r. P r \<Longrightarrow> f_state (f r) = Pending \<Longrightarrow> f_state r = Pending"
  shows "fleet_inv s'"
proof -
  note s' = update_forks_Inr [OF up]
  note I = fleet_invD [OF inv]
  have ids: "map f_id (sql_update P f (fork_ops s)) = map f_id (fork_ops s)"
    using keep by (simp add: map_sql_update)
  moreover have "f_id ` set (sql_update P f (fork_ops s)) = f_id ` set (fork_ops s)"
    using ids by (metis set_map)
  moreover have "child_ok r m" if "r \<in> set (sql_update P f (fork_ops s))" "m \<in> set (machines s)" for r m
    using that(1)
  proof (cases rule: sql_updateE)
    case (1 r0)
    from I(8) [OF 1(1) that(2)] keep [OF 1(2)] assms(4) [OF 1(2)] show ?thesis by (simp add: child_ok_def 1(3))
  next
    case 2
    with I(8) that show ?thesis by blast
  qed
  ultimately show ?thesis using inv by (simp add: s' fleet_inv_def)
qed


section \<open>Statements that move reservations\<close>

text \<open>
  The committed sums of the machine table may change at one host only, by what is added to that
  host's reserved column.
\<close>

lemma accounted_shift:
  assumes acc: "accounted hs ms"
    and moved: "\<And>k. committed k ms' = committed k ms + (if k = H then d else 0)"
    and total: "\<And>h. h \<in> set hs \<Longrightarrow> h_id h = H \<Longrightarrow> h_reserved h + d \<le> h_total h"
    and f: "\<And>h. h \<in> set hs \<Longrightarrow> h_id h = H \<Longrightarrow> f h = h\<lparr>h_reserved := h_reserved h + d\<rparr>"
  shows "accounted (sql_update (\<lambda>h. h_id h = H) f hs) ms'"
  unfolding accounted_def
proof
  fix h' assume "h' \<in> set (sql_update (\<lambda>h. h_id h = H) f hs)"
  then show "h_reserved h' = committed (h_id h') ms' \<and> h_reserved h' \<le> h_total h'"
  proof (cases rule: sql_updateE)
    case (1 h)
    with acc moved [of H] total f show ?thesis by (auto simp: accounted_def)
  next
    case 2
    with acc moved [of "h_id h'"] show ?thesis by (auto simp: accounted_def)
  qed
qed

text \<open>One row changes weight; the row is found by its key.\<close>

lemma committed_key:
  assumes "distinct (map m_id ms)" and "m \<in> set ms" and "Q m"
  shows "committed k (sql_update (\<lambda>x. m_id x = m_id m \<and> Q x) g ms) =
    committed k ms + (weight k (g m) - weight k m)"
  unfolding committed_def using assms by (intro mkey.sum_update_key)

lemma inv_reservation:
  assumes inv: "fleet_inv s"
    and s': "s' = s\<lparr>hosts := hs', machines := ms'\<rparr>"
    and hs: "hs' = sql_update (\<lambda>h. h_id h = H) f (hosts s)"
    and fid: "\<And>h. h_id (f h) = h_id h"
    and acc: "accounted hs' ms'"
    and ids: "distinct (map m_id ms')"
    and ok: "\<And>m. m \<in> set ms' \<Longrightarrow> machine_ok m"
    and host: "\<And>m. m \<in> set ms' \<Longrightarrow> opt_ok (\<lambda>h. h \<in> h_id ` set (hosts s)) (m_host_id m)"
    and fork: "\<And>m. m \<in> set ms' \<Longrightarrow> opt_ok (\<lambda>f. f \<in> f_id ` set (fork_ops s)) (m_fork_operation_id m)"
    and child: "\<And>f m. f \<in> set (fork_ops s) \<Longrightarrow> m \<in> set ms' \<Longrightarrow> child_ok f m"
  shows "fleet_inv s'"
proof -
  note I = fleet_invD [OF inv]
  have hids: "map h_id hs' = map h_id (hosts s)" by (simp add: hs map_sql_update fid)
  then have "h_id ` set hs' = h_id ` set (hosts s)" by (metis set_map)
  with hids I(2,3,9) acc ids ok host fork child show ?thesis by (simp add: s' fleet_inv_def)
qed

subsection \<open>Reserve\<close>

lemma reserve_Inr:
  assumes "reserve g policy locked request now s = Inr (rv, s')" and "present (sr_machineId request)"
  obtains host i m s1 s2 where "select_host s locked request now = Some host"
    and "sr_machineId request = Some i" and "enforceQuota g policy request now s = None"
    and "add_reserved (h_id host) (sr_resources request) s = Inr s1"
    and "assign_machine i (h_id host) (map_option rc_id (h_cohort host)) (reserve_source s request host) now s1 = Inr s2"
    and "find (\<lambda>m. m_id m = i \<and> unplaced (m_state m)) (machines s) = Some m"
    and "s' = insert_event (assigned_event i (m_organization_id m)) s2"
    and "rv_hostId rv = h_id host" and "rv_assignmentCommitted rv"
proof -
  from assms obtain host where r: "validateResources (raw_of (sr_resources request)) = Inr (sr_resources request)"
      "enforceQuota g policy request now s = None" and h: "select_host s locked request now = Some host"
    by (auto simp: reserve_def validateResources_raw_of split: sum.splits option.splits)
  from assms h r obtain s1 where s1: "add_reserved (h_id host) (sr_resources request) s = Inr s1"
    by (auto simp: reserve_def Let_def split: sum.splits)
  have ms: "machines s1 = machines s"
    using update_hosts_Inr(1) [OF s1 [unfolded add_reserved_def]] by simp
  from assms(2) obtain i where i: "sr_machineId request = Some i" by (auto simp: present_def falsy_def)
  from assms h r s1 i obtain s2 m where
      "assign_machine i (h_id host) (map_option rc_id (h_cohort host)) (reserve_source s request host) now s1 = Inr s2"
      "find (\<lambda>m. m_id m = i \<and> unplaced (m_state m)) (machines s) = Some m"
      "s' = insert_event (assigned_event i (m_organization_id m)) s2"
      "rv_hostId rv = h_id host" "rv_assignmentCommitted rv"
    by (auto simp: reserve_def Let_def ms split: sum.splits option.splits)
  with that h i r s1 show thesis by blast
qed


lemma unplaced_Starting [simp]: "\<not> unplaced Starting" "\<not> unplaced Running" "\<not> unplaced Stopping"
  "\<not> unplaced Stopped" "\<not> unplaced Failed" "\<not> unplaced Lost" "unplaced Requested" "unplaced Placing"
  by (simp_all add: unplaced_def)

lemma inv_reserve:
  assumes inv: "fleet_inv s" and ok: "reserve g policy locked request now s = Inr (rv, s')"
    and pres: "present (sr_machineId request)"
    and res: "\<And>m. m \<in> set (machines s) \<Longrightarrow> sr_machineId request = Some (m_id m) \<Longrightarrow>
      m_resources m = sr_resources request"
  shows "fleet_inv s'"
proof -
  from ok pres obtain host i m s1 s2 where
      add: "add_reserved (h_id host) (sr_resources request) s = Inr s1" and i: "sr_machineId request = Some i"
      and asg: "assign_machine i (h_id host) (map_option rc_id (h_cohort host)) (reserve_source s request host) now s1 = Inr s2"
      and m: "find (\<lambda>m. m_id m = i \<and> unplaced (m_state m)) (machines s) = Some m"
      and s': "s' = insert_event (assigned_event i (m_organization_id m)) s2"
      and sel: "select_host s locked request now = Some host"
    by (rule reserve_Inr) blast
  note I = fleet_invD [OF inv]
  let ?H = "h_id host" and ?r = "sr_resources request"
  let ?f = "\<lambda>h. h\<lparr>h_reserved := h_reserved h + ?r\<rparr>"
  note up = add [unfolded add_reserved_def]
  have s1: "s1 = s\<lparr>hosts := sql_update (\<lambda>h. h_id h = ?H) ?f (hosts s)\<rparr>" by (rule update_hosts_Inr(1) [OF up])
  from asg [unfolded assign_machine_def] obtain st where
      s2: "s2 = s1\<lparr>machines := sql_update (\<lambda>m. m_id m = i \<and> unplaced (m_state m)) st (machines s1)\<rparr>"
      and stored: "\<And>x. x \<in> set (machines s) \<Longrightarrow> m_id x = i \<Longrightarrow> unplaced (m_state x) \<Longrightarrow>
        stored_as (x\<lparr>m_host_id := Some ?H, m_runtime_cohort_id := map_option rc_id (h_cohort host),
          m_source_sha256 := reserve_source s request host, m_state := Starting, m_placed_at := Some now,
          m_startup_deadline_at := Some (now + minutes 2)\<rparr>) (st x)"
    by (rule update_machines_Inr) (auto simp: s1)
  let ?ms = "sql_update (\<lambda>x. m_id x = m_id m \<and> unplaced (m_state x)) st (machines s)"
  have mm: "m \<in> set (machines s)" "m_id m = i" "unplaced (m_state m)" using find_SomeD [OF m] by auto
  note mok = I(5) [OF mm(1)]
  note sel' = stored_as_sel [OF stored [OF mm]] and chk = stored [OF mm, unfolded stored_as_def, THEN conjunct1]
  have rel: "m_reservation_released_at m = None" "m_fork_operation_id m = None"
    using mok mm(3) by (simp_all add: machine_ok_def)
  have rows: "m' = st m \<or> m' \<in> set (machines s)" if "m' \<in> set ?ms" for m'
    using that mkey.key_unique [OF I(1) _ mm(1)] by (auto simp: in_sql_update split: if_splits)
  have hin: "host \<in> set (hosts s)"
    using sel by (auto simp: select_host_def dest!: first_row_SomeD)
  show ?thesis unfolding s' fleet_inv_insert_event
  proof (rule inv_reservation [OF inv _ refl])
    show "s2 = s\<lparr>hosts := sql_update (\<lambda>h. h_id h = ?H) ?f (hosts s), machines := ?ms\<rparr>"
      by (simp add: s2 s1 mm(2))
    show "accounted (sql_update (\<lambda>h. h_id h = ?H) ?f (hosts s)) ?ms"
    proof (rule accounted_shift [OF I(4)])
      fix k show "committed k ?ms = committed k (machines s) + (if k = ?H then ?r else 0)"
        using committed_key [OF I(1) mm(1), of "\<lambda>x. unplaced (m_state x)" k st] mm(3) sel' rel
          machine_ok_unplaced [OF mok mm(3)] res [OF mm(1)] i mm(2)
        by (simp add: weight_def)
    next
      fix h assume "h \<in> set (hosts s)" "h_id h = ?H"
      with update_hosts_Inr(2) [OF up] show "h_reserved h + ?r \<le> h_total h" by (auto simp: host_check_def)
    qed simp
    show "distinct (map m_id ?ms)"
    proof -
      have "map m_id ?ms = map m_id (machines s)"
        unfolding sql_update_def map_map comp_def using stored_as_sel(1) [OF stored] mm(2)
        by (intro map_cong refl) auto
      with I(1) show ?thesis by simp
    qed
    show "machine_ok x" if "x \<in> set ?ms" for x
      using rows [OF that] I(5) chk sel' by (auto simp: machine_ok_def)
    show "opt_ok (\<lambda>h. h \<in> h_id ` set (hosts s)) (m_host_id x)" if "x \<in> set ?ms" for x
      using rows [OF that] I(6) hin sel' by (auto simp: opt_ok_def split: option.splits)
    show "opt_ok (\<lambda>f. f \<in> f_id ` set (fork_ops s)) (m_fork_operation_id x)" if "x \<in> set ?ms" for x
      using rows [OF that] I(7) sel' rel by (auto simp: opt_ok_def split: option.splits)
    show "child_ok f x" if "f \<in> set (fork_ops s)" "x \<in> set ?ms" for f x
      using rows [OF that(2)] I(8) [OF that(1)] sel' rel by (auto simp: child_ok_def)
  qed simp_all
qed


subsection \<open>Release\<close>

lemma committed_ge_weight:
  assumes "\<And>x. x \<in> set ms \<Longrightarrow> machine_ok x" and "m \<in> set ms"
  shows "weight h m \<le> committed h ms"
proof -
  from assms(2) obtain xs ys where ms: "ms = xs @ m # ys" by (auto simp: in_set_conv_decomp)
  with assms(1) have "0 \<le> committed h xs" "0 \<le> committed h ys" by (auto intro!: committed_nonneg)
  then have "0 \<le> committed h xs + committed h ys" by (rule add_nonneg_nonneg)
  then have "weight h m \<le> weight h m + (committed h xs + committed h ys)" by simp
  then show ?thesis by (simp add: ms committed_def ac_simps)
qed

lemma inv_release:
  assumes inv: "fleet_inv s" and rel: "release H r (Some (m_id m)) now s = Inr s'" and i: "m_id m \<noteq> []"
    and m: "m \<in> set (machines s)" and host: "m_host_id m = Some H" and res: "m_resources m = r"
    and nc: "\<not> pending_child s m"
  shows "fleet_inv s'"
proof (cases "m_reservation_released_at m = None")
  case False
  then have "\<not> list_ex (\<lambda>x. m_id x = m_id m \<and> m_reservation_released_at x = None) (machines s)"
    using mkey.key_unique [OF fleet_invD(1) [OF inv] _ m] by (auto simp: list_ex_iff)
  with rel inv i show ?thesis by (auto simp: release_def present_def falsy_def split: sum.splits)
next
  case True
  note I = fleet_invD [OF inv]
  from True m have ex: "list_ex (\<lambda>x. m_id x = m_id m \<and> m_reservation_released_at x = None) (machines s)"
    by (auto simp: list_ex_iff)
  with rel i obtain s1 where cl: "claim_release (m_id m) now s = Inr s1" and sub: "sub_reserved H r s1 = Inr s'"
    by (auto simp: release_def present_def falsy_def split: sum.splits)
  let ?Q = "\<lambda>x. m_reservation_released_at x = None"
  from cl [unfolded claim_release_def] obtain g where
      s1: "s1 = s\<lparr>machines := sql_update (\<lambda>x. m_id x = m_id m \<and> ?Q x) g (machines s)\<rparr>"
      and stored: "\<And>x. x \<in> set (machines s) \<Longrightarrow> m_id x = m_id m \<Longrightarrow> ?Q x \<Longrightarrow>
        stored_as (x\<lparr>m_reservation_released_at := Some now\<rparr>) (g x)"
    by (rule update_machines_Inr) blast
  let ?ms = "sql_update (\<lambda>x. m_id x = m_id m \<and> ?Q x) g (machines s)"
  let ?f = "\<lambda>h. h\<lparr>h_reserved := sub_clamp (h_reserved h) r\<rparr>"
  note up = sub [unfolded sub_reserved_def]
  have s': "s' = s\<lparr>hosts := sql_update (\<lambda>h. h_id h = H) ?f (hosts s), machines := ?ms\<rparr>"
    using update_hosts_Inr(1) [OF up] by (simp add: s1)
  note sel = stored_as_sel [OF stored [OF m refl True]]
  have chk: "machine_check (g m)" using stored [OF m refl True] by (simp add: stored_as_def)
  have rows: "x = g m \<or> x \<in> set (machines s)" if "x \<in> set ?ms" for x
    using that mkey.key_unique [OF I(1) _ m] by (auto simp: in_sql_update split: if_splits)
  have placed: "\<not> unplaced (m_state m)" using machine_ok_unplaced [OF I(5) [OF m]] host by auto
  have le: "r \<le> h_reserved h" if "h \<in> set (hosts s)" "h_id h = H" for h
    using committed_ge_weight [OF I(5) m, of H] I(4) that host True res by (auto simp: weight_def accounted_def)
  show ?thesis
  proof (rule inv_reservation [OF inv s' refl])
    show "accounted (sql_update (\<lambda>h. h_id h = H) ?f (hosts s)) ?ms"
    proof (rule accounted_shift [OF I(4), where d = "- r"])
      fix k show "committed k ?ms = committed k (machines s) + (if k = H then - r else 0)"
        using committed_key [OF I(1) m, of ?Q k g] True sel host res by (simp add: weight_def)
    next
      fix h assume h: "h \<in> set (hosts s)" "h_id h = H"
      with le show "?f h = h\<lparr>h_reserved := h_reserved h + - r\<rparr>" by (simp add: sub_clamp_exact)
      have "h_reserved h + - r \<le> h_reserved h"
        using machine_ok_resources [OF I(5) [OF m]] res by simp
      also have "\<dots> \<le> h_total h" using h I(4) by (auto simp: accounted_def)
      finally show "h_reserved h + - r \<le> h_total h" .
    qed
    have "map m_id ?ms = map m_id (machines s)"
      unfolding sql_update_def map_map comp_def using stored_as_sel(1) [OF stored] by (intro map_cong refl) auto
    with I(1) show "distinct (map m_id ?ms)" by simp
    show "machine_ok x" if "x \<in> set ?ms" for x
      using rows [OF that] I(5) chk sel placed by (auto simp: machine_ok_def)
    show "opt_ok (\<lambda>h. h \<in> h_id ` set (hosts s)) (m_host_id x)" if "x \<in> set ?ms" for x
      using rows [OF that] I(6) m sel by (auto simp: opt_ok_def split: option.splits)
    show "opt_ok (\<lambda>f. f \<in> f_id ` set (fork_ops s)) (m_fork_operation_id x)" if "x \<in> set ?ms" for x
      using rows [OF that] I(7) m sel by (auto simp: opt_ok_def split: option.splits)
    show "child_ok f x" if "f \<in> set (fork_ops s)" "x \<in> set ?ms" for f x
      using rows [OF that(2)] I(8) [OF that(1)] sel nc pending_childI [OF that(1), of m]
      by (auto simp: child_ok_def)
  qed simp_all
qed


section \<open>Quotas hold after a placement\<close>

lemma length_filter_sum: "int (length (filter Q xs)) = sum_list (map (\<lambda>x. if Q x then 1 else 0) xs)"
  by (induction xs) auto

lemma used_machines_sum:
  "used_machines P s = sum_list (map (\<lambda>m. if P m \<and> allocated (m_state m) then 1 else 0) (machines s))"
  unfolding used_machines_def by (rule length_filter_sum)

lemma used_resources_sum:
  "used_resources P s = sum_list (map (\<lambda>m. if P m \<and> allocated (m_state m) then m_resources m else 0) (machines s))"
  unfolding used_resources_def by (simp add: sum_list_map_filter')

lemma allocated_simps [simp]: "allocated Starting" "unplaced st \<Longrightarrow> \<not> allocated st"
  by (auto simp: allocated_def unplaced_def)

lemma reserve_usage:
  assumes "distinct (map m_id (machines s))" and ok: "reserve g policy locked request now s = Inr (rv, s')"
    and pres: "present (sr_machineId request)"
    and m: "m \<in> set (machines s)" "sr_machineId request = Some (m_id m)"
    and P: "\<And>x y. m_organization_id x = m_organization_id y \<Longrightarrow> m_project_id x = m_project_id y \<Longrightarrow> P x = P y"
    and Pm: "P m"
  shows "used_machines P s' = used_machines P s + 1 \<and> used_resources P s' = used_resources P s + m_resources m"
proof -
  from ok pres obtain host i m' s1 s2 where
      add: "add_reserved (h_id host) (sr_resources request) s = Inr s1" and i: "sr_machineId request = Some i"
      and asg: "assign_machine i (h_id host) (map_option rc_id (h_cohort host)) (reserve_source s request host) now s1 = Inr s2"
      and m': "find (\<lambda>m. m_id m = i \<and> unplaced (m_state m)) (machines s) = Some m'"
      and s': "s' = insert_event (assigned_event i (m_organization_id m')) s2"
    by (rule reserve_Inr) blast
  have "m' = m" using find_SomeD [OF m'] mkey.key_unique [OF assms(1)] m i by auto
  with find_SomeD [OF m'] have un: "unplaced (m_state m)" "m_id m = i" by auto
  have ms: "machines s1 = machines s" using update_hosts_Inr(1) [OF add [unfolded add_reserved_def]] by simp
  from asg [unfolded assign_machine_def] obtain st where
      s2: "s2 = s1\<lparr>machines := sql_update (\<lambda>x. m_id x = i \<and> unplaced (m_state x)) st (machines s1)\<rparr>"
      and stored: "\<And>x. x \<in> set (machines s1) \<Longrightarrow> m_id x = i \<and> unplaced (m_state x) \<Longrightarrow>
        stored_as (x\<lparr>m_host_id := Some (h_id host), m_runtime_cohort_id := map_option rc_id (h_cohort host),
          m_source_sha256 := reserve_source s request host, m_state := Starting, m_placed_at := Some now,
          m_startup_deadline_at := Some (now + minutes 2)\<rparr>) (st x)"
    by (rule update_machines_Inr) blast
  have sel: "m_state (st m) = Starting" "m_resources (st m) = m_resources m"
      "m_organization_id (st m) = m_organization_id m" "m_project_id (st m) = m_project_id m"
    using stored_as_sel [OF stored, of m] m(1) ms un by simp_all
  then have Ps: "P (st m)" using P [of "st m" m] Pm by simp
  note upd = mkey.sum_update_key [OF assms(1) m(1), where Q = "\<lambda>x. unplaced (m_state x)" and f = st, OF un(1)]
  show ?thesis
    using upd [of "\<lambda>m. if P m \<and> allocated (m_state m) then 1 else (0 :: int)"]
      upd [of "\<lambda>m. if P m \<and> allocated (m_state m) then m_resources m else 0"] un sel Ps Pm
    by (simp add: used_machines_sum used_resources_sum s' s2 ms)
qed

text \<open>C5: Admission keeps the quotas: when \<open>reserve\<close> places a machine of the requesting organization
  and project, the machines allocated to the organization and those allocated to the project,
  the new one included, are within the limits of both, in number and in every resource.\<close>

theorem reserve_within_quota:
  assumes "fleet_inv s" and "reserve g policy locked request now s = Inr (rv, s')"
    and "present (sr_machineId request)"
    and "m \<in> set (machines s)" and "sr_machineId request = Some (m_id m)"
    and "m_organization_id m = sr_organizationId request" and "m_project_id m = sr_projectId request"
    and "m_resources m = sr_resources request"
    and "find (\<lambda>x. o_id x = sr_organizationId request) (organizations s) = Some org"
    and "find (\<lambda>p. p_id p = sr_projectId request \<and> p_organization_id p = sr_organizationId request) (projects s) = Some project"
  shows "used_machines (\<lambda>x. m_organization_id x = sr_organizationId request) s' \<le> o_max_machines org \<and>
    used_resources (\<lambda>x. m_organization_id x = sr_organizationId request) s' \<le> o_max org \<and>
    used_machines (\<lambda>x. m_project_id x = sr_projectId request) s' \<le> p_max_machines project \<and>
    used_resources (\<lambda>x. m_project_id x = sr_projectId request) s' \<le> p_max project"
proof -
  from assms(2,3) have "enforceQuota g policy request now s = None" by (rule reserve_Inr)
  with assms(9,10) have q:
      "\<not> quota_exceeded (used_machines (\<lambda>x. m_organization_id x = sr_organizationId request) s)
         (used_resources (\<lambda>x. m_organization_id x = sr_organizationId request) s)
         (o_max_machines org) (o_max org) 1 (sr_resources request)"
      "\<not> quota_exceeded (used_machines (\<lambda>x. m_project_id x = sr_projectId request) s)
         (used_resources (\<lambda>x. m_project_id x = sr_projectId request) s)
         (p_max_machines project) (p_max project) 1 (sr_resources request)"
    by (auto simp: enforceQuota_def Let_def split: option.splits if_splits)
  note usage = reserve_usage [OF fleet_invD(1) [OF assms(1)] assms(2-5)]
  from usage [of "\<lambda>x. m_organization_id x = sr_organizationId request"]
    usage [of "\<lambda>x. m_project_id x = sr_projectId request"] q assms(6-8)
  show ?thesis by (simp add: quota_exceeded_def resources_le)
qed


section \<open>What never goes back\<close>

text \<open>
  Machine states only advance, and a terminal state is final. Tenancy, lease, size and ancestry
  of a machine never change; neither does its host once it has one, a release once made, or a
  recorded create failure; the expiry only moves out. A decided fork stays decided, and the
  recorded result of an extension stays. That is \<open>fleet_before\<close>, and every transaction follows it.
  Whole calls follow the stronger \<open>fleet_le\<close>: between its two states, a reservation is only given
  back by a machine that is terminal in the second.
\<close>

fun state_rank :: "machine_state \<Rightarrow> nat" where
  "state_rank Requested = 0"
| "state_rank Placing = 1"
| "state_rank Starting = 2"
| "state_rank Running = 3"
| "state_rank Stopping = 4"
| "state_rank Stopped = 5"
| "state_rank Failed = 5"
| "state_rank Lost = 5"

definition fixed :: "'a option \<Rightarrow> 'a option \<Rightarrow> bool" where
  "fixed a b \<longleftrightarrow> a = None \<or> b = a"

definition state_le :: "machine_state \<Rightarrow> machine_state \<Rightarrow> bool" where
  "state_le a b \<longleftrightarrow> b = a \<or> state_rank a < state_rank b"

definition row_before :: "machine_row \<Rightarrow> machine_row \<Rightarrow> bool" where
  "row_before m m' \<longleftrightarrow>
     m_id m' = m_id m \<and> m_organization_id m' = m_organization_id m \<and> m_project_id m' = m_project_id m \<and>
     m_lease_id m' = m_lease_id m \<and> m_resources m' = m_resources m \<and>
     m_fork_operation_id m' = m_fork_operation_id m \<and> m_parent_machine_id m' = m_parent_machine_id m \<and>
     state_le (m_state m) (m_state m') \<and>
     fixed (m_host_id m) (m_host_id m') \<and>
     fixed (m_reservation_released_at m) (m_reservation_released_at m') \<and>
     (terminal (m_state m) \<longrightarrow> m_create_failure_status m' = m_create_failure_status m) \<and>
     m_expires_at m \<le> m_expires_at m'"

definition released_late :: "machine_row \<Rightarrow> bool" where
  "released_late m \<longleftrightarrow> m_reservation_released_at m = None \<or> terminal (m_state m)"

definition row_le :: "machine_row \<Rightarrow> machine_row \<Rightarrow> bool" where
  "row_le m m' \<longleftrightarrow> row_before m m' \<and> (m_reservation_released_at m = None \<longrightarrow> released_late m')"

lemmas row_le_defs = row_le_def row_before_def released_late_def

definition fork_le :: "fork_row \<Rightarrow> fork_row \<Rightarrow> bool" where
  "fork_le f f' \<longleftrightarrow> f_id f' = f_id f \<and> f_source_host_id f' = f_source_host_id f \<and>
     (f_state f \<noteq> Pending \<longrightarrow> f_state f' = f_state f)"

definition extend_le :: "extend_row \<Rightarrow> extend_row \<Rightarrow> bool" where
  "extend_le x x' \<longleftrightarrow> x_id x' = x_id x \<and> x_machine_id x' = x_machine_id x \<and>
     x_organization_id x' = x_organization_id x \<and> x_target_expires_at x' = x_target_expires_at x \<and>
     fixed (x_result_expires_at x) (x_result_expires_at x') \<and> fixed (x_completed_at x) (x_completed_at x')"

text \<open>Every row of a table has a successor in another.\<close>

definition covers :: "('r \<Rightarrow> 'r \<Rightarrow> bool) \<Rightarrow> 'r list \<Rightarrow> 'r list \<Rightarrow> bool" where
  "covers le rs rs' \<longleftrightarrow> (\<forall>r\<in>set rs. \<exists>r'\<in>set rs'. le r r')"

definition fleet_before :: "fleet \<Rightarrow> fleet \<Rightarrow> bool" where
  "fleet_before s s' \<longleftrightarrow> covers row_before (machines s) (machines s') \<and>
     covers fork_le (fork_ops s) (fork_ops s') \<and> covers extend_le (extend_ops s) (extend_ops s')"

text \<open>Every row comes from an earlier one, or is new.\<close>

definition traced :: "machine_row list \<Rightarrow> machine_row list \<Rightarrow> bool" where
  "traced ms ms' \<longleftrightarrow> (\<forall>m'\<in>set ms'. released_late m' \<or> (\<exists>m\<in>set ms. row_le m m'))"

definition fleet_le :: "fleet \<Rightarrow> fleet \<Rightarrow> bool" where
  "fleet_le s s' \<longleftrightarrow> covers row_le (machines s) (machines s') \<and> traced (machines s) (machines s') \<and>
     covers fork_le (fork_ops s) (fork_ops s') \<and> covers extend_le (extend_ops s) (extend_ops s')"

lemma covers_refl: "(\<And>r. le r r) \<Longrightarrow> covers le rs rs"
  by (auto simp: covers_def)

lemma covers_append: "(\<And>r. le r r) \<Longrightarrow> covers le rs (rs @ rs')"
  by (auto simp: covers_def)

lemma covers_trans: "(\<And>a b c. le a b \<Longrightarrow> le b c \<Longrightarrow> le a c) \<Longrightarrow> covers le rs ss \<Longrightarrow> covers le ss ts \<Longrightarrow> covers le rs ts"
  unfolding covers_def by meson

lemma covers_sql_update:
  assumes "\<And>r. le r r" and "\<And>r. r \<in> set rs \<Longrightarrow> P r \<Longrightarrow> le r (f r)"
  shows "covers le rs (sql_update P f rs)"
  unfolding covers_def
proof
  fix r assume "r \<in> set rs"
  with assms show "\<exists>r'\<in>set (sql_update P f rs). le r r'"
    by (intro bexI [of _ "if P r then f r else r"]) (auto simp: in_sql_update)
qed

lemma fixed_simps [simp]: "fixed None b" "fixed a a" "fixed (Some v) b \<longleftrightarrow> b = Some v"
  by (auto simp: fixed_def)

lemma fixed_trans: "fixed a b \<Longrightarrow> fixed b c \<Longrightarrow> fixed a c"
  by (auto simp: fixed_def)

lemma state_le_refl [simp]: "state_le a a"
  by (simp add: state_le_def)

lemma state_le_trans: "state_le a b \<Longrightarrow> state_le b c \<Longrightarrow> state_le a c"
  by (auto simp: state_le_def)

lemma state_le_terminal: "terminal a \<Longrightarrow> state_le a b \<Longrightarrow> b = a"
  by (cases a; cases b) (auto simp: state_le_def terminal_def)

lemma row_before_refl [simp]: "row_before m m" and row_le_refl [simp]: "row_le m m"
  and fork_le_refl [simp]: "fork_le f f" and extend_le_refl [simp]: "extend_le x x"
  by (simp_all add: row_le_defs fork_le_def extend_le_def)

lemma row_before_trans: "row_before a b \<Longrightarrow> row_before b c \<Longrightarrow> row_before a c"
  unfolding row_before_def
  by (elim conjE, intro conjI)
    (simp only: | erule (1) state_le_trans | erule (1) fixed_trans | erule (1) order_trans |
      (rule impI, frule (1) state_le_terminal, simp only:))+

lemma row_before_late:
  "row_before a b \<Longrightarrow> m_reservation_released_at a \<noteq> None \<Longrightarrow> released_late a \<Longrightarrow> released_late b"
  using state_le_terminal [of "m_state a" "m_state b"] by (auto simp: row_before_def released_late_def)

lemma row_le_trans: "row_le a b \<Longrightarrow> row_le b c \<Longrightarrow> row_le a c"
  by (auto simp: row_le_def intro: row_before_trans row_before_late)

lemma row_le_before: "row_le m m' \<Longrightarrow> row_before m m'"
  by (simp add: row_le_def)

lemma row_le_late: "row_le m m' \<Longrightarrow> released_late m \<Longrightarrow> released_late m'"
  by (auto simp: row_le_def intro: row_before_late)

lemma fork_le_trans: "fork_le a b \<Longrightarrow> fork_le b c \<Longrightarrow> fork_le a c"
  by (auto simp: fork_le_def)

lemma extend_le_trans: "extend_le a b \<Longrightarrow> extend_le b c \<Longrightarrow> extend_le a c"
  by (auto simp: extend_le_def fixed_def)

lemmas covers_self [simp] = covers_refl [of row_before, OF row_before_refl] covers_refl [of row_le, OF row_le_refl] covers_refl [of fork_le, OF fork_le_refl]
  covers_refl [of extend_le, OF extend_le_refl]

lemma traced_self [simp]: "traced ms ms"
  unfolding traced_def using row_le_refl by blast

lemma traced_append: "(\<And>r. r \<in> set rs \<Longrightarrow> released_late r) \<Longrightarrow> traced ms (ms @ rs)"
  unfolding traced_def using row_le_refl by (metis UnE set_append)

lemma traced_trans: "traced ms ns \<Longrightarrow> traced ns os \<Longrightarrow> traced ms os"
  unfolding traced_def by (meson row_le_late row_le_trans)

lemma fleet_before_refl [simp]: "fleet_before s s" and fleet_le_refl [simp]: "fleet_le s s"
  by (simp_all add: fleet_before_def fleet_le_def)

lemma covers_le_trans:
  "covers row_before ms ns \<Longrightarrow> covers row_before ns os \<Longrightarrow> covers row_before ms os"
  "covers row_le ms ns \<Longrightarrow> covers row_le ns os \<Longrightarrow> covers row_le ms os"
  "covers fork_le fs gs \<Longrightarrow> covers fork_le gs hs \<Longrightarrow> covers fork_le fs hs"
  "covers extend_le xs ys \<Longrightarrow> covers extend_le ys zs \<Longrightarrow> covers extend_le xs zs"
  by (erule (1) covers_trans [rotated], blast intro: row_before_trans row_le_trans fork_le_trans extend_le_trans)+

lemmas le_trans_rules = covers_le_trans traced_trans

lemma fleet_before_trans: "fleet_before s t \<Longrightarrow> fleet_before t u \<Longrightarrow> fleet_before s u"
  unfolding fleet_before_def by (elim conjE, intro conjI) (erule (1) le_trans_rules)+

lemma fleet_le_trans: "fleet_le s t \<Longrightarrow> fleet_le t u \<Longrightarrow> fleet_le s u"
  unfolding fleet_le_def by (elim conjE, intro conjI) (erule (1) le_trans_rules)+

lemma fleet_le_before: "fleet_le s t \<Longrightarrow> fleet_before s t"
  unfolding fleet_le_def fleet_before_def covers_def by (blast dest: row_le_before)

text \<open>What a call leaves of the reservations: those it gave back belong to terminal machines.\<close>

lemma fleet_le_released:
  assumes "fleet_le s s'" and "m' \<in> set (machines s')" and "m_reservation_released_at m' \<noteq> None"
  shows "terminal (m_state m') \<or> (\<exists>m\<in>set (machines s). m_id m = m_id m' \<and> m_reservation_released_at m \<noteq> None)"
  using assms by (fastforce simp: fleet_le_def traced_def row_le_defs)

lemma fleet_le_cong:
  "machines s' = machines s \<Longrightarrow> fork_ops s' = fork_ops s \<Longrightarrow> extend_ops s' = extend_ops s \<Longrightarrow> fleet_le s s'"
  by (simp add: fleet_le_def)

lemma fleet_le_insert_event [simp]: "fleet_le s (insert_event e t) = fleet_le s t"
  by (simp add: fleet_le_def)

lemma row_before_stored: "row_before m w \<Longrightarrow> stored_as w r \<Longrightarrow> row_before m r"
  using stored_as_sel [of w r] by (simp add: row_before_def)

lemma row_le_stored: "row_le m w \<Longrightarrow> stored_as w r \<Longrightarrow> row_le m r"
  using stored_as_sel [of w r] by (simp add: row_le_defs)

lemma traced_sql_update:
  "(\<And>r. r \<in> set rs \<Longrightarrow> P r \<Longrightarrow> row_le r (f r)) \<Longrightarrow> traced rs (sql_update P f rs)"
  by (fastforce simp: traced_def in_sql_update)

lemma before_update_machines:
  assumes "update_machines P f s = Inr s'" and "\<And>m. m \<in> set (machines s) \<Longrightarrow> P m \<Longrightarrow> row_before m (f m)"
  shows "fleet_before s s'"
proof -
  from assms(1) obtain g where s': "s' = s\<lparr>machines := sql_update P g (machines s)\<rparr>"
      and st: "\<And>m. m \<in> set (machines s) \<Longrightarrow> P m \<Longrightarrow> stored_as (f m) (g m)"
    by (rule update_machines_Inr) blast
  have "covers row_before (machines s) (sql_update P g (machines s))"
    by (rule covers_sql_update) (auto intro: row_before_stored [OF assms(2) st])
  then show ?thesis by (simp add: fleet_before_def s')
qed

lemma le_update_machines:
  assumes "update_machines P f s = Inr s'" and "\<And>m. m \<in> set (machines s) \<Longrightarrow> P m \<Longrightarrow> row_le m (f m)"
  shows "fleet_le s s'"
proof -
  from assms(1) obtain g where s': "s' = s\<lparr>machines := sql_update P g (machines s)\<rparr>"
      and st: "\<And>m. m \<in> set (machines s) \<Longrightarrow> P m \<Longrightarrow> stored_as (f m) (g m)"
    by (rule update_machines_Inr) blast
  note row = row_le_stored [OF assms(2) st]
  have "covers row_le (machines s) (sql_update P g (machines s))"
    by (rule covers_sql_update) (auto intro: row)
  moreover have "traced (machines s) (sql_update P g (machines s))"
    by (rule traced_sql_update) (rule row)
  ultimately show ?thesis by (simp add: fleet_le_def s')
qed

lemma le_update_forks: "update_forks P f s = Inr s' \<Longrightarrow> (\<And>r. P r \<Longrightarrow> fork_le r (f r)) \<Longrightarrow> fleet_le s s'"
  using covers_sql_update [of fork_le "fork_ops s" P f] by (auto simp: fleet_le_def dest!: update_forks_Inr)

lemma le_update_extends: "update_extends P f s = Inr s' \<Longrightarrow> (\<And>r. P r \<Longrightarrow> extend_le r (f r)) \<Longrightarrow> fleet_le s s'"
  using covers_sql_update [of extend_le "extend_ops s" P f] by (auto simp: fleet_le_def dest!: update_extends_Inr)

lemma le_update_hosts: "update_hosts P f s = Inr s' \<Longrightarrow> fleet_le s s'"
  by (rule fleet_le_cong) (auto dest: update_hosts_Inr(1))

lemma le_insert_machine:
  assumes "insert_machine m s = Inr s'" and "m_reservation_released_at m = None"
  shows "fleet_le s s'"
  using assms(1)
proof (rule insert_machine_Inr)
  fix r assume "s' = s\<lparr>machines := machines s @ [r]\<rparr>" and "stored_as m r"
  moreover from this assms(2) have "released_late r" by (simp add: released_late_def stored_as_sel)
  ultimately show ?thesis by (auto simp: fleet_le_def covers_append intro: traced_append)
qed

lemma le_assign_machine:
  assumes inv: "fleet_inv s" and ms: "machines t = machines s" and a: "assign_machine i h c src now t = Inr s'"
  shows "fleet_le t s'"
  using a unfolding assign_machine_def
proof (rule le_update_machines)
  fix m assume m: "m \<in> set (machines t)" "m_id m = i \<and> unplaced (m_state m)"
  then have "machine_ok m" using fleet_invD(5) [OF inv] ms by simp
  with m have "m_host_id m = None" using machine_ok_unplaced by blast
  with m(2) show "row_le m (m\<lparr>m_host_id := Some h, m_runtime_cohort_id := c, m_source_sha256 := src,
      m_state := Starting, m_placed_at := Some now, m_startup_deadline_at := Some (now + minutes 2)\<rparr>)"
    by (auto simp: row_le_defs unplaced_def state_le_def)
qed

lemma le_reserve:
  assumes inv: "fleet_inv s" and ok: "reserve g policy locked request now s = Inr (rv, s')"
    and pres: "present (sr_machineId request)"
  shows "fleet_le s s'"
proof -
  from ok pres obtain host i m s1 s2 where
      add: "add_reserved (h_id host) (sr_resources request) s = Inr s1" and "sr_machineId request = Some i"
      and asg: "assign_machine i (h_id host) (map_option rc_id (h_cohort host)) (reserve_source s request host) now s1 = Inr s2"
      and s': "s' = insert_event (assigned_event i (m_organization_id m)) s2"
      and "find (\<lambda>m. m_id m = i \<and> unplaced (m_state m)) (machines s) = Some m"
    by (rule reserve_Inr) blast
  note up = add [unfolded add_reserved_def]
  have "fleet_le s s1" by (rule le_update_hosts [OF up])
  moreover have "machines s1 = machines s" using update_hosts_Inr(1) [OF up] by simp
  then have "fleet_le s1 s2" by (rule le_assign_machine [OF inv _ asg])
  ultimately show ?thesis by (simp add: s' fleet_le_trans [of s s1 s2])
qed

lemma before_update_hosts: "update_hosts P f s = Inr s' \<Longrightarrow> fleet_before s s'"
  by (rule fleet_le_before) (rule le_update_hosts)

lemma before_release:
  assumes "release h r i now s = Inr s'"
  shows "fleet_before s s'"
proof -
  have sub: "fleet_before t s'" if "sub_reserved h r t = Inr s'" for t
    using that unfolding sub_reserved_def by (rule before_update_hosts)
  have "fleet_before s t" if "claim_release j now s = Inr t" for j t
    using that unfolding claim_release_def by (rule before_update_machines) (auto simp: row_before_def)
  with assms sub show ?thesis
    by (auto simp: release_def split: if_splits sum.splits intro: fleet_before_trans)
qed

lemma le_release:
  assumes "release h r (Some i) now s = Inr s'"
    and "\<And>m. m \<in> set (machines s) \<Longrightarrow> m_id m = i \<Longrightarrow> terminal (m_state m)"
  shows "fleet_le s s'"
proof -
  have sub: "fleet_le t s'" if "sub_reserved h r t = Inr s'" for t
    using that unfolding sub_reserved_def by (rule le_update_hosts)
  have "fleet_le s t" if "claim_release i now s = Inr t" for t
    using that unfolding claim_release_def
    by (rule le_update_machines) (auto simp: row_le_defs dest: assms(2))
  with assms(1) sub show ?thesis
    by (auto simp: release_def split: if_splits sum.splits intro: fleet_le_trans)
qed

end
