(* ===== verification/Machines.thy ===== *)
theory Machines
  imports Accounting
begin

text \<open>
  The machine repository, the class \<open>PostgresMachineRepository\<close> of \<open>domain/machines.ts\<close>, but for
  its fork operations: reads, the create claim, the observation of the host's answer, the state
  transition and the two halves of an extension. A write is one transaction; the random
  identifiers it draws and the instant it runs at are arguments.
\<close>

section \<open>Machines as the services see them\<close>

record machine =
  ma_id :: string
  ma_organizationId :: uuid
  ma_projectId :: uuid
  ma_hostId :: "uuid option"
  ma_hostAddress :: "string option"
  ma_hostMachineId :: "string option"
  ma_runtimeCohortId :: "string option"
  ma_sourceSha256 :: "string option"
  ma_leaseId :: uuid
  ma_leaseGeneration :: "int option"
  ma_state :: machine_state
  ma_stateReason :: "string option"
  ma_region :: string
  ma_architecture :: architecture
  ma_resources :: resources
  ma_networkPolicy :: "net_decl option"
  ma_template :: "string option"
  ma_templateId :: "uuid option"
  ma_hostTemplateName :: "string option"
  ma_ociReference :: "string option"
  ma_requestedTtlSeconds :: "int option"
  ma_ready :: bool
  ma_createdAt :: time
  ma_startedAt :: "time option"
  ma_readyAt :: "time option"
  ma_stoppedAt :: "time option"
  ma_expiresAt :: time
  ma_idempotencyRequestHash :: "string option"
  ma_createFailureStatus :: "int option"
  ma_createFailureCode :: "string option"
  ma_createFailureMessage :: "string option"
  ma_parentId :: "string option"
  ma_forkOperationId :: "uuid option"

record extend_operation =
  xo_id :: int
  xo_requestHash :: string
  xo_targetExpiresAt :: time
  xo_resultExpiresAt :: "time option"
  xo_replayed :: bool

definition fromExtendOperationRow :: "extend_row \<Rightarrow> bool \<Rightarrow> extend_operation" where
  "fromExtendOperationRow x replayed =
     \<lparr>xo_id = x_id x, xo_requestHash = x_request_hash x, xo_targetExpiresAt = x_target_expires_at x,
      xo_resultExpiresAt = x_result_expires_at x, xo_replayed = replayed\<rparr>"

text \<open>The joins of \<open>selectMachine\<close>.\<close>

definition host_address_of :: "fleet \<Rightarrow> machine_row \<Rightarrow> string option" where
  "host_address_of s m = map_option h_address (find (\<lambda>h. Some (h_id h) = m_host_id m) (hosts s))"

definition host_template_of :: "fleet \<Rightarrow> machine_row \<Rightarrow> string option" where
  "host_template_of s m = map_option t_host_template_name (find (\<lambda>t. Some (t_id t) = m_template_id m) (templates s))"

definition fromRow :: "js_net \<Rightarrow> fleet \<Rightarrow> machine_row \<Rightarrow> error + machine" where
  "fromRow net s m =
     (case canonical_policy net (decl_json (m_network_policy m)) of
        Inl e \<Rightarrow> Inl (PlainError e)
      | Inr policy \<Rightarrow> Inr
          \<lparr>ma_id = m_id m, ma_organizationId = m_organization_id m, ma_projectId = m_project_id m,
           ma_hostId = m_host_id m, ma_hostAddress = host_address_of s m, ma_hostMachineId = m_host_machine_id m,
           ma_runtimeCohortId = m_runtime_cohort_id m, ma_sourceSha256 = m_source_sha256 m,
           ma_leaseId = m_lease_id m, ma_leaseGeneration = Some (m_lease_generation m),
           ma_state = m_state m, ma_stateReason = m_state_reason m, ma_region = m_region_id m,
           ma_architecture = m_architecture m, ma_resources = m_resources m, ma_networkPolicy = Some policy,
           ma_template = m_template_name m, ma_templateId = m_template_id m,
           ma_hostTemplateName = host_template_of s m, ma_ociReference = m_source_oci_ref m,
           ma_requestedTtlSeconds = Some (m_requested_ttl_seconds m), ma_ready = m_ready m,
           ma_createdAt = m_created_at m, ma_startedAt = m_started_at m, ma_readyAt = m_ready_at m,
           ma_stoppedAt = m_stopped_at m, ma_expiresAt = m_expires_at m,
           ma_idempotencyRequestHash = Some (m_idempotency_request_hash m),
           ma_createFailureStatus = m_create_failure_status m, ma_createFailureCode = m_create_failure_code m,
           ma_createFailureMessage = m_create_failure_message m, ma_parentId = m_parent_machine_id m,
           ma_forkOperationId = m_fork_operation_id m\<rparr>)"

section \<open>Reads\<close>

text \<open>A fork child is visible only once its operation has succeeded.\<close>

definition fork_visible :: "fleet \<Rightarrow> machine_row \<Rightarrow> bool" where
  "fork_visible s m \<longleftrightarrow> m_fork_operation_id m = None \<or>
     list_ex (\<lambda>f. Some (f_id f) = m_fork_operation_id m \<and> f_state f = Succeeded) (fork_ops s)"

definition from_first :: "js_net \<Rightarrow> fleet \<Rightarrow> machine_row option \<Rightarrow> error + machine option" where
  "from_first net s r = (case r of None \<Rightarrow> Inr None | Some m \<Rightarrow> map_sum id Some (fromRow net s m))"

definition find_machine ::
    "js_net \<Rightarrow> string \<Rightarrow> uuid \<Rightarrow> uuid option \<Rightarrow> fleet \<Rightarrow> error + machine option" where
  "find_machine net i org project s =
     from_first net s (find (\<lambda>m. m_id m = i \<and> m_organization_id m = org \<and>
       (project = None \<or> Some (m_project_id m) = project) \<and> fork_visible s m) (machines s))"

definition findByIdempotency ::
    "js_net \<Rightarrow> uuid \<Rightarrow> uuid \<Rightarrow> string \<Rightarrow> fleet \<Rightarrow> error + machine option" where
  "findByIdempotency net org project key s =
     from_first net s (find (\<lambda>m. m_organization_id m = org \<and> m_project_id m = project \<and>
       m_idempotency_key m = Some key) (machines s))"

fun from_rows :: "js_net \<Rightarrow> fleet \<Rightarrow> machine_row list \<Rightarrow> error + machine list" where
  "from_rows net s [] = Inr []"
| "from_rows net s (m # ms) =
     (case fromRow net s m of
        Inl e \<Rightarrow> Inl e
      | Inr a \<Rightarrow> (case from_rows net s ms of Inl e \<Rightarrow> Inl e | Inr as \<Rightarrow> Inr (a # as)))"

definition list_machines ::
    "js_net \<Rightarrow> uuid \<Rightarrow> uuid option \<Rightarrow> string option \<Rightarrow> int \<Rightarrow> fleet \<Rightarrow> error + machine list" where
  "list_machines net org project cursor limit s =
     from_rows net s (take (nat (min (max limit 1) 100))
       (sort_by (\<lambda>a b. cmp_of (m_id b) (m_id a))
         (filter (\<lambda>m. m_organization_id m = org \<and> (project = None \<or> Some (m_project_id m) = project) \<and>
            (case cursor of None \<Rightarrow> True | Some c \<Rightarrow> m_id m < c) \<and> fork_visible s m) (machines s))))"

section \<open>Events\<close>

fun state_text :: "machine_state \<Rightarrow> string" where
  "state_text Requested = ''requested''"
| "state_text Placing = ''placing''"
| "state_text Starting = ''starting''"
| "state_text Running = ''running''"
| "state_text Stopping = ''stopping''"
| "state_text Stopped = ''stopped''"
| "state_text Failed = ''failed''"
| "state_text Lost = ''lost''"

definition event ::
    "uuid \<Rightarrow> string \<Rightarrow> uuid \<Rightarrow> machine_state option \<Rightarrow> machine_state \<Rightarrow> string option \<Rightarrow> fleet \<Rightarrow> fleet" where
  "event uuid machineId org from to reason =
     insert_event \<lparr>e_key = machineId @ '':'' @ state_text to @ '':'' @ uuid, e_machine_id = machineId,
       e_organization_id = org, e_from_state = from, e_to_state = to, e_reason = reason,
       e_observed_by = ''control-plane'', e_metadata = []\<rparr>"

section \<open>Creating\<close>

text \<open>The inserted row: the given columns, and the defaults of the others.\<close>

definition requested_row :: "machine \<Rightarrow> string \<Rightarrow> time \<Rightarrow> machine_row" where
  "requested_row machine key now =
     \<lparr>m_id = ma_id machine, m_organization_id = ma_organizationId machine, m_project_id = ma_projectId machine,
      m_host_id = None, m_host_machine_id = None, m_runtime_cohort_id = None, m_source_sha256 = None,
      m_lease_id = ma_leaseId machine, m_lease_generation = 1, m_idempotency_key = Some key,
      m_idempotency_request_hash = the (coalesce (ma_idempotencyRequestHash machine) (Some [])),
      m_state = Requested, m_state_reason = None, m_region_id = ma_region machine,
      m_architecture = ma_architecture machine, m_resources = ma_resources machine,
      m_template_id = ma_templateId machine, m_template_name = ma_template machine,
      m_source_oci_ref = ma_ociReference machine,
      m_network_policy = the (coalesce (ma_networkPolicy machine) (Some net_off)),
      m_requested_ttl_seconds = or_zero (ma_requestedTtlSeconds machine), m_ready = False, m_created_at = now,
      m_placed_at = None, m_started_at = None, m_ready_at = None, m_stopping_at = None, m_stopped_at = None,
      m_reservation_released_at = None, m_usage_checkpoint_at = None, m_usage_finalized_at = None,
      m_usage_quarantined_at = None, m_usage_quarantine_reason = None, m_expires_at = ma_expiresAt machine,
      m_startup_deadline_at = None, m_create_claim_token = None, m_create_claimed_until = None,
      m_create_failure_status = None, m_create_failure_code = None, m_create_failure_message = None,
      m_parent_machine_id = None, m_fork_operation_id = None, m_reconcile_after = now,
      m_reconcile_claim_token = None, m_reconcile_claimed_until = None\<rparr>"

definition insertRequested :: "uuid \<Rightarrow> machine \<Rightarrow> string \<Rightarrow> time \<Rightarrow> fleet \<Rightarrow> error + fleet" where
  "insertRequested uuid machine key now s =
     (if present (ma_templateId machine) \<and>
         \<not> list_ex (\<lambda>t. Some (t_id t) = ma_templateId machine \<and> t_organization_id t = ma_organizationId machine \<and>
           t_project_id t = ma_projectId machine \<and> t_deleted_at t = None) (templates s)
      then Inl (PlainError ''template is not available to this project'')
      else case insert_machine (requested_row machine key now) s of
          Inl e \<Rightarrow> Inl e
        | Inr s1 \<Rightarrow> Inr (event uuid (ma_id machine) (ma_organizationId machine) None Requested None s1))"

definition claimable :: "string \<Rightarrow> time \<Rightarrow> machine_row \<Rightarrow> bool" where
  "claimable i now m \<longleftrightarrow> m_id m = i \<and> m_state m = Requested \<and> m_create_failure_status m = None \<and>
     (m_create_claim_token m = None \<or>
      (case m_create_claimed_until m of None \<Rightarrow> False | Some t \<Rightarrow> t \<le> now))"

definition claimCreate :: "uuid \<Rightarrow> string \<Rightarrow> time \<Rightarrow> string option tx" where
  "claimCreate token i now s =
     (case update_machines (claimable i now)
         (\<lambda>m. m\<lparr>m_create_claim_token := Some token, m_create_claimed_until := Some (now + minutes 5)\<rparr>) s of
        Inl e \<Rightarrow> Inl e
      | Inr s' \<Rightarrow> Inr (if list_ex (claimable i now) (machines s) then Some token else None, s'))"

definition releaseCreateClaim :: "string \<Rightarrow> uuid \<Rightarrow> fleet \<Rightarrow> error + fleet" where
  "releaseCreateClaim i token =
     update_machines (\<lambda>m. m_id m = i \<and> m_create_claim_token m = Some token)
       (\<lambda>m. m\<lparr>m_create_claim_token := None, m_create_claimed_until := None\<rparr>)"

text \<open>\<open>UPDATE ... RETURNING\<close>, followed by \<open>k\<close> when a row was updated; the answer says whether one was.\<close>

definition update_then ::
    "(machine_row \<Rightarrow> bool) \<Rightarrow> (machine_row \<Rightarrow> machine_row) \<Rightarrow> (machine_row \<Rightarrow> fleet \<Rightarrow> fleet) \<Rightarrow> bool tx" where
  "update_then P f k s =
     (case update_machines P f s of
        Inl e \<Rightarrow> Inl e
      | Inr s1 \<Rightarrow> (case find P (machines s) of None \<Rightarrow> Inr (False, s1) | Some m \<Rightarrow> Inr (True, k m s1)))"

definition fail_create_row :: "int \<Rightarrow> string \<Rightarrow> string \<Rightarrow> time \<Rightarrow> machine_row \<Rightarrow> machine_row" where
  "fail_create_row status code message now m =
     m\<lparr>m_state := Failed, m_state_reason := Some message, m_stopped_at := Some now, m_ready := False,
       m_ready_at := None, m_create_failure_status := Some status, m_create_failure_code := Some code,
       m_create_failure_message := Some message, m_create_claim_token := None, m_create_claimed_until := None\<rparr>"

definition failCreate ::
    "uuid \<Rightarrow> string \<Rightarrow> uuid \<Rightarrow> int \<Rightarrow> string \<Rightarrow> string \<Rightarrow> time \<Rightarrow> bool tx" where
  "failCreate uuid i token status code message now =
     update_then (\<lambda>m. m_id m = i \<and> m_create_claim_token m = Some token \<and>
         m_state m \<in> {Requested, Placing, Starting})
       (fail_create_row status code message now)
       (\<lambda>m. event uuid i (m_organization_id m) (Some (m_state m)) Failed (Some message))"

text \<open>\<open>assign\<close>, for a reservation the scheduler has not committed itself.\<close>

definition assign :: "uuid \<Rightarrow> string \<Rightarrow> reservation \<Rightarrow> time \<Rightarrow> fleet \<Rightarrow> error + fleet" where
  "assign uuid i reservation now s =
     (case assign_machine i (rv_hostId reservation) (rv_runtimeCohortId reservation)
         (rv_sourceSha256 reservation) now s of
        Inl e \<Rightarrow> Inl e
      | Inr s1 \<Rightarrow>
          (case find (\<lambda>m. m_id m = i \<and> unplaced (m_state m)) (machines s) of
             None \<Rightarrow> Inl (PlainError ''machine could not be assigned'')
           | Some m \<Rightarrow> Inr (event uuid i (m_organization_id m) (Some Requested) Starting None s1)))"

text \<open>\<open>x ? new Date(x) : null\<close> as a statement parameter; the database refuses an invalid date.\<close>

fun date_param :: "js_date option \<Rightarrow> error + time option" where
  "date_param None = Inr None"
| "date_param (Some (Date t)) = Inr (Some t)"
| "date_param (Some InvalidDate) = Inl (DbError ''invalid input syntax for type timestamp with time zone'')"

definition observe_row :: "host_machine \<Rightarrow> time option \<Rightarrow> time option \<Rightarrow> time \<Rightarrow> machine_row \<Rightarrow> machine_row" where
  "observe_row hostMachine started readyAt now m =
     (let ready = hm_ready hostMachine in
      m\<lparr>m_host_machine_id := Some (hm_id hostMachine), m_state := (if ready then Running else Starting),
        m_ready := ready, m_started_at := coalesce started (coalesce (m_started_at m) (Some now)),
        m_ready_at := (if ready then coalesce readyAt (Some now) else None), m_state_reason := None,
        m_create_claim_token := None, m_create_claimed_until := None\<rparr>)"

definition observeHost :: "uuid \<Rightarrow> string \<Rightarrow> host_machine \<Rightarrow> time \<Rightarrow> fleet \<Rightarrow> error + fleet" where
  "observeHost uuid i hostMachine now s =
     (case (date_param (hm_started_at hostMachine),
            if hm_ready hostMachine then date_param (hm_ready_at hostMachine) else Inr None) of
        (Inl e, _) \<Rightarrow> Inl e
      | (_, Inl e) \<Rightarrow> Inl e
      | (Inr started, Inr readyAt) \<Rightarrow>
          map_sum id snd
            (update_then (\<lambda>m. m_id m = i \<and> m_state m = Starting) (observe_row hostMachine started readyAt now)
              (\<lambda>m. if hm_ready hostMachine
                   then event uuid i (m_organization_id m) (Some Starting) Running None else id) s))"

section \<open>Transitions\<close>

definition transition_row :: "machine_state \<Rightarrow> string option \<Rightarrow> time \<Rightarrow> machine_row \<Rightarrow> machine_row" where
  "transition_row to reason now m =
     m\<lparr>m_state := to, m_state_reason := reason,
       m_stopping_at := (if to = Stopping then Some now else m_stopping_at m),
       m_stopped_at := (if terminal to then Some now else m_stopped_at m),
       m_ready := (if to = Running then m_ready m else False),
       m_ready_at := (if to = Running then m_ready_at m else None),
       m_create_claim_token := (if terminal to then None else m_create_claim_token m),
       m_create_claimed_until := (if terminal to then None else m_create_claimed_until m)\<rparr>"

definition transition ::
    "uuid \<Rightarrow> string \<Rightarrow> machine_state list \<Rightarrow> machine_state \<Rightarrow> string option \<Rightarrow> time \<Rightarrow> bool tx" where
  "transition uuid i from to reason now =
     update_then (\<lambda>m. m_id m = i \<and> m_state m \<in> set from) (transition_row to reason now)
       (\<lambda>m. event uuid i (m_organization_id m) (Some (m_state m)) to reason)"

section \<open>Extending\<close>

definition beginExtend ::
    "(numeric13 \<Rightarrow> numeric13) \<Rightarrow> admission_policy \<Rightarrow> int \<Rightarrow> string \<Rightarrow> uuid \<Rightarrow> uuid \<Rightarrow> string \<Rightarrow> string \<Rightarrow> int \<Rightarrow> time \<Rightarrow>
     extend_operation option tx" where
  "beginExtend pgdiv1024 policy seq i org project key requestHash ttlSeconds now s =
     (if \<not> list_ex (\<lambda>x. o_id x = org) (organizations s) then Inr (None, s)
      else case find (\<lambda>m. m_id m = i \<and> m_organization_id m = org \<and> m_project_id m = project) (machines s) of
          None \<Rightarrow> Inr (None, s)
        | Some m \<Rightarrow>
            (case find (\<lambda>x. x_organization_id x = org \<and> x_machine_id x = i \<and> x_idempotency_key x = key)
                (extend_ops s) of
               Some prior \<Rightarrow> Inr (Some (fromExtendOperationRow prior True), s)
             | None \<Rightarrow>
                 (if m_state m \<notin> {Starting, Running} \<or> \<not> present (m_host_id m) \<or> \<not> present (m_host_machine_id m)
                  then Inr (None, s)
                  else
                    (let committedUntil = committed_until s m;
                         target = max committedUntil (now + seconds ttlSeconds);
                         additionalSeconds = seconds_left (max committedUntil now) target
                     in case enforce pgdiv1024 policy s org
                            \<lparr>bd_vcpuSeconds = Some (additionalSeconds * vcpus (m_resources m)),
                             bd_memoryMebibyteSeconds = Some (additionalSeconds * memoryMb (m_resources m)),
                             bd_storageByteSeconds = None\<rparr> now of
                          Some e \<Rightarrow> Inl e
                        | None \<Rightarrow>
                            (let row = \<lparr>x_id = seq, x_organization_id = org, x_project_id = project,
                                   x_machine_id = i, x_idempotency_key = key, x_request_hash = requestHash,
                                   x_target_expires_at = target, x_result_expires_at = None, x_completed_at = None\<rparr>
                             in if seq \<in> set (map x_id (extend_ops s))
                                then Inl (DbError ''machine_extend_operations_pkey'')
                                else Inr (Some (fromExtendOperationRow row False),
                                  s\<lparr>extend_ops := extend_ops s @ [row]\<rparr>))))))"

definition completeExtend :: "int \<Rightarrow> string \<Rightarrow> uuid \<Rightarrow> time \<Rightarrow> time \<Rightarrow> time tx" where
  "completeExtend operationId i org resultExpiresAt now s =
     (if \<not> list_ex (\<lambda>m. m_id m = i \<and> m_organization_id m = org) (machines s)
      then Inl (PlainError ''machine disappeared while completing extend'')
      else
        (let mine = (\<lambda>x. x_id x = operationId \<and> x_machine_id x = i \<and> x_organization_id x = org) in
         case update_extends (\<lambda>x. mine x \<and> x_completed_at x = None)
             (\<lambda>x. x\<lparr>x_result_expires_at := Some resultExpiresAt, x_completed_at := Some now\<rparr>) s of
           Inl e \<Rightarrow> Inl e
         | Inr s1 \<Rightarrow>
             (case (if list_ex (\<lambda>x. mine x \<and> x_completed_at x = None) (extend_ops s) then Some resultExpiresAt
                    else Option.bind (find (\<lambda>x. mine x \<and> x_completed_at x \<noteq> None) (extend_ops s)) x_result_expires_at) of
                None \<Rightarrow> Inl (PlainError ''extend operation disappeared while completing'')
              | Some recorded \<Rightarrow>
                  (case update_machines (\<lambda>m. m_id m = i \<and> m_organization_id m = org \<and> \<not> terminal (m_state m))
                      (\<lambda>m. m\<lparr>m_expires_at := max (m_expires_at m) recorded\<rparr>) s1 of
                     Inl e \<Rightarrow> Inl e
                   | Inr s2 \<Rightarrow> Inr (recorded, s2)))))"


section \<open>The operations keep the fleet consistent\<close>

definition undecided :: "fleet \<Rightarrow> string \<Rightarrow> bool" where
  "undecided s i \<longleftrightarrow> list_ex (\<lambda>m. m_id m = i \<and> pending_child s m) (machines s)"

lemma pending_child_state:
  "fleet_inv s \<Longrightarrow> m \<in> set (machines s) \<Longrightarrow> pending_child s m \<Longrightarrow> m_state m = Starting"
  using fleet_invD(8) [of s] by (auto simp: pending_child_def list_ex_iff child_ok_def)

lemma undecidedD: "\<not> undecided s i \<Longrightarrow> m \<in> set (machines s) \<Longrightarrow> m_id m = i \<Longrightarrow> \<not> pending_child s m"
  by (auto simp: undecided_def list_ex_iff)

lemma frame_event [simp]: "fleet_inv (event u i g a b r s) = fleet_inv s" "fleet_le t (event u i g a b r s) = fleet_le t s"
  by (simp_all add: event_def)

lemma event_frame [simp, frame]:
  "machines (event u i g a b r s) = machines s" "hosts (event u i g a b r s) = hosts s"
  "fork_ops (event u i g a b r s) = fork_ops s" "fork_children (event u i g a b r s) = fork_children s"
  "extend_ops (event u i g a b r s) = extend_ops s"
  by (simp_all add: event_def)

lemma inv_insert_unplaced:
  assumes inv: "fleet_inv s" and ins: "insert_machine m s = Inr s'"
    and m: "unplaced (m_state m)" "m_reservation_released_at m = None" "m_fork_operation_id m = None"
  shows "fleet_inv s'"
proof -
  from ins obtain r where s': "s' = s\<lparr>machines := machines s @ [r]\<rparr>" and st: "stored_as m r"
      and fresh: "m_id m \<notin> set (map m_id (machines s))"
    by (rule insert_machine_Inr)
  note I = fleet_invD [OF inv] and sel = stored_as_sel [OF st]
  have r: "machine_ok r" using st m sel by (simp add: machine_ok_def stored_as_def)
  then have h: "m_host_id r = None" using machine_ok_unplaced m(1) sel by simp
  then have "committed k (machines s @ [r]) = committed k (machines s)" for k
    by (simp add: committed_def weight_def)
  with I(4) have "accounted (hosts s) (machines s @ [r])" by (auto simp: accounted_def)
  moreover have "distinct (map m_id (machines s @ [r]))" using I(1) fresh sel by simp
  moreover have "child_ok f r" for f using m(3) sel by (simp add: child_ok_def)
  ultimately show ?thesis using inv r h m(3) sel by (simp add: s' fleet_inv_def ball_Un)
qed

lemma requested_row_sel [simp]:
  "m_state (requested_row machine key now) = Requested" "m_id (requested_row machine key now) = ma_id machine"
  "m_reservation_released_at (requested_row machine key now) = None"
  "m_fork_operation_id (requested_row machine key now) = None"
  by (simp_all add: requested_row_def)

lemma insertRequestedE:
  assumes "insertRequested u machine key now s = Inr s'"
  obtains s1 where "insert_machine (requested_row machine key now) s = Inr s1"
    and "s' = event u (ma_id machine) (ma_organizationId machine) None Requested None s1"
  using assms by (auto simp: insertRequested_def split: if_splits sum.splits)

lemma inv_insertRequested:
  assumes "fleet_inv s" and "insertRequested u machine key now s = Inr s'"
  shows "fleet_inv s'"
  using assms(2) by (rule insertRequestedE) (simp add: inv_insert_unplaced [OF assms(1)])

lemma le_insertRequested: "insertRequested u machine key now s = Inr s' \<Longrightarrow> fleet_le s s'"
  by (auto simp: insertRequested_def split: if_splits sum.splits dest: le_insert_machine)

lemma inv_claimCreate:
  assumes inv: "fleet_inv s" and c: "claimCreate token i now s = Inr (t, s')"
  shows "fleet_inv s'"
proof -
  from c have "update_machines (claimable i now)
      (\<lambda>m. m\<lparr>m_create_claim_token := Some token, m_create_claimed_until := Some (now + minutes 5)\<rparr>) s = Inr s'"
    by (auto simp: claimCreate_def split: sum.splits)
  then show ?thesis
    by (rule inv_update_machines [OF inv]) (auto simp: same_core_def dest: pending_child_state [OF inv])
qed

lemma le_claimCreate: "claimCreate token i now s = Inr (t, s') \<Longrightarrow> fleet_le s s'"
  unfolding claimCreate_def
  by (auto split: sum.splits elim!: le_update_machines simp: row_le_defs)

lemma inv_releaseCreateClaim:
  assumes inv: "fleet_inv s" and c: "releaseCreateClaim i token s = Inr s'"
  shows "fleet_inv s'"
  using c unfolding releaseCreateClaim_def
  by (rule inv_update_machines [OF inv]) (auto simp: same_core_def dest: pending_child_state [OF inv])

lemma le_releaseCreateClaim: "releaseCreateClaim i token s = Inr s' \<Longrightarrow> fleet_le s s'"
  unfolding releaseCreateClaim_def by (erule le_update_machines) (auto simp: row_le_defs)

lemma update_thenE:
  assumes "update_then P f k s = Inr (b, s')"
  obtains s1 where "update_machines P f s = Inr s1" and "b = list_ex P (machines s)"
    and "s' = s1 \<or> (\<exists>m. s' = k m s1)"
  using assms
  by (auto simp: update_then_def find_None_list_ex split: sum.splits option.splits dest: find_Some_list_ex)

lemma inv_update_then:
  assumes inv: "fleet_inv s" and "update_then P f (\<lambda>m. event u i (org m) (from m) to reason) s = Inr (b, s')"
    and "\<And>m. m \<in> set (machines s) \<Longrightarrow> P m \<Longrightarrow> same_core m (f m)"
    and "\<And>m. m \<in> set (machines s) \<Longrightarrow> P m \<Longrightarrow> unplaced (m_state (f m)) \<Longrightarrow> unplaced (m_state m)"
    and "\<And>m. m \<in> set (machines s) \<Longrightarrow> P m \<Longrightarrow> pending_child s m \<Longrightarrow> m_state (f m) = Starting"
  shows "fleet_inv s'"
proof -
  from assms(2) obtain s1 where up: "update_machines P f s = Inr s1"
      and "s' = s1 \<or> (\<exists>m. s' = event u i (org m) (from m) to reason s1)"
    by (rule update_thenE)
  moreover have "fleet_inv s1" by (rule inv_update_machines [OF inv up assms(3-5)])
  ultimately show ?thesis by auto
qed

lemma le_update_then:
  assumes "update_then P f (\<lambda>m. event u i (org m) (from m) to reason) s = Inr (b, s')"
    and "\<And>m. m \<in> set (machines s) \<Longrightarrow> P m \<Longrightarrow> row_le m (f m)"
  shows "fleet_le s s'"
proof -
  from assms(1) obtain s1 where up: "update_machines P f s = Inr s1"
      and "s' = s1 \<or> (\<exists>m. s' = event u i (org m) (from m) to reason s1)"
    by (rule update_thenE)
  moreover have "fleet_le s s1" by (rule le_update_machines [OF up assms(2)])
  ultimately show ?thesis by auto
qed

lemma inv_failCreate:
  assumes inv: "fleet_inv s" and c: "failCreate u i token status code message now s = Inr (b, s')"
    and und: "\<not> undecided s i"
  shows "fleet_inv s'"
  using c unfolding failCreate_def
  by (rule inv_update_then [OF inv]) (use undecidedD [OF und] in \<open>auto simp: same_core_def fail_create_row_def\<close>)

lemma le_failCreate:
  assumes "failCreate u i token status code message now s = Inr (b, s')"
  shows "fleet_le s s'"
  using assms unfolding failCreate_def
  by (rule le_update_then) (auto simp: row_le_defs fail_create_row_def state_le_def terminal_def)

lemma inv_transition:
  assumes inv: "fleet_inv s" and c: "transition u i from to reason now s = Inr (b, s')"
    and und: "\<not> undecided s i" and to: "\<not> unplaced to"
  shows "fleet_inv s'"
  using c unfolding transition_def
  by (rule inv_update_then [OF inv]) (use undecidedD [OF und] to in \<open>auto simp: same_core_def transition_row_def\<close>)

lemma le_transition:
  assumes "transition u i from to reason now s = Inr (b, s')" and "\<And>st. st \<in> set from \<Longrightarrow> state_le st to"
  shows "fleet_le s s'"
  using assms(1) unfolding transition_def
  by (rule le_update_then) (use assms(2) in \<open>simp add: row_le_defs transition_row_def\<close>)


lemma observeHostE:
  assumes "observeHost u i hostMachine now s = Inr s'"
  obtains started readyAt s1 where
    "update_machines (\<lambda>m. m_id m = i \<and> m_state m = Starting) (observe_row hostMachine started readyAt now) s = Inr s1"
    and "s' = s1 \<or> (\<exists>org. s' = event u i org (Some Starting) Running None s1)"
proof -
  from assms obtain started readyAt b where
      "update_then (\<lambda>m. m_id m = i \<and> m_state m = Starting) (observe_row hostMachine started readyAt now)
        (\<lambda>m. if hm_ready hostMachine then event u i (m_organization_id m) (Some Starting) Running None else id) s
        = Inr (b, s')"
    by (auto simp: observeHost_def map_sum_def split: sum.splits if_splits)
  then show thesis
  proof (rule update_thenE)
    fix s1
    assume up: "update_machines (\<lambda>m. m_id m = i \<and> m_state m = Starting)
        (observe_row hostMachine started readyAt now) s = Inr s1"
      and d: "s' = s1 \<or> (\<exists>m :: machine_row. s' =
        (if hm_ready hostMachine then event u i (m_organization_id m) (Some Starting) Running None else id) s1)"
    show thesis
      by (rule that [OF up]) (use d in \<open>cases "hm_ready hostMachine"; auto\<close>)
  qed
qed

lemma inv_observeHost:
  assumes inv: "fleet_inv s" and c: "observeHost u i hostMachine now s = Inr s'" and und: "\<not> undecided s i"
  shows "fleet_inv s'"
proof -
  from c obtain started readyAt s1 where
      up: "update_machines (\<lambda>m. m_id m = i \<and> m_state m = Starting) (observe_row hostMachine started readyAt now) s = Inr s1"
      and s': "s' = s1 \<or> (\<exists>org. s' = event u i org (Some Starting) Running None s1)"
    by (rule observeHostE)
  have "fleet_inv s1"
    using up by (rule inv_update_machines [OF inv])
      (use undecidedD [OF und] in \<open>auto simp: same_core_def observe_row_def Let_def split: if_splits\<close>)
  with s' show ?thesis by auto
qed

lemma le_observeHost:
  assumes c: "observeHost u i hostMachine now s = Inr s'"
  shows "fleet_le s s'"
proof -
  from c obtain started readyAt s1 where
      up: "update_machines (\<lambda>m. m_id m = i \<and> m_state m = Starting) (observe_row hostMachine started readyAt now) s = Inr s1"
      and s': "s' = s1 \<or> (\<exists>org. s' = event u i org (Some Starting) Running None s1)"
    by (rule observeHostE)
  have "fleet_le s s1"
    using up by (rule le_update_machines) (auto simp: row_le_defs state_le_def observe_row_def Let_def terminal_def)
  with s' show ?thesis by auto
qed

lemma beginExtendE:
  assumes "beginExtend g policy seq i org project key hash ttl now s = Inr (r, s')"
  obtains "s' = s"
  | row where "s' = s\<lparr>extend_ops := extend_ops s @ [row]\<rparr>" and "r = Some (fromExtendOperationRow row False)"
    and "x_id row = seq" and "x_organization_id row = org" and "x_machine_id row = i"
    and "x_idempotency_key row = key" and "x_request_hash row = hash" and "x_result_expires_at row = None"
    and "x_completed_at row = None"
    and "seq \<notin> set (map x_id (extend_ops s))"
  using assms by (auto simp: beginExtend_def Let_def split: if_splits option.splits)

lemma inv_beginExtend:
  assumes "fleet_inv s" and "beginExtend g policy seq i org project key hash ttl now s = Inr (r, s')"
  shows "fleet_inv s'"
proof -
  have "extend_check row" if "x_result_expires_at row = None" "x_completed_at row = None" for row
    using that by (simp add: extend_check_def)
  with assms(2,1) show ?thesis by (elim beginExtendE) (auto simp: fleet_inv_def extends_ok_def)
qed

lemma le_beginExtend: "beginExtend g policy seq i org project key hash ttl now s = Inr (r, s') \<Longrightarrow> fleet_le s s'"
  by (elim beginExtendE) (simp_all add: fleet_le_def covers_append)

lemma completeExtendE:
  assumes "completeExtend operationId i org result now s = Inr (recorded, s')"
  obtains s1 where "update_extends (\<lambda>x. (x_id x = operationId \<and> x_machine_id x = i \<and> x_organization_id x = org) \<and>
      x_completed_at x = None) (\<lambda>x. x\<lparr>x_result_expires_at := Some result, x_completed_at := Some now\<rparr>) s = Inr s1"
    and "update_machines (\<lambda>m. m_id m = i \<and> m_organization_id m = org \<and> \<not> terminal (m_state m))
      (\<lambda>m. m\<lparr>m_expires_at := max (m_expires_at m) recorded\<rparr>) s1 = Inr s'"
    and "if list_ex (\<lambda>x. (x_id x = operationId \<and> x_machine_id x = i \<and> x_organization_id x = org) \<and>
        x_completed_at x = None) (extend_ops s) then recorded = result
      else \<exists>x\<in>set (extend_ops s). x_id x = operationId \<and> x_machine_id x = i \<and> x_organization_id x = org \<and>
        x_completed_at x \<noteq> None \<and> x_result_expires_at x = Some recorded"
  using assms
  by (auto simp: completeExtend_def Let_def split: if_splits sum.splits option.splits Option.bind_splits
      dest!: find_SomeD)


lemma extends_ok_update:
  assumes up: "update_extends P f s = Inr s'" and "extends_ok (extend_ops s)" and "\<And>x. x_id (f x) = x_id x"
  shows "extends_ok (extend_ops s')"
proof -
  have "extend_check (f x)" if "x \<in> set (extend_ops s)" "P x" for x
    using up store_rows_Inr that by (fastforce simp: update_extends_def split: sum.splits if_splits)
  with assms(2) update_extends_Inr [OF up] show ?thesis
    by (auto simp: extends_ok_def list_all_iff map_sql_update assms(3) in_sql_update)
qed

lemma inv_completeExtend:
  assumes inv: "fleet_inv s" and "completeExtend operationId i org result now s = Inr (recorded, s')"
  shows "fleet_inv s'"
proof -
  from assms(2) obtain s1 where
      x: "update_extends (\<lambda>x. (x_id x = operationId \<and> x_machine_id x = i \<and> x_organization_id x = org) \<and>
        x_completed_at x = None) (\<lambda>x. x\<lparr>x_result_expires_at := Some result, x_completed_at := Some now\<rparr>) s = Inr s1"
      and m: "update_machines (\<lambda>m. m_id m = i \<and> m_organization_id m = org \<and> \<not> terminal (m_state m))
        (\<lambda>m. m\<lparr>m_expires_at := max (m_expires_at m) recorded\<rparr>) s1 = Inr s'"
    by (rule completeExtendE)
  have "extends_ok (extend_ops s1)"
    by (rule extends_ok_update [OF x]) (simp_all add: fleet_invD [OF inv])
  then have "fleet_inv s1" using inv update_extends_Inr [OF x] by (simp add: fleet_inv_def)
  from m show ?thesis
    by (rule inv_update_machines [OF \<open>fleet_inv s1\<close>])
      (auto simp: same_core_def dest: pending_child_state [OF \<open>fleet_inv s1\<close>])
qed

lemma le_completeExtend:
  assumes "completeExtend operationId i org result now s = Inr (recorded, s')" and inv: "fleet_inv s"
  shows "fleet_le s s'"
proof -
  have ok: "x_result_expires_at x = None" if "x \<in> set (extend_ops s)" "x_completed_at x = None" for x
    using fleet_invD(9) [OF inv] that
    by (auto simp: extends_ok_def list_all_iff extend_check_def split: option.splits)
  from assms(1) obtain s1 where
      x: "update_extends (\<lambda>x. (x_id x = operationId \<and> x_machine_id x = i \<and> x_organization_id x = org) \<and>
        x_completed_at x = None) (\<lambda>x. x\<lparr>x_result_expires_at := Some result, x_completed_at := Some now\<rparr>) s = Inr s1"
      and m: "update_machines (\<lambda>m. m_id m = i \<and> m_organization_id m = org \<and> \<not> terminal (m_state m))
        (\<lambda>m. m\<lparr>m_expires_at := max (m_expires_at m) recorded\<rparr>) s1 = Inr s'"
    by (rule completeExtendE)
  have "covers extend_le (extend_ops s) (extend_ops s1)"
    unfolding update_extends_Inr [OF x]
    by (simp, rule covers_sql_update)
      (use ok in \<open>auto simp: extend_le_def\<close>)
  then have "fleet_le s s1" by (simp add: fleet_le_def update_extends_Inr [OF x])
  moreover have "fleet_le s1 s'"
    using m by (rule le_update_machines) (auto simp: row_le_defs)
  ultimately show ?thesis by (rule fleet_le_trans)
qed


section \<open>Claims and extensions\<close>

text \<open>A create claim is exclusive: after a request has claimed a machine, another request gets no
  claim until the five minutes are over (unless the claim is released), and its attempt changes
  nothing.\<close>

theorem claimCreate_exclusive:
  assumes "fleet_inv s" and "claimCreate token i now s = Inr (Some token, s1)"
    and "now' < now + 300000"
  shows "claimCreate token' i now' s1 = Inr (None, s1)"
proof -
  let ?f = "\<lambda>m. m\<lparr>m_create_claim_token := Some token, m_create_claimed_until := Some (now + minutes 5)\<rparr>"
  from assms(2) have up: "update_machines (claimable i now) ?f s = Inr s1"
      and ex: "list_ex (claimable i now) (machines s)"
    by (auto simp: claimCreate_def split: sum.splits if_splits)
  from up obtain g where s1: "s1 = s\<lparr>machines := sql_update (claimable i now) g (machines s)\<rparr>"
      and st: "\<And>m. m \<in> set (machines s) \<Longrightarrow> claimable i now m \<Longrightarrow> stored_as (?f m) (g m)"
    by (rule update_machines_Inr) blast
  from ex obtain c where c: "c \<in> set (machines s)" "claimable i now c" by (auto simp: list_ex_iff)
  have "\<not> claimable i now' m'" if "m' \<in> set (sql_update (claimable i now) g (machines s))" for m'
    using that
  proof (cases rule: sql_updateE)
    case (1 m)
    from stored_as_sel [OF st [OF 1(1,2)]] assms(3) show ?thesis by (simp add: 1(3) claimable_def)
  next
    case 2
    have "m_id m' \<noteq> i"
    proof
      assume "m_id m' = i"
      with c have "m' = c"
        using mkey.key_unique [OF fleet_invD(1) [OF assms(1)] 2(1) c(1)] by (simp add: claimable_def)
      with 2 c show False by simp
    qed
    then show ?thesis by (simp add: claimable_def)
  qed
  then have "\<not> list_ex (claimable i now') (machines s1)" by (auto simp: list_ex_iff s1)
  then show ?thesis by (simp add: claimCreate_def update_machines_none)
qed

text \<open>Beginning an extension is idempotent: a new operation promises an expiry no earlier than
  the lifetime asked for and any promise made before, and repeating the request with the same key,
  whatever else it asks for, returns that operation and changes nothing.\<close>

theorem beginExtend_replay:
  assumes "beginExtend g policy seq i org project key hash ttl now s = Inr (Some x, s1)"
    and "\<not> xo_replayed x"
  shows "now + 1000 * ttl \<le> xo_targetExpiresAt x \<and>
    (\<forall>o'\<in>set (extend_ops s). x_machine_id o' = i \<and> x_organization_id o' = org \<longrightarrow>
      x_target_expires_at o' \<le> xo_targetExpiresAt x) \<and>
    beginExtend g' policy' seq' i org project key hash' ttl' now' s1 = Inr (Some (x\<lparr>xo_replayed := True\<rparr>), s1)"
proof -
  from assms obtain m where m: "find (\<lambda>m. m_id m = i \<and> m_organization_id m = org \<and> m_project_id m = project) (machines s) = Some m"
      and o: "list_ex (\<lambda>x. o_id x = org) (organizations s)"
      and none: "find (\<lambda>x. x_organization_id x = org \<and> x_machine_id x = i \<and> x_idempotency_key x = key) (extend_ops s) = None"
      and s1: "s1 = s\<lparr>extend_ops := extend_ops s @ [\<lparr>x_id = seq, x_organization_id = org, x_project_id = project,
        x_machine_id = i, x_idempotency_key = key, x_request_hash = hash,
        x_target_expires_at = max (committed_until s m) (now + seconds ttl), x_result_expires_at = None, x_completed_at = None\<rparr>]\<rparr>"
      and x: "x = \<lparr>xo_id = seq, xo_requestHash = hash, xo_targetExpiresAt = max (committed_until s m) (now + seconds ttl),
        xo_resultExpiresAt = None, xo_replayed = False\<rparr>"
    by (auto simp: beginExtend_def Let_def fromExtendOperationRow_def split: if_splits option.splits)
  have mm: "m_id m = i" "m_organization_id m = org" using find_SomeD [OF m] by simp_all
  have "\<forall>o'\<in>set (extend_ops s). x_machine_id o' = i \<and> x_organization_id o' = org \<longrightarrow>
      x_target_expires_at o' \<le> committed_until s m"
    by (auto intro!: committed_until_ge simp: mm)
  then have "\<forall>o'\<in>set (extend_ops s). x_machine_id o' = i \<and> x_organization_id o' = org \<longrightarrow>
      x_target_expires_at o' \<le> xo_targetExpiresAt x"
    by (auto simp: x intro: max.coboundedI1)
  moreover have "find (\<lambda>x. x_organization_id x = org \<and> x_machine_id x = i \<and> x_idempotency_key x = key) (extend_ops s1) =
      Some (last (extend_ops s1))"
    using none by (simp add: s1 find_append)
  ultimately show ?thesis
    using o m by (simp add: beginExtend_def s1 x fromExtendOperationRow_def)
qed

interpretation xkey: keyed x_id .

lemma completeExtend_records:
  assumes "completeExtend operationId i org result now s = Inr (recorded, s1)"
  shows "\<exists>y\<in>set (extend_ops s1). x_id y = operationId \<and> x_machine_id y = i \<and> x_organization_id y = org \<and>
    x_completed_at y \<noteq> None \<and> x_result_expires_at y = Some recorded"
proof -
  let ?P = "\<lambda>x. (x_id x = operationId \<and> x_machine_id x = i \<and> x_organization_id x = org) \<and> x_completed_at x = None"
  let ?f = "\<lambda>x. x\<lparr>x_result_expires_at := Some result, x_completed_at := Some now\<rparr>"
  from assms obtain t where ext: "update_extends ?P ?f s = Inr t"
      and up: "update_machines (\<lambda>m. m_id m = i \<and> m_organization_id m = org \<and> \<not> terminal (m_state m))
        (\<lambda>m. m\<lparr>m_expires_at := max (m_expires_at m) recorded\<rparr>) t = Inr s1"
      and rec: "if list_ex ?P (extend_ops s) then recorded = result
        else \<exists>x\<in>set (extend_ops s). x_id x = operationId \<and> x_machine_id x = i \<and> x_organization_id x = org \<and>
          x_completed_at x \<noteq> None \<and> x_result_expires_at x = Some recorded"
    by (rule completeExtendE)
  have xs: "extend_ops s1 = sql_update ?P ?f (extend_ops s)"
    using up update_extends_Inr [OF ext] by (elim update_machines_Inr) simp
  show ?thesis
  proof (cases "list_ex ?P (extend_ops s)")
    case True
    then obtain x where "x \<in> set (extend_ops s)" "?P x" by (auto simp: list_ex_iff)
    with True rec sql_update_changed [of x "extend_ops s" ?P ?f] show ?thesis
      by (intro bexI [of _ "?f x"]) (simp_all add: xs)
  next
    case False
    with rec obtain x where "x \<in> set (extend_ops s)" "x_id x = operationId" "x_machine_id x = i"
        "x_organization_id x = org" "x_completed_at x \<noteq> None" "x_result_expires_at x = Some recorded"
      by auto
    then show ?thesis by (intro bexI [of _ x]) (simp_all add: xs sql_update_kept)
  qed
qed

text \<open>A completed extension is honoured and final: the recorded expiry is at least the promised
  one, a machine still alive lives at least that long, and any later completion of the same
  operation, after whatever else has happened, returns the same recorded expiry.\<close>

theorem completeExtend_final:
  assumes "fleet_inv s" and "completeExtend operationId i org result now s = Inr (recorded, s1)"
    and "x \<in> set (extend_ops s)" and "x_id x = operationId"
    and "fleet_le s1 s2" and "fleet_inv s2"
    and "completeExtend operationId i org result' now' s2 = Inr (recorded', s3)"
  shows "x_target_expires_at x \<le> recorded \<and>
    (\<forall>m\<in>set (machines s1). m_id m = i \<and> m_organization_id m = org \<and> \<not> terminal (m_state m) \<longrightarrow> recorded \<le> m_expires_at m) \<and>
    recorded' = recorded"
proof -
  from assms(2) obtain t where
      ext: "update_extends (\<lambda>x. (x_id x = operationId \<and> x_machine_id x = i \<and> x_organization_id x = org) \<and>
        x_completed_at x = None) (\<lambda>x. x\<lparr>x_result_expires_at := Some result, x_completed_at := Some now\<rparr>) s = Inr t"
      and up: "update_machines (\<lambda>m. m_id m = i \<and> m_organization_id m = org \<and> \<not> terminal (m_state m))
        (\<lambda>m. m\<lparr>m_expires_at := max (m_expires_at m) recorded\<rparr>) t = Inr s1"
    by (rule completeExtendE)
  note inv1 = inv_completeExtend [OF assms(1,2)] and le1 = le_completeExtend [OF assms(2,1)]
  from completeExtend_records [OF assms(2)] obtain y where y: "y \<in> set (extend_ops s1)" "x_id y = operationId"
      "x_machine_id y = i" "x_organization_id y = org" "x_completed_at y \<noteq> None" "x_result_expires_at y = Some recorded"
    by blast
  have d1: "distinct (map x_id (extend_ops s1))" and "extend_check y"
    using fleet_invD(9) [OF inv1] y(1) by (auto simp: extends_ok_def list_all_iff)
  from le1 assms(3) obtain y' where y': "y' \<in> set (extend_ops s1)" "extend_le x y'"
    by (auto simp: fleet_le_def covers_def)
  then have "y' = y" using xkey.key_unique [OF d1 y'(1) y(1)] y(2) assms(4) by (simp add: extend_le_def)
  then have target: "x_target_expires_at x \<le> recorded"
    using y' y(6) \<open>extend_check y\<close> by (simp add: extend_le_def extend_check_def)
  from assms(5) y(1) obtain z where z: "z \<in> set (extend_ops s2)" "extend_le y z"
    by (auto simp: fleet_le_def covers_def)
  have d2: "distinct (map x_id (extend_ops s2))"
    using fleet_invD(9) [OF assms(6)] by (simp add: extends_ok_def)
  have "w = z" if "w \<in> set (extend_ops s2)" "x_id w = operationId" for w
    using xkey.key_unique [OF d2 that(1) z(1)] that z y by (simp add: extend_le_def)
  moreover have "x_completed_at z \<noteq> None" "x_result_expires_at z = Some recorded"
    using z(2) y(5,6) by (auto simp: extend_le_def fixed_def)
  ultimately have same: "recorded' = recorded"
    using assms(7) by (elim completeExtendE) (auto simp: list_ex_iff split: if_splits)
  from up obtain g where s1: "s1 = t\<lparr>machines := sql_update (\<lambda>m. m_id m = i \<and> m_organization_id m = org \<and>
        \<not> terminal (m_state m)) g (machines t)\<rparr>"
      and st: "\<And>m. m \<in> set (machines t) \<Longrightarrow> m_id m = i \<and> m_organization_id m = org \<and> \<not> terminal (m_state m) \<Longrightarrow>
        stored_as (m\<lparr>m_expires_at := max (m_expires_at m) recorded\<rparr>) (g m)"
    by (rule update_machines_Inr) blast
  have "recorded \<le> m_expires_at m" if "m \<in> set (machines s1)"
      "m_id m = i \<and> m_organization_id m = org \<and> \<not> terminal (m_state m)" for m
  proof -
    from that(1) have "m \<in> set (sql_update (\<lambda>m. m_id m = i \<and> m_organization_id m = org \<and>
        \<not> terminal (m_state m)) g (machines t))" by (simp add: s1)
    then show ?thesis
    proof (cases rule: sql_updateE)
      case (1 m0)
      then show ?thesis using stored_as_sel(16) [OF st [OF 1(1,2)]] by simp
    next
      case 2
      with that(2) show ?thesis by simp
    qed
  qed
  with target same show ?thesis by blast
qed

end
