(* ===== verification/Forks.thy ===== *)
theory Forks
  imports Machines
begin

text \<open>
  Fork operations of the machine repository (\<open>domain/machines.ts\<close>): the batch allocation
  \<open>beginFork\<close>, its completion, its failure, and the cleanup protocol between them. The children of
  a fork are allocated all at once on the source's host and stay hidden until the operation has
  succeeded; a failed operation releases them all at once.
\<close>

section \<open>Operations as the services see them\<close>

record fork_operation =
  fo_id :: uuid
  fo_auditOperationId :: uuid
  fo_idempotencyKey :: string
  fo_requestHash :: string
  fo_state :: fork_state
  fo_replayed :: bool
  fo_sourceMachineId :: string
  fo_sourceHostId :: uuid
  fo_sourceHostAddress :: string
  fo_sourceHostMachineId :: string
  fo_sourceLeaseId :: uuid
  fo_children :: "machine list"
  fo_failureStatus :: "int option"
  fo_failureCode :: "string option"
  fo_failureMessage :: "string option"
  fo_reconcileClaimToken :: "uuid option"
  fo_cleanupRequested :: bool
  fo_cleanupClaimToken :: "uuid option"
  fo_cleanupFailureStatus :: "int option"
  fo_cleanupFailureCode :: "string option"
  fo_cleanupFailureMessage :: "string option"
  fo_expired :: bool
  fo_deadlineReached :: bool

text \<open>The children of an operation joined with their machines, \<open>ORDER BY child.ordinal\<close>.\<close>

definition children_of :: "fleet \<Rightarrow> uuid \<Rightarrow> child_row list" where
  "children_of s op =
     sort_by (\<lambda>a b. cmp_of (c_ordinal a) (c_ordinal b)) (filter (\<lambda>c. c_operation_id c = op) (fork_children s))"

definition child_machines :: "fleet \<Rightarrow> uuid \<Rightarrow> (child_row \<times> machine_row) list" where
  "child_machines s op =
     List.map_filter (\<lambda>c. map_option (Pair c) (find (\<lambda>m. m_id m = c_machine_id c) (machines s))) (children_of s op)"

definition loadForkOperation ::
    "js_net \<Rightarrow> uuid \<Rightarrow> bool \<Rightarrow> time \<Rightarrow> fleet \<Rightarrow> error + fork_operation option" where
  "loadForkOperation net op replayed now s =
     (case find (\<lambda>f. f_id f = op) (fork_ops s) of
        None \<Rightarrow> Inr None
      | Some f \<Rightarrow>
     (case find (\<lambda>h. h_id h = f_source_host_id f) (hosts s) of
        None \<Rightarrow> Inr None
      | Some h \<Rightarrow>
          (let ms = map snd (child_machines s op) in
           case from_rows net s ms of
             Inl e \<Rightarrow> Inl e
           | Inr children \<Rightarrow> Inr (Some
               \<lparr>fo_id = f_id f, fo_auditOperationId = f_audit_operation_id f,
                fo_idempotencyKey = f_idempotency_key f, fo_requestHash = f_request_hash f, fo_state = f_state f,
                fo_replayed = replayed, fo_sourceMachineId = f_source_machine_id f,
                fo_sourceHostId = f_source_host_id f, fo_sourceHostAddress = h_address h,
                fo_sourceHostMachineId = f_source_host_machine_id f, fo_sourceLeaseId = f_source_lease_id f,
                fo_children = children, fo_failureStatus = f_failure_status f, fo_failureCode = f_failure_code f,
                fo_failureMessage = f_failure_message f, fo_reconcileClaimToken = f_reconcile_claim_token f,
                fo_cleanupRequested = (f_cleanup_requested_at f \<noteq> None),
                fo_cleanupClaimToken = f_cleanup_claim_token f,
                fo_cleanupFailureStatus = f_cleanup_failure_status f,
                fo_cleanupFailureCode = f_cleanup_failure_code f,
                fo_cleanupFailureMessage = f_cleanup_failure_message f,
                fo_expired = (\<not> list_ex (\<lambda>m. m_expires_at m > now) ms),
                fo_deadlineReached =
                  (\<not> list_ex (\<lambda>m. the (coalesce (m_startup_deadline_at m) (Some (m_created_at m + minutes 2))) > now) ms)\<rparr>))))"

section \<open>Allocation\<close>

definition fork_row_of ::
    "uuid \<Rightarrow> uuid \<Rightarrow> machine_row \<Rightarrow> string \<Rightarrow> string \<Rightarrow> int \<Rightarrow> time \<Rightarrow> fork_row" where
  "fork_row_of op audit src key hash count now =
     \<lparr>f_id = op, f_audit_operation_id = audit, f_organization_id = m_organization_id src,
      f_project_id = m_project_id src, f_source_machine_id = m_id src,
      f_source_host_id = the (m_host_id src), f_source_host_machine_id = the (m_host_machine_id src),
      f_source_lease_id = m_lease_id src, f_idempotency_key = key, f_request_hash = hash, f_child_count = count,
      f_state = Pending, f_failure_status = None, f_failure_code = None, f_failure_message = None,
      f_reconcile_after = now, f_reconcile_claim_token = None, f_reconcile_claimed_until = None,
      f_cleanup_requested_at = None, f_cleanup_failure_status = None, f_cleanup_failure_code = None,
      f_cleanup_failure_message = None, f_cleanup_claim_token = None, f_cleanup_claimed_until = None,
      f_created_at = now, f_completed_at = None\<rparr>"

definition insert_fork :: "fork_row \<Rightarrow> fleet \<Rightarrow> error + fleet" where
  "insert_fork f s =
     (if f_id f \<in> set (map f_id (fork_ops s)) then Inl (DbError ''machine_fork_operations_pkey'')
      else if \<not> fork_check f then Inl (DbError ''machine_fork_operations check constraint'')
      else Inr (s\<lparr>fork_ops := fork_ops s @ [f]\<rparr>))"

text \<open>\<open>CEIL(EXTRACT(EPOCH FROM (expires_at - clock_timestamp())))::integer\<close>, negative when expired.\<close>

definition remaining_seconds :: "time \<Rightarrow> machine_row \<Rightarrow> int" where
  "remaining_seconds now m = ceil_div (m_expires_at m - now) 1000"

definition child_hash :: "(string \<Rightarrow> string) \<Rightarrow> string \<Rightarrow> nat \<Rightarrow> string \<Rightarrow> uuid \<Rightarrow> string" where
  "child_hash sha256 requestHash ordinal machineId leaseId =
     sha256 (requestHash @ '':'' @ show_nat ordinal @ '':'' @ machineId @ '':'' @ leaseId)"

text \<open>The row of a child: the source's identity of tenant, host, size, image, policy and expiry.\<close>

definition child_machine_row ::
    "(string \<Rightarrow> string) \<Rightarrow> uuid \<Rightarrow> machine_row \<Rightarrow> string \<Rightarrow> nat \<Rightarrow> string \<Rightarrow> uuid \<Rightarrow> time \<Rightarrow> machine_row" where
  "child_machine_row sha256 op src requestHash ordinal machineId leaseId now =
     src\<lparr>m_id := machineId, m_host_machine_id := None, m_lease_id := leaseId, m_lease_generation := 1,
         m_idempotency_key := Some (''fork:'' @ op @ '':'' @ show_nat ordinal),
         m_idempotency_request_hash := child_hash sha256 requestHash ordinal machineId leaseId,
         m_state := Starting, m_state_reason := None,
         m_requested_ttl_seconds := min (remaining_seconds now src) 86400, m_ready := False, m_created_at := now,
         m_placed_at := Some now, m_started_at := None, m_ready_at := None, m_stopping_at := None,
         m_stopped_at := None, m_reservation_released_at := None, m_usage_checkpoint_at := None,
         m_usage_finalized_at := None, m_usage_quarantined_at := None, m_usage_quarantine_reason := None,
         m_startup_deadline_at := Some (now + minutes 2), m_create_claim_token := None,
         m_create_claimed_until := None, m_create_failure_status := None, m_create_failure_code := None,
         m_create_failure_message := None, m_parent_machine_id := Some (m_id src),
         m_fork_operation_id := Some op, m_reconcile_after := now, m_reconcile_claim_token := None,
         m_reconcile_claimed_until := None\<rparr>"

definition insert_child :: "child_row \<Rightarrow> fleet \<Rightarrow> error + fleet" where
  "insert_child c s =
     (if list_ex (\<lambda>x. c_operation_id x = c_operation_id c \<and> c_ordinal x = c_ordinal c) (fork_children s)
      then Inl (DbError ''machine_fork_children_pkey'')
      else if list_ex (\<lambda>x. c_machine_id x = c_machine_id c \<or> c_lease_id x = c_lease_id c) (fork_children s)
      then Inl (DbError ''machine_fork_children unique constraint'')
      else Inr (s\<lparr>fork_children := fork_children s @ [c]\<rparr>))"

text \<open>An event inserted without \<open>ON CONFLICT\<close>.\<close>

definition insert_event_strict :: "event_row \<Rightarrow> fleet \<Rightarrow> error + fleet" where
  "insert_event_strict e s =
     (if e_key e \<in> set (map e_key (machine_events s)) then Inl (DbError ''machine_events_event_key_key'')
      else Inr (insert_event e s))"

definition fork_allocated_event :: "uuid \<Rightarrow> machine_row \<Rightarrow> string \<Rightarrow> event_row" where
  "fork_allocated_event op src machineId =
     \<lparr>e_key = machineId @ '':fork-allocated'', e_machine_id = machineId, e_organization_id = m_organization_id src,
      e_from_state = None, e_to_state = Starting, e_reason = None, e_observed_by = ''control-plane'',
      e_metadata = [(''fork_operation_id'', op), (''parent_machine_id'', m_id src)]\<rparr>"

text \<open>The loop over the ordinals; each draws a machine id and a lease id.\<close>

fun insert_children ::
    "(string \<Rightarrow> string) \<Rightarrow> uuid \<Rightarrow> machine_row \<Rightarrow> string \<Rightarrow> time \<Rightarrow> nat \<Rightarrow> (string \<times> uuid) list \<Rightarrow> fleet \<Rightarrow> error + fleet" where
  "insert_children sha256 op src hash now ordinal [] s = Inr s"
| "insert_children sha256 op src hash now ordinal ((machineId, leaseId) # fresh) s =
     (case insert_machine (child_machine_row sha256 op src hash ordinal machineId leaseId now) s of
        Inl e \<Rightarrow> Inl e
      | Inr s1 \<Rightarrow>
     (case insert_child \<lparr>c_operation_id = op, c_ordinal = ordinal, c_machine_id = machineId, c_lease_id = leaseId\<rparr> s1 of
        Inl e \<Rightarrow> Inl e
      | Inr s2 \<Rightarrow>
     (case insert_event_strict (fork_allocated_event op src machineId) s2 of
        Inl e \<Rightarrow> Inl e
      | Inr s3 \<Rightarrow> insert_children sha256 op src hash now (Suc ordinal) fresh s3)))"

record fork_request =
  fq_sourceMachineId :: string
  fq_organizationId :: uuid
  fq_projectId :: uuid
  fq_idempotencyKey :: string
  fq_requestHash :: string
  fq_count :: int
  fq_auditOperationId :: uuid

text \<open>What the code draws at random: the operation's id and the ids of as many children.\<close>

record fork_draw =
  dr_operationId :: uuid
  dr_children :: "nat \<Rightarrow> string \<times> uuid"

definition forkable :: "time \<Rightarrow> host_row \<Rightarrow> machine_row \<Rightarrow> bool" where
  "forkable now h src \<longleftrightarrow> m_state src = Running \<and> m_ready src \<and> present (m_host_id src) \<and> h_address h \<noteq> [] \<and>
     present (m_host_machine_id src) \<and> present (m_runtime_cohort_id src) \<and> present (m_source_sha256 src) \<and>
     remaining_seconds now src \<ge> 15"

definition beginFork ::
    "js_net \<Rightarrow> (string \<Rightarrow> string) \<Rightarrow> (numeric13 \<Rightarrow> numeric13) \<Rightarrow> admission_policy \<Rightarrow> fork_draw \<Rightarrow> fork_request \<Rightarrow> time \<Rightarrow>
     fork_operation option tx" where
  "beginFork net sha256 pgdiv1024 policy draw rq now s =
     (case find (\<lambda>x. o_id x = fq_organizationId rq) (organizations s) of
        None \<Rightarrow> Inr (None, s)
      | Some org \<Rightarrow>
     (case find (\<lambda>p. p_id p = fq_projectId rq \<and> p_organization_id p = fq_organizationId rq) (projects s) of
        None \<Rightarrow> Inr (None, s)
      | Some project \<Rightarrow>
     (case find (\<lambda>m. m_id m = fq_sourceMachineId rq \<and> m_organization_id m = fq_organizationId rq \<and>
          m_project_id m = fq_projectId rq) (machines s) of
        None \<Rightarrow> Inr (None, s)
      | Some src \<Rightarrow>
     (case find (\<lambda>h. Some (h_id h) = m_host_id src) (hosts s) of
        None \<Rightarrow> Inr (None, s)
      | Some h \<Rightarrow>
     (case find (\<lambda>f. f_organization_id f = fq_organizationId rq \<and> f_project_id f = fq_projectId rq \<and>
          f_source_machine_id f = fq_sourceMachineId rq \<and> f_idempotency_key f = fq_idempotencyKey rq) (fork_ops s) of
        Some f \<Rightarrow> (case loadForkOperation net (f_id f) True now s of Inl e \<Rightarrow> Inl e | Inr r \<Rightarrow> Inr (r, s))
      | None \<Rightarrow>
          (let count = fq_count rq; needed = rscale count (m_resources src);
               committedSeconds = max (remaining_seconds now src) 0 * count in
           if \<not> forkable now h src
           then Inl (MachineNotForkable ''The source machine must be current, ready, and live.'')
           else if \<not> host_accepting now h
           then Inl (CapacityUnavailable ''The source host is not accepting new fork children.'')
           else if quota_exceeded (used_machines (\<lambda>m. m_organization_id m = fq_organizationId rq) s)
               (used_resources (\<lambda>m. m_organization_id m = fq_organizationId rq) s)
               (o_max_machines org) (o_max org) count needed
           then Inl (QuotaExceeded ''Organization machine quota would be exceeded.'')
           else if quota_exceeded (used_machines (\<lambda>m. m_project_id m = fq_projectId rq) s)
               (used_resources (\<lambda>m. m_project_id m = fq_projectId rq) s)
               (p_max_machines project) (p_max project) count needed
           then Inl (QuotaExceeded ''Project machine quota would be exceeded.'')
           else case enforce pgdiv1024 policy s (fq_organizationId rq)
               \<lparr>bd_vcpuSeconds = Some (committedSeconds * vcpus (m_resources src)),
                bd_memoryMebibyteSeconds = Some (committedSeconds * memoryMb (m_resources src)),
                bd_storageByteSeconds = None\<rparr> now of
             Some e \<Rightarrow> Inl e
           | None \<Rightarrow>
               (if \<not> host_has_room h needed
                then Inl (CapacityUnavailable ''The source host cannot fit the entire fork batch.'')
                else case insert_fork (fork_row_of (dr_operationId draw) (fq_auditOperationId rq) src
                    (fq_idempotencyKey rq) (fq_requestHash rq) count now) s of
                  Inl e \<Rightarrow> Inl e
                | Inr s1 \<Rightarrow>
               (case insert_children sha256 (dr_operationId draw) src (fq_requestHash rq) now 0
                    (map (dr_children draw) [0..<nat count]) s1 of
                  Inl e \<Rightarrow> Inl e
                | Inr s2 \<Rightarrow>
               (case add_reserved (h_id h) needed s2 of
                  Inl e \<Rightarrow> Inl e
                | Inr s3 \<Rightarrow>
               (case loadForkOperation net (dr_operationId draw) False now s3 of
                  Inl e \<Rightarrow> Inl e
                | Inr r \<Rightarrow> Inr (r, s3)))))))))))"


section \<open>The terminal audit record\<close>

text \<open>\<open>a || b\<close> on jsonb objects: the right side's keys win.\<close>

definition jsonb_merge :: "(string \<times> json) list \<Rightarrow> (string \<times> json) list \<Rightarrow> (string \<times> json) list" where
  "jsonb_merge a b = filter (\<lambda>kv. fst kv \<notin> set (map fst b)) a @ b"

definition recordForkTerminalAudit :: "uuid \<Rightarrow> string \<Rightarrow> string option \<Rightarrow> fleet \<Rightarrow> fleet" where
  "recordForkTerminalAudit op outcome reasonCode s =
     (case find (\<lambda>f. f_id f = op) (fork_ops s) of
        None \<Rightarrow> s
      | Some f \<Rightarrow>
          (let requested = find (\<lambda>a. a_operation_id a = Some (f_audit_operation_id f) \<and> a_action a = ''machine.fork'' \<and>
                 a_outcome a = ''requested'') (audit_events s);
               key = ''audit:fork:'' @ op @ '':terminal'' in
           if key \<in> set (map a_key (audit_events s)) then s
           else s\<lparr>audit_events := audit_events s @
             [\<lparr>a_key = key, a_operation_id = Some (f_audit_operation_id f), a_organization_id = Some (f_organization_id f),
               a_project_id = Some (f_project_id f),
               a_actor_type = (case requested of None \<Rightarrow> ''system'' | Some a \<Rightarrow> a_actor_type a),
               a_actor_id = Option.bind requested a_actor_id, a_action = ''machine.fork'', a_outcome = outcome,
               a_reason_code = reasonCode, a_resource_type = ''machine'', a_resource_id = f_source_machine_id f,
               a_request_id = Option.bind requested a_request_id, a_user_agent = Option.bind requested a_user_agent,
               a_metadata = jsonb_merge (case requested of None \<Rightarrow> [] | Some a \<Rightarrow> a_metadata a)
                 [(''fork_operation_id'', JStr op),
                  (''child_ids'', JArr (map (\<lambda>c. JStr (c_machine_id c)) (children_of s op))),
                  (''state'', JStr outcome)]\<rparr>]\<rparr>))"

section \<open>Completion\<close>

definition batch_failed :: "string \<Rightarrow> error" where
  "batch_failed message = HostRequestError None message True None"

text \<open>\<open>byPublicId.get(id)\<close>: the last observation with that id.\<close>

definition by_public_id :: "host_machine list \<Rightarrow> string \<Rightarrow> host_machine option" where
  "by_public_id observed i = find (\<lambda>hm. hm_meta hm ''public_machine_id'' = Some i) (rev observed)"

definition batch_shape_ok :: "nat \<Rightarrow> host_machine list \<Rightarrow> bool" where
  "batch_shape_ok n observed \<longleftrightarrow>
     length (remdups (map (\<lambda>hm. hm_meta hm ''public_machine_id'') observed)) = n \<and> length observed = n \<and>
     length (remdups (map hm_id observed)) = n \<and> \<not> list_ex (\<lambda>hm. hm_id hm = []) observed"

definition check_fork_child ::
    "js_net \<Rightarrow> fork_row \<Rightarrow> host_machine list \<Rightarrow> child_row \<times> machine_row \<Rightarrow> error option" where
  "check_fork_child net f observed c =
     (let mismatch = batch_failed ''host fork child identity or descriptor did not match''; m = snd c in
      case by_public_id observed (c_machine_id (fst c)) of
        None \<Rightarrow> Some mismatch
      | Some hm \<Rightarrow>
          (if hm_lease_id hm \<noteq> Some (c_lease_id (fst c)) \<or>
              hm_meta hm ''parent_machine_id'' \<noteq> Some (f_source_machine_id f) \<or>
              hm_meta hm ''fork_operation_id'' \<noteq> Some (f_id f) \<or>
              \<not> (m_host_machine_id m = None \<or> m_host_machine_id m = Some (hm_id hm)) \<or>
              hm_resources hm \<noteq> Some (m_resources m)
           then Some mismatch
           else case canonical_policy net (decl_json (m_network_policy m)) of
               Inl e \<Rightarrow> Some (PlainError e)
             | Inr policy \<Rightarrow>
                 (if observed_policy net hm \<noteq> Some policy \<or> date_ms (hm_expires_at hm) \<noteq> Some (m_expires_at m)
                  then Some mismatch else None)))"

fun check_fork_children ::
    "js_net \<Rightarrow> fork_row \<Rightarrow> host_machine list \<Rightarrow> (child_row \<times> machine_row) list \<Rightarrow> error option" where
  "check_fork_children net f observed [] = None"
| "check_fork_children net f observed (c # cs) =
     (case check_fork_child net f observed c of
        Some e \<Rightarrow> Some e
      | None \<Rightarrow> check_fork_children net f observed cs)"

definition all_ready :: "host_machine list \<Rightarrow> bool" where
  "all_ready observed = list_all (\<lambda>hm. hm_ready hm \<and> hm_status hm = ''running'') observed"

definition complete_child_row ::
    "bool \<Rightarrow> string \<Rightarrow> time option \<Rightarrow> time option \<Rightarrow> time \<Rightarrow> machine_row \<Rightarrow> machine_row" where
  "complete_child_row allReady hostMachineId started readyAt now m =
     m\<lparr>m_host_machine_id := Some hostMachineId, m_state := (if allReady then Running else m_state m),
       m_ready := allReady, m_started_at := coalesce (m_started_at m) (coalesce started (Some now)),
       m_ready_at := (if allReady then coalesce (m_ready_at m) (coalesce readyAt (Some now)) else None),
       m_state_reason := None\<rparr>"

definition fork_ready_event :: "uuid \<Rightarrow> string \<Rightarrow> event_row" where
  "fork_ready_event org i =
     \<lparr>e_key = i @ '':fork-ready'', e_machine_id = i, e_organization_id = org, e_from_state = Some Starting,
      e_to_state = Running, e_reason = None, e_observed_by = ''control-plane'', e_metadata = []\<rparr>"

definition complete_child ::
    "fork_row \<Rightarrow> bool \<Rightarrow> host_machine list \<Rightarrow> time \<Rightarrow> child_row \<Rightarrow> fleet \<Rightarrow> error + fleet" where
  "complete_child f allReady observed now c s =
     (case by_public_id observed (c_machine_id c) of
        None \<Rightarrow> Inl no_body
      | Some hm \<Rightarrow>
     (case (date_param (hm_started_at hm), date_param (hm_ready_at hm)) of
        (Inl e, _) \<Rightarrow> Inl e
      | (_, Inl e) \<Rightarrow> Inl e
      | (Inr started, Inr readyAt) \<Rightarrow>
          (let target = (\<lambda>m. m_id m = c_machine_id c \<and> m_lease_id m = c_lease_id c \<and>
                 m_fork_operation_id m = Some (f_id f) \<and> m_state m = Starting) in
           case update_machines target (complete_child_row allReady (hm_id hm) started readyAt now) s of
             Inl e \<Rightarrow> Inl e
           | Inr s1 \<Rightarrow>
               (if \<not> list_ex target (machines s) then Inl (PlainError ''fork child could not be completed'')
                else Inr (if allReady then insert_event (fork_ready_event (f_organization_id f) (c_machine_id c)) s1
                          else s1)))))"

fun complete_children ::
    "fork_row \<Rightarrow> bool \<Rightarrow> host_machine list \<Rightarrow> time \<Rightarrow> child_row list \<Rightarrow> fleet \<Rightarrow> error + fleet" where
  "complete_children f allReady observed now [] s = Inr s"
| "complete_children f allReady observed now (c # cs) s =
     (case complete_child f allReady observed now c s of
        Inl e \<Rightarrow> Inl e
      | Inr s1 \<Rightarrow> complete_children f allReady observed now cs s1)"

definition succeed_fork :: "uuid \<Rightarrow> time \<Rightarrow> fleet \<Rightarrow> error + fleet" where
  "succeed_fork op now =
     update_forks (\<lambda>f. f_id f = op \<and> f_state f = Pending)
       (\<lambda>f. f\<lparr>f_state := Succeeded, f_completed_at := Some now, f_reconcile_claim_token := None,
              f_reconcile_claimed_until := None\<rparr>)"

definition completeForkTx :: "js_net \<Rightarrow> uuid \<Rightarrow> host_machine list \<Rightarrow> time \<Rightarrow> fleet \<Rightarrow> error + fleet" where
  "completeForkTx net op observed now s =
     (case find (\<lambda>f. f_id f = op) (fork_ops s) of
        None \<Rightarrow> Inl (PlainError ''fork operation disappeared while completing'')
      | Some f \<Rightarrow>
          (if f_state f \<noteq> Pending \<or> f_cleanup_requested_at f \<noteq> None then Inr s
           else
             (let expected = child_machines s op in
              if \<not> batch_shape_ok (length expected) observed
              then Inl (batch_failed ''host fork response did not contain the full batch'')
              else case check_fork_children net f observed expected of
                  Some e \<Rightarrow> Inl e
                | None \<Rightarrow>
                    (case complete_children f (all_ready observed) observed now (map fst expected) s of
                       Inl e \<Rightarrow> Inl e
                     | Inr s1 \<Rightarrow>
                         (if \<not> all_ready observed then Inr s1
                          else case succeed_fork op now s1 of
                              Inl e \<Rightarrow> Inl e
                            | Inr s2 \<Rightarrow> Inr (recordForkTerminalAudit op ''succeeded'' None s2))))))"

text \<open>
  The operations below run their transaction and read the operation back outside it:
  \<open>(await this.loadForkOperation(...))!\<close>. What was committed stays even if the read fails.
\<close>

definition reload :: "js_net \<Rightarrow> uuid \<Rightarrow> time \<Rightarrow> fleet \<Rightarrow> error + fork_operation" where
  "reload net op now s =
     (case loadForkOperation net op True now s of
        Inl e \<Rightarrow> Inl e | Inr None \<Rightarrow> Inl no_body | Inr (Some fo) \<Rightarrow> Inr fo)"

definition completeFork :: "js_net \<Rightarrow> uuid \<Rightarrow> host_machine list \<Rightarrow> time \<Rightarrow> fork_operation svc" where
  "completeFork net op observed now s =
     (case completeForkTx net op observed now s of
        Inl e \<Rightarrow> (Inl e, s)
      | Inr s' \<Rightarrow> (reload net op now s', s'))"

section \<open>Failure\<close>

definition fail_child_row :: "string \<Rightarrow> time \<Rightarrow> machine_row \<Rightarrow> machine_row" where
  "fail_child_row message now m =
     m\<lparr>m_state := Failed, m_state_reason := Some message, m_ready := False, m_ready_at := None,
       m_stopped_at := Some now, m_reservation_released_at := Some now\<rparr>"

definition fork_failed_event :: "uuid \<Rightarrow> string \<Rightarrow> machine_row \<Rightarrow> event_row" where
  "fork_failed_event org message m =
     \<lparr>e_key = m_id m @ '':fork-failed'', e_machine_id = m_id m, e_organization_id = org,
      e_from_state = Some (m_state m), e_to_state = Failed, e_reason = Some message,
      e_observed_by = ''control-plane'', e_metadata = []\<rparr>"

definition live_child :: "uuid \<Rightarrow> machine_row \<Rightarrow> bool" where
  "live_child op m \<longleftrightarrow> m_fork_operation_id m = Some op \<and> m_state m \<in> {Starting, Running}"

text \<open>The statements \<open>failFork\<close> and \<open>completeForkCleanup\<close> share: sum, fail the children, give back.\<close>

definition fail_children :: "uuid \<Rightarrow> uuid \<Rightarrow> uuid \<Rightarrow> string \<Rightarrow> time \<Rightarrow> fleet \<Rightarrow> error + fleet" where
  "fail_children op org host message now s =
     (let totals = sum_list (map m_resources (filter (\<lambda>m. m_fork_operation_id m = Some op) (machines s))) in
      case update_machines (live_child op) (fail_child_row message now) s of
        Inl e \<Rightarrow> Inl e
      | Inr s1 \<Rightarrow>
          sub_reserved host totals
            (fold (\<lambda>m. insert_event (fork_failed_event org message m)) (filter (live_child op) (machines s)) s1))"

definition fail_fork_row :: "int option \<Rightarrow> string option \<Rightarrow> string option \<Rightarrow> time \<Rightarrow> fork_row \<Rightarrow> fork_row" where
  "fail_fork_row status code message now f =
     f\<lparr>f_state := ForkFailed, f_failure_status := status, f_failure_code := code, f_failure_message := message,
       f_completed_at := Some now, f_reconcile_claim_token := None, f_reconcile_claimed_until := None,
       f_cleanup_claim_token := None, f_cleanup_claimed_until := None\<rparr>"

definition failForkTx :: "uuid \<Rightarrow> int \<Rightarrow> string \<Rightarrow> string \<Rightarrow> time \<Rightarrow> fleet \<Rightarrow> error + fleet" where
  "failForkTx op status code message now s =
     (case find (\<lambda>f. f_id f = op) (fork_ops s) of
        None \<Rightarrow> Inl (PlainError ''fork operation disappeared while failing'')
      | Some f \<Rightarrow>
          (if f_state f \<noteq> Pending \<or> f_cleanup_requested_at f \<noteq> None then Inr s
           else case fail_children op (f_organization_id f) (f_source_host_id f) message now s of
               Inl e \<Rightarrow> Inl e
             | Inr s1 \<Rightarrow>
                 (case update_forks (\<lambda>f. f_id f = op \<and> f_state f = Pending)
                     (fail_fork_row (Some status) (Some code) (Some message) now) s1 of
                    Inl e \<Rightarrow> Inl e
                  | Inr s2 \<Rightarrow> Inr (recordForkTerminalAudit op ''failed'' (Some code) s2))))"

definition failFork :: "js_net \<Rightarrow> uuid \<Rightarrow> int \<Rightarrow> string \<Rightarrow> string \<Rightarrow> time \<Rightarrow> fork_operation svc" where
  "failFork net op status code message now s =
     (case failForkTx op status code message now s of
        Inl e \<Rightarrow> (Inl e, s)
      | Inr s' \<Rightarrow> (reload net op now s', s'))"

section \<open>Cleanup\<close>

definition cleanup_claimable :: "uuid \<Rightarrow> time \<Rightarrow> fork_row \<Rightarrow> bool" where
  "cleanup_claimable op now f \<longleftrightarrow> f_id f = op \<and> f_state f = Pending \<and>
     (f_cleanup_claim_token f = None \<or>
      (case f_cleanup_claimed_until f of None \<Rightarrow> False | Some t \<Rightarrow> t \<le> now))"

text \<open>The transaction of \<open>requestForkCleanup\<close>; its answer is the claim it got, if any.\<close>

definition requestForkCleanupTx ::
    "uuid \<Rightarrow> uuid \<Rightarrow> int \<Rightarrow> string \<Rightarrow> string \<Rightarrow> time \<Rightarrow> uuid option tx" where
  "requestForkCleanupTx token op status code message now s =
     (case find (\<lambda>f. f_id f = op) (fork_ops s) of
        None \<Rightarrow> Inl (PlainError ''fork operation disappeared while requesting cleanup'')
      | Some f \<Rightarrow>
          (if f_state f \<noteq> Pending then Inr (None, s)
           else case update_forks (\<lambda>f. f_id f = op \<and> f_state f = Pending \<and> f_cleanup_requested_at f = None)
               (\<lambda>f. f\<lparr>f_cleanup_requested_at := Some now, f_cleanup_failure_status := Some status,
                      f_cleanup_failure_code := Some code, f_cleanup_failure_message := Some message,
                      f_reconcile_after := now\<rparr>) s of
               Inl e \<Rightarrow> Inl e
             | Inr s1 \<Rightarrow>
                 (case update_forks (cleanup_claimable op now)
                     (\<lambda>f. f\<lparr>f_cleanup_claim_token := Some token, f_cleanup_claimed_until := Some (now + minutes 5)\<rparr>) s1 of
                    Inl e \<Rightarrow> Inl e
                  | Inr s2 \<Rightarrow> Inr (if list_ex (cleanup_claimable op now) (fork_ops s1) then Some token else None, s2))))"

definition requestForkCleanup ::
    "js_net \<Rightarrow> uuid \<Rightarrow> uuid \<Rightarrow> int \<Rightarrow> string \<Rightarrow> string \<Rightarrow> time \<Rightarrow> fork_operation svc" where
  "requestForkCleanup net token op status code message now s =
     (case requestForkCleanupTx token op status code message now s of
        Inl e \<Rightarrow> (Inl e, s)
      | Inr (claimed, s') \<Rightarrow>
          (case reload net op now s' of
             Inl e \<Rightarrow> (Inl e, s')
           | Inr fo \<Rightarrow> (Inr (fo\<lparr>fo_cleanupClaimToken := (if present claimed then claimed else None)\<rparr>), s')))"

definition releaseForkCleanupClaim :: "uuid \<Rightarrow> uuid \<Rightarrow> time \<Rightarrow> fleet \<Rightarrow> error + fleet" where
  "releaseForkCleanupClaim op token now =
     update_forks (\<lambda>f. f_id f = op \<and> f_state f = Pending \<and> f_cleanup_claim_token f = Some token)
       (\<lambda>f. f\<lparr>f_cleanup_claim_token := None, f_cleanup_claimed_until := None, f_reconcile_after := now + seconds 15\<rparr>)"

definition completeForkCleanupTx :: "uuid \<Rightarrow> uuid \<Rightarrow> time \<Rightarrow> fleet \<Rightarrow> error + fleet" where
  "completeForkCleanupTx op token now s =
     (case find (\<lambda>f. f_id f = op) (fork_ops s) of
        None \<Rightarrow> Inl (PlainError ''fork operation disappeared while completing cleanup'')
      | Some f \<Rightarrow>
          (if f_state f \<noteq> Pending then Inr s
           else if f_cleanup_claim_token f \<noteq> Some token \<or> f_cleanup_failure_status f = None \<or>
             f_cleanup_failure_code f = None \<or> f_cleanup_failure_message f = None
           then Inr s
           else case fail_children op (f_organization_id f) (f_source_host_id f)
               (the (f_cleanup_failure_message f)) now s of
               Inl e \<Rightarrow> Inl e
             | Inr s1 \<Rightarrow>
                 (case update_forks (\<lambda>f. f_id f = op \<and> f_state f = Pending \<and> f_cleanup_claim_token f = Some token)
                     (fail_fork_row (f_cleanup_failure_status f) (f_cleanup_failure_code f)
                       (f_cleanup_failure_message f) now) s1 of
                    Inl e \<Rightarrow> Inl e
                  | Inr s2 \<Rightarrow> Inr (recordForkTerminalAudit op ''failed'' (f_cleanup_failure_code f) s2))))"

definition completeForkCleanup :: "js_net \<Rightarrow> uuid \<Rightarrow> uuid \<Rightarrow> time \<Rightarrow> fork_operation svc" where
  "completeForkCleanup net op token now s =
     (case completeForkCleanupTx op token now s of
        Inl e \<Rightarrow> (Inl e, s)
      | Inr s' \<Rightarrow> (reload net op now s', s'))"

section \<open>Claims of the reconciler\<close>

definition fork_due :: "uuid list \<Rightarrow> time \<Rightarrow> fork_row \<Rightarrow> bool" where
  "fork_due locked now f \<longleftrightarrow> f_state f = Pending \<and> f_reconcile_after f \<le> now \<and>
     (case f_reconcile_claimed_until f of None \<Rightarrow> True | Some t \<Rightarrow> t \<le> now) \<and> f_id f \<notin> set locked"

definition due_forks :: "uuid list \<Rightarrow> int \<Rightarrow> time \<Rightarrow> fleet \<Rightarrow> uuid list" where
  "due_forks locked limit now s =
     map f_id (take (nat (min (max limit 1) 100))
       (sort_by (\<lambda>a b. if f_reconcile_after a \<noteq> f_reconcile_after b
            then cmp_of (f_reconcile_after a) (f_reconcile_after b) else cmp_of (f_created_at a) (f_created_at b))
         (filter (fork_due locked now) (fork_ops s))))"

definition claimPendingForksTx :: "uuid list \<Rightarrow> uuid \<Rightarrow> int \<Rightarrow> time \<Rightarrow> uuid list tx" where
  "claimPendingForksTx locked token limit now s =
     (let ids = due_forks locked limit now s in
      case update_forks (\<lambda>f. f_id f \<in> set ids)
          (\<lambda>f. f\<lparr>f_reconcile_claim_token := Some token, f_reconcile_claimed_until := Some (now + minutes 5),
                 f_reconcile_after := now + seconds 30\<rparr>) s of
        Inl e \<Rightarrow> Inl e
      | Inr s' \<Rightarrow> Inr (ids, s'))"

fun load_forks :: "js_net \<Rightarrow> time \<Rightarrow> fleet \<Rightarrow> uuid list \<Rightarrow> error + fork_operation list" where
  "load_forks net now s [] = Inr []"
| "load_forks net now s (i # is) =
     (case loadForkOperation net i True now s of
        Inl e \<Rightarrow> Inl e
      | Inr r \<Rightarrow> (case load_forks net now s is of
            Inl e \<Rightarrow> Inl e
          | Inr fs \<Rightarrow> Inr (case r of None \<Rightarrow> fs | Some f \<Rightarrow> f # fs)))"

definition claimPendingForks :: "js_net \<Rightarrow> uuid list \<Rightarrow> uuid \<Rightarrow> int \<Rightarrow> time \<Rightarrow> fork_operation list svc" where
  "claimPendingForks net locked token limit now s =
     (case claimPendingForksTx locked token limit now s of
        Inl e \<Rightarrow> (Inl e, s)
      | Inr (ids, s') \<Rightarrow> (load_forks net now s' ids, s'))"

definition releaseForkClaim :: "uuid \<Rightarrow> uuid \<Rightarrow> bool \<Rightarrow> time \<Rightarrow> fleet \<Rightarrow> error + fleet" where
  "releaseForkClaim op token failed now =
     update_forks (\<lambda>f. f_id f = op \<and> f_reconcile_claim_token f = Some token)
       (\<lambda>f. f\<lparr>f_reconcile_claim_token := None, f_reconcile_claimed_until := None,
              f_reconcile_after := (if failed then now + seconds 30 else f_reconcile_after f)\<rparr>)"


section \<open>The operations keep the fleet consistent\<close>

lemma recordForkTerminalAudit_frame [simp, frame]:
  "machines (recordForkTerminalAudit op out r s) = machines s" "hosts (recordForkTerminalAudit op out r s) = hosts s"
  "fork_ops (recordForkTerminalAudit op out r s) = fork_ops s"
  "extend_ops (recordForkTerminalAudit op out r s) = extend_ops s"
  "fork_children (recordForkTerminalAudit op out r s) = fork_children s"
  by (auto simp: recordForkTerminalAudit_def Let_def split: option.splits)

lemma inv_audit [simp]: "fleet_inv (recordForkTerminalAudit op out r s) = fleet_inv s"
  by (rule fleet_inv_cong) simp_all

lemma le_audit [simp]: "fleet_le t (recordForkTerminalAudit op out r s) = fleet_le t s"
  by (simp add: fleet_le_def)

lemma fold_events_frame [simp, frame]:
  "machines (fold (\<lambda>m. insert_event (e m)) ms s) = machines s" "hosts (fold (\<lambda>m. insert_event (e m)) ms s) = hosts s"
  "fork_ops (fold (\<lambda>m. insert_event (e m)) ms s) = fork_ops s"
  "extend_ops (fold (\<lambda>m. insert_event (e m)) ms s) = extend_ops s"
  by (induction ms arbitrary: s) simp_all

subsection \<open>Updates of the operation only\<close>

text \<open>A claim on an operation: its identity and state stay.\<close>

lemma inv_fork_claim:
  assumes "fleet_inv s" and "update_forks P f s = Inr s'"
    and "\<And>r. f_id (f r) = f_id r \<and> f_source_host_id (f r) = f_source_host_id r \<and> f_state (f r) = f_state r"
  shows "fleet_inv s' \<and> fleet_le s s'"
  using inv_update_forks [OF assms(1,2)] le_update_forks [OF assms(2)] assms(3) by (simp add: fork_le_def)

lemma inv_requestForkCleanup:
  assumes inv: "fleet_inv s" and ok: "requestForkCleanupTx token op status code message now s = Inr (t, s')"
  shows "fleet_inv s' \<and> fleet_le s s'"
proof (cases "s' = s")
  case True
  with inv show ?thesis by simp
next
  case False
  with ok obtain s1 where
      a: "update_forks (\<lambda>f. f_id f = op \<and> f_state f = Pending \<and> f_cleanup_requested_at f = None)
        (\<lambda>f. f\<lparr>f_cleanup_requested_at := Some now, f_cleanup_failure_status := Some status,
           f_cleanup_failure_code := Some code, f_cleanup_failure_message := Some message,
           f_reconcile_after := now\<rparr>) s = Inr s1"
      and b: "update_forks (cleanup_claimable op now)
        (\<lambda>f. f\<lparr>f_cleanup_claim_token := Some token, f_cleanup_claimed_until := Some (now + minutes 5)\<rparr>) s1 = Inr s'"
    by (auto simp: requestForkCleanupTx_def split: option.splits if_splits sum.splits)
  have "fleet_inv s1 \<and> fleet_le s s1" by (rule inv_fork_claim [OF inv a]) simp
  moreover from this have "fleet_inv s' \<and> fleet_le s1 s'" by (intro inv_fork_claim [OF _ b]) simp_all
  ultimately show ?thesis using fleet_le_trans by blast
qed

lemma inv_releaseForkCleanupClaim:
  "fleet_inv s \<Longrightarrow> releaseForkCleanupClaim op token now s = Inr s' \<Longrightarrow> fleet_inv s' \<and> fleet_le s s'"
  unfolding releaseForkCleanupClaim_def by (erule (1) inv_fork_claim) simp

lemma inv_claimPendingForks:
  assumes inv: "fleet_inv s" and ok: "claimPendingForksTx locked token limit now s = Inr (ids, s')"
  shows "fleet_inv s' \<and> fleet_le s s'"
proof -
  from ok have up: "update_forks (\<lambda>f. f_id f \<in> set ids)
      (\<lambda>f. f\<lparr>f_reconcile_claim_token := Some token, f_reconcile_claimed_until := Some (now + minutes 5),
         f_reconcile_after := now + seconds 30\<rparr>) s = Inr s'"
    by (auto simp: claimPendingForksTx_def Let_def split: sum.splits)
  show ?thesis by (rule inv_fork_claim [OF inv up]) simp
qed

lemma inv_releaseForkClaim:
  "fleet_inv s \<Longrightarrow> releaseForkClaim op token failed now s = Inr s' \<Longrightarrow> fleet_inv s' \<and> fleet_le s s'"
  unfolding releaseForkClaim_def by (erule (1) inv_fork_claim) simp


subsection \<open>Completion\<close>

text \<open>Deciding an operation frees its children from the pending discipline.\<close>

definition decide :: "uuid \<Rightarrow> fleet \<Rightarrow> fork_row list \<Rightarrow> bool" where
  "decide op s fs \<longleftrightarrow> (\<exists>P f. fs = sql_update P f (fork_ops s) \<and>
     (\<forall>r\<in>set (fork_ops s). f_id r = op \<and> f_state r = Pending \<longrightarrow> P r) \<and>
     (\<forall>r. P r \<longrightarrow> f_id r = op \<and> f_state r = Pending \<and> f_state (f r) \<noteq> Pending \<and> f_id (f r) = f_id r \<and>
        f_source_host_id (f r) = f_source_host_id r))"

lemma decide_inv:
  assumes inv: "fleet_inv s" and d: "decide op s fs"
  shows "fleet_inv (s\<lparr>fork_ops := fs\<rparr>)" "covers fork_le (fork_ops s) fs"
    "\<And>m. m_fork_operation_id m = Some op \<Longrightarrow> \<not> pending_child (s\<lparr>fork_ops := fs\<rparr>) m"
    "map f_id fs = map f_id (fork_ops s)"
proof -
  from d obtain P f where fs: "fs = sql_update P f (fork_ops s)"
      and all: "\<And>r. r \<in> set (fork_ops s) \<Longrightarrow> f_id r = op \<Longrightarrow> f_state r = Pending \<Longrightarrow> P r"
      and k: "\<And>r. P r \<Longrightarrow> f_id r = op \<and> f_state r = Pending \<and> f_state (f r) \<noteq> Pending \<and> f_id (f r) = f_id r \<and>
        f_source_host_id (f r) = f_source_host_id r"
    unfolding decide_def by blast
  show ids: "map f_id fs = map f_id (fork_ops s)" using k by (simp add: fs map_sql_update)
  show "covers fork_le (fork_ops s) fs"
    unfolding fs by (rule covers_sql_update) (use k in \<open>auto simp: fork_le_def\<close>)
  show "\<not> pending_child (s\<lparr>fork_ops := fs\<rparr>) m" if "m_fork_operation_id m = Some op" for m
    using that k all by (auto simp: pending_child_def list_ex_iff fs elim!: sql_updateE)
  have "f_id ` set fs = f_id ` set (fork_ops s)" using ids by (metis set_map)
  moreover have "child_ok r m" if "r \<in> set fs" "m \<in> set (machines s)" for r m
    using that(1) unfolding fs
  proof (cases rule: sql_updateE)
    case (1 r0)
    with k show ?thesis by (simp add: child_ok_def)
  next
    case 2
    with fleet_invD(8) [OF inv] that(2) show ?thesis by blast
  qed
  ultimately show "fleet_inv (s\<lparr>fork_ops := fs\<rparr>)" using inv ids by (simp add: fleet_inv_def)
qed

lemma complete_children_touch:
  assumes "complete_children f ready observed now cs s = Inr s'"
    and "\<And>m. m_fork_operation_id m = Some (f_id f) \<Longrightarrow> ready \<Longrightarrow> \<not> pending_child t m"
  shows "list_all2 (touch t) (machines s) (machines s') \<and> hosts s' = hosts s \<and> fork_ops s' = fork_ops s \<and>
    extend_ops s' = extend_ops s \<and> fleet_le s s'"
  using assms(1)
proof (induction cs arbitrary: s)
  case Nil
  then show ?case by (simp add: list_all2_refl)
next
  case (Cons c cs)
  from Cons.prems obtain s1 where s1: "complete_child f ready observed now c s = Inr s1"
      and rest: "complete_children f ready observed now cs s1 = Inr s'"
    by (auto split: sum.splits)
  from s1 obtain hid started readyAt s0 where
      up: "update_machines (\<lambda>m. m_id m = c_machine_id c \<and> m_lease_id m = c_lease_id c \<and>
          m_fork_operation_id m = Some (f_id f) \<and> m_state m = Starting)
          (complete_child_row ready hid started readyAt now) s = Inr s0"
      and eq: "machines s1 = machines s0" "hosts s1 = hosts s0" "fork_ops s1 = fork_ops s0" "extend_ops s1 = extend_ops s0"
    by (auto simp: complete_child_def Let_def split: option.splits sum.splits if_splits)
  have "list_all2 (touch t) (machines s) (machines s1)"
    unfolding eq(1) using up
    by (rule update_touch)
      (use assms(2) in \<open>auto simp: same_core_def complete_child_row_def split: if_splits\<close>)
  moreover have "fleet_le s s0"
    using up by (rule le_update_machines)
      (auto simp: row_le_defs complete_child_row_def state_le_def terminal_def)
  moreover have "hosts s0 = hosts s" "fork_ops s0 = fork_ops s" "extend_ops s0 = extend_ops s"
    using up by (elim update_machines_Inr; simp)+
  ultimately show ?case
    using Cons.IH [OF rest] touch_all_trans fleet_le_trans [of s s1 s'] eq
    by (metis fleet_le_cong fleet_le_trans)
qed


lemma decide_update:
  assumes "update_forks (\<lambda>f. f_id f = op \<and> f_state f = Pending \<and> Q f) F s = Inr s'"
    and "\<And>r. f_id (F r) = f_id r \<and> f_source_host_id (F r) = f_source_host_id r \<and> f_state (F r) \<noteq> Pending"
    and "\<And>r. r \<in> set (fork_ops s) \<Longrightarrow> f_id r = op \<Longrightarrow> f_state r = Pending \<Longrightarrow> Q r"
    and "fork_ops t = fork_ops s"
  shows "decide op t (fork_ops s')"
  unfolding decide_def update_forks_Inr [OF assms(1)]
  by (intro exI [of _ "\<lambda>f. f_id f = op \<and> f_state f = Pending \<and> Q f"] exI [of _ F]) (use assms(2-4) in auto)

lemma inv_completeFork:
  assumes inv: "fleet_inv s" and ok: "completeForkTx net op observed now s = Inr s'"
  shows "fleet_inv s' \<and> fleet_le s s'"
proof (cases "s' = s")
  case True
  with inv show ?thesis by simp
next
  case False
  let ?r = "all_ready observed"
  from ok False obtain f s1 cs where f: "f_id f = op"
      and cc: "complete_children f ?r observed now cs s = Inr s1"
      and rest: "if ?r then \<exists>s2. succeed_fork op now s1 = Inr s2 \<and> s' = recordForkTerminalAudit op ''succeeded'' None s2
        else s' = s1"
    by (auto simp: completeForkTx_def Let_def split: option.splits if_splits sum.splits dest!: find_SomeD)
  show ?thesis
  proof (cases ?r)
    case False
    have "list_all2 (touch s) (machines s) (machines s1)" and eq: "hosts s1 = hosts s" "fork_ops s1 = fork_ops s"
        "extend_ops s1 = extend_ops s" and le: "fleet_le s s1"
      using complete_children_touch [OF cc, of s] False by auto
    then have "fleet_inv (s\<lparr>machines := machines s1\<rparr>)" by (intro inv_rows [OF inv refl])
    then have "fleet_inv s1" using fleet_inv_cong [of s1 "s\<lparr>machines := machines s1\<rparr>"] eq by simp
    with le rest False show ?thesis by simp
  next
    case True
    with rest obtain s2 where s2: "succeed_fork op now s1 = Inr s2"
        and s': "s' = recordForkTerminalAudit op ''succeeded'' None s2" by auto
    note s2u = s2 [unfolded succeed_fork_def]
    have fo: "fork_ops s1 = fork_ops s"
      using complete_children_touch [OF cc, of "s\<lparr>fork_ops := []\<rparr>"] by (simp add: pending_child_def)
    have "update_forks (\<lambda>f. f_id f = op \<and> f_state f = Pending \<and> True)
        (\<lambda>f. f\<lparr>f_state := Succeeded, f_completed_at := Some now, f_reconcile_claim_token := None,
           f_reconcile_claimed_until := None\<rparr>) s1 = Inr s2"
      using s2u by simp
    then have d: "decide op s (fork_ops s2)" by (rule decide_update) (simp_all add: fo)
    let ?t = "s\<lparr>fork_ops := fork_ops s2\<rparr>"
    have t: "list_all2 (touch ?t) (machines s) (machines s1)" and eq: "hosts s1 = hosts s"
        "extend_ops s1 = extend_ops s" and le: "fleet_le s s1"
      using complete_children_touch [OF cc, of ?t] decide_inv(3) [OF inv d] f by auto
    have "fleet_inv (?t\<lparr>machines := machines s1\<rparr>)"
      by (rule inv_rows [OF decide_inv(1) [OF inv d] refl]) (use t in simp)
    moreover have "machines s2 = machines s1" "hosts s2 = hosts s1" "extend_ops s2 = extend_ops s1"
      using update_forks_Inr [OF s2u] by simp_all
    ultimately have "fleet_inv s2"
      using fleet_inv_cong [of s2 "?t\<lparr>machines := machines s1\<rparr>"] eq by simp
    moreover have "fleet_le s1 s2"
      using s2u by (rule le_update_forks) (simp add: fork_le_def)
    ultimately show ?thesis using le fleet_le_trans [of s s1 s2] by (simp add: s')
  qed
qed

subsection \<open>Failure\<close>

lemma pending_children_sum:
  assumes inv: "fleet_inv s" and f: "f \<in> set (fork_ops s)" "f_state f = Pending"
    and g: "\<And>m. m \<in> set (machines s) \<Longrightarrow> live_child (f_id f) m \<Longrightarrow>
      m_host_id (g m) = m_host_id m \<and> m_reservation_released_at (g m) \<noteq> None"
  shows "committed k (sql_update (live_child (f_id f)) g (machines s)) = committed k (machines s) +
    (if k = f_source_host_id f
     then - sum_list (map m_resources (filter (\<lambda>m. m_fork_operation_id m = Some (f_id f)) (machines s))) else 0)"
proof -
  let ?ms = "filter (live_child (f_id f)) (machines s)"
  have "live_child (f_id f) m \<longleftrightarrow> m_fork_operation_id m = Some (f_id f)" if "m \<in> set (machines s)" for m
    using fleet_invD(8) [OF inv f(1) that] f(2) by (auto simp: live_child_def child_ok_def)
  then have eq: "filter (\<lambda>m. m_fork_operation_id m = Some (f_id f)) (machines s) = ?ms" by (intro filter_cong) auto
  have w: "weight k (g m) - weight k m = (if k = f_source_host_id f then - m_resources m else 0)"
    if "m \<in> set ?ms" for m
    using that g [of m] fleet_invD(8) [OF inv f(1), of m] f(2)
    by (auto simp: weight_def child_ok_def live_child_def)
  have "sum_list (map (\<lambda>m. weight k (g m) - weight k m) ?ms) =
      sum_list (map (\<lambda>m. if k = f_source_host_id f then - m_resources m else 0) ?ms)"
    by (intro arg_cong [of _ _ sum_list] map_cong refl w)
  also have "\<dots> = (if k = f_source_host_id f then - sum_list (map m_resources ?ms) else 0)"
    by (induction ?ms) (simp_all add: uminus_sum_list_map comp_def)
  finally show ?thesis by (simp add: committed_def sum_list_sql_update eq)
qed


lemma fail_childrenE:
  assumes "fail_children op org H message now s = Inr s1"
    and unreleased: "\<And>m. m \<in> set (machines s) \<Longrightarrow> live_child op m \<Longrightarrow> m_reservation_released_at m = None"
  obtains g where "machines s1 = sql_update (live_child op) g (machines s)"
    and "\<And>m. m \<in> set (machines s) \<Longrightarrow> live_child op m \<Longrightarrow> stored_as (fail_child_row message now m) (g m)"
    and "hosts s1 = sql_update (\<lambda>h. h_id h = H)
      (\<lambda>h. h\<lparr>h_reserved := sub_clamp (h_reserved h)
        (sum_list (map m_resources (filter (\<lambda>m. m_fork_operation_id m = Some op) (machines s))))\<rparr>) (hosts s)"
    and "fork_ops s1 = fork_ops s" and "extend_ops s1 = extend_ops s" and "fleet_le s s1"
proof -
  let ?tot = "sum_list (map m_resources (filter (\<lambda>m. m_fork_operation_id m = Some op) (machines s)))"
  from assms(1) obtain s0 where up: "update_machines (live_child op) (fail_child_row message now) s = Inr s0"
      and sub: "sub_reserved H ?tot (fold (\<lambda>m. insert_event (fork_failed_event org message m))
        (filter (live_child op) (machines s)) s0) = Inr s1" (is "sub_reserved _ _ ?t = _")
    by (auto simp: fail_children_def Let_def split: sum.splits)
  from up obtain g where s0: "s0 = s\<lparr>machines := sql_update (live_child op) g (machines s)\<rparr>"
      and st: "\<And>m. m \<in> set (machines s) \<Longrightarrow> live_child op m \<Longrightarrow> stored_as (fail_child_row message now m) (g m)"
    by (rule update_machines_Inr) blast
  note s1 = update_hosts_Inr(1) [OF sub [unfolded sub_reserved_def]]
  have "fleet_le s s0"
    using up by (rule le_update_machines)
      (use unreleased in \<open>auto simp: row_le_defs fail_child_row_def live_child_def state_le_def terminal_def\<close>)
  moreover have "fleet_le s0 s1" by (rule fleet_le_cong) (simp_all add: s1)
  ultimately have "fleet_le s s1" by (rule fleet_le_trans)
  then show thesis by (rule that [OF _ st _ _ _, rotated -1]) (simp_all add: s1 s0)
qed


lemma inv_fail:
  assumes inv: "fleet_inv s" and f: "f \<in> set (fork_ops s)" "f_state f = Pending"
    and fail: "fail_children (f_id f) org (f_source_host_id f) message now s = Inr s1"
    and up: "update_forks (\<lambda>r. f_id r = f_id f \<and> f_state r = Pending \<and> Q r) F s1 = Inr s2"
    and F: "\<And>r. f_id (F r) = f_id r \<and> f_source_host_id (F r) = f_source_host_id r \<and> f_state (F r) \<noteq> Pending"
    and Q: "Q f"
  shows "fleet_inv s2 \<and> fleet_le s s2"
proof -
  let ?op = "f_id f" and ?H = "f_source_host_id f"
  let ?tot = "sum_list (map m_resources (filter (\<lambda>m. m_fork_operation_id m = Some ?op) (machines s)))"
  let ?f = "\<lambda>h. h\<lparr>h_reserved := sub_clamp (h_reserved h) ?tot\<rparr>"
  note I = fleet_invD [OF inv]
  have kid: "m_state m = Starting" "m_host_id m = Some ?H" "m_reservation_released_at m = None"
    if "m \<in> set (machines s)" "m_fork_operation_id m = Some ?op" for m
    using I(8) [OF f(1) that(1)] f(2) that(2) by (simp_all add: child_ok_def)
  from fail obtain g where ms: "machines s1 = sql_update (live_child ?op) g (machines s)"
      and st: "\<And>m. m \<in> set (machines s) \<Longrightarrow> live_child ?op m \<Longrightarrow> stored_as (fail_child_row message now m) (g m)"
      and hs: "hosts s1 = sql_update (\<lambda>h. h_id h = ?H) ?f (hosts s)"
      and eq: "fork_ops s1 = fork_ops s" "extend_ops s1 = extend_ops s" and le: "fleet_le s s1"
    by (rule fail_childrenE) (use kid in \<open>auto simp: live_child_def\<close>)
  have "r = f" if "r \<in> set (fork_ops s)" "f_id r = ?op" for r
    using fkey.key_unique [OF I(3) that(1) f(1)] that by simp
  then have d: "decide ?op s (fork_ops s2)"
    by (intro decide_update [OF up F]) (use Q eq in auto)
  let ?t = "s\<lparr>fork_ops := fork_ops s2\<rparr>" and ?ms = "sql_update (live_child ?op) g (machines s)"
  note T = decide_inv [OF inv d]
  have sel: "m_id (g m) = m_id m" "m_host_id (g m) = m_host_id m" "m_fork_operation_id (g m) = m_fork_operation_id m"
      "m_state (g m) = Failed" "m_reservation_released_at (g m) = Some now" "machine_check (g m)"
    if "m \<in> set (machines s)" "live_child ?op m" for m
    using stored_as_sel [OF st [OF that]] st [OF that] by (simp_all add: fail_child_row_def stored_as_def)
  have moved: "committed k ?ms = committed k (machines s) + (if k = ?H then - ?tot else 0)" for k
    by (rule pending_children_sum [OF inv f]) (simp add: sel)
  have rows: "x \<in> set (machines s) \<or> (\<exists>m\<in>set (machines s). live_child ?op m \<and> x = g m)" if "x \<in> set ?ms" for x
    using that by (elim sql_updateE) auto
  have ok: "machine_ok x" if "x \<in> set ?ms" for x
    using rows [OF that] I(5) sel by (auto simp: machine_ok_def)
  have nonneg: "0 \<le> ?tot" "?tot \<le> h_reserved h" if "h \<in> set (hosts s)" "h_id h = ?H" for h
  proof -
    show "0 \<le> ?tot" by (rule sum_list_nonneg) (auto simp: machine_ok_resources I(5))
    have "0 \<le> committed ?H ?ms" by (rule committed_nonneg) (rule ok)
    with moved [of ?H] I(4) that show "?tot \<le> h_reserved h" by (auto simp: accounted_def)
  qed
  let ?u = "?t\<lparr>hosts := sql_update (\<lambda>h. h_id h = ?H) ?f (hosts s), machines := ?ms\<rparr>"
  have "fleet_inv ?u"
  proof (rule inv_reservation [OF T(1) refl])
    show "sql_update (\<lambda>h. h_id h = ?H) ?f (hosts s) = sql_update (\<lambda>h. h_id h = ?H) ?f (hosts ?t)" by simp
    show "accounted (sql_update (\<lambda>h. h_id h = ?H) ?f (hosts s)) ?ms"
    proof (rule accounted_shift [OF I(4) moved])
      fix h assume h: "h \<in> set (hosts s)" "h_id h = ?H"
      show "?f h = h\<lparr>h_reserved := h_reserved h + - ?tot\<rparr>" using nonneg [OF h] by (simp add: sub_clamp_exact)
      have "h_reserved h + - ?tot \<le> h_reserved h" using nonneg [OF h] by simp
      also have "\<dots> \<le> h_total h" using h I(4) by (auto simp: accounted_def)
      finally show "h_reserved h + - ?tot \<le> h_total h" .
    qed
    have "map m_id ?ms = map m_id (machines s)"
      unfolding sql_update_def map_map comp_def using sel(1) by (intro map_cong refl) auto
    with I(1) show "distinct (map m_id ?ms)" by simp
    show "opt_ok (\<lambda>h. h \<in> h_id ` set (hosts ?t)) (m_host_id x)" if "x \<in> set ?ms" for x
      using rows [OF that] I(6) sel by (auto simp: opt_ok_def split: option.splits)
    have "f_id ` set (fork_ops s2) = f_id ` set (fork_ops s)" using T(4) by (metis set_map)
    then show "opt_ok (\<lambda>f. f \<in> f_id ` set (fork_ops ?t)) (m_fork_operation_id x)" if "x \<in> set ?ms" for x
      using rows [OF that] I(7) sel by (auto simp: opt_ok_def split: option.splits)
    show "child_ok r x" if "r \<in> set (fork_ops ?t)" "x \<in> set ?ms" for r x
      using rows [OF that(2)]
    proof
      assume "x \<in> set (machines s)"
      with fleet_invD(8) [OF T(1) that(1)] show ?thesis by simp
    next
      assume "\<exists>m\<in>set (machines s). live_child ?op m \<and> x = g m"
      then have "m_fork_operation_id x = Some ?op" using sel by (auto simp: live_child_def)
      with T(3) [of x] pending_childI [OF that(1), of x] show ?thesis by (auto simp: child_ok_def)
    qed
  qed (simp_all add: ok)
  moreover have "machines s2 = ?ms" "hosts s2 = sql_update (\<lambda>h. h_id h = ?H) ?f (hosts s)" "extend_ops s2 = extend_ops s"
    using update_forks_Inr [OF up] ms hs eq by simp_all
  then have "fleet_inv s2 = fleet_inv ?u" by (intro fleet_inv_cong) simp_all
  ultimately have "fleet_inv s2" by (simp only:)
  moreover have "fleet_le s1 s2"
    by (rule le_update_forks [OF up]) (use F in \<open>auto simp: fork_le_def\<close>)
  ultimately show ?thesis using le fleet_le_trans by blast
qed


lemma inv_failFork:
  assumes inv: "fleet_inv s" and ok: "failForkTx op status code message now s = Inr s'"
  shows "fleet_inv s' \<and> fleet_le s s'"
proof (cases "s' = s")
  case True
  with inv show ?thesis by simp
next
  case False
  with ok obtain f s1 s2 where f: "find (\<lambda>f. f_id f = op) (fork_ops s) = Some f" and p: "f_state f = Pending"
      and fail: "fail_children op (f_organization_id f) (f_source_host_id f) message now s = Inr s1"
      and up: "update_forks (\<lambda>f. f_id f = op \<and> f_state f = Pending)
        (fail_fork_row (Some status) (Some code) (Some message) now) s1 = Inr s2"
      and s': "s' = recordForkTerminalAudit op ''failed'' (Some code) s2"
    by (auto simp: failForkTx_def split: option.splits if_splits sum.splits)
  have fm: "f \<in> set (fork_ops s)" "f_id f = op" using find_SomeD [OF f] by auto
  from up have up': "update_forks (\<lambda>r. f_id r = f_id f \<and> f_state r = Pending \<and> True)
      (fail_fork_row (Some status) (Some code) (Some message) now) s1 = Inr s2" using fm by simp
  have "fleet_inv s2 \<and> fleet_le s s2"
    by (rule inv_fail [OF inv fm(1) p fail [folded fm(2)] up']) (simp_all add: fail_fork_row_def)
  then show ?thesis by (simp add: s')
qed

lemma inv_completeForkCleanup:
  assumes inv: "fleet_inv s" and ok: "completeForkCleanupTx op token now s = Inr s'"
  shows "fleet_inv s' \<and> fleet_le s s'"
proof (cases "s' = s")
  case True
  with inv show ?thesis by simp
next
  case False
  with ok obtain f s1 s2 where f: "find (\<lambda>f. f_id f = op) (fork_ops s) = Some f" and p: "f_state f = Pending"
      and tok: "f_cleanup_claim_token f = Some token"
      and fail: "fail_children op (f_organization_id f) (f_source_host_id f) (the (f_cleanup_failure_message f)) now s = Inr s1"
      and up: "update_forks (\<lambda>f. f_id f = op \<and> f_state f = Pending \<and> f_cleanup_claim_token f = Some token)
        (fail_fork_row (f_cleanup_failure_status f) (f_cleanup_failure_code f) (f_cleanup_failure_message f) now) s1 = Inr s2"
      and s': "s' = recordForkTerminalAudit op ''failed'' (f_cleanup_failure_code f) s2"
    by (auto simp: completeForkCleanupTx_def split: option.splits if_splits sum.splits)
  have fm: "f \<in> set (fork_ops s)" "f_id f = op" using find_SomeD [OF f] by auto
  have "fleet_inv s2 \<and> fleet_le s s2"
    by (rule inv_fail [OF inv fm(1) p fail [folded fm(2)] up [folded fm(2)]]) (simp_all add: fail_fork_row_def tok)
  then show ?thesis by (simp add: s')
qed


subsection \<open>Allocation\<close>

definition child_alike :: "uuid \<Rightarrow> machine_row \<Rightarrow> machine_row \<Rightarrow> bool" where
  "child_alike op src r \<longleftrightarrow> machine_check r \<and> m_state r = Starting \<and> m_host_id r = m_host_id src \<and>
     m_resources r = m_resources src \<and> m_reservation_released_at r = None \<and> m_fork_operation_id r = Some op \<and>
     m_organization_id r = m_organization_id src \<and> m_project_id r = m_project_id src"

lemma child_row_alike:
  assumes "stored_as (child_machine_row sha256 op src hash n i l now) r"
  shows "child_alike op src r" "m_id r = i" "m_lease_id r = l"
  using stored_as_sel [OF assms] assms by (simp_all add: child_alike_def child_machine_row_def stored_as_def)

lemma insert_children_Inr:
  assumes "insert_children sha256 op src hash now n fresh s = Inr s'"
  shows "\<exists>rs. machines s' = machines s @ rs \<and> length rs = length fresh \<and> list_all (child_alike op src) rs \<and>
    map m_id rs = map fst fresh \<and> distinct (map m_id rs) \<and> set (map m_id rs) \<inter> set (map m_id (machines s)) = {} \<and>
    hosts s' = hosts s \<and> fork_ops s' = fork_ops s \<and> extend_ops s' = extend_ops s \<and>
    fork_children s' = fork_children s @
      map (\<lambda>(k, (i, l)). \<lparr>c_operation_id = op, c_ordinal = k, c_machine_id = i, c_lease_id = l\<rparr>) (enumerate n fresh)"
  using assms
proof (induction fresh arbitrary: s n)
  case Nil
  then show ?case by simp
next
  case (Cons p fresh)
  obtain i l where p: "p = (i, l)" by fastforce
  from Cons.prems p obtain s1 s2 s3 where
      a: "insert_machine (child_machine_row sha256 op src hash n i l now) s = Inr s1"
      and b: "insert_child \<lparr>c_operation_id = op, c_ordinal = n, c_machine_id = i, c_lease_id = l\<rparr> s1 = Inr s2"
      and c: "insert_event_strict (fork_allocated_event op src i) s2 = Inr s3"
      and rest: "insert_children sha256 op src hash now (Suc n) fresh s3 = Inr s'"
    by (auto split: sum.splits)
  from a obtain r where s1: "s1 = s\<lparr>machines := machines s @ [r]\<rparr>"
      and st: "stored_as (child_machine_row sha256 op src hash n i l now) r"
      and new: "m_id (child_machine_row sha256 op src hash n i l now) \<notin> set (map m_id (machines s))"
    by (rule insert_machine_Inr)
  note r = child_row_alike [OF st]
  have i: "i \<notin> set (map m_id (machines s))" using new by (simp add: child_machine_row_def)
  have s2: "s2 = s1\<lparr>fork_children := fork_children s1 @ [\<lparr>c_operation_id = op, c_ordinal = n, c_machine_id = i, c_lease_id = l\<rparr>]\<rparr>"
    using b by (auto simp: insert_child_def split: if_splits)
  have s3: "s3 = insert_event (fork_allocated_event op src i) s2"
    using c by (auto simp: insert_event_strict_def split: if_splits)
  from Cons.IH [OF rest] obtain rs where rs: "machines s' = machines s3 @ rs" "length rs = length fresh"
      "list_all (child_alike op src) rs" "map m_id rs = map fst fresh" "distinct (map m_id rs)"
      "set (map m_id rs) \<inter> set (map m_id (machines s3)) = {}" "hosts s' = hosts s3" "fork_ops s' = fork_ops s3"
      "extend_ops s' = extend_ops s3" "fork_children s' = fork_children s3 @
      map (\<lambda>(k, (i, l)). \<lparr>c_operation_id = op, c_ordinal = k, c_machine_id = i, c_lease_id = l\<rparr>) (enumerate (Suc n) fresh)"
    by blast
  show ?case
    by (rule exI [of _ "r # rs"]) (use rs r i in \<open>auto simp: s3 s2 s1 p\<close>)
qed

lemma committed_children:
  assumes "list_all (child_alike op src) rs"
  shows "committed k (ms @ rs) =
    committed k ms + (if m_host_id src = Some k then rscale (int (length rs)) (m_resources src) else 0)"
proof -
  have "committed k rs = (if m_host_id src = Some k then rscale (int (length rs)) (m_resources src) else 0)"
    using assms
  proof (induction rs)
    case Nil
    then show ?case by (simp add: committed_def)
  next
    case (Cons r rs)
    then have "weight k r = (if m_host_id src = Some k then m_resources src else 0)"
      by (simp add: weight_def child_alike_def)
    with Cons show ?case by (simp add: committed_def rscale_Suc [simplified] algebra_simps)
  qed
  then show ?thesis by (simp add: committed_def)
qed

text \<open>What a new fork leaves behind.\<close>

lemma beginForkE:
  assumes "beginFork net sha256 g policy draw rq now s = Inr (r, s')"
  obtains "s' = s"
  | src h f s2 where "src \<in> set (machines s)" and "h \<in> set (hosts s)" and "m_host_id src = Some (h_id h)"
    and "m_state src = Running" and "m_organization_id src = fq_organizationId rq" and "m_project_id src = fq_projectId rq"
    and "f = fork_row_of (dr_operationId draw) (fq_auditOperationId rq) src (fq_idempotencyKey rq)
      (fq_requestHash rq) (fq_count rq) now" and "f_id f \<notin> set (map f_id (fork_ops s))"
    and "fork_check f"
    and "insert_children sha256 (dr_operationId draw) src (fq_requestHash rq) now 0
      (map (dr_children draw) [0..<nat (fq_count rq)]) (s\<lparr>fork_ops := fork_ops s @ [f]\<rparr>) = Inr s2"
    and "add_reserved (h_id h) (rscale (fq_count rq) (m_resources src)) s2 = Inr s'"
    and "loadForkOperation net (dr_operationId draw) False now s' = Inr r"
proof -
  show thesis
  proof (cases "s' = s")
    case True
    then show thesis by (rule that(1))
  next
    case False
    with assms obtain src h s1 s2 where
        src: "find (\<lambda>m. m_id m = fq_sourceMachineId rq \<and> m_organization_id m = fq_organizationId rq \<and>
          m_project_id m = fq_projectId rq) (machines s) = Some src"
        and h: "find (\<lambda>h. Some (h_id h) = m_host_id src) (hosts s) = Some h"
        and fk: "forkable now h src"
        and s1: "insert_fork (fork_row_of (dr_operationId draw) (fq_auditOperationId rq) src (fq_idempotencyKey rq)
          (fq_requestHash rq) (fq_count rq) now) s = Inr s1"
        and s2: "insert_children sha256 (dr_operationId draw) src (fq_requestHash rq) now 0
          (map (dr_children draw) [0..<nat (fq_count rq)]) s1 = Inr s2"
        and s3: "add_reserved (h_id h) (rscale (fq_count rq) (m_resources src)) s2 = Inr s'"
        and ld: "loadForkOperation net (dr_operationId draw) False now s' = Inr r"
      by (auto simp: beginFork_def Let_def split: option.splits sum.splits if_splits)
    from s1 have s1': "s1 = s\<lparr>fork_ops := fork_ops s @ [fork_row_of (dr_operationId draw) (fq_auditOperationId rq) src
        (fq_idempotencyKey rq) (fq_requestHash rq) (fq_count rq) now]\<rparr>"
        "f_id (fork_row_of (dr_operationId draw) (fq_auditOperationId rq) src
        (fq_idempotencyKey rq) (fq_requestHash rq) (fq_count rq) now) \<notin> set (map f_id (fork_ops s))"
        "fork_check (fork_row_of (dr_operationId draw) (fq_auditOperationId rq) src
        (fq_idempotencyKey rq) (fq_requestHash rq) (fq_count rq) now)"
      by (auto simp: insert_fork_def split: if_splits)
    show thesis
      by (rule that(2) [OF _ _ _ _ _ _ refl s1'(2,3) s2 [unfolded s1'(1)] s3 ld])
        (use find_SomeD [OF src] find_SomeD [OF h] fk in \<open>auto simp: forkable_def\<close>)
  qed
qed


lemma fork_row_of_sel [simp]:
  "f_id (fork_row_of op audit src key hash count now) = op"
  "f_state (fork_row_of op audit src key hash count now) = Pending"
  "f_source_host_id (fork_row_of op audit src key hash count now) = the (m_host_id src)"
  "f_child_count (fork_row_of op audit src key hash count now) = count"
  "f_idempotency_key (fork_row_of op audit src key hash count now) = key"
  "f_request_hash (fork_row_of op audit src key hash count now) = hash"
  by (simp_all add: fork_row_of_def)

lemma inv_allocate:
  assumes inv: "fleet_inv s" and src: "src \<in> set (machines s)" and h: "h \<in> set (hosts s)" "m_host_id src = Some (h_id h)"
    and f: "f_id f \<notin> set (map f_id (fork_ops s))" "f_source_host_id f = h_id h"
    and eq: "machines s2 = machines s @ rs" "hosts s2 = hosts s" "fork_ops s2 = fork_ops s @ [f]" "extend_ops s2 = extend_ops s"
    and rs: "list_all (child_alike (f_id f) src) rs" "distinct (map m_id rs)"
      "set (map m_id rs) \<inter> set (map m_id (machines s)) = {}"
    and add: "add_reserved (h_id h) (rscale (int (length rs)) (m_resources src)) s2 = Inr s'"
  shows "fleet_inv s'"
proof -
  note I = fleet_invD [OF inv]
  let ?r = "rscale (int (length rs)) (m_resources src)" and ?H = "h_id h"
  let ?F = "\<lambda>x. x\<lparr>h_reserved := h_reserved x + ?r\<rparr>"
  let ?hs = "sql_update (\<lambda>x. h_id x = ?H) ?F (hosts s)"
  note up = add [unfolded add_reserved_def]
  have s': "s' = s2\<lparr>hosts := ?hs\<rparr>" using update_hosts_Inr(1) [OF up] eq by simp
  have hid: "map h_id ?hs = map h_id (hosts s)" by (simp add: map_sql_update)
  then have hids: "h_id ` set ?hs = h_id ` set (hosts s)" by (metis set_map)
  have acc: "accounted ?hs (machines s @ rs)"
  proof (rule accounted_shift [OF I(4)])
    show "committed k (machines s @ rs) = committed k (machines s) + (if k = ?H then ?r else 0)" for k
      using committed_children [OF rs(1), of k "machines s"] h(2) by auto
    show "h_reserved x + ?r \<le> h_total x" if "x \<in> set (hosts s)" "h_id x = ?H" for x
      using update_hosts_Inr(2) [OF up] that eq by (auto simp: host_check_def)
  qed simp
  have kid: "machine_ok r" "m_host_id r = Some ?H" "m_fork_operation_id r = Some (f_id f)" "m_state r = Starting"
      "m_reservation_released_at r = None" if "r \<in> set rs" for r
    using rs(1) that h(2) by (auto simp: list_all_iff child_alike_def machine_ok_def)
  have old: "child_ok f m" if "m \<in> set (machines s)" for m
  proof -
    have "m_fork_operation_id m \<noteq> Some (f_id f)" using I(7) [OF that] f(1) by auto
    then show ?thesis by (simp add: child_ok_def)
  qed
  have new: "child_ok f' r" if "f' \<in> set (fork_ops s @ [f])" "r \<in> set rs" for f' r
    using that kid [OF that(2)] f by (auto simp: child_ok_def)
  have "\<forall>f'\<in>set (fork_ops s @ [f]). \<forall>m\<in>set (machines s @ rs). child_ok f' m"
    using I(8) old new by auto
  moreover have "\<forall>m\<in>set (machines s @ rs). opt_ok (\<lambda>k. k \<in> h_id ` set ?hs) (m_host_id m)"
    unfolding hids using I(6) kid(2) h(1) by (auto simp: opt_ok_def split: option.splits)
  moreover have "\<forall>m\<in>set (machines s @ rs). opt_ok (\<lambda>k. k \<in> f_id ` set (fork_ops s @ [f])) (m_fork_operation_id m)"
    using I(7) kid(3) by (auto simp: opt_ok_def split: option.splits)
  moreover have "\<forall>m\<in>set (machines s @ rs). machine_ok m" using I(5) kid(1) by auto
  moreover have "distinct (map m_id (machines s @ rs))" using I(1) rs by auto
  moreover have "distinct (map f_id (fork_ops s @ [f]))" using I(3) f(1) by simp
  ultimately show ?thesis
    unfolding fleet_inv_def s' using acc I(2,9) hid eq by simp
qed

lemma inv_beginFork:
  assumes inv: "fleet_inv s" and ok: "beginFork net sha256 g policy draw rq now s = Inr (r, s')"
  shows "fleet_inv s' \<and> fleet_le s s'"
  using ok
proof (cases rule: beginForkE)
  case 1
  with inv show ?thesis by simp
next
  case (2 src h f s2)
  let ?t = "s\<lparr>fork_ops := fork_ops s @ [f]\<rparr>"
  from insert_children_Inr [OF 2(10)] obtain rs where rs: "machines s2 = machines s @ rs"
      "length rs = length (map (dr_children draw) [0..<nat (fq_count rq)])"
      "list_all (child_alike (dr_operationId draw) src) rs" "distinct (map m_id rs)"
      "set (map m_id rs) \<inter> set (map m_id (machines s)) = {}" "hosts s2 = hosts s"
      "fork_ops s2 = fork_ops s @ [f]" "extend_ops s2 = extend_ops s"
    by auto
  have id: "f_id f = dr_operationId draw" and host: "f_source_host_id f = h_id h" using 2(3,7) by simp_all
  have "1 \<le> fq_count rq" using 2(7,9) by (simp add: fork_check_def)
  then have n: "int (length rs) = fq_count rq" using rs(2) by simp
  have "fleet_inv s'"
    by (rule inv_allocate [OF inv 2(1-3) 2(8) host rs(1,6,7,8) rs(3) [folded id] rs(4,5) 2(11) [folded n]])
  moreover have "released_late r" if "r \<in> set rs" for r
    using rs(3) that by (simp add: list_all_iff child_alike_def released_late_def)
  then have "fleet_le s s2"
    unfolding fleet_le_def rs by (simp add: covers_append traced_append)
  moreover have "fleet_le s2 s'" using 2(11) unfolding add_reserved_def by (rule le_update_hosts)
  ultimately show ?thesis using fleet_le_trans by blast
qed


section \<open>Forks are all or nothing\<close>

lemma hidden_child:
  assumes "\<And>f. f \<in> set (fork_ops s) \<Longrightarrow> f_id f = op \<Longrightarrow> f_state f \<noteq> Succeeded"
    and "\<And>m. m \<in> set (machines s) \<Longrightarrow> m_id m = i \<Longrightarrow> m_fork_operation_id m = Some op"
  shows "find_machine net i org project s = Inr None"
proof -
  have "find (\<lambda>m. m_id m = i \<and> m_organization_id m = org \<and> (project = None \<or> Some (m_project_id m) = project) \<and>
      fork_visible s m) (machines s) = None"
    using assms by (auto simp: find_None_iff fork_visible_def list_ex_iff)
  then show ?thesis by (simp add: find_machine_def from_first_def)
qed

text \<open>A fork is allocated whole and out of sight: when \<open>beginFork\<close> creates an operation, the
  machine table gains exactly the requested number of children, each of the source's size, starting
  on the source's host under the new pending operation, the host's reservation grows by exactly
  their sum, and none of them can be found by its id.\<close>

theorem beginFork_allocates_batch:
  assumes "fleet_inv s" and "beginFork net sha256 g policy draw rq now s = Inr (r, s')" and "s' \<noteq> s"
  shows "\<exists>src rs. src \<in> set (machines s) \<and> machines s' = machines s @ rs \<and> int (length rs) = fq_count rq \<and>
    (\<forall>m\<in>set rs. m_state m = Starting \<and> m_host_id m = m_host_id src \<and> m_resources m = m_resources src \<and>
      m_fork_operation_id m = Some (dr_operationId draw) \<and> find_machine net (m_id m) org project s' = Inr None) \<and>
    (\<forall>h\<in>set (hosts s). \<forall>h'\<in>set (hosts s'). h_id h' = h_id h \<longrightarrow> h_reserved h' =
      (if m_host_id src = Some (h_id h) then h_reserved h + rscale (fq_count rq) (m_resources src) else h_reserved h))"
  using assms(2)
proof (cases rule: beginForkE)
  case 1
  with assms(3) show ?thesis by simp
next
  case (2 src h f s2)
  from insert_children_Inr [OF 2(10)] obtain rs where rs: "machines s2 = machines s @ rs"
      "length rs = length (map (dr_children draw) [0..<nat (fq_count rq)])"
      "list_all (child_alike (dr_operationId draw) src) rs" "distinct (map m_id rs)"
      "set (map m_id rs) \<inter> set (map m_id (machines s)) = {}" "hosts s2 = hosts s"
      "fork_ops s2 = fork_ops s @ [f]"
    by auto
  note s' = update_hosts_Inr(1) [OF 2(11) [unfolded add_reserved_def]]
  have id: "f_id f = dr_operationId draw" "f_state f = Pending" using 2(7) by simp_all
  have "1 \<le> fq_count rq" using 2(7,9) by (simp add: fork_check_def)
  then have n: "int (length rs) = fq_count rq" using rs(2) by simp
  have hid: "find_machine net (m_id m) org project s' = Inr None" if "m \<in> set rs" for m
  proof (rule hidden_child [where op = "dr_operationId draw"])
    show "f_state x \<noteq> Succeeded" if "x \<in> set (fork_ops s')" "f_id x = dr_operationId draw" for x
      using that 2(8) id by (auto simp: s' rs image_iff)
    show "m_fork_operation_id x = Some (dr_operationId draw)" if x: "x \<in> set (machines s')" "m_id x = m_id m" for x
    proof -
      have "x \<in> set rs" using x rs(1,5) \<open>m \<in> set rs\<close> by (auto simp: s')
      with rs(3) show ?thesis by (simp add: list_all_iff child_alike_def)
    qed
  qed
  have "\<forall>m\<in>set rs. m_state m = Starting \<and> m_host_id m = m_host_id src \<and> m_resources m = m_resources src \<and>
      m_fork_operation_id m = Some (dr_operationId draw) \<and> find_machine net (m_id m) org project s' = Inr None"
    using rs(3) hid by (auto simp: list_all_iff child_alike_def)
  moreover have "h_reserved x' = (if m_host_id src = Some (h_id x)
      then h_reserved x + rscale (fq_count rq) (m_resources src) else h_reserved x)"
    if x: "x \<in> set (hosts s)" "x' \<in> set (hosts s')" "h_id x' = h_id x" for x x'
  proof -
    from x(2) have "x' \<in> set (sql_update (\<lambda>k. h_id k = h_id h)
        (\<lambda>k. k\<lparr>h_reserved := h_reserved k + rscale (fq_count rq) (m_resources src)\<rparr>) (hosts s))"
      by (simp add: s' rs)
    then show ?thesis
    proof (cases rule: sql_updateE)
      case (1 k)
      then have "k = x" using hkey.key_unique [OF fleet_invD(2) [OF assms(1)] 1(1) x(1)] x(3) by simp
      with 1 2(3) show ?thesis by simp
    next
      case 2
      then have "x' = x" using hkey.key_unique [OF fleet_invD(2) [OF assms(1)] _ x(1)] x(3) by simp
      with 2 \<open>m_host_id src = Some (h_id h)\<close> show ?thesis by simp
    qed
  qed
  ultimately show ?thesis
    using 2(1) n rs(1) by (intro exI [of _ src] exI [of _ rs]) (auto simp: s')
qed


lemma complete_child_Inr:
  assumes "complete_child f ready observed now c s = Inr s1"
  obtains hid started readyAt s0 where
    "update_machines (\<lambda>m. m_id m = c_machine_id c \<and> m_lease_id m = c_lease_id c \<and>
      m_fork_operation_id m = Some (f_id f) \<and> m_state m = Starting) (complete_child_row ready hid started readyAt now) s = Inr s0"
    and "machines s1 = machines s0"
    and "list_ex (\<lambda>m. m_id m = c_machine_id c \<and> m_lease_id m = c_lease_id c \<and>
      m_fork_operation_id m = Some (f_id f) \<and> m_state m = Starting) (machines s)"
  using assms by (auto simp: complete_child_def Let_def split: option.splits sum.splits if_splits)

lemma complete_child_running:
  assumes "complete_child f True observed now c s = Inr s1" and "distinct (map m_id (machines s))"
  shows "distinct (map m_id (machines s1))"
    and "\<And>m. m \<in> set (machines s1) \<Longrightarrow> m \<in> set (machines s) \<or> (m_state m = Running \<and> m_ready m)"
    and "\<And>m. m \<in> set (machines s1) \<Longrightarrow> m_id m = c_machine_id c \<Longrightarrow> m_state m = Running \<and> m_ready m"
proof -
  let ?P = "\<lambda>m. m_id m = c_machine_id c \<and> m_lease_id m = c_lease_id c \<and>
      m_fork_operation_id m = Some (f_id f) \<and> m_state m = Starting"
  from assms(1) obtain hid started readyAt s0 where
      up: "update_machines ?P (complete_child_row True hid started readyAt now) s = Inr s0"
      and s1: "machines s1 = machines s0" and ex: "list_ex ?P (machines s)"
    by (rule complete_child_Inr)
  from up obtain g where s0: "s0 = s\<lparr>machines := sql_update ?P g (machines s)\<rparr>"
      and st: "\<And>m. m \<in> set (machines s) \<Longrightarrow> ?P m \<Longrightarrow> stored_as (complete_child_row True hid started readyAt now m) (g m)"
    by (rule update_machines_Inr) blast
  have g: "m_id (g m) = m_id m" "m_state (g m) = Running" "m_ready (g m)" if "m \<in> set (machines s)" "?P m" for m
    using stored_as_sel [OF st [OF that]] by (simp_all add: complete_child_row_def)
  have ids: "map m_id (machines s1) = map m_id (machines s)"
    unfolding s1 s0 by (simp add: sql_update_def) (use g in auto)
  with assms(2) show "distinct (map m_id (machines s1))" by simp
  have rows: "m \<in> set (machines s1) \<Longrightarrow> (\<exists>x\<in>set (machines s). ?P x \<and> m = g x) \<or> m \<in> set (machines s) \<and> \<not> ?P m" for m
    unfolding s1 s0 by (auto elim!: sql_updateE)
  then show "m \<in> set (machines s1) \<Longrightarrow> m \<in> set (machines s) \<or> (m_state m = Running \<and> m_ready m)" for m
    using g by blast
  from ex obtain x where x: "x \<in> set (machines s)" "?P x" by (auto simp: list_ex_iff)
  show "m_state m = Running \<and> m_ready m" if m: "m \<in> set (machines s1)" "m_id m = c_machine_id c" for m
    using rows [OF m(1)] g x m(2) mkey.key_unique [OF assms(2) _ x(1), of m] by auto
qed

lemma complete_children_running:
  assumes "complete_children f True observed now cs s = Inr s'" and "distinct (map m_id (machines s))"
  shows "(\<forall>m\<in>set (machines s'). m \<in> set (machines s) \<or> (m_state m = Running \<and> m_ready m)) \<and>
    (\<forall>c\<in>set cs. \<forall>m\<in>set (machines s'). m_id m = c_machine_id c \<longrightarrow> m_state m = Running \<and> m_ready m)"
  using assms
proof (induction cs arbitrary: s)
  case Nil
  then show ?case by simp
next
  case (Cons c cs)
  from Cons.prems(1) obtain s1 where a: "complete_child f True observed now c s = Inr s1"
      and b: "complete_children f True observed now cs s1 = Inr s'"
    by (auto split: sum.splits)
  note one = complete_child_running [OF a Cons.prems(2)]
  note IH = Cons.IH [OF b one(1)]
  have earlier: "m \<in> set (machines s1) \<or> (m_state m = Running \<and> m_ready m)" if "m \<in> set (machines s')" for m
    using IH [THEN conjunct1] that by (rule bspec)
  show ?case
  proof (intro conjI ballI impI)
    fix m assume "m \<in> set (machines s')"
    from earlier [OF this] one(2) show "m \<in> set (machines s) \<or> (m_state m = Running \<and> m_ready m)" by metis
  next
    fix d m assume d: "d \<in> set (c # cs)" and m: "m \<in> set (machines s')" "m_id m = c_machine_id d"
    have "m_state m = Running \<and> m_ready m"
    proof (cases "d = c")
      case True
      with earlier [OF m(1)] one(3) m(2) show ?thesis by metis
    next
      case False
      with d IH [THEN conjunct2] m show ?thesis by simp
    qed
    then show "m_state m = Running" "m_ready m" by simp_all
  qed
qed

text \<open>C15: A fork becomes visible whole: \<open>completeFork\<close> makes a pending operation succeed only if every
  reported machine is ready, and then every child of the operation is running and ready.\<close>

theorem completeFork_all_running:
  assumes "fleet_inv s" and "completeForkTx net op observed now s = Inr s'"
    and "\<forall>f\<in>set (fork_ops s). f_id f = op \<longrightarrow> f_state f = Pending"
    and "f' \<in> set (fork_ops s')" and "f_id f' = op" and "f_state f' = Succeeded"
  shows "all_ready observed \<and> (\<forall>c\<in>set (fork_children s). \<forall>m\<in>set (machines s').
    c_operation_id c = op \<and> m_id m = c_machine_id c \<longrightarrow> m_state m = Running \<and> m_ready m)"
proof -
  have "s' \<noteq> s" using assms(3-6) by auto
  with assms(2) obtain f s1 where f: "f_id f = op"
      and cc: "complete_children f (all_ready observed) observed now (map fst (child_machines s op)) s = Inr s1"
      and rest: "if all_ready observed
        then \<exists>s2. succeed_fork op now s1 = Inr s2 \<and> s' = recordForkTerminalAudit op ''succeeded'' None s2
        else s' = s1"
    by (auto simp: completeForkTx_def Let_def split: option.splits if_splits sum.splits dest!: find_SomeD)
  have ready: "all_ready observed"
  proof (rule ccontr)
    assume "\<not> all_ready observed"
    with rest cc complete_children_touch [OF cc, of s] assms(3-6) show False by auto
  qed
  with rest obtain s2 where s2: "succeed_fork op now s1 = Inr s2" and s': "s' = recordForkTerminalAudit op ''succeeded'' None s2"
    by auto
  have ms: "machines s' = machines s1"
    using update_forks_Inr [OF s2 [unfolded succeed_fork_def]] by (simp add: s')
  note run = complete_children_running [OF cc [unfolded ready [THEN eqTrueI]] fleet_invD(1) [OF assms(1)]]
  have "m_state m = Running \<and> m_ready m"
    if c: "c \<in> set (fork_children s)" "c_operation_id c = op" and m: "m \<in> set (machines s')" "m_id m = c_machine_id c" for c m
  proof -
    have "map m_id (machines s1) = map m_id (machines s)"
      using complete_children_touch [OF cc, of "s\<lparr>fork_ops := []\<rparr>"] 
      by (auto simp: pending_child_def list_all2_conv_all_nth same_core_def intro!: nth_equalityI dest!: touch_core)
    then have "c_machine_id c \<in> m_id ` set (machines s)" using m ms by (metis imageI set_map)
    then obtain x where "find (\<lambda>m. m_id m = c_machine_id c) (machines s) = Some x"
      by (metis (mono_tags, lifting) find_None_iff image_iff option.exhaust)
    then have "c \<in> set (map fst (child_machines s op))"
      using c by (force simp: child_machines_def children_of_def List.map_filter_def)
    with run m ms show ?thesis by auto
  qed
  with ready show ?thesis by blast
qed


lemma fail_fork_all:
  assumes inv: "fleet_inv s" and f: "f \<in> set (fork_ops s)" "f_state f = Pending"
    and fail: "fail_children (f_id f) org (f_source_host_id f) message now s = Inr s1"
    and up: "update_forks (\<lambda>r. f_id r = f_id f \<and> f_state r = Pending \<and> Q r) F s1 = Inr s2"
    and F: "\<And>r. f_id (F r) = f_id r \<and> f_state (F r) = ForkFailed" and Q: "Q f"
  shows "(\<forall>r\<in>set (fork_ops s2). f_id r = f_id f \<longrightarrow> f_state r = ForkFailed) \<and>
    (\<forall>m\<in>set (machines s2). m_fork_operation_id m = Some (f_id f) \<longrightarrow>
      m_state m = Failed \<and> m_reservation_released_at m = Some now)"
proof -
  note I = fleet_invD [OF inv]
  have kid: "m_state m = Starting" "m_reservation_released_at m = None"
    if "m \<in> set (machines s)" "m_fork_operation_id m = Some (f_id f)" for m
    using I(8) [OF f(1) that(1)] f(2) that(2) by (simp_all add: child_ok_def)
  from fail obtain g where ms: "machines s1 = sql_update (live_child (f_id f)) g (machines s)"
      and st: "\<And>m. m \<in> set (machines s) \<Longrightarrow> live_child (f_id f) m \<Longrightarrow> stored_as (fail_child_row message now m) (g m)"
      and fo: "fork_ops s1 = fork_ops s"
    by (rule fail_childrenE) (use kid in \<open>auto simp: live_child_def\<close>)
  note s2 = update_forks_Inr [OF up]
  have "m_state m = Failed \<and> m_reservation_released_at m = Some now"
    if m: "m \<in> set (machines s2)" "m_fork_operation_id m = Some (f_id f)" for m
  proof -
    from m(1) have "m \<in> set (sql_update (live_child (f_id f)) g (machines s))" by (simp add: s2 ms)
    then show ?thesis
    proof (cases rule: sql_updateE)
      case (1 x)
      then show ?thesis using stored_as_sel [OF st [OF 1(1,2)]] by (simp add: fail_child_row_def)
    next
      case 2
      with kid m(2) show ?thesis by (simp add: live_child_def)
    qed
  qed
  moreover have "f_state r = ForkFailed" if r: "r \<in> set (fork_ops s2)" "f_id r = f_id f" for r
  proof -
    from r(1) have "r \<in> set (sql_update (\<lambda>r. f_id r = f_id f \<and> f_state r = Pending \<and> Q r) F (fork_ops s))"
      by (simp add: s2 fo)
    then show ?thesis
    proof (cases rule: sql_updateE)
      case (1 x)
      then show ?thesis using F by simp
    next
      case 2
      have "r = f" using fkey.key_unique [OF I(3) 2(1) f(1)] r(2) by simp
      with 2 f(2) Q show ?thesis by simp
    qed
  qed
  ultimately show ?thesis by blast
qed

text \<open>C16: A failed fork leaves nothing behind: when \<open>failFork\<close> ends a pending operation whose cleanup
  was not requested, the operation is failed, every machine of it is failed with its reservation
  released, and every host's reservation is again the sum of what is still placed on it.\<close>

theorem failFork_releases_all:
  assumes "fleet_inv s" and "failForkTx op status code message now s = Inr s'"
    and "f \<in> set (fork_ops s)" and "f_id f = op" and "f_state f = Pending" and "f_cleanup_requested_at f = None"
  shows "(\<forall>r\<in>set (fork_ops s'). f_id r = op \<longrightarrow> f_state r = ForkFailed) \<and>
    (\<forall>m\<in>set (machines s'). m_fork_operation_id m = Some op \<longrightarrow> m_state m = Failed \<and> m_reservation_released_at m \<noteq> None) \<and>
    (\<forall>h\<in>set (hosts s'). h_reserved h = committed (h_id h) (machines s'))"
proof -
  have "find (\<lambda>f. f_id f = op) (fork_ops s) = Some f"
    using fkey.find_key [OF fleet_invD(3) [OF assms(1)] assms(3), of "\<lambda>_. True"] assms(4) by simp
  with assms(2,5,6) obtain s1 s2 where
      fail: "fail_children op (f_organization_id f) (f_source_host_id f) message now s = Inr s1"
      and up: "update_forks (\<lambda>f. f_id f = op \<and> f_state f = Pending)
        (fail_fork_row (Some status) (Some code) (Some message) now) s1 = Inr s2"
      and s': "s' = recordForkTerminalAudit op ''failed'' (Some code) s2"
    by (auto simp: failForkTx_def split: sum.splits)
  from up have up': "update_forks (\<lambda>r. f_id r = f_id f \<and> f_state r = Pending \<and> True)
      (fail_fork_row (Some status) (Some code) (Some message) now) s1 = Inr s2" using assms(4) by simp
  have "(\<forall>r\<in>set (fork_ops s2). f_id r = f_id f \<longrightarrow> f_state r = ForkFailed) \<and>
      (\<forall>m\<in>set (machines s2). m_fork_operation_id m = Some (f_id f) \<longrightarrow>
        m_state m = Failed \<and> m_reservation_released_at m = Some now)"
    by (rule fail_fork_all [OF assms(1,3,5) fail [folded assms(4)] up']) (simp_all add: fail_fork_row_def)
  moreover have "accounted (hosts s') (machines s')"
    using inv_failFork [OF assms(1,2)] fleet_invD(4) by blast
  ultimately show ?thesis by (auto simp: s' assms(4) accounted_def)
qed

text \<open>Cleanup confirmed under its claim ends a fork the same way, with the failure recorded when
  the cleanup was requested; without the current claim it changes nothing.\<close>

theorem completeForkCleanup_claimed:
  assumes "fleet_inv s" and "completeForkCleanupTx op token now s = Inr s'"
    and "f \<in> set (fork_ops s)" and "f_id f = op" and "f_state f = Pending"
    and "f_cleanup_failure_status f \<noteq> None" and "f_cleanup_failure_code f \<noteq> None" and "f_cleanup_failure_message f \<noteq> None"
  shows "if f_cleanup_claim_token f = Some token
    then (\<forall>r\<in>set (fork_ops s'). f_id r = op \<longrightarrow> f_state r = ForkFailed) \<and>
      (\<forall>m\<in>set (machines s'). m_fork_operation_id m = Some op \<longrightarrow> m_state m = Failed \<and> m_reservation_released_at m \<noteq> None) \<and>
      (\<forall>h\<in>set (hosts s'). h_reserved h = committed (h_id h) (machines s'))
    else s' = s"
proof -
  have find: "find (\<lambda>f. f_id f = op) (fork_ops s) = Some f"
    using fkey.find_key [OF fleet_invD(3) [OF assms(1)] assms(3), of "\<lambda>_. True"] assms(4) by simp
  show ?thesis
  proof (cases "f_cleanup_claim_token f = Some token")
    case False
    with assms(2,5) find show ?thesis by (simp add: completeForkCleanupTx_def)
  next
    case True
    with assms find obtain s1 s2 where
        fail: "fail_children op (f_organization_id f) (f_source_host_id f) (the (f_cleanup_failure_message f)) now s = Inr s1"
        and up: "update_forks (\<lambda>f. f_id f = op \<and> f_state f = Pending \<and> f_cleanup_claim_token f = Some token)
          (fail_fork_row (f_cleanup_failure_status f) (f_cleanup_failure_code f) (f_cleanup_failure_message f) now) s1 = Inr s2"
        and s': "s' = recordForkTerminalAudit op ''failed'' (f_cleanup_failure_code f) s2"
      by (auto simp: completeForkCleanupTx_def split: sum.splits)
    have "(\<forall>r\<in>set (fork_ops s2). f_id r = f_id f \<longrightarrow> f_state r = ForkFailed) \<and>
        (\<forall>m\<in>set (machines s2). m_fork_operation_id m = Some (f_id f) \<longrightarrow>
          m_state m = Failed \<and> m_reservation_released_at m = Some now)"
      by (rule fail_fork_all [OF assms(1,3,5) fail [folded assms(4)] up [folded assms(4)]])
        (simp_all add: fail_fork_row_def True)
    moreover have "accounted (hosts s') (machines s')"
      using inv_completeForkCleanup [OF assms(1,2)] fleet_invD(4) by blast
    ultimately show ?thesis using True by (auto simp: s' assms(4) accounted_def)
  qed
qed

end
