(* ===== verification/Calls.thy ===== *)
theory Calls
  imports Forks
begin

text \<open>
  Calls: sequences of transactions and host requests, each of which commits or fails on its own.
  The first part has the combinators the services are composed with; the second the rules by
  which an invariant and a progress relation of transactions carry over to whole calls, stated
  once for any such pair (locale \<open>progress\<close>) and used for the reservation invariant with the
  order in which rows only move forward.
\<close>

section \<open>Combinators\<close>

text \<open>A transaction rolls back on an error; a read changes nothing; errors end the call.\<close>

definition call_tx :: "'a tx \<Rightarrow> 'a svc" where
  "call_tx t s = (case t s of Inl e \<Rightarrow> (Inl e, s) | Inr (a, s') \<Rightarrow> (Inr a, s'))"

definition call_do :: "(fleet \<Rightarrow> error + fleet) \<Rightarrow> unit svc" where
  "call_do t s = (case t s of Inl e \<Rightarrow> (Inl e, s) | Inr s' \<Rightarrow> (Inr (), s'))"

definition call_read :: "(fleet \<Rightarrow> error + 'a) \<Rightarrow> 'a svc" where
  "call_read t s = (t s, s)"

definition call_host :: "error + 'a \<Rightarrow> 'a svc" where
  "call_host r s = (r, s)"

definition bind_svc :: "'a svc \<Rightarrow> ('a \<Rightarrow> 'b svc) \<Rightarrow> 'b svc" where
  "bind_svc m k s = (case m s of (Inl e, s') \<Rightarrow> (Inl e, s') | (Inr a, s') \<Rightarrow> k a s')"

definition return_svc :: "'a \<Rightarrow> 'a svc" where
  "return_svc a s = (Inr a, s)"

definition throw_svc :: "error \<Rightarrow> 'a svc" where
  "throw_svc e s = (Inl e, s)"

section \<open>Rules for calls\<close>

text \<open>Started where the invariant holds, a call ends where it holds, and only moved forward.\<close>

definition advances :: "(fleet \<Rightarrow> bool) \<Rightarrow> (fleet \<Rightarrow> fleet \<Rightarrow> bool) \<Rightarrow> 'a svc \<Rightarrow> fleet \<Rightarrow> bool" where
  "advances I R m s \<longleftrightarrow> (I s \<longrightarrow> I (snd (m s)) \<and> R s (snd (m s)))"

text \<open>The same from any later state than \<open>s\<^sub>0\<close>: what a call needs to know when other calls ran before it.\<close>

definition lasting :: "(fleet \<Rightarrow> bool) \<Rightarrow> (fleet \<Rightarrow> fleet \<Rightarrow> bool) \<Rightarrow> fleet \<Rightarrow> 'a svc \<Rightarrow> bool" where
  "lasting I R s\<^sub>0 m \<longleftrightarrow> (\<forall>s. I s \<and> R s\<^sub>0 s \<longrightarrow> advances I R m s)"

locale progress =
  fixes I :: "fleet \<Rightarrow> bool" and R :: "fleet \<Rightarrow> fleet \<Rightarrow> bool"
  assumes refl: "R s s"
    and trans: "R s t \<Longrightarrow> R t u \<Longrightarrow> R s u"
begin

lemma stay: "snd (m s) = s \<Longrightarrow> advances I R m s"
  by (simp add: advances_def refl)

lemma step: "(I s \<Longrightarrow> snd (m s) \<noteq> s \<Longrightarrow> I (snd (m s)) \<and> R s (snd (m s))) \<Longrightarrow> advances I R m s"
  by (cases "snd (m s) = s") (auto simp: advances_def refl)

lemma tx: "(\<And>a s'. I s \<Longrightarrow> t s = Inr (a, s') \<Longrightarrow> I s' \<and> R s s') \<Longrightarrow> advances I R (call_tx t) s"
  by (rule step) (auto simp: call_tx_def split: sum.splits prod.splits)

lemma do: "(\<And>s'. I s \<Longrightarrow> t s = Inr s' \<Longrightarrow> I s' \<and> R s s') \<Longrightarrow> advances I R (call_do t) s"
  by (rule step) (auto simp: call_do_def split: sum.splits)

lemma bind:
  assumes "advances I R m s"
    and "\<And>a s'. m s = (Inr a, s') \<Longrightarrow> I s \<Longrightarrow> I s' \<Longrightarrow> R s s' \<Longrightarrow> advances I R (k a) s'"
  shows "advances I R (bind_svc m k) s"
proof (rule step)
  assume I: "I s"
  obtain r s' where m: "m s = (r, s')" by fastforce
  with assms(1) I have s': "I s'" "R s s'" by (simp_all add: advances_def)
  show "I (snd (bind_svc m k s)) \<and> R s (snd (bind_svc m k s))"
  proof (cases r)
    case (Inl e)
    with m s' show ?thesis by (simp add: bind_svc_def)
  next
    case (Inr a)
    with assms(2) [OF _ I s'] m s' trans show ?thesis by (auto simp: bind_svc_def advances_def)
  qed
qed

lemma lastingI: "(\<And>s. I s \<Longrightarrow> R s\<^sub>0 s \<Longrightarrow> advances I R m s) \<Longrightarrow> lasting I R s\<^sub>0 m"
  by (simp add: lasting_def)

lemma lastingD: "lasting I R s m \<Longrightarrow> advances I R m s"
  using refl [of s] by (auto simp: lasting_def advances_def)

lemma later: "R s t \<Longrightarrow> lasting I R s m \<Longrightarrow> lasting I R t m"
  unfolding lasting_def by (blast intro: trans)

lemma lasting_bind:
  "lasting I R s\<^sub>0 m \<Longrightarrow> (\<And>a. lasting I R s\<^sub>0 (k a)) \<Longrightarrow> lasting I R s\<^sub>0 (bind_svc m k)"
  unfolding lasting_def by (blast intro: bind trans)

end

interpretation fp: progress fleet_inv fleet_le
  by unfold_locales (auto intro: fleet_le_trans)

abbreviation sound :: "'a svc \<Rightarrow> fleet \<Rightarrow> bool" where
  "sound \<equiv> advances fleet_inv fleet_le"

abbreviation sound_from :: "fleet \<Rightarrow> 'a svc \<Rightarrow> bool" where
  "sound_from \<equiv> lasting fleet_inv fleet_le"

lemma sound_pure [simp, intro]:
  "sound (return_svc a) s" "sound (throw_svc e) s" "sound (call_read t) s" "sound (call_host r) s"
  by (auto intro!: fp.stay simp: return_svc_def throw_svc_def call_read_def call_host_def)

lemma sound_from_pure [simp, intro]:
  "sound_from s\<^sub>0 (return_svc a)" "sound_from s\<^sub>0 (throw_svc e)" "sound_from s\<^sub>0 (call_read t)"
  "sound_from s\<^sub>0 (call_host r)"
  by (auto intro: fp.lastingI)

section \<open>What stays true between the transactions of a call\<close>

lemma later_row:
  assumes "fleet_le s s'" and "m \<in> set (machines s)"
  obtains m' where "m' \<in> set (machines s')" and "row_le m m'"
  using assms by (auto simp: fleet_le_def covers_def)

definition decided :: "fleet \<Rightarrow> machine_row \<Rightarrow> bool" where
  "decided s m \<longleftrightarrow> m \<in> set (machines s) \<and> \<not> pending_child s m"

lemma decidedD: "fleet_inv s \<Longrightarrow> decided s m \<Longrightarrow> \<not> undecided s (m_id m)"
  unfolding undecided_def decided_def list_ex_iff by (metis mkey.key_unique fleet_invD(1))

lemma visible_decided:
  assumes inv: "fleet_inv s" and m: "m \<in> set (machines s)" and v: "fork_visible s m"
  shows "decided s m"
proof -
  have "f = g" if "f \<in> set (fork_ops s)" "g \<in> set (fork_ops s)" "f_id f = f_id g" for f g
    using fkey.key_unique [OF fleet_invD(3) [OF inv]] that by blast
  with m v show ?thesis
    by (fastforce simp: decided_def fork_visible_def pending_child_def list_ex_iff)
qed

lemma later_decided:
  assumes inv: "fleet_inv s" and inv': "fleet_inv s'" and le: "fleet_le s s'" and d: "decided s m"
    and m': "m' \<in> set (machines s')" and row: "row_le m m'"
  shows "decided s' m'"
proof -
  have False if f': "f' \<in> set (fork_ops s')" "f_state f' = Pending" "m_fork_operation_id m' = Some (f_id f')" for f'
  proof -
    from row f'(3) have op: "m_fork_operation_id m = Some (f_id f')" by (simp add: row_le_defs)
    have "m \<in> set (machines s)" using d by (simp add: decided_def)
    from fleet_invD(7) [OF inv this] op obtain f where f: "f \<in> set (fork_ops s)" "f_id f = f_id f'" by auto
    with d op have "f_state f \<noteq> Pending" by (auto simp: decided_def pending_child_def list_ex_iff)
    moreover from le f(1) obtain g where g: "g \<in> set (fork_ops s')" "fork_le f g"
      by (auto simp: fleet_le_def covers_def)
    moreover from g f(2) have "g = f'"
      by (intro fkey.key_unique [OF fleet_invD(3) [OF inv'] _ f'(1)]) (auto simp: fork_le_def)
    ultimately show False using f'(2) by (simp add: fork_le_def)
  qed
  with m' show ?thesis by (auto simp: decided_def pending_child_def list_ex_iff)
qed

text \<open>A decided row and its later self, as one fact.\<close>

lemma decided_later:
  assumes "fleet_inv s" and "fleet_inv s'" and "fleet_le s s'" and "decided s m"
  obtains m' where "decided s' m'" and "row_le m m'"
proof -
  from assms(3,4) obtain m' where "m' \<in> set (machines s')" "row_le m m'"
    by (auto simp: decided_def elim: later_row)
  with later_decided [OF assms] that show thesis by blast
qed

lemma undecided_later:
  "fleet_inv s \<Longrightarrow> fleet_inv s' \<Longrightarrow> fleet_le s s' \<Longrightarrow> decided s m \<Longrightarrow> \<not> undecided s' (m_id m)"
  by (erule (3) decided_later) (auto dest!: decidedD simp: row_le_defs)

lemma map_sum_Inr [simp]: "map_sum f g x = Inr y \<longleftrightarrow> (\<exists>z. x = Inr z \<and> y = g z)"
  by (cases x) auto

lemma find_machine_Some:
  assumes "find_machine net i org project s = Inr (Some ma)"
  obtains m where "m \<in> set (machines s)" and "fork_visible s m" and "fromRow net s m = Inr ma" and "m_id m = i"
  using assms
  by (auto simp: find_machine_def from_first_def split: option.splits dest!: find_SomeD)

lemma findByIdempotency_Some:
  assumes "findByIdempotency net org project key s = Inr (Some ma)"
  obtains m where "m \<in> set (machines s)" and "m_idempotency_key m = Some key" and "fromRow net s m = Inr ma"
  using assms
  by (auto simp: findByIdempotency_def from_first_def split: option.splits dest!: find_SomeD)

lemma fromRow_sel:
  assumes "fromRow net s m = Inr ma"
  shows "ma_id ma = m_id m" "ma_organizationId ma = m_organization_id m" "ma_projectId ma = m_project_id m"
    "ma_hostId ma = m_host_id m" "ma_leaseId ma = m_lease_id m" "ma_state ma = m_state m"
    "ma_resources ma = m_resources m" "ma_hostMachineId ma = m_host_machine_id m"
    "ma_idempotencyRequestHash ma = Some (m_idempotency_request_hash m)"
    "ma_createFailureStatus ma = m_create_failure_status m"
    "ma_createFailureCode ma = m_create_failure_code m"
    "ma_createFailureMessage ma = m_create_failure_message m" "ma_forkOperationId ma = m_fork_operation_id m"
  using assms by (auto simp: fromRow_def split: sum.splits)

section \<open>The transactions as calls\<close>

lemma machine_id_nonempty: "machine_check m \<Longrightarrow> m_id m \<noteq> []"
  by (auto simp: machine_check_def machine_id_ok_def)

lemma sound_transition:
  assumes "\<not> undecided s i" and "\<not> unplaced to" and "\<And>st. st \<in> set from \<Longrightarrow> state_le st to"
  shows "sound (call_tx (transition u i from to reason now)) s"
  by (rule fp.tx) (rule conjI [OF inv_transition [OF _ _ assms(1,2)] le_transition [OF _ assms(3)]])

text \<open>A reservation is given back for a machine that has ended, and only then.\<close>

lemma sound_release:
  assumes "decided s m" and "m_host_id m = Some H" and "m_resources m = r" and "m_id m = i" and "terminal (m_state m)"
  shows "sound (call_do (release H r (Some i) now)) s"
proof (rule fp.do)
  fix s' assume inv: "fleet_inv s" and rel: "release H r (Some i) now s = Inr s'"
  from assms(1) have m: "m \<in> set (machines s)" "\<not> pending_child s m" by (simp_all add: decided_def)
  with fleet_invD(5) [OF inv] have "m_id m \<noteq> []" by (auto simp: machine_ok_def machine_id_nonempty)
  moreover have "x = m" if "x \<in> set (machines s)" "m_id x = i" for x
    by (rule mkey.key_unique [OF fleet_invD(1) [OF inv] that(1) m(1)]) (simp add: that(2) assms(4))
  then have "fleet_le s s'" using assms(5) by (intro le_release [OF rel]) blast
  ultimately show "fleet_inv s' \<and> fleet_le s s'"
    using inv_release [OF inv _ _ m(1) assms(2,3) m(2)] rel assms(4) by simp
qed

text \<open>A release in a later state than the one the row was read in.\<close>

lemma sound_from_release:
  assumes "fleet_inv s" and "decided s m" and "m_host_id m = Some H" and "m_resources m = r" and "m_id m = i"
    and "terminal (m_state m)"
  shows "sound_from s (call_do (release H r (Some i) now))"
proof (rule fp.lastingI)
  fix t assume t: "fleet_inv t" "fleet_le s t"
  show "sound (call_do (release H r (Some i) now)) t"
  proof (rule decided_later [OF assms(1) t assms(2)])
    fix m' assume m': "decided t m'" and row: "row_le m m'"
    then have "m_state m' = m_state m" using assms(6) by (auto simp: row_le_defs dest: state_le_terminal)
    with assms(3-6) row show ?thesis by (intro sound_release [OF m']) (auto simp: row_le_defs)
  qed
qed

text \<open>The machine of an identifier, when a transaction has just taken it to a state.\<close>

definition in_state :: "(machine_state \<Rightarrow> bool) \<Rightarrow> fleet \<Rightarrow> string \<Rightarrow> bool" where
  "in_state P s i \<longleftrightarrow> (\<exists>m\<in>set (machines s). m_id m = i \<and> P (m_state m))"

lemma decided_in_state:
  assumes "fleet_inv s" and "fleet_inv t" and "fleet_le s t" and "decided s m" and "in_state P t (m_id m)"
  obtains m' where "decided t m'" and "row_le m m'" and "P (m_state m')"
proof -
  from assms(1-4) obtain m' where m': "decided t m'" "row_le m m'" by (rule decided_later)
  from assms(5) obtain x where x: "x \<in> set (machines t)" "m_id x = m_id m" "P (m_state x)" by (auto simp: in_state_def)
  have "x = m'"
    by (rule mkey.key_unique [OF fleet_invD(1) [OF assms(2)] x(1)]) (use m' x(2) in \<open>auto simp: decided_def row_le_defs\<close>)
  with m' x(3) that show thesis by blast
qed

lemma update_then_in_state:
  assumes ok: "update_then P f k s = Inr (True, s')"
    and f: "\<And>m. P m \<Longrightarrow> m_id (f m) = i \<and> Q (m_state (f m))" and k: "\<And>m t. machines (k m t) = machines t"
  shows "in_state Q s' i"
  using ok
proof (rule update_thenE)
  fix s1 assume up: "update_machines P f s = Inr s1" and "True = list_ex P (machines s)" and s': "s' = s1 \<or> (\<exists>m. s' = k m s1)"
  then obtain m where m: "m \<in> set (machines s)" "P m" by (auto simp: list_ex_iff)
  from up show ?thesis
  proof (rule update_machines_Inr)
    fix g assume s1: "s1 = s\<lparr>machines := sql_update P g (machines s)\<rparr>"
      and st: "\<And>r. r \<in> set (machines s) \<Longrightarrow> P r \<Longrightarrow> stored_as (f r) (g r)"
    from m s' have "g m \<in> set (machines s')" by (auto simp: s1 k in_sql_update)
    with f [OF m(2)] stored_as_sel [OF st [OF m]] show ?thesis by (auto simp: in_state_def)
  qed
qed

lemma transition_in_state: "transition u i from to reason now s = Inr (True, s') \<Longrightarrow> in_state (\<lambda>st. st = to) s' i"
  unfolding transition_def by (erule update_then_in_state) (auto simp: transition_row_def)

lemma failCreate_in_state: "failCreate u i token status code message now s = Inr (True, s') \<Longrightarrow> in_state terminal s' i"
  unfolding failCreate_def by (erule update_then_in_state) (auto simp: fail_create_row_def terminal_def)

lemma in_state_later:
  assumes "in_state P s i" and "fleet_le s t" and "\<And>a b. P a \<Longrightarrow> state_le a b \<Longrightarrow> P b"
  shows "in_state P t i"
proof -
  from assms(1) obtain m where m: "m \<in> set (machines s)" "m_id m = i" "P (m_state m)" by (auto simp: in_state_def)
  from assms(2) m(1) obtain m' where "m' \<in> set (machines t)" "row_le m m'" by (rule later_row)
  with m(2,3) assms(3) show ?thesis by (auto simp: in_state_def row_le_defs)
qed

lemma terminal_later: "in_state terminal s i \<Longrightarrow> fleet_le s t \<Longrightarrow> in_state terminal t i"
  by (rule in_state_later) (auto dest: state_le_terminal)

text \<open>A machine that is stopping or ended has ended after it was stopped, whoever stopped it.\<close>

definition stopping_on :: "machine_state \<Rightarrow> bool" where
  "stopping_on st \<longleftrightarrow> st = Stopping \<or> terminal st"

lemma stopping_later: "in_state stopping_on s i \<Longrightarrow> fleet_le s t \<Longrightarrow> in_state stopping_on t i"
proof (erule (1) in_state_later)
  fix a b assume "stopping_on a" "state_le a b"
  then show "stopping_on b" by (cases b) (auto simp: stopping_on_def state_le_def terminal_def)
qed

lemma stopped_in_state:
  assumes "transition u i [Stopping] Stopped reason now s = Inr (b, t)" and "in_state stopping_on s i" and "fleet_le s t"
  shows "in_state terminal t i"
proof (cases b)
  case True
  with assms(1) have "in_state (\<lambda>st. st = Stopped) t i" by (simp add: transition_in_state)
  then show ?thesis by (auto simp: in_state_def terminal_def)
next
  case False
  with assms(1) have "\<not> list_ex (\<lambda>m. m_id m = i \<and> m_state m \<in> set [Stopping]) (machines s)"
    unfolding transition_def by (auto elim: update_thenE)
  with assms(2) have "in_state terminal s i" by (auto simp: in_state_def stopping_on_def list_ex_iff)
  then show ?thesis using assms(3) by (rule terminal_later)
qed

lemma sound_release_ended:
  assumes "fleet_inv s" and "fleet_inv t" and "fleet_le s t" and "decided s m" and "in_state terminal t i"
    and "m_host_id m = Some H" and "m_resources m = r" and "m_id m = i"
  shows "sound (call_do (release H r (Some i) now)) t"
  using assms(5)
proof (rule decided_in_state [OF assms(1-4), unfolded assms(8)])
  fix m' assume "decided t m'" "row_le m m'" "terminal (m_state m')"
  with assms(6-8) show ?thesis by (intro sound_release) (auto simp: row_le_defs)
qed

lemma sound_from_release_ended:
  assumes "fleet_inv s" and "fleet_le s t" and "decided s m" and "in_state terminal t i"
    and "m_host_id m = Some H" and "m_resources m = r" and "m_id m = i"
  shows "sound_from t (call_do (release H r (Some i) now))"
proof (rule fp.lastingI)
  fix u assume u: "fleet_inv u" "fleet_le t u"
  from assms(2) u(2) have "fleet_le s u" by (rule fleet_le_trans)
  from sound_release_ended [OF assms(1) u(1) this assms(3) terminal_later [OF assms(4) u(2)] assms(5-7)]
  show "sound (call_do (release H r (Some i) now)) u" .
qed

lemma sound_from_transition:
  assumes "fleet_inv s" and "decided s m" and "m_id m = i" and "\<not> unplaced to" and "\<And>st. st \<in> set from \<Longrightarrow> state_le st to"
  shows "sound_from s (call_tx (transition u i from to reason now))"
  using undecided_later [OF assms(1) _ _ assms(2)] assms(3-5) by (auto intro!: fp.lastingI sound_transition)

text \<open>Statements that leave the lifecycle alone: claims, checkpoints, readiness; and other tables.\<close>

lemma inv_note:
  assumes inv: "fleet_inv s" and up: "update_machines P f s = Inr s'"
    and f: "\<And>m. m \<in> set (machines s) \<Longrightarrow> P m \<Longrightarrow> same_core m (f m) \<and> m_state (f m) = m_state m \<and> row_le m (f m)"
  shows "fleet_inv s' \<and> fleet_le s s'"
proof
  show "fleet_inv s'" by (rule inv_update_machines [OF inv up]) (use f pending_child_state [OF inv] in auto)
  show "fleet_le s s'" by (rule le_update_machines [OF up]) (auto dest: f)
qed

lemma inv_other:
  "fleet_inv s \<Longrightarrow> machines s' = machines s \<Longrightarrow> hosts s' = hosts s \<Longrightarrow> fork_ops s' = fork_ops s \<Longrightarrow>
    extend_ops s' = extend_ops s \<Longrightarrow> fleet_inv s' \<and> fleet_le s s'"
  by (simp add: fleet_inv_def fleet_le_def)

text \<open>A decided machine may be taken to any later state.\<close>

lemma inv_decided:
  assumes inv: "fleet_inv s" and up: "update_machines P f s = Inr s'"
    and "\<And>m. m \<in> set (machines s) \<Longrightarrow> P m \<Longrightarrow>
      same_core m (f m) \<and> \<not> unplaced (m_state (f m)) \<and> row_le m (f m) \<and> \<not> pending_child s m"
  shows "fleet_inv s' \<and> fleet_le s s'"
proof
  show "fleet_inv s'" by (rule inv_update_machines [OF inv up]) (auto dest: assms(3))
  show "fleet_le s s'" by (rule le_update_machines [OF up]) (auto dest: assms(3))
qed

lemma sound_claimCreate: "sound (call_tx (claimCreate token i now)) s"
  by (rule fp.tx) (blast intro: inv_claimCreate le_claimCreate)

lemma sound_releaseCreateClaim: "sound (call_do (releaseCreateClaim i token)) s"
  by (rule fp.do) (blast intro: inv_releaseCreateClaim le_releaseCreateClaim)

lemma sound_insertRequested: "sound (call_do (insertRequested u machine key now)) s"
  by (rule fp.do) (blast intro: inv_insertRequested le_insertRequested)

lemma sound_failCreate: "\<not> undecided s i \<Longrightarrow> sound (call_tx (failCreate u i token status code message now)) s"
  by (rule fp.tx) (blast intro: inv_failCreate le_failCreate)

lemma sound_observeHost: "\<not> undecided s i \<Longrightarrow> sound (call_do (observeHost u i hm now)) s"
  by (rule fp.do) (blast intro: inv_observeHost le_observeHost)

lemma sound_reserve:
  assumes "present (sr_machineId request)"
    and "\<And>m. m \<in> set (machines s) \<Longrightarrow> sr_machineId request = Some (m_id m) \<Longrightarrow> m_resources m = sr_resources request"
  shows "sound (call_tx (reserve g policy locked request now)) s"
  by (rule fp.tx) (use assms in \<open>blast intro: inv_reserve le_reserve\<close>)

lemma sound_beginExtend: "sound (call_tx (beginExtend g policy seq i org project key hash ttl now)) s"
  by (rule fp.tx) (blast intro: inv_beginExtend le_beginExtend)

lemma sound_completeExtend: "sound (call_tx (completeExtend op i org result now)) s"
  by (rule fp.tx) (blast intro: inv_completeExtend le_completeExtend)

lemma sound_beginFork: "sound (call_tx (beginFork net sha256 g policy draw rq now)) s"
  by (rule fp.tx) (rule inv_beginFork)

lemma sound_completeFork: "sound (completeFork net op observed now) s"
  by (rule fp.step) (auto simp: completeFork_def split: sum.splits dest: inv_completeFork)

lemma sound_failFork: "sound (failFork net op status code message now) s"
  by (rule fp.step) (auto simp: failFork_def split: sum.splits dest: inv_failFork)

lemma sound_requestForkCleanup: "sound (requestForkCleanup net token op status code message now) s"
  by (rule fp.step) (auto simp: requestForkCleanup_def split: sum.splits prod.splits dest: inv_requestForkCleanup)

lemma sound_releaseForkCleanupClaim: "sound (call_do (releaseForkCleanupClaim op token now)) s"
  by (rule fp.do) (blast dest: inv_releaseForkCleanupClaim)

lemma sound_completeForkCleanup: "sound (completeForkCleanup net op token now) s"
  by (rule fp.step) (auto simp: completeForkCleanup_def split: sum.splits dest: inv_completeForkCleanup)

lemma sound_claimPendingForks: "sound (claimPendingForks net locked token limit now) s"
  by (rule fp.step) (auto simp: claimPendingForks_def split: sum.splits prod.splits dest: inv_claimPendingForks)

lemma sound_releaseForkClaim: "sound (call_do (releaseForkClaim op token failed now)) s"
  by (rule fp.do) (blast dest: inv_releaseForkClaim)

lemmas sound_tx = sound_claimCreate sound_releaseCreateClaim sound_insertRequested sound_beginExtend
  sound_completeExtend sound_beginFork sound_completeFork sound_failFork sound_requestForkCleanup
  sound_releaseForkCleanupClaim sound_completeForkCleanup sound_claimPendingForks sound_releaseForkClaim

lemmas sound_from_tx = sound_tx [THEN fp.lastingI]

end
