(* ===== verification/MachineService.thy ===== *)
theory MachineService
  imports Calls
begin

text \<open>
  The machine service of \<open>domain/machines.ts\<close>: create, destroy, extend, fork and exec, composed of
  repository and scheduler transactions and of calls to the host. A call is not a transaction:
  what its earlier steps committed stays when a later one fails, so a service call returns its
  result together with the fleet it leaves.

  The outside world of a call is a record: the host's answers, the hash function, the identifiers
  drawn at each point of the program and the instant at which each point runs.
\<close>

section \<open>Calls\<close>

record world =
  w_net :: js_net
  w_sha256 :: "string \<Rightarrow> string"
  w_pgdiv :: "numeric13 \<Rightarrow> numeric13"
  w_policy :: admission_policy
  w_host :: host_client
  w_locked :: "uuid list"
  w_uuid :: "nat \<Rightarrow> uuid"
  w_machine_id :: "nat \<Rightarrow> string"
  w_seq :: int
  w_clock :: "nat \<Rightarrow> time"

section \<open>Create\<close>

record create_machine =
  cm_organizationId :: uuid
  cm_projectId :: uuid
  cm_region :: string
  cm_architecture :: architecture
  cm_resources :: raw_resources
  cm_template :: "string option"
  cm_templateId :: "uuid option"
  cm_ociReference :: "string option"
  cm_networkPolicy :: "json option"
  cm_ttlSeconds :: js_number
  cm_idempotencyKey :: string

definition ttl_ok :: "js_number \<Rightarrow> bool" where
  "ttl_ok t \<longleftrightarrow> isSafeInteger t \<and> 15 \<le> js_int t \<and> js_int t \<le> 86400"

text \<open>The checks before anything is stored, in the order of the code.\<close>

definition create_validate :: "js_net \<Rightarrow> create_machine \<Rightarrow> error + (resources \<times> net_decl)" where
  "create_validate net input =
     (if \<not> idempotency_key_ok (cm_idempotencyKey input)
      then Inl (InvalidMachineRequest ''A valid Idempotency-Key header is required.'')
      else if length (filter present [cm_template input, cm_templateId input, cm_ociReference input]) \<noteq> 1
      then Inl (InvalidMachineRequest ''exactly one of template, templateId or ociReference is required'')
      else if present (cm_ociReference input)
      then Inl (InvalidMachineRequest ''OCI images are not available until digest-pinned registry imports are enabled'')
      else if present (cm_template input) \<and> the (cm_template input) \<notin> {''python'', ''desktop''}
      then Inl (InvalidMachineRequest ''template must be a platform built-in; use template_id for published templates'')
      else if \<not> ttl_ok (cm_ttlSeconds input)
      then Inl (InvalidMachineRequest ''ttlSeconds must be between 15 and 86400'')
      else case validateResources (cm_resources input) of
          Inl message \<Rightarrow> Inl (InvalidMachineRequest message)
        | Inr r \<Rightarrow>
            (case canonical_policy net (case cm_networkPolicy input of None \<Rightarrow> decl_json net_off | Some j \<Rightarrow> j) of
               Inl message \<Rightarrow> Inl (InvalidMachineRequest message)
             | Inr policy \<Rightarrow>
                 (if nd_mode policy \<noteq> NetOff
                  then Inl (ManagedNetworkEgressUnavailable
                    ''Managed guest egress is disabled until hard organization, project, and host-network traffic quotas are enforced.'')
                  else Inr (r, policy))))"

fun architecture_text :: "architecture \<Rightarrow> string" where
  "architecture_text X86_64 = ''x86_64''"
| "architecture_text Aarch64 = ''aarch64''"

definition resources_json :: "resources \<Rightarrow> json" where
  "resources_json r = JObj [(''vcpus'', JNum (JSInt (vcpus r))), (''memoryMb'', JNum (JSInt (memoryMb r))),
     (''diskMb'', JNum (JSInt (diskMb r)))]"

definition create_hash :: "(string \<Rightarrow> string) \<Rightarrow> create_machine \<Rightarrow> resources \<Rightarrow> net_decl \<Rightarrow> string" where
  "create_hash sha256 input r policy =
     sha256 (stringify (JObj (
       [(''projectId'', JStr (cm_projectId input)), (''region'', JStr (cm_region input)),
        (''architecture'', JStr (architecture_text (cm_architecture input))), (''resources'', resources_json r)] @
       opt_field ''template'' (cm_template input) @ opt_field ''templateId'' (cm_templateId input) @
       opt_field ''ociReference'' (cm_ociReference input) @
       [(''networkPolicy'', decl_json policy), (''ttlSeconds'', JNum (cm_ttlSeconds input))])))"

fun failureForCreateError :: "error \<Rightarrow> int \<times> string \<times> string" where
  "failureForCreateError (QuotaExceeded m) = (429, ''quota_exceeded'', m)"
| "failureForCreateError (BillingAdmissionRejected code m) = (429, code, m)"
| "failureForCreateError (CapacityUnavailable m) = (503, ''capacity_unavailable'', m)"
| "failureForCreateError (HostRequestError _ _ ambiguous _) =
     (if ambiguous then (503, ''host_result_pending'',
        ''The host result is not yet known; retry with the same Idempotency-Key.'')
      else (502, ''host_request_failed'', ''The selected host rejected the machine request.''))"
| "failureForCreateError (HostForkContractError _ _) =
     (503, ''host_result_pending'', ''The host result is not yet known; retry with the same Idempotency-Key.'')"
| "failureForCreateError _ = (500, ''internal_error'', ''The machine request could not be completed.'')"

definition persisted_create_failure :: "machine \<Rightarrow> error option" where
  "persisted_create_failure m =
     (case (ma_createFailureStatus m, ma_createFailureCode m, ma_createFailureMessage m) of
        (Some status, Some code, Some message) \<Rightarrow> Some (ReplayedCreateFailure status code message)
      | _ \<Rightarrow> None)"

definition hash_conflict :: "string \<Rightarrow> machine \<Rightarrow> bool" where
  "hash_conflict hash m \<longleftrightarrow> present (ma_idempotencyRequestHash m) \<and> ma_idempotencyRequestHash m \<noteq> Some hash"

definition create_conflict :: error where
  "create_conflict = IdempotencyConflict ''Idempotency-Key was already used with a different request.''"

text \<open>A machine already stored under the key: a conflict, a replayed failure, or the machine.\<close>

definition replay_check :: "string \<Rightarrow> machine \<Rightarrow> error option" where
  "replay_check hash m =
     (if hash_conflict hash m then Some create_conflict else persisted_create_failure m)"

definition new_machine ::
    "world \<Rightarrow> create_machine \<Rightarrow> resources \<Rightarrow> net_decl \<Rightarrow> string \<Rightarrow> machine" where
  "new_machine w input r policy hash =
     \<lparr>ma_id = w_machine_id w 0, ma_organizationId = cm_organizationId input, ma_projectId = cm_projectId input,
      ma_hostId = None, ma_hostAddress = None, ma_hostMachineId = None, ma_runtimeCohortId = None,
      ma_sourceSha256 = None, ma_leaseId = w_uuid w 0, ma_leaseGeneration = None, ma_state = Requested,
      ma_stateReason = None, ma_region = cm_region input, ma_architecture = cm_architecture input,
      ma_resources = r, ma_networkPolicy = Some policy, ma_template = cm_template input,
      ma_templateId = cm_templateId input, ma_hostTemplateName = None, ma_ociReference = cm_ociReference input,
      ma_requestedTtlSeconds = Some (js_int (cm_ttlSeconds input)), ma_ready = False, ma_createdAt = w_clock w 0,
      ma_startedAt = None, ma_readyAt = None, ma_stoppedAt = None,
      ma_expiresAt = w_clock w 0 + js_int (cm_ttlSeconds input) * 1000,
      ma_idempotencyRequestHash = Some hash, ma_createFailureStatus = None, ma_createFailureCode = None,
      ma_createFailureMessage = None, ma_parentId = None, ma_forkOperationId = None\<rparr>"

text \<open>What the \<open>try\<close> block had reached: the reservation, the host's machine, the error.\<close>

record create_attempt =
  at_reservation :: "reservation option"
  at_created :: "host_machine option"
  at_error :: "error option"

definition create_attempt_at ::
    "world \<Rightarrow> create_machine \<Rightarrow> resources \<Rightarrow> net_decl \<Rightarrow> machine \<Rightarrow> machine \<Rightarrow> fleet \<Rightarrow> create_attempt \<times> fleet" where
  "create_attempt_at w input r policy machine persisted s =
     (case call_tx (reserve (w_pgdiv w) (w_policy w) (w_locked w)
          \<lparr>sr_organizationId = cm_organizationId input, sr_projectId = cm_projectId input,
           sr_region = cm_region input, sr_architecture = cm_architecture input, sr_resources = r,
           sr_templateId = cm_templateId input, sr_machineId = Some (ma_id machine)\<rparr> (w_clock w 3)) s of
        (Inl e, s1) \<Rightarrow> (\<lparr>at_reservation = None, at_created = None, at_error = Some e\<rparr>, s1)
      | (Inr rv, s1) \<Rightarrow>
     (case (if rv_assignmentCommitted rv then (Inr (), s1)
            else call_do (assign (w_uuid w 3) (ma_id machine) rv (w_clock w 4)) s1) of
        (Inl e, s2) \<Rightarrow> (\<lparr>at_reservation = Some rv, at_created = None, at_error = Some e\<rparr>, s2)
      | (Inr _, s2) \<Rightarrow>
     (case host_create (w_host w) (rv_address rv)
          \<lparr>ch_leaseId = ma_leaseId machine,
           ch_leaseGeneration = the (coalesce (ma_leaseGeneration machine) (Some 1)),
           ch_idempotencyKey = ma_id machine,
           ch_template = coalesce (cm_template input) (ma_hostTemplateName persisted),
           ch_ociReference = cm_ociReference input, ch_ttlSeconds = js_int (cm_ttlSeconds input),
           ch_resources = r, ch_networkPolicy = policy,
           ch_metadata = [(''public_machine_id'', ma_id machine)],
           ch_runtimeCohortId = rv_runtimeCohortId rv, ch_sourceSha256 = rv_sourceSha256 rv\<rparr> of
        Inl e \<Rightarrow> (\<lparr>at_reservation = Some rv, at_created = None, at_error = Some e\<rparr>, s2)
      | Inr hm \<Rightarrow>
     (case call_do (observeHost (w_uuid w 4) (ma_id machine) hm (w_clock w 5)) s2 of
        (Inl e, s3) \<Rightarrow> (\<lparr>at_reservation = Some rv, at_created = Some hm, at_error = Some e\<rparr>, s3)
      | (Inr _, s3) \<Rightarrow> (\<lparr>at_reservation = Some rv, at_created = Some hm, at_error = None\<rparr>, s3)))))"

text \<open>
  The \<open>catch\<close> block: an ambiguous host error leaves the machine to reconciliation; a machine the
  host did create is destroyed, and if that fails too the reservation is kept for reconciliation;
  otherwise the failure is recorded and the reservation released.
\<close>

definition create_compensate :: "world \<Rightarrow> machine \<Rightarrow> uuid \<Rightarrow> create_attempt \<Rightarrow> error \<Rightarrow> unit svc" where
  "create_compensate w machine token att e =
     (case (at_reservation att, at_created att) of
        (Some rv, Some hm) \<Rightarrow>
          (case host_destroy (w_host w) (rv_address rv) (hm_id hm) (ma_leaseId machine) of
             Inl _ \<Rightarrow>
               bind_svc (call_tx (transition (w_uuid w 5) (ma_id machine) [Starting, Running] Stopping
                   (Some ''create persistence failed; compensation pending'') (w_clock w 6)))
                 (\<lambda>_. bind_svc (call_do (releaseCreateClaim (ma_id machine) token)) (\<lambda>_. throw_svc e))
           | Inr _ \<Rightarrow> return_svc ())
      | _ \<Rightarrow> return_svc ())"

definition create_record_failure :: "world \<Rightarrow> resources \<Rightarrow> machine \<Rightarrow> uuid \<Rightarrow> create_attempt \<Rightarrow> error \<Rightarrow> (machine \<times> bool) svc" where
  "create_record_failure w r machine token att e =
     (case failureForCreateError e of (status, code, message) \<Rightarrow>
        bind_svc (call_tx (failCreate (w_uuid w 6) (ma_id machine) token status code message (w_clock w 7)))
          (\<lambda>failed.
            bind_svc
              (case at_reservation att of
                 Some rv \<Rightarrow>
                   (if failed then call_do (release (rv_hostId rv) r (Some (ma_id machine)) (w_clock w 8))
                    else return_svc ())
               | None \<Rightarrow> return_svc ())
              (\<lambda>_. bind_svc (if failed then return_svc () else call_do (releaseCreateClaim (ma_id machine) token))
                (\<lambda>_. throw_svc e))))"

definition create_recover ::
    "world \<Rightarrow> resources \<Rightarrow> machine \<Rightarrow> uuid \<Rightarrow> bool \<Rightarrow> create_attempt \<Rightarrow> error \<Rightarrow> (machine \<times> bool) svc" where
  "create_recover w r machine token replayed att e =
     (if is_host_error e \<and> host_ambiguous e \<and> at_created att = None
      then bind_svc (call_read (find_machine (w_net w) (ma_id machine) (ma_organizationId machine) None))
        (\<lambda>pending. return_svc (the (coalesce pending (Some machine)), replayed))
      else bind_svc (create_compensate w machine token att e)
        (\<lambda>_. create_record_failure w r machine token att e))"

text \<open>From the claim on.\<close>

definition create_claimed ::
    "world \<Rightarrow> create_machine \<Rightarrow> resources \<Rightarrow> net_decl \<Rightarrow> machine \<Rightarrow> uuid \<Rightarrow> bool \<Rightarrow> (machine \<times> bool) svc" where
  "create_claimed w input r policy machine token replayed =
     bind_svc (call_read (find_machine (w_net w) (ma_id machine) (ma_organizationId machine) (Some (ma_projectId machine))))
       (\<lambda>persisted s.
         (case create_attempt_at w input r policy machine (the (coalesce persisted (Some machine))) s of
            (att, s1) \<Rightarrow>
              (case at_error att of
                 Some e \<Rightarrow> create_recover w r machine token replayed att e s1
               | None \<Rightarrow>
                   bind_svc (call_read (find_machine (w_net w) (ma_id machine) (ma_organizationId machine) None))
                     (\<lambda>m. return_svc (the (coalesce m (Some machine)), replayed)) s1)))"

definition create_continue ::
    "world \<Rightarrow> create_machine \<Rightarrow> resources \<Rightarrow> net_decl \<Rightarrow> string \<Rightarrow> machine \<Rightarrow> bool \<Rightarrow> (machine \<times> bool) svc" where
  "create_continue w input r policy hash machine replayed =
     bind_svc (call_tx (claimCreate (w_uuid w 2) (ma_id machine) (w_clock w 2)))
       (\<lambda>claim.
         if present claim then create_claimed w input r policy machine (the claim) replayed
         else
           bind_svc (call_read (find_machine (w_net w) (ma_id machine) (ma_organizationId machine) (Some (ma_projectId machine))))
             (\<lambda>found.
               (let pending = the (coalesce found (Some machine)) in
                case replay_check hash pending of
                  Some e \<Rightarrow> throw_svc e
                | None \<Rightarrow> return_svc (pending, True))))"

definition create_existing ::
    "world \<Rightarrow> create_machine \<Rightarrow> resources \<Rightarrow> net_decl \<Rightarrow> string \<Rightarrow> machine \<Rightarrow> (machine \<times> bool) svc" where
  "create_existing w input r policy hash m =
     (case replay_check hash m of
        Some e \<Rightarrow> throw_svc e
      | None \<Rightarrow>
          (if ma_state m \<noteq> Requested then return_svc (m, True)
           else create_continue w input r policy hash m True))"

definition create_lookup :: "world \<Rightarrow> create_machine \<Rightarrow> machine option svc" where
  "create_lookup w input =
     call_read (findByIdempotency (w_net w) (cm_organizationId input) (cm_projectId input) (cm_idempotencyKey input))"

text \<open>A failed insert may have lost a race for the key: then the winner's machine is taken.\<close>

definition create_new :: "world \<Rightarrow> create_machine \<Rightarrow> resources \<Rightarrow> net_decl \<Rightarrow> string \<Rightarrow> (machine \<times> bool) svc" where
  "create_new w input r policy hash s =
     (let machine = new_machine w input r policy hash in
      case call_do (insertRequested (w_uuid w 1) machine (cm_idempotencyKey input) (w_clock w 1)) s of
        (Inr _, s1) \<Rightarrow> create_continue w input r policy hash machine False s1
      | (Inl e, s1) \<Rightarrow>
          bind_svc (create_lookup w input)
            (\<lambda>raced. case raced of
                Some m \<Rightarrow> create_existing w input r policy hash m
              | None \<Rightarrow> throw_svc e) s1)"

definition create :: "world \<Rightarrow> create_machine \<Rightarrow> (machine \<times> bool) svc" where
  "create w input =
     (case create_validate (w_net w) input of
        Inl e \<Rightarrow> throw_svc e
      | Inr (r, policy) \<Rightarrow>
          (let hash = create_hash (w_sha256 w) input r policy in
           bind_svc (create_lookup w input)
             (\<lambda>existing.
               case existing of
                 Some m \<Rightarrow> create_existing w input r policy hash m
               | None \<Rightarrow> create_new w input r policy hash)))"

section \<open>Destroy\<close>

definition destroy :: "world \<Rightarrow> string \<Rightarrow> uuid \<Rightarrow> uuid option \<Rightarrow> bool svc" where
  "destroy w i org project =
     bind_svc (call_read (find_machine (w_net w) i org project))
       (\<lambda>found.
         case found of
           None \<Rightarrow> return_svc False
         | Some m \<Rightarrow>
             (if terminal (ma_state m) then return_svc True
              else
                bind_svc (call_tx (transition (w_uuid w 0) i [Requested, Placing, Starting, Running] Stopping None (w_clock w 0)))
                  (\<lambda>changed.
                    if \<not> changed then return_svc True
                    else if present (ma_hostId m) \<and> present (ma_hostAddress m) \<and> \<not> present (ma_hostMachineId m)
                    then return_svc True
                    else
                      bind_svc
                        (if present (ma_hostAddress m) \<and> present (ma_hostMachineId m)
                         then (case host_destroy (w_host w) (the (ma_hostAddress m)) (the (ma_hostMachineId m)) (ma_leaseId m) of
                                 Inl e \<Rightarrow> (if is_not_found e then return_svc () else throw_svc e)
                               | Inr _ \<Rightarrow> return_svc ())
                         else return_svc ())
                        (\<lambda>_. bind_svc (call_tx (transition (w_uuid w 1) i [Stopping] Stopped None (w_clock w 1)))
                          (\<lambda>_. bind_svc
                            (if present (ma_hostId m)
                             then call_do (release (the (ma_hostId m)) (ma_resources m) (Some (ma_id m)) (w_clock w 2))
                             else return_svc ())
                            (\<lambda>_. return_svc True))))))"

section \<open>Extend\<close>

record extend_result =
  er_machine :: "machine option"
  er_replayed :: bool
  er_applied :: bool

definition extend_hash :: "(string \<Rightarrow> string) \<Rightarrow> string \<Rightarrow> js_number \<Rightarrow> string" where
  "extend_hash sha256 i ttl = sha256 (stringify (JObj [(''machineId'', JStr i), (''ttlSeconds'', JNum ttl)]))"

definition extend_machine :: "world \<Rightarrow> string \<Rightarrow> uuid \<Rightarrow> uuid option \<Rightarrow> js_number \<Rightarrow> string \<Rightarrow> extend_result svc" where
  "extend_machine w i org project ttl key =
     (if \<not> idempotency_key_ok key
      then throw_svc (InvalidMachineRequest ''A valid Idempotency-Key header is required.'')
      else if \<not> ttl_ok ttl then throw_svc (InvalidMachineRequest ''ttlSeconds must be between 15 and 86400'')
      else
        (let find_it = call_read (find_machine (w_net w) i org project) in
         bind_svc find_it
           (\<lambda>found.
             case found of
               None \<Rightarrow> return_svc \<lparr>er_machine = None, er_replayed = False, er_applied = False\<rparr>
             | Some m \<Rightarrow>
                 (case canonical_policy (w_net w) (case ma_networkPolicy m of
                      None \<Rightarrow> JObj [(''mode'', JStr ''off'')] | Some d \<Rightarrow> decl_json d) of
                    Inl e \<Rightarrow> throw_svc (PlainError e)
                  | Inr policy \<Rightarrow>
                 (if nd_mode policy \<noteq> NetOff
                  then throw_svc (ManagedNetworkEgressUnavailable
                    ''Machines with a legacy managed egress policy cannot be extended.'')
                  else
                    (let hash = extend_hash (w_sha256 w) (ma_id m) ttl in
                     bind_svc (call_tx (beginExtend (w_pgdiv w) (w_policy w) (w_seq w) i org (ma_projectId m) key hash
                         (js_int ttl) (w_clock w 0)))
                       (\<lambda>begun.
                         case begun of
                           None \<Rightarrow> return_svc \<lparr>er_machine = None, er_replayed = False, er_applied = False\<rparr>
                         | Some x \<Rightarrow>
                             (if xo_requestHash x \<noteq> hash then throw_svc create_conflict
                              else
                                bind_svc find_it
                                  (\<lambda>now_found.
                                    (let current = the (coalesce now_found (Some m)) in
                                     case xo_resultExpiresAt x of
                                       Some t \<Rightarrow> return_svc \<lparr>er_machine = Some (current\<lparr>ma_expiresAt := t\<rparr>),
                                         er_replayed = True, er_applied = True\<rparr>
                                     | None \<Rightarrow>
                                         (if ma_state current \<notin> {Starting, Running} \<or> \<not> present (ma_hostAddress current) \<or>
                                             \<not> present (ma_hostMachineId current)
                                          then return_svc \<lparr>er_machine = Some current, er_replayed = xo_replayed x, er_applied = False\<rparr>
                                          else
                                            bind_svc (call_host (host_extend (w_host w) (the (ma_hostAddress current))
                                                (the (ma_hostMachineId current)) (ma_leaseId current) key (xo_targetExpiresAt x)))
                                              (\<lambda>hm.
                                                case date_ms (hm_expires_at hm) of
                                                  Some t \<Rightarrow>
                                                    (if t < xo_targetExpiresAt x
                                                     then throw_svc (batch_failed ''host extend response did not honor the absolute expiry target'')
                                                     else
                                                       bind_svc (call_tx (completeExtend (xo_id x) i org t (w_clock w 1)))
                                                         (\<lambda>recorded.
                                                           bind_svc find_it
                                                             (\<lambda>done. return_svc
                                                               \<lparr>er_machine = Some ((the (coalesce done (Some current)))\<lparr>ma_expiresAt := recorded\<rparr>),
                                                                er_replayed = xo_replayed x, er_applied = True\<rparr>)))
                                                | None \<Rightarrow> throw_svc (batch_failed ''host extend response did not honor the absolute expiry target'')))))))))))))"


section \<open>Fork\<close>

record fork_result =
  fr_operationId :: uuid
  fr_auditOperationId :: uuid
  fr_idempotencyKey :: string
  fr_machines :: "machine list"
  fr_replayed :: bool
  fr_pending :: bool
  fr_cleanupPending :: bool

record failure =
  fl_status :: int
  fl_code :: string
  fl_message :: string

definition persisted_fork_failure :: "fork_operation \<Rightarrow> error option" where
  "persisted_fork_failure fo =
     (case (fo_failureStatus fo, fo_failureCode fo, fo_failureMessage fo) of
        (Some status, Some code, Some message) \<Rightarrow>
          (if fo_state fo = ForkFailed
           then Some (ReplayedForkFailure status code message (Some (fo_auditOperationId fo))) else None)
      | _ \<Rightarrow> None)"

definition forkResult :: "fork_operation \<Rightarrow> bool \<Rightarrow> error + fork_result" where
  "forkResult fo replayed =
     (case persisted_fork_failure fo of
        Some e \<Rightarrow> Inl e
      | None \<Rightarrow> Inr
          \<lparr>fr_operationId = fo_id fo, fr_auditOperationId = fo_auditOperationId fo,
           fr_idempotencyKey = fo_idempotencyKey fo, fr_machines = fo_children fo, fr_replayed = replayed,
           fr_pending = (fo_state fo = Pending),
           fr_cleanupPending = (fo_state fo = Pending \<and> fo_cleanupRequested fo)\<rparr>)"

text \<open>
  \<open>cleanupForkObservations\<close>, a loop over what the host reported: the machines it asked the host to
  destroy, the children they stand for, and whether every step went as expected.
\<close>

record cleanup_state =
  cl_complete :: bool
  cl_destroyed :: "string list"
  cl_cleaned :: "string list"

definition cleanup_step :: "host_client \<Rightarrow> fork_operation \<Rightarrow> host_machine \<Rightarrow> cleanup_state \<Rightarrow> cleanup_state" where
  "cleanup_step hc fo hm c =
     (case (case hm_meta hm ''public_machine_id'' of
              None \<Rightarrow> None
            | Some i \<Rightarrow> (if i = [] then None else find (\<lambda>m. ma_id m = i) (rev (fo_children fo)))) of
        None \<Rightarrow> c\<lparr>cl_complete := False\<rparr>
      | Some child \<Rightarrow>
          (if hm_id hm = [] \<or> hm_lease_id hm \<noteq> Some (ma_leaseId child) \<or> hm_id hm \<in> set (cl_destroyed c) \<or>
              ma_id child \<in> set (cl_cleaned c)
           then c\<lparr>cl_complete := False\<rparr>
           else
             (let ok = (case host_destroy hc (fo_sourceHostAddress fo) (hm_id hm) (ma_leaseId child) of
                    Inl e \<Rightarrow> is_not_found e | Inr _ \<Rightarrow> True) in
              c\<lparr>cl_complete := cl_complete c \<and> ok, cl_destroyed := hm_id hm # cl_destroyed c,
                cl_cleaned := ma_id child # cl_cleaned c\<rparr>)))"

definition cleanup_run :: "host_client \<Rightarrow> fork_operation \<Rightarrow> host_machine list \<Rightarrow> cleanup_state" where
  "cleanup_run hc fo observed =
     fold (cleanup_step hc fo) observed
       \<lparr>cl_complete = (length observed = length (fo_children fo)), cl_destroyed = [], cl_cleaned = []\<rparr>"

definition cleanupForkObservations :: "host_client \<Rightarrow> fork_operation \<Rightarrow> host_machine list \<Rightarrow> bool" where
  "cleanupForkObservations hc fo observed =
     (let c = cleanup_run hc fo observed in
      cl_complete c \<and> length (cl_destroyed c) = length (fo_children fo) \<and>
      length (cl_cleaned c) = length (fo_children fo))"

definition finishForkCleanup ::
    "world \<Rightarrow> fork_operation \<Rightarrow> failure \<Rightarrow> host_machine list \<Rightarrow> bool \<Rightarrow> bool \<Rightarrow> fork_result svc" where
  "finishForkCleanup w fo fl observed replayed hostConfirmed =
     bind_svc
       (if fo_cleanupRequested fo \<and> present (fo_cleanupClaimToken fo) then return_svc fo
        else requestForkCleanup (w_net w) (w_uuid w 10) (fo_id fo) (fl_status fl) (fl_code fl) (fl_message fl) (w_clock w 10))
       (\<lambda>cleanup.
         if fo_state cleanup \<noteq> Pending \<or> \<not> present (fo_cleanupClaimToken cleanup)
         then call_host (forkResult cleanup replayed)
         else
           (let token = the (fo_cleanupClaimToken cleanup) in
            if \<not> (hostConfirmed \<or> cleanupForkObservations (w_host w) cleanup observed)
            then bind_svc (call_do (releaseForkCleanupClaim (fo_id cleanup) token (w_clock w 11)))
              (\<lambda>_. call_host (forkResult cleanup replayed))
            else bind_svc (completeForkCleanup (w_net w) (fo_id cleanup) token (w_clock w 12))
              (\<lambda>done. call_host (forkResult done replayed))))"

text \<open>
  How the \<open>try\<close> block of \<open>fork\<close> ends: with a result, or by returning the promise of a cleanup. The
  promise is returned without \<open>await\<close>, so the \<open>catch\<close> block around it does not see its rejection.
\<close>

datatype fork_flow =
    Done fork_result
  | Cleanup fork_operation failure "host_machine list" bool

definition fork_child_request :: "fork_operation \<Rightarrow> machine \<Rightarrow> fork_child" where
  "fork_child_request fo child =
     \<lparr>fc_leaseId = ma_leaseId child, fc_leaseGeneration = the (coalesce (ma_leaseGeneration child) (Some 1)),
      fc_expiresAt = ma_expiresAt child,
      fc_networkPolicy = the (coalesce (ma_networkPolicy child) (Some net_off)),
      fc_resources = ma_resources child,
      fc_metadata = [(''public_machine_id'', ma_id child), (''parent_machine_id'', fo_sourceMachineId fo),
        (''fork_operation_id'', fo_id fo)],
      fc_runtimeCohortId = ma_runtimeCohortId child, fc_sourceSha256 = ma_sourceSha256 child\<rparr>"

definition cleanup_failure :: "fork_operation \<Rightarrow> failure" where
  "cleanup_failure fo =
     \<lparr>fl_status = the (coalesce (fo_cleanupFailureStatus fo) (Some 502)),
      fl_code = the (coalesce (fo_cleanupFailureCode fo) (Some ''fork_batch_failed'')),
      fl_message = the (coalesce (fo_cleanupFailureMessage fo)
        (Some ''The fork batch is awaiting confirmed host cleanup.''))\<rparr>"

definition batch_failure :: "string \<Rightarrow> failure" where
  "batch_failure message = \<lparr>fl_status = 502, fl_code = ''fork_batch_failed'', fl_message = message\<rparr>"

definition source_rejected :: "error \<Rightarrow> bool" where
  "source_rejected e \<longleftrightarrow> is_host_error e \<and> host_status e \<in> {Some 404, Some 409, Some 422, Some 501}"

definition fork_rejection :: "error \<Rightarrow> failure" where
  "fork_rejection e =
     (if is_host_error e then
        (if source_rejected e
         then \<lparr>fl_status = 422, fl_code = ''machine_not_forkable'',
           fl_message = ''The source host cannot create a live snapshot of this machine.''\<rparr>
         else \<lparr>fl_status = 502, fl_code = ''host_request_failed'',
           fl_message = ''The source host rejected the fork request.''\<rparr>)
      else \<lparr>fl_status = 500, fl_code = ''internal_error'', fl_message = ''The fork request could not be completed.''\<rparr>)"

text \<open>The inner \<open>catch\<close>: the host's answer to the fork request was an error.\<close>

definition release_cleanup_claim :: "world \<Rightarrow> fork_operation \<Rightarrow> unit svc" where
  "release_cleanup_claim w active =
     (if present (fo_cleanupClaimToken active)
      then call_do (releaseForkCleanupClaim (fo_id active) (the (fo_cleanupClaimToken active)) (w_clock w 5))
      else return_svc ())"

definition fork_host_error :: "world \<Rightarrow> fork_operation \<Rightarrow> bool \<Rightarrow> error \<Rightarrow> fork_flow svc" where
  "fork_host_error w active replayed e =
     (if is_host_error e \<and> host_code e = Some ''fork_batch_cleaned''
      then return_svc (Cleanup active (batch_failure
        ''The host returned an incomplete fork batch and removed all reserved children.'') [] True)
      else case e of
          HostForkContractError _ observed \<Rightarrow>
            return_svc (Cleanup active (batch_failure ''The host returned an incomplete or invalid fork batch.'') observed False)
        | _ \<Rightarrow>
            (if is_host_error e \<and> host_ambiguous e
             then bind_svc (release_cleanup_claim w active)
               (\<lambda>_. return_svc (Cleanup (active\<lparr>fo_cleanupClaimToken := None\<rparr>) (batch_failure
                 ''The host result was ambiguous; the fork remains hidden until cleanup is confirmed.'') [] False))
             else if fo_cleanupRequested active
             then bind_svc (release_cleanup_claim w active)
               (\<lambda>_. bind_svc (call_host (forkResult active replayed)) (\<lambda>r. return_svc (Done r)))
             else
               (let fl = fork_rejection e in
                bind_svc (failFork (w_net w) (fo_id active) (fl_status fl) (fl_code fl) (fl_message fl) (w_clock w 6))
                  (\<lambda>failed. bind_svc (call_host (forkResult failed replayed)) (\<lambda>r. return_svc (Done r))))))"

definition host_terminal :: "host_machine list \<Rightarrow> bool" where
  "host_terminal observed = list_ex (\<lambda>hm. hm_status hm \<in> {''stopped'', ''failed'', ''lost''}) observed"

definition fork_observed :: "world \<Rightarrow> fork_operation \<Rightarrow> fork_operation \<Rightarrow> bool \<Rightarrow> host_machine list \<Rightarrow> fork_flow svc" where
  "fork_observed w fo active replayed observed =
     (if fo_cleanupRequested active then return_svc (Cleanup active (cleanup_failure active) observed False)
      else if host_terminal observed \<or> (\<not> all_ready observed \<and> fo_deadlineReached fo)
      then return_svc (Cleanup active (batch_failure
        (if host_terminal observed then ''A fork child became terminal before the entire batch was ready.''
         else ''The fork batch did not become ready before its shared startup deadline.'')) observed False)
      else
        (\<lambda>s. case completeFork (w_net w) (fo_id active) observed (w_clock w 7) s of
             (Inl e, s') \<Rightarrow>
               (if is_host_error e \<and> host_ambiguous e
                then (Inr (Cleanup active (batch_failure
                  ''The host fork batch did not match the durable child reservation.'') observed False), s')
                else (Inl e, s'))
           | (Inr completed, s') \<Rightarrow> (map_sum id Done (forkResult completed replayed), s')))"

definition fork_try :: "world \<Rightarrow> string \<Rightarrow> fork_operation \<Rightarrow> fork_flow svc" where
  "fork_try w key fo =
     (let replayed = fo_replayed fo in
      bind_svc
        (if fo_cleanupRequested fo
         then requestForkCleanup (w_net w) (w_uuid w 3) (fo_id fo) (fl_status (cleanup_failure fo))
           (fl_code (cleanup_failure fo)) (fl_message (cleanup_failure fo)) (w_clock w 3)
         else return_svc fo)
        (\<lambda>active.
          if fo_cleanupRequested fo \<and> fo_state active \<noteq> Pending
          then bind_svc (call_host (forkResult active replayed)) (\<lambda>r. return_svc (Done r))
          else
            (case host_fork (w_host w) (fo_sourceHostAddress active) (fo_sourceHostMachineId active)
                (fo_sourceLeaseId active) key (map (fork_child_request active) (fo_children active)) of
               Inl e \<Rightarrow> fork_host_error w active replayed e
             | Inr observed \<Rightarrow> fork_observed w fo active replayed observed)))"

definition is_replayed_fork_failure :: "error \<Rightarrow> bool" where
  "is_replayed_fork_failure e = (case e of ReplayedForkFailure _ _ _ _ \<Rightarrow> True | _ \<Rightarrow> False)"

definition fork_run :: "world \<Rightarrow> string \<Rightarrow> fork_operation \<Rightarrow> fork_result svc" where
  "fork_run w key fo s =
     (case fork_try w key fo s of
        (Inl e, s') \<Rightarrow> (if is_replayed_fork_failure e then (Inl e, s') else (forkResult fo (fo_replayed fo), s'))
      | (Inr (Done r), s') \<Rightarrow> (Inr r, s')
      | (Inr (Cleanup op fl observed confirmed), s') \<Rightarrow>
          finishForkCleanup w op fl observed (fo_replayed fo) confirmed s')"

definition fork_hash :: "(string \<Rightarrow> string) \<Rightarrow> string \<Rightarrow> int \<Rightarrow> string" where
  "fork_hash sha256 i count =
     sha256 (stringify (JObj [(''sourceMachineId'', JStr i), (''count'', JNum (JSInt count))]))"

definition fork :: "world \<Rightarrow> string \<Rightarrow> uuid \<Rightarrow> uuid option \<Rightarrow> js_number \<Rightarrow> string \<Rightarrow> uuid \<Rightarrow> fork_result svc" where
  "fork w i org project count key auditId =
     (if \<not> idempotency_key_ok key
      then throw_svc (InvalidMachineRequest ''A valid Idempotency-Key header is required.'')
      else if \<not> (isSafeInteger count \<and> 1 \<le> js_int count \<and> js_int count \<le> 8)
      then throw_svc (InvalidMachineRequest ''count must be an integer from 1 to 8'')
      else
        bind_svc (call_read (find_machine (w_net w) i org project))
          (\<lambda>found.
            case found of
              None \<Rightarrow> throw_svc (MachineNotForkable ''The source machine was not found.'')
            | Some src \<Rightarrow>
                (case canonical_policy (w_net w) (case ma_networkPolicy src of
                     None \<Rightarrow> JObj [(''mode'', JStr ''off'')] | Some d \<Rightarrow> decl_json d) of
                   Inl e \<Rightarrow> throw_svc (PlainError e)
                 | Inr policy \<Rightarrow>
                (if nd_mode policy \<noteq> NetOff
                 then throw_svc (ManagedNetworkEgressUnavailable
                   ''Machines with a legacy managed egress policy cannot be forked.'')
                 else
                   (let hash = fork_hash (w_sha256 w) (ma_id src) (js_int count) in
                    bind_svc (call_tx (beginFork (w_net w) (w_sha256 w) (w_pgdiv w) (w_policy w)
                        \<lparr>dr_operationId = w_uuid w 0, dr_children = (\<lambda>n. (w_machine_id w n, w_uuid w (100 + n)))\<rparr>
                        \<lparr>fq_sourceMachineId = ma_id src, fq_organizationId = org, fq_projectId = ma_projectId src,
                         fq_idempotencyKey = key, fq_requestHash = hash, fq_count = js_int count,
                         fq_auditOperationId = auditId\<rparr> (w_clock w 0)))
                      (\<lambda>begun.
                        case begun of
                          None \<Rightarrow> throw_svc (MachineNotForkable ''The source machine is not forkable.'')
                        | Some fo \<Rightarrow>
                            (if fo_requestHash fo \<noteq> hash then throw_svc create_conflict
                             else if fo_state fo \<noteq> Pending then call_host (forkResult fo True)
                             else fork_run w key fo)))))))"

section \<open>Exec and presentation\<close>

definition exec :: "world \<Rightarrow> string \<Rightarrow> uuid \<Rightarrow> uuid option \<Rightarrow> string \<Rightarrow> int \<Rightarrow> exec_result option svc" where
  "exec w i org project command timeoutSeconds =
     bind_svc (call_read (find_machine (w_net w) i org project))
       (\<lambda>found.
         case found of
           None \<Rightarrow> return_svc None
         | Some m \<Rightarrow>
             (if \<not> ma_ready m \<or> \<not> present (ma_hostAddress m) \<or> \<not> present (ma_hostMachineId m) then return_svc None
              else call_host (host_exec (w_host w) (the (ma_hostAddress m)) (the (ma_hostMachineId m)) (ma_leaseId m)
                command timeoutSeconds)))"

definition time_field :: "string \<Rightarrow> time option \<Rightarrow> (string \<times> json) list" where
  "time_field k t = opt_field k (map_option toISOString t)"

definition machineJson :: "machine \<Rightarrow> json" where
  "machineJson m = JObj (
     [(''id'', JStr (ma_id m)), (''project_id'', JStr (ma_projectId m)),
      (''state'', JStr (state_text (ma_state m))), (''status'', JStr (state_text (ma_state m))),
      (''ready'', JBool (ma_ready m)), (''region'', JStr (ma_region m)),
      (''architecture'', JStr (architecture_text (ma_architecture m)))] @
     opt_field ''runtime_cohort_id'' (ma_runtimeCohortId m) @ opt_field ''source_sha256'' (ma_sourceSha256 m) @
     [(''resources'', JObj [(''vcpus'', JNum (JSInt (vcpus (ma_resources m)))),
        (''memory_mb'', JNum (JSInt (memoryMb (ma_resources m)))),
        (''disk_mb'', JNum (JSInt (diskMb (ma_resources m))))])] @
     opt_field ''template'' (ma_template m) @ opt_field ''template_id'' (ma_templateId m) @
     opt_field ''oci_reference'' (ma_ociReference m) @
     [(''network_policy'', decl_json (the (coalesce (ma_networkPolicy m) (Some net_off))))] @
     opt_field ''parent_id'' (ma_parentId m) @ [(''created_at'', JStr (toISOString (ma_createdAt m)))] @
     time_field ''started_at'' (ma_startedAt m) @ time_field ''ready_at'' (ma_readyAt m) @
     time_field ''stopped_at'' (ma_stoppedAt m) @ [(''expires_at'', JStr (toISOString (ma_expiresAt m)))] @
     (if ma_state m = Failed \<or> ma_state m = Lost then opt_field ''failure_reason'' (ma_stateReason m) else []))"

section \<open>Calls keep the fleet consistent\<close>

lemma call_read_Inr: "call_read t s = (Inr a, s') \<Longrightarrow> s' = s \<and> t s = Inr a"
  by (auto simp: call_read_def)

lemma sound_find: "sound (bind_svc (call_read t) k) s" if "\<And>a. t s = Inr a \<Longrightarrow> fleet_inv s \<Longrightarrow> sound (k a) s"
  by (rule fp.bind) (auto dest!: call_read_Inr intro: that)

text \<open>A machine the service has read, as the row it stands for.\<close>

lemma found_decided:
  assumes "fleet_inv s" and "find_machine net i org project s = Inr (Some ma)"
  obtains m where "decided s m" and "m_id m = i" and "fromRow net s m = Inr ma"
  using assms(2)
proof (rule find_machine_Some)
  fix m assume "m \<in> set (machines s)" "fork_visible s m" "fromRow net s m = Inr ma" "m_id m = i"
  with visible_decided [OF assms(1)] that show thesis by blast
qed

lemma sound_find_machine:
  assumes "\<And>m ma. fleet_inv s \<Longrightarrow> decided s m \<Longrightarrow> m_id m = i \<Longrightarrow> fromRow net s m = Inr ma \<Longrightarrow> sound (k (Some ma)) s"
    and "sound (k None) s"
  shows "sound (bind_svc (call_read (find_machine net i org project)) k) s"
proof (rule sound_find)
  fix found assume "find_machine net i org project s = Inr found" "fleet_inv s"
  with assms show "sound (k found) s" by (cases found) (auto elim: found_decided)
qed

lemma sound_from_host_destroy:
  "sound_from s (case host_destroy hc a b l of
     Inl e \<Rightarrow> if is_not_found e then return_svc () else throw_svc e | Inr x \<Rightarrow> return_svc ())"
  by (auto split: sum.splits)

lemma sound_if: "sound a s \<Longrightarrow> sound b s \<Longrightarrow> sound (if c then a else b) s"
  by simp

lemma sound_stop_host:
  assumes "sound (k ()) s"
  shows "sound (bind_svc (case host_destroy hc a b l of
     Inl e \<Rightarrow> if is_not_found e then return_svc () else throw_svc e | Inr x \<Rightarrow> return_svc ()) k) s"
    "sound (bind_svc (return_svc ()) k) s"
  using assms by (auto simp: bind_svc_def return_svc_def throw_svc_def advances_def split: sum.splits)

lemma sound_destroy: "sound (destroy w i org project) s"
  unfolding destroy_def
proof (rule sound_find_machine, goal_cases)
  case (1 m ma)
  note inv = 1(1) and d = 1(2) and i = 1(3) and row = 1(4)
  let ?stop = "\<lambda>n from to. call_tx (transition (w_uuid w n) i from to None (w_clock w n))"
  let ?release = "if present (ma_hostId ma)
    then call_do (release (the (ma_hostId ma)) (ma_resources ma) (Some (ma_id ma)) (w_clock w 2)) else return_svc ()"
  have sound_stop: "sound (?stop n from to) t"
    if "fleet_inv t" "fleet_le s t" "\<not> unplaced to" "\<And>st. st \<in> set from \<Longrightarrow> state_le st to" for n "from" to t
    using sound_from_transition [OF inv d i that(3,4)] that(1,2) by (auto simp: lasting_def)
  have rel: "sound ?release t" if t: "fleet_inv t" "fleet_le s t" "in_state terminal t i" for t
  proof (cases "present (ma_hostId ma)")
    case True
    with row i have "m_host_id m = Some (the (ma_hostId ma))" "m_resources m = ma_resources ma" "m_id m = ma_id ma"
      by (auto simp: fromRow_sel present_def falsy_def)
    with sound_release_ended [OF inv t(1,2) d] t(3) i show ?thesis by simp
  qed simp
  have ending: "sound (bind_svc (?stop 1 [Stopping] Stopped) (\<lambda>_. bind_svc ?release (\<lambda>_. return_svc True))) t"
    if t: "fleet_inv t" "fleet_le s t" "in_state stopping_on t i" for t
  proof (rule fp.bind [OF sound_stop [OF t(1,2)]])
    fix b u assume b: "?stop 1 [Stopping] Stopped t = (Inr b, u)" and u: "fleet_inv u" "fleet_le t u"
    then have "transition (w_uuid w 1) i [Stopping] Stopped None (w_clock w 1) t = Inr (b, u)"
      by (auto simp: call_tx_def split: sum.splits)
    then have "in_state terminal u i" using t(3) u(2) by (rule stopped_in_state)
    then show "sound (bind_svc ?release (\<lambda>_. return_svc True)) u"
      using u t(2) by (intro fp.bind rel) (auto intro: fleet_le_trans)
  qed (auto simp: state_le_def unplaced_def)
  show ?case unfolding option.case
  proof (cases "terminal (ma_state ma)")
    case False
    have "sound (bind_svc (?stop 0 [Requested, Placing, Starting, Running] Stopping) k) s"
      if "k False = return_svc True"
        "\<And>t. fleet_inv t \<Longrightarrow> fleet_le s t \<Longrightarrow> in_state stopping_on t i \<Longrightarrow> sound (k True) t" for k
    proof (rule fp.bind [OF sound_stop [OF inv]])
      fix b u assume b: "?stop 0 [Requested, Placing, Starting, Running] Stopping s = (Inr b, u)"
        and u: "fleet_inv u" "fleet_le s u"
      then have t: "transition (w_uuid w 0) i [Requested, Placing, Starting, Running] Stopping None (w_clock w 0) s = Inr (b, u)"
        by (auto simp: call_tx_def split: sum.splits)
      show "sound (k b) u"
      proof (cases b)
        case True
        with t have "in_state (\<lambda>st. st = Stopping) u i" by (simp add: transition_in_state)
        then have "in_state stopping_on u i" by (auto simp: in_state_def stopping_on_def)
        with that(2) u True show ?thesis by simp
      qed (simp add: that(1))
    qed (auto simp: state_le_def unplaced_def)
    note first = this
    let ?on_host = "if present (ma_hostAddress ma) \<and> present (ma_hostMachineId ma)
      then (case host_destroy (w_host w) (the (ma_hostAddress ma)) (the (ma_hostMachineId ma)) (ma_leaseId ma) of
              Inl e \<Rightarrow> (if is_not_found e then return_svc () else throw_svc e) | Inr _ \<Rightarrow> return_svc ())
      else return_svc ()"
    let ?finish = "\<lambda>_. bind_svc (?stop 1 [Stopping] Stopped) (\<lambda>_. bind_svc ?release (\<lambda>_. return_svc True))"
    have host: "sound (bind_svc ?on_host ?finish) t" if "fleet_inv t" "fleet_le s t" "in_state stopping_on t i" for t
      by (cases "present (ma_hostAddress ma) \<and> present (ma_hostMachineId ma)")
        (simp_all only: if_True if_False simp_thms sound_stop_host ending [OF that])
    show "sound (if terminal (ma_state ma) then return_svc True else
        bind_svc (?stop 0 [Requested, Placing, Starting, Running] Stopping)
          (\<lambda>changed. if \<not> changed then return_svc True
             else if present (ma_hostId ma) \<and> present (ma_hostAddress ma) \<and> \<not> present (ma_hostMachineId ma)
             then return_svc True else bind_svc ?on_host ?finish)) s"
      unfolding if_not_P [OF False] by (rule first, simp only: not_False_eq_True if_True)
        (simp only: not_True_eq_False if_False, rule sound_if, simp, rule host)
  qed simp
qed simp

text \<open>Extending and forking: every transaction is sound wherever it runs.\<close>

lemma sound_everywhere: "(\<And>s. sound m s) \<Longrightarrow> sound_from s m"
  by (rule fp.lastingI)

lemma sound_extend: "sound_from s (extend_machine w i org project ttl key)"
  unfolding extend_machine_def Let_def
  by (auto intro!: fp.lasting_bind sound_from_tx split: option.splits sum.splits)

lemma sound_finishForkCleanup: "sound_from s (finishForkCleanup w fo fl observed replayed confirmed)"
  unfolding finishForkCleanup_def Let_def by (auto intro!: fp.lasting_bind sound_from_tx)

lemma sound_release_cleanup_claim: "sound_from s (release_cleanup_claim w fo)"
  unfolding release_cleanup_claim_def by (auto intro!: sound_from_tx)

lemma sound_fork_host_error: "sound_from s (fork_host_error w fo replayed e)"
  unfolding fork_host_error_def Let_def
  by (auto intro!: fp.lasting_bind sound_from_tx sound_release_cleanup_claim split: error.splits)

text \<open>A call that takes the error of another into account keeps what that one committed.\<close>

lemma sound_case:
  assumes "sound_from s\<^sub>0 m" and "\<And>e. sound_from s\<^sub>0 (h e)" and "\<And>a. sound_from s\<^sub>0 (k a)"
    and "\<And>s. f s = (case m s of (Inl e, s') \<Rightarrow> h e s' | (Inr a, s') \<Rightarrow> k a s')"
  shows "sound_from s\<^sub>0 f"
proof (rule fp.lastingI)
  fix s assume s: "fleet_inv s" "fleet_le s\<^sub>0 s"
  obtain r s' where m: "m s = (r, s')" by fastforce
  with assms(1) s have s': "fleet_inv s'" "fleet_le s s'" by (auto simp: lasting_def advances_def)
  with s have le: "fleet_le s\<^sub>0 s'" using fleet_le_trans by blast
  show "sound f s"
  proof (cases r)
    case (Inl e)
    with assms(2) [of e] s' le m show ?thesis
      by (auto simp: assms(4) lasting_def advances_def intro: fleet_le_trans)
  next
    case (Inr a)
    with assms(3) [of a] s' le m show ?thesis
      by (auto simp: assms(4) lasting_def advances_def intro: fleet_le_trans)
  qed
qed

lemma sound_fork_observed: "sound_from s (fork_observed w fo active replayed observed)"
proof -
  let ?c = "completeFork (w_net w) (fo_id active) observed (w_clock w 7)"
  let ?fail = "Cleanup active (batch_failure ''The host fork batch did not match the durable child reservation.'') observed False"
  have "sound_from s (\<lambda>s. case ?c s of
      (Inl e, s') \<Rightarrow> if is_host_error e \<and> host_ambiguous e then (Inr ?fail, s') else (Inl e, s')
    | (Inr completed, s') \<Rightarrow> (map_sum id Done (forkResult completed replayed), s'))"
    by (rule sound_case [where m = ?c and k = "\<lambda>a. call_host (map_sum id Done (forkResult a replayed))"
          and h = "\<lambda>e. if is_host_error e \<and> host_ambiguous e then return_svc ?fail else throw_svc e"])
      (auto intro: sound_from_tx simp: call_host_def return_svc_def throw_svc_def split: prod.splits sum.splits)
  then show ?thesis unfolding fork_observed_def by simp
qed

lemma sound_fork_try: "sound_from s (fork_try w key fo)"
  unfolding fork_try_def Let_def
  by (auto intro!: fp.lasting_bind sound_from_tx sound_fork_host_error sound_fork_observed split: sum.splits)

lemma sound_fork_run: "sound_from s (fork_run w key fo)"
  by (rule sound_case [OF sound_fork_try [of _ w key fo], where
        h = "\<lambda>e. if is_replayed_fork_failure e then throw_svc e else call_host (forkResult fo (fo_replayed fo))"
        and k = "\<lambda>flow. case flow of Done r \<Rightarrow> return_svc r
          | Cleanup op fl observed confirmed \<Rightarrow> finishForkCleanup w op fl observed (fo_replayed fo) confirmed"])
    (auto simp: fork_run_def call_host_def return_svc_def throw_svc_def sound_finishForkCleanup
       split: prod.splits sum.splits fork_flow.splits)

lemma sound_fork: "sound_from s (fork w i org project count key auditId)"
  unfolding fork_def Let_def
  by (auto intro!: fp.lasting_bind sound_from_tx sound_fork_run split: option.splits sum.splits)

subsection \<open>Create\<close>

text \<open>A reservation places the machine on the host it names.\<close>

lemma reserve_places:
  assumes inv: "fleet_inv s" and ok: "reserve g policy locked request now s = Inr (rv, s')"
    and m: "m \<in> set (machines s)" and i: "sr_machineId request = Some (m_id m)"
  obtains m' where "m' \<in> set (machines s')" and "row_le m m'" and "m_host_id m' = Some (rv_hostId rv)"
proof -
  from fleet_invD(5) [OF inv m] i have pres: "present (sr_machineId request)"
    by (auto simp: machine_ok_def present_def falsy_def dest: machine_id_nonempty)
  from ok pres obtain host m0 s1 s2 where
      add: "add_reserved (h_id host) (sr_resources request) s = Inr s1"
      and asg: "assign_machine (m_id m) (h_id host) (map_option rc_id (h_cohort host)) (reserve_source s request host) now s1 = Inr s2"
      and m0: "find (\<lambda>x. m_id x = m_id m \<and> unplaced (m_state x)) (machines s) = Some m0"
      and s': "s' = insert_event (assigned_event (m_id m) (m_organization_id m0)) s2" and rv: "rv_hostId rv = h_id host"
    by (rule reserve_Inr) (use i in auto)
  have ms: "machines s1 = machines s" using update_hosts_Inr(1) [OF add [unfolded add_reserved_def]] by simp
  from find_SomeD [OF m0] mkey.key_unique [OF fleet_invD(1) [OF inv] _ m] have u: "unplaced (m_state m)" by auto
  from asg [unfolded assign_machine_def] obtain st where
      s2: "s2 = s1\<lparr>machines := sql_update (\<lambda>x. m_id x = m_id m \<and> unplaced (m_state x)) st (machines s1)\<rparr>"
      and stored: "stored_as (m\<lparr>m_host_id := Some (h_id host), m_runtime_cohort_id := map_option rc_id (h_cohort host),
          m_source_sha256 := reserve_source s request host, m_state := Starting, m_placed_at := Some now,
          m_startup_deadline_at := Some (now + minutes 2)\<rparr>) (st m)"
    by (rule update_machines_Inr) (use m u ms in auto)
  have "st m \<in> set (machines s')" using m u ms by (auto simp: s' s2 in_sql_update)
  moreover from machine_ok_unplaced [OF fleet_invD(5) [OF inv m] u] u have "row_le m (st m)"
    by (intro row_le_stored [OF _ stored]) (auto simp: row_le_defs state_le_def unplaced_def)
  ultimately show thesis using that stored_as_sel(4) [OF stored] rv by simp
qed

text \<open>
  The machine a call of \<open>create\<close> works on: a decided row of the fleet with the machine's identity
  and the resources of the request.
\<close>

definition creating :: "fleet \<Rightarrow> machine \<Rightarrow> resources \<Rightarrow> machine_row \<Rightarrow> bool" where
  "creating s machine r m \<longleftrightarrow> decided s m \<and> m_id m = ma_id machine \<and> m_resources m = r"

lemma creating_later:
  assumes "fleet_inv s" and "fleet_inv s'" and "fleet_le s s'" and "creating s machine r m"
  obtains m' where "creating s' machine r m'" and "row_le m m'"
proof -
  from assms(4) have m: "decided s m" "m_id m = ma_id machine" "m_resources m = r" by (simp_all add: creating_def)
  from decided_later [OF assms(1-3) m(1)] obtain m' where m': "decided s' m'" "row_le m m'" by blast
  with m(2,3) have "creating s' machine r m'" by (simp add: creating_def row_le_defs)
  with m'(2) that show thesis by blast
qed

lemma creating_undecided: "fleet_inv s \<Longrightarrow> creating s machine r m \<Longrightarrow> \<not> undecided s (ma_id machine)"
  by (auto simp: creating_def dest!: decidedD)

definition attempt_ok :: "fleet \<Rightarrow> machine \<Rightarrow> resources \<Rightarrow> create_attempt \<times> fleet \<Rightarrow> bool" where
  "attempt_ok s machine r a \<longleftrightarrow> fleet_inv (snd a) \<and> fleet_le s (snd a) \<and>
     (\<exists>m. creating (snd a) machine r m \<and>
       (\<forall>rv. at_reservation (fst a) = Some rv \<longrightarrow> m_host_id m = Some (rv_hostId rv)))"

lemma sound_attempt:
  assumes inv: "fleet_inv s" and c: "creating s machine r m"
  shows "attempt_ok s machine r (create_attempt_at w input r policy machine persisted s)"
proof -
  let ?rq = "\<lparr>sr_organizationId = cm_organizationId input, sr_projectId = cm_projectId input,
     sr_region = cm_region input, sr_architecture = cm_architecture input, sr_resources = r,
     sr_templateId = cm_templateId input, sr_machineId = Some (ma_id machine)\<rparr>"
  let ?reserve = "reserve (w_pgdiv w) (w_policy w) (w_locked w) ?rq (w_clock w 3)"
  from c have m: "m \<in> set (machines s)" "m_id m = ma_id machine" "m_resources m = r"
    by (simp_all add: creating_def decided_def)
  from fleet_invD(5) [OF inv m(1)] m(2) have pres: "present (sr_machineId ?rq)"
    by (auto simp: machine_ok_def present_def falsy_def dest: machine_id_nonempty)
  show ?thesis
  proof (cases "?reserve s")
    case (Inl e)
    with inv c show ?thesis by (auto simp: create_attempt_at_def call_tx_def attempt_ok_def)
  next
    case (Inr p)
    then obtain rv s1 where ok: "?reserve s = Inr (rv, s1)" by (cases p) auto
    have res: "m_resources x = sr_resources ?rq" if "x \<in> set (machines s)" "sr_machineId ?rq = Some (m_id x)" for x
      using mkey.key_unique [OF fleet_invD(1) [OF inv] that(1) m(1)] that(2) m(2,3) by simp
    have inv1: "fleet_inv s1" by (rule inv_reserve [OF inv ok pres res])
    have le1: "fleet_le s s1" by (rule le_reserve [OF inv ok pres])
    from inv ok m(1) obtain m1 where m1: "m1 \<in> set (machines s1)" "row_le m m1" "m_host_id m1 = Some (rv_hostId rv)"
      by (rule reserve_places) (use m in simp)
    with c later_decided [OF inv inv1 le1 _ m1(1,2)] have c1: "creating s1 machine r m1"
      by (auto simp: creating_def row_le_defs)
    have fin: "attempt_ok s machine r (\<lparr>at_reservation = Some rv, at_created = x, at_error = e\<rparr>, t)"
      if "fleet_inv t" "fleet_le s1 t" for x e t
      using creating_later [OF inv1 that c1] that m1(3) le1 fleet_le_trans
      by (fastforce simp: attempt_ok_def row_le_defs)
    have "rv_assignmentCommitted rv" by (rule reserve_Inr [OF ok pres])
    moreover have "fleet_inv t" "fleet_le s1 t" if "call_do (observeHost u (ma_id machine) hm now) s1 = (x, t)" for u hm now x t
      using sound_observeHost [OF creating_undecided [OF inv1 c1], of u hm now] that inv1 by (auto simp: advances_def)
    ultimately show ?thesis using ok inv1
      by (auto simp: create_attempt_at_def call_tx_def split: sum.splits prod.splits intro!: fin)
  qed
qed

lemma sound_compensate:
  assumes inv: "fleet_inv s" and c: "creating s machine r m"
  shows "sound_from s (create_compensate w machine token att e)"
proof -
  have "sound_from s (call_tx (transition u (ma_id machine) [Starting, Running] Stopping reason now))" for u reason now
    using c by (intro sound_from_transition [OF inv]) (auto simp: creating_def state_le_def)
  then show ?thesis unfolding create_compensate_def
    by (auto intro!: fp.lasting_bind sound_from_tx split: option.splits sum.splits)
qed

lemma sound_record_failure:
  assumes inv: "fleet_inv s" and c: "creating s machine r m"
    and host: "\<And>rv. at_reservation att = Some rv \<Longrightarrow> m_host_id m = Some (rv_hostId rv)"
  shows "sound_from s (create_record_failure w r machine token att e)"
proof -
  obtain status code message where f: "failureForCreateError e = (status, code, message)" by (metis prod_cases3)
  let ?fail = "call_tx (failCreate (w_uuid w 6) (ma_id machine) token status code message (w_clock w 7))"
  show ?thesis unfolding create_record_failure_def f prod.case
  proof (rule fp.lastingI, rule fp.bind)
    fix t assume t: "fleet_inv t" "fleet_le s t"
    show "sound ?fail t"
      using undecided_later [OF inv t, of m] c by (intro sound_failCreate) (simp add: creating_def)
    fix b u assume "?fail t = (Inr b, u)" and u: "fleet_inv u" "fleet_le t u"
    then have fail: "failCreate (w_uuid w 6) (ma_id machine) token status code message (w_clock w 7) t = Inr (b, u)"
      by (auto simp: call_tx_def split: sum.splits)
    have rel: "sound (call_do (release (rv_hostId rv) r (Some (ma_id machine)) now)) u"
      if "at_reservation att = Some rv" b for rv now
      using that fail c host [OF that(1)] t u
      by (intro sound_release_ended [OF inv u(1) fleet_le_trans [OF t(2) u(2)], of m] failCreate_in_state)
        (auto simp: creating_def)
    then have rel: "sound (case at_reservation att of
           Some rv \<Rightarrow> if b then call_do (release (rv_hostId rv) r (Some (ma_id machine)) (w_clock w 8)) else return_svc ()
         | None \<Rightarrow> return_svc ()) u"
      by (simp split: option.split)
    have "sound (bind_svc (if b then return_svc () else call_do (releaseCreateClaim (ma_id machine) token))
        (\<lambda>_. throw_svc e)) v" for v
      by (rule fp.bind) (auto intro: sound_tx)
    then show "sound (bind_svc
        (case at_reservation att of
           Some rv \<Rightarrow> if b then call_do (release (rv_hostId rv) r (Some (ma_id machine)) (w_clock w 8)) else return_svc ()
         | None \<Rightarrow> return_svc ())
        (\<lambda>_. bind_svc (if b then return_svc () else call_do (releaseCreateClaim (ma_id machine) token))
          (\<lambda>_. throw_svc e))) u"
      by (rule fp.bind [OF rel])
  qed
qed

lemma sound_create_claimed:
  assumes "creating s machine r m"
  shows "sound (create_claimed w input r policy machine token replayed) s"
  unfolding create_claimed_def
proof (rule sound_find)
  fix p assume inv: "fleet_inv s"
  obtain att t where a: "create_attempt_at w input r policy machine (the (coalesce p (Some machine))) s = (att, t)"
    by fastforce
  from sound_attempt [OF inv assms, of w input policy "the (coalesce p (Some machine))"] a obtain m'
    where t: "fleet_inv t" "fleet_le s t" and c: "creating t machine r m'"
      and h: "\<And>rv. at_reservation att = Some rv \<Longrightarrow> m_host_id m' = Some (rv_hostId rv)"
    by (auto simp: attempt_ok_def)
  have "sound_from t (create_recover w r machine token replayed att e)" for e
    unfolding create_recover_def
    by (auto intro!: fp.lasting_bind sound_compensate [OF t(1) c] sound_record_failure [OF t(1) c h])
  then have "sound (create_recover w r machine token replayed att e) t" for e by (rule fp.lastingD)
  moreover have "sound (bind_svc (call_read (find_machine (w_net w) (ma_id machine) (ma_organizationId machine) None))
      (\<lambda>m. return_svc (the (coalesce m (Some machine)), replayed))) t"
    by (rule sound_find) simp
  ultimately show "sound (\<lambda>s. case create_attempt_at w input r policy machine (the (coalesce p (Some machine))) s of
      (att, s1) \<Rightarrow> (case at_error att of Some e \<Rightarrow> create_recover w r machine token replayed att e s1
        | None \<Rightarrow> bind_svc (call_read (find_machine (w_net w) (ma_id machine) (ma_organizationId machine) None))
            (\<lambda>m. return_svc (the (coalesce m (Some machine)), replayed)) s1)) s"
    using t by (auto simp: advances_def a split: option.splits intro: fleet_le_trans)
qed

lemma sound_create_continue:
  assumes c: "creating s machine r m"
  shows "sound (create_continue w input r policy hash machine replayed) s"
  unfolding create_continue_def
proof (rule fp.bind [OF sound_claimCreate], goal_cases)
  case (1 claim t)
  from 1(2-4) c obtain m' where "creating t machine r m'" by (rule creating_later)
  from sound_create_claimed [OF this] show ?case
    by (auto intro!: sound_find simp: Let_def split: option.splits)
qed

text \<open>
  A machine is created again under a stored key only when the hash of its request is the stored
  one; that the resources are then the stored ones is what the hash function is trusted for.
\<close>

definition hash_binds :: "world \<Rightarrow> create_machine \<Rightarrow> fleet \<Rightarrow> bool" where
  "hash_binds w input s =
     (case create_validate (w_net w) input of
        Inl _ \<Rightarrow> True
      | Inr (r, policy) \<Rightarrow>
          list_all (\<lambda>m. m_idempotency_request_hash m = create_hash (w_sha256 w) input r policy \<longrightarrow>
            m_idempotency_key m = Some (cm_idempotencyKey input) \<longrightarrow> m_resources m = r) (machines s))"

lemma sound_create_existing:
  assumes look: "findByIdempotency net org project (cm_idempotencyKey input) s = Inr (Some ma)"
    and bind: "hash_binds w input s" and v: "create_validate (w_net w) input = Inr (r, policy)"
    and hash: "hash = create_hash (w_sha256 w) input r policy"
  shows "sound (create_existing w input r policy hash ma) s"
proof (rule fp.step, goal_cases)
  case 1
  note inv = 1(1)
  from look obtain m where m: "m \<in> set (machines s)" "m_idempotency_key m = Some (cm_idempotencyKey input)"
      and row: "fromRow net s m = Inr ma"
    by (rule findByIdempotency_Some)
  note sel = fromRow_sel [OF row]
  from 1(2) have q: "replay_check hash ma = None" "ma_state ma = Requested"
    by (auto simp: create_existing_def throw_svc_def return_svc_def split: option.splits if_splits)
  have chk: "machine_ok m" by (rule fleet_invD(5) [OF inv m(1)])
  then have "m_idempotency_request_hash m \<noteq> []" by (auto simp: machine_ok_def machine_check_def hex64_def)
  with q(1) sel have "m_idempotency_request_hash m = hash"
    by (auto simp: replay_check_def hash_conflict_def present_def falsy_def split: if_splits)
  with bind v hash m have "m_resources m = r" by (auto simp: hash_binds_def list_all_iff)
  moreover from chk q(2) sel have "decided s m"
    using m(1) by (auto simp: decided_def pending_child_def machine_ok_def list_ex_iff)
  ultimately have "creating s ma r m" using sel by (simp add: creating_def)
  from sound_create_continue [OF this, of w input policy hash True] q inv show ?case
    by (simp add: create_existing_def advances_def)
qed

lemma insertRequested_creating:
  assumes "insertRequested u machine key now s = Inr t"
  obtains m where "creating t machine (ma_resources machine) m"
  using assms
proof (rule insertRequestedE)
  fix s1 assume "insert_machine (requested_row machine key now) s = Inr s1"
    and t: "t = event u (ma_id machine) (ma_organizationId machine) None Requested None s1"
  from this(1) show thesis
  proof (rule insert_machine_Inr)
    fix m assume s1: "s1 = s\<lparr>machines := machines s @ [m]\<rparr>" and st: "stored_as (requested_row machine key now) m"
    from stored_as_sel [OF st] have "creating t machine (ma_resources machine) m"
      by (simp add: t s1 creating_def decided_def pending_child_def requested_row_def list_ex_iff)
    then show thesis by (rule that)
  qed
qed

lemma sound_create_new:
  assumes bind: "hash_binds w input s" and v: "create_validate (w_net w) input = Inr (r, policy)"
    and hash: "hash = create_hash (w_sha256 w) input r policy"
  shows "sound (create_new w input r policy hash) s"
proof (rule fp.step, goal_cases)
  case 1
  let ?machine = "new_machine w input r policy hash"
  let ?ins = "insertRequested (w_uuid w 1) ?machine (cm_idempotencyKey input) (w_clock w 1)"
  show ?case
  proof (cases "?ins s")
    case (Inl e)
    have "sound (bind_svc (create_lookup w input) (\<lambda>raced. case raced of
        Some m \<Rightarrow> create_existing w input r policy hash m | None \<Rightarrow> throw_svc e)) s"
      unfolding create_lookup_def
      by (rule sound_find) (auto intro: sound_create_existing [OF _ bind v hash] split: option.splits)
    with Inl 1(1) show ?thesis by (simp add: create_new_def advances_def call_do_def)
  next
    case (Inr t)
    from sound_insertRequested [of "w_uuid w 1" ?machine "cm_idempotencyKey input" "w_clock w 1" s] 1(1) Inr
    have t: "fleet_inv t" "fleet_le s t" by (simp_all add: advances_def call_do_def)
    have "ma_resources ?machine = r" by (simp add: new_machine_def)
    with Inr obtain m where "creating t ?machine r m" by (metis insertRequested_creating)
    from sound_create_continue [OF this, of w input policy hash False] Inr t show ?thesis
      by (auto simp: create_new_def advances_def call_do_def intro: fleet_le_trans)
  qed
qed

lemma sound_create:
  assumes bind: "hash_binds w input s"
  shows "sound (create w input) s"
proof (cases "create_validate (w_net w) input")
  case (Inl e)
  then show ?thesis by (simp add: create_def)
next
  case (Inr p)
  then obtain r policy where v: "create_validate (w_net w) input = Inr (r, policy)" by (cases p) auto
  show ?thesis unfolding create_def create_lookup_def v Let_def sum.case prod.case
    by (rule sound_find)
      (auto intro: sound_create_existing [OF _ bind v refl] sound_create_new [OF bind v refl] split: option.splits)
qed

section \<open>Deletes and cleanups\<close>

lemma store_rows_fails:
  "r \<in> set rs \<Longrightarrow> P r \<Longrightarrow> (\<And>x. x \<in> set rs \<Longrightarrow> P x \<Longrightarrow> g x = Inl e) \<Longrightarrow> store_rows P g rs = Inl e"
  by (induction rs) (auto split: sum.splits)

text \<open>C32: A machine that has not been placed cannot be deleted: \<open>destroy\<close> moves it to \<open>stopping\<close>, which
  the database refuses for a machine without a host, so the call fails and the machine stays
  requested.\<close>

theorem destroy_requested_fails:
  assumes "fleet_inv s" and "find_machine (w_net w) i org project s = Inr (Some ma)" and "ma_state ma = Requested"
  shows "\<exists>e. destroy w i org project s = (Inl (DbError e), s)"
proof -
  from assms(2) obtain m where m: "m \<in> set (machines s)" "m_id m = i" and row: "fromRow (w_net w) s m = Inr ma"
    by (rule find_machine_Some)
  from assms(3) row have st: "m_state m = Requested" by (simp add: fromRow_sel)
  with machine_ok_unplaced [OF fleet_invD(5) [OF assms(1) m(1)]] have host: "m_host_id m = None" by simp
  let ?P = "\<lambda>m. m_id m = i \<and> m_state m \<in> set [Requested, Placing, Starting, Running]"
  let ?g = "\<lambda>r. store_machine s (Some r) (transition_row Stopping None (w_clock w 0) r)"
  have only: "x = m" if "x \<in> set (machines s)" "m_id x = i" for x
    by (rule mkey.key_unique [OF fleet_invD(1) [OF assms(1)] that(1) m(1)]) (simp add: that(2) m(2))
  have none: "find (\<lambda>h. Some (h_id h) = m_host_id (transition_row Stopping None (w_clock w 0) m)) (hosts s) = None"
    by (simp add: transition_row_def host find_None_list_ex list_ex_iff)
  then obtain e where e: "?g m = Inl (DbError e)"
    by (auto simp: store_machine_def machine_trigger_def transition_row_def host split: option.splits)
  have "store_rows ?P ?g (machines s) = Inl (DbError e)"
    by (rule store_rows_fails [OF m(1)]) (use m(2) st only e in auto)
  then have "call_tx (transition (w_uuid w 0) i [Requested, Placing, Starting, Running] Stopping None (w_clock w 0)) s =
      (Inl (DbError e), s)"
    by (simp add: call_tx_def transition_def update_then_def update_machines_def)
  with assms(2,3) show ?thesis
    by (simp add: destroy_def bind_svc_def call_read_def terminal_def)
qed

subsection \<open>Confirmed cleanup\<close>

definition refused :: "error + unit \<Rightarrow> bool" where
  "refused answer = (case answer of Inl e \<Rightarrow> \<not> is_not_found e | Inr _ \<Rightarrow> False)"

text \<open>A child the host has confirmed to be gone, through an observation that names it.\<close>

definition confirmed_gone :: "host_client \<Rightarrow> fork_operation \<Rightarrow> host_machine list \<Rightarrow> machine \<Rightarrow> bool" where
  "confirmed_gone hc fo observed child \<longleftrightarrow>
     list_ex (\<lambda>hm. hm_meta hm ''public_machine_id'' = Some (ma_id child) \<and> hm_lease_id hm = Some (ma_leaseId child) \<and>
       \<not> refused (host_destroy hc (fo_sourceHostAddress fo) (hm_id hm) (ma_leaseId child))) observed"

definition cleanup_inv :: "host_client \<Rightarrow> fork_operation \<Rightarrow> host_machine list \<Rightarrow> cleanup_state \<Rightarrow> bool" where
  "cleanup_inv hc fo observed c \<longleftrightarrow> distinct (cl_cleaned c) \<and> set (cl_cleaned c) \<subseteq> ma_id ` set (fo_children fo) \<and>
     (cl_complete c \<longrightarrow> (\<forall>child\<in>set (fo_children fo). ma_id child \<in> set (cl_cleaned c) \<longrightarrow> confirmed_gone hc fo observed child))"

lemma cleanup_step_cases:
  obtains (skipped) "cleanup_step hc fo hm c = c\<lparr>cl_complete := False\<rparr>"
  | (destroyed) child where "hm_meta hm ''public_machine_id'' = Some (ma_id child)" "child \<in> set (fo_children fo)"
      "hm_lease_id hm = Some (ma_leaseId child)" "ma_id child \<notin> set (cl_cleaned c)"
      "cleanup_step hc fo hm c =
         c\<lparr>cl_complete := (cl_complete c \<and> \<not> refused (host_destroy hc (fo_sourceHostAddress fo) (hm_id hm) (ma_leaseId child))),
           cl_destroyed := hm_id hm # cl_destroyed c, cl_cleaned := ma_id child # cl_cleaned c\<rparr>"
proof (cases "hm_meta hm ''public_machine_id''")
  case None
  then show ?thesis by (intro skipped) (simp add: cleanup_step_def)
next
  case (Some i)
  show ?thesis
  proof (cases "if i = [] then None else find (\<lambda>m. ma_id m = i) (rev (fo_children fo))")
    case None
    with Some show ?thesis by (intro skipped) (simp add: cleanup_step_def)
  next
    case child: (Some child)
    then have i: "i = ma_id child" "child \<in> set (fo_children fo)"
      by (auto split: if_splits dest!: find_SomeD)
    show ?thesis
    proof (cases "hm_id hm = [] \<or> hm_lease_id hm \<noteq> Some (ma_leaseId child) \<or> hm_id hm \<in> set (cl_destroyed c) \<or>
        ma_id child \<in> set (cl_cleaned c)")
      case True
      with Some child show ?thesis by (intro skipped) (simp add: cleanup_step_def)
    next
      case False
      then have "cleanup_step hc fo hm c =
         c\<lparr>cl_complete := (cl_complete c \<and> \<not> refused (host_destroy hc (fo_sourceHostAddress fo) (hm_id hm) (ma_leaseId child))),
           cl_destroyed := hm_id hm # cl_destroyed c, cl_cleaned := ma_id child # cl_cleaned c\<rparr>"
        by (simp add: cleanup_step_def Some child refused_def Let_def split: sum.splits)
      with False Some i show ?thesis by (intro destroyed [of child]) simp_all
    qed
  qed
qed

lemma cleanup_step_inv:
  assumes "hm \<in> set observed" and inv: "cleanup_inv hc fo observed c" and d: "distinct (map ma_id (fo_children fo))"
  shows "cleanup_inv hc fo observed (cleanup_step hc fo hm c)"
proof (cases rule: cleanup_step_cases [of hc fo hm c])
  case skipped
  with inv show ?thesis by (simp add: cleanup_inv_def)
next
  case (destroyed child)
  have gone: "confirmed_gone hc fo observed child"
    if "\<not> refused (host_destroy hc (fo_sourceHostAddress fo) (hm_id hm) (ma_leaseId child))"
    using assms(1) destroyed(1,3) that by (auto simp: confirmed_gone_def list_ex_iff)
  have only: "x = child" if "x \<in> set (fo_children fo)" "ma_id x = ma_id child" for x
    using d that destroyed(2) by (metis distinct_map inj_onD)
  from inv gone only destroyed(2,4) show ?thesis unfolding destroyed(5) by (auto simp: cleanup_inv_def)
qed

text \<open>When \<open>cleanupForkObservations\<close> reports a fork as cleaned (the other way is the host's own
  \<open>fork_batch_cleaned\<close>, which needs no observations), every reserved child is gone: for
  each of them the host showed a machine with its identity and lease, and confirmed that this
  machine was destroyed or no longer exists.\<close>

theorem cleanupForkObservations_complete:
  assumes "distinct (map ma_id (fo_children fo))" and "cleanupForkObservations hc fo observed"
  shows "list_all (confirmed_gone hc fo observed) (fo_children fo)"
proof -
  let ?c = "cleanup_run hc fo observed"
  have "cleanup_inv hc fo observed ?c"
    unfolding cleanup_run_def
  proof (rule fold_invariant [where Q = "\<lambda>hm. hm \<in> set observed"])
    show "cleanup_inv hc fo observed \<lparr>cl_complete = (length observed = length (fo_children fo)), cl_destroyed = [], cl_cleaned = []\<rparr>"
      by (simp add: cleanup_inv_def)
  qed (simp_all add: cleanup_step_inv assms(1))
  moreover from assms(2) have "cl_complete ?c" "length (cl_cleaned ?c) = length (fo_children fo)"
    by (simp_all add: cleanupForkObservations_def Let_def)
  moreover from calculation assms(1) have "set (cl_cleaned ?c) = ma_id ` set (fo_children fo)"
    unfolding cleanup_inv_def by (metis card_subset_eq distinct_card finite_imageI finite_set length_map set_map)
  ultimately show ?thesis by (auto simp: cleanup_inv_def list_all_iff)
qed

end
