(* ===== verification/UsageJobs.thy ===== *)
theory UsageJobs
  imports MachineService
begin

text \<open>
  Metering a machine's run time: the usage outbox of \<open>jobs/reconcile-machines.ts\<close>, where each
  machine's running time is cut into intervals that are then recorded in the usage ledger, and
  \<open>AuthoritativeMetering.closeHostLoss\<close> of \<open>billing/metering.ts\<close>, which closes the account of a
  machine whose host is gone.

  The workers of \<open>forEachConcurrent\<close> run one after another in the model; every transaction they run
  is a definition of its own.
\<close>

section \<open>Loops\<close>

fun run_each :: "('a \<Rightarrow> fleet \<Rightarrow> error + fleet) \<Rightarrow> 'a list \<Rightarrow> fleet \<Rightarrow> error + fleet" where
  "run_each f [] s = Inr s"
| "run_each f (x # xs) s = (case f x s of Inl e \<Rightarrow> Inl e | Inr s' \<Rightarrow> run_each f xs s')"

fun each_svc :: "(nat \<Rightarrow> 'a \<Rightarrow> unit svc) \<Rightarrow> nat \<Rightarrow> 'a list \<Rightarrow> unit svc" where
  "each_svc f n [] = return_svc ()"
| "each_svc f n (x # xs) = bind_svc (f n x) (\<lambda>_. each_svc f (Suc n) xs)"

definition then_cmp :: "int \<Rightarrow> int \<Rightarrow> int" where
  "then_cmp a b = (if a = 0 then b else a)"

section \<open>A lost host\<close>

definition exception :: "exception_row \<Rightarrow> fleet \<Rightarrow> fleet" where
  "exception x s =
     (if me_key x \<in> set (map me_key (metering_exceptions s)) then s
      else s\<lparr>metering_exceptions := metering_exceptions s @ [x]\<rparr>)"

definition loss_exception :: "machine_row \<Rightarrow> meter_row \<Rightarrow> exception_row" where
  "loss_exception m meter =
     (let reason = (if mm_last_period_end meter \<noteq> None then ''host_lost_without_final''
                    else ''host_lost_without_observation'') in
      \<lparr>me_key = ''meter:'' @ m_id m @ '':'' @ show_int (m_lease_generation m) @ '':host_loss:'' @ reason,
       me_host_id = m_host_id m, me_machine_id = m_id m, me_lease_id = m_lease_id m,
       me_lease_generation = m_lease_generation m, me_host_boot_id = None, me_sequence = None, me_reason = reason\<rparr>)"

definition close_loss :: "string \<Rightarrow> uuid \<Rightarrow> time \<Rightarrow> fleet \<Rightarrow> fleet" where
  "close_loss i lease now s =
     s\<lparr>machine_meter_state := sql_update (\<lambda>x. mm_machine_id x = i \<and> mm_lease_id x = lease)
         (\<lambda>x. x\<lparr>mm_loss_closed_at := coalesce (mm_loss_closed_at x) (Some now)\<rparr>) (machine_meter_state s)\<rparr>"

definition close_usage_row :: "meter_row \<Rightarrow> time \<Rightarrow> machine_row \<Rightarrow> machine_row" where
  "close_usage_row meter now m =
     m\<lparr>m_usage_checkpoint_at := coalesce (mm_last_period_end meter) (m_usage_checkpoint_at m),
       m_usage_finalized_at := coalesce (m_usage_finalized_at m) (Some now)\<rparr>"

definition closeHostLoss :: "string \<Rightarrow> uuid \<Rightarrow> time \<Rightarrow> time option tx" where
  "closeHostLoss i lease now s =
     (case find (\<lambda>m. m_id m = i \<and> m_lease_id m = lease) (machines s) of
        None \<Rightarrow> Inr (None, s)
      | Some m \<Rightarrow>
     (case find (\<lambda>x. mm_machine_id x = i) (machine_meter_state s) of
        None \<Rightarrow> Inr (None, s)
      | Some meter \<Rightarrow>
          (if \<not> mm_start_seen meter then Inr (None, exception (loss_exception m meter) s)
           else
             case update_machines (\<lambda>m. m_id m = i \<and> m_lease_id m = lease) (close_usage_row meter now)
                 (if mm_final_seen meter then s else close_loss i lease now (exception (loss_exception m meter) s)) of
               Inl e \<Rightarrow> Inl e
             | Inr s' \<Rightarrow> Inr (mm_last_period_end meter, s'))))"

section \<open>Filling the outbox\<close>

definition metered :: "fleet \<Rightarrow> machine_row \<Rightarrow> bool" where
  "metered s m = list_ex (\<lambda>x. mm_machine_id x = m_id m \<and> mm_start_seen x) (machine_meter_state s)"

text \<open>\<open>COALESCE(usage_checkpoint_at, started_at)\<close>.\<close>

definition usage_from :: "machine_row \<Rightarrow> time option" where
  "usage_from m = coalesce (m_usage_checkpoint_at m) (m_started_at m)"

definition final_due :: "bool \<Rightarrow> fleet \<Rightarrow> machine_row \<Rightarrow> bool" where
  "final_due exclude s m \<longleftrightarrow>
     terminal (m_state m) \<and> m_started_at m \<noteq> None \<and> m_stopped_at m \<noteq> None \<and> m_usage_finalized_at m = None \<and>
     m_usage_quarantined_at m = None \<and> \<not> (exclude \<and> metered s m) \<and>
     \<not> list_ex (\<lambda>q. q_machine_id q = m_id m \<and> q_final q) (usage_outbox s)"

definition checkpoint_due :: "bool \<Rightarrow> fleet \<Rightarrow> time \<Rightarrow> machine_row \<Rightarrow> bool" where
  "checkpoint_due exclude s now m \<longleftrightarrow>
     m_state m = Running \<and> m_started_at m \<noteq> None \<and> m_usage_quarantined_at m = None \<and>
     \<not> (exclude \<and> metered s m) \<and>
     (case usage_from m of None \<Rightarrow> False | Some t \<Rightarrow> t < now - minutes 5)"

definition usage_interval :: "string \<Rightarrow> machine_row \<Rightarrow> time \<Rightarrow> bool \<Rightarrow> time \<Rightarrow> outbox_row" where
  "usage_interval key m end_at final now =
     \<lparr>q_key = key, q_organization_id = m_organization_id m, q_project_id = m_project_id m, q_machine_id = m_id m,
      q_vcpus = vcpus (m_resources m), q_memory_mb = memoryMb (m_resources m),
      q_period_start = the (usage_from m), q_period_end = end_at, q_final = final, q_source = ''reconciler'',
      q_attempts = 0, q_last_error = None, q_processed_at = None, q_next_attempt_at = now, q_claim_token = None,
      q_claimed_until = None, q_created_at = now\<rparr>"

text \<open>The CHECKs and foreign keys of \<open>usage_outbox\<close>; a conflicting key fails, or is ignored.\<close>

definition insert_outbox :: "bool \<Rightarrow> outbox_row \<Rightarrow> fleet \<Rightarrow> error + fleet" where
  "insert_outbox ignore q s =
     (if q_vcpus q \<le> 0 \<or> q_memory_mb q \<le> 0 \<or> q_period_end q < q_period_start q
      then Inl (DbError ''usage_outbox check constraint'')
      else if q_key q \<in> set (map q_key (usage_outbox s))
      then (if ignore then Inr s else Inl (DbError ''usage_outbox_pkey''))
      else if \<not> list_ex (\<lambda>p. p_id p = q_project_id q \<and> p_organization_id p = q_organization_id q) (projects s)
      then Inl (DbError ''usage_outbox_project_id_organization_id_fkey'')
      else if \<not> list_ex (\<lambda>m. m_id m = q_machine_id q \<and> m_organization_id m = q_organization_id q) (machines s)
      then Inl (DbError ''usage_outbox_machine_id_organization_id_fkey'')
      else Inr (s\<lparr>usage_outbox := usage_outbox s @ [q]\<rparr>))"

definition set_checkpoint :: "string \<Rightarrow> time \<Rightarrow> fleet \<Rightarrow> error + fleet" where
  "set_checkpoint i t = update_machines (\<lambda>m. m_id m = i) (\<lambda>m. m\<lparr>m_usage_checkpoint_at := Some t\<rparr>)"

definition quarantine_usage :: "string \<Rightarrow> string \<Rightarrow> time \<Rightarrow> fleet \<Rightarrow> error + fleet" where
  "quarantine_usage i reason now =
     update_machines (\<lambda>m. m_id m = i \<and> m_usage_quarantined_at m = None)
       (\<lambda>m. m\<lparr>m_usage_quarantined_at := Some now, m_usage_quarantine_reason := Some reason\<rparr>)"

definition enqueue_final :: "time \<Rightarrow> machine_row \<Rightarrow> fleet \<Rightarrow> error + fleet" where
  "enqueue_final now m s =
     (let start = the (usage_from m); stop = the (m_stopped_at m) in
      if start > stop \<or> stop > now + 30000
      then quarantine_usage (m_id m)
        (if start > stop then ''usage interval starts after it ends'' else ''usage interval ends in the future'') now s
      else case insert_outbox True
             (usage_interval (''machine:'' @ m_id m @ '':final:'' @ toISOString stop) m stop True now) s of
          Inl e \<Rightarrow> Inl e
        | Inr s1 \<Rightarrow> set_checkpoint (m_id m) stop s1)"

definition enqueue_checkpoint :: "time \<Rightarrow> machine_row \<Rightarrow> fleet \<Rightarrow> error + fleet" where
  "enqueue_checkpoint now m s =
     (case insert_outbox False
         (usage_interval (''machine:'' @ m_id m @ '':checkpoint:'' @ toISOString now) m now False now) s of
        Inl e \<Rightarrow> Inl e
      | Inr s1 \<Rightarrow> set_checkpoint (m_id m) now s1)"

definition by_time :: "(machine_row \<Rightarrow> time option) \<Rightarrow> machine_row \<Rightarrow> machine_row \<Rightarrow> int" where
  "by_time t a b = then_cmp (cmp_of (the (t a)) (the (t b))) (cmp_of (m_id a) (m_id b))"

definition finals_due :: "bool \<Rightarrow> string list \<Rightarrow> fleet \<Rightarrow> machine_row list" where
  "finals_due exclude locked s =
     take 100 (sort_by (by_time m_stopped_at)
       (filter (\<lambda>m. final_due exclude s m \<and> m_id m \<notin> set locked) (machines s)))"

definition checkpoints_due :: "bool \<Rightarrow> string list \<Rightarrow> time \<Rightarrow> fleet \<Rightarrow> machine_row list" where
  "checkpoints_due exclude locked now s =
     take 100 (sort_by (by_time usage_from)
       (filter (\<lambda>m. checkpoint_due exclude s now m \<and> m_id m \<notin> set locked) (machines s)))"

definition enqueueUsageIntervals :: "bool \<Rightarrow> string list \<Rightarrow> time \<Rightarrow> fleet \<Rightarrow> error + fleet" where
  "enqueueUsageIntervals exclude locked now s =
     (case run_each (enqueue_final now) (finals_due exclude locked s) s of
        Inl e \<Rightarrow> Inl e
      | Inr s1 \<Rightarrow> run_each (enqueue_checkpoint now) (checkpoints_due exclude locked now s1) s1)"

section \<open>Draining the outbox\<close>

definition flushable :: "time \<Rightarrow> fleet \<Rightarrow> outbox_row \<Rightarrow> bool" where
  "flushable now s q \<longleftrightarrow>
     q_processed_at q = None \<and> q_next_attempt_at q \<le> now \<and>
     (case q_claimed_until q of None \<Rightarrow> True | Some t \<Rightarrow> t < now) \<and>
     (q_final q \<longrightarrow> \<not> list_ex (\<lambda>p. q_machine_id p = q_machine_id q \<and> q_processed_at p = None \<and> \<not> q_final p)
        (usage_outbox s))"

definition outbox_cmp :: "outbox_row \<Rightarrow> outbox_row \<Rightarrow> int" where
  "outbox_cmp a b = then_cmp (cmp_of (q_next_attempt_at a) (q_next_attempt_at b))
     (then_cmp (cmp_of (q_created_at a) (q_created_at b)) (cmp_of (q_key a) (q_key b)))"

definition claimUsage :: "string list \<Rightarrow> uuid \<Rightarrow> time \<Rightarrow> fleet \<Rightarrow> outbox_row list \<times> fleet" where
  "claimUsage locked token now s =
     (let keys = map q_key (take 100 (sort_by outbox_cmp
            (filter (\<lambda>q. flushable now s q \<and> q_key q \<notin> set locked) (usage_outbox s))));
          s' = s\<lparr>usage_outbox := sql_update (\<lambda>q. q_key q \<in> set keys)
            (\<lambda>q. q\<lparr>q_claim_token := Some token, q_claimed_until := Some (now + minutes 5)\<rparr>) (usage_outbox s)\<rparr>
      in (sort_by outbox_cmp (filter (\<lambda>q. q_key q \<in> set keys) (usage_outbox s')), s'))"

definition held_by :: "outbox_row \<Rightarrow> outbox_row \<Rightarrow> bool" where
  "held_by ev q \<longleftrightarrow> q_key q = q_key ev \<and> q_claim_token q = q_claim_token ev \<and> q_claim_token ev \<noteq> None \<and>
     q_processed_at q = None"

definition usage_complete :: "fleet \<Rightarrow> string \<Rightarrow> bool" where
  "usage_complete s i \<longleftrightarrow>
     list_ex (\<lambda>q. q_machine_id q = i \<and> q_final q \<and> q_processed_at q \<noteq> None) (usage_outbox s) \<and>
     \<not> list_ex (\<lambda>q. q_machine_id q = i \<and> q_processed_at q = None) (usage_outbox s)"

definition mark_processed :: "outbox_row \<Rightarrow> time \<Rightarrow> fleet \<Rightarrow> error + fleet" where
  "mark_processed ev now s =
     (let s1 = s\<lparr>usage_outbox := sql_update (held_by ev)
            (\<lambda>q. q\<lparr>q_processed_at := Some now, q_attempts := q_attempts q + 1, q_last_error := None,
                   q_claim_token := None, q_claimed_until := None\<rparr>) (usage_outbox s)\<rparr>
      in if list_ex (held_by ev) (usage_outbox s)
         then update_machines (\<lambda>m. m_id m = q_machine_id ev \<and> m_usage_finalized_at m = None \<and> usage_complete s1 (m_id m))
           (\<lambda>m. m\<lparr>m_usage_finalized_at := Some now\<rparr>) s1
         else Inr s1)"

definition retry_delay :: "nat \<Rightarrow> int" where
  "retry_delay attempts = min 300 (2 ^ min attempts 8)"

definition retry_later :: "outbox_row \<Rightarrow> string \<Rightarrow> time \<Rightarrow> fleet \<Rightarrow> fleet" where
  "retry_later ev message now s =
     s\<lparr>usage_outbox := sql_update (held_by ev)
         (\<lambda>q. q\<lparr>q_attempts := q_attempts q + 1, q_last_error := Some (take 1024 message),
                q_next_attempt_at := now + seconds (retry_delay (q_attempts ev)),
                q_claim_token := None, q_claimed_until := None\<rparr>) (usage_outbox s)\<rparr>"

definition outbox_input :: "outbox_row \<Rightarrow> runtime_input" where
  "outbox_input ev =
     \<lparr>ru_eventPrefix = q_key ev, ru_organizationId = q_organization_id ev, ru_projectId = q_project_id ev,
      ru_machineId = q_machine_id ev, ru_vcpus = q_vcpus ev, ru_memoryMb = q_memory_mb ev,
      ru_start = q_period_start ev, ru_end = q_period_end ev, ru_source = q_source ev\<rparr>"

text \<open>
  \<open>number\<close> is the ledger's arithmetic; \<open>text\<close> is \<open>String(error)\<close>. A reconciler without a
  ledger drains nothing.
\<close>

definition flush_event ::
    "(time \<Rightarrow> int \<Rightarrow> int \<Rightarrow> numeric13) \<Rightarrow> (error \<Rightarrow> string) \<Rightarrow> time \<Rightarrow> outbox_row \<Rightarrow> unit svc" where
  "flush_event number text now ev s =
     (case bind_svc (recordMachineRuntime number (outbox_input ev)) (\<lambda>_. call_do (mark_processed ev now)) s of
        (Inl e, s') \<Rightarrow> (Inr (), retry_later ev (text e) now s')
      | (Inr _, s') \<Rightarrow> (Inr (), s'))"

definition flushUsageOutbox ::
    "(time \<Rightarrow> int \<Rightarrow> int \<Rightarrow> numeric13) \<Rightarrow> (error \<Rightarrow> string) \<Rightarrow> bool \<Rightarrow> string list \<Rightarrow> uuid \<Rightarrow> (nat \<Rightarrow> time) \<Rightarrow>
     unit svc" where
  "flushUsageOutbox number text usage locked token clock s =
     (if \<not> usage then (Inr (), s)
      else case claimUsage locked token (clock 0) s of
        (events, s1) \<Rightarrow> each_svc (\<lambda>n. flush_event number text (clock n)) 1 events s1)"

section \<open>The jobs keep the fleet consistent\<close>

lemma sound_from_each: "(\<And>n x. x \<in> set xs \<Longrightarrow> sound_from s (f n x)) \<Longrightarrow> sound_from s (each_svc f n xs)"
  by (induction xs arbitrary: n) (auto intro!: fp.lasting_bind)

lemma inv_run_each:
  assumes "fleet_inv s" and "run_each f xs s = Inr s'"
    and "\<And>x t t'. x \<in> set xs \<Longrightarrow> fleet_inv t \<Longrightarrow> f x t = Inr t' \<Longrightarrow> fleet_inv t' \<and> fleet_le t t'"
  shows "fleet_inv s' \<and> fleet_le s s'"
  using assms
proof (induction xs arbitrary: s)
  case (Cons x xs)
  from Cons.prems(2) obtain t where t: "f x s = Inr t" "run_each f xs t = Inr s'" by (auto split: sum.splits)
  from Cons.prems(3) [OF _ Cons.prems(1) t(1)] have "fleet_inv t" "fleet_le s t" by simp_all
  moreover have "fleet_inv s' \<and> fleet_le t s'" 
    by (rule Cons.IH [OF \<open>fleet_inv t\<close> t(2)], rule Cons.prems(3)) simp_all
  ultimately show ?case using fleet_le_trans by blast
qed simp

lemma exception_frame [simp, frame]:
  "machines (exception x s) = machines s" "hosts (exception x s) = hosts s"
  "fork_ops (exception x s) = fork_ops s" "extend_ops (exception x s) = extend_ops s"
  by (simp_all add: exception_def)

lemma closeHostLoss_ok:
  assumes inv: "fleet_inv s" and ok: "closeHostLoss i lease now s = Inr (t, s')"
  shows "fleet_inv s' \<and> fleet_le s s'"
proof (cases "machines s' = machines s \<and> hosts s' = hosts s \<and> fork_ops s' = fork_ops s \<and> extend_ops s' = extend_ops s")
  case True
  with inv inv_other show ?thesis by blast
next
  case False
  with ok obtain meter s1 where
      up: "update_machines (\<lambda>m. m_id m = i \<and> m_lease_id m = lease) (close_usage_row meter now) s1 = Inr s'"
      and s1: "machines s1 = machines s" "hosts s1 = hosts s" "fork_ops s1 = fork_ops s" "extend_ops s1 = extend_ops s"
    by (fastforce simp: closeHostLoss_def close_loss_def split: option.splits if_splits sum.splits)
  from inv_other [OF inv s1] have "fleet_inv s1" "fleet_le s s1" by simp_all
  moreover have "fleet_inv s' \<and> fleet_le s1 s'"
    by (rule inv_note [OF calculation(1) up]) (simp add: close_usage_row_def same_core_def row_le_defs)
  ultimately show ?thesis by (auto intro: fleet_le_trans)
qed

lemma sound_closeHostLoss: "sound_from s (call_tx (closeHostLoss i lease now))"
  by (rule fp.lastingI, rule fp.tx) (rule closeHostLoss_ok)

lemma insert_outbox_ok: "fleet_inv s \<Longrightarrow> insert_outbox ignore q s = Inr s' \<Longrightarrow> fleet_inv s' \<and> fleet_le s s'"
  by (erule inv_other) (auto simp: insert_outbox_def split: if_splits)

lemma set_checkpoint_ok: "fleet_inv s \<Longrightarrow> set_checkpoint i t s = Inr s' \<Longrightarrow> fleet_inv s' \<and> fleet_le s s'"
  unfolding set_checkpoint_def by (erule (1) inv_note) (simp add: same_core_def row_le_defs)

lemma quarantine_usage_ok: "fleet_inv s \<Longrightarrow> quarantine_usage i r now s = Inr s' \<Longrightarrow> fleet_inv s' \<and> fleet_le s s'"
  unfolding quarantine_usage_def by (erule (1) inv_note) (simp add: same_core_def row_le_defs)

lemma insert_then_checkpoint_ok:
  assumes "fleet_inv s"
    and "(case insert_outbox ignore q s of Inl e \<Rightarrow> Inl e | Inr s1 \<Rightarrow> set_checkpoint i t s1) = Inr s'"
  shows "fleet_inv s' \<and> fleet_le s s'"
proof -
  from assms(2) obtain s1 where "insert_outbox ignore q s = Inr s1" and c: "set_checkpoint i t s1 = Inr s'"
    by (auto split: sum.splits)
  from insert_outbox_ok [OF assms(1) this(1)] have s1: "fleet_inv s1" "fleet_le s s1" by simp_all
  from set_checkpoint_ok [OF s1(1) c] s1(2) show ?thesis using fleet_le_trans by blast
qed

lemma enqueueUsageIntervals_ok:
  assumes inv: "fleet_inv s" and ok: "enqueueUsageIntervals exclude locked now s = Inr s'"
  shows "fleet_inv s' \<and> fleet_le s s'"
proof -
  have final: "fleet_inv u' \<and> fleet_le u u'" if "fleet_inv u" "enqueue_final now m u = Inr u'" for m u u'
    using that by (auto simp: enqueue_final_def Let_def split: if_splits
        dest: quarantine_usage_ok insert_then_checkpoint_ok)
  have check: "fleet_inv u' \<and> fleet_le u u'" if "fleet_inv u" "enqueue_checkpoint now m u = Inr u'" for m u u'
    using that by (auto simp: enqueue_checkpoint_def dest: insert_then_checkpoint_ok)
  from ok obtain t where a: "run_each (enqueue_final now) (finals_due exclude locked s) s = Inr t"
      and b: "run_each (enqueue_checkpoint now) (checkpoints_due exclude locked now t) t = Inr s'"
    by (auto simp: enqueueUsageIntervals_def split: sum.splits)
  from inv_run_each [OF inv a final] have t: "fleet_inv t" "fleet_le s t" by simp_all
  from inv_run_each [OF t(1) b check] t(2) show ?thesis by (auto intro: fleet_le_trans)
qed

lemma append_all_frame: "\<exists>us. snd (append_all es s) = s\<lparr>usage_events := us\<rparr>"
proof (induction es arbitrary: s)
  case Nil
  show ?case by (rule exI [of _ "usage_events s"]) simp
next
  case (Cons e es)
  show ?case
  proof (cases "append_usage e s")
    case (Inl err)
    with Cons.IH show ?thesis by simp
  next
    case (Inr p)
    then obtain us where "snd p = s\<lparr>usage_events := us\<rparr>"
      using append_usage_valid [of s e] by (auto simp: usage_valid_def)
    moreover obtain vs where "snd (append_all es (snd p)) = (snd p)\<lparr>usage_events := vs\<rparr>" using Cons.IH by blast
    ultimately show ?thesis using Inr by (cases p) auto
  qed
qed

lemma runtime_loop_frame: "\<exists>us. snd (runtime_loop number input start n s) = s\<lparr>usage_events := us\<rparr>"
proof (induction number input start n s rule: runtime_loop.induct)
  case (1 number input start n s)
  show ?case
  proof (cases "start < ru_end input")
    case False
    then show ?thesis by (auto simp: runtime_loop.simps [of number input start] intro: exI [of _ "usage_events s"])
  next
    case True
    let ?to = "if nextMidnight start < ru_end input then nextMidnight start else ru_end input"
    obtain r t where a: "append_all (segment_events number input n start ?to) s = (r, t)" by fastforce
    from append_all_frame [of "segment_events number input n start ?to" s] a
    obtain us where t: "t = s\<lparr>usage_events := us\<rparr>" by auto
    show ?thesis
    proof (cases r)
      case (Inl e)
      with a t True show ?thesis by (auto simp: runtime_loop.simps [of number input start])
    next
      case (Inr u)
      from 1 [OF True refl a [symmetric] Inr] obtain vs where
        "snd (runtime_loop number input ?to (Suc n) t) = t\<lparr>usage_events := vs\<rparr>" by blast
      with Inr a t True show ?thesis by (auto simp: runtime_loop.simps [of number input start])
    qed
  qed
qed

lemma sound_recordMachineRuntime: "sound (recordMachineRuntime number input) s"
proof (rule fp.step, goal_cases)
  case 1
  obtain us where "snd (runtime_loop number input (ru_start input) 0 s) = s\<lparr>usage_events := us\<rparr>"
    using runtime_loop_frame by blast
  with 1(2) inv_other [OF 1(1)] show ?case by (simp add: recordMachineRuntime_def split: if_splits)
qed

lemma mark_processed_ok:
  assumes inv: "fleet_inv s" and ok: "mark_processed ev now s = Inr s'"
  shows "fleet_inv s' \<and> fleet_le s s'"
proof -
  let ?s = "\<lambda>us. s\<lparr>usage_outbox := us\<rparr>"
  have u: "fleet_inv (?s us) \<and> fleet_le s (?s us)" for us by (rule inv_other [OF inv]) simp_all
  show ?thesis
  proof (cases "list_ex (held_by ev) (usage_outbox s)")
    case False
    with ok u show ?thesis by (auto simp: mark_processed_def Let_def)
  next
    case True
    with ok obtain us where "update_machines (\<lambda>m. m_id m = q_machine_id ev \<and> m_usage_finalized_at m = None \<and>
        usage_complete (?s us) (m_id m)) (\<lambda>m. m\<lparr>m_usage_finalized_at := Some now\<rparr>) (?s us) = Inr s'"
      by (auto simp: mark_processed_def Let_def)
    then have "fleet_inv s' \<and> fleet_le (?s us) s'"
      by (rule inv_note [rotated]) (use u in \<open>auto simp: same_core_def row_le_defs\<close>)
    with u [of us] show ?thesis by (auto intro: fleet_le_trans)
  qed
qed

lemma sound_flush_event: "sound_from s (flush_event number text now ev)"
proof (rule fp.lastingI)
  fix t assume inv: "fleet_inv t"
  let ?m = "bind_svc (recordMachineRuntime number (outbox_input ev)) (\<lambda>_. call_do (mark_processed ev now))"
  have "sound ?m t"
    by (rule fp.bind [OF sound_recordMachineRuntime]) (rule fp.do, rule mark_processed_ok)
  moreover obtain r u where u: "?m t = (r, u)" by fastforce
  ultimately have inv': "fleet_inv u" "fleet_le t u" using inv by (simp_all add: advances_def)
  have "fleet_inv (retry_later ev msg now u) \<and> fleet_le u (retry_later ev msg now u)" for msg
    by (rule inv_other [OF inv'(1)]) (simp_all add: retry_later_def)
  with u inv' show "sound (flush_event number text now ev) t"
    by (cases r) (auto simp: advances_def flush_event_def intro: fleet_le_trans)
qed

lemma sound_flushUsageOutbox: "sound_from s (flushUsageOutbox number text usage locked token clock)"
proof (rule fp.lastingI)
  fix t assume inv: "fleet_inv t"
  obtain evs u where u: "claimUsage locked token (clock 0) t = (evs, u)" by fastforce
  then have "machines u = machines t \<and> hosts u = hosts t \<and> fork_ops u = fork_ops t \<and> extend_ops u = extend_ops t"
    by (auto simp: claimUsage_def Let_def)
  with inv inv_other have inv': "fleet_inv u" "fleet_le t u" by blast+
  have "sound_from u (each_svc (\<lambda>n. flush_event number text (clock n)) 1 evs)"
    by (intro sound_from_each sound_flush_event)
  then have "sound (each_svc (\<lambda>n. flush_event number text (clock n)) 1 evs) u" by (rule fp.lastingD)
  with u inv inv' show "sound (flushUsageOutbox number text usage locked token clock) t"
    by (auto simp: advances_def flushUsageOutbox_def intro: fleet_le_trans)
qed

section \<open>No time is billed twice\<close>

text \<open>
  The intervals of one machine in the outbox follow one another, and the machine's checkpoint is
  at the end of the last one.
\<close>

definition follows :: "outbox_row \<Rightarrow> outbox_row \<Rightarrow> bool" where
  "follows q p \<longleftrightarrow> (q_machine_id q = q_machine_id p \<longrightarrow> q_period_end q \<le> q_period_start p)"

definition checkpointed :: "fleet \<Rightarrow> machine_row \<Rightarrow> bool" where
  "checkpointed s m \<longleftrightarrow>
     list_all (\<lambda>q. q_machine_id q = m_id m \<longrightarrow>
       (case m_usage_checkpoint_at m of None \<Rightarrow> False | Some c \<Rightarrow> q_period_end q \<le> c)) (usage_outbox s)"

definition intervals_ok :: "fleet \<Rightarrow> bool" where
  "intervals_ok s \<longleftrightarrow> sorted_wrt follows (usage_outbox s) \<and> list_all (checkpointed s) (machines s)"

lemma distinct_sort_by: "distinct (map f xs) \<Longrightarrow> distinct (map f (sort_by cmp xs))"
  by (metis card_distinct distinct_card distinct_map length_sort_by set_sort_by)

lemma stored_as_usage:
  assumes "stored_as w r"
  shows "m_id r = m_id w" "m_usage_checkpoint_at r = m_usage_checkpoint_at w" "m_started_at r = m_started_at w"
proof -
  from assms have r: "r = w\<lparr>m_runtime_cohort_id := m_runtime_cohort_id r, m_source_sha256 := m_source_sha256 r\<rparr>"
    by (simp add: stored_as_def)
  show "m_id r = m_id w" "m_usage_checkpoint_at r = m_usage_checkpoint_at w" "m_started_at r = m_started_at w"
    by (subst r, simp)+
qed

text \<open>One machine is taken to a new checkpoint; the others, and what is read of them, stay.\<close>

definition others_kept :: "string \<Rightarrow> fleet \<Rightarrow> fleet \<Rightarrow> bool" where
  "others_kept i s s' \<longleftrightarrow> map m_id (machines s') = map m_id (machines s) \<and>
     (\<forall>m\<in>set (machines s). m_id m \<noteq> i \<longrightarrow> m \<in> set (machines s')) \<and>
     (\<forall>m\<in>set (machines s'). m_id m \<noteq> i \<longrightarrow> m \<in> set (machines s))"

lemma update_others_kept:
  assumes "update_machines P f s = Inr s'" and "\<And>m. P m \<Longrightarrow> m_id m = i" and "\<And>m. m_id (f m) = m_id m"
  shows "others_kept i s s'"
proof -
  from assms(1) obtain g where s': "s' = s\<lparr>machines := sql_update P g (machines s)\<rparr>"
      and st: "\<And>m. m \<in> set (machines s) \<Longrightarrow> P m \<Longrightarrow> stored_as (f m) (g m)"
    by (rule update_machines_Inr) blast
  have g: "m_id (g m) = i" if "m \<in> set (machines s)" "P m" for m
    using stored_as_usage(1) [OF st [OF that]] assms(2,3) that by simp
  have "map m_id (sql_update P g (machines s)) = map m_id (machines s)"
    unfolding sql_update_def map_map comp_def using g assms(2) by (intro map_cong) auto
  with g assms(2) show ?thesis by (auto simp: others_kept_def s' in_sql_update split: if_splits)
qed

lemma set_checkpoint_at:
  assumes "set_checkpoint i t s = Inr s'"
  shows "usage_outbox s' = usage_outbox s" and "others_kept i s s'"
    and "x \<in> set (machines s') \<Longrightarrow> m_id x = i \<Longrightarrow> m_usage_checkpoint_at x = Some t"
proof -
  note up = assms [unfolded set_checkpoint_def]
  show "others_kept i s s'" by (rule update_others_kept [OF up]) simp_all
  from up obtain g where s': "s' = s\<lparr>machines := sql_update (\<lambda>m. m_id m = i) g (machines s)\<rparr>"
      and st: "\<And>m. m \<in> set (machines s) \<Longrightarrow> m_id m = i \<Longrightarrow> stored_as (m\<lparr>m_usage_checkpoint_at := Some t\<rparr>) (g m)"
    by (rule update_machines_Inr) blast
  show "usage_outbox s' = usage_outbox s" by (simp add: s')
  show "m_usage_checkpoint_at x = Some t" if "x \<in> set (machines s')" "m_id x = i"
  proof -
    from that(1) have "x \<in> set (sql_update (\<lambda>m. m_id m = i) g (machines s))" by (simp add: s')
    then show ?thesis by (cases rule: sql_updateE) (use that(2) stored_as_usage(2) [OF st] in simp_all)
  qed
qed

lemma insert_outbox_rows:
  "insert_outbox ignore q s = Inr s' \<Longrightarrow> machines s' = machines s \<and> q_period_start q \<le> q_period_end q \<and>
     (usage_outbox s' = usage_outbox s \<or> usage_outbox s' = usage_outbox s @ [q])"
  by (auto simp: insert_outbox_def split: if_splits)

lemma interval_step:
  assumes ok: "intervals_ok s" and m: "m \<in> set (machines s)" and start: "usage_from m = Some (q_period_start q)"
    and q: "q_machine_id q = m_id m" and ins: "insert_outbox ignore q s = Inr s1"
    and set: "set_checkpoint (m_id m) (q_period_end q) s1 = Inr s'"
  shows "intervals_ok s' \<and> others_kept (m_id m) s s'"
proof -
  note I = insert_outbox_rows [OF ins] and S = set_checkpoint_at [OF set]
  have kept: "others_kept (m_id m) s s'" using S(2) I by (simp add: others_kept_def)
  have before: "q_period_end p \<le> q_period_start q" if "p \<in> set (usage_outbox s)" "q_machine_id p = m_id m" for p
    using ok m that start by (fastforce simp: intervals_ok_def list_all_iff checkpointed_def usage_from_def
        coalesce_def split: option.splits)
  have sorted: "sorted_wrt follows (usage_outbox s')"
    using ok I S(1) before q by (auto simp: intervals_ok_def sorted_wrt_append follows_def)
  have "checkpointed s' x" if x: "x \<in> set (machines s')" for x
  proof (cases "m_id x = m_id m")
    case True
    have "q_period_end p \<le> q_period_end q" if "p \<in> set (usage_outbox s')" "q_machine_id p = m_id m" for p
    proof (cases "p = q")
      case False
      with that(1) S(1) I have "p \<in> set (usage_outbox s)" by auto
      with before [OF this that(2)] I show ?thesis by simp
    qed simp
    with True S(3) [OF x True] show ?thesis by (simp add: checkpointed_def list_all_iff)
  next
    case False
    with kept x have "x \<in> set (machines s)" by (auto simp: others_kept_def)
    with ok False I S(1) q show ?thesis by (auto simp: intervals_ok_def checkpointed_def list_all_iff)
  qed
  with sorted kept show ?thesis by (simp add: intervals_ok_def list_all_iff)
qed

lemma intervals_run_each:
  assumes "run_each f ms s = Inr s'" and "intervals_ok s" and "set ms \<subseteq> set (machines s)" and "distinct (map m_id ms)"
    and "\<And>m t t'. m \<in> set ms \<Longrightarrow> intervals_ok t \<Longrightarrow> m \<in> set (machines t) \<Longrightarrow> f m t = Inr t' \<Longrightarrow>
      intervals_ok t' \<and> others_kept (m_id m) t t'"
  shows "intervals_ok s' \<and> map m_id (machines s') = map m_id (machines s)"
  using assms
proof (induction ms arbitrary: s)
  case (Cons m ms)
  from Cons.prems(1) obtain t where t: "f m s = Inr t" "run_each f ms t = Inr s'" by (auto split: sum.splits)
  from Cons.prems(5) [OF _ Cons.prems(2) _ t(1)] Cons.prems(3)
  have k: "intervals_ok t" "others_kept (m_id m) s t" by simp_all
  have "x \<in> set (machines t)" if x: "x \<in> set ms" for x
  proof -
    have "m_id x \<in> m_id ` set ms" using x by (rule imageI)
    with Cons.prems(4) have "m_id x \<noteq> m_id m" by auto
    with x Cons.prems(3) k(2) show ?thesis by (simp add: others_kept_def subset_iff)
  qed
  then have sub: "set ms \<subseteq> set (machines t)" by blast
  have dist: "distinct (map m_id ms)" using Cons.prems(4) by simp
  have "intervals_ok s' \<and> map m_id (machines s') = map m_id (machines t)"
    by (rule Cons.IH [OF t(2) k(1) sub dist], rule Cons.prems(5)) simp_all
  with k(2) show ?case by (simp add: others_kept_def)
qed simp

lemma due_rows:
  "set (finals_due exclude locked s) \<subseteq> {m \<in> set (machines s). final_due exclude s m}"
  "set (checkpoints_due exclude locked now s) \<subseteq> {m \<in> set (machines s). checkpoint_due exclude s now m}"
  by (auto simp: finals_due_def checkpoints_due_def dest!: in_set_takeD)

lemma distinct_due:
  assumes "distinct (map m_id (machines s))"
  shows "distinct (map m_id (finals_due exclude locked s))" "distinct (map m_id (checkpoints_due exclude locked now s))"
  using assms unfolding finals_due_def checkpoints_due_def
  by (auto simp flip: take_map intro!: distinct_take distinct_sort_by distinct_map_filter)

lemma usage_from_started: "m_started_at m \<noteq> None \<Longrightarrow> usage_from m = Some (the (usage_from m))"
  by (cases "m_usage_checkpoint_at m") (auto simp: usage_from_def coalesce_def)

lemma enqueue_final_interval:
  assumes "intervals_ok t" and "m \<in> set (machines t)" and "enqueue_final now m t = Inr t'"
    and "m_started_at m \<noteq> None"
  shows "intervals_ok t' \<and> others_kept (m_id m) t t'"
proof -
  note start = usage_from_started [OF assms(4)]
  show ?thesis
  proof (cases "the (usage_from m) > the (m_stopped_at m) \<or> the (m_stopped_at m) > now + 30000")
    case True
    with assms(3) obtain reason where up: "quarantine_usage (m_id m) reason now t = Inr t'"
      by (auto simp: enqueue_final_def Let_def split: if_splits)
    then have "others_kept (m_id m) t t'"
      unfolding quarantine_usage_def by (rule update_others_kept) auto
    from up obtain P g where t': "t' = t\<lparr>machines := sql_update P g (machines t)\<rparr>"
        and st: "\<And>x. x \<in> set (machines t) \<Longrightarrow> P x \<Longrightarrow>
          stored_as (x\<lparr>m_usage_quarantined_at := Some now, m_usage_quarantine_reason := Some reason\<rparr>) (g x)"
      unfolding quarantine_usage_def by (rule update_machines_Inr) blast
    have "checkpointed t' (g x) = checkpointed t x" if "x \<in> set (machines t)" "P x" for x
      using stored_as_usage [OF st [OF that]] by (simp add: checkpointed_def t')
    with assms(1) have "intervals_ok t'"
      by (auto simp: intervals_ok_def list_all_iff t' in_sql_update checkpointed_def)
    with \<open>others_kept (m_id m) t t'\<close> show ?thesis by simp
  next
    case False
    with assms(3) obtain key s1 where
        ins: "insert_outbox True (usage_interval key m (the (m_stopped_at m)) True now) t = Inr s1"
        and set: "set_checkpoint (m_id m) (the (m_stopped_at m)) s1 = Inr t'"
      by (auto simp: enqueue_final_def Let_def split: sum.splits)
    show ?thesis by (rule interval_step [OF assms(1,2) _ _ ins]) (use start set in \<open>simp_all add: usage_interval_def\<close>)
  qed
qed

lemma enqueue_checkpoint_interval:
  assumes "intervals_ok t" and "m \<in> set (machines t)" and "enqueue_checkpoint now m t = Inr t'"
    and "m_started_at m \<noteq> None"
  shows "intervals_ok t' \<and> others_kept (m_id m) t t'"
proof -
  from assms(3) obtain key s1 where ins: "insert_outbox False (usage_interval key m now False now) t = Inr s1"
      and set: "set_checkpoint (m_id m) now s1 = Inr t'"
    by (auto simp: enqueue_checkpoint_def split: sum.splits)
  from usage_from_started [OF assms(4)] show ?thesis by (intro interval_step [OF assms(1,2) _ _ ins]) (use set in \<open>simp_all add: usage_interval_def\<close>)
qed

text \<open>C8: The reconciler never meters a moment twice. If the intervals of every machine in
  \<open>usage_outbox\<close> are disjoint and end at or before the machine's checkpoint, then a run of
  \<open>enqueueUsageIntervals\<close> that commits leaves them so, whatever final and checkpoint intervals it
  added and whichever rows other transactions had locked.\<close>

theorem enqueueUsageIntervals_disjoint:
  assumes "fleet_inv s" and "intervals_ok s" and "enqueueUsageIntervals exclude locked now s = Inr s'"
  shows "intervals_ok s'"
proof -
  from assms(3) obtain t where a: "run_each (enqueue_final now) (finals_due exclude locked s) s = Inr t"
      and b: "run_each (enqueue_checkpoint now) (checkpoints_due exclude locked now t) t = Inr s'"
    by (auto simp: enqueueUsageIntervals_def split: sum.splits)
  note d = fleet_invD(1) [OF assms(1)]
  have "intervals_ok t \<and> map m_id (machines t) = map m_id (machines s)"
  proof (rule intervals_run_each [OF a assms(2) _ distinct_due(1) [OF d]])
    fix m u u' assume "m \<in> set (finals_due exclude locked s)" "intervals_ok u" "m \<in> set (machines u)" "enqueue_final now m u = Inr u'"
    then show "intervals_ok u' \<and> others_kept (m_id m) u u'"
      using due_rows(1) [of exclude locked s] by (intro enqueue_final_interval) (auto simp: final_due_def)
  qed (use due_rows(1) in blast)
  then have t: "intervals_ok t" "distinct (map m_id (machines t))" using d by simp_all
  have "intervals_ok s' \<and> map m_id (machines s') = map m_id (machines t)"
  proof (rule intervals_run_each [OF b t(1) _ distinct_due(2) [OF t(2)]])
    fix m u u' assume "m \<in> set (checkpoints_due exclude locked now t)" "intervals_ok u" "m \<in> set (machines u)"
      "enqueue_checkpoint now m u = Inr u'"
    then show "intervals_ok u' \<and> others_kept (m_id m) u u'"
      using due_rows(2) [of exclude locked now t] by (intro enqueue_checkpoint_interval) (auto simp: checkpoint_due_def)
  qed (use due_rows(2) in blast)
  then show ?thesis ..
qed

end
