(* ===== verification/Reconciler.thy ===== *)
theory Reconciler
  imports UsageJobs
begin

text \<open>
  The reconciler, \<open>jobs/reconcile-machines.ts\<close>, and the expiry job, \<open>jobs/reap-expired-machines.ts\<close>:
  they drive every machine and every pending fork towards the state the host reports, mark
  machines of stale hosts lost, and give leaked reservations back.

  A run takes machines and forks under a claim, so that each is worked on by one reconciler; what
  a worker does between two transactions is decided by the host's answers, the \<open>world\<close> of the call.
\<close>

section \<open>Claims\<close>

record reconcile_row =
  rr_id :: string
  rr_organization_id :: uuid
  rr_project_id :: uuid
  rr_host_id :: uuid
  rr_host_address :: string
  rr_host_machine_id :: "string option"
  rr_runtime_cohort_id :: "string option"
  rr_source_sha256 :: "string option"
  rr_lease_id :: uuid
  rr_lease_generation :: int
  rr_state :: machine_state
  rr_template_name :: "string option"
  rr_host_template_name :: "string option"
  rr_source_oci_ref :: "string option"
  rr_network_policy :: net_decl
  rr_requested_ttl_seconds :: int
  rr_resources :: resources
  rr_started_at :: "time option"
  rr_startup_deadline_reached :: bool
  rr_reconcile_claim_token :: uuid

definition on_host :: "fleet \<Rightarrow> machine_row \<Rightarrow> bool" where
  "on_host s m = list_ex (\<lambda>h. Some (h_id h) = m_host_id m) (hosts s)"

definition reconcile_due :: "fleet \<Rightarrow> time \<Rightarrow> machine_row \<Rightarrow> bool" where
  "reconcile_due s now m \<longleftrightarrow>
     on_host s m \<and> m_state m \<in> {Starting, Stopping, Running} \<and> \<not> pending_child s m \<and>
     (m_state m = Running \<or> (case m_placed_at m of None \<Rightarrow> False | Some t \<Rightarrow> t < now - seconds 15)) \<and>
     m_reconcile_after m \<le> now \<and>
     (case m_reconcile_claimed_until m of None \<Rightarrow> True | Some t \<Rightarrow> t < now)"

definition state_priority :: "machine_state \<Rightarrow> int" where
  "state_priority st = (if st = Stopping then 0 else if st = Starting then 1 else 2)"

definition reconcile_cmp :: "machine_row \<Rightarrow> machine_row \<Rightarrow> int" where
  "reconcile_cmp a b =
     then_cmp (cmp_of (m_reconcile_after a) (m_reconcile_after b))
       (then_cmp (cmp_of (state_priority (m_state a)) (state_priority (m_state b)))
         (then_cmp (cmp_of (m_created_at a) (m_created_at b)) (cmp_of (m_id a) (m_id b))))"

text \<open>\<open>COALESCE(startup_deadline_at, placed_at + 2 minutes, created_at + 2 minutes) <= now()\<close>.\<close>

definition deadline_reached :: "time \<Rightarrow> machine_row \<Rightarrow> bool" where
  "deadline_reached now m \<longleftrightarrow>
     the (coalesce (m_startup_deadline_at m)
       (coalesce (map_option (\<lambda>t. t + minutes 2) (m_placed_at m)) (Some (m_created_at m + minutes 2)))) \<le> now"

definition reconcile_row_of :: "fleet \<Rightarrow> uuid \<Rightarrow> time \<Rightarrow> machine_row \<Rightarrow> reconcile_row" where
  "reconcile_row_of s token now m =
     \<lparr>rr_id = m_id m, rr_organization_id = m_organization_id m, rr_project_id = m_project_id m,
      rr_host_id = the (m_host_id m), rr_host_address = the (host_address_of s m),
      rr_host_machine_id = m_host_machine_id m, rr_runtime_cohort_id = m_runtime_cohort_id m,
      rr_source_sha256 = m_source_sha256 m, rr_lease_id = m_lease_id m, rr_lease_generation = m_lease_generation m,
      rr_state = m_state m, rr_template_name = m_template_name m, rr_host_template_name = host_template_of s m,
      rr_source_oci_ref = m_source_oci_ref m, rr_network_policy = m_network_policy m,
      rr_requested_ttl_seconds = m_requested_ttl_seconds m, rr_resources = m_resources m,
      rr_started_at = m_started_at m, rr_startup_deadline_reached = deadline_reached now m,
      rr_reconcile_claim_token = token\<rparr>"

definition reconcile_batch :: "string list \<Rightarrow> time \<Rightarrow> fleet \<Rightarrow> string list" where
  "reconcile_batch locked now s =
     map m_id (take 100 (sort_by reconcile_cmp
       (filter (\<lambda>m. reconcile_due s now m \<and> m_id m \<notin> set locked) (machines s))))"

definition claim_row :: "uuid \<Rightarrow> time \<Rightarrow> machine_row \<Rightarrow> machine_row" where
  "claim_row token now m =
     m\<lparr>m_reconcile_claim_token := Some token, m_reconcile_claimed_until := Some (now + minutes 5),
       m_reconcile_after := now + seconds 10\<rparr>"

definition claimReconcileBatch :: "string list \<Rightarrow> uuid \<Rightarrow> time \<Rightarrow> reconcile_row list tx" where
  "claimReconcileBatch locked token now s =
     (let ids = reconcile_batch locked now s in
      case update_machines (\<lambda>m. m_id m \<in> set ids) (claim_row token now) s of
        Inl e \<Rightarrow> Inl e
      | Inr s' \<Rightarrow>
          Inr (map (reconcile_row_of s' token now)
            (sort_by (\<lambda>a b. then_cmp (cmp_of (m_created_at a) (m_created_at b)) (cmp_of (m_id a) (m_id b)))
              (filter (\<lambda>m. m_id m \<in> set ids) (machines s'))), s'))"

definition releaseReconcileClaim :: "reconcile_row \<Rightarrow> bool \<Rightarrow> time \<Rightarrow> fleet \<Rightarrow> error + fleet" where
  "releaseReconcileClaim machine failed now =
     update_machines (\<lambda>m. m_id m = rr_id machine \<and> m_lease_id m = rr_lease_id machine \<and>
         m_reconcile_claim_token m = Some (rr_reconcile_claim_token machine))
       (\<lambda>m. m\<lparr>m_reconcile_claim_token := None, m_reconcile_claimed_until := None,
              m_reconcile_after := (if failed then max (m_reconcile_after m) (now + seconds 30) else m_reconcile_after m)\<rparr>)"

section \<open>Releases and terminal states\<close>

definition release_row :: "string \<Rightarrow> uuid \<Rightarrow> resources \<Rightarrow> time \<Rightarrow> fleet \<Rightarrow> error + fleet" where
  "release_row i host r now s =
     (case claim_release i now s of
        Inl e \<Rightarrow> Inl e
      | Inr s1 \<Rightarrow>
          (if list_ex (\<lambda>m. m_id m = i \<and> m_reservation_released_at m = None) (machines s)
           then sub_reserved host r s1 else Inr s))"

definition reconciler_event :: "string \<Rightarrow> uuid \<Rightarrow> machine_state \<Rightarrow> machine_state \<Rightarrow> string \<Rightarrow> fleet \<Rightarrow> fleet" where
  "reconciler_event i org from to reason =
     insert_event \<lparr>e_key = i @ '':reconciled:'' @ state_text to, e_machine_id = i, e_organization_id = org,
       e_from_state = Some from, e_to_state = to, e_reason = Some reason, e_observed_by = ''reconciler'',
       e_metadata = []\<rparr>"

definition stop_time :: "time option \<Rightarrow> machine_row \<Rightarrow> time option" where
  "stop_time cutoff m =
     coalesce cutoff (coalesce (m_started_at m) (coalesce (m_placed_at m) (Some (m_created_at m))))"

definition finish_row :: "machine_state \<Rightarrow> string \<Rightarrow> time option \<Rightarrow> time \<Rightarrow> machine_row \<Rightarrow> machine_row" where
  "finish_row state reason cutoff now m =
     m\<lparr>m_state := state, m_state_reason := Some reason,
       m_stopped_at := (if state = Lost then stop_time cutoff m else Some now), m_ready := False, m_ready_at := None\<rparr>"

definition finishTx ::
    "string \<Rightarrow> uuid \<Rightarrow> uuid \<Rightarrow> machine_state \<Rightarrow> string \<Rightarrow> time option \<Rightarrow> time \<Rightarrow> bool tx" where
  "finishTx i org lease state reason cutoff now =
     update_then (\<lambda>m. m_id m = i \<and> m_lease_id m = lease \<and> \<not> terminal (m_state m))
       (finish_row state reason cutoff now)
       (\<lambda>m. reconciler_event i org (m_state m) state reason)"

text \<open>\<open>metering\<close> says whether the reconciler was given an authoritative meter.\<close>

definition finishAndRelease :: "world \<Rightarrow> bool \<Rightarrow> reconcile_row \<Rightarrow> machine_state \<Rightarrow> string \<Rightarrow> unit svc" where
  "finishAndRelease w metering machine state reason =
     bind_svc
       (if state = Lost \<and> metering then call_tx (closeHostLoss (rr_id machine) (rr_lease_id machine) (w_clock w 20))
        else return_svc None)
       (\<lambda>cutoff.
         bind_svc (call_tx (finishTx (rr_id machine) (rr_organization_id machine) (rr_lease_id machine) state reason
             cutoff (w_clock w 21)))
           (\<lambda>changed.
             if changed then call_do (release_row (rr_id machine) (rr_host_id machine) (rr_resources machine) (w_clock w 22))
             else return_svc ()))"

definition lost_on_stale :: "fleet \<Rightarrow> machine_row \<Rightarrow> bool" where
  "lost_on_stale s m \<longleftrightarrow> list_ex (\<lambda>h. Some (h_id h) = m_host_id m \<and> h_state h = Stale) (hosts s) \<and>
     \<not> terminal (m_state m) \<and> \<not> pending_child s m"

definition stale_event :: "machine_row \<Rightarrow> event_row" where
  "stale_event m =
     \<lparr>e_key = m_id m @ '':stale-host:lost'', e_machine_id = m_id m, e_organization_id = m_organization_id m,
      e_from_state = Some (m_state m), e_to_state = Lost, e_reason = Some ''host heartbeat expired'',
      e_observed_by = ''reconciler'', e_metadata = []\<rparr>"

definition last_metered :: "fleet \<Rightarrow> string \<Rightarrow> time option" where
  "last_metered s i = Option.bind (find (\<lambda>x. mm_machine_id x = i) (machine_meter_state s)) mm_last_period_end"

definition lost_row :: "fleet \<Rightarrow> machine_row \<Rightarrow> machine_row" where
  "lost_row s m =
     m\<lparr>m_state := Lost, m_state_reason := Some ''host heartbeat expired'',
       m_stopped_at := stop_time (last_metered s (m_id m)) m, m_ready := False, m_ready_at := None\<rparr>"

definition markLostTx :: "machine_row list tx" where
  "markLostTx s =
     (let lost = filter (lost_on_stale s) (machines s) in
      case update_machines (lost_on_stale s) (lost_row s) (fold (\<lambda>m. insert_event (stale_event m)) lost s) of
        Inl e \<Rightarrow> Inl e
      | Inr s' \<Rightarrow> Inr (lost, s'))"

definition markLostOnStaleHosts :: "bool \<Rightarrow> (nat \<Rightarrow> time) \<Rightarrow> unit svc" where
  "markLostOnStaleHosts metering clock =
     bind_svc (call_tx markLostTx)
       (each_svc (\<lambda>n m.
          bind_svc (if metering then call_tx (closeHostLoss (m_id m) (m_lease_id m) (clock n)) else return_svc None)
            (\<lambda>_. call_do (release_row (m_id m) (the (m_host_id m)) (m_resources m) (clock n)))) 0)"

text \<open>The rows a LIMIT without ORDER BY picks are those first in the table.\<close>

definition leaked :: "fleet \<Rightarrow> machine_row list" where
  "leaked s = take 100 (filter (\<lambda>m. on_host s m \<and> terminal (m_state m) \<and> m_reservation_released_at m = None) (machines s))"

definition releaseLeakedReservations :: "(nat \<Rightarrow> time) \<Rightarrow> unit svc" where
  "releaseLeakedReservations clock s =
     each_svc (\<lambda>n m. call_do (release_row (m_id m) (the (m_host_id m)) (m_resources m) (clock n))) 0 (leaked s) s"

definition unfinalized :: "fleet \<Rightarrow> machine_row \<Rightarrow> bool" where
  "unfinalized s m \<longleftrightarrow>
     terminal (m_state m) \<and> m_usage_finalized_at m = None \<and> metered s m \<and>
     list_ex (\<lambda>h. Some (h_id h) = m_host_id m \<and>
       (m_state m = Lost \<or> h_state h = Stale \<or> h_desired_state h \<in> {DQuarantined, DRevoked} \<or>
        h_credential_status h = CredRevoked)) (hosts s)"

definition nulls_last :: "time option \<Rightarrow> time option \<Rightarrow> int" where
  "nulls_last a b = (case (a, b) of (None, None) \<Rightarrow> 0 | (None, _) \<Rightarrow> 1 | (_, None) \<Rightarrow> -1 | (Some x, Some y) \<Rightarrow> cmp_of x y)"

definition closeUnfinalizedAuthoritativeTerminals :: "bool \<Rightarrow> (nat \<Rightarrow> time) \<Rightarrow> unit svc" where
  "closeUnfinalizedAuthoritativeTerminals metering clock s =
     (if \<not> metering then (Inr (), s)
      else each_svc (\<lambda>n m. bind_svc (call_tx (closeHostLoss (m_id m) (m_lease_id m) (clock n))) (\<lambda>_. return_svc ())) 0
        (take 100 (sort_by (\<lambda>a b. then_cmp (nulls_last (m_stopped_at a) (m_stopped_at b)) (cmp_of (m_id a) (m_id b)))
          (filter (unfinalized s) (machines s)))) s)"

section \<open>Reconciling a machine\<close>

text \<open>\<open>host.destroy\<close> inside a \<open>try\<close> that forgives a machine the host no longer has.\<close>

definition host_remove :: "world \<Rightarrow> string \<Rightarrow> string \<Rightarrow> uuid \<Rightarrow> unit svc" where
  "host_remove w address i lease =
     (case host_destroy (w_host w) address i lease of
        Inl e \<Rightarrow> (if is_not_found e then return_svc () else throw_svc e)
      | Inr _ \<Rightarrow> return_svc ())"

definition recover_request :: "reconcile_row \<Rightarrow> create_on_host" where
  "recover_request machine =
     \<lparr>ch_leaseId = rr_lease_id machine, ch_leaseGeneration = rr_lease_generation machine,
      ch_idempotencyKey = rr_id machine,
      ch_template = coalesce (rr_template_name machine) (rr_host_template_name machine),
      ch_ociReference = rr_source_oci_ref machine, ch_ttlSeconds = rr_requested_ttl_seconds machine,
      ch_resources = rr_resources machine, ch_networkPolicy = rr_network_policy machine,
      ch_metadata = [(''public_machine_id'', rr_id machine)],
      ch_runtimeCohortId = rr_runtime_cohort_id machine, ch_sourceSha256 = rr_source_sha256 machine\<rparr>"

text \<open>\<open>UPDATE machines SET host_machine_id ... RETURNING state\<close>.\<close>

definition recoverable :: "reconcile_row \<Rightarrow> host_machine \<Rightarrow> machine_row \<Rightarrow> bool" where
  "recoverable machine hm m \<longleftrightarrow>
     m_id m = rr_id machine \<and> m_lease_id m = rr_lease_id machine \<and> m_state m \<in> {Starting, Stopping, Running} \<and>
     (m_host_machine_id m = None \<or> m_host_machine_id m = Some (hm_id hm))"

definition recovered_row :: "host_machine \<Rightarrow> time option \<Rightarrow> time \<Rightarrow> machine_row \<Rightarrow> machine_row" where
  "recovered_row hm started now m =
     m\<lparr>m_host_machine_id := Some (hm_id hm),
       m_started_at := coalesce (m_started_at m) (coalesce started (Some now))\<rparr>"

definition persistRecovered :: "reconcile_row \<Rightarrow> host_machine \<Rightarrow> time \<Rightarrow> machine_state option tx" where
  "persistRecovered machine hm now s =
     (case date_param (hm_started_at hm) of
        Inl e \<Rightarrow> Inl e
      | Inr started \<Rightarrow>
          (case update_machines (recoverable machine hm) (recovered_row hm started now) s of
             Inl e \<Rightarrow> Inl e
           | Inr s' \<Rightarrow> Inr (map_option m_state (find (recoverable machine hm) (machines s)), s')))"

definition observation_matches :: "js_net \<Rightarrow> reconcile_row \<Rightarrow> string \<Rightarrow> host_machine \<Rightarrow> bool" where
  "observation_matches net current i hm \<longleftrightarrow>
     hm_id hm = i \<and> hm_lease_id hm = Some (rr_lease_id current) \<and>
     hm_lease_generation hm = Some (rr_lease_generation current) \<and>
     hm_meta hm ''public_machine_id'' = Some (rr_id current) \<and>
     hm_resources hm = Some (rr_resources current) \<and>
     (case canonical_policy net (decl_json (rr_network_policy current)) of
        Inl _ \<Rightarrow> False | Inr d \<Rightarrow> observed_policy net hm = Some d)"

definition readiness_row :: "bool \<Rightarrow> time option \<Rightarrow> time \<Rightarrow> machine_row \<Rightarrow> machine_row" where
  "readiness_row ready readyAt now m =
     m\<lparr>m_ready := ready, m_ready_at := (if ready then coalesce (m_ready_at m) (coalesce readyAt (Some now)) else None)\<rparr>"

definition observeRunning :: "reconcile_row \<Rightarrow> host_machine \<Rightarrow> time \<Rightarrow> fleet \<Rightarrow> error + fleet" where
  "observeRunning current hm now s =
     (case date_param (hm_ready_at hm) of
        Inl e \<Rightarrow> Inl e
      | Inr readyAt \<Rightarrow>
          update_machines (\<lambda>m. m_id m = rr_id current \<and> m_lease_id m = rr_lease_id current \<and> m_state m = Running)
            (readiness_row (hm_ready hm) readyAt now) s)"

definition started_row :: "bool \<Rightarrow> time option \<Rightarrow> time option \<Rightarrow> time \<Rightarrow> machine_row \<Rightarrow> machine_row" where
  "started_row ready started readyAt now m =
     readiness_row ready readyAt now
       (m\<lparr>m_state := (if ready then Running else Starting),
          m_started_at := coalesce (m_started_at m) (coalesce started (Some now))\<rparr>)"

definition observeStarting :: "reconcile_row \<Rightarrow> host_machine \<Rightarrow> time \<Rightarrow> fleet \<Rightarrow> error + fleet" where
  "observeStarting current hm now s =
     (case (date_param (hm_started_at hm), date_param (hm_ready_at hm)) of
        (Inl e, _) \<Rightarrow> Inl e
      | (_, Inl e) \<Rightarrow> Inl e
      | (Inr started, Inr readyAt) \<Rightarrow>
          map_sum id snd
            (update_then (\<lambda>m. m_id m = rr_id current \<and> m_lease_id m = rr_lease_id current \<and> m_state m = Starting)
              (started_row (hm_ready hm) started readyAt now)
              (\<lambda>m. if hm_ready hm
                   then reconciler_event (rr_id current) (rr_organization_id current) Starting Running ''guest agent ready''
                   else id) s))"

text \<open>From the match check on, with the host's observation of the machine.\<close>

definition reconcile_observed :: "world \<Rightarrow> bool \<Rightarrow> reconcile_row \<Rightarrow> string \<Rightarrow> host_machine \<Rightarrow> unit svc" where
  "reconcile_observed w metering current i hm =
     (if \<not> observation_matches (w_net w) current i hm
      then throw_svc (PlainError
        ''host observation does not match the current machine lease, resources, and network policy'')
      else if hm_status hm \<in> {''stopped'', ''failed'', ''lost''}
      then finishAndRelease w metering current (if hm_status hm = ''stopped'' then Stopped else Failed)
        (''host reported '' @ hm_status hm)
      else if rr_state current = Running then call_do (observeRunning current hm (w_clock w 2))
      else if rr_state current = Starting
      then (if \<not> hm_ready hm \<and> rr_startup_deadline_reached current
            then bind_svc (host_remove w (rr_host_address current) i (rr_lease_id current))
              (\<lambda>_. finishAndRelease w metering current Failed ''guest agent readiness deadline exceeded'')
            else call_do (observeStarting current hm (w_clock w 2)))
      else return_svc ())"

definition reconcile_missing :: "world \<Rightarrow> bool \<Rightarrow> reconcile_row \<Rightarrow> unit svc" where
  "reconcile_missing w metering current =
     (if rr_state current = Running
      then finishAndRelease w metering current Lost ''host no longer has the running machine''
      else if rr_state current = Starting \<and> rr_startup_deadline_reached current
      then finishAndRelease w metering current Failed ''host no longer has the assigned machine''
      else return_svc ())"

definition reconcile_known ::
    "world \<Rightarrow> bool \<Rightarrow> reconcile_row \<Rightarrow> string \<Rightarrow> host_machine option \<Rightarrow> unit svc" where
  "reconcile_known w metering current i recovered =
     (if rr_state current = Stopping
      then bind_svc (host_remove w (rr_host_address current) i (rr_lease_id current))
        (\<lambda>_. finishAndRelease w metering current Stopped ''reconciled delete'')
      else bind_svc (case recovered of Some hm \<Rightarrow> return_svc (Some hm)
                     | None \<Rightarrow> call_host (host_get (w_host w) (rr_host_address current) i))
        (\<lambda>observed. case observed of
             None \<Rightarrow> reconcile_missing w metering current
           | Some hm \<Rightarrow> reconcile_observed w metering current i hm))"

text \<open>A machine whose host identity was never stored is created again under its idempotency key.\<close>

definition reconcile :: "world \<Rightarrow> bool \<Rightarrow> reconcile_row \<Rightarrow> unit svc" where
  "reconcile w metering machine =
     (if present (rr_host_machine_id machine)
      then reconcile_known w metering machine (the (rr_host_machine_id machine)) None
      else
        bind_svc (call_host (host_create (w_host w) (rr_host_address machine) (recover_request machine)))
          (\<lambda>hm. bind_svc (call_tx (persistRecovered machine hm (w_clock w 1)))
            (\<lambda>persisted. case persisted of
                None \<Rightarrow> host_remove w (rr_host_address machine) (hm_id hm) (rr_lease_id machine)
              | Some st \<Rightarrow>
                  reconcile_known w metering
                    (machine\<lparr>rr_state := st, rr_host_machine_id := Some (hm_id hm),
                       rr_started_at := (case date_ms (hm_started_at hm) of
                           None \<Rightarrow> rr_started_at machine | Some t \<Rightarrow> Some t)\<rparr>)
                    (hm_id hm) (Some hm))))"

section \<open>Reconciling a fork\<close>

definition reconcilerForkCleanup ::
    "world \<Rightarrow> fork_operation \<Rightarrow> failure \<Rightarrow> host_machine list \<Rightarrow> bool \<Rightarrow> unit svc" where
  "reconcilerForkCleanup w fo fl observed hostConfirmed =
     bind_svc
       (if fo_cleanupRequested fo \<and> present (fo_cleanupClaimToken fo) then return_svc fo
        else requestForkCleanup (w_net w) (w_uuid w 10) (fo_id fo) (fl_status fl) (fl_code fl) (fl_message fl) (w_clock w 10))
       (\<lambda>cleanup.
         if fo_state cleanup \<noteq> Pending \<or> \<not> present (fo_cleanupClaimToken cleanup) then return_svc ()
         else
           (let token = the (fo_cleanupClaimToken cleanup) in
            if \<not> (hostConfirmed \<or> cleanupForkObservations (w_host w) cleanup observed)
            then call_do (releaseForkCleanupClaim (fo_id cleanup) token (w_clock w 11))
            else bind_svc (completeForkCleanup (w_net w) (fo_id cleanup) token (w_clock w 12)) (\<lambda>_. return_svc ())))"

definition reconcile_fork_rejection :: "error \<Rightarrow> failure" where
  "reconcile_fork_rejection e =
     (if source_rejected e
      then \<lparr>fl_status = 422, fl_code = ''machine_not_forkable'',
        fl_message = ''The source host can no longer create this live snapshot.''\<rparr>
      else \<lparr>fl_status = 502, fl_code = ''host_request_failed'',
        fl_message = ''The source host rejected the fork request.''\<rparr>)"

definition reconcile_fork_error :: "world \<Rightarrow> fork_operation \<Rightarrow> error \<Rightarrow> unit svc" where
  "reconcile_fork_error w active e =
     (if is_host_error e \<and> host_code e = Some ''fork_batch_cleaned''
      then reconcilerForkCleanup w active (batch_failure
        ''The host removed every reserved child after the fork could not complete.'') [] True
      else case e of
          HostForkContractError _ observed \<Rightarrow>
            reconcilerForkCleanup w active (batch_failure ''The host never returned a valid, complete fork batch.'')
              observed False
        | _ \<Rightarrow>
            (if is_host_error e \<and> host_ambiguous e
             then bind_svc (release_cleanup_claim w active)
               (\<lambda>_. reconcilerForkCleanup w (active\<lparr>fo_cleanupClaimToken := None\<rparr>) (batch_failure
                 ''The host result is ambiguous; the fork remains hidden until cleanup is confirmed.'') [] False)
             else if fo_cleanupRequested active then release_cleanup_claim w active
             else if is_host_error e
             then (let fl = reconcile_fork_rejection e in
               bind_svc (failFork (w_net w) (fo_id active) (fl_status fl) (fl_code fl) (fl_message fl) (w_clock w 6))
                 (\<lambda>_. return_svc ()))
             else throw_svc e))"

definition reconcile_fork_observed :: "world \<Rightarrow> fork_operation \<Rightarrow> host_machine list \<Rightarrow> unit svc" where
  "reconcile_fork_observed w active observed =
     (if fo_cleanupRequested active then reconcilerForkCleanup w active (cleanup_failure active) observed False
      else if host_terminal observed \<or> (\<not> all_ready observed \<and> fo_deadlineReached active)
      then reconcilerForkCleanup w active (batch_failure
        (if host_terminal observed then ''A fork child became terminal before the entire batch was ready.''
         else ''The fork batch did not become ready before its shared startup deadline.'')) observed False
      else
        (\<lambda>s. case completeFork (w_net w) (fo_id active) observed (w_clock w 7) s of
             (Inl e, s') \<Rightarrow>
               (if is_host_error e \<and> host_ambiguous e
                then reconcilerForkCleanup w active (batch_failure
                  ''The host fork batch did not match the durable child reservation.'') observed False s'
                else (Inl e, s'))
           | (Inr _, s') \<Rightarrow> (Inr (), s')))"

definition reconcileFork :: "world \<Rightarrow> fork_operation \<Rightarrow> unit svc" where
  "reconcileFork w fo =
     bind_svc
       (if fo_cleanupRequested fo
        then requestForkCleanup (w_net w) (w_uuid w 3) (fo_id fo) (fl_status (cleanup_failure fo))
          (fl_code (cleanup_failure fo)) (fl_message (cleanup_failure fo)) (w_clock w 3)
        else return_svc fo)
       (\<lambda>active.
         if fo_cleanupRequested fo \<and> (fo_state active \<noteq> Pending \<or> \<not> present (fo_cleanupClaimToken active))
         then return_svc ()
         else
           (case host_fork (w_host w) (fo_sourceHostAddress active) (fo_sourceHostMachineId active)
               (fo_sourceLeaseId active) (fo_idempotencyKey active) (map (fork_child_request active) (fo_children active)) of
              Inl e \<Rightarrow> reconcile_fork_error w active e
            | Inr observed \<Rightarrow> reconcile_fork_observed w active observed))"

section \<open>A run\<close>

text \<open>
  The worker of a fork or a machine: what it throws is logged and delays the next attempt, and the
  claim is given back either way. The workers of a batch run one after another here.
\<close>

definition fork_worker :: "world \<Rightarrow> fork_operation \<Rightarrow> unit svc" where
  "fork_worker w fo s =
     (case reconcileFork w fo s of
        (r, s1) \<Rightarrow>
          (if present (fo_reconcileClaimToken fo)
           then (Inr (), snd (call_do (releaseForkClaim (fo_id fo) (the (fo_reconcileClaimToken fo)) (Sum_Type.isl r)
             (w_clock w 30)) s1))
           else (Inr (), s1)))"

definition machine_worker :: "world \<Rightarrow> bool \<Rightarrow> reconcile_row \<Rightarrow> unit svc" where
  "machine_worker w metering machine s =
     (case reconcile w metering machine s of
        (r, s1) \<Rightarrow> (Inr (), snd (call_do (releaseReconcileClaim machine (Sum_Type.isl r) (w_clock w 30)) s1)))"

record reconciler =
  mr_metering :: bool
  mr_usage :: bool
  mr_number :: "time \<Rightarrow> int \<Rightarrow> int \<Rightarrow> numeric13"
  mr_text :: "error \<Rightarrow> string"

text \<open>\<open>runLocked\<close>; \<open>ws\<close> gives each phase and each worker its own instants, identifiers and answers.\<close>

definition runLocked :: "reconciler \<Rightarrow> (nat \<Rightarrow> world) \<Rightarrow> unit svc" where
  "runLocked r ws =
     bind_svc (markLostOnStaleHosts (mr_metering r) (w_clock (ws 0)))
       (\<lambda>_. bind_svc (closeUnfinalizedAuthoritativeTerminals (mr_metering r) (w_clock (ws 1)))
       (\<lambda>_. bind_svc (releaseLeakedReservations (w_clock (ws 2)))
       (\<lambda>_. bind_svc (call_do (enqueueUsageIntervals (mr_metering r) (w_locked (ws 3)) (w_clock (ws 3) 0)))
       (\<lambda>_. bind_svc (flushUsageOutbox (mr_number r) (mr_text r) (mr_usage r) (w_locked (ws 4)) (w_uuid (ws 4) 0)
           (w_clock (ws 4)))
       (\<lambda>_. bind_svc (claimPendingForks (w_net (ws 5)) (w_locked (ws 5)) (w_uuid (ws 5) 0) 20 (w_clock (ws 5) 0))
       (\<lambda>forks. bind_svc (each_svc (\<lambda>n. fork_worker (ws n)) 6 forks)
       (\<lambda>_. bind_svc (call_tx (claimReconcileBatch (w_locked (ws 26)) (w_uuid (ws 26) 0) (w_clock (ws 26) 0)))
       (each_svc (\<lambda>n. machine_worker (ws n) (mr_metering r)) 27))))))))"

section \<open>Expiry\<close>

definition expired :: "fleet \<Rightarrow> time \<Rightarrow> machine_row \<Rightarrow> bool" where
  "expired s now m \<longleftrightarrow> committed_until s m \<le> now \<and> \<not> terminal (m_state m) \<and> \<not> pending_child s m"

definition expired_batch :: "fleet \<Rightarrow> time \<Rightarrow> machine_row list" where
  "expired_batch s now =
     take 100 (sort_by (\<lambda>a b. cmp_of (m_expires_at a) (m_expires_at b)) (filter (expired s now) (machines s)))"

text \<open>The error of a destroy is dropped.\<close>

definition reap_one :: "world \<Rightarrow> machine_row \<Rightarrow> unit svc" where
  "reap_one w m s = (Inr (), snd (destroy w (m_id m) (m_organization_id m) (Some (m_project_id m)) s))"

definition reapExpiredMachines :: "(nat \<Rightarrow> world) \<Rightarrow> time \<Rightarrow> unit svc" where
  "reapExpiredMachines ws now s = each_svc (\<lambda>n. reap_one (ws n)) 0 (expired_batch s now) s"

section \<open>The reconciler keeps the fleet consistent\<close>

text \<open>The row a worker was given, and the machine it stands for.\<close>

definition tracks :: "fleet \<Rightarrow> reconcile_row \<Rightarrow> machine_row \<Rightarrow> bool" where
  "tracks s rr m \<longleftrightarrow> decided s m \<and> m_id m = rr_id rr \<and> m_host_id m = Some (rr_host_id rr) \<and>
     m_resources m = rr_resources rr"

lemma release_row_eq: "i \<noteq> [] \<Longrightarrow> release_row i H r now = release H r (Some i) now"
  by (auto simp: fun_eq_iff release_row_def release_def present_def falsy_def split: sum.split)

lemma decided_id: "fleet_inv s \<Longrightarrow> decided s m \<Longrightarrow> m_id m \<noteq> []"
  using fleet_invD(5) [of s m] by (auto simp: decided_def machine_ok_def machine_id_nonempty)

text \<open>The reservation of a machine that was decided in \<open>s\<close> and has ended by \<open>t\<close>.\<close>

lemma sound_from_release_row:
  assumes "fleet_inv s" and "fleet_le s t" and "decided s m" and "in_state terminal t i"
    and "m_host_id m = Some H" and "m_resources m = r" and "m_id m = i"
  shows "sound_from t (call_do (release_row i H r now))"
  using sound_from_release_ended [OF assms] decided_id [OF assms(1,3)] assms(7) by (simp add: release_row_eq)

lemma reconciler_event_frame [simp, frame]:
  "machines (reconciler_event i org a b r s) = machines s" "hosts (reconciler_event i org a b r s) = hosts s"
  "fork_ops (reconciler_event i org a b r s) = fork_ops s" "extend_ops (reconciler_event i org a b r s) = extend_ops s"
  by (simp_all add: reconciler_event_def)

lemma update_then_ok:
  assumes "update_then P f k s = Inr (b, s')"
    and "\<And>s1. update_machines P f s = Inr s1 \<Longrightarrow> fleet_inv s1 \<and> fleet_le s s1"
    and "\<And>m t. machines (k m t) = machines t \<and> hosts (k m t) = hosts t \<and> fork_ops (k m t) = fork_ops t \<and>
      extend_ops (k m t) = extend_ops t"
  shows "fleet_inv s' \<and> fleet_le s s'"
  using assms(1)
proof (rule update_thenE)
  fix s1 assume "update_machines P f s = Inr s1" and s': "s' = s1 \<or> (\<exists>m. s' = k m s1)"
  with assms(2) have s1: "fleet_inv s1" "fleet_le s s1" by auto
  with s' inv_other [of s1 s'] assms(3) [of _ s1] have "fleet_inv s' \<and> fleet_le s1 s'" by auto
  with s1 show ?thesis using fleet_le_trans by blast
qed

lemma finishTx_ok:
  assumes inv: "fleet_inv s" and ok: "finishTx i org lease state reason cutoff now s = Inr (b, s')"
    and u: "\<not> undecided s i" and t: "terminal state"
  shows "fleet_inv s' \<and> fleet_le s s'"
  using ok unfolding finishTx_def
proof (rule update_then_ok)
  fix s1 assume up: "update_machines (\<lambda>m. m_id m = i \<and> m_lease_id m = lease \<and> \<not> terminal (m_state m))
    (finish_row state reason cutoff now) s = Inr s1"
  have "state_le st state" if "\<not> terminal st" for st
    using that t by (cases st; cases state) (auto simp: state_le_def terminal_def)
  with t undecidedD [OF u] show "fleet_inv s1 \<and> fleet_le s s1"
    by (intro inv_decided [OF inv up]) (auto simp: finish_row_def same_core_def row_le_defs terminal_def)
qed simp

lemma finishTx_in_state:
  "finishTx i org lease state reason cutoff now s = Inr (True, s') \<Longrightarrow> terminal state \<Longrightarrow> in_state terminal s' i"
  unfolding finishTx_def by (erule update_then_in_state) (auto simp: finish_row_def)

lemma sound_from_finish:
  assumes inv: "fleet_inv s" and m: "tracks s machine m" and t: "terminal state"
  shows "sound_from s (finishAndRelease w metering machine state reason)"
proof -
  let ?finish = "\<lambda>cutoff. call_tx (finishTx (rr_id machine) (rr_organization_id machine) (rr_lease_id machine) state reason
    cutoff (w_clock w 21))"
  let ?release = "call_do (release_row (rr_id machine) (rr_host_id machine) (rr_resources machine) (w_clock w 22))"
  have "sound_from s (bind_svc (?finish cutoff) (\<lambda>changed. if changed then ?release else return_svc ()))" for cutoff
  proof (rule fp.lastingI, rule fp.bind)
    fix u assume u: "fleet_inv u" "fleet_le s u"
    show "sound (?finish cutoff) u"
      using undecided_later [OF inv u, of m] m t by (intro fp.tx) (auto simp: tracks_def dest: finishTx_ok)
    fix b v assume "?finish cutoff u = (Inr b, v)" and v: "fleet_inv v" "fleet_le u v"
    then have fin: "finishTx (rr_id machine) (rr_organization_id machine) (rr_lease_id machine) state reason
        cutoff (w_clock w 21) u = Inr (b, v)"
      by (auto simp: call_tx_def split: sum.splits)
    show "sound (if b then ?release else return_svc ()) v"
    proof (cases b)
      case True
      with fin t have "in_state terminal v (rr_id machine)" by (simp add: finishTx_in_state)
      with m have "sound_from v ?release"
        by (intro sound_from_release_row [OF inv fleet_le_trans [OF u(2) v(2)], of m]) (auto simp: tracks_def)
      with True show ?thesis by (simp add: fp.lastingD)
    qed simp
  qed
  then show ?thesis
    unfolding finishAndRelease_def by (rule fp.lasting_bind [rotated]) (auto intro: sound_closeHostLoss)
qed

lemma sound_from_host_remove: "sound_from s (host_remove w address i lease)"
  unfolding host_remove_def by (auto split: sum.splits)

lemma sound_from_persistRecovered: "sound_from s (call_tx (persistRecovered machine hm now))"
proof (rule fp.lastingI, rule fp.tx)
  fix t a t' assume "fleet_inv t" "persistRecovered machine hm now t = Inr (a, t')"
  then show "fleet_inv t' \<and> fleet_le t t'"
    by (auto simp: persistRecovered_def split: sum.splits elim!: inv_note
        simp: recovered_row_def same_core_def row_le_defs)
qed

lemma sound_from_observeRunning: "sound_from s (call_do (observeRunning current hm now))"
proof (rule fp.lastingI, rule fp.do)
  fix t t' assume "fleet_inv t" "observeRunning current hm now t = Inr t'"
  then show "fleet_inv t' \<and> fleet_le t t'"
    by (auto simp: observeRunning_def split: sum.splits elim!: inv_note
        simp: readiness_row_def same_core_def row_le_defs)
qed

lemma sound_from_observeStarting:
  assumes inv: "fleet_inv s" and m: "tracks s current m"
  shows "sound_from s (call_do (observeStarting current hm now))"
proof (rule fp.lastingI, rule fp.do)
  fix t t' assume t: "fleet_inv t" "fleet_le s t" and ok: "observeStarting current hm now t = Inr t'"
  from undecided_later [OF inv t, of m] m have u: "\<not> undecided t (rr_id current)" by (simp add: tracks_def)
  let ?P = "\<lambda>m. m_id m = rr_id current \<and> m_lease_id m = rr_lease_id current \<and> m_state m = Starting"
  let ?k = "\<lambda>m. if hm_ready hm
    then reconciler_event (rr_id current) (rr_organization_id current) Starting Running ''guest agent ready'' else id"
  from ok obtain started readyAt b where "update_then ?P (started_row (hm_ready hm) started readyAt now) ?k t = Inr (b, t')"
    by (auto simp: observeStarting_def split: sum.splits)
  then show "fleet_inv t' \<and> fleet_le t t'"
  proof (rule update_then_ok)
    fix s1 assume "update_machines ?P (started_row (hm_ready hm) started readyAt now) t = Inr s1"
    then show "fleet_inv s1 \<and> fleet_le t s1"
      by (rule inv_decided [OF t(1)])
        (use undecidedD [OF u] in \<open>auto simp: started_row_def readiness_row_def same_core_def row_le_defs state_le_def\<close>)
  qed simp
qed

lemma sound_from_reconcile_known:
  assumes inv: "fleet_inv s" and m: "tracks s current m"
  shows "sound_from s (reconcile_known w metering current i recovered)"
proof -
  have fin: "sound_from s (finishAndRelease w metering current st reason)" if "terminal st" for st reason
    by (rule sound_from_finish [OF inv m that])
  have t: "terminal Stopped" "terminal Failed" "terminal Lost" by (simp_all add: terminal_def)
  have "sound_from s (reconcile_observed w metering current i hm)" for hm
    unfolding reconcile_observed_def
    by (auto intro!: fp.lasting_bind fin t sound_from_host_remove sound_from_observeRunning
        sound_from_observeStarting [OF inv m])
  moreover have "sound_from s (reconcile_missing w metering current)"
    unfolding reconcile_missing_def by (auto intro!: fin t)
  ultimately show ?thesis unfolding reconcile_known_def
    by (auto intro!: fp.lasting_bind fin t sound_from_host_remove split: option.splits)
qed

lemma tracks_update [simp]:
  "tracks s (rr\<lparr>rr_state := a\<rparr>) m = tracks s rr m" "tracks s (rr\<lparr>rr_host_machine_id := b\<rparr>) m = tracks s rr m"
  "tracks s (rr\<lparr>rr_started_at := c\<rparr>) m = tracks s rr m"
  by (simp_all add: tracks_def)

lemma sound_from_reconcile:
  assumes "fleet_inv s" and "tracks s machine m"
  shows "sound_from s (reconcile w metering machine)"
  unfolding reconcile_def
  by (auto intro!: fp.lasting_bind sound_from_persistRecovered sound_from_host_remove
      sound_from_reconcile_known [OF assms(1), of _ m] simp: assms(2) split: option.splits)

lemma sound_then:
  assumes "sound_from s m" and "\<And>t r. sound_from s (k r)" and "\<And>t. f t = (Inr (), snd (k (fst (m t)) (snd (m t))))"
  shows "sound_from s f"
proof (rule fp.lastingI)
  fix t assume t: "fleet_inv t" "fleet_le s t"
  with assms(1) have m: "fleet_inv (snd (m t))" "fleet_le t (snd (m t))" by (simp_all add: lasting_def advances_def)
  with t have "fleet_le s (snd (m t))" using fleet_le_trans by blast
  with assms(2) [of "fst (m t)"] m show "sound f t"
    by (auto simp: lasting_def advances_def assms(3) intro: fleet_le_trans)
qed

lemma sound_from_releaseReconcileClaim: "sound_from s (call_do (releaseReconcileClaim machine failed now))"
  by (rule fp.lastingI, rule fp.do)
    (auto simp: releaseReconcileClaim_def same_core_def row_le_defs elim!: inv_note)

lemma sound_from_machine_worker:
  assumes "fleet_inv s" and "tracks s machine m"
  shows "sound_from s (machine_worker w metering machine)"
  by (rule sound_then [OF sound_from_reconcile [OF assms, of w metering],
        where k = "\<lambda>r. call_do (releaseReconcileClaim machine (Sum_Type.isl r) (w_clock w 30))"])
    (auto intro: sound_from_releaseReconcileClaim simp: machine_worker_def split: prod.splits)

lemma claimReconcileBatch_ok:
  assumes inv: "fleet_inv s" and ok: "claimReconcileBatch locked token now s = Inr (rows, s')"
  shows "fleet_inv s' \<and> fleet_le s s'" and "\<And>rr. rr \<in> set rows \<Longrightarrow> \<exists>m. tracks s' rr m"
proof -
  let ?ids = "reconcile_batch locked now s"
  from ok have up: "update_machines (\<lambda>m. m_id m \<in> set ?ids) (claim_row token now) s = Inr s'"
      and rows: "set rows = reconcile_row_of s' token now ` {m \<in> set (machines s'). m_id m \<in> set ?ids}"
    by (auto simp: claimReconcileBatch_def Let_def split: sum.splits)
  show s': "fleet_inv s' \<and> fleet_le s s'"
    by (rule inv_note [OF inv up]) (simp add: claim_row_def same_core_def row_le_defs)
  fix rr assume "rr \<in> set rows"
  then obtain m' where m': "m' \<in> set (machines s')" "m_id m' \<in> set ?ids" and rr: "rr = reconcile_row_of s' token now m'"
    by (auto simp: rows)
  from m'(2) obtain m where m: "m \<in> set (machines s)" "m_id m = m_id m'" and due: "reconcile_due s now m"
    by (auto simp: reconcile_batch_def dest!: in_set_takeD)
  from due m(1) have d: "decided s m" and h: "\<exists>h. m_host_id m = Some h"
    by (auto simp: decided_def reconcile_due_def on_host_def list_ex_iff intro: sym)
  from inv s' d obtain m1 where m1: "decided s' m1" "row_le m m1" by (auto elim: decided_later)
  have "m1 = m'"
    using mkey.key_unique [OF fleet_invD(1), of s' m1 m'] s' m1 m'(1) m(2) by (auto simp: decided_def row_le_defs)
  with m1 h have "tracks s' rr m'" by (auto simp: rr tracks_def reconcile_row_of_def row_le_defs)
  then show "\<exists>m. tracks s' rr m" ..
qed

lemma sound_machine_batch:
  "sound (bind_svc (call_tx (claimReconcileBatch locked token now)) (each_svc (\<lambda>n. machine_worker (ws n) metering) n)) s"
proof (rule fp.bind)
  show "sound (call_tx (claimReconcileBatch locked token now)) s"
    by (rule fp.tx) (rule claimReconcileBatch_ok(1))
next
  fix rows t assume "call_tx (claimReconcileBatch locked token now) s = (Inr rows, t)" and inv: "fleet_inv s" "fleet_inv t"
  then have ok: "claimReconcileBatch locked token now s = Inr (rows, t)"
    by (auto simp: call_tx_def split: sum.splits)
  have "sound_from t (machine_worker w metering rr)" if rr: "rr \<in> set rows" for w rr
    using claimReconcileBatch_ok(2) [OF inv(1) ok rr] sound_from_machine_worker [OF inv(2)] by blast
  then have "sound_from t (each_svc (\<lambda>n. machine_worker (ws n) metering) n rows)" by (rule sound_from_each)
  then show "sound (each_svc (\<lambda>n. machine_worker (ws n) metering) n rows) t" by (rule fp.lastingD)
qed

subsection \<open>Forks, stale hosts and leaks\<close>

lemma sound_from_fork_cleanup: "sound_from s (reconcilerForkCleanup w fo fl observed confirmed)"
  unfolding reconcilerForkCleanup_def Let_def by (auto intro!: fp.lasting_bind sound_from_tx)

lemma sound_from_fork_error: "sound_from s (reconcile_fork_error w active e)"
  unfolding reconcile_fork_error_def Let_def
  by (auto intro!: fp.lasting_bind sound_from_tx sound_from_fork_cleanup sound_release_cleanup_claim split: error.splits)

lemma sound_from_fork_observed: "sound_from s (reconcile_fork_observed w active observed)"
proof -
  let ?c = "completeFork (w_net w) (fo_id active) observed (w_clock w 7)"
  let ?fail = "reconcilerForkCleanup w active
    (batch_failure ''The host fork batch did not match the durable child reservation.'') observed False"
  have "sound_from s (\<lambda>s. case ?c s of
      (Inl e, s') \<Rightarrow> if is_host_error e \<and> host_ambiguous e then ?fail s' else (Inl e, s')
    | (Inr _, s') \<Rightarrow> (Inr (), s'))"
    by (rule sound_case [where m = ?c and k = "\<lambda>_. return_svc ()"
          and h = "\<lambda>e. if is_host_error e \<and> host_ambiguous e then ?fail else throw_svc e"])
      (auto intro: sound_from_tx sound_from_fork_cleanup simp: return_svc_def throw_svc_def split: prod.splits sum.splits)
  then show ?thesis unfolding reconcile_fork_observed_def by (simp add: sound_from_fork_cleanup)
qed

lemma sound_from_reconcileFork: "sound_from s (reconcileFork w fo)"
  unfolding reconcileFork_def
  by (auto intro!: fp.lasting_bind sound_from_tx sound_from_fork_error sound_from_fork_observed split: sum.splits)

lemma sound_from_fork_worker: "sound_from s (fork_worker w fo)"
  by (rule sound_then [OF sound_from_reconcileFork [of _ w fo], where k = "\<lambda>r.
        if present (fo_reconcileClaimToken fo)
        then call_do (releaseForkClaim (fo_id fo) (the (fo_reconcileClaimToken fo)) (Sum_Type.isl r) (w_clock w 30))
        else return_svc ()"])
    (auto intro: sound_from_tx simp: fork_worker_def return_svc_def split: prod.splits)

lemma fold_stale_frame [simp]:
  "machines (fold (\<lambda>m. insert_event (ev m)) ms s) = machines s" "hosts (fold (\<lambda>m. insert_event (ev m)) ms s) = hosts s"
  "fork_ops (fold (\<lambda>m. insert_event (ev m)) ms s) = fork_ops s"
  "extend_ops (fold (\<lambda>m. insert_event (ev m)) ms s) = extend_ops s"
  by (induction ms arbitrary: s) simp_all

lemma row_in_update:
  assumes "update_machines P f s = Inr s'" and "m \<in> set (machines s)" and "P m"
  obtains m' where "m' \<in> set (machines s')" and "stored_as (f m) m'"
  using assms(1)
proof (rule update_machines_Inr)
  fix g assume s': "s' = s\<lparr>machines := sql_update P g (machines s)\<rparr>"
    and st: "\<And>r. r \<in> set (machines s) \<Longrightarrow> P r \<Longrightarrow> stored_as (f r) (g r)"
  from assms(2,3) have "g m \<in> set (machines s')" by (auto simp: s' in_sql_update)
  with st [OF assms(2,3)] that show thesis by blast
qed

lemma markLostTx_ok:
  assumes inv: "fleet_inv s" and ok: "markLostTx s = Inr (lost, s')"
  shows "fleet_inv s' \<and> fleet_le s s'" and "lost = filter (lost_on_stale s) (machines s)"
proof -
  let ?t = "fold (\<lambda>m. insert_event (stale_event m)) lost s"
  from ok show lost: "lost = filter (lost_on_stale s) (machines s)"
    by (auto simp: markLostTx_def Let_def split: sum.splits)
  with ok have up: "update_machines (lost_on_stale s) (lost_row s) ?t = Inr s'"
    by (auto simp: markLostTx_def Let_def split: sum.splits)
  have t: "fleet_inv ?t" "fleet_le s ?t" using inv_other [OF inv, of ?t] by simp_all
  have "pending_child ?t = pending_child s" by (simp add: pending_child_def fun_eq_iff)
  moreover have "state_le st Lost" if "\<not> terminal st" for st
    using that by (cases st) (auto simp: state_le_def terminal_def)
  ultimately have "fleet_inv s' \<and> fleet_le ?t s'"
    by (intro inv_decided [OF t(1) up])
      (auto simp: lost_on_stale_def lost_row_def same_core_def row_le_defs terminal_def)
  with t(2) show "fleet_inv s' \<and> fleet_le s s'" using fleet_le_trans by blast
qed

lemma markLostTx_lost:
  assumes inv: "fleet_inv s" and ok: "markLostTx s = Inr (lost, s')" and m: "m \<in> set lost"
  shows "in_state terminal s' (m_id m)"
proof -
  note lost = markLostTx_ok(2) [OF inv ok]
  with ok have "update_machines (lost_on_stale s) (lost_row s) (fold (\<lambda>m. insert_event (stale_event m)) lost s) = Inr s'"
    by (auto simp: markLostTx_def Let_def split: sum.splits)
  then obtain m' where "m' \<in> set (machines s')" "stored_as (lost_row s m) m'"
    by (rule row_in_update) (use m lost in auto)
  then show ?thesis using stored_as_sel [of "lost_row s m" m'] by (auto simp: in_state_def lost_row_def terminal_def)
qed

lemma lost_decided:
  "m \<in> set (machines s) \<Longrightarrow> lost_on_stale s m \<Longrightarrow> decided s m \<and> (\<exists>h. m_host_id m = Some h)"
  by (auto simp: lost_on_stale_def decided_def list_ex_iff intro: sym)

lemma sound_markLost: "sound (markLostOnStaleHosts metering clock) s"
  unfolding markLostOnStaleHosts_def
proof (rule fp.bind)
  show "sound (call_tx markLostTx) s" by (rule fp.tx) (rule markLostTx_ok(1))
next
  fix lost t assume "call_tx markLostTx s = (Inr lost, t)" and inv: "fleet_inv s" and t: "fleet_inv t" "fleet_le s t"
  then have ok: "markLostTx s = Inr (lost, t)" by (auto simp: call_tx_def split: sum.splits)
  have "sound_from t (call_do (release_row (m_id m) (the (m_host_id m)) (m_resources m) now))" if "m \<in> set lost" for m now
    using that lost_decided [of m s] markLostTx_ok(2) [OF inv ok] markLostTx_lost [OF inv ok that]
    by (intro sound_from_release_row [OF inv t(2), of m]) auto
  then have "sound_from t (each_svc (\<lambda>n m.
      bind_svc (if metering then call_tx (closeHostLoss (m_id m) (m_lease_id m) (clock n)) else return_svc None)
        (\<lambda>_. call_do (release_row (m_id m) (the (m_host_id m)) (m_resources m) (clock n)))) 0 lost)"
    by (intro sound_from_each fp.lasting_bind) (auto intro: sound_closeHostLoss)
  from fp.lastingD [OF this]
  show "sound (each_svc (\<lambda>n m.
      bind_svc (if metering then call_tx (closeHostLoss (m_id m) (m_lease_id m) (clock n)) else return_svc None)
        (\<lambda>_. call_do (release_row (m_id m) (the (m_host_id m)) (m_resources m) (clock n)))) 0 lost) t" .
qed

lemma sound_releaseLeaked: "sound (releaseLeakedReservations clock) s"
proof (rule fp.step, goal_cases)
  case 1
  have "sound_from s (call_do (release_row (m_id m) (the (m_host_id m)) (m_resources m) now))" if "m \<in> set (leaked s)" for m now
  proof (rule sound_from_release_row [OF 1(1) fleet_le_refl])
    from that have m: "m \<in> set (machines s)" "on_host s m" "terminal (m_state m)"
      by (auto simp: leaked_def dest!: in_set_takeD)
    then show "decided s m" using pending_child_state [OF 1(1) m(1)] by (auto simp: decided_def terminal_def)
    from m(1,3) show "in_state terminal s (m_id m)" by (auto simp: in_state_def)
    from m(2) show "m_host_id m = Some (the (m_host_id m))" by (cases "m_host_id m") (auto simp: on_host_def list_ex_iff)
  qed simp_all
  then have "sound (each_svc (\<lambda>n m. call_do (release_row (m_id m) (the (m_host_id m)) (m_resources m) (clock n))) 0 (leaked s)) s"
    by (intro fp.lastingD sound_from_each)
  with 1(1) show ?case by (simp add: releaseLeakedReservations_def advances_def)
qed

lemma sound_closeUnfinalized: "sound (closeUnfinalizedAuthoritativeTerminals metering clock) s"
proof (rule fp.step, goal_cases)
  case 1
  have "sound (each_svc (\<lambda>n m. bind_svc (call_tx (closeHostLoss (m_id m) (m_lease_id m) (clock n))) (\<lambda>_. return_svc ())) 0 ms) s" for ms
    by (rule fp.lastingD, rule sound_from_each) (auto intro!: fp.lasting_bind sound_closeHostLoss)
  with 1(1) show ?case by (auto simp: closeUnfinalizedAuthoritativeTerminals_def advances_def)
qed

text \<open>A whole run of the reconciler.\<close>

lemma sound_runLocked: "sound (runLocked r ws) s"
  unfolding runLocked_def
  by (intro fp.bind sound_markLost sound_closeUnfinalized sound_releaseLeaked sound_machine_batch
      fp.do enqueueUsageIntervals_ok sound_flushUsageOutbox [THEN fp.lastingD] sound_tx
      sound_from_each [THEN fp.lastingD] sound_from_fork_worker) assumption+

lemma sound_reap: "sound (reapExpiredMachines ws now) s"
proof -
  have one: "sound_from s (reap_one w m)" for w m
    by (rule fp.lastingI) (use sound_destroy in \<open>simp add: reap_one_def advances_def\<close>)
  have "sound (each_svc (\<lambda>n. reap_one (ws n)) 0 ms) s" for ms
    by (rule fp.lastingD, rule sound_from_each) (rule one)
  then show ?thesis by (simp add: reapExpiredMachines_def advances_def)
qed

section \<open>Ending a machine\<close>

text \<open>Closing the account of a lost host leaves the machine's identity, lease and state.\<close>

lemma closeHostLoss_row:
  assumes ok: "closeHostLoss i lease now s = Inr (c, s')" and m: "m \<in> set (machines s)"
  obtains m' where "m' \<in> set (machines s')" and "m_id m' = m_id m" and "m_lease_id m' = m_lease_id m"
    and "m_state m' = m_state m"
proof (cases "machines s' = machines s")
  case True
  with m that show thesis by auto
next
  case False
  with ok obtain meter s1 where
      up: "update_machines (\<lambda>m. m_id m = i \<and> m_lease_id m = lease) (close_usage_row meter now) s1 = Inr s'"
      and s1: "machines s1 = machines s"
    by (auto simp: closeHostLoss_def close_loss_def split: option.splits if_splits sum.splits)
  from up obtain g where s': "s' = s1\<lparr>machines := sql_update (\<lambda>m. m_id m = i \<and> m_lease_id m = lease) g (machines s1)\<rparr>"
      and st: "\<And>r. r \<in> set (machines s1) \<Longrightarrow> m_id r = i \<and> m_lease_id r = lease \<Longrightarrow> stored_as (close_usage_row meter now r) (g r)"
    by (rule update_machines_Inr) blast
  show thesis
  proof (cases "m_id m = i \<and> m_lease_id m = lease")
    case True
    with m s1 have "g m \<in> set (machines s')" by (auto simp: s' in_sql_update)
    with stored_as_sel [OF st [OF _ True]] m s1 that show thesis by (simp add: close_usage_row_def)
  next
    case False
    with m s1 have "m \<in> set (machines s')" by (simp add: s' sql_update_kept)
    with that show thesis by blast
  qed
qed

definition ended :: "fleet \<Rightarrow> string \<Rightarrow> machine_state \<Rightarrow> bool" where
  "ended s i state \<longleftrightarrow> list_ex (\<lambda>m. m_id m = i \<and> m_state m = state \<and> \<not> m_ready m \<and>
     m_reservation_released_at m \<noteq> None) (machines s)"

lemma release_row_ends:
  assumes ok: "release_row i H r now s = Inr s'" and m: "m \<in> set (machines s)" "m_id m = i" "m_state m = state" "\<not> m_ready m"
  shows "ended s' i state"
proof (cases "m_reservation_released_at m = None")
  case True
  with m ok obtain s1 where c: "claim_release i now s = Inr s1" and sub: "sub_reserved H r s1 = Inr s'"
    by (auto simp: release_row_def list_ex_iff split: sum.splits if_splits)
  from c [unfolded claim_release_def] m(1) obtain m' where m': "m' \<in> set (machines s1)"
      and st: "stored_as (m\<lparr>m_reservation_released_at := Some now\<rparr>) m'"
    by (rule row_in_update) (use m True in auto)
  from update_hosts_Inr(1) [OF sub [unfolded sub_reserved_def]] have "machines s' = machines s1" by simp
  with m' stored_as_sel [OF st] m show ?thesis by (auto simp: ended_def list_ex_iff)
next
  case False
  have "m \<in> set (machines s')"
  proof (cases "list_ex (\<lambda>m. m_id m = i \<and> m_reservation_released_at m = None) (machines s)")
    case True
    with ok obtain s1 where c: "claim_release i now s = Inr s1" and sub: "sub_reserved H r s1 = Inr s'"
      by (auto simp: release_row_def split: sum.splits)
    from c [unfolded claim_release_def] have "m \<in> set (machines s1)"
      by (rule update_machines_Inr) (use m(1) False in \<open>auto simp: sql_update_kept\<close>)
    with update_hosts_Inr(1) [OF sub [unfolded sub_reserved_def]] show ?thesis by simp
  next
    case False
    with ok m(1) show ?thesis by (auto simp: release_row_def split: sum.splits)
  qed
  with m False show ?thesis by (auto simp: ended_def list_ex_iff)
qed

lemma finish_settles:
  assumes m: "m \<in> set (machines s)" "m_id m = rr_id machine" "m_lease_id m = rr_lease_id machine" "\<not> terminal (m_state m)"
    and ok: "finishAndRelease w metering machine state reason s = (Inr (), s')"
  shows "ended s' (rr_id machine) state"
proof -
  let ?close = "if state = Lost \<and> metering then call_tx (closeHostLoss (rr_id machine) (rr_lease_id machine) (w_clock w 20))
    else return_svc None"
  from ok obtain cutoff s1 where a: "?close s = (Inr cutoff, s1)"
      and rest: "bind_svc (call_tx (finishTx (rr_id machine) (rr_organization_id machine) (rr_lease_id machine) state reason
        cutoff (w_clock w 21))) (\<lambda>changed. if changed then call_do (release_row (rr_id machine) (rr_host_id machine)
        (rr_resources machine) (w_clock w 22)) else return_svc ()) s1 = (Inr (), s')"
    by (auto simp: finishAndRelease_def bind_svc_def [of ?close] split: prod.splits sum.splits)
  obtain m1 where m1: "m1 \<in> set (machines s1)" "m_id m1 = m_id m" "m_lease_id m1 = m_lease_id m" "m_state m1 = m_state m"
  proof (cases "state = Lost \<and> metering")
    case True
    with a have "closeHostLoss (rr_id machine) (rr_lease_id machine) (w_clock w 20) s = Inr (cutoff, s1)"
      by (auto simp: call_tx_def split: sum.splits prod.splits)
    from closeHostLoss_row [OF this m(1)] that show thesis by blast
  next
    case False
    with a m(1) that show thesis by (auto simp: return_svc_def)
  qed
  let ?P = "\<lambda>m. m_id m = rr_id machine \<and> m_lease_id m = rr_lease_id machine \<and> \<not> terminal (m_state m)"
  have P: "?P m1" using m m1 by simp
  from rest obtain b s2 where f: "finishTx (rr_id machine) (rr_organization_id machine) (rr_lease_id machine) state reason
        cutoff (w_clock w 21) s1 = Inr (b, s2)" and c: "b \<Longrightarrow> call_do (release_row (rr_id machine) (rr_host_id machine)
        (rr_resources machine) (w_clock w 22)) s2 = (Inr (), s')"
    by (fastforce simp: bind_svc_def call_tx_def split: sum.splits prod.splits if_splits)
  from f [unfolded finishTx_def] obtain s3 where up: "update_machines ?P (finish_row state reason cutoff (w_clock w 21)) s1 = Inr s3"
      and b: "b = list_ex ?P (machines s1)" and s2: "machines s2 = machines s3"
    by (rule update_thenE) auto
  from up m1(1) P obtain m2 where m2: "m2 \<in> set (machines s3)" and st: "stored_as (finish_row state reason cutoff (w_clock w 21) m1) m2"
    by (rule row_in_update)
  from b m1(1) P have b by (auto simp: list_ex_iff)
  from c [OF this] have "release_row (rr_id machine) (rr_host_id machine) (rr_resources machine) (w_clock w 22) s2 = Inr s'"
    by (auto simp: call_do_def split: sum.splits)
  then show ?thesis
    by (rule release_row_ends) (use m2 s2 stored_as_sel [OF st] P in \<open>auto simp: finish_row_def\<close>)
qed

lemma finish_again:
  assumes "distinct (map m_id (machines s))" and "ended s (rr_id machine) state" and "terminal state"
    and "\<not> (state' = Lost \<and> metering)"
  shows "finishAndRelease w metering machine state' reason s = (Inr (), s)"
proof -
  have "\<not> list_ex (\<lambda>m. m_id m = rr_id machine \<and> m_lease_id m = rr_lease_id machine \<and> \<not> terminal (m_state m)) (machines s)"
  proof -
    from assms(2) obtain e where e: "e \<in> set (machines s)" "m_id e = rr_id machine" "m_state e = state"
      by (auto simp: ended_def list_ex_iff)
    have "m = e" if "m \<in> set (machines s)" "m_id m = rr_id machine" for m
      by (rule mkey.key_unique [OF assms(1) that(1) e(1)]) (simp add: that(2) e(2))
    with e(3) assms(3) show ?thesis by (auto simp: list_ex_iff)
  qed
  then have "finishTx (rr_id machine) org (rr_lease_id machine) state' reason cutoff now s = Inr (False, s)" for org cutoff now
    by (simp add: finishTx_def update_then_def update_machines_none find_None_list_ex [THEN iffD2])
  with assms(4) show ?thesis by (auto simp: finishAndRelease_def bind_svc_def return_svc_def call_tx_def)
qed

text \<open>\<open>finishAndRelease\<close> ends a machine once. When it returns for a machine that was alive under
  the claimed lease, the machine is in the terminal state, not ready, and its reservation is
  released; the fleet's books still balance; and a reconciler without metering that finishes the
  machine again changes nothing.\<close>

theorem finishAndRelease_once:
  assumes "fleet_inv s" and "tracks s machine m" and "m_lease_id m = rr_lease_id machine"
    and "\<not> terminal (m_state m)" and "terminal state"
    and "finishAndRelease w metering machine state reason s = (Inr (), s')"
  shows "ended s' (rr_id machine) state \<and> fleet_inv s' \<and>
    finishAndRelease w' False machine state reason' s' = (Inr (), s')"
proof -
  have "ended s' (rr_id machine) state"
    by (rule finish_settles [OF _ _ assms(3,4,6)]) (use assms(2) in \<open>simp_all add: tracks_def decided_def\<close>)
  moreover have "fleet_inv s'"
    using fp.lastingD [OF sound_from_finish [OF assms(1,2,5)], of w metering reason] assms(1,6) by (simp add: advances_def)
  ultimately show ?thesis using finish_again [OF fleet_invD(1)] assms(5) by blast
qed

text \<open>C24: A machine that is being deleted is only given up when the host confirms. For a machine in
  \<open>stopping\<close> whose host identity is known, the reconciler asks the host to destroy it; if the host
  answers with anything but success or 404 the attempt fails with that error and the fleet, and so
  the reservation, is unchanged, and if the attempt returns the machine is stopped and released.\<close>

theorem reconcile_stopping_confirmed:
  assumes "rr_state machine = Stopping" and "rr_host_machine_id machine = Some i" and "i \<noteq> []"
    and "m \<in> set (machines s)" and "m_id m = rr_id machine" and "m_lease_id m = rr_lease_id machine"
    and "\<not> terminal (m_state m)"
  shows "if refused (host_destroy (w_host w) (rr_host_address machine) i (rr_lease_id machine))
    then reconcile w metering machine s =
      (Inl (projl (host_destroy (w_host w) (rr_host_address machine) i (rr_lease_id machine))), s)
    else \<forall>s'. reconcile w metering machine s = (Inr (), s') \<longrightarrow> ended s' (rr_id machine) Stopped"
proof -
  let ?d = "host_destroy (w_host w) (rr_host_address machine) i (rr_lease_id machine)"
  let ?f = "finishAndRelease w metering machine Stopped ''reconciled delete''"
  have r: "reconcile w metering machine s =
      (case ?d of Inl e \<Rightarrow> if is_not_found e then ?f s else (Inl e, s) | Inr _ \<Rightarrow> ?f s)"
    using assms(1-3)
    by (auto simp: reconcile_def present_def falsy_def reconcile_known_def bind_svc_def host_remove_def
        return_svc_def throw_svc_def split: sum.splits)
  have "ended s' (rr_id machine) Stopped" if "?f s = (Inr (), s')" for s'
    by (rule finish_settles [OF assms(4-7) that])
  then show ?thesis unfolding r by (auto simp: refused_def split: sum.splits)
qed

section \<open>A confirmed delete completes\<close>

lemma store_rows_ok:
  "(\<And>r. r \<in> set rs \<Longrightarrow> P r \<Longrightarrow> g r = Inr (f r)) \<Longrightarrow> store_rows P g rs = Inr (sql_update P f rs)"
  by (induction rs) auto

lemma update_machines_ok:
  assumes "\<And>m. m \<in> set (machines s) \<Longrightarrow> P m \<Longrightarrow> terminal (m_state (f m)) \<and> machine_check (f m) \<and>
    m_runtime_cohort_id (f m) = m_runtime_cohort_id m \<and> m_source_sha256 (f m) = m_source_sha256 m"
  shows "update_machines P f s = Inr (s\<lparr>machines := sql_update P f (machines s)\<rparr>)"
proof -
  have "store_machine s (Some m) (f m) = Inr (f m)" if "m \<in> set (machines s)" "P m" for m
    using assms [OF that] by (auto simp: store_machine_def machine_trigger_def terminal_def)
  then show ?thesis by (simp add: update_machines_def store_rows_ok)
qed

lemma finishTx_succeeds:
  assumes "terminal state" and "\<And>m. m \<in> set (machines s) \<Longrightarrow> machine_check m"
    and "m \<in> set (machines s)" and "m_id m = i" and "m_lease_id m = lease" and "\<not> terminal (m_state m)"
  obtains s' where "finishTx i org lease state reason cutoff now s = Inr (True, s')" and "hosts s' = hosts s"
proof -
  let ?P = "\<lambda>m. m_id m = i \<and> m_lease_id m = lease \<and> \<not> terminal (m_state m)"
  have up: "update_machines ?P (finish_row state reason cutoff now) s =
      Inr (s\<lparr>machines := sql_update ?P (finish_row state reason cutoff now) (machines s)\<rparr>)"
    by (rule update_machines_ok) (use assms(1,2) in \<open>auto simp: finish_row_def machine_check_def runtime_binding_check_def\<close>)
  obtain x where "find ?P (machines s) = Some x" using assms(3-6) by (cases "find ?P (machines s)") (auto dest: find_NoneD)
  with up that show thesis by (auto simp: finishTx_def update_then_def)
qed

lemma sub_reserved_succeeds:
  assumes "list_all host_check (hosts s)" and "0 \<le> r"
  obtains s' where "sub_reserved H r s = Inr s'"
proof -
  have "host_check (h\<lparr>h_reserved := sub_clamp (h_reserved h) r\<rparr>)" if "h \<in> set (hosts s)" for h
    using that assms by (auto simp: list_all_iff host_check_def resources_le sub_clamp_def)
  then have "store_rows (\<lambda>h. h_id h = H) (\<lambda>r'. if h_cohort r' \<noteq> None \<and> h_cohort (r'\<lparr>h_reserved := sub_clamp (h_reserved r') r\<rparr>) \<noteq> h_cohort r'
      then Inl (DbError ''host runtime cohort is immutable'')
      else if host_check (r'\<lparr>h_reserved := sub_clamp (h_reserved r') r\<rparr>) then Inr (r'\<lparr>h_reserved := sub_clamp (h_reserved r') r\<rparr>)
      else Inl (DbError ''hosts check constraint'')) (hosts s) =
    Inr (sql_update (\<lambda>h. h_id h = H) (\<lambda>h. h\<lparr>h_reserved := sub_clamp (h_reserved h) r\<rparr>) (hosts s))"
    by (intro store_rows_ok) simp
  with that show thesis by (simp add: sub_reserved_def update_hosts_def)
qed

lemma release_row_succeeds:
  assumes inv: "fleet_inv s" and ok: "list_all host_check (hosts s)" and m: "m \<in> set (machines s)" "m_id m = i"
    and t: "terminal (m_state m)" and r: "0 \<le> r"
  obtains s' where "release_row i H r now s = Inr s'"
proof -
  let ?P = "\<lambda>m. m_id m = i \<and> m_reservation_released_at m = None"
  have "x = m" if "x \<in> set (machines s)" "m_id x = i" for x
    by (rule mkey.key_unique [OF fleet_invD(1) [OF inv] that(1) m(1)]) (simp add: that(2) m(2))
  then have up: "claim_release i now s =
      Inr (s\<lparr>machines := sql_update ?P (\<lambda>m. m\<lparr>m_reservation_released_at := Some now\<rparr>) (machines s)\<rparr>)"
    unfolding claim_release_def
    by (intro update_machines_ok)
      (use t fleet_invD(5) [OF inv m(1)] in \<open>auto simp: machine_ok_def machine_check_def runtime_binding_check_def\<close>)
  obtain u where "sub_reserved H r (s\<lparr>machines := sql_update ?P (\<lambda>m. m\<lparr>m_reservation_released_at := Some now\<rparr>) (machines s)\<rparr>) = Inr u"
    using sub_reserved_succeeds [of "s\<lparr>machines := ms\<rparr>" r H for ms] ok r by auto
  with up that show thesis by (cases "list_ex ?P (machines s)") (auto simp: release_row_def)
qed

lemma finish_completes:
  assumes inv: "fleet_inv s" and ok: "list_all host_check (hosts s)" and tr: "tracks s machine m"
    and lease: "m_lease_id m = rr_lease_id machine" and alive: "\<not> terminal (m_state m)" and t: "terminal state" "state \<noteq> Lost"
  obtains s' where "finishAndRelease w metering machine state reason s = (Inr (), s')"
proof -
  from tr have m: "m \<in> set (machines s)" "m_id m = rr_id machine" by (simp_all add: tracks_def decided_def)
  have chk: "machine_check x" if "x \<in> set (machines s)" for x using fleet_invD(5) [OF inv that] by (simp add: machine_ok_def)
  obtain s1 where f: "finishTx (rr_id machine) (rr_organization_id machine) (rr_lease_id machine) state reason None (w_clock w 21) s
      = Inr (True, s1)" and h1: "hosts s1 = hosts s"
    by (rule finishTx_succeeds [OF t(1) chk m lease alive])
  have und: "\<not> undecided s (rr_id machine)" using decidedD [OF inv, of m] tr by (simp add: tracks_def)
  from finishTx_ok [OF inv f und t(1)] have inv1: "fleet_inv s1" "fleet_le s s1" by simp_all
  from f [unfolded finishTx_def] obtain s2 where up: "update_machines (\<lambda>m. m_id m = rr_id machine \<and> m_lease_id m = rr_lease_id machine \<and>
      \<not> terminal (m_state m)) (finish_row state reason None (w_clock w 21)) s = Inr s2" and s1: "machines s1 = machines s2"
    by (rule update_thenE) auto
  from up m(1) obtain m' where m': "m' \<in> set (machines s2)" "stored_as (finish_row state reason None (w_clock w 21) m) m'"
    by (rule row_in_update) (use m lease alive in auto)
  have row: "m' \<in> set (machines s1)" "m_id m' = rr_id machine" "terminal (m_state m')"
    using m' s1 stored_as_sel [OF m'(2)] m(2) t(1) by (simp_all add: finish_row_def)
  have "0 \<le> rr_resources machine" using machine_ok_resources [OF fleet_invD(5) [OF inv m(1)]] tr by (simp add: tracks_def)
  with release_row_succeeds [OF inv1(1) _ row] ok h1 obtain u where
    "release_row (rr_id machine) (rr_host_id machine) (rr_resources machine) (w_clock w 22) s1 = Inr u" by metis
  with f t(2) that show thesis by (auto simp: finishAndRelease_def bind_svc_def return_svc_def call_tx_def call_do_def)
qed

text \<open>C25: A confirmed delete completes. For a tracked machine in \<open>stopping\<close> whose host destroys it,
  or no longer has it, the reconciler's attempt does return, with the machine stopped and its
  reservation released: no constraint, trigger or lost row stands in the way.\<close>

theorem reconcile_stopping_completes:
  assumes "fleet_inv s" and "list_all host_check (hosts s)" and "tracks s machine m"
    and "m_lease_id m = rr_lease_id machine" and "m_state m = Stopping"
    and "rr_state machine = Stopping" and "rr_host_machine_id machine = Some i" and "i \<noteq> []"
    and "\<not> refused (host_destroy (w_host w) (rr_host_address machine) i (rr_lease_id machine))"
  shows "\<exists>s'. reconcile w metering machine s = (Inr (), s') \<and> ended s' (rr_id machine) Stopped"
proof -
  have alive: "\<not> terminal (m_state m)" and t: "terminal Stopped" "Stopped \<noteq> Lost" by (simp_all add: assms(5) terminal_def)
  obtain s' where fin: "finishAndRelease w metering machine Stopped ''reconciled delete'' s = (Inr (), s')"
    by (rule finish_completes [OF assms(1-4) alive t])
  have "ended s' (rr_id machine) Stopped"
    by (rule finish_settles [OF _ _ assms(4) alive fin]) (use assms(3) in \<open>simp_all add: tracks_def decided_def\<close>)
  moreover have "reconcile w metering machine s = finishAndRelease w metering machine Stopped ''reconciled delete'' s"
    using assms(6-9)
    by (auto simp: reconcile_def present_def falsy_def reconcile_known_def bind_svc_def host_remove_def
        return_svc_def throw_svc_def refused_def split: sum.splits)
  ultimately show ?thesis using fin by simp
qed

section \<open>Claims and stale hosts\<close>

lemma stored_as_claim:
  assumes "stored_as w r"
  shows "m_reconcile_claimed_until r = m_reconcile_claimed_until w"
proof -
  from assms have r: "r = w\<lparr>m_runtime_cohort_id := m_runtime_cohort_id r, m_source_sha256 := m_source_sha256 r\<rparr>"
    by (simp add: stored_as_def)
  show ?thesis by (subst r) simp
qed

text \<open>C30: Two reconcilers never work on the same machine: a batch claimed while the claims of an
  earlier batch have not expired has no machine of that batch.\<close>

theorem claimReconcileBatch_exclusive:
  assumes "claimReconcileBatch locked token now s = Inr (rows, s1)"
    and "claimReconcileBatch locked' token' now' s1 = Inr (rows', s2)" and "now' \<le> now + minutes 5"
  shows "rr_id ` set rows \<inter> rr_id ` set rows' = {}"
proof -
  let ?ids = "reconcile_batch locked now s"
  from assms(1) have up: "update_machines (\<lambda>m. m_id m \<in> set ?ids) (claim_row token now) s = Inr s1"
      and rows: "rr_id ` set rows \<subseteq> set ?ids"
    by (auto simp: claimReconcileBatch_def Let_def reconcile_row_of_def split: sum.splits)
  have later: "rr_id ` set rows' \<subseteq> set (reconcile_batch locked' now' s1)"
    using assms(2) by (auto simp: claimReconcileBatch_def Let_def reconcile_row_of_def split: sum.splits)
  from up obtain g where s1: "s1 = s\<lparr>machines := sql_update (\<lambda>m. m_id m \<in> set ?ids) g (machines s)\<rparr>"
      and st: "\<And>m. m \<in> set (machines s) \<Longrightarrow> m_id m \<in> set ?ids \<Longrightarrow> stored_as (claim_row token now m) (g m)"
    by (rule update_machines_Inr) blast
  have held: "m_reconcile_claimed_until x = Some (now + minutes 5)" if "x \<in> set (machines s1)" "m_id x \<in> set ?ids" for x
  proof -
    from that(1) have "x \<in> set (sql_update (\<lambda>m. m_id m \<in> set ?ids) g (machines s))" by (simp add: s1)
    then show ?thesis
    proof (cases rule: sql_updateE)
      case (1 r)
      with stored_as_claim [OF st] show ?thesis by (simp add: claim_row_def)
    qed (use that(2) in simp)
  qed
  have "i \<notin> set ?ids" if "i \<in> set (reconcile_batch locked' now' s1)" for i
  proof -
    from that obtain x where x: "x \<in> set (machines s1)" "m_id x = i" "reconcile_due s1 now' x"
      by (auto simp: reconcile_batch_def dest!: in_set_takeD)
    from x(3) held [OF x(1)] assms(3) x(2) show ?thesis by (auto simp: reconcile_due_def)
  qed
  with rows later show ?thesis by blast
qed

text \<open>After \<open>markLostOnStaleHosts\<close> has committed its transaction, no live machine is left on a
  stale host, except the children of forks still pending, which their fork decides; every machine
  it did not mark is untouched, and what it reports is what it marked.\<close>

theorem markLost_complete:
  assumes "markLostTx s = Inr (lost, s')"
  shows "\<not> list_ex (lost_on_stale s') (machines s') \<and> lost = filter (lost_on_stale s) (machines s) \<and>
    list_all (\<lambda>m. lost_on_stale s m \<or> m \<in> set (machines s')) (machines s) \<and>
    list_all (\<lambda>m. list_ex (\<lambda>m'. m_id m' = m_id m \<and> m_state m' = Lost) (machines s')) lost"
proof -
  let ?t = "fold (\<lambda>m. insert_event (stale_event m)) lost s"
  from assms have lost: "lost = filter (lost_on_stale s) (machines s)"
    by (auto simp: markLostTx_def Let_def split: sum.splits)
  with assms have up: "update_machines (lost_on_stale s) (lost_row s) ?t = Inr s'"
    by (auto simp: markLostTx_def Let_def split: sum.splits)
  from up obtain g where s': "s' = ?t\<lparr>machines := sql_update (lost_on_stale s) g (machines ?t)\<rparr>"
      and st: "\<And>m. m \<in> set (machines ?t) \<Longrightarrow> lost_on_stale s m \<Longrightarrow> stored_as (lost_row s m) (g m)"
    by (rule update_machines_Inr) blast
  have g: "m_id (g m) = m_id m" "m_state (g m) = Lost" if "m \<in> set (machines s)" "lost_on_stale s m" for m
    using stored_as_sel [OF st [OF _ that(2)]] that(1) by (simp_all add: lost_row_def)
  have same: "lost_on_stale s' = lost_on_stale s"
    by (simp add: fun_eq_iff lost_on_stale_def pending_child_def s')
  have "\<not> lost_on_stale s m'" if "m' \<in> set (sql_update (lost_on_stale s) g (machines s))" for m'
    using that by (cases rule: sql_updateE) (use g(2) in \<open>simp_all add: lost_on_stale_def terminal_def\<close>)
  then have none: "\<not> list_ex (lost_on_stale s') (machines s')" unfolding same by (auto simp: list_ex_iff s')
  have kept: "m \<in> set (machines s')" if "m \<in> set (machines s)" "\<not> lost_on_stale s m" for m
    using that by (simp add: s' sql_update_kept)
  have "g m \<in> set (machines s')" if "m \<in> set (machines s)" "lost_on_stale s m" for m
    using that by (auto simp: s' in_sql_update)
  with g have "list_ex (\<lambda>m'. m_id m' = m_id m \<and> m_state m' = Lost) (machines s')" if "m \<in> set lost" for m
    using that unfolding lost list_ex_iff by auto
  with none kept show ?thesis by (auto simp: lost list_all_iff)
qed

end
