(* ===== verification/Hosts.thy ===== *)
theory Hosts
  imports Calls
begin

text \<open>
  The host service, \<open>domain/hosts.ts\<close>: one-time enrollment grants, registration, heartbeats with
  their durable sample ring, staleness, and the operator's lifecycle (drain, activate, quarantine,
  revoke, rotate credentials).

  The credential cipher, Argon2, the reading of an \<open>inet\<close> value and the token digest are arguments.
  Each statement of the service is one transaction; \<open>register\<close> is two.
\<close>

section \<open>Inputs\<close>

record host_env =
  he_net :: js_net
  he_sha256 :: "string \<Rightarrow> string"
  he_inet :: "string \<Rightarrow> string"
  he_encrypt :: "string \<Rightarrow> string"
  he_decrypt :: "string \<Rightarrow> error + string"
  he_hash :: "string \<Rightarrow> string"
  he_verify :: "string \<Rightarrow> string \<Rightarrow> bool"

record host_service =
  hs_allowed :: block_list
  hs_expectedDaemonVersion :: "string option"

record host_identity =
  hi_providerId :: string
  hi_regionId :: string
  hi_address :: string
  hi_architecture :: architecture
  hi_total :: raw_resources
  hi_runtimeCohort :: runtime_cohort

record register_host = host_identity +
  rh_controlToken :: string
  rh_gatewayToken :: string

record issue_enrollment = host_identity +
  ie_ttlSeconds :: js_number
  ie_issuedByOrganizationId :: uuid
  ie_issuedByUserId :: string

record host_heartbeat =
  hh_state :: host_state
  hh_availableVcpus :: js_number
  hh_availableMemoryMb :: js_number
  hh_availableDiskMb :: js_number
  hh_machineCount :: js_number
  hh_kvmAvailable :: bool
  hh_daemonVersion :: string
  hh_runtimeCohort :: runtime_cohort

record host_lifecycle =
  hl_id :: uuid
  hl_desiredState :: desired_state
  hl_credentialGeneration :: int
  hl_credentialStatus :: credential_status
  hl_credentialRotatedAt :: time
  hl_credentialRevokedAt :: "time option"
  hl_lifecycleReason :: "string option"

definition lifecycle :: "host_row \<Rightarrow> host_lifecycle" where
  "lifecycle h =
     \<lparr>hl_id = h_id h, hl_desiredState = h_desired_state h, hl_credentialGeneration = h_credential_generation h,
      hl_credentialStatus = h_credential_status h, hl_credentialRotatedAt = h_credential_rotated_at h,
      hl_credentialRevokedAt = h_credential_revoked_at h, hl_lifecycleReason = h_lifecycle_reason h\<rparr>"

section \<open>Validation\<close>

text \<open>\<open>/^[A-Za-z0-9][A-Za-z0-9._-]{0,127}$/\<close>, and the same with \<open>+\<close> for versions.\<close>

definition host_name_ok :: "string \<Rightarrow> string \<Rightarrow> bool" where
  "host_name_ok extra s \<longleftrightarrow> s \<noteq> [] \<and> length s \<le> 128 \<and> is_alnum (hd s) \<and>
     list_all (\<lambda>c. is_alnum c \<or> c \<in> set extra) s"

definition daemon_version_ok :: "string \<Rightarrow> bool" where
  "daemon_version_ok = host_name_ok ''._+-''"

definition checkedReason :: "string \<Rightarrow> string \<Rightarrow> error + string" where
  "checkedReason reason fallback =
     (let normalized = (if js_trim reason = [] then fallback else js_trim reason) in
      if length normalized > 512 then Inl (PlainError ''host lifecycle reason must not exceed 512 characters'')
      else Inr normalized)"

definition enrollment_error :: "string \<Rightarrow> error" where
  "enrollment_error = HostEnrollmentError ''invalid_host_enrollment''"

definition validateHostCredentials :: "string \<Rightarrow> string \<Rightarrow> string option \<Rightarrow> error option" where
  "validateHostCredentials control gateway enrollment =
     (if length control < 32 \<or> length gateway < 32 \<or> control = gateway \<or> Some control = enrollment \<or>
         Some gateway = enrollment
      then Some (enrollment_error ''host control, gateway, and enrollment credentials must be strong and distinct'')
      else None)"

definition bounded :: "js_number \<Rightarrow> int \<Rightarrow> bool" where
  "bounded v maximum \<longleftrightarrow> isSafeInteger v \<and> 0 < js_int v \<and> js_int v \<le> maximum"

definition validateHostIdentity :: "js_net \<Rightarrow> block_list \<Rightarrow> 'a host_identity_scheme \<Rightarrow> error option" where
  "validateHostIdentity net allowed input =
     (let not_bounded = (\<lambda>name. Some (enrollment_error (name @ '' must be a bounded positive integer'')));
          version = isIP net (hi_address input)
      in if \<not> host_name_ok ''._-'' (hi_providerId input)
         then Some (enrollment_error ''providerId is required and invalid'')
         else if \<not> bounded (raw_vcpus (hi_total input)) 4096 then not_bounded ''totalVcpus''
         else if \<not> bounded (raw_memoryMb (hi_total input)) 16777216 then not_bounded ''totalMemoryMb''
         else if \<not> bounded (raw_diskMb (hi_total input)) MAX_SAFE_INTEGER then not_bounded ''totalDiskMb''
         else if version = 0 \<or> \<not> block_check net allowed (hi_address input) (if version = 4 then 4 else 6)
         then Some (enrollment_error ''host address must be a literal IP in the managed overlay network'')
         else None)"

definition validateCohort :: "(string \<Rightarrow> string) \<Rightarrow> runtime_cohort \<Rightarrow> architecture \<Rightarrow> error + runtime_cohort" where
  "validateCohort sha256 cohort arch =
     map_sum enrollment_error id (parseRuntimeCohort sha256 (runtimeCohortWire cohort) (Some arch))"

text \<open>The constructor: an approved daemon version, and the overlay networks hosts may live in.\<close>

fun allow_cidrs :: "js_net \<Rightarrow> block_list \<Rightarrow> string list \<Rightarrow> error + block_list" where
  "allow_cidrs net block [] = Inr block"
| "allow_cidrs net block (c # cs) =
     (case addCidr net block c of
        Inl _ \<Rightarrow> Inl (PlainError (''invalid managed-host CIDR: '' @ c))
      | Inr block' \<Rightarrow> allow_cidrs net block' cs)"

definition defaultCidrs :: "string list" where
  "defaultCidrs = [''10.0.0.0/8'', ''172.16.0.0/12'', ''192.168.0.0/16'', ''fd00::/8'']"

definition HostService :: "js_net \<Rightarrow> string list \<Rightarrow> string option \<Rightarrow> error + host_service" where
  "HostService net cidrs expected =
     (if (case expected of None \<Rightarrow> False | Some v \<Rightarrow> \<not> daemon_version_ok v)
      then Inl (PlainError ''expected managed-host daemon version is invalid'')
      else map_sum id (\<lambda>block. \<lparr>hs_allowed = block, hs_expectedDaemonVersion = expected\<rparr>) (allow_cidrs net [] cidrs))"

definition resources_of :: "raw_resources \<Rightarrow> resources" where
  "resources_of r = Resources (js_int (raw_vcpus r)) (js_int (raw_memoryMb r)) (js_int (raw_diskMb r))"

section \<open>Enrollment\<close>

text \<open>The CHECKs of \<open>host_enrollment_grants\<close>.\<close>

definition control_char :: "char \<Rightarrow> bool" where
  "control_char c \<longleftrightarrow> of_char c < (32 :: nat) \<or> of_char c = (127 :: nat)"

definition grant_check :: "grant_row \<Rightarrow> bool" where
  "grant_check g \<longleftrightarrow>
     host_name_ok ''._-'' (g_provider_id g) \<and> host_name_ok ''._-'' (g_region_id g) \<and>
     1 \<le> vcpus (g_total g) \<and> vcpus (g_total g) \<le> 4096 \<and> 1 \<le> memoryMb (g_total g) \<and> memoryMb (g_total g) \<le> 16777216 \<and>
     1 \<le> diskMb (g_total g) \<and> diskMb (g_total g) \<le> MAX_SAFE_INTEGER \<and>
     1 \<le> length (g_issued_by_user_id g) \<and> length (g_issued_by_user_id g) \<le> 256 \<and>
     \<not> list_ex control_char (g_issued_by_user_id g) \<and>
     g_created_at g + minutes 1 \<le> g_expires_at g \<and> g_expires_at g \<le> g_created_at g + minutes 30 \<and>
     opt_ok (\<lambda>t. g_created_at g \<le> t \<and> t \<le> g_expires_at g) (g_consumed_at g) \<and>
     \<not> (g_consumed_at g \<noteq> None \<and> g_revoked_at g \<noteq> None) \<and>
     opt_ok (cohort_check (g_architecture g)) (g_cohort g)"

definition update_grants :: "(grant_row \<Rightarrow> bool) \<Rightarrow> (grant_row \<Rightarrow> grant_row) \<Rightarrow> fleet \<Rightarrow> error + fleet" where
  "update_grants P f s =
     (case store_rows P (\<lambda>g. if grant_check (f g) then Inr (f g)
          else Inl (DbError ''host_enrollment_grants check constraint'')) (host_enrollment_grants s) of
        Inl e \<Rightarrow> Inl e
      | Inr gs \<Rightarrow> Inr (s\<lparr>host_enrollment_grants := gs\<rparr>))"

definition grant_active :: "grant_row \<Rightarrow> bool" where
  "grant_active g \<longleftrightarrow> g_consumed_at g = None \<and> g_revoked_at g = None"

text \<open>The partial unique indexes: one active grant for a provider, a host and an address.\<close>

definition insert_grant :: "grant_row \<Rightarrow> fleet \<Rightarrow> error + fleet" where
  "insert_grant g s =
     (let active = filter grant_active (host_enrollment_grants s) in
      if g_id g \<in> set (map g_id (host_enrollment_grants s)) then Inl (DbError ''host_enrollment_grants_pkey'')
      else if g_token_hash g \<in> set (map g_token_hash (host_enrollment_grants s))
      then Inl (DbError ''host_enrollment_grants_token_hash_key'')
      else if g_provider_id g \<in> set (map g_provider_id active) then Inl (DbError ''host_enrollment_grants_active_provider_idx'')
      else if g_host_id g \<in> set (map g_host_id active) then Inl (DbError ''host_enrollment_grants_active_host_idx'')
      else if g_address g \<in> set (map g_address active) then Inl (DbError ''host_enrollment_grants_active_address_idx'')
      else if \<not> grant_check g then Inl (DbError ''host_enrollment_grants check constraint'')
      else Inr (s\<lparr>host_enrollment_grants := host_enrollment_grants s @ [g]\<rparr>))"

definition is_hex_ci :: "char \<Rightarrow> bool" where
  "is_hex_ci c \<longleftrightarrow> is_hex (lower_char c)"

text \<open>The regular expression \<open>uuid\<close>, case-insensitive.\<close>

definition uuid_ok :: "string \<Rightarrow> bool" where
  "uuid_ok s \<longleftrightarrow> length s = 36 \<and>
     list_all (\<lambda>i. if i \<in> {8, 13, 18, 23} then s ! i = CHR ''-''
       else if i = 14 then s ! i \<in> set ''12345''
       else if i = 19 then lower_char (s ! i) \<in> set ''89ab''
       else is_hex_ci (s ! i)) [0..<36]"

record host_enrollment_grant =
  hg_id :: uuid
  hg_hostId :: uuid
  hg_token :: string
  hg_expiresAt :: time

definition not_enrollable :: "host_env \<Rightarrow> 'a host_identity_scheme \<Rightarrow> host_row \<Rightarrow> bool" where
  "not_enrollable env input h \<longleftrightarrow>
     h_enrollment_completed_at h \<noteq> None \<or> h_desired_state h \<noteq> DActive \<or> h_credential_status h \<noteq> CredActive \<or>
     h_region_id h \<noteq> hi_regionId input \<or> h_address h \<noteq> he_inet env (hi_address input) \<or>
     h_architecture h \<noteq> hi_architecture input"

text \<open>The statement of \<open>issueEnrollment\<close>: earlier grants of the provider are revoked first.\<close>

definition issueTx ::
    "host_env \<Rightarrow> issue_enrollment \<Rightarrow> runtime_cohort \<Rightarrow> uuid \<Rightarrow> uuid \<Rightarrow> string \<Rightarrow> time \<Rightarrow> host_enrollment_grant option tx" where
  "issueTx env input cohort gid reservedHostId token now s =
     (let existing = find (\<lambda>h. h_provider_id h = hi_providerId input) (hosts s) in
      if \<not> list_ex (\<lambda>r. rg_id r = hi_regionId input \<and> rg_enabled r) (regions s) \<or>
         (case existing of None \<Rightarrow> False | Some h \<Rightarrow> not_enrollable env input h)
      then Inr (None, s)
      else
        (let host = (case existing of None \<Rightarrow> reservedHostId | Some h \<Rightarrow> h_id h);
             g = \<lparr>g_id = gid, g_token_hash = he_sha256 env token, g_host_id = host,
                  g_provider_id = hi_providerId input, g_region_id = hi_regionId input,
                  g_address = he_inet env (hi_address input), g_architecture = hi_architecture input,
                  g_total = resources_of (hi_total input),
                  g_issued_by_organization_id = ie_issuedByOrganizationId input,
                  g_issued_by_user_id = ie_issuedByUserId input, g_cohort = Some cohort, g_created_at = now,
                  g_expires_at = now + seconds (js_int (ie_ttlSeconds input)), g_consumed_at = None, g_revoked_at = None\<rparr>
         in case update_grants (\<lambda>g. g_provider_id g = hi_providerId input \<and> grant_active g)
                (\<lambda>g. g\<lparr>g_revoked_at := Some now\<rparr>) s of
              Inl e \<Rightarrow> Inl e
            | Inr s1 \<Rightarrow>
                (case insert_grant g s1 of
                   Inl e \<Rightarrow> Inl e
                 | Inr s2 \<Rightarrow> Inr (Some \<lparr>hg_id = gid, hg_hostId = host, hg_token = token, hg_expiresAt = g_expires_at g\<rparr>, s2))))"

definition issueEnrollment ::
    "host_env \<Rightarrow> host_service \<Rightarrow> issue_enrollment \<Rightarrow> uuid \<Rightarrow> uuid \<Rightarrow> string \<Rightarrow> time \<Rightarrow> host_enrollment_grant tx" where
  "issueEnrollment env svc input gid reservedHostId token now s =
     (case validateHostIdentity (he_net env) (hs_allowed svc) input of
        Some e \<Rightarrow> Inl e
      | None \<Rightarrow>
     (case validateCohort (he_sha256 env) (hi_runtimeCohort input) (hi_architecture input) of
        Inl e \<Rightarrow> Inl e
      | Inr cohort \<Rightarrow>
          (if \<not> (isSafeInteger (ie_ttlSeconds input) \<and> 60 \<le> js_int (ie_ttlSeconds input) \<and> js_int (ie_ttlSeconds input) \<le> 1800)
           then Inl (enrollment_error ''ttlSeconds must be an integer between 60 and 1800'')
           else if \<not> uuid_ok (ie_issuedByOrganizationId input) \<or> js_trim (ie_issuedByUserId input) = []
           then Inl (enrollment_error ''an issuing organization and user are required'')
           else case issueTx env input cohort gid reservedHostId token now s of
               Inl e \<Rightarrow> Inl e
             | Inr (None, s') \<Rightarrow> Inl (HostEnrollmentError ''host_not_enrollable''
                 ''The provider host is already enrolled or is not eligible for enrollment.'')
             | Inr (Some grant, s') \<Rightarrow> Inr (grant, s'))))"

definition revokeEnrollment :: "uuid \<Rightarrow> time \<Rightarrow> bool tx" where
  "revokeEnrollment gid now s =
     (let P = (\<lambda>g. g_id g = gid \<and> grant_active g) in
      map_sum id (\<lambda>s'. (list_ex P (host_enrollment_grants s), s'))
        (update_grants P (\<lambda>g. g\<lparr>g_revoked_at := Some now\<rparr>) s))"

section \<open>Registration\<close>

text \<open>\<open>/^nhe_[A-Za-z0-9_-]{43}$/\<close>.\<close>

definition enrollment_token_ok :: "string \<Rightarrow> bool" where
  "enrollment_token_ok t \<longleftrightarrow> startsWith t ''nhe_'' \<and> length t = 47 \<and>
     list_all (\<lambda>c. is_alnum c \<or> c \<in> set ''_-'') (drop 4 t)"

definition invalid_grant :: error where
  "invalid_grant = HostEnrollmentError ''invalid_enrollment_grant'' ''The host enrollment grant is invalid or no longer active.''"

definition grant_matches :: "host_env \<Rightarrow> string \<Rightarrow> 'a host_identity_scheme \<Rightarrow> runtime_cohort \<Rightarrow> time \<Rightarrow> grant_row \<Rightarrow> bool" where
  "grant_matches env token input cohort now g \<longleftrightarrow>
     g_token_hash g = he_sha256 env token \<and> grant_active g \<and> now < g_expires_at g \<and>
     g_provider_id g = hi_providerId input \<and> g_region_id g = hi_regionId input \<and>
     g_address g = he_inet env (hi_address input) \<and> g_architecture g = hi_architecture input \<and>
     g_total g = resources_of (hi_total input) \<and> g_cohort g = Some cohort"

definition new_host :: "host_env \<Rightarrow> register_host \<Rightarrow> runtime_cohort \<Rightarrow> string \<Rightarrow> uuid \<Rightarrow> time \<Rightarrow> host_row" where
  "new_host env input cohort hash hostId now =
     \<lparr>h_id = hostId, h_provider_id = hi_providerId input, h_region_id = hi_regionId input,
      h_address = he_inet env (hi_address input), h_architecture = hi_architecture input, h_state = Unhealthy,
      h_desired_state = DActive, h_credential_status = CredActive, h_credential_hash = Some hash,
      h_control_ciphertext = Some (he_encrypt env (rh_controlToken input)),
      h_gateway_ciphertext = Some (he_encrypt env (rh_gatewayToken input)), h_credential_generation = 1,
      h_credential_rotated_at = now, h_credential_revoked_at = None, h_enrollment_completed_at = None,
      h_daemon_version = ''unknown'', h_total = resources_of (hi_total input), h_reserved = 0,
      h_reported_vcpus = None, h_reported_memory_mb = None, h_reported_disk_mb = None,
      h_reported_machine_count = None, h_last_heartbeat_at = None, h_lifecycle_reason = None,
      h_last_metering_batch_at = None, h_metering_quarantined_at = None, h_cohort = Some cohort\<rparr>"

definition insert_host :: "host_row \<Rightarrow> fleet \<Rightarrow> error + fleet" where
  "insert_host h s =
     (if h_id h \<in> set (map h_id (hosts s)) then Inl (DbError ''hosts_pkey'')
      else if h_address h \<in> set (map h_address (hosts s)) then Inl (DbError ''hosts_address_key'')
      else if h_region_id h \<notin> set (map rg_id (regions s)) then Inl (DbError ''hosts_region_id_fkey'')
      else if \<not> host_check h then Inl (DbError ''hosts check constraint'')
      else Inr (s\<lparr>hosts := hosts s @ [h]\<rparr>))"

text \<open>The \<open>ON CONFLICT\<close> branch: a host that was enrolled but has never sent a heartbeat.\<close>

definition re_register :: "host_row \<Rightarrow> host_row \<Rightarrow> host_row" where
  "re_register new h =
     h\<lparr>h_region_id := h_region_id new, h_address := h_address new, h_architecture := h_architecture new,
       h_state := Unhealthy, h_credential_hash := h_credential_hash new,
       h_control_ciphertext := h_control_ciphertext new, h_gateway_ciphertext := h_gateway_ciphertext new,
       h_credential_generation := h_credential_generation h + 1, h_credential_status := CredActive,
       h_credential_rotated_at := h_credential_rotated_at new, h_credential_revoked_at := None,
       h_total := h_total new, h_cohort := h_cohort new\<rparr>"

definition re_registrable :: "host_row \<Rightarrow> host_row \<Rightarrow> bool" where
  "re_registrable new h \<longleftrightarrow> h_provider_id h = h_provider_id new \<and> h_id h = h_id new \<and>
     h_enrollment_completed_at h = None \<and> h_desired_state h = DActive \<and> h_credential_status h = CredActive"

definition upsert_host :: "host_row \<Rightarrow> (uuid \<times> int) option tx" where
  "upsert_host new s =
     (case find (\<lambda>h. h_provider_id h = h_provider_id new) (hosts s) of
        None \<Rightarrow> map_sum id (Pair (Some (h_id new, h_credential_generation new))) (insert_host new s)
      | Some h \<Rightarrow>
          (if \<not> re_registrable new h then Inr (None, s)
           else if list_ex (\<lambda>x. h_id x \<noteq> h_id h \<and> h_address x = h_address new) (hosts s)
           then Inl (DbError ''hosts_address_key'')
           else if h_region_id new \<notin> set (map rg_id (regions s)) then Inl (DbError ''hosts_region_id_fkey'')
           else map_sum id (Pair (Some (h_id h, h_credential_generation h + 1)))
             (update_hosts (re_registrable new) (re_register new) s)))"

record registration =
  rg_hostId :: uuid
  rg_grantId :: uuid
  rg_credential :: string
  rg_credentialGeneration :: int

text \<open>
  The statement of \<open>register\<close>: consuming the grant and storing the host are one statement, which
  commits also when the upsert stored nothing.
\<close>

definition registerTx ::
    "host_env \<Rightarrow> string \<Rightarrow> register_host \<Rightarrow> runtime_cohort \<Rightarrow> string \<Rightarrow> time \<Rightarrow> registration option tx" where
  "registerTx env token input cohort credential now s =
     (case find (grant_matches env token input cohort now) (host_enrollment_grants s) of
        None \<Rightarrow> Inr (None, s)
      | Some g \<Rightarrow>
     (case update_grants (grant_matches env token input cohort now) (\<lambda>g. g\<lparr>g_consumed_at := Some now\<rparr>) s of
        Inl e \<Rightarrow> Inl e
      | Inr s1 \<Rightarrow>
     (case upsert_host (new_host env input cohort (he_hash env credential) (g_host_id g) now) s1 of
        Inl e \<Rightarrow> Inl e
      | Inr (stored, s2) \<Rightarrow>
          Inr (map_option (\<lambda>(i, gen). \<lparr>rg_hostId = i, rg_grantId = g_id g, rg_credential = credential,
            rg_credentialGeneration = gen\<rparr>) stored, s2))))"

definition register ::
    "host_env \<Rightarrow> host_service \<Rightarrow> string \<Rightarrow> register_host \<Rightarrow> string \<Rightarrow> time \<Rightarrow> time \<Rightarrow> registration svc" where
  "register env svc token input credential now1 now2 =
     (case validateHostIdentity (he_net env) (hs_allowed svc) input of
        Some e \<Rightarrow> throw_svc e
      | None \<Rightarrow>
     (case validateCohort (he_sha256 env) (hi_runtimeCohort input) (hi_architecture input) of
        Inl e \<Rightarrow> throw_svc e
      | Inr cohort \<Rightarrow>
          (if \<not> enrollment_token_ok token then throw_svc invalid_grant
           else case validateHostCredentials (rh_controlToken input) (rh_gatewayToken input) (Some token) of
               Some e \<Rightarrow> throw_svc e
             | None \<Rightarrow>
                 bind_svc (call_read (\<lambda>s. Inr (list_ex (grant_matches env token input cohort now1) (host_enrollment_grants s))))
                   (\<lambda>eligible.
                     if \<not> eligible then throw_svc invalid_grant
                     else bind_svc (call_tx (registerTx env token input cohort credential now2))
                       (\<lambda>registered. case registered of None \<Rightarrow> throw_svc invalid_grant | Some r \<Rightarrow> return_svc r)))))"

section \<open>Credentials\<close>

definition trusted :: "uuid \<Rightarrow> host_row \<Rightarrow> bool" where
  "trusted i h \<longleftrightarrow> h_id h = i \<and> h_state h \<noteq> Stale \<and> h_desired_state h \<in> {DActive, DDraining} \<and>
     h_credential_status h = CredActive"

definition gatewayCredential :: "host_env \<Rightarrow> uuid \<Rightarrow> fleet \<Rightarrow> error + string option" where
  "gatewayCredential env i s =
     (case Option.bind (find (trusted i) (hosts s)) h_gateway_ciphertext of
        None \<Rightarrow> Inr None
      | Some envelope \<Rightarrow> (if envelope = [] then Inr None else map_sum id Some (he_decrypt env envelope)))"

definition authenticateGeneration :: "host_env \<Rightarrow> uuid \<Rightarrow> string \<Rightarrow> fleet \<Rightarrow> int option" where
  "authenticateGeneration env i credential s =
     (case find (trusted i) (hosts s) of
        None \<Rightarrow> None
      | Some h \<Rightarrow>
          (if present (h_credential_hash h) \<and> he_verify env (the (h_credential_hash h)) credential
           then Some (h_credential_generation h) else None))"

definition authenticate :: "host_env \<Rightarrow> uuid \<Rightarrow> string \<Rightarrow> fleet \<Rightarrow> bool" where
  "authenticate env i credential s \<longleftrightarrow> authenticateGeneration env i credential s \<noteq> None"

section \<open>Heartbeats\<close>

definition heartbeat_error :: "string \<Rightarrow> error" where
  "heartbeat_error message = HostHeartbeatError ''invalid_host_heartbeat'' message None"

definition natural :: "js_number \<Rightarrow> bool" where
  "natural v \<longleftrightarrow> isSafeInteger v \<and> 0 \<le> js_int v"

definition heartbeat_validate ::
    "(string \<Rightarrow> string) \<Rightarrow> host_service \<Rightarrow> host_heartbeat \<Rightarrow> js_number \<Rightarrow> error + runtime_cohort" where
  "heartbeat_validate sha256 svc hb generation =
     (let not_natural = (\<lambda>name. Inl (heartbeat_error (name @ '' must be a bounded non-negative integer''))) in
      if \<not> (isSafeInteger generation \<and> 0 < js_int generation)
      then Inl (PlainError ''credentialGeneration must be positive'')
      else if \<not> natural (hh_availableVcpus hb) then not_natural ''availableVcpus''
      else if \<not> natural (hh_availableMemoryMb hb) then not_natural ''availableMemoryMb''
      else if \<not> natural (hh_availableDiskMb hb) then not_natural ''availableDiskMb''
      else if \<not> natural (hh_machineCount hb) then not_natural ''machineCount''
      else if js_int (hh_machineCount hb) > 10000 \<or> js_int (hh_availableVcpus hb) > 4096 \<or>
         js_int (hh_availableMemoryMb hb) > 16777216 \<or> js_int (hh_availableDiskMb hb) > MAX_SAFE_INTEGER \<or>
         \<not> daemon_version_ok (hh_daemonVersion hb)
      then Inl (heartbeat_error ''heartbeat capacity or daemon version is invalid'')
      else if hs_expectedDaemonVersion svc \<noteq> None \<and> Some (hh_daemonVersion hb) \<noteq> hs_expectedDaemonVersion svc
      then Inl (heartbeat_error ''heartbeat daemon version is not approved for this control-plane release'')
      else map_sum heartbeat_error id (parseRuntimeCohort sha256 (runtimeCohortWire (hh_runtimeCohort hb)) None))"

definition current_host :: "uuid \<Rightarrow> int \<Rightarrow> host_row \<Rightarrow> bool" where
  "current_host i generation h \<longleftrightarrow> trusted i h \<and> h_credential_generation h = generation"

definition hh_available :: "host_heartbeat \<Rightarrow> resources" where
  "hh_available hb =
     Resources (js_int (hh_availableVcpus hb)) (js_int (hh_availableMemoryMb hb)) (js_int (hh_availableDiskMb hb))"

definition cadence_valid :: "time \<Rightarrow> host_row \<Rightarrow> bool" where
  "cadence_valid now h \<longleftrightarrow> opt_ok (\<lambda>t. t \<le> now - seconds 5) (h_last_heartbeat_at h)"

definition heartbeat_state :: "host_heartbeat \<Rightarrow> host_row \<Rightarrow> host_state" where
  "heartbeat_state hb h =
     (let reported = (if hh_kvmAvailable hb then hh_state hb else Unhealthy) in
      if h_state h = Stale then Stale
      else if reported = Unhealthy then Unhealthy
      else if h_desired_state h = DDraining then Draining
      else reported)"

definition heartbeat_host :: "host_heartbeat \<Rightarrow> time \<Rightarrow> host_row \<Rightarrow> host_row" where
  "heartbeat_host hb now h =
     h\<lparr>h_state := heartbeat_state hb h, h_last_heartbeat_at := Some now,
       h_enrollment_completed_at := coalesce (h_enrollment_completed_at h) (Some now),
       h_daemon_version := hh_daemonVersion hb, h_reported_vcpus := Some (js_int (hh_availableVcpus hb)),
       h_reported_memory_mb := Some (js_int (hh_availableMemoryMb hb)),
       h_reported_disk_mb := Some (js_int (hh_availableDiskMb hb)),
       h_reported_machine_count := Some (js_int (hh_machineCount hb))\<rparr>"

text \<open>The samples form a ring: five-minute slots, 1024 of them for each host.\<close>

definition sample_slot :: "time \<Rightarrow> int" where
  "sample_slot now = (now div 300000) mod 1024"

definition sample :: "host_heartbeat \<Rightarrow> runtime_cohort \<Rightarrow> int \<Rightarrow> time \<Rightarrow> host_row \<Rightarrow> heartbeat_row" where
  "sample hb cohort generation now h =
     \<lparr>hb_host_id = h_id h, hb_sample_slot = sample_slot now, hb_observed_at = now, hb_state = heartbeat_state hb h,
      hb_available = hh_available hb, hb_machine_count = js_int (hh_machineCount hb),
      hb_kvm_available = hh_kvmAvailable hb, hb_daemon_version = hh_daemonVersion hb,
      hb_credential_generation = generation, hb_cohort = cohort\<rparr>"

definition upsert_sample :: "heartbeat_row \<Rightarrow> fleet \<Rightarrow> fleet" where
  "upsert_sample x s =
     (let same = (\<lambda>y. hb_host_id y = hb_host_id x \<and> hb_sample_slot y = hb_sample_slot x) in
      s\<lparr>host_heartbeats := (if list_ex same (host_heartbeats s) then sql_update same (\<lambda>_. x) (host_heartbeats s)
          else host_heartbeats s @ [x])\<rparr>)"

text \<open>
  \<open>heartbeat\<close>. A host enrolled before cohorts were recorded has NULL there: its comparison is
  unknown, so such a heartbeat updates nothing and, when neither capacity nor cadence is at fault,
  is a conflict.
\<close>

definition heartbeat ::
    "host_env \<Rightarrow> host_service \<Rightarrow> uuid \<Rightarrow> host_heartbeat \<Rightarrow> js_number \<Rightarrow> time \<Rightarrow> bool tx" where
  "heartbeat env svc i hb generation now s =
     (case heartbeat_validate (he_sha256 env) svc hb generation of
        Inl e \<Rightarrow> Inl e
      | Inr cohort \<Rightarrow>
     (case find (current_host i (js_int generation)) (hosts s) of
        None \<Rightarrow> Inr (False, s)
      | Some h \<Rightarrow>
          (if \<not> opt_ok (\<lambda>c. c = cohort) (h_cohort h) \<or> \<not> hh_available hb \<le> h_total h
           then Inl (heartbeat_error ''heartbeat capacity or runtime cohort does not match the enrolled host'')
           else if \<not> cadence_valid now h
           then Inl (HostHeartbeatError ''host_heartbeat_rate_limited''
             ''heartbeat cadence exceeds the durable per-host limit'' (Some 5))
           else if h_cohort h = None then Inr (False, s)
           else case update_hosts (\<lambda>x. h_id x = h_id h) (heartbeat_host hb now) s of
               Inl e \<Rightarrow> Inl e
             | Inr s1 \<Rightarrow> Inr (True, upsert_sample (sample hb cohort (js_int generation) now h) s1))))"

definition stale_due :: "int \<Rightarrow> time \<Rightarrow> host_row \<Rightarrow> bool" where
  "stale_due staleAfterMs now h \<longleftrightarrow>
     h_state h \<in> {Ready, Draining, Unhealthy} \<and> h_desired_state h \<in> {DActive, DDraining} \<and>
     h_credential_status h = CredActive \<and>
     (case h_last_heartbeat_at h of None \<Rightarrow> True | Some t \<Rightarrow> t < now - staleAfterMs)"

definition markStale :: "int \<Rightarrow> time \<Rightarrow> uuid list tx" where
  "markStale staleAfterMs now s =
     map_sum id (Pair (map h_id (filter (stale_due staleAfterMs now) (hosts s))))
       (update_hosts (stale_due staleAfterMs now) (\<lambda>h. h\<lparr>h_state := Stale\<rparr>) s)"

section \<open>The operator's lifecycle\<close>

text \<open>\<open>UPDATE hosts ... RETURNING\<close> the lifecycle of the row.\<close>

definition update_lifecycle :: "(host_row \<Rightarrow> bool) \<Rightarrow> (host_row \<Rightarrow> host_row) \<Rightarrow> host_lifecycle option tx" where
  "update_lifecycle P f s =
     map_sum id (Pair (map_option (\<lambda>h. lifecycle (f h)) (find P (hosts s)))) (update_hosts P f s)"

definition with_reason :: "string \<Rightarrow> string \<Rightarrow> (string \<Rightarrow> 'a tx) \<Rightarrow> 'a tx" where
  "with_reason reason fallback k s = (case checkedReason reason fallback of Inl e \<Rightarrow> Inl e | Inr r \<Rightarrow> k r s)"

definition drain :: "uuid \<Rightarrow> string \<Rightarrow> host_lifecycle option tx" where
  "drain i reason = with_reason reason ''operator requested drain'' (\<lambda>r.
     update_lifecycle
       (\<lambda>h. h_id h = i \<and> h_desired_state h \<notin> {DQuarantined, DRevoked} \<and> h_credential_status h = CredActive)
       (\<lambda>h. h\<lparr>h_desired_state := DDraining, h_state := (if h_state h = Ready then Draining else Unhealthy),
              h_lifecycle_reason := Some r\<rparr>))"

definition activate :: "uuid \<Rightarrow> string \<Rightarrow> host_lifecycle option tx" where
  "activate i reason = with_reason reason ''operator requested activation'' (\<lambda>r.
     update_lifecycle (\<lambda>h. h_id h = i \<and> h_desired_state h \<noteq> DRevoked \<and> h_credential_status h = CredActive)
       (\<lambda>h. h\<lparr>h_desired_state := DActive, h_state := Unhealthy, h_reported_vcpus := None,
              h_reported_memory_mb := None, h_reported_disk_mb := None, h_reported_machine_count := None,
              h_lifecycle_reason := Some r\<rparr>))"

definition setDraining :: "uuid \<Rightarrow> bool \<Rightarrow> bool tx" where
  "setDraining i draining s =
     map_sum id (\<lambda>(l, s'). (l \<noteq> None, s'))
       (if draining then drain i ''operator requested drain'' s else activate i ''operator requested activation'' s)"

definition isOperatorOrganization :: "uuid \<Rightarrow> fleet \<Rightarrow> bool" where
  "isOperatorOrganization org s = (org \<in> set (fleet_operator_organizations s))"

text \<open>What quarantining and revoking do to a host's credentials and capacity.\<close>

definition cut_off :: "desired_state \<Rightarrow> string \<Rightarrow> time \<Rightarrow> host_row \<Rightarrow> host_row" where
  "cut_off desired r now h =
     h\<lparr>h_desired_state := desired, h_state := Stale, h_credential_status := CredRevoked,
       h_credential_hash := None, h_control_ciphertext := None, h_gateway_ciphertext := None,
       h_credential_revoked_at := coalesce (h_credential_revoked_at h) (Some now), h_reported_vcpus := Some 0,
       h_reported_memory_mb := Some 0, h_reported_disk_mb := Some 0, h_reported_machine_count := None,
       h_lifecycle_reason := Some r\<rparr>"

definition quarantine :: "uuid \<Rightarrow> string \<Rightarrow> time \<Rightarrow> host_lifecycle option tx" where
  "quarantine i reason now = with_reason reason ''operator quarantined host'' (\<lambda>r.
     update_lifecycle (\<lambda>h. h_id h = i \<and> h_desired_state h \<noteq> DRevoked) (cut_off DQuarantined r now))"

definition revoke :: "uuid \<Rightarrow> string \<Rightarrow> time \<Rightarrow> host_lifecycle option tx" where
  "revoke i reason now = with_reason reason ''operator revoked host'' (\<lambda>r.
     update_lifecycle (\<lambda>h. h_id h = i) (cut_off DRevoked r now))"

definition rotated :: "host_env \<Rightarrow> string \<Rightarrow> string \<Rightarrow> string \<Rightarrow> string \<Rightarrow> time \<Rightarrow> host_row \<Rightarrow> host_row" where
  "rotated env control gateway credential r now h =
     h\<lparr>h_desired_state := (if h_desired_state h = DQuarantined then DQuarantined else DDraining),
       h_state := (if h_desired_state h = DQuarantined then Stale else Unhealthy),
       h_credential_hash := Some (he_hash env credential), h_control_ciphertext := Some (he_encrypt env control),
       h_gateway_ciphertext := Some (he_encrypt env gateway),
       h_credential_generation := h_credential_generation h + 1, h_credential_status := CredActive,
       h_credential_rotated_at := now, h_credential_revoked_at := None, h_lifecycle_reason := Some r,
       h_reported_vcpus := None, h_reported_memory_mb := None, h_reported_disk_mb := None,
       h_reported_machine_count := None\<rparr>"

definition rotateCredentials ::
    "host_env \<Rightarrow> uuid \<Rightarrow> string \<Rightarrow> string \<Rightarrow> string \<Rightarrow> string \<Rightarrow> time \<Rightarrow> (host_lifecycle \<times> string) option tx" where
  "rotateCredentials env i control gateway credential reason now s =
     (case validateHostCredentials control gateway None of
        Some e \<Rightarrow> Inl e
      | None \<Rightarrow>
          map_sum id (\<lambda>(l, s'). (map_option (\<lambda>l. (l, credential)) l, s'))
            (with_reason reason ''operator rotated host credentials'' (\<lambda>r.
              update_lifecycle (\<lambda>h. h_id h = i \<and> h_desired_state h \<noteq> DRevoked)
                (rotated env control gateway credential r now)) s))"

section \<open>The host state machine\<close>

text \<open>Every operation of the service that commits is a step.\<close>

inductive host_step :: "host_env \<Rightarrow> host_service \<Rightarrow> fleet \<Rightarrow> fleet \<Rightarrow> bool" for env svc where
  issue: "issueEnrollment env svc input gid hid token now s = Inr (g, s') \<Longrightarrow> host_step env svc s s'"
| withdraw: "revokeEnrollment gid now s = Inr (b, s') \<Longrightarrow> host_step env svc s s'"
| enroll: "register env svc token enrolling credential now1 now2 s = (r, s') \<Longrightarrow> host_step env svc s s'"
| beat: "heartbeat env svc i hb generation now s = Inr (ok, s') \<Longrightarrow> host_step env svc s s'"
| expire: "markStale staleAfterMs now s = Inr (ids, s') \<Longrightarrow> host_step env svc s s'"
| drained: "drain i reason s = Inr (l, s') \<Longrightarrow> host_step env svc s s'"
| activated: "activate i reason s = Inr (l, s') \<Longrightarrow> host_step env svc s s'"
| quarantined: "quarantine i reason now s = Inr (l, s') \<Longrightarrow> host_step env svc s s'"
| revoked: "revoke i reason now s = Inr (l, s') \<Longrightarrow> host_step env svc s s'"
| rotate: "rotateCredentials env i control gateway credential reason now s = Inr (c, s') \<Longrightarrow> host_step env svc s s'"

inductive_cases host_stepE: "host_step env svc s s'"

text \<open>
  What no step undoes: identity, the order of credential generations, the cohort, that enrollment
  was completed, and revocation.
\<close>

definition shut :: "host_row \<Rightarrow> bool" where
  "shut h \<longleftrightarrow> h_desired_state h = DRevoked \<and> h_state h = Stale \<and> h_credential_status h = CredRevoked"

definition host_le :: "host_row \<Rightarrow> host_row \<Rightarrow> bool" where
  "host_le h h' \<longleftrightarrow> h_id h' = h_id h \<and> h_provider_id h' = h_provider_id h \<and>
     h_credential_generation h \<le> h_credential_generation h' \<and> fixed (h_cohort h) (h_cohort h') \<and>
     fixed (h_enrollment_completed_at h) (h_enrollment_completed_at h') \<and> (shut h \<longrightarrow> shut h')"

lemma host_le_refl [simp]: "host_le h h"
  by (simp add: host_le_def)

lemma host_le_trans: "host_le a b \<Longrightarrow> host_le b c \<Longrightarrow> host_le a c"
  unfolding host_le_def by (auto intro: fixed_trans)

definition hosts_le :: "fleet \<Rightarrow> fleet \<Rightarrow> bool" where
  "hosts_le s s' \<longleftrightarrow> covers host_le (hosts s) (hosts s')"

lemma hosts_le_refl [simp]: "hosts_le s s"
  by (simp add: hosts_le_def covers_refl)

lemma hosts_le_trans: "hosts_le s t \<Longrightarrow> hosts_le t u \<Longrightarrow> hosts_le s u"
  unfolding hosts_le_def by (rule covers_trans [OF host_le_trans])

lemma fixed_coalesce [simp]: "fixed a (coalesce a b)"
  by (cases a) (simp_all add: coalesce_def)

definition host_sound :: "fleet \<Rightarrow> fleet \<Rightarrow> bool" where
  "host_sound s s' \<longleftrightarrow> (fleet_inv s \<longrightarrow> fleet_inv s') \<and> fleet_le s s' \<and> hosts_le s s'"

lemma host_sound_update:
  assumes up: "update_hosts P f s = Inr s'"
    and f: "\<And>h. P h \<Longrightarrow> h_id (f h) = h_id h \<and> h_provider_id (f h) = h_provider_id h \<and> h_reserved (f h) = h_reserved h \<and>
      h_credential_generation h \<le> h_credential_generation (f h) \<and>
      fixed (h_enrollment_completed_at h) (h_enrollment_completed_at (f h)) \<and> (shut h \<longrightarrow> shut (f h))"
  shows "host_sound s s'"
proof -
  have "covers host_le (hosts s) (sql_update P f (hosts s))"
  proof (rule covers_sql_update)
    fix h assume h: "h \<in> set (hosts s)" "P h"
    have "fixed (h_cohort h) (h_cohort (f h))" using update_hosts_Inr(3) [OF up h] by (cases "h_cohort h") auto
    with f [OF h(2)] show "host_le h (f h)" by (simp add: host_le_def)
  qed simp
  with update_hosts_Inr(1) [OF up] have "hosts_le s s'" by (simp add: hosts_le_def)
  moreover have "fleet_inv s'" if "fleet_inv s" by (rule inv_update_hosts [OF that up]) (use f in simp)
  ultimately show ?thesis using le_update_hosts [OF up] by (simp add: host_sound_def)
qed

lemma host_sound_refl [simp]: "host_sound s s"
  by (simp add: host_sound_def)

lemma host_sound_other:
  "machines s' = machines s \<Longrightarrow> hosts s' = hosts s \<Longrightarrow> fork_ops s' = fork_ops s \<Longrightarrow> extend_ops s' = extend_ops s \<Longrightarrow>
    host_sound s s'"
  using inv_other [of s s'] by (auto simp: host_sound_def hosts_le_def fleet_le_def covers_refl)

lemma update_grants_frame:
  assumes "update_grants P f s = Inr s'"
  shows "\<exists>gs. s' = s\<lparr>host_enrollment_grants := gs\<rparr>"
  using assms by (auto simp: update_grants_def split: sum.splits)

lemma host_sound_trans: "host_sound s t \<Longrightarrow> host_sound t u \<Longrightarrow> host_sound s u"
  unfolding host_sound_def using fleet_le_trans hosts_le_trans by blast

lemma host_sound_grants: "update_grants P f s = Inr s' \<Longrightarrow> host_sound s s'"
  by (drule update_grants_frame) (auto intro!: host_sound_other)

lemma host_sound_insert:
  assumes "insert_host h s = Inr s'" and "h_reserved h = 0"
  shows "host_sound s s'"
proof -
  from assms(1) have s': "s' = s\<lparr>hosts := hosts s @ [h]\<rparr>" and new: "h_id h \<notin> h_id ` set (hosts s)" and chk: "host_check h"
    by (auto simp: insert_host_def split: if_splits)
  have "fleet_inv s'" if inv: "fleet_inv s"
  proof -
    note I = fleet_invD [OF inv]
    have "committed (h_id h) (machines s) = 0" by (rule committed_unknown) (use I(6) new in blast)
    with I(4) chk assms(2) have "accounted (hosts s') (machines s)"
      by (auto simp: s' accounted_def host_check_def)
    with inv new show ?thesis
      by (auto simp: s' fleet_inv_def opt_ok_def split: option.splits)
  qed
  then show ?thesis by (auto simp: s' host_sound_def fleet_le_def hosts_le_def covers_append)
qed

lemma host_sound_upsert:
  assumes "upsert_host new s = Inr (r, s')" and "h_reserved new = 0"
  shows "host_sound s s'"
proof (cases "find (\<lambda>h. h_provider_id h = h_provider_id new) (hosts s)")
  case None
  with assms host_sound_insert show ?thesis by (auto simp: upsert_host_def)
next
  case (Some h)
  show ?thesis
  proof (cases "re_registrable new h")
    case False
    with assms Some show ?thesis by (auto simp: upsert_host_def)
  next
    case True
    with assms Some have "update_hosts (re_registrable new) (re_register new) s = Inr s'"
      by (auto simp: upsert_host_def split: if_splits)
    then show ?thesis
      by (rule host_sound_update) (auto simp: re_registrable_def re_register_def shut_def)
  qed
qed

lemma host_sound_register:
  assumes "register env svc token input credential now1 now2 s = (r, s')"
  shows "host_sound s s'"
proof -
  have tx: "host_sound s t" if "registerTx env token input cohort credential now2 s = Inr (b, t)" for cohort b t
  proof (cases "find (grant_matches env token input cohort now2) (host_enrollment_grants s)")
    case None
    with that show ?thesis by (auto simp: registerTx_def)
  next
    case (Some g)
    with that obtain s1 c where a: "update_grants (grant_matches env token input cohort now2)
          (\<lambda>g. g\<lparr>g_consumed_at := Some now2\<rparr>) s = Inr s1"
        and b: "upsert_host (new_host env input cohort (he_hash env credential) (g_host_id g) now2) s1 = Inr (c, t)"
      by (auto simp: registerTx_def split: sum.splits)
    have "host_sound s1 t" by (rule host_sound_upsert [OF b]) (simp add: new_host_def)
    with host_sound_grants [OF a] show ?thesis by (rule host_sound_trans)
  qed
  show ?thesis
    using assms tx
    by (fastforce simp: register_def bind_svc_def call_read_def call_tx_def throw_svc_def return_svc_def
        split: option.splits sum.splits if_splits prod.splits)
qed

lemma host_sound_issue:
  assumes "issueEnrollment env svc input gid hid token now s = Inr (g, s')"
  shows "host_sound s s'"
proof -
  from assms obtain cohort where tx: "issueTx env input cohort gid hid token now s = Inr (Some g, s')"
    by (auto simp: issueEnrollment_def split: option.splits sum.splits if_splits)
  then obtain s1 new where a: "update_grants (\<lambda>g. g_provider_id g = hi_providerId input \<and> grant_active g)
      (\<lambda>g. g\<lparr>g_revoked_at := Some now\<rparr>) s = Inr s1" and b: "insert_grant new s1 = Inr s'"
    by (auto simp: issueTx_def Let_def split: option.splits sum.splits if_splits)
  from b have "host_sound s1 s'" by (auto simp: insert_grant_def Let_def split: if_splits intro!: host_sound_other)
  with host_sound_grants [OF a] show ?thesis by (rule host_sound_trans)
qed

lemma host_sound_heartbeat:
  assumes "heartbeat env svc i hb generation now s = Inr (ok, s')"
  shows "host_sound s s'"
proof (cases "s' = s")
  case False
  with assms obtain cohort h s1 where h: "find (current_host i (js_int generation)) (hosts s) = Some h"
      and up: "update_hosts (\<lambda>x. h_id x = h_id h) (heartbeat_host hb now) s = Inr s1"
      and s': "s' = upsert_sample (sample hb cohort (js_int generation) now h) s1"
    by (auto simp: heartbeat_def split: sum.splits option.splits if_splits)
  have "host_sound s s1"
    by (rule host_sound_update [OF up]) (auto simp: heartbeat_host_def heartbeat_state_def shut_def)
  moreover have "host_sound s1 s'" by (rule host_sound_other) (simp_all add: s' upsert_sample_def Let_def)
  ultimately show ?thesis by (rule host_sound_trans)
qed simp

lemma host_sound_lifecycle:
  assumes "with_reason reason fallback (\<lambda>r. update_lifecycle P (f r)) s = Inr (l, s')"
    and "\<And>r h. P h \<Longrightarrow> h_id (f r h) = h_id h \<and> h_provider_id (f r h) = h_provider_id h \<and> h_reserved (f r h) = h_reserved h \<and>
      h_credential_generation h \<le> h_credential_generation (f r h) \<and>
      fixed (h_enrollment_completed_at h) (h_enrollment_completed_at (f r h)) \<and> (shut h \<longrightarrow> shut (f r h))"
  shows "host_sound s s'"
proof -
  from assms(1) obtain r where "update_hosts P (f r) s = Inr s'"
    by (auto simp: with_reason_def update_lifecycle_def split: sum.splits)
  then show ?thesis by (rule host_sound_update) (rule assms(2))
qed

lemma host_step_sound: "host_step env svc s s' \<Longrightarrow> host_sound s s'"
proof (induction rule: host_step.induct)
  case (issue input gid hid token now s g s')
  then show ?case by (rule host_sound_issue)
next
  case (withdraw gid now s b s')
  then show ?case by (auto simp: revokeEnrollment_def Let_def intro: host_sound_grants)
next
  case (enroll token enrolling credential now1 now2 s r s')
  then show ?case by (rule host_sound_register)
next
  case (beat i hb generation now s ok s')
  then show ?case by (rule host_sound_heartbeat)
next
  case (expire staleAfterMs now s ids s')
  then have "update_hosts (stale_due staleAfterMs now) (\<lambda>h. h\<lparr>h_state := Stale\<rparr>) s = Inr s'" by (auto simp: markStale_def)
  then show ?case by (rule host_sound_update) (auto simp: shut_def)
next
  case (drained i reason s l s')
  then show ?case unfolding drain_def by (rule host_sound_lifecycle) (auto simp: shut_def)
next
  case (activated i reason s l s')
  then show ?case unfolding activate_def by (rule host_sound_lifecycle) (auto simp: shut_def)
next
  case (quarantined i reason now s l s')
  then show ?case unfolding quarantine_def by (rule host_sound_lifecycle) (auto simp: cut_off_def shut_def)
next
  case (revoked i reason now s l s')
  then show ?case unfolding revoke_def by (rule host_sound_lifecycle) (auto simp: cut_off_def shut_def)
next
  case (rotate i control gateway credential reason now s c s')
  then obtain l where "with_reason reason ''operator rotated host credentials'' (\<lambda>r.
      update_lifecycle (\<lambda>h. h_id h = i \<and> h_desired_state h \<noteq> DRevoked) (rotated env control gateway credential r now)) s = Inr (l, s')"
    by (auto simp: rotateCredentials_def split: option.splits)
  then show ?case by (rule host_sound_lifecycle) (auto simp: rotated_def shut_def)
qed

lemma host_steps_sound: "(host_step env svc)\<^sup>*\<^sup>* s s' \<Longrightarrow> host_sound s s'"
  by (induction rule: rtranclp_induct) (auto intro: host_sound_trans host_step_sound)

section \<open>Trust\<close>

lemma Some_eq_map_option_iff: "Some l = map_option f x \<longleftrightarrow> (\<exists>y. x = Some y \<and> l = f y)"
  by (cases x) auto

lemma lifecycle_row:
  assumes "update_lifecycle P f s = Inr (Some l, s')"
  obtains h where "h \<in> set (hosts s)" and "P h" and "f h \<in> set (hosts s')"
proof -
  from assms obtain h where h: "find P (hosts s) = Some h" and up: "update_hosts P f s = Inr s'"
    by (auto simp: update_lifecycle_def Some_eq_map_option_iff)
  from find_SomeD [OF h] have "h \<in> set (hosts s)" "P h" by simp_all
  moreover from this update_hosts_Inr(1) [OF up] have "f h \<in> set (hosts s')" by (auto simp: in_sql_update)
  ultimately show thesis by (rule that)
qed

lemma shut_untrusted:
  assumes "fleet_inv s" and "h \<in> set (hosts s)" and "shut h"
  shows "find (trusted (h_id h)) (hosts s) = None"
proof -
  have "x = h" if "x \<in> set (hosts s)" "h_id x = h_id h" for x
    by (rule hkey.key_unique [OF fleet_invD(2) [OF assms(1)] that(1) assms(2) that(2)])
  with assms(3) show ?thesis unfolding find_None_list_ex by (auto simp: list_ex_iff trusted_def shut_def)
qed

text \<open>C6: Revocation is final. Once \<open>revoke\<close> has returned for a host, no sequence of operations of
  the host service, registration, heartbeats, activation and rotation of its credentials included,
  makes the control plane accept a credential of that host or use its gateway again; the host stays
  revoked and stale.\<close>

theorem revoked_host_never_trusted:
  assumes "fleet_inv s" and "revoke i reason now s = Inr (Some l, s1)" and "(host_step env svc)\<^sup>*\<^sup>* s1 s2"
  shows "authenticateGeneration env' i credential s2 = None \<and> gatewayCredential env' i s2 = Inr None \<and>
    list_ex (\<lambda>h. h_id h = i \<and> shut h) (hosts s2)"
proof -
  from assms(2) obtain r where "update_lifecycle (\<lambda>h. h_id h = i) (cut_off DRevoked r now) s = Inr (Some l, s1)"
    by (auto simp: revoke_def with_reason_def split: sum.splits)
  then obtain h where h: "h_id h = i" "cut_off DRevoked r now h \<in> set (hosts s1)" by (rule lifecycle_row)
  have "host_sound s s1" using host_step_sound [OF host_step.revoked [OF assms(2)]] .
  with host_steps_sound [OF assms(3)] have inv: "fleet_inv s2" and le: "hosts_le s1 s2"
    using assms(1) by (simp_all add: host_sound_def)
  from le h(2) obtain h2 where h2: "h2 \<in> set (hosts s2)" "host_le (cut_off DRevoked r now h) h2"
    by (auto simp: hosts_le_def covers_def)
  then have s2: "h_id h2 = i" "shut h2" using h(1) by (auto simp: host_le_def cut_off_def shut_def)
  from shut_untrusted [OF inv h2(1) s2(2)] s2 h2(1) show ?thesis
    by (auto simp: authenticateGeneration_def gatewayCredential_def list_ex_iff)
qed

lemma heartbeat_fenced:
  assumes "find (current_host i (js_int generation)) (hosts s) = None"
  shows "(\<exists>e. heartbeat env svc i hb generation now s = Inl e) \<or> heartbeat env svc i hb generation now s = Inr (False, s)"
  using assms by (auto simp: heartbeat_def split: sum.splits)

text \<open>C31: Rotating the credentials of a host fences the old ones. After \<open>rotateCredentials\<close> and any
  further operations, a heartbeat sent under a generation of before the rotation is rejected, or
  answered as a conflict, and changes nothing.\<close>

theorem rotation_fences_heartbeats:
  assumes "fleet_inv s" and "h \<in> set (hosts s)" and "h_id h = i" and "generation \<le> h_credential_generation h"
    and "rotateCredentials env i control gateway credential reason now s = Inr (Some c, s1)"
    and "(host_step env svc)\<^sup>*\<^sup>* s1 s2"
  shows "(\<exists>e. heartbeat env svc i hb (JSInt generation) now' s2 = Inl e) \<or>
    heartbeat env svc i hb (JSInt generation) now' s2 = Inr (False, s2)"
proof -
  from assms(5) obtain r l where "update_lifecycle (\<lambda>h. h_id h = i \<and> h_desired_state h \<noteq> DRevoked)
      (rotated env control gateway credential r now) s = Inr (Some l, s1)"
    by (auto simp: rotateCredentials_def with_reason_def Some_eq_map_option_iff split: option.splits sum.splits)
  then obtain h' where h': "h' \<in> set (hosts s)" "h_id h' = i" "rotated env control gateway credential r now h' \<in> set (hosts s1)"
    by (rule lifecycle_row) blast
  have "h' = h"
    by (rule hkey.key_unique [OF fleet_invD(2) [OF assms(1)] h'(1) assms(2)]) (use h'(2) assms(3) in simp)
  have "host_sound s s1" using host_step_sound [OF host_step.rotate [OF assms(5)]] .
  with host_steps_sound [OF assms(6)] have inv: "fleet_inv s2" and le: "hosts_le s1 s2"
    using assms(1) by (simp_all add: host_sound_def)
  from le h'(3) obtain h2 where h2: "h2 \<in> set (hosts s2)" "host_le (rotated env control gateway credential r now h') h2"
    by (auto simp: hosts_le_def covers_def)
  then have gen: "h_id h2 = i" "generation < h_credential_generation h2"
    using h'(2) assms(4) \<open>h' = h\<close> by (auto simp: host_le_def rotated_def)
  have "x = h2" if "x \<in> set (hosts s2)" "h_id x = i" for x
    by (rule hkey.key_unique [OF fleet_invD(2) [OF inv] that(1) h2(1)]) (use that(2) gen(1) in simp)
  with gen(2) have "find (current_host i (js_int (JSInt generation))) (hosts s2) = None"
    unfolding find_None_list_ex by (auto simp: list_ex_iff current_host_def trusted_def)
  then show ?thesis by (rule heartbeat_fenced)
qed

section \<open>The sample ring\<close>

definition ring_ok :: "fleet \<Rightarrow> bool" where
  "ring_ok s \<longleftrightarrow> distinct (map (\<lambda>x. (hb_host_id x, hb_sample_slot x)) (host_heartbeats s)) \<and>
     list_all (\<lambda>x. 0 \<le> hb_sample_slot x \<and> hb_sample_slot x < 1024) (host_heartbeats s)"

lemma ring_upsert:
  assumes "ring_ok s" and "0 \<le> hb_sample_slot x" and "hb_sample_slot x < 1024"
  shows "ring_ok (upsert_sample x s)"
proof (cases "list_ex (\<lambda>y. hb_host_id y = hb_host_id x \<and> hb_sample_slot y = hb_sample_slot x) (host_heartbeats s)")
  case True
  have "map (\<lambda>x. (hb_host_id x, hb_sample_slot x))
      (sql_update (\<lambda>y. hb_host_id y = hb_host_id x \<and> hb_sample_slot y = hb_sample_slot x) (\<lambda>_. x) (host_heartbeats s)) =
    map (\<lambda>x. (hb_host_id x, hb_sample_slot x)) (host_heartbeats s)"
    by (simp add: sql_update_def)
  with True assms show ?thesis by (auto simp: ring_ok_def upsert_sample_def Let_def list_all_iff in_sql_update)
next
  case False
  with assms show ?thesis by (auto simp: ring_ok_def upsert_sample_def Let_def list_ex_iff)
qed

lemma ring_bound:
  assumes "ring_ok s"
  shows "length (filter (\<lambda>x. hb_host_id x = i) (host_heartbeats s)) \<le> 1024"
proof -
  let ?xs = "filter (\<lambda>x. hb_host_id x = i) (host_heartbeats s)"
  have "distinct (map (\<lambda>x. (hb_host_id x, hb_sample_slot x)) ?xs)"
    using assms by (auto simp: ring_ok_def intro: distinct_map_filter)
  then have "distinct (map hb_sample_slot ?xs)"
    by (auto simp: distinct_map inj_on_def)
  then have "length ?xs = card (hb_sample_slot ` set ?xs)" by (metis distinct_card length_map list.set_map)
  also have "\<dots> \<le> card {0..<1024 :: int}"
    by (rule card_mono) (use assms in \<open>auto simp: ring_ok_def list_all_iff\<close>)
  finally show ?thesis by simp
qed

text \<open>The history of heartbeats is bounded: whatever heartbeats arrive, a host never has more
  than 1024 samples, one for each five-minute slot of the ring, and each slot has the latest one.\<close>

theorem heartbeat_ring_bounded:
  assumes "ring_ok s" and "heartbeat env svc i hb generation now s = Inr (ok, s')"
  shows "ring_ok s' \<and> length (filter (\<lambda>x. hb_host_id x = j) (host_heartbeats s')) \<le> 1024 \<and>
    (ok \<longrightarrow> list_ex (\<lambda>x. hb_host_id x = i \<and> hb_sample_slot x = sample_slot now \<and> hb_observed_at x = now) (host_heartbeats s'))"
proof -
  have "ring_ok s' \<and> (ok \<longrightarrow> list_ex (\<lambda>x. hb_host_id x = i \<and> hb_sample_slot x = sample_slot now \<and> hb_observed_at x = now)
      (host_heartbeats s'))"
  proof (cases ok)
    case False
    with assms have "s' = s" by (auto simp: heartbeat_def split: sum.splits option.splits if_splits)
    with False assms show ?thesis by simp
  next
    case True
    with assms(2) obtain cohort h s1 where h: "find (current_host i (js_int generation)) (hosts s) = Some h"
        and up: "update_hosts (\<lambda>x. h_id x = h_id h) (heartbeat_host hb now) s = Inr s1"
        and s': "s' = upsert_sample (sample hb cohort (js_int generation) now h) s1"
      by (auto simp: heartbeat_def split: sum.splits option.splits if_splits)
    from find_SomeD [OF h] have i: "h_id h = i" by (simp add: current_host_def trusted_def)
    have "ring_ok s1" using assms(1) update_hosts_Inr(1) [OF up] by (simp add: ring_ok_def)
    then have "ring_ok s'" unfolding s' by (rule ring_upsert) (simp_all add: sample_def sample_slot_def)
    moreover have "sample hb cohort (js_int generation) now h \<in> set (host_heartbeats s')"
      by (auto simp: s' upsert_sample_def Let_def list_ex_iff in_sql_update)
    with i have "list_ex (\<lambda>x. hb_host_id x = i \<and> hb_sample_slot x = sample_slot now \<and> hb_observed_at x = now) (host_heartbeats s')"
      unfolding list_ex_iff by (intro bexI) (simp_all add: sample_def)
    ultimately show ?thesis by simp
  qed
  with ring_bound show ?thesis by blast
qed

section \<open>Grants\<close>

lemma update_grants_Inr:
  assumes "update_grants P f s = Inr s'"
  shows "s' = s\<lparr>host_enrollment_grants := sql_update P f (host_enrollment_grants s)\<rparr>"
proof -
  let ?g = "\<lambda>g. if grant_check (f g) then Inr (f g) else Inl (DbError ''host_enrollment_grants check constraint'')"
  from assms obtain gs where gs: "store_rows P ?g (host_enrollment_grants s) = Inr gs"
      and s': "s' = s\<lparr>host_enrollment_grants := gs\<rparr>"
    by (auto simp: update_grants_def split: sum.splits)
  note st = store_rows_Inr [OF gs]
  have "gs = sql_update P f (host_enrollment_grants s)"
    unfolding st [THEN conjunct1] sql_update_def using st by (intro map_cong) (auto split: if_splits)
  with s' show ?thesis by simp
qed

lemma upsert_host_grants: "upsert_host new s = Inr (r, s') \<Longrightarrow> host_enrollment_grants s' = host_enrollment_grants s"
  by (auto simp: upsert_host_def insert_host_def split: option.splits if_splits dest!: update_hosts_Inr(1))

interpretation gkey: keyed g_token_hash .

lemma registerTx_consumes:
  assumes "registerTx env token input cohort credential now s = Inr (Some r, s')"
    and "distinct (map g_token_hash (host_enrollment_grants s))"
  shows "\<not> list_ex (\<lambda>g. g_token_hash g = he_sha256 env token \<and> grant_active g) (host_enrollment_grants s')"
proof -
  let ?M = "grant_matches env token input cohort now"
  from assms(1) obtain g s1 c where g: "find ?M (host_enrollment_grants s) = Some g"
      and up: "update_grants ?M (\<lambda>g. g\<lparr>g_consumed_at := Some now\<rparr>) s = Inr s1"
      and ins: "upsert_host (new_host env input cohort (he_hash env credential) (g_host_id g) now) s1 = Inr (c, s')"
    by (auto simp: registerTx_def split: sum.splits option.splits)
  have gs: "host_enrollment_grants s' = sql_update ?M (\<lambda>g. g\<lparr>g_consumed_at := Some now\<rparr>) (host_enrollment_grants s)"
    using upsert_host_grants [OF ins] update_grants_Inr [OF up] by simp
  have "x = g" if "x \<in> set (host_enrollment_grants s)" "g_token_hash x = he_sha256 env token" for x
    by (rule gkey.key_unique [OF assms(2) that(1)]) (use find_SomeD [OF g] that(2) in \<open>auto simp: grant_matches_def\<close>)
  moreover have "?M g" using find_SomeD [OF g] by simp
  ultimately show ?thesis by (auto simp: gs list_ex_iff in_sql_update grant_active_def)
qed

text \<open>C14: An enrollment grant is good for one host, once. After a registration with a token has
  succeeded, every further registration with that token, whatever host and credentials it
  presents and whenever it comes, fails and changes nothing.\<close>

theorem enrollment_token_single_use:
  assumes "distinct (map g_token_hash (host_enrollment_grants s))"
    and "register env svc token input credential now1 now2 s = (Inr r, s')"
  shows "\<exists>e. register env svc token input' credential' now3 now4 s' = (Inl e, s')"
proof -
  from assms(2) obtain cohort where "registerTx env token input cohort credential now2 s = Inr (Some r, s')"
    by (auto simp: register_def bind_svc_def call_read_def call_tx_def throw_svc_def return_svc_def
        split: option.splits sum.splits if_splits prod.splits)
  from registerTx_consumes [OF this assms(1)]
  have "\<not> list_ex (grant_matches env token input' cohort' now3) (host_enrollment_grants s')" for cohort'
    by (auto simp: list_ex_iff grant_matches_def)
  then show ?thesis
    by (auto simp: register_def bind_svc_def call_read_def throw_svc_def split: option.splits sum.splits)
qed

end
