(* ===== verification/Observations.thy ===== *)
theory Observations
  imports UsageJobs Hosts
begin

text \<open>
  What a host reports of its machines (the first half of \<open>billing/metering.ts\<close>): the observations
  and their validation, the plausibility bounds an observation is held to, and the split of a
  monotonic interval into the UTC days it is billed on.

  The counters travel as decimal text and are \<open>bigint\<close>s in the code: integers here. SHA-256 is a
  parameter. A \<open>Date\<close> before the year 100 is not met: an observation so far from the machine's
  creation is refused as clock skew before its midnight is computed.
\<close>

section \<open>Bounds\<close>

definition maxSignedBigint :: int where "maxSignedBigint = 9223372036854775807"

definition maxUnsignedBigint :: int where "maxUnsignedBigint = 18446744073709551615"

definition maximumClockLeadMs :: int where "maximumClockLeadMs = 5 * 60 * 1000"

definition maximumWallDivergenceMs :: int where "maximumWallDivergenceMs = 5 * 60 * 1000"

definition nanosecondsPerMillisecond :: int where "nanosecondsPerMillisecond = 1000000"

definition nanosecondsPerSecond :: int where "nanosecondsPerSecond = 1000000000"

definition bytesPerGibibyte :: int where "bytesPerGibibyte = 1073741824"

definition maximumForwardSequenceWindow :: int where "maximumForwardSequenceWindow = 64"

definition maximumPendingObservationsPerHost :: int where "maximumPendingObservationsPerHost = 2048"

definition minimumMeteringBatchIntervalMs :: int where "minimumMeteringBatchIntervalMs = 1000"

definition minimumCheckpointRuntimeDeltaNs :: int where
  "minimumCheckpointRuntimeDeltaNs = 4 * nanosecondsPerSecond"

definition managedEgressBytesPerSecond :: int where "managedEgressBytesPerSecond = 8000000"

definition managedEgressBurstBytes :: int where "managedEgressBurstBytes = 1048576"

definition maximumExactFinalLeadMs :: int where "maximumExactFinalLeadMs = 30000"

lemmas meter_bounds = maximumClockLeadMs_def maximumWallDivergenceMs_def nanosecondsPerMillisecond_def
  nanosecondsPerSecond_def maximumForwardSequenceWindow_def maximumPendingObservationsPerHost_def
  minimumCheckpointRuntimeDeltaNs_def managedEgressBytesPerSecond_def managedEgressBurstBytes_def
  maximumExactFinalLeadMs_def

text \<open>Division of \<open>bigint\<close>s truncates toward zero.\<close>

definition bigint_div :: "int \<Rightarrow> int \<Rightarrow> int" where
  "bigint_div a b = (if a < 0 then - ((- a) div b) else a div b)"

section \<open>Observations\<close>

record host_usage_observation =
  uo_machineId :: string
  uo_hostMachineId :: string
  uo_leaseId :: string
  uo_leaseGeneration :: string
  uo_hostBootId :: string
  uo_sequence :: string
  uo_kind :: string
  uo_quality :: string
  uo_qualityReason :: string
  uo_runtimeNs :: string
  uo_egressBytes :: string
  uo_egressCounterEpoch :: string
  uo_observedMonotonicNs :: string
  uo_observedAt :: string
  uo_vcpus :: js_number
  uo_memoryBytes :: string
  uo_processId :: js_number

datatype observation_outcome =
  OAccepted | ODuplicate | OPendingGap | OQuarantined | ORejectedPayloadConflict

record observation_receipt =
  or_leaseId :: string
  or_leaseGeneration :: string
  or_hostBootId :: string
  or_sequence :: string
  or_outcome :: observation_outcome
  or_acknowledged :: bool

definition receiptFor :: "host_usage_observation \<Rightarrow> observation_outcome \<Rightarrow> observation_receipt" where
  "receiptFor observation outcome =
     \<lparr>or_leaseId = uo_leaseId observation, or_leaseGeneration = uo_leaseGeneration observation,
      or_hostBootId = uo_hostBootId observation, or_sequence = uo_sequence observation,
      or_outcome = outcome, or_acknowledged = True\<rparr>"

text \<open>The columns \<open>ingest\<close> selects of the machine an observation names.\<close>

record machine_identity =
  mi_id :: string
  mi_organization_id :: uuid
  mi_project_id :: uuid
  mi_host_id :: uuid
  mi_host_machine_id :: string
  mi_lease_id :: uuid
  mi_lease_generation :: int
  mi_vcpus :: int
  mi_memory_bytes :: int
  mi_created_at :: time
  mi_started_at :: "time option"
  mi_usage_checkpoint_at :: "time option"
  mi_state :: machine_state
  mi_expires_at :: time
  mi_admission_received_at :: time

definition identity_of :: "time \<Rightarrow> machine_row \<Rightarrow> machine_identity" where
  "identity_of now m =
     \<lparr>mi_id = m_id m, mi_organization_id = m_organization_id m, mi_project_id = m_project_id m,
      mi_host_id = the (m_host_id m), mi_host_machine_id = the (m_host_machine_id m), mi_lease_id = m_lease_id m,
      mi_lease_generation = m_lease_generation m, mi_vcpus = vcpus (m_resources m),
      mi_memory_bytes = memoryMb (m_resources m) * 1048576, mi_created_at = m_created_at m,
      mi_started_at = m_started_at m, mi_usage_checkpoint_at = m_usage_checkpoint_at m, mi_state = m_state m,
      mi_expires_at = m_expires_at m, mi_admission_received_at = now\<rparr>"

section \<open>Plausibility\<close>

text \<open>
  \<open>observationIntegrityReason\<close>, on the fields of the observation it reads: its kind, its quality,
  its run time, its egress and the epoch of its egress counter.
\<close>

definition egress_ceiling :: "int \<Rightarrow> int" where
  "egress_ceiling elapsedNs =
     managedEgressBurstBytes +
     bigint_div (elapsedNs * managedEgressBytesPerSecond + nanosecondsPerSecond - 1) nanosecondsPerSecond"

definition defensibleElapsedNs :: "machine_identity \<Rightarrow> time \<Rightarrow> int" where
  "defensibleElapsedNs identity receivedAt =
     (let leaseStart = (case mi_started_at identity of None \<Rightarrow> mi_created_at identity | Some t \<Rightarrow> t) in
      (max 0 (receivedAt - leaseStart) + maximumWallDivergenceMs) * nanosecondsPerMillisecond)"

definition prematureFinal :: "machine_identity \<Rightarrow> string \<Rightarrow> time \<Rightarrow> bool" where
  "prematureFinal identity quality receivedAt \<longleftrightarrow>
     mi_state identity \<notin> {Stopping, Stopped, Failed, Lost} \<and>
     (quality = ''exact'' \<longrightarrow> receivedAt < mi_expires_at identity - maximumExactFinalLeadMs)"

definition observationIntegrityReason ::
    "machine_identity \<Rightarrow> meter_row \<Rightarrow> string \<Rightarrow> string \<Rightarrow> int \<Rightarrow> int \<Rightarrow> int \<Rightarrow> time \<Rightarrow> string option" where
  "observationIntegrityReason identity state kind quality runtime egress epoch receivedAt =
     (let elapsed = defensibleElapsedNs identity receivedAt; runtimeDelta = runtime - mm_last_runtime_ns state;
          egressDelta = egress - mm_last_egress_bytes state in
      if runtime > elapsed then Some ''observation_rate_exceeded''
      else if egress > egress_ceiling elapsed then Some ''egress_plausibility_exceeded''
      else if \<not> mm_start_seen state then None
      else if runtime < mm_last_runtime_ns state \<or> egress < mm_last_egress_bytes state then None
      else if kind = ''checkpoint'' \<and> runtimeDelta < minimumCheckpointRuntimeDeltaNs
      then Some ''observation_rate_exceeded''
      else if epoch = mm_egress_counter_epoch state \<and>
        egressDelta > (if runtimeDelta = 0 then 0 else egress_ceiling runtimeDelta)
      then Some ''egress_plausibility_exceeded''
      else if kind = ''final'' \<and> prematureFinal identity quality receivedAt then Some ''premature_final''
      else None)"

section \<open>Validation\<close>

definition canonical_decimal :: "nat \<Rightarrow> string \<Rightarrow> bool" where
  "canonical_decimal digits s \<longleftrightarrow>
     s \<noteq> [] \<and> length s \<le> digits \<and> hd s \<noteq> CHR ''0'' \<and> list_all is_digit s"

definition parseUnsigned :: "string \<Rightarrow> string \<Rightarrow> error + int" where
  "parseUnsigned value name =
     (if \<not> (value = ''0'' \<or> canonical_decimal 30 value)
      then Inl (MeteringInputError (name @ '' must be an unsigned decimal integer''))
      else if int (read_nat value) > maxUnsignedBigint then Inl (MeteringInputError (name @ '' exceeds host uint64''))
      else Inr (int (read_nat value)))"

definition parsePositiveBigint :: "string \<Rightarrow> string \<Rightarrow> error + int" where
  "parsePositiveBigint value name =
     (if \<not> canonical_decimal 19 value
      then Inl (MeteringInputError (name @ '' must be a positive decimal integer''))
      else if int (read_nat value) > maxSignedBigint
      then Inl (MeteringInputError (name @ '' exceeds PostgreSQL bigint''))
      else Inr (int (read_nat value)))"

definition canonicalPayload :: "host_usage_observation \<Rightarrow> string" where
  "canonicalPayload x =
     stringify (JObj
       [(''machine_id'', JStr (uo_machineId x)), (''host_machine_id'', JStr (uo_hostMachineId x)),
        (''lease_id'', JStr (uo_leaseId x)), (''lease_generation'', JStr (uo_leaseGeneration x)),
        (''host_boot_id'', JStr (uo_hostBootId x)), (''sequence'', JStr (uo_sequence x)),
        (''kind'', JStr (uo_kind x)), (''quality'', JStr (uo_quality x)),
        (''quality_reason'', JStr (uo_qualityReason x)), (''runtime_ns'', JStr (uo_runtimeNs x)),
        (''egress_bytes'', JStr (uo_egressBytes x)), (''egress_counter_epoch'', JStr (uo_egressCounterEpoch x)),
        (''observed_monotonic_ns'', JStr (uo_observedMonotonicNs x)), (''observed_at'', JStr (uo_observedAt x)),
        (''vcpus'', JNum (uo_vcpus x)), (''memory_bytes'', JStr (uo_memoryBytes x)),
        (''process_id'', JNum (uo_processId x))])"

definition payloadHash :: "(string \<Rightarrow> string) \<Rightarrow> host_usage_observation \<Rightarrow> string" where
  "payloadHash sha256 x = sha256 (canonicalPayload x)"

text \<open>
  \<open>new Date(text)\<close> for the shape the validation lets through: the ECMAScript date-time format in
  UTC, with up to nine decimals of which three are kept. A day of the month up to 31 is accepted in
  every month and runs over into the next, and 24:00:00 is the end of the day.
\<close>

definition days_from_civil :: "int \<Rightarrow> int \<Rightarrow> int \<Rightarrow> int" where
  "days_from_civil y m d =
     (let y' = (if m \<le> 2 then y - 1 else y); yoe = y' mod 400;
          doy = (153 * ((m + 9) mod 12) + 2) div 5 + d - 1 in
      y' div 400 * 146097 + (yoe * 365 + yoe div 4 - yoe div 100 + doy) - 719468)"

definition observed_at_pattern :: "string \<Rightarrow> bool" where
  "observed_at_pattern s \<longleftrightarrow>
     20 \<le> length s \<and> last s = CHR ''Z'' \<and>
     list_all (\<lambda>i. if i \<in> {4, 7} then s ! i = CHR ''-'' else if i = 10 then s ! i = CHR ''T''
       else if i \<in> {13, 16} then s ! i = CHR '':'' else is_digit (s ! i)) [0..<19] \<and>
     (let fraction = butlast (drop 19 s) in
      fraction = [] \<or> hd fraction = CHR ''.'' \<and> 2 \<le> length fraction \<and> length fraction \<le> 10 \<and>
        list_all is_digit (tl fraction))"

definition date_parse :: "string \<Rightarrow> time option" where
  "date_parse s =
     (let field = (\<lambda>i n. int (read_nat (take n (drop i s))));
          y = field 0 4; mo = field 5 2; d = field 8 2; h = field 11 2; mi = field 14 2; sec = field 17 2;
          ms = int (read_nat (take 3 (tl (butlast (drop 19 s)) @ ''000''))) in
      if 1 \<le> mo \<and> mo \<le> 12 \<and> 1 \<le> d \<and> d \<le> 31 \<and>
         (h \<le> 23 \<and> mi \<le> 59 \<and> sec \<le> 59 \<or> h = 24 \<and> mi = 0 \<and> sec = 0 \<and> ms = 0)
      then Some (days_from_civil y mo d * 86400000 + h * 3600000 + mi * 60000 + sec * 1000 + ms)
      else None)"

definition host_machine_id_ok :: "string \<Rightarrow> bool" where
  "host_machine_id_ok s \<longleftrightarrow> length s = 10 \<and> take 2 s = ''m-'' \<and> list_all is_hex (drop 2 s)"

definition quality_reasons :: "string list" where
  "quality_reasons =
     [''none'', ''terminal_monotonic_unavailable'', ''terminal_monotonic_regressed'', ''terminal_egress_unavailable'',
      ''invalid_or_expired_state'', ''runtime_unavailable'', ''host_boot_changed'', ''network_isolation_unavailable'']"

text \<open>The first of several checks that fails.\<close>

fun first_error :: "(error + 'a) list \<Rightarrow> error option" where
  "first_error [] = None"
| "first_error (Inl e # rs) = Some e"
| "first_error (Inr _ # rs) = first_error rs"

definition require :: "bool \<Rightarrow> string \<Rightarrow> error + int" where
  "require b message = (if b then Inr 0 else Inl (MeteringInputError message))"

definition validateObservation :: "host_usage_observation \<Rightarrow> error option" where
  "validateObservation x = first_error
     [require (length (uo_machineId x) \<le> 128 \<and> machine_id_ok (uo_machineId x)) ''machine_id is invalid'',
      require (host_machine_id_ok (uo_hostMachineId x)) ''host_machine_id is invalid'',
      require (uuid_ok (uo_leaseId x)) ''lease_id is invalid'',
      require (uuid_ok (uo_hostBootId x)) ''host_boot_id is invalid'',
      parsePositiveBigint (uo_leaseGeneration x) ''lease_generation'',
      parsePositiveBigint (uo_sequence x) ''sequence'',
      parseUnsigned (uo_runtimeNs x) ''runtime_ns'',
      parseUnsigned (uo_egressBytes x) ''egress_bytes'',
      parsePositiveBigint (uo_egressCounterEpoch x) ''egress_counter_epoch'',
      parseUnsigned (uo_observedMonotonicNs x) ''observed_monotonic_ns'',
      parsePositiveBigint (uo_memoryBytes x) ''memory_bytes'',
      require (uo_kind x \<in> set [''start'', ''checkpoint'', ''final'']) ''kind is invalid'',
      require (uo_quality x \<in> set [''exact'', ''last_defensible'']) ''quality is invalid'',
      require (uo_qualityReason x \<in> set quality_reasons) ''quality_reason is invalid'',
      require (\<not> (uo_quality x = ''exact'' \<and> uo_qualityReason x \<noteq> ''none'' \<or>
        uo_quality x = ''last_defensible'' \<and> (uo_kind x \<noteq> ''final'' \<or> uo_qualityReason x = ''none'')))
        ''quality and quality_reason are inconsistent'',
      require (isSafeInteger (uo_vcpus x) \<and> 1 \<le> js_int (uo_vcpus x)) ''vcpus is invalid'',
      require (isSafeInteger (uo_processId x) \<and> 1 < js_int (uo_processId x)) ''process_id is invalid'',
      require (observed_at_pattern (uo_observedAt x) \<and> date_parse (uo_observedAt x) \<noteq> None)
        ''observed_at must be a canonical UTC timestamp'']"

section \<open>Billing days\<close>

definition timestampFromNanoseconds :: "int \<Rightarrow> time" where
  "timestampFromNanoseconds value = bigint_div value nanosecondsPerMillisecond"

record usage_segment =
  sg_index :: nat
  sg_start :: time
  sg_end :: time
  sg_runtimeNs :: int

lemma midnight_after:
  "cursor < nextMidnight (timestampFromNanoseconds cursor) * nanosecondsPerMillisecond"
proof (cases "cursor < 0")
  case True
  let ?t = "- (- cursor div nanosecondsPerMillisecond)"
  have "?t * nanosecondsPerMillisecond \<ge> cursor"
    using div_mult_mod_eq [of "- cursor" nanosecondsPerMillisecond]
    by (simp add: nanosecondsPerMillisecond_def)
  with nextMidnight_greater [of ?t] True show ?thesis
    by (simp add: timestampFromNanoseconds_def bigint_div_def nanosecondsPerMillisecond_def)
next
  case False
  let ?t = "cursor div nanosecondsPerMillisecond"
  have "cursor < (?t + 1) * nanosecondsPerMillisecond"
    by (simp add: nanosecondsPerMillisecond_def)
  moreover have "(?t + 1) * nanosecondsPerMillisecond \<le> nextMidnight ?t * nanosecondsPerMillisecond"
    using nextMidnight_greater [of ?t] by (simp add: nanosecondsPerMillisecond_def)
  ultimately show ?thesis using False by (simp add: timestampFromNanoseconds_def bigint_div_def)
qed

function split_loop :: "nat \<Rightarrow> int \<Rightarrow> int \<Rightarrow> usage_segment list" where
  "split_loop index cursor stop =
     (if cursor < stop then
        (let midnight = nextMidnight (timestampFromNanoseconds cursor) * nanosecondsPerMillisecond;
             end' = (if midnight < stop then midnight else stop) in
         \<lparr>sg_index = index, sg_start = timestampFromNanoseconds cursor, sg_end = timestampFromNanoseconds end',
          sg_runtimeNs = end' - cursor\<rparr> # split_loop (Suc index) end' stop)
      else [])"
  by pat_completeness auto
termination
  by (relation "measure (\<lambda>(_, cursor, stop). nat (stop - cursor))") (auto simp: midnight_after)

declare split_loop.simps [simp del]

definition splitRuntimeAtUtcMidnight :: "time \<Rightarrow> int \<Rightarrow> error + usage_segment list" where
  "splitRuntimeAtUtcMidnight start durationNs =
     (if durationNs < 0 then Inl (PlainError ''runtime delta cannot be negative'')
      else if durationNs = 0 then Inr []
      else let cursor = start * nanosecondsPerMillisecond in Inr (split_loop 0 cursor (cursor + durationNs)))"

section \<open>No nanosecond is lost\<close>

lemma timestamp_whole [simp]: "timestampFromNanoseconds (t * nanosecondsPerMillisecond) = t"
proof -
  have "(- t * nanosecondsPerMillisecond) div nanosecondsPerMillisecond = - t"
    by (simp add: nanosecondsPerMillisecond_def)
  then show ?thesis
    by (auto simp: timestampFromNanoseconds_def bigint_div_def nanosecondsPerMillisecond_def)
qed

lemma timestamp_mono:
  assumes "a \<le> b" shows "timestampFromNanoseconds a \<le> timestampFromNanoseconds b"
proof -
  have "- b div nanosecondsPerMillisecond \<le> - a div nanosecondsPerMillisecond"
    "a div nanosecondsPerMillisecond \<le> b div nanosecondsPerMillisecond"
    using assms by (auto intro: zdiv_mono1 simp: nanosecondsPerMillisecond_def)
  moreover have "0 \<le> b div nanosecondsPerMillisecond" if "0 \<le> b"
    using that by (simp add: nanosecondsPerMillisecond_def)
  moreover have "0 \<le> - a div nanosecondsPerMillisecond" if "a < 0"
    using that by (simp add: nanosecondsPerMillisecond_def)
  ultimately show ?thesis using assms
    by (cases "a < 0"; cases "b < 0") (simp_all add: timestampFromNanoseconds_def bigint_div_def)
qed

text \<open>
  What a split of the interval from millisecond \<open>t\<close> to nanosecond \<open>to\<close> looks like: consecutive
  positive pieces, numbered from \<open>n\<close>, each within one UTC day.
\<close>

fun day_pieces :: "nat \<Rightarrow> time \<Rightarrow> int \<Rightarrow> usage_segment list \<Rightarrow> bool" where
  "day_pieces n t to [] \<longleftrightarrow> to = t * nanosecondsPerMillisecond"
| "day_pieces n t to (g # gs) \<longleftrightarrow>
     sg_index g = n \<and> sg_start g = t \<and> 0 < sg_runtimeNs g \<and> sg_end g \<le> nextMidnight t \<and>
     sg_end g = timestampFromNanoseconds (t * nanosecondsPerMillisecond + sg_runtimeNs g) \<and>
     (if gs = [] then to = t * nanosecondsPerMillisecond + sg_runtimeNs g
      else sg_end g * nanosecondsPerMillisecond = t * nanosecondsPerMillisecond + sg_runtimeNs g \<and>
           day_pieces (Suc n) (sg_end g) to gs)"

lemma split_loop_pieces:
  "cursor = t * nanosecondsPerMillisecond \<Longrightarrow> cursor \<le> stop \<Longrightarrow>
    day_pieces n t stop (split_loop n cursor stop)"
proof (induction n cursor stop arbitrary: t rule: split_loop.induct)
  case (1 n cursor stop)
  show ?case
  proof (cases "cursor < stop")
    case False
    with 1 show ?thesis by (simp add: split_loop.simps [of n])
  next
    case True
    let ?m = "nextMidnight t * nanosecondsPerMillisecond"
    have t: "timestampFromNanoseconds cursor = t" by (simp add: 1)
    have after: "cursor < ?m" using midnight_after [of cursor] by (simp add: t)
    show ?thesis
    proof (cases "?m < stop")
      case False
      have e: "split_loop (Suc n) stop stop = []" by (simp add: split_loop.simps)
      from False have "timestampFromNanoseconds stop \<le> timestampFromNanoseconds ?m" by (intro timestamp_mono) simp
      with True False show ?thesis
        using "1.prems"(1) by (subst split_loop.simps) (simp add: t Let_def e)
    next
      case m: True
      have ih: "day_pieces (Suc n) (nextMidnight t) stop (split_loop (Suc n) ?m stop)"
        using "1.IH" [OF True refl refl, of "nextMidnight t"] m by (simp add: t)
      have "split_loop (Suc n) ?m stop \<noteq> []" using m by (simp add: split_loop.simps [of "Suc n"] Let_def)
      with ih m after True show ?thesis
        using "1.prems"(1) by (subst split_loop.simps) (simp add: t Let_def)
    qed
  qed
qed

lemma day_pieces_sum: "day_pieces n t to gs \<Longrightarrow> sum_list (map sg_runtimeNs gs) = to - t * nanosecondsPerMillisecond"
  by (induction n t to gs rule: day_pieces.induct) (auto split: if_splits)

lemma day_pieces_index: "day_pieces n t to gs \<Longrightarrow> map sg_index gs = [n..<n + length gs]"
  by (induction n t to gs rule: day_pieces.induct) (auto split: if_splits simp: upt_conv_Cons)

lemma day_pieces_positive: "day_pieces n t to gs \<Longrightarrow> g \<in> set gs \<Longrightarrow> 0 < sg_runtimeNs g"
  by (induction n t to gs rule: day_pieces.induct) (auto split: if_splits)

lemma day_pieces_ordered: "day_pieces n t to gs \<Longrightarrow> g \<in> set gs \<Longrightarrow> sg_start g \<le> sg_end g"
proof (induction n t to gs rule: day_pieces.induct)
  case (2 n t to g gs)
  have "sg_start g \<le> sg_end g"
    using 2(2) timestamp_mono [of "t * nanosecondsPerMillisecond" "t * nanosecondsPerMillisecond + sg_runtimeNs g"] by simp
  with 2 show ?case by (auto split: if_splits)
qed simp

lemma day_pieces_end: "day_pieces n t to gs \<Longrightarrow> gs \<noteq> [] \<Longrightarrow> sg_end (last gs) = timestampFromNanoseconds to"
  by (induction n t to gs rule: day_pieces.induct) (auto split: if_splits)

lemma day_pieces_starts: "day_pieces n t to gs \<Longrightarrow> g \<in> set gs \<Longrightarrow> t \<le> sg_start g"
  and day_pieces_distinct: "day_pieces n t to gs \<Longrightarrow> distinct (map sg_start gs)"
proof -
  have "(\<forall>g\<in>set gs. t \<le> sg_start g) \<and> distinct (map sg_start gs)" if "day_pieces n t to gs" for gs
    using that
  proof (induction n t to gs rule: day_pieces.induct)
    case (2 n t to g gs)
    show ?case
    proof (cases "gs = []")
      case False
      with 2(2) have e: "sg_end g * nanosecondsPerMillisecond = t * nanosecondsPerMillisecond + sg_runtimeNs g"
        "0 < sg_runtimeNs g" "day_pieces (Suc n) (sg_end g) to gs" "sg_start g = t"
        by (metis day_pieces.simps(2))+
      then have "t < sg_end g" by (simp add: nanosecondsPerMillisecond_def)
      with 2(1) [OF False e(3)] e(4) show ?thesis by fastforce
    qed (use 2(2) in simp)
  qed simp
  then show "day_pieces n t to gs \<Longrightarrow> g \<in> set gs \<Longrightarrow> t \<le> sg_start g"
    and "day_pieces n t to gs \<Longrightarrow> distinct (map sg_start gs)" by blast+
qed

lemma day_pieces_midnight: "day_pieces n t to gs \<Longrightarrow> g \<in> set gs \<Longrightarrow> sg_end g \<le> nextMidnight (sg_start g)"
  by (induction n t to gs rule: day_pieces.induct) (auto split: if_splits)

lemma day_pieces_hd: "day_pieces n t to gs \<Longrightarrow> gs \<noteq> [] \<Longrightarrow> sg_start (hd gs) = t"
  by (cases gs) simp_all

lemma split_pieces:
  assumes "0 \<le> duration"
  obtains gs where "splitRuntimeAtUtcMidnight start duration = Inr gs"
    and "day_pieces 0 start (start * nanosecondsPerMillisecond + duration) gs"
  using assms split_loop_pieces [of "start * nanosecondsPerMillisecond" start "start * nanosecondsPerMillisecond + duration" 0]
  by (cases "duration = 0") (auto simp: splitRuntimeAtUtcMidnight_def Let_def)

text \<open>Splitting a run time at UTC midnights loses and invents nothing. The segments of a non-negative
  duration add up to it to the nanosecond, are numbered from 0, are all positive, follow one another
  from the start to the end of the interval, and none of them crosses a midnight; the loop ends for
  every input.\<close>

theorem split_runtime_exact:
  assumes "0 \<le> duration"
  shows "\<exists>gs. splitRuntimeAtUtcMidnight start duration = Inr gs \<and>
    sum_list (map sg_runtimeNs gs) = duration \<and> map sg_index gs = [0..<length gs] \<and>
    list_all (\<lambda>g. 0 < sg_runtimeNs g \<and> sg_start g \<le> sg_end g \<and> sg_end g \<le> nextMidnight (sg_start g)) gs \<and>
    distinct (map sg_start gs) \<and>
    (if gs = [] then duration = 0
     else sg_start (hd gs) = start \<and>
       sg_end (last gs) = timestampFromNanoseconds (start * nanosecondsPerMillisecond + duration))"
proof -
  from assms obtain gs where gs: "splitRuntimeAtUtcMidnight start duration = Inr gs"
      and p: "day_pieces 0 start (start * nanosecondsPerMillisecond + duration) gs" by (rule split_pieces)
  have "duration = 0" if "gs = []" using p that by simp
  moreover have "list_all (\<lambda>g. 0 < sg_runtimeNs g \<and> sg_start g \<le> sg_end g \<and> sg_end g \<le> nextMidnight (sg_start g)) gs"
    using day_pieces_positive [OF p] day_pieces_ordered [OF p] day_pieces_midnight [OF p] by (simp add: list_all_iff)
  ultimately show ?thesis
    using gs day_pieces_sum [OF p] day_pieces_index [OF p] day_pieces_distinct [OF p] day_pieces_hd [OF p] day_pieces_end [OF p]
    by (intro exI [of _ gs]) simp
qed

end
