(* ===== verification/Metering.thy ===== *)
theory Metering
  imports Observations
begin

text \<open>
  \<open>AuthoritativeMetering\<close> of \<open>billing/metering.ts\<close>: a host's observations are stored once, drained in
  sequence order into the meter state of their machine, and billed by the growth of the projected
  run time. An observation that cannot be true quarantines the meter and, with it, the host.

  \<open>pgdiv q d\<close> is the value \<open>usage_events.quantity\<close> stores for the numeric quotient of \<open>q\<close> and
  \<open>d\<close>. The identity column of an observation is a number not used before; PostgreSQL may skip some.
  A lease or boot id reaches the database as a \<open>uuid\<close>, which it stores in lower case.
\<close>

section \<open>Statements\<close>

definition meter_of :: "fleet \<Rightarrow> string \<Rightarrow> meter_row option" where
  "meter_of s i = find (\<lambda>x. mm_machine_id x = i) (machine_meter_state s)"

definition uint64_ok :: "int \<Rightarrow> bool" where
  "uint64_ok n \<longleftrightarrow> 0 \<le> n \<and> n \<le> maxUnsignedBigint"

definition meter_check :: "meter_row \<Rightarrow> bool" where
  "meter_check x \<longleftrightarrow>
     0 < mm_lease_generation x \<and> 0 \<le> mm_last_sequence x \<and> uint64_ok (mm_last_runtime_ns x) \<and>
     uint64_ok (mm_projected_runtime_ns x) \<and> opt_ok uint64_ok (mm_start_monotonic_ns x) \<and>
     opt_ok uint64_ok (mm_last_observed_monotonic_ns x) \<and> uint64_ok (mm_last_egress_bytes x) \<and>
     0 < mm_egress_counter_epoch x"

definition update_meters :: "(meter_row \<Rightarrow> bool) \<Rightarrow> (meter_row \<Rightarrow> meter_row) \<Rightarrow> fleet \<Rightarrow> error + fleet" where
  "update_meters P f s =
     (case store_rows P (\<lambda>r. if meter_check (f r) then Inr (f r)
          else Inl (DbError ''machine_meter_state check constraint'')) (machine_meter_state s) of
        Inl e \<Rightarrow> Inl e
      | Inr xs \<Rightarrow> Inr (s\<lparr>machine_meter_state := xs\<rparr>))"

definition setQuarantined :: "string \<Rightarrow> string \<Rightarrow> time \<Rightarrow> fleet \<Rightarrow> fleet" where
  "setQuarantined i reason now s =
     s\<lparr>machine_meter_state := sql_update (\<lambda>x. mm_machine_id x = i)
         (\<lambda>x. x\<lparr>mm_quarantined_at := coalesce (mm_quarantined_at x) (Some now),
               mm_quarantine_reason := coalesce (mm_quarantine_reason x) (Some reason)\<rparr>) (machine_meter_state s)\<rparr>"

definition quarantined_host :: "string \<Rightarrow> time \<Rightarrow> host_row \<Rightarrow> host_row" where
  "quarantined_host reason now h =
     h\<lparr>h_desired_state := DQuarantined, h_state := Stale, h_credential_generation := h_credential_generation h + 1,
       h_credential_status := CredRevoked, h_credential_hash := None, h_control_ciphertext := None,
       h_gateway_ciphertext := None, h_credential_revoked_at := coalesce (h_credential_revoked_at h) (Some now),
       h_reported_vcpus := Some 0, h_reported_memory_mb := Some 0, h_reported_disk_mb := Some 0,
       h_reported_machine_count := Some 0, h_lifecycle_reason := Some reason,
       h_metering_quarantined_at := coalesce (h_metering_quarantined_at h) (Some now)\<rparr>"

definition quarantine_audit :: "uuid \<Rightarrow> string \<Rightarrow> audit_row" where
  "quarantine_audit hostId reason =
     \<lparr>a_key = ''host:'' @ hostId @ '':metering-integrity-quarantine'', a_operation_id = None,
      a_organization_id = None, a_project_id = None, a_actor_type = ''system'',
      a_actor_id = Some ''authoritative-metering'', a_action = ''host.quarantined'', a_outcome = ''succeeded'',
      a_reason_code = Some ''metering_integrity_violation'', a_resource_type = ''host'', a_resource_id = hostId,
      a_request_id = None, a_user_agent = None, a_metadata = [(''reason'', JStr reason)]\<rparr>"

definition insert_audit :: "audit_row \<Rightarrow> fleet \<Rightarrow> fleet" where
  "insert_audit a s =
     (if a_key a \<in> set (map a_key (audit_events s)) then s
      else s\<lparr>audit_events := audit_events s @ [a]\<rparr>)"

definition quarantineHost :: "uuid \<Rightarrow> string \<Rightarrow> time \<Rightarrow> fleet \<Rightarrow> error + fleet" where
  "quarantineHost hostId reason now s =
     map_sum id (insert_audit (quarantine_audit hostId reason))
       (update_hosts (\<lambda>h. h_id h = hostId \<and> h_desired_state h \<notin> {DQuarantined, DRevoked})
          (quarantined_host reason now) s)"

definition tenant_fks :: "string \<Rightarrow> machine_identity \<Rightarrow> fleet \<Rightarrow> error option" where
  "tenant_fks table identity s =
     (if \<not> list_ex (\<lambda>p. p_id p = mi_project_id identity \<and> p_organization_id p = mi_organization_id identity) (projects s)
      then Some (DbError (table @ ''_project_id_organization_id_fkey''))
      else if \<not> list_ex (\<lambda>m. m_id m = mi_id identity \<and> m_organization_id m = mi_organization_id identity) (machines s)
      then Some (DbError (table @ ''_machine_id_organization_id_fkey''))
      else None)"

record projection =
  pj_eventKey :: string
  pj_observationId :: nat
  pj_dimension :: string
  pj_unit :: string
  pj_quantity :: int
  pj_periodStart :: time
  pj_periodEnd :: time

definition raw_row :: "machine_identity \<Rightarrow> projection \<Rightarrow> raw_usage_row" where
  "raw_row identity p =
     \<lparr>rw_key = pj_eventKey p, rw_observation_id = pj_observationId p,
      rw_organization_id = mi_organization_id identity, rw_project_id = mi_project_id identity,
      rw_machine_id = mi_id identity, rw_lease_id = mi_lease_id identity,
      rw_lease_generation = mi_lease_generation identity, rw_dimension = pj_dimension p, rw_unit = pj_unit p,
      rw_quantity = pj_quantity p, rw_period_start = pj_periodStart p, rw_period_end = pj_periodEnd p\<rparr>"

definition insert_raw :: "raw_usage_row \<Rightarrow> fleet \<Rightarrow> error + fleet" where
  "insert_raw r s =
     (if rw_quantity r < 0 \<or> rw_period_end r < rw_period_start r
      then Inl (DbError ''meter_raw_usage_events check constraint'')
      else if rw_key r \<in> set (map rw_key (meter_raw_usage_events s)) then Inr s
      else if list_ex (\<lambda>x. rw_observation_id x = rw_observation_id r \<and> rw_dimension x = rw_dimension r \<and>
          rw_period_start x = rw_period_start r) (meter_raw_usage_events s)
      then Inl (DbError ''meter_raw_usage_events_observation_id_dimension_period_start_key'')
      else Inr (s\<lparr>meter_raw_usage_events := meter_raw_usage_events s @ [r]\<rparr>))"

definition projected_dimension :: "string \<Rightarrow> meter_dimension \<times> int" where
  "projected_dimension unit =
     (if unit = ''vcpu_nanosecond'' then (vcpu_seconds, nanosecondsPerSecond)
      else if unit = ''byte_nanosecond'' then (gib_seconds, bytesPerGibibyte * nanosecondsPerSecond)
      else (egress_bytes, 1))"

definition projected_row :: "(int \<Rightarrow> int \<Rightarrow> numeric13) \<Rightarrow> machine_identity \<Rightarrow> projection \<Rightarrow> usage_row" where
  "projected_row pgdiv identity p =
     \<lparr>u_key = ''raw:'' @ pj_eventKey p, u_organization_id = mi_organization_id identity,
      u_project_id = mi_project_id identity, u_machine_id = Some (mi_id identity),
      u_dimension = fst (projected_dimension (pj_unit p)),
      u_quantity = pgdiv (pj_quantity p) (snd (projected_dimension (pj_unit p))),
      u_period_start = pj_periodStart p, u_period_end = pj_periodEnd p, u_source = ''host''\<rparr>"

definition insert_usage :: "usage_row \<Rightarrow> fleet \<Rightarrow> error + fleet" where
  "insert_usage u s =
     (if u_quantity u < 0 \<or> u_period_end u < u_period_start u then Inl (DbError ''usage_events check constraint'')
      else if u_key u \<in> set (map u_key (usage_events s)) then Inr s
      else Inr (s\<lparr>usage_events := usage_events s @ [u]\<rparr>))"

definition appendProjection ::
    "(int \<Rightarrow> int \<Rightarrow> numeric13) \<Rightarrow> machine_identity \<Rightarrow> projection \<Rightarrow> fleet \<Rightarrow> error + fleet" where
  "appendProjection pgdiv identity p s =
     (if pj_quantity p = 0 then Inr s
      else case tenant_fks ''meter_raw_usage_events'' identity s of
          Some e \<Rightarrow> Inl e
        | None \<Rightarrow>
            (case insert_raw (raw_row identity p) s of
               Inl e \<Rightarrow> Inl e
             | Inr s1 \<Rightarrow> insert_usage (projected_row pgdiv identity p) s1))"

section \<open>The prefix billed before the host took over\<close>

definition cutover_boundary :: "machine_identity \<Rightarrow> time \<Rightarrow> time" where
  "cutover_boundary identity hostStart =
     (case coalesce (mi_usage_checkpoint_at identity) (mi_started_at identity) of
        None \<Rightarrow> hostStart
      | Some legacyStart \<Rightarrow> if legacyStart > hostStart then legacyStart else hostStart)"

definition cutover_interval :: "machine_identity \<Rightarrow> time \<Rightarrow> time \<Rightarrow> time \<Rightarrow> outbox_row" where
  "cutover_interval identity legacyStart boundary now =
     \<lparr>q_key = ''machine:'' @ mi_id identity @ '':meter-cutover:'' @ show_int (mi_lease_generation identity) @ '':'' @
        toISOString boundary,
      q_organization_id = mi_organization_id identity, q_project_id = mi_project_id identity,
      q_machine_id = mi_id identity, q_vcpus = mi_vcpus identity,
      q_memory_mb = bigint_div (mi_memory_bytes identity) 1048576, q_period_start = legacyStart,
      q_period_end = boundary, q_final = False, q_source = ''reconciler'', q_attempts = 0, q_last_error = None,
      q_processed_at = None, q_next_attempt_at = now, q_claim_token = None, q_claimed_until = None,
      q_created_at = now\<rparr>"

definition legacy_interval :: "machine_identity \<Rightarrow> time \<Rightarrow> time \<Rightarrow> fleet \<Rightarrow> error + fleet" where
  "legacy_interval identity boundary now s =
     (case coalesce (mi_usage_checkpoint_at identity) (mi_started_at identity) of
        None \<Rightarrow> Inr s
      | Some legacyStart \<Rightarrow>
          (if legacyStart < boundary
           then insert_outbox True (cutover_interval identity legacyStart boundary now) s else Inr s))"

definition cutover_row :: "time \<Rightarrow> machine_row \<Rightarrow> machine_row" where
  "cutover_row boundary m =
     m\<lparr>m_usage_checkpoint_at := Some (max (case m_usage_checkpoint_at m of None \<Rightarrow> boundary | Some t \<Rightarrow> t) boundary)\<rparr>"

definition leased_to :: "machine_identity \<Rightarrow> machine_row \<Rightarrow> bool" where
  "leased_to identity m \<longleftrightarrow> m_id m = mi_id identity \<and> m_lease_id m = mi_lease_id identity \<and>
     m_lease_generation m = mi_lease_generation identity"

definition closeLegacyPrefix :: "machine_identity \<Rightarrow> time \<Rightarrow> time \<Rightarrow> time tx" where
  "closeLegacyPrefix identity hostStart now s =
     (let boundary = cutover_boundary identity hostStart in
      case legacy_interval identity boundary now s of
        Inl e \<Rightarrow> Inl e
      | Inr s1 \<Rightarrow> map_sum id (Pair boundary) (update_machines (leased_to identity) (cutover_row boundary) s1))"

section \<open>One observation\<close>

text \<open>The anomaly of an observation, if it has one: the reason its meter is quarantined with.\<close>

definition sequence_anomaly :: "machine_identity \<Rightarrow> meter_row \<Rightarrow> observation_row \<Rightarrow> string option" where
  "sequence_anomaly identity state x =
     (if mm_quarantined_at state \<noteq> None then mm_quarantine_reason state
      else if mm_host_boot_id state \<noteq> ob_host_boot_id x then Some ''boot_id_changed''
      else if mm_loss_closed_at state \<noteq> None then Some ''observation_after_final''
      else if \<not> mm_start_seen state \<and> (ob_sequence x \<noteq> 1 \<or> ob_kind x \<noteq> ''start'' \<or> ob_runtime_ns x \<noteq> 0)
      then Some ''start_missing''
      else if mm_start_seen state \<and> ob_kind x = ''start'' then Some ''start_repeated''
      else if mm_final_seen state then Some ''observation_after_final''
      else if ob_runtime_ns x < mm_last_runtime_ns state \<or> ob_egress_bytes x < mm_last_egress_bytes state \<or>
        ob_egress_counter_epoch x \<noteq> mm_egress_counter_epoch state \<or>
        mm_start_seen state \<and>
        (case (mm_start_monotonic_ns state, mm_last_observed_monotonic_ns state) of
           (Some start, Some prior) \<Rightarrow>
             ob_observed_monotonic_ns x < prior \<or> ob_observed_monotonic_ns x - start \<noteq> ob_runtime_ns x
         | _ \<Rightarrow> True)
      then Some ''counter_reset''
      else observationIntegrityReason identity state (ob_kind x) (ob_quality x) (ob_runtime_ns x) (ob_egress_bytes x)
        (ob_egress_counter_epoch x) (ob_received_at x))"

definition clock_skewed :: "machine_identity \<Rightarrow> meter_row \<Rightarrow> observation_row \<Rightarrow> bool" where
  "clock_skewed identity state x \<longleftrightarrow>
     (if ob_observed_at x > ob_received_at x + maximumClockLeadMs \<or>
        ob_kind x = ''start'' \<and> ob_observed_at x < mi_created_at identity - maximumClockLeadMs
      then True
      else case mm_last_observed_at state of
          None \<Rightarrow> False
        | Some t \<Rightarrow>
            \<bar>ob_observed_at x - t - bigint_div (ob_runtime_ns x - mm_last_runtime_ns state) nanosecondsPerMillisecond\<bar>
              > maximumWallDivergenceMs)"

definition anomaly :: "machine_identity \<Rightarrow> meter_row \<Rightarrow> observation_row \<Rightarrow> string option" where
  "anomaly identity state x =
     (case sequence_anomaly identity state x of
        Some a \<Rightarrow> Some a
      | None \<Rightarrow> if clock_skewed identity state x then Some ''clock_skew'' else None)"

definition observation_key :: "machine_identity \<Rightarrow> uuid \<Rightarrow> int \<Rightarrow> string \<Rightarrow> string" where
  "observation_key identity boot sequence suffix =
     ''meter:'' @ mi_id identity @ '':'' @ show_int (mi_lease_generation identity) @ '':'' @ boot @ '':'' @
     show_int sequence @ '':'' @ suffix"

definition meter_exception :: "machine_identity \<Rightarrow> string \<Rightarrow> uuid \<Rightarrow> int \<Rightarrow> string \<Rightarrow> exception_row" where
  "meter_exception identity key boot sequence reason =
     \<lparr>me_key = key, me_host_id = Some (mi_host_id identity), me_machine_id = mi_id identity,
      me_lease_id = mi_lease_id identity, me_lease_generation = mi_lease_generation identity,
      me_host_boot_id = Some boot, me_sequence = Some sequence, me_reason = reason\<rparr>"

text \<open>\<open>UPDATE machine_meter_state ... WHERE machine_id = $1 AND last_sequence = $n\<close>.\<close>

definition advance_meter :: "machine_identity \<Rightarrow> meter_row \<Rightarrow> (meter_row \<Rightarrow> meter_row) \<Rightarrow> fleet \<Rightarrow> error + fleet" where
  "advance_meter identity state f =
     update_meters (\<lambda>x. mm_machine_id x = mi_id identity \<and> mm_last_sequence x = mm_last_sequence state) f"

definition process_anomaly ::
    "machine_identity \<Rightarrow> meter_row \<Rightarrow> observation_row \<Rightarrow> string \<Rightarrow> time \<Rightarrow> fleet \<Rightarrow> error + fleet" where
  "process_anomaly identity state x a now s =
     advance_meter identity state (\<lambda>m. m\<lparr>mm_last_sequence := ob_sequence x, mm_last_received_at := Some (ob_received_at x)\<rparr>)
       (setQuarantined (mi_id identity) a now
         (exception (meter_exception identity (observation_key identity (ob_host_boot_id x) (ob_sequence x) a)
            (ob_host_boot_id x) (ob_sequence x) a) s))"

definition process_start ::
    "machine_identity \<Rightarrow> meter_row \<Rightarrow> observation_row \<Rightarrow> time \<Rightarrow> fleet \<Rightarrow> error + fleet" where
  "process_start identity state x now s =
     (case closeLegacyPrefix identity (ob_observed_at x) now s of
        Inl e \<Rightarrow> Inl e
      | Inr (boundary, s1) \<Rightarrow>
          advance_meter identity state (\<lambda>m. m\<lparr>mm_last_sequence := ob_sequence x, mm_start_seen := True,
            mm_last_runtime_ns := ob_runtime_ns x,
            mm_projected_runtime_ns := max 0 (boundary - ob_observed_at x) * nanosecondsPerMillisecond,
            mm_last_egress_bytes := ob_egress_bytes x, mm_egress_counter_epoch := ob_egress_counter_epoch x,
            mm_start_monotonic_ns := Some (ob_observed_monotonic_ns x),
            mm_last_observed_monotonic_ns := Some (ob_observed_monotonic_ns x),
            mm_last_observed_at := Some (ob_observed_at x), mm_last_period_end := Some boundary,
            mm_last_received_at := Some (ob_received_at x), mm_final_seen := False\<rparr>) s1)"

definition segment_projections :: "machine_identity \<Rightarrow> observation_row \<Rightarrow> usage_segment \<Rightarrow> projection list" where
  "segment_projections identity x segment =
     (let prefix = ''meter:'' @ show_nat (ob_id x) @ '':'' @ show_nat (sg_index segment) in
      [\<lparr>pj_eventKey = prefix @ '':compute'', pj_observationId = ob_id x, pj_dimension = ''compute'',
        pj_unit = ''vcpu_nanosecond'', pj_quantity = sg_runtimeNs segment * mi_vcpus identity,
        pj_periodStart = sg_start segment, pj_periodEnd = sg_end segment\<rparr>,
       \<lparr>pj_eventKey = prefix @ '':memory'', pj_observationId = ob_id x, pj_dimension = ''memory'',
        pj_unit = ''byte_nanosecond'', pj_quantity = sg_runtimeNs segment * mi_memory_bytes identity,
        pj_periodStart = sg_start segment, pj_periodEnd = sg_end segment\<rparr>])"

definition egress_projection :: "observation_row \<Rightarrow> int \<Rightarrow> time \<Rightarrow> usage_segment list \<Rightarrow> projection list" where
  "egress_projection x egressDelta periodStart segments =
     (if egressDelta > 0 then
        [\<lparr>pj_eventKey = ''meter:'' @ show_nat (ob_id x) @ '':egress'', pj_observationId = ob_id x,
          pj_dimension = ''egress'', pj_unit = ''byte'', pj_quantity = egressDelta, pj_periodStart = periodStart,
          pj_periodEnd = (if segments = [] then periodStart else sg_end (last segments))\<rparr>]
      else [])"

definition projections :: "machine_identity \<Rightarrow> meter_row \<Rightarrow> observation_row \<Rightarrow> time \<Rightarrow> usage_segment list \<Rightarrow> projection list" where
  "projections identity state x periodStart segments =
     concat (map (segment_projections identity x) segments) @
     egress_projection x (ob_egress_bytes x - mm_last_egress_bytes state) periodStart segments"

definition runtime_delta :: "meter_row \<Rightarrow> observation_row \<Rightarrow> int" where
  "runtime_delta state x =
     (if ob_runtime_ns x > mm_projected_runtime_ns state then ob_runtime_ns x - mm_projected_runtime_ns state else 0)"

definition finalized_row :: "time \<Rightarrow> time \<Rightarrow> machine_row \<Rightarrow> machine_row" where
  "finalized_row periodEnd now m =
     m\<lparr>m_usage_checkpoint_at := Some periodEnd, m_usage_finalized_at := coalesce (m_usage_finalized_at m) (Some now)\<rparr>"

definition close_meter :: "machine_identity \<Rightarrow> observation_row \<Rightarrow> time \<Rightarrow> time \<Rightarrow> observation_outcome tx" where
  "close_meter identity x periodEnd now s =
     (if ob_kind x \<noteq> ''final'' then Inr (OAccepted, s)
      else case update_machines (leased_to identity) (finalized_row periodEnd now) s of
          Inl e \<Rightarrow> Inl e
        | Inr s1 \<Rightarrow>
            (if ob_quality x = ''last_defensible''
             then Inr (OQuarantined, setQuarantined (mi_id identity) ''degraded_terminal'' now
               (exception (meter_exception identity (observation_key identity (ob_host_boot_id x) (ob_sequence x)
                  (''degraded_terminal:'' @ ob_quality_reason x)) (ob_host_boot_id x) (ob_sequence x)
                  ''degraded_terminal'') s1))
             else Inr (OAccepted, s1)))"

definition process_usage ::
    "(int \<Rightarrow> int \<Rightarrow> numeric13) \<Rightarrow> machine_identity \<Rightarrow> meter_row \<Rightarrow> observation_row \<Rightarrow> time \<Rightarrow> observation_outcome tx" where
  "process_usage pgdiv identity state x now s =
     (let delta = runtime_delta state x in
      case coalesce (mm_last_period_end state) (mm_last_observed_at state) of
        None \<Rightarrow> Inl (PlainError ''accepted meter state is missing its period boundary'')
      | Some periodStart \<Rightarrow>
     (case splitRuntimeAtUtcMidnight periodStart delta of
        Inl e \<Rightarrow> Inl e
      | Inr segments \<Rightarrow>
     (case run_each (appendProjection pgdiv identity) (projections identity state x periodStart segments) s of
        Inl e \<Rightarrow> Inl e
      | Inr s1 \<Rightarrow>
     (let periodEnd = timestampFromNanoseconds (periodStart * nanosecondsPerMillisecond + delta) in
      case advance_meter identity state (\<lambda>m. m\<lparr>mm_last_sequence := ob_sequence x, mm_last_runtime_ns := ob_runtime_ns x,
            mm_projected_runtime_ns := max (ob_runtime_ns x) (mm_projected_runtime_ns state),
            mm_last_egress_bytes := ob_egress_bytes x,
            mm_last_observed_monotonic_ns := Some (ob_observed_monotonic_ns x),
            mm_last_observed_at := Some (ob_observed_at x), mm_last_period_end := Some periodEnd,
            mm_last_received_at := Some (ob_received_at x), mm_final_seen := (ob_kind x = ''final'')\<rparr>) s1 of
        Inl e \<Rightarrow> Inl e
      | Inr s2 \<Rightarrow> close_meter identity x periodEnd now s2))))"

definition processObservation ::
    "(int \<Rightarrow> int \<Rightarrow> numeric13) \<Rightarrow> machine_identity \<Rightarrow> meter_row \<Rightarrow> observation_row \<Rightarrow> time \<Rightarrow> observation_outcome tx" where
  "processObservation pgdiv identity state x now s =
     (case anomaly identity state x of
        Some a \<Rightarrow> map_sum id (Pair OQuarantined) (process_anomaly identity state x a now s)
      | None \<Rightarrow>
          (if ob_kind x = ''start'' then map_sum id (Pair OAccepted) (process_start identity state x now s)
           else process_usage pgdiv identity state x now s))"

section \<open>Draining a machine's observations\<close>

lemma update_meters_Inr: "update_meters P f s = Inr s' \<Longrightarrow> s' = s\<lparr>machine_meter_state := sql_update P f (machine_meter_state s)\<rparr>"
  by (auto simp: update_meters_def split: sum.splits dest!: store_rows_checked)

lemma exception_meter_frame [simp, frame]:
  "machine_meter_state (exception x s) = machine_meter_state s" "host_usage_observations (exception x s) = host_usage_observations s"
  "meter_raw_usage_events (exception x s) = meter_raw_usage_events s" "machines (exception x s) = machines s"
  "hosts (exception x s) = hosts s" "fork_ops (exception x s) = fork_ops s" "extend_ops (exception x s) = extend_ops s"
  by (simp_all add: exception_def)

lemma meter_of_update:
  assumes "update_meters P f s = Inr s'" and "\<And>x. mm_machine_id (f x) = mm_machine_id x"
  shows "meter_of s' i = map_option (\<lambda>x. if P x then f x else x) (meter_of s i)"
  using assms by (auto simp: meter_of_def find_sql_update dest!: update_meters_Inr)

lemma meter_of_setQuarantined:
  "meter_of (setQuarantined i reason now s) j =
     map_option (\<lambda>x. if mm_machine_id x = i then x\<lparr>mm_quarantined_at := coalesce (mm_quarantined_at x) (Some now),
       mm_quarantine_reason := coalesce (mm_quarantine_reason x) (Some reason)\<rparr> else x) (meter_of s j)"
  by (simp add: meter_of_def setQuarantined_def find_sql_update)

lemma setQuarantined_frame [simp, frame]:
  "host_usage_observations (setQuarantined i r t s) = host_usage_observations s"
  "meter_raw_usage_events (setQuarantined i r t s) = meter_raw_usage_events s" "machines (setQuarantined i r t s) = machines s"
  "hosts (setQuarantined i r t s) = hosts s" "fork_ops (setQuarantined i r t s) = fork_ops s"
  "extend_ops (setQuarantined i r t s) = extend_ops s"
  by (simp_all add: setQuarantined_def)

lemma meter_of_exception [simp]: "meter_of (exception x s) i = meter_of s i"
  by (simp add: meter_of_def)

lemma meter_ofD: "meter_of s i = Some x \<Longrightarrow> x \<in> set (machine_meter_state s) \<and> mm_machine_id x = i"
  by (auto simp: meter_of_def dest: find_SomeD)

lemma advance_meter_at:
  assumes "advance_meter identity state f s = Inr s'" and "\<And>x. mm_machine_id (f x) = mm_machine_id x"
    and "meter_of s (mi_id identity) = Some x" and "mm_last_sequence x = mm_last_sequence state"
  shows "meter_of s' (mi_id identity) = Some (f x)"
  using meter_of_update [OF assms(1) [unfolded advance_meter_def] assms(2)] assms(3,4) meter_ofD [OF assms(3)] by simp

text \<open>What a statement for machine \<open>i\<close> leaves alone, other meters and the leases of machines among it.\<close>

definition lease_of :: "machine_row \<Rightarrow> string \<times> resources \<times> uuid option \<times> string option \<times> uuid \<times> int" where
  "lease_of m = (m_id m, m_resources m, m_host_id m, m_host_machine_id m, m_lease_id m, m_lease_generation m)"

abbreviation leases :: "fleet \<Rightarrow> (string \<times> resources \<times> uuid option \<times> string option \<times> uuid \<times> int) list" where
  "leases s \<equiv> map lease_of (machines s)"

definition meter_frame :: "string \<Rightarrow> fleet \<Rightarrow> fleet \<Rightarrow> bool" where
  "meter_frame i s s' \<longleftrightarrow> host_usage_observations s' = host_usage_observations s \<and> hosts s' = hosts s \<and>
     host_sound s s' \<and> leases s' = leases s \<and> (\<forall>j. j \<noteq> i \<longrightarrow> meter_of s' j = meter_of s j)"

lemma meter_frame_refl [simp]: "meter_frame i s s"
  by (simp add: meter_frame_def)

lemma meter_frame_trans: "meter_frame i s t \<Longrightarrow> meter_frame i t u \<Longrightarrow> meter_frame i s u"
  by (auto simp: meter_frame_def intro: host_sound_trans)

lemma meter_frame_other:
  "host_usage_observations s' = host_usage_observations s \<Longrightarrow> machines s' = machines s \<Longrightarrow> hosts s' = hosts s \<Longrightarrow>
    fork_ops s' = fork_ops s \<Longrightarrow> extend_ops s' = extend_ops s \<Longrightarrow>
    (\<And>j. j \<noteq> i \<Longrightarrow> meter_of s' j = meter_of s j) \<Longrightarrow> meter_frame i s s'"
  by (simp add: meter_frame_def host_sound_other)

lemma meter_frame_quarantine [simp]: "meter_frame i s (setQuarantined i a now s)" "meter_frame i s (exception e s)"
proof -
  have "meter_of (setQuarantined i a now s) j = meter_of s j" if "j \<noteq> i" for j
    using that meter_ofD [of s j] by (cases "meter_of s j") (auto simp: meter_of_setQuarantined)
  then show "meter_frame i s (setQuarantined i a now s)" by (simp add: meter_frame_other)
qed (simp add: meter_frame_other)

definition quarantine_ok :: "meter_row \<Rightarrow> bool" where
  "quarantine_ok x \<longleftrightarrow> (mm_quarantined_at x \<noteq> None \<longrightarrow> mm_quarantine_reason x \<noteq> None)"

lemma coalesce_Some [simp]: "coalesce a (Some b) \<noteq> None"
  by (simp add: coalesce_def split: option.splits)

text \<open>An append writes at most one raw row, and nothing the meter or the machine rests on.\<close>

lemma appendProjection_Inr:
  assumes "appendProjection pgdiv identity p s = Inr s'"
  obtains us where "s' = s\<lparr>usage_events := us\<rparr>" and "pj_quantity p = 0 \<or> pj_eventKey p \<in> set (map rw_key (meter_raw_usage_events s))"
    | us where "s' = s\<lparr>meter_raw_usage_events := meter_raw_usage_events s @ [raw_row identity p], usage_events := us\<rparr>"
      and "pj_quantity p \<noteq> 0" and "0 \<le> pj_quantity p" and "pj_eventKey p \<notin> set (map rw_key (meter_raw_usage_events s))"
proof (cases "pj_quantity p = 0")
  case True
  with assms have "s' = s\<lparr>usage_events := usage_events s\<rparr>" by (simp add: appendProjection_def)
  with True that(1) show thesis by blast
next
  case False
  with assms obtain s1 where raw: "insert_raw (raw_row identity p) s = Inr s1"
      and us: "insert_usage (projected_row pgdiv identity p) s1 = Inr s'"
    by (auto simp: appendProjection_def split: option.splits sum.splits)
  from us have "s' = s1\<lparr>usage_events := usage_events s1\<rparr> \<or> s' = s1\<lparr>usage_events := usage_events s1 @ [projected_row pgdiv identity p]\<rparr>"
    by (auto simp: insert_usage_def split: if_splits)
  then obtain us where s': "s' = s1\<lparr>usage_events := us\<rparr>" by blast
  from raw show thesis
  proof (cases "pj_eventKey p \<in> set (map rw_key (meter_raw_usage_events s))")
    case True
    with raw have "s1 = s" by (auto simp: insert_raw_def raw_row_def split: if_splits)
    with True s' that(1) show thesis by blast
  next
    case new: False
    with raw have "s1 = s\<lparr>meter_raw_usage_events := meter_raw_usage_events s @ [raw_row identity p]\<rparr>" "0 \<le> pj_quantity p"
      by (auto simp: insert_raw_def raw_row_def split: if_splits)
    then show thesis by (intro that(2) [of us]) (use new False s' in \<open>simp_all only: simp_thms\<close>)
  qed
qed


lemma advance_meter_frame:
  assumes "advance_meter identity state f s = Inr s'"
    and "\<And>x. mm_machine_id (f x) = mm_machine_id x"
  shows "meter_frame (mi_id identity) s s'" "machines s' = machines s" "meter_raw_usage_events s' = meter_raw_usage_events s"
proof -
  note up = assms(1) [unfolded advance_meter_def]
  have "meter_of s' j = meter_of s j" if "j \<noteq> mi_id identity" for j
    using meter_of_update [OF up assms(2)] that meter_ofD [of s j] by (cases "meter_of s j") auto
  with update_meters_Inr [OF up] show "meter_frame (mi_id identity) s s'" "machines s' = machines s"
    "meter_raw_usage_events s' = meter_raw_usage_events s" by (auto intro: meter_frame_other)
qed

text \<open>A statement that only writes a machine's usage columns.\<close>

definition usage_only :: "(machine_row \<Rightarrow> machine_row) \<Rightarrow> bool" where
  "usage_only f \<longleftrightarrow> (\<forall>m. same_core m (f m) \<and> m_state (f m) = m_state m \<and> row_le m (f m) \<and> lease_of (f m) = lease_of m)"

lemma update_machines_frame:
  assumes "update_machines P f s = Inr s'" and f: "usage_only f"
  shows "meter_frame i s s'" "machine_meter_state s' = machine_meter_state s"
    "meter_raw_usage_events s' = meter_raw_usage_events s"
proof -
  from assms(1) obtain g where s': "s' = s\<lparr>machines := sql_update P g (machines s)\<rparr>"
      and g: "\<And>m. m \<in> set (machines s) \<Longrightarrow> P m \<Longrightarrow> stored_as (f m) (g m)" by (rule update_machines_Inr) blast
  have "lease_of (g m) = lease_of m" if "m \<in> set (machines s)" "P m" for m
  proof -
    from g [OF that] have "g m = (f m)\<lparr>m_runtime_cohort_id := m_runtime_cohort_id (g m), m_source_sha256 := m_source_sha256 (g m)\<rparr>"
      by (simp add: stored_as_def)
    then obtain c d where "g m = (f m)\<lparr>m_runtime_cohort_id := c, m_source_sha256 := d\<rparr>" by blast
    then have "lease_of (g m) = lease_of (f m)" by (simp add: lease_of_def)
    with f show ?thesis by (simp add: usage_only_def)
  qed
  then have "leases s' = leases s" by (simp add: s' sql_update_def)
  moreover have "host_sound s s'" unfolding host_sound_def
  proof (intro conjI impI)
    show "fleet_le s s'" by (rule le_update_machines [OF assms(1)]) (use f in \<open>simp add: usage_only_def\<close>)
    show "hosts_le s s'" by (simp add: s' hosts_le_def covers_refl)
    assume "fleet_inv s"
    then have "fleet_inv s' \<and> fleet_le s s'" by (rule inv_note [OF _ assms(1)]) (use f in \<open>simp add: usage_only_def\<close>)
    then show "fleet_inv s'" ..
  qed
  ultimately show "meter_frame i s s'" by (simp add: s' meter_frame_def meter_of_def)
qed (use assms(1) in \<open>auto elim!: update_machines_Inr\<close>)

lemma usage_only_rows [simp]: "usage_only (cutover_row t)" "usage_only (finalized_row t u)"
  by (simp_all add: usage_only_def cutover_row_def finalized_row_def same_core_def row_le_defs lease_of_def)

lemma appendProjection_frame:
  assumes "appendProjection pgdiv identity p s = Inr s'"
  shows "meter_frame i s s'" "machines s' = machines s" "machine_meter_state s' = machine_meter_state s"
  using assms by (auto simp: meter_of_def elim!: appendProjection_Inr intro!: meter_frame_other)

lemma appendAll_frame:
  assumes "run_each (appendProjection pgdiv identity) ps s = Inr s'"
  shows "meter_frame i s s' \<and> machines s' = machines s \<and> machine_meter_state s' = machine_meter_state s"
  using assms
proof (induction ps arbitrary: s)
  case (Cons p ps)
  from Cons.prems obtain t where t: "appendProjection pgdiv identity p s = Inr t"
      "run_each (appendProjection pgdiv identity) ps t = Inr s'" by (auto split: sum.splits)
  from appendProjection_frame [OF t(1)] Cons.IH [OF t(2)] show ?case by (auto intro: meter_frame_trans)
qed simp

lemma insert_outbox_frame:
  "insert_outbox ignore q s = Inr s' \<Longrightarrow> meter_frame i s s' \<and> machines s' = machines s \<and>
     machine_meter_state s' = machine_meter_state s \<and> meter_raw_usage_events s' = meter_raw_usage_events s"
  by (auto simp: insert_outbox_def meter_of_def split: if_splits intro!: meter_frame_other)

lemma legacy_interval_frame:
  "legacy_interval identity boundary now s = Inr s' \<Longrightarrow> meter_frame i s s' \<and> machines s' = machines s \<and>
     machine_meter_state s' = machine_meter_state s \<and> meter_raw_usage_events s' = meter_raw_usage_events s"
  by (auto simp: legacy_interval_def split: option.splits if_splits dest!: insert_outbox_frame)

lemma closeLegacyPrefix_Inr:
  assumes "closeLegacyPrefix identity hostStart now s = Inr (boundary, s')"
  obtains s1 where "boundary = cutover_boundary identity hostStart" and "legacy_interval identity boundary now s = Inr s1"
    and "update_machines (leased_to identity) (cutover_row boundary) s1 = Inr s'"
  using assms by (auto simp: closeLegacyPrefix_def Let_def split: sum.splits)

lemma closeLegacyPrefix_frame:
  assumes "closeLegacyPrefix identity hostStart now s = Inr (boundary, s')"
  shows "meter_frame i s s'" "machine_meter_state s' = machine_meter_state s"
    "meter_raw_usage_events s' = meter_raw_usage_events s"
proof -
  from assms obtain s1 where a: "legacy_interval identity boundary now s = Inr s1"
      and b: "update_machines (leased_to identity) (cutover_row boundary) s1 = Inr s'" by (rule closeLegacyPrefix_Inr)
  from legacy_interval_frame [OF a, of i] update_machines_frame [OF b]
  show "meter_frame i s s'" "machine_meter_state s' = machine_meter_state s"
    "meter_raw_usage_events s' = meter_raw_usage_events s" by (auto intro: meter_frame_trans)
qed

text \<open>The three ways an observation is processed, and where each leaves the meter.\<close>

lemma process_anomaly_Inr:
  assumes "process_anomaly identity state x a now s = Inr s'" and "meter_of s (mi_id identity) = Some state"
  obtains q r where "meter_of s' (mi_id identity) = Some (state\<lparr>mm_last_sequence := ob_sequence x,
      mm_last_received_at := Some (ob_received_at x), mm_quarantined_at := Some q, mm_quarantine_reason := Some r\<rparr>)"
    and "meter_frame (mi_id identity) s s'" and "machines s' = machines s"
    and "meter_raw_usage_events s' = meter_raw_usage_events s"
proof -
  note adv = assms(1) [unfolded process_anomaly_def]
  obtain q r where q: "coalesce (mm_quarantined_at state) (Some now) = Some q"
      "coalesce (mm_quarantine_reason state) (Some a) = Some r" by (metis coalesce_Some not_None_eq)
  have "meter_of (setQuarantined (mi_id identity) a now (exception e s)) (mi_id identity) =
      Some (state\<lparr>mm_quarantined_at := Some q, mm_quarantine_reason := Some r\<rparr>)" for e
    using meter_ofD [OF assms(2)] by (simp add: meter_of_setQuarantined assms(2) q)
  note at = advance_meter_at [OF adv _ this]
  have "meter_frame (mi_id identity) s (setQuarantined (mi_id identity) a now (exception e s))" for e
    by (rule meter_frame_trans [OF meter_frame_quarantine(2) meter_frame_quarantine(1)])
  with advance_meter_frame [OF adv] at show thesis
    by (intro that [where q = q and r = r]) (auto intro: meter_frame_trans)
qed

lemma process_start_Inr:
  assumes "process_start identity state x now s = Inr s'" and "meter_of s (mi_id identity) = Some state"
  obtains state' where "meter_of s' (mi_id identity) = Some state'" and "mm_last_sequence state' = ob_sequence x"
    and "mm_start_seen state'" and "mm_host_boot_id state' = mm_host_boot_id state"
    and "mm_projected_runtime_ns state' =
      max 0 (cutover_boundary identity (ob_observed_at x) - ob_observed_at x) * nanosecondsPerMillisecond"
    and "quarantine_ok state' = quarantine_ok state" and "mm_quarantined_at state' = mm_quarantined_at state"
    and "meter_frame (mi_id identity) s s'" and "meter_raw_usage_events s' = meter_raw_usage_events s"
proof -
  let ?f = "\<lambda>b m. m\<lparr>mm_last_sequence := ob_sequence x, mm_start_seen := True,
            mm_last_runtime_ns := ob_runtime_ns x,
            mm_projected_runtime_ns := max 0 (b - ob_observed_at x) * nanosecondsPerMillisecond,
            mm_last_egress_bytes := ob_egress_bytes x, mm_egress_counter_epoch := ob_egress_counter_epoch x,
            mm_start_monotonic_ns := Some (ob_observed_monotonic_ns x),
            mm_last_observed_monotonic_ns := Some (ob_observed_monotonic_ns x),
            mm_last_observed_at := Some (ob_observed_at x), mm_last_period_end := Some b,
            mm_last_received_at := Some (ob_received_at x), mm_final_seen := False\<rparr>"
  from assms(1) obtain b s1 where c: "closeLegacyPrefix identity (ob_observed_at x) now s = Inr (b, s1)"
      and adv: "advance_meter identity state (?f b) s1 = Inr s'"
    by (auto simp: process_start_def split: sum.splits)
  from c have b: "b = cutover_boundary identity (ob_observed_at x)" by (auto elim: closeLegacyPrefix_Inr)
  note C = closeLegacyPrefix_frame [OF c]
  have A: "meter_frame (mi_id identity) s1 s'" "meter_raw_usage_events s' = meter_raw_usage_events s1"
    by (rule advance_meter_frame [OF adv], simp)+
  have "meter_of s1 (mi_id identity) = Some state" using assms(2) C(2) by (simp add: meter_of_def)
  from advance_meter_at [OF adv _ this refl] have "meter_of s' (mi_id identity) = Some (?f b state)" by simp
  then show thesis
    by (rule that) (use C(3) A meter_frame_trans [OF C(1) A(1)] in \<open>simp_all add: b quarantine_ok_def\<close>)
qed

lemma close_meter_Inr:
  assumes "close_meter identity x periodEnd now s = Inr (outcome, s')" and "meter_of s (mi_id identity) = Some state"
  obtains q r where "meter_of s' (mi_id identity) = Some (state\<lparr>mm_quarantined_at := q, mm_quarantine_reason := r\<rparr>)"
    and "outcome = OQuarantined \<and> q \<noteq> None \<and> r \<noteq> None \<or>
      outcome = OAccepted \<and> q = mm_quarantined_at state \<and> r = mm_quarantine_reason state"
    and "meter_frame (mi_id identity) s s'" and "meter_raw_usage_events s' = meter_raw_usage_events s"
proof (cases "ob_kind x = ''final''")
  case False
  with assms have "outcome = OAccepted" "s' = s" by (simp_all add: close_meter_def)
  with assms(2) show thesis
    by (intro that [where q = "mm_quarantined_at state" and r = "mm_quarantine_reason state"]) simp_all
next
  case True
  with assms(1) obtain s1 where up: "update_machines (leased_to identity) (finalized_row periodEnd now) s = Inr s1"
    by (auto simp: close_meter_def split: sum.splits)
  have U: "meter_frame (mi_id identity) s s1" "machine_meter_state s1 = machine_meter_state s"
    "meter_raw_usage_events s1 = meter_raw_usage_events s" by (rule update_machines_frame [OF up], simp)+
  have m: "meter_of s1 (mi_id identity) = Some state" using assms(2) U(2) by (simp add: meter_of_def)
  show thesis
  proof (cases "ob_quality x = ''last_defensible''")
    case True
    with assms(1) \<open>ob_kind x = ''final''\<close> up obtain e where o: "outcome = OQuarantined"
        "s' = setQuarantined (mi_id identity) ''degraded_terminal'' now (exception e s1)"
      by (auto simp: close_meter_def)
    have "meter_frame (mi_id identity) s s'" unfolding o(2)
      by (rule meter_frame_trans [OF U(1) meter_frame_trans [OF meter_frame_quarantine(2) meter_frame_quarantine(1)]])
    with o U m meter_ofD [OF m] show thesis
      by (intro that [where q = "coalesce (mm_quarantined_at state) (Some now)"
            and r = "coalesce (mm_quarantine_reason state) (Some ''degraded_terminal'')"])
        (simp_all add: meter_of_setQuarantined)
  next
    case False
    with assms(1) \<open>ob_kind x = ''final''\<close> up have "outcome = OAccepted" "s' = s1" by (simp_all add: close_meter_def)
    with U m show thesis
      by (intro that [where q = "mm_quarantined_at state" and r = "mm_quarantine_reason state"]) simp_all
  qed
qed

lemma process_usage_Inr:
  assumes "process_usage pgdiv identity state x now s = Inr (outcome, s')" and "meter_of s (mi_id identity) = Some state"
  obtains state' periodStart segments s1 where "meter_of s' (mi_id identity) = Some state'"
    and "mm_last_sequence state' = ob_sequence x" and "mm_host_boot_id state' = mm_host_boot_id state"
    and "mm_projected_runtime_ns state' = max (ob_runtime_ns x) (mm_projected_runtime_ns state)"
    and "mm_last_egress_bytes state' = ob_egress_bytes x" and "mm_start_seen state' = mm_start_seen state"
    and "quarantine_ok state \<longrightarrow> quarantine_ok state'"
    and "outcome = OQuarantined \<or> outcome = OAccepted"
    and "splitRuntimeAtUtcMidnight periodStart (runtime_delta state x) = Inr segments"
    and "run_each (appendProjection pgdiv identity) (projections identity state x periodStart segments) s = Inr s1"
    and "meter_raw_usage_events s' = meter_raw_usage_events s1" and "meter_frame (mi_id identity) s s'"
proof -
  let ?d = "runtime_delta state x"
  from assms(1) obtain periodStart where p: "coalesce (mm_last_period_end state) (mm_last_observed_at state) = Some periodStart"
    by (auto simp: process_usage_def Let_def split: option.splits)
  with assms(1) obtain segments where seg: "splitRuntimeAtUtcMidnight periodStart ?d = Inr segments"
    by (auto simp: process_usage_def Let_def split: sum.splits)
  with assms(1) p obtain s1 where run: "run_each (appendProjection pgdiv identity)
      (projections identity state x periodStart segments) s = Inr s1"
    by (auto simp: process_usage_def Let_def split: sum.splits)
  let ?stop = "timestampFromNanoseconds (periodStart * nanosecondsPerMillisecond + ?d)"
  let ?f = "\<lambda>m. m\<lparr>mm_last_sequence := ob_sequence x, mm_last_runtime_ns := ob_runtime_ns x,
            mm_projected_runtime_ns := max (ob_runtime_ns x) (mm_projected_runtime_ns state),
            mm_last_egress_bytes := ob_egress_bytes x,
            mm_last_observed_monotonic_ns := Some (ob_observed_monotonic_ns x),
            mm_last_observed_at := Some (ob_observed_at x), mm_last_period_end := Some ?stop,
            mm_last_received_at := Some (ob_received_at x), mm_final_seen := (ob_kind x = ''final'')\<rparr>"
  from assms(1) p seg run obtain s2 where adv: "advance_meter identity state ?f s1 = Inr s2"
      and fin: "close_meter identity x ?stop now s2 = Inr (outcome, s')"
    by (auto simp: process_usage_def Let_def split: sum.splits)
  note R = appendAll_frame [OF run, of "mi_id identity"]
  have A: "meter_frame (mi_id identity) s1 s2" "meter_raw_usage_events s2 = meter_raw_usage_events s1"
    by (rule advance_meter_frame [OF adv], simp)+
  have "meter_of s1 (mi_id identity) = Some state" using assms(2) R by (simp add: meter_of_def)
  from advance_meter_at [OF adv _ this refl] have m: "meter_of s2 (mi_id identity) = Some (?f state)" by simp
  from close_meter_Inr [OF fin m] obtain q r where
      C: "meter_of s' (mi_id identity) = Some ((?f state)\<lparr>mm_quarantined_at := q, mm_quarantine_reason := r\<rparr>)"
        "outcome = OQuarantined \<and> q \<noteq> None \<and> r \<noteq> None \<or>
         outcome = OAccepted \<and> q = mm_quarantined_at (?f state) \<and> r = mm_quarantine_reason (?f state)"
        "meter_frame (mi_id identity) s2 s'" "meter_raw_usage_events s' = meter_raw_usage_events s2" by metis
  have "meter_frame (mi_id identity) s s'" using R A(1) C(3) meter_frame_trans by blast
  from C(1) show thesis
    by (rule that [OF _ _ _ _ _ _ _ _ seg run]) (use A(2) C(2,4) \<open>meter_frame (mi_id identity) s s'\<close> in \<open>auto simp: quarantine_ok_def\<close>)
qed

lemma processObservation_advances:
  assumes "processObservation pgdiv identity state x now s = Inr (outcome, s')"
    and "meter_of s (mi_id identity) = Some state"
  obtains state' where "meter_of s' (mi_id identity) = Some state'" and "mm_last_sequence state' = ob_sequence x"
    and "mm_host_boot_id state' = mm_host_boot_id state" and "meter_frame (mi_id identity) s s'"
proof (cases "anomaly identity state x")
  case (Some a)
  with assms(1) have "process_anomaly identity state x a now s = Inr s'" by (auto simp: processObservation_def)
  from this assms(2) show thesis by (rule process_anomaly_Inr) (rule that, assumption, simp_all)
next
  case None
  show thesis
  proof (cases "ob_kind x = ''start''")
    case True
    with None assms(1) have "process_start identity state x now s = Inr s'" by (auto simp: processObservation_def)
    from this assms(2) show thesis by (rule process_start_Inr) (rule that)
  next
    case False
    with None assms(1) have "process_usage pgdiv identity state x now s = Inr (outcome, s')" by (simp add: processObservation_def)
    from this assms(2) show thesis by (rule process_usage_Inr) (rule that)
  qed
qed

definition next_observation :: "machine_identity \<Rightarrow> meter_row \<Rightarrow> fleet \<Rightarrow> observation_row option" where
  "next_observation identity state s =
     find (\<lambda>x. ob_machine_id x = mi_id identity \<and> ob_lease_generation x = mi_lease_generation identity \<and>
       ob_host_boot_id x = mm_host_boot_id state \<and> ob_sequence x = mm_last_sequence state + 1)
       (host_usage_observations s)"

text \<open>The observations of a machine its meter has not passed.\<close>

definition backlog_of :: "string \<Rightarrow> fleet \<Rightarrow> nat" where
  "backlog_of i s =
     (case meter_of s i of
        None \<Rightarrow> 0
      | Some state \<Rightarrow> length (filter (\<lambda>x. ob_machine_id x = i \<and> mm_last_sequence state < ob_sequence x)
          (host_usage_observations s)))"

lemma filter_shrinks:
  assumes "x \<in> set xs" and "P x" and "\<not> Q x" and "\<And>y. Q y \<Longrightarrow> P y"
  shows "length (filter Q xs) < length (filter P xs)"
  using assms(1)
proof (induction xs)
  case (Cons y ys)
  have "length (filter Q ys) \<le> length (filter P ys)" by (induction ys) (use assms(4) in auto)
  with Cons assms(2-4) show ?case by auto
qed simp

lemma backlog_shrinks:
  assumes "meter_of s (mi_id identity) = Some state" and "next_observation identity state s = Some x"
    and "processObservation pgdiv identity state x now s = Inr (outcome, s')"
  shows "backlog_of (mi_id identity) s' < backlog_of (mi_id identity) s"
proof -
  from assms(3,1) obtain state' where s': "meter_of s' (mi_id identity) = Some state'" "mm_last_sequence state' = ob_sequence x"
      "meter_frame (mi_id identity) s s'" by (rule processObservation_advances)
  from assms(2) have x: "x \<in> set (host_usage_observations s)" "ob_machine_id x = mi_id identity"
      "ob_sequence x = mm_last_sequence state + 1" by (auto simp: next_observation_def dest: find_SomeD)
  have "length (filter (\<lambda>y. ob_machine_id y = mi_id identity \<and> ob_sequence x < ob_sequence y) (host_usage_observations s)) <
      length (filter (\<lambda>y. ob_machine_id y = mi_id identity \<and> mm_last_sequence state < ob_sequence y) (host_usage_observations s))"
    by (rule filter_shrinks [OF x(1)]) (use x in auto)
  with s' assms(1) show ?thesis by (simp add: backlog_of_def meter_frame_def)
qed

text \<open>The loop of \<open>ingest\<close> that drains a machine: whether it met the stored input, and how that went.\<close>

function drain_observations ::
    "(int \<Rightarrow> int \<Rightarrow> numeric13) \<Rightarrow> machine_identity \<Rightarrow> nat \<Rightarrow> time \<Rightarrow> bool \<times> bool \<Rightarrow> (bool \<times> bool) tx" where
  "drain_observations pgdiv identity stored now flags s =
     (case meter_of s (mi_id identity) of
        None \<Rightarrow> Inl (PlainError ''meter state is undefined'')
      | Some state \<Rightarrow>
     (case next_observation identity state s of
        None \<Rightarrow> Inr (flags, s)
      | Some x \<Rightarrow>
     (case processObservation pgdiv identity state x now s of
        Inl e \<Rightarrow> Inl e
      | Inr (outcome, s') \<Rightarrow>
          drain_observations pgdiv identity stored now
            (if ob_id x = stored then (True, outcome = OQuarantined) else flags) s')))"
  by pat_completeness auto
termination
  by (relation "measure (\<lambda>(_, identity, _, _, _, s). backlog_of (mi_id identity) s)") (auto dest: backlog_shrinks)

declare drain_observations.simps [simp del]

section \<open>A batch\<close>

record metering =
  am_minimumBatchIntervalMs :: int

definition AuthoritativeMetering :: "js_number \<Rightarrow> error + metering" where
  "AuthoritativeMetering interval =
     (if isSafeInteger interval \<and> 0 \<le> js_int interval \<and> js_int interval \<le> 60000
      then Inr \<lparr>am_minimumBatchIntervalMs = js_int interval\<rparr>
      else Inl (PlainError ''metering batch interval must be between 0 and 60000 milliseconds''))"

record meter_env =
  mv_sha256 :: "string \<Rightarrow> string"
  mv_pgdiv :: "int \<Rightarrow> int \<Rightarrow> numeric13"

definition ready_for_batch :: "metering \<Rightarrow> time \<Rightarrow> host_row \<Rightarrow> bool" where
  "ready_for_batch am now h \<longleftrightarrow> opt_ok (\<lambda>t. t \<le> now - am_minimumBatchIntervalMs am) (h_last_metering_batch_at h)"

definition admits_metering :: "int option \<Rightarrow> host_row \<Rightarrow> bool" where
  "admits_metering generation h \<longleftrightarrow>
     h_desired_state h \<in> {DActive, DDraining} \<and> h_credential_status h = CredActive \<and>
     opt_ok (\<lambda>g. h_credential_generation h = g) generation"

definition find_identity :: "uuid \<Rightarrow> host_usage_observation \<Rightarrow> time \<Rightarrow> fleet \<Rightarrow> machine_identity option" where
  "find_identity hostId input now s =
     map_option (identity_of now) (find (\<lambda>m. m_id m = uo_machineId input \<and> m_host_id m = Some hostId \<and>
       m_host_machine_id m = Some (uo_hostMachineId input) \<and> m_lease_id m = toLowerCase (uo_leaseId input) \<and>
       m_lease_generation m = int (read_nat (uo_leaseGeneration input))) (machines s))"

definition new_meter :: "machine_identity \<Rightarrow> host_usage_observation \<Rightarrow> meter_row" where
  "new_meter identity input =
     \<lparr>mm_machine_id = mi_id identity, mm_host_id = mi_host_id identity,
      mm_host_machine_id = mi_host_machine_id identity, mm_lease_id = mi_lease_id identity,
      mm_lease_generation = mi_lease_generation identity, mm_host_boot_id = toLowerCase (uo_hostBootId input),
      mm_last_sequence = 0, mm_last_runtime_ns = 0, mm_projected_runtime_ns = 0, mm_start_monotonic_ns = None,
      mm_last_observed_monotonic_ns = None, mm_last_egress_bytes = 0,
      mm_egress_counter_epoch = int (read_nat (uo_egressCounterEpoch input)), mm_start_seen = False,
      mm_final_seen = False, mm_last_observed_at = None, mm_last_period_end = None, mm_last_received_at = None,
      mm_loss_closed_at = None, mm_quarantined_at = None, mm_quarantine_reason = None\<rparr>"

definition ensure_meter :: "machine_identity \<Rightarrow> host_usage_observation \<Rightarrow> meter_row tx" where
  "ensure_meter identity input s =
     (case meter_of s (uo_machineId input) of
        Some state \<Rightarrow> Inr (state, s)
      | None \<Rightarrow>
          (let x = new_meter identity input in
           if list_ex (\<lambda>y. mm_host_id y = mm_host_id x \<and> mm_host_boot_id y = mm_host_boot_id x \<and>
               mm_lease_id y = mm_lease_id x \<and> mm_lease_generation y = mm_lease_generation x) (machine_meter_state s)
           then Inl (DbError ''machine_meter_state_host_id_host_boot_id_lease_id_lease_gen_key'')
           else Inr (x, s\<lparr>machine_meter_state := machine_meter_state s @ [x]\<rparr>)))"

definition pending_of_host :: "uuid \<Rightarrow> fleet \<Rightarrow> int" where
  "pending_of_host hostId s =
     int (length (filter (\<lambda>x. ob_host_id x = hostId \<and>
       list_ex (\<lambda>m. mm_machine_id m = ob_machine_id x \<and> mm_lease_generation m = ob_lease_generation x \<and>
         mm_last_sequence m < ob_sequence x) (machine_meter_state s)) (host_usage_observations s)))"

definition sequence_violation :: "uuid \<Rightarrow> host_usage_observation \<Rightarrow> meter_row \<Rightarrow> fleet \<Rightarrow> bool" where
  "sequence_violation hostId input state s \<longleftrightarrow>
     (let sequence = int (read_nat (uo_sequence input)); lastSequence = mm_last_sequence state in
      mm_host_boot_id state \<noteq> uo_hostBootId input \<or> sequence > lastSequence + maximumForwardSequenceWindow \<or>
      sequence > lastSequence + 1 \<and> pending_of_host hostId s \<ge> maximumPendingObservationsPerHost)"

text \<open>An exception of an observation as it was sent, the quarantine of its meter and of the host.\<close>

definition input_exception :: "machine_identity \<Rightarrow> host_usage_observation \<Rightarrow> string \<Rightarrow> string \<Rightarrow> exception_row" where
  "input_exception identity input key reason =
     meter_exception identity key (toLowerCase (uo_hostBootId input)) (int (read_nat (uo_sequence input))) reason"

definition reject_observation ::
    "uuid \<Rightarrow> machine_identity \<Rightarrow> host_usage_observation \<Rightarrow> string \<Rightarrow> string \<Rightarrow> string \<Rightarrow> time \<Rightarrow> fleet \<Rightarrow> error + fleet" where
  "reject_observation hostId identity input key reason hostReason now s =
     quarantineHost hostId hostReason now
       (setQuarantined (uo_machineId input) reason now (exception (input_exception identity input key reason) s))"

definition lease_key :: "machine_identity \<Rightarrow> string \<Rightarrow> string" where
  "lease_key identity suffix =
     ''meter:'' @ mi_id identity @ '':'' @ show_int (mi_lease_generation identity) @ '':'' @ suffix"

definition input_key :: "host_usage_observation \<Rightarrow> string \<Rightarrow> string" where
  "input_key input suffix =
     ''meter:'' @ uo_machineId input @ '':'' @ uo_leaseGeneration input @ '':'' @ uo_hostBootId input @ '':'' @
     uo_sequence input @ '':'' @ suffix"

definition fresh_observation_id :: "fleet \<Rightarrow> nat" where
  "fresh_observation_id s = Suc (fold max (map ob_id (host_usage_observations s)) 0)"

definition new_observation ::
    "(string \<Rightarrow> string) \<Rightarrow> uuid \<Rightarrow> host_usage_observation \<Rightarrow> time \<Rightarrow> fleet \<Rightarrow> observation_row" where
  "new_observation sha256 hostId input now s =
     \<lparr>ob_id = fresh_observation_id s, ob_host_id = hostId, ob_machine_id = uo_machineId input,
      ob_host_machine_id = uo_hostMachineId input, ob_lease_id = toLowerCase (uo_leaseId input),
      ob_lease_generation = int (read_nat (uo_leaseGeneration input)),
      ob_host_boot_id = toLowerCase (uo_hostBootId input), ob_sequence = int (read_nat (uo_sequence input)),
      ob_kind = uo_kind input, ob_quality = uo_quality input, ob_quality_reason = uo_qualityReason input,
      ob_runtime_ns = int (read_nat (uo_runtimeNs input)), ob_egress_bytes = int (read_nat (uo_egressBytes input)),
      ob_egress_counter_epoch = int (read_nat (uo_egressCounterEpoch input)),
      ob_observed_monotonic_ns = int (read_nat (uo_observedMonotonicNs input)),
      ob_observed_at = the (date_parse (uo_observedAt input)), ob_received_at = now, ob_vcpus = js_int (uo_vcpus input),
      ob_memory_bytes = int (read_nat (uo_memoryBytes input)), ob_process_id = js_int (uo_processId input),
      ob_payload_hash = payloadHash sha256 input\<rparr>"

definition same_observation :: "observation_row \<Rightarrow> observation_row \<Rightarrow> bool" where
  "same_observation x y \<longleftrightarrow> ob_host_id y = ob_host_id x \<and> ob_host_boot_id y = ob_host_boot_id x \<and>
     ob_lease_id y = ob_lease_id x \<and> ob_lease_generation y = ob_lease_generation x \<and> ob_sequence y = ob_sequence x"

text \<open>
  \<open>INSERT ... ON CONFLICT DO NOTHING RETURNING\<close>, and the row it conflicts with otherwise: the stored
  row, whether it was there before, and the process id that must fit its column.
\<close>

definition store_observation :: "observation_row \<Rightarrow> (observation_row \<times> bool) tx" where
  "store_observation x s =
     (if ob_process_id x > 2147483647 then Inl (DbError ''integer out of range'')
      else case find (same_observation x) (host_usage_observations s) of
          Some y \<Rightarrow> Inr ((y, True), s)
        | None \<Rightarrow> Inr ((x, False), s\<lparr>host_usage_observations := host_usage_observations s @ [x]\<rparr>))"

definition resolve_gaps :: "machine_identity \<Rightarrow> int \<Rightarrow> fleet \<Rightarrow> fleet" where
  "resolve_gaps identity lastSequence s =
     s\<lparr>metering_exception_resolutions := metering_exception_resolutions s @
         map (\<lambda>x. \<lparr>mr_exception_key = me_key x, mr_resolution = ''missing observation arrived''\<rparr>)
           (filter (\<lambda>x. me_machine_id x = mi_id identity \<and> me_lease_generation x = mi_lease_generation identity \<and>
              me_reason x = ''sequence_gap'' \<and> (case me_sequence x of None \<Rightarrow> False | Some n \<Rightarrow> n \<le> lastSequence) \<and>
              me_key x \<notin> set (map mr_exception_key (metering_exception_resolutions s))) (metering_exceptions s))\<rparr>"

text \<open>After the input is stored: drain, quarantine, record a gap, resolve the gaps that closed.\<close>

definition settle_input ::
    "meter_env \<Rightarrow> uuid \<Rightarrow> machine_identity \<Rightarrow> host_usage_observation \<Rightarrow> observation_row \<Rightarrow> bool \<Rightarrow> time \<Rightarrow>
      (observation_outcome \<times> bool) tx" where
  "settle_input env hostId identity input stored duplicate now s =
     (case drain_observations (mv_pgdiv env) identity (ob_id stored) now (False, False) s of
        Inl e \<Rightarrow> Inl e
      | Inr ((processedInput, inputQuarantined), s1) \<Rightarrow>
     (case (if inputQuarantined then quarantineHost hostId ''metering observation integrity violated'' now s1
            else Inr s1) of
        Inl e \<Rightarrow> Inl e
      | Inr s2 \<Rightarrow>
     (case meter_of s2 (uo_machineId input) of
        None \<Rightarrow> Inl (PlainError ''meter state is undefined'')
      | Some state \<Rightarrow>
          (let sequence = int (read_nat (uo_sequence input));
               s3 = (if sequence > mm_last_sequence state
                     then exception (input_exception identity input (input_key input ''sequence_gap'') ''sequence_gap'') s2
                     else s2);
               outcome = (if inputQuarantined then OQuarantined
                 else if processedInput then (if duplicate then ODuplicate else OAccepted)
                 else if sequence \<le> mm_last_sequence state then ODuplicate else OPendingGap) in
           Inr ((outcome, inputQuarantined), resolve_gaps identity (mm_last_sequence state) s3)))))"

text \<open>One observation of a batch: the outcome of its receipt, and whether the host is now quarantined.\<close>

definition ingest_observation ::
    "meter_env \<Rightarrow> uuid \<Rightarrow> host_usage_observation \<Rightarrow> time \<Rightarrow> (observation_outcome \<times> bool) tx" where
  "ingest_observation env hostId input now s =
     (case find_identity hostId input now s of
        None \<Rightarrow> Inl (MeteringInputError ''observation does not match the authoritative machine lease and resources'')
      | Some identity \<Rightarrow>
     (if uo_vcpus input \<noteq> JSInt (mi_vcpus identity) \<or> uo_memoryBytes input \<noteq> show_int (mi_memory_bytes identity)
      then Inl (MeteringInputError ''observation does not match the authoritative machine lease and resources'')
      else case ensure_meter identity input s of
        Inl e \<Rightarrow> Inl e
      | Inr (state, s1) \<Rightarrow>
     (if sequence_violation hostId input state s1
      then map_sum id (Pair (OQuarantined, True))
        (reject_observation hostId identity input (lease_key identity ''sequence_window_exceeded'')
          ''sequence_window_exceeded'' ''metering sequence admission violated'' now s1)
      else case (if int (read_nat (uo_sequence input)) = mm_last_sequence state + 1
            then observationIntegrityReason identity state (uo_kind input) (uo_quality input)
              (int (read_nat (uo_runtimeNs input))) (int (read_nat (uo_egressBytes input)))
              (int (read_nat (uo_egressCounterEpoch input))) (mi_admission_received_at identity)
            else None) of
        Some reason \<Rightarrow>
          map_sum id (Pair (OQuarantined, True))
            (reject_observation hostId identity input (lease_key identity reason) reason
              (''metering '' @ reason) now s1)
      | None \<Rightarrow>
     (case store_observation (new_observation (mv_sha256 env) hostId input now s1) s1 of
        Inl e \<Rightarrow> Inl e
      | Inr ((stored, duplicate), s2) \<Rightarrow>
          (if duplicate \<and> ob_payload_hash stored \<noteq> payloadHash (mv_sha256 env) input
           then map_sum id (Pair (ORejectedPayloadConflict, True))
             (reject_observation hostId identity input (input_key input ''payload_conflict'') ''payload_conflict''
               ''metering payload conflict'' now s2)
           else settle_input env hostId identity input stored duplicate now s2)))))"

fun ingest_loop ::
    "meter_env \<Rightarrow> uuid \<Rightarrow> time \<Rightarrow> bool \<Rightarrow> host_usage_observation list \<Rightarrow> observation_receipt list tx" where
  "ingest_loop env hostId now hostQuarantined [] s = Inr ([], s)"
| "ingest_loop env hostId now hostQuarantined (input # inputs) s =
     (if hostQuarantined
      then map_sum id (\<lambda>(rs, s'). (receiptFor input OQuarantined # rs, s')) (ingest_loop env hostId now True inputs s)
      else case ingest_observation env hostId input now s of
          Inl e \<Rightarrow> Inl e
        | Inr ((outcome, quarantined), s1) \<Rightarrow>
            map_sum id (\<lambda>(rs, s'). (receiptFor input outcome # rs, s')) (ingest_loop env hostId now quarantined inputs s1))"

definition ingestTx ::
    "meter_env \<Rightarrow> metering \<Rightarrow> uuid \<Rightarrow> host_usage_observation list \<Rightarrow> int option \<Rightarrow> time \<Rightarrow> observation_receipt list tx" where
  "ingestTx env am hostId observations credentialGeneration now s =
     (case find (\<lambda>h. h_id h = hostId) (hosts s) of
        None \<Rightarrow> Inl (MeteringHostLifecycleError ''host lifecycle does not allow metering observations'')
      | Some h \<Rightarrow>
          (if \<not> admits_metering credentialGeneration h
           then Inl (MeteringHostLifecycleError ''host lifecycle does not allow metering observations'')
           else if \<not> ready_for_batch am now h
           then Inl (MeteringRateLimitError ''host metering batch cadence exceeded'')
           else case update_hosts (\<lambda>x. h_id x = hostId) (\<lambda>x. x\<lparr>h_last_metering_batch_at := Some now\<rparr>) s of
               Inl e \<Rightarrow> Inl e
             | Inr s1 \<Rightarrow> ingest_loop env hostId now False observations s1))"

fun first_invalid :: "host_usage_observation list \<Rightarrow> error option" where
  "first_invalid [] = None"
| "first_invalid (x # xs) = (case validateObservation x of Some e \<Rightarrow> Some e | None \<Rightarrow> first_invalid xs)"

definition ingest ::
    "meter_env \<Rightarrow> metering \<Rightarrow> uuid \<Rightarrow> host_usage_observation list \<Rightarrow> int option \<Rightarrow> time \<Rightarrow> observation_receipt list tx" where
  "ingest env am hostId observations credentialGeneration now s =
     (if length observations < 1 \<or> length observations > 256
      then Inl (MeteringInputError ''observation batch must contain between 1 and 256 entries'')
      else case first_invalid observations of
          Some e \<Rightarrow> Inl e
        | None \<Rightarrow> ingestTx env am hostId observations credentialGeneration now s)"

definition health :: "fleet \<Rightarrow> nat \<times> nat" where
  "health s =
     (length (filter (\<lambda>x. case meter_of s (ob_machine_id x) of None \<Rightarrow> True
        | Some state \<Rightarrow> mm_last_sequence state < ob_sequence x) (host_usage_observations s)),
      length (filter (\<lambda>x. me_key x \<notin> set (map mr_exception_key (metering_exception_resolutions s)))
        (metering_exceptions s)))"

end
