(* ===== verification/MeterBooks.thy ===== *)
theory MeterBooks
  imports Metering
begin

text \<open>
  What \<open>AuthoritativeMetering\<close> guarantees: every observation is billed once, by exactly the growth
  of the projected run time and of the egress counter; observations are taken in sequence order; a
  host that reports what cannot be true is cut off; and the books of the fleet stay as they were.
\<close>

section \<open>What is billed\<close>

definition billed :: "string \<Rightarrow> string \<Rightarrow> fleet \<Rightarrow> int" where
  "billed i d s = sum_list (map rw_quantity (filter (\<lambda>r. rw_machine_id r = i \<and> rw_dimension r = d) (meter_raw_usage_events s)))"

lemma show_nat_colon: "show_nat a @ CHR '':'' # u = show_nat b @ CHR '':'' # v \<longleftrightarrow> a = b \<and> u = v"
proof
  assume e: "show_nat a @ CHR '':'' # u = show_nat b @ CHR '':'' # v"
  have t: "takeWhile is_digit (show_nat n @ CHR '':'' # w) = show_nat n" for n w
    using show_nat_digits [of n] by (subst takeWhile_append2) (auto simp: list_all_iff is_digit_def less_eq_char_def)
  from arg_cong [OF e, of "takeWhile is_digit"] have "show_nat a = show_nat b" by (simp only: t)
  with e show "a = b \<and> u = v" using inj_show_nat by (auto dest: injD)
qed simp

lemma show_nat_suffix: "show_nat a @ CHR '':'' # u \<noteq> CHR ''e'' # v"
proof
  assume "show_nat a @ CHR '':'' # u = CHR ''e'' # v"
  then have "hd (show_nat a) = CHR ''e''" by (metis append_is_Nil_conv hd_append2 list.sel(1) show_nat_nonempty)
  with show_nat_digits [of a] show False
    by (cases "show_nat a") (auto simp: is_digit_def less_eq_char_def)
qed

text \<open>Every projection of an observation carries its id in its key.\<close>

definition key_of :: "nat \<Rightarrow> string \<Rightarrow> string" where
  "key_of n rest = ''meter:'' @ show_nat n @ CHR '':'' # rest"

lemma key_of_inject [simp]: "key_of n u = key_of m v \<longleftrightarrow> n = m \<and> u = v"
  by (simp add: key_of_def show_nat_colon)

lemma segment_keys:
  "map pj_eventKey (segment_projections identity x g) =
     [key_of (ob_id x) (show_nat (sg_index g) @ '':compute''), key_of (ob_id x) (show_nat (sg_index g) @ '':memory'')]"
  by (simp add: segment_projections_def Let_def key_of_def)

lemma projection_keys_segments:
  "k \<in> set (map pj_eventKey (concat (map (segment_projections identity x) segments))) \<Longrightarrow>
    \<exists>g\<in>set segments. k = key_of (ob_id x) (show_nat (sg_index g) @ '':compute'') \<or> k = key_of (ob_id x) (show_nat (sg_index g) @ '':memory'')"
proof -
  assume "k \<in> set (map pj_eventKey (concat (map (segment_projections identity x) segments)))"
  then obtain g where "g \<in> set segments" "k \<in> set (map pj_eventKey (segment_projections identity x g))" by auto
  then show ?thesis unfolding segment_keys by auto
qed

lemma distinct_segment_keys:
  "distinct (map sg_index segments) \<Longrightarrow>
    distinct (map pj_eventKey (concat (map (segment_projections identity x) segments)))"
proof (induction segments)
  case (Cons g gs)
  have "set (map pj_eventKey (segment_projections identity x g)) \<inter>
      set (map pj_eventKey (concat (map (segment_projections identity x) gs))) = {}"
  proof (rule equals0I)
    fix k assume k: "k \<in> set (map pj_eventKey (segment_projections identity x g)) \<inter>
      set (map pj_eventKey (concat (map (segment_projections identity x) gs)))"
    then obtain h where h: "h \<in> set gs" "k = key_of (ob_id x) (show_nat (sg_index h) @ '':compute'') \<or>
        k = key_of (ob_id x) (show_nat (sg_index h) @ '':memory'')" using projection_keys_segments by blast
    from k have "k \<in> set (map pj_eventKey (segment_projections identity x g))" by blast
    then have "k = key_of (ob_id x) (show_nat (sg_index g) @ '':compute'') \<or>
        k = key_of (ob_id x) (show_nat (sg_index g) @ '':memory'')" unfolding segment_keys by simp
    with h(2) have "sg_index h = sg_index g" by (auto simp: show_nat_colon inj_eq [OF inj_show_nat])
    with Cons.prems h(1) show False by (auto simp: image_iff)
  qed
  moreover have "distinct (map pj_eventKey (segment_projections identity x g))"
    unfolding segment_keys by (simp add: show_nat_colon)
  ultimately show ?case using Cons by simp
qed simp

lemma projections_distinct:
  assumes "distinct (map sg_index segments)"
  shows "distinct (map pj_eventKey (projections identity state x periodStart segments))"
proof -
  have "key_of (ob_id x) ''egress'' \<notin> set (map pj_eventKey (concat (map (segment_projections identity x) segments)))"
    using projection_keys_segments [of "key_of (ob_id x) ''egress''" identity x segments]
    by (auto dest: sym simp: show_nat_suffix)
  moreover have "map pj_eventKey (egress_projection x d periodStart segments) =
      (if d > 0 then [key_of (ob_id x) ''egress''] else [])" for d
    by (simp add: egress_projection_def key_of_def)
  ultimately show ?thesis using distinct_segment_keys [OF assms] by (simp add: projections_def)
qed

lemma projections_keys:
  assumes "p \<in> set (projections identity state x periodStart segments)"
  shows "\<exists>rest. pj_eventKey p = key_of (ob_id x) rest" and "pj_observationId p = ob_id x"
  using assms by (auto simp: projections_def segment_projections_def egress_projection_def Let_def key_of_def split: if_splits)

text \<open>Projections with new keys are all recorded, each with its quantity.\<close>

lemma billed_append:
  "billed i d (s\<lparr>meter_raw_usage_events := meter_raw_usage_events s @ [r], usage_events := us\<rparr>) =
     billed i d s + (if rw_machine_id r = i \<and> rw_dimension r = d then rw_quantity r else 0)"
  by (simp add: billed_def)

lemma appendAll_billed:
  assumes "run_each (appendProjection pgdiv identity) ps s = Inr s'" and "distinct (map pj_eventKey ps)"
    and "set (map pj_eventKey ps) \<inter> set (map rw_key (meter_raw_usage_events s)) = {}"
  shows "billed i d s' = billed i d s +
      (if i = mi_id identity then sum_list (map pj_quantity (filter (\<lambda>p. pj_dimension p = d) ps)) else 0) \<and>
    (\<forall>r\<in>set (meter_raw_usage_events s'). r \<in> set (meter_raw_usage_events s) \<or> r \<in> raw_row identity ` set ps)"
  using assms
proof (induction ps arbitrary: s)
  case (Cons p ps)
  from Cons.prems(1) obtain t where t: "appendProjection pgdiv identity p s = Inr t"
      "run_each (appendProjection pgdiv identity) ps t = Inr s'" by (auto split: sum.splits)
  from t(1) show ?case
  proof (cases rule: appendProjection_Inr)
    case (1 us)
    with Cons.prems(3) have q: "pj_quantity p = 0" "meter_raw_usage_events t = meter_raw_usage_events s" by auto
    from Cons.IH [OF t(2)] Cons.prems(2,3) q show ?thesis by (auto simp: billed_def)
  next
    case (2 us)
    then have raw: "meter_raw_usage_events t = meter_raw_usage_events s @ [raw_row identity p]" by simp
    have "set (map pj_eventKey ps) \<inter> set (map rw_key (meter_raw_usage_events t)) = {}"
      using Cons.prems(2,3) raw by (auto simp: raw_row_def)
    from Cons.IH [OF t(2) _ this] Cons.prems(2) have ih:
        "billed i d s' = billed i d t +
           (if i = mi_id identity then sum_list (map pj_quantity (filter (\<lambda>p. pj_dimension p = d) ps)) else 0)"
        "\<forall>r\<in>set (meter_raw_usage_events s'). r \<in> set (meter_raw_usage_events t) \<or> r \<in> raw_row identity ` set ps" by auto
    have "billed i d t = billed i d s + (if mi_id identity = i \<and> pj_dimension p = d then pj_quantity p else 0)"
      unfolding 2(1) billed_append by (simp add: raw_row_def)
    with ih raw show ?thesis by auto
  qed
qed simp

lemma sum_segments:
  "sum_list (map pj_quantity (filter (\<lambda>p. pj_dimension p = d) (concat (map (segment_projections identity x) segments)))) =
     (if d = ''compute'' then mi_vcpus identity else if d = ''memory'' then mi_memory_bytes identity else 0) *
     sum_list (map sg_runtimeNs segments)"
  by (induction segments) (auto simp: segment_projections_def Let_def algebra_simps)

lemma sum_projections:
  assumes "mm_last_egress_bytes state \<le> ob_egress_bytes x"
  shows "sum_list (map pj_quantity (filter (\<lambda>p. pj_dimension p = ''compute'') (projections identity state x t gs))) =
      mi_vcpus identity * sum_list (map sg_runtimeNs gs)"
    and "sum_list (map pj_quantity (filter (\<lambda>p. pj_dimension p = ''memory'') (projections identity state x t gs))) =
      mi_memory_bytes identity * sum_list (map sg_runtimeNs gs)"
    and "sum_list (map pj_quantity (filter (\<lambda>p. pj_dimension p = ''egress'') (projections identity state x t gs))) =
      ob_egress_bytes x - mm_last_egress_bytes state"
  using assms unfolding projections_def filter_append map_append sum_list_append sum_segments
  by (auto simp: egress_projection_def)

section \<open>The invariant of the meter\<close>

text \<open>
  Observations have ids of their own, every raw row belongs to an observation its meter has passed
  and carries that observation's id in its key, and a quarantined meter has a reason.
\<close>

definition passed :: "fleet \<Rightarrow> raw_usage_row \<Rightarrow> bool" where
  "passed s r \<longleftrightarrow> (\<exists>x\<in>set (host_usage_observations s). \<exists>state rest.
     ob_id x = rw_observation_id r \<and> rw_key r = key_of (ob_id x) rest \<and>
     meter_of s (ob_machine_id x) = Some state \<and> ob_sequence x \<le> mm_last_sequence state)"

definition meter_inv :: "fleet \<Rightarrow> bool" where
  "meter_inv s \<longleftrightarrow> distinct (map ob_id (host_usage_observations s)) \<and>
     (\<forall>r\<in>set (meter_raw_usage_events s). passed s r) \<and>
     (\<forall>i state. meter_of s i = Some state \<longrightarrow> quarantine_ok state)"

interpretation okey: keyed ob_id .

lemma fresh_keys:
  assumes "meter_inv s" and "meter_of s (ob_machine_id x) = Some state" and "x \<in> set (host_usage_observations s)"
    and "mm_last_sequence state < ob_sequence x"
  shows "key_of (ob_id x) rest \<notin> set (map rw_key (meter_raw_usage_events s))"
proof
  assume "key_of (ob_id x) rest \<in> set (map rw_key (meter_raw_usage_events s))"
  then obtain r where r: "r \<in> set (meter_raw_usage_events s)" "rw_key r = key_of (ob_id x) rest" by auto
  with assms(1) obtain y state' where y: "y \<in> set (host_usage_observations s)" "ob_id y = ob_id x"
      "meter_of s (ob_machine_id y) = Some state'" "ob_sequence y \<le> mm_last_sequence state'"
    unfolding meter_inv_def passed_def by (metis key_of_inject)
  have "y = x" using okey.key_unique y(1,2) assms(1,3) unfolding meter_inv_def by blast
  with y assms(2,4) show False by simp
qed

section \<open>Exact billing\<close>

text \<open>
  Between two states a metered machine was billed exactly: its vCPU and memory nanoseconds by the
  growth of its projected run time, its bytes by the growth of its egress counter.
\<close>

definition billed_exactly :: "machine_row \<Rightarrow> meter_row \<Rightarrow> meter_row \<Rightarrow> fleet \<Rightarrow> fleet \<Rightarrow> bool" where
  "billed_exactly m state state' s s' \<longleftrightarrow>
     (let grown = mm_projected_runtime_ns state' - mm_projected_runtime_ns state in
      billed (m_id m) ''compute'' s' = billed (m_id m) ''compute'' s + vcpus (m_resources m) * grown \<and>
      billed (m_id m) ''memory'' s' = billed (m_id m) ''memory'' s + memoryMb (m_resources m) * 1048576 * grown \<and>
      billed (m_id m) ''egress'' s' = billed (m_id m) ''egress'' s +
        (mm_last_egress_bytes state' - mm_last_egress_bytes state))"

definition books :: "fleet \<Rightarrow> fleet \<Rightarrow> bool" where
  "books s s' \<longleftrightarrow> leases s' = leases s \<and>
     (\<forall>i state. meter_of s i = Some state \<longrightarrow>
        (\<exists>state'. meter_of s' i = Some state' \<and> mm_last_sequence state \<le> mm_last_sequence state' \<and>
          (mm_start_seen state \<longrightarrow> mm_start_seen state' \<and>
             mm_projected_runtime_ns state \<le> mm_projected_runtime_ns state' \<and>
             (\<forall>m\<in>set (machines s). m_id m = i \<longrightarrow> billed_exactly m state state' s s'))))"

lemma books_refl [simp]: "books s s"
  by (simp add: books_def billed_exactly_def)

lemma lease_row:
  assumes "leases s' = leases s" and "m \<in> set (machines s)"
  obtains m' where "m' \<in> set (machines s')" and "m_id m' = m_id m" and "m_resources m' = m_resources m"
proof -
  from assms(2) have "lease_of m \<in> set (leases s)" by simp
  with assms(1) have "lease_of m \<in> set (leases s')" by simp
  then show thesis using that by (auto simp: lease_of_def)
qed

lemma billed_exactly_trans:
  assumes "billed_exactly m a b s t" and "billed_exactly m' b c t u" and "m_id m' = m_id m" and "m_resources m' = m_resources m"
  shows "billed_exactly m a c s u"
  using assms by (simp add: billed_exactly_def Let_def algebra_simps)

lemma books_trans:
  assumes st: "books s t" and tu: "books t u"
  shows "books s u"
  unfolding books_def
proof (intro conjI allI impI)
  show "leases u = leases s" using st tu by (simp add: books_def)
  fix i state assume m: "meter_of s i = Some state"
  with st obtain b where b: "meter_of t i = Some b" "mm_last_sequence state \<le> mm_last_sequence b"
      and B: "mm_start_seen state \<Longrightarrow> mm_start_seen b \<and> mm_projected_runtime_ns state \<le> mm_projected_runtime_ns b \<and>
        (\<forall>m\<in>set (machines s). m_id m = i \<longrightarrow> billed_exactly m state b s t)"
    unfolding books_def by blast
  with tu obtain c where c: "meter_of u i = Some c" "mm_last_sequence b \<le> mm_last_sequence c"
      and C: "mm_start_seen b \<Longrightarrow> mm_start_seen c \<and> mm_projected_runtime_ns b \<le> mm_projected_runtime_ns c \<and>
        (\<forall>m\<in>set (machines t). m_id m = i \<longrightarrow> billed_exactly m b c t u)"
    unfolding books_def by blast
  have "billed_exactly x state c s u" if seen: "mm_start_seen state" and x: "x \<in> set (machines s)" "m_id x = i" for x
  proof -
    have "leases t = leases s" using st by (simp add: books_def)
    from lease_row [OF this x(1)] obtain y where y: "y \<in> set (machines t)" "m_id y = m_id x" "m_resources y = m_resources x" .
    with B [OF seen] C x show ?thesis using billed_exactly_trans by metis
  qed
  with B C b(2) c show "\<exists>state'. meter_of u i = Some state' \<and> mm_last_sequence state \<le> mm_last_sequence state' \<and>
      (mm_start_seen state \<longrightarrow> mm_start_seen state' \<and> mm_projected_runtime_ns state \<le> mm_projected_runtime_ns state' \<and>
        (\<forall>m\<in>set (machines s). m_id m = i \<longrightarrow> billed_exactly m state state' s u))" by (intro exI [of _ c]) auto
qed

text \<open>The identity an observation is processed with is that of a machine of the fleet.\<close>

definition identifies :: "fleet \<Rightarrow> machine_identity \<Rightarrow> bool" where
  "identifies s identity \<longleftrightarrow> (\<forall>m\<in>set (machines s). m_id m = mi_id identity \<longrightarrow>
     vcpus (m_resources m) = mi_vcpus identity \<and> memoryMb (m_resources m) * 1048576 = mi_memory_bytes identity)"

lemma identifies_kept: "identifies s identity \<Longrightarrow> leases s' = leases s \<Longrightarrow> identifies s' identity"
  unfolding identifies_def
proof
  assume *: "\<forall>m\<in>set (machines s). m_id m = mi_id identity \<longrightarrow>
      vcpus (m_resources m) = mi_vcpus identity \<and> memoryMb (m_resources m) * 1048576 = mi_memory_bytes identity"
    and sz: "leases s' = leases s"
  fix m assume "m \<in> set (machines s')"
  from lease_row [OF sz [symmetric] this] obtain m' where "m' \<in> set (machines s)" "m_id m' = m_id m" "m_resources m' = m_resources m" .
  with * show "m_id m = mi_id identity \<longrightarrow>
      vcpus (m_resources m) = mi_vcpus identity \<and> memoryMb (m_resources m) * 1048576 = mi_memory_bytes identity" by metis
qed

text \<open>One machine's meter moves to a new state; the rest is framed.\<close>

lemma meter_inv_grow:
  assumes inv: "meter_inv s" and ids: "distinct (map ob_id (host_usage_observations s'))"
    and sub: "set (host_usage_observations s) \<subseteq> set (host_usage_observations s')"
    and moved: "\<And>j st. meter_of s j = Some st \<Longrightarrow> \<exists>st'. meter_of s' j = Some st' \<and> mm_last_sequence st \<le> mm_last_sequence st'"
    and ok: "\<And>j st. meter_of s' j = Some st \<Longrightarrow> quarantine_ok st"
    and raw: "\<And>r. r \<in> set (meter_raw_usage_events s') \<Longrightarrow> r \<in> set (meter_raw_usage_events s) \<or> passed s' r"
  shows "meter_inv s'"
proof -
  have "passed s' r" if r: "r \<in> set (meter_raw_usage_events s')" for r
    using raw [OF r]
  proof
    assume "r \<in> set (meter_raw_usage_events s)"
    with inv have "passed s r" by (simp add: meter_inv_def)
    then obtain x st rest where x: "x \<in> set (host_usage_observations s)" "ob_id x = rw_observation_id r"
        "rw_key r = key_of (ob_id x) rest" "meter_of s (ob_machine_id x) = Some st" "ob_sequence x \<le> mm_last_sequence st"
      unfolding passed_def by blast
    from moved [OF x(4)] obtain st' where "meter_of s' (ob_machine_id x) = Some st'" "mm_last_sequence st \<le> mm_last_sequence st'"
      by blast
    with x sub show ?thesis unfolding passed_def by (intro bexI [of _ x]) auto
  qed
  with ids ok show ?thesis unfolding meter_inv_def by blast
qed

lemma meter_step:
  assumes inv: "meter_inv s" and fr: "meter_frame i s s'" and old: "meter_of s i = Some state"
    and new: "meter_of s' i = Some state'" and seq: "mm_last_sequence state \<le> mm_last_sequence state'"
    and ok: "quarantine_ok state \<Longrightarrow> quarantine_ok state'"
    and raw: "\<And>r. r \<in> set (meter_raw_usage_events s') \<Longrightarrow> r \<in> set (meter_raw_usage_events s) \<or> passed s' r"
  shows "meter_inv s'"
proof (rule meter_inv_grow [OF inv _ _ _ _ raw])
  show "\<exists>st'. meter_of s' j = Some st' \<and> mm_last_sequence st \<le> mm_last_sequence st'" if "meter_of s j = Some st" for j st
    using that fr old new seq by (cases "j = i") (auto simp: meter_frame_def)
  show "quarantine_ok st" if "meter_of s' j = Some st" for j st
    using that inv fr old new ok by (cases "j = i") (auto simp: meter_inv_def meter_frame_def)
qed (use inv fr in \<open>auto simp: meter_inv_def meter_frame_def\<close>)

lemma books_step:
  assumes fr: "meter_frame i s s'" and old: "meter_of s i = Some state" and new: "meter_of s' i = Some state'"
    and seq: "mm_last_sequence state \<le> mm_last_sequence state'"
    and others: "\<And>j d. j \<noteq> i \<Longrightarrow> billed j d s' = billed j d s"
    and seen: "mm_start_seen state \<Longrightarrow> mm_start_seen state' \<and> mm_projected_runtime_ns state \<le> mm_projected_runtime_ns state' \<and>
      (\<forall>m\<in>set (machines s). m_id m = i \<longrightarrow> billed_exactly m state state' s s')"
  shows "books s s'"
  unfolding books_def
proof (intro conjI allI impI)
  show "leases s' = leases s" using fr by (simp add: meter_frame_def)
  fix j st assume st: "meter_of s j = Some st"
  show "\<exists>state'. meter_of s' j = Some state' \<and> mm_last_sequence st \<le> mm_last_sequence state' \<and>
      (mm_start_seen st \<longrightarrow> mm_start_seen state' \<and> mm_projected_runtime_ns st \<le> mm_projected_runtime_ns state' \<and>
        (\<forall>m\<in>set (machines s). m_id m = j \<longrightarrow> billed_exactly m st state' s s'))"
  proof (cases "j = i")
    case True
    with st old new seq seen show ?thesis by (intro exI [of _ state']) auto
  next
    case False
    with fr st have "meter_of s' j = Some st" by (simp add: meter_frame_def)
    with others [OF False] show ?thesis by (intro exI [of _ st]) (simp add: billed_exactly_def)
  qed
qed

lemma no_anomaly:
  assumes "anomaly identity state x = None" and "quarantine_ok state"
  shows "mm_quarantined_at state = None" "mm_host_boot_id state = ob_host_boot_id x" "mm_loss_closed_at state = None"
    "mm_start_seen state \<longleftrightarrow> ob_kind x \<noteq> ''start''" "\<not> mm_final_seen state"
    "mm_last_runtime_ns state \<le> ob_runtime_ns x" "mm_last_egress_bytes state \<le> ob_egress_bytes x"
    "observationIntegrityReason identity state (ob_kind x) (ob_quality x) (ob_runtime_ns x) (ob_egress_bytes x)
        (ob_egress_counter_epoch x) (ob_received_at x) = None" "\<not> clock_skewed identity state x"
  using assms by (auto simp: anomaly_def sequence_anomaly_def quarantine_ok_def split: option.splits if_splits)

lemma billed_cong: "meter_raw_usage_events s' = meter_raw_usage_events s \<Longrightarrow> billed i d s' = billed i d s"
  by (simp add: billed_def)

lemma process_usage_books:
  assumes inv: "meter_inv s" and ident: "identifies s identity" and old: "meter_of s (mi_id identity) = Some state"
    and x: "next_observation identity state s = Some x" and none: "anomaly identity state x = None"
    and run: "process_usage pgdiv identity state x now s = Inr (outcome, s')"
  shows "meter_inv s' \<and> books s s'"
proof -
  have X: "x \<in> set (host_usage_observations s)" "ob_machine_id x = mi_id identity" "ob_sequence x = mm_last_sequence state + 1"
    using x by (auto simp: next_observation_def dest: find_SomeD)
  have "quarantine_ok state" using inv old by (auto simp: meter_inv_def)
  note N = no_anomaly [OF none this]
  from run old obtain state' t segments s1 where P: "meter_of s' (mi_id identity) = Some state'" "mm_last_sequence state' = ob_sequence x"
      "mm_projected_runtime_ns state' = max (ob_runtime_ns x) (mm_projected_runtime_ns state)"
      "mm_last_egress_bytes state' = ob_egress_bytes x" "mm_start_seen state' = mm_start_seen state"
      "quarantine_ok state \<longrightarrow> quarantine_ok state'"
      and seg: "splitRuntimeAtUtcMidnight t (runtime_delta state x) = Inr segments"
      and app: "run_each (appendProjection pgdiv identity) (projections identity state x t segments) s = Inr s1"
      and raw: "meter_raw_usage_events s' = meter_raw_usage_events s1" and fr: "meter_frame (mi_id identity) s s'"
    by (rule process_usage_Inr)
  have d: "0 \<le> runtime_delta state x" "runtime_delta state x = mm_projected_runtime_ns state' - mm_projected_runtime_ns state"
    by (auto simp: runtime_delta_def P(3))
  from split_pieces [OF d(1)] seg have pieces: "day_pieces 0 t (t * nanosecondsPerMillisecond + runtime_delta state x) segments"
    by (metis sum.inject(2))
  have total: "sum_list (map sg_runtimeNs segments) = mm_projected_runtime_ns state' - mm_projected_runtime_ns state"
    using day_pieces_sum [OF pieces] d(2) by simp
  have dist: "distinct (map pj_eventKey (projections identity state x t segments))"
    by (rule projections_distinct) (simp add: day_pieces_index [OF pieces])
  have "set (map pj_eventKey (projections identity state x t segments)) \<inter> set (map rw_key (meter_raw_usage_events s)) = {}"
  proof (rule equals0I)
    fix k assume k: "k \<in> set (map pj_eventKey (projections identity state x t segments)) \<inter> set (map rw_key (meter_raw_usage_events s))"
    then obtain rest where "k = key_of (ob_id x) rest" using projections_keys(1) by fastforce
    moreover have "mm_last_sequence state < ob_sequence x" using X(3) by simp
    ultimately show False using fresh_keys [OF inv _ X(1)] old X(2) k by auto
  qed
  note B = appendAll_billed [OF app dist this]
  have bill: "billed i d s' = billed i d s + (if i = mi_id identity
      then sum_list (map pj_quantity (filter (\<lambda>p. pj_dimension p = d) (projections identity state x t segments))) else 0)" for i d
    using B billed_cong [OF raw] by simp
  have "passed s' r" if r: "r \<in> raw_row identity ` set (projections identity state x t segments)" for r
  proof -
    from r obtain p where p: "p \<in> set (projections identity state x t segments)" "r = raw_row identity p" by blast
    from projections_keys [OF p(1)] obtain rest where "rw_key r = key_of (ob_id x) rest" "rw_observation_id r = ob_id x"
      by (auto simp: p(2) raw_row_def)
    with X P fr show ?thesis by (auto simp: passed_def meter_frame_def)
  qed
  with B raw have new: "r \<in> set (meter_raw_usage_events s) \<or> passed s' r" if "r \<in> set (meter_raw_usage_events s')" for r
    using that by (metis (no_types, lifting))
  have "meter_inv s'" by (rule meter_step [OF inv fr old P(1) _ _ new]) (use P X(3) in auto)
  moreover have "books s s'"
  proof (rule books_step [OF fr old P(1)])
    show "mm_last_sequence state \<le> mm_last_sequence state'" using P(2) X(3) by simp
    show "billed j d s' = billed j d s" if "j \<noteq> mi_id identity" for j d using bill that by simp
    assume "mm_start_seen state"
    have "billed_exactly m state state' s s'" if "m \<in> set (machines s)" "m_id m = mi_id identity" for m
      using that ident P(4) sum_projections [OF N(7)] by (simp add: billed_exactly_def Let_def bill total identifies_def)
    then show "mm_start_seen state' \<and> mm_projected_runtime_ns state \<le> mm_projected_runtime_ns state' \<and>
      (\<forall>m\<in>set (machines s). m_id m = mi_id identity \<longrightarrow> billed_exactly m state state' s s')"
      using P(3,5) \<open>mm_start_seen state\<close> by simp
  qed
  ultimately show ?thesis ..
qed

lemma process_books:
  assumes inv: "meter_inv s" and ident: "identifies s identity" and old: "meter_of s (mi_id identity) = Some state"
    and x: "next_observation identity state s = Some x"
    and run: "processObservation pgdiv identity state x now s = Inr (outcome, s')"
  shows "meter_inv s' \<and> books s s'"
proof (cases "anomaly identity state x")
  case (Some a)
  with run have "process_anomaly identity state x a now s = Inr s'" by (auto simp: processObservation_def)
  then obtain q r where P: "meter_of s' (mi_id identity) = Some (state\<lparr>mm_last_sequence := ob_sequence x,
      mm_last_received_at := Some (ob_received_at x), mm_quarantined_at := Some q, mm_quarantine_reason := Some r\<rparr>)"
      and fr: "meter_frame (mi_id identity) s s'" and raw: "meter_raw_usage_events s' = meter_raw_usage_events s"
    using old by (rule process_anomaly_Inr)
  have seq: "ob_sequence x = mm_last_sequence state + 1" using x by (auto simp: next_observation_def dest: find_SomeD)
  have "meter_inv s'" by (rule meter_step [OF inv fr old P]) (simp_all add: seq raw quarantine_ok_def)
  moreover have "books s s'"
    by (rule books_step [OF fr old P]) (simp_all add: seq billed_cong [OF raw] billed_exactly_def)
  ultimately show ?thesis ..
next
  case None
  have ok: "quarantine_ok state" using inv old by (auto simp: meter_inv_def)
  show ?thesis
  proof (cases "ob_kind x = ''start''")
    case True
    with no_anomaly(4) [OF None ok] have unseen: "\<not> mm_start_seen state" by simp
    from True None run have "process_start identity state x now s = Inr s'" by (auto simp: processObservation_def)
    then obtain state' where P: "meter_of s' (mi_id identity) = Some state'" "mm_last_sequence state' = ob_sequence x"
        "quarantine_ok state' = quarantine_ok state" and fr: "meter_frame (mi_id identity) s s'"
        and raw: "meter_raw_usage_events s' = meter_raw_usage_events s" using old by (rule process_start_Inr)
    have seq: "mm_last_sequence state \<le> mm_last_sequence state'"
      using x by (auto simp: P(2) next_observation_def dest: find_SomeD)
    have "meter_inv s'" by (rule meter_step [OF inv fr old P(1) seq]) (simp_all add: raw P(3))
    moreover have "books s s'" by (rule books_step [OF fr old P(1) seq]) (simp_all add: billed_cong [OF raw] unseen)
    ultimately show ?thesis ..
  next
    case False
    with None run have "process_usage pgdiv identity state x now s = Inr (outcome, s')" by (simp add: processObservation_def)
    with process_usage_books [OF inv ident old x None] show ?thesis .
  qed
qed

section \<open>Draining\<close>

lemma drain_step:
  assumes "drain_observations pgdiv identity stored now flags s = Inr (flags', s')"
  obtains state where "meter_of s (mi_id identity) = Some state" and "next_observation identity state s = None"
      and "flags' = flags" and "s' = s"
    | state x outcome t where "meter_of s (mi_id identity) = Some state" and "next_observation identity state s = Some x"
      and "processObservation pgdiv identity state x now s = Inr (outcome, t)"
      and "drain_observations pgdiv identity stored now
        (if ob_id x = stored then (True, outcome = OQuarantined) else flags) t = Inr (flags', s')"
  using assms by (subst (asm) drain_observations.simps) (auto split: option.splits sum.splits)

text \<open>A rule for the loop: what every processed observation keeps, a whole drain keeps.\<close>

lemma drain_induct [consumes 1, case_names finished processed]:
  assumes "drain_observations pgdiv identity stored now flags s = Inr (flags', s')"
    and finished: "\<And>s flags state. meter_of s (mi_id identity) = Some state \<Longrightarrow> next_observation identity state s = None \<Longrightarrow> Q flags s flags s"
    and processed: "\<And>s flags flags' s' state x outcome t. meter_of s (mi_id identity) = Some state \<Longrightarrow>
      next_observation identity state s = Some x \<Longrightarrow> processObservation pgdiv identity state x now s = Inr (outcome, t) \<Longrightarrow>
      Q (if ob_id x = stored then (True, outcome = OQuarantined) else flags) t flags' s' \<Longrightarrow> Q flags s flags' s'"
  shows "Q flags s flags' s'"
  using assms(1)
proof (induction "backlog_of (mi_id identity) s" arbitrary: flags s rule: less_induct)
  case less
  from less.prems show ?case
  proof (cases rule: drain_step)
    case (1 state)
    with finished show ?thesis by blast
  next
    case (2 state x outcome t)
    from less.hyps [OF backlog_shrinks [OF 2(1-3)] 2(4)] processed [OF 2(1-3)] show ?thesis by blast
  qed
qed

lemma drain_books:
  assumes "drain_observations pgdiv identity stored now flags s = Inr (flags', s')"
    and "meter_inv s" and "identifies s identity"
  shows "meter_inv s' \<and> books s s'"
  using assms
proof (induction rule: drain_induct)
  case (processed s flags flags' s' state x outcome t)
  note P = process_books [OF processed.prems processed.hyps(1-3)]
  then have "identifies t identity" using identifies_kept [OF processed.prems(2)] by (simp add: books_def)
  with processed.IH P books_trans show ?case by blast
qed simp

lemma drain_frame:
  assumes "drain_observations pgdiv identity stored now flags s = Inr (flags', s')"
  shows "meter_frame (mi_id identity) s s'"
  using assms
proof (induction rule: drain_induct)
  case (processed s flags flags' s' state x outcome t)
  from processed.hyps(3,1) have "meter_frame (mi_id identity) s t" by (rule processObservation_advances)
  then show ?case using processed.IH by (rule meter_frame_trans)
qed simp

text \<open>When draining a machine's observations commits, no observation of the machine's boot and lease is
  left that the meter could take next.\<close>

theorem drain_complete:
  assumes "drain_observations pgdiv identity stored now flags s = Inr (flags', s')"
  shows "\<exists>state. meter_of s' (mi_id identity) = Some state \<and> next_observation identity state s' = None"
  using assms by (induction rule: drain_induct) auto

section \<open>A whole batch\<close>

text \<open>
  What every step of \<open>ingest\<close> does: the fleet's books stay sound, and so do the meter's. The
  combination is reflexive and transitive, so a batch has it as soon as each statement does.
\<close>

definition keeps :: "fleet \<Rightarrow> fleet \<Rightarrow> bool" where
  "keeps s s' \<longleftrightarrow> host_sound s s' \<and> leases s' = leases s \<and> (meter_inv s \<longrightarrow> meter_inv s' \<and> books s s')"

lemma keeps_refl [simp]: "keeps s s"
  by (simp add: keeps_def)

lemma keeps_trans: "keeps s t \<Longrightarrow> keeps t u \<Longrightarrow> keeps s u"
  unfolding keeps_def using host_sound_trans books_trans by auto

lemma books_same:
  assumes "machines s' = machines s" and "meter_raw_usage_events s' = meter_raw_usage_events s"
    and "\<And>i st. meter_of s i = Some st \<Longrightarrow> meter_of s' i = Some st"
  shows "books s s'"
  using assms billed_cong [OF assms(2)] unfolding books_def billed_exactly_def by auto

lemma keeps_same:
  assumes "host_sound s s'" and "host_usage_observations s' = host_usage_observations s" and "machines s' = machines s"
    and "machine_meter_state s' = machine_meter_state s" and "meter_raw_usage_events s' = meter_raw_usage_events s"
  shows "keeps s s'"
proof -
  have m: "meter_of s' = meter_of s" using assms(4) by (simp add: meter_of_def fun_eq_iff)
  have "meter_inv s' = meter_inv s" using assms by (simp add: meter_inv_def passed_def m)
  moreover have "books s s'" by (rule books_same [OF assms(3,5)]) (simp add: m)
  ultimately show ?thesis using assms by (simp add: keeps_def)
qed

lemma keeps_exception [simp]: "keeps s (exception x s)"
  by (rule keeps_same) (simp_all add: host_sound_other)

lemma keeps_resolve [simp]: "keeps s (resolve_gaps identity n s)"
  by (rule keeps_same) (simp_all add: host_sound_other resolve_gaps_def)

lemma keeps_quarantineHost:
  assumes "quarantineHost hostId reason now s = Inr s'"
  shows "keeps s s'"
proof -
  from assms obtain t where up: "update_hosts (\<lambda>h. h_id h = hostId \<and> h_desired_state h \<notin> {DQuarantined, DRevoked})
      (quarantined_host reason now) s = Inr t" and s': "s' = insert_audit (quarantine_audit hostId reason) t"
    by (auto simp: quarantineHost_def)
  have "host_sound s t"
    by (rule host_sound_update [OF up]) (auto simp: quarantined_host_def shut_def)
  moreover have "host_sound t s'" by (rule host_sound_other) (simp_all add: s' insert_audit_def)
  ultimately have "host_sound s s'" by (rule host_sound_trans)
  then show ?thesis by (rule keeps_same) (simp_all add: s' insert_audit_def update_hosts_Inr(1) [OF up])
qed

lemma keeps_setQuarantined [simp]: "keeps s (setQuarantined i reason now s)"
proof (cases "meter_of s i")
  case None
  then have "meter_of (setQuarantined i reason now s) j = meter_of s j" for j
    using meter_ofD [of s j] by (cases "meter_of s j") (auto simp: meter_of_setQuarantined)
  then have "meter_inv (setQuarantined i reason now s) = meter_inv s" "books s (setQuarantined i reason now s)"
    by (auto simp: meter_inv_def passed_def books_def billed_exactly_def billed_def)
  then show ?thesis by (simp add: keeps_def host_sound_other)
next
  case (Some state)
  let ?state = "state\<lparr>mm_quarantined_at := coalesce (mm_quarantined_at state) (Some now),
      mm_quarantine_reason := coalesce (mm_quarantine_reason state) (Some reason)\<rparr>"
  have new: "meter_of (setQuarantined i reason now s) i = Some ?state"
    using Some meter_ofD [OF Some] by (simp add: meter_of_setQuarantined)
  have "meter_inv (setQuarantined i reason now s)" if "meter_inv s"
    by (rule meter_step [OF that meter_frame_quarantine(1) Some new]) (simp_all add: quarantine_ok_def)
  moreover have "books s (setQuarantined i reason now s)"
    by (rule books_step [OF meter_frame_quarantine(1) Some new]) (simp_all add: billed_def billed_exactly_def)
  ultimately show ?thesis by (simp add: keeps_def host_sound_other)
qed

lemma keeps_reject:
  "reject_observation hostId identity input key reason hostReason now s = Inr s' \<Longrightarrow> keeps s s'"
  unfolding reject_observation_def
  by (rule keeps_trans [OF keeps_trans [OF keeps_exception keeps_setQuarantined] keeps_quarantineHost])

lemma keeps_ensure_meter:
  assumes "ensure_meter identity input s = Inr (state, s')" and "mi_id identity = uo_machineId input"
  shows "keeps s s'" and "meter_of s' (mi_id identity) = Some state"
    and "host_usage_observations s' = host_usage_observations s" and "hosts s' = hosts s" and "machines s' = machines s"
proof -
  have "keeps s s' \<and> meter_of s' (mi_id identity) = Some state"
  proof (cases "meter_of s (uo_machineId input)")
    case (Some x)
    with assms show ?thesis by (auto simp: ensure_meter_def)
  next
    case None
    with assms have s': "s' = s\<lparr>machine_meter_state := machine_meter_state s @ [new_meter identity input]\<rparr>"
        and st: "state = new_meter identity input"
      by (auto simp: ensure_meter_def Let_def split: if_splits)
    have m: "meter_of s' j = (if j = mi_id identity then Some state else meter_of s j)" for j
      using None assms(2) by (auto simp: s' st meter_of_def find_append new_meter_def split: option.splits)
    have "quarantine_ok state" by (simp add: st quarantine_ok_def new_meter_def)
    moreover have "host_usage_observations s' = host_usage_observations s" "meter_raw_usage_events s' = meter_raw_usage_events s"
      by (simp_all add: s')
    ultimately have "meter_inv s'" if "meter_inv s"
      using that None assms(2) by (intro meter_inv_grow [OF that]) (auto simp: meter_inv_def m split: if_splits)
    moreover have "machines s' = machines s" "meter_raw_usage_events s' = meter_raw_usage_events s" by (simp_all add: s')
    then have "books s s'" using None assms(2) by (intro books_same) (auto simp: m)
    ultimately show ?thesis by (simp add: keeps_def m) (simp add: s' host_sound_other)
  qed
  then show "keeps s s'" "meter_of s' (mi_id identity) = Some state" by simp_all
qed (use assms(1) in \<open>auto simp: ensure_meter_def Let_def split: option.splits if_splits\<close>)

lemma fold_max_ge: "x \<in> set xs \<Longrightarrow> (x :: nat) \<le> fold max xs a" "a \<le> fold max xs (a :: nat)"
  by (induction xs arbitrary: a) (auto intro: order_trans [OF max.cobounded1] order_trans [OF max.cobounded2])

lemma fresh_id: "fresh_observation_id s \<notin> set (map ob_id (host_usage_observations s))"
  using fold_max_ge(1) [of "fresh_observation_id s" "map ob_id (host_usage_observations s)" 0]
  by (auto simp: fresh_observation_id_def)

lemma keeps_store:
  assumes "store_observation x s = Inr ((y, dup), s')" and "ob_id x = fresh_observation_id s"
  shows "keeps s s'" and "machine_meter_state s' = machine_meter_state s" and "hosts s' = hosts s" and "machines s' = machines s"
proof -
  from assms(1) have "s' = s \<or> s' = s\<lparr>host_usage_observations := host_usage_observations s @ [x]\<rparr>"
    by (auto simp: store_observation_def split: if_splits option.splits)
  then show "keeps s s'"
  proof
    assume s': "s' = s\<lparr>host_usage_observations := host_usage_observations s @ [x]\<rparr>"
    have m: "meter_of s' = meter_of s" by (simp add: s' meter_of_def fun_eq_iff)
    have "host_usage_observations s' = host_usage_observations s @ [x]" "meter_raw_usage_events s' = meter_raw_usage_events s"
      by (simp_all add: s')
    then have "meter_inv s'" if "meter_inv s"
      using that fresh_id [of s] assms(2) by (intro meter_inv_grow [OF that]) (auto simp: meter_inv_def m)
    moreover have "machines s' = machines s" "meter_raw_usage_events s' = meter_raw_usage_events s" by (simp_all add: s')
    then have "books s s'" by (intro books_same) (auto simp: m)
    ultimately show ?thesis by (simp add: keeps_def s' host_sound_other)
  qed simp
qed (use assms(1) in \<open>auto simp: store_observation_def split: if_splits option.splits\<close>)

lemma keeps_drain:
  assumes "drain_observations pgdiv identity stored now flags s = Inr (flags', s')" and "identifies s identity"
  shows "keeps s s'"
  using drain_books [OF assms(1)] drain_frame [OF assms(1)] assms(2) by (auto simp: keeps_def meter_frame_def)

text \<open>The parts of \<open>settle_input\<close>: the drain, the host's quarantine when the input was bad, and the receipt.\<close>

lemma settle_input_Inr:
  assumes "settle_input env hostId identity input stored dup now s = Inr ((outcome, q), s')"
  obtains processed s1 s2 state where
    "drain_observations (mv_pgdiv env) identity (ob_id stored) now (False, False) s = Inr ((processed, q), s1)"
    and "(if q then quarantineHost hostId ''metering observation integrity violated'' now s1 else Inr s1) = Inr s2"
    and "meter_of s2 (uo_machineId input) = Some state"
    and "s' = resolve_gaps identity (mm_last_sequence state)
      (if int (read_nat (uo_sequence input)) > mm_last_sequence state
       then exception (input_exception identity input (input_key input ''sequence_gap'') ''sequence_gap'') s2 else s2)"
    and "outcome = (if q then OQuarantined else if processed then (if dup then ODuplicate else OAccepted)
      else if int (read_nat (uo_sequence input)) \<le> mm_last_sequence state then ODuplicate else OPendingGap)"
proof -
  let ?d = "drain_observations (mv_pgdiv env) identity (ob_id stored) now (False, False) s"
  from assms obtain f s1 where d: "?d = Inr (f, s1)" by (cases ?d) (auto simp: settle_input_def)
  obtain processed q' where f: "f = (processed, q')" by fastforce
  let ?h = "if q' then quarantineHost hostId ''metering observation integrity violated'' now s1 else Inr s1"
  from assms d obtain s2 where h: "?h = Inr s2" by (cases ?h) (auto simp: settle_input_def f split: if_splits)
  from assms d h obtain state where m: "meter_of s2 (uo_machineId input) = Some state"
    by (cases "meter_of s2 (uo_machineId input)") (simp_all add: settle_input_def f)
  from assms [unfolded settle_input_def d f sum.case prod.case h m option.case Let_def]
  have "q' = q" by simp
  note r = assms [unfolded settle_input_def d f sum.case prod.case h m option.case Let_def, unfolded this]
  show thesis by (rule that [OF d [unfolded f \<open>q' = q\<close>] h [unfolded \<open>q' = q\<close>] m]) (use r in simp_all)
qed

lemma keeps_settle:
  assumes "settle_input env hostId identity input stored dup now s = Inr ((outcome, q), s')" and "identifies s identity"
  shows "keeps s s'"
  using assms(1)
proof (cases rule: settle_input_Inr)
  case (1 processed s1 s2 state)
  have "keeps s1 s2" using 1(2) by (cases q) (auto dest: keeps_quarantineHost)
  with keeps_drain [OF 1(1) assms(2)] have "keeps s s2" by (rule keeps_trans)
  then show ?thesis unfolding 1(4)
    by (auto intro: keeps_trans [OF _ keeps_resolve] keeps_trans [OF _ keeps_exception])
qed

lemma find_identity_ok:
  assumes "find_identity hostId input now s = Some identity" and "distinct (map m_id (machines s))"
  shows "mi_id identity = uo_machineId input" and "identifies s identity" and "mi_host_id identity = hostId"
proof -
  from assms(1) obtain m where m: "m \<in> set (machines s)" "m_id m = uo_machineId input" "m_host_id m = Some hostId"
      and i: "identity = identity_of now m"
    by (auto simp: find_identity_def dest: find_SomeD)
  show "mi_id identity = uo_machineId input" "mi_host_id identity = hostId" using m by (simp_all add: i identity_of_def)
  have "x = m" if "x \<in> set (machines s)" "m_id x = m_id m" for x
    using mkey.key_unique [OF assms(2) that(1) m(1) that(2)] .
  then show "identifies s identity" by (auto simp: identifies_def i identity_of_def)
qed

lemma lease_ids: "leases s' = leases s \<Longrightarrow> map m_id (machines s') = map m_id (machines s)"
  by (drule arg_cong [where f = "map fst"]) (simp add: comp_def lease_of_def)

text \<open>The ways an observation of a batch can go.\<close>

lemma ingest_observationE:
  assumes "ingest_observation env hostId input now s = Inr ((outcome, q), s')"
  obtains (rejected) identity state s1 s2 key reason hostReason where
      "find_identity hostId input now s = Some identity" and "ensure_meter identity input s = Inr (state, s1)"
      and "s2 = s1 \<or> (\<exists>y dup. store_observation (new_observation (mv_sha256 env) hostId input now s1) s1 = Inr ((y, dup), s2))"
      and "reject_observation hostId identity input key reason hostReason now s2 = Inr s'"
      and "q" and "outcome \<in> {OQuarantined, ORejectedPayloadConflict}"
    | (settled) identity state s1 stored dup s2 where
      "find_identity hostId input now s = Some identity" and "ensure_meter identity input s = Inr (state, s1)"
      and "store_observation (new_observation (mv_sha256 env) hostId input now s1) s1 = Inr ((stored, dup), s2)"
      and "settle_input env hostId identity input stored dup now s2 = Inr ((outcome, q), s')"
      and "uo_vcpus input = JSInt (mi_vcpus identity)" and "uo_memoryBytes input = show_int (mi_memory_bytes identity)"
      and "\<not> sequence_violation hostId input state s1"
proof -
  from assms obtain identity where i: "find_identity hostId input now s = Some identity"
    by (cases "find_identity hostId input now s") (auto simp: ingest_observation_def)
  with assms obtain state s1 where e: "ensure_meter identity input s = Inr (state, s1)"
    by (cases "ensure_meter identity input s") (auto simp: ingest_observation_def split: if_splits)
  let ?viol = "sequence_violation hostId input state s1"
  let ?bad = "if int (read_nat (uo_sequence input)) = mm_last_sequence state + 1
            then observationIntegrityReason identity state (uo_kind input) (uo_quality input)
              (int (read_nat (uo_runtimeNs input))) (int (read_nat (uo_egressBytes input)))
              (int (read_nat (uo_egressCounterEpoch input))) (mi_admission_received_at identity)
            else None"
  let ?st = "store_observation (new_observation (mv_sha256 env) hostId input now s1) s1"
  show thesis
  proof (cases ?viol)
    case True
    with assms i e show thesis
      by (auto simp: ingest_observation_def split: if_splits intro!: rejected [OF i e])
  next
    case nv: False
    show thesis
    proof (cases ?bad)
      case (Some reason)
      with assms i e nv show thesis
        by (simp add: ingest_observation_def split: if_splits) (auto intro!: rejected [OF i e])
    next
      case None
      with assms i e nv obtain stored dup s2 where st: "?st = Inr ((stored, dup), s2)"
        by (cases ?st) (auto simp: ingest_observation_def split: if_splits)
      show thesis
      proof (cases "dup \<and> ob_payload_hash stored \<noteq> payloadHash (mv_sha256 env) input")
        case True
        with assms i e nv None st obtain key reason hostReason where
            "reject_observation hostId identity input key reason hostReason now s2 = Inr s'"
            "q" "outcome = ORejectedPayloadConflict"
          by (simp add: ingest_observation_def split: if_splits)
        with st show thesis by (intro rejected [OF i e, of s2 key reason hostReason]) auto
      next
        case False
        with assms i e nv None st have "settle_input env hostId identity input stored dup now s2 = Inr ((outcome, q), s')"
            "uo_vcpus input = JSInt (mi_vcpus identity)" "uo_memoryBytes input = show_int (mi_memory_bytes identity)"
          by (simp_all add: ingest_observation_def split: if_splits)
        with i e st nv show thesis by (intro settled)
      qed
    qed
  qed
qed

lemma keeps_observation:
  assumes run: "ingest_observation env hostId input now s = Inr ((outcome, q), s')" and ids: "distinct (map m_id (machines s))"
  shows "keeps s s'"
  using run
proof (cases rule: ingest_observationE)
  case (rejected identity state s1 s2 key reason hostReason)
  note I = find_identity_ok [OF rejected(1) ids] and E = keeps_ensure_meter [OF rejected(2)]
  have "keeps s1 s2" using rejected(3) keeps_store(1) by (auto simp: new_observation_def)
  with E(1) [OF I(1)] keeps_reject [OF rejected(4)] show ?thesis by (blast intro: keeps_trans)
next
  case (settled identity state s1 stored dup s2)
  note I = find_identity_ok [OF settled(1) ids]
  note E = keeps_ensure_meter [OF settled(2) I(1)] and S = keeps_store [OF settled(3)]
  have st: "keeps s1 s2" "machines s2 = machines s1" using S by (simp_all add: new_observation_def)
  have "identifies s2 identity" using I(2) E(5) st(2) by (simp add: identifies_def)
  from E(1) st(1) keeps_settle [OF settled(4) this] show ?thesis by (blast intro: keeps_trans)
qed

lemma keeps_loop:
  "ingest_loop env hostId now q inputs s = Inr (receipts, s') \<Longrightarrow> distinct (map m_id (machines s)) \<Longrightarrow> keeps s s'"
proof (induction inputs arbitrary: q s receipts)
  case (Cons input inputs)
  show ?case
  proof (cases q)
    case True
    with Cons show ?thesis by auto
  next
    case False
    with Cons.prems(1) obtain o' q' s1 rs where a: "ingest_observation env hostId input now s = Inr ((o', q'), s1)"
        and b: "ingest_loop env hostId now q' inputs s1 = Inr (rs, s')" by (auto split: sum.splits)
    note k = keeps_observation [OF a Cons.prems(2)]
    then have "map m_id (machines s1) = map m_id (machines s)" by (intro lease_ids) (simp add: keeps_def)
    with Cons.prems(2) have "distinct (map m_id (machines s1))" by (simp only:)
    from k Cons.IH [OF b this] show ?thesis by (rule keeps_trans)
  qed
qed simp

lemma ingest_Inr:
  assumes "ingest env am hostId observations generation now s = Inr (receipts, s')"
  obtains h s1 where "find (\<lambda>h. h_id h = hostId) (hosts s) = Some h" and "admits_metering generation h"
    and "ready_for_batch am now h"
    and "update_hosts (\<lambda>x. h_id x = hostId) (\<lambda>x. x\<lparr>h_last_metering_batch_at := Some now\<rparr>) s = Inr s1"
    and "ingest_loop env hostId now False observations s1 = Inr (receipts, s')"
  using assms by (auto simp: ingest_def ingestTx_def split: if_splits option.splits sum.splits)

lemma keeps_ingest:
  assumes "ingest env am hostId observations generation now s = Inr (receipts, s')" and "distinct (map m_id (machines s))"
  shows "keeps s s'"
  using assms(1)
proof (cases rule: ingest_Inr)
  case (1 h s1)
  have "host_sound s s1" by (rule host_sound_update [OF 1(4)]) (simp add: shut_def)
  then have "keeps s s1" by (rule keeps_same) (simp_all add: update_hosts_Inr(1) [OF 1(4)])
  moreover have "keeps s1 s'" by (rule keeps_loop [OF 1(5)]) (use assms(2) in \<open>simp add: update_hosts_Inr(1) [OF 1(4)]\<close>)
  ultimately show ?thesis by (rule keeps_trans)
qed

text \<open>C7: A batch of host observations bills every machine exactly. Whatever the batch holds (duplicates,
  gaps, observations out of order, observations that quarantine the meter), a machine whose start was
  seen is charged vCPU nanoseconds and memory byte-nanoseconds for the growth of its projected run
  time and bytes for the growth of its egress counter, no more and no less, and the projected run
  time never shrinks. The invariant this rests on is kept.\<close>

theorem ingest_bills_exactly:
  assumes "ingest env am hostId observations generation now s = Inr (receipts, s')"
    and "meter_inv s" and "distinct (map m_id (machines s))"
    and "m \<in> set (machines s)" and "meter_of s (m_id m) = Some state" and "mm_start_seen state"
  shows "meter_inv s' \<and> (\<exists>state'. meter_of s' (m_id m) = Some state' \<and> mm_start_seen state' \<and>
    mm_projected_runtime_ns state \<le> mm_projected_runtime_ns state' \<and> billed_exactly m state state' s s')"
  using keeps_ingest [OF assms(1,3)] assms(2,4-6) unfolding keeps_def books_def by blast

section \<open>A host that cannot be believed\<close>

abbreviation quarantines :: "uuid \<Rightarrow> host_row \<Rightarrow> bool" where
  "quarantines hostId h \<equiv> h_id h = hostId \<and> h_desired_state h \<notin> {DQuarantined, DRevoked}"

lemma quarantineHost_hosts:
  "quarantineHost hostId reason now s = Inr s' \<Longrightarrow>
    hosts s' = sql_update (quarantines hostId) (quarantined_host reason now) (hosts s)"
  by (auto simp: quarantineHost_def insert_audit_def dest!: update_hosts_Inr(1))

abbreviation bad_outcome :: "observation_outcome \<Rightarrow> bool" where
  "bad_outcome outcome \<equiv> outcome \<in> {OQuarantined, ORejectedPayloadConflict}"

definition hosts_after :: "uuid \<Rightarrow> time \<Rightarrow> bool \<Rightarrow> fleet \<Rightarrow> fleet \<Rightarrow> bool" where
  "hosts_after hostId now q s s' \<longleftrightarrow>
     (if q then \<exists>reason. hosts s' = sql_update (quarantines hostId) (quarantined_host reason now) (hosts s)
      else hosts s' = hosts s)"

lemma hosts_after_from: "hosts_after i now q t u \<Longrightarrow> hosts t = hosts s \<Longrightarrow> hosts_after i now q s u"
  unfolding hosts_after_def by (simp only:)

lemma settle_hosts:
  assumes "settle_input env hostId identity input stored dup now s = Inr ((outcome, q), s')"
  shows "hosts_after hostId now q s s' \<and> q = bad_outcome outcome"
  using assms
proof (cases rule: settle_input_Inr)
  case (1 processed s1 s2 state)
  have "hosts s1 = hosts s" using drain_frame [OF 1(1)] by (simp add: meter_frame_def)
  moreover have "hosts s' = hosts s2" by (simp add: 1(4) resolve_gaps_def)
  moreover have "hosts_after hostId now q s1 s2"
    using 1(2) quarantineHost_hosts by (cases q) (auto simp: hosts_after_def)
  ultimately show ?thesis using 1(5) by (auto simp: hosts_after_def split: if_splits)
qed

lemma observation_hosts:
  assumes "ingest_observation env hostId input now s = Inr ((outcome, q), s')"
  shows "hosts_after hostId now q s s' \<and> q = bad_outcome outcome"
  using assms
proof (cases rule: ingest_observationE)
  case (rejected identity state s1 s2 key reason hostReason)
  have "hosts s1 = hosts s"
    using rejected(2) by (auto simp: ensure_meter_def Let_def split: option.splits if_splits)
  moreover have "hosts s2 = hosts s1"
    using rejected(3) by (auto simp: store_observation_def split: option.splits if_splits)
  moreover have "hosts_after hostId now q s2 s'" using quarantineHost_hosts [OF rejected(4) [unfolded reject_observation_def]] rejected(5)
    by (auto simp: hosts_after_def)
  ultimately show ?thesis using rejected(5,6) by (simp add: hosts_after_def)
next
  case (settled identity state s1 stored dup s2)
  have "hosts s1 = hosts s"
    using settled(2) by (auto simp: ensure_meter_def Let_def split: option.splits if_splits)
  moreover have "hosts s2 = hosts s1"
    using settled(3) by (auto simp: store_observation_def split: option.splits if_splits)
  ultimately show ?thesis using settle_hosts [OF settled(4)] hosts_after_from by metis
qed

lemma loop_quarantined:
  "ingest_loop env hostId now True inputs s = Inr (receipts, s') \<Longrightarrow>
    s' = s \<and> list_all (\<lambda>r. or_outcome r = OQuarantined) receipts"
  by (induction inputs arbitrary: receipts) (auto simp: receiptFor_def)

lemma loop_hosts:
  "ingest_loop env hostId now False inputs s = Inr (receipts, s') \<Longrightarrow>
    hosts_after hostId now (list_ex (\<lambda>r. bad_outcome (or_outcome r)) receipts) s s'"
proof (induction inputs arbitrary: s receipts)
  case (Cons input inputs)
  from Cons.prems obtain o' q s1 rs where a: "ingest_observation env hostId input now s = Inr ((o', q), s1)"
      and b: "ingest_loop env hostId now q inputs s1 = Inr (rs, s')" and r: "receipts = receiptFor input o' # rs"
    by (auto split: sum.splits)
  note A = observation_hosts [OF a]
  show ?case
  proof (cases q)
    case True
    with b have "s' = s1" using loop_quarantined [of env hostId now inputs s1 rs s'] by simp
    with A True r show ?thesis by (simp add: receiptFor_def)
  next
    case False
    then have "hosts s1 = hosts s" "\<not> bad_outcome o'" using A by (simp_all add: hosts_after_def)
    moreover have "hosts_after hostId now (list_ex (\<lambda>r. bad_outcome (or_outcome r)) rs) s1 s'"
      using Cons.IH b False by simp
    ultimately show ?thesis using hosts_after_from r by (simp add: receiptFor_def)
  qed
qed (simp add: hosts_after_def)

text \<open>A batch with a bad receipt cuts its host off in the same transaction. When a receipt of
  a batch says quarantined or payload conflict, the host that sent it has lost its credential (with
  a new generation), is quarantined and out of the scheduler's sight, and whatever it sends next is
  refused before anything is stored.\<close>

theorem bad_batch_cuts_host_off:
  assumes "ingest env am hostId observations generation now s = Inr (receipts, s')"
    and "list_ex (\<lambda>r. bad_outcome (or_outcome r)) receipts"
    and "find (\<lambda>h. h_id h = hostId) (hosts s) = Some h"
  shows "(\<exists>h'. find (\<lambda>h. h_id h = hostId) (hosts s') = Some h' \<and> h_desired_state h' = DQuarantined \<and> h_state h' = Stale \<and>
      h_credential_status h' = CredRevoked \<and> h_credential_hash h' = None \<and>
      h_credential_generation h' = h_credential_generation h + 1 \<and> h_reserved h' = h_reserved h) \<and>
    ingestTx env am hostId observations' generation' now' s' =
      Inl (MeteringHostLifecycleError ''host lifecycle does not allow metering observations'')"
proof -
  from assms(1) obtain s1 where adm: "admits_metering generation h"
      and up: "update_hosts (\<lambda>x. h_id x = hostId) (\<lambda>x. x\<lparr>h_last_metering_batch_at := Some now\<rparr>) s = Inr s1"
      and loop: "ingest_loop env hostId now False observations s1 = Inr (receipts, s')"
    using assms(3) by (elim ingest_Inr) auto
  from loop_hosts [OF loop] assms(2) obtain reason where
      hs: "hosts s' = sql_update (quarantines hostId) (quarantined_host reason now) (hosts s1)" by (auto simp: hosts_after_def)
  let ?h1 = "h\<lparr>h_last_metering_batch_at := Some now\<rparr>"
  have "find (\<lambda>h. h_id h = hostId) (hosts s1) = Some ?h1"
    using assms(3) find_SomeD [OF assms(3)] by (simp add: update_hosts_Inr(1) [OF up] find_sql_update)
  then have h': "find (\<lambda>h. h_id h = hostId) (hosts s') = Some (quarantined_host reason now ?h1)"
    using adm find_SomeD [OF assms(3)] by (auto simp: hs find_sql_update quarantined_host_def admits_metering_def)
  have "\<exists>h'. find (\<lambda>h. h_id h = hostId) (hosts s') = Some h' \<and> h_desired_state h' = DQuarantined \<and> h_state h' = Stale \<and>
      h_credential_status h' = CredRevoked \<and> h_credential_hash h' = None \<and>
      h_credential_generation h' = h_credential_generation h + 1 \<and> h_reserved h' = h_reserved h"
    using h' by (simp add: quarantined_host_def)
  moreover from h' have "ingestTx env am hostId observations' generation' now' s' =
      Inl (MeteringHostLifecycleError ''host lifecycle does not allow metering observations'')"
    by (simp add: ingestTx_def admits_metering_def quarantined_host_def)
  ultimately show ?thesis by blast
qed

section \<open>Replays\<close>

lemma drain_forward:
  assumes "drain_observations pgdiv identity stored now flags s = Inr (flags', s')"
    and "meter_of s (mi_id identity) = Some state"
  shows "\<exists>state'. meter_of s' (mi_id identity) = Some state' \<and> mm_last_sequence state \<le> mm_last_sequence state' \<and>
    mm_host_boot_id state' = mm_host_boot_id state \<and>
    (fst flags' \<longrightarrow> fst flags \<or> (\<exists>x\<in>set (host_usage_observations s). ob_id x = stored \<and> ob_sequence x \<le> mm_last_sequence state'))"
  using assms
proof (induction arbitrary: state rule: drain_induct)
  case (processed s flags flags' s' st x outcome t)
  then have st: "st = state" by simp
  have x: "x \<in> set (host_usage_observations s)" "ob_sequence x = mm_last_sequence state + 1"
    using processed.hyps(2) by (auto simp: st next_observation_def dest: find_SomeD)
  from processed.hyps(3) [unfolded st] processed.prems obtain b where b: "meter_of t (mi_id identity) = Some b"
      "mm_last_sequence b = ob_sequence x" "mm_host_boot_id b = mm_host_boot_id state" "meter_frame (mi_id identity) s t"
    by (rule processObservation_advances)
  from processed.IH [OF b(1)] obtain c where c: "meter_of s' (mi_id identity) = Some c" "mm_last_sequence b \<le> mm_last_sequence c"
      "mm_host_boot_id c = mm_host_boot_id b"
      "fst flags' \<longrightarrow> fst (if ob_id x = stored then (True, outcome = OQuarantined) else flags) \<or>
        (\<exists>x\<in>set (host_usage_observations t). ob_id x = stored \<and> ob_sequence x \<le> mm_last_sequence c)" by blast
  have "host_usage_observations t = host_usage_observations s" using b(4) by (simp add: meter_frame_def)
  with c b x show ?case by (intro exI [of _ c]) (auto split: if_splits)
qed auto

lemma find_identity_kept:
  assumes "leases s' = leases s" and "find_identity hostId input now s = Some identity"
  obtains identity' where "find_identity hostId input now' s' = Some identity'" and "mi_id identity' = mi_id identity"
    and "mi_vcpus identity' = mi_vcpus identity" and "mi_memory_bytes identity' = mi_memory_bytes identity"
    and "mi_lease_generation identity' = mi_lease_generation identity"
proof -
  let ?P = "\<lambda>(i, r, h, hm, l, g). i = uo_machineId input \<and> h = Some hostId \<and> hm = Some (uo_hostMachineId input) \<and>
      l = toLowerCase (uo_leaseId input) \<and> g = int (read_nat (uo_leaseGeneration input))"
  have f: "find_identity hostId input t u = map_option (identity_of t) (find (\<lambda>m. ?P (lease_of m)) (machines u))" for t u
    by (simp add: find_identity_def lease_of_def)
  from assms(2) obtain m where m: "find (\<lambda>m. ?P (lease_of m)) (machines s) = Some m" and i: "identity = identity_of now m"
    by (auto simp: f)
  have "find ?P (leases s') = Some (lease_of m)" unfolding assms(1) by (simp only: find_map m option.map)
  then obtain m' where m': "find (\<lambda>m. ?P (lease_of m)) (machines s') = Some m'" "lease_of m' = lease_of m"
    by (auto simp: find_map)
  have "find_identity hostId input now' s' = Some (identity_of now' m')" unfolding f m'(1) by simp
  then show thesis by (rule that) (use m'(2) in \<open>simp_all add: i identity_of_def lease_of_def\<close>)
qed

lemma same_observation_new:
  "same_observation (new_observation sha256 hostId input now s) = same_observation (new_observation sha256 hostId input now' s')"
  by (simp add: same_observation_def new_observation_def fun_eq_iff)

text \<open>C29: A host may send an observation again, and the second time bills nothing. After an observation
  was accepted, ingesting it once more, at any later time, is answered as a duplicate, leaves every
  meter and every usage row as it is, and does not quarantine the host.\<close>

theorem replay_bills_nothing:
  assumes "ingest_observation env hostId input now s = Inr ((OAccepted, q), s1)"
    and "distinct (map m_id (machines s))"
  shows "\<exists>s2. ingest_observation env hostId input now' s1 = Inr ((ODuplicate, False), s2) \<and>
    meter_raw_usage_events s2 = meter_raw_usage_events s1 \<and> usage_events s2 = usage_events s1 \<and>
    machine_meter_state s2 = machine_meter_state s1 \<and> hosts s2 = hosts s1"
  using assms(1)
proof (cases rule: ingest_observationE)
  case (settled identity state t1 stored dup t2)
  note I = find_identity_ok [OF settled(1) assms(2)]
  note E = keeps_ensure_meter [OF settled(2) I(1)]
  let ?new = "new_observation (mv_sha256 env) hostId input now t1"
  from settled(4) show ?thesis
  proof (cases rule: settle_input_Inr)
    case (1 processed d1 d2 final)
    from 1(5) have flags: "\<not> q" "processed" "\<not> dup" by (auto split: if_splits)
    with 1(2) have d2: "d2 = d1" by simp
    from settled(3) flags(3) have fits: "ob_process_id ?new \<le> 2147483647" and none: "find (same_observation ?new) (host_usage_observations t1) = None"
        and stored: "stored = ?new" and t2: "t2 = t1\<lparr>host_usage_observations := host_usage_observations t1 @ [?new]\<rparr>"
      by (auto simp: store_observation_def split: if_splits option.splits)
    have m2: "meter_of t2 (mi_id identity) = Some state" using E(2) by (simp add: t2 meter_of_def)
    from drain_forward [OF 1(1) m2] drain_complete [OF 1(1)] 1(3) flags(2) I(1) d2
    have fin: "mm_host_boot_id final = mm_host_boot_id state" "next_observation identity final d1 = None"
        "\<exists>x\<in>set (host_usage_observations t2). ob_id x = ob_id stored \<and> ob_sequence x \<le> mm_last_sequence final" by auto
    have "ob_id ?new = fresh_observation_id t1" by (simp add: new_observation_def)
    then have "ob_id ?new \<notin> set (map ob_id (host_usage_observations t1))" using fresh_id by simp
    with fin(3) have seq: "ob_sequence ?new \<le> mm_last_sequence final" unfolding stored t2 by (auto simp: rev_image_eqI)
    have obs: "host_usage_observations d1 = host_usage_observations t1 @ [?new]" using drain_frame [OF 1(1)] by (simp add: meter_frame_def t2)
    have same: "host_usage_observations s1 = host_usage_observations d1" "machine_meter_state s1 = machine_meter_state d1"
      by (simp_all add: 1(4) d2 resolve_gaps_def)
    have final: "meter_of s1 (uo_machineId input) = Some final" using 1(3) d2 same(2) by (simp add: meter_of_def)
    have "leases s1 = leases s" using keeps_observation [OF assms(1,2)] by (simp add: keeps_def)
    from find_identity_kept [OF this settled(1)] obtain identity' where
        i': "find_identity hostId input now' s1 = Some identity'" "mi_id identity' = mi_id identity"
          "mi_vcpus identity' = mi_vcpus identity" "mi_memory_bytes identity' = mi_memory_bytes identity"
          "mi_lease_generation identity' = mi_lease_generation identity" .
    have boot: "mm_host_boot_id final = uo_hostBootId input" using settled(7) fin(1) by (simp add: sequence_violation_def Let_def)
    have n: "int (read_nat (uo_sequence input)) \<le> mm_last_sequence final" using seq by (simp add: new_observation_def)
    have viol: "\<not> sequence_violation hostId input final s1"
      using boot n by (simp add: sequence_violation_def Let_def maximumForwardSequenceWindow_def)
    let ?again = "new_observation (mv_sha256 env) hostId input now' s1"
    have "same_observation ?again ?new" by (simp add: same_observation_def new_observation_def)
    then have "find (same_observation ?again) (host_usage_observations s1) = Some ?new"
      using none same_observation_new [of "mv_sha256 env" hostId input now' s1 now t1]
      by (simp add: same(1) obs find_append)
    moreover have "ob_process_id ?again \<le> 2147483647" using fits by (simp add: new_observation_def)
    ultimately have st: "store_observation ?again s1 = Inr ((?new, True), s1)" by (simp add: store_observation_def)
    have hash: "ob_payload_hash ?new = payloadHash (mv_sha256 env) input" by (simp add: new_observation_def)
    have "next_observation identity' final s1 = None" using fin(2) i' by (simp add: next_observation_def same(1))
    then have dr: "drain_observations (mv_pgdiv env) identity' k now' (False, False) s1 = Inr ((False, False), s1)" for k
      using final i'(2) I(1) by (subst drain_observations.simps) simp
    have "settle_input env hostId identity' input ?new True now' s1 =
        Inr ((ODuplicate, False), resolve_gaps identity' (mm_last_sequence final) s1)"
      using n by (simp add: settle_input_def dr final)
    moreover have "ensure_meter identity' input s1 = Inr (final, s1)" by (simp add: ensure_meter_def final)
    ultimately have "ingest_observation env hostId input now' s1 =
        Inr ((ODuplicate, False), resolve_gaps identity' (mm_last_sequence final) s1)"
      using settled(5,6) i' viol st hash n by (simp add: ingest_observation_def)
    then show ?thesis by (simp add: resolve_gaps_def)
  qed
qed simp

section \<open>Boot ids in upper case\<close>

text \<open>
  \<open>validateObservation\<close> accepts a boot id in either case, the database stores it in lower case, and
  \<open>ingest\<close> compares the stored text with the one that was sent: a host that writes its boot id in
  upper case is quarantined by its first observation.
\<close>

lemma upper_case_boot_quarantines:
  assumes "ingest_observation env hostId input now s = Inr ((outcome, q), s')"
    and "meter_of s (uo_machineId input) = None" and "toLowerCase (uo_hostBootId input) \<noteq> uo_hostBootId input"
  shows "outcome \<in> {OQuarantined, ORejectedPayloadConflict} \<and> q"
  using assms(1)
proof (cases rule: ingest_observationE)
  case (settled identity state s1 stored dup s2)
  from settled(2) assms(2) have "mm_host_boot_id state = toLowerCase (uo_hostBootId input)"
    by (auto simp: ensure_meter_def new_meter_def Let_def split: if_splits)
  with settled(7) assms(3) show ?thesis by (simp add: sequence_violation_def Let_def)
qed simp

end
