(* ===== verification/System.thy ===== *)
theory System
  imports Reconciler MeterBooks
begin

text \<open>
  The control plane as one state machine. A step is one committed transaction of the machine
  repository, the scheduler, the fork operations, the reconciler, the usage jobs, the metering of host observations or the host
  service; API calls, reconcilers and jobs interleave their transactions in any order. A
  transaction that acts on a machine acts on one the caller has read (it is decided, and the
  placement is that of the row); that this stays so until the transaction runs is \<open>decided_later\<close>.
\<close>

section \<open>Steps\<close>

inductive step :: "fleet \<Rightarrow> fleet \<Rightarrow> bool" where
  requested: "insertRequested u machine key now s = Inr s' \<Longrightarrow> step s s'"
| create_claimed: "claimCreate token i now s = Inr (t, s') \<Longrightarrow> step s s'"
| create_unclaimed: "releaseCreateClaim i token s = Inr s' \<Longrightarrow> step s s'"
| create_failed: "decided s m \<Longrightarrow> failCreate u (m_id m) token status code message now s = Inr (b, s') \<Longrightarrow> step s s'"
| reserved: "m \<in> set (machines s) \<Longrightarrow> sr_machineId rq = Some (m_id m) \<Longrightarrow> sr_resources rq = m_resources m \<Longrightarrow>
    reserve g policy locked rq now s = Inr (rv, s') \<Longrightarrow> step s s'"
| observed: "decided s m \<Longrightarrow> observeHost u (m_id m) hm now s = Inr s' \<Longrightarrow> step s s'"
| moved: "decided s m \<Longrightarrow> \<not> unplaced to \<Longrightarrow> list_all (\<lambda>st. state_le st to) from \<Longrightarrow>
    transition u (m_id m) from to reason now s = Inr (b, s') \<Longrightarrow> step s s'"
| released: "decided s m \<Longrightarrow> m_host_id m = Some h \<Longrightarrow> release h (m_resources m) (Some (m_id m)) now s = Inr s' \<Longrightarrow> step s s'"
| extending: "beginExtend g policy seq i org project key hash ttl now s = Inr (x, s') \<Longrightarrow> step s s'"
| extended: "completeExtend op i org result now s = Inr (t, s') \<Longrightarrow> step s s'"
| forking: "beginFork net sha256 g policy draw fq now s = Inr (fo, s') \<Longrightarrow> step s s'"
| forked: "completeForkTx net op hms now s = Inr s' \<Longrightarrow> step s s'"
| fork_failed: "failForkTx op status code message now s = Inr s' \<Longrightarrow> step s s'"
| cleanup_requested: "requestForkCleanupTx token op status code message now s = Inr (c, s') \<Longrightarrow> step s s'"
| cleanup_unclaimed: "releaseForkCleanupClaim op token now s = Inr s' \<Longrightarrow> step s s'"
| cleaned: "completeForkCleanupTx op token now s = Inr s' \<Longrightarrow> step s s'"
| forks_claimed: "claimPendingForksTx locked token limit now s = Inr (ids, s') \<Longrightarrow> step s s'"
| fork_unclaimed: "releaseForkClaim op token failed now s = Inr s' \<Longrightarrow> step s s'"
| batch_claimed: "claimReconcileBatch locked token now s = Inr (rows, s') \<Longrightarrow> step s s'"
| batch_unclaimed: "releaseReconcileClaim rr failed now s = Inr s' \<Longrightarrow> step s s'"
| recovered: "persistRecovered rr hm now s = Inr (st, s') \<Longrightarrow> step s s'"
| seen_running: "observeRunning rr hm now s = Inr s' \<Longrightarrow> step s s'"
| seen_starting: "tracks s rr m \<Longrightarrow> observeStarting rr hm now s = Inr s' \<Longrightarrow> step s s'"
| finished: "decided s m \<Longrightarrow> terminal state \<Longrightarrow> finishTx (m_id m) org lease state reason cutoff now s = Inr (b, s') \<Longrightarrow> step s s'"
| row_released: "decided s m \<Longrightarrow> m_host_id m = Some h \<Longrightarrow> release_row (m_id m) h (m_resources m) now s = Inr s' \<Longrightarrow> step s s'"
| lost: "markLostTx s = Inr (ms, s') \<Longrightarrow> step s s'"
| loss_closed: "closeHostLoss i lease now s = Inr (t, s') \<Longrightarrow> step s s'"
| metered: "enqueueUsageIntervals exclude locked now s = Inr s' \<Longrightarrow> step s s'"
| usage_claimed: "claimUsage locked token now s = (evs, s') \<Longrightarrow> step s s'"
| usage_recorded: "recordMachineRuntime number input s = (r, s') \<Longrightarrow> step s s'"
| usage_processed: "mark_processed ev now s = Inr s' \<Longrightarrow> step s s'"
| usage_retried: "step s (retry_later ev message now s)"
| batch_metered: "ingest menv am hostId observations generation now s = Inr (rs, s') \<Longrightarrow> step s s'"
| host: "host_step env svc s s' \<Longrightarrow> step s s'"

inductive_cases stepE: "step s s'"

text \<open>Calls that commit are steps that keep the books.\<close>

lemma sound_tx_ok: "sound (call_tx t) s \<Longrightarrow> fleet_inv s \<Longrightarrow> t s = Inr (a, s') \<Longrightarrow> fleet_inv s' \<and> fleet_le s s'"
  by (simp add: advances_def call_tx_def)

lemma sound_do_ok: "sound (call_do t) s \<Longrightarrow> fleet_inv s \<Longrightarrow> t s = Inr s' \<Longrightarrow> fleet_inv s' \<and> fleet_le s s'"
  by (simp add: advances_def call_do_def)

lemma sound_svc_ok: "sound m s \<Longrightarrow> fleet_inv s \<Longrightarrow> m s = (r, s') \<Longrightarrow> fleet_inv s' \<and> fleet_le s s'"
  by (simp add: advances_def)

lemmas tx_ok = sound_claimCreate [THEN sound_tx_ok] sound_beginExtend [THEN sound_tx_ok]
  sound_completeExtend [THEN sound_tx_ok] sound_from_persistRecovered [THEN fp.lastingD, THEN sound_tx_ok]
  inv_beginFork inv_requestForkCleanup inv_claimPendingForks claimReconcileBatch_ok(1) markLostTx_ok(1) closeHostLoss_ok

lemmas do_ok = sound_insertRequested [THEN sound_do_ok] sound_releaseCreateClaim [THEN sound_do_ok]
  inv_completeFork inv_failFork inv_releaseForkCleanupClaim inv_completeForkCleanup inv_releaseForkClaim
  sound_from_releaseReconcileClaim [THEN fp.lastingD, THEN sound_do_ok]
  sound_from_observeRunning [THEN fp.lastingD, THEN sound_do_ok] enqueueUsageIntervals_ok mark_processed_ok

text \<open>A release by itself asks nothing of the machine's state; whole calls do (\<open>calls_keep_books\<close>).\<close>

lemma release_step:
  assumes inv: "fleet_inv s" and d: "decided s m" and h: "m_host_id m = Some h"
    and ok: "release h (m_resources m) (Some (m_id m)) now s = Inr s'"
  shows "fleet_inv s' \<and> fleet_before s s'"
  using inv_release [OF inv ok decided_id [OF inv d] _ h refl] before_release [OF ok] d by (simp add: decided_def)

lemma weaken: "fleet_inv s' \<and> fleet_le s s' \<Longrightarrow> fleet_inv s' \<and> fleet_before s s'"
  by (simp add: fleet_le_before)

lemma step_sound:
  assumes inv: "fleet_inv s" and st: "step s s'"
  shows "fleet_inv s' \<and> fleet_before s s'"
  using st inv
proof (induction rule: step.induct)
  case (create_failed s m u token status code message now b s')
  then show ?case using sound_failCreate [OF decidedD, THEN sound_tx_ok] weaken by blast
next
  case (reserved m s rq g policy locked now rv s')
  have "present (sr_machineId rq)"
    using fleet_invD(5) [OF reserved.prems reserved.hyps(1)] reserved.hyps(2)
    by (auto simp: machine_ok_def present_def falsy_def dest: machine_id_nonempty)
  moreover have "m_resources x = sr_resources rq" if "x \<in> set (machines s)" "sr_machineId rq = Some (m_id x)" for x
    using mkey.key_unique [OF fleet_invD(1) [OF reserved.prems] that(1) reserved.hyps(1)] that(2) reserved.hyps(2,3) by simp
  ultimately show ?case using reserved sound_reserve [THEN sound_tx_ok] weaken by blast
next
  case (observed s m u hm now s')
  then show ?case using sound_observeHost [OF decidedD, THEN sound_do_ok] weaken by blast
next
  case (moved s m to "from" u reason now b s')
  then show ?case using inv_transition [OF _ _ decidedD] le_transition by (simp add: list_all_iff fleet_le_before)
next
  case (released s m h now s')
  then show ?case using release_step by blast
next
  case (seen_starting s rr m hm now s')
  then show ?case using sound_from_observeStarting [THEN fp.lastingD, THEN sound_do_ok] weaken by blast
next
  case (finished s m state org lease reason cutoff now b s')
  then show ?case using finishTx_ok [OF _ _ decidedD] weaken by blast
next
  case (row_released s m h now s')
  then show ?case using release_step [of s m h now s'] decided_id [of s m] by (simp add: release_row_eq)
next
  case (usage_claimed locked token now s evs s')
  then show ?case by (intro weaken inv_other) (auto simp: claimUsage_def Let_def)
next
  case (usage_recorded number input s r s')
  then show ?case using sound_recordMachineRuntime [THEN sound_svc_ok] weaken by blast
next
  case (usage_retried s ev message now)
  then show ?case by (intro weaken inv_other) (simp_all add: retry_later_def)
next
  case (batch_metered menv am hostId observations generation now s rs s')
  then show ?case using keeps_ingest [OF batch_metered.hyps fleet_invD(1)] by (simp add: keeps_def host_sound_def fleet_le_before)
next
  case (host env svc s s')
  then show ?case using host_step_sound weaken by (auto simp: host_sound_def)
qed (rule weaken, (rule tx_ok do_ok; assumption))+

lemma steps_sound:
  assumes "step\<^sup>*\<^sup>* s s'" and "fleet_inv s"
  shows "fleet_inv s' \<and> fleet_before s s'"
  using assms
proof (induction rule: rtranclp_induct)
  case (step t u)
  then have "fleet_inv t" "fleet_before s t" by simp_all
  with step_sound [OF _ step.hyps(2)] fleet_before_trans show ?case by blast
qed simp

section \<open>The books of the fleet\<close>

definition initial :: "fleet \<Rightarrow> bool" where
  "initial s \<longleftrightarrow> machines s = [] \<and> fork_ops s = [] \<and> extend_ops s = [] \<and> distinct (map h_id (hosts s)) \<and>
     list_all (\<lambda>h. host_check h \<and> h_reserved h = 0) (hosts s)"

lemma initial_inv: "initial s \<Longrightarrow> fleet_inv s"
  by (auto simp: initial_def fleet_inv_def accounted_def committed_def extends_ok_def list_all_iff host_check_def
      resources_le)

lemma books_of_host:
  "fleet_inv s \<Longrightarrow> h \<in> set (hosts s) \<Longrightarrow> h_reserved h = committed (h_id h) (machines s) \<and> h_reserved h \<le> h_total h"
  using fleet_invD(4) [of s] unfolding accounted_def by blast

text \<open>C1: What the control plane believes a host has given away is exactly what it has given away.
  From an empty fleet, after any interleaving of transactions, of creates, deletes, extensions,
  forks, reconcilers, usage jobs and host operations, the reserved capacity of every host is the
  sum of the resources of the machines placed on it whose reservation was not released, and it is
  never negative and never more than the host has.\<close>

theorem reservations_exact:
  assumes "initial s\<^sub>0" and "step\<^sup>*\<^sup>* s\<^sub>0 s" and "h \<in> set (hosts s)"
  shows "h_reserved h = committed (h_id h) (machines s) \<and> 0 \<le> h_reserved h \<and> h_reserved h \<le> h_total h"
proof -
  have inv: "fleet_inv s" using steps_sound [OF assms(2) initial_inv [OF assms(1)]] by simp
  from books_of_host [OF inv assms(3)] have "h_reserved h = committed (h_id h) (machines s)" "h_reserved h \<le> h_total h"
    by blast+
  moreover have "0 \<le> committed (h_id h) (machines s)" by (rule committed_nonneg) (rule fleet_invD(5) [OF inv])
  ultimately show ?thesis by simp
qed

text \<open>C2: A machine's life only moves forward, whatever transactions run. Its identity, tenant, lease
  and size never change; once placed it stays on its host; a released reservation stays released;
  once terminal its state is final, and an expiry never comes closer.\<close>

theorem machine_life_forward:
  assumes "fleet_inv s" and "step\<^sup>*\<^sup>* s s'" and "m \<in> set (machines s)"
  shows "\<exists>m'\<in>set (machines s'). m_id m' = m_id m \<and> m_organization_id m' = m_organization_id m \<and>
    m_lease_id m' = m_lease_id m \<and> m_resources m' = m_resources m \<and>
    (m_host_id m \<noteq> None \<longrightarrow> m_host_id m' = m_host_id m) \<and>
    (m_reservation_released_at m \<noteq> None \<longrightarrow> m_reservation_released_at m' = m_reservation_released_at m) \<and>
    (if terminal (m_state m) then m_state m' = m_state m else state_rank (m_state m) \<le> state_rank (m_state m')) \<and>
    m_expires_at m \<le> m_expires_at m'"
proof -
  from steps_sound [OF assms(2,1)] assms(3) obtain m' where m': "m' \<in> set (machines s')" "row_before m m'"
    by (auto simp: fleet_before_def covers_def)
  then have "if terminal (m_state m) then m_state m' = m_state m else state_rank (m_state m) \<le> state_rank (m_state m')"
    by (auto simp: row_before_def state_le_def dest: state_le_terminal)
  with m' show ?thesis by (intro bexI [of _ m']) (auto simp: row_before_def fixed_def)
qed

section \<open>Whole calls\<close>

text \<open>C3: Whole calls keep the books too, and give capacity back only for machines that have ended. Run
  to their end, with whatever the hosts answer and wherever they fail, a create, a delete, an
  extension and a fork by a user, a run of the reconciler and a run of the expiry job each take a
  consistent fleet to a consistent fleet: on every host the reserved capacity is again the sum of
  the machines placed there and not released, and within the host. Every machine, fork and extension
  of before is still there, moved only forward. And a machine whose reservation is released
  afterwards was released before or is in a terminal state: no call gives away the capacity of a
  machine that may still run. For create the digest of the request must determine the resources of
  a machine stored under the same key.\<close>

theorem calls_keep_books:
  assumes "fleet_inv s" and "hash_binds w input s"
  shows "list_all (\<lambda>s'. fleet_inv s' \<and> fleet_le s s' \<and>
      (\<forall>h\<in>set (hosts s'). h_reserved h = committed (h_id h) (machines s') \<and> h_reserved h \<le> h_total h) \<and>
      (\<forall>m'\<in>set (machines s'). m_reservation_released_at m' \<noteq> None \<longrightarrow> terminal (m_state m') \<or>
        (\<exists>m\<in>set (machines s). m_id m = m_id m' \<and> m_reservation_released_at m \<noteq> None)))
    [snd (create w input s), snd (destroy w i org project s), snd (extend_machine w i org project ttl key s),
     snd (fork w i org project count key auditId s), snd (runLocked r ws s), snd (reapExpiredMachines ws now s)]"
proof -
  note sound_create [OF assms(2)] sound_destroy [of w i org project s] sound_runLocked [of r ws s] sound_reap [of ws now s]
    sound_extend [THEN fp.lastingD, of w i org project ttl key s]
    sound_fork [THEN fp.lastingD, of w i org project count key auditId s]
  with assms(1) have "list_all (\<lambda>s'. fleet_inv s' \<and> fleet_le s s')
    [snd (create w input s), snd (destroy w i org project s), snd (extend_machine w i org project ttl key s),
     snd (fork w i org project count key auditId s), snd (runLocked r ws s), snd (reapExpiredMachines ws now s)]"
    by (simp add: advances_def)
  then show ?thesis
  proof (rule list.pred_mono_strong)
    fix s' assume "fleet_inv s' \<and> fleet_le s s'"
    then show "fleet_inv s' \<and> fleet_le s s' \<and>
      (\<forall>h\<in>set (hosts s'). h_reserved h = committed (h_id h) (machines s') \<and> h_reserved h \<le> h_total h) \<and>
      (\<forall>m'\<in>set (machines s'). m_reservation_released_at m' \<noteq> None \<longrightarrow> terminal (m_state m') \<or>
        (\<exists>m\<in>set (machines s). m_id m = m_id m' \<and> m_reservation_released_at m \<noteq> None))"
      using books_of_host [of s'] fleet_le_released [of s s'] by blast
  qed
qed

end
