(* ===== verification/Samples.thy ===== *)
theory Samples
  imports System
begin

text \<open>
  Concrete inputs. An IPv4 implementation of the network functions of the runtime, a small fleet
  with two hosts and a machine in each phase of its life, and for every property with hypotheses
  a theorem that applies it to such an input.
\<close>

section \<open>The runtime's network functions on IPv4\<close>

definition ipv4 :: "string \<Rightarrow> nat option" where
  "ipv4 s =
     (let ps = split_on (CHR ''.'') s in
      if length ps = 4 \<and> list_all (\<lambda>p. p \<noteq> [] \<and> length p \<le> 3 \<and> list_all is_digit p \<and> read_nat p < 256) ps
      then Some (fold (\<lambda>p n. 256 * n + read_nat p) ps 0) else None)"

definition sample_net :: js_net where
  "sample_net =
     \<lparr>isIP = (\<lambda>s. if ipv4 s \<noteq> None then 4 else if CHR '':'' \<in> set s then 6 else 0),
      inSubnet = (\<lambda>network prefix v ip version.
        case (ipv4 network, ipv4 ip) of
          (Some a, Some b) \<Rightarrow> a div 2 ^ nat (32 - prefix) = b div 2 ^ nat (32 - prefix)
        | _ \<Rightarrow> False),
      toNumber = (\<lambda>t. case t of None \<Rightarrow> JSOther
        | Some s \<Rightarrow> if s \<noteq> [] \<and> list_all is_digit s then JSInt (int (read_nat s)) else JSOther)\<rparr>"

section \<open>A fleet\<close>

definition digest :: "char \<Rightarrow> string" where
  "digest c = replicate 64 c"

definition sample_sha256 :: "string \<Rightarrow> string" where
  "sample_sha256 s = digest (CHR ''0'')"

definition sample_cohort :: runtime_cohort where
  "sample_cohort =
     \<lparr>rc_contractVersion = 4, rc_arch = JStr ''amd64'', rc_kernelSha256 = digest (CHR ''1''),
      rc_firecrackerSha256 = digest (CHR ''2''), rc_jailerSha256 = digest (CHR ''3''),
      rc_pythonRootfsSha256 = digest (CHR ''4''), rc_desktopRootfsSha256 = digest (CHR ''5''),
      rc_id = digest (CHR ''0'')\<rparr>"

definition sample_host :: "uuid \<Rightarrow> string \<Rightarrow> resources \<Rightarrow> host_row" where
  "sample_host i address reserved =
     \<lparr>h_id = i, h_provider_id = i, h_region_id = ''eu'', h_address = address, h_architecture = X86_64,
      h_state = Ready, h_desired_state = DActive, h_credential_status = CredActive,
      h_credential_hash = Some ''hash'', h_control_ciphertext = Some ''control'',
      h_gateway_ciphertext = Some ''gateway'', h_credential_generation = 1, h_credential_rotated_at = 0,
      h_credential_revoked_at = None, h_enrollment_completed_at = Some 0, h_daemon_version = ''1.0'',
      h_total = Resources 16 16384 65536, h_reserved = reserved, h_reported_vcpus = Some 16,
      h_reported_memory_mb = None, h_reported_disk_mb = None, h_reported_machine_count = Some 1,
      h_last_heartbeat_at = Some 1000000, h_lifecycle_reason = None, h_last_metering_batch_at = None,
      h_metering_quarantined_at = None, h_cohort = Some sample_cohort\<rparr>"

definition sample_size :: resources where
  "sample_size = Resources 2 1024 2048"

text \<open>A requested machine; the others are updates of it.\<close>

definition requested_machine :: "string \<Rightarrow> machine_row" where
  "requested_machine i =
     \<lparr>m_id = i, m_organization_id = ''org'', m_project_id = ''project'', m_host_id = None, m_host_machine_id = None,
      m_runtime_cohort_id = None, m_source_sha256 = None, m_lease_id = ''lease-'' @ i, m_lease_generation = 1,
      m_idempotency_key = Some (''key-'' @ i), m_idempotency_request_hash = digest (CHR ''0''), m_state = Requested,
      m_state_reason = None, m_region_id = ''eu'', m_architecture = X86_64, m_resources = sample_size,
      m_template_id = None, m_template_name = Some ''python'', m_source_oci_ref = None, m_network_policy = net_off,
      m_requested_ttl_seconds = 600, m_ready = False, m_created_at = 0, m_placed_at = None, m_started_at = None,
      m_ready_at = None, m_stopping_at = None, m_stopped_at = None, m_reservation_released_at = None,
      m_usage_checkpoint_at = None, m_usage_finalized_at = None, m_usage_quarantined_at = None,
      m_usage_quarantine_reason = None, m_expires_at = 1600000, m_startup_deadline_at = None,
      m_create_claim_token = None, m_create_claimed_until = None, m_create_failure_status = None,
      m_create_failure_code = None, m_create_failure_message = None, m_parent_machine_id = None,
      m_fork_operation_id = None, m_reconcile_after = 0, m_reconcile_claim_token = None,
      m_reconcile_claimed_until = None\<rparr>"

definition starting_machine :: "string \<Rightarrow> machine_row" where
  "starting_machine i = (requested_machine i)
     \<lparr>m_state := Starting, m_host_id := Some ''h1'', m_runtime_cohort_id := Some (rc_id sample_cohort),
      m_source_sha256 := Some (rc_pythonRootfsSha256 sample_cohort), m_placed_at := Some 0\<rparr>"

definition running_machine :: "string \<Rightarrow> machine_row" where
  "running_machine i = (starting_machine i)
     \<lparr>m_state := Running, m_host_machine_id := Some ''vm-1'', m_started_at := Some 0, m_ready := True,
      m_ready_at := Some 0\<rparr>"

definition stopped_machine :: "string \<Rightarrow> machine_row" where
  "stopped_machine i = (running_machine i)
     \<lparr>m_state := Stopped, m_ready := False, m_ready_at := None, m_stopped_at := Some 900000\<rparr>"

definition sample_fleet :: fleet where
  "sample_fleet =
     \<lparr>regions = [\<lparr>rg_id = ''eu'', rg_enabled = True\<rparr>],
      organizations = [\<lparr>o_id = ''org'', o_max_machines = 10, o_max = Resources 100 100000 1000000,
        o_max_storage_mb = 102400\<rparr>],
      projects = [\<lparr>p_id = ''project'', p_organization_id = ''org'', p_max_machines = 10,
        p_max = Resources 100 100000 1000000, p_max_storage_mb = 102400\<rparr>],
      hosts = [sample_host ''h1'' ''10.0.0.1'' (Resources 4 2048 4096), sample_host ''h2'' ''10.0.0.2'' 0],
      templates = [], template_replicas = [],
      machines = [running_machine ''m_running-0001'', stopped_machine ''m_stopped-0001'',
        requested_machine ''m_request-0001''],
      machine_events = [], extend_ops = [], fork_ops = [], fork_children = [], audit_events = [],
      billing_accounts = [],
      usage_events = [], usage_outbox = [], volumes = [], volume_write_grants = [], volume_deletion_jobs = [],
      host_usage_observations = [], machine_meter_state = [], meter_raw_usage_events = [], metering_exceptions = [],
      metering_exception_resolutions = [],
      host_enrollment_grants = [], host_heartbeats = [], fleet_operator_organizations = []\<rparr>"

definition sample_policy :: admission_policy where
  "sample_policy = projr (BillingAdmissionPolicy privateBetaRates ''private_beta'')"

definition sample_request :: schedule_request where
  "sample_request =
     \<lparr>sr_organizationId = ''org'', sr_projectId = ''project'', sr_region = ''eu'', sr_architecture = X86_64,
      sr_resources = sample_size, sr_templateId = None, sr_machineId = Some ''m_request-0001''\<rparr>"

text \<open>The division the database performs, at the precision of the model.\<close>

definition sample_pgdiv :: "numeric13 \<Rightarrow> numeric13" where
  "sample_pgdiv n = n div 1024"

lemma projr_pair: "\<not> isl x \<Longrightarrow> x = Inr (fst (projr x), snd (projr x))"
  by (cases x) simp_all

lemma projr_Inr: "\<not> isl x \<Longrightarrow> x = Inr (projr x)"
  by (cases x) simp_all

lemma hex64_digest: "hex64 (digest c) = is_hex c"
  by (simp add: hex64_def digest_def list_all_iff)

lemma digest_eq [simp]: "digest c = digest d \<longleftrightarrow> c = d"
  by (simp add: digest_def)

lemma digest_Nil [simp]: "digest c \<noteq> []"
  by (simp add: digest_def)

lemma net_off_sel: "nd_mode net_off = NetOff" "nd_hostnames net_off = []" "nd_cidrs net_off = []"
  by (simp_all add: net_off_def)

lemma canonical_off: "canonical_policy net (decl_json net_off) = Inr net_off"
  by (simp add: canonical_policy_def EgressPolicy_def egress_build_def decl_json_def net_off_def Let_def mode_of_def)

lemmas char_defs = less_eq_char_def less_char_def is_digit_def is_lower_def is_upper_def is_alnum_def is_hex_def

lemmas check_defs = machine_ok_def machine_check_def machine_id_ok_def template_name_ok_def network_policy_shape_def
  runtime_binding_check_def startsWith_def terminal_def unplaced_def allocated_def hex64_digest char_defs net_off_sel

lemmas machine_defs = requested_machine_def starting_machine_def running_machine_def stopped_machine_def
  sample_cohort_def sample_size_def

lemmas fleet_defs = sample_fleet_def sample_host_def machine_defs resources_le plus_resources_def zero_resources_def

lemma sample_fleet_inv: "fleet_inv sample_fleet"
  by (simp add: fleet_inv_def fleet_defs check_defs accounted_def committed_def weight_def extends_ok_def opt_ok_def)

lemmas placement_defs = reserve_def validateResources_def raw_of_def not_positive_def MAX_SAFE_INTEGER_def
  enforceQuota_def enforce_def quota_exceeded_def used_machines_def used_resources_def candidate_seconds_def
  present_def falsy_def select_host_def sort_by_def first_row_def eligible_def host_accepting_def host_fresh_def
  host_has_room_def host_free_def least_available_def reserve_candidate_def reserve_source_def source_digest_def
  reserve_cmp_def cmp_of_def cached_template_def requested_template_def add_reserved_def assign_machine_def
  update_hosts_def update_machines_def store_machine_def machine_trigger_def host_check_def cohort_check_def
  databaseRuntimeArchitecture_def sample_request_def minus_resources_def insert_event_def assigned_event_def

definition sample_placed :: "reservation \<times> fleet" where
  "sample_placed = projr (reserve sample_pgdiv sample_policy [] sample_request 1000000 sample_fleet)"

lemma sample_reserve:
  "reserve sample_pgdiv sample_policy [] sample_request 1000000 sample_fleet = Inr (fst sample_placed, snd sample_placed)"
  unfolding sample_placed_def by (rule projr_pair) (simp add: Let_def placement_defs fleet_defs check_defs)

section \<open>Scheduling\<close>


theorem reserve_within_quota_witness:
  "used_machines (\<lambda>x. m_organization_id x = ''org'') (snd sample_placed) \<le> 10 \<and>
    used_resources (\<lambda>x. m_project_id x = ''project'') (snd sample_placed) \<le> Resources 100 100000 1000000"
  using reserve_within_quota [OF sample_fleet_inv sample_reserve,
      of "requested_machine ''m_request-0001''" "hd (organizations sample_fleet)" "hd (projects sample_fleet)"]
  by (simp add: sample_request_def sample_fleet_def requested_machine_def present_def falsy_def)

section \<open>Claims and extensions\<close>

definition sample_claimed :: "string option \<times> fleet" where
  "sample_claimed = projr (claimCreate ''token'' ''m_request-0001'' 1000000 sample_fleet)"

lemmas statement_defs = update_machines_def store_machine_def machine_trigger_def sql_update_def update_hosts_def
  update_forks_def update_extends_def

lemma sample_claim:
  "claimCreate ''token'' ''m_request-0001'' 1000000 sample_fleet = Inr (Some ''token'', snd sample_claimed)"
  unfolding sample_claimed_def
  by (simp add: claimCreate_def claimable_def statement_defs fleet_defs check_defs)

theorem claimCreate_exclusive_witness:
  "claimCreate ''other'' ''m_request-0001'' 1200000 (snd sample_claimed) = Inr (None, snd sample_claimed)"
  using claimCreate_exclusive [OF sample_fleet_inv sample_claim, of 1200000 "''other''"] by simp

definition sample_begun :: "extend_operation option \<times> fleet" where
  "sample_begun = projr (beginExtend sample_pgdiv sample_policy 7 ''m_running-0001'' ''org'' ''project'' ''key'' ''hash'' 900
     1000000 sample_fleet)"

lemma sample_begin:
  "beginExtend sample_pgdiv sample_policy 7 ''m_running-0001'' ''org'' ''project'' ''key'' ''hash'' 900 1000000 sample_fleet =
     Inr (Some \<lparr>xo_id = 7, xo_requestHash = ''hash'', xo_targetExpiresAt = 1900000, xo_resultExpiresAt = None,
       xo_replayed = False\<rparr>, snd sample_begun)"
  unfolding sample_begun_def
  by (simp add: Let_def beginExtend_def fleet_defs check_defs present_def falsy_def committed_until_def max_time_def
      enforce_def fromExtendOperationRow_def)

theorem beginExtend_replay_witness:
  "beginExtend sample_pgdiv sample_policy 8 ''m_running-0001'' ''org'' ''project'' ''key'' ''other'' 60 1000001 (snd sample_begun) =
     Inr (Some \<lparr>xo_id = 7, xo_requestHash = ''hash'', xo_targetExpiresAt = 1900000, xo_resultExpiresAt = None,
       xo_replayed = True\<rparr>, snd sample_begun)"
  using beginExtend_replay [OF sample_begin, of sample_pgdiv sample_policy 8 "''other''" 60 1000001] by simp

lemma begun_inv: "fleet_inv (snd sample_begun)"
  by (rule inv_beginExtend [OF sample_fleet_inv sample_begin])

lemma begun_ops: "extend_ops (snd sample_begun) = [\<lparr>x_id = 7, x_organization_id = ''org'', x_project_id = ''project'',
    x_machine_id = ''m_running-0001'', x_idempotency_key = ''key'', x_request_hash = ''hash'',
    x_target_expires_at = 1900000, x_result_expires_at = None, x_completed_at = None\<rparr>]"
  unfolding sample_begun_def
  by (simp add: Let_def beginExtend_def fleet_defs check_defs present_def falsy_def committed_until_def max_time_def
      enforce_def fromExtendOperationRow_def)

lemma begun_machines: "machines (snd sample_begun) = machines sample_fleet" "hosts (snd sample_begun) = hosts sample_fleet"
    "templates (snd sample_begun) = templates sample_fleet"
  unfolding sample_begun_def
  by (simp_all add: Let_def beginExtend_def fleet_defs check_defs present_def falsy_def committed_until_def max_time_def
      enforce_def fromExtendOperationRow_def)

definition sample_extended :: "time \<times> fleet" where
  "sample_extended = projr (completeExtend 7 ''m_running-0001'' ''org'' 1900000 1000002 (snd sample_begun))"

lemma sample_complete:
  "completeExtend 7 ''m_running-0001'' ''org'' 1900000 1000002 (snd sample_begun) = Inr (fst sample_extended, snd sample_extended)"
  unfolding sample_extended_def
  by (rule projr_pair)
    (simp add: Let_def completeExtend_def begun_ops begun_machines statement_defs extend_check_def fleet_defs check_defs
      source_digest_def)

lemma sample_complete_again:
  "completeExtend 7 ''m_running-0001'' ''org'' 2000000 1000003 (snd sample_extended) =
     Inr (1900000, snd sample_extended)"
  unfolding sample_extended_def
  by (simp add: Let_def completeExtend_def begun_ops begun_machines statement_defs extend_check_def fleet_defs check_defs
      source_digest_def)

theorem completeExtend_final_witness: "1900000 \<le> fst sample_extended \<and> 1900000 = fst sample_extended"
  using completeExtend_final [OF begun_inv sample_complete, of "hd (extend_ops (snd sample_begun))", OF _ _ fleet_le_refl
      inv_completeExtend [OF begun_inv sample_complete] sample_complete_again]
  by (simp add: begun_ops)

section \<open>Forks\<close>

definition sample_draw :: fork_draw where
  "sample_draw = \<lparr>dr_operationId = ''op-1'', dr_children = (\<lambda>n. (''m_child-000001'', ''lease-child''))\<rparr>"

definition sample_fork_request :: fork_request where
  "sample_fork_request = \<lparr>fq_sourceMachineId = ''m_running-0001'', fq_organizationId = ''org'', fq_projectId = ''project'',
     fq_idempotencyKey = ''key'', fq_requestHash = digest (CHR ''7''), fq_count = 1, fq_auditOperationId = ''audit''\<rparr>"

definition sample_forked :: "fork_operation option \<times> fleet" where
  "sample_forked = projr (beginFork sample_net sample_sha256 sample_pgdiv sample_policy sample_draw sample_fork_request
     1000000 sample_fleet)"

lemmas fork_defs = beginFork_def forkable_def remaining_seconds_def ceil_div_def insert_fork_def fork_check_def
  fork_row_of_def idempotency_key_ok_def insert_machine_def child_machine_row_def child_hash_def sample_sha256_def
  insert_child_def insert_event_strict_def fork_allocated_event_def sample_draw_def sample_fork_request_def rscale_def
  loadForkOperation_def child_machines_def children_of_def List.map_filter_def fromRow_def canonical_off
  show_nat.simps digit_char_def

lemma sample_fork:
  "beginFork sample_net sample_sha256 sample_pgdiv sample_policy sample_draw sample_fork_request 1000000 sample_fleet =
     Inr (fst sample_forked, snd sample_forked)"
  unfolding sample_forked_def
  by (rule projr_pair) (simp add: Let_def fork_defs placement_defs fleet_defs check_defs)

lemma forked_differs: "snd sample_forked \<noteq> sample_fleet"
proof
  assume "snd sample_forked = sample_fleet"
  then have "length (fork_ops (snd sample_forked)) = 0" by (simp add: sample_fleet_def)
  then show False
    unfolding sample_forked_def by (simp add: Let_def fork_defs placement_defs fleet_defs check_defs)
qed

theorem beginFork_allocates_batch_witness:
  "\<exists>rs. machines (snd sample_forked) = machines sample_fleet @ rs \<and> length rs = 1 \<and>
    list_all (\<lambda>m. m_fork_operation_id m = Some ''op-1'' \<and>
      find_machine sample_net (m_id m) ''org'' None (snd sample_forked) = Inr None) rs"
  using beginFork_allocates_batch [OF sample_fleet_inv sample_fork forked_differs, of "''org''" None]
  by (auto simp: list_all_iff sample_draw_def sample_fork_request_def)

text \<open>The same fleet while a fork of the running machine is pending.\<close>

definition pending_fork :: fork_row where
  "pending_fork = fork_row_of ''op-1'' ''audit'' (running_machine ''m_running-0001'') ''key'' (digest (CHR ''7'')) 1 1000000"

definition pending_child_row :: machine_row where
  "pending_child_row = child_machine_row sample_sha256 ''op-1'' (running_machine ''m_running-0001'') (digest (CHR ''7'')) 0
     ''m_child-000001'' ''lease-child'' 1000000"

definition pending_fleet :: fleet where
  "pending_fleet = sample_fleet\<lparr>fork_ops := [pending_fork],
     fork_children := [\<lparr>c_operation_id = ''op-1'', c_ordinal = 0, c_machine_id = ''m_child-000001'', c_lease_id = ''lease-child''\<rparr>],
     machines := machines sample_fleet @ [pending_child_row],
     hosts := [sample_host ''h1'' ''10.0.0.1'' (Resources 6 3072 6144), sample_host ''h2'' ''10.0.0.2'' 0]\<rparr>"

lemmas pending_defs = pending_fleet_def pending_fork_def pending_child_row_def fork_defs

lemma pending_fleet_inv: "fleet_inv pending_fleet"
  by (simp add: fleet_inv_def pending_defs fleet_defs check_defs accounted_def committed_def weight_def extends_ok_def
      opt_ok_def child_ok_def)

definition sample_host_machine :: host_machine where
  "sample_host_machine = \<lparr>hm_id = ''vm-2'', hm_status = ''running'', hm_lease_id = Some ''lease-child'',
     hm_lease_generation = Some 1,
     hm_metadata = [(''public_machine_id'', ''m_child-000001''), (''parent_machine_id'', ''m_running-0001''),
       (''fork_operation_id'', ''op-1'')],
     hm_ready = True, hm_started_at = Some (Date 1000500), hm_ready_at = None, hm_expires_at = Some (Date 1600000),
     hm_resources = Some sample_size, hm_network_policy = Some (decl_json net_off),
     hm_runtime_cohort_id = Some (digest (CHR ''0'')), hm_source_sha256 = Some (digest (CHR ''4''))\<rparr>"

definition fork_completed :: fleet where
  "fork_completed = projr (completeForkTx sample_net ''op-1'' [sample_host_machine] 1001000 pending_fleet)"

lemmas completion_defs = completeForkTx_def batch_shape_ok_def check_fork_child_def by_public_id_def observed_policy_def
  all_ready_def complete_child_def complete_child_row_def coalesce_def succeed_fork_def fork_ready_event_def
  sort_by_def cmp_of_def recordForkTerminalAudit_def jsonb_merge_def sample_host_machine_def statement_defs source_digest_def insert_event_def

lemma sample_fork_complete:
  "completeForkTx sample_net ''op-1'' [sample_host_machine] 1001000 pending_fleet = Inr fork_completed"
  unfolding fork_completed_def
  by (rule projr_Inr) (simp add: Let_def completion_defs pending_defs fleet_defs check_defs)

lemma fork_completed_ops: "map f_state (fork_ops fork_completed) = [Succeeded]" "map f_id (fork_ops fork_completed) = [''op-1'']"
  unfolding fork_completed_def
  by (simp_all add: Let_def completion_defs pending_defs fleet_defs check_defs)

theorem completeFork_all_running_witness:
  "\<not> list_ex (\<lambda>m. m_id m = ''m_child-000001'' \<and> m_state m \<noteq> Running) (machines fork_completed)"
  using completeFork_all_running [OF pending_fleet_inv sample_fork_complete, of "hd (fork_ops fork_completed)"]
    fork_completed_ops
  by (cases "fork_ops fork_completed") (auto simp: list_ex_iff pending_defs)

definition fork_failed :: fleet where
  "fork_failed = projr (failForkTx ''op-1'' 502 ''host_request_failed'' ''rejected'' 1001000 pending_fleet)"

lemmas failure_defs = failForkTx_def fail_children_def live_child_def fail_child_row_def fork_failed_event_def
  fail_fork_row_def failure_code_ok_def sub_reserved_def sub_clamp_def host_check_def cohort_check_def
  databaseRuntimeArchitecture_def

lemma sample_fork_fail:
  "failForkTx ''op-1'' 502 ''host_request_failed'' ''rejected'' 1001000 pending_fleet = Inr fork_failed"
  unfolding fork_failed_def
  by (rule projr_Inr) (simp add: Let_def failure_defs completion_defs pending_defs fleet_defs check_defs)

theorem failFork_releases_all_witness:
  "\<not> list_ex (\<lambda>m. m_fork_operation_id m = Some ''op-1'' \<and> m_state m \<noteq> Failed) (machines fork_failed) \<and>
    list_all (\<lambda>h. h_reserved h = committed (h_id h) (machines fork_failed)) (hosts fork_failed)"
  using failFork_releases_all [OF pending_fleet_inv sample_fork_fail, of pending_fork]
  by (simp add: list_ex_iff list_all_iff pending_defs)

definition cleanup_fleet :: fleet where
  "cleanup_fleet = snd (projr (requestForkCleanupTx ''token'' ''op-1'' 502 ''fork_batch_failed'' ''incomplete'' 1000500 pending_fleet))"

lemma sample_request_cleanup:
  "requestForkCleanupTx ''token'' ''op-1'' 502 ''fork_batch_failed'' ''incomplete'' 1000500 pending_fleet =
     Inr (Some ''token'', cleanup_fleet)"
  unfolding cleanup_fleet_def
  by (simp add: requestForkCleanupTx_def cleanup_claimable_def failure_defs completion_defs pending_defs fleet_defs check_defs)

lemma cleanup_fleet_eq: "cleanup_fleet = pending_fleet\<lparr>fork_ops := [pending_fork\<lparr>f_cleanup_requested_at := Some 1000500,
    f_cleanup_failure_status := Some 502, f_cleanup_failure_code := Some ''fork_batch_failed'',
    f_cleanup_failure_message := Some ''incomplete'', f_reconcile_after := 1000500,
    f_cleanup_claim_token := Some ''token'', f_cleanup_claimed_until := Some 1300500\<rparr>]\<rparr>"
  unfolding cleanup_fleet_def
  by (simp add: requestForkCleanupTx_def cleanup_claimable_def failure_defs completion_defs pending_defs fleet_defs check_defs)

definition cleaned_fleet :: fleet where
  "cleaned_fleet = projr (completeForkCleanupTx ''op-1'' ''token'' 1001000 cleanup_fleet)"

lemma sample_cleanup:
  "completeForkCleanupTx ''op-1'' ''token'' 1001000 cleanup_fleet = Inr cleaned_fleet"
  unfolding cleaned_fleet_def cleanup_fleet_eq
  by (rule projr_Inr)
    (simp add: Let_def completeForkCleanupTx_def failure_defs completion_defs pending_defs fleet_defs check_defs)

theorem completeForkCleanup_claimed_witness:
  "\<not> list_ex (\<lambda>m. m_fork_operation_id m = Some ''op-1'' \<and> m_state m \<noteq> Failed) (machines cleaned_fleet)"
  using completeForkCleanup_claimed [OF inv_requestForkCleanup [OF pending_fleet_inv sample_request_cleanup, THEN conjunct1]
      sample_cleanup, of "hd (fork_ops cleanup_fleet)"]
  by (simp add: list_ex_iff cleanup_fleet_eq pending_fork_def fork_row_of_def)

section \<open>Billing\<close>

theorem ceilingPrice_exact_witness: "\<lceil>quantity_value (QBig 5) * 3 / 2\<rceil> = 8"
  using ceilingPrice_exact [of "QBig 5" 3 2 8] by (simp add: ceilingPrice_def)

definition capped_fleet :: "int \<Rightarrow> fleet" where
  "capped_fleet cap = sample_fleet\<lparr>machines := [],
     billing_accounts := [\<lparr>b_organization_id = ''org'', b_plan = ''private_beta'', b_spend_cap_cents = Some cap,
       b_delinquent_at = None\<rparr>]\<rparr>"

definition sample_delta :: commitment_delta where
  "sample_delta = \<lparr>bd_vcpuSeconds = Some 3600, bd_memoryMebibyteSeconds = None, bd_storageByteSeconds = None\<rparr>"

definition flat_policy :: admission_policy where
  "flat_policy = \<lparr>ap_rates = map (\<lambda>d. (d, 20)) meterDimensions, ap_plan = ''private_beta''\<rparr>"

lemmas billing_defs = enforce_def capped_fleet_def flat_policy_def meterDimensions_def priced_items_def rate_of_def
  usage_by_dimension_def durable_usage_def durable_vcpu_seconds_def durable_memory_seconds_def
  durable_storage_seconds_def machine_commitments_def ceilingPrice_def decimal_numeric_text or_zero_def sample_delta_def
  microsPerCent_def mebibytesPerGibibyte_def bytesPerGibibyteHour_def sample_fleet_def

lemma sample_enforce:
  "enforce sample_pgdiv flat_policy (capped_fleet 8) ''org'' sample_delta 1000000 = None"
  "enforce sample_pgdiv flat_policy (capped_fleet 7) ''org'' sample_delta 1000000 =
     Some (BillingAdmissionRejected ''spend_cap_exceeded''
       ''Organization spend cap would be exceeded by this resource commitment.'')"
  by (simp_all add: billing_defs)

theorem enforce_within_cap_witness:
  "projected_cost sample_pgdiv flat_policy (capped_fleet 8) ''org'' sample_delta 1000000 \<le> 80000"
  using enforce_within_cap [OF sample_enforce(1), of "hd (billing_accounts (capped_fleet 8))" 8]
  by (simp add: capped_fleet_def flat_policy_def)

theorem enforce_rejects_only_near_cap_witness:
  "70000 < projected_cost sample_pgdiv flat_policy (capped_fleet 7) ''org'' sample_delta 1000000 + 11"
  using enforce_rejects_only_near_cap [OF sample_enforce(2), of "hd (billing_accounts (capped_fleet 7))"]
  by (simp add: capped_fleet_def)

definition exact_number :: "time \<Rightarrow> int \<Rightarrow> int \<Rightarrow> numeric13" where
  "exact_number ms n d = numeric_seconds ms * n div d"

definition sample_run :: runtime_input where
  "sample_run = \<lparr>ru_eventPrefix = ''run'', ru_organizationId = ''org'', ru_projectId = ''project'',
     ru_machineId = ''m_running-0001'', ru_vcpus = 2, ru_memoryMb = 1024, ru_start = 0, ru_end = 60000,
     ru_source = ''reconciler''\<rparr>"

definition sample_recorded :: fleet where
  "sample_recorded = snd (recordMachineRuntime exact_number sample_run sample_fleet)"

lemma sample_record: "recordMachineRuntime exact_number sample_run sample_fleet = (Inr (), sample_recorded)"
proof -
  let ?prefix = "''run:0:'' @ toISOString 0"
  have "?prefix @ '':memory'' \<noteq> ?prefix @ '':vcpu''" by simp
  then show ?thesis
    unfolding sample_recorded_def recordMachineRuntime_def
    by (simp add: runtime_loop.simps [of _ _ 0] runtime_loop.simps [of _ _ 60000] sample_run_def nextMidnight_def
        segment_events_def append_usage_def exact_number_def numeric_seconds_def fleet_defs Let_def show_nat.simps
        digit_char_def)
qed

theorem recordMachineRuntime_retry_witness:
  "recordMachineRuntime exact_number sample_run sample_recorded = (Inr (), sample_recorded)"
  by (rule recordMachineRuntime_retry [OF sample_record])

theorem recordMachineRuntime_exact_witness:
  "\<exists>es. sample_recorded = sample_fleet\<lparr>usage_events := es\<rparr> \<and>
    sum_list (map u_quantity (filter (\<lambda>u. u_dimension u = vcpu_seconds) es)) = 120 * 10 ^ 13"
  using recordMachineRuntime_exact [OF sample_record]
  by (auto simp: sample_fleet_def sample_run_def exact_number_def numeric_seconds_def)

theorem recordMachineRuntime_completes_witness:
  "\<exists>s'. recordMachineRuntime exact_number sample_run sample_fleet = (Inr (), s') \<and> length (usage_events s') \<le> 2"
proof -
  have "0 \<le> exact_number ms n d" if "0 \<le> ms" "0 \<le> n" "0 < d" for ms n d
    using that by (simp add: exact_number_def numeric_seconds_def pos_imp_zdiv_nonneg_iff)
  from recordMachineRuntime_completes [of sample_run exact_number sample_fleet, OF _ _ _ this] show ?thesis
    by (auto simp: sample_run_def fleet_defs)
qed

section \<open>Cohorts, policies and host answers\<close>

definition cohort_wire :: json where
  "cohort_wire = runtimeCohortWire sample_cohort"

lemma sample_parse: "parseRuntimeCohort sample_sha256 cohort_wire (Some X86_64) = Inr sample_cohort"
  by (simp add: parseRuntimeCohort_def cohort_wire_def runtimeCohortWire_def sample_cohort_def cohort_fields_def
      hex64_digest char_defs Let_def databaseRuntimeArchitecture_def equalDigest_def runtimeCohortId_def sample_sha256_def)

theorem parse_wire_roundtrip_witness:
  "parseRuntimeCohort sample_sha256 (runtimeCohortWire sample_cohort) None = Inr sample_cohort"
  using parse_wire_roundtrip [OF sample_parse] by simp

theorem cohort_id_binds_witness: "cohort_digests sample_cohort = cohort_digests sample_cohort"
  using cohort_id_binds [OF sample_parse sample_parse refl] by simp

definition sample_declaration :: json where
  "sample_declaration = JObj [(''mode'', JStr ''allowlist''), (''hostnames'', JArr [JStr ''example.com.'']),
     (''cidrs'', JArr [JStr ''203.0.113.0/24''])]"

definition sample_egress :: egress_policy where
  "sample_egress = \<lparr>ep_declaration = \<lparr>nd_mode = NetAllowlist, nd_hostnames = [''example.com''],
       nd_cidrs = [''203.0.113.0/24'']\<rparr>, ep_hostnames = [''example.com''],
     ep_allowedAddresses = [(''203.0.113.0'', 24, 4)], ep_learned = Map.empty, ep_additionalBlockedCidrs = []\<rparr>"

lemmas net_defs = sample_net_def ipv4_def read_nat_def char_digit_def char_defs addCidr_def isSafeInteger.simps
  MAX_SAFE_INTEGER_def

lemma sample_egress_ok: "EgressPolicy sample_net sample_declaration [] = Inr sample_egress"
  by (simp add: EgressPolicy_def sample_declaration_def mode_of_def egress_build_def normalizeHostname_def
      toLowerCase_def lower_char_def js_trim_def is_space_def validHostnameRule_def valid_label_def valid_top_label_def
      label_edge_def startsWith_def sample_egress_def net_defs Let_def)

theorem EgressPolicy_idempotent_witness:
  "EgressPolicy sample_net (decl_json (ep_declaration sample_egress)) [] = Inr sample_egress"
  by (rule EgressPolicy_idempotent [OF sample_egress_ok])

lemma sample_not_blocked: "isHardBlockedAddress sample_net ''203.0.113.7'' [] = Inr False"
  by (simp add: isHardBlockedAddress_def hardFloorCidrs_def block_check_def net_defs Let_def)

lemma sample_allows: "allowsAddress sample_net sample_egress ''203.0.113.7'' 0 = Inr (True, sample_egress)"
  using sample_not_blocked
  by (simp add: allowsAddress_def sample_egress_def block_check_def net_defs Let_def)

theorem allowsAddress_safe_witness:
  "isHardBlockedAddress sample_net ''203.0.113.7'' [] = Inr False \<and>
    block_check sample_net (ep_allowedAddresses sample_egress) ''203.0.113.7'' 4"
  using allowsAddress_safe [OF sample_allows] by (simp add: sample_egress_def net_defs Let_def)

definition sample_learned :: egress_policy where
  "sample_learned = snd (learnDns sample_net sample_egress ''example.com'' [''203.0.113.7''] 3600 0)"

lemma sample_learn:
  "learnDns sample_net sample_egress ''example.com'' [''203.0.113.7''] 3600 0 = (None, sample_learned)"
  using sample_not_blocked unfolding sample_learned_def
  by (simp add: learnDns_def sample_egress_def allowsHostname_def hostnameMatches_def normalizeHostname_def
      toLowerCase_def lower_char_def startsWith_def net_defs Let_def)

theorem learnDns_bounded_witness:
  "ep_learned sample_learned ''203.0.113.7'' = Some \<lparr>la_hostname = ''example.com'', la_expiresAt = 300000\<rparr>"
  using learnDns_bounded [OF sample_learn, of "''203.0.113.7''"]
  by (simp add: normalizeHostname_def toLowerCase_def lower_char_def char_defs Let_def)

definition sample_fork_child :: fork_child where
  "sample_fork_child = \<lparr>fc_leaseId = ''lease-child'', fc_leaseGeneration = 1, fc_expiresAt = 1600000,
     fc_networkPolicy = net_off, fc_resources = sample_size,
     fc_metadata = [(''public_machine_id'', ''m_child-000001''), (''parent_machine_id'', ''m_running-0001''),
       (''fork_operation_id'', ''op-1'')],
     fc_runtimeCohortId = Some (digest (CHR ''0'')), fc_sourceSha256 = Some (digest (CHR ''4''))\<rparr>"

lemma sample_fork_answer:
  "client_fork sample_net (Responded 200 [] None (Some [Some sample_host_machine])) ''10.0.0.1'' [sample_fork_child] =
     Inr [sample_host_machine]"
  by (simp add: client_fork_def client_request_def falsy_def sample_fork_child_def sample_host_machine_def
      fork_child_ok_def observed_policy_def canonical_off List.map_filter_def net_defs Let_def)

theorem client_fork_full_batch_witness: "hm_lease_id sample_host_machine = Some (fc_leaseId sample_fork_child)"
  using client_fork_full_batch [OF sample_fork_answer] by (simp add: sample_fork_child_def)

end
