(* ===== verification/SampleRuns.thy ===== *)
theory SampleRuns
  imports Samples
begin

text \<open>
  Concrete runs: the control plane, its reconciler and its host service at work on the sample
  fleet, and the properties of whole runs applied to them.
\<close>

section \<open>A world\<close>

definition sample_client :: "(error + unit) \<Rightarrow> host_client" where
  "sample_client answer =
     \<lparr>host_create = (\<lambda>address request. Inl (HostRequestError (Some 503) ''full'' True None)),
      host_get = (\<lambda>address i. Inr None), host_destroy = (\<lambda>address i lease. answer),
      host_extend = (\<lambda>address i lease key until. Inl (HostRequestError (Some 503) ''busy'' True None)),
      host_fork = (\<lambda>address i lease key children. Inl (HostRequestError (Some 503) ''busy'' True None)),
      host_exec = (\<lambda>address i lease command timeout. Inr None)\<rparr>"

definition sample_world :: "(error + unit) \<Rightarrow> world" where
  "sample_world answer =
     \<lparr>w_net = sample_net, w_sha256 = sample_sha256, w_pgdiv = sample_pgdiv, w_policy = sample_policy,
      w_host = sample_client answer, w_locked = [], w_uuid = (\<lambda>n. ''uuid-'' @ show_nat n),
      w_machine_id = (\<lambda>n. ''m_created-0001''), w_seq = 7, w_clock = (\<lambda>n. 1000000)\<rparr>"

definition sample_input :: create_machine where
  "sample_input =
     \<lparr>cm_organizationId = ''org'', cm_projectId = ''project'', cm_region = ''eu'', cm_architecture = X86_64,
      cm_resources = raw_of sample_size, cm_template = Some ''python'', cm_templateId = None, cm_ociReference = None,
      cm_networkPolicy = None, cm_ttlSeconds = JSInt 600, cm_idempotencyKey = ''key-m_running-0001''\<rparr>"

lemma sample_validate: "create_validate sample_net sample_input = Inr (sample_size, net_off)"
  by (simp add: create_validate_def sample_input_def idempotency_key_ok_def present_def falsy_def ttl_ok_def
      validateResources_raw_of machine_sized_def sample_size_def canonical_off net_off_sel MAX_SAFE_INTEGER_def
      validateResources_def raw_of_def not_positive_def char_defs)

section \<open>Runs of the control plane\<close>

text \<open>From an empty fleet: a machine is requested, then placed.\<close>

definition empty_fleet :: fleet where
  "empty_fleet = sample_fleet\<lparr>machines := [], hosts := [sample_host ''h1'' ''10.0.0.1'' 0, sample_host ''h2'' ''10.0.0.2'' 0]\<rparr>"

definition sample_machine :: machine where
  "sample_machine = projr (fromRow sample_net sample_fleet (requested_machine ''m_request-0001''))"

definition run_requested :: fleet where
  "run_requested = projr (insertRequested ''u1'' sample_machine ''key'' 0 empty_fleet)"

lemmas row_defs = fromRow_def canonical_off host_address_of_def host_template_of_def requested_row_def coalesce_def
  or_zero_def

lemmas request_defs = insertRequested_def sample_machine_def insert_machine_def event_def empty_fleet_def row_defs
  present_def falsy_def statement_defs fleet_defs check_defs idempotency_key_ok_def insert_event_strict_def

lemma run_request: "insertRequested ''u1'' sample_machine ''key'' 0 empty_fleet = Inr run_requested"
  unfolding run_requested_def by (rule projr_Inr) (simp add: Let_def request_defs)

definition run_placed :: "reservation \<times> fleet" where
  "run_placed = projr (reserve sample_pgdiv sample_policy [] sample_request 1000000 run_requested)"

lemma run_place:
  "reserve sample_pgdiv sample_policy [] sample_request 1000000 run_requested = Inr (fst run_placed, snd run_placed)"
  unfolding run_placed_def run_requested_def
  by (rule projr_pair) (simp add: Let_def request_defs placement_defs)

lemma run_requested_machines: "machines run_requested = [requested_row sample_machine ''key'' 0]"
  unfolding run_requested_def by (simp add: Let_def request_defs)

lemma placing_step: "step run_requested (snd run_placed)"
  by (rule step.reserved [OF _ _ _ run_place, of "requested_row sample_machine ''key'' 0"])
    (simp_all add: run_requested_machines sample_request_def sample_machine_def row_defs machine_defs)

lemma empty_initial: "initial empty_fleet"
  by (simp add: initial_def empty_fleet_def fleet_defs host_check_def cohort_check_def databaseRuntimeArchitecture_def
      hex64_digest char_defs opt_ok_def)

lemma run_placed_hosts: "\<exists>h\<in>set (hosts (snd run_placed)). h_id h = ''h1''"
proof -
  have "''h1'' \<in> set (map h_id (hosts (snd run_placed)))"
    unfolding run_placed_def run_requested_def by (simp add: Let_def request_defs placement_defs)
  then show ?thesis by auto
qed

theorem reservations_exact_witness:
  "\<exists>h\<in>set (hosts (snd run_placed)). h_id h = ''h1'' \<and> h_reserved h = committed ''h1'' (machines (snd run_placed)) \<and>
    h_reserved h \<le> h_total h"
proof -
  have "step\<^sup>*\<^sup>* empty_fleet run_requested" by (rule r_into_rtranclp) (rule step.requested [OF run_request])
  then have "step\<^sup>*\<^sup>* empty_fleet (snd run_placed)" using placing_step by (rule rtranclp.rtrancl_into_rtrancl)
  note exact = reservations_exact [OF empty_initial this]
  obtain h where "h \<in> set (hosts (snd run_placed))" "h_id h = ''h1''" using run_placed_hosts by (rule bexE)
  with exact [of h] show ?thesis by (intro bexI [of _ h]) argo+
qed

lemma sample_step: "step sample_fleet (snd sample_placed)"
  by (rule step.reserved [OF _ _ _ sample_reserve, of "requested_machine ''m_request-0001''"])
    (simp_all add: sample_fleet_def sample_request_def requested_machine_def)

lemma sample_steps: "step\<^sup>*\<^sup>* sample_fleet (snd sample_placed)"
  using sample_step by (rule r_into_rtranclp)

theorem machine_life_forward_witness:
  "\<exists>m\<in>set (machines (snd sample_placed)). m_id m = ''m_stopped-0001'' \<and> m_state m = Stopped \<and> m_host_id m = Some ''h1''"
  using machine_life_forward [OF sample_fleet_inv sample_steps, of "stopped_machine ''m_stopped-0001''"]
  by (auto simp: sample_fleet_def machine_defs terminal_def)

lemma sample_hash_binds: "hash_binds (sample_world answer) sample_input sample_fleet"
  by (simp add: hash_binds_def sample_world_def sample_validate sample_fleet_def machine_defs)

definition sample_reconciler :: reconciler where
  "sample_reconciler = \<lparr>mr_metering = True, mr_usage = True, mr_number = exact_number, mr_text = (\<lambda>e. ''failed'')\<rparr>"

theorem calls_keep_books_witness:
  "fleet_inv (snd (create (sample_world (Inr ())) sample_input sample_fleet)) \<and>
    fleet_inv (snd (destroy (sample_world (Inr ())) ''m_running-0001'' ''org'' None sample_fleet)) \<and>
    fleet_inv (snd (runLocked sample_reconciler (\<lambda>n. sample_world (Inr ())) sample_fleet))"
  using calls_keep_books [OF sample_fleet_inv sample_hash_binds [of "Inr ()"], of "''m_running-0001''" "''org''" None
      "JSInt 900" "''key''" "JSInt 1" "''audit''" sample_reconciler "\<lambda>n. sample_world (Inr ())" 1000000]
  by simp

section \<open>Calls on a machine\<close>

lemmas read_defs = find_machine_def findByIdempotency_def from_first_def fork_visible_def

lemma sample_requested:
  "find_machine sample_net ''m_request-0001'' ''org'' None sample_fleet = Inr (Some sample_machine)"
  by (simp add: read_defs sample_machine_def row_defs fleet_defs)

theorem destroy_requested_fails_witness:
  "\<exists>e. destroy (sample_world (Inr ())) ''m_request-0001'' ''org'' None sample_fleet = (Inl (DbError e), sample_fleet)"
  using destroy_requested_fails [OF sample_fleet_inv, of "sample_world (Inr ())" "''m_request-0001''" "''org''" None sample_machine]
    sample_requested
  by (simp add: sample_world_def sample_machine_def row_defs machine_defs)

section \<open>The reconciler\<close>

definition stopping_machine :: machine_row where
  "stopping_machine = (running_machine ''m_running-0001'')
     \<lparr>m_state := Stopping, m_ready := False, m_ready_at := None, m_stopping_at := Some 950000\<rparr>"

definition stopping_fleet :: fleet where
  "stopping_fleet = sample_fleet\<lparr>machines := [stopping_machine, stopped_machine ''m_stopped-0001'']\<rparr>"

definition stopping_row :: reconcile_row where
  "stopping_row = reconcile_row_of stopping_fleet ''token'' 1000000 stopping_machine"

lemmas stopping_defs = stopping_fleet_def stopping_machine_def fleet_defs

lemma stopping_row_sel:
  "rr_id stopping_row = ''m_running-0001''" "rr_state stopping_row = Stopping" "rr_host_machine_id stopping_row = Some ''vm-1''"
  "rr_lease_id stopping_row = ''lease-m_running-0001''" "rr_host_id stopping_row = ''h1''" "rr_resources stopping_row = sample_size"
  by (simp_all add: stopping_row_def reconcile_row_of_def stopping_machine_def machine_defs)

lemma stopping_machine_sel:
  "m_id stopping_machine = ''m_running-0001''" "m_state stopping_machine = Stopping" "m_host_id stopping_machine = Some ''h1''"
  "m_lease_id stopping_machine = ''lease-m_running-0001''" "m_resources stopping_machine = sample_size"
  "stopping_machine \<in> set (machines stopping_fleet)"
  by (simp_all add: stopping_fleet_def stopping_machine_def machine_defs)

lemma stopping_fleet_inv: "fleet_inv stopping_fleet"
  by (simp add: fleet_inv_def stopping_defs check_defs accounted_def committed_def weight_def extends_ok_def opt_ok_def)

lemma stopping_hosts: "list_all host_check (hosts stopping_fleet)"
  by (simp add: stopping_defs host_check_def cohort_check_def databaseRuntimeArchitecture_def hex64_digest char_defs opt_ok_def)

lemma stopping_tracks: "tracks stopping_fleet stopping_row stopping_machine"
  by (simp add: tracks_def decided_def pending_child_def stopping_machine_sel stopping_row_sel)
    (simp add: stopping_fleet_def sample_fleet_def)

lemmas stopping_facts = stopping_machine_sel stopping_row_sel terminal_def

theorem finishAndRelease_once_witness:
  "\<exists>s'. finishAndRelease (sample_world (Inr ())) False stopping_row Stopped ''gone'' stopping_fleet = (Inr (), s') \<and>
    ended s' ''m_running-0001'' Stopped"
proof -
  have lease: "m_lease_id stopping_machine = rr_lease_id stopping_row" and alive: "\<not> terminal (m_state stopping_machine)"
    and t: "terminal Stopped" "Stopped \<noteq> Lost"
    by (simp_all add: stopping_facts)
  obtain s' where s': "finishAndRelease (sample_world (Inr ())) False stopping_row Stopped ''gone'' stopping_fleet = (Inr (), s')"
    by (rule finish_completes [OF stopping_fleet_inv stopping_hosts stopping_tracks lease alive t])
  from finishAndRelease_once [OF stopping_fleet_inv stopping_tracks lease alive t(1) s'] s' stopping_row_sel(1)
  show ?thesis by auto
qed

lemma sample_destroy: "host_destroy (w_host (sample_world answer)) address i lease = answer"
  by (simp add: sample_world_def sample_client_def)

theorem reconcile_stopping_confirmed_witness:
  "reconcile (sample_world (Inl (HostRequestError (Some 500) ''broken'' True None))) True stopping_row stopping_fleet =
     (Inl (HostRequestError (Some 500) ''broken'' True None), stopping_fleet)"
  using reconcile_stopping_confirmed [of stopping_row "''vm-1''" stopping_machine stopping_fleet
      "sample_world (Inl (HostRequestError (Some 500) ''broken'' True None))" True]
  by (simp add: stopping_facts refused_def sample_destroy is_not_found_def)

theorem reconcile_stopping_completes_witness:
  "\<exists>s'. reconcile (sample_world (Inr ())) True stopping_row stopping_fleet = (Inr (), s') \<and> ended s' ''m_running-0001'' Stopped"
  using reconcile_stopping_completes [OF stopping_fleet_inv stopping_hosts stopping_tracks, of "''vm-1''" "sample_world (Inr ())" True]
  by (simp add: stopping_facts refused_def sample_destroy is_not_found_def)

lemmas batch_defs = claimReconcileBatch_def reconcile_batch_def reconcile_due_def on_host_def pending_child_def
  sort_by_def claim_row_def cmp_of_def then_cmp_def reconcile_row_of_def statement_defs source_digest_def
  fleet_defs check_defs

definition first_batch :: "reconcile_row list \<times> fleet" where
  "first_batch = projr (claimReconcileBatch [] ''one'' 1000000 sample_fleet)"

lemma sample_batch: "claimReconcileBatch [] ''one'' 1000000 sample_fleet = Inr (fst first_batch, snd first_batch)"
  unfolding first_batch_def by (rule projr_pair) (simp add: Let_def batch_defs)

definition second_batch :: "reconcile_row list \<times> fleet" where
  "second_batch = projr (claimReconcileBatch [] ''two'' 1100000 (snd first_batch))"

lemma sample_second: "claimReconcileBatch [] ''two'' 1100000 (snd first_batch) = Inr (fst second_batch, snd second_batch)"
  unfolding second_batch_def first_batch_def by (rule projr_pair) (simp add: Let_def batch_defs)

lemma first_batch_ids: "map rr_id (fst first_batch) = [''m_running-0001'']"
  unfolding first_batch_def by (simp add: Let_def batch_defs)

lemma not_in_batch: "i \<in> set (map rr_id rows) \<Longrightarrow> rr_id ` set rows \<inter> rr_id ` set rows' = {} \<Longrightarrow>
    \<not> list_ex (\<lambda>r. rr_id r = i) rows'"
  by (auto simp: list_ex_iff)

theorem claimReconcileBatch_exclusive_witness: "\<not> list_ex (\<lambda>r. rr_id r = ''m_running-0001'') (fst second_batch)"
proof (rule not_in_batch [of _ "fst first_batch"])
  show "''m_running-0001'' \<in> set (map rr_id (fst first_batch))" by (simp only: first_batch_ids) simp
  show "rr_id ` set (fst first_batch) \<inter> rr_id ` set (fst second_batch) = {}"
    by (rule claimReconcileBatch_exclusive [OF sample_batch sample_second]) simp
qed

definition stale_fleet :: fleet where
  "stale_fleet = sample_fleet\<lparr>hosts := [(sample_host ''h1'' ''10.0.0.1'' (Resources 4 2048 4096))\<lparr>h_state := Stale\<rparr>]\<rparr>"

definition lost_fleet :: "machine_row list \<times> fleet" where
  "lost_fleet = projr (markLostTx stale_fleet)"

lemma sample_lost: "markLostTx stale_fleet = Inr (fst lost_fleet, snd lost_fleet)"
  unfolding lost_fleet_def
  by (rule projr_pair)
    (simp add: Let_def markLostTx_def lost_on_stale_def lost_row_def stop_time_def last_metered_def pending_child_def
      insert_event_def stale_event_def stale_fleet_def coalesce_def statement_defs source_digest_def fleet_defs check_defs)

theorem markLost_complete_witness:
  "list_all (\<lambda>m. list_ex (\<lambda>m'. m_id m' = m_id m \<and> m_state m' = Lost) (machines (snd lost_fleet))) (fst lost_fleet) \<and>
    map m_id (fst lost_fleet) = [''m_running-0001'']"
proof -
  note lost = markLost_complete [OF sample_lost]
  have "map m_id (filter (lost_on_stale stale_fleet) (machines stale_fleet)) = [''m_running-0001'']"
    by (simp add: lost_on_stale_def pending_child_def stale_fleet_def fleet_defs check_defs)
  with lost show ?thesis by argo
qed

end
