(* ===== verification/SampleHosts.thy ===== *)
theory SampleHosts
  imports Samples
begin

text \<open>
  Concrete runs of the host service, of the usage job, of a fork's cleanup and of the in-memory
  placement, and their properties applied to them.
\<close>

section \<open>Credentials\<close>

definition sample_env :: host_env where
  "sample_env = \<lparr>he_net = sample_net, he_sha256 = sample_sha256, he_inet = (\<lambda>a. a), he_encrypt = (\<lambda>t. ''sealed:'' @ t),
     he_decrypt = (\<lambda>t. Inr (drop 7 t)), he_hash = (\<lambda>t. ''hash:'' @ t), he_verify = (\<lambda>h t. h = ''hash:'' @ t)\<rparr>"

definition sample_service :: host_service where
  "sample_service = \<lparr>hs_allowed = [(''10.0.0.0'', 8, 4)], hs_expectedDaemonVersion = Some ''1.0''\<rparr>"

lemmas host_defs = update_lifecycle_def update_hosts_def with_reason_def checkedReason_def host_check_def cohort_check_def
  databaseRuntimeArchitecture_def coalesce_def opt_ok_def hex64_digest char_defs fleet_defs js_trim_def is_space_def

definition revoked_fleet :: "host_lifecycle option \<times> fleet" where
  "revoked_fleet = projr (revoke ''h1'' ''stolen'' 1000000 sample_fleet)"

lemma sample_revoke:
  "revoke ''h1'' ''stolen'' 1000000 sample_fleet = Inr (Some (the (fst revoked_fleet)), snd revoked_fleet)"
  unfolding revoked_fleet_def by (simp add: Let_def revoke_def cut_off_def host_defs)

definition reactivated_fleet :: "host_lifecycle option \<times> fleet" where
  "reactivated_fleet = projr (activate ''h1'' ''found'' (snd revoked_fleet))"

lemma sample_activate: "activate ''h1'' ''found'' (snd revoked_fleet) = Inr (fst reactivated_fleet, snd reactivated_fleet)"
  unfolding reactivated_fleet_def revoked_fleet_def
  by (rule projr_pair) (simp add: Let_def activate_def revoke_def cut_off_def host_defs)

theorem revoked_host_never_trusted_witness:
  "authenticateGeneration sample_env ''h1'' ''secret'' (snd reactivated_fleet) = None"
proof -
  have "(host_step sample_env sample_service)\<^sup>*\<^sup>* (snd revoked_fleet) (snd reactivated_fleet)"
    by (rule r_into_rtranclp) (rule host_step.activated [OF sample_activate])
  from revoked_host_never_trusted [OF sample_fleet_inv sample_revoke this] show ?thesis by simp
qed

definition strong_token :: "char \<Rightarrow> string" where
  "strong_token c = replicate 32 c"

definition rotated_fleet :: "(host_lifecycle \<times> string) option \<times> fleet" where
  "rotated_fleet = projr (rotateCredentials sample_env ''h1'' (strong_token (CHR ''c'')) (strong_token (CHR ''g'')) ''new'' ''leak''
     1000000 sample_fleet)"

lemma sample_rotate:
  "rotateCredentials sample_env ''h1'' (strong_token (CHR ''c'')) (strong_token (CHR ''g'')) ''new'' ''leak'' 1000000 sample_fleet =
     Inr (Some (the (fst rotated_fleet)), snd rotated_fleet)"
  unfolding rotated_fleet_def
  by (simp add: Let_def rotateCredentials_def validateHostCredentials_def strong_token_def rotated_def sample_env_def host_defs)

definition sample_beat :: host_heartbeat where
  "sample_beat = \<lparr>hh_state = Ready, hh_availableVcpus = JSInt 12, hh_availableMemoryMb = JSInt 14336,
     hh_availableDiskMb = JSInt 61440, hh_machineCount = JSInt 2, hh_kvmAvailable = True, hh_daemonVersion = ''1.0'',
     hh_runtimeCohort = sample_cohort\<rparr>"

lemma sample_wire_parse: "parseRuntimeCohort sample_sha256 (runtimeCohortWire sample_cohort) None = Inr sample_cohort"
  using sample_parse by (simp add: parseRuntimeCohort_def cohort_wire_def runtimeCohortWire_def sample_cohort_def cohort_fields_def
      hex64_digest char_defs Let_def databaseRuntimeArchitecture_def equalDigest_def runtimeCohortId_def sample_sha256_def)

lemma sample_beat_valid:
  "heartbeat_validate sample_sha256 sample_service sample_beat (JSInt 1) = Inr sample_cohort"
  using sample_wire_parse
  by (simp add: heartbeat_validate_def sample_beat_def natural_def isSafeInteger.simps MAX_SAFE_INTEGER_def
      daemon_version_ok_def host_name_ok_def sample_service_def char_defs Let_def)

theorem rotation_fences_heartbeats_witness:
  "(\<exists>e. heartbeat sample_env sample_service ''h1'' sample_beat (JSInt 1) 2000000 (snd rotated_fleet) = Inl e) \<or>
    heartbeat sample_env sample_service ''h1'' sample_beat (JSInt 1) 2000000 (snd rotated_fleet) = Inr (False, snd rotated_fleet)"
  using rotation_fences_heartbeats [OF sample_fleet_inv _ _ _ sample_rotate rtranclp.rtrancl_refl,
      of "hd (hosts sample_fleet)" 1 sample_service sample_beat 2000000]
  by (simp add: sample_fleet_def sample_host_def)

definition beaten_fleet :: "bool \<times> fleet" where
  "beaten_fleet = projr (heartbeat sample_env sample_service ''h1'' sample_beat (JSInt 1) 2000000 sample_fleet)"

lemma sample_heartbeat:
  "heartbeat sample_env sample_service ''h1'' sample_beat (JSInt 1) 2000000 sample_fleet = Inr (True, snd beaten_fleet)"
proof -
  have v: "heartbeat_validate (he_sha256 sample_env) sample_service sample_beat (JSInt 1) = Inr sample_cohort"
    using sample_beat_valid by (simp add: sample_env_def)
  show ?thesis
    unfolding beaten_fleet_def heartbeat_def v sum.case
    by (simp add: Let_def current_host_def trusted_def hh_available_def sample_beat_def
        cadence_valid_def heartbeat_host_def heartbeat_state_def host_defs)
qed

theorem heartbeat_ring_bounded_witness:
  "list_ex (\<lambda>x. hb_host_id x = ''h1'' \<and> hb_sample_slot x = sample_slot 2000000) (host_heartbeats (snd beaten_fleet)) \<and>
    length (filter (\<lambda>x. hb_host_id x = ''h1'') (host_heartbeats (snd beaten_fleet))) \<le> 1024"
proof -
  have "ring_ok sample_fleet" by (simp add: ring_ok_def sample_fleet_def)
  from heartbeat_ring_bounded [OF this sample_heartbeat, of "''h1''"] show ?thesis by (auto simp: list_ex_iff)
qed

section \<open>Enrollment\<close>

definition sample_token :: string where
  "sample_token = ''nhe_'' @ replicate 43 (CHR ''t'')"

definition sample_grant :: grant_row where
  "sample_grant = \<lparr>g_id = ''grant'', g_token_hash = sample_sha256 sample_token, g_host_id = ''h3'', g_provider_id = ''p3'',
     g_region_id = ''eu'', g_address = ''10.0.0.3'', g_architecture = X86_64, g_total = Resources 16 16384 65536,
     g_issued_by_organization_id = ''org'', g_issued_by_user_id = ''user'', g_cohort = Some sample_cohort,
     g_created_at = 0, g_expires_at = 1200000, g_consumed_at = None, g_revoked_at = None\<rparr>"

definition grant_fleet :: fleet where
  "grant_fleet = sample_fleet\<lparr>host_enrollment_grants := [sample_grant]\<rparr>"

definition sample_registration :: register_host where
  "sample_registration = \<lparr>hi_providerId = ''p3'', hi_regionId = ''eu'', hi_address = ''10.0.0.3'', hi_architecture = X86_64,
     hi_total = raw_of (Resources 16 16384 65536), hi_runtimeCohort = sample_cohort,
     rh_controlToken = strong_token (CHR ''c''), rh_gatewayToken = strong_token (CHR ''g'')\<rparr>"

lemma registration_identity: "validateHostIdentity sample_net (hs_allowed sample_service) sample_registration = None"
  by (simp add: validateHostIdentity_def sample_registration_def host_name_ok_def bounded_def isSafeInteger.simps
      sample_service_def block_check_def net_defs raw_of_def Let_def)

lemma registration_cohort: "validateCohort sample_sha256 sample_cohort X86_64 = Inr sample_cohort"
  using sample_parse by (simp add: validateCohort_def cohort_wire_def)

lemma registration_token: "enrollment_token_ok sample_token"
  by (simp add: enrollment_token_ok_def sample_token_def startsWith_def list_all_iff char_defs)

lemma registration_credentials:
  "validateHostCredentials (strong_token (CHR ''c'')) (strong_token (CHR ''g'')) (Some sample_token) = None"
proof -
  have "length (strong_token c) = 32" "length sample_token = 47" for c by (simp_all add: strong_token_def sample_token_def)
  then have "strong_token c \<noteq> sample_token" for c by (metis numeral_eq_iff semiring_norm(83,86,89,90) num.distinct(1))
  then show ?thesis by (simp add: validateHostCredentials_def strong_token_def)
qed

lemma registration_sel: "hi_runtimeCohort sample_registration = sample_cohort" "hi_architecture sample_registration = X86_64"
    "rh_controlToken sample_registration = strong_token (CHR ''c'')" "rh_gatewayToken sample_registration = strong_token (CHR ''g'')"
  by (simp_all add: sample_registration_def)

lemmas enroll_defs = registerTx_def grant_matches_def grant_active_def update_grants_def grant_check_def control_char_def
  upsert_host_def insert_host_def new_host_def resources_of_def raw_of_def host_name_ok_def MAX_SAFE_INTEGER_def
  sample_env_def sample_grant_def sample_registration_def grant_fleet_def sample_sha256_def host_defs

definition enrolled_fleet :: "registration option \<times> fleet" where
  "enrolled_fleet = projr (registerTx sample_env sample_token sample_registration sample_cohort ''credential'' 900001 grant_fleet)"

lemma sample_registerTx:
  "registerTx sample_env sample_token sample_registration sample_cohort ''credential'' 900001 grant_fleet =
     Inr (Some (the (fst enrolled_fleet)), snd enrolled_fleet)"
  unfolding enrolled_fleet_def by (simp add: Let_def enroll_defs)

lemma sample_enroll:
  "register sample_env sample_service sample_token sample_registration ''credential'' 900000 900001 grant_fleet =
     (Inr (the (fst enrolled_fleet)), snd enrolled_fleet)"
proof -
  have "list_ex (grant_matches sample_env sample_token sample_registration sample_cohort 900000) (host_enrollment_grants grant_fleet)"
    by (simp add: enroll_defs)
  moreover have env: "he_net sample_env = sample_net" "he_sha256 sample_env = sample_sha256" by (simp_all add: sample_env_def)
  ultimately show ?thesis
    unfolding register_def env registration_identity registration_sel registration_cohort registration_credentials option.case sum.case
    by (simp add: registration_token bind_svc_def call_read_def call_tx_def sample_registerTx return_svc_def)
qed

theorem enrollment_token_single_use_witness:
  "\<exists>e. register sample_env sample_service sample_token sample_registration ''other'' 950000 950001 (snd enrolled_fleet) =
     (Inl e, snd enrolled_fleet)"
proof -
  have "distinct (map g_token_hash (host_enrollment_grants grant_fleet))" by (simp add: grant_fleet_def)
  from enrollment_token_single_use [OF this sample_enroll] show ?thesis by blast
qed

section \<open>Usage, cleanup and placement\<close>

definition metered_fleet :: fleet where
  "metered_fleet = projr (enqueueUsageIntervals False [] 1000000 sample_fleet)"

lemma sample_enqueue: "enqueueUsageIntervals False [] 1000000 sample_fleet = Inr metered_fleet"
  unfolding metered_fleet_def
  by (rule projr_Inr) (simp add: Let_def enqueueUsageIntervals_def finals_due_def checkpoints_due_def final_due_def
      checkpoint_due_def usage_from_def sort_by_def coalesce_def enqueue_final_def enqueue_checkpoint_def usage_interval_def
      insert_outbox_def set_checkpoint_def metered_def statement_defs source_digest_def fleet_defs check_defs)

theorem enqueueUsageIntervals_disjoint_witness: "intervals_ok metered_fleet"
proof (rule enqueueUsageIntervals_disjoint [OF sample_fleet_inv _ sample_enqueue])
  show "intervals_ok sample_fleet" by (simp add: intervals_ok_def checkpointed_def sample_fleet_def)
qed

definition cleanup_child :: machine where
  "cleanup_child = projr (fromRow sample_net pending_fleet pending_child_row)"

definition cleanup_operation :: fork_operation where
  "cleanup_operation =
     \<lparr>fo_id = ''op-1'', fo_auditOperationId = ''audit'', fo_idempotencyKey = ''key'', fo_requestHash = digest (CHR ''7''),
      fo_state = Pending, fo_replayed = False, fo_sourceMachineId = ''m_running-0001'', fo_sourceHostId = ''h1'',
      fo_sourceHostAddress = ''10.0.0.1'', fo_sourceHostMachineId = ''vm-1'', fo_sourceLeaseId = ''lease'',
      fo_children = [cleanup_child], fo_failureStatus = None, fo_failureCode = None, fo_failureMessage = None,
      fo_reconcileClaimToken = None, fo_cleanupRequested = True, fo_cleanupClaimToken = Some ''token'',
      fo_cleanupFailureStatus = Some 502, fo_cleanupFailureCode = Some ''fork_batch_failed'',
      fo_cleanupFailureMessage = Some ''incomplete'', fo_expired = False, fo_deadlineReached = True\<rparr>"

definition gone_client :: host_client where
  "gone_client =
     \<lparr>host_create = (\<lambda>address request. Inl (PlainError ''none'')), host_get = (\<lambda>address i. Inr None),
      host_destroy = (\<lambda>address i lease. Inl (HostRequestError (Some 404) ''not found'' False None)),
      host_extend = (\<lambda>address i lease key until. Inl (PlainError ''none'')),
      host_fork = (\<lambda>address i lease key children. Inl (PlainError ''none'')),
      host_exec = (\<lambda>address i lease command timeout. Inr None)\<rparr>"

theorem cleanupForkObservations_complete_witness:
  "confirmed_gone gone_client cleanup_operation [sample_host_machine] cleanup_child"
  using cleanupForkObservations_complete [of cleanup_operation gone_client "[sample_host_machine]"]
  by (simp add: cleanupForkObservations_def cleanup_run_def cleanup_step_def cleanup_operation_def cleanup_child_def
      gone_client_def is_not_found_def sample_host_machine_def pending_child_row_def child_machine_row_def
      fromRow_def canonical_off machine_defs Let_def)

definition roomy :: "string \<Rightarrow> int \<Rightarrow> host_capacity" where
  "roomy i memory = \<lparr>hc_id = i, hc_region = ''eu'', hc_architecture = X86_64, hc_state = Ready,
     hc_total = Resources 16 memory 65536, hc_reserved = Resources 0 0 0, hc_cachedTemplates = []\<rparr>"

definition sample_placement :: placement_request where
  "sample_placement = \<lparr>pr_region = ''eu'', pr_architecture = X86_64, pr_resources = sample_size, pr_templateId = None\<rparr>"

theorem chooseHost_tightest_witness:
  "case chooseHost (\<lambda>x y. 0) [roomy ''h1'' 8192, roomy ''h2'' 4096] sample_placement of
     None \<Rightarrow> False | Some h \<Rightarrow> memoryMb (available h) \<le> 4096"
proof -
  have "placement_candidate sample_placement (roomy ''h2'' 4096)" "placement_cached sample_placement h"
      "memoryMb (available (roomy ''h2'' 4096)) = 4096" for h
    by (simp_all add: placement_candidate_def sample_placement_def roomy_def fits_def available_def sample_size_def
        placement_cached_def resources_le minus_resources_def)
  with chooseHost_tightest [of "\<lambda>x y. 0" sample_placement "[roomy ''h1'' 8192, roomy ''h2'' 4096]"] show ?thesis
    by (auto split: option.splits)
qed

end
