(* ===== verification/SampleMeters.thy ===== *)
theory SampleMeters
  imports Samples
begin

text \<open>Witnesses for the metering theorems: one machine whose host reports a minute of run time.\<close>

definition metered_machine :: machine_row where
  "metered_machine = (running_machine ''m_running-0001'')
     \<lparr>m_host_machine_id := Some ''m-0123abcd'', m_lease_id := ''01234567-89ab-1cde-8f01-23456789abcd''\<rparr>"

definition started_meter :: meter_row where
  "started_meter =
     \<lparr>mm_machine_id = ''m_running-0001'', mm_host_id = ''h1'', mm_host_machine_id = ''m-0123abcd'',
      mm_lease_id = ''01234567-89ab-1cde-8f01-23456789abcd'', mm_lease_generation = 1,
      mm_host_boot_id = ''11111111-1111-1111-8111-111111111111'', mm_last_sequence = 1, mm_last_runtime_ns = 0,
      mm_projected_runtime_ns = 0, mm_start_monotonic_ns = Some 5000000000,
      mm_last_observed_monotonic_ns = Some 5000000000, mm_last_egress_bytes = 0, mm_egress_counter_epoch = 1,
      mm_start_seen = True, mm_final_seen = False, mm_last_observed_at = Some 960000,
      mm_last_period_end = Some 960000, mm_last_received_at = Some 960000, mm_loss_closed_at = None,
      mm_quarantined_at = None, mm_quarantine_reason = None\<rparr>"

definition metered_fleet :: fleet where
  "metered_fleet = sample_fleet\<lparr>machines := [metered_machine], machine_meter_state := [started_meter]\<rparr>"

definition checkpoint :: "string \<Rightarrow> host_usage_observation" where
  "checkpoint sequence =
     \<lparr>uo_machineId = ''m_running-0001'', uo_hostMachineId = ''m-0123abcd'',
      uo_leaseId = ''01234567-89ab-1cde-8f01-23456789abcd'', uo_leaseGeneration = ''1'',
      uo_hostBootId = ''11111111-1111-1111-8111-111111111111'', uo_sequence = sequence, uo_kind = ''checkpoint'',
      uo_quality = ''exact'', uo_qualityReason = ''none'', uo_runtimeNs = ''60000000000'', uo_egressBytes = ''1000'',
      uo_egressCounterEpoch = ''1'', uo_observedMonotonicNs = ''65000000000'', uo_observedAt = ''1970-01-01T00:17:00Z'',
      uo_vcpus = JSInt 2, uo_memoryBytes = ''1073741824'', uo_processId = JSInt 4242\<rparr>"

definition sample_meter_env :: meter_env where
  "sample_meter_env = \<lparr>mv_sha256 = id, mv_pgdiv = (\<lambda>q d. q * 10 ^ 13 div d)\<rparr>"

definition sample_metering :: metering where
  "sample_metering = projr (AuthoritativeMetering (JSInt 1000))"

lemmas observation_defs = validateObservation_def require_def machine_id_ok_def startsWith_def host_machine_id_ok_def
  uuid_ok_def is_hex_ci_def lower_char_def is_upper_def is_lower_def is_alnum_def is_hex_def is_digit_def less_eq_char_def
  parsePositiveBigint_def parseUnsigned_def canonical_decimal_def quality_reasons_def observed_at_pattern_def
  read_nat_def char_digit_def maxSignedBigint_def maxUnsignedBigint_def MAX_SAFE_INTEGER_def upt_rec

lemma observed_at_parse: "observed_at_pattern ''1970-01-01T00:17:00Z'' \<and> date_parse ''1970-01-01T00:17:00Z'' = Some 1020000"
  by (simp add: observation_defs date_parse_def days_from_civil_def Let_def)

lemma checkpoint_valid: "first_invalid [checkpoint ''2''] = None"
  by (simp add: observation_defs checkpoint_def observed_at_parse Let_def)

text \<open>The stages of the batch: the cadence recorded, the observation stored, the minute billed.\<close>

definition batch_fleet :: fleet where
  "batch_fleet = metered_fleet\<lparr>hosts := [(sample_host ''h1'' ''10.0.0.1'' (Resources 4 2048 4096))
     \<lparr>h_last_metering_batch_at := Some 1060000\<rparr>, sample_host ''h2'' ''10.0.0.2'' 0]\<rparr>"

definition sample_identity :: machine_identity where
  "sample_identity = identity_of 1060000 metered_machine"

definition sample_observation :: observation_row where
  "sample_observation = new_observation id ''h1'' (checkpoint ''2'') 1060000 batch_fleet"

definition stored_fleet :: fleet where
  "stored_fleet = batch_fleet\<lparr>host_usage_observations := [sample_observation]\<rparr>"

lemma batch_opened:
  "update_hosts (\<lambda>x. h_id x = ''h1'') (\<lambda>x. x\<lparr>h_last_metering_batch_at := Some 1060000\<rparr>) metered_fleet = Inr batch_fleet"
  by (simp add: update_hosts_def metered_fleet_def batch_fleet_def host_check_def cohort_check_def databaseRuntimeArchitecture_def fleet_defs check_defs)

lemma sample_identity_sel:
  "mi_id sample_identity = ''m_running-0001''" "mi_organization_id sample_identity = ''org''"
  "mi_project_id sample_identity = ''project''" "mi_host_id sample_identity = ''h1''"
  "mi_lease_id sample_identity = ''01234567-89ab-1cde-8f01-23456789abcd''" "mi_lease_generation sample_identity = 1"
  "mi_vcpus sample_identity = 2" "mi_memory_bytes sample_identity = 1073741824" "mi_created_at sample_identity = 0"
  "mi_started_at sample_identity = Some 0" "mi_state sample_identity = Running" "mi_expires_at sample_identity = 1600000"
  "mi_admission_received_at sample_identity = 1060000"
  by (simp_all add: sample_identity_def identity_of_def metered_machine_def machine_defs)

lemma sample_observation_sel:
  "ob_id sample_observation = 1" "ob_host_id sample_observation = ''h1''" "ob_machine_id sample_observation = ''m_running-0001''"
  "ob_lease_generation sample_observation = 1" "ob_host_boot_id sample_observation = ''11111111-1111-1111-8111-111111111111''"
  "ob_sequence sample_observation = 2" "ob_kind sample_observation = ''checkpoint''" "ob_quality sample_observation = ''exact''"
  "ob_runtime_ns sample_observation = 60000000000" "ob_egress_bytes sample_observation = 1000"
  "ob_egress_counter_epoch sample_observation = 1" "ob_observed_monotonic_ns sample_observation = 65000000000"
  "ob_observed_at sample_observation = 1020000" "ob_received_at sample_observation = 1060000"
  "ob_process_id sample_observation = 4242"
  by (simp_all add: sample_observation_def new_observation_def checkpoint_def observed_at_parse read_nat_def char_digit_def
      fresh_observation_id_def batch_fleet_def metered_fleet_def sample_fleet_def toLowerCase_def lower_char_def is_upper_def less_eq_char_def)

lemma sample_found: "find_identity ''h1'' (checkpoint n) 1060000 batch_fleet = Some sample_identity"
  by (simp add: find_identity_def checkpoint_def batch_fleet_def metered_fleet_def metered_machine_def machine_defs
      sample_identity_def read_nat_def char_digit_def toLowerCase_def lower_char_def is_upper_def less_eq_char_def)

lemma sample_meter: "meter_of batch_fleet ''m_running-0001'' = Some started_meter"
  by (simp add: meter_of_def batch_fleet_def metered_fleet_def started_meter_def)

lemma sample_no_anomaly: "anomaly sample_identity started_meter sample_observation = None"
  by (simp add: anomaly_def sequence_anomaly_def clock_skewed_def observationIntegrityReason_def
      sample_identity_sel sample_observation_sel started_meter_def meter_bounds defensibleElapsedNs_def egress_ceiling_def
      bigint_div_def Let_def)

lemma sample_split: "splitRuntimeAtUtcMidnight 960000 60000000000 =
    Inr [\<lparr>sg_index = 0, sg_start = 960000, sg_end = 1020000, sg_runtimeNs = 60000000000\<rparr>]"
  by (simp add: splitRuntimeAtUtcMidnight_def Let_def split_loop.simps timestampFromNanoseconds_def bigint_div_def
      nanosecondsPerMillisecond_def nextMidnight_def)

lemma appendProjection_new:
  assumes "tenant_fks ''meter_raw_usage_events'' identity s = None" and "0 < pj_quantity p"
    and "pj_periodStart p \<le> pj_periodEnd p" and "pj_eventKey p \<notin> set (map rw_key (meter_raw_usage_events s))"
    and "\<not> list_ex (\<lambda>x. rw_observation_id x = pj_observationId p \<and> rw_dimension x = pj_dimension p \<and>
      rw_period_start x = pj_periodStart p) (meter_raw_usage_events s)"
    and "''raw:'' @ pj_eventKey p \<notin> set (map u_key (usage_events s))"
    and "0 \<le> pgdiv (pj_quantity p) (snd (projected_dimension (pj_unit p)))"
  shows "appendProjection pgdiv identity p s = Inr (s\<lparr>meter_raw_usage_events := meter_raw_usage_events s @ [raw_row identity p],
    usage_events := usage_events s @ [projected_row pgdiv identity p]\<rparr>)"
  using assms by (simp add: appendProjection_def insert_raw_def insert_usage_def raw_row_def projected_row_def)

definition sample_projections :: "projection list" where
  "sample_projections = projections sample_identity started_meter sample_observation 960000
     [\<lparr>sg_index = 0, sg_start = 960000, sg_end = 1020000, sg_runtimeNs = 60000000000\<rparr>]"

definition sample_projection :: "string \<Rightarrow> string \<Rightarrow> string \<Rightarrow> int \<Rightarrow> projection" where
  "sample_projection key dimension unit quantity =
     \<lparr>pj_eventKey = ''meter:1:'' @ key, pj_observationId = 1, pj_dimension = dimension, pj_unit = unit,
      pj_quantity = quantity, pj_periodStart = 960000, pj_periodEnd = 1020000\<rparr>"

lemma show_digits: "show_nat 0 = ''0''" "show_nat 1 = ''1''"
  by code_simp+

lemma sample_projections:
  "sample_projections = [sample_projection ''0:compute'' ''compute'' ''vcpu_nanosecond'' 120000000000,
     sample_projection ''0:memory'' ''memory'' ''byte_nanosecond'' 64424509440000000000,
     sample_projection ''egress'' ''egress'' ''byte'' 1000]"
  by (simp add: sample_projections_def projections_def segment_projections_def egress_projection_def
      sample_observation_sel sample_identity_sel sample_projection_def started_meter_def Let_def show_digits [simplified])

definition billed_fleet :: fleet where
  "billed_fleet = stored_fleet\<lparr>meter_raw_usage_events := map (raw_row sample_identity) sample_projections,
     usage_events := map (projected_row (mv_pgdiv sample_meter_env) sample_identity) sample_projections\<rparr>"

lemma sample_fks:
  "tenant_fks table sample_identity (stored_fleet\<lparr>meter_raw_usage_events := rs, usage_events := us\<rparr>) = None"
  "tenant_fks table sample_identity stored_fleet = None"
  by (simp_all add: tenant_fks_def sample_identity_sel stored_fleet_def batch_fleet_def metered_fleet_def sample_fleet_def
      metered_machine_def machine_defs)

lemma sample_tables: "meter_raw_usage_events stored_fleet = []" "usage_events stored_fleet = []"
  by (simp_all add: stored_fleet_def batch_fleet_def metered_fleet_def sample_fleet_def)

lemma sample_appended:
  "run_each (appendProjection (mv_pgdiv sample_meter_env) sample_identity) sample_projections stored_fleet = Inr billed_fleet"
  by (simp add: sample_projections billed_fleet_def appendProjection_new sample_fks sample_tables sample_projection_def
      sample_meter_env_def raw_row_def projected_row_def projected_dimension_def nanosecondsPerSecond_def bytesPerGibibyte_def)

definition advanced_meter :: meter_row where
  "advanced_meter = started_meter\<lparr>mm_last_sequence := 2, mm_last_runtime_ns := 60000000000,
     mm_projected_runtime_ns := 60000000000, mm_last_egress_bytes := 1000, mm_last_observed_monotonic_ns := Some 65000000000,
     mm_last_observed_at := Some 1020000, mm_last_period_end := Some 1020000, mm_last_received_at := Some 1060000\<rparr>"

definition accepted_fleet :: fleet where
  "accepted_fleet = billed_fleet\<lparr>machine_meter_state := [advanced_meter]\<rparr>"

lemma sample_processed:
  "processObservation (mv_pgdiv sample_meter_env) sample_identity started_meter sample_observation 1060000 stored_fleet =
     Inr (OAccepted, accepted_fleet)"
proof -
  have "coalesce (mm_last_period_end started_meter) (mm_last_observed_at started_meter) = Some 960000"
    "runtime_delta started_meter sample_observation = 60000000000"
    by (simp_all add: started_meter_def coalesce_def runtime_delta_def sample_observation_sel)
  moreover have "machine_meter_state billed_fleet = [started_meter]"
    by (simp add: billed_fleet_def stored_fleet_def batch_fleet_def metered_fleet_def)
  then have "advance_meter sample_identity started_meter (\<lambda>m. m\<lparr>mm_last_sequence := 2, mm_last_runtime_ns := 60000000000,
     mm_projected_runtime_ns := max 60000000000 (mm_projected_runtime_ns started_meter), mm_last_egress_bytes := 1000,
     mm_last_observed_monotonic_ns := Some 65000000000, mm_last_observed_at := Some 1020000, mm_last_period_end := Some 1020000,
     mm_last_received_at := Some 1060000, mm_final_seen := False\<rparr>) billed_fleet = Inr accepted_fleet"
    by (simp add: advance_meter_def update_meters_def accepted_fleet_def advanced_meter_def sample_identity_sel
        meter_check_def uint64_ok_def maxUnsignedBigint_def started_meter_def)
  ultimately show ?thesis
    by (simp add: processObservation_def sample_no_anomaly process_usage_def sample_observation_sel Let_def sample_split
        sample_appended [unfolded sample_projections_def] close_meter_def timestampFromNanoseconds_def bigint_div_def
        nanosecondsPerMillisecond_def)
qed

lemma sample_next:
  "next_observation sample_identity started_meter stored_fleet = Some sample_observation"
  "next_observation sample_identity advanced_meter accepted_fleet = None"
  by (simp_all add: next_observation_def stored_fleet_def accepted_fleet_def billed_fleet_def sample_identity_sel
      sample_observation_sel advanced_meter_def started_meter_def)

lemma sample_meters:
  "meter_of stored_fleet ''m_running-0001'' = Some started_meter" "meter_of accepted_fleet ''m_running-0001'' = Some advanced_meter"
  by (simp_all add: meter_of_def stored_fleet_def batch_fleet_def metered_fleet_def accepted_fleet_def advanced_meter_def started_meter_def)

lemma sample_drained:
  "drain_observations (mv_pgdiv sample_meter_env) sample_identity (ob_id sample_observation) 1060000
     (False, False) stored_fleet = Inr ((True, False), accepted_fleet)"
  by (simp add: drain_observations.simps sample_identity_sel sample_meters sample_next sample_processed)

lemma checkpoint_sel:
  "uo_machineId (checkpoint n) = ''m_running-0001''" "uo_hostBootId (checkpoint n) = ''11111111-1111-1111-8111-111111111111''"
  "uo_sequence (checkpoint n) = n" "uo_kind (checkpoint n) = ''checkpoint''" "uo_quality (checkpoint n) = ''exact''"
  "uo_vcpus (checkpoint n) = JSInt 2" "uo_memoryBytes (checkpoint n) = ''1073741824''"
  "int (read_nat (uo_runtimeNs (checkpoint n))) = 60000000000" "int (read_nat (uo_egressBytes (checkpoint n))) = 1000"
  "int (read_nat (uo_egressCounterEpoch (checkpoint n))) = 1" "int (read_nat ''2'') = 2"
  by (simp_all add: checkpoint_def read_nat_def char_digit_def)

lemma digit_chars: "digit_char 0 = CHR ''0''" "digit_char 1 = CHR ''1''" "digit_char (Suc 0) = CHR ''1''" "digit_char 2 = CHR ''2''"
  "digit_char 3 = CHR ''3''" "digit_char 4 = CHR ''4''" "digit_char 7 = CHR ''7''" "digit_char 8 = CHR ''8''"
  by code_simp+

lemma memory_text: "show_int 1073741824 = ''1073741824''"
  by (simp add: show_int_def show_nat.simps digit_chars)

definition final_fleet :: fleet where
  "final_fleet = resolve_gaps sample_identity 2 accepted_fleet"

lemma sample_settled:
  "settle_input sample_meter_env ''h1'' sample_identity (checkpoint ''2'') sample_observation False 1060000 stored_fleet =
     Inr ((OAccepted, False), final_fleet)"
  by (simp add: settle_input_def sample_drained checkpoint_sel sample_meters Let_def advanced_meter_def final_fleet_def)

lemma sample_accepted:
  "ingest_observation sample_meter_env ''h1'' (checkpoint ''2'') 1060000 batch_fleet = Inr ((OAccepted, False), final_fleet)"
proof -
  have "\<not> sequence_violation ''h1'' (checkpoint ''2'') started_meter batch_fleet"
    by (simp add: sequence_violation_def checkpoint_sel started_meter_def maximumForwardSequenceWindow_def)
  moreover have "observationIntegrityReason sample_identity started_meter ''checkpoint'' ''exact'' 60000000000 1000 1 1060000 = None"
    by (simp add: observationIntegrityReason_def sample_identity_sel started_meter_def meter_bounds defensibleElapsedNs_def
        egress_ceiling_def bigint_div_def Let_def)
  moreover have "ensure_meter sample_identity (checkpoint ''2'') batch_fleet = Inr (started_meter, batch_fleet)"
    by (simp add: ensure_meter_def checkpoint_sel sample_meter)
  moreover have "store_observation (new_observation (mv_sha256 sample_meter_env) ''h1'' (checkpoint ''2'') 1060000 batch_fleet) batch_fleet =
      Inr ((sample_observation, False), stored_fleet)"
    using sample_observation_sel(15)
    by (simp add: store_observation_def stored_fleet_def sample_meter_env_def flip: sample_observation_def)
      (simp add: batch_fleet_def metered_fleet_def sample_fleet_def)
  ultimately show ?thesis
    using sample_settled
    by (simp add: ingest_observation_def sample_found checkpoint_sel sample_identity_sel memory_text)
qed

lemma metered_batch:
  "ingest sample_meter_env sample_metering ''h1'' [checkpoint ''2''] (Some 1) 1060000 metered_fleet =
     Inr ([receiptFor (checkpoint ''2'') OAccepted], final_fleet)"
proof -
  have "find (\<lambda>h. h_id h = ''h1'') (hosts metered_fleet) = Some (sample_host ''h1'' ''10.0.0.1'' (Resources 4 2048 4096))"
    by (simp add: metered_fleet_def sample_fleet_def sample_host_def)
  then show ?thesis
    using checkpoint_valid
    by (simp add: ingest_def ingestTx_def batch_opened sample_accepted)
      (simp add: admits_metering_def ready_for_batch_def sample_host_def)
qed

lemma metered_inv: "meter_inv metered_fleet"
  by (simp add: meter_inv_def metered_fleet_def sample_fleet_def meter_of_def started_meter_def quarantine_ok_def)

lemma metered_ids: "distinct (map m_id (machines metered_fleet))" "metered_machine \<in> set (machines metered_fleet)"
  "meter_of metered_fleet (m_id metered_machine) = Some started_meter" "mm_start_seen started_meter"
  "m_id metered_machine = ''m_running-0001''" "vcpus (m_resources metered_machine) = 2"
  by (simp_all add: metered_fleet_def metered_machine_def machine_defs meter_of_def started_meter_def)

text \<open>A minute of two vCPUs is 120 billion vCPU nanoseconds.\<close>

theorem ingest_bills_exactly_witness:
  "\<exists>receipts s'. ingest sample_meter_env sample_metering ''h1'' [checkpoint ''2''] (Some 1) 1060000 metered_fleet = Inr (receipts, s') \<and>
     map or_outcome receipts = [OAccepted] \<and> meter_inv s' \<and>
     billed ''m_running-0001'' ''compute'' s' = billed ''m_running-0001'' ''compute'' metered_fleet + 2 * 60000000000"
proof -
  from ingest_bills_exactly [OF metered_batch metered_inv metered_ids(1-4)] obtain state' where
      st: "meter_inv final_fleet" "meter_of final_fleet ''m_running-0001'' = Some state'"
        "billed_exactly metered_machine started_meter state' metered_fleet final_fleet"
    by (auto simp: metered_ids)
  have "meter_of final_fleet ''m_running-0001'' = Some advanced_meter"
    using sample_meters(2) by (simp add: final_fleet_def resolve_gaps_def meter_of_def)
  with st(2) have "mm_projected_runtime_ns state' - mm_projected_runtime_ns started_meter = 60000000000"
    by (auto simp: advanced_meter_def started_meter_def)
  with st show ?thesis by (simp add: metered_batch receiptFor_def billed_exactly_def Let_def metered_ids)
qed

theorem replay_bills_nothing_witness:
  "\<exists>s1 s2. ingest_observation sample_meter_env ''h1'' (checkpoint ''2'') 1060000 batch_fleet = Inr ((OAccepted, False), s1) \<and>
     ingest_observation sample_meter_env ''h1'' (checkpoint ''2'') 1120000 s1 = Inr ((ODuplicate, False), s2) \<and>
     meter_raw_usage_events s2 = meter_raw_usage_events s1"
proof -
  have "distinct (map m_id (machines batch_fleet))" by (simp add: batch_fleet_def metered_fleet_def)
  from replay_bills_nothing [OF sample_accepted this, of 1120000] show ?thesis using sample_accepted by blast
qed

theorem drain_complete_witness:
  "\<exists>s' state. drain_observations (mv_pgdiv sample_meter_env) sample_identity (ob_id sample_observation) 1060000
      (False, False) stored_fleet = Inr ((True, False), s') \<and>
     meter_of s' (mi_id sample_identity) = Some state \<and> next_observation sample_identity state s' = None"
  using drain_complete [OF sample_drained] sample_drained by blast

text \<open>A sequence number far ahead of the meter: the host is cut off, and its next batch is refused.\<close>

definition runaway_fleet :: fleet where
  "runaway_fleet = snd (projr (ingest sample_meter_env sample_metering ''h1'' [checkpoint ''99''] (Some 1) 1060000 metered_fleet))"

lemma runaway_valid: "first_invalid [checkpoint ''99''] = None"
  by (simp add: observation_defs checkpoint_def observed_at_parse Let_def)

lemma runaway_batch:
  "ingest sample_meter_env sample_metering ''h1'' [checkpoint ''99''] (Some 1) 1060000 metered_fleet =
     Inr ([receiptFor (checkpoint ''99'') OQuarantined], runaway_fleet)"
proof -
  have host: "find (\<lambda>h. h_id h = ''h1'') (hosts metered_fleet) = Some (sample_host ''h1'' ''10.0.0.1'' (Resources 4 2048 4096))"
    by (simp add: metered_fleet_def sample_fleet_def sample_host_def)
  have far: "sequence_violation ''h1'' (checkpoint ''99'') started_meter batch_fleet"
    by (simp add: sequence_violation_def checkpoint_sel started_meter_def maximumForwardSequenceWindow_def read_nat_def char_digit_def)
  have ens: "ensure_meter sample_identity (checkpoint ''99'') batch_fleet = Inr (started_meter, batch_fleet)"
    by (simp add: ensure_meter_def checkpoint_sel sample_meter)
  have "\<exists>s'. reject_observation ''h1'' sample_identity (checkpoint ''99'') k r ''metering sequence admission violated'' 1060000 batch_fleet = Inr s'" for k r
    by (simp add: reject_observation_def quarantineHost_def update_hosts_def batch_fleet_def quarantined_host_def host_check_def
        cohort_check_def databaseRuntimeArchitecture_def coalesce_def fleet_defs check_defs)
  then obtain s' where "ingest_observation sample_meter_env ''h1'' (checkpoint ''99'') 1060000 batch_fleet = Inr ((OQuarantined, True), s')"
    using far ens by (auto simp: ingest_observation_def sample_found checkpoint_sel sample_identity_sel memory_text)
  then have "ingest sample_meter_env sample_metering ''h1'' [checkpoint ''99''] (Some 1) 1060000 metered_fleet =
      Inr ([receiptFor (checkpoint ''99'') OQuarantined], s')"
    using runaway_valid host
    by (simp add: ingest_def ingestTx_def batch_opened) (simp add: admits_metering_def ready_for_batch_def sample_host_def)
  then show ?thesis by (simp add: runaway_fleet_def)
qed

theorem bad_batch_cuts_host_off_witness:
  "(\<exists>h'. find (\<lambda>h. h_id h = ''h1'') (hosts runaway_fleet) = Some h' \<and> h_desired_state h' = DQuarantined \<and>
      h_credential_status h' = CredRevoked \<and> h_credential_generation h' = 2) \<and>
   ingestTx sample_meter_env sample_metering ''h1'' [checkpoint ''2''] (Some 1) 2000000 runaway_fleet =
     Inl (MeteringHostLifecycleError ''host lifecycle does not allow metering observations'')"
proof -
  have host: "find (\<lambda>h. h_id h = ''h1'') (hosts metered_fleet) = Some (sample_host ''h1'' ''10.0.0.1'' (Resources 4 2048 4096))"
    by (simp add: metered_fleet_def sample_fleet_def sample_host_def)
  have bad: "list_ex (\<lambda>r. or_outcome r \<in> {OQuarantined, ORejectedPayloadConflict}) [receiptFor (checkpoint ''99'') OQuarantined]"
    by (simp add: receiptFor_def)
  note cut = bad_batch_cuts_host_off [OF runaway_batch bad host, of "[checkpoint ''2'']" "Some 1" 2000000]
  from conjunct1 [OF cut] obtain h' where "find (\<lambda>h. h_id h = ''h1'') (hosts runaway_fleet) = Some h'"
    "h_desired_state h' = DQuarantined" "h_credential_status h' = CredRevoked" "h_credential_generation h' = 2"
    by (auto simp: sample_host_def)
  with conjunct2 [OF cut] show ?thesis by blast
qed

theorem split_runtime_exact_witness:
  "\<exists>gs. splitRuntimeAtUtcMidnight 86340000 120000000000 = Inr gs \<and> sum_list (map sg_runtimeNs gs) = 120000000000"
  using split_runtime_exact [of 120000000000 86340000] by auto

end
