(* ===== verification/Volumes.thy ===== *)
theory Volumes
  imports UsageJobs Hosts
begin

text \<open>
  \<open>PostgresVolumeRepository\<close> of \<open>domain/volumes.ts\<close>: the admission of volumes within the storage
  quotas, the reservations behind write grants, and the outbox of deletions. A \<open>Volume\<close> has the
  fields of its row, so \<open>fromRow\<close> is the identity here; organization and project ids are taken in
  the form the database prints them. The column \<open>updated_at\<close> of the outbox is never read and is left
  out.
\<close>

section \<open>Constants and constraints\<close>

definition mebibyte :: int where "mebibyte = 1048576"
definition maximumVolumeBytes :: int where "maximumVolumeBytes = 1099511627776"
definition defaultVolumeSizeLimitMb :: int where "defaultVolumeSizeLimitMb = 10240"
definition defaultVolumeTtlSeconds :: int where "defaultVolumeTtlSeconds = 30 * 24 * 60 * 60"
definition maximumVolumeTtlSeconds :: int where "maximumVolumeTtlSeconds = 365 * 24 * 60 * 60"
definition volumeDeletionRetentionSeconds :: int where "volumeDeletionRetentionSeconds = 7 * 24 * 60 * 60"
definition defaultVolumeGrantTtlSeconds :: int where "defaultVolumeGrantTtlSeconds = 300"
definition maximumVolumeGrantTtlSeconds :: int where "maximumVolumeGrantTtlSeconds = 900"

type_synonym volume = volume_row

record write_reservation =
  wr_id :: uuid
  wr_volumeId :: string
  wr_maximumBytes :: int
  wr_expiresAt :: time

record deletion_job =
  dj_volume :: volume
  dj_deleteAfter :: time
  dj_attemptCount :: int
  dj_claimToken :: uuid

text \<open>\<open>^vol_[a-zA-Z0-9_-]{12,}$\<close>.\<close>

definition volume_id_ok :: "string \<Rightarrow> bool" where
  "volume_id_ok s \<longleftrightarrow> startsWith s ''vol_'' \<and> length s \<ge> 16 \<and>
     list_all (\<lambda>c. is_alnum c \<or> c \<in> set ''_-'') (drop 4 s)"

definition volume_check :: "volume_row \<Rightarrow> bool" where
  "volume_check v \<longleftrightarrow> volume_id_ok (v_id v) \<and> 0 < v_size_limit_bytes v \<and> 0 \<le> v_observed_size_bytes v \<and>
     (v_idempotency_key v = None \<longleftrightarrow> v_create_request_hash v = None) \<and>
     opt_ok idempotency_key_ok (v_idempotency_key v) \<and> opt_ok hex64 (v_create_request_hash v)"

definition update_volumes :: "(volume_row \<Rightarrow> bool) \<Rightarrow> (volume_row \<Rightarrow> volume_row) \<Rightarrow> fleet \<Rightarrow> error + fleet" where
  "update_volumes P f s =
     (case store_rows P (\<lambda>r. if volume_check (f r) then Inr (f r) else Inl (DbError ''volumes check constraint''))
          (volumes s) of
        Inl e \<Rightarrow> Inl e
      | Inr vs \<Rightarrow> Inr (s\<lparr>volumes := vs\<rparr>))"

definition insert_volume :: "volume_row \<Rightarrow> fleet \<Rightarrow> error + fleet" where
  "insert_volume v s =
     (if \<not> volume_check v then Inl (DbError ''volumes check constraint'')
      else if v_id v \<in> set (map v_id (volumes s)) then Inl (DbError ''volumes_pkey'')
      else if v_object_prefix v \<in> set (map v_object_prefix (volumes s)) then Inl (DbError ''volumes_object_prefix_key'')
      else Inr (s\<lparr>volumes := volumes s @ [v]\<rparr>))"

section \<open>Admission\<close>

text \<open>
  A volume counts against the quotas until its retention is over and its deletion was scheduled.
\<close>

definition retained :: "time \<Rightarrow> fleet \<Rightarrow> volume_row \<Rightarrow> bool" where
  "retained now s v \<longleftrightarrow>
     (case v_deleted_at v of None \<Rightarrow> v_expires_at v | Some d \<Rightarrow> d) + seconds volumeDeletionRetentionSeconds > now \<or>
     \<not> list_ex (\<lambda>j. vd_volume_id j = v_id v \<and> vd_scheduled_at j \<noteq> None) (volume_deletion_jobs s)"

definition organization_allocated_bytes :: "time \<Rightarrow> uuid \<Rightarrow> fleet \<Rightarrow> int" where
  "organization_allocated_bytes now org s =
     sum_list (map v_size_limit_bytes (filter (\<lambda>v. v_organization_id v = org \<and> retained now s v) (volumes s)))"

definition project_allocated_bytes :: "time \<Rightarrow> uuid \<Rightarrow> uuid \<Rightarrow> fleet \<Rightarrow> int" where
  "project_allocated_bytes now org project s =
     sum_list (map v_size_limit_bytes
       (filter (\<lambda>v. v_organization_id v = org \<and> v_project_id v = project \<and> retained now s v) (volumes s)))"

text \<open>\<open>now\<close> is the database clock, which the billing admission reads.\<close>

definition admitCreate ::
    "(numeric13 \<Rightarrow> numeric13) \<Rightarrow> admission_policy \<Rightarrow> volume \<Rightarrow> string \<Rightarrow> string \<Rightarrow> time \<Rightarrow> (volume \<times> bool) tx" where
  "admitCreate pgdiv1024 policy volume key requestHash now s =
     (case find (\<lambda>x. o_id x = v_organization_id volume) (organizations s) of
        None \<Rightarrow> Inl (VolumeProjectUnavailable ''Project not found.'')
      | Some organization \<Rightarrow>
     (case find (\<lambda>p. p_id p = v_project_id volume \<and> p_organization_id p = v_organization_id volume) (projects s) of
        None \<Rightarrow> Inl (VolumeProjectUnavailable ''Project not found.'')
      | Some project \<Rightarrow>
     (case find (\<lambda>v. v_organization_id v = v_organization_id volume \<and> v_project_id v = v_project_id volume \<and>
          v_idempotency_key v = Some key) (volumes s) of
        Some existing \<Rightarrow>
          (if v_create_request_hash existing \<noteq> Some requestHash
           then Inl (VolumeIdempotencyConflict ''Idempotency-Key was already used with a different volume request.'')
           else Inr ((existing, True), s))
      | None \<Rightarrow>
     (case enforce pgdiv1024 policy s (v_organization_id volume)
          \<lparr>bd_vcpuSeconds = None, bd_memoryMebibyteSeconds = None,
           bd_storageByteSeconds = Some (v_size_limit_bytes volume *
             max 0 (ceil_div (v_expires_at volume - v_created_at volume) 1000))\<rparr> now of
        Some e \<Rightarrow> Inl e
      | None \<Rightarrow>
          (if project_allocated_bytes (v_created_at volume) (v_organization_id volume) (v_project_id volume) s +
                v_size_limit_bytes volume > p_max_storage_mb project * mebibyte \<or>
              organization_allocated_bytes (v_created_at volume) (v_organization_id volume) s +
                v_size_limit_bytes volume > o_max_storage_mb organization * mebibyte
           then Inl (VolumeQuotaExceeded ''The storage allocation exceeds the project or organization quota.'')
           else let row = volume\<lparr>v_observed_size_bytes := 0, v_deleted_at := None, v_idempotency_key := Some key,
                  v_create_request_hash := Some requestHash\<rparr> in
             case insert_volume row s of
               Inl e \<Rightarrow> Inl e
             | Inr s' \<Rightarrow> Inr ((volume\<lparr>v_idempotency_key := Some key, v_create_request_hash := Some requestHash\<rparr>, False),
                 s'))))))"

section \<open>Reads\<close>

definition in_project :: "uuid \<Rightarrow> uuid option \<Rightarrow> volume_row \<Rightarrow> bool" where
  "in_project org project v \<longleftrightarrow> v_organization_id v = org \<and> (project = None \<or> Some (v_project_id v) = project)"

definition list_volumes :: "uuid \<Rightarrow> uuid option \<Rightarrow> time \<Rightarrow> fleet \<Rightarrow> volume list" where
  "list_volumes org project now s =
     sort_by (\<lambda>a b. then_cmp (cmp_of (v_created_at b) (v_created_at a)) (cmp_of (v_id a) (v_id b)))
       (filter (\<lambda>v. in_project org project v \<and> v_deleted_at v = None \<and> v_expires_at v > now) (volumes s))"

definition find_volume :: "string \<Rightarrow> uuid \<Rightarrow> uuid option \<Rightarrow> time \<Rightarrow> fleet \<Rightarrow> volume option" where
  "find_volume i org project now s =
     find (\<lambda>v. v_id v = i \<and> in_project org project v \<and> v_deleted_at v = None \<and> v_expires_at v > now) (volumes s)"

definition findForDeletion :: "string \<Rightarrow> uuid \<Rightarrow> uuid option \<Rightarrow> fleet \<Rightarrow> volume option" where
  "findForDeletion i org project s = find (\<lambda>v. v_id v = i \<and> in_project org project v) (volumes s)"

definition updateObservedSize :: "string \<Rightarrow> uuid \<Rightarrow> int \<Rightarrow> bool tx" where
  "updateObservedSize i org observed s =
     (let P = \<lambda>v. v_id v = i \<and> v_organization_id v = org \<and> v_deleted_at v = None in
      map_sum id (Pair (list_ex P (volumes s))) (update_volumes P (\<lambda>v. v\<lparr>v_observed_size_bytes := observed\<rparr>) s))"

section \<open>Write reservations\<close>

record write_request =
  wq_id :: string
  wq_organizationId :: uuid
  wq_projectId :: "uuid option"
  wq_observedSizeBytes :: js_number
  wq_now :: time
  wq_expiresAt :: time
  wq_operationKey :: "string option"

text \<open>What a live reservation may still add to the volume, given what was seen written since.\<close>

definition outstanding :: "int \<Rightarrow> write_grant_row \<Rightarrow> int" where
  "outstanding observed g = max (wg_maximum_bytes g - max (observed - wg_observed_size_at_reservation g) 0) 0"

definition outstanding_bytes :: "string \<Rightarrow> int \<Rightarrow> time \<Rightarrow> fleet \<Rightarrow> int" where
  "outstanding_bytes i observed now s =
     sum_list (map (outstanding observed)
       (filter (\<lambda>g. wg_volume_id g = i \<and> wg_expires_at g > now) (volume_write_grants s)))"

definition reservation_of :: "write_grant_row \<Rightarrow> write_reservation" where
  "reservation_of g = \<lparr>wr_id = wg_id g, wr_volumeId = wg_volume_id g, wr_maximumBytes = wg_maximum_bytes g,
     wr_expiresAt = wg_expires_at g\<rparr>"

definition live_replay :: "write_request \<Rightarrow> fleet \<Rightarrow> write_grant_row option" where
  "live_replay input s =
     (case wq_operationKey input of
        None \<Rightarrow> None
      | Some key \<Rightarrow> first_row (sort_by (\<lambda>a b. cmp_of (wg_attempt b) (wg_attempt a))
          (filter (\<lambda>g. wg_volume_id g = wq_id input \<and> wg_operation_key g = Some key \<and> wg_expires_at g > wq_now input)
            (volume_write_grants s))))"

definition next_attempt :: "write_request \<Rightarrow> fleet \<Rightarrow> int" where
  "next_attempt input s =
     (if present (wq_operationKey input)
      then foldl max 0 (map wg_attempt (filter (\<lambda>g. wg_volume_id g = wq_id input \<and>
          wg_operation_key g = wq_operationKey input) (volume_write_grants s))) + 1
      else 1)"

text \<open>\<open>^[A-Za-z0-9._:-]{1,160}$\<close>.\<close>

definition operation_key_ok :: "string \<Rightarrow> bool" where
  "operation_key_ok k \<longleftrightarrow> k \<noteq> [] \<and> length k \<le> 160 \<and> list_all (\<lambda>c. is_alnum c \<or> c \<in> set ''._:-'') k"

definition write_grant_check :: "write_grant_row \<Rightarrow> bool" where
  "write_grant_check g \<longleftrightarrow> 0 < wg_attempt g \<and> 0 \<le> wg_observed_size_at_reservation g \<and> 0 < wg_maximum_bytes g \<and>
     wg_created_at g < wg_expires_at g \<and> opt_ok operation_key_ok (wg_operation_key g) \<and>
     opt_ok (\<lambda>t. wg_created_at g \<le> t) (wg_issued_at g)"

definition insert_write_grant :: "write_grant_row \<Rightarrow> fleet \<Rightarrow> error + fleet" where
  "insert_write_grant g s =
     (if \<not> write_grant_check g then Inl (DbError ''volume_write_grant_reservations check constraint'')
      else if wg_id g \<in> set (map wg_id (volume_write_grants s)) then Inl (DbError ''volume_write_grant_reservations_pkey'')
      else Inr (s\<lparr>volume_write_grants := volume_write_grants s @ [g]\<rparr>))"

definition new_write_grant :: "uuid \<Rightarrow> write_request \<Rightarrow> volume \<Rightarrow> int \<Rightarrow> int \<Rightarrow> int \<Rightarrow> write_grant_row" where
  "new_write_grant uuid input volume observed attempt maximumBytes =
     \<lparr>wg_id = uuid, wg_volume_id = wq_id input, wg_organization_id = wq_organizationId input,
      wg_project_id = v_project_id volume, wg_operation_key = wq_operationKey input, wg_attempt = attempt,
      wg_observed_size_at_reservation = observed, wg_maximum_bytes = maximumBytes,
      wg_created_at = wq_now input, wg_expires_at = wq_expiresAt input, wg_issued_at = None\<rparr>"

definition no_commitment :: commitment_delta where
  "no_commitment = \<lparr>bd_vcpuSeconds = None, bd_memoryMebibyteSeconds = None, bd_storageByteSeconds = None\<rparr>"

definition reserve_fresh ::
    "(numeric13 \<Rightarrow> numeric13) \<Rightarrow> admission_policy \<Rightarrow> uuid \<Rightarrow> write_request \<Rightarrow> volume \<Rightarrow> int \<Rightarrow> time \<Rightarrow> write_reservation tx" where
  "reserve_fresh pgdiv1024 policy uuid input volume observed now s =
     (case enforce pgdiv1024 policy s (wq_organizationId input) no_commitment now of
        Some e \<Rightarrow> Inl e
      | None \<Rightarrow>
     (let maximumBytes = v_size_limit_bytes volume - observed - outstanding_bytes (wq_id input) observed (wq_now input) s in
      if maximumBytes < 1
      then Inl (VolumeQuotaExceeded ''The volume has no unreserved storage while another PUT grant is active.'')
      else let g = new_write_grant uuid input volume observed (next_attempt input s) maximumBytes in
        map_sum id (Pair (reservation_of g)) (insert_write_grant g s)))"

definition reserveWriteGrant ::
    "(numeric13 \<Rightarrow> numeric13) \<Rightarrow> admission_policy \<Rightarrow> uuid \<Rightarrow> write_request \<Rightarrow> time \<Rightarrow> (volume \<times> write_reservation) option tx" where
  "reserveWriteGrant pgdiv1024 policy uuid input now s =
     (if \<not> list_ex (\<lambda>x. o_id x = wq_organizationId input) (organizations s) then Inr (None, s)
      else case find (\<lambda>v. v_id v = wq_id input \<and> in_project (wq_organizationId input) (wq_projectId input) v) (volumes s) of
        None \<Rightarrow> Inr (None, s)
      | Some volume \<Rightarrow>
          (if v_deleted_at volume \<noteq> None \<or> v_expires_at volume \<le> wq_now input then Inr (None, s)
           else if \<not> isSafeInteger (wq_observedSizeBytes input) \<or> js_int (wq_observedSizeBytes input) < 0 \<or>
               js_int (wq_observedSizeBytes input) > v_size_limit_bytes volume
           then Inl (VolumeIntegrityError ''Observed volume size exceeds its allocation.'')
           else let observed = js_int (wq_observedSizeBytes input) in
             case update_volumes (\<lambda>v. v_id v = wq_id input) (\<lambda>v. v\<lparr>v_observed_size_bytes := observed\<rparr>) s of
               Inl e \<Rightarrow> Inl e
             | Inr s1 \<Rightarrow>
                 (case live_replay input s1 of
                    Some g \<Rightarrow> Inr (Some (volume\<lparr>v_observed_size_bytes := observed\<rparr>, reservation_of g), s1)
                  | None \<Rightarrow>
                      map_sum id (\<lambda>(r, s2). (Some (volume\<lparr>v_observed_size_bytes := observed\<rparr>, r), s2))
                        (reserve_fresh pgdiv1024 policy uuid input volume observed now s1))))"

definition update_write_grants :: "(write_grant_row \<Rightarrow> bool) \<Rightarrow> (write_grant_row \<Rightarrow> write_grant_row) \<Rightarrow> fleet \<Rightarrow> error + fleet" where
  "update_write_grants P f s =
     (case store_rows P (\<lambda>g. if write_grant_check (f g) then Inr (f g)
          else Inl (DbError ''volume_write_grant_reservations check constraint'')) (volume_write_grants s) of
        Inl e \<Rightarrow> Inl e
      | Inr gs \<Rightarrow> Inr (s\<lparr>volume_write_grants := gs\<rparr>))"

definition markWriteGrantIssued :: "uuid \<Rightarrow> uuid \<Rightarrow> time \<Rightarrow> bool tx" where
  "markWriteGrantIssued reservationId org now s =
     (case find (\<lambda>g. wg_id g = reservationId \<and> wg_organization_id g = org) (volume_write_grants s) of
        None \<Rightarrow> Inr (False, s)
      | Some g \<Rightarrow>
     (case find (\<lambda>v. v_id v = wg_volume_id g \<and> v_organization_id v = org) (volumes s) of
        None \<Rightarrow> Inr (False, s)
      | Some v \<Rightarrow>
          (if \<not> (v_deleted_at v = None \<and> v_expires_at v > now) then Inr (False, s)
           else let P = \<lambda>g. wg_id g = reservationId \<and> wg_organization_id g = org \<and> wg_expires_at g > now in
             map_sum id (Pair (list_ex P (volume_write_grants s)))
               (update_write_grants P (\<lambda>g. g\<lparr>wg_issued_at := coalesce (wg_issued_at g) (Some now)\<rparr>) s))))"

section \<open>The outbox of deletions\<close>

definition delete_after :: "time \<Rightarrow> time" where
  "delete_after requestedAt = requestedAt + volumeDeletionRetentionSeconds * 1000"

text \<open>\<open>INSERT ... ON CONFLICT (volume_id) DO NOTHING\<close>.\<close>

definition insert_deletion_job :: "volume_row \<Rightarrow> time \<Rightarrow> fleet \<Rightarrow> fleet" where
  "insert_deletion_job v requestedAt s =
     (if v_id v \<in> set (map vd_volume_id (volume_deletion_jobs s)) then s
      else s\<lparr>volume_deletion_jobs := volume_deletion_jobs s @
        [\<lparr>vd_volume_id = v_id v, vd_organization_id = v_organization_id v, vd_project_id = v_project_id v,
          vd_delete_after = delete_after requestedAt, vd_requested_at = requestedAt, vd_next_attempt_at = requestedAt,
          vd_attempt_count = 0, vd_claim_token = None, vd_claimed_at = None, vd_claim_expires_at = None,
          vd_scheduled_at = None, vd_last_error_code = None\<rparr>]\<rparr>)"

definition enqueueDeletion :: "string \<Rightarrow> uuid \<Rightarrow> uuid option \<Rightarrow> time \<Rightarrow> int \<Rightarrow> (volume \<times> time) option tx" where
  "enqueueDeletion i org project requestedAt observed s =
     (case find (\<lambda>v. v_id v = i \<and> in_project org project v) (volumes s) of
        None \<Rightarrow> Inr (None, s)
      | Some existing \<Rightarrow>
          (let f = (\<lambda>v. if v_deleted_at existing = None
                then v\<lparr>v_deleted_at := Some requestedAt, v_observed_size_bytes := observed\<rparr>
                else v\<lparr>v_observed_size_bytes := observed\<rparr>);
               deletedAt = (case v_deleted_at existing of None \<Rightarrow> requestedAt | Some d \<Rightarrow> d) in
           case (if v_deleted_at existing = None \<or> v_observed_size_bytes existing \<noteq> observed
                 then update_volumes (\<lambda>v. v_id v = i) f s else Inr s) of
             Inl e \<Rightarrow> Inl e
           | Inr s1 \<Rightarrow> Inr (Some (f existing, delete_after deletedAt), insert_deletion_job existing deletedAt s1)))"

definition expired_volumes :: "string list \<Rightarrow> time \<Rightarrow> int \<Rightarrow> fleet \<Rightarrow> volume_row list" where
  "expired_volumes locked now limit s =
     take (nat limit) (sort_by (\<lambda>a b. then_cmp (cmp_of (v_expires_at a) (v_expires_at b)) (cmp_of (v_id a) (v_id b)))
       (filter (\<lambda>v. v_deleted_at v = None \<and> v_expires_at v \<le> now \<and> v_id v \<notin> set locked) (volumes s)))"

definition enqueueExpiredDeletions :: "string list \<Rightarrow> time \<Rightarrow> js_number \<Rightarrow> int tx" where
  "enqueueExpiredDeletions locked now limit s =
     (if \<not> isSafeInteger limit \<or> js_int limit < 1 \<or> js_int limit > 1000
      then Inl (PlainError ''volume deletion enqueue limit must be between 1 and 1000'')
      else let vs = expired_volumes locked now (js_int limit) s in
        case update_volumes (\<lambda>v. v_id v \<in> set (map v_id vs))
            (\<lambda>v. v\<lparr>v_deleted_at := Some (v_expires_at v),
                   v_observed_size_bytes := min (v_observed_size_bytes v) (v_size_limit_bytes v)\<rparr>) s of
          Inl e \<Rightarrow> Inl e
        | Inr s1 \<Rightarrow>
            (let s2 = fold (\<lambda>v. insert_deletion_job v (v_expires_at v)) vs s1 in
             Inr (int (length (volume_deletion_jobs s2)) - int (length (volume_deletion_jobs s1)), s2)))"

definition claimable_job :: "time \<Rightarrow> deletion_job_row \<Rightarrow> bool" where
  "claimable_job now j \<longleftrightarrow> vd_scheduled_at j = None \<and> vd_next_attempt_at j \<le> now \<and>
     (vd_claim_token j = None \<or> (case vd_claim_expires_at j of None \<Rightarrow> False | Some t \<Rightarrow> t \<le> now))"

definition deletion_candidates :: "string list \<Rightarrow> time \<Rightarrow> int \<Rightarrow> fleet \<Rightarrow> deletion_job_row list" where
  "deletion_candidates locked now limit s =
     take (nat limit) (sort_by (\<lambda>a b. then_cmp (cmp_of (vd_next_attempt_at a) (vd_next_attempt_at b))
         (then_cmp (cmp_of (vd_requested_at a) (vd_requested_at b)) (cmp_of (vd_volume_id a) (vd_volume_id b))))
       (filter (\<lambda>j. claimable_job now j \<and> vd_volume_id j \<notin> set locked) (volume_deletion_jobs s)))"

definition claim_job :: "uuid \<Rightarrow> time \<Rightarrow> int \<Rightarrow> deletion_job_row \<Rightarrow> deletion_job_row" where
  "claim_job token now ttl j =
     j\<lparr>vd_claim_token := Some token, vd_claimed_at := Some now, vd_claim_expires_at := Some (now + seconds ttl),
       vd_attempt_count := vd_attempt_count j + 1\<rparr>"

text \<open>The rows of the final join come in no particular order; the model has that of the table.\<close>

definition claimDeletionJobs ::
    "string list \<Rightarrow> time \<Rightarrow> js_number \<Rightarrow> uuid \<Rightarrow> js_number \<Rightarrow> deletion_job list tx" where
  "claimDeletionJobs locked now limit token ttl s =
     (if \<not> isSafeInteger limit \<or> js_int limit < 1 \<or> js_int limit > 1000
      then Inl (PlainError ''volume deletion claim limit must be between 1 and 1000'')
      else if \<not> isSafeInteger ttl \<or> js_int ttl < 1 \<or> js_int ttl > 3600
      then Inl (PlainError ''volume deletion claim TTL must be between 1 and 3600 seconds'')
      else let ids = map vd_volume_id (deletion_candidates locked now (js_int limit) s);
               jobs = sql_update (\<lambda>j. vd_volume_id j \<in> set ids) (claim_job token now (js_int ttl)) (volume_deletion_jobs s) in
        Inr (concat (map (\<lambda>j. map (\<lambda>v. \<lparr>dj_volume = v, dj_deleteAfter = vd_delete_after j,
                 dj_attemptCount = vd_attempt_count j, dj_claimToken = token\<rparr>)
                 (filter (\<lambda>v. v_id v = vd_volume_id j) (volumes s)))
               (filter (\<lambda>j. vd_volume_id j \<in> set ids) jobs)),
             s\<lparr>volume_deletion_jobs := jobs\<rparr>))"

definition scheduled_job :: "time \<Rightarrow> deletion_job_row \<Rightarrow> deletion_job_row" where
  "scheduled_job scheduledAt j =
     j\<lparr>vd_scheduled_at := coalesce (vd_scheduled_at j) (Some (max scheduledAt (vd_requested_at j))),
       vd_claim_token := None, vd_claimed_at := None, vd_claim_expires_at := None, vd_last_error_code := None\<rparr>"

definition markDeletionScheduled :: "string \<Rightarrow> time \<Rightarrow> bool tx" where
  "markDeletionScheduled volumeId scheduledAt s =
     Inr (list_ex (\<lambda>j. vd_volume_id j = volumeId) (volume_deletion_jobs s),
       s\<lparr>volume_deletion_jobs := sql_update (\<lambda>j. vd_volume_id j = volumeId) (scheduled_job scheduledAt)
           (volume_deletion_jobs s)\<rparr>)"

definition deferrable :: "string \<Rightarrow> uuid option \<Rightarrow> deletion_job_row \<Rightarrow> bool" where
  "deferrable volumeId token j \<longleftrightarrow> vd_volume_id j = volumeId \<and> vd_scheduled_at j = None \<and>
     (token = None \<or> vd_claim_token j = token)"

definition deferred_job :: "time \<Rightarrow> uuid option \<Rightarrow> string \<Rightarrow> deletion_job_row \<Rightarrow> deletion_job_row" where
  "deferred_job nextAttemptAt token errorCode j =
     j\<lparr>vd_next_attempt_at := max (vd_next_attempt_at j) nextAttemptAt,
       vd_attempt_count := vd_attempt_count j + (if token = None then 1 else 0),
       vd_claim_token := None, vd_claimed_at := None, vd_claim_expires_at := None,
       vd_last_error_code := Some errorCode\<rparr>"

definition deferDeletion :: "string \<Rightarrow> time \<Rightarrow> uuid option \<Rightarrow> string \<Rightarrow> bool tx" where
  "deferDeletion volumeId nextAttemptAt token errorCode s =
     Inr (list_ex (deferrable volumeId token) (volume_deletion_jobs s),
       s\<lparr>volume_deletion_jobs := sql_update (deferrable volumeId token) (deferred_job nextAttemptAt token errorCode)
           (volume_deletion_jobs s)\<rparr>)"

section \<open>Storage quotas\<close>

lemma insert_volume_Inr:
  "insert_volume v s = Inr s' \<Longrightarrow> s' = s\<lparr>volumes := volumes s @ [v]\<rparr> \<and> volume_check v \<and> v_id v \<notin> v_id ` set (volumes s)"
  by (auto simp: insert_volume_def split: if_splits)

lemma admitCreate_Inr:
  assumes "admitCreate pgdiv1024 policy volume key requestHash now s = Inr ((v, replayed), s')"
  obtains (replay) "replayed" and "s' = s" and "v \<in> set (volumes s)" and "v_organization_id v = v_organization_id volume"
      and "v_project_id v = v_project_id volume" and "v_idempotency_key v = Some key" and "v_create_request_hash v = Some requestHash"
    | (fresh) organization project where "\<not> replayed"
      and "find (\<lambda>x. o_id x = v_organization_id volume) (organizations s) = Some organization"
      and "find (\<lambda>p. p_id p = v_project_id volume \<and> p_organization_id p = v_organization_id volume) (projects s) = Some project"
      and "find (\<lambda>v. v_organization_id v = v_organization_id volume \<and> v_project_id v = v_project_id volume \<and>
          v_idempotency_key v = Some key) (volumes s) = None"
      and "project_allocated_bytes (v_created_at volume) (v_organization_id volume) (v_project_id volume) s +
          v_size_limit_bytes volume \<le> p_max_storage_mb project * mebibyte"
      and "organization_allocated_bytes (v_created_at volume) (v_organization_id volume) s +
          v_size_limit_bytes volume \<le> o_max_storage_mb organization * mebibyte"
      and "insert_volume (volume\<lparr>v_observed_size_bytes := 0, v_deleted_at := None, v_idempotency_key := Some key,
          v_create_request_hash := Some requestHash\<rparr>) s = Inr s'"
      and "v = volume\<lparr>v_idempotency_key := Some key, v_create_request_hash := Some requestHash\<rparr>"
  using assms
  by (auto simp: admitCreate_def Let_def split: option.splits if_splits sum.splits dest!: find_SomeD)

lemma allocated_append:
  assumes "s' = s\<lparr>volumes := volumes s @ [v]\<rparr>" and "0 < v_size_limit_bytes v"
  shows "organization_allocated_bytes now (v_organization_id v) s' \<le>
      organization_allocated_bytes now (v_organization_id v) s + v_size_limit_bytes v"
    and "project_allocated_bytes now (v_organization_id v) (v_project_id v) s' \<le>
      project_allocated_bytes now (v_organization_id v) (v_project_id v) s + v_size_limit_bytes v"
  using assms(2) by (simp_all add: assms(1) organization_allocated_bytes_def project_allocated_bytes_def retained_def)

text \<open>C19: Admitting a volume never takes an organization or a project past its storage quota. After a
  fresh admission the volumes that still count, those not yet past their retention or not yet
  scheduled for deletion, are together within both limits, the new one included; the new volume is
  stored, and nothing else changed.\<close>

theorem admitCreate_within_quota:
  assumes "admitCreate pgdiv1024 policy volume key requestHash now s = Inr ((v, False), s')"
  shows "\<exists>organization project.
    find (\<lambda>x. o_id x = v_organization_id volume) (organizations s') = Some organization \<and>
    find (\<lambda>p. p_id p = v_project_id volume \<and> p_organization_id p = v_organization_id volume) (projects s') = Some project \<and>
    organization_allocated_bytes (v_created_at volume) (v_organization_id volume) s' \<le> o_max_storage_mb organization * mebibyte \<and>
    project_allocated_bytes (v_created_at volume) (v_organization_id volume) (v_project_id volume) s' \<le>
      p_max_storage_mb project * mebibyte \<and>
    (\<exists>row. s' = s\<lparr>volumes := volumes s @ [row]\<rparr> \<and> v_id row = v_id volume \<and> v_id row \<notin> v_id ` set (volumes s) \<and>
      v_size_limit_bytes row = v_size_limit_bytes volume)"
  using assms
proof (cases rule: admitCreate_Inr)
  case (fresh organization project)
  let ?row = "volume\<lparr>v_observed_size_bytes := 0, v_deleted_at := None, v_idempotency_key := Some key,
          v_create_request_hash := Some requestHash\<rparr>"
  from insert_volume_Inr [OF fresh(7)] have s': "s' = s\<lparr>volumes := volumes s @ [?row]\<rparr>" and c: "volume_check ?row"
    and i: "v_id ?row \<notin> v_id ` set (volumes s)" by auto
  from c have "0 < v_size_limit_bytes ?row" by (simp add: volume_check_def)
  note allocated_append [OF s' this, of "v_created_at volume"]
  with fresh(5,6) have "organization_allocated_bytes (v_created_at volume) (v_organization_id volume) s' \<le>
      o_max_storage_mb organization * mebibyte"
    and "project_allocated_bytes (v_created_at volume) (v_organization_id volume) (v_project_id volume) s' \<le>
      p_max_storage_mb project * mebibyte" by simp_all
  moreover have "organizations s' = organizations s" "projects s' = projects s" by (simp_all add: s')
  ultimately show ?thesis using fresh(2,3) s' i
    by (intro exI [of _ organization] exI [of _ project] conjI exI [of _ ?row]) simp_all
qed simp

section \<open>Write reservations stay within the volume\<close>

lemma update_volumes_Inr: "update_volumes P f s = Inr s' \<Longrightarrow> s' = s\<lparr>volumes := sql_update P f (volumes s)\<rparr>"
  by (auto simp: update_volumes_def split: sum.splits dest!: store_rows_checked)

lemma update_write_grants_Inr:
  "update_write_grants P f s = Inr s' \<Longrightarrow> s' = s\<lparr>volume_write_grants := sql_update P f (volume_write_grants s)\<rparr>"
  by (auto simp: update_write_grants_def split: sum.splits dest!: store_rows_checked)

lemma insert_write_grant_Inr:
  "insert_write_grant g s = Inr s' \<Longrightarrow>
    s' = s\<lparr>volume_write_grants := volume_write_grants s @ [g]\<rparr> \<and> write_grant_check g \<and> wg_id g \<notin> wg_id ` set (volume_write_grants s)"
  by (auto simp: insert_write_grant_def split: if_splits)

lemma live_replay_Some:
  assumes "live_replay input s = Some g"
  shows "g \<in> set (volume_write_grants s) \<and> wg_volume_id g = wq_id input \<and> wq_now input < wg_expires_at g \<and>
    wg_operation_key g = wq_operationKey input"
  using assms by (auto simp: live_replay_def split: option.splits dest!: first_row_SomeD)

lemma reserveWriteGrant_Inr:
  assumes "reserveWriteGrant pgdiv1024 policy uuid input now s = Inr (Some (v, r), s')"
  obtains volume observed s1 where "volume \<in> set (volumes s)" and "v_id volume = wq_id input"
    and "in_project (wq_organizationId input) (wq_projectId input) volume"
    and "v_deleted_at volume = None" and "wq_now input < v_expires_at volume"
    and "wq_observedSizeBytes input = JSInt observed" and "0 \<le> observed" and "observed \<le> v_size_limit_bytes volume"
    and "s1 = s\<lparr>volumes := sql_update (\<lambda>v. v_id v = wq_id input) (\<lambda>v. v\<lparr>v_observed_size_bytes := observed\<rparr>) (volumes s)\<rparr>"
    and "v = volume\<lparr>v_observed_size_bytes := observed\<rparr>"
    and "(\<exists>g. live_replay input s1 = Some g \<and> r = reservation_of g \<and> s' = s1) \<or>
      live_replay input s1 = None \<and> reserve_fresh pgdiv1024 policy uuid input volume observed now s1 = Inr (r, s')"
proof -
  let ?o = "js_int (wq_observedSizeBytes input)"
  from assms obtain volume where
      f: "find (\<lambda>v. v_id v = wq_id input \<and> in_project (wq_organizationId input) (wq_projectId input) v) (volumes s) = Some volume"
    and c: "v_deleted_at volume = None" "wq_now input < v_expires_at volume"
      "isSafeInteger (wq_observedSizeBytes input)" "0 \<le> ?o" "?o \<le> v_size_limit_bytes volume"
    by (auto simp: reserveWriteGrant_def not_less not_le split: if_splits option.splits)
  with assms obtain s1 where
      u: "update_volumes (\<lambda>v. v_id v = wq_id input) (\<lambda>v. v\<lparr>v_observed_size_bytes := ?o\<rparr>) s = Inr s1"
    and r: "(\<exists>g. live_replay input s1 = Some g \<and> r = reservation_of g \<and> s' = s1) \<or>
      live_replay input s1 = None \<and> reserve_fresh pgdiv1024 policy uuid input volume ?o now s1 = Inr (r, s')"
    and v: "v = volume\<lparr>v_observed_size_bytes := ?o\<rparr>"
    by (auto simp: reserveWriteGrant_def Let_def split: if_splits option.splits sum.splits)
  have o: "wq_observedSizeBytes input = JSInt ?o" using c(3) by (cases "wq_observedSizeBytes input") simp_all
  show thesis
    by (rule that [OF _ _ _ c(1,2) o c(4,5) update_volumes_Inr [OF u] v r]) (use find_SomeD [OF f] in simp_all)
qed

lemma reserve_fresh_Inr:
  assumes "reserve_fresh pgdiv1024 policy uuid input volume observed now s = Inr (r, s')"
  obtains g where "g = new_write_grant uuid input volume observed (next_attempt input s)
      (v_size_limit_bytes volume - observed - outstanding_bytes (wq_id input) observed (wq_now input) s)"
    and "r = reservation_of g" and "s' = s\<lparr>volume_write_grants := volume_write_grants s @ [g]\<rparr>"
    and "write_grant_check g" and "wg_id g \<notin> wg_id ` set (volume_write_grants s)"
  using assms by (auto simp: reserve_fresh_def Let_def split: option.splits if_splits dest!: insert_write_grant_Inr)

lemma live_replay_cong: "volume_write_grants s = volume_write_grants t \<Longrightarrow> live_replay input s = live_replay input t"
  by (cases "wq_operationKey input") (simp_all add: live_replay_def)

text \<open>C20: A write grant reserves exactly what is free. A fresh reservation gets at least one byte, and with
  it the observed size of the volume and what all live reservations may still write add up to the
  size limit: not a byte more is promised. A repeated operation gets its live reservation again and
  no reservation is added.\<close>

theorem reserveWriteGrant_exact:
  assumes "reserveWriteGrant pgdiv1024 policy uuid input now s = Inr (Some (v, r), s')"
  shows "0 \<le> v_observed_size_bytes v \<and> v_observed_size_bytes v \<le> v_size_limit_bytes v \<and>
    (case live_replay input s of
       Some g \<Rightarrow> r = reservation_of g \<and> volume_write_grants s' = volume_write_grants s
     | None \<Rightarrow> 1 \<le> wr_maximumBytes r \<and>
         v_observed_size_bytes v + outstanding_bytes (wq_id input) (v_observed_size_bytes v) (wq_now input) s' =
           v_size_limit_bytes v)"
  using assms
proof (cases rule: reserveWriteGrant_Inr)
  case (1 volume observed s1)
  have g1: "volume_write_grants s1 = volume_write_grants s" by (simp add: 1(9))
  have replay: "live_replay input s1 = live_replay input s" by (rule live_replay_cong) (rule g1)
  show ?thesis
  proof (cases "live_replay input s")
    case (Some g)
    with 1 replay g1 show ?thesis by auto
  next
    case None
    with 1(11) replay have "reserve_fresh pgdiv1024 policy uuid input volume observed now s1 = Inr (r, s')" by auto
    then obtain g where g: "g = new_write_grant uuid input volume observed (next_attempt input s1)
          (v_size_limit_bytes volume - observed - outstanding_bytes (wq_id input) observed (wq_now input) s1)"
        "r = reservation_of g" "s' = s1\<lparr>volume_write_grants := volume_write_grants s1 @ [g]\<rparr>" "write_grant_check g"
      by (rule reserve_fresh_Inr)
    have sel: "wg_volume_id g = wq_id input" "wg_expires_at g = wq_expiresAt input" "wg_created_at g = wq_now input"
        "wg_observed_size_at_reservation g = observed"
        "wg_maximum_bytes g = v_size_limit_bytes volume - observed - outstanding_bytes (wq_id input) observed (wq_now input) s1"
      by (simp_all add: g(1) new_write_grant_def)
    from g(4) have pos: "0 < wg_maximum_bytes g" "wq_now input < wq_expiresAt input" by (simp_all add: write_grant_check_def sel)
    have "outstanding_bytes (wq_id input) observed (wq_now input) s' =
        outstanding_bytes (wq_id input) observed (wq_now input) s1 + wg_maximum_bytes g"
      using pos by (simp add: g(3) outstanding_bytes_def outstanding_def sel(1-4))
    then show ?thesis using pos(1) None 1(7,8) by (simp add: 1(10) g(2) reservation_of_def sel(5))
  qed
qed

section \<open>What no operation undoes\<close>

text \<open>
  The books of the outbox: a job belongs to a volume deleted when the job was requested, is due seven
  days later, and was not scheduled before. And what stays: a volume keeps its identity, size and
  expiry, a deletion is final, and a job keeps its due date.
\<close>

definition volumes_ok :: "fleet \<Rightarrow> bool" where
  "volumes_ok s \<longleftrightarrow> distinct (map v_id (volumes s)) \<and> distinct (map vd_volume_id (volume_deletion_jobs s)) \<and>
     (\<forall>j\<in>set (volume_deletion_jobs s). vd_delete_after j = delete_after (vd_requested_at j) \<and>
        (\<exists>v\<in>set (volumes s). v_id v = vd_volume_id j \<and> v_deleted_at v = Some (vd_requested_at j)) \<and>
        opt_ok (\<lambda>t. vd_delete_after j \<le> t) (vd_scheduled_at j))"

definition volume_le :: "volume_row \<Rightarrow> volume_row \<Rightarrow> bool" where
  "volume_le v v' \<longleftrightarrow> v' = v\<lparr>v_observed_size_bytes := v_observed_size_bytes v', v_deleted_at := v_deleted_at v'\<rparr> \<and>
     (v_deleted_at v \<noteq> None \<longrightarrow> v_deleted_at v' = v_deleted_at v)"

definition job_le :: "deletion_job_row \<Rightarrow> deletion_job_row \<Rightarrow> bool" where
  "job_le j j' \<longleftrightarrow> vd_volume_id j' = vd_volume_id j \<and> vd_delete_after j' = vd_delete_after j \<and>
     vd_requested_at j' = vd_requested_at j \<and> (vd_scheduled_at j \<noteq> None \<longrightarrow> vd_scheduled_at j' = vd_scheduled_at j)"

definition volumes_le :: "fleet \<Rightarrow> fleet \<Rightarrow> bool" where
  "volumes_le s s' \<longleftrightarrow> covers volume_le (volumes s) (volumes s') \<and>
     covers job_le (volume_deletion_jobs s) (volume_deletion_jobs s')"

lemma volume_le_refl [simp]: "volume_le v v"
  by (simp add: volume_le_def)

lemma volume_le_sel:
  assumes "volume_le v v'"
  shows "v_id v' = v_id v" and "v_size_limit_bytes v' = v_size_limit_bytes v" and "v_expires_at v' = v_expires_at v"
    and "v_organization_id v' = v_organization_id v" and "v_project_id v' = v_project_id v"
proof -
  from assms have v': "v' = v\<lparr>v_observed_size_bytes := v_observed_size_bytes v', v_deleted_at := v_deleted_at v'\<rparr>"
    by (simp add: volume_le_def)
  show "v_id v' = v_id v" "v_size_limit_bytes v' = v_size_limit_bytes v" "v_expires_at v' = v_expires_at v"
    "v_organization_id v' = v_organization_id v" "v_project_id v' = v_project_id v"
    by (subst v', simp)+
qed

lemma volume_le_trans:
  assumes "volume_le a b" and "volume_le b c"
  shows "volume_le a c"
proof -
  from assms(2) have c: "c = b\<lparr>v_observed_size_bytes := v_observed_size_bytes c, v_deleted_at := v_deleted_at c\<rparr>"
    by (simp add: volume_le_def)
  from assms(1) have b: "b = a\<lparr>v_observed_size_bytes := v_observed_size_bytes b, v_deleted_at := v_deleted_at b\<rparr>"
    by (simp add: volume_le_def)
  have "c = a\<lparr>v_observed_size_bytes := v_observed_size_bytes c, v_deleted_at := v_deleted_at c\<rparr>"
    by (subst c, subst b) simp
  moreover have "v_deleted_at a \<noteq> None \<longrightarrow> v_deleted_at c = v_deleted_at a" using assms by (auto simp: volume_le_def)
  ultimately show ?thesis by (simp add: volume_le_def)
qed

lemma job_le_refl [simp]: "job_le j j"
  by (simp add: job_le_def)

lemma job_le_trans: "job_le a b \<Longrightarrow> job_le b c \<Longrightarrow> job_le a c"
  by (auto simp: job_le_def)

lemma volumes_le_refl [simp]: "volumes_le s s"
  by (simp add: volumes_le_def covers_refl)

lemma volumes_le_trans: "volumes_le s t \<Longrightarrow> volumes_le t u \<Longrightarrow> volumes_le s u"
  unfolding volumes_le_def by (blast intro: covers_trans [of volume_le] covers_trans [of job_le] volume_le_trans job_le_trans)

interpretation vp: progress volumes_ok volumes_le
  by unfold_locales (auto intro: volumes_le_trans)

interpretation vkey: keyed v_id .

interpretation jkey: keyed vd_volume_id .

lemma volumes_ok_scheduled:
  "volumes_ok s \<Longrightarrow> j \<in> set (volume_deletion_jobs s) \<Longrightarrow> vd_scheduled_at j = Some t \<Longrightarrow> vd_delete_after j \<le> t"
  unfolding volumes_ok_def by fastforce

lemma volumes_ok_rows:
  assumes "volumes_ok s" and "volumes s' = sql_update P f (volumes s)"
    and "volume_deletion_jobs s' = volume_deletion_jobs s" and "\<And>v. v \<in> set (volumes s) \<Longrightarrow> P v \<Longrightarrow> volume_le v (f v)"
  shows "volumes_ok s' \<and> volumes_le s s'"
proof -
  have le: "covers volume_le (volumes s) (volumes s')" unfolding assms(2) by (rule covers_sql_update) (simp_all add: assms(4))
  have "map v_id (volumes s') = map v_id (volumes s)"
    unfolding assms(2) using assms(4) by (auto simp: sql_update_def volume_le_sel)
  moreover have "\<exists>v'\<in>set (volumes s'). v_id v' = i \<and> v_deleted_at v' = Some d"
    if "v \<in> set (volumes s)" "v_id v = i" "v_deleted_at v = Some d" for v i d
  proof -
    from le that(1) obtain v' where "v' \<in> set (volumes s')" "volume_le v v'" by (auto simp: covers_def)
    with that show ?thesis by (intro bexI [of _ v']) (auto simp: volume_le_sel(1), simp add: volume_le_def)
  qed
  ultimately have "volumes_ok s'" using assms(1) unfolding volumes_ok_def assms(3) by metis
  with le show ?thesis by (simp add: volumes_le_def assms(3) covers_refl)
qed

lemma volumes_ok_update:
  assumes "volumes_ok s" and "update_volumes P f s = Inr s'" and "\<And>v. v \<in> set (volumes s) \<Longrightarrow> P v \<Longrightarrow> volume_le v (f v)"
  shows "volumes_ok s' \<and> volumes_le s s'"
  using update_volumes_Inr [OF assms(2)] by (intro volumes_ok_rows [OF assms(1) _ _ assms(3)]) simp_all

lemma volumes_ok_jobs:
  assumes "volumes_ok s" and "s' = s\<lparr>volume_deletion_jobs := sql_update P f (volume_deletion_jobs s)\<rparr>"
    and "\<And>j. j \<in> set (volume_deletion_jobs s) \<Longrightarrow> P j \<Longrightarrow> job_le j (f j)"
    and "\<And>j t. j \<in> set (volume_deletion_jobs s) \<Longrightarrow> P j \<Longrightarrow> vd_scheduled_at (f j) = Some t \<Longrightarrow> vd_delete_after j \<le> t"
  shows "volumes_ok s' \<and> volumes_le s s'"
proof -
  have keep: "volumes s' = volumes s" by (simp add: assms(2))
  have "covers job_le (volume_deletion_jobs s) (volume_deletion_jobs s')"
    unfolding assms(2) by (auto intro!: covers_sql_update assms(3))
  then have le: "volumes_le s s'" by (simp add: volumes_le_def assms(2) covers_refl)
  have "map vd_volume_id (volume_deletion_jobs s') = map vd_volume_id (volume_deletion_jobs s)"
    unfolding assms(2) using assms(3) by (auto simp: sql_update_def job_le_def)
  moreover have "vd_delete_after j' = delete_after (vd_requested_at j') \<and>
      (\<exists>v\<in>set (volumes s'). v_id v = vd_volume_id j' \<and> v_deleted_at v = Some (vd_requested_at j')) \<and>
      opt_ok (\<lambda>t. vd_delete_after j' \<le> t) (vd_scheduled_at j')" if "j' \<in> set (volume_deletion_jobs s')" for j'
  proof -
    from that obtain j where j: "j \<in> set (volume_deletion_jobs s)" and "j' = (if P j then f j else j)"
      by (auto simp: assms(2) in_sql_update)
    with assms(1) assms(3,4) [OF j] show ?thesis
      by (cases "P j"; cases "vd_scheduled_at j'") (auto simp: volumes_ok_def job_le_def assms(2))
  qed
  ultimately have "volumes_ok s'" using assms(1) unfolding volumes_ok_def by (metis (no_types, lifting) keep)
  with le show ?thesis by blast
qed

lemma insert_deletion_job_ok:
  assumes "volumes_ok s" and "v' \<in> set (volumes s)" and "v_id v' = v_id v" and "v_deleted_at v' = Some d"
  shows "volumes_ok (insert_deletion_job v d s) \<and> volumes_le s (insert_deletion_job v d s)"
  using assms by (auto simp: insert_deletion_job_def volumes_ok_def volumes_le_def covers_refl covers_append)

lemma insert_deletion_job_volumes [simp]: "volumes (insert_deletion_job v d s) = volumes s"
  by (simp add: insert_deletion_job_def)

lemma insert_deletion_jobs_ok:
  assumes "volumes_ok s" and "list_all (\<lambda>v. \<exists>v'\<in>set (volumes s). v_id v' = v_id v \<and> v_deleted_at v' = Some (d v)) vs"
  shows "volumes_ok (fold (\<lambda>v. insert_deletion_job v (d v)) vs s) \<and> volumes_le s (fold (\<lambda>v. insert_deletion_job v (d v)) vs s)"
  using assms
proof (induction vs arbitrary: s)
  case (Cons v vs)
  then have "volumes_ok (insert_deletion_job v (d v) s)" "volumes_le s (insert_deletion_job v (d v) s)"
    using insert_deletion_job_ok [OF Cons.prems(1)] by auto
  with Cons show ?case by (auto intro: volumes_le_trans)
qed simp

subsection \<open>The operations of the repository\<close>

lemma admitCreate_ok:
  assumes "volumes_ok s" and "admitCreate pgdiv1024 policy volume key requestHash now s = Inr (a, s')"
  shows "volumes_ok s' \<and> volumes_le s s'"
proof -
  obtain v replayed where "a = (v, replayed)" by (cases a)
  with assms(2) have "admitCreate pgdiv1024 policy volume key requestHash now s = Inr ((v, replayed), s')" by simp
  then show ?thesis
  proof (cases rule: admitCreate_Inr)
    case (fresh organization project)
    then show ?thesis using assms(1)
      by (auto simp: volumes_ok_def volumes_le_def covers_append covers_refl dest!: insert_volume_Inr)
  qed (use assms(1) in simp_all)
qed

lemma volume_le_observed [simp]: "volume_le v (v\<lparr>v_observed_size_bytes := n\<rparr>)"
  by (simp add: volume_le_def)

lemma volume_le_deleted [simp]: "v_deleted_at v = None \<Longrightarrow> volume_le v (v\<lparr>v_deleted_at := d, v_observed_size_bytes := n\<rparr>)"
  by (simp add: volume_le_def)

lemma updateObservedSize_ok:
  "volumes_ok s \<Longrightarrow> updateObservedSize i org observed s = Inr (a, s') \<Longrightarrow> volumes_ok s' \<and> volumes_le s s'"
  by (auto simp: updateObservedSize_def Let_def dest: volumes_ok_update)

lemma volumes_ok_cong:
  assumes "volumes_ok s" and "volumes s' = volumes s" and "volume_deletion_jobs s' = volume_deletion_jobs s"
  shows "volumes_ok s' \<and> volumes_le s s'"
  using assms unfolding volumes_ok_def volumes_le_def by (simp only: covers_refl [OF volume_le_refl] covers_refl [OF job_le_refl]) blast

lemma reserveWriteGrant_ok:
  assumes ok: "volumes_ok s" and r: "reserveWriteGrant pgdiv1024 policy uuid input now s = Inr (a, s')"
  shows "volumes_ok s' \<and> volumes_le s s'"
proof (cases a)
  case None
  with r have "s' = s"
    by (auto simp: reserveWriteGrant_def Let_def split: if_splits option.splits sum.splits)
  with ok show ?thesis by simp
next
  case (Some vr)
  obtain v w where "vr = (v, w)" by (cases vr)
  with r Some have "reserveWriteGrant pgdiv1024 policy uuid input now s = Inr (Some (v, w), s')" by simp
  then show ?thesis
  proof (cases rule: reserveWriteGrant_Inr)
    case (1 volume observed s1)
    have s1: "volumes_ok s1 \<and> volumes_le s s1" unfolding 1(9) by (rule volumes_ok_rows [OF ok, where P = "\<lambda>v. v_id v = wq_id input" and f = "\<lambda>v. v\<lparr>v_observed_size_bytes := observed\<rparr>"]) simp_all
    from 1(11) have "volumes s' = volumes s1" "volume_deletion_jobs s' = volume_deletion_jobs s1"
      by (auto elim: reserve_fresh_Inr)
    with s1 volumes_ok_cong [of s1 s'] show ?thesis by (blast intro: volumes_le_trans)
  qed
qed

lemma markWriteGrantIssued_ok:
  "volumes_ok s \<Longrightarrow> markWriteGrantIssued i org now s = Inr (a, s') \<Longrightarrow> volumes_ok s' \<and> volumes_le s s'"
  by (rule volumes_ok_cong)
    (auto simp: markWriteGrantIssued_def Let_def split: option.splits if_splits dest!: update_write_grants_Inr)

lemma enqueueDeletion_ok:
  assumes ok: "volumes_ok s" and e: "enqueueDeletion i org project requestedAt observed s = Inr (a, s')"
  shows "volumes_ok s' \<and> volumes_le s s'"
proof (cases "find (\<lambda>v. v_id v = i \<and> in_project org project v) (volumes s)")
  case None
  with ok e show ?thesis by (simp add: enqueueDeletion_def)
next
  case (Some v)
  let ?f = "\<lambda>x. if v_deleted_at v = None then x\<lparr>v_deleted_at := Some requestedAt, v_observed_size_bytes := observed\<rparr>
      else x\<lparr>v_observed_size_bytes := observed\<rparr>"
  let ?d = "case v_deleted_at v of None \<Rightarrow> requestedAt | Some d \<Rightarrow> d"
  have v: "v \<in> set (volumes s)" "v_id v = i" using find_SomeD [OF Some] by auto
  have uniq: "x = v" if "x \<in> set (volumes s)" "v_id x = i" for x
    using vkey.key_unique [of "volumes s" x v] that v ok by (simp add: volumes_ok_def)
  from e Some obtain s1 where
      u: "(if v_deleted_at v = None \<or> v_observed_size_bytes v \<noteq> observed then update_volumes (\<lambda>v. v_id v = i) ?f s else Inr s) = Inr s1"
    and s': "s' = insert_deletion_job v ?d s1"
    by (auto simp: enqueueDeletion_def Let_def split: sum.splits)
  have "volumes_ok s1 \<and> volumes_le s s1 \<and> (\<exists>v'\<in>set (volumes s1). v_id v' = v_id v \<and> v_deleted_at v' = Some ?d)"
  proof (cases "v_deleted_at v = None \<or> v_observed_size_bytes v \<noteq> observed")
    case True
    with u have up: "update_volumes (\<lambda>v. v_id v = i) ?f s = Inr s1" by simp
    have "volumes_ok s1 \<and> volumes_le s s1"
      by (rule volumes_ok_update [OF ok up]) (auto dest: uniq)
    moreover have "?f v \<in> set (volumes s1)"
      using sql_update_changed [OF v(1), of "\<lambda>v. v_id v = i" ?f] v(2) update_volumes_Inr [OF up] by simp
    ultimately show ?thesis by (intro conjI bexI [of _ "?f v"]) (auto split: option.splits)
  next
    case False
    with u v ok show ?thesis by (intro conjI bexI [of _ v]) (auto split: option.splits)
  qed
  then show ?thesis unfolding s' using insert_deletion_job_ok [of s1 _ v ?d] by (blast intro: volumes_le_trans)
qed

lemma expired_volumes_set:
  "v \<in> set (expired_volumes locked now limit s) \<Longrightarrow> v \<in> set (volumes s) \<and> v_deleted_at v = None"
  by (auto simp: expired_volumes_def dest!: in_set_takeD)

lemma enqueueExpiredDeletions_ok:
  assumes ok: "volumes_ok s" and e: "enqueueExpiredDeletions locked now limit s = Inr (a, s')"
  shows "volumes_ok s' \<and> volumes_le s s'"
proof -
  let ?vs = "expired_volumes locked now (js_int limit) s"
  let ?P = "\<lambda>v. v_id v \<in> set (map v_id ?vs)"
  let ?f = "\<lambda>v. v\<lparr>v_deleted_at := Some (v_expires_at v), v_observed_size_bytes := min (v_observed_size_bytes v) (v_size_limit_bytes v)\<rparr>"
  from e obtain s1 where up: "update_volumes ?P ?f s = Inr s1" and s': "s' = fold (\<lambda>v. insert_deletion_job v (v_expires_at v)) ?vs s1"
    by (auto simp: enqueueExpiredDeletions_def Let_def split: if_splits sum.splits)
  have live: "v_deleted_at x = None" if "x \<in> set (volumes s)" "?P x" for x
  proof -
    from that(2) obtain v where v: "v \<in> set ?vs" "v_id v = v_id x" by auto
    with expired_volumes_set [OF v(1)] that(1) ok have "v = x" using vkey.key_unique [of "volumes s" v x] by (simp add: volumes_ok_def)
    with expired_volumes_set [OF v(1)] show ?thesis by simp
  qed
  have s1: "volumes_ok s1 \<and> volumes_le s s1" by (rule volumes_ok_update [OF ok up]) (rule volume_le_deleted, rule live)
  have "list_all (\<lambda>v. \<exists>v'\<in>set (volumes s1). v_id v' = v_id v \<and> v_deleted_at v' = Some (v_expires_at v)) ?vs"
  proof (unfold list_all_iff, intro ballI)
    fix v
    assume v: "v \<in> set ?vs"
    then have "?f v \<in> set (volumes s1)"
      using sql_update_changed [of v "volumes s" ?P ?f] expired_volumes_set [OF v] update_volumes_Inr [OF up] by simp
    then show "\<exists>v'\<in>set (volumes s1). v_id v' = v_id v \<and> v_deleted_at v' = Some (v_expires_at v)" by (rule rev_bexI) simp
  qed
  with s1 show ?thesis unfolding s' using insert_deletion_jobs_ok [of s1 v_expires_at ?vs] by (blast intro: volumes_le_trans)
qed

lemma claim_job_le: "job_le j (claim_job token now ttl j)"
  by (simp add: job_le_def claim_job_def)

lemma claimDeletionJobs_ok:
  assumes "volumes_ok s" and "claimDeletionJobs locked now limit token ttl s = Inr (claims, s')"
  shows "volumes_ok s' \<and> volumes_le s s' \<and>
    (\<forall>c\<in>set claims. \<exists>j\<in>set (volume_deletion_jobs s'). vd_volume_id j = v_id (dj_volume c) \<and> vd_delete_after j = dj_deleteAfter c)"
proof -
  let ?ids = "map vd_volume_id (deletion_candidates locked now (js_int limit) s)"
  let ?jobs = "sql_update (\<lambda>j. vd_volume_id j \<in> set ?ids) (claim_job token now (js_int ttl)) (volume_deletion_jobs s)"
  have s': "s' = s\<lparr>volume_deletion_jobs := ?jobs\<rparr>" and c: "claims = concat (map (\<lambda>j. map (\<lambda>v. \<lparr>dj_volume = v, dj_deleteAfter = vd_delete_after j,
      dj_attemptCount = vd_attempt_count j, dj_claimToken = token\<rparr>) (filter (\<lambda>v. v_id v = vd_volume_id j) (volumes s)))
      (filter (\<lambda>j. vd_volume_id j \<in> set ?ids) ?jobs))"
    using assms(2) by (auto simp: claimDeletionJobs_def Let_def split: if_splits)
  have "volumes_ok s' \<and> volumes_le s s'"
  proof (rule volumes_ok_jobs [OF assms(1) s'])
    fix j t
    assume "j \<in> set (volume_deletion_jobs s)" and "vd_scheduled_at (claim_job token now (js_int ttl) j) = Some t"
    with volumes_ok_scheduled [OF assms(1), of j t] show "vd_delete_after j \<le> t" by (simp add: claim_job_def)
  qed (rule claim_job_le)
  moreover have "\<exists>j\<in>set (volume_deletion_jobs s'). vd_volume_id j = v_id (dj_volume x) \<and> vd_delete_after j = dj_deleteAfter x"
    if "x \<in> set claims" for x using that by (auto simp: c s')
  ultimately show ?thesis by blast
qed

lemma deferDeletion_ok:
  assumes "volumes_ok s" and "deferDeletion i next token code s = Inr (a, s')"
  shows "volumes_ok s' \<and> volumes_le s s'"
proof -
  from assms(2) have "s' = s\<lparr>volume_deletion_jobs := sql_update (deferrable i token) (deferred_job next token code) (volume_deletion_jobs s)\<rparr>"
    by (simp add: deferDeletion_def)
  then show ?thesis by (rule volumes_ok_jobs [OF assms(1)]) (auto simp: deferred_job_def job_le_def deferrable_def)
qed

lemma markDeletionScheduled_ok:
  assumes ok: "volumes_ok s" and m: "markDeletionScheduled i now s = Inr (a, s')"
    and j: "j \<in> set (volume_deletion_jobs s)" "vd_volume_id j = i" "vd_delete_after j \<le> now"
  shows "volumes_ok s' \<and> volumes_le s s'"
proof -
  have uniq: "x = j" if "x \<in> set (volume_deletion_jobs s)" "vd_volume_id x = i" for x
    using jkey.key_unique [of "volume_deletion_jobs s" x j] that j ok by (simp add: volumes_ok_def)
  from m have s': "s' = s\<lparr>volume_deletion_jobs := sql_update (\<lambda>j. vd_volume_id j = i) (scheduled_job now) (volume_deletion_jobs s)\<rparr>"
    by (simp add: markDeletionScheduled_def)
  show ?thesis
  proof (rule volumes_ok_jobs [OF ok s'])
    show "job_le x (scheduled_job now x)" for x by (auto simp: scheduled_job_def job_le_def coalesce_def split: option.splits)
    show "vd_delete_after x \<le> t" if "x \<in> set (volume_deletion_jobs s)" "vd_volume_id x = i" "vd_scheduled_at (scheduled_job now x) = Some t" for x t
      using that volumes_ok_scheduled [OF ok that(1)] uniq [OF that(1,2)] j(3) by (auto simp: scheduled_job_def coalesce_def split: option.splits)
  qed
qed

end
