(* ===== verification/VolumeService.thy ===== *)
theory VolumeService
  imports Volumes
begin

text \<open>
  \<open>VolumeService\<close> of \<open>domain/volumes.ts\<close> and the deletion worker of
  \<open>jobs/schedule-volume-deletions.ts\<close>. The object store is a record of functions from requests to
  answers; \<open>new URL\<close>, SHA-256, random identifiers and the clocks are arguments too. A call asks the
  store each question at most once, so a function is enough for its answers.
\<close>

section \<open>The object store\<close>

record volume_object_grant =
  og_method :: string
  og_url :: string
  og_objectPrefix :: string
  og_expiresAt :: time
  og_encryptionAtRest :: bool
  og_headers :: "(string \<times> json) list option"
  og_maximumBytes :: "js_number option"

record grant_request =
  gq_organizationId :: uuid
  gq_projectId :: uuid
  gq_objectPrefix :: string
  gq_method :: string
  gq_capabilityExpiresAt :: "time option"
  gq_expiresAt :: time
  gq_maximumBytes :: "int option"
  gq_reservationId :: "uuid option"

record volume_object_store =
  os_at_retention_boundary :: bool
  os_reservationSettlementSeconds :: "js_number option"
  os_inspect :: "uuid \<Rightarrow> uuid \<Rightarrow> string \<Rightarrow> error + js_number"
  os_issueGrant :: "grant_request \<Rightarrow> error + volume_object_grant"
  os_scheduleDeletion :: "uuid \<Rightarrow> uuid \<Rightarrow> string \<Rightarrow> time \<Rightarrow> error + unit"

record url =
  ur_protocol :: string
  ur_username :: string
  ur_password :: string
  ur_hash :: string

record volume_world =
  vw_url :: "string \<Rightarrow> url option"
  vw_sha256 :: "string \<Rightarrow> string"
  vw_pgdiv :: "numeric13 \<Rightarrow> numeric13"
  vw_policy :: admission_policy
  vw_storage :: "volume_object_store option"
  vw_volume_id :: string
  vw_uuid :: uuid
  vw_locked :: "string list"
  vw_clock :: "nat \<Rightarrow> time"

section \<open>Checks\<close>

definition header_ok :: "string \<times> json \<Rightarrow> bool" where
  "header_ok kv = (case kv of (name, value) \<Rightarrow>
     name \<noteq> [] \<and> length name \<le> 128 \<and> list_all (\<lambda>c. is_alnum c \<or> c = CHR ''-'') name \<and>
     (case value of
        JStr v \<Rightarrow> length v \<le> 4096 \<and> list_all (\<lambda>c. of_char c \<notin> {10, 13 :: nat}) v
      | _ \<Rightarrow> False) \<and>
     toLowerCase name \<notin> {''authorization'', ''cookie'', ''proxy-authorization'', ''x-amz-security-token''})"

definition validHeaders :: "(string \<times> json) list option \<Rightarrow> bool" where
  "validHeaders headers = (case headers of None \<Rightarrow> True | Some hs \<Rightarrow> length hs \<le> 16 \<and> list_all header_ok hs)"

definition invalid_grant_error :: error where
  "invalid_grant_error = VolumeInfrastructureUnavailable ''Object storage returned an invalid scoped grant.''"

text \<open>\<open>maximumBytes\<close> is what a \<open>PUT\<close> expects at most, \<open>None\<close> for a \<open>GET\<close>.\<close>

definition validateGrant ::
    "(string \<Rightarrow> url option) \<Rightarrow> volume_object_grant \<Rightarrow> string \<Rightarrow> string \<Rightarrow> time \<Rightarrow> int option \<Rightarrow> time \<Rightarrow> error option" where
  "validateGrant parse grant method prefix expiresAt maximumBytes now =
     (case parse (og_url grant) of
        None \<Rightarrow> Some invalid_grant_error
      | Some u \<Rightarrow>
          (if og_method grant \<noteq> method \<or> og_objectPrefix grant \<noteq> prefix \<or> ur_protocol u \<noteq> ''https:'' \<or>
              ur_username u \<noteq> '''' \<or> ur_password u \<noteq> '''' \<or> ur_hash u \<noteq> '''' \<or> og_expiresAt grant \<le> now \<or>
              og_expiresAt grant > expiresAt \<or>
              og_expiresAt grant - now > maximumVolumeGrantTtlSeconds * 1000 \<or>
              \<not> validHeaders (og_headers grant) \<or> \<not> og_encryptionAtRest grant \<or>
              (method = ''PUT'' \<and>
                (case og_maximumBytes grant of
                   None \<Rightarrow> True
                 | Some n \<Rightarrow> \<not> isSafeInteger n \<or> js_int n \<le> 0 \<or>
                     js_int n > (case maximumBytes of None \<Rightarrow> 0 | Some k \<Rightarrow> k)))
           then Some invalid_grant_error else None))"

definition storage_unavailable :: error where
  "storage_unavailable = VolumeInfrastructureUnavailable ''Durable volume storage is unavailable.''"

fun infrastructure :: "error + 'a \<Rightarrow> error + 'a" where
  "infrastructure (Inr a) = Inr a"
| "infrastructure (Inl (VolumeInfrastructureUnavailable m)) = Inl (VolumeInfrastructureUnavailable m)"
| "infrastructure (Inl (VolumeIntegrityError m)) = Inl (VolumeIntegrityError m)"
| "infrastructure (Inl e) = Inl storage_unavailable"

definition storage :: "volume_world \<Rightarrow> volume_object_store svc" where
  "storage w =
     (case vw_storage w of
        None \<Rightarrow> throw_svc (VolumeInfrastructureUnavailable ''Durable volume storage is not configured on this control plane.'')
      | Some store \<Rightarrow> return_svc store)"

definition inspect :: "volume_object_store \<Rightarrow> volume \<Rightarrow> int svc" where
  "inspect store volume =
     bind_svc (call_host (infrastructure (os_inspect store (v_organization_id volume) (v_project_id volume) (v_object_prefix volume))))
       (\<lambda>observed. if \<not> isSafeInteger observed \<or> js_int observed < 0 \<or> js_int observed > v_size_limit_bytes volume
          then throw_svc (VolumeIntegrityError ''Observed volume size exceeds its allocation.'')
          else return_svc (js_int observed))"

definition safeLastKnownObservation :: "volume \<Rightarrow> int" where
  "safeLastKnownObservation volume =
     (if isSafeInteger (JSInt (v_observed_size_bytes volume)) \<and> v_observed_size_bytes volume \<ge> 0
      then min (v_observed_size_bytes volume) (v_size_limit_bytes volume) else 0)"

definition inspectForDeletion :: "volume_object_store \<Rightarrow> volume \<Rightarrow> int" where
  "inspectForDeletion store volume =
     (case os_inspect store (v_organization_id volume) (v_project_id volume) (v_object_prefix volume) of
        Inl _ \<Rightarrow> safeLastKnownObservation volume
      | Inr observed \<Rightarrow>
          (if isSafeInteger observed \<and> js_int observed \<ge> 0 then min (js_int observed) (v_size_limit_bytes volume)
           else safeLastKnownObservation volume))"

definition validateGrantTtl :: "js_number \<Rightarrow> error option" where
  "validateGrantTtl ttl =
     (if \<not> isSafeInteger ttl \<or> js_int ttl < 1 \<or> js_int ttl > maximumVolumeGrantTtlSeconds
      then Some (InvalidVolumeRequest ''grant_ttl_seconds must be an integer from 1 to 900.'') else None)"

definition grantExpiry :: "volume \<Rightarrow> js_number \<Rightarrow> time \<Rightarrow> error + time" where
  "grantExpiry volume ttl issuedAt =
     (case validateGrantTtl ttl of
        Some e \<Rightarrow> Inl e
      | None \<Rightarrow> Inr (min (v_expires_at volume) (issuedAt + js_int ttl * 1000)))"

definition grant_ttl_of :: "js_number option \<Rightarrow> js_number" where
  "grant_ttl_of ttl = (case ttl of None \<Rightarrow> JSInt defaultVolumeGrantTtlSeconds | Some n \<Rightarrow> n)"

definition check_svc :: "error option \<Rightarrow> unit svc" where
  "check_svc e = (case e of None \<Rightarrow> return_svc () | Some x \<Rightarrow> throw_svc x)"

section \<open>Grants\<close>

definition issueRead :: "volume_world \<Rightarrow> volume_object_store \<Rightarrow> volume \<Rightarrow> js_number option \<Rightarrow> time \<Rightarrow> volume_object_grant svc" where
  "issueRead w store volume ttl issuedAt =
     bind_svc (call_host (grantExpiry volume (grant_ttl_of ttl) issuedAt)) (\<lambda>expiresAt.
     bind_svc (call_host (infrastructure (os_issueGrant store
         \<lparr>gq_organizationId = v_organization_id volume, gq_projectId = v_project_id volume,
          gq_objectPrefix = v_object_prefix volume, gq_method = ''GET'', gq_capabilityExpiresAt = None,
          gq_expiresAt = expiresAt, gq_maximumBytes = None, gq_reservationId = None\<rparr>))) (\<lambda>grant.
     bind_svc (check_svc (validateGrant (vw_url w) grant ''GET'' (v_object_prefix volume) expiresAt None issuedAt)) (\<lambda>_.
     return_svc grant)))"

definition settlement_seconds :: "volume_object_store \<Rightarrow> error + int" where
  "settlement_seconds store =
     (let n = (case os_reservationSettlementSeconds store of None \<Rightarrow> JSInt 0 | Some n \<Rightarrow> n) in
      if \<not> isSafeInteger n \<or> js_int n < 0 \<or> js_int n > maximumVolumeGrantTtlSeconds
      then Inl (VolumeInfrastructureUnavailable ''Durable volume storage returned an invalid reservation settlement window.'')
      else Inr (js_int n))"

text \<open>\<open>clock\<close>: when the grant is issued, the database's clock in the reservation, and when it is marked.\<close>

definition issueWrite ::
    "volume_world \<Rightarrow> volume_object_store \<Rightarrow> volume \<Rightarrow> js_number option \<Rightarrow> string option \<Rightarrow> (nat \<Rightarrow> time) \<Rightarrow>
     (volume \<times> volume_object_grant) option svc" where
  "issueWrite w store volume ttl operationKey clock =
     bind_svc (call_host (grantExpiry volume (grant_ttl_of ttl) (clock 0))) (\<lambda>capabilityExpiresAt.
     bind_svc (call_host (settlement_seconds store)) (\<lambda>settlement.
     bind_svc (call_tx (reserveWriteGrant (vw_pgdiv w) (vw_policy w) (vw_uuid w)
         \<lparr>wq_id = v_id volume, wq_organizationId = v_organization_id volume, wq_projectId = Some (v_project_id volume),
          wq_observedSizeBytes = JSInt (v_observed_size_bytes volume), wq_now = clock 0,
          wq_expiresAt = capabilityExpiresAt + settlement * 1000, wq_operationKey = operationKey\<rparr> (clock 1))) (\<lambda>reserved.
     case reserved of
       None \<Rightarrow> return_svc None
     | Some (v, r) \<Rightarrow>
         bind_svc (call_host (infrastructure (os_issueGrant store
             \<lparr>gq_organizationId = v_organization_id v, gq_projectId = v_project_id v, gq_objectPrefix = v_object_prefix v,
              gq_method = ''PUT'', gq_capabilityExpiresAt = Some capabilityExpiresAt, gq_expiresAt = wr_expiresAt r,
              gq_maximumBytes = Some (wr_maximumBytes r), gq_reservationId = Some (wr_id r)\<rparr>))) (\<lambda>grant.
         bind_svc (check_svc (validateGrant (vw_url w) grant ''PUT'' (v_object_prefix v) (wr_expiresAt r)
             (Some (wr_maximumBytes r)) (clock 0))) (\<lambda>_.
         bind_svc (call_tx (markWriteGrantIssued (wr_id r) (v_organization_id v) (clock 2))) (\<lambda>issued.
         return_svc (if issued then Some (v, grant) else None)))))))"

section \<open>The calls\<close>

record create_volume_input =
  cv_organizationId :: uuid
  cv_projectId :: uuid
  cv_sizeLimitMb :: "js_number option"
  cv_ttlSeconds :: "js_number option"
  cv_grantTtlSeconds :: "js_number option"
  cv_idempotencyKey :: string

definition size_limit_mb :: "create_volume_input \<Rightarrow> js_number" where
  "size_limit_mb input = (case cv_sizeLimitMb input of None \<Rightarrow> JSInt defaultVolumeSizeLimitMb | Some n \<Rightarrow> n)"

definition volume_ttl :: "create_volume_input \<Rightarrow> js_number" where
  "volume_ttl input = (case cv_ttlSeconds input of None \<Rightarrow> JSInt defaultVolumeTtlSeconds | Some n \<Rightarrow> n)"

definition create_volume_check :: "create_volume_input \<Rightarrow> error option" where
  "create_volume_check input =
     (if \<not> uuid_ok (cv_organizationId input) \<or> \<not> uuid_ok (cv_projectId input)
      then Some (InvalidVolumeRequest ''organization_id and project_id must be UUIDs.'')
      else if \<not> idempotency_key_ok (cv_idempotencyKey input)
      then Some (InvalidVolumeRequest ''A valid Idempotency-Key header is required.'')
      else if \<not> isSafeInteger (size_limit_mb input) \<or> js_int (size_limit_mb input) < 1 \<or>
          js_int (size_limit_mb input) * mebibyte > maximumVolumeBytes
      then Some (InvalidVolumeRequest ''size_limit_mb must be an integer from 1 to 1048576.'')
      else if \<not> isSafeInteger (volume_ttl input) \<or> js_int (volume_ttl input) < 3600 \<or>
          js_int (volume_ttl input) > maximumVolumeTtlSeconds
      then Some (InvalidVolumeRequest ''ttl_seconds must be an integer from 3600 to 31536000.'')
      else validateGrantTtl (grant_ttl_of (cv_grantTtlSeconds input)))"

definition create_volume_hash :: "(string \<Rightarrow> string) \<Rightarrow> create_volume_input \<Rightarrow> string" where
  "create_volume_hash sha256 input =
     sha256 (stringify (JObj [(''organizationId'', JStr (cv_organizationId input)), (''projectId'', JStr (cv_projectId input)),
       (''sizeLimitMb'', JNum (size_limit_mb input)), (''ttlSeconds'', JNum (volume_ttl input)),
       (''grantTtlSeconds'', JNum (grant_ttl_of (cv_grantTtlSeconds input)))]))"

definition new_volume :: "create_volume_input \<Rightarrow> string \<Rightarrow> time \<Rightarrow> volume" where
  "new_volume input i createdAt =
     \<lparr>v_id = i, v_organization_id = cv_organizationId input, v_project_id = cv_projectId input,
      v_object_prefix = ''organizations/'' @ cv_organizationId input @ ''/projects/'' @ cv_projectId input @
        ''/volumes/'' @ i @ ''/'',
      v_size_limit_bytes = js_int (size_limit_mb input) * mebibyte, v_observed_size_bytes = 0,
      v_created_at = createdAt, v_expires_at = createdAt + js_int (volume_ttl input) * 1000, v_deleted_at = None,
      v_idempotency_key = None, v_create_request_hash = None\<rparr>"

definition create_volume :: "volume_world \<Rightarrow> create_volume_input \<Rightarrow> (volume \<times> volume_object_grant \<times> bool) svc" where
  "create_volume w input =
     bind_svc (check_svc (create_volume_check input)) (\<lambda>_.
     bind_svc (storage w) (\<lambda>store.
     bind_svc (call_tx (admitCreate (vw_pgdiv w) (vw_policy w) (new_volume input (vw_volume_id w) (vw_clock w 0))
         (cv_idempotencyKey input) (create_volume_hash (vw_sha256 w) input) (vw_clock w 1))) (\<lambda>(admitted, replayed).
     bind_svc (inspect store admitted) (\<lambda>observed.
     bind_svc (issueWrite w store (admitted\<lparr>v_observed_size_bytes := observed\<rparr>)
         (Some (grant_ttl_of (cv_grantTtlSeconds input))) (Some ''create'') (\<lambda>n. vw_clock w (n + 2))) (\<lambda>issued.
     case issued of
       None \<Rightarrow> throw_svc (VolumeInfrastructureUnavailable ''The admitted volume became unavailable before grant issuance.'')
     | Some (volume, grant) \<Rightarrow> return_svc (volume, grant, replayed))))))"

definition grant_volume ::
    "volume_world \<Rightarrow> string \<Rightarrow> uuid \<Rightarrow> uuid option \<Rightarrow> string \<Rightarrow> js_number option \<Rightarrow>
     (volume \<times> volume_object_grant) option svc" where
  "grant_volume w i org project method ttl s =
     (case find_volume i org project (vw_clock w 0) s of
        None \<Rightarrow> (Inr None, s)
      | Some volume \<Rightarrow>
          bind_svc (storage w) (\<lambda>store.
          bind_svc (inspect store volume) (\<lambda>observed.
          let seen = volume\<lparr>v_observed_size_bytes := observed\<rparr> in
          if method = ''PUT'' then issueWrite w store seen ttl None (\<lambda>n. vw_clock w (n + 1))
          else bind_svc (issueRead w store seen ttl (vw_clock w 1)) (\<lambda>grant.
               bind_svc (call_tx (updateObservedSize i org observed)) (\<lambda>updated.
               return_svc (if updated then Some (seen, grant) else None))))) s)"

definition remove_now ::
    "volume_world \<Rightarrow> volume_object_store \<Rightarrow> volume \<Rightarrow> time \<Rightarrow> (nat \<Rightarrow> time) \<Rightarrow> unit svc" where
  "remove_now w store volume deleteAfter clock =
     bind_svc (call_host (os_scheduleDeletion store (v_organization_id volume) (v_project_id volume) (v_object_prefix volume) deleteAfter)) (\<lambda>_.
     bind_svc (call_tx (markDeletionScheduled (v_id volume) (clock 0))) (\<lambda>marked.
     if marked then return_svc ()
     else throw_svc (VolumeInfrastructureUnavailable ''The durable volume deletion request could not be finalized.'')))"

fun as_unavailable :: "error \<Rightarrow> error" where
  "as_unavailable (VolumeInfrastructureUnavailable m) = VolumeInfrastructureUnavailable m"
| "as_unavailable e = storage_unavailable"

definition remove_volume ::
    "volume_world \<Rightarrow> string \<Rightarrow> uuid \<Rightarrow> uuid option \<Rightarrow> (volume \<times> time) option svc" where
  "remove_volume w i org project s =
     (case findForDeletion i org project s of
        None \<Rightarrow> (Inr None, s)
      | Some volume \<Rightarrow>
          bind_svc (storage w) (\<lambda>store.
          bind_svc (call_tx (enqueueDeletion i org project (vw_clock w 0)
              (if v_deleted_at volume \<noteq> None then safeLastKnownObservation volume else inspectForDeletion store volume)))
            (\<lambda>deletion.
          case deletion of
            None \<Rightarrow> return_svc None
          | Some (v, deleteAfter) \<Rightarrow>
              (if os_at_retention_boundary store
               then bind_svc (call_tx (deferDeletion i deleteAfter None ''volume_retention_pending'')) (\<lambda>deferred.
                      if deferred then return_svc (Some (v, deleteAfter))
                      else throw_svc (VolumeInfrastructureUnavailable
                        ''The durable volume retention request could not be finalized.''))
               else (\<lambda>t. case remove_now w store v deleteAfter (\<lambda>n. vw_clock w (n + 1)) t of
                      (Inr _, t1) \<Rightarrow> (Inr (Some (v, deleteAfter)), t1)
                    | (Inl e, t1) \<Rightarrow>
                        (Inl (as_unavailable e),
                         snd (call_tx (deferDeletion i (vw_clock w 2 + 1000) None ''volume_deletion_schedule_failed'') t1)))))) s)"

definition volumeJson :: "volume \<Rightarrow> time option \<Rightarrow> json" where
  "volumeJson volume deleteAfter = JObj (
     [(''id'', JStr (v_id volume)), (''project_id'', JStr (v_project_id volume)),
      (''created_at'', JStr (toISOString (v_created_at volume))), (''expires_at'', JStr (toISOString (v_expires_at volume))),
      (''quota_mb'', JNum (if v_size_limit_bytes volume mod mebibyte = 0 then JSInt (v_size_limit_bytes volume div mebibyte) else JSOther)),
      (''used_bytes'', JNum (JSInt (v_observed_size_bytes volume)))] @
     opt_field ''deleted_at'' (map_option toISOString (v_deleted_at volume)) @
     opt_field ''delete_after'' (map_option toISOString deleteAfter))"

definition volumeGrantJson :: "volume_object_grant \<Rightarrow> json" where
  "volumeGrantJson grant = JObj (
     [(''method'', JStr (og_method grant)), (''url'', JStr (og_url grant)),
      (''headers'', JObj (case og_headers grant of None \<Rightarrow> [] | Some hs \<Rightarrow> hs)),
      (''expires_at'', JStr (toISOString (og_expiresAt grant)))] @
     (case og_maximumBytes grant of None \<Rightarrow> [] | Some n \<Rightarrow> [(''maximum_bytes'', JNum n)]))"

section \<open>The deletion worker\<close>

definition volumeDeletionClaimTtlSeconds :: int where "volumeDeletionClaimTtlSeconds = 60"
definition volumeDeletionBatchSize :: int where "volumeDeletionBatchSize = 100"

definition volumeDeletionRetryDelayMs :: "int \<Rightarrow> int" where
  "volumeDeletionRetryDelayMs attemptCount =
     min (60 * 60 * 1000) (1000 * 2 ^ nat (min (max (attemptCount - 1) 0) 12))"

datatype delivery = Scheduled | Deferred

record deletion_run =
  dr_expiredEnqueued :: int
  dr_claimed :: nat
  dr_scheduled :: nat
  dr_deferred :: nat

text \<open>\<open>clock\<close>: the start of the delivery, the time of its success and the time of its failure.\<close>

definition deliver_now :: "volume_object_store \<Rightarrow> deletion_job \<Rightarrow> (nat \<Rightarrow> time) \<Rightarrow> unit svc" where
  "deliver_now store job clock =
     bind_svc (call_host (os_scheduleDeletion store (v_organization_id (dj_volume job)) (v_project_id (dj_volume job))
         (v_object_prefix (dj_volume job)) (dj_deleteAfter job))) (\<lambda>_.
     bind_svc (call_tx (markDeletionScheduled (v_id (dj_volume job)) (clock 1))) (\<lambda>marked.
     if marked then return_svc () else throw_svc (PlainError ''volume deletion job disappeared before completion'')))"

definition deliver :: "volume_object_store \<Rightarrow> (nat \<Rightarrow> time) \<Rightarrow> deletion_job \<Rightarrow> delivery svc" where
  "deliver store clock job s =
     (if os_at_retention_boundary store \<and> dj_deleteAfter job > clock 0
      then bind_svc (call_tx (deferDeletion (v_id (dj_volume job)) (dj_deleteAfter job) (Some (dj_claimToken job))
               ''volume_retention_pending'')) (\<lambda>deferred.
             if deferred then return_svc Deferred
             else throw_svc (PlainError ''volume retention claim disappeared before deferral'')) s
      else case deliver_now store job clock s of
          (Inr _, s1) \<Rightarrow> (Inr Scheduled, s1)
        | (Inl _, s1) \<Rightarrow>
            bind_svc (call_tx (deferDeletion (v_id (dj_volume job))
                (clock 2 + volumeDeletionRetryDelayMs (dj_attemptCount job)) (Some (dj_claimToken job))
                ''volume_deletion_schedule_failed'')) (\<lambda>deferred.
              if deferred then return_svc Deferred
              else throw_svc (PlainError ''volume deletion claim disappeared before deferral'')) s1)"

text \<open>\<open>Promise.allSettled\<close>: every delivery runs, whatever became of the others.\<close>

fun deliver_all :: "volume_object_store \<Rightarrow> (nat \<Rightarrow> nat \<Rightarrow> time) \<Rightarrow> nat \<Rightarrow> deletion_job list \<Rightarrow> fleet \<Rightarrow>
    (error + delivery) list \<times> fleet" where
  "deliver_all store clock n [] s = ([], s)"
| "deliver_all store clock n (job # jobs) s =
     (case deliver store (clock n) job s of
        (r, s1) \<Rightarrow> (case deliver_all store clock (Suc n) jobs s1 of (rs, s2) \<Rightarrow> (r # rs, s2)))"

definition run_deletions ::
    "volume_object_store \<Rightarrow> string list \<Rightarrow> string list \<Rightarrow> uuid \<Rightarrow> js_number \<Rightarrow> time \<Rightarrow> (nat \<Rightarrow> nat \<Rightarrow> time) \<Rightarrow> deletion_run svc" where
  "run_deletions store lockedVolumes lockedJobs token limit startedAt clock =
     bind_svc (call_tx (enqueueExpiredDeletions lockedVolumes startedAt limit)) (\<lambda>expiredEnqueued.
     bind_svc (call_tx (claimDeletionJobs lockedJobs startedAt limit token (JSInt volumeDeletionClaimTtlSeconds))) (\<lambda>claims t.
     case deliver_all store clock 0 claims t of
       (results, t1) \<Rightarrow>
         (if list_ex isl results
          then (Inl (PlainError ''one or more volume deletion jobs could not advance''), t1)
          else (Inr \<lparr>dr_expiredEnqueued = expiredEnqueued, dr_claimed = length claims,
                 dr_scheduled = length (filter (\<lambda>r. r = Inr Scheduled) results),
                 dr_deferred = length (filter (\<lambda>r. r = Inr Deferred) results)\<rparr>, t1))))"

section \<open>A write grant is backed by a reservation\<close>

lemma bind_svc_Inr:
  "bind_svc m k s = (Inr b, s') \<longleftrightarrow> (\<exists>a t. m s = (Inr a, t) \<and> k a t = (Inr b, s'))"
  by (auto simp: bind_svc_def split: prod.splits sum.splits)

lemma call_svc_Inr:
  "call_tx t s = (Inr a, s') \<longleftrightarrow> t s = Inr (a, s')"
  "call_host r s = (Inr a, s') \<longleftrightarrow> r = Inr a \<and> s' = s"
  "return_svc b s = (Inr a, s') \<longleftrightarrow> a = b \<and> s' = s"
  "throw_svc e s = (Inr a, s') \<longleftrightarrow> False"
  by (auto simp: call_tx_def call_host_def return_svc_def throw_svc_def split: sum.splits)

lemma check_svc_Inr: "check_svc e s = (Inr a, s') \<longleftrightarrow> e = None \<and> s' = s"
  by (auto simp: check_svc_def call_svc_Inr split: option.splits)

lemmas svc_Inr = bind_svc_Inr call_svc_Inr check_svc_Inr

lemma validateGrant_None:
  assumes "validateGrant parse grant method prefix expiresAt maximumBytes now = None"
  shows "og_method grant = method \<and> og_objectPrefix grant = prefix \<and> now < og_expiresAt grant \<and> og_expiresAt grant \<le> expiresAt \<and>
    og_expiresAt grant \<le> now + maximumVolumeGrantTtlSeconds * 1000 \<and> og_encryptionAtRest grant \<and>
    (\<exists>u. parse (og_url grant) = Some u \<and> ur_protocol u = ''https:'')"
  using assms by (auto simp: validateGrant_def split: option.splits if_splits)

lemma validateGrant_PUT:
  assumes "validateGrant parse grant ''PUT'' prefix expiresAt (Some k) now = None"
  shows "\<exists>n. og_maximumBytes grant = Some (JSInt n) \<and> 0 < n \<and> n \<le> k"
proof -
  from assms obtain j where j: "og_maximumBytes grant = Some j" "isSafeInteger j" "0 < js_int j" "js_int j \<le> k"
    by (auto simp: validateGrant_def not_le not_less split: option.splits if_splits)
  then show ?thesis by (cases j) auto
qed

lemma reserveWriteGrant_row:
  assumes "reserveWriteGrant pgdiv1024 policy uuid input now s = Inr (Some (v, r), s')"
    and "distinct (map wg_id (volume_write_grants s))"
  obtains g where "g \<in> set (volume_write_grants s')" and "r = reservation_of g" and "wg_volume_id g = wq_id input"
    and "distinct (map wg_id (volume_write_grants s'))" and "v_id v = wq_id input"
    and "v_organization_id v = wq_organizationId input"
  using assms(1)
proof (cases rule: reserveWriteGrant_Inr)
  case (1 volume observed s1)
  have g1: "volume_write_grants s1 = volume_write_grants s" by (simp add: 1(9))
  have v: "v_id v = wq_id input" "v_organization_id v = wq_organizationId input"
    using 1(2,3) by (simp_all add: 1(10) in_project_def)
  from 1(11) show thesis
  proof
    assume "\<exists>g. live_replay input s1 = Some g \<and> r = reservation_of g \<and> s' = s1"
    then obtain g where g: "live_replay input s1 = Some g" "r = reservation_of g" "s' = s1" by blast
    show thesis by (rule that [OF _ g(2) _ _ v]) (use live_replay_Some [OF g(1)] g(3) g1 assms(2) in auto)
  next
    assume "live_replay input s1 = None \<and> reserve_fresh pgdiv1024 policy uuid input volume observed now s1 = Inr (r, s')"
    then have "reserve_fresh pgdiv1024 policy uuid input volume observed now s1 = Inr (r, s')" by blast
    then show thesis
    proof (cases rule: reserve_fresh_Inr)
      case (1 g)
      show thesis
        by (rule that [OF _ 1(2) _ _ v]) (use 1 g1 assms(2) in \<open>auto simp: new_write_grant_def\<close>)
    qed
  qed
qed

interpretation wkey: keyed wg_id .

lemma markWriteGrantIssued_True:
  assumes "markWriteGrantIssued i org now s = Inr (True, s')" and "distinct (map wg_id (volume_write_grants s))"
    and "g \<in> set (volume_write_grants s)" and "wg_id g = i"
  shows "wg_organization_id g = org \<and> now < wg_expires_at g \<and>
    g\<lparr>wg_issued_at := coalesce (wg_issued_at g) (Some now)\<rparr> \<in> set (volume_write_grants s') \<and>
    (\<exists>v\<in>set (volumes s'). v_id v = wg_volume_id g \<and> v_organization_id v = org \<and> v_deleted_at v = None \<and> now < v_expires_at v)"
proof -
  let ?P = "\<lambda>g. wg_id g = i \<and> wg_organization_id g = org \<and> wg_expires_at g > now"
  let ?f = "\<lambda>g. g\<lparr>wg_issued_at := coalesce (wg_issued_at g) (Some now)\<rparr>"
  from assms(1) obtain h v where h: "find (\<lambda>g. wg_id g = i \<and> wg_organization_id g = org) (volume_write_grants s) = Some h"
    and v: "find (\<lambda>v. v_id v = wg_volume_id h \<and> v_organization_id v = org) (volumes s) = Some v"
      "v_deleted_at v = None" "now < v_expires_at v"
    and ex: "list_ex ?P (volume_write_grants s)" and up: "update_write_grants ?P ?f s = Inr s'"
    by (auto simp: markWriteGrantIssued_def Let_def split: option.splits if_splits)
  have uniq: "x = g" if "x \<in> set (volume_write_grants s)" "wg_id x = i" for x
    using wkey.key_unique [OF assms(2) that(1) assms(3)] that(2) assms(4) by simp
  from h have "h = g" using find_SomeD [OF h] uniq by blast
  moreover from ex have P: "?P g" using uniq by (auto simp: list_ex_iff)
  then have "?f g \<in> set (volume_write_grants s')"
    using sql_update_changed [of g "volume_write_grants s" ?P ?f] assms(3) update_write_grants_Inr [OF up] by simp
  moreover have "v \<in> set (volumes s')" using find_SomeD [OF v(1)] update_write_grants_Inr [OF up] by simp
  ultimately show ?thesis using P v find_SomeD [OF v(1)] by blast
qed

lemma coalesce_issued [simp]: "coalesce x (Some t) \<noteq> None"
  by (simp add: coalesce_def split: option.splits)

text \<open>C18: A write grant that leaves the control plane is backed by the database. It is scoped to the
  volume's prefix over https with encryption, lives at most 900 seconds, and when it is returned a
  reservation of the volume is stored and marked as issued that outlives it and allows at least the
  bytes it allows, while the volume is neither deleted nor expired.\<close>

theorem write_grant_backed:
  assumes "issueWrite w store volume ttl operationKey clock s = (Inr (Some (v, grant)), s')"
    and "distinct (map wg_id (volume_write_grants s))"
  shows "og_method grant = ''PUT'' \<and> og_objectPrefix grant = v_object_prefix v \<and> og_encryptionAtRest grant \<and>
    (\<exists>u. vw_url w (og_url grant) = Some u \<and> ur_protocol u = ''https:'') \<and>
    clock 0 < og_expiresAt grant \<and> og_expiresAt grant \<le> clock 0 + 900000 \<and>
    (\<exists>g\<in>set (volume_write_grants s'). wg_volume_id g = v_id volume \<and> wg_issued_at g \<noteq> None \<and>
      og_expiresAt grant \<le> wg_expires_at g \<and> clock 2 < wg_expires_at g \<and>
      (\<exists>n. og_maximumBytes grant = Some (JSInt n) \<and> 0 < n \<and> n \<le> wg_maximum_bytes g)) \<and>
    (\<exists>x\<in>set (volumes s'). v_id x = v_id volume \<and> v_deleted_at x = None \<and> clock 2 < v_expires_at x)"
proof -
  from assms(1) obtain capability settlement s1 r where
      res: "reserveWriteGrant (vw_pgdiv w) (vw_policy w) (vw_uuid w)
         \<lparr>wq_id = v_id volume, wq_organizationId = v_organization_id volume, wq_projectId = Some (v_project_id volume),
          wq_observedSizeBytes = JSInt (v_observed_size_bytes volume), wq_now = clock 0,
          wq_expiresAt = capability + settlement * 1000, wq_operationKey = operationKey\<rparr> (clock 1) s = Inr (Some (v, r), s1)"
    and val: "validateGrant (vw_url w) grant ''PUT'' (v_object_prefix v) (wr_expiresAt r) (Some (wr_maximumBytes r)) (clock 0) = None"
    and mark: "markWriteGrantIssued (wr_id r) (v_organization_id v) (clock 2) s1 = Inr (True, s')"
    unfolding issueWrite_def by (auto simp: svc_Inr split: option.splits prod.splits if_splits)
  from res assms(2) obtain g where g: "g \<in> set (volume_write_grants s1)" "r = reservation_of g" "wg_volume_id g = v_id volume"
      "distinct (map wg_id (volume_write_grants s1))" "v_id v = v_id volume"
    by (rule reserveWriteGrant_row) simp
  have r: "wr_id r = wg_id g" "wr_expiresAt r = wg_expires_at g" "wr_maximumBytes r = wg_maximum_bytes g"
    by (simp_all add: g(2) reservation_of_def)
  let ?g = "g\<lparr>wg_issued_at := coalesce (wg_issued_at g) (Some (clock 2))\<rparr>"
  note m = markWriteGrantIssued_True [OF mark g(4,1) r(1) [symmetric]]
  have "?g \<in> set (volume_write_grants s')" "clock 2 < wg_expires_at g"
    and x: "\<exists>x\<in>set (volumes s'). v_id x = v_id volume \<and> v_deleted_at x = None \<and> clock 2 < v_expires_at x"
    using m g(3) by auto
  moreover note validateGrant_None [OF val] validateGrant_PUT [OF val]
  ultimately show ?thesis
    by (intro conjI x bexI [of _ ?g]) (auto simp: r g(3) maximumVolumeGrantTtlSeconds_def)
qed

section \<open>Nothing is erased before its retention is over\<close>

abbreviation vsound :: "'a svc \<Rightarrow> fleet \<Rightarrow> bool" where
  "vsound \<equiv> advances volumes_ok volumes_le"

abbreviation vsound_from :: "fleet \<Rightarrow> 'a svc \<Rightarrow> bool" where
  "vsound_from \<equiv> lasting volumes_ok volumes_le"

lemma vsound_pure [simp, intro]:
  "vsound (return_svc a) s" "vsound (throw_svc e) s" "vsound (call_host r) s" "vsound (check_svc x) s"
  "vsound (storage w) s"
  by (auto intro!: vp.stay simp: return_svc_def throw_svc_def call_host_def check_svc_def storage_def split: option.splits)

lemma vsound_tx:
  "vsound (call_tx (admitCreate pgdiv1024 policy volume key requestHash now)) s"
  "vsound (call_tx (updateObservedSize i org observed)) s"
  "vsound (call_tx (reserveWriteGrant pgdiv1024 policy uuid input now)) s"
  "vsound (call_tx (markWriteGrantIssued i org now)) s"
  "vsound (call_tx (enqueueDeletion i org project requestedAt observed)) s"
  "vsound (call_tx (enqueueExpiredDeletions locked now limit)) s"
  "vsound (call_tx (deferDeletion i next token code)) s"
  by (rule vp.tx, (erule (1) admitCreate_ok updateObservedSize_ok reserveWriteGrant_ok markWriteGrantIssued_ok
      enqueueDeletion_ok enqueueExpiredDeletions_ok deferDeletion_ok))+

lemma vsound_inspect [intro]: "vsound (inspect store volume) s"
  unfolding inspect_def by (auto intro!: vp.bind)

lemma vsound_issueWrite [intro]: "vsound (issueWrite w store volume ttl operationKey clock) s"
  unfolding issueWrite_def by (auto intro!: vp.bind vsound_tx split: option.splits)

lemma vsound_issueRead [intro]: "vsound (issueRead w store volume ttl issuedAt) s"
  unfolding issueRead_def by (auto intro!: vp.bind)

lemma vsound_create_volume: "vsound (create_volume w input) s"
  unfolding create_volume_def by (auto intro!: vp.bind vsound_tx split: option.splits prod.splits)

lemma vsound_grant_volume: "vsound (grant_volume w i org project method ttl) s"
proof (cases "find_volume i org project (vw_clock w 0) s")
  case None
  then show ?thesis by (intro vp.stay) (simp add: grant_volume_def)
next
  case (Some volume)
  have "vsound (bind_svc (storage w) (\<lambda>store. bind_svc (inspect store volume) (\<lambda>observed.
      let seen = volume\<lparr>v_observed_size_bytes := observed\<rparr> in
      if method = ''PUT'' then issueWrite w store seen ttl None (\<lambda>n. vw_clock w (n + 1))
      else bind_svc (issueRead w store seen ttl (vw_clock w 1)) (\<lambda>grant.
           bind_svc (call_tx (updateObservedSize i org observed)) (\<lambda>updated.
           return_svc (if updated then Some (seen, grant) else None)))))) s" (is "vsound ?m s")
    by (auto intro!: vp.bind vsound_tx simp: Let_def)
  moreover have "grant_volume w i org project method ttl s = ?m s" using Some by (simp add: grant_volume_def)
  ultimately show ?thesis by (simp add: advances_def)
qed

text \<open>With a store that erases at the retention boundary, \<open>remove\<close> only writes the outbox.\<close>

lemma vsound_remove_volume:
  assumes "vw_storage w = Some store" and "os_at_retention_boundary store"
  shows "vsound (remove_volume w i org project) s"
proof (cases "findForDeletion i org project s")
  case None
  then show ?thesis by (intro vp.stay) (simp add: remove_volume_def)
next
  case (Some volume)
  let ?n = "if v_deleted_at volume \<noteq> None then safeLastKnownObservation volume else inspectForDeletion store volume"
  have "vsound (bind_svc (call_tx (enqueueDeletion i org project (vw_clock w 0) ?n)) (\<lambda>deletion.
      case deletion of None \<Rightarrow> return_svc None
      | Some (v, deleteAfter) \<Rightarrow> bind_svc (call_tx (deferDeletion i deleteAfter None ''volume_retention_pending'')) (\<lambda>deferred.
          if deferred then return_svc (Some (v, deleteAfter))
          else throw_svc (VolumeInfrastructureUnavailable ''The durable volume retention request could not be finalized.'')))) s"
    (is "vsound ?m s") by (auto intro!: vp.bind vsound_tx split: option.splits)
  moreover have "remove_volume w i org project s = ?m s"
    using Some assms by (simp add: remove_volume_def storage_def return_svc_def bind_svc_def)
  ultimately show ?thesis by (simp add: advances_def)
qed

lemma vsound_from_defer:
  "vsound_from s (bind_svc (call_tx (deferDeletion i next token code)) (\<lambda>deferred.
     if deferred then return_svc Deferred else throw_svc e))"
  by (intro vp.lastingI vp.bind vsound_tx) auto

text \<open>A delivery that schedules a deletion does so at a time that is not before the job's due date.\<close>

lemma vsound_from_deliver:
  assumes "j \<in> set (volume_deletion_jobs s)" and "vd_volume_id j = v_id (dj_volume job)"
    and "vd_delete_after j = dj_deleteAfter job" and "os_at_retention_boundary store" and "clock 0 \<le> clock 1"
  shows "vsound_from s (deliver store clock job)"
proof (rule vp.lastingI)
  fix t
  assume ok: "volumes_ok t" and le: "volumes_le s t"
  from le assms(1) obtain k where k: "k \<in> set (volume_deletion_jobs t)" "job_le j k" by (auto simp: volumes_le_def covers_def)
  then have k': "vd_volume_id k = v_id (dj_volume job)" "vd_delete_after k = dj_deleteAfter job"
    using assms(2,3) by (simp_all add: job_le_def)
  show "vsound (deliver store clock job) t"
  proof (cases "dj_deleteAfter job > clock 0")
    case True
    then show ?thesis using vp.lastingD [OF vsound_from_defer [of t]] assms(4) by (simp add: advances_def deliver_def)
  next
    case False
    have now: "vsound (deliver_now store job clock) t"
      unfolding deliver_now_def
    proof (rule vp.bind)
      show "vsound (call_host (os_scheduleDeletion store (v_organization_id (dj_volume job)) (v_project_id (dj_volume job))
         (v_object_prefix (dj_volume job)) (dj_deleteAfter job))) t" by simp
      fix a t'
      assume "call_host (os_scheduleDeletion store (v_organization_id (dj_volume job)) (v_project_id (dj_volume job))
         (v_object_prefix (dj_volume job)) (dj_deleteAfter job)) t = (Inr a, t')"
      then have t': "t' = t" by (simp add: call_svc_Inr)
      have "vsound (call_tx (markDeletionScheduled (v_id (dj_volume job)) (clock 1))) t"
        using False assms(5) k' by (intro vp.tx) (erule (1) markDeletionScheduled_ok [OF _ _ k(1)], simp_all)
      then show "vsound (bind_svc (call_tx (markDeletionScheduled (v_id (dj_volume job)) (clock 1))) (\<lambda>marked.
          if marked then return_svc () else throw_svc (PlainError ''volume deletion job disappeared before completion''))) t'"
        unfolding t' by (rule vp.bind) auto
    qed
    obtain r u where u: "deliver_now store job clock t = (r, u)" by fastforce
    with now ok have "volumes_ok u" "volumes_le t u" by (simp_all add: advances_def)
    moreover from this have "volumes_ok (snd (deliver store clock job t)) \<and> volumes_le u (snd (deliver store clock job t))"
      using vp.lastingD [OF vsound_from_defer [of u]] False u by (cases r) (auto simp: advances_def deliver_def)
    ultimately show ?thesis by (auto simp: advances_def intro: volumes_le_trans)
  qed
qed

lemma deliver_all_ok:
  assumes "volumes_ok t" and "volumes_le s t" and "\<And>n job. job \<in> set jobs \<Longrightarrow> vsound_from s (deliver store (clock n) job)"
    and "deliver_all store clock n jobs t = (rs, u)"
  shows "volumes_ok u \<and> volumes_le s u"
  using assms
proof (induction jobs arbitrary: t n rs)
  case (Cons job jobs)
  obtain r t1 where d: "deliver store (clock n) job t = (r, t1)" by fastforce
  have "vsound (deliver store (clock n) job) t" using vp.later [OF Cons.prems(2) Cons.prems(3)] vp.lastingD by auto
  with d Cons.prems(1,2) have t1: "volumes_ok t1" "volumes_le s t1" by (auto simp: advances_def intro: volumes_le_trans)
  from Cons.prems(4) d obtain rs' where "deliver_all store clock (Suc n) jobs t1 = (rs', u)" by (auto split: prod.splits)
  with Cons.IH [OF t1] Cons.prems(3) show ?case by simp
qed simp

lemma vsound_run_deletions:
  assumes "os_at_retention_boundary store" and "\<And>n. clock n 0 \<le> clock n 1"
  shows "vsound (run_deletions store lockedVolumes lockedJobs token limit startedAt clock) s"
  unfolding run_deletions_def
proof (rule vp.bind [OF vsound_tx(6)])
  fix e s1
  let ?ttl = "JSInt volumeDeletionClaimTtlSeconds"
  let ?deliver = "\<lambda>claims t. case deliver_all store clock 0 claims t of (results, t1) \<Rightarrow>
         (if list_ex isl results then (Inl (PlainError ''one or more volume deletion jobs could not advance''), t1)
          else (Inr \<lparr>dr_expiredEnqueued = e, dr_claimed = length claims,
                 dr_scheduled = length (filter (\<lambda>r. r = Inr Scheduled) results),
                 dr_deferred = length (filter (\<lambda>r. r = Inr Deferred) results)\<rparr>, t1))"
  have "vsound (call_tx (claimDeletionJobs lockedJobs startedAt limit token ?ttl)) s1"
    by (rule vp.tx) (auto dest: claimDeletionJobs_ok)
  then show "vsound (bind_svc (call_tx (claimDeletionJobs lockedJobs startedAt limit token ?ttl)) ?deliver) s1"
  proof (rule vp.bind)
    fix claims t
    assume c: "call_tx (claimDeletionJobs lockedJobs startedAt limit token ?ttl) s1 = (Inr claims, t)" and "volumes_ok s1" "volumes_ok t"
    then have "\<exists>j\<in>set (volume_deletion_jobs t). vd_volume_id j = v_id (dj_volume x) \<and> vd_delete_after j = dj_deleteAfter x"
      if "x \<in> set claims" for x using claimDeletionJobs_ok [of s1] that by (auto simp: call_svc_Inr)
    then have all: "vsound_from t (deliver store (clock n) x)" if "x \<in> set claims" for x n
      using vsound_from_deliver [of _ t x store "clock n"] that assms by blast
    obtain rs u where u: "deliver_all store clock 0 claims t = (rs, u)" by fastforce
    show "vsound (?deliver claims) t"
      using deliver_all_ok [OF \<open>volumes_ok t\<close> volumes_le_refl all u] u by (simp add: advances_def)
  qed
qed

text \<open>
  The calls of the volume service and the runs of the deletion worker as steps, for a store that
  erases at the retention boundary. The worker's clock does not run backwards within a delivery.
\<close>

inductive volume_step :: "volume_object_store \<Rightarrow> fleet \<Rightarrow> fleet \<Rightarrow> bool" for store where
  created: "vw_storage w = Some store \<Longrightarrow> create_volume w input s = (r, s') \<Longrightarrow> volume_step store s s'"
| granted: "vw_storage w = Some store \<Longrightarrow> grant_volume w i org project method ttl s = (r, s') \<Longrightarrow> volume_step store s s'"
| removed: "vw_storage w = Some store \<Longrightarrow> remove_volume w i org project s = (r, s') \<Longrightarrow> volume_step store s s'"
| worked: "\<forall>n. clock n 0 \<le> clock n 1 \<Longrightarrow>
    run_deletions store lockedVolumes lockedJobs token limit startedAt clock s = (r, s') \<Longrightarrow> volume_step store s s'"

lemma vsoundD: "vsound m s \<Longrightarrow> m s = (r, s') \<Longrightarrow> volumes_ok s \<Longrightarrow> volumes_ok s' \<and> volumes_le s s'"
  by (simp add: advances_def)

lemma volume_step_ok:
  assumes "volume_step store s s'" and "os_at_retention_boundary store" and "volumes_ok s"
  shows "volumes_ok s' \<and> volumes_le s s'"
  using assms(1)
proof cases
  case (created w input r)
  then show ?thesis using vsoundD [OF vsound_create_volume _ assms(3)] by blast
next
  case (granted w i org project verb ttl r)
  then show ?thesis using vsoundD [OF vsound_grant_volume _ assms(3)] by blast
next
  case (removed w i org project r)
  then show ?thesis using vsoundD [OF vsound_remove_volume _ assms(3)] assms(2) by blast
next
  case (worked clock lockedVolumes lockedJobs token limit startedAt r)
  then show ?thesis using vsoundD [OF vsound_run_deletions _ assms(3)] assms(2) by blast
qed

text \<open>C17: Nothing is erased early and no deletion is undone. Along every sequence of volume calls and worker
  runs against a store that erases at the retention boundary, a scheduled erasure lies at least seven
  days after the deletion of its volume, and a volume once deleted stays deleted at that time and
  keeps its size limit and owner.\<close>

theorem volume_retention_kept:
  assumes "(volume_step store)\<^sup>*\<^sup>* s s'" and "volumes_ok s" and "os_at_retention_boundary store"
  shows "list_all (\<lambda>j. opt_ok (\<lambda>t. list_ex (\<lambda>v. v_id v = vd_volume_id j \<and>
      (case v_deleted_at v of None \<Rightarrow> False | Some d \<Rightarrow> d + 604800000 \<le> t)) (volumes s')) (vd_scheduled_at j)) (volume_deletion_jobs s') \<and>
    list_all (\<lambda>v. list_ex (\<lambda>v'. v_id v' = v_id v \<and> v_organization_id v' = v_organization_id v \<and>
      v_size_limit_bytes v' = v_size_limit_bytes v \<and>
      (v_deleted_at v = None \<or> v_deleted_at v' = v_deleted_at v)) (volumes s')) (volumes s)"
proof -
  have s': "volumes_ok s' \<and> volumes_le s s'"
    using assms(1)
  proof induction
    case base
    with assms(2) show ?case by simp
  next
    case (step t u)
    with volume_step_ok [OF step.hyps(2) assms(3)] show ?case by (blast intro: volumes_le_trans)
  qed
  have "\<exists>v\<in>set (volumes s'). v_id v = vd_volume_id j \<and> (case v_deleted_at v of None \<Rightarrow> False | Some d \<Rightarrow> d + 604800000 \<le> t)"
    if "j \<in> set (volume_deletion_jobs s')" "vd_scheduled_at j = Some t" for j t
  proof -
    from s' that(1) obtain v where "v \<in> set (volumes s')" "v_id v = vd_volume_id j" "v_deleted_at v = Some (vd_requested_at j)"
      and "vd_delete_after j = delete_after (vd_requested_at j)" by (auto simp: volumes_ok_def)
    moreover have "vd_delete_after j \<le> t" using s' that by (blast intro: volumes_ok_scheduled)
    ultimately show ?thesis by (intro bexI [of _ v]) (auto simp: delete_after_def volumeDeletionRetentionSeconds_def)
  qed
  then have "opt_ok (\<lambda>t. list_ex (\<lambda>v. v_id v = vd_volume_id j \<and>
      (case v_deleted_at v of None \<Rightarrow> False | Some d \<Rightarrow> d + 604800000 \<le> t)) (volumes s')) (vd_scheduled_at j)"
    if "j \<in> set (volume_deletion_jobs s')" for j
    using that by (cases "vd_scheduled_at j") (simp_all add: list_ex_iff)
  moreover have "\<exists>v'\<in>set (volumes s'). v_id v' = v_id v \<and> v_organization_id v' = v_organization_id v \<and>
      v_size_limit_bytes v' = v_size_limit_bytes v \<and> (v_deleted_at v = None \<or> v_deleted_at v' = v_deleted_at v)"
    if "v \<in> set (volumes s)" for v
  proof -
    from s' that obtain v' where "v' \<in> set (volumes s')" "volume_le v v'" by (auto simp: volumes_le_def covers_def)
    moreover from this have "v_deleted_at v = None \<or> v_deleted_at v' = v_deleted_at v" by (auto simp: volume_le_def)
    ultimately show ?thesis by (blast dest: volume_le_sel)
  qed
  ultimately show ?thesis by (simp add: list_all_iff list_ex_iff)
qed

end
