(* ===== verification/Templates.thy ===== *)
theory Templates
  imports VolumeService MachineService
begin

text \<open>
  \<open>domain/templates.ts\<close> and \<open>jobs/replicate-template.ts\<close>: publication of a machine's snapshot as an
  immutable template, its removal, and the replication of templates to hosts. The object store, the
  host transfer client, \<open>new URL\<close> and random identifiers are arguments. A publication also answers
  with the requests it made outside the database, in order, so that what is cleaned up can be stated.
\<close>

section \<open>Data\<close>

type_synonym template = template_row

record artifact =
  af_checksum :: string
  af_sizeBytes :: js_number

record scoped_object_grant =
  sg_method :: string
  sg_url :: string
  sg_expiresAt :: time

record template_object_store =
  ts_createUploadGrant :: "string \<Rightarrow> artifact \<Rightarrow> time \<Rightarrow> error + scoped_object_grant"
  ts_createDownloadGrant :: "string \<Rightarrow> time \<Rightarrow> error + scoped_object_grant"
  ts_stat :: "string \<Rightarrow> error + artifact"

text \<open>Address, host machine and lease of the source, and the export.\<close>

record export_target =
  et_address :: string
  et_hostMachineId :: string
  et_leaseId :: uuid
  et_exportId :: string

record template_publisher =
  tp_export :: "export_target \<Rightarrow> error + (string \<times> artifact)"
  tp_upload :: "export_target \<Rightarrow> artifact \<Rightarrow> scoped_object_grant \<Rightarrow> error + artifact"

datatype template_call =
    ExportCall export_target
  | UploadGrantCall string
  | UploadCall export_target
  | StatCall string
  | DeleteCall string
  | DiscardCall export_target

section \<open>Patterns\<close>

definition templateNamePattern :: "string \<Rightarrow> bool" where
  "templateNamePattern s \<longleftrightarrow> s \<noteq> [] \<and> length s \<le> 63 \<and> (is_lower (hd s) \<or> is_digit (hd s)) \<and>
     list_all (\<lambda>c. is_lower c \<or> is_digit c \<or> c \<in> set ''._-'') s"

definition templateVersionPattern :: "string \<Rightarrow> bool" where
  "templateVersionPattern s \<longleftrightarrow> s \<noteq> [] \<and> length s \<le> 64 \<and> is_alnum (hd s) \<and>
     list_all (\<lambda>c. is_alnum c \<or> c \<in> set ''._+-'') s"

definition tenantSegmentPattern :: "string \<Rightarrow> bool" where
  "tenantSegmentPattern s \<longleftrightarrow> s \<noteq> [] \<and> length s \<le> 128 \<and> is_alnum (hd s) \<and>
     list_all (\<lambda>c. is_alnum c \<or> c \<in> set ''_-'') s"

definition validTemplateChecksum :: "string \<Rightarrow> bool" where
  "validTemplateChecksum s \<longleftrightarrow> startsWith s ''sha256:'' \<and> hex64 (drop 7 s)"

definition maximumArtifactBytes :: int where "maximumArtifactBytes = 5 * 1024 * 1024 * 1024"

definition validArtifact :: "artifact \<Rightarrow> bool" where
  "validArtifact a \<longleftrightarrow> validTemplateChecksum (af_checksum a) \<and> isSafeInteger (af_sizeBytes a) \<and>
     js_int (af_sizeBytes a) > 0 \<and> js_int (af_sizeBytes a) \<le> maximumArtifactBytes"

text \<open>\<open>^m_[A-Za-z0-9_-]{1,126}$\<close>.\<close>

definition source_machine_id_ok :: "string \<Rightarrow> bool" where
  "source_machine_id_ok s \<longleftrightarrow> startsWith s ''m_'' \<and> 3 \<le> length s \<and> length s \<le> 128 \<and>
     list_all (\<lambda>c. is_alnum c \<or> c \<in> set ''_-'') (drop 2 s)"

definition scoped_grant_error :: error where
  "scoped_grant_error = TemplateInfrastructureUnavailable ''Object storage returned an invalid scoped grant.''"

definition validateScopedObjectGrant :: "(string \<Rightarrow> url option) \<Rightarrow> scoped_object_grant \<Rightarrow> string \<Rightarrow> time \<Rightarrow> error option" where
  "validateScopedObjectGrant parse grant method now =
     (case parse (sg_url grant) of
        None \<Rightarrow> Some scoped_grant_error
      | Some u \<Rightarrow>
          (if sg_method grant \<noteq> method \<or> ur_protocol u \<noteq> ''https:'' \<or> ur_username u \<noteq> '''' \<or> ur_password u \<noteq> '''' \<or>
              sg_expiresAt grant \<le> now \<or> sg_expiresAt grant - now > 15 * 60 * 1000
           then Some scoped_grant_error else None))"

definition object_key :: "uuid \<Rightarrow> uuid \<Rightarrow> string \<Rightarrow> string \<Rightarrow> uuid \<Rightarrow> string" where
  "object_key org project name version i =
     ''organizations/'' @ org @ ''/projects/'' @ project @ ''/templates/'' @ name @ ''/'' @ version @ ''/'' @ i @
     ''/snapshot.tar.zst''"

definition safeObjectKey :: "uuid \<Rightarrow> uuid \<Rightarrow> string \<Rightarrow> string \<Rightarrow> uuid \<Rightarrow> error + string" where
  "safeObjectKey org project name version i =
     (if \<not> tenantSegmentPattern org \<or> \<not> tenantSegmentPattern project
      then Inl (InvalidTemplateRequest ''organization and project identifiers are invalid'')
      else Inr (object_key org project name version i))"

section \<open>The repository\<close>

definition list_templates :: "uuid \<Rightarrow> uuid option \<Rightarrow> bool \<Rightarrow> fleet \<Rightarrow> template list" where
  "list_templates org project includeDeleted s =
     sort_by (\<lambda>a b. then_cmp (cmp_of (t_created_at b) (t_created_at a)) (cmp_of (t_id a) (t_id b)))
       (filter (\<lambda>t. t_organization_id t = org \<and> (project = None \<or> Some (t_project_id t) = project) \<and>
          (includeDeleted \<or> t_deleted_at t = None)) (templates s))"

definition findVersion :: "uuid \<Rightarrow> uuid \<Rightarrow> string \<Rightarrow> string \<Rightarrow> fleet \<Rightarrow> template option" where
  "findVersion org project name version s =
     find (\<lambda>t. t_organization_id t = org \<and> t_project_id t = project \<and> t_name t = name \<and> t_version t = version) (templates s)"

text \<open>\<open>^t-[a-f0-9]{29}$\<close>.\<close>

definition host_template_name_ok :: "string \<Rightarrow> bool" where
  "host_template_name_ok s \<longleftrightarrow> startsWith s ''t-'' \<and> length s = 31 \<and> list_all is_hex (drop 2 s)"

definition template_check :: "template_row \<Rightarrow> bool" where
  "template_check t \<longleftrightarrow> host_template_name_ok (t_host_template_name t) \<and> validTemplateChecksum (t_checksum t) \<and>
     0 \<le> t_size_bytes t"

definition serving :: "host_row \<Rightarrow> bool" where
  "serving h \<longleftrightarrow> h_state h \<in> {Ready, Draining}"

definition requested_replica :: "time \<Rightarrow> uuid \<Rightarrow> uuid \<Rightarrow> replica_row" where
  "requested_replica now template host =
     \<lparr>r_template_id = template, r_host_id = host, r_state = ReplicaRequested, r_progress = 0,
      r_verified_checksum = None, r_error = None, r_updated_at = now\<rparr>"

text \<open>\<open>ON CONFLICT (template_id, host_id) DO NOTHING\<close>.\<close>

definition queue_replica :: "time \<Rightarrow> uuid \<Rightarrow> uuid \<Rightarrow> fleet \<Rightarrow> fleet" where
  "queue_replica now template host s =
     (if list_ex (\<lambda>r. r_template_id r = template \<and> r_host_id r = host) (template_replicas s) then s
      else s\<lparr>template_replicas := template_replicas s @ [requested_replica now template host]\<rparr>)"

definition manifest_architecture :: "json \<Rightarrow> string option" where
  "manifest_architecture m = (case get_prop m ''architecture'' of Some (JStr a) \<Rightarrow> Some a | _ \<Rightarrow> None)"

definition runs_on :: "json \<Rightarrow> host_row \<Rightarrow> bool" where
  "runs_on m h \<longleftrightarrow> manifest_architecture m = Some (architecture_text (h_architecture h)) \<and> serving h"

definition queue_replicas :: "time \<Rightarrow> template_row \<Rightarrow> fleet \<Rightarrow> fleet" where
  "queue_replicas now t s =
     fold (\<lambda>h. queue_replica now (t_id t) (h_id h)) (filter (runs_on (t_manifest t)) (hosts s)) s"

definition unique_violations :: "error set" where
  "unique_violations = {DbError ''templates_pkey'', DbError ''templates_host_template_name_key'',
     DbError ''templates_project_id_name_version_key''}"

definition insert_template :: "template \<Rightarrow> time \<Rightarrow> fleet \<Rightarrow> error + fleet" where
  "insert_template template now s =
     (let t = template\<lparr>t_created_at := now, t_deleted_at := None\<rparr> in
      if \<not> template_check t then Inl (DbError ''templates check constraint'')
      else if list_ex (\<lambda>x. t_id x = t_id t) (templates s) then Inl (DbError ''templates_pkey'')
      else if list_ex (\<lambda>x. t_host_template_name x = t_host_template_name t) (templates s)
      then Inl (DbError ''templates_host_template_name_key'')
      else if list_ex (\<lambda>x. t_project_id x = t_project_id t \<and> t_name x = t_name t \<and> t_version x = t_version t) (templates s)
      then Inl (DbError ''templates_project_id_name_version_key'')
      else if \<not> list_ex (\<lambda>p. p_id p = t_project_id t \<and> p_organization_id p = t_organization_id t) (projects s)
      then Inl (DbError ''templates_project_id_organization_id_fkey'')
      else if \<not> list_ex (\<lambda>m. Some (m_id m) = t_source_machine_id t \<and> m_organization_id m = t_organization_id t) (machines s)
      then Inl (DbError ''templates_source_machine_id_organization_id_fkey'')
      else Inr (queue_replicas now t (s\<lparr>templates := templates s @ [t]\<rparr>)))"

datatype delete_result = Deleted | InUse | NotFound

definition remove_candidate :: "string \<Rightarrow> uuid \<Rightarrow> uuid option \<Rightarrow> template_row \<Rightarrow> bool" where
  "remove_candidate idOrVersion org project t \<longleftrightarrow> t_organization_id t = org \<and> t_deleted_at t = None \<and>
     (t_id t = idOrVersion \<or> (project \<noteq> None \<and> t_name t @ ''@'' @ t_version t = idOrVersion)) \<and>
     (project = None \<or> Some (t_project_id t) = project)"

definition remove_template :: "string \<Rightarrow> uuid \<Rightarrow> uuid option \<Rightarrow> time \<Rightarrow> delete_result tx" where
  "remove_template idOrVersion org project now s =
     (case find (remove_candidate idOrVersion org project) (templates s) of
        None \<Rightarrow> Inr (NotFound, s)
      | Some t \<Rightarrow>
          (if list_ex (\<lambda>m. m_template_id m = Some (t_id t) \<and> \<not> terminal (m_state m)) (machines s) then Inr (InUse, s)
           else Inr (Deleted,
             s\<lparr>templates := sql_update (\<lambda>x. t_id x = t_id t \<and> t_deleted_at x = None) (\<lambda>x. x\<lparr>t_deleted_at := Some now\<rparr>) (templates s),
               template_replicas := filter (\<lambda>r. r_template_id r \<noteq> t_id t) (template_replicas s)\<rparr>)))"

section \<open>Publication\<close>

record template_world =
  tw_net :: js_net
  tw_url :: "string \<Rightarrow> url option"
  tw_storage :: "template_object_store option"
  tw_publisher :: "template_publisher option"
  tw_id :: uuid
  tw_hostTemplateName :: string
  tw_clock :: "nat \<Rightarrow> time"

record publish_input =
  pi_organizationId :: uuid
  pi_projectId :: uuid
  pi_machineId :: string
  pi_name :: string
  pi_version :: string

definition manifest_of :: "machine \<Rightarrow> string \<Rightarrow> artifact \<Rightarrow> json" where
  "manifest_of machine key stored = JObj
     [(''schema_version'', JNum (JSInt 1)), (''format'', JStr ''firecracker-snapshot-v1''),
      (''architecture'', JStr (architecture_text (ma_architecture machine))),
      (''source'', JObj [(''machine_id'', JStr (ma_id machine))]),
      (''artifact'', JObj [(''object_key'', JStr key), (''checksum'', JStr (af_checksum stored)),
        (''size_bytes'', JNum (af_sizeBytes stored))])]"

definition template_of :: "template_world \<Rightarrow> publish_input \<Rightarrow> machine \<Rightarrow> string \<Rightarrow> artifact \<Rightarrow> time \<Rightarrow> template" where
  "template_of w input machine key stored now =
     \<lparr>t_id = tw_id w, t_organization_id = pi_organizationId input, t_project_id = pi_projectId input,
      t_name = js_trim (pi_name input), t_version = js_trim (pi_version input),
      t_host_template_name = tw_hostTemplateName w, t_source_machine_id = Some (ma_id machine),
      t_manifest = manifest_of machine key stored, t_object_key = key, t_checksum = af_checksum stored,
      t_size_bytes = js_int (af_sizeBytes stored), t_created_at = now, t_deleted_at = None\<rparr>"

text \<open>The \<open>try\<close> block after the export: its result, the requests made, and the fleet.\<close>

definition publish_exported ::
    "template_world \<Rightarrow> template_object_store \<Rightarrow> template_publisher \<Rightarrow> publish_input \<Rightarrow> machine \<Rightarrow> export_target \<Rightarrow> string \<Rightarrow>
     time \<Rightarrow> string \<times> artifact \<Rightarrow> fleet \<Rightarrow> (error + template) \<times> template_call list \<times> fleet" where
  "publish_exported w store publisher input machine target key now hostExport s =
     (if fst hostExport \<noteq> et_exportId target \<or> \<not> validArtifact (snd hostExport)
      then (Inl (TemplateIntegrityError ''The host returned invalid template artifact metadata.''), [], s)
      else
     (case ts_createUploadGrant store key (snd hostExport) (now + 10 * 60 * 1000) of
        Inl _ \<Rightarrow> (Inl (TemplateInfrastructureUnavailable ''Durable object storage could not issue an upload capability.''),
          [UploadGrantCall key], s)
      | Inr upload \<Rightarrow>
     (case validateScopedObjectGrant (tw_url w) upload ''PUT'' now of
        Some e \<Rightarrow> (Inl e, [UploadGrantCall key], s)
      | None \<Rightarrow>
     (case tp_upload publisher target (snd hostExport) upload of
        Inl _ \<Rightarrow> (Inl (TemplateInfrastructureUnavailable ''The source host could not upload its immutable template export.''),
          [UploadGrantCall key, UploadCall target], s)
      | Inr hostArtifact \<Rightarrow>
          (if \<not> validArtifact hostArtifact \<or> hostArtifact \<noteq> snd hostExport
           then (Inl (TemplateIntegrityError ''The host upload did not match its immutable export.''),
             [UploadGrantCall key, UploadCall target], s)
           else
     (case ts_stat store key of
        Inl _ \<Rightarrow> (Inl (TemplateInfrastructureUnavailable ''Durable object storage could not verify the uploaded template.''),
          [UploadGrantCall key, UploadCall target, StatCall key], s)
      | Inr stored \<Rightarrow>
          (if \<not> validArtifact stored \<or> stored \<noteq> hostArtifact
           then (Inl (TemplateIntegrityError ''The durable artifact does not match the host checksum and size.''),
             [UploadGrantCall key, UploadCall target, StatCall key], s)
           else let template = template_of w input machine key stored now in
             (case insert_template template (tw_clock w 2) s of
                Inl e \<Rightarrow> (Inl (if e \<in> unique_violations
                    then TemplateVersionConflict ''This template name and version already exist.'' else e),
                  [UploadGrantCall key, UploadCall target, StatCall key], s)
              | Inr s' \<Rightarrow> (Inr template, [UploadGrantCall key, UploadCall target, StatCall key], s')))))))))"

text \<open>The whole \<open>try ... catch ... finally\<close>.\<close>

definition publish_at ::
    "template_world \<Rightarrow> template_object_store \<Rightarrow> template_publisher \<Rightarrow> publish_input \<Rightarrow> machine \<Rightarrow> export_target \<Rightarrow> string \<Rightarrow>
     fleet \<Rightarrow> (error + template) \<times> template_call list \<times> fleet" where
  "publish_at w store publisher input machine target key s =
     (case tp_export publisher target of
        Inl _ \<Rightarrow> (Inl (TemplateInfrastructureUnavailable ''The source host could not export a durable template.''),
          [ExportCall target, DeleteCall key], s)
      | Inr hostExport \<Rightarrow>
          (case publish_exported w store publisher input machine target key (tw_clock w 1) hostExport s of
             (Inl e, calls, s') \<Rightarrow> (Inl e, ExportCall target # calls @ [DeleteCall key, DiscardCall target], s')
           | (Inr template, calls, s') \<Rightarrow> (Inr template, ExportCall target # calls @ [DiscardCall target], s')))"

definition source_ready :: "machine \<Rightarrow> time \<Rightarrow> bool" where
  "source_ready machine now \<longleftrightarrow> ma_state machine = Running \<and> ma_ready machine \<and> ma_expiresAt machine > now \<and>
     present (ma_hostId machine) \<and> present (ma_hostAddress machine) \<and> present (ma_hostMachineId machine)"

definition export_id :: "uuid \<Rightarrow> string" where
  "export_id i = ''te_'' @ filter (\<lambda>c. c \<noteq> CHR ''-'') i"

definition publish ::
    "template_world \<Rightarrow> publish_input \<Rightarrow> fleet \<Rightarrow> (error + template) \<times> template_call list \<times> fleet" where
  "publish w input s =
     (let name = js_trim (pi_name input); version = js_trim (pi_version input) in
      if \<not> templateNamePattern name
      then (Inl (InvalidTemplateRequest ''name must be 1-63 lowercase letters, numbers, dots, underscores, or dashes''), [], s)
      else if \<not> templateVersionPattern version
      then (Inl (InvalidTemplateRequest ''version must be an immutable 1-64 character identifier''), [], s)
      else if \<not> source_machine_id_ok (pi_machineId input)
      then (Inl (InvalidTemplateRequest ''machineId is invalid''), [], s)
      else case (tw_storage w, tw_publisher w) of
          (Some store, Some publisher) \<Rightarrow>
            (if findVersion (pi_organizationId input) (pi_projectId input) name version s \<noteq> None
             then (Inl (TemplateVersionConflict ''This template name and version already exist.''), [], s)
             else case find_machine (tw_net w) (pi_machineId input) (pi_organizationId input) (Some (pi_projectId input)) s of
                 Inl e \<Rightarrow> (Inl e, [], s)
               | Inr None \<Rightarrow> (Inl (TemplateSourceNotFound ''The source machine was not found.''), [], s)
               | Inr (Some machine) \<Rightarrow>
                   (if \<not> source_ready machine (tw_clock w 0)
                    then (Inl (TemplateSourceNotReady ''The source machine must be ready and running.''), [], s)
                    else case safeObjectKey (pi_organizationId input) (pi_projectId input) name version (tw_id w) of
                        Inl e \<Rightarrow> (Inl e, [], s)
                      | Inr key \<Rightarrow>
                          publish_at w store publisher input machine
                            \<lparr>et_address = the (ma_hostAddress machine), et_hostMachineId = the (ma_hostMachineId machine),
                             et_leaseId = ma_leaseId machine, et_exportId = export_id (tw_id w)\<rparr> key s))
        | _ \<Rightarrow> (Inl (TemplateInfrastructureUnavailable
            ''Durable template publication is not configured on this control plane.''), [], s))"

definition templateJson :: "template \<Rightarrow> json" where
  "templateJson t = JObj
     ([(''id'', JStr (t_id t)), (''project_id'', JStr (t_project_id t)), (''name'', JStr (t_name t)),
       (''version'', JStr (t_version t)), (''manifest'', t_manifest t), (''checksum'', JStr (t_checksum t)),
       (''size_bytes'', JNum (JSInt (t_size_bytes t)))] @ opt_field ''source_machine_id'' (t_source_machine_id t) @
      [(''created_at'', JStr (toISOString (t_created_at t)))])"

section \<open>Replication\<close>

definition enqueueMissing :: "time \<Rightarrow> fleet \<Rightarrow> int \<times> fleet" where
  "enqueueMissing now s =
     (let s' = fold (queue_replicas now) (filter (\<lambda>t. t_deleted_at t = None) (templates s)) s in
      (int (length (template_replicas s')) - int (length (template_replicas s)), s'))"

record replica_work =
  rk_templateId :: uuid
  rk_organizationId :: uuid
  rk_projectId :: uuid
  rk_name :: string
  rk_version :: string
  rk_hostId :: uuid
  rk_hostAddress :: string
  rk_hostTemplateName :: string
  rk_objectKey :: string
  rk_checksum :: string
  rk_sizeBytes :: int
  rk_manifest :: json

definition replica_claimable :: "time \<Rightarrow> replica_row \<Rightarrow> bool" where
  "replica_claimable now r \<longleftrightarrow> r_state r = ReplicaRequested \<or>
     (r_state r = ReplicaFailed \<and> r_updated_at r < now - minutes 1) \<or>
     (r_state r = ReplicaPulling \<and> r_updated_at r < now - minutes 15)"

fun replica_priority :: "replica_state \<Rightarrow> int" where
  "replica_priority ReplicaRequested = 0"
| "replica_priority ReplicaFailed = 1"
| "replica_priority _ = 2"

definition replica_cmp :: "replica_row \<Rightarrow> replica_row \<Rightarrow> int" where
  "replica_cmp a b = then_cmp (cmp_of (replica_priority (r_state a)) (replica_priority (r_state b)))
     (then_cmp (cmp_of (r_updated_at a) (r_updated_at b))
       (then_cmp (cmp_of (r_template_id a) (r_template_id b)) (cmp_of (r_host_id a) (r_host_id b))))"

definition replica_joined :: "fleet \<Rightarrow> replica_row \<Rightarrow> (template_row \<times> host_row) option" where
  "replica_joined s r =
     (case (find (\<lambda>t. t_id t = r_template_id r \<and> t_deleted_at t = None) (templates s),
            find (\<lambda>h. h_id h = r_host_id r \<and> serving h) (hosts s)) of
        (Some t, Some h) \<Rightarrow> Some (t, h)
      | _ \<Rightarrow> None)"

definition work_of :: "template_row \<Rightarrow> host_row \<Rightarrow> replica_work" where
  "work_of t h =
     \<lparr>rk_templateId = t_id t, rk_organizationId = t_organization_id t, rk_projectId = t_project_id t, rk_name = t_name t,
      rk_version = t_version t, rk_hostId = h_id h, rk_hostAddress = h_address h,
      rk_hostTemplateName = t_host_template_name t, rk_objectKey = t_object_key t, rk_checksum = t_checksum t,
      rk_sizeBytes = t_size_bytes t, rk_manifest = t_manifest t\<rparr>"

definition of_replica :: "uuid \<Rightarrow> uuid \<Rightarrow> replica_row \<Rightarrow> bool" where
  "of_replica template host r \<longleftrightarrow> r_template_id r = template \<and> r_host_id r = host"

text \<open>\<open>locked\<close> are the replicas other workers hold (\<open>SKIP LOCKED\<close>).\<close>

definition claim_replica :: "(uuid \<times> uuid) list \<Rightarrow> time \<Rightarrow> fleet \<Rightarrow> replica_work option \<times> fleet" where
  "claim_replica locked now s =
     (case first_row (sort_by replica_cmp (filter (\<lambda>r. replica_claimable now r \<and> replica_joined s r \<noteq> None \<and>
          (r_template_id r, r_host_id r) \<notin> set locked) (template_replicas s))) of
        None \<Rightarrow> (None, s)
      | Some r \<Rightarrow>
          (map_option (\<lambda>(t, h). work_of t h) (replica_joined s r),
           s\<lparr>template_replicas := sql_update (of_replica (r_template_id r) (r_host_id r))
               (\<lambda>x. x\<lparr>r_state := ReplicaPulling, r_progress := 1, r_verified_checksum := None, r_error := None,
                     r_updated_at := now\<rparr>) (template_replicas s)\<rparr>))"

definition markReady :: "uuid \<Rightarrow> uuid \<Rightarrow> string \<Rightarrow> time \<Rightarrow> fleet \<Rightarrow> bool \<times> fleet" where
  "markReady template host checksum now s =
     (let P = \<lambda>r. of_replica template host r \<and> r_state r = ReplicaPulling \<and>
        list_ex (\<lambda>t. t_id t = template \<and> t_deleted_at t = None \<and> t_checksum t = checksum) (templates s) in
      (list_ex P (template_replicas s),
       s\<lparr>template_replicas := sql_update P (\<lambda>x. x\<lparr>r_state := ReplicaReady, r_progress := 100,
           r_verified_checksum := Some checksum, r_error := None, r_updated_at := now\<rparr>) (template_replicas s)\<rparr>))"

definition markFailed :: "uuid \<Rightarrow> uuid \<Rightarrow> string \<Rightarrow> time \<Rightarrow> fleet \<Rightarrow> fleet" where
  "markFailed template host reason now s =
     s\<lparr>template_replicas := sql_update (\<lambda>r. of_replica template host r \<and> r_state r = ReplicaPulling)
         (\<lambda>x. x\<lparr>r_state := ReplicaFailed, r_progress := 0, r_verified_checksum := None, r_error := Some (take 256 reason),
               r_updated_at := now\<rparr>) (template_replicas s)\<rparr>"

definition safeSegment :: "string \<Rightarrow> bool" where
  "safeSegment s \<longleftrightarrow> s \<noteq> [] \<and> length s \<le> 128 \<and> is_alnum (hd s) \<and> list_all (\<lambda>c. is_alnum c \<or> c \<in> set ''._+-'') s"

text \<open>Reading a property of \<open>undefined\<close> or \<open>null\<close> throws.\<close>

fun prop_of :: "json option \<Rightarrow> string \<Rightarrow> error + json option" where
  "prop_of None k = Inl (PlainError ''TypeError'')"
| "prop_of (Some JNull) k = Inl (PlainError ''TypeError'')"
| "prop_of (Some j) k = Inr (get_prop j k)"

definition artifact_matches :: "replica_work \<Rightarrow> json option \<Rightarrow> error + bool" where
  "artifact_matches work a =
     (case (prop_of a ''object_key'', prop_of a ''checksum'', prop_of a ''size_bytes'') of
        (Inr key, Inr checksum, Inr bytes) \<Rightarrow>
          Inr (key = Some (JStr (rk_objectKey work)) \<and> checksum = Some (JStr (rk_checksum work)) \<and>
            bytes = Some (JNum (JSInt (rk_sizeBytes work))))
      | _ \<Rightarrow> Inl (PlainError ''TypeError''))"

definition validWork :: "replica_work \<Rightarrow> error + bool" where
  "validWork work =
     (if \<not> (list_all safeSegment [rk_templateId work, rk_organizationId work, rk_projectId work, rk_name work, rk_version work] \<and>
         host_template_name_ok (rk_hostTemplateName work) \<and> rk_hostAddress work \<noteq> '''' \<and>
         rk_objectKey work = object_key (rk_organizationId work) (rk_projectId work) (rk_name work) (rk_version work) (rk_templateId work) \<and>
         validTemplateChecksum (rk_checksum work) \<and> isSafeInteger (JSInt (rk_sizeBytes work)) \<and> rk_sizeBytes work > 0)
      then Inr False
      else if rk_manifest work = JNull then Inl (PlainError ''TypeError'')
      else if \<not> (get_prop (rk_manifest work) ''schema_version'' = Some (JNum (JSInt 1)) \<and>
         get_prop (rk_manifest work) ''format'' = Some (JStr ''firecracker-snapshot-v1'') \<and>
         get_prop (rk_manifest work) ''architecture'' \<in> {Some (JStr ''x86_64''), Some (JStr ''aarch64'')})
      then Inr False
      else case prop_of (get_prop (rk_manifest work) ''source'') ''machine_id'' of
          Inl e \<Rightarrow> Inl e
        | Inr i \<Rightarrow>
            (if \<not> source_machine_id_ok (js_string_opt i) then Inr False
             else artifact_matches work (get_prop (rk_manifest work) ''artifact'')))"

record replication_world =
  rw_url :: "string \<Rightarrow> url option"
  rw_storage :: "template_object_store option"
  rw_activate :: "(string \<Rightarrow> string \<Rightarrow> string \<Rightarrow> artifact \<Rightarrow> scoped_object_grant \<Rightarrow> error + artifact) option"
  rw_locked :: "(uuid \<times> uuid) list"
  rw_clock :: "nat \<Rightarrow> time"

datatype replication_result =
    Idle int
  | ReplicatedReady int uuid uuid
  | ReplicationFailed int uuid uuid

definition wanted_artifact :: "replica_work \<Rightarrow> artifact" where
  "wanted_artifact work = \<lparr>af_checksum = rk_checksum work, af_sizeBytes = JSInt (rk_sizeBytes work)\<rparr>"

text \<open>The \<open>try\<close> block: the error, or that the host activated the artifact asked for.\<close>

definition activate_work ::
    "replication_world \<Rightarrow> template_object_store \<Rightarrow>
     (string \<Rightarrow> string \<Rightarrow> string \<Rightarrow> artifact \<Rightarrow> scoped_object_grant \<Rightarrow> error + artifact) \<Rightarrow> replica_work \<Rightarrow> error option" where
  "activate_work w store install work =
     (case validWork work of
        Inl e \<Rightarrow> Some e
      | Inr valid \<Rightarrow>
          (if \<not> valid then Some (TemplateIntegrityError ''The persisted template manifest is inconsistent.'')
           else case ts_stat store (rk_objectKey work) of
               Inl e \<Rightarrow> Some e
             | Inr stored \<Rightarrow>
                 (if stored \<noteq> wanted_artifact work
                  then Some (TemplateIntegrityError ''The durable template artifact failed verification.'')
                  else case ts_createDownloadGrant store (rk_objectKey work) (rw_clock w 2 + 10 * 60 * 1000) of
                      Inl e \<Rightarrow> Some e
                    | Inr download \<Rightarrow>
                        (case validateScopedObjectGrant (rw_url w) download ''GET'' (rw_clock w 2) of
                           Some e \<Rightarrow> Some e
                         | None \<Rightarrow>
                             (case install (rk_hostAddress work) (rk_hostTemplateName work)
                                (the (manifest_architecture (rk_manifest work))) (wanted_artifact work) download of
                                Inl e \<Rightarrow> Some e
                              | Inr activated \<Rightarrow>
                                  (if activated \<noteq> wanted_artifact work
                                   then Some (TemplateIntegrityError
                                     ''The host activation checksum or size did not match the immutable manifest.'')
                                   else None))))))"

fun failure_reason :: "error \<Rightarrow> string" where
  "failure_reason (TemplateIntegrityError _) = ''template_integrity_failed''"
| "failure_reason _ = ''template_activation_failed''"

definition runOnce :: "replication_world \<Rightarrow> replication_result svc" where
  "runOnce w s =
     (case (rw_storage w, rw_activate w) of
        (Some store, Some install) \<Rightarrow>
          (case enqueueMissing (rw_clock w 0) s of
             (enqueued, s1) \<Rightarrow>
          (case claim_replica (rw_locked w) (rw_clock w 1) s1 of
             (None, s2) \<Rightarrow> (Inr (Idle enqueued), s2)
           | (Some work, s2) \<Rightarrow>
               (let failed = (\<lambda>e t. (Inr (ReplicationFailed enqueued (rk_templateId work) (rk_hostId work)),
                      markFailed (rk_templateId work) (rk_hostId work) (failure_reason e) (rw_clock w 4) t)) in
                case activate_work w store install work of
                  Some e \<Rightarrow> failed e s2
                | None \<Rightarrow>
                    (case markReady (rk_templateId work) (rk_hostId work) (rk_checksum work) (rw_clock w 3) s2 of
                       (True, s3) \<Rightarrow> (Inr (ReplicatedReady enqueued (rk_templateId work) (rk_hostId work)), s3)
                     | (False, s3) \<Rightarrow>
                         failed (TemplateIntegrityError ''The replica was no longer eligible for activation.'') s3))))
      | _ \<Rightarrow> (Inl (TemplateInfrastructureUnavailable
          ''Durable template replication is not configured on this control plane.''), s))"

section \<open>A published template is what the host exported\<close>

lemma queue_replica_frame [simp]:
  "templates (queue_replica now t h s) = templates s" "hosts (queue_replica now t h s) = hosts s"
  by (simp_all add: queue_replica_def)

lemma fold_queue_frame [simp]:
  "templates (fold (\<lambda>h. queue_replica now t (h_id h)) hs s) = templates s"
  "hosts (fold (\<lambda>h. queue_replica now t (h_id h)) hs s) = hosts s"
  by (induction hs arbitrary: s) simp_all

lemma queue_replicas_frame [simp]:
  "templates (queue_replicas now t s) = templates s" "hosts (queue_replicas now t s) = hosts s"
  by (simp_all add: queue_replicas_def)

lemma queue_replica_kept: "r \<in> set (template_replicas s) \<Longrightarrow> r \<in> set (template_replicas (queue_replica now t h s))"
  by (simp add: queue_replica_def)

lemma queue_replica_there: "\<exists>r\<in>set (template_replicas (queue_replica now t h s)). of_replica t h r"
  by (auto simp: queue_replica_def of_replica_def requested_replica_def list_ex_iff)

lemma fold_queue_kept: "r \<in> set (template_replicas s) \<Longrightarrow> r \<in> set (template_replicas (fold (\<lambda>h. queue_replica now t (h_id h)) hs s))"
  by (induction hs arbitrary: s) (simp_all add: queue_replica_kept)

lemma fold_queue_there:
  "h \<in> set hs \<Longrightarrow> \<exists>r\<in>set (template_replicas (fold (\<lambda>h. queue_replica now t (h_id h)) hs s)). of_replica t (h_id h) r"
proof (induction hs arbitrary: s)
  case (Cons x hs)
  show ?case
  proof (cases "h = x")
    case True
    with queue_replica_there [of now t "h_id h" s] show ?thesis by (auto intro: fold_queue_kept)
  qed (use Cons in auto)
qed simp

lemma insert_template_Inr:
  assumes "insert_template template now s = Inr s'"
  shows "s' = queue_replicas now (template\<lparr>t_created_at := now, t_deleted_at := None\<rparr>)
      (s\<lparr>templates := templates s @ [template\<lparr>t_created_at := now, t_deleted_at := None\<rparr>]\<rparr>) \<and>
    t_id template \<notin> t_id ` set (templates s)"
  using assms by (auto simp: insert_template_def Let_def list_ex_iff split: if_splits)

lemma publish_exported_cases:
  assumes "publish_exported w store publisher input machine target key now hostExport s = (r, calls, s')"
  obtains (failed) e where "r = Inl e" and "s' = s" and "set calls \<subseteq> {UploadGrantCall key, UploadCall target, StatCall key}"
    | (stored) a upload where "r = Inr (template_of w input machine key a now)" and "hostExport = (et_exportId target, a)"
      and "validArtifact a" and "tp_upload publisher target a upload = Inr a" and "ts_stat store key = Inr a"
      and "insert_template (template_of w input machine key a now) (tw_clock w 2) s = Inr s'"
      and "calls = [UploadGrantCall key, UploadCall target, StatCall key]"
  using assms
  by (cases hostExport) (auto simp: publish_exported_def Let_def split: if_splits sum.splits option.splits)

lemma publish_cases:
  assumes "publish w input s = (r, calls, s')"
  obtains (refused) e where "r = Inl e" and "calls = []" and "s' = s"
    | (tried) store publisher machine target where "tw_storage w = Some store" and "tw_publisher w = Some publisher"
      and "findVersion (pi_organizationId input) (pi_projectId input) (js_trim (pi_name input)) (js_trim (pi_version input)) s = None"
      and "source_ready machine (tw_clock w 0)"
      and "publish_at w store publisher input machine target (object_key (pi_organizationId input) (pi_projectId input)
          (js_trim (pi_name input)) (js_trim (pi_version input)) (tw_id w)) s = (r, calls, s')"
  using assms
  by (auto simp: publish_def Let_def safeObjectKey_def split: if_splits option.splits sum.splits)

text \<open>C22: A template is published only when three parties agree on its bytes. When a publication succeeds,
  the checksum and size stored with the template are those the source host exported, those it
  uploaded and those the object store reports, and valid; the name and version were free; the
  export is discarded and the object is not deleted; and every serving host of the machine's
  architecture is queued to receive it.\<close>

theorem publish_verified:
  assumes "publish w input s = (Inr t, calls, s')"
  shows "\<exists>store publisher target a upload. tw_storage w = Some store \<and> tw_publisher w = Some publisher \<and>
    tp_export publisher target = Inr (et_exportId target, a) \<and> tp_upload publisher target a upload = Inr a \<and>
    ts_stat store (t_object_key t) = Inr a \<and> validArtifact a \<and>
    t_checksum t = af_checksum a \<and> JSInt (t_size_bytes t) = af_sizeBytes a \<and>
    calls = [ExportCall target, UploadGrantCall (t_object_key t), UploadCall target, StatCall (t_object_key t), DiscardCall target] \<and>
    findVersion (t_organization_id t) (t_project_id t) (t_name t) (t_version t) s = None \<and>
    templates s' = templates s @ [t\<lparr>t_created_at := tw_clock w 2\<rparr>] \<and>
    list_all (\<lambda>h. runs_on (t_manifest t) h = False \<or> list_ex (of_replica (t_id t) (h_id h)) (template_replicas s')) (hosts s')"
  using assms
proof (cases rule: publish_cases)
  case (tried store publisher machine target)
  let ?key = "object_key (pi_organizationId input) (pi_projectId input) (js_trim (pi_name input)) (js_trim (pi_version input)) (tw_id w)"
  from tried(5) obtain hostExport pre where x: "tp_export publisher target = Inr hostExport"
    and p: "publish_exported w store publisher input machine target ?key (tw_clock w 1) hostExport s = (Inr t, pre, s')"
    and calls: "calls = ExportCall target # pre @ [DiscardCall target]"
    by (auto simp: publish_at_def split: sum.splits prod.splits)
  from p show ?thesis
  proof (cases rule: publish_exported_cases)
    case (stored a upload)
    from stored(1) have t: "t = template_of w input machine ?key a (tw_clock w 1)" by simp
    let ?t = "t\<lparr>t_created_at := tw_clock w 2, t_deleted_at := None\<rparr>"
    have t': "?t = t\<lparr>t_created_at := tw_clock w 2\<rparr>" by (simp add: t template_of_def)
    from insert_template_Inr [OF stored(6)] have s': "s' = queue_replicas (tw_clock w 2) ?t (s\<lparr>templates := templates s @ [?t]\<rparr>)"
      by (simp add: t)
    have "list_ex (of_replica (t_id t) (h_id h)) (template_replicas s')" if "h \<in> set (hosts s')" "runs_on (t_manifest t) h" for h
      using fold_queue_there [of h "filter (runs_on (t_manifest t)) (hosts s)"] that
      by (auto simp: s' queue_replicas_def list_ex_iff)
    then have queued: "list_all (\<lambda>h. runs_on (t_manifest t) h = False \<or> list_ex (of_replica (t_id t) (h_id h)) (template_replicas s')) (hosts s')"
      unfolding list_all_iff by blast
    from stored(3) have size: "JSInt (js_int (af_sizeBytes a)) = af_sizeBytes a"
      by (cases "af_sizeBytes a") (simp_all add: validArtifact_def)
    have sel: "t_object_key t = ?key" "t_checksum t = af_checksum a" "t_size_bytes t = js_int (af_sizeBytes a)"
        "t_organization_id t = pi_organizationId input" "t_project_id t = pi_projectId input"
        "t_name t = js_trim (pi_name input)" "t_version t = js_trim (pi_version input)"
      by (simp_all add: t template_of_def)
    have rows: "templates s' = templates s @ [t\<lparr>t_created_at := tw_clock w 2\<rparr>]" unfolding s' t' by simp
    show ?thesis
      unfolding sel size
      by (intro exI [of _ store] exI [of _ publisher] exI [of _ target] exI [of _ a] exI [of _ upload] conjI
        tried(1-3) stored(3-5) queued rows refl) (simp_all add: x stored(2) calls stored(7))
  qed simp
qed simp

text \<open>C23: A publication that fails leaves nothing behind. The database is as before, and when the host was
  asked for an export, the last requests delete the object, after every upload, and discard the
  export if there is one.\<close>

theorem publish_failure_cleans_up:
  assumes "publish w input s = (Inl e, calls, s')"
  shows "s' = s \<and> (calls = [] \<or> (\<exists>publisher target key pre. tw_publisher w = Some publisher \<and>
    set pre \<subseteq> {UploadGrantCall key, UploadCall target, StatCall key} \<and>
    calls = ExportCall target # pre @ DeleteCall key # (if isl (tp_export publisher target) then [] else [DiscardCall target])))"
  using assms
proof (cases rule: publish_cases)
  case (tried store publisher machine target)
  let ?key = "object_key (pi_organizationId input) (pi_projectId input) (js_trim (pi_name input)) (js_trim (pi_version input)) (tw_id w)"
  show ?thesis
  proof (cases "tp_export publisher target")
    case (Inl x)
    with tried show ?thesis by (auto simp: publish_at_def)
  next
    case (Inr hostExport)
    with tried(5) obtain pre where
        p: "publish_exported w store publisher input machine target ?key (tw_clock w 1) hostExport s = (Inl e, pre, s')"
      and calls: "calls = ExportCall target # pre @ [DeleteCall ?key, DiscardCall target]"
      by (auto simp: publish_at_def split: sum.splits prod.splits)
    from p have "s' = s \<and> set pre \<subseteq> {UploadGrantCall ?key, UploadCall target, StatCall ?key}"
      by (cases rule: publish_exported_cases) auto
    with calls Inr tried(2) show ?thesis by auto
  qed
qed simp

section \<open>Replicas\<close>

definition templates_ok :: "fleet \<Rightarrow> bool" where
  "templates_ok s \<longleftrightarrow> distinct (map t_id (templates s)) \<and>
     distinct (map (\<lambda>r. (r_template_id r, r_host_id r)) (template_replicas s)) \<and>
     (\<forall>r\<in>set (template_replicas s). \<exists>t\<in>set (templates s). t_id t = r_template_id r \<and> t_deleted_at t = None \<and>
        (r_state r = ReplicaReady \<longrightarrow> r_verified_checksum r = Some (t_checksum t)))"

lemma templates_ok_queue:
  assumes "templates_ok s" and "t \<in> set (templates s)" and "t_id t = i" and "t_deleted_at t = None"
  shows "templates_ok (queue_replica now i h s)"
  using assms by (auto simp: templates_ok_def queue_replica_def requested_replica_def list_ex_iff)

lemma templates_ok_queue_replicas:
  assumes "templates_ok s" and "t \<in> set (templates s)" and "t_deleted_at t = None"
  shows "templates_ok (queue_replicas now t s)"
proof -
  have "templates_ok (fold (\<lambda>h. queue_replica now (t_id t) (h_id h)) hs s)" for hs
    using assms(1,2) by (induction hs arbitrary: s) (simp_all add: templates_ok_queue [OF _ _ refl assms(3)])
  then show ?thesis by (simp add: queue_replicas_def)
qed

lemma templates_ok_enqueueMissing:
  assumes "templates_ok s"
  shows "templates_ok (snd (enqueueMissing now s))"
proof -
  have "templates_ok (fold (queue_replicas now) ts s)" if "set ts \<subseteq> {t\<in>set (templates s). t_deleted_at t = None}" for ts
    using assms that by (induction ts arbitrary: s) (simp_all add: templates_ok_queue_replicas)
  then show ?thesis by (simp add: enqueueMissing_def Let_def)
qed

text \<open>An update of replicas that keeps their keys and makes a replica ready only with the template's checksum.\<close>

lemma templates_ok_update:
  assumes "templates_ok s" and "\<And>r. r_template_id (f r) = r_template_id r \<and> r_host_id (f r) = r_host_id r"
    and "\<And>r t. r \<in> set (template_replicas s) \<Longrightarrow> P r \<Longrightarrow> t \<in> set (templates s) \<Longrightarrow> t_id t = r_template_id r \<Longrightarrow>
      r_state (f r) = ReplicaReady \<Longrightarrow> r_verified_checksum (f r) = Some (t_checksum t)"
  shows "templates_ok (s\<lparr>template_replicas := sql_update P f (template_replicas s)\<rparr>)"
proof -
  have "map (\<lambda>r. (r_template_id r, r_host_id r)) (sql_update P f (template_replicas s)) =
      map (\<lambda>r. (r_template_id r, r_host_id r)) (template_replicas s)"
    by (rule map_sql_update) (simp add: assms(2))
  moreover have "\<exists>t\<in>set (templates s). t_id t = r_template_id r' \<and> t_deleted_at t = None \<and>
      (r_state r' = ReplicaReady \<longrightarrow> r_verified_checksum r' = Some (t_checksum t))"
    if r': "r' \<in> set (sql_update P f (template_replicas s))" for r'
    using r'
  proof (cases rule: sql_updateE)
    case (1 r)
    with assms(1) obtain t where t: "t \<in> set (templates s)" "t_id t = r_template_id r" "t_deleted_at t = None"
      by (auto simp: templates_ok_def)
    with 1 assms(2) [of r] assms(3) [OF 1(1,2) t(1,2)] show ?thesis by (intro bexI [of _ t]) auto
  next
    case 2
    with assms(1) show ?thesis by (simp add: templates_ok_def)
  qed
  ultimately show ?thesis using assms(1) by (simp add: templates_ok_def)
qed

lemma templates_ok_claim: "templates_ok s \<Longrightarrow> templates_ok (snd (claim_replica locked now s))"
  by (auto simp: claim_replica_def split: option.splits intro!: templates_ok_update)

lemma templates_ok_markFailed: "templates_ok s \<Longrightarrow> templates_ok (markFailed i h reason now s)"
  unfolding markFailed_def by (rule templates_ok_update) auto

interpretation tkey: keyed t_id .

lemma templates_ok_markReady:
  assumes "templates_ok s"
  shows "templates_ok (snd (markReady i h checksum now s))"
  unfolding markReady_def Let_def snd_conv
proof (rule templates_ok_update [OF assms])
  fix r t
  assume r: "of_replica i h r \<and> r_state r = ReplicaPulling \<and>
      list_ex (\<lambda>t. t_id t = i \<and> t_deleted_at t = None \<and> t_checksum t = checksum) (templates s)"
    and t: "t \<in> set (templates s)" "t_id t = r_template_id r"
  then obtain u where "u \<in> set (templates s)" "t_id u = i" "t_checksum u = checksum" by (auto simp: list_ex_iff)
  moreover from this r t assms have "u = t"
    using tkey.key_unique [of "templates s" u t] by (simp add: templates_ok_def of_replica_def)
  ultimately show "r_verified_checksum (r\<lparr>r_state := ReplicaReady, r_progress := 100, r_verified_checksum := Some checksum,
      r_error := None, r_updated_at := now\<rparr>) = Some (t_checksum t)" by simp
qed simp

lemma templates_ok_remove:
  assumes "templates_ok s" and "remove_template i org project now s = Inr (a, s')"
  shows "templates_ok s'"
proof (cases "find (remove_candidate i org project) (templates s)")
  case None
  with assms show ?thesis by (simp add: remove_template_def)
next
  case (Some t)
  let ?P = "\<lambda>x. t_id x = t_id t \<and> t_deleted_at x = None"
  let ?f = "\<lambda>x. x\<lparr>t_deleted_at := Some now\<rparr>"
  have "templates_ok (s\<lparr>templates := sql_update ?P ?f (templates s),
      template_replicas := filter (\<lambda>r. r_template_id r \<noteq> t_id t) (template_replicas s)\<rparr>)"
  proof -
    have "map t_id (sql_update ?P ?f (templates s)) = map t_id (templates s)" by (rule map_sql_update) simp
    moreover have "\<exists>u\<in>set (sql_update ?P ?f (templates s)). t_id u = r_template_id r \<and> t_deleted_at u = None \<and>
        (r_state r = ReplicaReady \<longrightarrow> r_verified_checksum r = Some (t_checksum u))"
      if r: "r \<in> set (template_replicas s)" "r_template_id r \<noteq> t_id t" for r
    proof -
      from assms(1) r(1) obtain u where u: "u \<in> set (templates s)" "t_id u = r_template_id r" "t_deleted_at u = None"
          "r_state r = ReplicaReady \<longrightarrow> r_verified_checksum r = Some (t_checksum u)" by (auto simp: templates_ok_def)
      with r(2) have "u \<in> set (sql_update ?P ?f (templates s))" by (intro sql_update_kept) auto
      with u show ?thesis by blast
    qed
    moreover have "distinct (map (\<lambda>r. (r_template_id r, r_host_id r)) (filter (\<lambda>r. r_template_id r \<noteq> t_id t) (template_replicas s)))"
      using assms(1) by (simp add: templates_ok_def distinct_map_filter)
    ultimately show ?thesis using assms(1) by (simp add: templates_ok_def)
  qed
  with assms Some show ?thesis by (auto simp: remove_template_def split: if_splits)
qed

lemma templates_ok_insert:
  assumes "templates_ok s" and "insert_template template now s = Inr s'"
  shows "templates_ok s'"
proof -
  let ?t = "template\<lparr>t_created_at := now, t_deleted_at := None\<rparr>"
  note i = insert_template_Inr [OF assms(2)]
  have "templates_ok (s\<lparr>templates := templates s @ [?t]\<rparr>)" using assms(1) i by (auto simp: templates_ok_def)
  then have "templates_ok (queue_replicas now ?t (s\<lparr>templates := templates s @ [?t]\<rparr>))"
    by (rule templates_ok_queue_replicas) simp_all
  with i show ?thesis by simp
qed

lemma templates_ok_publish:
  assumes "templates_ok s" and "publish w input s = (r, calls, s')"
  shows "templates_ok s'"
  using assms(2)
proof (cases rule: publish_cases)
  case (tried store publisher machine target)
  let ?key = "object_key (pi_organizationId input) (pi_projectId input) (js_trim (pi_name input)) (js_trim (pi_version input)) (tw_id w)"
  show ?thesis
  proof (cases "tp_export publisher target")
    case (Inl x)
    with tried(5) assms(1) show ?thesis by (auto simp: publish_at_def)
  next
    case (Inr hostExport)
    obtain r0 pre s0 where p: "publish_exported w store publisher input machine target ?key (tw_clock w 1) hostExport s = (r0, pre, s0)"
      using prod_cases3 by blast
    with tried(5) Inr have "s0 = s'" by (auto simp: publish_at_def split: sum.splits)
    from p show ?thesis unfolding \<open>s0 = s'\<close> using assms(1)
      by (cases rule: publish_exported_cases) (auto intro: templates_ok_insert)
  qed
qed (use assms(1) in simp)

lemma templates_ok_runOnce:
  assumes "templates_ok s"
  shows "templates_ok (snd (runOnce w s))"
proof -
  let ?s1 = "snd (enqueueMissing (rw_clock w 0) s)"
  let ?s2 = "snd (claim_replica (rw_locked w) (rw_clock w 1) ?s1)"
  have s1: "templates_ok ?s1" using assms by (rule templates_ok_enqueueMissing)
  then have s2: "templates_ok ?s2" by (rule templates_ok_claim)
  then have s3: "templates_ok (snd (markReady i h c now ?s2))" for i h c now by (rule templates_ok_markReady)
  show ?thesis
  proof (cases "\<exists>store install work. rw_storage w = Some store \<and> rw_activate w = Some install \<and>
      fst (claim_replica (rw_locked w) (rw_clock w 1) ?s1) = Some work")
    case True
    then obtain store install work where "rw_storage w = Some store" "rw_activate w = Some install"
      and work: "fst (claim_replica (rw_locked w) (rw_clock w 1) ?s1) = Some work" by blast
    moreover obtain b t where m: "markReady (rk_templateId work) (rk_hostId work) (rk_checksum work) (rw_clock w 3) ?s2 = (b, t)"
      by fastforce
    moreover have "templates_ok t" using s3 [of "rk_templateId work" "rk_hostId work" "rk_checksum work" "rw_clock w 3"] m by simp
    ultimately show ?thesis using templates_ok_markFailed s2
      by (cases "activate_work w store install work"; cases b) (simp_all add: runOnce_def Let_def case_prod_beta)
  next
    case False
    with assms s2 show ?thesis by (auto simp: runOnce_def case_prod_beta split: option.splits)
  qed
qed

inductive template_step :: "fleet \<Rightarrow> fleet \<Rightarrow> bool" where
  published: "publish w input s = (r, calls, s') \<Longrightarrow> template_step s s'"
| removed: "remove_template i org project now s = Inr (a, s') \<Longrightarrow> template_step s s'"
| replicated: "runOnce w s = (r, s') \<Longrightarrow> template_step s s'"

lemma template_step_ok: "template_step s s' \<Longrightarrow> templates_ok s \<Longrightarrow> templates_ok s'"
  by (induction rule: template_step.induct)
    (auto intro: templates_ok_publish templates_ok_remove, metis templates_ok_runOnce snd_conv)

text \<open>C21: The scheduler can trust a ready replica. However publications, removals and replication runs
  follow one another, a host has at most one replica of a template, every replica belongs to a
  template that is not deleted, and one that is ready was verified against that template's checksum;
  so a removed template has no replica anywhere.\<close>

theorem ready_replicas_verified:
  assumes "template_step\<^sup>*\<^sup>* s s'" and "templates_ok s"
  shows "distinct (map (\<lambda>r. (r_template_id r, r_host_id r)) (template_replicas s')) \<and>
    list_all (\<lambda>r. list_ex (\<lambda>t. t_id t = r_template_id r \<and> t_deleted_at t = None \<and>
      (r_state r \<noteq> ReplicaReady \<or> r_verified_checksum r = Some (t_checksum t))) (templates s')) (template_replicas s') \<and>
    list_all (\<lambda>t. t_deleted_at t = None \<or> \<not> list_ex (\<lambda>r. r_template_id r = t_id t) (template_replicas s')) (templates s')"
proof -
  have ok: "templates_ok s'" using assms by (induction rule: rtranclp_induct) (auto intro: template_step_ok)
  then have "list_all (\<lambda>r. list_ex (\<lambda>t. t_id t = r_template_id r \<and> t_deleted_at t = None \<and>
      (r_state r \<noteq> ReplicaReady \<or> r_verified_checksum r = Some (t_checksum t))) (templates s')) (template_replicas s')"
    by (fastforce simp: templates_ok_def list_all_iff list_ex_iff)
  moreover have "t_deleted_at t = None" if "t \<in> set (templates s')" "r \<in> set (template_replicas s')" "r_template_id r = t_id t" for t r
  proof -
    from ok that(2) obtain u where "u \<in> set (templates s')" "t_id u = r_template_id r" "t_deleted_at u = None"
      by (auto simp: templates_ok_def)
    with ok that show ?thesis using tkey.key_unique [of "templates s'" u t] by (simp add: templates_ok_def)
  qed
  ultimately show ?thesis using ok by (auto simp: templates_ok_def list_all_iff list_ex_iff)
qed

text \<open>Removal: a template in use stays, and one that goes leaves no machine that still needs it.\<close>

lemma remove_template_unused:
  assumes "remove_template i org project now s = Inr (Deleted, s')"
  shows "\<exists>t\<in>set (templates s). remove_candidate i org project t \<and>
    \<not> list_ex (\<lambda>m. m_template_id m = Some (t_id t) \<and> \<not> terminal (m_state m)) (machines s')"
  using assms by (auto simp: remove_template_def split: option.splits if_splits dest!: find_SomeD)

end
