(* ===== verification/SampleStorage.thy ===== *)
theory SampleStorage
  imports Samples Templates
begin

text \<open>
  The properties of volumes and templates applied to a sample: a volume of the sample project that is
  admitted, written to, removed and erased, and a template published from the running machine.
\<close>

section \<open>A volume\<close>

definition sample_volume :: volume where
  "sample_volume =
     \<lparr>v_id = ''vol_sample000001'', v_organization_id = ''org'', v_project_id = ''project'', v_object_prefix = ''prefix/'',
      v_size_limit_bytes = 1048576, v_observed_size_bytes = 0, v_created_at = 1000000, v_expires_at = 4600000,
      v_deleted_at = None, v_idempotency_key = None, v_create_request_hash = None\<rparr>"

definition stored_volume :: volume where
  "stored_volume = sample_volume\<lparr>v_idempotency_key := Some ''key'', v_create_request_hash := Some (digest (CHR ''0''))\<rparr>"

definition volume_fleet :: fleet where
  "volume_fleet = sample_fleet\<lparr>volumes := [stored_volume]\<rparr>"

lemma stored_volume_sel [simp]:
  "v_id stored_volume = ''vol_sample000001''" "v_organization_id stored_volume = ''org''"
  "v_project_id stored_volume = ''project''" "v_object_prefix stored_volume = ''prefix/''"
  "v_size_limit_bytes stored_volume = 1048576" "v_observed_size_bytes stored_volume = 0"
  "v_created_at stored_volume = 1000000" "v_expires_at stored_volume = 4600000" "v_deleted_at stored_volume = None"
  by (simp_all add: stored_volume_def sample_volume_def)

lemma stored_volume_ok: "volume_check stored_volume"
  by (simp add: volume_check_def stored_volume_def sample_volume_def volume_id_ok_def startsWith_def is_alnum_def
      is_digit_def is_lower_def is_upper_def less_eq_char_def idempotency_key_ok_def hex64_digest is_hex_def)

lemma volume_tables [simp]:
  "volumes volume_fleet = [stored_volume]" "volume_write_grants volume_fleet = []" "volume_deletion_jobs volume_fleet = []"
  "organizations volume_fleet = organizations sample_fleet" "billing_accounts volume_fleet = []"
  by (simp_all add: volume_fleet_def sample_fleet_def)

lemma sample_enforce_free: "billing_accounts s = [] \<Longrightarrow> enforce pgdiv policy s org delta now = None"
  by (simp add: enforce_def)

lemma sample_admit:
  "admitCreate sample_pgdiv sample_policy sample_volume ''key'' (digest (CHR ''0'')) 1000000 sample_fleet =
     Inr ((stored_volume, False), volume_fleet)"
proof -
  have "billing_accounts sample_fleet = []" "volumes sample_fleet = []" by (simp_all add: sample_fleet_def)
  moreover have "find (\<lambda>x. o_id x = ''org'') (organizations sample_fleet) =
      Some \<lparr>o_id = ''org'', o_max_machines = 10, o_max = Resources 100 100000 1000000, o_max_storage_mb = 102400\<rparr>"
    "find (\<lambda>p. p_id p = ''project'' \<and> p_organization_id p = ''org'') (projects sample_fleet) =
      Some \<lparr>p_id = ''project'', p_organization_id = ''org'', p_max_machines = 10,
        p_max = Resources 100 100000 1000000, p_max_storage_mb = 102400\<rparr>" by (simp_all add: sample_fleet_def)
  moreover have "sample_volume\<lparr>v_observed_size_bytes := 0, v_deleted_at := None, v_idempotency_key := Some ''key'',
      v_create_request_hash := Some (digest (CHR ''0''))\<rparr> = stored_volume"
    by (simp add: stored_volume_def sample_volume_def)
  moreover have "insert_volume stored_volume sample_fleet = Inr volume_fleet"
    by (simp add: insert_volume_def stored_volume_ok volume_fleet_def \<open>volumes sample_fleet = []\<close>)
  moreover have "v_organization_id sample_volume = ''org''" "v_project_id sample_volume = ''project''"
    "v_size_limit_bytes sample_volume = 1048576" by (simp_all add: sample_volume_def)
  ultimately show ?thesis
    by (simp add: admitCreate_def Let_def sample_enforce_free organization_allocated_bytes_def project_allocated_bytes_def
        mebibyte_def stored_volume_def)
qed

theorem admitCreate_within_quota_witness:
  "organization_allocated_bytes 1000000 ''org'' volume_fleet = 1048576 \<and>
   organization_allocated_bytes 1000000 ''org'' volume_fleet \<le> 102400 * mebibyte"
proof -
  from admitCreate_within_quota [OF sample_admit] obtain organization where
      "find (\<lambda>x. o_id x = ''org'') (organizations volume_fleet) = Some organization"
      "organization_allocated_bytes 1000000 ''org'' volume_fleet \<le> o_max_storage_mb organization * mebibyte"
    by (auto simp: sample_volume_def)
  moreover have "organization_allocated_bytes 1000000 ''org'' volume_fleet = 1048576"
    by (simp add: organization_allocated_bytes_def retained_def)
  ultimately show ?thesis by (auto simp: sample_fleet_def)
qed

definition sample_write :: write_request where
  "sample_write = \<lparr>wq_id = ''vol_sample000001'', wq_organizationId = ''org'', wq_projectId = Some ''project'',
     wq_observedSizeBytes = JSInt 0, wq_now = 1000000, wq_expiresAt = 1300000, wq_operationKey = None\<rparr>"

definition sample_write_grant :: write_grant_row where
  "sample_write_grant = \<lparr>wg_id = ''grant'', wg_volume_id = ''vol_sample000001'', wg_organization_id = ''org'',
     wg_project_id = ''project'', wg_operation_key = None, wg_attempt = 1, wg_observed_size_at_reservation = 0,
     wg_maximum_bytes = 1048576, wg_created_at = 1000000, wg_expires_at = 1300000, wg_issued_at = None\<rparr>"

definition granted_fleet :: fleet where
  "granted_fleet = volume_fleet\<lparr>volume_write_grants := [sample_write_grant]\<rparr>"

lemma stored_volume_same [simp]: "stored_volume\<lparr>v_observed_size_bytes := 0\<rparr> = stored_volume"
  by (simp add: stored_volume_def sample_volume_def)

lemma sample_reserve_write:
  "reserveWriteGrant sample_pgdiv sample_policy ''grant'' sample_write 1000000 volume_fleet =
     Inr (Some (stored_volume, reservation_of sample_write_grant), granted_fleet)"
proof -
  have sel: "wq_id sample_write = ''vol_sample000001''" "wq_organizationId sample_write = ''org''"
      "wq_projectId sample_write = Some ''project''" "wq_observedSizeBytes sample_write = JSInt 0"
      "wq_now sample_write = 1000000" "wq_expiresAt sample_write = 1300000" "wq_operationKey sample_write = None"
    by (simp_all add: sample_write_def)
  have up: "update_volumes (\<lambda>v. v_id v = ''vol_sample000001'') (\<lambda>v. v\<lparr>v_observed_size_bytes := 0\<rparr>) volume_fleet = Inr volume_fleet"
    by (simp add: update_volumes_def stored_volume_ok volume_fleet_def)
  have "new_write_grant ''grant'' sample_write stored_volume 0 1 1048576 = sample_write_grant"
    by (simp add: new_write_grant_def sample_write_grant_def sel)
  moreover have "insert_write_grant sample_write_grant volume_fleet = Inr granted_fleet"
    by (simp add: insert_write_grant_def granted_fleet_def write_grant_check_def sample_write_grant_def)
  ultimately have "reserve_fresh sample_pgdiv sample_policy ''grant'' sample_write stored_volume 0 1000000 volume_fleet =
      Inr (reservation_of sample_write_grant, granted_fleet)"
    by (simp add: reserve_fresh_def Let_def sample_enforce_free outstanding_bytes_def sel next_attempt_def present_def falsy_def)
  with up show ?thesis
    by (simp add: reserveWriteGrant_def Let_def sel in_project_def live_replay_def MAX_SAFE_INTEGER_def sample_fleet_def)
qed

theorem reserveWriteGrant_exact_witness:
  "outstanding_bytes ''vol_sample000001'' 0 1000000 granted_fleet = 1048576 \<and> v_size_limit_bytes stored_volume = 1048576"
  using reserveWriteGrant_exact [OF sample_reserve_write] by (simp add: live_replay_def sample_write_def)

definition sample_url :: "string \<Rightarrow> url option" where
  "sample_url s = (if startsWith s ''https://'' then Some \<lparr>ur_protocol = ''https:'', ur_username = '''', ur_password = '''', ur_hash = ''''\<rparr> else None)"

definition sample_object_grant :: "grant_request \<Rightarrow> volume_object_grant" where
  "sample_object_grant q = \<lparr>og_method = gq_method q, og_url = ''https://store/'', og_objectPrefix = gq_objectPrefix q,
     og_expiresAt = gq_expiresAt q, og_encryptionAtRest = True, og_headers = None,
     og_maximumBytes = map_option JSInt (gq_maximumBytes q)\<rparr>"

definition sample_store :: volume_object_store where
  "sample_store = \<lparr>os_at_retention_boundary = True, os_reservationSettlementSeconds = None,
     os_inspect = (\<lambda>_ _ _. Inr (JSInt 0)), os_issueGrant = (\<lambda>q. Inr (sample_object_grant q)),
     os_scheduleDeletion = (\<lambda>_ _ _ _. Inr ())\<rparr>"

definition sample_volume_world :: volume_world where
  "sample_volume_world = \<lparr>vw_url = sample_url, vw_sha256 = sample_sha256, vw_pgdiv = sample_pgdiv, vw_policy = sample_policy,
     vw_storage = Some sample_store, vw_volume_id = ''vol_sample000002'', vw_uuid = ''grant'', vw_locked = [],
     vw_clock = (\<lambda>_. 1000000)\<rparr>"

definition issued_grant :: volume_object_grant where
  "issued_grant = sample_object_grant \<lparr>gq_organizationId = ''org'', gq_projectId = ''project'', gq_objectPrefix = ''prefix/'',
     gq_method = ''PUT'', gq_capabilityExpiresAt = Some 1300000, gq_expiresAt = 1300000, gq_maximumBytes = Some 1048576,
     gq_reservationId = Some ''grant''\<rparr>"

definition issued_fleet :: fleet where
  "issued_fleet = granted_fleet\<lparr>volume_write_grants := [sample_write_grant\<lparr>wg_issued_at := Some 1000000\<rparr>]\<rparr>"

lemma sample_mark: "markWriteGrantIssued ''grant'' ''org'' 1000000 granted_fleet = Inr (True, issued_fleet)"
  by (simp add: markWriteGrantIssued_def update_write_grants_def issued_fleet_def granted_fleet_def sample_write_grant_def
      write_grant_check_def coalesce_def Let_def)

lemma sample_issue:
  "issueWrite sample_volume_world sample_store stored_volume None None (\<lambda>_. 1000000) volume_fleet =
     (Inr (Some (stored_volume, issued_grant)), issued_fleet)"
proof -
  have expiry: "grantExpiry stored_volume (grant_ttl_of None) 1000000 = Inr 1300000"
    by (simp add: grantExpiry_def grant_ttl_of_def validateGrantTtl_def defaultVolumeGrantTtlSeconds_def
        maximumVolumeGrantTtlSeconds_def MAX_SAFE_INTEGER_def)
  have settle: "settlement_seconds sample_store = Inr 0"
    by (simp add: settlement_seconds_def sample_store_def maximumVolumeGrantTtlSeconds_def MAX_SAFE_INTEGER_def)
  have valid: "validateGrant sample_url issued_grant ''PUT'' ''prefix/'' 1300000 (Some 1048576) 1000000 = None"
    by (simp add: validateGrant_def issued_grant_def sample_object_grant_def sample_url_def startsWith_def validHeaders_def
        maximumVolumeGrantTtlSeconds_def MAX_SAFE_INTEGER_def)
  have r: "wr_id (reservation_of sample_write_grant) = ''grant''" "wr_expiresAt (reservation_of sample_write_grant) = 1300000"
      "wr_maximumBytes (reservation_of sample_write_grant) = 1048576"
    by (simp_all add: reservation_of_def sample_write_grant_def)
  have store: "os_issueGrant sample_store = (\<lambda>q. Inr (sample_object_grant q))" by (simp add: sample_store_def)
  show ?thesis
    using sample_reserve_write valid
    by (simp add: issueWrite_def bind_svc_def call_host_def call_tx_def return_svc_def check_svc_def expiry settle r
        sample_mark sample_volume_world_def sample_write_def issued_grant_def store)
qed

theorem write_grant_backed_witness:
  "og_expiresAt issued_grant = 1300000 \<and> og_expiresAt issued_grant \<le> 1000000 + 900000 \<and>
   (\<exists>g. g \<in> set (volume_write_grants issued_fleet) \<and> wg_issued_at g \<noteq> None \<and> og_expiresAt issued_grant \<le> wg_expires_at g)"
  using write_grant_backed [OF sample_issue] by (auto simp: issued_grant_def sample_object_grant_def)

section \<open>Its erasure\<close>

definition deleted_volume :: volume where
  "deleted_volume = stored_volume\<lparr>v_deleted_at := Some 1000000\<rparr>"

definition pending_job :: deletion_job_row where
  "pending_job = \<lparr>vd_volume_id = ''vol_sample000001'', vd_organization_id = ''org'', vd_project_id = ''project'',
     vd_delete_after = 605800000, vd_requested_at = 1000000, vd_next_attempt_at = 605800000, vd_attempt_count = 1,
     vd_claim_token = None, vd_claimed_at = None, vd_claim_expires_at = None, vd_scheduled_at = None,
     vd_last_error_code = Some ''volume_retention_pending''\<rparr>"

definition removed_fleet :: fleet where
  "removed_fleet = volume_fleet\<lparr>volumes := [deleted_volume], volume_deletion_jobs := [pending_job]\<rparr>"

lemma sample_remove:
  "remove_volume sample_volume_world ''vol_sample000001'' ''org'' None volume_fleet =
     (Inr (Some (deleted_volume, 605800000)), removed_fleet)"
proof -
  have ok: "volume_check (stored_volume\<lparr>v_deleted_at := Some 1000000, v_observed_size_bytes := 0\<rparr>)"
    using stored_volume_ok by (simp add: volume_check_def)
  have row: "stored_volume\<lparr>v_deleted_at := Some 1000000, v_observed_size_bytes := 0\<rparr> = deleted_volume"
    by (simp add: deleted_volume_def stored_volume_def sample_volume_def)
  show ?thesis
    using ok
    by (simp add: remove_volume_def findForDeletion_def in_project_def storage_def sample_volume_world_def bind_svc_def
        return_svc_def enqueueDeletion_def inspectForDeletion_def sample_store_def call_tx_def update_volumes_def row
        insert_deletion_job_def deferDeletion_def deferrable_def deferred_job_def delete_after_def
        volumeDeletionRetentionSeconds_def removed_fleet_def pending_job_def MAX_SAFE_INTEGER_def Let_def)
qed

definition erased_job :: deletion_job_row where
  "erased_job = pending_job\<lparr>vd_attempt_count := 2, vd_scheduled_at := Some 605800000, vd_last_error_code := None\<rparr>"

definition erased_fleet :: fleet where
  "erased_fleet = removed_fleet\<lparr>volume_deletion_jobs := [erased_job]\<rparr>"

lemma sample_erase:
  "run_deletions sample_store [] [] ''token'' (JSInt 100) 605800000 (\<lambda>_ _. 605800000) removed_fleet =
     (Inr \<lparr>dr_expiredEnqueued = 0, dr_claimed = 1, dr_scheduled = 1, dr_deferred = 0\<rparr>, erased_fleet)"
proof -
  have none: "enqueueExpiredDeletions [] 605800000 (JSInt 100) removed_fleet = Inr (0, removed_fleet)"
    by (simp add: enqueueExpiredDeletions_def expired_volumes_def removed_fleet_def deleted_volume_def sort_by_def
        update_volumes_def MAX_SAFE_INTEGER_def)
  let ?claimed = "removed_fleet\<lparr>volume_deletion_jobs := [claim_job ''token'' 605800000 60 pending_job]\<rparr>"
  let ?job = "\<lparr>dj_volume = deleted_volume, dj_deleteAfter = 605800000, dj_attemptCount = 2, dj_claimToken = ''token''\<rparr>"
  have claim: "claimDeletionJobs [] 605800000 (JSInt 100) ''token'' (JSInt 60) removed_fleet = Inr ([?job], ?claimed)"
    by (simp add: claimDeletionJobs_def deletion_candidates_def removed_fleet_def pending_job_def claimable_job_def sort_by_def
        claim_job_def deleted_volume_def Let_def MAX_SAFE_INTEGER_def)
  have "deliver sample_store (\<lambda>_. 605800000) ?job ?claimed = (Inr Scheduled, erased_fleet)"
    by (simp add: deliver_def deliver_now_def bind_svc_def call_host_def call_tx_def return_svc_def sample_store_def
        markDeletionScheduled_def claim_job_def scheduled_job_def erased_fleet_def erased_job_def removed_fleet_def pending_job_def
        deleted_volume_def coalesce_def)
  then show ?thesis
    by (simp add: run_deletions_def bind_svc_def call_tx_def none claim volumeDeletionClaimTtlSeconds_def)
qed

theorem volume_retention_kept_witness:
  "volume_deletion_jobs erased_fleet = [erased_job] \<and> vd_scheduled_at erased_job = Some 605800000 \<and>
   list_all (\<lambda>j. opt_ok (\<lambda>t. list_ex (\<lambda>v. v_id v = vd_volume_id j \<and>
      (case v_deleted_at v of None \<Rightarrow> False | Some d \<Rightarrow> d + 604800000 \<le> t)) (volumes erased_fleet)) (vd_scheduled_at j))
     (volume_deletion_jobs erased_fleet)"
proof -
  have "volume_step sample_store volume_fleet removed_fleet"
    by (rule volume_step.removed [OF _ sample_remove]) (simp add: sample_volume_world_def)
  moreover have "volume_step sample_store removed_fleet erased_fleet"
    by (rule volume_step.worked [OF _ sample_erase]) simp
  ultimately have run: "(volume_step sample_store)\<^sup>*\<^sup>* volume_fleet erased_fleet" by (meson r_into_rtranclp rtranclp_trans)
  have ok: "volumes_ok volume_fleet" by (simp add: volumes_ok_def)
  have "os_at_retention_boundary sample_store" by (simp add: sample_store_def)
  from volume_retention_kept [OF run ok this] show ?thesis by (simp add: erased_fleet_def erased_job_def)
qed

section \<open>A template\<close>

definition sample_artifact :: artifact where
  "sample_artifact = \<lparr>af_checksum = ''sha256:'' @ digest (CHR ''a''), af_sizeBytes = JSInt 4096\<rparr>"

definition sample_template_store :: template_object_store where
  "sample_template_store = \<lparr>ts_createUploadGrant = (\<lambda>_ _ t. Inr \<lparr>sg_method = ''PUT'', sg_url = ''https://store/'', sg_expiresAt = t\<rparr>),
     ts_createDownloadGrant = (\<lambda>_ t. Inr \<lparr>sg_method = ''GET'', sg_url = ''https://store/'', sg_expiresAt = t\<rparr>),
     ts_stat = (\<lambda>_. Inr sample_artifact)\<rparr>"

definition sample_publisher :: template_publisher where
  "sample_publisher = \<lparr>tp_export = (\<lambda>t. Inr (et_exportId t, sample_artifact)), tp_upload = (\<lambda>_ a _. Inr a)\<rparr>"

definition template_world_with :: "template_publisher \<Rightarrow> template_world" where
  "template_world_with publisher = \<lparr>tw_net = sample_net, tw_url = sample_url, tw_storage = Some sample_template_store,
     tw_publisher = Some publisher, tw_id = ''t1'', tw_hostTemplateName = ''t-'' @ replicate 29 (CHR ''0''),
     tw_clock = (\<lambda>_. 1000000)\<rparr>"

definition sample_publish :: publish_input where
  "sample_publish = \<lparr>pi_organizationId = ''org'', pi_projectId = ''project'', pi_machineId = ''m_running-0001'',
     pi_name = ''base'', pi_version = ''1''\<rparr>"

definition broken_publisher :: template_publisher where
  "broken_publisher = sample_publisher\<lparr>tp_upload := (\<lambda>_ _ _. Inl (PlainError ''reset''))\<rparr>"

definition sample_key :: string where
  "sample_key = object_key ''org'' ''project'' ''base'' ''1'' ''t1''"

definition sample_target :: export_target where
  "sample_target = \<lparr>et_address = ''10.0.0.1'', et_hostMachineId = ''vm-1'', et_leaseId = ''lease-m_running-0001'', et_exportId = ''te_t1''\<rparr>"

definition source_machine :: machine where
  "source_machine = projr (fromRow sample_net sample_fleet (running_machine ''m_running-0001''))"

lemma source_found:
  "find_machine sample_net ''m_running-0001'' ''org'' (Some ''project'') sample_fleet = Inr (Some source_machine)"
  "source_ready source_machine 1000000" "ma_hostAddress source_machine = Some ''10.0.0.1''"
  "ma_hostMachineId source_machine = Some ''vm-1''" "ma_leaseId source_machine = ''lease-m_running-0001''"
  "ma_id source_machine = ''m_running-0001''" "ma_architecture source_machine = X86_64"
proof -
  have row: "fromRow sample_net sample_fleet (running_machine ''m_running-0001'') = Inr source_machine"
    by (simp add: source_machine_def fromRow_def running_machine_def starting_machine_def requested_machine_def canonical_off)
  show "find_machine sample_net ''m_running-0001'' ''org'' (Some ''project'') sample_fleet = Inr (Some source_machine)"
    using row by (simp add: find_machine_def from_first_def sample_fleet_def fork_visible_def running_machine_def
        starting_machine_def requested_machine_def)
  show "source_ready source_machine 1000000" "ma_hostAddress source_machine = Some ''10.0.0.1''"
    "ma_hostMachineId source_machine = Some ''vm-1''" "ma_leaseId source_machine = ''lease-m_running-0001''"
    "ma_id source_machine = ''m_running-0001''" "ma_architecture source_machine = X86_64"
    by (simp_all add: source_machine_def fromRow_def running_machine_def starting_machine_def requested_machine_def canonical_off
        source_ready_def host_address_of_def sample_fleet_def sample_host_def present_def falsy_def)
qed

lemmas pattern_defs = is_alnum_def is_digit_def is_lower_def is_upper_def less_eq_char_def startsWith_def

lemma sample_publish_starts:
  "publish (template_world_with publisher) sample_publish sample_fleet =
     publish_at (template_world_with publisher) sample_template_store publisher sample_publish source_machine sample_target sample_key sample_fleet"
proof -
  have trim: "js_trim ''base'' = ''base''" "js_trim ''1'' = ''1''" by (simp_all add: js_trim_def is_space_def)
  have "templateNamePattern ''base''" "templateVersionPattern ''1''" "source_machine_id_ok ''m_running-0001''"
      "tenantSegmentPattern ''org''" "tenantSegmentPattern ''project''"
    by (simp_all add: templateNamePattern_def templateVersionPattern_def source_machine_id_ok_def tenantSegmentPattern_def pattern_defs)
  moreover have "export_id ''t1'' = ''te_t1''" by (simp add: export_id_def)
  moreover have "findVersion ''org'' ''project'' ''base'' ''1'' sample_fleet = None" by (simp add: findVersion_def sample_fleet_def)
  ultimately show ?thesis
    using source_found
    by (simp add: publish_def Let_def sample_publish_def template_world_with_def trim safeObjectKey_def sample_key_def sample_target_def)
qed

lemma sample_artifact_ok: "validArtifact sample_artifact"
  by (simp add: validArtifact_def sample_artifact_def validTemplateChecksum_def pattern_defs hex64_digest is_hex_def
      maximumArtifactBytes_def MAX_SAFE_INTEGER_def)

definition published_template :: template where
  "published_template = template_of (template_world_with sample_publisher) sample_publish source_machine sample_key sample_artifact 1000000"

definition published_fleet :: fleet where
  "published_fleet = queue_replicas 1000000 published_template (sample_fleet\<lparr>templates := [published_template]\<rparr>)"

lemma sample_insert: "insert_template published_template 1000000 sample_fleet = Inr published_fleet"
proof -
  have row: "published_template\<lparr>t_created_at := 1000000, t_deleted_at := None\<rparr> = published_template"
    by (simp add: published_template_def template_of_def)
  have check: "template_check published_template"
    using sample_artifact_ok
    by (simp add: template_check_def published_template_def template_of_def template_world_with_def host_template_name_ok_def
        validArtifact_def sample_artifact_def pattern_defs is_hex_def list_all_iff)
  show ?thesis
    using check
    by (simp add: insert_template_def Let_def row published_fleet_def)
      (simp add: published_template_def template_of_def sample_publish_def sample_fleet_def source_found running_machine_def
        starting_machine_def requested_machine_def)
qed

lemma sample_upload_grant:
  "validateScopedObjectGrant sample_url \<lparr>sg_method = ''PUT'', sg_url = ''https://store/'', sg_expiresAt = 1600000\<rparr> ''PUT'' 1000000 = None"
  by (simp add: validateScopedObjectGrant_def sample_url_def startsWith_def)

lemma sample_published:
  "publish (template_world_with sample_publisher) sample_publish sample_fleet =
     (Inr published_template, [ExportCall sample_target, UploadGrantCall sample_key, UploadCall sample_target, StatCall sample_key,
       DiscardCall sample_target], published_fleet)"
proof -
  have "publish_exported (template_world_with sample_publisher) sample_template_store sample_publisher sample_publish source_machine
      sample_target sample_key 1000000 (''te_t1'', sample_artifact) sample_fleet =
    (Inr published_template, [UploadGrantCall sample_key, UploadCall sample_target, StatCall sample_key], published_fleet)"
    using sample_insert sample_upload_grant
    by (simp add: publish_exported_def sample_artifact_ok sample_template_store_def sample_publisher_def template_world_with_def
        sample_target_def published_template_def Let_def)
  then show ?thesis
    unfolding sample_publish_starts
    by (simp add: publish_at_def sample_publisher_def template_world_with_def sample_target_def)
qed

lemma sample_key_of: "t_object_key published_template = sample_key"
  by (simp add: published_template_def template_of_def)

theorem publish_verified_witness:
  "\<exists>a. tp_export sample_publisher sample_target = Inr (''te_t1'', a) \<and> t_checksum published_template = af_checksum a \<and>
     validArtifact a \<and> length (templates published_fleet) = 1"
proof -
  from publish_verified [OF sample_published] obtain publisher target a where
      "tw_publisher (template_world_with sample_publisher) = Some publisher" "tp_export publisher target = Inr (et_exportId target, a)" "validArtifact a" "t_checksum published_template = af_checksum a"
      "[ExportCall sample_target, UploadGrantCall sample_key, UploadCall sample_target, StatCall sample_key, DiscardCall sample_target] =
        [ExportCall target, UploadGrantCall (t_object_key published_template), UploadCall target,
         StatCall (t_object_key published_template), DiscardCall target]"
      "templates published_fleet = templates sample_fleet @ [published_template\<lparr>t_created_at := tw_clock (template_world_with sample_publisher) 2\<rparr>]"
    by (elim exE conjE) (rule that; assumption)
  moreover from this have "publisher = sample_publisher" by (simp add: template_world_with_def)
  ultimately show ?thesis by (auto simp: sample_target_def sample_fleet_def)
qed

lemma sample_unpublished:
  "publish (template_world_with broken_publisher) sample_publish sample_fleet =
     (Inl (TemplateInfrastructureUnavailable ''The source host could not upload its immutable template export.''),
      [ExportCall sample_target, UploadGrantCall sample_key, UploadCall sample_target, DeleteCall sample_key, DiscardCall sample_target],
      sample_fleet)"
proof -
  have "publish_exported (template_world_with broken_publisher) sample_template_store broken_publisher sample_publish source_machine
      sample_target sample_key 1000000 (''te_t1'', sample_artifact) sample_fleet =
    (Inl (TemplateInfrastructureUnavailable ''The source host could not upload its immutable template export.''),
      [UploadGrantCall sample_key, UploadCall sample_target], sample_fleet)"
    using sample_upload_grant
    by (simp add: publish_exported_def sample_artifact_ok sample_template_store_def broken_publisher_def sample_publisher_def
        template_world_with_def sample_target_def)
  then show ?thesis
    unfolding sample_publish_starts
    by (simp add: publish_at_def broken_publisher_def sample_publisher_def template_world_with_def sample_target_def)
qed

theorem publish_failure_cleans_up_witness:
  "\<exists>pre. set pre \<subseteq> {UploadGrantCall sample_key, UploadCall sample_target, StatCall sample_key} \<and>
     snd (snd (publish (template_world_with broken_publisher) sample_publish sample_fleet)) = sample_fleet \<and>
     fst (snd (publish (template_world_with broken_publisher) sample_publish sample_fleet)) =
       ExportCall sample_target # pre @ [DeleteCall sample_key, DiscardCall sample_target]"
proof -
  from publish_failure_cleans_up [OF sample_unpublished] obtain publisher target key pre where
      p: "tw_publisher (template_world_with broken_publisher) = Some publisher"
    and pre: "set pre \<subseteq> {UploadGrantCall key, UploadCall target, StatCall key}"
    and calls: "[ExportCall sample_target, UploadGrantCall sample_key, UploadCall sample_target, DeleteCall sample_key, DiscardCall sample_target] =
       ExportCall target # pre @ DeleteCall key # (if isl (tp_export publisher target) then [] else [DiscardCall target])"
    by blast
  have "\<not> isl (tp_export publisher target)"
    using p by (auto simp: template_world_with_def broken_publisher_def sample_publisher_def)
  with calls have eq: "[UploadGrantCall sample_key, UploadCall sample_target] @ [DeleteCall sample_key, DiscardCall sample_target] =
      pre @ [DeleteCall key, DiscardCall target]" and t: "sample_target = target" by simp_all
  from eq have "[DeleteCall sample_key, DiscardCall sample_target] = [DeleteCall key, DiscardCall target]"
    by (subst (asm) append_eq_append_conv) auto
  with calls pre t \<open>\<not> isl (tp_export publisher target)\<close> show ?thesis by (intro exI [of _ pre]) (simp add: sample_unpublished)
qed

definition sample_replication :: replication_world where
  "sample_replication = \<lparr>rw_url = sample_url, rw_storage = Some sample_template_store,
     rw_activate = Some (\<lambda>_ _ _ a _. Inr a), rw_locked = [], rw_clock = (\<lambda>_. 1000000)\<rparr>"

theorem ready_replicas_verified_witness:
  "template_step\<^sup>*\<^sup>* sample_fleet (snd (runOnce sample_replication published_fleet)) \<and>
   distinct (map (\<lambda>r. (r_template_id r, r_host_id r)) (template_replicas (snd (runOnce sample_replication published_fleet))))"
proof -
  have "template_step sample_fleet published_fleet" by (rule template_step.published [OF sample_published])
  moreover have "template_step published_fleet (snd (runOnce sample_replication published_fleet))"
    by (rule template_step.replicated [OF prod.collapse [symmetric]])
  ultimately have run: "template_step\<^sup>*\<^sup>* sample_fleet (snd (runOnce sample_replication published_fleet))"
    by (meson r_into_rtranclp rtranclp_trans)
  have "templates_ok sample_fleet" by (simp add: templates_ok_def sample_fleet_def)
  from ready_replicas_verified [OF run this] run show ?thesis by blast
qed

end
