(* ===== verification/Windows.thy ===== *)
theory Windows
  imports Json
begin

text \<open>
  Fixed-window rate limits. The control plane has three of them: the windows of REST admission and of
  capability requests, both tables of PostgreSQL written by the same upsert, and the slots in front of
  host credential verification, which live in the process. The locale \<open>fixed_window\<close> says what
  they have in common and proves once that no window admits more than its limit.
\<close>

section \<open>The contract of a fixed window\<close>

text \<open>
  How many requests of a run were admitted in window \<open>w\<close> and charged to bucket \<open>k\<close>. A request is taken
  with the instant it arrives.
\<close>

fun admissions :: "('r \<Rightarrow> time \<Rightarrow> 's \<Rightarrow> bool \<times> 's) \<Rightarrow> ('r \<Rightarrow> time \<Rightarrow> 's \<Rightarrow> 'k list) \<Rightarrow> (time \<Rightarrow> time) \<Rightarrow> 'k \<Rightarrow> time \<Rightarrow>
    ('r \<times> time) list \<Rightarrow> 's \<Rightarrow> int" where
  "admissions hit keys window k w [] s = 0"
| "admissions hit keys window k w ((r, now) # rs) s =
     (if fst (hit r now s) \<and> k \<in> set (keys r now s) \<and> window now = w then 1 else 0) +
     admissions hit keys window k w rs (snd (hit r now s))"

text \<open>
  \<open>count s k\<close> is the window bucket \<open>k\<close> is in and the requests charged to it there. A request charges
  each of its buckets: in a later window the count starts again at one, in the same window it grows
  by one or has passed the limit already. It is admitted only when no bucket is past its limit.
\<close>

locale fixed_window =
  fixes hit :: "'r \<Rightarrow> time \<Rightarrow> 's \<Rightarrow> bool \<times> 's" and keys :: "'r \<Rightarrow> time \<Rightarrow> 's \<Rightarrow> 'k list" and window :: "time \<Rightarrow> time"
    and count :: "'s \<Rightarrow> 'k \<Rightarrow> (time \<times> int) option" and limit :: "'k \<Rightarrow> int" and ok :: "'s \<Rightarrow> bool"
  assumes ok_hit: "ok s \<Longrightarrow> ok (snd (hit r now s))"
    and fresh: "ok s \<Longrightarrow> k \<in> set (keys r now s) \<Longrightarrow> count s k = None \<Longrightarrow> count (snd (hit r now s)) k = Some (window now, 1)"
    and later: "ok s \<Longrightarrow> k \<in> set (keys r now s) \<Longrightarrow> count s k = Some (w, n) \<Longrightarrow> w < window now \<Longrightarrow>
      count (snd (hit r now s)) k = Some (window now, 1)"
    and same: "ok s \<Longrightarrow> k \<in> set (keys r now s) \<Longrightarrow> count s k = Some (window now, n) \<Longrightarrow>
      \<exists>n'. count (snd (hit r now s)) k = Some (window now, n') \<and> (n' = n + 1 \<or> limit k < n')"
    and other: "ok s \<Longrightarrow> k \<notin> set (keys r now s) \<Longrightarrow> count (snd (hit r now s)) k = count s k"
    and admitted: "ok s \<Longrightarrow> fst (hit r now s) \<Longrightarrow> k \<in> set (keys r now s) \<Longrightarrow> count (snd (hit r now s)) k = Some (w, n) \<Longrightarrow> n \<le> limit k"
    and counted: "ok s \<Longrightarrow> count s k = Some (w, n) \<Longrightarrow> 0 \<le> n"
    and window_mono: "t \<le> t' \<Longrightarrow> window t \<le> window t'"
    and limit_nonneg: "0 \<le> limit k"
begin

abbreviation room :: "'s \<Rightarrow> 'k \<Rightarrow> time \<Rightarrow> int" where
  "room s k w \<equiv> (case count s k of None \<Rightarrow> limit k | Some (w', n) \<Rightarrow> if w' = w then max 0 (limit k - n) else limit k)"

lemma admissions_past:
  "\<forall>(r, now)\<in>set rs. w < window now \<Longrightarrow> admissions hit keys window k w rs s = 0"
  by (induction rs arbitrary: s) auto

text \<open>One request uses up the room it is admitted to.\<close>

lemma hit_room:
  assumes "ok s" and "k \<in> set (keys r now s)" and "case count s k of None \<Rightarrow> True | Some (w', n) \<Rightarrow> w' \<le> window now"
  obtains n where "count (snd (hit r now s)) k = Some (window now, n)"
    and "room s k (window now) \<ge> (if fst (hit r now s) then 1 else 0) + max 0 (limit k - n)"
proof (cases "count s k")
  case None
  note f = fresh [OF assms(1,2) None]
  from f show thesis
    by (rule that) (use None limit_nonneg [of k] admitted [OF assms(1) _ assms(2) f] in auto)
next
  case (Some wn)
  obtain w0 m where wn: "wn = (w0, m)" by (cases wn)
  from assms(3) Some have le: "w0 \<le> window now" by (simp add: wn)
  show thesis
  proof (cases "w0 = window now")
    case True
    with Some wn same [OF assms(1,2), of m] obtain n' where
        n': "count (snd (hit r now s)) k = Some (window now, n')" "n' = m + 1 \<or> limit k < n'" by auto
    from n'(1) show thesis
      by (rule that) (use Some wn True n'(2) admitted [OF assms(1) _ assms(2) n'(1)] in auto)
  next
    case False
    with le have "w0 < window now" by simp
    note l = later [OF assms(1,2) Some [unfolded wn] this]
    from l show thesis
      by (rule that) (use Some wn False limit_nonneg [of k] admitted [OF assms(1) _ assms(2) l] in auto)
  qed
qed

lemma admissions_room:
  assumes "ok s" and "sorted (map snd rs)" and "\<forall>(r, now)\<in>set rs. case count s k of None \<Rightarrow> True | Some (w', n) \<Rightarrow> w' \<le> window now"
  shows "admissions hit keys window k w rs s \<le> room s k w"
  using assms
proof (induction rs arbitrary: s)
  case Nil
  then show ?case using limit_nonneg by (auto split: option.splits)
next
  case (Cons x rs)
  obtain r now where x: "x = (r, now)" by (cases x)
  let ?s = "snd (hit r now s)"
  have later_all: "\<forall>(r', t)\<in>set rs. window now \<le> window t" using Cons.prems(2) window_mono by (fastforce simp: x)
  show ?case
  proof (cases "k \<in> set (keys r now s)")
    case False
    with Cons.IH [of ?s] Cons.prems other [of s k r now] ok_hit [of s r now] show ?thesis by (auto simp: x)
  next
    case True
    note k = this
    from Cons.prems(3) have before: "case count s k of None \<Rightarrow> True | Some (w', n) \<Rightarrow> w' \<le> window now" by (simp add: x)
    obtain n where n: "count ?s k = Some (window now, n)"
      and grown: "room s k (window now) \<ge> (if fst (hit r now s) then 1 else 0) + max 0 (limit k - n)"
      by (rule hit_room [OF Cons.prems(1) k before])
    have rest: "admissions hit keys window k w rs ?s \<le> room ?s k w"
      using Cons.prems(1,2) later_all n ok_hit by (intro Cons.IH) (auto simp: x)
    show ?thesis
    proof (cases "window now = w")
      case True
      then have w: "w = window now" by simp
      have "admissions hit keys window k w (x # rs) s =
          (if fst (hit r now s) then 1 else 0) + admissions hit keys window k w rs ?s" using k by (simp add: x w)
      also have "\<dots> \<le> (if fst (hit r now s) then 1 else 0) + max 0 (limit k - n)" using rest n by (simp add: w)
      also have "\<dots> \<le> room s k w" using grown unfolding w .
      finally show ?thesis .
    next
      case False
      note now = this
      show ?thesis
      proof (cases "window now < w")
        case True
        with rest n Cons.prems(3) show ?thesis by (auto simp: x now split: option.splits)
      next
        case False
        with now later_all have "\<forall>(r', t)\<in>set rs. w < window t" by fastforce
        from admissions_past [OF this] False now have "admissions hit keys window k w (x # rs) s = 0" by (simp add: x)
        then show ?thesis using limit_nonneg [of k] by (auto split: option.splits)
      qed
    qed
  qed
qed

lemma within_limit:
  assumes "ok s" and "sorted (map snd rs)" and "\<forall>(r, now)\<in>set rs. case count s k of None \<Rightarrow> True | Some (w', n) \<Rightarrow> w' \<le> window now"
  shows "admissions hit keys window k w rs s \<le> limit k"
proof -
  have "room s k w \<le> limit k" using counted [OF assms(1)] limit_nonneg [of k] by (auto split: option.splits prod.splits)
  with admissions_room [OF assms, of w] show ?thesis by linarith
qed

end

text \<open>A request that names an identity charges the bucket the identity hashes to.\<close>

lemma admissions_le:
  assumes "\<And>r now s. fst (hit r now s) \<Longrightarrow> k \<in> set (ids r now s) \<Longrightarrow> k' \<in> set (keys r now s)"
  shows "admissions hit ids window k w rs s \<le> admissions hit keys window k' w rs s"
proof (induction rs arbitrary: s)
  case (Cons x rs)
  obtain r now where x: "x = (r, now)" by (cases x)
  with Cons.IH [of "snd (hit r now s)"] assms [of r now s] show ?case by auto
qed simp

section \<open>The upsert of the window tables\<close>

record window_row =
  ww_scope :: string
  ww_bucket_slot :: int
  ww_window_started_at :: time
  ww_request_count :: int

record bucket =
  bk_scope :: string
  bk_slot :: int
  bk_limit :: int

definition bucketSlots :: int where "bucketSlots = 1048576"
definition maximumStoredCount :: int where "maximumStoredCount = 1000001"

text \<open>\<open>to_timestamp(floor(extract(epoch FROM statement_timestamp()) / $n) * $n)\<close>.\<close>

definition window_start :: "int \<Rightarrow> time \<Rightarrow> time" where
  "window_start windowSeconds now = now div seconds windowSeconds * seconds windowSeconds"

definition of_bucket :: "string \<Rightarrow> int \<Rightarrow> window_row \<Rightarrow> bool" where
  "of_bucket scope slot x \<longleftrightarrow> ww_scope x = scope \<and> ww_bucket_slot x = slot"

definition charged_row :: "time \<Rightarrow> window_row \<Rightarrow> window_row" where
  "charged_row started x =
     x\<lparr>ww_window_started_at := max (ww_window_started_at x) started,
       ww_request_count := (if started > ww_window_started_at x then 1 else min (ww_request_count x + 1) maximumStoredCount)\<rparr>"

text \<open>\<open>INSERT ... ON CONFLICT (scope, bucket_slot) DO UPDATE\<close> of one bucket.\<close>

definition charge :: "time \<Rightarrow> bucket \<Rightarrow> window_row list \<Rightarrow> window_row list" where
  "charge started b rows =
     (if list_ex (of_bucket (bk_scope b) (bk_slot b)) rows
      then sql_update (of_bucket (bk_scope b) (bk_slot b)) (charged_row started) rows
      else rows @ [\<lparr>ww_scope = bk_scope b, ww_bucket_slot = bk_slot b, ww_window_started_at = started, ww_request_count = 1\<rparr>])"

definition bucket_row :: "window_row list \<Rightarrow> bucket \<Rightarrow> window_row option" where
  "bucket_row rows b = find (of_bucket (bk_scope b) (bk_slot b)) rows"

definition exceeded :: "window_row list \<Rightarrow> bucket \<Rightarrow> bool" where
  "exceeded rows b = (case bucket_row rows b of None \<Rightarrow> False | Some x \<Rightarrow> ww_request_count x > bk_limit b)"

definition retry_seconds :: "int \<Rightarrow> time \<Rightarrow> window_row list \<Rightarrow> bucket \<Rightarrow> int" where
  "retry_seconds windowSeconds now rows b =
     (case bucket_row rows b of
        None \<Rightarrow> 1
      | Some x \<Rightarrow> max 1 (ceil_div (ww_window_started_at x + seconds windowSeconds - now) 1000))"

text \<open>
  The statement: every requested bucket is charged; the answer is whether all are within their limits
  and after how many seconds the last window past its limit ends.
\<close>

definition charge_windows :: "int \<Rightarrow> bucket list \<Rightarrow> time \<Rightarrow> window_row list \<Rightarrow> bool \<times> int \<times> window_row list" where
  "charge_windows windowSeconds buckets now rows =
     (let rows' = fold (charge (window_start windowSeconds now)) buckets rows in
      (list_all (\<lambda>b. \<not> exceeded rows' b) buckets,
       foldl max 1 (map (retry_seconds windowSeconds now rows') (filter (exceeded rows') buckets)),
       rows'))"

text \<open>The unsigned number in the first four bytes of a digest, given as hexadecimal text, in a slot.\<close>

definition hex_digit_value :: "char \<Rightarrow> int" where
  "hex_digit_value c = (if is_digit c then int (of_char c) - 48 else int (of_char c) - 87)"

definition readUInt32BE :: "string \<Rightarrow> int" where
  "readUInt32BE digest = foldl (\<lambda>n c. 16 * n + hex_digit_value c) 0 (take 8 digest)"

definition slotFor :: "(string \<Rightarrow> string) \<Rightarrow> string \<Rightarrow> string \<Rightarrow> int" where
  "slotFor sha256 scope identifier = readUInt32BE (sha256 (scope @ [CHR 0x00] @ identifier)) mod bucketSlots"

text \<open>What the service makes of \<open>retry_after_seconds\<close>.\<close>

definition bounded_retry :: "int \<Rightarrow> int \<Rightarrow> int" where
  "bounded_retry windowSeconds retryAfter =
     (if isSafeInteger (JSInt retryAfter) \<and> retryAfter > 0 then min retryAfter windowSeconds else 1)"

section \<open>The tables keep the contract\<close>

definition count_of :: "window_row list \<Rightarrow> string \<times> int \<Rightarrow> (time \<times> int) option" where
  "count_of rows k = map_option (\<lambda>x. (ww_window_started_at x, ww_request_count x)) (find (of_bucket (fst k) (snd k)) rows)"

definition bucket_key :: "bucket \<Rightarrow> string \<times> int" where
  "bucket_key b = (bk_scope b, bk_slot b)"

lemma of_bucket_charged [simp]: "of_bucket scope slot (charged_row started x) = of_bucket scope slot x"
  by (simp add: of_bucket_def charged_row_def)

lemma find_other: "\<lbrakk>\<And>x. P x \<Longrightarrow> \<not> Q x\<rbrakk> \<Longrightarrow> (\<And>x. P (f x) = P x) \<Longrightarrow> find P (sql_update Q f rows) = find P rows"
  by (induction rows) auto

lemma count_charge_other: "bucket_key b \<noteq> k \<Longrightarrow> count_of (charge started b rows) k = count_of rows k"
proof (cases k)
  case (Pair scope slot)
  assume "bucket_key b \<noteq> k"
  then have no: "of_bucket (fst k) (snd k) x \<Longrightarrow> \<not> of_bucket (bk_scope b) (bk_slot b) x" for x
    by (auto simp: of_bucket_def bucket_key_def Pair)
  have "\<not> of_bucket (fst k) (snd k) \<lparr>ww_scope = bk_scope b, ww_bucket_slot = bk_slot b, ww_window_started_at = started, ww_request_count = 1\<rparr>"
    using \<open>bucket_key b \<noteq> k\<close> by (auto simp: of_bucket_def bucket_key_def Pair)
  then show ?thesis
    by (auto simp: charge_def count_of_def find_other [OF no] find_append split: option.splits)
qed

lemma count_charge_same:
  assumes "bucket_key b = k"
  shows "count_of (charge started b rows) k = Some (case count_of rows k of
    None \<Rightarrow> (started, 1)
  | Some (w, n) \<Rightarrow> (max w started, if started > w then 1 else min (n + 1) maximumStoredCount))"
proof (cases "find (of_bucket (bk_scope b) (bk_slot b)) rows")
  case None
  then have "\<not> list_ex (of_bucket (bk_scope b) (bk_slot b)) rows" by (simp add: find_None_list_ex)
  with None assms show ?thesis by (auto simp: charge_def count_of_def bucket_key_def find_append of_bucket_def)
next
  case (Some x)
  then have "list_ex (of_bucket (bk_scope b) (bk_slot b)) rows" by (rule find_Some_list_ex)
  moreover have "find (of_bucket (bk_scope b) (bk_slot b)) (sql_update (of_bucket (bk_scope b) (bk_slot b)) (charged_row started) rows) =
      Some (charged_row started x)"
    using Some find_SomeD [OF Some] by (simp add: find_sql_update)
  ultimately show ?thesis using Some assms by (auto simp: charge_def count_of_def bucket_key_def charged_row_def)
qed

lemma count_fold_other: "k \<notin> bucket_key ` set bs \<Longrightarrow> count_of (fold (charge started) bs rows) k = count_of rows k"
  by (induction bs arbitrary: rows) (auto simp: count_charge_other)

lemma count_fold:
  assumes "distinct (map bucket_key bs)" and "b \<in> set bs"
  shows "count_of (fold (charge started) bs rows) (bucket_key b) = Some (case count_of rows (bucket_key b) of
    None \<Rightarrow> (started, 1)
  | Some (w, n) \<Rightarrow> (max w started, if started > w then 1 else min (n + 1) maximumStoredCount))"
  using assms
proof (induction bs arbitrary: rows)
  case (Cons c bs)
  show ?case
  proof (cases "b = c")
    case True
    with Cons.prems have "bucket_key b \<notin> bucket_key ` set bs" by auto
    with True show ?thesis by (simp add: count_fold_other count_charge_same)
  next
    case False
    with Cons.prems have "bucket_key c \<noteq> bucket_key b" by auto
    with False Cons show ?thesis by (simp add: count_charge_other)
  qed
qed simp

lemma window_start_mono: "0 < windowSeconds \<Longrightarrow> t \<le> t' \<Longrightarrow> window_start windowSeconds t \<le> window_start windowSeconds t'"
  by (simp add: window_start_def zdiv_mono1)

lemma exceeded_count: "exceeded rows b = (case count_of rows (bucket_key b) of None \<Rightarrow> False | Some (w, n) \<Rightarrow> n > bk_limit b)"
  by (auto simp: exceeded_def bucket_row_def count_of_def bucket_key_def split: option.splits)

end
