(* ===== verification/Admission.thy ===== *)
theory Admission
  imports Windows NetPolicy
begin

text \<open>
  What stands in front of authentication: \<open>auth/api-admission.ts\<close>, the windows of REST requests, and
  \<open>auth/host-admission.ts\<close>, the slots and the concurrency bound of host credential verification. Both
  keep the contract \<open>fixed_window\<close>, for every configuration the program accepts, so that neither
  lets through more requests in a window than its limit.
\<close>

section \<open>Client networks\<close>

text \<open>\<open>^(\d{1,3})\.(\d{1,3})\.(\d{1,3})\.(\d{1,3})$\<close> and the test that no octet exceeds 255.\<close>

definition ipv4Network :: "string \<Rightarrow> string option" where
  "ipv4Network address =
     (let parts = split_on (CHR ''.'') address; octets = map read_nat parts in
      if length parts \<noteq> 4 \<or> \<not> list_all (\<lambda>p. 1 \<le> length p \<and> length p \<le> 3 \<and> list_all is_digit p) parts then None
      else if list_ex (\<lambda>n. n > 255) octets then None
      else Some (show_nat (octets ! 0) @ ''.'' @ show_nat (octets ! 1) @ ''.'' @ show_nat (octets ! 2) @ ''.0/24''))"

text \<open>\<open>address.split('::')\<close>.\<close>

fun split_colons :: "string \<Rightarrow> string list" where
  "split_colons (a # b # s) =
     (if a = CHR '':'' \<and> b = CHR '':'' then [] # split_colons s
      else (case split_colons (b # s) of [] \<Rightarrow> [[a]] | p # ps \<Rightarrow> (a # p) # ps))"
| "split_colons s = [s]"

definition ipv6_word :: "string \<Rightarrow> int option" where
  "ipv6_word part =
     (if 1 \<le> length part \<and> length part \<le> 4 \<and> list_all is_hex part
      then Some (foldl (\<lambda>n c. 16 * n + hex_digit_value c) 0 part) else None)"

fun ipv6_words :: "string list \<Rightarrow> int list option" where
  "ipv6_words [] = Some []"
| "ipv6_words (part # parts) =
     (case ipv6_word part of None \<Rightarrow> None | Some w \<Rightarrow> map_option ((#) w) (ipv6_words parts))"

definition parseHalf :: "string \<Rightarrow> int list option" where
  "parseHalf half = (if half = [] then Some [] else ipv6_words (split_on (CHR '':'') half))"

definition ipv6Bytes :: "string \<Rightarrow> int list option" where
  "ipv6Bytes address =
     (let halves = split_colons (toLowerCase address) in
      if CHR ''%'' \<in> set address \<or> length (split_colons address) > 2 then None
      else (case (parseHalf (halves ! 0), if length halves > 1 then parseHalf (halves ! 1) else Some []) of
              (Some left, Some right) \<Rightarrow>
                (let missing = 8 - int (length left) - int (length right) in
                 if (length halves = 1 \<and> missing \<noteq> 0) \<or> (length halves = 2 \<and> missing < 1) then None
                 else Some (concat (map (\<lambda>w. [w div 256, w mod 256]) (left @ replicate (nat missing) 0 @ right))))
            | _ \<Rightarrow> None))"

definition hex_byte :: "int \<Rightarrow> string" where
  "hex_byte b = [hex_digit (nat b div 16), hex_digit (nat b mod 16)]"

text \<open>\<open>^::ffff:(?=\d+\.\d+\.\d+\.\d+$)\<close>, ignoring case, removed.\<close>

definition strip_mapped :: "string \<Rightarrow> string" where
  "strip_mapped s =
     (let rest = drop 7 s; parts = split_on (CHR ''.'') rest in
      if toLowerCase (take 7 s) = ''::ffff:'' \<and> length parts = 4 \<and> list_all (\<lambda>p. p \<noteq> [] \<and> list_all is_digit p) parts
      then rest else s)"

definition coarseClientIdentity :: "(string \<Rightarrow> nat) \<Rightarrow> string option \<Rightarrow> string" where
  "coarseClientIdentity ipVersion raw =
     (let address = strip_mapped (js_trim (case raw of None \<Rightarrow> [] | Some s \<Rightarrow> s)) in
      if ipVersion address = 4 then ''ipv4:'' @ (case ipv4Network address of None \<Rightarrow> ''invalid'' | Some n \<Rightarrow> n)
      else if ipVersion address = 6
      then (case ipv6Bytes address of
              Some bytes \<Rightarrow> ''ipv6:'' @ concat (map hex_byte (take 7 bytes)) @ ''/56''
            | None \<Rightarrow> ''unknown'')
      else ''unknown'')"

section \<open>REST admission\<close>

text \<open>\<open>^(bc_(?:live|test)_[a-f0-9]{12})_[A-Za-z0-9_-]{32,}$\<close>: the public prefix of an API key.\<close>

definition secret_char :: "char \<Rightarrow> bool" where
  "secret_char c \<longleftrightarrow> is_alnum c \<or> c = CHR ''_'' \<or> c = CHR ''-''"

definition apiKeyPublicPrefix :: "string \<Rightarrow> string option" where
  "apiKeyPublicPrefix raw =
     (if length raw \<le> 512 \<and> 53 \<le> length raw \<and> (startsWith raw ''bc_live_'' \<or> startsWith raw ''bc_test_'') \<and>
         list_all is_hex (take 12 (drop 8 raw)) \<and> raw ! 20 = CHR ''_'' \<and> list_all secret_char (drop 21 raw)
      then Some (take 20 raw) else None)"

record rate_limit_config =
  rl_enabled :: bool
  rl_windowSeconds :: int
  rl_preAuthIpRequests :: int
  rl_preAuthApiKeyRequests :: int
  rl_principalRequests :: int
  rl_organizationRequests :: int
  rl_projectRequests :: int
  rl_failClosed :: bool

text \<open>What \<open>loadApiRateLimit\<close> accepts; \<open>integer\<close> only reads positive numbers.\<close>

definition rate_limit_config_ok :: "rate_limit_config \<Rightarrow> bool" where
  "rate_limit_config_ok c \<longleftrightarrow> 10 \<le> rl_windowSeconds c \<and> rl_windowSeconds c \<le> 3600 \<and>
     list_all (\<lambda>n. 1 \<le> n \<and> n \<le> 1000000) [rl_preAuthIpRequests c, rl_preAuthApiKeyRequests c, rl_principalRequests c,
       rl_organizationRequests c, rl_projectRequests c]"

record admission_identity =
  ai_principalId :: string
  ai_organizationId :: "string option"
  ai_projectId :: "string option"

text \<open>A bucket: scope, identifier and limit.\<close>

record admission_bucket =
  ab_scope :: string
  ab_identifier :: string
  ab_limit :: int

definition preauth_buckets ::
    "(string \<Rightarrow> nat) \<Rightarrow> (string \<Rightarrow> string) \<Rightarrow> rate_limit_config \<Rightarrow> string option \<Rightarrow> string option \<Rightarrow> admission_bucket list" where
  "preauth_buckets ipVersion sha256 c header token =
     (let source = coarseClientIdentity ipVersion header in
      \<lparr>ab_scope = ''preauth_ip'', ab_identifier = source, ab_limit = rl_preAuthIpRequests c\<rparr> #
      (case token of
         None \<Rightarrow> []
       | Some t \<Rightarrow>
           if t = [] then []
           else \<lparr>ab_scope = ''preauth_credential'',
                  ab_identifier = sha256 (''nehemiah-preauth-credential-v1'' @ [CHR 0x00] @ t),
                  ab_limit = rl_preAuthApiKeyRequests c\<rparr> #
                (case apiKeyPublicPrefix t of
                   None \<Rightarrow> []
                 | Some prefix \<Rightarrow> [\<lparr>ab_scope = ''preauth_api_key'', ab_identifier = source @ [CHR 0x00] @ prefix,
                     ab_limit = rl_preAuthApiKeyRequests c\<rparr>])))"

definition nonempty :: "string option \<Rightarrow> string list" where
  "nonempty v = (case v of None \<Rightarrow> [] | Some s \<Rightarrow> if s = [] then [] else [s])"

definition authenticated_buckets :: "rate_limit_config \<Rightarrow> admission_identity \<Rightarrow> admission_bucket list" where
  "authenticated_buckets c x =
     \<lparr>ab_scope = ''principal'', ab_identifier = ai_principalId x, ab_limit = rl_principalRequests c\<rparr> #
     map (\<lambda>i. \<lparr>ab_scope = ''organization'', ab_identifier = i, ab_limit = rl_organizationRequests c\<rparr>) (nonempty (ai_organizationId x)) @
     map (\<lambda>i. \<lparr>ab_scope = ''project'', ab_identifier = i, ab_limit = rl_projectRequests c\<rparr>) (nonempty (ai_projectId x))"

text \<open>
  The two calls, \<open>preAuthenticate\<close> with the client address header and the bearer token, and
  \<open>authenticate\<close> with the principal.
\<close>

datatype api_request =
    PreAuthenticate "string option" "string option"
  | Authenticate admission_identity

record admission_env =
  ae_isIP :: "string \<Rightarrow> nat"
  ae_sha256 :: "string \<Rightarrow> string"
  ae_localeCompare :: "string \<Rightarrow> string \<Rightarrow> int"

fun admission_buckets :: "admission_env \<Rightarrow> rate_limit_config \<Rightarrow> api_request \<Rightarrow> admission_bucket list" where
  "admission_buckets e c (PreAuthenticate header token) = preauth_buckets (ae_isIP e) (ae_sha256 e) c header token"
| "admission_buckets e c (Authenticate x) = authenticated_buckets c x"

definition bucket_cmp :: "(string \<Rightarrow> string \<Rightarrow> int) \<Rightarrow> admission_bucket \<Rightarrow> admission_bucket \<Rightarrow> int" where
  "bucket_cmp localeCompare x y =
     (let d = localeCompare (ab_scope x) (ab_scope y) in
      if d \<noteq> 0 then d else localeCompare (ab_identifier x) (ab_identifier y))"

definition slotted :: "(string \<Rightarrow> string) \<Rightarrow> admission_bucket \<Rightarrow> bucket" where
  "slotted sha256 x = \<lparr>bk_scope = ab_scope x, bk_slot = slotFor sha256 (ab_scope x) (ab_identifier x), bk_limit = ab_limit x\<rparr>"

text \<open>
  How a statement can go: the database answers, it never runs it, or it runs it and the answer is
  lost.
\<close>

datatype db_outcome = Answered | NotRun | AnswerLost

datatype admission_result = Admitted | ApiRateLimitExceeded int | ApiAdmissionUnavailable

definition consume ::
    "admission_env \<Rightarrow> rate_limit_config \<Rightarrow> admission_bucket list \<Rightarrow> db_outcome \<Rightarrow> time \<Rightarrow> window_row list \<Rightarrow>
     admission_result \<times> window_row list" where
  "consume e c buckets outcome now rows =
     (if \<not> rl_enabled c then (Admitted, rows)
      else let ordered = sort_by (bucket_cmp (ae_localeCompare e)) buckets;
               (allowed, retry, rows') = charge_windows (rl_windowSeconds c) (map (slotted (ae_sha256 e)) ordered) now rows;
               failed = (if rl_failClosed c then ApiAdmissionUnavailable else Admitted) in
           (case outcome of
              NotRun \<Rightarrow> (failed, rows)
            | AnswerLost \<Rightarrow> (failed, rows')
            | Answered \<Rightarrow> (if allowed then Admitted else ApiRateLimitExceeded (bounded_retry (rl_windowSeconds c) retry), rows')))"

definition api_admission ::
    "admission_env \<Rightarrow> rate_limit_config \<Rightarrow> api_request \<times> db_outcome \<Rightarrow> time \<Rightarrow> window_row list \<Rightarrow> admission_result \<times> window_row list" where
  "api_admission e c r now rows = consume e c (admission_buckets e c (fst r)) (snd r) now rows"

section \<open>Host credential admission\<close>

record slot =
  sl_window :: int
  sl_count :: int

record host_admission =
  ha_slots :: "slot list"
  ha_mask :: int
  ha_requestsPerSecond :: int
  ha_maximumConcurrentVerifications :: int
  ha_activeVerifications :: int

text \<open>\<open>slots & (slots - 1)\<close> is zero for the powers of two in the range.\<close>

definition slot_counts :: "int list" where
  "slot_counts = map (\<lambda>i. 2 ^ i) [10 ..< 21]"

definition HostCredentialAdmission :: "js_number option \<Rightarrow> js_number option \<Rightarrow> js_number option \<Rightarrow> string + host_admission" where
  "HostCredentialAdmission slots rate concurrency =
     (let slots = (case slots of None \<Rightarrow> JSInt 65536 | Some n \<Rightarrow> n);
          rate = (case rate of None \<Rightarrow> JSInt 8 | Some n \<Rightarrow> n);
          concurrency = (case concurrency of None \<Rightarrow> JSInt 4 | Some n \<Rightarrow> n) in
      if \<not> isSafeInteger slots \<or> js_int slots \<notin> set slot_counts
      then Inl ''host credential admission slots must be a power of two from 1024 to 1048576''
      else if \<not> isSafeInteger rate \<or> js_int rate < 1 \<or> js_int rate > 1000
      then Inl ''host credential requests per second must be from 1 to 1000''
      else if \<not> isSafeInteger concurrency \<or> js_int concurrency < 1 \<or> js_int concurrency > 64
      then Inl ''host credential verifier concurrency must be from 1 to 64''
      else Inr \<lparr>ha_slots = replicate (nat (js_int slots)) \<lparr>sl_window = -1, sl_count = 0\<rparr>, ha_mask = js_int slots - 1,
        ha_requestsPerSecond = js_int rate, ha_maximumConcurrentVerifications = js_int concurrency,
        ha_activeVerifications = 0\<rparr>)"

text \<open>\<open>readUInt32BE(0) & mask\<close>: the mask is a power of two less one.\<close>

definition slot_index :: "(string \<Rightarrow> string) \<Rightarrow> int \<Rightarrow> string option \<times> string \<Rightarrow> nat" where
  "slot_index sha256 slotMask r =
     (case r of (remote, hostId) \<Rightarrow>
        nat (readUInt32BE (sha256 (take 128 (case remote of None \<Rightarrow> ''unknown'' | Some s \<Rightarrow> s) @ [CHR 0x00] @ take 128 hostId)) mod (slotMask + 1)))"

datatype verify_result = VerifyStarted | HostCredentialRateLimitExceeded int | HostCredentialVerifierBusy

definition hit_slot :: "int \<Rightarrow> slot \<Rightarrow> slot" where
  "hit_slot window x =
     (if sl_window x \<noteq> window then \<lparr>sl_window = window, sl_count = 1\<rparr> else x\<lparr>sl_count := sl_count x + 1\<rparr>)"

text \<open>\<open>verify\<close> up to the call of the operation, and what follows when the operation has settled.\<close>

definition verify_start :: "(string \<Rightarrow> string) \<Rightarrow> string option \<times> string \<Rightarrow> time \<Rightarrow> host_admission \<Rightarrow> verify_result \<times> host_admission" where
  "verify_start sha256 r now s =
     (let window = now div 1000; i = slot_index sha256 (ha_mask s) r;
          x = hit_slot window (ha_slots s ! i); s1 = s\<lparr>ha_slots := (ha_slots s)[i := x]\<rparr> in
      if sl_count x > ha_requestsPerSecond s
      then (HostCredentialRateLimitExceeded (max 1 (ceil_div ((window + 1) * 1000 - now) 1000)), s1)
      else if ha_activeVerifications s \<ge> ha_maximumConcurrentVerifications s then (HostCredentialVerifierBusy, s1)
      else (VerifyStarted, s1\<lparr>ha_activeVerifications := ha_activeVerifications s + 1\<rparr>))"

definition verify_finish :: "host_admission \<Rightarrow> host_admission" where
  "verify_finish s = s\<lparr>ha_activeVerifications := ha_activeVerifications s - 1\<rparr>"

section \<open>REST windows keep the contract\<close>

definition scope_limit :: "rate_limit_config \<Rightarrow> string \<Rightarrow> int" where
  "scope_limit c scope =
     (if scope = ''preauth_ip'' then rl_preAuthIpRequests c
      else if scope = ''preauth_credential'' \<or> scope = ''preauth_api_key'' then rl_preAuthApiKeyRequests c
      else if scope = ''principal'' then rl_principalRequests c
      else if scope = ''organization'' then rl_organizationRequests c
      else rl_projectRequests c)"

text \<open>The identities a request is counted for, and the buckets it charges.\<close>

definition api_identities :: "admission_env \<Rightarrow> rate_limit_config \<Rightarrow> api_request \<times> db_outcome \<Rightarrow> (string \<times> string) list" where
  "api_identities e c r = map (\<lambda>x. (ab_scope x, ab_identifier x)) (admission_buckets e c (fst r))"

definition api_keys_of :: "admission_env \<Rightarrow> rate_limit_config \<Rightarrow> api_request \<times> db_outcome \<Rightarrow> (string \<times> int) list" where
  "api_keys_of e c r =
     (if snd r = NotRun then [] else map (\<lambda>x. bucket_key (slotted (ae_sha256 e) x)) (admission_buckets e c (fst r)))"

definition api_hit :: "admission_env \<Rightarrow> rate_limit_config \<Rightarrow> api_request \<times> db_outcome \<Rightarrow> time \<Rightarrow> window_row list \<Rightarrow> bool \<times> window_row list" where
  "api_hit e c r now rows = (case api_admission e c r now rows of (result, rows') \<Rightarrow> (result = Admitted, rows'))"

definition windows_ok :: "window_row list \<Rightarrow> bool" where
  "windows_ok rows \<longleftrightarrow> list_all (\<lambda>x. 1 \<le> ww_request_count x) rows"

lemma charge_ok: "windows_ok rows \<Longrightarrow> windows_ok (charge started b rows)"
  by (auto simp: windows_ok_def charge_def charged_row_def list_all_iff maximumStoredCount_def elim!: sql_updateE)

lemma fold_charge_ok: "windows_ok rows \<Longrightarrow> windows_ok (fold (charge started) bs rows)"
  by (induction bs arbitrary: rows) (simp_all add: charge_ok)

lemma windows_ok_count: "windows_ok rows \<Longrightarrow> count_of rows k = Some (w, n) \<Longrightarrow> 0 \<le> n"
  by (auto simp: windows_ok_def count_of_def list_all_iff dest!: find_SomeD)

lemma buckets_scopes:
  "distinct (map ab_scope (admission_buckets e c r)) \<and>
   list_all (\<lambda>x. ab_limit x = scope_limit c (ab_scope x)) (admission_buckets e c r)"
  by (cases r) (auto simp: preauth_buckets_def authenticated_buckets_def nonempty_def scope_limit_def Let_def split: option.splits)

lemma buckets_limit: "x \<in> set (admission_buckets e c r) \<Longrightarrow> ab_limit x = scope_limit c (ab_scope x)"
  using buckets_scopes [of e c r] by (auto simp: list_all_iff)

lemma distinct_slotted:
  assumes "distinct (map ab_scope xs)"
  shows "distinct (map bucket_key (map (slotted h) xs))"
proof -
  have "map ab_scope xs = map fst (map bucket_key (map (slotted h) xs))" by (simp add: bucket_key_def slotted_def)
  with assms show ?thesis by (metis distinct_map)
qed

text \<open>The buckets as the statement has them: sorted, and with their slots.\<close>

definition charged_buckets :: "admission_env \<Rightarrow> rate_limit_config \<Rightarrow> api_request \<Rightarrow> bucket list" where
  "charged_buckets e c r = map (slotted (ae_sha256 e)) (sort_by (bucket_cmp (ae_localeCompare e)) (admission_buckets e c r))"

lemma distinct_sort_insert: "distinct (map f (sort_insert cmp x xs)) \<longleftrightarrow> f x \<notin> f ` set xs \<and> distinct (map f xs)"
  by (induction xs) (auto simp: set_sort_insert)

lemma distinct_map_sort_by: "distinct (map f (sort_by cmp xs)) = distinct (map f xs)"
proof (induction xs)
  case (Cons x xs)
  have "sort_by cmp (x # xs) = sort_insert cmp x (sort_by cmp xs)" by (simp add: sort_by_def)
  with Cons show ?case by (simp add: distinct_sort_insert)
qed (simp add: sort_by_def)

lemma charged_buckets_distinct: "distinct (map bucket_key (charged_buckets e c r))"
  unfolding charged_buckets_def by (rule distinct_slotted) (use buckets_scopes [of e c r] in \<open>simp add: distinct_map_sort_by\<close>)

lemma charged_buckets_set: "set (charged_buckets e c r) = slotted (ae_sha256 e) ` set (admission_buckets e c r)"
  by (simp add: charged_buckets_def)

lemma charged_buckets_keys:
  "snd r \<noteq> NotRun \<Longrightarrow> set (api_keys_of e c r) = bucket_key ` set (charged_buckets e c (fst r))"
  by (auto simp: api_keys_of_def charged_buckets_set)

lemma charged_buckets_limit:
  assumes "b \<in> set (charged_buckets e c r)"
  shows "bk_limit b = scope_limit c (fst (bucket_key b))"
proof -
  from assms obtain x where "x \<in> set (admission_buckets e c r)" and "b = slotted (ae_sha256 e) x"
    by (auto simp: charged_buckets_set)
  with buckets_limit show ?thesis by (auto simp: slotted_def bucket_key_def)
qed

lemma api_hit_rows:
  assumes "rl_enabled c"
  shows "snd (api_hit e c r now rows) =
    (if snd r = NotRun then rows else fold (charge (window_start (rl_windowSeconds c) now)) (charged_buckets e c (fst r)) rows)"
  using assms by (cases "snd r") (auto simp: api_hit_def api_admission_def consume_def charge_windows_def charged_buckets_def Let_def)

lemma api_hit_admitted:
  assumes "rl_enabled c" and "rl_failClosed c" and "fst (api_hit e c r now rows)"
  shows "snd r = Answered" "\<forall>b\<in>set (charged_buckets e c (fst r)). \<not> exceeded (snd (api_hit e c r now rows)) b"
  using assms by (cases "snd r"; auto simp: api_hit_def api_admission_def consume_def charge_windows_def charged_buckets_def
    Let_def list_all_iff split: if_splits)+

lemma api_count:
  assumes "rl_enabled c" and "k \<in> set (api_keys_of e c r)"
  shows "count_of (snd (api_hit e c r now rows)) k = Some (case count_of rows k of
      None \<Rightarrow> (window_start (rl_windowSeconds c) now, 1)
    | Some (w, n) \<Rightarrow> (max w (window_start (rl_windowSeconds c) now),
        if window_start (rl_windowSeconds c) now > w then 1 else min (n + 1) maximumStoredCount))"
proof -
  from assms(2) have run: "snd r \<noteq> NotRun" by (auto simp: api_keys_of_def split: if_splits)
  with assms(2) charged_buckets_keys [OF run, of e c] obtain b where "b \<in> set (charged_buckets e c (fst r))" and "k = bucket_key b"
    by auto
  with count_fold [OF charged_buckets_distinct] run show ?thesis by (simp add: api_hit_rows [OF assms(1)])
qed

lemma scope_limit_bounds: "rate_limit_config_ok c \<Longrightarrow> 1 \<le> scope_limit c scope \<and> scope_limit c scope \<le> 1000000"
  by (simp add: rate_limit_config_ok_def scope_limit_def)

lemma api_fixed_window:
  assumes c: "rate_limit_config_ok c" and on: "rl_enabled c" and closed: "rl_failClosed c"
  shows "fixed_window (api_hit e c) (\<lambda>r now s. api_keys_of e c r) (window_start (rl_windowSeconds c)) count_of (\<lambda>k. scope_limit c (fst k)) windows_ok"
proof
  fix s :: "window_row list" and r now
  assume "windows_ok s"
  then show "windows_ok (snd (api_hit e c r now s))" by (simp add: api_hit_rows [OF on] fold_charge_ok)
next
  fix s :: "window_row list" and k r now
  assume "k \<in> set (api_keys_of e c r)" and "count_of s k = None"
  with api_count [OF on] show "count_of (snd (api_hit e c r now s)) k = Some (window_start (rl_windowSeconds c) now, 1)" by simp
next
  fix s :: "window_row list" and k r w n now
  assume "k \<in> set (api_keys_of e c r)" and "count_of s k = Some (w, n)" and "w < window_start (rl_windowSeconds c) now"
  with api_count [OF on] show "count_of (snd (api_hit e c r now s)) k = Some (window_start (rl_windowSeconds c) now, 1)" by simp
next
  fix s :: "window_row list" and k r n now
  assume "k \<in> set (api_keys_of e c r)" and "count_of s k = Some (window_start (rl_windowSeconds c) now, n)"
  with api_count [OF on] scope_limit_bounds [OF c, of "fst k"]
  show "\<exists>n'. count_of (snd (api_hit e c r now s)) k = Some (window_start (rl_windowSeconds c) now, n') \<and>
      (n' = n + 1 \<or> scope_limit c (fst k) < n')"
    by (auto simp: maximumStoredCount_def min_def)
next
  fix s :: "window_row list" and k r now
  assume "k \<notin> set (api_keys_of e c r)"
  then show "count_of (snd (api_hit e c r now s)) k = count_of s k"
    using charged_buckets_keys [of r e c] by (auto simp: api_hit_rows [OF on] count_fold_other)
next
  fix s :: "window_row list" and r now k w n
  assume a: "fst (api_hit e c r now s)" and k: "k \<in> set (api_keys_of e c r)"
    and n: "count_of (snd (api_hit e c r now s)) k = Some (w, n)"
  note h = api_hit_admitted [OF on closed a]
  with k charged_buckets_keys [of r e c] obtain b where b: "b \<in> set (charged_buckets e c (fst r))" and "k = bucket_key b" by auto
  with n h(2) show "n \<le> scope_limit c (fst k)"
    by (auto simp: exceeded_count charged_buckets_limit [OF b])
next
  fix t t' :: time
  assume "t \<le> t'"
  with c show "window_start (rl_windowSeconds c) t \<le> window_start (rl_windowSeconds c) t'"
    by (simp add: window_start_mono rate_limit_config_ok_def)
next
  show "0 \<le> scope_limit c (fst k)" for k :: "string \<times> int" using scope_limit_bounds [OF c, of "fst k"] by simp
qed (rule windows_ok_count)

text \<open>The defaults of \<open>loadApiRateLimit\<close>.\<close>

definition default_rate_limit :: rate_limit_config where
  "default_rate_limit = \<lparr>rl_enabled = True, rl_windowSeconds = 60, rl_preAuthIpRequests = 300, rl_preAuthApiKeyRequests = 60,
     rl_principalRequests = 600, rl_organizationRequests = 12000, rl_projectRequests = 3000, rl_failClosed = True\<rparr>"

interpretation rest: fixed_window "api_hit e default_rate_limit" "\<lambda>r now s. api_keys_of e default_rate_limit r"
    "window_start (rl_windowSeconds default_rate_limit)" count_of "\<lambda>k. scope_limit default_rate_limit (fst k)" windows_ok for e
  by (rule api_fixed_window) (simp_all add: rate_limit_config_ok_def default_rate_limit_def)

lemma not_ahead:
  assumes "\<forall>x\<in>set rows. \<forall>(r, now)\<in>set rs. ww_window_started_at x \<le> window now"
  shows "\<forall>(r, now)\<in>set rs. case count_of rows k of None \<Rightarrow> True | Some (w', n) \<Rightarrow> w' \<le> window now"
  using assms by (fastforce simp: count_of_def dest: find_SomeD split: option.splits)

text \<open>C26: Whatever clients send and however the statements of admission fail, REST admission (switched on
  and failing closed, as production requires) lets at most the configured number of requests through
  for each client network, credential, principal, organization and project in each window. Requests
  come in the order of their times and the table has no window of a later time.
\<close>

theorem api_window_bounded:
  assumes "rate_limit_config_ok c" and "rl_enabled c" and "rl_failClosed c"
    and "windows_ok rows" and "sorted (map snd rs)"
    and "\<forall>x\<in>set rows. \<forall>(r, now)\<in>set rs. ww_window_started_at x \<le> window_start (rl_windowSeconds c) now"
  shows "admissions (api_hit e c) (\<lambda>r now s. api_identities e c r) (window_start (rl_windowSeconds c)) (scope, identifier) w rs rows
    \<le> scope_limit c scope"
proof -
  let ?k = "(scope, slotFor (ae_sha256 e) scope identifier)"
  have "admissions (api_hit e c) (\<lambda>r now s. api_identities e c r) (window_start (rl_windowSeconds c)) (scope, identifier) w rs rows
      \<le> admissions (api_hit e c) (\<lambda>r now s. api_keys_of e c r) (window_start (rl_windowSeconds c)) ?k w rs rows"
  proof (rule admissions_le)
    fix r now s
    assume "fst (api_hit e c r now s)" and "(scope, identifier) \<in> set (api_identities e c r)"
    with api_hit_admitted(1) [OF assms(2,3)] show "?k \<in> set (api_keys_of e c r)"
      by (fastforce simp: api_identities_def api_keys_of_def slotted_def bucket_key_def image_iff)
  qed
  also have "\<dots> \<le> scope_limit c (fst ?k)"
    by (rule fixed_window.within_limit [OF api_fixed_window [OF assms(1-3)] assms(4,5) not_ahead [OF assms(6)]])
  finally show ?thesis by simp
qed

section \<open>Host slots keep the contract\<close>

text \<open>
  What happens to the verifier: a request starts, or one of the verifications that run settles.
\<close>

datatype verify_event = VerifyStart "string option" string | VerifySettled

fun verify_step :: "(string \<Rightarrow> string) \<Rightarrow> verify_event \<Rightarrow> time \<Rightarrow> host_admission \<Rightarrow> bool \<times> host_admission" where
  "verify_step sha256 (VerifyStart remote hostId) now s =
     (case verify_start sha256 (remote, hostId) now s of (result, s') \<Rightarrow> (result = VerifyStarted, s'))"
| "verify_step sha256 VerifySettled now s = (False, if ha_activeVerifications s > 0 then verify_finish s else s)"

fun verify_run :: "(string \<Rightarrow> string) \<Rightarrow> (verify_event \<times> time) list \<Rightarrow> host_admission \<Rightarrow> host_admission" where
  "verify_run sha256 [] s = s"
| "verify_run sha256 ((x, now) # xs) s = verify_run sha256 xs (snd (verify_step sha256 x now s))"

fun verify_slots :: "(string \<Rightarrow> string) \<Rightarrow> int \<Rightarrow> verify_event \<Rightarrow> nat list" where
  "verify_slots sha256 m (VerifyStart remote hostId) = [slot_index sha256 m (remote, hostId)]"
| "verify_slots sha256 m VerifySettled = []"

definition slot_count :: "host_admission \<Rightarrow> nat \<Rightarrow> (time \<times> int) option" where
  "slot_count s i = (if i < length (ha_slots s) then Some (sl_window (ha_slots s ! i), sl_count (ha_slots s ! i)) else None)"

definition host_admission_ok :: "int \<Rightarrow> int \<Rightarrow> host_admission \<Rightarrow> bool" where
  "host_admission_ok m rate s \<longleftrightarrow> 0 \<le> m \<and> ha_mask s = m \<and> ha_requestsPerSecond s = rate \<and>
     length (ha_slots s) = nat (m + 1) \<and> list_all (\<lambda>x. 0 \<le> sl_count x) (ha_slots s) \<and>
     0 \<le> ha_activeVerifications s \<and> ha_activeVerifications s \<le> ha_maximumConcurrentVerifications s"

lemma slot_index_less: "0 \<le> m \<Longrightarrow> slot_index sha256 m r < nat (m + 1)"
  using pos_mod_bound [of "m + 1"] by (cases r) (simp add: slot_index_def zless_nat_eq_int_zless nat_less_eq_zless)

text \<open>What a start does to the verifier, whatever its answer.\<close>

lemma verify_start_state:
  assumes "verify_start sha256 r now s = (result, s')"
  shows "ha_slots s' = (ha_slots s)[slot_index sha256 (ha_mask s) r :=
      hit_slot (now div 1000) (ha_slots s ! slot_index sha256 (ha_mask s) r)]"
    and "ha_mask s' = ha_mask s" "ha_requestsPerSecond s' = ha_requestsPerSecond s"
    and "ha_maximumConcurrentVerifications s' = ha_maximumConcurrentVerifications s"
    and "ha_activeVerifications s' = ha_activeVerifications s + (if result = VerifyStarted then 1 else 0)"
    and "result = VerifyStarted \<Longrightarrow> ha_activeVerifications s < ha_maximumConcurrentVerifications s"
    and "result = VerifyStarted \<Longrightarrow>
      sl_count (hit_slot (now div 1000) (ha_slots s ! slot_index sha256 (ha_mask s) r)) \<le> ha_requestsPerSecond s"
  using assms by (auto simp: verify_start_def Let_def split: if_splits)

lemma hit_slot_count: "0 \<le> sl_count x \<Longrightarrow> 0 \<le> sl_count (hit_slot w x)"
  by (simp add: hit_slot_def)

lemma verify_step_ok:
  assumes "host_admission_ok m rate s"
  shows "host_admission_ok m rate (snd (verify_step sha256 x now s))"
proof (cases x)
  case (VerifyStart remote hostId)
  obtain result s' where v: "verify_start sha256 (remote, hostId) now s = (result, s')" by fastforce
  have "slot_index sha256 (ha_mask s) (remote, hostId) < length (ha_slots s)"
    using assms slot_index_less [of m] by (simp add: host_admission_ok_def)
  with assms have "list_all (\<lambda>x. 0 \<le> sl_count x) (ha_slots s')"
    unfolding verify_start_state(1) [OF v] by (auto simp: host_admission_ok_def list_all_length nth_list_update hit_slot_count)
  with assms verify_start_state [OF v] show ?thesis by (auto simp: VerifyStart v host_admission_ok_def)
qed (use assms in \<open>auto simp: host_admission_ok_def verify_finish_def\<close>)

lemma verify_run_ok: "host_admission_ok m rate s \<Longrightarrow> host_admission_ok m rate (verify_run sha256 xs s)"
  by (induction sha256 xs s rule: verify_run.induct) (simp_all add: verify_step_ok)

lemma verify_step_count:
  assumes "host_admission_ok m rate s"
  shows "slot_count (snd (verify_step sha256 x now s)) k = (if k \<in> set (verify_slots sha256 m x)
    then Some (now div 1000, case slot_count s k of None \<Rightarrow> 1 | Some (w, n) \<Rightarrow> if w \<noteq> now div 1000 then 1 else n + 1)
    else slot_count s k)"
proof (cases x)
  case (VerifyStart remote hostId)
  obtain result s' where v: "verify_start sha256 (remote, hostId) now s = (result, s')" by fastforce
  from assms slot_index_less [of m sha256 "(remote, hostId)"] show ?thesis
    by (auto simp: VerifyStart v slot_count_def verify_start_state(1) [OF v] host_admission_ok_def hit_slot_def)
qed (simp add: slot_count_def verify_finish_def)

lemma host_fixed_window:
  assumes "1 \<le> rate"
  shows "fixed_window (verify_step sha256) (\<lambda>r now s. verify_slots sha256 m r) (\<lambda>now. now div 1000) slot_count (\<lambda>k. rate) (host_admission_ok m rate)"
proof
  fix s r now
  assume "host_admission_ok m rate s"
  then show "host_admission_ok m rate (snd (verify_step sha256 r now s))" by (rule verify_step_ok)
next
  fix s k r now
  assume "host_admission_ok m rate s" and "k \<in> set (verify_slots sha256 m r)" and "slot_count s k = None"
  then show "slot_count (snd (verify_step sha256 r now s)) k = Some (now div 1000, 1)" by (simp add: verify_step_count)
next
  fix s k r w n now
  assume "host_admission_ok m rate s" and "k \<in> set (verify_slots sha256 m r)" and "slot_count s k = Some (w, n)" and "w < now div 1000"
  then show "slot_count (snd (verify_step sha256 r now s)) k = Some (now div 1000, 1)" by (simp add: verify_step_count)
next
  fix s k r n now
  assume "host_admission_ok m rate s" and "k \<in> set (verify_slots sha256 m r)" and "slot_count s k = Some (now div 1000, n)"
  then show "\<exists>n'. slot_count (snd (verify_step sha256 r now s)) k = Some (now div 1000, n') \<and> (n' = n + 1 \<or> rate < n')"
    by (simp add: verify_step_count)
next
  fix s k r now
  assume "host_admission_ok m rate s" and "k \<notin> set (verify_slots sha256 m r)"
  then show "slot_count (snd (verify_step sha256 r now s)) k = slot_count s k" by (simp add: verify_step_count)
next
  fix s r now k w n
  assume ok: "host_admission_ok m rate s" and a: "fst (verify_step sha256 r now s)" and k: "k \<in> set (verify_slots sha256 m r)"
    and n: "slot_count (snd (verify_step sha256 r now s)) k = Some (w, n)"
  then obtain remote hostId where r: "r = VerifyStart remote hostId" by (cases r) auto
  obtain result s' where v: "verify_start sha256 (remote, hostId) now s = (result, s')" by fastforce
  from a k have "result = VerifyStarted" "k = slot_index sha256 m (remote, hostId)" by (simp_all add: r v)
  moreover from this ok slot_index_less [of m sha256 "(remote, hostId)"]
  have "n = sl_count (hit_slot (now div 1000) (ha_slots s ! k))"
    using n by (simp add: r v slot_count_def verify_start_state(1) [OF v] host_admission_ok_def)
  ultimately show "n \<le> rate" using verify_start_state(7) [OF v] ok by (simp add: host_admission_ok_def)
next
  fix s k w n
  assume "host_admission_ok m rate s" and "slot_count s k = Some (w, n)"
  then show "0 \<le> n" by (auto simp: host_admission_ok_def slot_count_def list_all_length split: if_splits)
qed (use assms in \<open>simp_all add: zdiv_mono1\<close>)

lemma slot_counts_pos: "n \<in> set slot_counts \<Longrightarrow> 0 < n"
  by (auto simp: slot_counts_def)

lemma HostCredentialAdmission_ok:
  assumes "HostCredentialAdmission slots rate concurrency = Inr s"
  shows "host_admission_ok (ha_mask s) (ha_requestsPerSecond s) s" "1 \<le> ha_requestsPerSecond s" "ha_requestsPerSecond s \<le> 1000"
    "ha_maximumConcurrentVerifications s \<le> 64" "list_all (\<lambda>x. sl_window x = -1) (ha_slots s)"
  using assms slot_counts_pos [of "js_int (case slots of None \<Rightarrow> JSInt 65536 | Some n \<Rightarrow> n)"]
  by (auto simp: HostCredentialAdmission_def Let_def host_admission_ok_def list_all_iff split: if_splits)

text \<open>The verifier with its default bounds: eight requests a second for each of 65536 slots.\<close>

interpretation verifier: fixed_window "verify_step sha256" "\<lambda>r now s. verify_slots sha256 65535 r" "\<lambda>now. now div 1000" slot_count "\<lambda>k. 8"
    "host_admission_ok 65535 8" for sha256
  by (rule host_fixed_window) simp

text \<open>C27: A verifier of host credentials that the constructor accepted never runs more verifications at
  once than its limit of at most 64, and starts at most its requests per second for each pair of
  source address and host, whatever requests arrive and whenever verifications settle.
\<close>

theorem host_verifier_bounded:
  assumes "HostCredentialAdmission slots rate concurrency = Inr s" and "sorted (0 # map snd events)"
  shows "0 \<le> ha_activeVerifications (verify_run sha256 events s) \<and>
    ha_activeVerifications (verify_run sha256 events s) \<le> ha_maximumConcurrentVerifications (verify_run sha256 events s) \<and>
    admissions (verify_step sha256) (\<lambda>x now s. case x of VerifyStart remote hostId \<Rightarrow> [(remote, hostId)] | VerifySettled \<Rightarrow> [])
      (\<lambda>now. now div 1000) (remote, hostId) second events s \<le> ha_requestsPerSecond s"
proof (intro conjI)
  note s = HostCredentialAdmission_ok [OF assms(1)]
  let ?k = "slot_index sha256 (ha_mask s) (remote, hostId)"
  from verify_run_ok [OF s(1)] show "0 \<le> ha_activeVerifications (verify_run sha256 events s)"
    and "ha_activeVerifications (verify_run sha256 events s) \<le> ha_maximumConcurrentVerifications (verify_run sha256 events s)"
    by (simp_all add: host_admission_ok_def)
  have "admissions (verify_step sha256) (\<lambda>x now s. case x of VerifyStart remote hostId \<Rightarrow> [(remote, hostId)] | VerifySettled \<Rightarrow> [])
      (\<lambda>now. now div 1000) (remote, hostId) second events s \<le>
    admissions (verify_step sha256) (\<lambda>r now t. verify_slots sha256 (ha_mask s) r) (\<lambda>now. now div 1000) ?k second events s"
    by (rule admissions_le) (auto split: verify_event.splits)
  also have "\<dots> \<le> ha_requestsPerSecond s"
  proof (rule fixed_window.within_limit [OF host_fixed_window [OF s(2)] s(1)])
    show "sorted (map snd events)" using assms(2) by simp
    show "\<forall>(r, now)\<in>set events. case slot_count s ?k of None \<Rightarrow> True | Some (w, n) \<Rightarrow> w \<le> now div 1000"
      using assms(2) s(5) by (fastforce simp: slot_count_def list_all_length)
  qed
  finally show "admissions (verify_step sha256) (\<lambda>x now s. case x of VerifyStart remote hostId \<Rightarrow> [(remote, hostId)] | VerifySettled \<Rightarrow> [])
      (\<lambda>now. now div 1000) (remote, hostId) second events s \<le> ha_requestsPerSecond s" .
qed

end
