(* ===== verification/Streams.thy ===== *)
theory Streams
  imports Admission Hosts UsageJobs
begin

text \<open>
  \<open>domain/stream-admission.ts\<close>: streams through the gateway and the volume broker. A stream holds a
  lease of fifteen seconds, which counts against the organization's and the project's quota of
  streams and bandwidth and is renewed by acquiring it again; requests for a route are counted in
  windows. The quotas hold at every instant of every run, and the windows keep \<open>fixed_window\<close>.
\<close>

section \<open>The tables\<close>

record gateway_organization =
  go_id :: uuid
  go_max_gateway_streams :: int
  go_max_gateway_bandwidth_bps :: int

record gateway_project =
  gp_id :: uuid
  gp_organization_id :: uuid
  gp_max_gateway_streams :: int
  gp_max_gateway_bandwidth_bps :: int

record lease_row =
  gl_id :: uuid
  gl_organization_id :: uuid
  gl_project_id :: uuid
  gl_authority_kind :: string
  gl_authority_id :: string
  gl_gateway_instance_id :: string
  gl_bandwidth_bytes_per_second :: int
  gl_acquired_at :: time
  gl_heartbeat_at :: time
  gl_expires_at :: time

record gateway =
  gw_organizations :: "gateway_organization list"
  gw_projects :: "gateway_project list"
  gw_leases :: "lease_row list"
  gw_windows :: "window_row list"

datatype stream_error =
    InvalidStreamAdmission string
  | StreamAdmissionRejected string
  | StreamRequestRateExceeded int
  | StreamCheckViolation

section \<open>Requests\<close>

record stream_admission_request =
  sq_id :: string
  sq_organizationId :: string
  sq_projectId :: string
  sq_authorityKind :: string
  sq_authorityId :: string
  sq_instanceId :: string
  sq_bandwidthBytesPerSecond :: js_number

definition identity_char :: "char \<Rightarrow> bool" where
  "identity_char c \<longleftrightarrow> is_alnum c \<or> c \<in> {CHR ''.'', CHR ''_'', CHR '':'', CHR ''-''}"

text \<open>\<open>^[A-Za-z0-9][A-Za-z0-9._:-]{0,n}$\<close>.\<close>

definition identity_ok :: "nat \<Rightarrow> string \<Rightarrow> bool" where
  "identity_ok n s \<longleftrightarrow> s \<noteq> [] \<and> is_alnum (hd s) \<and> length s \<le> n + 1 \<and> list_all identity_char s"

definition validate_stream :: "stream_admission_request \<Rightarrow> stream_error option" where
  "validate_stream r =
     (if \<not> uuid_ok (sq_id r) \<or> \<not> uuid_ok (sq_organizationId r) \<or> \<not> uuid_ok (sq_projectId r)
      then Some (InvalidStreamAdmission ''stream and tenant identities must be UUIDs'')
      else if \<not> identity_ok 127 (sq_instanceId r) \<or> \<not> identity_ok 254 (sq_authorityId r) \<or>
        sq_authorityKind r \<notin> {''machine_capability'', ''volume_capability''} \<or>
        \<not> isSafeInteger (sq_bandwidthBytesPerSecond r) \<or> js_int (sq_bandwidthBytesPerSecond r) < 1 \<or>
        js_int (sq_bandwidthBytesPerSecond r) > 1073741824
      then Some (InvalidStreamAdmission ''stream admission fields are invalid'')
      else None)"

text \<open>A \<open>uuid\<close> parameter: the column has, and prints, the lower-case form.\<close>

abbreviation uuid_of :: "string \<Rightarrow> uuid" where
  "uuid_of s \<equiv> toLowerCase s"

text \<open>Whether a lease is the request's, compared in the database.\<close>

definition exact_lease :: "stream_admission_request \<Rightarrow> lease_row \<Rightarrow> bool" where
  "exact_lease r l \<longleftrightarrow> gl_id l = uuid_of (sq_id r) \<and> gl_organization_id l = uuid_of (sq_organizationId r) \<and>
     gl_project_id l = uuid_of (sq_projectId r) \<and> gl_authority_kind l = sq_authorityKind r \<and>
     gl_authority_id l = sq_authorityId r \<and> gl_gateway_instance_id l = sq_instanceId r \<and>
     gl_bandwidth_bytes_per_second l = js_int (sq_bandwidthBytesPerSecond r)"

text \<open>The same comparison in the program, of the printed columns with the request's text.\<close>

definition same_stream :: "stream_admission_request \<Rightarrow> lease_row \<Rightarrow> bool" where
  "same_stream r l \<longleftrightarrow> gl_organization_id l = sq_organizationId r \<and> gl_project_id l = sq_projectId r \<and>
     gl_authority_kind l = sq_authorityKind r \<and> gl_authority_id l = sq_authorityId r \<and>
     gl_gateway_instance_id l = sq_instanceId r \<and>
     gl_bandwidth_bytes_per_second l = js_int (sq_bandwidthBytesPerSecond r)"

section \<open>Route requests\<close>

record stream_rate_config =
  sc_windowSeconds :: int
  sc_authorityRequests :: int
  sc_projectRequests :: int
  sc_organizationRequests :: int

definition default_request_rate :: stream_rate_config where
  "default_request_rate =
     \<lparr>sc_windowSeconds = 60, sc_authorityRequests = 120, sc_projectRequests = 3000, sc_organizationRequests = 12000\<rparr>"

text \<open>What the constructor of \<open>StreamAdmissionService\<close> accepts.\<close>

definition stream_rate_ok :: "stream_rate_config \<Rightarrow> bool" where
  "stream_rate_ok c \<longleftrightarrow> 10 \<le> sc_windowSeconds c \<and> sc_windowSeconds c \<le> 3600 \<and>
     list_all (\<lambda>n. 1 \<le> n \<and> n \<le> 1000000) [sc_authorityRequests c, sc_projectRequests c, sc_organizationRequests c]"

text \<open>Scope, identifier and limit of each bucket of a route request.\<close>

definition stream_scopes :: "stream_rate_config \<Rightarrow> stream_admission_request \<Rightarrow> admission_bucket list" where
  "stream_scopes c r =
     [\<lparr>ab_scope = ''authority'', ab_identifier = sq_organizationId r @ [CHR 0x00] @ sq_authorityKind r @ [CHR 0x00] @ sq_authorityId r,
        ab_limit = sc_authorityRequests c\<rparr>,
      \<lparr>ab_scope = ''project'', ab_identifier = sq_organizationId r @ [CHR 0x00] @ sq_projectId r, ab_limit = sc_projectRequests c\<rparr>,
      \<lparr>ab_scope = ''organization'', ab_identifier = sq_organizationId r, ab_limit = sc_organizationRequests c\<rparr>]"

definition exact_active_lease :: "stream_admission_request \<Rightarrow> time \<Rightarrow> gateway \<Rightarrow> bool" where
  "exact_active_lease r now s = list_ex (\<lambda>l. exact_lease r l \<and> gl_expires_at l > now) (gw_leases s)"

definition admitRouteRequest ::
    "(string \<Rightarrow> string) \<Rightarrow> stream_rate_config \<Rightarrow> stream_admission_request \<Rightarrow> time \<Rightarrow> gateway \<Rightarrow> stream_error option \<times> gateway" where
  "admitRouteRequest sha256 c r now s =
     (case validate_stream r of
        Some e \<Rightarrow> (Some e, s)
      | None \<Rightarrow>
          if exact_active_lease r now s then (None, s)
          else (case charge_windows (sc_windowSeconds c) (map (slotted sha256) (stream_scopes c r)) now (gw_windows s) of
                  (allowed, retry, rows) \<Rightarrow>
                    (if allowed then None else Some (StreamRequestRateExceeded (bounded_retry (sc_windowSeconds c) retry)),
                     s\<lparr>gw_windows := rows\<rparr>)))"

section \<open>Leases\<close>

definition leaseSeconds :: int where "leaseSeconds = 15"

record stream_lease =
  sz_id :: uuid
  sz_bandwidthBytesPerSecond :: int
  sz_expiresAt :: time

text \<open>The leases a quota counts at an instant: of the organization, and of a project in it.\<close>

definition organization_leases :: "uuid \<Rightarrow> time \<Rightarrow> gateway \<Rightarrow> lease_row list" where
  "organization_leases org now s = filter (\<lambda>l. gl_organization_id l = org \<and> gl_expires_at l > now) (gw_leases s)"

definition project_leases :: "uuid \<Rightarrow> uuid \<Rightarrow> time \<Rightarrow> gateway \<Rightarrow> lease_row list" where
  "project_leases org project now s = filter (\<lambda>l. gl_project_id l = project) (organization_leases org now s)"

definition bandwidth :: "lease_row list \<Rightarrow> int" where
  "bandwidth ls = sum_list (map gl_bandwidth_bytes_per_second ls)"

definition drop_expired :: "uuid \<Rightarrow> time \<Rightarrow> gateway \<Rightarrow> gateway" where
  "drop_expired org now s = s\<lparr>gw_leases := filter (\<lambda>l. \<not> (gl_organization_id l = org \<and> gl_expires_at l \<le> now)) (gw_leases s)\<rparr>"

definition new_lease :: "stream_admission_request \<Rightarrow> time \<Rightarrow> lease_row" where
  "new_lease r now =
     \<lparr>gl_id = uuid_of (sq_id r), gl_organization_id = uuid_of (sq_organizationId r), gl_project_id = uuid_of (sq_projectId r),
      gl_authority_kind = sq_authorityKind r, gl_authority_id = sq_authorityId r, gl_gateway_instance_id = sq_instanceId r,
      gl_bandwidth_bytes_per_second = js_int (sq_bandwidthBytesPerSecond r), gl_acquired_at = now, gl_heartbeat_at = now,
      gl_expires_at = now + seconds leaseSeconds\<rparr>"

definition renewed_lease :: "time \<Rightarrow> lease_row \<Rightarrow> lease_row" where
  "renewed_lease now l = l\<lparr>gl_heartbeat_at := now, gl_expires_at := now + seconds leaseSeconds\<rparr>"

text \<open>
  \<open>INSERT ... ON CONFLICT (id) DO UPDATE ... WHERE\<close>: the row it returns, if it wrote one, and the
  constraint \<open>expires_at > acquired_at\<close>.
\<close>

definition upsert_lease :: "stream_admission_request \<Rightarrow> time \<Rightarrow> gateway \<Rightarrow> stream_error + lease_row option \<times> gateway" where
  "upsert_lease r now s =
     (case find (\<lambda>l. gl_id l = uuid_of (sq_id r)) (gw_leases s) of
        None \<Rightarrow> Inr (Some (new_lease r now), s\<lparr>gw_leases := gw_leases s @ [new_lease r now]\<rparr>)
      | Some l \<Rightarrow>
          if \<not> exact_lease r l then Inr (None, s)
          else if gl_expires_at (renewed_lease now l) \<le> gl_acquired_at l then Inl StreamCheckViolation
          else Inr (Some (renewed_lease now l),
            s\<lparr>gw_leases := sql_update (\<lambda>l. gl_id l = uuid_of (sq_id r)) (renewed_lease now) (gw_leases s)\<rparr>))"

definition stream_quota_exceeded ::
    "gateway_organization \<Rightarrow> gateway_project \<Rightarrow> stream_admission_request \<Rightarrow> bool \<Rightarrow> time \<Rightarrow> gateway \<Rightarrow> bool" where
  "stream_quota_exceeded organizationLimit projectLimit r held now s =
     (let ol = organization_leases (uuid_of (sq_organizationId r)) now s;
          pl = project_leases (uuid_of (sq_organizationId r)) (uuid_of (sq_projectId r)) now s;
          additionalStreams = (if held then 0 else 1);
          additionalBandwidth = (if held then 0 else js_int (sq_bandwidthBytesPerSecond r)) in
      int (length ol) + additionalStreams > go_max_gateway_streams organizationLimit \<or>
      int (length pl) + additionalStreams > gp_max_gateway_streams projectLimit \<or>
      bandwidth ol + additionalBandwidth > go_max_gateway_bandwidth_bps organizationLimit \<or>
      bandwidth pl + additionalBandwidth > gp_max_gateway_bandwidth_bps projectLimit)"

text \<open>
  The transaction; \<open>clock\<close> has the statement timestamps of its \<open>DELETE\<close>, its count and its \<open>INSERT\<close>.
\<close>

definition acquire_stream ::
    "(nat \<Rightarrow> time) \<Rightarrow> stream_admission_request \<Rightarrow> gateway \<Rightarrow> stream_error + stream_lease \<times> gateway" where
  "acquire_stream clock r s =
     (case validate_stream r of
        Some e \<Rightarrow> Inl e
      | None \<Rightarrow>
     (case (find (\<lambda>x. go_id x = uuid_of (sq_organizationId r)) (gw_organizations s),
            find (\<lambda>x. gp_id x = uuid_of (sq_projectId r) \<and> gp_organization_id x = uuid_of (sq_organizationId r)) (gw_projects s)) of
        (Some organizationLimit, Some projectLimit) \<Rightarrow>
          (let s1 = drop_expired (uuid_of (sq_organizationId r)) (clock 0) s;
               current = find (\<lambda>l. gl_id l = uuid_of (sq_id r)) (gw_leases s1) in
           if (case current of None \<Rightarrow> False | Some l \<Rightarrow> \<not> same_stream r l)
           then Inl (InvalidStreamAdmission ''stream id was replayed with a different identity'')
           else if stream_quota_exceeded organizationLimit projectLimit r (current \<noteq> None) (clock 1) s1
           then Inl (StreamAdmissionRejected ''The organization or project stream quota is exhausted.'')
           else (case upsert_lease r (clock 2) s1 of
                   Inl e \<Rightarrow> Inl e
                 | Inr (None, _) \<Rightarrow> Inl (InvalidStreamAdmission ''stream id was replayed with a different identity'')
                 | Inr (Some l, s2) \<Rightarrow>
                     Inr (\<lparr>sz_id = gl_id l, sz_bandwidthBytesPerSecond = gl_bandwidth_bytes_per_second l,
                       sz_expiresAt = gl_expires_at l\<rparr>, s2)))
      | _ \<Rightarrow> Inl (InvalidStreamAdmission ''stream tenant does not exist'')))"

definition release_stream :: "string \<Rightarrow> string \<Rightarrow> gateway \<Rightarrow> stream_error + gateway" where
  "release_stream i instanceId s =
     (if \<not> uuid_ok i \<or> \<not> identity_ok 127 instanceId then Inl (InvalidStreamAdmission ''stream release identity is invalid'')
      else Inr (s\<lparr>gw_leases := filter (\<lambda>l. \<not> (gl_id l = uuid_of i \<and> gl_gateway_instance_id l = instanceId)) (gw_leases s)\<rparr>))"

text \<open>The rows other transactions hold locked are skipped.\<close>

definition reapExpired :: "uuid list \<Rightarrow> js_number \<Rightarrow> time \<Rightarrow> gateway \<Rightarrow> stream_error + int \<times> gateway" where
  "reapExpired locked limit now s =
     (if \<not> isSafeInteger limit \<or> js_int limit < 1 \<or> js_int limit > 10000
      then Inl (InvalidStreamAdmission ''stream reap limit is invalid'')
      else let due = take (nat (js_int limit)) (sort_by (\<lambda>x y. then_cmp (cmp_of (gl_expires_at x) (gl_expires_at y)) (cmp_of (gl_id x) (gl_id y)))
                 (filter (\<lambda>l. gl_expires_at l \<le> now \<and> gl_id l \<notin> set locked) (gw_leases s)));
               gone = (\<lambda>l. gl_id l \<in> gl_id ` set due) in
           Inr (int (length (filter gone (gw_leases s))), s\<lparr>gw_leases := filter (\<lambda>l. \<not> gone l) (gw_leases s)\<rparr>))"

section \<open>Quotas hold at every instant\<close>

text \<open>What the leases in \<open>P\<close> weigh at an instant.\<close>

definition load :: "(lease_row \<Rightarrow> bool) \<Rightarrow> (lease_row \<Rightarrow> int) \<Rightarrow> time \<Rightarrow> lease_row list \<Rightarrow> int" where
  "load P w now ls = sum_list (map w (filter (\<lambda>l. P l \<and> gl_expires_at l > now) ls))"

lemma load_Nil [simp]: "load P w now [] = 0"
  by (simp add: load_def)

lemma load_append [simp]: "load P w now (xs @ ys) = load P w now xs + load P w now ys"
  by (simp add: load_def)

lemma load_Cons [simp]: "load P w now (l # ls) = (if P l \<and> gl_expires_at l > now then w l else 0) + load P w now ls"
  by (simp add: load_def)

lemma load_later: "\<forall>l\<in>set ls. 0 \<le> w l \<Longrightarrow> now \<le> now' \<Longrightarrow> load P w now' ls \<le> load P w now ls"
  by (induction ls) auto

lemma load_filter: "\<forall>l\<in>set ls. 0 \<le> w l \<Longrightarrow> load P w now (filter Q ls) \<le> load P w now ls"
  by (induction ls) auto

lemma load_outside: "\<forall>l\<in>set ls. \<not> P l \<Longrightarrow> load P w now ls = 0"
  by (induction ls) auto

lemma load_renewed:
  assumes "\<forall>l\<in>set ls. 0 \<le> w l" and "\<And>l. P (f l) = P l" and "\<And>l. w (f l) = w l" and "\<forall>l\<in>set ls. P l \<longrightarrow> gl_expires_at l > now"
  shows "load P w now' (sql_update Q f ls) \<le> load P w now ls"
  using assms by (induction ls) auto

lemma load_frame:
  assumes "\<And>l. Q l \<Longrightarrow> \<not> P l \<and> \<not> P (f l)"
  shows "load P w now (sql_update Q f ls) = load P w now ls"
  using assms by (induction ls) auto

definition in_organization :: "uuid \<Rightarrow> lease_row \<Rightarrow> bool" where
  "in_organization org l \<longleftrightarrow> gl_organization_id l = org"

definition in_gateway_project :: "uuid \<Rightarrow> uuid \<Rightarrow> lease_row \<Rightarrow> bool" where
  "in_gateway_project org project l \<longleftrightarrow> gl_organization_id l = org \<and> gl_project_id l = project"

text \<open>The four counters of the quota query.\<close>

lemma organization_load:
  "int (length (organization_leases org now s)) = load (in_organization org) (\<lambda>_. 1) now (gw_leases s)"
  "bandwidth (organization_leases org now s) = load (in_organization org) gl_bandwidth_bytes_per_second now (gw_leases s)"
  by (simp_all add: load_def organization_leases_def in_organization_def bandwidth_def sum_list_triv)

lemma project_leases_filter:
  "project_leases org project now s = filter (\<lambda>l. in_gateway_project org project l \<and> gl_expires_at l > now) (gw_leases s)"
  by (auto simp: project_leases_def organization_leases_def in_gateway_project_def intro: filter_cong)

lemma project_load:
  "int (length (project_leases org project now s)) = load (in_gateway_project org project) (\<lambda>_. 1) now (gw_leases s)"
  "bandwidth (project_leases org project now s) = load (in_gateway_project org project) gl_bandwidth_bytes_per_second now (gw_leases s)"
  by (simp_all add: load_def project_leases_filter bandwidth_def sum_list_triv)

text \<open>
  A quota: which leases it counts, what each weighs, and how much is allowed. It belongs to an
  organization, and renewing a lease changes neither whether nor how much it counts.
\<close>

record quota =
  qt_org :: uuid
  qt_in :: "lease_row \<Rightarrow> bool"
  qt_weight :: "lease_row \<Rightarrow> int"
  qt_max :: int

definition stream_quotas :: "gateway \<Rightarrow> quota list" where
  "stream_quotas s =
     concat (map (\<lambda>o'. [\<lparr>qt_org = go_id o', qt_in = in_organization (go_id o'), qt_weight = (\<lambda>_. 1), qt_max = go_max_gateway_streams o'\<rparr>,
       \<lparr>qt_org = go_id o', qt_in = in_organization (go_id o'), qt_weight = gl_bandwidth_bytes_per_second,
         qt_max = go_max_gateway_bandwidth_bps o'\<rparr>]) (gw_organizations s)) @
     concat (map (\<lambda>p. [\<lparr>qt_org = gp_organization_id p, qt_in = in_gateway_project (gp_organization_id p) (gp_id p),
         qt_weight = (\<lambda>_. 1), qt_max = gp_max_gateway_streams p\<rparr>,
       \<lparr>qt_org = gp_organization_id p, qt_in = in_gateway_project (gp_organization_id p) (gp_id p),
         qt_weight = gl_bandwidth_bytes_per_second, qt_max = gp_max_gateway_bandwidth_bps p\<rparr>]) (gw_projects s))"

definition quota_holds :: "time \<Rightarrow> gateway \<Rightarrow> quota \<Rightarrow> bool" where
  "quota_holds now s q \<longleftrightarrow> load (qt_in q) (qt_weight q) now (gw_leases s) \<le> qt_max q"

text \<open>The tenants are keyed, every lease weighs something, and no quota is exceeded at the instant.\<close>

definition streams_ok :: "time \<Rightarrow> gateway \<Rightarrow> bool" where
  "streams_ok now s \<longleftrightarrow> distinct (map go_id (gw_organizations s)) \<and> distinct (map gp_id (gw_projects s)) \<and>
     (\<forall>l\<in>set (gw_leases s). 1 \<le> gl_bandwidth_bytes_per_second l) \<and> (\<forall>q\<in>set (stream_quotas s). quota_holds now s q)"

lemma quota_weight: "q \<in> set (stream_quotas s) \<Longrightarrow> 1 \<le> gl_bandwidth_bytes_per_second l \<Longrightarrow> 0 \<le> qt_weight q l"
  by (auto simp: stream_quotas_def)

lemma quota_weights: "streams_ok now s \<Longrightarrow> q \<in> set (stream_quotas s) \<Longrightarrow> \<forall>l\<in>set (gw_leases s). 0 \<le> qt_weight q l"
  using quota_weight by (auto simp: streams_ok_def)

lemma quota_renewed: "q \<in> set (stream_quotas s) \<Longrightarrow> qt_in q (renewed_lease now l) = qt_in q l \<and> qt_weight q (renewed_lease now l) = qt_weight q l"
  by (auto simp: stream_quotas_def in_organization_def in_gateway_project_def renewed_lease_def)

lemma quota_inside: "q \<in> set (stream_quotas s) \<Longrightarrow> qt_in q l \<Longrightarrow> gl_organization_id l = qt_org q"
  by (auto simp: stream_quotas_def in_organization_def in_gateway_project_def)

lemma stream_quotas_leases [simp]: "stream_quotas (s\<lparr>gw_leases := ls\<rparr>) = stream_quotas s" "stream_quotas (s\<lparr>gw_windows := ws\<rparr>) = stream_quotas s"
  by (simp_all add: stream_quotas_def)

text \<open>Statements that only drop leases, and the passing of time, keep the quotas.\<close>

lemma streams_ok_drop:
  assumes "streams_ok now s" and "now \<le> now'"
  shows "streams_ok now' (s\<lparr>gw_leases := filter Q (gw_leases s)\<rparr>)"
proof -
  have "quota_holds now' (s\<lparr>gw_leases := filter Q (gw_leases s)\<rparr>) q" if q: "q \<in> set (stream_quotas s)" for q
  proof -
    note w = quota_weights [OF assms(1) q]
    have "load (qt_in q) (qt_weight q) now' (filter Q (gw_leases s)) \<le> load (qt_in q) (qt_weight q) now' (gw_leases s)"
      by (rule load_filter [OF w])
    also have "\<dots> \<le> load (qt_in q) (qt_weight q) now (gw_leases s)" by (rule load_later [OF w assms(2)])
    also have "\<dots> \<le> qt_max q" using assms(1) q by (simp add: streams_ok_def quota_holds_def)
    finally show ?thesis by (simp add: quota_holds_def)
  qed
  with assms show ?thesis by (auto simp: streams_ok_def)
qed

lemma streams_ok_later: "streams_ok now s \<Longrightarrow> now \<le> now' \<Longrightarrow> streams_ok now' s"
  using streams_ok_drop [of now s now' "\<lambda>_. True"] by simp

text \<open>A renewal: the lease was live when the transaction began, so the quotas counted it already.\<close>

lemma acquire_renewal:
  fixes t0 :: time
  assumes ok: "streams_ok (t0) s" and s1: "s1 = drop_expired org (t0) s"
    and l: "l \<in> set (gw_leases s1)" "gl_id l = i" "gl_organization_id l = org"
    and ids: "distinct (map gl_id (gw_leases s))" and "t0 \<le> now"
  shows "streams_ok now (s1\<lparr>gw_leases := sql_update (\<lambda>l. gl_id l = i) (renewed_lease now) (gw_leases s1)\<rparr>)"
proof -
  have ok1: "streams_ok (t0) s1" unfolding s1 drop_expired_def by (rule streams_ok_drop [OF ok order_refl])
  have ids1: "distinct (map gl_id (gw_leases s1))" using ids by (simp add: s1 drop_expired_def distinct_map_filter)
  have only: "x \<in> set (gw_leases s1) \<Longrightarrow> gl_id x = i \<Longrightarrow> x = l" for x
    using ids1 l(1,2) by (metis distinct_map inj_onD)
  have "quota_holds now (s1\<lparr>gw_leases := sql_update (\<lambda>l. gl_id l = i) (renewed_lease now) (gw_leases s1)\<rparr>) q"
    if q: "q \<in> set (stream_quotas s1)" for q
  proof (cases "qt_org q = org")
    case True
    have "\<forall>x\<in>set (gw_leases s1). qt_in q x \<longrightarrow> gl_expires_at x > t0"
      using quota_inside [OF q] True by (auto simp: s1 drop_expired_def)
    then have "load (qt_in q) (qt_weight q) now (sql_update (\<lambda>l. gl_id l = i) (renewed_lease now) (gw_leases s1)) \<le>
        load (qt_in q) (qt_weight q) (t0) (gw_leases s1)"
      by (intro load_renewed quota_weights [OF ok1 q]) (simp_all add: quota_renewed [OF q])
    with ok1 q show ?thesis by (auto simp: streams_ok_def quota_holds_def)
  next
    case False
    have "load (qt_in q) (qt_weight q) now (sql_update (\<lambda>x. gl_id x = i) (renewed_lease now) (gw_leases s1)) =
        load (qt_in q) (qt_weight q) now (sql_update (\<lambda>x. gl_id x = i \<and> x = l) (renewed_lease now) (gw_leases s1))"
      by (rule arg_cong [where f = "load (qt_in q) (qt_weight q) now"]) (auto simp: sql_update_def dest: only)
    also have "\<dots> = load (qt_in q) (qt_weight q) now (gw_leases s1)"
      using quota_inside [OF q] quota_renewed [OF q] False l(3) by (intro load_frame) auto
    also have "\<dots> \<le> qt_max q"
      using streams_ok_later [OF ok1 \<open>t0 \<le> now\<close>] q by (simp add: streams_ok_def quota_holds_def)
    finally show ?thesis by (simp add: quota_holds_def)
  qed
  moreover have "\<forall>x\<in>set (sql_update (\<lambda>l. gl_id l = i) (renewed_lease now) (gw_leases s1)). 1 \<le> gl_bandwidth_bytes_per_second x"
    using ok1 by (auto simp: streams_ok_def renewed_lease_def elim!: sql_updateE)
  ultimately show ?thesis using ok1 by (simp add: streams_ok_def)
qed

text \<open>A new lease: the query counted what is live, and the new lease fits beside it.\<close>

lemma acquire_new:
  fixes clock :: "nat \<Rightarrow> time"
  assumes ok: "streams_ok (clock 0) s" and s1: "s1 = drop_expired org (clock 0) s"
    and org: "org = uuid_of (sq_organizationId r)"
    and limits: "find (\<lambda>x. go_id x = org) (gw_organizations s) = Some ol"
      "find (\<lambda>x. gp_id x = uuid_of (sq_projectId r) \<and> gp_organization_id x = org) (gw_projects s) = Some pl"
    and fits: "\<not> stream_quota_exceeded ol pl r False (clock 1) s1"
    and valid: "validate_stream r = None" and clock: "clock 0 \<le> clock 1" "clock 1 \<le> clock 2"
  shows "streams_ok (clock 2) (s1\<lparr>gw_leases := gw_leases s1 @ [new_lease r (clock 2)]\<rparr>)"
proof -
  have ok1: "streams_ok (clock 0) s1" unfolding s1 drop_expired_def by (rule streams_ok_drop [OF ok order_refl])
  have w: "1 \<le> gl_bandwidth_bytes_per_second (new_lease r (clock 2))"
    using valid by (auto simp: validate_stream_def new_lease_def split: if_splits)
  have tables: "gw_organizations s1 = gw_organizations s" "gw_projects s1 = gw_projects s" by (simp_all add: s1 drop_expired_def)
  note o = find_SomeD [OF limits(1)] and p = find_SomeD [OF limits(2)]
  have "quota_holds (clock 2) (s1\<lparr>gw_leases := gw_leases s1 @ [new_lease r (clock 2)]\<rparr>) q"
    if q: "q \<in> set (stream_quotas s1)" for q
  proof -
    have later: "load (qt_in q) (qt_weight q) (clock 2) (gw_leases s1) \<le> load (qt_in q) (qt_weight q) (clock 1) (gw_leases s1)"
      by (rule load_later [OF quota_weights [OF ok1 q] clock(2)])
    show ?thesis
    proof (cases "qt_in q (new_lease r (clock 2))")
      case False
      with streams_ok_later [OF ok1, of "clock 2"] clock q show ?thesis by (auto simp: streams_ok_def quota_holds_def)
    next
      case True
      have "load (qt_in q) (qt_weight q) (clock 1) (gw_leases s1) + qt_weight q (new_lease r (clock 2)) \<le> qt_max q"
      proof -
        from q consider (org) o' where "o' \<in> set (gw_organizations s)" and "qt_in q = in_organization (go_id o')"
            and "qt_weight q = (\<lambda>_. 1) \<and> qt_max q = go_max_gateway_streams o' \<or>
              qt_weight q = gl_bandwidth_bytes_per_second \<and> qt_max q = go_max_gateway_bandwidth_bps o'"
          | (project) p' where "p' \<in> set (gw_projects s)" and "qt_in q = in_gateway_project (gp_organization_id p') (gp_id p')"
            and "qt_weight q = (\<lambda>_. 1) \<and> qt_max q = gp_max_gateway_streams p' \<or>
              qt_weight q = gl_bandwidth_bytes_per_second \<and> qt_max q = gp_max_gateway_bandwidth_bps p'"
          unfolding stream_quotas_def tables by auto
        then show ?thesis
        proof cases
          case org
          with True have "go_id o' = go_id ol" using o by (simp add: in_organization_def new_lease_def assms(3))
          with org(1) o ok have "o' = ol" by (metis streams_ok_def distinct_map inj_onD)
          with org(2,3) fits o show ?thesis
            by (auto simp: stream_quota_exceeded_def Let_def organization_load new_lease_def assms(3))
        next
          case project
          with True have "gp_id p' = gp_id pl" using p by (simp add: in_gateway_project_def new_lease_def assms(3))
          with project(1) p ok have "p' = pl" by (metis streams_ok_def distinct_map inj_onD)
          with project(2,3) fits p show ?thesis
            by (auto simp: stream_quota_exceeded_def Let_def project_load new_lease_def assms(3))
        qed
      qed
      moreover have "gl_expires_at (new_lease r (clock 2)) > clock 2" by (simp add: new_lease_def leaseSeconds_def)
      ultimately show ?thesis using later True by (simp add: quota_holds_def)
    qed
  qed
  with ok1 w show ?thesis by (auto simp: streams_ok_def)
qed

lemma drop_expired_tables [simp]:
  "gw_organizations (drop_expired org now s) = gw_organizations s" "gw_projects (drop_expired org now s) = gw_projects s"
  by (simp_all add: drop_expired_def)

text \<open>What a granted lease says of the transaction.\<close>

lemma acquire_streamE:
  assumes "acquire_stream clock r s = Inr (lease, s')"
  obtains ol pl l where "validate_stream r = None"
    and "find (\<lambda>x. go_id x = uuid_of (sq_organizationId r)) (gw_organizations s) = Some ol"
    and "find (\<lambda>x. gp_id x = uuid_of (sq_projectId r) \<and> gp_organization_id x = uuid_of (sq_organizationId r)) (gw_projects s) = Some pl"
    and "find (\<lambda>l. gl_id l = uuid_of (sq_id r)) (gw_leases (drop_expired (uuid_of (sq_organizationId r)) (clock 0) s)) = None \<longrightarrow>
      \<not> stream_quota_exceeded ol pl r False (clock 1) (drop_expired (uuid_of (sq_organizationId r)) (clock 0) s)"
    and "upsert_lease r (clock 2) (drop_expired (uuid_of (sq_organizationId r)) (clock 0) s) = Inr (Some l, s')"
proof -
  have "\<exists>ol pl l. validate_stream r = None \<and>
      find (\<lambda>x. go_id x = uuid_of (sq_organizationId r)) (gw_organizations s) = Some ol \<and>
      find (\<lambda>x. gp_id x = uuid_of (sq_projectId r) \<and> gp_organization_id x = uuid_of (sq_organizationId r)) (gw_projects s) = Some pl \<and>
      (find (\<lambda>l. gl_id l = uuid_of (sq_id r)) (gw_leases (drop_expired (uuid_of (sq_organizationId r)) (clock 0) s)) = None \<longrightarrow>
        \<not> stream_quota_exceeded ol pl r False (clock 1) (drop_expired (uuid_of (sq_organizationId r)) (clock 0) s)) \<and>
      upsert_lease r (clock 2) (drop_expired (uuid_of (sq_organizationId r)) (clock 0) s) = Inr (Some l, s')"
    using assms by (auto simp: acquire_stream_def Let_def split: option.splits if_splits sum.splits)
  then show thesis by (elim exE conjE) (rule that, assumption+)
qed

lemma acquire_stream_ok:
  assumes "acquire_stream clock r s = Inr (lease, s')" and "streams_ok now s" and ids: "distinct (map gl_id (gw_leases s))"
    and clock: "now \<le> clock 0" "clock 0 \<le> clock 1" "clock 1 \<le> clock 2"
  shows "streams_ok (clock 2) s' \<and> distinct (map gl_id (gw_leases s'))"
proof -
  let ?org = "uuid_of (sq_organizationId r)" and ?i = "uuid_of (sq_id r)"
  let ?s1 = "drop_expired ?org (clock 0) s"
  have ok: "streams_ok (clock 0) s" by (rule streams_ok_later [OF assms(2) clock(1)])
  have ids1: "distinct (map gl_id (gw_leases ?s1))" using ids by (simp add: drop_expired_def distinct_map_filter)
  from assms(1) obtain ol pl l where v: "validate_stream r = None"
    and limits: "find (\<lambda>x. go_id x = ?org) (gw_organizations s) = Some ol"
      "find (\<lambda>x. gp_id x = uuid_of (sq_projectId r) \<and> gp_organization_id x = ?org) (gw_projects s) = Some pl"
    and fits: "find (\<lambda>l. gl_id l = ?i) (gw_leases ?s1) = None \<longrightarrow> \<not> stream_quota_exceeded ol pl r False (clock 1) ?s1"
    and up: "upsert_lease r (clock 2) ?s1 = Inr (Some l, s')"
    by (rule acquire_streamE)
  show ?thesis
  proof (cases "find (\<lambda>l. gl_id l = ?i) (gw_leases ?s1)")
    case None
    with up have s': "s' = ?s1\<lparr>gw_leases := gw_leases ?s1 @ [new_lease r (clock 2)]\<rparr>" by (auto simp: upsert_lease_def)
    have "gl_id (new_lease r (clock 2)) \<notin> gl_id ` set (gw_leases ?s1)"
      using find_NoneD [OF None] by (fastforce simp: new_lease_def)
    with ids1 acquire_new [where clock = clock, OF ok refl refl limits fits [rule_format, OF None] v clock(2,3)] show ?thesis by (simp add: s')
  next
    case (Some x)
    with up have x: "exact_lease r x"
      and s': "s' = ?s1\<lparr>gw_leases := sql_update (\<lambda>l. gl_id l = ?i) (renewed_lease (clock 2)) (gw_leases ?s1)\<rparr>"
      by (auto simp: upsert_lease_def split: if_splits)
    note f = find_SomeD [OF Some]
    have "streams_ok (clock 2) s'" unfolding s'
      using acquire_renewal [OF ok refl _ _ _ ids, where l = x and org = ?org and i = ?i and now = "clock 2"] f x clock by (simp add: exact_lease_def)
    moreover have "map gl_id (gw_leases s') = map gl_id (gw_leases ?s1)"
      by (simp add: s' map_sql_update renewed_lease_def)
    ultimately show ?thesis using ids1 by simp
  qed
qed

text \<open>The operations of the service, one after another in the order of time.\<close>

inductive streamed :: "(string \<Rightarrow> string) \<Rightarrow> stream_rate_config \<Rightarrow> gateway \<Rightarrow> time \<Rightarrow> gateway \<Rightarrow> time \<Rightarrow> bool" for sha256 c s0 t0 where
  start: "streamed sha256 c s0 t0 s0 t0"
| routed: "streamed sha256 c s0 t0 s t \<Longrightarrow> t \<le> now \<Longrightarrow> admitRouteRequest sha256 c r now s = (result, s') \<Longrightarrow>
    streamed sha256 c s0 t0 s' now"
| acquired: "streamed sha256 c s0 t0 s t \<Longrightarrow> t \<le> clock 0 \<Longrightarrow> clock 0 \<le> clock 1 \<Longrightarrow> clock 1 \<le> clock 2 \<Longrightarrow>
    acquire_stream clock r s = Inr (lease, s') \<Longrightarrow> streamed sha256 c s0 t0 s' (clock 2)"
| released: "streamed sha256 c s0 t0 s t \<Longrightarrow> t \<le> now \<Longrightarrow> release_stream i instanceId s = Inr s' \<Longrightarrow> streamed sha256 c s0 t0 s' now"
| reaped: "streamed sha256 c s0 t0 s t \<Longrightarrow> t \<le> now \<Longrightarrow> reapExpired locked limit now s = Inr (n, s') \<Longrightarrow>
    streamed sha256 c s0 t0 s' now"

lemma streams_ok_windows: "streams_ok now (s\<lparr>gw_windows := ws\<rparr>) = streams_ok now s"
  by (simp add: streams_ok_def quota_holds_def)

lemma route_leases:
  assumes "admitRouteRequest sha256 c r now s = (result, s')"
  shows "s' = s \<or> (\<exists>ws. s' = s\<lparr>gw_windows := ws\<rparr>)"
  using assms by (auto simp: admitRouteRequest_def split: option.splits if_splits prod.splits)

lemma streamed_ok:
  assumes "streamed sha256 c s0 t0 s t" and "streams_ok t0 s0" and "distinct (map gl_id (gw_leases s0))"
  shows "streams_ok t s \<and> distinct (map gl_id (gw_leases s)) \<and> gw_organizations s = gw_organizations s0 \<and> gw_projects s = gw_projects s0"
  using assms
proof (induction rule: streamed.induct)
  case (routed s t now r result s')
  with streams_ok_later route_leases [OF routed.hyps(3)] show ?case by (auto simp: streams_ok_windows)
next
  case (acquired s t clock r lease s')
  then have "gw_organizations s' = gw_organizations s \<and> gw_projects s' = gw_projects s"
    by (auto simp: upsert_lease_def split: option.splits if_splits elim!: acquire_streamE)
  with acquired acquire_stream_ok [OF acquired.hyps(5)] show ?case by auto
next
  case (released s t now i instanceId s')
  then obtain Q where "s' = s\<lparr>gw_leases := filter Q (gw_leases s)\<rparr>" by (auto simp: release_stream_def split: if_splits)
  with released streams_ok_drop [of t s now Q] show ?case by (simp add: distinct_map_filter)
next
  case (reaped s t now locked limit n s')
  then obtain Q where "s' = s\<lparr>gw_leases := filter Q (gw_leases s)\<rparr>" by (auto simp: reapExpired_def Let_def split: if_splits)
  with reaped streams_ok_drop [of t s now Q] show ?case by (simp add: distinct_map_filter)
qed simp_all

text \<open>A gateway before any stream: tenants with their quotas, and no lease.\<close>

definition fresh_gateway :: "gateway \<Rightarrow> bool" where
  "fresh_gateway s \<longleftrightarrow> gw_leases s = [] \<and> distinct (map go_id (gw_organizations s)) \<and> distinct (map gp_id (gw_projects s)) \<and>
     list_all (\<lambda>x. 0 \<le> go_max_gateway_streams x \<and> 0 \<le> go_max_gateway_bandwidth_bps x) (gw_organizations s) \<and>
     list_all (\<lambda>x. 0 \<le> gp_max_gateway_streams x \<and> 0 \<le> gp_max_gateway_bandwidth_bps x) (gw_projects s)"

lemma fresh_gateway_ok: "fresh_gateway s \<Longrightarrow> streams_ok t s \<and> distinct (map gl_id (gw_leases s))"
  by (auto simp: fresh_gateway_def streams_ok_def quota_holds_def stream_quotas_def list_all_iff)

text \<open>C28: However acquisitions, renewals, releases, expiries and reaping follow one another, and however
  much time passes between the statements of a transaction, the leases live at any later instant
  keep within the stream and bandwidth quotas of every organization and every project.
\<close>

theorem streams_within_quota:
  assumes "fresh_gateway s0" and "streamed sha256 c s0 t0 s t" and "t \<le> now"
    and "o' \<in> set (gw_organizations s)" and "p \<in> set (gw_projects s)"
  shows "int (length (organization_leases (go_id o') now s)) \<le> go_max_gateway_streams o' \<and>
    bandwidth (organization_leases (go_id o') now s) \<le> go_max_gateway_bandwidth_bps o' \<and>
    int (length (project_leases (gp_organization_id p) (gp_id p) now s)) \<le> gp_max_gateway_streams p \<and>
    bandwidth (project_leases (gp_organization_id p) (gp_id p) now s) \<le> gp_max_gateway_bandwidth_bps p"
proof -
  from streamed_ok [OF assms(2)] fresh_gateway_ok [OF assms(1)] have "streams_ok t s" by blast
  from streams_ok_later [OF this assms(3)] have "\<forall>q\<in>set (stream_quotas s). quota_holds now s q" by (simp add: streams_ok_def)
  with assms(4,5) show ?thesis
    unfolding organization_load project_load by (simp add: stream_quotas_def quota_holds_def ball_Un)
qed

section \<open>Route windows keep the contract\<close>

text \<open>What reaches the gateway tables: route requests, which are counted, and the operations on leases.\<close>

datatype gateway_event =
    RouteRequest stream_admission_request
  | AcquireStream "nat \<Rightarrow> time" stream_admission_request
  | ReleaseStream string string
  | ReapStreams "uuid list" js_number

fun gateway_event_step :: "(string \<Rightarrow> string) \<Rightarrow> stream_rate_config \<Rightarrow> gateway_event \<Rightarrow> time \<Rightarrow> gateway \<Rightarrow> bool \<times> gateway" where
  "gateway_event_step sha256 c (RouteRequest r) now s =
     (case admitRouteRequest sha256 c r now s of (result, s') \<Rightarrow> (result = None, s'))"
| "gateway_event_step sha256 c (AcquireStream clock r) now s =
     (False, case acquire_stream clock r s of Inl e \<Rightarrow> s | Inr (l, s') \<Rightarrow> s')"
| "gateway_event_step sha256 c (ReleaseStream i instanceId) now s = (False, case release_stream i instanceId s of Inl e \<Rightarrow> s | Inr s' \<Rightarrow> s')"
| "gateway_event_step sha256 c (ReapStreams locked limit) now s = (False, case reapExpired locked limit now s of Inl e \<Rightarrow> s | Inr (n, s') \<Rightarrow> s')"

text \<open>The identities a route request is counted for: none when it carries a live lease of its own.\<close>

fun new_stream_identities :: "stream_rate_config \<Rightarrow> gateway_event \<Rightarrow> time \<Rightarrow> gateway \<Rightarrow> admission_bucket list" where
  "new_stream_identities c (RouteRequest r) now s =
     (if validate_stream r \<noteq> None \<or> exact_active_lease r now s then [] else stream_scopes c r)"
| "new_stream_identities c _ now s = []"

definition stream_ids :: "stream_rate_config \<Rightarrow> gateway_event \<Rightarrow> time \<Rightarrow> gateway \<Rightarrow> (string \<times> string) list" where
  "stream_ids c x now s = map (\<lambda>b. (ab_scope b, ab_identifier b)) (new_stream_identities c x now s)"

definition stream_keys :: "(string \<Rightarrow> string) \<Rightarrow> stream_rate_config \<Rightarrow> gateway_event \<Rightarrow> time \<Rightarrow> gateway \<Rightarrow> (string \<times> int) list" where
  "stream_keys sha256 c x now s = map (\<lambda>b. bucket_key (slotted sha256 b)) (new_stream_identities c x now s)"

definition stream_limit :: "stream_rate_config \<Rightarrow> string \<Rightarrow> int" where
  "stream_limit c scope =
     (if scope = ''authority'' then sc_authorityRequests c else if scope = ''project'' then sc_projectRequests c
      else sc_organizationRequests c)"

lemma stream_scopes_distinct: "distinct (map bucket_key (map (slotted sha256) (stream_scopes c r)))"
  by (rule distinct_slotted) (simp add: stream_scopes_def)

lemma acquire_windows: "acquire_stream clock r s = Inr (l, s') \<Longrightarrow> gw_windows s' = gw_windows s"
  by (erule acquire_streamE) (auto simp: upsert_lease_def drop_expired_def split: option.splits if_splits)

lemma gateway_step_windows:
  "gw_windows (snd (gateway_event_step sha256 c x now s)) =
    fold (charge (window_start (sc_windowSeconds c) now)) (map (slotted sha256) (new_stream_identities c x now s)) (gw_windows s)"
proof (cases x)
  case (AcquireStream clock r)
  then show ?thesis by (auto split: sum.splits dest: acquire_windows)
qed (auto simp: admitRouteRequest_def charge_windows_def Let_def release_stream_def reapExpired_def split: option.splits if_splits)

lemma gateway_count:
  assumes "k \<in> set (stream_keys sha256 c x now s)"
  shows "count_of (gw_windows (snd (gateway_event_step sha256 c x now s))) k = Some (case count_of (gw_windows s) k of
      None \<Rightarrow> (window_start (sc_windowSeconds c) now, 1)
    | Some (w, n) \<Rightarrow> (max w (window_start (sc_windowSeconds c) now),
        if window_start (sc_windowSeconds c) now > w then 1 else min (n + 1) maximumStoredCount))"
proof -
  from assms obtain r where x: "x = RouteRequest r" and new: "new_stream_identities c x now s = stream_scopes c r"
    by (cases x) (auto simp: stream_keys_def split: if_splits)
  from assms obtain b where "b \<in> set (map (slotted sha256) (stream_scopes c r))" and "k = bucket_key b"
    by (auto simp: stream_keys_def new)
  with count_fold [OF stream_scopes_distinct] show ?thesis by (simp only: gateway_step_windows new)
qed

lemma stream_limit_bounds: "stream_rate_ok c \<Longrightarrow> 1 \<le> stream_limit c scope \<and> stream_limit c scope \<le> 1000000"
  by (simp add: stream_rate_ok_def stream_limit_def)

lemma gateway_admitted:
  assumes "fst (gateway_event_step sha256 c x now s)" and "b \<in> set (new_stream_identities c x now s)"
  shows "\<not> exceeded (gw_windows (snd (gateway_event_step sha256 c x now s))) (slotted sha256 b)"
    and "ab_limit b = stream_limit c (ab_scope b)"
  using assms by (cases x; auto simp: admitRouteRequest_def charge_windows_def Let_def list_all_iff stream_scopes_def stream_limit_def
    split: if_splits option.splits)+

lemma stream_fixed_window:
  assumes c: "stream_rate_ok c"
  shows "fixed_window (gateway_event_step sha256 c) (stream_keys sha256 c) (window_start (sc_windowSeconds c))
    (\<lambda>s. count_of (gw_windows s)) (\<lambda>k. stream_limit c (fst k)) (\<lambda>s. windows_ok (gw_windows s))"
proof
  fix s :: gateway and r now
  assume "windows_ok (gw_windows s)"
  then show "windows_ok (gw_windows (snd (gateway_event_step sha256 c r now s)))" by (simp add: gateway_step_windows fold_charge_ok)
next
  fix s :: gateway and k r now
  assume "k \<in> set (stream_keys sha256 c r now s)" and "count_of (gw_windows s) k = None"
  with gateway_count show "count_of (gw_windows (snd (gateway_event_step sha256 c r now s))) k = Some (window_start (sc_windowSeconds c) now, 1)"
    by simp
next
  fix s :: gateway and k r w n now
  assume "k \<in> set (stream_keys sha256 c r now s)" and "count_of (gw_windows s) k = Some (w, n)" and "w < window_start (sc_windowSeconds c) now"
  with gateway_count show "count_of (gw_windows (snd (gateway_event_step sha256 c r now s))) k = Some (window_start (sc_windowSeconds c) now, 1)"
    by simp
next
  fix s :: gateway and k r n now
  assume "k \<in> set (stream_keys sha256 c r now s)" and "count_of (gw_windows s) k = Some (window_start (sc_windowSeconds c) now, n)"
  with gateway_count stream_limit_bounds [OF c, of "fst k"]
  show "\<exists>n'. count_of (gw_windows (snd (gateway_event_step sha256 c r now s))) k = Some (window_start (sc_windowSeconds c) now, n') \<and>
      (n' = n + 1 \<or> stream_limit c (fst k) < n')"
    by (auto simp: maximumStoredCount_def min_def)
next
  fix s :: gateway and k r now
  assume "k \<notin> set (stream_keys sha256 c r now s)"
  then show "count_of (gw_windows (snd (gateway_event_step sha256 c r now s))) k = count_of (gw_windows s) k"
    unfolding gateway_step_windows by (intro count_fold_other) (auto simp: stream_keys_def)
next
  fix s :: gateway and r now k w n
  assume a: "fst (gateway_event_step sha256 c r now s)" and k: "k \<in> set (stream_keys sha256 c r now s)"
    and n: "count_of (gw_windows (snd (gateway_event_step sha256 c r now s))) k = Some (w, n)"
  from k obtain b where b: "b \<in> set (new_stream_identities c r now s)" and kb: "k = bucket_key (slotted sha256 b)"
    by (auto simp: stream_keys_def)
  from gateway_admitted [OF a b] n show "n \<le> stream_limit c (fst k)"
    by (auto simp: exceeded_count kb slotted_def bucket_key_def)
next
  fix t t' :: time
  assume "t \<le> t'"
  with c show "window_start (sc_windowSeconds c) t \<le> window_start (sc_windowSeconds c) t'"
    by (simp add: window_start_mono stream_rate_ok_def)
next
  show "0 \<le> stream_limit c (fst k)" for k :: "string \<times> int" using stream_limit_bounds [OF c, of "fst k"] by simp
qed (rule windows_ok_count)

interpretation routes: fixed_window "gateway_event_step sha256 default_request_rate" "stream_keys sha256 default_request_rate"
    "window_start (sc_windowSeconds default_request_rate)" "\<lambda>s. count_of (gw_windows s)" "\<lambda>k. stream_limit default_request_rate (fst k)"
    "\<lambda>s. windows_ok (gw_windows s)" for sha256
  by (rule stream_fixed_window) (simp add: stream_rate_ok_def default_request_rate_def)

text \<open>
  For every capability, project and organization at most the configured number of route requests
  that do not carry a live lease of their own is admitted in a window, whatever else happens to the
  leases in between.
\<close>

theorem route_requests_bounded:
  assumes "stream_rate_ok c" and "windows_ok (gw_windows s)" and "sorted (map snd events)"
    and "\<forall>x\<in>set (gw_windows s). \<forall>(r, now)\<in>set events. ww_window_started_at x \<le> window_start (sc_windowSeconds c) now"
  shows "admissions (gateway_event_step sha256 c) (stream_ids c) (window_start (sc_windowSeconds c)) (scope, identifier) w events s
    \<le> stream_limit c scope"
proof -
  let ?k = "(scope, slotFor sha256 scope identifier)"
  have "admissions (gateway_event_step sha256 c) (stream_ids c) (window_start (sc_windowSeconds c)) (scope, identifier) w events s
      \<le> admissions (gateway_event_step sha256 c) (stream_keys sha256 c) (window_start (sc_windowSeconds c)) ?k w events s"
    by (rule admissions_le) (force simp: stream_ids_def stream_keys_def slotted_def bucket_key_def image_iff)
  also have "\<dots> \<le> stream_limit c (fst ?k)"
    by (rule fixed_window.within_limit [OF stream_fixed_window [OF assms(1)] assms(2,3) not_ahead [OF assms(4)]])
  finally show ?thesis by simp
qed

end
