(* ===== verification/SampleAdmission.thy ===== *)
theory SampleAdmission
  imports Streams
begin

text \<open>
  The properties of admission applied to small runs: two requests of one principal, two hosts that
  present credentials, and a stream that is acquired, renewed and released.
\<close>

definition sample_admission_env :: admission_env where
  "sample_admission_env = \<lparr>ae_isIP = (\<lambda>s. if s = ''192.0.2.7'' then 4 else 0), ae_sha256 = (\<lambda>s. ''000000000a''),
     ae_localeCompare = (\<lambda>s t. 0)\<rparr>"

definition sample_principal :: admission_identity where
  "sample_principal = \<lparr>ai_principalId = ''key'', ai_organizationId = Some ''org'', ai_projectId = None\<rparr>"

definition sample_rate_limit :: rate_limit_config where
  "sample_rate_limit = default_rate_limit\<lparr>rl_principalRequests := 1\<rparr>"

definition sample_api_requests :: "((api_request \<times> db_outcome) \<times> time) list" where
  "sample_api_requests =
     [((PreAuthenticate (Some ''192.0.2.7'') None, Answered), 1000), ((Authenticate sample_principal, Answered), 1001),
      ((Authenticate sample_principal, AnswerLost), 2000), ((Authenticate sample_principal, Answered), 3000)]"

text \<open>The run admits the principal once, which is all its window allows.\<close>

theorem api_window_bounded_witness:
  "rate_limit_config_ok sample_rate_limit \<and> windows_ok [] \<and>
   admissions (api_hit sample_admission_env sample_rate_limit) (\<lambda>r now s. api_identities sample_admission_env sample_rate_limit r)
     (window_start 60) (''principal'', ''key'') 0 sample_api_requests [] \<le> 1 \<and>
   scope_limit sample_rate_limit ''principal'' = 1 \<and>
   fst (api_admission sample_admission_env sample_rate_limit (Authenticate sample_principal, Answered) 1001 []) = Admitted"
proof -
  have c: "rate_limit_config_ok sample_rate_limit" "rl_enabled sample_rate_limit" "rl_failClosed sample_rate_limit"
    "rl_windowSeconds sample_rate_limit = 60" "scope_limit sample_rate_limit ''principal'' = 1"
    by (simp_all add: sample_rate_limit_def default_rate_limit_def rate_limit_config_ok_def scope_limit_def)
  have w: "windows_ok []" by (simp add: windows_ok_def)
  have s: "sorted (map snd sample_api_requests)" by (simp add: sample_api_requests_def)
  have n: "\<forall>x\<in>set []. \<forall>(r :: api_request \<times> db_outcome, now)\<in>set sample_api_requests.
      ww_window_started_at x \<le> window_start (rl_windowSeconds sample_rate_limit) now" by simp
  have a: "fst (api_admission sample_admission_env sample_rate_limit (Authenticate sample_principal, Answered) 1001 []) = Admitted"
    by (simp add: api_admission_def consume_def authenticated_buckets_def sample_principal_def nonempty_def sample_rate_limit_def
      default_rate_limit_def charge_windows_def slotted_def charge_def bucket_row_def exceeded_def of_bucket_def Let_def sort_by_def
      bucket_cmp_def sample_admission_env_def slotFor_def)
  from api_window_bounded [OF c(1-3) w s n, of sample_admission_env "''principal''" "''key''" 0] c w a show ?thesis by simp
qed

definition sample_verify_events :: "(verify_event \<times> time) list" where
  "sample_verify_events =
     [(VerifyStart (Some ''192.0.2.7'') ''host'', 500), (VerifyStart None ''host'', 600), (VerifySettled, 700),
      (VerifyStart (Some ''192.0.2.7'') ''host'', 1500)]"

theorem host_verifier_bounded_witness:
  "\<exists>s. HostCredentialAdmission (Some (JSInt 1024)) (Some (JSInt 1)) (Some (JSInt 1)) = Inr s \<and>
    ha_maximumConcurrentVerifications s = 1 \<and>
    0 \<le> ha_activeVerifications (verify_run (\<lambda>_. ''00000000'') sample_verify_events s) \<and>
    ha_activeVerifications (verify_run (\<lambda>_. ''00000000'') sample_verify_events s) \<le>
      ha_maximumConcurrentVerifications (verify_run (\<lambda>_. ''00000000'') sample_verify_events s) \<and>
    admissions (verify_step (\<lambda>_. ''00000000'')) (\<lambda>x now s. case x of VerifyStart remote hostId \<Rightarrow> [(remote, hostId)] | VerifySettled \<Rightarrow> [])
      (\<lambda>now. now div 1000) (Some ''192.0.2.7'', ''host'') 0 sample_verify_events s \<le> 1"
proof -
  obtain s where s: "HostCredentialAdmission (Some (JSInt 1024)) (Some (JSInt 1)) (Some (JSInt 1)) = Inr s"
    and one: "ha_requestsPerSecond s = 1" "ha_maximumConcurrentVerifications s = 1"
    by (simp add: HostCredentialAdmission_def slot_counts_def upt_rec MAX_SAFE_INTEGER_def)
  have t: "sorted (0 # map snd sample_verify_events)" by (simp add: sample_verify_events_def)
  note b = host_verifier_bounded [OF s t, of "\<lambda>_. ''00000000''" "Some ''192.0.2.7''" "''host''" 0]
  show ?thesis by (rule exI [of _ s]) (use s one b in simp)
qed

text \<open>A stream of the only project of an organization that may have one stream.\<close>

definition sample_gateway :: gateway where
  "sample_gateway =
     \<lparr>gw_organizations = [\<lparr>go_id = ''00000000-0000-4000-8000-0000000000aa'', go_max_gateway_streams = 1, go_max_gateway_bandwidth_bps = 100\<rparr>],
      gw_projects = [\<lparr>gp_id = ''00000000-0000-4000-8000-0000000000bb'', gp_organization_id = ''00000000-0000-4000-8000-0000000000aa'',
        gp_max_gateway_streams = 1, gp_max_gateway_bandwidth_bps = 100\<rparr>],
      gw_leases = [], gw_windows = []\<rparr>"

definition sample_stream :: stream_admission_request where
  "sample_stream = \<lparr>sq_id = ''00000000-0000-4000-8000-0000000000cc'', sq_organizationId = ''00000000-0000-4000-8000-0000000000aa'',
     sq_projectId = ''00000000-0000-4000-8000-0000000000bb'', sq_authorityKind = ''machine_capability'', sq_authorityId = ''cap'',
     sq_instanceId = ''gw'', sq_bandwidthBytesPerSecond = JSInt 60\<rparr>"

definition sample_streaming :: gateway where
  "sample_streaming = sample_gateway\<lparr>gw_leases := [new_lease sample_stream 1002]\<rparr>"

lemma sample_uuids:
  "uuid_ok ''00000000-0000-4000-8000-0000000000aa''" "uuid_ok ''00000000-0000-4000-8000-0000000000bb''"
  "uuid_ok ''00000000-0000-4000-8000-0000000000cc''"
  by (simp_all add: uuid_ok_def is_hex_ci_def lower_char_def is_upper_def is_hex_def is_digit_def less_eq_char_def upt_rec)

lemma sample_stream_valid: "validate_stream sample_stream = None"
  by (simp add: validate_stream_def sample_stream_def sample_uuids is_upper_def is_lower_def is_alnum_def
    is_digit_def less_eq_char_def identity_ok_def identity_char_def MAX_SAFE_INTEGER_def)

lemma sample_stream_lower:
  "toLowerCase ''00000000-0000-4000-8000-0000000000aa'' = ''00000000-0000-4000-8000-0000000000aa''"
  "toLowerCase ''00000000-0000-4000-8000-0000000000bb'' = ''00000000-0000-4000-8000-0000000000bb''"
  "toLowerCase ''00000000-0000-4000-8000-0000000000cc'' = ''00000000-0000-4000-8000-0000000000cc''"
  by (simp_all add: toLowerCase_def lower_char_def is_upper_def less_eq_char_def)

lemma sample_stream_acquired: "\<exists>lease. acquire_stream (\<lambda>n. 1000 + int n) sample_stream sample_gateway = Inr (lease, sample_streaming)"
  using sample_stream_valid
  by (simp add: acquire_stream_def sample_stream_lower drop_expired_def upsert_lease_def Let_def new_lease_def
    stream_quota_exceeded_def organization_leases_def project_leases_def bandwidth_def sample_streaming_def sample_gateway_def sample_stream_def)

theorem streams_within_quota_witness:
  "\<exists>lease. acquire_stream (\<lambda>n. 1000 + int n) sample_stream sample_gateway = Inr (lease, sample_streaming) \<and>
    list_all (\<lambda>o'. int (length (organization_leases (go_id o') 5000 sample_streaming)) \<le> go_max_gateway_streams o' \<and>
      bandwidth (organization_leases (go_id o') 5000 sample_streaming) \<le> go_max_gateway_bandwidth_bps o') (gw_organizations sample_streaming)"
proof -
  obtain lease where a: "acquire_stream (\<lambda>n. 1000 + int n) sample_stream sample_gateway = Inr (lease, sample_streaming)"
    using sample_stream_acquired by blast
  have "streamed (\<lambda>_. []) default_request_rate sample_gateway 0 sample_streaming ((\<lambda>n. 1000 + int n) 2)"
    by (rule streamed.acquired [OF streamed.start _ _ _ a]) simp_all
  then have r: "streamed (\<lambda>_. []) default_request_rate sample_gateway 0 sample_streaming 1002" by simp
  have f: "fresh_gateway sample_gateway" by (simp add: fresh_gateway_def sample_gateway_def)
  obtain o' p where o: "gw_organizations sample_streaming = [o']" and p: "gw_projects sample_streaming = [p]"
    by (simp add: sample_streaming_def sample_gateway_def)
  from streams_within_quota [OF f r, of 5000 o' p] a o p show ?thesis by simp
qed

end
