(* ===== verification/Tenancy.thy ===== *)
theory Tenancy
  imports Admission Hosts
begin

text \<open>
  The tenants of the control plane: users, organizations, memberships, projects and their credentials.
  This theory has the tables, how transactions on them are composed, the statements whose triggers
  revoke what depends on a credential, and the components \<open>domain/organizations.ts\<close> and
  \<open>domain/projects.ts\<close>. Identifiers of \<open>uuid\<close> columns are in the form the database prints.
\<close>

named_theorems keeps \<open>transactions keep an invariant\<close>

section \<open>The tables\<close>

datatype membership_role = Owner | Admin | Member | BillingRole

record user_row =
  us_id :: uuid
  us_clerk_user_id :: string
  us_created_at :: time
  us_disabled_at :: "time option"

record organization_row =
  on_id :: uuid
  on_slug :: string
  on_name :: string
  on_created_at :: time
  on_disabled_at :: "time option"
  on_max_projects :: int

record member_row =
  om_organization_id :: uuid
  om_user_id :: uuid
  om_role :: membership_role

record tenant_project =
  pj_id :: uuid
  pj_organization_id :: uuid
  pj_slug :: string
  pj_name :: string
  pj_max_machines :: int
  pj_max_vcpus :: int
  pj_max_memory_mb :: int
  pj_max_disk_mb :: int
  pj_max_storage_mb :: int

record api_key_row =
  ak_id :: uuid
  ak_organization_id :: uuid
  ak_project_id :: "uuid option"
  ak_name :: string
  ak_prefix :: string
  ak_key_hash :: string
  ak_scopes :: "string list"
  ak_created_by :: "uuid option"
  ak_created_at :: time
  ak_last_used_at :: "time option"
  ak_expires_at :: "time option"
  ak_disabled_at :: "time option"
  ak_revoked_at :: "time option"

text \<open>\<open>machine_gateway_grants\<close>: what a credential issued to the gateway.\<close>

record gateway_grant_row =
  gg_id :: uuid
  gg_organization_id :: uuid
  gg_issuer_type :: string
  gg_issuer_id :: string
  gg_created_at :: time
  gg_expires_at :: time
  gg_revoked_at :: "time option"

datatype device_status = DevicePending | DeviceApproved | DeviceDenied | DeviceConsumed

record device_row =
  da_id :: uuid
  da_device_token_hash :: string
  da_user_code_hash :: string
  da_client_id :: string
  da_requested_scopes :: "string list"
  da_approved_scopes :: "string list option"
  da_status :: device_status
  da_organization_id :: "uuid option"
  da_project_id :: "uuid option"
  da_approved_by :: "uuid option"
  da_poll_interval_seconds :: int
  da_next_poll_at :: time
  da_poll_violations :: int
  da_created_at :: time
  da_expires_at :: time
  da_authorized_at :: "time option"
  da_denied_at :: "time option"
  da_consumed_at :: "time option"

record family_row =
  df_id :: uuid
  df_device_authorization_id :: uuid
  df_organization_id :: uuid
  df_project_id :: uuid
  df_scopes :: "string list"
  df_created_at :: time
  df_expires_at :: time
  df_revoked_at :: "time option"
  df_reuse_detected_at :: "time option"

record refresh_row =
  rt_id :: uuid
  rt_family_id :: uuid
  rt_generation :: int
  rt_token_hash :: string
  rt_created_at :: time
  rt_expires_at :: time
  rt_used_at :: "time option"
  rt_replaced_by :: "uuid option"

record access_row =
  dt_id :: uuid
  dt_family_id :: uuid
  dt_organization_id :: uuid
  dt_project_id :: uuid
  dt_scopes :: "string list"
  dt_token_hash :: string
  dt_created_at :: time
  dt_expires_at :: time
  dt_last_used_at :: "time option"
  dt_revoked_at :: "time option"

record device_rate_row =
  dl_kind :: string
  dl_key_hash :: string
  dl_window_started_at :: time
  dl_attempts :: int

record sync_receipt =
  sy_provider :: string
  sy_event_id :: string
  sy_payload_sha256 :: string
  sy_stream_sha256 :: string
  sy_source_version :: int
  sy_event_type :: string
  sy_user_id :: uuid
  sy_organization_id :: "uuid option"
  sy_role :: "membership_role option"
  sy_result :: string
  sy_changed :: bool

record tenancy =
  tn_users :: "user_row list"
  tn_organizations :: "organization_row list"
  tn_members :: "member_row list"
  tn_projects :: "tenant_project list"
  tn_operators :: "uuid list"
  tn_api_keys :: "api_key_row list"
  tn_grants :: "gateway_grant_row list"
  tn_devices :: "device_row list"
  tn_families :: "family_row list"
  tn_refresh :: "refresh_row list"
  tn_access :: "access_row list"
  tn_rates :: "device_rate_row list"
  tn_receipts :: "sync_receipt list"
  tn_audit :: "audit_row list"

text \<open>
  What a call can end with: the exceptions of the services, and constraint violations of the database
  by the name of the constraint.
\<close>

datatype tenancy_error =
    UniqueConstraint string
  | CheckConstraint string
  | ForeignKeyConstraint string
  | PlainTenancyError string
  | ProjectQuotaExceeded
  | ProjectSlugConflict
  | ProjectAllocationIntegrityError string
  | InvalidApiKeyRequest string
  | ApiKeyPrefixCollision
  | ApiKeyAllocationUnavailable
  | ApiKeyAuthorizationDenied
  | ApiKeyVerifierBusy
  | ApiKeyHasherBusy
  | ApiKeyQuotaExceeded
  | DeviceAuthorizationError string int "int option"
  | InvalidIdentityLifecycleRequest string
  | IdentityLifecycleAuthorizationDenied
  | IdentityProviderSyncTargetNotFound
  | IdentityProviderSyncConflict

section \<open>Transactions\<close>

type_synonym 'a ttx = "tenancy \<Rightarrow> tenancy_error + ('a \<times> tenancy)"

definition bindt :: "'a ttx \<Rightarrow> ('a \<Rightarrow> 'b ttx) \<Rightarrow> 'b ttx" where
  "bindt m k s = (case m s of Inl e \<Rightarrow> Inl e | Inr (x, s') \<Rightarrow> k x s')"

definition returnt :: "'a \<Rightarrow> 'a ttx" where
  "returnt x s = Inr (x, s)"

definition throwt :: "tenancy_error \<Rightarrow> 'a ttx" where
  "throwt e s = Inl e"

definition readt :: "(tenancy \<Rightarrow> 'a) \<Rightarrow> 'a ttx" where
  "readt f s = Inr (f s, s)"

definition writet :: "(tenancy \<Rightarrow> tenancy) \<Rightarrow> unit ttx" where
  "writet f s = Inr ((), f s)"

text \<open>A statement that violates a constraint when the condition does not hold.\<close>

definition guardt :: "(tenancy \<Rightarrow> bool) \<Rightarrow> tenancy_error \<Rightarrow> unit ttx" where
  "guardt P e s = (if P s then Inr ((), s) else Inl e)"

text \<open>A \<open>catch\<close> around a transaction turns its error into another.\<close>

definition maperr :: "(tenancy_error \<Rightarrow> tenancy_error) \<Rightarrow> 'a ttx \<Rightarrow> 'a ttx" where
  "maperr f m s = (case m s of Inl e \<Rightarrow> Inl (f e) | Inr r \<Rightarrow> Inr r)"

definition keeps :: "(tenancy \<Rightarrow> bool) \<Rightarrow> 'a ttx \<Rightarrow> bool" where
  "keeps I m \<longleftrightarrow> (\<forall>s x s'. I s \<longrightarrow> m s = Inr (x, s') \<longrightarrow> I s')"

lemma keepsD: "keeps I m \<Longrightarrow> m s = Inr (x, s') \<Longrightarrow> I s \<Longrightarrow> I s'"
  unfolding keeps_def by blast

lemma keepsI: "(\<And>s x s'. I s \<Longrightarrow> m s = Inr (x, s') \<Longrightarrow> I s') \<Longrightarrow> keeps I m"
  unfolding keeps_def by blast

lemma keeps_bindt [keeps]:
  assumes m: "keeps I m" and k: "\<And>x. keeps I (k x)"
  shows "keeps I (bindt m k)"
proof (rule keepsI)
  fix s y s'
  assume I: "I s" and "bindt m k s = Inr (y, s')"
  then obtain x t where 1: "m s = Inr (x, t)" and 2: "k x t = Inr (y, s')"
    by (cases "m s") (auto simp: bindt_def)
  show "I s'" by (rule keepsD [OF k 2 keepsD [OF m 1 I]])
qed

lemma keeps_returnt [keeps]: "keeps I (returnt x)"
  by (simp add: keeps_def returnt_def)

lemma keeps_throwt [keeps]: "keeps I (throwt e)"
  by (simp add: keeps_def throwt_def)

lemma keeps_readt [keeps]: "keeps I (readt f)"
  by (simp add: keeps_def readt_def)

lemma keeps_guardt [keeps]: "keeps I (guardt P e)"
  by (simp add: keeps_def guardt_def)

lemma keeps_maperr [keeps]: "keeps I m \<Longrightarrow> keeps I (maperr f m)"
  by (auto simp: keeps_def maperr_def split: sum.splits)

lemma keeps_if [keeps]: "(b \<Longrightarrow> keeps I m) \<Longrightarrow> (\<not> b \<Longrightarrow> keeps I m') \<Longrightarrow> keeps I (if b then m else m')"
  by simp

lemma keeps_option [keeps]: "keeps I m \<Longrightarrow> (\<And>x. keeps I (f x)) \<Longrightarrow> keeps I (case v of None \<Rightarrow> m | Some x \<Rightarrow> f x)"
  by (cases v) simp_all

lemma keeps_sum [keeps]: "(\<And>x. keeps I (f x)) \<Longrightarrow> (\<And>x. keeps I (g x)) \<Longrightarrow> keeps I (case v of Inl x \<Rightarrow> f x | Inr x \<Rightarrow> g x)"
  by (cases v) simp_all

lemma keeps_pair [keeps]: "(\<And>x y. keeps I (f x y)) \<Longrightarrow> keeps I (case v of (x, y) \<Rightarrow> f x y)"
  by (cases v) simp

lemma keeps_Let [keeps]: "(\<And>x. keeps I (f x)) \<Longrightarrow> keeps I (let x = v in f x)"
  by simp

lemma keeps_writet: "(\<And>s. I s \<Longrightarrow> I (f s)) \<Longrightarrow> keeps I (writet f)"
  by (simp add: keeps_def writet_def)

lemma bindt_Inr:
  "bindt m k s = Inr (y, s') \<longleftrightarrow> (\<exists>x t. m s = Inr (x, t) \<and> k x t = Inr (y, s'))"
  by (auto simp: bindt_def split: sum.splits)

lemma bindt_readt: "bindt (readt f) k s = k (f s) s"
  by (simp add: bindt_def readt_def)

lemma bindt_writet: "bindt (writet f) k s = k () (f s)"
  by (simp add: bindt_def writet_def)

lemma bindt_guardt: "bindt (guardt P e) k s = (if P s then k () s else Inl e)"
  by (simp add: bindt_def guardt_def)

lemma bindt_returnt: "bindt (returnt x) k = k x"
  by (rule ext) (simp add: bindt_def returnt_def)

lemma bindt_throwt: "bindt (throwt e) k = throwt e"
  by (rule ext) (simp add: bindt_def throwt_def)

lemma bindt_assoc: "bindt (bindt m k) l = bindt m (\<lambda>x. bindt (k x) l)"
  by (rule ext) (simp add: bindt_def split: sum.splits)

text \<open>Running a transaction on a given state.\<close>

lemmas tx_run = bindt_readt bindt_writet bindt_guardt bindt_returnt bindt_throwt bindt_assoc

lemma guardt_Inr [simp]: "guardt P e s = Inr (x, s') \<longleftrightarrow> P s \<and> s' = s"
  by (auto simp: guardt_def)

lemma readt_Inr [simp]: "readt f s = Inr (x, s') \<longleftrightarrow> x = f s \<and> s' = s"
  by (auto simp: readt_def)

lemma writet_Inr [simp]: "writet f s = Inr (x, s') \<longleftrightarrow> s' = f s"
  by (auto simp: writet_def)

lemma returnt_Inr [simp]: "returnt x s = Inr (y, s') \<longleftrightarrow> y = x \<and> s' = s"
  by (auto simp: returnt_def)

lemma throwt_Inr [simp]: "throwt e s \<noteq> Inr r"
  by (simp add: throwt_def)

lemma maperr_Inr [simp]: "maperr f m s = Inr r \<longleftrightarrow> m s = Inr r"
  by (auto simp: maperr_def split: sum.splits)

text \<open>\<open>COALESCE(revoked_at, now)\<close>.\<close>

definition stamped :: "time option \<Rightarrow> time \<Rightarrow> time option" where
  "stamped t now = (case t of None \<Rightarrow> Some now | Some _ \<Rightarrow> t)"

lemma stamped_Some [simp]: "stamped t now \<noteq> None" "stamped (Some x) now = Some x"
  by (simp_all add: stamped_def split: option.splits)

section \<open>Audit events\<close>

text \<open>The audit table is append-only and its event keys are unique.\<close>

definition append_audit :: "audit_row \<Rightarrow> unit ttx" where
  "append_audit a = bindt (guardt (\<lambda>s. \<not> list_ex (\<lambda>b. a_key b = a_key a) (tn_audit s)) (UniqueConstraint ''audit_events_event_key_key''))
     (\<lambda>_. writet (\<lambda>s. s\<lparr>tn_audit := tn_audit s @ [a]\<rparr>))"

definition auditUserAgentFingerprint :: "(string \<Rightarrow> string) \<Rightarrow> string option \<Rightarrow> string option" where
  "auditUserAgentFingerprint sha256 v =
     (case v of None \<Rightarrow> None | Some s \<Rightarrow> if s = [] then None else Some (''sha256:'' @ sha256 s))"

text \<open>Who calls: the request identifier and user agent of the audit record.\<close>

record audit_context =
  ac_requestId :: "string option"
  ac_userAgent :: "string option"

section \<open>Revoking what depends on a credential\<close>

text \<open>
  \<open>UPDATE machine_gateway_grants SET revoked_at = COALESCE(revoked_at, statement_timestamp())\<close>, with the
  constraint that a revocation is not before the creation.
\<close>

definition revoke_grants :: "(gateway_grant_row \<Rightarrow> bool) \<Rightarrow> time \<Rightarrow> unit ttx" where
  "revoke_grants P now =
     bindt (guardt (\<lambda>s. list_all (\<lambda>g. P g \<longrightarrow> gg_revoked_at g \<noteq> None \<or> gg_created_at g \<le> now) (tn_grants s))
       (CheckConstraint ''machine_gateway_grants_revocation_check''))
     (\<lambda>_. writet (\<lambda>s. s\<lparr>tn_grants := sql_update P (\<lambda>g. g\<lparr>gg_revoked_at := stamped (gg_revoked_at g) now\<rparr>) (tn_grants s)\<rparr>))"

definition issued_by :: "string \<Rightarrow> string \<Rightarrow> uuid \<Rightarrow> gateway_grant_row \<Rightarrow> bool" where
  "issued_by kind i org g \<longleftrightarrow> gg_issuer_type g = kind \<and> gg_issuer_id g = i \<and> gg_organization_id g = org \<and> gg_revoked_at g = None"

text \<open>
  An update of \<open>disabled_at\<close> or \<open>revoked_at\<close> of API keys: the constraint, and the trigger that revokes the
  grants of the keys that were cut off by it.
\<close>

definition key_cut_off :: "(api_key_row \<Rightarrow> api_key_row) \<Rightarrow> api_key_row \<Rightarrow> bool" where
  "key_cut_off f k \<longleftrightarrow> (ak_disabled_at k = None \<and> ak_disabled_at (f k) \<noteq> None) \<or> (ak_revoked_at k = None \<and> ak_revoked_at (f k) \<noteq> None)"

definition update_keys :: "(api_key_row \<Rightarrow> bool) \<Rightarrow> (api_key_row \<Rightarrow> api_key_row) \<Rightarrow> time \<Rightarrow> unit ttx" where
  "update_keys P f now =
     bindt (guardt (\<lambda>s. list_all (\<lambda>k. P k \<longrightarrow> (case ak_disabled_at (f k) of None \<Rightarrow> True | Some t \<Rightarrow> ak_created_at k \<le> t)) (tn_api_keys s))
       (CheckConstraint ''api_keys_disabled_at_check''))
     (\<lambda>_. bindt (readt (\<lambda>s. map (\<lambda>k. (ak_id k, ak_organization_id k)) (filter (\<lambda>k. P k \<and> key_cut_off f k) (tn_api_keys s))))
     (\<lambda>cut. bindt (writet (\<lambda>s. s\<lparr>tn_api_keys := sql_update P f (tn_api_keys s)\<rparr>))
     (\<lambda>_. revoke_grants (\<lambda>g. list_ex (\<lambda>(i, org). issued_by ''api_key'' i org g) cut) now)))"

text \<open>What is left alone by these statements.\<close>

lemma revoke_grants_Inr:
  "revoke_grants P now s = Inr (x, s') \<Longrightarrow>
    s' = s\<lparr>tn_grants := sql_update P (\<lambda>g. g\<lparr>gg_revoked_at := stamped (gg_revoked_at g) now\<rparr>) (tn_grants s)\<rparr>"
  by (auto simp: revoke_grants_def bindt_Inr)

lemma append_audit_Inr: "append_audit a s = Inr (x, s') \<Longrightarrow> s' = s\<lparr>tn_audit := tn_audit s @ [a]\<rparr>"
  by (auto simp: append_audit_def bindt_Inr)

lemma update_keys_Inr:
  assumes "update_keys P f now s = Inr (x, s')"
  shows "\<exists>gs. s' = s\<lparr>tn_api_keys := sql_update P f (tn_api_keys s), tn_grants := gs\<rparr>"
  using assms by (auto simp: update_keys_def bindt_Inr dest!: revoke_grants_Inr)

lemma keeps_frame_grants: "(\<And>s gs. I s \<Longrightarrow> I (s\<lparr>tn_grants := gs\<rparr>)) \<Longrightarrow> keeps I (revoke_grants P now)"
  by (rule keepsI) (auto dest!: revoke_grants_Inr)

lemma keeps_frame_audit: "(\<And>s xs. I s \<Longrightarrow> I (s\<lparr>tn_audit := xs\<rparr>)) \<Longrightarrow> keeps I (append_audit a)"
  by (rule keepsI) (auto dest!: append_audit_Inr)

section \<open>Organizations\<close>

definition member_of :: "string \<Rightarrow> uuid \<Rightarrow> tenancy \<Rightarrow> (user_row \<times> member_row) option" where
  "member_of clerkUserId org s =
     (case find (\<lambda>u. us_clerk_user_id u = clerkUserId \<and> us_disabled_at u = None \<and>
          list_ex (\<lambda>m. om_user_id m = us_id u \<and> om_organization_id m = org) (tn_members s)) (tn_users s) of
        None \<Rightarrow> None
      | Some u \<Rightarrow>
          (if list_ex (\<lambda>x. on_id x = org \<and> on_disabled_at x = None) (tn_organizations s)
           then map_option (Pair u) (find (\<lambda>m. om_user_id m = us_id u \<and> om_organization_id m = org) (tn_members s)) else None))"

definition listForUser :: "(string \<Rightarrow> string \<Rightarrow> int) \<Rightarrow> string \<Rightarrow> tenancy \<Rightarrow> organization_row list" where
  "listForUser collate clerkUserId s =
     sort_by (\<lambda>x y. collate (on_name x) (on_name y))
       (filter (\<lambda>x. on_disabled_at x = None \<and> member_of clerkUserId (on_id x) s \<noteq> None) (tn_organizations s))"

definition userEnabled :: "string \<Rightarrow> tenancy \<Rightarrow> bool" where
  "userEnabled clerkUserId s = list_ex (\<lambda>u. us_clerk_user_id u = clerkUserId \<and> us_disabled_at u = None) (tn_users s)"

definition membershipRole :: "string \<Rightarrow> uuid \<Rightarrow> tenancy \<Rightarrow> membership_role option" where
  "membershipRole clerkUserId org s = map_option (\<lambda>(u, m). om_role m) (member_of clerkUserId org s)"

section \<open>Projects\<close>

definition maximumProjectsPerOrganization :: int where "maximumProjectsPerOrganization = 64"

definition projectFromRow :: "tenant_project \<Rightarrow> tenancy_error + tenant_project" where
  "projectFromRow p =
     (if pj_max_disk_mb p < 0 \<or> pj_max_disk_mb p > MAX_SAFE_INTEGER
      then Inl (PlainTenancyError ''project max_disk_mb is outside the JSON safe-integer range'')
      else if pj_max_storage_mb p < 0 \<or> pj_max_storage_mb p > MAX_SAFE_INTEGER
      then Inl (PlainTenancyError ''project max_storage_mb is outside the JSON safe-integer range'')
      else Inr p)"

definition validOrganizationLimit :: "int \<Rightarrow> bool" where
  "validOrganizationLimit n \<longleftrightarrow> 0 \<le> n \<and> n \<le> maximumProjectsPerOrganization"

definition liftt :: "tenancy_error + 'a \<Rightarrow> 'a ttx" where
  "liftt r = (case r of Inl e \<Rightarrow> throwt e | Inr x \<Rightarrow> returnt x)"

lemma keeps_liftt [keeps]: "keeps I (liftt r)"
  unfolding liftt_def by (intro keeps)

definition projects_of :: "uuid \<Rightarrow> tenancy \<Rightarrow> tenant_project list" where
  "projects_of org s = filter (\<lambda>p. pj_organization_id p = org) (tn_projects s)"

definition findBySlug :: "uuid \<Rightarrow> string \<Rightarrow> tenant_project option ttx" where
  "findBySlug org slug =
     bindt (readt (\<lambda>s. find (\<lambda>p. pj_slug p = slug) (projects_of org s)))
     (\<lambda>row. case row of None \<Rightarrow> returnt None | Some p \<Rightarrow> bindt (liftt (projectFromRow p)) (\<lambda>p. returnt (Some p)))"

definition replayOrConflict :: "tenant_project \<Rightarrow> string \<Rightarrow> (tenant_project \<times> bool) ttx" where
  "replayOrConflict existing normalizedName =
     (if js_trim (pj_name existing) \<noteq> normalizedName then throwt ProjectSlugConflict else returnt (existing, True))"

text \<open>\<open>ORDER BY project.name, project.id LIMIT 65\<close>, in the collation of the database.\<close>

definition list_projects :: "(string \<Rightarrow> string \<Rightarrow> int) \<Rightarrow> uuid \<Rightarrow> uuid option \<Rightarrow> tenancy \<Rightarrow> tenancy_error + tenant_project list" where
  "list_projects collate org project s =
     (let rows = take 65 (sort_by (\<lambda>x y. let d = collate (pj_name x) (pj_name y) in if d \<noteq> 0 then d else cmp_of (pj_id x) (pj_id y))
             (filter (\<lambda>p. list_ex (\<lambda>x. on_id x = org) (tn_organizations s) \<and> (project = None \<or> project = Some (pj_id p))) (projects_of org s)));
          count = min 65 (int (length (projects_of org s))) in
      case (rows, find (\<lambda>x. on_id x = org) (tn_organizations s)) of
        ([], _) \<Rightarrow> Inr []
      | (_, None) \<Rightarrow> Inr []
      | (_, Some organization) \<Rightarrow>
          (if \<not> validOrganizationLimit (on_max_projects organization) \<or> count > on_max_projects organization \<or>
              int (length rows) > on_max_projects organization
           then Inl (ProjectAllocationIntegrityError ''The retained project allocation invariant is not valid.'')
           else (case find (\<lambda>p. isl (projectFromRow p)) rows of
                   Some p \<Rightarrow> (case projectFromRow p of Inl e \<Rightarrow> Inl e | Inr _ \<Rightarrow> Inr rows)
                 | None \<Rightarrow> Inr rows)))"

definition belongsToOrganization :: "uuid \<Rightarrow> uuid \<Rightarrow> tenancy \<Rightarrow> bool" where
  "belongsToOrganization project org s = list_ex (\<lambda>p. pj_id p = project) (projects_of org s)"

text \<open>\<open>INSERT INTO projects\<close> with its defaults, the trigger that bounds the count, and the keys.\<close>

definition new_project :: "uuid \<Rightarrow> uuid \<Rightarrow> string \<Rightarrow> string \<Rightarrow> tenant_project" where
  "new_project i org slug name =
     \<lparr>pj_id = i, pj_organization_id = org, pj_slug = slug, pj_name = name, pj_max_machines = 10, pj_max_vcpus = 20,
      pj_max_memory_mb = 20480, pj_max_disk_mb = 102400, pj_max_storage_mb = 102400\<rparr>"

definition insert_project :: "tenant_project \<Rightarrow> unit ttx" where
  "insert_project p =
     bindt (guardt (\<lambda>s. case find (\<lambda>x. on_id x = pj_organization_id p) (tn_organizations s) of
         None \<Rightarrow> True
       | Some x \<Rightarrow> min (int (length (projects_of (pj_organization_id p) s))) (on_max_projects x + 1) < on_max_projects x)
       (CheckConstraint ''projects_organization_retained_quota''))
     (\<lambda>_. bindt (guardt (\<lambda>s. \<not> list_ex (\<lambda>q. pj_id q = pj_id p) (tn_projects s)) (UniqueConstraint ''projects_pkey''))
     (\<lambda>_. bindt (guardt (\<lambda>s. \<not> list_ex (\<lambda>q. pj_slug q = pj_slug p) (projects_of (pj_organization_id p) s))
       (UniqueConstraint ''projects_organization_id_slug_key''))
     (\<lambda>_. bindt (guardt (\<lambda>s. list_ex (\<lambda>x. on_id x = pj_organization_id p) (tn_organizations s)) (ForeignKeyConstraint ''projects_organization_id_fkey''))
     (\<lambda>_. writet (\<lambda>s. s\<lparr>tn_projects := tn_projects s @ [p]\<rparr>)))))"

definition create_project_tx :: "uuid \<Rightarrow> uuid \<Rightarrow> string \<Rightarrow> string \<Rightarrow> (tenant_project \<times> bool) ttx" where
  "create_project_tx i org slug normalizedName =
     bindt (readt (\<lambda>s. find (\<lambda>x. on_id x = org) (tn_organizations s)))
     (\<lambda>organization. case organization of
        None \<Rightarrow> throwt (ProjectAllocationIntegrityError ''The organization project limit is unavailable or invalid.'')
      | Some x \<Rightarrow>
          if \<not> validOrganizationLimit (on_max_projects x)
          then throwt (ProjectAllocationIntegrityError ''The organization project limit is unavailable or invalid.'')
          else bindt (findBySlug org slug)
            (\<lambda>existing. case existing of
               Some p \<Rightarrow> replayOrConflict p normalizedName
             | None \<Rightarrow>
                 bindt (readt (\<lambda>s. min (int (length (projects_of org s))) (on_max_projects x + 1)))
                 (\<lambda>retainedCount.
                    if retainedCount \<ge> on_max_projects x then throwt ProjectQuotaExceeded
                    else bindt (insert_project (new_project i org slug normalizedName))
                      (\<lambda>_. bindt (liftt (projectFromRow (new_project i org slug normalizedName))) (\<lambda>p. returnt (p, False))))))"

text \<open>\<open>^[a-z0-9][a-z0-9-]{1,62}$\<close>.\<close>

definition slug_ok :: "string \<Rightarrow> bool" where
  "slug_ok s \<longleftrightarrow> 2 \<le> length s \<and> length s \<le> 63 \<and> (is_lower (hd s) \<or> is_digit (hd s)) \<and>
     list_all (\<lambda>c. is_lower c \<or> is_digit c \<or> c = CHR ''-'') s"

text \<open>
  The call: the checks, the transaction, and what the \<open>catch\<close> makes of its error. The slug is looked up
  once more in its own statement.
\<close>

definition create_project :: "uuid \<Rightarrow> uuid \<Rightarrow> string \<Rightarrow> string \<Rightarrow> (tenant_project \<times> bool) ttx" where
  "create_project i org slug name =
     (if \<not> slug_ok slug then throwt (PlainTenancyError ''invalid project slug'')
      else let normalizedName = js_trim name in
      if normalizedName = [] \<or> length name > 160 then throwt (PlainTenancyError ''invalid project name'')
      else (\<lambda>s. case create_project_tx i org slug normalizedName s of
              Inr r \<Rightarrow> Inr r
            | Inl e \<Rightarrow>
                if e = ProjectQuotaExceeded \<or> e = CheckConstraint ''projects_organization_retained_quota'' then Inl ProjectQuotaExceeded
                else if e = UniqueConstraint ''projects_organization_id_slug_key''
                then bindt (findBySlug org slug) (\<lambda>existing. case existing of Some p \<Rightarrow> replayOrConflict p normalizedName | None \<Rightarrow> throwt e) s
                else Inl e))"

lemma insert_project_Inr:
  assumes "insert_project p s = Inr (x, s')"
  shows "s' = s\<lparr>tn_projects := tn_projects s @ [p]\<rparr>"
    and "\<And>y. find (\<lambda>x. on_id x = pj_organization_id p) (tn_organizations s) = Some y \<Longrightarrow>
      int (length (projects_of (pj_organization_id p) s)) < on_max_projects y"
  using assms by (auto simp: insert_project_def bindt_Inr min_def split: if_splits)

section \<open>Invariants of the tenancy\<close>

text \<open>
  What every invariant below has in common: it does not look at audit events or gateway grants, and a
  new project keeps it. The components extend the contract by the statements they write with.
\<close>

locale tenancy_invariant =
  fixes I :: "tenancy \<Rightarrow> bool"
  assumes audit: "I s \<Longrightarrow> I (s\<lparr>tn_audit := a\<rparr>)"
    and grants: "I s \<Longrightarrow> I (s\<lparr>tn_grants := g\<rparr>)"
    and project_added: "\<lbrakk>I s; insert_project p s = Inr (x, s')\<rbrakk> \<Longrightarrow> I s'"
begin

lemma keeps_grants: "keeps I (revoke_grants P now)"
  by (rule keeps_frame_grants) (rule grants)

lemma keeps_audit: "keeps I (append_audit a)"
  by (rule keeps_frame_audit) (rule audit)

lemma keeps_insert_project: "keeps I (insert_project p)"
  by (rule keepsI) (rule project_added)

lemma keeps_findBySlug: "keeps I (findBySlug org slug)"
  unfolding findBySlug_def by (intro keeps)

lemma keeps_replayOrConflict: "keeps I (replayOrConflict p name)"
  unfolding replayOrConflict_def by (intro keeps)

lemma keeps_create_project: "keeps I (create_project i org slug name)"
proof -
  have tx: "keeps I (create_project_tx i org slug n)" for n
    unfolding create_project_tx_def by (intro keeps keeps_insert_project keeps_findBySlug keeps_replayOrConflict)
  have again: "keeps I (bindt (findBySlug org slug) (\<lambda>existing. case existing of Some p \<Rightarrow> replayOrConflict p n | None \<Rightarrow> throwt e))" for n e
    by (intro keeps keeps_findBySlug keeps_replayOrConflict)
  show ?thesis
  proof (rule keepsI)
    fix s x s'
    assume "I s" and "create_project i org slug name s = Inr (x, s')"
    then show "I s'"
      by (auto simp: create_project_def Let_def split: if_splits sum.splits dest: keepsD [OF tx] keepsD [OF again])
  qed
qed

end

text \<open>No organization has more projects than its limit, nor a limit of more than 64.\<close>

definition projects_bounded :: "tenancy \<Rightarrow> bool" where
  "projects_bounded s \<longleftrightarrow> (\<forall>x. find (\<lambda>y. on_id y = on_id x) (tn_organizations s) = Some x \<longrightarrow>
     int (length (projects_of (on_id x) s)) \<le> on_max_projects x \<and> on_max_projects x \<le> maximumProjectsPerOrganization)"

lemma projects_bounded_insert:
  assumes b: "projects_bounded s" and i: "insert_project p s = Inr (x, s')"
  shows "projects_bounded s'"
  unfolding projects_bounded_def
proof (intro allI impI)
  fix y
  assume "find (\<lambda>z. on_id z = on_id y) (tn_organizations s') = Some y"
  then have y: "find (\<lambda>z. on_id z = on_id y) (tn_organizations s) = Some y" by (simp add: insert_project_Inr(1) [OF i])
  with b have le: "int (length (projects_of (on_id y) s)) \<le> on_max_projects y \<and> on_max_projects y \<le> maximumProjectsPerOrganization"
    by (simp add: projects_bounded_def)
  show "int (length (projects_of (on_id y) s')) \<le> on_max_projects y \<and> on_max_projects y \<le> maximumProjectsPerOrganization"
  proof (cases "pj_organization_id p = on_id y")
    case True
    with insert_project_Inr(2) [OF i, of y] y le show ?thesis
      by (simp add: insert_project_Inr(1) [OF i] projects_of_def)
  next
    case False
    with le show ?thesis by (simp add: insert_project_Inr(1) [OF i] projects_of_def)
  qed
qed

end
