(* ===== verification/ApiKeys.thy ===== *)
theory ApiKeys
  imports Tenancy
begin

text \<open>
  \<open>auth/api-key.ts\<close>: the store of API keys, the service that creates, verifies, rotates and revokes
  them, and the bound on concurrent hashing. Argon2 and the generator of key material are arguments.
\<close>

section \<open>The store\<close>

definition apiKeyScopes :: "string list" where
  "apiKeyScopes = [''machines:read'', ''machines:write'', ''templates:read'', ''templates:write'', ''volumes:read'', ''volumes:write'',
     ''billing:read'']"

text \<open>What the store needs from its surroundings: the times of its statements, fresh identifiers, SHA-256.\<close>

record store_env =
  se_clock :: "nat \<Rightarrow> time"
  se_uuid :: "nat \<Rightarrow> uuid"
  se_sha256 :: "string \<Rightarrow> string"

definition auditActor :: "string option \<Rightarrow> string" where
  "auditActor actorId = (case actorId of None \<Rightarrow> ''system'' | Some a \<Rightarrow> if a = [] then ''system'' else ''user'')"

definition key_audit ::
    "store_env \<Rightarrow> string \<Rightarrow> uuid \<Rightarrow> uuid \<Rightarrow> uuid option \<Rightarrow> string option \<Rightarrow> string \<Rightarrow> uuid \<Rightarrow> audit_context \<Rightarrow> (string \<times> json) list \<Rightarrow> audit_row" where
  "key_audit e eventKey operationId org project actorId action resourceId ctx metadata =
     \<lparr>a_key = eventKey, a_operation_id = Some operationId, a_organization_id = Some org, a_project_id = project,
      a_actor_type = auditActor actorId, a_actor_id = map_option (take 256) actorId, a_action = action, a_outcome = ''succeeded'',
      a_reason_code = None, a_resource_type = ''api_key'', a_resource_id = resourceId,
      a_request_id = map_option (take 128) (ac_requestId ctx),
      a_user_agent = auditUserAgentFingerprint (se_sha256 e) (ac_userAgent ctx), a_metadata = metadata\<rparr>"

text \<open>A current owner or administrator of an enabled organization.\<close>

definition administrates :: "string \<Rightarrow> uuid \<Rightarrow> tenancy \<Rightarrow> bool" where
  "administrates clerkUserId org s =
     list_ex (\<lambda>u. us_clerk_user_id u = clerkUserId \<and> us_disabled_at u = None \<and>
       list_ex (\<lambda>m. om_user_id m = us_id u \<and> om_organization_id m = org \<and> om_role m \<in> {Owner, Admin}) (tn_members s)) (tn_users s)"

definition organization_enabled :: "uuid \<Rightarrow> tenancy \<Rightarrow> bool" where
  "organization_enabled org s = list_ex (\<lambda>x. on_id x = org \<and> on_disabled_at x = None) (tn_organizations s)"

definition lockApiKeyAdministrator :: "uuid \<Rightarrow> string option \<Rightarrow> unit ttx" where
  "lockApiKeyAdministrator org actorId =
     (case actorId of
        None \<Rightarrow> returnt ()
      | Some a \<Rightarrow> if a = [] then returnt ()
          else guardt (\<lambda>s. organization_enabled org s \<and> administrates a org s) ApiKeyAuthorizationDenied)"

text \<open>The trigger that bounds the keys of an organization and of a project.\<close>

definition keys_of :: "uuid \<Rightarrow> tenancy \<Rightarrow> api_key_row list" where
  "keys_of org s = filter (\<lambda>k. ak_organization_id k = org) (tn_api_keys s)"

definition project_keys :: "uuid \<Rightarrow> uuid \<Rightarrow> tenancy \<Rightarrow> api_key_row list" where
  "project_keys org project s = filter (\<lambda>k. ak_project_id k = Some project) (keys_of org s)"

definition unrevoked :: "api_key_row list \<Rightarrow> api_key_row list" where
  "unrevoked ks = filter (\<lambda>k. ak_revoked_at k = None) ks"

definition enforce_api_key_allocation_bounds :: "uuid \<Rightarrow> uuid option \<Rightarrow> unit ttx" where
  "enforce_api_key_allocation_bounds org project =
     bindt (guardt (\<lambda>s. length (unrevoked (keys_of org s)) < 64) (CheckConstraint ''api_keys_organization_active_quota''))
     (\<lambda>_. bindt (guardt (\<lambda>s. length (keys_of org s) < 4096) (CheckConstraint ''api_keys_organization_retained_quota''))
     (\<lambda>_. case project of
        None \<Rightarrow> returnt ()
      | Some p \<Rightarrow>
          bindt (guardt (\<lambda>s. length (unrevoked (project_keys org p s)) < 16) (CheckConstraint ''api_keys_project_active_quota''))
          (\<lambda>_. guardt (\<lambda>s. length (project_keys org p s) < 1024) (CheckConstraint ''api_keys_project_retained_quota''))))"

definition argon_hash :: "string \<Rightarrow> bool" where
  "argon_hash h \<longleftrightarrow> startsWith h ''$argon2id$''"

text \<open>\<open>INSERT INTO api_keys\<close>: the trigger, the checks, the keys and the foreign key.\<close>

definition insert_key :: "api_key_row \<Rightarrow> unit ttx" where
  "insert_key k =
     bindt (enforce_api_key_allocation_bounds (ak_organization_id k) (ak_project_id k))
     (\<lambda>_. bindt (guardt (\<lambda>s. 1 \<le> length (ak_name k) \<and> length (ak_name k) \<le> 160) (CheckConstraint ''api_keys_name_check''))
     (\<lambda>_. bindt (guardt (\<lambda>s. argon_hash (ak_key_hash k)) (CheckConstraint ''api_keys_key_hash_check''))
     (\<lambda>_. bindt (guardt (\<lambda>s. ak_scopes k \<noteq> []) (CheckConstraint ''api_keys_scopes_check''))
     (\<lambda>_. bindt (guardt (\<lambda>s. \<not> list_ex (\<lambda>x. ak_id x = ak_id k) (tn_api_keys s)) (UniqueConstraint ''api_keys_pkey''))
     (\<lambda>_. bindt (guardt (\<lambda>s. \<not> list_ex (\<lambda>x. ak_prefix x = ak_prefix k) (tn_api_keys s)) (UniqueConstraint ''api_keys_prefix_key''))
     (\<lambda>_. bindt (guardt (\<lambda>s. case ak_project_id k of None \<Rightarrow> True | Some p \<Rightarrow> belongsToOrganization p (ak_organization_id k) s)
       (ForeignKeyConstraint ''api_keys_project_id_organization_id_fkey''))
     (\<lambda>_. writet (\<lambda>s. s\<lparr>tn_api_keys := tn_api_keys s @ [k]\<rparr>))))))))"

text \<open>\<open>isPrefixCollision\<close> and \<open>isAllocationQuotaExceeded\<close>, applied by the \<open>catch\<close> of the writing calls.\<close>

definition key_write_error :: "tenancy_error \<Rightarrow> tenancy_error" where
  "key_write_error e =
     (case e of
        UniqueConstraint c \<Rightarrow> if c = ''api_keys_prefix_key'' then ApiKeyPrefixCollision else e
      | CheckConstraint c \<Rightarrow> if startsWith c ''api_keys_'' \<and> endsWith c ''_quota'' then ApiKeyQuotaExceeded else e
      | _ \<Rightarrow> e)"

record api_key_record =
  kr_id :: uuid
  kr_organizationId :: uuid
  kr_projectId :: "uuid option"
  kr_name :: string
  kr_prefix :: string
  kr_keyHash :: string
  kr_scopes :: "string list"
  kr_expiresAt :: "time option"
  kr_disabledAt :: "time option"
  kr_organizationDisabledAt :: "time option"
  kr_revokedAt :: "time option"

text \<open>The subquery for \<open>created_by\<close>.\<close>

definition acting_user :: "string option \<Rightarrow> tenancy \<Rightarrow> uuid option" where
  "acting_user actorId s =
     (case actorId of None \<Rightarrow> None
      | Some a \<Rightarrow> map_option us_id (find (\<lambda>u. us_clerk_user_id u = a \<and> us_disabled_at u = None) (tn_users s)))"

definition key_row :: "api_key_record \<Rightarrow> uuid option \<Rightarrow> time \<Rightarrow> api_key_row" where
  "key_row x creator now =
     \<lparr>ak_id = kr_id x, ak_organization_id = kr_organizationId x, ak_project_id = kr_projectId x, ak_name = kr_name x,
      ak_prefix = kr_prefix x, ak_key_hash = kr_keyHash x, ak_scopes = kr_scopes x, ak_created_by = creator, ak_created_at = now,
      ak_last_used_at = None, ak_expires_at = kr_expiresAt x, ak_disabled_at = None, ak_revoked_at = None\<rparr>"

text \<open>The rows the \<open>INSERT ... SELECT\<close> of \<open>insert\<close> selects: one, or none.\<close>

definition may_insert :: "api_key_record \<Rightarrow> string option \<Rightarrow> tenancy \<Rightarrow> bool" where
  "may_insert x actorId s \<longleftrightarrow> organization_enabled (kr_organizationId x) s \<and>
     (case kr_projectId x of None \<Rightarrow> True | Some p \<Rightarrow> belongsToOrganization p (kr_organizationId x) s) \<and>
     (case actorId of None \<Rightarrow> True | Some a \<Rightarrow> administrates a (kr_organizationId x) s)"

definition insert_api_key :: "store_env \<Rightarrow> api_key_record \<Rightarrow> string option \<Rightarrow> audit_context \<Rightarrow> unit ttx" where
  "insert_api_key e x actorId ctx =
     maperr key_write_error
     (bindt (lockApiKeyAdministrator (kr_organizationId x) actorId)
     (\<lambda>_. bindt (guardt (may_insert x actorId)
         (InvalidApiKeyRequest ''organization, project, or administrator is not currently available''))
     (\<lambda>_. bindt (readt (acting_user actorId))
     (\<lambda>creator. bindt (insert_key (key_row x creator (se_clock e 0)))
     (\<lambda>_. append_audit (key_audit e (''api-key-created:'' @ kr_id x) (se_uuid e 0) (kr_organizationId x) (kr_projectId x) actorId
       ''api_key.created'' (kr_id x) ctx []))))))"

definition list_api_keys :: "uuid \<Rightarrow> uuid option \<Rightarrow> tenancy \<Rightarrow> api_key_row list" where
  "list_api_keys org project s =
     sort_by (\<lambda>x y. cmp_of (ak_created_at y) (ak_created_at x))
       (filter (\<lambda>k. project = None \<or> ak_project_id k = project) (keys_of org s))"

definition findByPrefix :: "string \<Rightarrow> tenancy \<Rightarrow> api_key_record option" where
  "findByPrefix prefix s =
     (case find (\<lambda>k. ak_prefix k = prefix \<and> list_ex (\<lambda>x. on_id x = ak_organization_id k) (tn_organizations s)) (tn_api_keys s) of
        None \<Rightarrow> None
      | Some k \<Rightarrow> Some \<lparr>kr_id = ak_id k, kr_organizationId = ak_organization_id k, kr_projectId = ak_project_id k, kr_name = ak_name k,
          kr_prefix = ak_prefix k, kr_keyHash = ak_key_hash k, kr_scopes = ak_scopes k, kr_expiresAt = ak_expires_at k,
          kr_disabledAt = ak_disabled_at k,
          kr_organizationDisabledAt = (case find (\<lambda>x. on_id x = ak_organization_id k) (tn_organizations s) of
             None \<Rightarrow> None | Some x \<Rightarrow> on_disabled_at x),
          kr_revokedAt = ak_revoked_at k\<rparr>)"

definition usable_key :: "uuid \<Rightarrow> uuid \<Rightarrow> time \<Rightarrow> tenancy \<Rightarrow> api_key_row \<Rightarrow> bool" where
  "usable_key i org now s k \<longleftrightarrow> ak_id k = i \<and> ak_organization_id k = org \<and> ak_disabled_at k = None \<and> ak_revoked_at k = None \<and>
     (case ak_expires_at k of None \<Rightarrow> True | Some t \<Rightarrow> t > now) \<and> organization_enabled org s"

definition isActive :: "uuid \<Rightarrow> uuid \<Rightarrow> time \<Rightarrow> tenancy \<Rightarrow> bool" where
  "isActive i org now s = list_ex (usable_key i org now s) (tn_api_keys s)"

definition setDisabled :: "store_env \<Rightarrow> uuid \<Rightarrow> uuid \<Rightarrow> bool \<Rightarrow> string option \<Rightarrow> audit_context \<Rightarrow> bool ttx" where
  "setDisabled e i org disabled actorId ctx =
     bindt (lockApiKeyAdministrator org actorId)
     (\<lambda>_. bindt (readt (\<lambda>s. find (\<lambda>k. ak_id k = i \<and> ak_revoked_at k = None) (keys_of org s)))
     (\<lambda>key. case key of
        None \<Rightarrow> returnt False
      | Some k \<Rightarrow>
          let changed = (if disabled then ak_disabled_at k = None else ak_disabled_at k \<noteq> None) in
          bindt (if changed
                 then bindt (update_keys (\<lambda>k. ak_id k = i \<and> ak_organization_id k = org)
                          (\<lambda>k. k\<lparr>ak_disabled_at := (if disabled then Some (se_clock e 1) else None)\<rparr>) (se_clock e 1))
                        (\<lambda>_. if disabled then revoke_grants (issued_by ''api_key'' i org) (se_clock e 2) else returnt ())
                 else returnt ())
          (\<lambda>_. bindt (append_audit (key_audit e ((if disabled then ''api-key-disabled:'' else ''api-key-enabled:'') @ se_uuid e 0) (se_uuid e 1)
                 org (ak_project_id k) actorId (if disabled then ''api_key.disabled'' else ''api_key.enabled'') i ctx
                 [(''changed'', JBool changed)]))
          (\<lambda>_. returnt True))))"

text \<open>The key a rotation makes: new identifier, prefix and hash, everything else of the old one.\<close>

definition replacement_key :: "api_key_row \<Rightarrow> uuid \<Rightarrow> string \<Rightarrow> string \<Rightarrow> uuid option \<Rightarrow> time \<Rightarrow> api_key_row" where
  "replacement_key k i prefix keyHash creator now =
     \<lparr>ak_id = i, ak_organization_id = ak_organization_id k, ak_project_id = ak_project_id k, ak_name = ak_name k, ak_prefix = prefix,
      ak_key_hash = keyHash, ak_scopes = ak_scopes k, ak_created_by = creator, ak_created_at = now, ak_last_used_at = None,
      ak_expires_at = ak_expires_at k, ak_disabled_at = None, ak_revoked_at = None\<rparr>"

definition rotate_key :: "store_env \<Rightarrow> uuid \<Rightarrow> uuid \<Rightarrow> uuid \<Rightarrow> string \<Rightarrow> string \<Rightarrow> string option \<Rightarrow> audit_context \<Rightarrow> bool ttx" where
  "rotate_key e i org newId prefix keyHash actorId ctx =
     maperr key_write_error
     (bindt (lockApiKeyAdministrator org actorId)
     (\<lambda>_. bindt (readt (\<lambda>s. find (usable_key i org (se_clock e 1) s) (tn_api_keys s)))
     (\<lambda>previous. case previous of
        None \<Rightarrow> returnt False
      | Some k \<Rightarrow>
          bindt (update_keys (\<lambda>x. ak_id x = i) (\<lambda>x. x\<lparr>ak_revoked_at := Some (se_clock e 2)\<rparr>) (se_clock e 2))
          (\<lambda>_. bindt (revoke_grants (issued_by ''api_key'' i org) (se_clock e 3))
          (\<lambda>_. bindt (readt (acting_user actorId))
          (\<lambda>creator. bindt (insert_key (replacement_key k newId prefix keyHash creator (se_clock e 0)))
          (\<lambda>_. bindt (append_audit (key_audit e (''api-key-rotated:'' @ i) (se_uuid e 0) org (ak_project_id k) actorId ''api_key.rotated'' i ctx
                 [(''replacement_id'', JStr newId)]))
          (\<lambda>_. bindt (append_audit (key_audit e (''api-key-rotation-created:'' @ newId) (se_uuid e 0) org (ak_project_id k) actorId
                 ''api_key.rotation_created'' newId ctx [(''replaced_id'', JStr i)]))
          (\<lambda>_. returnt True)))))))))"

text \<open>The audit event of a revocation is written once, \<open>ON CONFLICT (event_key) DO NOTHING\<close>.\<close>

definition append_audit_once :: "audit_row \<Rightarrow> unit ttx" where
  "append_audit_once a = writet (\<lambda>s. if list_ex (\<lambda>b. a_key b = a_key a) (tn_audit s) then s else s\<lparr>tn_audit := tn_audit s @ [a]\<rparr>)"

definition revoke_key :: "store_env \<Rightarrow> uuid \<Rightarrow> uuid \<Rightarrow> string option \<Rightarrow> audit_context \<Rightarrow> bool ttx" where
  "revoke_key e i org actorId ctx =
     bindt (lockApiKeyAdministrator org actorId)
     (\<lambda>_. bindt (readt (\<lambda>s. find (\<lambda>k. ak_id k = i) (keys_of org s)))
     (\<lambda>key. bindt (update_keys (\<lambda>k. ak_id k = i \<and> ak_organization_id k = org)
              (\<lambda>k. k\<lparr>ak_revoked_at := stamped (ak_revoked_at k) (se_clock e 1)\<rparr>) (se_clock e 1))
     (\<lambda>_. case key of
        None \<Rightarrow> returnt False
      | Some k \<Rightarrow>
          bindt (revoke_grants (issued_by ''api_key'' i org) (se_clock e 2))
          (\<lambda>_. bindt (append_audit_once (key_audit e (''api-key-revoked:'' @ i) (se_uuid e 0) org (ak_project_id k) actorId
                 ''api_key.revoked'' i ctx []))
          (\<lambda>_. returnt True)))))"

definition touch_key :: "uuid \<Rightarrow> time \<Rightarrow> unit ttx" where
  "touch_key i now = writet (\<lambda>s. s\<lparr>tn_api_keys := sql_update (\<lambda>k. ak_id k = i) (\<lambda>k. k\<lparr>ak_last_used_at := Some now\<rparr>) (tn_api_keys s)\<rparr>)"

section \<open>The service\<close>

record api_key_principal =
  kp_apiKeyId :: string
  kp_deviceFamilyId :: "uuid option"
  kp_organizationId :: uuid
  kp_projectId :: "uuid option"
  kp_scopes :: "string set"

definition hasScope :: "api_key_principal \<Rightarrow> string \<Rightarrow> bool" where
  "hasScope p required \<longleftrightarrow> required \<in> kp_scopes p"

record key_credential =
  kc_id :: uuid
  kc_key :: string
  kc_prefix :: string

text \<open>
  The surroundings of the service: key material, identifiers and hashing by attempt. Hashing and
  verification can find the gate in front of them full, or fail in the library.
\<close>

record key_env =
  kv_environment :: string
  kv_material :: "nat \<Rightarrow> string \<times> string"
  kv_id :: "nat \<Rightarrow> uuid"
  kv_hashSecret :: "nat \<Rightarrow> string \<Rightarrow> tenancy_error + string"
  kv_verifySecret :: "string \<Rightarrow> string \<Rightarrow> tenancy_error + bool"
  kv_store :: "nat \<Rightarrow> store_env"

definition validateMaterial :: "string \<times> string \<Rightarrow> bool" where
  "validateMaterial mat \<longleftrightarrow> length (fst mat) = 12 \<and> list_all is_hex (fst mat) \<and> length (snd mat) = 43 \<and> list_all secret_char (snd mat)"

record create_key_input =
  ck_organizationId :: uuid
  ck_projectId :: "uuid option"
  ck_name :: string
  ck_scopes :: "string list"
  ck_expiresAt :: "time option"
  ck_actorId :: "string option"
  ck_context :: audit_context

definition validateCreate :: "create_key_input \<Rightarrow> time \<Rightarrow> tenancy_error option" where
  "validateCreate x now =
     (if js_trim (ck_name x) = [] \<or> length (js_trim (ck_name x)) > 160
      then Some (InvalidApiKeyRequest ''API key name must contain 1 to 160 characters'')
      else if ck_scopes x = [] \<or> list_ex (\<lambda>c. c \<notin> set apiKeyScopes) (ck_scopes x)
      then Some (InvalidApiKeyRequest ''at least one valid API key scope is required'')
      else if (case ck_projectId x of None \<Rightarrow> False | Some p \<Rightarrow> \<not> uuid_ok p)
      then Some (InvalidApiKeyRequest ''project_id must be a UUID'')
      else if (case ck_expiresAt x of None \<Rightarrow> False | Some t \<Rightarrow> t \<le> now)
      then Some (InvalidApiKeyRequest ''expires_at must be a future timestamp'')
      else None)"

definition credential :: "key_env \<Rightarrow> nat \<Rightarrow> tenancy_error + key_credential" where
  "credential e n =
     (if \<not> validateMaterial (kv_material e n) then Inl (PlainTenancyError ''API-key material generator returned an invalid value'')
      else let prefix = ''bc_'' @ kv_environment e @ ''_'' @ fst (kv_material e n) in
        Inr \<lparr>kc_id = kv_id e n, kc_key = prefix @ ''_'' @ snd (kv_material e n), kc_prefix = prefix\<rparr>)"

definition allocationAttempts :: nat where "allocationAttempts = 5"

text \<open>
  The loop of \<open>create\<close> and \<open>rotate\<close>: attempt after attempt until the prefix is free; the write of an
  attempt is \<open>act\<close>.
\<close>

fun attempts :: "key_env \<Rightarrow> (nat \<Rightarrow> key_credential \<Rightarrow> string \<Rightarrow> 'a ttx) \<Rightarrow> nat list \<Rightarrow> 'a ttx" where
  "attempts e act [] s = Inl ApiKeyAllocationUnavailable"
| "attempts e act (n # ns) s =
     (case credential e n of
        Inl err \<Rightarrow> Inl err
      | Inr c \<Rightarrow>
     (case kv_hashSecret e n (kc_key c) of
        Inl err \<Rightarrow> Inl err
      | Inr keyHash \<Rightarrow>
     (case act n c keyHash s of
        Inr r \<Rightarrow> Inr r
      | Inl err \<Rightarrow> if err = ApiKeyPrefixCollision then attempts e act ns s else Inl err)))"

definition create_record :: "create_key_input \<Rightarrow> key_credential \<Rightarrow> string \<Rightarrow> api_key_record" where
  "create_record x c keyHash =
     \<lparr>kr_id = kc_id c, kr_organizationId = ck_organizationId x, kr_projectId = ck_projectId x, kr_name = js_trim (ck_name x),
      kr_prefix = kc_prefix c, kr_keyHash = keyHash, kr_scopes = rev (remdups (rev (ck_scopes x))), kr_expiresAt = ck_expiresAt x,
      kr_disabledAt = None, kr_organizationDisabledAt = None, kr_revokedAt = None\<rparr>"

definition create_api_key :: "key_env \<Rightarrow> create_key_input \<Rightarrow> time \<Rightarrow> key_credential ttx" where
  "create_api_key e x now =
     (case validateCreate x now of
        Some err \<Rightarrow> throwt err
      | None \<Rightarrow>
          attempts e (\<lambda>n c keyHash. bindt (insert_api_key (kv_store e n) (create_record x c keyHash) (ck_actorId x) (ck_context x)) (\<lambda>_. returnt c))
            [0..<allocationAttempts])"

definition rotate_api_key :: "key_env \<Rightarrow> uuid \<Rightarrow> uuid \<Rightarrow> string option \<Rightarrow> audit_context \<Rightarrow> key_credential option ttx" where
  "rotate_api_key e i org actorId ctx =
     attempts e (\<lambda>n c keyHash. bindt (rotate_key (kv_store e n) i org (kc_id c) (kc_prefix c) keyHash actorId ctx)
         (\<lambda>rotated. returnt (if rotated then Some c else None)))
       [0..<allocationAttempts]"

definition apiKeyDummyHash :: string where
  "apiKeyDummyHash = ''$argon2id$v=19$m=19456,t=2,p=1$H5Y4yC5BsF4pyYmc1FjEEQ$1cI1NdYhgADdSVLKnM3Q11qDVv4SWcxk1tymUQvDX6Q''"

definition unknownId :: uuid where "unknownId = ''00000000-0000-4000-8000-000000000000''"

text \<open>
  The call reads twice: the record before the verification, and whether it is active after it. Other
  transactions may run in between, so the two states are arguments; \<open>seen\<close> is the time of the second
  statement and \<open>now\<close> the clock of the process.
\<close>

definition authenticate_key :: "key_env \<Rightarrow> string \<Rightarrow> tenancy \<Rightarrow> tenancy \<Rightarrow> time \<Rightarrow> time \<Rightarrow> tenancy_error + api_key_principal option" where
  "authenticate_key e raw before after seen now =
     (case apiKeyPublicPrefix raw of
        None \<Rightarrow> Inr None
      | Some prefix \<Rightarrow>
          (let found = findByPrefix prefix before;
               keyHash = (case found of None \<Rightarrow> apiKeyDummyHash | Some x \<Rightarrow> kr_keyHash x) in
           if kv_verifySecret e keyHash raw = Inl ApiKeyVerifierBusy then Inl ApiKeyVerifierBusy
           else let verified = (kv_verifySecret e keyHash raw = Inr True);
                    active = (case found of None \<Rightarrow> isActive unknownId unknownId seen after
                      | Some x \<Rightarrow> isActive (kr_id x) (kr_organizationId x) seen after) in
             (case found of
                None \<Rightarrow> Inr None
              | Some x \<Rightarrow>
                  if \<not> verified \<or> \<not> active \<or> kr_disabledAt x \<noteq> None \<or> kr_organizationDisabledAt x \<noteq> None \<or> kr_revokedAt x \<noteq> None \<or>
                     (case kr_expiresAt x of None \<Rightarrow> False | Some t \<Rightarrow> t \<le> now)
                  then Inr None
                  else Inr (Some \<lparr>kp_apiKeyId = kr_id x, kp_deviceFamilyId = None, kp_organizationId = kr_organizationId x,
                    kp_projectId = kr_projectId x, kp_scopes = set (kr_scopes x)\<rparr>))))"

section \<open>The bound on concurrent hashing\<close>

text \<open>\<open>BoundedCryptoAdmission\<close>: how many operations run, and who waits, in order.\<close>

record 'w crypto_gate =
  cg_active :: nat
  cg_waiters :: "'w list"

datatype gate_entry = GateRuns | GateWaits | GateBusy

text \<open>\<open>run\<close> before the operation, and its \<open>finally\<close>: the permit goes to the first waiter or back.\<close>

definition gate_enter :: "nat \<Rightarrow> nat \<Rightarrow> 'w \<Rightarrow> 'w crypto_gate \<Rightarrow> gate_entry \<times> 'w crypto_gate" where
  "gate_enter concurrentLimit queueLimit w g =
     (if cg_active g < concurrentLimit then (GateRuns, g\<lparr>cg_active := cg_active g + 1\<rparr>)
      else if length (cg_waiters g) \<ge> queueLimit then (GateBusy, g)
      else (GateWaits, g\<lparr>cg_waiters := cg_waiters g @ [w]\<rparr>))"

definition gate_leave :: "'w crypto_gate \<Rightarrow> 'w option \<times> 'w crypto_gate" where
  "gate_leave g =
     (case cg_waiters g of
        w # ws \<Rightarrow> (Some w, g\<lparr>cg_waiters := ws\<rparr>)
      | [] \<Rightarrow> (None, g\<lparr>cg_active := cg_active g - 1\<rparr>))"

text \<open>The callers of a gate: those whose operation runs are \<open>running\<close>.\<close>

inductive gated :: "nat \<Rightarrow> nat \<Rightarrow> 'w list \<Rightarrow> 'w crypto_gate \<Rightarrow> bool" for c q where
  gate_start: "gated c q [] \<lparr>cg_active = 0, cg_waiters = []\<rparr>"
| gate_runs: "\<lbrakk>gated c q running g; gate_enter c q w g = (GateRuns, g')\<rbrakk> \<Longrightarrow> gated c q (w # running) g'"
| gate_waits: "\<lbrakk>gated c q running g; gate_enter c q w g = (GateWaits, g')\<rbrakk> \<Longrightarrow> gated c q running g'"
| gate_busy: "\<lbrakk>gated c q running g; gate_enter c q w g = (GateBusy, g')\<rbrakk> \<Longrightarrow> gated c q running g'"
| gate_leaves: "\<lbrakk>gated c q running g; w \<in> set running; gate_leave g = (v, g')\<rbrakk> \<Longrightarrow>
    gated c q (case v of None \<Rightarrow> remove1 w running | Some u \<Rightarrow> u # remove1 w running) g'"

definition gate_inv :: "nat \<Rightarrow> nat \<Rightarrow> 'w list \<Rightarrow> 'w crypto_gate \<Rightarrow> bool" where
  "gate_inv c q running g \<longleftrightarrow> cg_active g = length running \<and> length running \<le> c \<and> length (cg_waiters g) \<le> q \<and>
     (cg_waiters g = [] \<or> length running = c)"

lemma gated_inv: "gated c q running g \<Longrightarrow> gate_inv c q running g"
proof (induction rule: gated.induct)
  case (gate_leaves running g w v g')
  then have "Suc (length running - 1) = length running" by (cases running) auto
  with gate_leaves show ?case
    by (auto simp: gate_inv_def gate_leave_def length_remove1 split: list.splits)
qed (auto simp: gate_inv_def gate_enter_def split: if_splits)

section \<open>Invariants of the table of keys\<close>

text \<open>What an update of a key keeps: its identity, and a revocation.\<close>

definition key_edit :: "(api_key_row \<Rightarrow> api_key_row) \<Rightarrow> bool" where
  "key_edit f \<longleftrightarrow> (\<forall>k. ak_id (f k) = ak_id k \<and> ak_organization_id (f k) = ak_organization_id k \<and> ak_project_id (f k) = ak_project_id k \<and>
     ak_prefix (f k) = ak_prefix k \<and> ak_key_hash (f k) = ak_key_hash k \<and> ak_scopes (f k) = ak_scopes k \<and>
     (ak_revoked_at k \<noteq> None \<longrightarrow> ak_revoked_at (f k) \<noteq> None))"

text \<open>
  An invariant that the two statements which write the table keep: every transaction of the store and
  of the service then keeps it.
\<close>

locale key_invariant = tenancy_invariant +
  assumes key_added: "\<lbrakk>I s; insert_key k s = Inr (x, s')\<rbrakk> \<Longrightarrow> I s'"
    and key_edited: "\<lbrakk>I s; key_edit f\<rbrakk> \<Longrightarrow> I (s\<lparr>tn_api_keys := sql_update P f (tn_api_keys s)\<rparr>)"
begin

lemma keeps_insert_key: "keeps I (insert_key k)"
  by (rule keepsI) (rule key_added)

lemma keeps_update_keys: "key_edit f \<Longrightarrow> keeps I (update_keys P f now)"
proof (rule keepsI)
  fix s x s'
  assume f: "key_edit f" and "I s" and u: "update_keys P f now s = Inr (x, s')"
  then have "I (s\<lparr>tn_api_keys := sql_update P f (tn_api_keys s)\<rparr>)" by (blast intro: key_edited)
  then show "I s'" using update_keys_Inr [OF u] by (auto dest: grants)
qed

lemma keeps_lockApiKeyAdministrator: "keeps I (lockApiKeyAdministrator org a)"
  unfolding lockApiKeyAdministrator_def by (intro keeps)

lemmas statements = keeps_grants keeps_audit keeps_update_keys keeps_lockApiKeyAdministrator keeps_insert_key

lemma keeps_insert_api_key: "keeps I (insert_api_key e x a ctx)"
  unfolding insert_api_key_def by (intro keeps statements)

lemma keeps_setDisabled: "keeps I (setDisabled e i org d a ctx)"
  unfolding setDisabled_def by (intro keeps statements) (simp_all add: key_edit_def)

lemma keeps_rotate_key: "keeps I (rotate_key e i org j prefix h a ctx)"
  unfolding rotate_key_def by (intro keeps statements) (simp_all add: key_edit_def)

lemma keeps_revoke_key: "keeps I (revoke_key e i org a ctx)"
proof -
  have "keeps I (append_audit_once r)" for r
    unfolding append_audit_once_def by (rule keeps_writet) (simp add: audit)
  then show ?thesis
    unfolding revoke_key_def by (intro keeps statements) (simp_all add: key_edit_def stamped_def split: option.splits)
qed

lemma keeps_touch_key: "keeps I (touch_key i now)"
  unfolding touch_key_def by (rule keeps_writet) (erule key_edited, simp add: key_edit_def)

lemma keeps_attempts: "(\<And>n c h. keeps I (act n c h)) \<Longrightarrow> keeps I (attempts e act ns)"
proof (induction ns)
  case (Cons n ns)
  show ?case
  proof (rule keepsI)
    fix s x s'
    assume "I s" and "attempts e act (n # ns) s = Inr (x, s')"
    then show "I s'"
      by (auto split: sum.splits if_splits dest: keepsD [OF Cons(2)] keepsD [OF Cons(1) [OF Cons(2)]])
  qed
qed (simp add: keeps_def)

lemma keeps_create_api_key: "keeps I (create_api_key e x now)"
  unfolding create_api_key_def by (intro keeps keeps_attempts keeps_insert_api_key)

lemma keeps_rotate_api_key: "keeps I (rotate_api_key e i org a ctx)"
  unfolding rotate_api_key_def by (intro keeps keeps_attempts keeps_rotate_key)

end

text \<open>A key that was revoked: its row is there, and revoked.\<close>

definition key_dead :: "uuid \<Rightarrow> tenancy \<Rightarrow> bool" where
  "key_dead i s \<longleftrightarrow> list_ex (\<lambda>k. ak_id k = i) (tn_api_keys s) \<and> list_all (\<lambda>k. ak_id k = i \<longrightarrow> ak_revoked_at k \<noteq> None) (tn_api_keys s)"

text \<open>The limits of migration 0035.\<close>

definition key_quotas :: "tenancy \<Rightarrow> bool" where
  "key_quotas s \<longleftrightarrow> (\<forall>org. length (unrevoked (keys_of org s)) \<le> 64 \<and> length (keys_of org s) \<le> 4096 \<and>
     (\<forall>p. length (unrevoked (project_keys org p s)) \<le> 16 \<and> length (project_keys org p s) \<le> 1024))"

definition keys_unique :: "tenancy \<Rightarrow> bool" where
  "keys_unique s \<longleftrightarrow> distinct (map ak_id (tn_api_keys s)) \<and> distinct (map ak_prefix (tn_api_keys s))"

lemma insert_key_Inr:
  assumes "insert_key k s = Inr (x, s')"
  shows "s' = s\<lparr>tn_api_keys := tn_api_keys s @ [k]\<rparr>"
    and "length (unrevoked (keys_of (ak_organization_id k) s)) < 64"
    and "length (keys_of (ak_organization_id k) s) < 4096"
    and "\<And>p. ak_project_id k = Some p \<Longrightarrow> length (unrevoked (project_keys (ak_organization_id k) p s)) < 16"
    and "\<And>p. ak_project_id k = Some p \<Longrightarrow> length (project_keys (ak_organization_id k) p s) < 1024"
    and "\<not> list_ex (\<lambda>x. ak_id x = ak_id k) (tn_api_keys s)"
    and "\<not> list_ex (\<lambda>x. ak_prefix x = ak_prefix k) (tn_api_keys s)"
  using assms by (cases "ak_project_id k"; auto simp: insert_key_def enforce_api_key_allocation_bounds_def bindt_Inr)+

lemma length_unrevoked_edit:
  assumes "key_edit f" and "\<And>k. Q (f k) = Q k"
  shows "length (unrevoked (filter Q (sql_update P f ks))) \<le> length (unrevoked (filter Q ks))"
    and "length (filter Q (sql_update P f ks)) = length (filter Q ks)"
  using assms by (induction ks) (auto simp: unrevoked_def key_edit_def)

lemma key_edit_parts:
  assumes "key_edit f"
  shows "ak_id (f k) = ak_id k" and "ak_organization_id (f k) = ak_organization_id k" and "ak_project_id (f k) = ak_project_id k"
    and "ak_prefix (f k) = ak_prefix k" and "ak_revoked_at k \<noteq> None \<Longrightarrow> ak_revoked_at (f k) \<noteq> None"
  using assms by (simp_all add: key_edit_def)

lemma key_dead_edit: "key_edit f \<Longrightarrow> list_all (\<lambda>k. ak_id k = i \<longrightarrow> ak_revoked_at k \<noteq> None) ks \<Longrightarrow>
    list_all (\<lambda>k. ak_id k = i \<longrightarrow> ak_revoked_at k \<noteq> None) (sql_update P f ks)"
  by (induction ks) (auto simp: key_edit_def)

lemma list_ex_id_edit: "key_edit f \<Longrightarrow> list_ex (\<lambda>k. ak_id k = i) (sql_update P f ks) = list_ex (\<lambda>k. ak_id k = i) ks"
  by (induction ks) (auto simp: key_edit_def)

lemma key_dead_kept:
  "\<lbrakk>key_dead i s; insert_key k s = Inr (x, s')\<rbrakk> \<Longrightarrow> key_dead i s'"
  "\<lbrakk>key_dead i s; key_edit f\<rbrakk> \<Longrightarrow> key_dead i (s\<lparr>tn_api_keys := sql_update P f (tn_api_keys s)\<rparr>)"
  subgoal by (frule insert_key_Inr(1), drule insert_key_Inr(6)) (auto simp: key_dead_def)
  subgoal using key_dead_edit [of f i "tn_api_keys s" P] by (simp add: key_dead_def list_ex_id_edit)
  done

lemma keys_unique_kept:
  "\<lbrakk>keys_unique s; insert_key k s = Inr (x, s')\<rbrakk> \<Longrightarrow> keys_unique s'"
  "\<lbrakk>keys_unique s; key_edit f\<rbrakk> \<Longrightarrow> keys_unique (s\<lparr>tn_api_keys := sql_update P f (tn_api_keys s)\<rparr>)"
  subgoal by (frule insert_key_Inr(1), frule insert_key_Inr(6), drule insert_key_Inr(7)) (auto simp: keys_unique_def list_ex_iff)
  subgoal by (simp add: keys_unique_def key_edit_parts map_sql_update)
  done

lemma quotas_edit:
  assumes "key_edit f"
  shows "length (unrevoked (keys_of org (s\<lparr>tn_api_keys := sql_update P f (tn_api_keys s)\<rparr>))) \<le> length (unrevoked (keys_of org s))"
    and "length (keys_of org (s\<lparr>tn_api_keys := sql_update P f (tn_api_keys s)\<rparr>)) = length (keys_of org s)"
    and "length (unrevoked (project_keys org p (s\<lparr>tn_api_keys := sql_update P f (tn_api_keys s)\<rparr>))) \<le> length (unrevoked (project_keys org p s))"
    and "length (project_keys org p (s\<lparr>tn_api_keys := sql_update P f (tn_api_keys s)\<rparr>)) = length (project_keys org p s)"
  by (simp_all add: keys_of_def project_keys_def length_unrevoked_edit [OF assms] key_edit_parts [OF assms])

lemma key_quotas_added:
  assumes q: "key_quotas s" and i: "insert_key k s = Inr (x, s')"
  shows "key_quotas s'"
proof -
  have "length (unrevoked (keys_of org s')) \<le> 64 \<and> length (keys_of org s') \<le> 4096" for org
    using q insert_key_Inr(2,3) [OF i]
    by (auto simp: insert_key_Inr(1) [OF i] key_quotas_def keys_of_def unrevoked_def Suc_le_eq)
  moreover have "length (unrevoked (project_keys org p s')) \<le> 16 \<and> length (project_keys org p s') \<le> 1024" for org p
    using q insert_key_Inr(4,5) [OF i]
    by (auto simp: insert_key_Inr(1) [OF i] key_quotas_def project_keys_def keys_of_def unrevoked_def Suc_le_eq)
  ultimately show ?thesis by (simp add: key_quotas_def)
qed

lemma key_quotas_edited:
  assumes q: "key_quotas s" and f: "key_edit f"
  shows "key_quotas (s\<lparr>tn_api_keys := sql_update P f (tn_api_keys s)\<rparr>)"
  unfolding key_quotas_def
proof (intro allI conjI)
  fix org p
  let ?t = "s\<lparr>tn_api_keys := sql_update P f (tn_api_keys s)\<rparr>"
  show "length (unrevoked (keys_of org ?t)) \<le> 64" using q quotas_edit(1) [OF f, of org P s] by (auto simp: key_quotas_def intro: order_trans)
  show "length (keys_of org ?t) \<le> 4096" using q by (simp add: quotas_edit [OF f] key_quotas_def)
  show "length (unrevoked (project_keys org p ?t)) \<le> 16"
    using q quotas_edit(3) [OF f, of org p P s] by (auto simp: key_quotas_def intro: order_trans)
  show "length (project_keys org p ?t) \<le> 1024" using q by (simp add: quotas_edit [OF f] key_quotas_def)
qed

section \<open>Revocation, rotation and creation\<close>

lemma revoke_key_True:
  assumes "revoke_key e i org a ctx s = Inr (True, s')"
  obtains k where "k \<in> set (tn_api_keys s)" and "ak_id k = i" and "ak_organization_id k = org"
    and "tn_api_keys s' = sql_update (\<lambda>k. ak_id k = i \<and> ak_organization_id k = org)
      (\<lambda>k. k\<lparr>ak_revoked_at := stamped (ak_revoked_at k) (se_clock e 1)\<rparr>) (tn_api_keys s)"
  using assms
  by (cases "find (\<lambda>k. ak_id k = i) (keys_of org s)")
    (auto simp: revoke_key_def bindt_Inr append_audit_once_def keys_of_def lockApiKeyAdministrator_def
      dest!: update_keys_Inr revoke_grants_Inr find_SomeD split: option.splits if_splits)

lemma revoke_key_dead:
  assumes u: "keys_unique s" and r: "revoke_key e i org a ctx s = Inr (True, s')"
  shows "key_dead i s'"
proof -
  obtain k where k: "k \<in> set (tn_api_keys s)" "ak_id k = i" "ak_organization_id k = org"
    and s': "tn_api_keys s' = sql_update (\<lambda>k. ak_id k = i \<and> ak_organization_id k = org)
      (\<lambda>k. k\<lparr>ak_revoked_at := stamped (ak_revoked_at k) (se_clock e 1)\<rparr>) (tn_api_keys s)"
    using r by (rule revoke_key_True)
  have org: "ak_organization_id x = org" if "x \<in> set (tn_api_keys s)" "ak_id x = i" for x
    using u that k by (metis keys_unique_def distinct_map inj_onD)
  have all: "list_all (\<lambda>k. ak_id k = i \<longrightarrow> ak_revoked_at k \<noteq> None) (tn_api_keys s')"
    unfolding s' list_all_iff 
  proof (intro ballI impI)
    fix x
    assume x: "x \<in> set (sql_update (\<lambda>k. ak_id k = i \<and> ak_organization_id k = org)
      (\<lambda>k. k\<lparr>ak_revoked_at := stamped (ak_revoked_at k) (se_clock e 1)\<rparr>) (tn_api_keys s))" and i: "ak_id x = i"
    from x show "ak_revoked_at x \<noteq> None" by (rule sql_updateE) (use i org in \<open>simp_all\<close>)
  qed
  have "list_ex (\<lambda>k. ak_id k = i) (tn_api_keys s')"
    unfolding s' by (subst list_ex_id_edit) (use k in \<open>auto simp: key_edit_def list_ex_iff\<close>)
  with all show ?thesis by (simp add: key_dead_def)
qed

lemma dead_key_inactive: "key_dead i s \<Longrightarrow> \<not> isActive i org now s"
  by (auto simp: key_dead_def isActive_def usable_key_def list_ex_iff list_all_iff)

lemma authenticate_key_Some:
  assumes "authenticate_key e raw before after seen now = Inr (Some p)"
  obtains prefix x where "apiKeyPublicPrefix raw = Some prefix" and "findByPrefix prefix before = Some x"
    and "kv_verifySecret e (kr_keyHash x) raw = Inr True" and "isActive (kr_id x) (kr_organizationId x) seen after"
    and "kr_disabledAt x = None" and "kr_organizationDisabledAt x = None" and "kr_revokedAt x = None"
    and "case kr_expiresAt x of None \<Rightarrow> True | Some t \<Rightarrow> now < t"
    and "p = \<lparr>kp_apiKeyId = kr_id x, kp_deviceFamilyId = None, kp_organizationId = kr_organizationId x,
                    kp_projectId = kr_projectId x, kp_scopes = set (kr_scopes x)\<rparr>"
  using assms by (auto simp: authenticate_key_def Let_def split: option.splits if_splits)

lemma authenticate_not_dead:
  "key_dead i after \<Longrightarrow> authenticate_key e raw before after seen now = Inr (Some p) \<Longrightarrow> kp_apiKeyId p \<noteq> i"
  by (erule authenticate_key_Some) (auto dest: dead_key_inactive)

lemma attempts_Inr:
  assumes "attempts e act ns s = Inr (x, s')"
  obtains n c h where "credential e n = Inr c" and "kv_hashSecret e n (kc_key c) = Inr h" and "act n c h s = Inr (x, s')"
  using assms by (induction ns) (auto split: sum.splits if_splits)

lemma rotate_key_True:
  assumes "rotate_key e i org j prefix h a ctx s = Inr (True, s')"
  obtains k creator where "k \<in> set (tn_api_keys s)" and "usable_key i org (se_clock e 1) s k"
    and "tn_api_keys s' = sql_update (\<lambda>x. ak_id x = i) (\<lambda>x. x\<lparr>ak_revoked_at := Some (se_clock e 2)\<rparr>) (tn_api_keys s) @
      [replacement_key k j prefix h creator (se_clock e 0)]"
    and "list_all (\<lambda>g. \<not> issued_by ''api_key'' i org g) (tn_grants s')"
    and "\<not> list_ex (\<lambda>x. ak_id x = j) (tn_api_keys s)"
proof -
  have grants: "list_all (\<lambda>g. \<not> issued_by ''api_key'' i org g)
      (sql_update (issued_by ''api_key'' i org) (\<lambda>g. g\<lparr>gg_revoked_at := stamped (gg_revoked_at g) t\<rparr>) gs)" for gs t
    by (induction gs) (auto simp: issued_by_def stamped_def split: option.splits)
  have lock: "lockApiKeyAdministrator org a t = Inr (u, t') \<Longrightarrow> t' = t" for t u t'
    by (auto simp: lockApiKeyAdministrator_def split: option.splits if_splits)
  obtain k where f: "find (usable_key i org (se_clock e 1) s) (tn_api_keys s) = Some k"
    and w: "bindt (update_keys (\<lambda>x. ak_id x = i) (\<lambda>x. x\<lparr>ak_revoked_at := Some (se_clock e 2)\<rparr>) (se_clock e 2))
          (\<lambda>_. bindt (revoke_grants (issued_by ''api_key'' i org) (se_clock e 3))
          (\<lambda>_. bindt (readt (acting_user a))
          (\<lambda>creator. bindt (insert_key (replacement_key k j prefix h creator (se_clock e 0)))
          (\<lambda>_. bindt (append_audit (key_audit e (''api-key-rotated:'' @ i) (se_uuid e 0) org (ak_project_id k) a ''api_key.rotated'' i ctx
                 [(''replacement_id'', JStr j)]))
          (\<lambda>_. bindt (append_audit (key_audit e (''api-key-rotation-created:'' @ j) (se_uuid e 0) org (ak_project_id k) a
                 ''api_key.rotation_created'' j ctx [(''replaced_id'', JStr i)]))
          (\<lambda>_. returnt True)))))) s = Inr (True, s')"
    using assms unfolding rotate_key_def bindt_Inr [of "lockApiKeyAdministrator org a"] maperr_Inr bindt_Inr [of "readt q" for q] readt_Inr
    by (auto dest!: lock split: option.splits)
  obtain t1 t2 t3 x y z where u: "update_keys (\<lambda>x. ak_id x = i) (\<lambda>x. x\<lparr>ak_revoked_at := Some (se_clock e 2)\<rparr>) (se_clock e 2) s = Inr (x, t1)"
    and g: "revoke_grants (issued_by ''api_key'' i org) (se_clock e 3) t1 = Inr (y, t2)"
    and n: "insert_key (replacement_key k j prefix h (acting_user a t2) (se_clock e 0)) t2 = Inr (z, t3)"
    and s': "tn_api_keys s' = tn_api_keys t3" "tn_grants s' = tn_grants t3"
    using w unfolding bindt_Inr readt_Inr returnt_Inr by (fastforce dest: append_audit_Inr)
  show ?thesis
  proof (rule that)
    show "k \<in> set (tn_api_keys s)" "usable_key i org (se_clock e 1) s k" using find_SomeD [OF f] by auto
    show "tn_api_keys s' = sql_update (\<lambda>x. ak_id x = i) (\<lambda>x. x\<lparr>ak_revoked_at := Some (se_clock e 2)\<rparr>) (tn_api_keys s) @
      [replacement_key k j prefix h (acting_user a t2) (se_clock e 0)]"
      using update_keys_Inr [OF u] revoke_grants_Inr [OF g] insert_key_Inr(1) [OF n] s' by auto
    show "list_all (\<lambda>g. \<not> issued_by ''api_key'' i org g) (tn_grants s')"
      using revoke_grants_Inr [OF g] insert_key_Inr(1) [OF n] s' grants by auto
    show "\<not> list_ex (\<lambda>x. ak_id x = j) (tn_api_keys s)"
      using insert_key_Inr(6) [OF n] update_keys_Inr [OF u] revoke_grants_Inr [OF g]
      by (auto simp: replacement_key_def list_ex_id_edit key_edit_def)
  qed
qed

lemma insert_api_key_Inr:
  assumes "insert_api_key e x a ctx s = Inr (u, s')"
  shows "tn_api_keys s' = tn_api_keys s @ [key_row x (acting_user a s) (se_clock e 0)]"
    and "tn_organizations s' = tn_organizations s" and "may_insert x a s"
    and "\<not> list_ex (\<lambda>k. ak_prefix k = kr_prefix x) (tn_api_keys s)"
proof -
  have lock: "lockApiKeyAdministrator org a t = Inr (u, t') \<Longrightarrow> t' = t" for org t u t'
    by (auto simp: lockApiKeyAdministrator_def split: option.splits if_splits)
  obtain t v where m: "may_insert x a s" and n: "insert_key (key_row x (acting_user a s) (se_clock e 0)) s = Inr (v, t)"
    and s': "tn_api_keys s' = tn_api_keys t" "tn_organizations s' = tn_organizations t"
    using assms unfolding insert_api_key_def maperr_Inr bindt_Inr readt_Inr guardt_Inr by (fastforce dest: append_audit_Inr lock)
  show "may_insert x a s" by (rule m)
  show "tn_api_keys s' = tn_api_keys s @ [key_row x (acting_user a s) (se_clock e 0)]" "tn_organizations s' = tn_organizations s"
    using insert_key_Inr(1) [OF n] s' by simp_all
  show "\<not> list_ex (\<lambda>k. ak_prefix k = kr_prefix x) (tn_api_keys s)"
    using insert_key_Inr(7) [OF n] by (simp add: key_row_def)
qed

lemma apiKeyPublicPrefix_credential:
  assumes "credential e n = Inr c" and "kv_environment e = ''live'' \<or> kv_environment e = ''test''"
  shows "apiKeyPublicPrefix (kc_key c) = Some (kc_prefix c)"
proof -
  obtain pub sec where m: "kv_material e n = (pub, sec)" by (cases "kv_material e n")
  with assms have v: "length pub = 12" "list_all is_hex pub" "length sec = 43" "list_all secret_char sec"
    and c: "kc_prefix c = ''bc_'' @ kv_environment e @ ''_'' @ pub" "kc_key c = kc_prefix c @ ''_'' @ sec"
    by (auto simp: credential_def validateMaterial_def Let_def split: if_splits)
  from assms(2) v show ?thesis
    by (auto simp: c apiKeyPublicPrefix_def startsWith_def nth_append)
qed

lemma organization_enabled_find:
  assumes "organization_enabled org s" and "distinct (map on_id (tn_organizations s))"
  obtains x where "find (\<lambda>x. on_id x = org) (tn_organizations s) = Some x" and "on_disabled_at x = None"
proof -
  from assms(1) obtain y where y: "y \<in> set (tn_organizations s)" "on_id y = org" "on_disabled_at y = None"
    by (auto simp: organization_enabled_def list_ex_iff)
  then obtain x where x: "find (\<lambda>x. on_id x = org) (tn_organizations s) = Some x"
    by (cases "find (\<lambda>x. on_id x = org) (tn_organizations s)") (auto dest: find_NoneD)
  with y find_SomeD [OF x] assms(2) have "x = y" by (metis distinct_map inj_onD)
  with x y that show ?thesis by simp
qed

lemma set_rev_remdups_rev: "set (rev (remdups (rev xs))) = set xs"
  by simp

lemma created_key_accepted:
  assumes c: "create_api_key e x now s = Inr (c, s')"
    and env: "kv_environment e = ''live'' \<or> kv_environment e = ''test''"
    and orgs: "distinct (map on_id (tn_organizations s))"
    and law: "\<And>n h. kv_hashSecret e n (kc_key c) = Inr h \<Longrightarrow> kv_verifySecret e h (kc_key c) = Inr True"
    and exp: "\<And>t. ck_expiresAt x = Some t \<Longrightarrow> seen < t \<and> later < t"
  shows "authenticate_key e (kc_key c) s' s' seen later =
    Inr (Some \<lparr>kp_apiKeyId = kc_id c, kp_deviceFamilyId = None, kp_organizationId = ck_organizationId x,
      kp_projectId = ck_projectId x, kp_scopes = set (ck_scopes x)\<rparr>)"
proof -
  from c have "attempts e (\<lambda>n c keyHash. bindt (insert_api_key (kv_store e n) (create_record x c keyHash) (ck_actorId x) (ck_context x)) (\<lambda>_. returnt c))
            [0..<allocationAttempts] s = Inr (c, s')"
    by (auto simp: create_api_key_def split: option.splits)
  then obtain n c' h where cr: "credential e n = Inr c'" and h: "kv_hashSecret e n (kc_key c') = Inr h"
    and "bindt (insert_api_key (kv_store e n) (create_record x c' h) (ck_actorId x) (ck_context x)) (\<lambda>_. returnt c') s = Inr (c, s')"
    by (rule attempts_Inr)
  then have ins: "insert_api_key (kv_store e n) (create_record x c h) (ck_actorId x) (ck_context x) s = Inr ((), s')" and [simp]: "c' = c"
    by (auto simp: bindt_Inr)
  have keys: "tn_api_keys s' = tn_api_keys s @ [key_row (create_record x c h) (acting_user (ck_actorId x) s) (se_clock (kv_store e n) 0)]"
    and os: "tn_organizations s' = tn_organizations s" and m: "may_insert (create_record x c h) (ck_actorId x) s"
    and fresh: "\<not> list_ex (\<lambda>k. ak_prefix k = kc_prefix c) (tn_api_keys s)"
    using insert_api_key_Inr [OF ins] by (simp_all add: create_record_def)
  from m have en: "organization_enabled (ck_organizationId x) s" by (simp add: may_insert_def create_record_def)
  then obtain o1 where o1: "find (\<lambda>y. on_id y = ck_organizationId x) (tn_organizations s) = Some o1" "on_disabled_at o1 = None"
    using orgs by (rule organization_enabled_find)
  have ex: "list_ex (\<lambda>y. on_id y = ck_organizationId x) (tn_organizations s)" using o1(1) by (rule find_Some_list_ex)
  have none: "find (\<lambda>k. ak_prefix k = kc_prefix c \<and> list_ex (\<lambda>y. on_id y = ak_organization_id k) (tn_organizations s)) (tn_api_keys s) = None"
    using fresh by (auto simp: find_None_list_ex list_ex_iff)
  have found: "findByPrefix (kc_prefix c) s' = Some \<lparr>kr_id = kc_id c, kr_organizationId = ck_organizationId x, kr_projectId = ck_projectId x,
      kr_name = js_trim (ck_name x), kr_prefix = kc_prefix c, kr_keyHash = h, kr_scopes = rev (remdups (rev (ck_scopes x))),
      kr_expiresAt = ck_expiresAt x, kr_disabledAt = None, kr_organizationDisabledAt = None, kr_revokedAt = None\<rparr>"
    by (simp add: findByPrefix_def keys os find_append none key_row_def create_record_def ex o1)
  have active: "isActive (kc_id c) (ck_organizationId x) seen s'"
    using en exp by (simp add: isActive_def keys usable_key_def key_row_def create_record_def organization_enabled_def os split: option.split)
  have ver: "kv_verifySecret e h (kc_key c) = Inr True" using h by (simp add: law)
  show ?thesis
    using exp apiKeyPublicPrefix_credential [OF cr env]
    by (simp add: authenticate_key_def found Let_def active ver not_le split: option.split)
qed

end
