(* ===== verification/Devices.thy ===== *)
theory Devices
  imports ApiKeys
begin

text \<open>
  \<open>auth/device.ts\<close>: the device authorization grant of the command line client, and
  \<open>jobs/reap-expired-device-authorizations.ts\<close>, which removes what has ended. A device asks for a code,
  a member of an organization approves it for a project and some scopes, the device exchanges it for an
  access token and a refresh token; refreshing replaces the refresh token, and using a replaced one
  revokes the whole family. SHA-256, the keyed digest and the generators are arguments.
\<close>

section \<open>Constants and codes\<close>

definition DEVICE_LIFETIME_MS :: int where "DEVICE_LIFETIME_MS = 10 * 60 * 1000"
definition ACCESS_LIFETIME_MS :: int where "ACCESS_LIFETIME_MS = 15 * 60 * 1000"
definition REFRESH_LIFETIME_MS :: int where "REFRESH_LIFETIME_MS = 30 * 24 * 60 * 60 * 1000"
definition MINIMUM_REFRESH_INTERVAL_MS :: int where "MINIMUM_REFRESH_INTERVAL_MS = 10 * 60 * 1000"
definition MAXIMUM_REFRESH_GENERATION :: int where "MAXIMUM_REFRESH_GENERATION = 4095"
definition INITIAL_POLL_SECONDS :: int where "INITIAL_POLL_SECONDS = 5"
definition USER_CODE_ALPHABET :: string where "USER_CODE_ALPHABET = ''23456789ABCDEFGHJKLMNPQRSTUVWXYZ''"
definition ZERO_DIGEST :: string where "ZERO_DIGEST = replicate 32 (CHR 0x00)"

definition DEVICE_RETENTION_CAPACITY_CONSTRAINTS :: "string list" where
  "DEVICE_RETENTION_CAPACITY_CONSTRAINTS = [''device_retention_authorization_capacity'', ''device_retention_family_capacity'',
     ''device_retention_refresh_capacity'', ''device_retention_access_capacity'']"

definition throwDeviceRetentionCapacity :: "tenancy_error \<Rightarrow> tenancy_error" where
  "throwDeviceRetentionCapacity e =
     (case e of
        CheckConstraint c \<Rightarrow>
          if c \<in> set DEVICE_RETENTION_CAPACITY_CONSTRAINTS then DeviceAuthorizationError ''rate_limited'' 429 (Some 60) else e
      | _ \<Rightarrow> e)"

text \<open>What a call gets from its surroundings: the clock of the process and of the statements, identifiers, secrets and digests.\<close>

record device_env =
  dv_now :: time
  dv_clock :: "nat \<Rightarrow> time"
  dv_id :: "nat \<Rightarrow> uuid"
  dv_event :: uuid
  dv_operation :: uuid
  dv_secret :: "nat \<Rightarrow> string"
  dv_code :: "nat \<Rightarrow> string"
  dv_sha256 :: "string \<Rightarrow> string"
  dv_hex :: "string \<Rightarrow> string"
  dv_lookup :: "string \<Rightarrow> string"

text \<open>\<open>equalDigest\<close>: a digest of another length is never equal.\<close>

definition equalTokenDigest :: "device_env \<Rightarrow> string option \<Rightarrow> string \<Rightarrow> bool" where
  "equalTokenDigest e expected raw =
     (case expected of
        None \<Rightarrow> False
      | Some d \<Rightarrow> (if length d = 32 then d else ZERO_DIGEST) = dv_sha256 e raw)"

definition upper_char :: "char \<Rightarrow> char" where
  "upper_char c = (if is_lower c then char_of (of_char c - (32 :: nat)) else c)"

text \<open>
  \<open>toUpperCase\<close> on the letters a code can have; the sharp s becomes two letters, every other letter
  outside ASCII stays outside the alphabet.
\<close>

definition toUpperCase :: "string \<Rightarrow> string" where
  "toUpperCase s = concat (map (\<lambda>c. if c = CHR 0xDF then ''SS'' else [upper_char c]) s)"

definition normalizeUserCode :: "string \<Rightarrow> string option" where
  "normalizeUserCode v =
     (let normalized = filter (\<lambda>c. c \<noteq> CHR ''-'' \<and> \<not> is_space c) (toUpperCase v) in
      if length normalized = 8 \<and> list_all (\<lambda>c. c \<in> set USER_CODE_ALPHABET) normalized then Some normalized else None)"

definition formatUserCode :: "string \<Rightarrow> string" where
  "formatUserCode normalized = take 4 normalized @ ''-'' @ drop 4 normalized"

text \<open>
  \<open>userCode\<close> draws bytes until eight letters were accepted; bytes from 224 on are rejected. The argument
  is what was drawn; with no eight accepted bytes in it the loop is still running.
\<close>

fun userCode_loop :: "string \<Rightarrow> nat list \<Rightarrow> string option" where
  "userCode_loop out [] = (if length out = 8 then Some out else None)"
| "userCode_loop out (b # bs) =
     (if length out = 8 then Some out
      else if b \<ge> 224 then userCode_loop out bs
      else userCode_loop (out @ [USER_CODE_ALPHABET ! (b mod 32)]) bs)"

definition userCode :: "nat list \<Rightarrow> string option" where
  "userCode bytes = userCode_loop [] bytes"

definition opaqueToken :: "string \<Rightarrow> uuid \<Rightarrow> string \<Rightarrow> string" where
  "opaqueToken kind i secret = ''bc_'' @ kind @ ''_'' @ i @ ''_'' @ secret"

text \<open>The identifier inside a token. It is looked up in a \<open>uuid\<close> column, which ignores the case.\<close>

definition tokenId :: "string \<Rightarrow> string \<Rightarrow> string option" where
  "tokenId raw kind =
     (let n = length kind + 4; i = take 36 (drop n raw) in
      if length raw = n + 80 \<and> toLowerCase (take n raw) = ''bc_'' @ kind @ ''_'' \<and> uuid_ok i \<and> raw ! (n + 36) = CHR ''_'' \<and>
         list_all secret_char (drop (n + 37) raw)
      then Some i else None)"

definition validScopes :: "string list \<Rightarrow> bool" where
  "validScopes scopes \<longleftrightarrow> scopes \<noteq> [] \<and> length scopes \<le> length apiKeyScopes \<and> list_all (\<lambda>c. c \<in> set apiKeyScopes) scopes"

definition uniqueScopes :: "string list \<Rightarrow> string list" where
  "uniqueScopes scopes = rev (remdups (rev scopes))"

definition rolePermits :: "membership_role \<Rightarrow> string \<Rightarrow> bool" where
  "rolePermits role scope =
     (case role of
        Owner \<Rightarrow> True
      | Admin \<Rightarrow> True
      | BillingRole \<Rightarrow> scope = ''billing:read''
      | Member \<Rightarrow> scope \<in> {''machines:read'', ''machines:write'', ''templates:read'', ''volumes:read'', ''volumes:write''})"

text \<open>Who stands behind a family now: the role of the approver, and whether the user or the organization is disabled.\<close>

record identity_state =
  is_membership_role :: "membership_role option"
  is_user_disabled_at :: "time option"
  is_organization_disabled_at :: "time option"

definition identityPermits :: "string list \<Rightarrow> identity_state \<Rightarrow> bool" where
  "identityPermits scopes x \<longleftrightarrow> is_user_disabled_at x = None \<and> is_organization_disabled_at x = None \<and>
     (case is_membership_role x of None \<Rightarrow> False | Some role \<Rightarrow> list_all (rolePermits role) scopes)"

definition device_audit ::
    "device_env \<Rightarrow> uuid option \<Rightarrow> uuid option \<Rightarrow> string \<Rightarrow> string option \<Rightarrow> string \<Rightarrow> string \<Rightarrow> string option \<Rightarrow> string \<Rightarrow>
     audit_context \<Rightarrow> (string \<times> json) list \<Rightarrow> unit ttx" where
  "device_audit e org project actorType actorId action outcome reasonCode resourceId ctx metadata =
     append_audit \<lparr>a_key = ''device-auth:'' @ dv_event e, a_operation_id = Some (dv_operation e), a_organization_id = org, a_project_id = project,
      a_actor_type = actorType, a_actor_id = map_option (take 256) actorId, a_action = action, a_outcome = outcome,
      a_reason_code = reasonCode, a_resource_type = ''device_authorization'', a_resource_id = resourceId,
      a_request_id = map_option (take 128) (ac_requestId ctx), a_user_agent = auditUserAgentFingerprint (dv_hex e) (ac_userAgent ctx),
      a_metadata = metadata\<rparr>"

section \<open>The tables\<close>

text \<open>The constraint on a row of \<open>device_authorizations\<close>: what is set depends on the status.\<close>

definition device_row_ok :: "device_row \<Rightarrow> bool" where
  "device_row_ok d \<longleftrightarrow>
     validScopes (da_requested_scopes d) \<and> 5 \<le> da_poll_interval_seconds d \<and> da_poll_interval_seconds d \<le> 60 \<and>
     0 \<le> da_poll_violations d \<and> da_created_at d < da_expires_at d \<and>
     (case da_approved_scopes d of None \<Rightarrow> True
      | Some cs \<Rightarrow> 1 \<le> length cs \<and> length cs \<le> 7 \<and> set cs \<subseteq> set (da_requested_scopes d)) \<and>
     (case da_status d of
        DevicePending \<Rightarrow> da_organization_id d = None \<and> da_project_id d = None \<and> da_approved_by d = None \<and> da_approved_scopes d = None \<and>
          da_authorized_at d = None \<and> da_denied_at d = None \<and> da_consumed_at d = None
      | DeviceDenied \<Rightarrow> da_organization_id d \<noteq> None \<and> da_project_id d = None \<and> da_approved_by d \<noteq> None \<and> da_approved_scopes d = None \<and>
          da_authorized_at d = None \<and> da_denied_at d \<noteq> None \<and> da_consumed_at d = None
      | DeviceApproved \<Rightarrow> da_organization_id d \<noteq> None \<and> da_project_id d \<noteq> None \<and> da_approved_by d \<noteq> None \<and> da_approved_scopes d \<noteq> None \<and>
          da_authorized_at d \<noteq> None \<and> da_denied_at d = None \<and> da_consumed_at d = None
      | DeviceConsumed \<Rightarrow> da_organization_id d \<noteq> None \<and> da_project_id d \<noteq> None \<and> da_approved_by d \<noteq> None \<and> da_approved_scopes d \<noteq> None \<and>
          da_authorized_at d \<noteq> None \<and> da_denied_at d = None \<and> da_consumed_at d \<noteq> None)"

text \<open>
  The inserts: the trigger that bounds the retained rows (its counter is the number of rows), the
  constraints of the row, the keys and the references.
\<close>

definition insert_device :: "device_row \<Rightarrow> unit ttx" where
  "insert_device d =
     bindt (guardt (\<lambda>s. length (tn_devices s) < 50000) (CheckConstraint ''device_retention_authorization_capacity''))
     (\<lambda>_. bindt (guardt (\<lambda>s. device_row_ok d) (CheckConstraint ''device_authorizations_check''))
     (\<lambda>_. bindt (guardt (\<lambda>s. \<not> list_ex (\<lambda>x. da_id x = da_id d) (tn_devices s)) (UniqueConstraint ''device_authorizations_pkey''))
     (\<lambda>_. bindt (guardt (\<lambda>s. \<not> list_ex (\<lambda>x. da_user_code_hash x = da_user_code_hash d) (tn_devices s))
       (UniqueConstraint ''device_authorizations_user_code_hash_key''))
     (\<lambda>_. writet (\<lambda>s. s\<lparr>tn_devices := tn_devices s @ [d]\<rparr>)))))"

definition update_device :: "uuid \<Rightarrow> (device_row \<Rightarrow> device_row) \<Rightarrow> unit ttx" where
  "update_device i f =
     bindt (guardt (\<lambda>s. list_all (\<lambda>d. da_id d = i \<longrightarrow> device_row_ok (f d)) (tn_devices s)) (CheckConstraint ''device_authorizations_check''))
     (\<lambda>_. writet (\<lambda>s. s\<lparr>tn_devices := sql_update (\<lambda>d. da_id d = i) f (tn_devices s)\<rparr>))"

definition tenant_exists :: "uuid \<Rightarrow> uuid \<Rightarrow> tenancy \<Rightarrow> bool" where
  "tenant_exists org project s \<longleftrightarrow> list_ex (\<lambda>x. on_id x = org) (tn_organizations s) \<and> belongsToOrganization project org s"

definition insert_family :: "family_row \<Rightarrow> unit ttx" where
  "insert_family f =
     bindt (guardt (\<lambda>s. length (tn_families s) < 4096) (CheckConstraint ''device_retention_family_capacity''))
     (\<lambda>_. bindt (guardt (\<lambda>s. validScopes (df_scopes f) \<and> df_created_at f < df_expires_at f) (CheckConstraint ''device_refresh_families_check''))
     (\<lambda>_. bindt (guardt (\<lambda>s. \<not> list_ex (\<lambda>x. df_id x = df_id f) (tn_families s)) (UniqueConstraint ''device_refresh_families_pkey''))
     (\<lambda>_. bindt (guardt (\<lambda>s. \<not> list_ex (\<lambda>x. df_device_authorization_id x = df_device_authorization_id f) (tn_families s))
       (UniqueConstraint ''device_refresh_families_device_authorization_id_key''))
     (\<lambda>_. bindt (guardt (\<lambda>s. list_ex (\<lambda>d. da_id d = df_device_authorization_id f) (tn_devices s) \<and>
         tenant_exists (df_organization_id f) (df_project_id f) s) (ForeignKeyConstraint ''device_refresh_families_fkey''))
     (\<lambda>_. writet (\<lambda>s. s\<lparr>tn_families := tn_families s @ [f]\<rparr>))))))"

definition insert_refresh :: "refresh_row \<Rightarrow> unit ttx" where
  "insert_refresh t =
     bindt (guardt (\<lambda>s. length (tn_refresh s) < 1048576) (CheckConstraint ''device_retention_refresh_capacity''))
     (\<lambda>_. bindt (guardt (\<lambda>s. rt_created_at t < rt_expires_at t) (CheckConstraint ''device_refresh_tokens_check''))
     (\<lambda>_. bindt (guardt (\<lambda>s. 0 \<le> rt_generation t \<and> rt_generation t \<le> 4095) (CheckConstraint ''device_refresh_tokens_generation_ceiling_check''))
     (\<lambda>_. bindt (guardt (\<lambda>s. \<not> list_ex (\<lambda>x. rt_id x = rt_id t) (tn_refresh s)) (UniqueConstraint ''device_refresh_tokens_pkey''))
     (\<lambda>_. bindt (guardt (\<lambda>s. \<not> list_ex (\<lambda>x. rt_family_id x = rt_family_id t \<and> rt_generation x = rt_generation t) (tn_refresh s))
       (UniqueConstraint ''device_refresh_tokens_family_id_generation_key''))
     (\<lambda>_. bindt (guardt (\<lambda>s. list_ex (\<lambda>f. df_id f = rt_family_id t) (tn_families s)) (ForeignKeyConstraint ''device_refresh_tokens_family_id_fkey''))
     (\<lambda>_. writet (\<lambda>s. s\<lparr>tn_refresh := tn_refresh s @ [t]\<rparr>)))))))"

definition insert_access :: "access_row \<Rightarrow> unit ttx" where
  "insert_access t =
     bindt (guardt (\<lambda>s. length (tn_access s) < 1048576) (CheckConstraint ''device_retention_access_capacity''))
     (\<lambda>_. bindt (guardt (\<lambda>s. validScopes (dt_scopes t) \<and> dt_created_at t < dt_expires_at t) (CheckConstraint ''device_access_tokens_check''))
     (\<lambda>_. bindt (guardt (\<lambda>s. \<not> list_ex (\<lambda>x. dt_id x = dt_id t) (tn_access s)) (UniqueConstraint ''device_access_tokens_pkey''))
     (\<lambda>_. bindt (guardt (\<lambda>s. list_ex (\<lambda>f. df_id f = dt_family_id t) (tn_families s) \<and> tenant_exists (dt_organization_id t) (dt_project_id t) s)
       (ForeignKeyConstraint ''device_access_tokens_fkey''))
     (\<lambda>_. writet (\<lambda>s. s\<lparr>tn_access := tn_access s @ [t]\<rparr>)))))"

text \<open>The updates the calls make of families and access tokens: they end them.\<close>

definition revoke_families :: "(family_row \<Rightarrow> bool) \<Rightarrow> time \<Rightarrow> unit ttx" where
  "revoke_families P now = writet (\<lambda>s. s\<lparr>tn_families := sql_update P (\<lambda>f. f\<lparr>df_revoked_at := stamped (df_revoked_at f) now\<rparr>) (tn_families s)\<rparr>)"

definition revoke_access :: "(access_row \<Rightarrow> bool) \<Rightarrow> time \<Rightarrow> unit ttx" where
  "revoke_access P now = writet (\<lambda>s. s\<lparr>tn_access := sql_update P (\<lambda>t. t\<lparr>dt_revoked_at := stamped (dt_revoked_at t) now\<rparr>) (tn_access s)\<rparr>)"

definition note_reuse :: "uuid \<Rightarrow> time \<Rightarrow> unit ttx" where
  "note_reuse i now = writet (\<lambda>s. s\<lparr>tn_families := sql_update (\<lambda>f. df_id f = i)
     (\<lambda>f. f\<lparr>df_revoked_at := stamped (df_revoked_at f) now, df_reuse_detected_at := stamped (df_reuse_detected_at f) now\<rparr>) (tn_families s)\<rparr>)"

definition family_grant :: "uuid \<Rightarrow> uuid \<Rightarrow> time \<Rightarrow> gateway_grant_row \<Rightarrow> bool" where
  "family_grant i org now g \<longleftrightarrow> gg_issuer_type g = ''device_family'' \<and> gg_issuer_id g = i \<and> gg_organization_id g = org \<and> gg_expires_at g > now"

definition revokeFamilyForIdentity :: "device_env \<Rightarrow> family_row \<Rightarrow> uuid \<Rightarrow> uuid \<Rightarrow> audit_context \<Rightarrow> unit ttx" where
  "revokeFamilyForIdentity e f org project ctx =
     bindt (readt (\<lambda>s. list_ex (\<lambda>x. df_id x = df_id f \<and> df_revoked_at x = None) (tn_families s)))
     (\<lambda>revoked. bindt (revoke_families (\<lambda>x. df_id x = df_id f \<and> df_revoked_at x = None) (dv_now e))
     (\<lambda>_. bindt (revoke_access (\<lambda>t. dt_family_id t = df_id f) (dv_now e))
     (\<lambda>_. bindt (revoke_grants (issued_by ''device_family'' (df_id f) org) (dv_clock e 0))
     (\<lambda>_. if revoked
          then device_audit e (Some org) (Some project) ''system'' (Some ''identity-lifecycle'') ''device_authorization.identity_invalidated''
                 ''denied'' (Some ''identity_inactive'') (df_id f) ctx []
          else returnt ()))))"

section \<open>Rate limits\<close>

definition rateLimit :: "string \<Rightarrow> string \<Rightarrow> int \<Rightarrow> time \<Rightarrow> int \<Rightarrow> int option ttx" where
  "rateLimit kind keyHash limit now windowSeconds =
     (let windowMs = windowSeconds * 1000; windowStart = now div windowMs * windowMs;
          mine = (\<lambda>r. dl_kind r = kind \<and> dl_key_hash r = keyHash \<and> dl_window_started_at r = windowStart) in
      bindt (writet (\<lambda>s. if list_ex mine (tn_rates s) then s\<lparr>tn_rates := sql_update mine (\<lambda>r. r\<lparr>dl_attempts := dl_attempts r + 1\<rparr>) (tn_rates s)\<rparr>
             else s\<lparr>tn_rates := tn_rates s @ [\<lparr>dl_kind = kind, dl_key_hash = keyHash, dl_window_started_at = windowStart, dl_attempts = 1\<rparr>]\<rparr>))
      (\<lambda>_. bindt (readt (\<lambda>s. case find mine (tn_rates s) of None \<Rightarrow> limit + 1 | Some r \<Rightarrow> dl_attempts r))
      (\<lambda>n. returnt (if n > limit then Some (max 1 ((windowStart + windowMs - now + 999) div 1000)) else None))))"

text \<open>Rows that started in the same instant go in the order of the table.\<close>

definition cleanupRateLimits :: "time \<Rightarrow> unit ttx" where
  "cleanupRateLimits now = writet (\<lambda>s.
     let old = take 256 (sort_by (\<lambda>x y. cmp_of (dl_window_started_at x) (dl_window_started_at y))
           (filter (\<lambda>r. dl_window_started_at r < now - 60 * 60 * 1000) (tn_rates s))) in
     s\<lparr>tn_rates := filter (\<lambda>r. r \<notin> set old) (tn_rates s)\<rparr>)"

text \<open>
  A call of the service answers and leaves a state: a transaction that throws leaves the state it
  began with, and a call can throw after a transaction was committed.
\<close>

type_synonym 'a tcall = "tenancy \<Rightarrow> (tenancy_error + 'a) \<times> tenancy"

definition commit :: "'a ttx \<Rightarrow> 'a tcall" where
  "commit m s = (case m s of Inl err \<Rightarrow> (Inl err, s) | Inr (x, s') \<Rightarrow> (Inr x, s'))"

definition andThen :: "'a tcall \<Rightarrow> ('a \<Rightarrow> 'b tcall) \<Rightarrow> 'b tcall" where
  "andThen m k s = (case m s of (Inl err, s') \<Rightarrow> (Inl err, s') | (Inr x, s') \<Rightarrow> k x s')"

definition refuse :: "tenancy_error \<Rightarrow> 'a tcall" where
  "refuse err s = (Inl err, s)"

definition answer :: "'a \<Rightarrow> 'a tcall" where
  "answer x s = (Inr x, s)"

definition issue_limits_tx :: "device_env \<Rightarrow> string \<Rightarrow> int option ttx" where
  "issue_limits_tx e source =
     bindt (cleanupRateLimits (dv_now e))
     (\<lambda>_. bindt (rateLimit ''issue_global'' (dv_lookup e ''global'') 300 (dv_now e) 60)
     (\<lambda>global. bindt (rateLimit ''issue_source'' (dv_lookup e (if source = [] then ''unknown'' else source)) 10 (dv_now e) 60)
     (\<lambda>perSource. returnt (let n = max (case global of None \<Rightarrow> 0 | Some n \<Rightarrow> n) (case perSource of None \<Rightarrow> 0 | Some n \<Rightarrow> n) in
        if n = 0 then None else Some n))))"

definition rate_limited :: "int option \<Rightarrow> unit tcall" where
  "rate_limited retryAfter = (case retryAfter of None \<Rightarrow> answer () | Some n \<Rightarrow> refuse (DeviceAuthorizationError ''rate_limited'' 429 (Some n)))"

definition consumeIssueRateLimits :: "device_env \<Rightarrow> string \<Rightarrow> unit tcall" where
  "consumeIssueRateLimits e source = andThen (commit (issue_limits_tx e source)) rate_limited"

definition actor_limit_tx :: "device_env \<Rightarrow> string \<Rightarrow> int option ttx" where
  "actor_limit_tx e actorId = bindt (cleanupRateLimits (dv_now e)) (\<lambda>_. rateLimit ''approve_actor'' (dv_lookup e actorId) 30 (dv_now e) 300)"

definition consumeActorRateLimit :: "device_env \<Rightarrow> string \<Rightarrow> unit tcall" where
  "consumeActorRateLimit e actorId = andThen (commit (actor_limit_tx e actorId)) rate_limited"

section \<open>Asking for a code\<close>

record issue_input =
  ii_clientId :: string
  ii_scopes :: "string list"
  ii_source :: string
  ii_context :: audit_context

record device_code_response =
  dc_device_code :: string
  dc_user_code :: string
  dc_expires_in :: int
  dc_interval :: int
  dc_scopes :: "string list"

definition new_device :: "device_env \<Rightarrow> issue_input \<Rightarrow> nat \<Rightarrow> device_row" where
  "new_device e x n =
     \<lparr>da_id = dv_id e n, da_device_token_hash = dv_sha256 e (opaqueToken ''device'' (dv_id e n) (dv_secret e n)),
      da_user_code_hash = dv_lookup e (dv_code e n), da_client_id = ii_clientId x, da_requested_scopes = uniqueScopes (ii_scopes x),
      da_approved_scopes = None, da_status = DevicePending, da_organization_id = None, da_project_id = None, da_approved_by = None,
      da_poll_interval_seconds = INITIAL_POLL_SECONDS, da_next_poll_at = dv_now e + INITIAL_POLL_SECONDS * 1000, da_poll_violations = 0,
      da_created_at = dv_now e, da_expires_at = dv_now e + DEVICE_LIFETIME_MS, da_authorized_at = None, da_denied_at = None,
      da_consumed_at = None\<rparr>"

definition issue_tx :: "device_env \<Rightarrow> issue_input \<Rightarrow> nat \<Rightarrow> unit ttx" where
  "issue_tx e x n =
     bindt (insert_device (new_device e x n))
     (\<lambda>_. device_audit e None None ''system'' None ''device_authorization.requested'' ''requested'' None (dv_id e n) (ii_context x)
        [(''client_id'', JStr (ii_clientId x)), (''scopes'', JArr (map JStr (uniqueScopes (ii_scopes x))))])"

text \<open>Five attempts; a duplicate key starts the next one.\<close>

fun issue_attempts :: "device_env \<Rightarrow> issue_input \<Rightarrow> nat list \<Rightarrow> device_code_response tcall" where
  "issue_attempts e x [] s = (Inl (PlainTenancyError ''could not allocate a unique device authorization code''), s)"
| "issue_attempts e x (n # ns) s =
     (case issue_tx e x n s of
        Inr (_, s') \<Rightarrow> (Inr \<lparr>dc_device_code = opaqueToken ''device'' (dv_id e n) (dv_secret e n), dc_user_code = formatUserCode (dv_code e n),
          dc_expires_in = DEVICE_LIFETIME_MS div 1000, dc_interval = INITIAL_POLL_SECONDS, dc_scopes = uniqueScopes (ii_scopes x)\<rparr>, s')
      | Inl err \<Rightarrow>
          (case err of
             UniqueConstraint c \<Rightarrow> if n < 4 then issue_attempts e x ns s else (Inl (throwDeviceRetentionCapacity err), s)
           | _ \<Rightarrow> (Inl (throwDeviceRetentionCapacity err), s)))"

definition issue :: "device_env \<Rightarrow> issue_input \<Rightarrow> device_code_response tcall" where
  "issue e x =
     andThen (consumeIssueRateLimits e (ii_source x))
     (\<lambda>_. if ii_clientId x \<noteq> ''nehemiah-cli'' then refuse (DeviceAuthorizationError ''invalid_client'' 400 None)
          else if \<not> validScopes (ii_scopes x) then refuse (DeviceAuthorizationError ''invalid_scope'' 400 None)
          else issue_attempts e x [0..<5])"

section \<open>Deciding\<close>

record device_summary =
  dm_client_id :: string
  dm_scopes :: "string list"
  dm_expires_at :: time

definition expired_code :: tenancy_error where "expired_code = DeviceAuthorizationError ''expired_token'' 404 None"
definition decided_code :: tenancy_error where "decided_code = DeviceAuthorizationError ''invalid_grant'' 409 None"
definition invalid_request :: tenancy_error where "invalid_request = DeviceAuthorizationError ''invalid_request'' 400 None"

definition device_by_code :: "device_env \<Rightarrow> string \<Rightarrow> tenancy \<Rightarrow> device_row option" where
  "device_by_code e code s = find (\<lambda>d. da_user_code_hash d = dv_lookup e code) (tn_devices s)"

definition inspect_tx :: "device_env \<Rightarrow> string \<Rightarrow> device_summary ttx" where
  "inspect_tx e code =
     bindt (readt (device_by_code e code))
     (\<lambda>row. case row of
        None \<Rightarrow> throwt expired_code
      | Some d \<Rightarrow>
          if da_expires_at d \<le> dv_now e then throwt expired_code
          else if da_status d \<noteq> DevicePending then throwt decided_code
          else returnt \<lparr>dm_client_id = da_client_id d, dm_scopes = da_requested_scopes d, dm_expires_at = da_expires_at d\<rparr>)"

definition inspect_code :: "device_env \<Rightarrow> string \<Rightarrow> string \<Rightarrow> device_summary tcall" where
  "inspect_code e code actorId =
     andThen (consumeActorRateLimit e actorId)
     (\<lambda>_. case normalizeUserCode code of
        None \<Rightarrow> refuse invalid_request
      | Some c \<Rightarrow> commit (inspect_tx e c))"

record authorize_input =
  au_userCode :: string
  au_decision :: string
  au_organizationId :: uuid
  au_projectId :: "uuid option"
  au_scopes :: "string list option"
  au_clerkUserId :: string
  au_context :: audit_context

definition authorize_tx :: "device_env \<Rightarrow> authorize_input \<Rightarrow> string \<Rightarrow> unit ttx" where
  "authorize_tx e x code =
     bindt (readt (member_of (au_clerkUserId x) (au_organizationId x)))
     (\<lambda>membership. case membership of
        None \<Rightarrow> throwt (DeviceAuthorizationError ''access_denied'' 403 None)
      | Some (u, m) \<Rightarrow>
     bindt (readt (device_by_code e code))
     (\<lambda>pending. case pending of
        None \<Rightarrow> throwt expired_code
      | Some d \<Rightarrow>
     if da_expires_at d \<le> dv_now e then throwt expired_code
     else if da_status d \<noteq> DevicePending then throwt decided_code
     else if au_decision x = ''deny''
     then bindt (update_device (da_id d) (\<lambda>d. d\<lparr>da_status := DeviceDenied, da_organization_id := Some (au_organizationId x),
              da_approved_by := Some (us_id u), da_denied_at := Some (dv_now e)\<rparr>))
          (\<lambda>_. device_audit e (Some (au_organizationId x)) None ''user'' (Some (au_clerkUserId x)) ''device_authorization.denied'' ''denied''
             (Some ''user_denied'') (da_id d) (au_context x) [])
     else (case (au_projectId x, au_scopes x) of
        (Some project, Some wanted) \<Rightarrow>
          if project = [] \<or> \<not> validScopes wanted then throwt (DeviceAuthorizationError ''invalid_scope'' 400 None)
          else if list_ex (\<lambda>c. c \<notin> set (da_requested_scopes d) \<or> \<not> rolePermits (om_role m) c) (uniqueScopes wanted)
          then throwt (DeviceAuthorizationError ''invalid_scope'' 403 None)
          else bindt (guardt (belongsToOrganization project (au_organizationId x)) (DeviceAuthorizationError ''access_denied'' 403 None))
          (\<lambda>_. bindt (update_device (da_id d) (\<lambda>d. d\<lparr>da_status := DeviceApproved, da_organization_id := Some (au_organizationId x),
                da_project_id := Some project, da_approved_by := Some (us_id u), da_approved_scopes := Some (uniqueScopes wanted),
                da_authorized_at := Some (dv_now e)\<rparr>))
          (\<lambda>_. device_audit e (Some (au_organizationId x)) (Some project) ''user'' (Some (au_clerkUserId x)) ''device_authorization.approved''
             ''succeeded'' None (da_id d) (au_context x) [(''scopes'', JArr (map JStr (uniqueScopes wanted)))]))
      | _ \<Rightarrow> throwt (DeviceAuthorizationError ''invalid_scope'' 400 None))))"

definition authorize :: "device_env \<Rightarrow> authorize_input \<Rightarrow> unit tcall" where
  "authorize e x =
     andThen (consumeActorRateLimit e (au_clerkUserId x))
     (\<lambda>_. case normalizeUserCode (au_userCode x) of
        None \<Rightarrow> refuse invalid_request
      | Some code \<Rightarrow>
          if au_decision x \<noteq> ''approve'' \<and> au_decision x \<noteq> ''deny'' then refuse invalid_request
          else if au_decision x = ''approve'' \<and> (case au_projectId x of None \<Rightarrow> True | Some p \<Rightarrow> \<not> uuid_ok p) then refuse invalid_request
          else commit (authorize_tx e x code))"

section \<open>Exchanging the code\<close>

record device_tokens =
  tk_access_token :: string
  tk_expires_in :: int
  tk_refresh_token :: string
  tk_refresh_expires_in :: int
  tk_organization_id :: uuid
  tk_project_id :: uuid
  tk_scopes :: "string list"

text \<open>
  What the transaction of \<open>exchange\<close> or \<open>refresh\<close> returns: an error that is thrown after the commit, or
  the tenant, the scopes and the two lifetimes in seconds.
\<close>

type_synonym token_outcome = "tenancy_error + (uuid \<times> uuid \<times> string list \<times> int \<times> int)"

definition exchange_error :: "string \<Rightarrow> int option \<Rightarrow> token_outcome" where
  "exchange_error code interval = Inl (DeviceAuthorizationError code 400 interval)"

definition member_role :: "uuid \<Rightarrow> uuid \<Rightarrow> tenancy \<Rightarrow> membership_role option" where
  "member_role user org s = map_option om_role (find (\<lambda>m. om_user_id m = user \<and> om_organization_id m = org) (tn_members s))"

text \<open>The role of an enabled approver in an enabled organization.\<close>

definition current_role :: "uuid \<Rightarrow> uuid \<Rightarrow> tenancy \<Rightarrow> membership_role option" where
  "current_role user org s =
     (if list_ex (\<lambda>u. us_id u = user \<and> us_disabled_at u = None) (tn_users s) \<and> organization_enabled org s then member_role user org s else None)"

definition device_denied :: "device_env \<Rightarrow> uuid \<Rightarrow> string \<Rightarrow> uuid \<Rightarrow> audit_context \<Rightarrow> token_outcome ttx" where
  "device_denied e i resourceId org ctx =
     bindt (update_device i (\<lambda>d. d\<lparr>da_status := DeviceDenied, da_project_id := None, da_approved_scopes := None, da_authorized_at := None,
        da_denied_at := Some (dv_now e)\<rparr>))
     (\<lambda>_. bindt (device_audit e (Some org) None ''system'' (Some ''identity-lifecycle'') ''device_authorization.identity_invalidated''
        ''denied'' (Some ''identity_inactive'') resourceId ctx [])
     (\<lambda>_. returnt (exchange_error ''access_denied'' None)))"

definition new_family :: "device_env \<Rightarrow> uuid \<Rightarrow> uuid \<Rightarrow> uuid \<Rightarrow> string list \<Rightarrow> family_row" where
  "new_family e device org project scopes =
     \<lparr>df_id = dv_id e 2, df_device_authorization_id = device, df_organization_id = org, df_project_id = project, df_scopes = scopes,
      df_created_at = dv_now e, df_expires_at = dv_now e + REFRESH_LIFETIME_MS, df_revoked_at = None, df_reuse_detected_at = None\<rparr>"

definition new_refresh :: "device_env \<Rightarrow> uuid \<Rightarrow> nat \<Rightarrow> int \<Rightarrow> time \<Rightarrow> refresh_row" where
  "new_refresh e family n generation expires =
     \<lparr>rt_id = dv_id e n, rt_family_id = family, rt_generation = generation,
      rt_token_hash = dv_sha256 e (opaqueToken ''refresh'' (dv_id e n) (dv_secret e n)), rt_created_at = dv_now e, rt_expires_at = expires,
      rt_used_at = None, rt_replaced_by = None\<rparr>"

definition new_access :: "device_env \<Rightarrow> uuid \<Rightarrow> nat \<Rightarrow> uuid \<Rightarrow> uuid \<Rightarrow> string list \<Rightarrow> time \<Rightarrow> access_row" where
  "new_access e family n org project scopes expires =
     \<lparr>dt_id = dv_id e n, dt_family_id = family, dt_organization_id = org, dt_project_id = project, dt_scopes = scopes,
      dt_token_hash = dv_sha256 e (opaqueToken ''access'' (dv_id e n) (dv_secret e n)), dt_created_at = dv_now e, dt_expires_at = expires,
      dt_last_used_at = None, dt_revoked_at = None\<rparr>"

definition grant_tokens :: "device_env \<Rightarrow> uuid \<Rightarrow> string \<Rightarrow> uuid \<Rightarrow> uuid \<Rightarrow> string list \<Rightarrow> audit_context \<Rightarrow> token_outcome ttx" where
  "grant_tokens e i resourceId org project scopes ctx =
     bindt (insert_family (new_family e i org project scopes))
     (\<lambda>_. bindt (insert_refresh (new_refresh e (dv_id e 2) 1 0 (dv_now e + REFRESH_LIFETIME_MS)))
     (\<lambda>_. bindt (insert_access (new_access e (dv_id e 2) 0 org project scopes (dv_now e + ACCESS_LIFETIME_MS)))
     (\<lambda>_. bindt (update_device i (\<lambda>d. d\<lparr>da_status := DeviceConsumed, da_consumed_at := Some (dv_now e)\<rparr>))
     (\<lambda>_. bindt (device_audit e (Some org) (Some project) ''system'' None ''device_authorization.exchanged'' ''succeeded'' None resourceId ctx
        [(''scopes'', JArr (map JStr scopes))])
     (\<lambda>_. returnt (Inr (org, project, scopes, ACCESS_LIFETIME_MS div 1000, REFRESH_LIFETIME_MS div 1000)))))))"

definition exchange_tx :: "device_env \<Rightarrow> string \<Rightarrow> audit_context \<Rightarrow> token_outcome ttx" where
  "exchange_tx e rawId ctx =
     (let i = toLowerCase rawId; now = dv_now e in
      bindt (readt (\<lambda>s. find (\<lambda>d. da_id d = i) (tn_devices s)))
      (\<lambda>row. case row of
         None \<Rightarrow> returnt (exchange_error ''expired_token'' None)
       | Some d \<Rightarrow>
      if da_expires_at d \<le> now then returnt (exchange_error ''expired_token'' None)
      else (case da_status d of
         DeviceDenied \<Rightarrow> returnt (exchange_error ''access_denied'' None)
       | DeviceConsumed \<Rightarrow> returnt (exchange_error ''invalid_grant'' None)
       | DevicePending \<Rightarrow>
           if da_next_poll_at d > now
           then let interval = min 60 (da_poll_interval_seconds d + 5) in
             bindt (update_device i (\<lambda>d. d\<lparr>da_poll_interval_seconds := interval, da_next_poll_at := now + interval * 1000,
                da_poll_violations := da_poll_violations d + 1\<rparr>))
             (\<lambda>_. returnt (exchange_error ''slow_down'' (Some interval)))
           else
             bindt (update_device i (\<lambda>d'. d'\<lparr>da_next_poll_at := now + da_poll_interval_seconds d * 1000\<rparr>))
             (\<lambda>_. returnt (exchange_error ''authorization_pending'' (Some (da_poll_interval_seconds d))))
       | DeviceApproved \<Rightarrow>
           (case (da_organization_id d, da_project_id d, da_approved_by d, da_approved_scopes d) of
              (Some org, Some project, Some approver, Some scopes) \<Rightarrow>
                bindt (readt (current_role approver org))
                (\<lambda>role. case role of
                   None \<Rightarrow> device_denied e i rawId org ctx
                 | Some r \<Rightarrow>
                     if list_ex (\<lambda>c. \<not> rolePermits r c) scopes then device_denied e i rawId org ctx
                     else grant_tokens e i rawId org project scopes ctx)
            | _ \<Rightarrow> throwt (PlainTenancyError ''approved device authorization is missing its tenant binding'')))))"

text \<open>The tokens of a committed outcome, or the error.\<close>

definition tokens_or_throw :: "device_env \<Rightarrow> nat \<Rightarrow> nat \<Rightarrow> token_outcome \<Rightarrow> device_tokens tcall" where
  "tokens_or_throw e a r outcome =
     (case outcome of
        Inl err \<Rightarrow> refuse err
      | Inr (org, project, scopes, accessIn, refreshIn) \<Rightarrow>
          answer \<lparr>tk_access_token = opaqueToken ''access'' (dv_id e a) (dv_secret e a), tk_expires_in = accessIn,
            tk_refresh_token = opaqueToken ''refresh'' (dv_id e r) (dv_secret e r), tk_refresh_expires_in = refreshIn,
            tk_organization_id = org, tk_project_id = project, tk_scopes = scopes\<rparr>)"

text \<open>
  A call that verifies the digest in one statement and works in a transaction after it: \<open>before\<close> is the
  state of the statement.
\<close>

definition exchange_code :: "device_env \<Rightarrow> string \<Rightarrow> audit_context \<Rightarrow> tenancy \<Rightarrow> device_tokens tcall" where
  "exchange_code e deviceCode ctx before =
     (case tokenId deviceCode ''device'' of
        None \<Rightarrow> refuse (DeviceAuthorizationError ''invalid_grant'' 400 None)
      | Some i \<Rightarrow>
          if \<not> equalTokenDigest e (map_option da_device_token_hash (find (\<lambda>d. da_id d = toLowerCase i) (tn_devices before))) deviceCode
          then refuse (DeviceAuthorizationError ''invalid_grant'' 400 None)
          else andThen (commit (maperr throwDeviceRetentionCapacity (exchange_tx e i ctx))) (tokens_or_throw e 0 1))"

section \<open>Refreshing\<close>

text \<open>A refresh token with its family.\<close>

definition refresh_family :: "uuid \<Rightarrow> tenancy \<Rightarrow> (refresh_row \<times> family_row) option" where
  "refresh_family i s =
     (case find (\<lambda>t. rt_id t = i) (tn_refresh s) of
        None \<Rightarrow> None
      | Some t \<Rightarrow> map_option (Pair t) (find (\<lambda>f. df_id f = rt_family_id t) (tn_families s)))"

text \<open>Neither the token nor its family has ended.\<close>

definition live_refresh :: "uuid \<Rightarrow> time \<Rightarrow> tenancy \<Rightarrow> (refresh_row \<times> family_row) option" where
  "live_refresh i now s =
     (case refresh_family i s of
        None \<Rightarrow> None
      | Some (t, f) \<Rightarrow> if rt_expires_at t > now \<and> df_expires_at f > now \<and> df_revoked_at f = None then Some (t, f) else None)"

text \<open>The joins of a family with its authorization, approver and organization, and the membership if there is one.\<close>

definition family_identity :: "family_row \<Rightarrow> tenancy \<Rightarrow> identity_state option" where
  "family_identity f s =
     (case find (\<lambda>d. da_id d = df_device_authorization_id f) (tn_devices s) of
        None \<Rightarrow> None
      | Some d \<Rightarrow>
     (case da_approved_by d of
        None \<Rightarrow> None
      | Some user \<Rightarrow>
     (case (find (\<lambda>u. us_id u = user) (tn_users s), find (\<lambda>x. on_id x = df_organization_id f) (tn_organizations s)) of
        (Some u, Some x) \<Rightarrow> Some \<lparr>is_membership_role = member_role user (df_organization_id f) s, is_user_disabled_at = us_disabled_at u,
           is_organization_disabled_at = on_disabled_at x\<rparr>
      | _ \<Rightarrow> None)))"

definition end_family :: "device_env \<Rightarrow> unit ttx \<Rightarrow> family_row \<Rightarrow> unit ttx" where
  "end_family e mark f =
     bindt mark
     (\<lambda>_. bindt (revoke_access (\<lambda>t. dt_family_id t = df_id f) (dv_now e))
     (\<lambda>_. revoke_grants (family_grant (df_id f) (df_organization_id f) (dv_clock e 0)) (dv_clock e 0)))"

definition family_audit :: "device_env \<Rightarrow> family_row \<Rightarrow> string \<Rightarrow> string \<Rightarrow> string option \<Rightarrow> audit_context \<Rightarrow> (string \<times> json) list \<Rightarrow> unit ttx" where
  "family_audit e f action outcome reasonCode ctx metadata =
     device_audit e (Some (df_organization_id f)) (Some (df_project_id f)) ''api_key'' (Some (df_id f)) action outcome reasonCode (df_id f) ctx
       metadata"

definition refresh_error :: "string \<Rightarrow> token_outcome" where
  "refresh_error code = Inl (DeviceAuthorizationError code 400 None)"

text \<open>A token that was replaced is used again.\<close>

definition reuse_detected :: "device_env \<Rightarrow> family_row \<Rightarrow> audit_context \<Rightarrow> token_outcome ttx" where
  "reuse_detected e f ctx =
     bindt (end_family e (note_reuse (df_id f) (dv_now e)) f)
     (\<lambda>_. bindt (if df_reuse_detected_at f = None
         then family_audit e f ''device_authorization.refresh_reuse_detected'' ''denied'' (Some ''refresh_reuse_detected'') ctx []
         else returnt ())
     (\<lambda>_. returnt (refresh_error ''refresh_reuse_detected'')))"

definition generation_exhausted :: "device_env \<Rightarrow> family_row \<Rightarrow> audit_context \<Rightarrow> token_outcome ttx" where
  "generation_exhausted e f ctx =
     bindt (end_family e (revoke_families (\<lambda>x. df_id x = df_id f) (dv_now e)) f)
     (\<lambda>_. bindt (family_audit e f ''device_authorization.refresh_generation_exhausted'' ''denied'' (Some ''refresh_generation_exhausted'') ctx
        [(''maximum_generation'', JNum (JSInt MAXIMUM_REFRESH_GENERATION))])
     (\<lambda>_. returnt (refresh_error ''expired_token'')))"

definition use_refresh :: "uuid \<Rightarrow> time \<Rightarrow> uuid \<Rightarrow> unit ttx" where
  "use_refresh i now replacement = writet (\<lambda>s. s\<lparr>tn_refresh := sql_update (\<lambda>t. rt_id t = i)
     (\<lambda>t. t\<lparr>rt_used_at := Some now, rt_replaced_by := Some replacement\<rparr>) (tn_refresh s)\<rparr>)"

definition next_tokens :: "device_env \<Rightarrow> refresh_row \<Rightarrow> family_row \<Rightarrow> audit_context \<Rightarrow> token_outcome ttx" where
  "next_tokens e t f ctx =
     (let now = dv_now e; accessExpiresAt = min (now + ACCESS_LIFETIME_MS) (df_expires_at f) in
      bindt (insert_refresh (new_refresh e (df_id f) 0 (rt_generation t + 1) (df_expires_at f)))
      (\<lambda>_. bindt (use_refresh (rt_id t) now (dv_id e 0))
      (\<lambda>_. bindt (insert_access (new_access e (df_id f) 1 (df_organization_id f) (df_project_id f) (df_scopes f) accessExpiresAt))
      (\<lambda>_. bindt (family_audit e f ''device_authorization.refreshed'' ''succeeded'' None ctx [(''generation'', JNum (JSInt (rt_generation t + 1)))])
      (\<lambda>_. returnt (Inr (df_organization_id f, df_project_id f, df_scopes f, max 1 ((accessExpiresAt - now) div 1000),
         max 1 ((df_expires_at f - now) div 1000))))))))"

definition refresh_tx :: "device_env \<Rightarrow> uuid \<Rightarrow> audit_context \<Rightarrow> token_outcome ttx" where
  "refresh_tx e i ctx =
     (let now = dv_now e in
      bindt (readt (live_refresh i now))
      (\<lambda>familyLock. case familyLock of
         None \<Rightarrow> returnt (refresh_error ''invalid_grant'')
       | Some (t, f) \<Rightarrow>
      bindt (readt (family_identity f))
      (\<lambda>identity. case identity of
         None \<Rightarrow> returnt (refresh_error ''invalid_grant'')
       | Some who \<Rightarrow>
      if rt_used_at t \<noteq> None then reuse_detected e f ctx
      else if \<not> identityPermits (df_scopes f) who
      then bindt (revokeFamilyForIdentity e f (df_organization_id f) (df_project_id f) ctx) (\<lambda>_. returnt (refresh_error ''invalid_grant''))
      else if now < rt_created_at t + MINIMUM_REFRESH_INTERVAL_MS
      then returnt (Inl (DeviceAuthorizationError ''slow_down'' 429
             (Some (max 1 ((rt_created_at t + MINIMUM_REFRESH_INTERVAL_MS - now + 999) div 1000)))))
      else if rt_generation t \<ge> MAXIMUM_REFRESH_GENERATION then generation_exhausted e f ctx
      else next_tokens e t f ctx)))"

definition refresh :: "device_env \<Rightarrow> string \<Rightarrow> audit_context \<Rightarrow> tenancy \<Rightarrow> device_tokens tcall" where
  "refresh e refreshToken ctx before =
     (case tokenId refreshToken ''refresh'' of
        None \<Rightarrow> refuse (DeviceAuthorizationError ''invalid_grant'' 400 None)
      | Some i \<Rightarrow>
          (case refresh_family (toLowerCase i) before of
             None \<Rightarrow> refuse (DeviceAuthorizationError ''invalid_grant'' 400 None)
           | Some (t, f) \<Rightarrow>
               if \<not> equalTokenDigest e (Some (rt_token_hash t)) refreshToken then refuse (DeviceAuthorizationError ''invalid_grant'' 400 None)
               else if df_reuse_detected_at f \<noteq> None then refuse (DeviceAuthorizationError ''refresh_reuse_detected'' 400 None)
               else if df_revoked_at f \<noteq> None \<or> rt_expires_at t \<le> dv_now e \<or> df_expires_at f \<le> dv_now e
               then refuse (DeviceAuthorizationError ''invalid_grant'' 400 None)
               else andThen (commit (maperr throwDeviceRetentionCapacity (refresh_tx e (toLowerCase i) ctx))) (tokens_or_throw e 1 0)))"

section \<open>Revoking\<close>

definition set_family_revoked :: "uuid \<Rightarrow> time \<Rightarrow> unit ttx" where
  "set_family_revoked i now =
     writet (\<lambda>s. s\<lparr>tn_families := sql_update (\<lambda>f. df_id f = i) (\<lambda>f. f\<lparr>df_revoked_at := Some now\<rparr>) (tn_families s)\<rparr>)"

definition revoke_tx :: "device_env \<Rightarrow> uuid \<Rightarrow> audit_context \<Rightarrow> bool ttx" where
  "revoke_tx e i ctx =
     bindt (readt (live_refresh i (dv_now e)))
     (\<lambda>row. case row of
        None \<Rightarrow> returnt False
      | Some (t, f) \<Rightarrow>
          bindt (end_family e (set_family_revoked (df_id f) (dv_now e)) f)
          (\<lambda>_. bindt (family_audit e f ''device_authorization.revoked'' ''succeeded'' None ctx [])
          (\<lambda>_. returnt True)))"

definition revoke_device :: "device_env \<Rightarrow> string \<Rightarrow> audit_context \<Rightarrow> tenancy \<Rightarrow> bool tcall" where
  "revoke_device e refreshToken ctx before =
     (case tokenId refreshToken ''refresh'' of
        None \<Rightarrow> answer False
      | Some i \<Rightarrow>
          if \<not> equalTokenDigest e (map_option (rt_token_hash \<circ> fst) (live_refresh (toLowerCase i) (dv_now e) before)) refreshToken then answer False
          else commit (revoke_tx e (toLowerCase i) ctx))"

section \<open>Authenticating\<close>

definition live_access :: "uuid \<Rightarrow> time \<Rightarrow> tenancy \<Rightarrow> (access_row \<times> family_row) option" where
  "live_access i now s =
     (case find (\<lambda>t. dt_id t = i) (tn_access s) of
        None \<Rightarrow> None
      | Some t \<Rightarrow>
          (case find (\<lambda>f. df_id f = dt_family_id t) (tn_families s) of
             None \<Rightarrow> None
           | Some f \<Rightarrow>
               if dt_expires_at t > now \<and> dt_revoked_at t = None \<and> df_expires_at f > now \<and> df_revoked_at f = None then Some (t, f) else None))"

definition use_access :: "uuid \<Rightarrow> time \<Rightarrow> unit ttx" where
  "use_access i now = writet (\<lambda>s. s\<lparr>tn_access := sql_update (\<lambda>t. dt_id t = i) (\<lambda>t. t\<lparr>dt_last_used_at := Some now\<rparr>) (tn_access s)\<rparr>)"

definition access_tx :: "device_env \<Rightarrow> string \<Rightarrow> string \<Rightarrow> audit_context \<Rightarrow> api_key_principal option ttx" where
  "access_tx e rawId raw ctx =
     (let i = toLowerCase rawId; now = dv_now e in
      bindt (readt (live_access i now))
      (\<lambda>familyLock. case familyLock of
         None \<Rightarrow> returnt None
       | Some (t, f) \<Rightarrow>
      bindt (readt (family_identity f))
      (\<lambda>identity. case identity of
         None \<Rightarrow> returnt None
       | Some who \<Rightarrow>
      if \<not> equalTokenDigest e (Some (dt_token_hash t)) raw then returnt None
      else if \<not> identityPermits (dt_scopes t) who
      then bindt (revokeFamilyForIdentity e f (dt_organization_id t) (dt_project_id t) ctx) (\<lambda>_. returnt None)
      else bindt (use_access i now)
        (\<lambda>_. returnt (Some \<lparr>kp_apiKeyId = ''device-access:'' @ rawId, kp_deviceFamilyId = Some (dt_family_id t),
           kp_organizationId = dt_organization_id t, kp_projectId = Some (dt_project_id t), kp_scopes = set (dt_scopes t)\<rparr>)))))"

definition authenticateAccess :: "device_env \<Rightarrow> string \<Rightarrow> audit_context \<Rightarrow> tenancy \<Rightarrow> api_key_principal option tcall" where
  "authenticateAccess e raw ctx before =
     (case tokenId raw ''access'' of
        None \<Rightarrow> answer None
      | Some i \<Rightarrow>
          if \<not> equalTokenDigest e (map_option (dt_token_hash \<circ> fst) (live_access (toLowerCase i) (dv_now e) before)) raw then answer None
          else commit (access_tx e i raw ctx))"

section \<open>Retention\<close>

record retention_report =
  rr_skipped :: bool
  rr_accessTokens :: int
  rr_refreshTokens :: int
  rr_families :: int
  rr_authorizations :: int

definition emptyReport :: "bool \<Rightarrow> retention_report" where
  "emptyReport skipped = \<lparr>rr_skipped = skipped, rr_accessTokens = 0, rr_refreshTokens = 0, rr_families = 0, rr_authorizations = 0\<rparr>"

definition positiveBatch :: "int \<Rightarrow> int \<Rightarrow> bool" where
  "positiveBatch v maximum \<longleftrightarrow> 1 \<le> v \<and> v \<le> maximum"

definition access_ended :: "access_row \<Rightarrow> time" where
  "access_ended t = (case dt_revoked_at t of None \<Rightarrow> dt_expires_at t | Some r \<Rightarrow> r)"

definition family_ended :: "family_row \<Rightarrow> time" where
  "family_ended f = (case df_revoked_at f of None \<Rightarrow> df_expires_at f | Some r \<Rightarrow> r)"

text \<open>\<open>ORDER BY\<close> the end and the identifier, with a limit; rows another transaction holds are skipped.\<close>

definition oldest :: "('r \<Rightarrow> time) \<Rightarrow> ('r \<Rightarrow> uuid) \<Rightarrow> int \<Rightarrow> 'r list \<Rightarrow> 'r list" where
  "oldest ended key n rows = take (nat n) (sort_by (\<lambda>x y. let d = cmp_of (ended x) (ended y) in if d \<noteq> 0 then d else cmp_of (key x) (key y)) rows)"

definition delete_access :: "(access_row \<Rightarrow> bool) \<Rightarrow> int ttx" where
  "delete_access P = bindt (readt (\<lambda>s. int (length (filter P (tn_access s)))))
     (\<lambda>n. bindt (writet (\<lambda>s. s\<lparr>tn_access := filter (\<lambda>t. \<not> P t) (tn_access s)\<rparr>)) (\<lambda>_. returnt n))"

definition delete_refresh :: "(refresh_row \<Rightarrow> bool) \<Rightarrow> int ttx" where
  "delete_refresh P = bindt (guardt (\<lambda>s. list_all (\<lambda>t. P t \<or> \<not> list_ex (\<lambda>x. P x \<and> rt_replaced_by t = Some (rt_id x)) (tn_refresh s)) (tn_refresh s))
       (ForeignKeyConstraint ''device_refresh_tokens_replaced_by_fkey''))
     (\<lambda>_. bindt (readt (\<lambda>s. int (length (filter P (tn_refresh s)))))
     (\<lambda>n. bindt (writet (\<lambda>s. s\<lparr>tn_refresh := filter (\<lambda>t. \<not> P t) (tn_refresh s)\<rparr>)) (\<lambda>_. returnt n)))"

definition delete_families :: "(family_row \<Rightarrow> bool) \<Rightarrow> int ttx" where
  "delete_families P = bindt (guardt (\<lambda>s. list_all (\<lambda>f. P f \<longrightarrow> \<not> list_ex (\<lambda>t. rt_family_id t = df_id f) (tn_refresh s) \<and>
         \<not> list_ex (\<lambda>t. dt_family_id t = df_id f) (tn_access s)) (tn_families s)) (ForeignKeyConstraint ''device_family_id_fkey''))
     (\<lambda>_. bindt (readt (\<lambda>s. int (length (filter P (tn_families s)))))
     (\<lambda>n. bindt (writet (\<lambda>s. s\<lparr>tn_families := filter (\<lambda>f. \<not> P f) (tn_families s)\<rparr>)) (\<lambda>_. returnt n)))"

text \<open>Only authorizations without a family are deleted, by the condition of both statements.\<close>

definition delete_devices :: "(tenancy \<Rightarrow> device_row \<Rightarrow> bool) \<Rightarrow> int ttx" where
  "delete_devices P = bindt (readt (\<lambda>s. int (length (filter (P s) (tn_devices s)))))
     (\<lambda>n. bindt (writet (\<lambda>s. s\<lparr>tn_devices := filter (\<lambda>d. \<not> P s d) (tn_devices s)\<rparr>)) (\<lambda>_. returnt n))"

definition has_family :: "tenancy \<Rightarrow> device_row \<Rightarrow> bool" where
  "has_family s d = list_ex (\<lambda>f. df_device_authorization_id f = da_id d) (tn_families s)"

record reap_options =
  ro_accessBatch :: int
  ro_familyBatch :: int
  ro_authorizationBatch :: int

definition hour :: int where "hour = 60 * 60 * 1000"

definition reap_access :: "(nat \<Rightarrow> time) \<Rightarrow> (uuid \<Rightarrow> bool) \<Rightarrow> reap_options \<Rightarrow> int ttx" where
  "reap_access clock held x =
     bindt (readt (\<lambda>s. map dt_id (oldest access_ended dt_id (ro_accessBatch x)
        (filter (\<lambda>t. access_ended t \<le> clock 0 - hour \<and> \<not> held (dt_id t)) (tn_access s)))))
     (\<lambda>ended. delete_access (\<lambda>t. dt_id t \<in> set ended))"

definition ended_families :: "(nat \<Rightarrow> time) \<Rightarrow> (uuid \<Rightarrow> bool) \<Rightarrow> reap_options \<Rightarrow> tenancy \<Rightarrow> family_row list" where
  "ended_families clock held x s = oldest family_ended df_id (ro_familyBatch x)
     (filter (\<lambda>f. family_ended f \<le> clock 1 - 24 * hour \<and> \<not> held (df_id f)) (tn_families s))"

definition reap_families :: "family_row list \<Rightarrow> (int \<times> int \<times> int \<times> int) ttx" where
  "reap_families families =
     (let ids = map df_id families; authorizations = map df_device_authorization_id families in
      if ids = [] then returnt (0, 0, 0, 0)
      else bindt (delete_access (\<lambda>t. dt_family_id t \<in> set ids))
        (\<lambda>a. bindt (delete_refresh (\<lambda>t. rt_family_id t \<in> set ids))
        (\<lambda>r. bindt (delete_families (\<lambda>f. df_id f \<in> set ids))
        (\<lambda>f. bindt (delete_devices (\<lambda>s d. da_id d \<in> set authorizations \<and> \<not> has_family s d))
        (\<lambda>d. returnt (a, r, f, d))))))"

definition reap_codes :: "(nat \<Rightarrow> time) \<Rightarrow> (uuid \<Rightarrow> bool) \<Rightarrow> reap_options \<Rightarrow> int ttx" where
  "reap_codes clock held x =
     bindt (readt (\<lambda>s. map da_id (oldest da_expires_at da_id (ro_authorizationBatch x)
         (filter (\<lambda>d. da_expires_at d \<le> clock 2 - hour \<and> \<not> has_family s d \<and> \<not> held (da_id d)) (tn_devices s)))))
     (\<lambda>codes. delete_devices (\<lambda>s d. da_id d \<in> set codes))"

definition reapTransaction :: "(nat \<Rightarrow> time) \<Rightarrow> (uuid \<Rightarrow> bool) \<Rightarrow> reap_options \<Rightarrow> retention_report ttx" where
  "reapTransaction clock held x =
     bindt (reap_access clock held x)
     (\<lambda>access. bindt (readt (ended_families clock held x))
     (\<lambda>families. bindt (reap_families families)
     (\<lambda>(a, r, f, d). bindt (reap_codes clock held x)
     (\<lambda>n. returnt \<lparr>rr_skipped = False, rr_accessTokens = access + a, rr_refreshTokens = r, rr_families = f, rr_authorizations = d + n\<rparr>))))"

text \<open>The job; \<open>singleton\<close> says whether it got the advisory lock.\<close>

definition reapExpiredDeviceAuthorizations :: "(nat \<Rightarrow> time) \<Rightarrow> (uuid \<Rightarrow> bool) \<Rightarrow> bool \<Rightarrow> reap_options \<Rightarrow> retention_report ttx" where
  "reapExpiredDeviceAuthorizations clock held singleton x =
     (if \<not> positiveBatch (ro_accessBatch x) 10000 then throwt (PlainTenancyError ''device access cleanup batch must be from 1 to 10000'')
      else if \<not> positiveBatch (ro_familyBatch x) 32 then throwt (PlainTenancyError ''device family cleanup batch must be from 1 to 32'')
      else if \<not> positiveBatch (ro_authorizationBatch x) 10000
      then throwt (PlainTenancyError ''device authorization cleanup batch must be from 1 to 10000'')
      else if singleton then reapTransaction clock held x else returnt (emptyReport True))"

section \<open>Invariants of device authorization\<close>

text \<open>
  What the transactions do to an authorization: from pending to approved or denied, from approved to
  denied or consumed. What they do to a family: end it.
\<close>

definition device_move :: "device_row \<Rightarrow> (device_row \<Rightarrow> device_row) \<Rightarrow> bool" where
  "device_move d f \<longleftrightarrow> (\<forall>x. da_id (f x) = da_id x \<and>
     (da_status (f x) = da_status x \<or>
      (da_status d = DevicePending \<and> da_status (f x) \<in> {DeviceApproved, DeviceDenied}) \<or>
      (da_status d = DeviceApproved \<and> da_status (f x) \<in> {DeviceDenied, DeviceConsumed})))"

definition family_edit :: "(family_row \<Rightarrow> family_row) \<Rightarrow> bool" where
  "family_edit f \<longleftrightarrow> (\<forall>x. df_id (f x) = df_id x \<and> (df_revoked_at x \<noteq> None \<longrightarrow> df_revoked_at (f x) \<noteq> None))"

locale device_invariant = key_invariant +
  fixes fresh :: "uuid \<Rightarrow> bool"
  assumes rates: "I s \<Longrightarrow> I (s\<lparr>tn_rates := r\<rparr>)"
    and refresh_tokens: "I s \<Longrightarrow> I (s\<lparr>tn_refresh := rs\<rparr>)"
    and access_tokens: "I s \<Longrightarrow> I (s\<lparr>tn_access := as\<rparr>)"
    and device_added: "\<lbrakk>I s; fresh (da_id d); insert_device d s = Inr (x, s')\<rbrakk> \<Longrightarrow> I s'"
    and device_moved: "\<lbrakk>I s; d \<in> set (tn_devices s); device_move d g\<rbrakk> \<Longrightarrow>
      I (s\<lparr>tn_devices := sql_update (\<lambda>y. da_id y = da_id d) g (tn_devices s)\<rparr>)"
    and devices_dropped: "I s \<Longrightarrow> I (s\<lparr>tn_devices := filter P (tn_devices s)\<rparr>)"
    and family_added: "\<lbrakk>I s; fresh (df_id f); insert_family f s = Inr (x, s')\<rbrakk> \<Longrightarrow> I s'"
    and family_edited: "\<lbrakk>I s; family_edit h\<rbrakk> \<Longrightarrow> I (s\<lparr>tn_families := sql_update Q h (tn_families s)\<rparr>)"
    and families_dropped: "I s \<Longrightarrow> I (s\<lparr>tn_families := filter Q (tn_families s)\<rparr>)"
begin

lemma keeps_device_audit: "keeps I (device_audit e org p t a act oc rc r ctx m)"
  unfolding device_audit_def by (rule keeps_audit)

lemma keeps_insert_refresh: "keeps I (insert_refresh t)"
  unfolding insert_refresh_def by (intro keeps keeps_writet) (rule refresh_tokens)

lemma keeps_insert_access: "keeps I (insert_access t)"
  unfolding insert_access_def by (intro keeps keeps_writet) (rule access_tokens)

lemma keeps_use_refresh: "keeps I (use_refresh i now j)"
  unfolding use_refresh_def by (intro keeps_writet) (rule refresh_tokens)

lemma keeps_use_access: "keeps I (use_access i now)"
  unfolding use_access_def by (intro keeps_writet) (rule access_tokens)

lemma keeps_revoke_access: "keeps I (revoke_access P now)"
  unfolding revoke_access_def by (intro keeps_writet) (rule access_tokens)

lemma keeps_families:
  "keeps I (revoke_families Q now)" "keeps I (note_reuse i now)" "keeps I (set_family_revoked i now)"
  unfolding revoke_families_def note_reuse_def set_family_revoked_def
  by (intro keeps_writet, erule family_edited, simp add: family_edit_def)+

lemma keeps_insert_family: "fresh (df_id f) \<Longrightarrow> keeps I (insert_family f)"
  by (rule keepsI) (rule family_added)

lemma keeps_insert_device: "fresh (da_id d) \<Longrightarrow> keeps I (insert_device d)"
  by (rule keepsI) (rule device_added)

lemma keeps_rateLimit: "keeps I (rateLimit kind h limit now w)"
  unfolding rateLimit_def by (intro keeps keeps_writet) (simp add: rates)

lemma keeps_cleanupRateLimits: "keeps I (cleanupRateLimits now)"
  unfolding cleanupRateLimits_def by (intro keeps_writet) (simp add: rates Let_def)

lemma keeps_issue_limits_tx: "keeps I (issue_limits_tx e source)"
  unfolding issue_limits_tx_def by (intro keeps keeps_cleanupRateLimits keeps_rateLimit)

lemma keeps_actor_limit_tx: "keeps I (actor_limit_tx e a)"
  unfolding actor_limit_tx_def by (intro keeps keeps_cleanupRateLimits keeps_rateLimit)

lemma keeps_revokeFamilyForIdentity: "keeps I (revokeFamilyForIdentity e f org p ctx)"
  unfolding revokeFamilyForIdentity_def by (intro keeps keeps_families keeps_revoke_access keeps_grants keeps_device_audit)

lemma keeps_end_family: "keeps I m \<Longrightarrow> keeps I (end_family e m f)"
  unfolding end_family_def by (intro keeps keeps_revoke_access keeps_grants)

lemmas device_statements = keeps_device_audit keeps_insert_refresh keeps_insert_access keeps_use_refresh keeps_use_access
  keeps_revoke_access keeps_families keeps_revokeFamilyForIdentity keeps_end_family keeps_grants

lemma keeps_issue_tx: "fresh (dv_id e n) \<Longrightarrow> keeps I (issue_tx e x n)"
  unfolding issue_tx_def by (intro keeps keeps_insert_device keeps_device_audit) (simp add: new_device_def)

lemma keeps_refresh_tx: "keeps I (refresh_tx e i ctx)"
  unfolding refresh_tx_def reuse_detected_def generation_exhausted_def next_tokens_def family_audit_def
  by (intro keeps device_statements)

lemma keeps_revoke_tx: "keeps I (revoke_tx e i ctx)"
  unfolding revoke_tx_def family_audit_def by (intro keeps device_statements)

lemma keeps_access_tx: "keeps I (access_tx e i raw ctx)"
  unfolding access_tx_def by (intro keeps device_statements)

lemma keeps_deletes:
  "keeps I (delete_access Pa)" "keeps I (delete_refresh Pr)" "keeps I (delete_families Pf)" "keeps I (delete_devices Pd)"
  unfolding delete_access_def delete_refresh_def delete_families_def delete_devices_def
  by (intro keeps keeps_writet, simp add: access_tokens refresh_tokens families_dropped devices_dropped)+

lemma keeps_reap: "keeps I (reapExpiredDeviceAuthorizations clock held singleton x)"
  unfolding reapExpiredDeviceAuthorizations_def reapTransaction_def reap_access_def reap_families_def reap_codes_def Let_def
  by (intro keeps keeps_deletes)

text \<open>The updates of an authorization follow the status of a row that was read.\<close>

lemma update_device_moved:
  assumes "update_device i g s = Inr (x, s')" and "I s" and "d \<in> set (tn_devices s)" and "da_id d = i" and "device_move d g"
  shows "I s'"
  using assms device_moved [of s d g] by (auto simp: update_device_def bindt_Inr)


lemma update_then:
  assumes "bindt (update_device (da_id d) g) k s = Inr (y, s')" and "I s" and "d \<in> set (tn_devices s)" and "device_move d g"
    and "keeps I (k ())"
  shows "I s'"
  using assms update_device_moved [OF _ assms(2,3) refl assms(4)] by (auto simp: bindt_Inr dest: keepsD)

lemma keeps_authorize_tx: "keeps I (authorize_tx e x code)"
proof (rule keepsI)
  fix s y s'
  assume I: "I s" and a: "authorize_tx e x code s = Inr (y, s')"
  obtain u m d where d: "device_by_code e code s = Some d" and pending: "da_status d = DevicePending"
    using a by (auto simp: authorize_tx_def bindt_readt split: option.splits if_splits)
  have row: "d \<in> set (tn_devices s)" using d by (auto simp: device_by_code_def dest: find_SomeD)
  show "I s'"
    using a d pending
    by (auto simp: authorize_tx_def bindt_readt bindt_guardt device_move_def split: option.splits if_splits
      intro!: keeps_device_audit elim!: update_then [OF _ I row])
qed

lemma keeps_exchange_tx:
  assumes fresh: "fresh (dv_id e 2)"
  shows "keeps I (exchange_tx e i ctx)"
proof (rule keepsI)
  fix s y s'
  assume I: "I s" and x: "exchange_tx e i ctx s = Inr (y, s')"
  show "I s'"
  proof (cases "find (\<lambda>d. da_id d = toLowerCase i) (tn_devices s)")
    case None
    with x I show ?thesis by (simp add: exchange_tx_def bindt_readt Let_def)
  next
    case (Some d)
    have row: "d \<in> set (tn_devices s)" and i: "toLowerCase i = da_id d" using find_SomeD [OF Some] by auto
    have grant: "grant_tokens e (da_id d) i org p scopes ctx s = Inr (y, s') \<Longrightarrow> da_status d = DeviceApproved \<Longrightarrow> I s'" for org p scopes
    proof -
      assume g: "grant_tokens e (da_id d) i org p scopes ctx s = Inr (y, s')" and st: "da_status d = DeviceApproved"
      then obtain t1 t2 t3 t4 x4 where f: "insert_family (new_family e (da_id d) org p scopes) s = Inr ((), t1)"
        and r: "insert_refresh (new_refresh e (dv_id e 2) 1 0 (dv_now e + REFRESH_LIFETIME_MS)) t1 = Inr ((), t2)"
        and a: "insert_access (new_access e (dv_id e 2) 0 org p scopes (dv_now e + ACCESS_LIFETIME_MS)) t2 = Inr ((), t3)"
        and u: "update_device (da_id d) (\<lambda>d. d\<lparr>da_status := DeviceConsumed, da_consumed_at := Some (dv_now e)\<rparr>) t3 = Inr (x4, t4)"
        and au: "device_audit e (Some org) (Some p) ''system'' None ''device_authorization.exchanged'' ''succeeded'' None i ctx
          [(''scopes'', JArr (map JStr scopes))] t4 = Inr ((), s')"
        by (auto simp: grant_tokens_def bindt_Inr)
      have "I t1" using keepsD [OF keeps_insert_family f I] fresh by (simp add: new_family_def)
      then have "I t3" using keepsD [OF keeps_insert_refresh r] keepsD [OF keeps_insert_access a] by blast
      moreover have "tn_devices t3 = tn_devices s"
        using f r a by (auto simp: insert_family_def insert_refresh_def insert_access_def bindt_Inr)
      ultimately have "I t4" using update_device_moved [OF u _ _ refl] row st by (simp add: device_move_def)
      then show "I s'" by (rule keepsD [OF keeps_device_audit au])
    qed
    have denied: "device_denied e (da_id d) i org ctx s = Inr (y, s') \<Longrightarrow> da_status d = DeviceApproved \<Longrightarrow> I s'" for org
      by (auto simp: device_denied_def device_move_def intro!: keeps keeps_device_audit elim!: update_then [OF _ I row])
    show ?thesis
      using x I Some i
      by (auto simp: exchange_tx_def bindt_readt Let_def device_move_def split: device_status.splits option.splits if_splits
        intro!: keeps dest: grant denied elim!: update_then [OF _ I row])
  qed
qed

end

lemma insert_device_Inr: "insert_device d s = Inr (x, s') \<Longrightarrow> s' = s\<lparr>tn_devices := tn_devices s @ [d]\<rparr>"
  by (auto simp: insert_device_def bindt_Inr)

lemma insert_family_Inr: "insert_family f s = Inr (x, s') \<Longrightarrow> s' = s\<lparr>tn_families := tn_families s @ [f]\<rparr>"
  by (auto simp: insert_family_def bindt_Inr)

lemma insert_refresh_Inr: "insert_refresh t s = Inr (x, s') \<Longrightarrow> s' = s\<lparr>tn_refresh := tn_refresh s @ [t]\<rparr>"
  by (auto simp: insert_refresh_def bindt_Inr)

lemma insert_access_Inr: "insert_access t s = Inr (x, s') \<Longrightarrow> s' = s\<lparr>tn_access := tn_access s @ [t]\<rparr>"
  by (auto simp: insert_access_def bindt_Inr)

text \<open>A family that has ended: no row of it is unrevoked. It may have been removed.\<close>

definition family_dead :: "uuid \<Rightarrow> tenancy \<Rightarrow> bool" where
  "family_dead i s \<longleftrightarrow> list_all (\<lambda>f. df_id f = i \<longrightarrow> df_revoked_at f \<noteq> None) (tn_families s)"

text \<open>An authorization that was denied or exchanged, and may have been removed.\<close>

definition device_closed :: "uuid \<Rightarrow> tenancy \<Rightarrow> bool" where
  "device_closed i s \<longleftrightarrow> list_all (\<lambda>d. da_id d = i \<longrightarrow> da_status d \<in> {DeviceDenied, DeviceConsumed}) (tn_devices s)"

lemma family_dead_edited: "family_dead i s \<Longrightarrow> family_edit h \<Longrightarrow> family_dead i (s\<lparr>tn_families := sql_update Q h (tn_families s)\<rparr>)"
  unfolding family_dead_def list_all_iff by (auto simp: family_edit_def elim!: sql_updateE)

lemma device_closed_moved:
  assumes "device_closed i s" and "d \<in> set (tn_devices s)" and "device_move d g"
  shows "device_closed i (s\<lparr>tn_devices := sql_update (\<lambda>y. da_id y = da_id d) g (tn_devices s)\<rparr>)"
proof -
  have "da_status x \<in> {DeviceDenied, DeviceConsumed}"
    if x: "x \<in> set (sql_update (\<lambda>y. da_id y = da_id d) g (tn_devices s))" and i: "da_id x = i" for x
    using x
  proof (rule sql_updateE)
    fix r
    assume r: "r \<in> set (tn_devices s)" and d: "da_id r = da_id d" and gx: "x = g r"
    with assms(3) i have "da_id d = i" "da_id r = i" by (auto simp: device_move_def)
    with assms(1,2) r have "da_status d \<in> {DeviceDenied, DeviceConsumed}" "da_status r \<in> {DeviceDenied, DeviceConsumed}"
      by (auto simp: device_closed_def list_all_iff)
    with assms(3) show ?thesis by (auto simp: device_move_def gx)
  next
    assume "x \<in> set (tn_devices s)"
    with assms(1) i show ?thesis by (auto simp: device_closed_def list_all_iff)
  qed
  then show ?thesis by (simp add: device_closed_def list_all_iff)
qed

lemma live_refresh_unrevoked: "live_refresh i now s = Some (t, f) \<Longrightarrow> f \<in> set (tn_families s) \<and> df_revoked_at f = None"
  by (auto simp: live_refresh_def refresh_family_def dest: find_SomeD split: option.splits if_splits)

lemma live_access_unrevoked:
  "live_access i now s = Some (t, f) \<Longrightarrow> f \<in> set (tn_families s) \<and> df_revoked_at f = None \<and> df_id f = dt_family_id t"
  by (auto simp: live_access_def dest: find_SomeD split: option.splits if_splits)

text \<open>What an accepted access token stands for.\<close>

lemma commit_Inr: "commit m s = (Inr x, s') \<longleftrightarrow> m s = Inr (x, s')"
  by (auto simp: commit_def split: sum.splits prod.splits)

lemma andThen_Inr: "andThen m k s = (Inr y, s') \<longleftrightarrow> (\<exists>x t. m s = (Inr x, t) \<and> k x t = (Inr y, s'))"
  by (auto simp: andThen_def split: sum.splits prod.splits)

lemma authenticateAccess_Some:
  assumes "authenticateAccess e raw ctx before s = (Inr (Some p), s')"
  obtains i t f who where "tokenId raw ''access'' = Some i" and "live_access (toLowerCase i) (dv_now e) s = Some (t, f)"
    and "family_identity f s = Some who" and "identityPermits (dt_scopes t) who" and "equalTokenDigest e (Some (dt_token_hash t)) raw"
    and "p = \<lparr>kp_apiKeyId = ''device-access:'' @ i, kp_deviceFamilyId = Some (dt_family_id t),
           kp_organizationId = dt_organization_id t, kp_projectId = Some (dt_project_id t), kp_scopes = set (dt_scopes t)\<rparr>"
    and "s' = s\<lparr>tn_access := sql_update (\<lambda>t. dt_id t = toLowerCase i) (\<lambda>t. t\<lparr>dt_last_used_at := Some (dv_now e)\<rparr>) (tn_access s)\<rparr>"
  using assms
  by (auto simp: authenticateAccess_def answer_def commit_Inr access_tx_def bindt_readt bindt_Inr use_access_def Let_def
    split: option.splits if_splits)

lemma dead_family_refused:
  "family_dead i s \<Longrightarrow> authenticateAccess e raw ctx before s = (Inr (Some p), s') \<Longrightarrow> kp_deviceFamilyId p \<noteq> Some i"
  by (erule authenticateAccess_Some) (auto simp: family_dead_def list_all_iff dest!: live_access_unrevoked)

lemma tokens_Inr:
  "tokens_or_throw e a r outcome s = (Inr tk, s') \<Longrightarrow> s' = s \<and>
    outcome = Inr (tk_organization_id tk, tk_project_id tk, tk_scopes tk, tk_expires_in tk, tk_refresh_expires_in tk)"
  by (auto simp: tokens_or_throw_def refuse_def answer_def split: sum.splits prod.splits)

lemma refresh_tx_granted:
  assumes "refresh_tx e i ctx s = Inr (Inr r, s')"
  obtains t f where "live_refresh i (dv_now e) s = Some (t, f)" and "rt_used_at t = None" and "next_tokens e t f ctx s = Inr (Inr r, s')"
  using assms
  by (auto simp: refresh_tx_def bindt_readt bindt_Inr Let_def reuse_detected_def generation_exhausted_def refresh_error_def
    split: option.splits if_splits)

lemma refresh_granted:
  assumes "refresh e raw ctx before s = (Inr tk, s')"
  obtains i t f where "tokenId raw ''refresh'' = Some i" and "live_refresh (toLowerCase i) (dv_now e) s = Some (t, f)"
    and "rt_used_at t = None"
    and "next_tokens e t f ctx s = Inr (Inr (tk_organization_id tk, tk_project_id tk, tk_scopes tk, tk_expires_in tk, tk_refresh_expires_in tk), s')"
proof -
  from assms obtain i where i: "tokenId raw ''refresh'' = Some i"
    and "andThen (commit (maperr throwDeviceRetentionCapacity (refresh_tx e (toLowerCase i) ctx))) (tokens_or_throw e 1 0) s = (Inr tk, s')"
    by (auto simp: refresh_def refuse_def split: option.splits prod.splits if_splits)
  then have "refresh_tx e (toLowerCase i) ctx s =
      Inr (Inr (tk_organization_id tk, tk_project_id tk, tk_scopes tk, tk_expires_in tk, tk_refresh_expires_in tk), s')"
    by (auto simp: andThen_Inr commit_Inr dest: tokens_Inr)
  then show thesis by (rule refresh_tx_granted) (rule that [OF i])
qed

lemma exchange_granted:
  assumes "exchange_code e raw ctx before s = (Inr tk, s')"
  obtains i where "tokenId raw ''device'' = Some i"
    and "exchange_tx e i ctx s = Inr (Inr (tk_organization_id tk, tk_project_id tk, tk_scopes tk, tk_expires_in tk, tk_refresh_expires_in tk), s')"
proof -
  from assms obtain i where i: "tokenId raw ''device'' = Some i"
    and "andThen (commit (maperr throwDeviceRetentionCapacity (exchange_tx e i ctx))) (tokens_or_throw e 0 1) s = (Inr tk, s')"
    by (auto simp: exchange_code_def refuse_def split: option.splits if_splits)
  then have "exchange_tx e i ctx s =
      Inr (Inr (tk_organization_id tk, tk_project_id tk, tk_scopes tk, tk_expires_in tk, tk_refresh_expires_in tk), s')"
    by (auto simp: andThen_Inr commit_Inr dest: tokens_Inr)
  with i show thesis by (rule that)
qed

text \<open>An exchange that grants tokens found the authorization approved, and leaves it consumed.\<close>

lemma exchange_tx_granted:
  assumes "exchange_tx e i ctx s = Inr (Inr r, s')"
  obtains d org project approver scopes role where "find (\<lambda>d. da_id d = toLowerCase i) (tn_devices s) = Some d"
    and "da_status d = DeviceApproved" and "dv_now e < da_expires_at d"
    and "da_organization_id d = Some org" and "da_project_id d = Some project" and "da_approved_by d = Some approver"
    and "da_approved_scopes d = Some scopes" and "current_role approver org s = Some role" and "list_all (rolePermits role) scopes"
    and "grant_tokens e (toLowerCase i) i org project scopes ctx s = Inr (Inr r, s')"
  using assms
  by (auto simp: exchange_tx_def bindt_readt bindt_Inr Let_def exchange_error_def device_denied_def list_all_iff list_ex_iff
    split: option.splits if_splits device_status.splits)

lemma grant_tokens_devices:
  assumes "grant_tokens e i raw org project scopes ctx s = Inr (Inr r, s')"
  shows "tn_devices s' = sql_update (\<lambda>d. da_id d = i) (\<lambda>d. d\<lparr>da_status := DeviceConsumed, da_consumed_at := Some (dv_now e)\<rparr>) (tn_devices s)"
    and "r = (org, project, scopes, ACCESS_LIFETIME_MS div 1000, REFRESH_LIFETIME_MS div 1000)"
  using assms
  by (auto simp: grant_tokens_def bindt_Inr update_device_def device_audit_def
    dest!: insert_family_Inr insert_refresh_Inr insert_access_Inr append_audit_Inr)

lemma exchange_closes: "exchange_tx e i ctx s = Inr (Inr r, s') \<Longrightarrow> device_closed (toLowerCase i) s'"
  by (erule exchange_tx_granted, drule grant_tokens_devices(1)) (auto simp: device_closed_def list_all_iff in_sql_update)

lemma closed_not_exchanged: "device_closed (toLowerCase i) s \<Longrightarrow> exchange_tx e i ctx s \<noteq> Inr (Inr r, s')"
  by (rule notI, erule exchange_tx_granted) (auto simp: device_closed_def list_all_iff dest!: find_SomeD)

section \<open>What retention removes\<close>

lemma delete_Inr:
  "delete_access Pa s = Inr (n, s') \<Longrightarrow> s' = s\<lparr>tn_access := filter (\<lambda>t. \<not> Pa t) (tn_access s)\<rparr>"
  "delete_refresh Pr s = Inr (n, s') \<Longrightarrow> s' = s\<lparr>tn_refresh := filter (\<lambda>t. \<not> Pr t) (tn_refresh s)\<rparr>"
  "delete_families Pf s = Inr (n, s') \<Longrightarrow> s' = s\<lparr>tn_families := filter (\<lambda>f. \<not> Pf f) (tn_families s)\<rparr>"
  "delete_devices Pd s = Inr (n, s') \<Longrightarrow> s' = s\<lparr>tn_devices := filter (\<lambda>d. \<not> Pd s d) (tn_devices s)\<rparr>"
  by (auto simp: delete_access_def delete_refresh_def delete_families_def delete_devices_def bindt_Inr)

lemma set_oldest: "set (oldest ended key n rows) \<subseteq> set rows"
  by (auto simp: oldest_def dest: in_set_takeD)

text \<open>Rows that have ended, and authorizations that no remaining family refers to.\<close>

definition reaped :: "time \<Rightarrow> tenancy \<Rightarrow> tenancy \<Rightarrow> bool" where
  "reaped now s s' \<longleftrightarrow> (\<exists>A F D rs. s' = s\<lparr>tn_access := filter A (tn_access s), tn_refresh := rs, tn_families := filter F (tn_families s),
       tn_devices := filter D (tn_devices s)\<rparr> \<and>
     (\<forall>t\<in>set (tn_access s). \<not> A t \<longrightarrow> (\<exists>u\<in>set (tn_access s). dt_id u = dt_id t \<and> access_ended u \<le> now) \<or>
        (\<exists>f\<in>set (tn_families s). df_id f = dt_family_id t \<and> family_ended f \<le> now)) \<and>
     (\<forall>f\<in>set (tn_families s). \<not> F f \<longrightarrow> (\<exists>g\<in>set (tn_families s). df_id g = df_id f \<and> family_ended g \<le> now)) \<and>
     (\<forall>f\<in>set (tn_families s). \<forall>d. F f \<longrightarrow> da_id d = df_device_authorization_id f \<longrightarrow> D d))"

lemma reapTransaction_reaped:
  assumes r: "reapTransaction clock held x s = Inr (rep, s')" and c: "clock 0 - hour \<le> now" "clock 1 - 24 * hour \<le> now"
  shows "reaped now s s'"
proof -
  obtain n1 s1 b s3 n where r1: "reap_access clock held x s = Inr (n1, s1)"
    and r2: "reap_families (ended_families clock held x s1) s1 = Inr (b, s3)" and r3: "reap_codes clock held x s3 = Inr (n, s')"
    using r by (auto simp: reapTransaction_def bindt_Inr split: prod.splits)
  define ended where "ended = set (map dt_id (oldest access_ended dt_id (ro_accessBatch x)
    (filter (\<lambda>t. access_ended t \<le> clock 0 - hour \<and> \<not> held (dt_id t)) (tn_access s))))"
  have ended: "\<exists>u\<in>set (tn_access s). dt_id u = i \<and> access_ended u \<le> now" if "i \<in> ended" for i
    using that c(1) set_oldest unfolding ended_def by fastforce
  have s1: "s1 = s\<lparr>tn_access := filter (\<lambda>t. dt_id t \<notin> ended) (tn_access s)\<rparr>"
    using r1 unfolding reap_access_def bindt_readt by (drule_tac delete_Inr(1)) (simp add: ended_def)
  define fams where "fams = ended_families clock held x s1"
  define ids where "ids = set (map df_id fams)"
  have "set fams \<subseteq> {f \<in> set (tn_families s). family_ended f \<le> clock 1 - 24 * hour}"
    using set_oldest unfolding fams_def ended_families_def s1 by fastforce
  then have ids: "\<exists>g\<in>set (tn_families s). df_id g = i \<and> family_ended g \<le> now" if "i \<in> ids" for i
    using that c(2) unfolding ids_def by fastforce
  define auths where "auths = set (map df_device_authorization_id fams)"
  define s2 where "s2 = s1\<lparr>tn_access := filter (\<lambda>t. dt_family_id t \<notin> ids) (tn_access s1),
    tn_refresh := filter (\<lambda>t. rt_family_id t \<notin> ids) (tn_refresh s), tn_families := filter (\<lambda>f. df_id f \<notin> ids) (tn_families s)\<rparr>"
  have s3: "s3 = s2\<lparr>tn_devices := filter (\<lambda>d. \<not> (da_id d \<in> auths \<and> \<not> has_family s2 d)) (tn_devices s)\<rparr>"
  proof (cases "fams = []")
    case True
    with r2 [folded fams_def] show ?thesis by (simp add: reap_families_def s2_def s1 ids_def auths_def)
  next
    case False
    with r2 [folded fams_def] show ?thesis
      unfolding reap_families_def ids_def auths_def s2_def s1 Let_def by (auto simp: bindt_Inr dest!: delete_Inr)
  qed
  define codes where "codes = set (map da_id (oldest da_expires_at da_id (ro_authorizationBatch x)
    (filter (\<lambda>d. da_expires_at d \<le> clock 2 - hour \<and> \<not> has_family s3 d \<and> \<not> held (da_id d)) (tn_devices s3))))"
  have "s' = s3\<lparr>tn_devices := filter (\<lambda>d. da_id d \<notin> codes) (tn_devices s3)\<rparr>"
    using r3 unfolding reap_codes_def bindt_readt by (drule_tac delete_Inr(4)) (simp add: codes_def)
  then have shape: "s' = s\<lparr>tn_access := filter (\<lambda>t. dt_id t \<notin> ended \<and> dt_family_id t \<notin> ids) (tn_access s),
      tn_refresh := filter (\<lambda>t. rt_family_id t \<notin> ids) (tn_refresh s), tn_families := filter (\<lambda>f. df_id f \<notin> ids) (tn_families s),
      tn_devices := filter (\<lambda>d. da_id d \<notin> codes \<and> \<not> (da_id d \<in> auths \<and> \<not> has_family s2 d)) (tn_devices s)\<rparr>"
    by (simp add: s3 s2_def s1 conj_commute)
  have code: "\<exists>d. da_id d = i \<and> \<not> has_family s3 d" if "i \<in> codes" for i
    using that set_oldest unfolding codes_def by fastforce
  have kept: "has_family s2 d \<and> has_family s3 d" if "f \<in> set (tn_families s)" "df_id f \<notin> ids" "da_id d = df_device_authorization_id f" for f d
    using that by (auto simp: has_family_def s2_def s3 s1 list_ex_iff)
  show ?thesis
    unfolding reaped_def
  proof (intro exI conjI)
    show "s' = s\<lparr>tn_access := filter (\<lambda>t. dt_id t \<notin> ended \<and> dt_family_id t \<notin> ids) (tn_access s),
      tn_refresh := filter (\<lambda>t. rt_family_id t \<notin> ids) (tn_refresh s), tn_families := filter (\<lambda>f. df_id f \<notin> ids) (tn_families s),
      tn_devices := filter (\<lambda>d. da_id d \<notin> codes \<and> \<not> (da_id d \<in> auths \<and> \<not> has_family s2 d)) (tn_devices s)\<rparr>"
      by (rule shape)
    show "\<forall>t\<in>set (tn_access s). \<not> (dt_id t \<notin> ended \<and> dt_family_id t \<notin> ids) \<longrightarrow>
        (\<exists>u\<in>set (tn_access s). dt_id u = dt_id t \<and> access_ended u \<le> now) \<or>
        (\<exists>f\<in>set (tn_families s). df_id f = dt_family_id t \<and> family_ended f \<le> now)"
      using ended ids by blast
    show "\<forall>f\<in>set (tn_families s). \<not> df_id f \<notin> ids \<longrightarrow> (\<exists>g\<in>set (tn_families s). df_id g = df_id f \<and> family_ended g \<le> now)"
      using ids by blast
    show "\<forall>f\<in>set (tn_families s). \<forall>d. df_id f \<notin> ids \<longrightarrow> da_id d = df_device_authorization_id f \<longrightarrow>
        da_id d \<notin> codes \<and> \<not> (da_id d \<in> auths \<and> \<not> has_family s2 d)"
    proof (intro ballI allI impI)
      fix f :: family_row and d :: device_row
      assume f: "f \<in> set (tn_families s)" "df_id f \<notin> ids" and d: "da_id d = df_device_authorization_id f"
      have "da_id d \<notin> codes"
      proof
        assume "da_id d \<in> codes"
        then obtain d' where "da_id d' = da_id d" "\<not> has_family s3 d'" using code by blast
        with kept [OF f, of d'] d show False by simp
      qed
      with kept [OF f d] show "da_id d \<notin> codes \<and> \<not> (da_id d \<in> auths \<and> \<not> has_family s2 d)" by blast
    qed
  qed
qed

lemma find_filter_keep: "find P xs = Some r \<Longrightarrow> Q r \<Longrightarrow> find P (filter Q xs) = Some r"
  by (induction xs) (auto split: if_splits)

lemma find_filter_key:
  assumes "distinct (map k xs)" and "find (\<lambda>x. k x = i) (filter Q xs) = Some r"
  shows "find (\<lambda>x. k x = i) xs = Some r"
  using assms by (induction xs) (auto split: if_splits dest!: find_SomeD)

lemma same_key: "distinct (map k xs) \<Longrightarrow> x \<in> set xs \<Longrightarrow> y \<in> set xs \<Longrightarrow> k x = k y \<Longrightarrow> x = y"
  by (auto simp: distinct_map dest: inj_onD)

lemma live_access_Some_iff:
  "live_access i now s = Some (t, f) \<longleftrightarrow> find (\<lambda>t. dt_id t = i) (tn_access s) = Some t \<and>
     find (\<lambda>f. df_id f = dt_family_id t) (tn_families s) = Some f \<and> now < dt_expires_at t \<and> dt_revoked_at t = None \<and>
     now < df_expires_at f \<and> df_revoked_at f = None"
  by (auto simp: live_access_def split: option.splits)

lemma reaped_live_access:
  assumes r: "reaped now s s'" and da: "distinct (map dt_id (tn_access s))" and df: "distinct (map df_id (tn_families s))"
  shows "live_access i now s' = Some (t, f) \<longleftrightarrow> live_access i now s = Some (t, f)"
    and "live_access i now s = Some (t, f) \<Longrightarrow> family_identity f s' = family_identity f s"
proof -
  obtain A F D rs where s': "s' = s\<lparr>tn_access := filter A (tn_access s), tn_refresh := rs, tn_families := filter F (tn_families s),
       tn_devices := filter D (tn_devices s)\<rparr>"
    and A: "\<And>t. t \<in> set (tn_access s) \<Longrightarrow> \<not> A t \<Longrightarrow> (\<exists>u\<in>set (tn_access s). dt_id u = dt_id t \<and> access_ended u \<le> now) \<or>
        (\<exists>f\<in>set (tn_families s). df_id f = dt_family_id t \<and> family_ended f \<le> now)"
    and F: "\<And>f. f \<in> set (tn_families s) \<Longrightarrow> \<not> F f \<Longrightarrow> \<exists>g\<in>set (tn_families s). df_id g = df_id f \<and> family_ended g \<le> now"
    and D: "\<And>f d. f \<in> set (tn_families s) \<Longrightarrow> F f \<Longrightarrow> da_id d = df_device_authorization_id f \<Longrightarrow> D d"
    using r unfolding reaped_def by blast
  have keep: "A t \<and> F f" if l: "live_access i now s = Some (t, f)"
  proof -
    from l have t: "t \<in> set (tn_access s)" "now < access_ended t"
      and f: "f \<in> set (tn_families s)" "df_id f = dt_family_id t" "now < family_ended f"
      by (auto simp: live_access_Some_iff access_ended_def family_ended_def dest!: find_SomeD)
    have "A t" using A [OF t(1)] same_key [OF da _ t(1)] same_key [OF df _ f(1)] t(2) f(2,3) by fastforce
    moreover have "F f" using F [OF f(1)] same_key [OF df _ f(1)] f(3) by fastforce
    ultimately show ?thesis ..
  qed
  show "live_access i now s' = Some (t, f) \<longleftrightarrow> live_access i now s = Some (t, f)"
  proof
    assume "live_access i now s' = Some (t, f)"
    then show "live_access i now s = Some (t, f)"
      by (auto simp: live_access_Some_iff s' dest: find_filter_key [OF da] find_filter_key [OF df])
  next
    assume "live_access i now s = Some (t, f)"
    with keep show "live_access i now s' = Some (t, f)"
      by (auto simp: live_access_Some_iff s' intro: find_filter_keep)
  qed
  show "family_identity f s' = family_identity f s" if l: "live_access i now s = Some (t, f)"
  proof -
    have f: "f \<in> set (tn_families s)" "F f" using l keep by (auto dest: live_access_unrevoked)
    have "find (\<lambda>d. da_id d = df_device_authorization_id f) (filter D (tn_devices s)) =
        find (\<lambda>d. da_id d = df_device_authorization_id f) (tn_devices s)"
      using D [OF f] by (induction "tn_devices s") (auto simp: find_filter filter_filter intro!: arg_cong [where f = "\<lambda>xs. case xs of [] \<Rightarrow> None | r # _ \<Rightarrow> Some r"] filter_cong)
    then show ?thesis by (simp add: family_identity_def s' member_role_def cong: option.case_cong)
  qed
qed

lemma authenticateAccess_iff:
  "fst (authenticateAccess e raw ctx s s) = Inr (Some p) \<longleftrightarrow>
    (\<exists>i t f who. tokenId raw ''access'' = Some i \<and>
      (live_access (toLowerCase i) (dv_now e) s = Some (t, f) \<and> family_identity f s = Some who) \<and> identityPermits (dt_scopes t) who \<and> equalTokenDigest e (Some (dt_token_hash t)) raw \<and>
      p = \<lparr>kp_apiKeyId = ''device-access:'' @ i, kp_deviceFamilyId = Some (dt_family_id t),
           kp_organizationId = dt_organization_id t, kp_projectId = Some (dt_project_id t), kp_scopes = set (dt_scopes t)\<rparr>)"
  (is "?l \<longleftrightarrow> ?r")
proof
  assume ?l
  then obtain s' where "authenticateAccess e raw ctx s s = (Inr (Some p), s')" by (metis fst_conv surj_pair)
  then show ?r by (rule authenticateAccess_Some) blast
next
  assume ?r
  then show ?l
    by (auto simp: authenticateAccess_def commit_def access_tx_def bindt_readt bindt_writet use_access_def returnt_def Let_def)
qed

section \<open>Codes and tokens\<close>

text \<open>What a token was made from is what is read from it.\<close>

lemma tokenId_opaqueToken:
  assumes "toLowerCase kind = kind" and "uuid_ok i" and "length secret = 43" and "list_all secret_char secret"
  shows "tokenId (opaqueToken kind i secret) kind = Some i"
proof -
  define p where "p = ''bc_'' @ kind @ ''_''"
  have n: "length kind + 4 = length p" by (simp add: p_def)
  have tok: "opaqueToken kind i secret = p @ i @ ''_'' @ secret" by (simp add: opaqueToken_def p_def)
  have low: "toLowerCase p = p"
    using assms(1) by (simp add: p_def toLowerCase_def lower_char_def is_upper_def less_eq_char_def)
  have i: "length i = 36" using assms(2) by (simp add: uuid_ok_def)
  show ?thesis
    unfolding tokenId_def tok n Let_def p_def [symmetric] using assms(2-4) by (simp add: i low nth_append)
qed

text \<open>A code that was drawn is read back however the user separates or capitalizes it.\<close>

lemma alphabet_char: "c \<in> set USER_CODE_ALPHABET \<Longrightarrow> upper_char c = c \<and> c \<noteq> CHR 0xDF \<and> c \<noteq> CHR ''-'' \<and> \<not> is_space c"
  by (auto simp: USER_CODE_ALPHABET_def upper_char_def is_lower_def less_eq_char_def is_space_def)

lemma userCode_loop_alphabet:
  "userCode_loop out bytes = Some code \<Longrightarrow> set out \<subseteq> set USER_CODE_ALPHABET \<Longrightarrow> length code = 8 \<and> set code \<subseteq> set USER_CODE_ALPHABET"
proof (induction out bytes rule: userCode_loop.induct)
  case (2 out b bs)
  have "USER_CODE_ALPHABET ! (b mod 32) \<in> set USER_CODE_ALPHABET"
    by (rule nth_mem) (simp add: USER_CODE_ALPHABET_def)
  with 2 show ?case by (auto split: if_splits)
qed (auto split: if_splits)

lemma toUpperCase_alphabet: "set code \<subseteq> set USER_CODE_ALPHABET \<Longrightarrow> toUpperCase code = code"
  unfolding toUpperCase_def by (induction code) (auto dest: alphabet_char)

lemma toUpperCase_append: "toUpperCase (s @ t) = toUpperCase s @ toUpperCase t"
  by (simp add: toUpperCase_def)

lemma user_code_read_back:
  assumes "userCode bytes = Some code"
  shows "normalizeUserCode (formatUserCode code) = Some code"
proof -
  have c: "length code = 8" "set code \<subseteq> set USER_CODE_ALPHABET"
    using userCode_loop_alphabet [OF assms [unfolded userCode_def]] by simp_all
  have part: "filter (\<lambda>c. c \<noteq> CHR ''-'' \<and> \<not> is_space c) (toUpperCase s) = s" if "set s \<subseteq> set USER_CODE_ALPHABET" for s
    unfolding toUpperCase_alphabet [OF that] using that by (induction s) (auto dest: alphabet_char)
  have "filter (\<lambda>c. c \<noteq> CHR ''-'' \<and> \<not> is_space c) (toUpperCase (formatUserCode code)) = take 4 code @ drop 4 code"
    unfolding formatUserCode_def toUpperCase_append filter_append
    using part [of "take 4 code"] part [of "drop 4 code"] c(2) set_take_subset [of 4 code] set_drop_subset [of 4 code]
    by (auto simp: toUpperCase_def upper_char_def is_lower_def less_eq_char_def)
  with c show ?thesis by (auto simp: normalizeUserCode_def Let_def list_all_iff)
qed

end
