(* ===== verification/Identity.thy ===== *)
theory Identity
  imports Devices
begin

text \<open>
  \<open>domain/identity-lifecycle.ts\<close>: disabling and enabling users and organizations, and applying the events
  of the identity provider, with the triggers of migration 0022 that revoke what depends on an identity.
\<close>

section \<open>Requests\<close>

record lifecycle_context =
  lc_actorType :: string
  lc_actorId :: string
  lc_actorOrganizationId :: "uuid option"
  lc_reason :: string
  lc_requestId :: "string option"
  lc_userAgent :: "string option"

record identity_env =
  ie_clock :: "nat \<Rightarrow> time"
  ie_event :: uuid
  ie_operation :: uuid
  ie_sha256 :: "string \<Rightarrow> string"

definition bounded_text :: "string option \<Rightarrow> nat \<Rightarrow> string option" where
  "bounded_text v maximum = (case v of None \<Rightarrow> None | Some s \<Rightarrow> if s = [] then None else Some (take maximum s))"

definition validateContext :: "lifecycle_context \<Rightarrow> tenancy_error option" where
  "validateContext c =
     (if js_trim (lc_actorId c) = [] \<or> length (lc_actorId c) > 256
      then Some (InvalidIdentityLifecycleRequest ''actor identity must contain 1 to 256 characters'')
      else if js_trim (lc_reason c) = [] \<or> length (lc_reason c) > 512
      then Some (InvalidIdentityLifecycleRequest ''reason must contain 1 to 512 characters'')
      else if lc_actorType c = ''user'' \<and> (case lc_actorOrganizationId c of None \<Rightarrow> True | Some i \<Rightarrow> \<not> uuid_ok i)
      then Some (InvalidIdentityLifecycleRequest ''user lifecycle actors require a valid operator organization'')
      else None)"

definition safeProviderToken :: "string \<Rightarrow> bool" where
  "safeProviderToken s \<longleftrightarrow> s \<noteq> [] \<and> length s \<le> 256 \<and> is_alnum (hd s) \<and> list_all (\<lambda>c. is_alnum c \<or> c \<in> set ''._:-'') s"

record sync_input =
  si_provider :: string
  si_eventId :: string
  si_sourceVersion :: js_number
  si_eventType :: string
  si_clerkUserId :: string
  si_organizationId :: "uuid option"
  si_role :: "string option"

definition sync_target :: "sync_input \<Rightarrow> uuid option" where
  "sync_target x = (case si_organizationId x of None \<Rightarrow> None | Some i \<Rightarrow> if i = [] then None else Some i)"

definition role_of_text :: "string \<Rightarrow> membership_role option" where
  "role_of_text r =
     (if r = ''owner'' then Some Owner else if r = ''admin'' then Some Admin else if r = ''member'' then Some Member
      else if r = ''billing'' then Some BillingRole else None)"

definition eventTypes :: "string list" where
  "eventTypes = [''user.disabled'', ''user.deleted'', ''membership.upserted'', ''membership.removed'']"

definition source_version :: "sync_input \<Rightarrow> int option" where
  "source_version x = (case si_sourceVersion x of JSInt n \<Rightarrow> if 1 \<le> n \<and> n \<le> MAX_SAFE_INTEGER then Some n else None | JSOther \<Rightarrow> None)"

definition validateSyncInput :: "sync_input \<Rightarrow> tenancy_error option" where
  "validateSyncInput x =
     (if si_provider x \<noteq> ''clerk'' then Some (InvalidIdentityLifecycleRequest ''The identity provider is not supported.'')
      else if \<not> safeProviderToken (si_eventId x) \<or> length (si_eventId x) > 128
      then Some (InvalidIdentityLifecycleRequest ''event_id must be a safe 1 to 128 character token'')
      else if source_version x = None then Some (InvalidIdentityLifecycleRequest ''source_version must be a positive safe integer'')
      else if \<not> safeProviderToken (si_clerkUserId x)
      then Some (InvalidIdentityLifecycleRequest ''clerk_user_id must be a safe 1 to 256 character subject'')
      else if si_eventType x \<notin> set eventTypes then Some (InvalidIdentityLifecycleRequest ''event_type is not supported'')
      else if startsWith (si_eventType x) ''membership.'' \<noteq> (sync_target x \<noteq> None)
      then Some (InvalidIdentityLifecycleRequest ''membership events require exactly one local organization target'')
      else if (case sync_target x of None \<Rightarrow> False | Some i \<Rightarrow> \<not> uuid_ok i)
      then Some (InvalidIdentityLifecycleRequest ''organization_id must be a valid local UUID'')
      else if si_eventType x = ''membership.upserted''
      then (if (case si_role x of None \<Rightarrow> True | Some r \<Rightarrow> role_of_text r = None)
            then Some (InvalidIdentityLifecycleRequest ''membership.upserted requires a supported role'') else None)
      else if si_role x \<noteq> None then Some (InvalidIdentityLifecycleRequest ''role is valid only for membership.upserted'')
      else None)"

text \<open>A system actor is trusted; a user must administer an enabled operator organization now.\<close>

definition lockLifecycleActor :: "lifecycle_context \<Rightarrow> tenancy \<Rightarrow> bool" where
  "lockLifecycleActor c s =
     (lc_actorType c = ''system'' \<or>
      (case lc_actorOrganizationId c of
         None \<Rightarrow> False
       | Some i \<Rightarrow> toLowerCase i \<in> set (tn_operators s) \<and> organization_enabled (toLowerCase i) s \<and> administrates (lc_actorId c) (toLowerCase i) s))"

record lifecycle_event =
  le_action :: string
  le_resourceType :: string
  le_resourceId :: string
  le_organizationId :: "uuid option"
  le_outcome :: string
  le_reasonCode :: "string option"
  le_changed :: "bool option"
  le_metadata :: "(string \<times> json) list"
  le_retainReason :: bool

definition lifecycle_audit :: "identity_env \<Rightarrow> lifecycle_context \<Rightarrow> lifecycle_event \<Rightarrow> unit ttx" where
  "lifecycle_audit e c v =
     append_audit \<lparr>a_key = ''identity-lifecycle:'' @ ie_event e, a_operation_id = Some (ie_operation e),
      a_organization_id = map_option toLowerCase (case le_organizationId v of None \<Rightarrow> lc_actorOrganizationId c | Some i \<Rightarrow> Some i), a_project_id = None,
      a_actor_type = lc_actorType c, a_actor_id = Some (take 256 (lc_actorId c)), a_action = le_action v, a_outcome = le_outcome v,
      a_reason_code = le_reasonCode v, a_resource_type = le_resourceType v, a_resource_id = take 256 (le_resourceId v),
      a_request_id = bounded_text (lc_requestId c) 128, a_user_agent = auditUserAgentFingerprint (ie_sha256 e) (lc_userAgent c),
      a_metadata = (if le_retainReason v then [(''reason'', JStr (js_trim (lc_reason c)))] else []) @
        (case le_changed v of None \<Rightarrow> [] | Some b \<Rightarrow> [(''changed'', JBool b)]) @ le_metadata v @
        (case lc_actorOrganizationId c of None \<Rightarrow> [] | Some i \<Rightarrow> if i = [] then [] else [(''actor_organization_id'', JStr i)])\<rparr>"

definition json_text :: "string option \<Rightarrow> json" where
  "json_text v = (case v of None \<Rightarrow> JNull | Some s \<Rightarrow> JStr s)"

definition syncPayloadHash :: "identity_env \<Rightarrow> sync_input \<Rightarrow> lifecycle_context \<Rightarrow> string" where
  "syncPayloadHash e x c =
     ie_sha256 e (stringify (JArr [JStr (si_provider x), JStr (si_eventId x), JNum (si_sourceVersion x), JStr (si_eventType x),
       JStr (si_clerkUserId x), json_text (si_organizationId x), json_text (si_role x), JStr (js_trim (lc_reason c))]))"

definition syncStreamHash :: "identity_env \<Rightarrow> sync_input \<Rightarrow> uuid \<Rightarrow> string" where
  "syncStreamHash e x userId =
     ie_sha256 e (case sync_target x of
        Some i \<Rightarrow> si_provider x @ [CHR 0x00] @ ''membership'' @ [CHR 0x00] @ userId @ [CHR 0x00] @ toLowerCase i
      | None \<Rightarrow> si_provider x @ [CHR 0x00] @ ''user'' @ [CHR 0x00] @ userId)"

definition syncAuditMetadata :: "sync_input \<Rightarrow> string \<Rightarrow> string option \<Rightarrow> (string \<times> json) list" where
  "syncAuditMetadata x payloadSha256 result =
     [(''provider'', JStr (si_provider x)), (''event_type'', JStr (si_eventType x)), (''source_version'', JNum (si_sourceVersion x)),
      (''payload_sha256'', JStr payloadSha256)] @
     (case si_role x of None \<Rightarrow> [] | Some r \<Rightarrow> if r = [] then [] else [(''role'', JStr r)]) @
     (case result of None \<Rightarrow> [] | Some r \<Rightarrow> [(''sync_result'', JStr r)])"

section \<open>What depends on an identity\<close>

definition approved_by_user :: "uuid \<Rightarrow> tenancy \<Rightarrow> family_row \<Rightarrow> bool" where
  "approved_by_user user s f = list_ex (\<lambda>d. da_id d = df_device_authorization_id f \<and> da_approved_by d = Some user) (tn_devices s)"

text \<open>The three updates the triggers have in common: families, access tokens, gateway grants.\<close>

definition revoke_dependents :: "uuid list \<Rightarrow> (gateway_grant_row \<Rightarrow> bool) \<Rightarrow> time \<Rightarrow> unit ttx" where
  "revoke_dependents families P now =
     bindt (revoke_families (\<lambda>f. df_id f \<in> set families \<and> df_revoked_at f = None) now)
     (\<lambda>_. bindt (revoke_access (\<lambda>t. dt_family_id t \<in> set families \<and> dt_revoked_at t = None) now)
     (\<lambda>_. revoke_grants (\<lambda>g. gg_revoked_at g = None \<and> P g) now))"

definition identity_revoke_user_dependents :: "user_row \<Rightarrow> time \<Rightarrow> unit ttx" where
  "identity_revoke_user_dependents u now =
     bindt (readt (\<lambda>s. map df_id (filter (approved_by_user (us_id u) s) (tn_families s))))
     (\<lambda>ids. revoke_dependents ids (\<lambda>g. (gg_issuer_type g = ''clerk_user'' \<and> gg_issuer_id g = us_clerk_user_id u) \<or>
        (gg_issuer_type g = ''device_family'' \<and> gg_issuer_id g \<in> set ids)) now)"

definition identity_revoke_organization_dependents :: "uuid \<Rightarrow> time \<Rightarrow> unit ttx" where
  "identity_revoke_organization_dependents org now =
     bindt (revoke_families (\<lambda>f. df_organization_id f = org \<and> df_revoked_at f = None) now)
     (\<lambda>_. bindt (revoke_access (\<lambda>t. dt_organization_id t = org \<and> dt_revoked_at t = None) now)
     (\<lambda>_. revoke_grants (\<lambda>g. gg_organization_id g = org \<and> gg_revoked_at g = None) now))"

definition identity_revoke_membership_dependents :: "uuid \<Rightarrow> uuid \<Rightarrow> time \<Rightarrow> unit ttx" where
  "identity_revoke_membership_dependents org user now =
     bindt (readt (\<lambda>s. map us_clerk_user_id (filter (\<lambda>u. us_id u = user) (tn_users s))))
     (\<lambda>subjects. bindt (readt (\<lambda>s. map df_id (filter (\<lambda>f. approved_by_user user s f \<and> df_organization_id f = org) (tn_families s))))
     (\<lambda>ids. revoke_dependents ids (\<lambda>g. gg_organization_id g = org \<and>
        ((gg_issuer_type g = ''clerk_user'' \<and> gg_issuer_id g \<in> set subjects) \<or>
         (gg_issuer_type g = ''device_family'' \<and> gg_issuer_id g \<in> set ids))) now))"

text \<open>
  \<open>UPDATE users SET disabled_at\<close> and \<open>UPDATE organizations SET disabled_at\<close> on one row, with their
  constraint and trigger.
\<close>

definition set_user_disabled_at :: "uuid \<Rightarrow> time option \<Rightarrow> time \<Rightarrow> unit ttx" where
  "set_user_disabled_at i v now =
     bindt (guardt (\<lambda>s. list_all (\<lambda>u. us_id u = i \<longrightarrow> (case v of None \<Rightarrow> True | Some t \<Rightarrow> us_created_at u \<le> t)) (tn_users s))
       (CheckConstraint ''users_disabled_at_check''))
     (\<lambda>_. bindt (readt (\<lambda>s. find (\<lambda>u. us_id u = i) (tn_users s)))
     (\<lambda>old. bindt (writet (\<lambda>s. s\<lparr>tn_users := sql_update (\<lambda>u. us_id u = i) (\<lambda>u. u\<lparr>us_disabled_at := v\<rparr>) (tn_users s)\<rparr>))
     (\<lambda>_. case old of
        None \<Rightarrow> returnt ()
      | Some u \<Rightarrow> if us_disabled_at u = None \<and> v \<noteq> None then identity_revoke_user_dependents u now else returnt ())))"

definition set_organization_disabled_at :: "uuid \<Rightarrow> time option \<Rightarrow> time \<Rightarrow> unit ttx" where
  "set_organization_disabled_at i v now =
     bindt (guardt (\<lambda>s. list_all (\<lambda>x. on_id x = i \<longrightarrow> (case v of None \<Rightarrow> True | Some t \<Rightarrow> on_created_at x \<le> t)) (tn_organizations s))
       (CheckConstraint ''organizations_disabled_at_check''))
     (\<lambda>_. bindt (readt (\<lambda>s. find (\<lambda>x. on_id x = i) (tn_organizations s)))
     (\<lambda>old. bindt (writet (\<lambda>s. s\<lparr>tn_organizations := sql_update (\<lambda>x. on_id x = i) (\<lambda>x. x\<lparr>on_disabled_at := v\<rparr>) (tn_organizations s)\<rparr>))
     (\<lambda>_. case old of
        None \<Rightarrow> returnt ()
      | Some x \<Rightarrow> if on_disabled_at x = None \<and> v \<noteq> None then identity_revoke_organization_dependents i now else returnt ())))"

definition delete_member :: "uuid \<Rightarrow> uuid \<Rightarrow> time \<Rightarrow> bool ttx" where
  "delete_member org user now =
     bindt (readt (\<lambda>s. list_ex (\<lambda>m. om_organization_id m = org \<and> om_user_id m = user) (tn_members s)))
     (\<lambda>removed. bindt (writet (\<lambda>s. s\<lparr>tn_members := filter (\<lambda>m. \<not> (om_organization_id m = org \<and> om_user_id m = user)) (tn_members s)\<rparr>))
     (\<lambda>_. bindt (if removed then identity_revoke_membership_dependents org user now else returnt ())
     (\<lambda>_. returnt removed)))"

definition upsert_member :: "uuid \<Rightarrow> uuid \<Rightarrow> membership_role \<Rightarrow> bool ttx" where
  "upsert_member org user role =
     bindt (readt (member_role user org))
     (\<lambda>membership. case membership of
        None \<Rightarrow> bindt (writet (\<lambda>s. s\<lparr>tn_members := tn_members s @ [\<lparr>om_organization_id = org, om_user_id = user, om_role = role\<rparr>]\<rparr>))
          (\<lambda>_. returnt True)
      | Some r \<Rightarrow>
          if r \<noteq> role
          then bindt (writet (\<lambda>s. s\<lparr>tn_members := sql_update (\<lambda>m. om_organization_id m = org \<and> om_user_id m = user)
                 (\<lambda>m. m\<lparr>om_role := role\<rparr>) (tn_members s)\<rparr>)) (\<lambda>_. returnt True)
          else returnt False)"

section \<open>Events of the identity provider\<close>

record sync_result =
  sr_eventId :: string
  sr_sourceVersion :: int
  sr_result :: string
  sr_changed :: bool
  sr_userId :: uuid
  sr_organizationId :: "uuid option"

definition sync_event :: "sync_input \<Rightarrow> string \<Rightarrow> string \<Rightarrow> string option \<Rightarrow> bool option \<Rightarrow> string option \<Rightarrow> bool \<Rightarrow> lifecycle_event" where
  "sync_event x payloadSha256 outcome reasonCode changed result targetExists =
     \<lparr>le_action = ''identity.provider.sync'',
      le_resourceType = (if sync_target x = None then ''identity_provider_event'' else ''organization_membership''),
      le_resourceId = si_eventId x, le_organizationId = (if targetExists then sync_target x else None), le_outcome = outcome,
      le_reasonCode = reasonCode, le_changed = changed, le_metadata = syncAuditMetadata x payloadSha256 result, le_retainReason = False\<rparr>"

definition insert_receipt :: "sync_receipt \<Rightarrow> unit ttx" where
  "insert_receipt r =
     bindt (guardt (\<lambda>s. \<not> list_ex (\<lambda>x. sy_provider x = sy_provider r \<and> sy_event_id x = sy_event_id r) (tn_receipts s))
       (UniqueConstraint ''identity_provider_sync_receipts_pkey''))
     (\<lambda>_. bindt (guardt (\<lambda>s. \<not> list_ex (\<lambda>x. sy_provider x = sy_provider r \<and> sy_stream_sha256 x = sy_stream_sha256 r \<and>
         sy_source_version x = sy_source_version r) (tn_receipts s)) (UniqueConstraint ''identity_provider_sync_receipts_stream_key''))
     (\<lambda>_. writet (\<lambda>s. s\<lparr>tn_receipts := tn_receipts s @ [r]\<rparr>)))"

definition stream_of :: "string \<Rightarrow> string \<Rightarrow> tenancy \<Rightarrow> sync_receipt list" where
  "stream_of provider stream s = filter (\<lambda>r. sy_provider r = provider \<and> sy_stream_sha256 r = stream) (tn_receipts s)"

definition sync_receipt_of :: "identity_env \<Rightarrow> sync_input \<Rightarrow> lifecycle_context \<Rightarrow> int \<Rightarrow> uuid \<Rightarrow> string \<Rightarrow> bool \<Rightarrow> sync_receipt" where
  "sync_receipt_of e x c version userId result changed =
     \<lparr>sy_provider = si_provider x, sy_event_id = si_eventId x, sy_payload_sha256 = syncPayloadHash e x c,
      sy_stream_sha256 = syncStreamHash e x userId, sy_source_version = version, sy_event_type = si_eventType x, sy_user_id = userId,
      sy_organization_id = map_option toLowerCase (sync_target x),
      sy_role = (case si_role x of None \<Rightarrow> None | Some r \<Rightarrow> role_of_text r), sy_result = result, sy_changed = changed\<rparr>"

text \<open>The change of an event that is not stale.\<close>

definition apply_event :: "identity_env \<Rightarrow> sync_input \<Rightarrow> user_row \<Rightarrow> bool ttx" where
  "apply_event e x u =
     (if si_eventType x = ''user.disabled'' \<or> si_eventType x = ''user.deleted''
      then (if us_disabled_at u = None
            then bindt (set_user_disabled_at (us_id u) (Some (ie_clock e 0)) (ie_clock e 0)) (\<lambda>_. returnt True) else returnt False)
      else (case map_option toLowerCase (sync_target x) of
              None \<Rightarrow> returnt False
            | Some org \<Rightarrow>
                if si_eventType x = ''membership.upserted''
                then (case si_role x of
                        None \<Rightarrow> returnt False
                      | Some r \<Rightarrow> (case role_of_text r of None \<Rightarrow> throwt (CheckConstraint ''organization_members_role_check'') | Some role \<Rightarrow> upsert_member org (us_id u) role))
                else delete_member org (us_id u) (ie_clock e 0)))"

definition sync_denied :: "identity_env \<Rightarrow> sync_input \<Rightarrow> lifecycle_context \<Rightarrow> string \<Rightarrow> bool \<Rightarrow> tenancy_error \<Rightarrow> (tenancy_error + sync_result) ttx" where
  "sync_denied e x c reason targetExists err =
     bindt (lifecycle_audit e c (sync_event x (syncPayloadHash e x c) ''denied'' (Some reason) None None targetExists)) (\<lambda>_. returnt (Inl err))"

text \<open>
  The transaction. The user and the organization are read again under their locks; as no call deletes
  either, these reads find what the first ones found.
\<close>

definition sync_tx :: "identity_env \<Rightarrow> sync_input \<Rightarrow> lifecycle_context \<Rightarrow> int \<Rightarrow> (tenancy_error + sync_result) ttx" where
  "sync_tx e x c version =
     (let payload = syncPayloadHash e x c;
          denied = sync_denied e x c;
          org = map_option toLowerCase (sync_target x) in
      bindt (readt (\<lambda>s. lc_actorType c = ''user'' \<and> lockLifecycleActor c s))
      (\<lambda>allowed. if \<not> allowed then denied ''operator_authorization_changed'' False IdentityLifecycleAuthorizationDenied else
      bindt (readt (\<lambda>s. find (\<lambda>u. us_clerk_user_id u = si_clerkUserId x) (tn_users s)))
      (\<lambda>mapped. case mapped of None \<Rightarrow> denied ''target_user_not_found'' False IdentityProviderSyncTargetNotFound | Some u \<Rightarrow>
      bindt (readt (\<lambda>s. case org of None \<Rightarrow> True | Some i \<Rightarrow> list_ex (\<lambda>y. on_id y = i) (tn_organizations s)))
      (\<lambda>found. if \<not> found then denied ''target_organization_not_found'' False IdentityProviderSyncTargetNotFound else
      let target = (org \<noteq> None); stream = syncStreamHash e x (us_id u) in
      bindt (readt (\<lambda>s. find (\<lambda>r. sy_provider r = si_provider x \<and> sy_event_id r = si_eventId x) (tn_receipts s)))
      (\<lambda>existing. case existing of
         Some r \<Rightarrow>
           if sy_payload_sha256 r \<noteq> payload then denied ''event_id_conflict'' target IdentityProviderSyncConflict
           else bindt (lifecycle_audit e c (sync_event x payload ''succeeded'' None (Some (sy_changed r)) (Some ''replayed'') target))
             (\<lambda>_. returnt (Inr \<lparr>sr_eventId = si_eventId x, sr_sourceVersion = sy_source_version r, sr_result = ''replayed'',
                sr_changed = sy_changed r, sr_userId = sy_user_id r, sr_organizationId = sy_organization_id r\<rparr>))
       | None \<Rightarrow>
      bindt (readt (\<lambda>s. map sy_source_version (stream_of (si_provider x) stream s)))
      (\<lambda>versions.
         if version \<in> set versions then denied ''source_version_conflict'' target IdentityProviderSyncConflict
         else if list_ex (\<lambda>v. version < v) versions
         then bindt (insert_receipt (sync_receipt_of e x c version (us_id u) ''stale'' False))
           (\<lambda>_. bindt (lifecycle_audit e c (sync_event x payload ''succeeded'' None (Some False) (Some ''stale'') target))
           (\<lambda>_. returnt (Inr \<lparr>sr_eventId = si_eventId x, sr_sourceVersion = version, sr_result = ''stale'', sr_changed = False,
              sr_userId = us_id u, sr_organizationId = sync_target x\<rparr>)))
         else bindt (apply_event e x u)
           (\<lambda>changed. bindt (insert_receipt (sync_receipt_of e x c version (us_id u) ''applied'' changed))
           (\<lambda>_. bindt (lifecycle_audit e c (sync_event x payload ''succeeded'' None (Some changed) (Some ''applied'') target))
           (\<lambda>_. returnt (Inr \<lparr>sr_eventId = si_eventId x, sr_sourceVersion = version, sr_result = ''applied'', sr_changed = changed,
              sr_userId = us_id u, sr_organizationId = sync_target x\<rparr>))))))))))"

text \<open>An error that the transaction returns is thrown after its commit.\<close>

definition committing :: "(tenancy_error + 'a) ttx \<Rightarrow> 'a tcall" where
  "committing m = andThen (commit m) (\<lambda>r. case r of Inl err \<Rightarrow> refuse err | Inr x \<Rightarrow> answer x)"

definition syncIdentityProvider :: "identity_env \<Rightarrow> sync_input \<Rightarrow> lifecycle_context \<Rightarrow> sync_result tcall" where
  "syncIdentityProvider e x c =
     (case validateContext c of Some err \<Rightarrow> refuse err
      | None \<Rightarrow>
     (case validateSyncInput x of Some err \<Rightarrow> refuse err
      | None \<Rightarrow> (case source_version x of None \<Rightarrow> refuse (InvalidIdentityLifecycleRequest ''source_version must be a positive safe integer'')
         | Some version \<Rightarrow> committing (sync_tx e x c version))))"

section \<open>Disabling and enabling\<close>

record lifecycle_state =
  ls_id :: uuid
  ls_disabledAt :: "time option"
  ls_changed :: bool

definition disabled_event :: "string \<Rightarrow> uuid \<Rightarrow> bool \<Rightarrow> string \<Rightarrow> string option \<Rightarrow> bool option \<Rightarrow> lifecycle_event" where
  "disabled_event kind i disabled outcome reasonCode changed =
     \<lparr>le_action = ''identity.'' @ kind @ (if disabled then ''.disable'' else ''.enable''), le_resourceType = kind, le_resourceId = i,
      le_organizationId = (if kind = ''organization'' \<and> changed \<noteq> None then Some i else None), le_outcome = outcome, le_reasonCode = reasonCode,
      le_changed = changed, le_metadata = [], le_retainReason = True\<rparr>"

text \<open>
  The two calls have one text: \<open>current\<close> reads the row, \<open>write\<close> writes its \<open>disabled_at\<close>.
\<close>

definition set_disabled_tx ::
    "string \<Rightarrow> (tenancy \<Rightarrow> time option option) \<Rightarrow> (time option \<Rightarrow> time \<Rightarrow> unit ttx) \<Rightarrow> identity_env \<Rightarrow> uuid \<Rightarrow> bool \<Rightarrow> lifecycle_context \<Rightarrow>
     (tenancy_error + lifecycle_state option) ttx" where
  "set_disabled_tx kind current write e i disabled c =
     bindt (readt (lockLifecycleActor c))
     (\<lambda>allowed. if \<not> allowed
        then bindt (lifecycle_audit e c (disabled_event kind i disabled ''denied'' (Some ''operator_authorization_changed'') None))
          (\<lambda>_. returnt (Inl IdentityLifecycleAuthorizationDenied))
        else bindt (readt current)
     (\<lambda>row. case row of
        None \<Rightarrow> bindt (lifecycle_audit e c (disabled_event kind i disabled ''denied'' (Some ''target_not_found'') None))
          (\<lambda>_. returnt (Inr None))
      | Some old \<Rightarrow>
          (let changed = (if disabled then old = None else old \<noteq> None);
               new = (if disabled then Some (ie_clock e 0) else None) in
           bindt (if changed then write new (ie_clock e 0) else returnt ())
           (\<lambda>_. bindt (lifecycle_audit e c (disabled_event kind i disabled ''succeeded'' None (Some changed)))
           (\<lambda>_. returnt (Inr (Some \<lparr>ls_id = i, ls_disabledAt = (if changed then new else old), ls_changed = changed\<rparr>)))))))"

definition user_disabled_tx :: "identity_env \<Rightarrow> uuid \<Rightarrow> bool \<Rightarrow> lifecycle_context \<Rightarrow> (tenancy_error + lifecycle_state option) ttx" where
  "user_disabled_tx e i disabled c =
     set_disabled_tx ''user'' (\<lambda>s. map_option us_disabled_at (find (\<lambda>u. us_id u = i) (tn_users s))) (set_user_disabled_at i) e i disabled c"

definition organization_disabled_tx :: "identity_env \<Rightarrow> uuid \<Rightarrow> bool \<Rightarrow> lifecycle_context \<Rightarrow> (tenancy_error + lifecycle_state option) ttx" where
  "organization_disabled_tx e i disabled c =
     set_disabled_tx ''organization'' (\<lambda>s. map_option on_disabled_at (find (\<lambda>x. on_id x = i) (tn_organizations s)))
       (set_organization_disabled_at i) e i disabled c"

definition setUserDisabled :: "identity_env \<Rightarrow> uuid \<Rightarrow> bool \<Rightarrow> lifecycle_context \<Rightarrow> lifecycle_state option tcall" where
  "setUserDisabled e i disabled c =
     (case validateContext c of Some err \<Rightarrow> refuse err | None \<Rightarrow> committing (user_disabled_tx e i disabled c))"

definition setOrganizationDisabled :: "identity_env \<Rightarrow> uuid \<Rightarrow> bool \<Rightarrow> lifecycle_context \<Rightarrow> lifecycle_state option tcall" where
  "setOrganizationDisabled e i disabled c =
     (case validateContext c of Some err \<Rightarrow> refuse err | None \<Rightarrow> committing (organization_disabled_tx e i disabled c))"

end
