(* ===== verification/Credentials.thy ===== *)
theory Credentials
  imports Identity
begin

text \<open>
  The components of the tenancy together: the contract of an invariant that every transaction keeps, runs
  of transactions in any order, the invariants, and what they give: credentials that were revoked
  stay so, limits hold, and what is accepted is covered by a current identity.
\<close>

section \<open>Runs\<close>

text \<open>The contract of an invariant of everything the transactions write.\<close>

locale identity_invariant = device_invariant +
  assumes users: "I s \<Longrightarrow> I (s\<lparr>tn_users := us\<rparr>)"
    and members: "I s \<Longrightarrow> I (s\<lparr>tn_members := ms\<rparr>)"
    and receipts: "I s \<Longrightarrow> I (s\<lparr>tn_receipts := rs\<rparr>)"
    and organization_edited: "I s \<Longrightarrow> I (s\<lparr>tn_organizations := sql_update (\<lambda>x. on_id x = i) (\<lambda>x. x\<lparr>on_disabled_at := v\<rparr>) (tn_organizations s)\<rparr>)"
begin

lemma keeps_revoke_dependents: "keeps I (revoke_dependents ids P now)"
  unfolding revoke_dependents_def by (intro keeps device_statements)

lemma keeps_set_user_disabled_at: "keeps I (set_user_disabled_at i v now)"
  unfolding set_user_disabled_at_def identity_revoke_user_dependents_def
  by (intro keeps keeps_writet keeps_revoke_dependents) (rule users)

lemma keeps_set_organization_disabled_at: "keeps I (set_organization_disabled_at i v now)"
  unfolding set_organization_disabled_at_def identity_revoke_organization_dependents_def
  by (intro keeps keeps_writet device_statements) (rule organization_edited)

lemma keeps_upsert_member: "keeps I (upsert_member org user role)"
  unfolding upsert_member_def by (intro keeps keeps_writet) (erule members)+

lemma keeps_delete_member: "keeps I (delete_member org user now)"
  unfolding delete_member_def identity_revoke_membership_dependents_def
  by (intro keeps keeps_writet keeps_revoke_dependents) (rule members)

lemma keeps_insert_receipt: "keeps I (insert_receipt r)"
  unfolding insert_receipt_def by (intro keeps keeps_writet) (rule receipts)

lemma keeps_lifecycle_audit: "keeps I (lifecycle_audit e c v)"
  unfolding lifecycle_audit_def by (rule keeps_audit)

lemma keeps_sync_tx: "keeps I (sync_tx e x c version)"
  unfolding sync_tx_def apply_event_def sync_denied_def Let_def
  by (intro keeps keeps_lifecycle_audit keeps_insert_receipt keeps_set_user_disabled_at keeps_upsert_member keeps_delete_member)

lemma keeps_disabled_tx: "keeps I (user_disabled_tx e i disabled c)" "keeps I (organization_disabled_tx e i disabled c)"
  unfolding user_disabled_tx_def organization_disabled_tx_def set_disabled_tx_def
  by (intro keeps keeps_lifecycle_audit keeps_set_user_disabled_at keeps_set_organization_disabled_at)+

end

text \<open>
  The transactions of the components, run one after the other in any order. Identifiers of \<open>used\<close> are not
  generated again by \<open>randomUUID\<close>; \<open>sha\<close> is the digest of the identity component.
\<close>

definition void :: "'a ttx \<Rightarrow> unit ttx" where
  "void m = bindt m (\<lambda>_. returnt ())"

lemma keeps_void [keeps]: "keeps I m \<Longrightarrow> keeps I (void m)"
  unfolding void_def by (intro keeps)

lemma void_Inr [simp]: "void m s = Inr (u, s') \<longleftrightarrow> (\<exists>x. m s = Inr (x, s'))"
  by (auto simp: void_def bindt_Inr)

inductive transaction :: "(string \<Rightarrow> string) \<Rightarrow> uuid set \<Rightarrow> unit ttx \<Rightarrow> bool" for sha used where
  "transaction sha used (void (create_project i org slug name))"
| "transaction sha used (void (create_api_key ke ck now))"
| "transaction sha used (void (rotate_api_key ke i org a ctx))"
| "transaction sha used (void (setDisabled se i org disabled a ctx))"
| "transaction sha used (void (revoke_key se i org a ctx))"
| "transaction sha used (touch_key i now)"
| "transaction sha used (void (issue_limits_tx e source))"
| "transaction sha used (void (actor_limit_tx e a'))"
| "dv_id e n \<notin> used \<Longrightarrow> transaction sha used (issue_tx e ii n)"
| "transaction sha used (authorize_tx e au code)"
| "dv_id e 2 \<notin> used \<Longrightarrow> transaction sha used (void (exchange_tx e i ctx))"
| "transaction sha used (void (refresh_tx e i ctx))"
| "transaction sha used (void (revoke_tx e i ctx))"
| "transaction sha used (void (access_tx e i raw ctx))"
| "transaction sha used (void (reapExpiredDeviceAuthorizations clock held singleton ro))"
| "\<lbrakk>ie_sha256 ie = sha; validateContext c = None; validateSyncInput si = None; source_version si = Some version\<rbrakk> \<Longrightarrow>
    transaction sha used (void (sync_tx ie si c version))"
| "transaction sha used (void (user_disabled_tx ie i disabled c))"
| "transaction sha used (void (organization_disabled_tx ie i disabled c))"

inductive runs :: "(string \<Rightarrow> string) \<Rightarrow> uuid set \<Rightarrow> tenancy \<Rightarrow> tenancy \<Rightarrow> bool" for sha used s where
  runs_none: "runs sha used s s"
| runs_step: "\<lbrakk>runs sha used s t; transaction sha used m; m t = Inr ((), u)\<rbrakk> \<Longrightarrow> runs sha used s u"

text \<open>An invariant of the contract holds after every run.\<close>

context identity_invariant
begin

lemma keeps_transaction:
  assumes "transaction sha used m" and "\<And>i. i \<notin> used \<Longrightarrow> fresh i"
  shows "keeps I m"
  using assms(1)
  by cases (auto intro!: keeps_void keeps_create_project keeps_create_api_key keeps_rotate_api_key keeps_setDisabled keeps_revoke_key
    keeps_touch_key keeps_issue_limits_tx keeps_actor_limit_tx keeps_issue_tx keeps_authorize_tx keeps_exchange_tx keeps_refresh_tx
    keeps_revoke_tx keeps_access_tx keeps_reap keeps_sync_tx keeps_disabled_tx assms(2))

lemma runs_keep:
  assumes "runs sha used s t" and "I s" and "\<And>i. i \<notin> used \<Longrightarrow> fresh i"
  shows "I t"
  using assms by (induction rule: runs.induct) (auto dest: keepsD [OF keeps_transaction])

end

section \<open>The invariants\<close>

lemmas inserted = insert_project_Inr(1) insert_key_Inr(1) insert_device_Inr insert_family_Inr

interpretation dead_key: identity_invariant "key_dead i" "\<lambda>_. True" for i
  by unfold_locales ((erule (1) key_dead_kept) | (auto simp: key_dead_def dest!: inserted)[1])+

interpretation unique_keys: identity_invariant keys_unique "\<lambda>_. True"
  by unfold_locales ((erule (1) keys_unique_kept) | (auto simp: keys_unique_def dest!: inserted)[1])+

interpretation quota: identity_invariant key_quotas "\<lambda>_. True"
  by unfold_locales ((erule (1) key_quotas_added key_quotas_edited)
    | (auto simp: key_quotas_def keys_of_def project_keys_def dest!: inserted)[1])+

interpretation dead_family: identity_invariant "family_dead i" "\<lambda>j. j \<noteq> i" for i
  by unfold_locales ((erule (1) family_dead_edited) | (auto simp: family_dead_def list_all_iff dest!: inserted)[1])+

interpretation closed_device: identity_invariant "device_closed i" "\<lambda>j. j \<noteq> i" for i
  by unfold_locales ((erule (2) device_closed_moved) | (auto simp: device_closed_def list_all_iff dest!: inserted)[1])+

lemma projects_bounded_edited:
  assumes "projects_bounded s"
  shows "projects_bounded (s\<lparr>tn_organizations := sql_update (\<lambda>x. on_id x = i) (\<lambda>x. x\<lparr>on_disabled_at := v\<rparr>) (tn_organizations s)\<rparr>)"
  unfolding projects_bounded_def
proof (intro allI impI)
  fix x
  assume x: "find (\<lambda>y. on_id y = on_id x) (tn_organizations (s\<lparr>tn_organizations := sql_update (\<lambda>x. on_id x = i) (\<lambda>x. x\<lparr>on_disabled_at := v\<rparr>)
    (tn_organizations s)\<rparr>)) = Some x"
  then obtain y where y: "find (\<lambda>z. on_id z = on_id x) (tn_organizations s) = Some y"
    and eq: "x = (if on_id y = i then y\<lparr>on_disabled_at := v\<rparr> else y)"
    by (auto simp: find_sql_update)
  from eq have "on_id x = on_id y" "on_max_projects x = on_max_projects y" by simp_all
  with assms y show "int (length (projects_of (on_id x) (s\<lparr>tn_organizations := sql_update (\<lambda>x. on_id x = i) (\<lambda>x. x\<lparr>on_disabled_at := v\<rparr>)
      (tn_organizations s)\<rparr>))) \<le> on_max_projects x \<and> on_max_projects x \<le> maximumProjectsPerOrganization"
    by (simp add: projects_bounded_def projects_of_def)
qed

interpretation project_limit: identity_invariant projects_bounded "\<lambda>_. True"
  by unfold_locales ((erule (1) projects_bounded_insert) | (erule projects_bounded_edited) | (auto simp: projects_bounded_def projects_of_def dest!: inserted)[1])+

section \<open>What a disabled user leaves behind\<close>

lemma lifecycle_audit_Inr: "lifecycle_audit e c v s = Inr (x, s') \<Longrightarrow> \<exists>a. s' = s\<lparr>tn_audit := a\<rparr>"
  unfolding lifecycle_audit_def by (blast dest: append_audit_Inr)

lemma revoke_dependents_dead:
  assumes "revoke_dependents ids P now s = Inr (x, s')" and "i \<in> set ids"
  shows "family_dead i s'"
proof -
  have "family_dead i (s\<lparr>tn_families := sql_update (\<lambda>f. df_id f \<in> set ids \<and> df_revoked_at f = None)
      (\<lambda>f. f\<lparr>df_revoked_at := stamped (df_revoked_at f) now\<rparr>) (tn_families s)\<rparr>)"
    using assms(2) unfolding family_dead_def list_all_iff by (auto elim!: sql_updateE simp: stamped_def split: option.splits)
  moreover have "tn_families s' = sql_update (\<lambda>f. df_id f \<in> set ids \<and> df_revoked_at f = None)
      (\<lambda>f. f\<lparr>df_revoked_at := stamped (df_revoked_at f) now\<rparr>) (tn_families s)"
    using assms(1) by (auto simp: revoke_dependents_def revoke_families_def revoke_access_def bindt_Inr dest!: revoke_grants_Inr)
  ultimately show ?thesis by (simp add: family_dead_def)
qed

lemma disabled_user_families:
  assumes d: "user_disabled_tx e i True c s = Inr (Inr (Some st), s')" and ch: "ls_changed st"
    and f: "f \<in> set (tn_families s)" and a: "approved_by_user i s f"
  shows "family_dead (df_id f) s'"
proof -
  from d ch obtain t x y where t: "set_user_disabled_at i (Some (ie_clock e 0)) (ie_clock e 0) s = Inr (x, t)"
    and old: "map_option us_disabled_at (find (\<lambda>u. us_id u = i) (tn_users s)) = Some None"
    and au: "lifecycle_audit e c (disabled_event ''user'' i True ''succeeded'' None (Some True)) t = Inr (y, s')"
    by (auto simp: user_disabled_tx_def set_disabled_tx_def bindt_readt bindt_Inr Let_def split: option.splits if_splits)
  from old obtain u where u: "find (\<lambda>u. us_id u = i) (tn_users s) = Some u" "us_disabled_at u = None" by auto
  then have ui: "us_id u = i" by (auto dest: find_SomeD)
  define s1 where "s1 = s\<lparr>tn_users := sql_update (\<lambda>u. us_id u = i) (\<lambda>u. u\<lparr>us_disabled_at := Some (ie_clock e 0)\<rparr>) (tn_users s)\<rparr>"
  have "identity_revoke_user_dependents u (ie_clock e 0) s1 = Inr (x, t)"
    using t u unfolding set_user_disabled_at_def bindt_guardt bindt_readt bindt_writet s1_def by (simp split: if_splits)
  moreover have "df_id f \<in> set (map df_id (filter (approved_by_user i s1) (tn_families s1)))"
    using f a by (auto simp: s1_def approved_by_user_def)
  ultimately have "family_dead (df_id f) t"
    by (auto simp: identity_revoke_user_dependents_def bindt_readt ui intro: revoke_dependents_dead)
  then show ?thesis using lifecycle_audit_Inr [OF au] by (auto simp: family_dead_def)
qed

section \<open>Reuse of a refresh token\<close>

lemma reuse_detected_dead:
  assumes "reuse_detected e f ctx s = Inr (r, s')"
  shows "family_dead (df_id f) s'" and "r = refresh_error ''refresh_reuse_detected''"
proof -
  have "tn_families s' = sql_update (\<lambda>x. df_id x = df_id f)
     (\<lambda>x. x\<lparr>df_revoked_at := stamped (df_revoked_at x) (dv_now e), df_reuse_detected_at := stamped (df_reuse_detected_at x) (dv_now e)\<rparr>) (tn_families s)"
    using assms by (auto simp: reuse_detected_def end_family_def note_reuse_def revoke_access_def bindt_Inr family_audit_def device_audit_def
      dest!: revoke_grants_Inr append_audit_Inr split: if_splits)
  then show "family_dead (df_id f) s'"
    unfolding family_dead_def list_all_iff by (auto elim!: sql_updateE simp: stamped_def split: option.splits)
  show "r = refresh_error ''refresh_reuse_detected''"
    using assms by (auto simp: reuse_detected_def bindt_Inr)
qed

lemma dead_family_not_refreshed:
  assumes "family_dead i s" and "refresh e raw ctx before s = (Inr tk, s')"
  shows "\<exists>j t f. tokenId raw ''refresh'' = Some j \<and> refresh_family (toLowerCase j) s = Some (t, f) \<and> df_id f \<noteq> i"
proof -
  from assms(2) obtain j t f where j: "tokenId raw ''refresh'' = Some j" and l: "live_refresh (toLowerCase j) (dv_now e) s = Some (t, f)"
    by (rule refresh_granted)
  from live_refresh_unrevoked [OF l] assms(1) have "df_id f \<noteq> i" by (auto simp: family_dead_def list_all_iff)
  with j l show ?thesis by (auto simp: live_refresh_def split: option.splits if_splits)
qed

section \<open>Properties\<close>

text \<open>C9: once the revocation of an API key has returned, no authentication whose second read comes later
  accepts the key, whatever transactions ran in between and even if the record was read before the revocation.\<close>

theorem revoked_key_never_authenticates:
  assumes "keys_unique s0" and "runs sha used s0 s" and "revoke_key se i org actor ctx s = Inr (True, s1)" and "runs sha used' s1 t"
    and "kp_apiKeyId p = i"
  shows "authenticate_key e raw before t seen now \<noteq> Inr (Some p)"
proof -
  have "keys_unique s" using unique_keys.runs_keep [OF assms(2,1)] by simp
  then have "key_dead i s1" using assms(3) by (rule revoke_key_dead)
  then have "key_dead i t" using dead_key.runs_keep [OF assms(4)] by simp
  then show ?thesis using assms(5) authenticate_not_dead by blast
qed

text \<open>A rotation revokes the key and its gateway grants and adds one key with a new identifier, prefix and
  hash and the tenant, name, scopes and expiry of the old one.\<close>

theorem rotate_api_key_exact:
  assumes "rotate_api_key e i org actor ctx s = Inr (Some c, s')"
  shows "\<exists>k creator keyHash n. k \<in> set (tn_api_keys s) \<and> usable_key i org (se_clock (kv_store e n) 1) s k \<and> credential e n = Inr c \<and>
      kv_hashSecret e n (kc_key c) = Inr keyHash \<and>
      tn_api_keys s' = sql_update (\<lambda>x. ak_id x = i) (\<lambda>x. x\<lparr>ak_revoked_at := Some (se_clock (kv_store e n) 2)\<rparr>) (tn_api_keys s) @
        [replacement_key k (kc_id c) (kc_prefix c) keyHash creator (se_clock (kv_store e n) 0)] \<and>
      \<not> list_ex (issued_by ''api_key'' i org) (tn_grants s')"
proof -
  obtain n c' h where cr: "credential e n = Inr c'" and h: "kv_hashSecret e n (kc_key c') = Inr h"
    and "bindt (rotate_key (kv_store e n) i org (kc_id c') (kc_prefix c') h actor ctx) (\<lambda>rotated. returnt (if rotated then Some c' else None)) s = Inr (Some c, s')"
    using assms unfolding rotate_api_key_def by (rule attempts_Inr)
  then have rot: "rotate_key (kv_store e n) i org (kc_id c) (kc_prefix c) h actor ctx s = Inr (True, s')" and [simp]: "c' = c"
    by (auto simp: bindt_Inr split: if_splits)
  obtain k creator where k: "k \<in> set (tn_api_keys s)" "usable_key i org (se_clock (kv_store e n) 1) s k"
    and keys: "tn_api_keys s' = sql_update (\<lambda>x. ak_id x = i) (\<lambda>x. x\<lparr>ak_revoked_at := Some (se_clock (kv_store e n) 2)\<rparr>) (tn_api_keys s) @
        [replacement_key k (kc_id c) (kc_prefix c) h creator (se_clock (kv_store e n) 0)]"
    and grants: "list_all (\<lambda>g. \<not> issued_by ''api_key'' i org g) (tn_grants s')" and new: "\<not> list_ex (\<lambda>x. ak_id x = kc_id c) (tn_api_keys s)"
    by (rule rotate_key_True [OF rot])
  from grants have "\<not> list_ex (issued_by ''api_key'' i org) (tn_grants s')" by (simp add: list_all_iff list_ex_iff)
  with k cr h keys show ?thesis
    by (intro exI [of _ k] exI [of _ creator] exI [of _ h] exI [of _ n]) simp
qed

text \<open>A key that was created authenticates with the organization, project and scopes it was created for,
  as long as the hash verifies what it was made from and the key has not expired.\<close>

theorem created_key_authenticates:
  assumes "create_api_key e x now s = Inr (c, s')" and "kv_environment e = ''live'' \<or> kv_environment e = ''test''"
    and "distinct (map on_id (tn_organizations s))"
    and "\<And>n h. kv_hashSecret e n (kc_key c) = Inr h \<Longrightarrow> kv_verifySecret e h (kc_key c) = Inr True"
    and "\<And>t. ck_expiresAt x = Some t \<Longrightarrow> seen < t \<and> later < t"
  shows "authenticate_key e (kc_key c) s' s' seen later =
    Inr (Some \<lparr>kp_apiKeyId = kc_id c, kp_deviceFamilyId = None, kp_organizationId = ck_organizationId x,
      kp_projectId = ck_projectId x, kp_scopes = set (ck_scopes x)\<rparr>)"
  using assms by (rule created_key_accepted)

text \<open>C34: from a tenancy without keys, no run of the components gives an organization more than 64 keys that
  are not revoked or 4096 in all, or a project more than 16 or 1024.\<close>

theorem api_keys_within_quotas:
  assumes "tn_api_keys s0 = []" and "runs sha used s0 s"
  shows "length (unrevoked (keys_of org s)) \<le> 64 \<and> length (keys_of org s) \<le> 4096 \<and>
    length (unrevoked (project_keys org p s)) \<le> 16 \<and> length (project_keys org p s) \<le> 1024"
proof -
  have "key_quotas s0" using assms(1) by (simp add: key_quotas_def keys_of_def project_keys_def unrevoked_def)
  then have "key_quotas s" using quota.runs_keep [OF assms(2)] by simp
  then show ?thesis by (simp add: key_quotas_def)
qed

text \<open>No run of the components gives an organization more projects than its limit.\<close>

theorem projects_within_limit:
  assumes "projects_bounded s0" and "runs sha used s0 s" and "find (\<lambda>y. on_id y = org) (tn_organizations s) = Some x"
  shows "int (length (projects_of org s)) \<le> on_max_projects x \<and> on_max_projects x \<le> 64"
proof -
  have "projects_bounded s" using project_limit.runs_keep [OF assms(2,1)] by simp
  moreover have "on_id x = org" using find_SomeD [OF assms(3)] by simp
  ultimately show ?thesis using assms(3) by (auto simp: projects_bounded_def maximumProjectsPerOrganization_def)
qed

text \<open>C11: a device code is exchanged at most once: after an exchange that granted tokens, every later
  exchange of a code with its identifier is refused, provided the identifier is not issued again.\<close>

theorem device_code_exchanged_once:
  assumes "exchange_code e raw ctx before s = (Inr tk, s1)" and "tokenId raw ''device'' = Some i" and "runs sha {toLowerCase i} s1 s2"
    and "tokenId raw' ''device'' = Some j" and "toLowerCase j = toLowerCase i"
  shows "isl (fst (exchange_code e' raw' ctx' before' s2))"
proof -
  from assms(1,2) have "exchange_tx e i ctx s = Inr (Inr (tk_organization_id tk, tk_project_id tk, tk_scopes tk, tk_expires_in tk, tk_refresh_expires_in tk), s1)"
    by (auto elim: exchange_granted)
  then have "device_closed (toLowerCase i) s1" by (rule exchange_closes)
  then have closed: "device_closed (toLowerCase j) s2" using closed_device.runs_keep [OF assms(3)] assms(5) by simp
  show ?thesis
  proof (rule ccontr)
    assume "\<not> ?thesis"
    then obtain tk' s3 where "exchange_code e' raw' ctx' before' s2 = (Inr tk', s3)"
      by (cases "exchange_code e' raw' ctx' before' s2"; cases "fst (exchange_code e' raw' ctx' before' s2)") auto
    then show False using assms(4) closed_not_exchanged [OF closed] by (auto elim: exchange_granted)
  qed
qed

text \<open>An exchange grants exactly the scopes that were approved, for the tenant they were approved for, only
  while the approver is an enabled member whose role permits every one of them; the code is consumed.\<close>

theorem exchange_grants_approval:
  assumes "exchange_code e raw ctx before s = (Inr tk, s')" and "tokenId raw ''device'' = Some i"
  shows "\<exists>d approver role. find (\<lambda>d. da_id d = toLowerCase i) (tn_devices s) = Some d \<and> da_status d = DeviceApproved \<and>
    dv_now e < da_expires_at d \<and> da_organization_id d = Some (tk_organization_id tk) \<and> da_project_id d = Some (tk_project_id tk) \<and>
    da_approved_scopes d = Some (tk_scopes tk) \<and> da_approved_by d = Some approver \<and>
    current_role approver (tk_organization_id tk) s = Some role \<and> list_ex (\<lambda>c. \<not> rolePermits role c) (tk_scopes tk) = False \<and>
    tn_devices s' = sql_update (\<lambda>d. da_id d = toLowerCase i) (\<lambda>d. d\<lparr>da_status := DeviceConsumed, da_consumed_at := Some (dv_now e)\<rparr>) (tn_devices s)"
proof -
  from assms have x: "exchange_tx e i ctx s = Inr (Inr (tk_organization_id tk, tk_project_id tk, tk_scopes tk, tk_expires_in tk, tk_refresh_expires_in tk), s')"
    by (auto elim: exchange_granted)
  obtain d org project approver scopes role where d: "find (\<lambda>d. da_id d = toLowerCase i) (tn_devices s) = Some d"
    "da_status d = DeviceApproved" "dv_now e < da_expires_at d"
    "da_organization_id d = Some org" "da_project_id d = Some project" "da_approved_by d = Some approver"
    "da_approved_scopes d = Some scopes" "current_role approver org s = Some role" "list_all (rolePermits role) scopes"
    and g: "grant_tokens e (toLowerCase i) i org project scopes ctx s =
      Inr (Inr (tk_organization_id tk, tk_project_id tk, tk_scopes tk, tk_expires_in tk, tk_refresh_expires_in tk), s')"
    by (rule exchange_tx_granted [OF x])
  from grant_tokens_devices [OF g] d show ?thesis by (auto simp: list_ex_iff list_all_iff)
qed


text \<open>C33: a device access token is accepted only while the user who approved it is enabled, the organization is
  enabled, and the current role of the user there permits every scope of the token.\<close>

theorem device_principal_within_role:
  assumes "authenticateAccess e raw ctx before s = (Inr (Some p), s')"
  shows "\<exists>f d u role. f \<in> set (tn_families s) \<and> kp_deviceFamilyId p = Some (df_id f) \<and> df_revoked_at f = None \<and> dv_now e < df_expires_at f \<and>
    find (\<lambda>d. da_id d = df_device_authorization_id f) (tn_devices s) = Some d \<and> da_approved_by d = Some (us_id u) \<and>
    u \<in> set (tn_users s) \<and> us_disabled_at u = None \<and> organization_enabled (df_organization_id f) s \<and>
    member_role (us_id u) (df_organization_id f) s = Some role \<and> kp_scopes p \<inter> {c. \<not> rolePermits role c} = {}"
proof -
  obtain i t f who where "tokenId raw ''access'' = Some i" and l: "live_access (toLowerCase i) (dv_now e) s = Some (t, f)"
    and fi: "family_identity f s = Some who" and ip: "identityPermits (dt_scopes t) who"
    and p: "p = \<lparr>kp_apiKeyId = ''device-access:'' @ i, kp_deviceFamilyId = Some (dt_family_id t),
           kp_organizationId = dt_organization_id t, kp_projectId = Some (dt_project_id t), kp_scopes = set (dt_scopes t)\<rparr>"
    using assms by (rule authenticateAccess_Some)
  obtain d user u x where d: "find (\<lambda>d. da_id d = df_device_authorization_id f) (tn_devices s) = Some d" "da_approved_by d = Some user"
    and u: "find (\<lambda>u. us_id u = user) (tn_users s) = Some u" and x: "find (\<lambda>x. on_id x = df_organization_id f) (tn_organizations s) = Some x"
    and who: "who = \<lparr>is_membership_role = member_role user (df_organization_id f) s, is_user_disabled_at = us_disabled_at u,
           is_organization_disabled_at = on_disabled_at x\<rparr>"
    using fi by (auto simp: family_identity_def split: option.splits)
  from ip who obtain role where role: "member_role user (df_organization_id f) s = Some role" "list_all (rolePermits role) (dt_scopes t)"
    and en: "us_disabled_at u = None" "on_disabled_at x = None"
    by (auto simp: identityPermits_def split: option.splits)
  have "organization_enabled (df_organization_id f) s" using find_SomeD [OF x] en by (auto simp: organization_enabled_def list_ex_iff)
  with d u role en find_SomeD [OF u] live_access_unrevoked [OF l] l show ?thesis
    by (intro exI [of _ f] exI [of _ d] exI [of _ u] exI [of _ role]) (auto simp: p live_access_Some_iff list_all_iff)
qed


text \<open>The retention job removes nothing that is in use: a call whose clock is not more than an hour behind
  the database accepts the same access tokens, with the same principal, before and after it.\<close>

theorem device_reaper_spares_live:
  assumes "reapExpiredDeviceAuthorizations clock held singleton x s = Inr (rep, s')"
    and "distinct (map dt_id (tn_access s))" and "distinct (map df_id (tn_families s))"
    and "clock 0 - hour \<le> dv_now e" and "clock 1 - 24 * hour \<le> dv_now e"
  shows "fst (authenticateAccess e raw ctx s' s') = Inr (Some p) \<longleftrightarrow> fst (authenticateAccess e raw ctx s s) = Inr (Some p)"
proof (cases singleton)
  case False
  then have "s' = s" using assms(1) by (auto simp: reapExpiredDeviceAuthorizations_def split: if_splits)
  then show ?thesis by simp
next
  case True
  then have "reapTransaction clock held x s = Inr (rep, s')"
    using assms(1) by (auto simp: reapExpiredDeviceAuthorizations_def split: if_splits)
  then have r: "reaped (dv_now e) s s'" using assms(4,5) by (rule reapTransaction_reaped)
  have eq: "live_access i (dv_now e) s' = Some (t, f) \<and> family_identity f s' = Some who \<longleftrightarrow>
      live_access i (dv_now e) s = Some (t, f) \<and> family_identity f s = Some who" for i t f who
    using reaped_live_access [OF r assms(2,3), of i t f] by (cases "live_access i (dv_now e) s = Some (t, f)") simp_all
  show ?thesis unfolding authenticateAccess_iff eq ..
qed

section \<open>Memberships follow the identity provider\<close>

definition applied_for :: "uuid \<Rightarrow> uuid \<Rightarrow> tenancy \<Rightarrow> sync_receipt list" where
  "applied_for user org s = filter (\<lambda>r. sy_user_id r = user \<and> sy_organization_id r = Some org \<and> sy_result r = ''applied'') (tn_receipts s)"

text \<open>What a membership event asks for.\<close>

definition event_role :: "sync_receipt \<Rightarrow> membership_role option" where
  "event_role r = (if sy_event_type r = ''membership.upserted'' then sy_role r else None)"

text \<open>
  Every receipt of a membership is in the stream of that membership, and the membership is what the
  newest applied event asks for.
\<close>

definition stream_text :: "uuid \<Rightarrow> uuid \<Rightarrow> string" where
  "stream_text user org = ''clerk'' @ [CHR 0x00] @ ''membership'' @ [CHR 0x00] @ user @ [CHR 0x00] @ org"

definition members_follow :: "(string \<Rightarrow> string) \<Rightarrow> tenancy \<Rightarrow> bool" where
  "members_follow sha s \<longleftrightarrow>
     (\<forall>r org. r \<in> set (tn_receipts s) \<longrightarrow> sy_organization_id r = Some org \<longrightarrow>
        sy_provider r = ''clerk'' \<and> sy_stream_sha256 r = sha (stream_text (sy_user_id r) org)) \<and>
     (\<forall>user org r. r \<in> set (applied_for user org s) \<longrightarrow> (\<forall>q\<in>set (applied_for user org s). sy_source_version q \<le> sy_source_version r) \<longrightarrow>
        member_role user org s = event_role r)"

lemma members_follow_frame:
  "members_follow sha s \<Longrightarrow> tn_receipts s' = tn_receipts s \<Longrightarrow> tn_members s' = tn_members s \<Longrightarrow> members_follow sha s'"
  by (simp add: members_follow_def applied_for_def member_role_def)

interpretation following: device_invariant "members_follow sha" "\<lambda>_. True" for sha
  by unfold_locales ((erule members_follow_frame, simp, simp) | (auto dest!: inserted elim!: members_follow_frame)[1])+

lemma revoke_dependents_Inr: "revoke_dependents ids P now s = Inr (x, s') \<Longrightarrow> \<exists>fs ts gs. s' = s\<lparr>tn_families := fs, tn_access := ts, tn_grants := gs\<rparr>"
  by (auto simp: revoke_dependents_def revoke_families_def revoke_access_def bindt_Inr dest!: revoke_grants_Inr)

lemma set_user_disabled_Inr:
  assumes "set_user_disabled_at i v now s = Inr (x, s')"
  shows "tn_receipts s' = tn_receipts s" and "tn_members s' = tn_members s"
  using assms by (auto simp: set_user_disabled_at_def identity_revoke_user_dependents_def bindt_readt bindt_guardt bindt_writet
    dest!: revoke_dependents_Inr split: if_splits option.splits)

lemma set_organization_disabled_Inr:
  assumes "set_organization_disabled_at i v now s = Inr (x, s')"
  shows "tn_receipts s' = tn_receipts s" and "tn_members s' = tn_members s"
  using assms by (auto simp: set_organization_disabled_at_def identity_revoke_organization_dependents_def revoke_families_def revoke_access_def
    bindt_readt bindt_guardt bindt_writet dest!: revoke_grants_Inr split: if_splits option.splits)

lemma members_follow_disabled: "keeps (members_follow sha) (user_disabled_tx e i d c)" "keeps (members_follow sha) (organization_disabled_tx e i d c)"
proof -
  have audit: "keeps (members_follow sha) (lifecycle_audit e c v)" for v
    unfolding lifecycle_audit_def by (rule following.keeps_audit)
  have u: "keeps (members_follow sha) (set_user_disabled_at i v now)" for v now
    by (rule keepsI) (auto dest: set_user_disabled_Inr elim: members_follow_frame)
  have org: "keeps (members_follow sha) (set_organization_disabled_at i v now)" for v now
    by (rule keepsI) (auto dest: set_organization_disabled_Inr elim: members_follow_frame)
  show "keeps (members_follow sha) (user_disabled_tx e i d c)" "keeps (members_follow sha) (organization_disabled_tx e i d c)"
    unfolding user_disabled_tx_def organization_disabled_tx_def set_disabled_tx_def by (intro keeps audit u org)+
qed

text \<open>The effect of an event on the memberships.\<close>

lemma member_role_update:
  "member_role u i (s\<lparr>tn_members := sql_update (\<lambda>m. om_organization_id m = org \<and> om_user_id m = user) (\<lambda>m. m\<lparr>om_role := role\<rparr>) (tn_members s)\<rparr>) =
    (if u = user \<and> i = org then map_option (\<lambda>_. role) (member_role u i s) else member_role u i s)"
proof (cases "find (\<lambda>m. om_user_id m = u \<and> om_organization_id m = i) (tn_members s)")
  case (Some m)
  have "om_user_id m = u" "om_organization_id m = i" using find_SomeD [OF Some] by simp_all
  with Some show ?thesis
    by (cases "u = user \<and> i = org") (auto simp: member_role_def find_sql_update)
qed (auto simp: member_role_def find_sql_update)

lemma member_role_added:
  "member_role user org s = None \<Longrightarrow>
    member_role u i (s\<lparr>tn_members := tn_members s @ [\<lparr>om_organization_id = org, om_user_id = user, om_role = role\<rparr>]\<rparr>) =
    (if u = user \<and> i = org then Some role else member_role u i s)"
  by (auto simp: member_role_def find_append split: option.splits)

lemma upsert_member_Inr:
  assumes "upsert_member org user role s = Inr (x, s')"
  shows "tn_receipts s' = tn_receipts s" and "member_role u i s' = (if u = user \<and> i = org then Some role else member_role u i s)"
  using assms
  by (auto simp: upsert_member_def bindt_readt bindt_writet member_role_update member_role_added split: option.splits if_splits)

lemma find_filter_not: "(\<And>x. P x \<Longrightarrow> \<not> Q x) \<Longrightarrow> find P (filter Q xs) = None"
  "(\<And>x. P x \<Longrightarrow> Q x) \<Longrightarrow> find P (filter Q xs) = find P xs"
  by (induction xs) auto

lemma delete_member_Inr:
  assumes "delete_member org user now s = Inr (x, s')"
  shows "tn_receipts s' = tn_receipts s" and "member_role u i s' = (if u = user \<and> i = org then None else member_role u i s)"
proof -
  have m: "tn_receipts s' = tn_receipts s \<and> tn_members s' = filter (\<lambda>m. \<not> (om_organization_id m = org \<and> om_user_id m = user)) (tn_members s)"
    using assms
    by (auto simp: delete_member_def identity_revoke_membership_dependents_def bindt_Inr dest!: revoke_dependents_Inr split: if_splits)
  then show "tn_receipts s' = tn_receipts s" by simp
  show "member_role u i s' = (if u = user \<and> i = org then None else member_role u i s)"
  proof (cases "u = user \<and> i = org")
    case True
    with m show ?thesis by (auto simp: member_role_def intro: find_filter_not(1))
  next
    case False
    then have "find (\<lambda>m. om_user_id m = u \<and> om_organization_id m = i) (tn_members s') = find (\<lambda>m. om_user_id m = u \<and> om_organization_id m = i) (tn_members s)"
      using m by (auto intro!: find_filter_not(2))
    with False show ?thesis by (auto simp: member_role_def)
  qed
qed

lemma if_Some_None: "(if b then Some y else r) = None \<longleftrightarrow> \<not> b \<and> r = None"
  by simp

lemma validateSyncInput_None:
  assumes "validateSyncInput x = None"
  shows "si_provider x = ''clerk''" and "si_eventType x \<in> set eventTypes"
    and "startsWith (si_eventType x) ''membership.'' = (sync_target x \<noteq> None)"
    and "si_eventType x = ''membership.upserted'' \<Longrightarrow> \<exists>r role. si_role x = Some r \<and> role_of_text r = Some role"
proof -
  have p: "si_provider x = ''clerk'' \<and> si_eventType x \<in> set eventTypes \<and> startsWith (si_eventType x) ''membership.'' = (sync_target x \<noteq> None) \<and>
      (if si_eventType x = ''membership.upserted''
       then (if (case si_role x of None \<Rightarrow> True | Some r \<Rightarrow> role_of_text r = None)
            then Some (InvalidIdentityLifecycleRequest ''membership.upserted requires a supported role'') else None)
       else if si_role x \<noteq> None then Some (InvalidIdentityLifecycleRequest ''role is valid only for membership.upserted'')
       else None) = None"
    using assms unfolding validateSyncInput_def if_Some_None not_not simp_thms by (elim conjE) (intro conjI; assumption)
  then show "si_provider x = ''clerk''" "si_eventType x \<in> set eventTypes"
    "startsWith (si_eventType x) ''membership.'' = (sync_target x \<noteq> None)" by blast+
  show "\<exists>r role. si_role x = Some r \<and> role_of_text r = Some role" if t: "si_eventType x = ''membership.upserted''"
    using p unfolding if_P [OF t] if_Some_None by (cases "si_role x"; cases "role_of_text (the (si_role x))") simp_all
qed

lemma apply_event_Inr:
  assumes v: "validateSyncInput x = None" and a: "apply_event e x u s = Inr (ch, s')"
  shows "tn_receipts s' = tn_receipts s"
    and "member_role w i s' = (if Some i = map_option toLowerCase (sync_target x) \<and> w = us_id u
      then (if si_eventType x = ''membership.upserted'' then (case si_role x of None \<Rightarrow> None | Some r \<Rightarrow> role_of_text r) else None)
      else member_role w i s)"
proof -
  have frame: "member_role w i t = member_role w i s" if "tn_members t = tn_members s" for t
    using that by (simp add: member_role_def)
  have "tn_receipts s' = tn_receipts s \<and>
    member_role w i s' = (if Some i = map_option toLowerCase (sync_target x) \<and> w = us_id u
      then (if si_eventType x = ''membership.upserted'' then (case si_role x of None \<Rightarrow> None | Some r \<Rightarrow> role_of_text r) else None)
      else member_role w i s)"
  proof (cases "sync_target x")
    case None
    then have "si_eventType x = ''user.disabled'' \<or> si_eventType x = ''user.deleted''"
      using validateSyncInput_None(2,3) [OF v] by (auto simp: eventTypes_def startsWith_def)
    then have "apply_event e x u = (if us_disabled_at u = None
            then bindt (set_user_disabled_at (us_id u) (Some (ie_clock e 0)) (ie_clock e 0)) (\<lambda>_. returnt True) else returnt False)"
      unfolding apply_event_def by (simp only: if_True)
    with a have "tn_receipts s' = tn_receipts s \<and> tn_members s' = tn_members s"
      by (cases "us_disabled_at u") (auto simp: bindt_Inr dest: set_user_disabled_Inr)
    with None frame [of s'] show ?thesis by simp
  next
    case (Some org)
    then have "si_eventType x = ''membership.upserted'' \<or> si_eventType x = ''membership.removed''"
      using validateSyncInput_None(2,3) [OF v] by (auto simp: eventTypes_def startsWith_def)
    then show ?thesis
    proof
      assume t: "si_eventType x = ''membership.upserted''"
      obtain r role where "si_role x = Some r" "role_of_text r = Some role"
        using validateSyncInput_None(4) [OF v t] by blast
      with a Some t show ?thesis
        by (auto simp: apply_event_def upsert_member_Inr)
    next
      assume t: "si_eventType x = ''membership.removed''"
      with a Some show ?thesis by (auto simp: apply_event_def delete_member_Inr)
    qed
  qed
  then show "tn_receipts s' = tn_receipts s"
    and "member_role w i s' = (if Some i = map_option toLowerCase (sync_target x) \<and> w = us_id u
      then (if si_eventType x = ''membership.upserted'' then (case si_role x of None \<Rightarrow> None | Some r \<Rightarrow> role_of_text r) else None)
      else member_role w i s)" by blast+
qed

lemma insert_receipt_Inr: "insert_receipt r s = Inr (x, s') \<Longrightarrow> s' = s\<lparr>tn_receipts := tn_receipts s @ [r]\<rparr>"
  by (auto simp: insert_receipt_def bindt_Inr)

lemma members_follow_applied:
  assumes m: "members_follow (ie_sha256 e) s" and v: "validateSyncInput x = None"
    and a: "apply_event e x u s = Inr (ch, t)"
    and other: "version \<notin> set (map sy_source_version (stream_of (si_provider x) (syncStreamHash e x (us_id u)) s))"
    and newest: "\<not> list_ex (\<lambda>w. version < w) (map sy_source_version (stream_of (si_provider x) (syncStreamHash e x (us_id u)) s))"
  shows "members_follow (ie_sha256 e) (t\<lparr>tn_receipts := tn_receipts t @ [sync_receipt_of e x c version (us_id u) ''applied'' ch]\<rparr>)"
proof -
  let ?r = "sync_receipt_of e x c version (us_id u) ''applied'' ch"
  let ?t = "t\<lparr>tn_receipts := tn_receipts t @ [?r]\<rparr>"
  have clerk: "si_provider x = ''clerk''" by (rule validateSyncInput_None(1) [OF v])
  have rs: "tn_receipts t = tn_receipts s" by (rule apply_event_Inr(1) [OF v a])
  have hash: "sy_organization_id ?r = Some org \<Longrightarrow> sy_stream_sha256 ?r = ie_sha256 e (stream_text (us_id u) org)" for org
    by (auto simp: sync_receipt_of_def syncStreamHash_def stream_text_def clerk split: option.splits)
  have streams: "sy_provider q = ''clerk'' \<and> sy_stream_sha256 q = ie_sha256 e (stream_text (sy_user_id q) org)"
    if "q \<in> set (tn_receipts s)" "sy_organization_id q = Some org" for q org
    using m that by (simp add: members_follow_def)
  have follow: "member_role user org ?t = event_role q"
    if q: "q \<in> set (applied_for user org ?t)" and top: "\<forall>p\<in>set (applied_for user org ?t). sy_source_version p \<le> sy_source_version q" for user org q
  proof (cases "user = us_id u \<and> Some org = map_option toLowerCase (sync_target x)")
    case True
    then have mine: "?r \<in> set (applied_for user org ?t)"
      by (simp add: applied_for_def sync_receipt_of_def)
    have "q = ?r"
    proof (rule ccontr)
      assume "q \<noteq> ?r"
      with q have qs: "q \<in> set (tn_receipts s)" "sy_user_id q = user" "sy_organization_id q = Some org"
        by (auto simp: applied_for_def rs split: if_splits)
      have "sy_stream_sha256 q = syncStreamHash e x (us_id u)"
        using streams [OF qs(1,3)] hash [of org] True by (simp add: qs(2) sync_receipt_of_def)
      with streams [OF qs(1,3)] qs(1) have "sy_source_version q \<in> set (map sy_source_version (stream_of (si_provider x) (syncStreamHash e x (us_id u)) s))"
        by (auto simp: stream_of_def clerk)
      with newest other have "sy_source_version q < version" by (auto simp: list_ex_iff not_less le_less)
      moreover have "version \<le> sy_source_version q" using top mine by (auto simp: sync_receipt_of_def)
      ultimately show False by simp
    qed
    with True show ?thesis
      using apply_event_Inr(2) [OF v a, of user org]
      by (simp add: member_role_def event_role_def sync_receipt_of_def)
  next
    case False
    have same: "applied_for user org ?t = applied_for user org s"
      using False by (auto simp: applied_for_def rs sync_receipt_of_def)
    have "member_role user org ?t = member_role user org t" by (simp add: member_role_def)
    also have "\<dots> = member_role user org s" using False by (subst apply_event_Inr(2) [OF v a]) auto
    also have "\<dots> = event_role q" using m q top unfolding same by (simp add: members_follow_def)
    finally show ?thesis .
  qed
  show ?thesis
    unfolding members_follow_def
  proof (intro conjI allI impI)
    fix q org
    assume q: "q \<in> set (tn_receipts ?t)" and "sy_organization_id q = Some org"
    then show "sy_provider q = ''clerk''" "sy_stream_sha256 q = ie_sha256 e (stream_text (sy_user_id q) org)"
      using streams hash by (auto simp: rs sync_receipt_of_def clerk)
  next
    fix user org q
    assume "q \<in> set (applied_for user org ?t)" "\<forall>p\<in>set (applied_for user org ?t). sy_source_version p \<le> sy_source_version q"
    then show "member_role user org ?t = event_role q" by (rule follow)
  qed
qed

lemma members_follow_stale:
  assumes m: "members_follow (ie_sha256 e) s" and v: "validateSyncInput x = None"
  shows "members_follow (ie_sha256 e) (s\<lparr>tn_receipts := tn_receipts s @ [sync_receipt_of e x c version u ''stale'' False]\<rparr>)"
proof -
  let ?r = "sync_receipt_of e x c version u ''stale'' False"
  have "applied_for w i (s\<lparr>tn_receipts := tn_receipts s @ [?r]\<rparr>) = applied_for w i s" for w i
    by (simp add: applied_for_def sync_receipt_of_def)
  moreover have "sy_provider ?r = ''clerk''" using validateSyncInput_None(1) [OF v] by (simp add: sync_receipt_of_def)
  moreover have "sy_organization_id ?r = Some org \<Longrightarrow> sy_stream_sha256 ?r = ie_sha256 e (stream_text (sy_user_id ?r) org)" for org
    using validateSyncInput_None(1) [OF v] by (auto simp: sync_receipt_of_def syncStreamHash_def stream_text_def split: option.splits)
  ultimately show ?thesis using m by (auto simp: members_follow_def member_role_def)
qed

lemma members_follow_sync:
  assumes v: "validateSyncInput x = None"
  shows "keeps (members_follow (ie_sha256 e)) (sync_tx e x c version)"
proof -
  let ?I = "members_follow (ie_sha256 e)"
  have audit: "keeps ?I (lifecycle_audit e c w)" for w
    unfolding lifecycle_audit_def by (rule following.keeps_audit)
  have denied: "keeps ?I (sync_denied e x c reason target err)" for reason target err
    unfolding sync_denied_def by (intro keeps audit)
  define rest where "rest u versions = (let payload = syncPayloadHash e x c; target = (map_option toLowerCase (sync_target x) \<noteq> None) in
         if version \<in> set versions then sync_denied e x c ''source_version_conflict'' target IdentityProviderSyncConflict
         else if list_ex (\<lambda>v. version < v) versions
         then bindt (insert_receipt (sync_receipt_of e x c version (us_id u) ''stale'' False))
           (\<lambda>_. bindt (lifecycle_audit e c (sync_event x payload ''succeeded'' None (Some False) (Some ''stale'') target))
           (\<lambda>_. returnt (Inr \<lparr>sr_eventId = si_eventId x, sr_sourceVersion = version, sr_result = ''stale'', sr_changed = False,
              sr_userId = us_id u, sr_organizationId = sync_target x\<rparr>)))
         else bindt (apply_event e x u)
           (\<lambda>changed. bindt (insert_receipt (sync_receipt_of e x c version (us_id u) ''applied'' changed))
           (\<lambda>_. bindt (lifecycle_audit e c (sync_event x payload ''succeeded'' None (Some changed) (Some ''applied'') target))
           (\<lambda>_. returnt (Inr \<lparr>sr_eventId = si_eventId x, sr_sourceVersion = version, sr_result = ''applied'', sr_changed = changed,
              sr_userId = us_id u, sr_organizationId = sync_target x\<rparr>)))))" for u :: user_row and versions :: "int list"
  have rest: "keeps ?I (bindt (readt (\<lambda>s. map sy_source_version (stream_of (si_provider x) (syncStreamHash e x (us_id u)) s))) (rest u))" for u
  proof (rule keepsI)
    fix s y s'
    assume I: "?I s" and "bindt (readt (\<lambda>s. map sy_source_version (stream_of (si_provider x) (syncStreamHash e x (us_id u)) s))) (rest u) s = Inr (y, s')"
    then have r: "rest u (map sy_source_version (stream_of (si_provider x) (syncStreamHash e x (us_id u)) s)) s = Inr (y, s')"
      by (simp add: bindt_readt)
    let ?vs = "map sy_source_version (stream_of (si_provider x) (syncStreamHash e x (us_id u)) s)"
    consider "version \<in> set ?vs" | "version \<notin> set ?vs" "list_ex (\<lambda>v. version < v) ?vs" | "version \<notin> set ?vs" "\<not> list_ex (\<lambda>v. version < v) ?vs" by blast
    then show "?I s'"
    proof cases
      case 1
      with r show ?thesis unfolding rest_def Let_def if_P [OF 1] by (rule_tac keepsD [OF denied _ I])
    next
      case 2
      with r show ?thesis
        unfolding rest_def Let_def if_not_P [OF 2(1)] if_P [OF 2(2)] bindt_Inr
        by (auto dest!: insert_receipt_Inr intro: keepsD [OF audit] members_follow_stale [OF I v])
    next
      case 3
      with r show ?thesis
        unfolding rest_def Let_def if_not_P [OF 3(1)] if_not_P [OF 3(2)] bindt_Inr
        by (auto dest!: insert_receipt_Inr intro: keepsD [OF audit] members_follow_applied [OF I v _ 3])
    qed
  qed
  show ?thesis
    unfolding sync_tx_def Let_def
    by (intro keeps denied audit rest [unfolded rest_def Let_def])
qed

text \<open>C13: whatever order the provider's events arrive in, and whatever else runs in between, a membership is what
  the newest of its applied events asks for: its role after an upsert, none after a removal.\<close>

theorem membership_follows_newest_event:
  assumes "tn_receipts s0 = []" and "runs sha used s0 s" and "r \<in> set (applied_for user org s)"
    and "\<And>q. q \<in> set (applied_for user org s) \<Longrightarrow> sy_source_version q \<le> sy_source_version r"
  shows "member_role user org s = event_role r"
proof -
  have step: "keeps (members_follow sha) m" if "transaction sha used m" for m
    using that
    by cases (auto intro!: keeps_void following.keeps_create_project following.keeps_create_api_key following.keeps_rotate_api_key
      following.keeps_setDisabled following.keeps_revoke_key following.keeps_touch_key following.keeps_issue_limits_tx
      following.keeps_actor_limit_tx following.keeps_issue_tx following.keeps_authorize_tx following.keeps_exchange_tx
      following.keeps_refresh_tx following.keeps_revoke_tx following.keeps_access_tx following.keeps_reap members_follow_sync members_follow_disabled)
  have "members_follow sha s0" using assms(1) by (simp add: members_follow_def applied_for_def)
  with assms(2) have "members_follow sha s"
    by (induction rule: runs.induct) (auto dest: keepsD [OF step])
  with assms(3,4) show ?thesis by (auto simp: members_follow_def)
qed

end
