(* ===== verification/SampleTenancy.thy ===== *)
theory SampleTenancy
  imports Credentials SampleAdmission
begin

text \<open>
  The properties of the tenancy applied to small runs: one organization with an owner and a project, an
  API key that is created, rotated and revoked, and a device login that is approved, exchanged, used,
  refreshed twice with the same token, and removed.
\<close>

abbreviation aa :: uuid where "aa \<equiv> ''00000000-0000-4000-8000-0000000000aa''"
abbreviation bb :: uuid where "bb \<equiv> ''00000000-0000-4000-8000-0000000000bb''"
abbreviation cc :: uuid where "cc \<equiv> ''00000000-0000-4000-8000-0000000000cc''"

definition sample_tenancy :: tenancy where
  "sample_tenancy =
     \<lparr>tn_users = [\<lparr>us_id = ''user'', us_clerk_user_id = ''clerk'', us_created_at = 0, us_disabled_at = None\<rparr>],
      tn_organizations = [\<lparr>on_id = aa, on_slug = ''acme'', on_name = ''Acme'', on_created_at = 0, on_disabled_at = None, on_max_projects = 2\<rparr>],
      tn_members = [\<lparr>om_organization_id = aa, om_user_id = ''user'', om_role = Owner\<rparr>],
      tn_projects = [new_project bb aa ''web'' ''Web''], tn_operators = [aa], tn_api_keys = [], tn_grants = [], tn_devices = [],
      tn_families = [], tn_refresh = [], tn_access = [], tn_rates = [], tn_receipts = [], tn_audit = []\<rparr>"

section \<open>API keys\<close>

definition sample_store :: store_env where
  "sample_store = \<lparr>se_clock = (\<lambda>n. 1000), se_uuid = (\<lambda>n. ''event''), se_sha256 = (\<lambda>s. [])\<rparr>"

definition sample_key_env :: key_env where
  "sample_key_env = \<lparr>kv_environment = ''test'', kv_material = (\<lambda>n. (''0123456789ab'', replicate 43 (CHR ''s''))), kv_id = (\<lambda>n. ''key''),
     kv_hashSecret = (\<lambda>n s. Inr ''$argon2id$h''), kv_verifySecret = (\<lambda>h s. Inr True), kv_store = (\<lambda>n. sample_store)\<rparr>"

definition sample_context :: audit_context where "sample_context = \<lparr>ac_requestId = None, ac_userAgent = None\<rparr>"

definition sample_create :: create_key_input where
  "sample_create = \<lparr>ck_organizationId = aa, ck_projectId = None, ck_name = ''ci'', ck_scopes = [''machines:read''], ck_expiresAt = None,
     ck_actorId = Some ''clerk'', ck_context = sample_context\<rparr>"

definition sample_credential :: key_credential where
  "sample_credential = \<lparr>kc_id = ''key'', kc_key = ''bc_test_0123456789ab_'' @ replicate 43 (CHR ''s''), kc_prefix = ''bc_test_0123456789ab''\<rparr>"

lemma sample_material: "credential sample_key_env n = Inr sample_credential"
  by (simp add: credential_def sample_key_env_def sample_credential_def validateMaterial_def Let_def list_all_iff secret_char_def is_alnum_def
    is_hex_def is_digit_def is_lower_def less_eq_char_def)

lemma sample_valid: "validateCreate sample_create 0 = None"
  by (simp add: validateCreate_def sample_create_def apiKeyScopes_def js_trim_def is_space_def)

definition sample_key :: api_key_row where
  "sample_key = \<lparr>ak_id = ''key'', ak_organization_id = aa, ak_project_id = None, ak_name = ''ci'', ak_prefix = ''bc_test_0123456789ab'',
     ak_key_hash = ''$argon2id$h'', ak_scopes = [''machines:read''], ak_created_by = Some ''user'', ak_created_at = 1000,
     ak_last_used_at = None, ak_expires_at = None, ak_disabled_at = None, ak_revoked_at = None\<rparr>"

lemma sample_key_insert:
  "\<exists>s'. insert_api_key sample_store (create_record sample_create sample_credential ''$argon2id$h'') (Some ''clerk'') sample_context sample_tenancy = Inr ((), s') \<and>
    tn_api_keys s' = [sample_key]"
  by (simp add: insert_api_key_def lockApiKeyAdministrator_def bindt_Inr may_insert_def organization_enabled_def administrates_def acting_user_def
    insert_key_def enforce_api_key_allocation_bounds_def append_audit_def create_record_def sample_create_def sample_credential_def sample_store_def
    sample_tenancy_def key_row_def keys_of_def unrevoked_def argon_hash_def startsWith_def key_audit_def sample_key_def js_trim_def is_space_def)

lemma sample_created:
  "\<exists>s'. create_api_key sample_key_env sample_create 0 sample_tenancy = Inr (sample_credential, s') \<and> tn_api_keys s' = [sample_key]"
proof -
  obtain s' where i: "insert_api_key sample_store (create_record sample_create sample_credential ''$argon2id$h'') (Some ''clerk'') sample_context sample_tenancy = Inr ((), s')"
    and k: "tn_api_keys s' = [sample_key]" using sample_key_insert by blast
  have h: "kv_hashSecret sample_key_env 0 (kc_key sample_credential) = Inr ''$argon2id$h''" "kv_store sample_key_env 0 = sample_store"
    "ck_actorId sample_create = Some ''clerk''" "ck_context sample_create = sample_context"
    by (simp_all add: sample_key_env_def sample_create_def)
  show ?thesis
    unfolding create_api_key_def sample_valid allocationAttempts_def
    by (simp add: upt_rec sample_material h bindt_def i returnt_def k)
qed

theorem created_key_authenticates_witness:
  "\<exists>s'. create_api_key sample_key_env sample_create 0 sample_tenancy = Inr (sample_credential, s') \<and>
    authenticate_key sample_key_env (kc_key sample_credential) s' s' 2000 2000 =
      Inr (Some \<lparr>kp_apiKeyId = ''key'', kp_deviceFamilyId = None, kp_organizationId = aa, kp_projectId = None, kp_scopes = {''machines:read''}\<rparr>)"
proof -
  obtain s' where c: "create_api_key sample_key_env sample_create 0 sample_tenancy = Inr (sample_credential, s')" using sample_created by blast
  have e: "kv_environment sample_key_env = ''live'' \<or> kv_environment sample_key_env = ''test''" by (simp add: sample_key_env_def)
  have o': "distinct (map on_id (tn_organizations sample_tenancy))" by (simp add: sample_tenancy_def)
  have "authenticate_key sample_key_env (kc_key sample_credential) s' s' 2000 2000 =
      Inr (Some \<lparr>kp_apiKeyId = kc_id sample_credential, kp_deviceFamilyId = None, kp_organizationId = ck_organizationId sample_create,
        kp_projectId = ck_projectId sample_create, kp_scopes = set (ck_scopes sample_create)\<rparr>)"
    by (rule created_key_authenticates [OF c e o']) (simp_all add: sample_key_env_def sample_create_def)
  with c show ?thesis by (intro exI [of _ s']) (simp add: sample_credential_def sample_create_def)
qed

theorem api_keys_within_quotas_witness:
  "\<exists>s'. create_api_key sample_key_env sample_create 0 sample_tenancy = Inr (sample_credential, s') \<and> keys_of aa s' = [sample_key] \<and>
    length (unrevoked (keys_of aa s')) \<le> 64 \<and> length (keys_of aa s') \<le> 4096 \<and>
    length (unrevoked (project_keys aa bb s')) \<le> 16 \<and> length (project_keys aa bb s') \<le> 1024"
proof -
  obtain s' where c: "create_api_key sample_key_env sample_create 0 sample_tenancy = Inr (sample_credential, s')"
    and k: "tn_api_keys s' = [sample_key]" using sample_created by blast
  have "runs sha {} sample_tenancy s'" for sha
    by (rule runs_step [OF runs_none transaction.intros(2)]) (use c in auto)
  with api_keys_within_quotas [of sample_tenancy _ "{}" s' aa bb] c k show ?thesis
    by (intro exI [of _ s']) (simp add: sample_tenancy_def keys_of_def sample_key_def)
qed

definition keyed_tenancy :: tenancy where
  "keyed_tenancy = sample_tenancy\<lparr>tn_api_keys := [sample_key]\<rparr>"

definition sample_grant :: gateway_grant_row where
  "sample_grant = \<lparr>gg_id = ''grant'', gg_organization_id = aa, gg_issuer_type = ''api_key'', gg_issuer_id = ''key'', gg_created_at = 1000,
     gg_expires_at = 9000, gg_revoked_at = None\<rparr>"

lemma sample_revoked: "\<exists>s'. revoke_key sample_store ''key'' aa None sample_context keyed_tenancy = Inr (True, s')"
  by (simp add: revoke_key_def lockApiKeyAdministrator_def bindt_Inr update_keys_def revoke_grants_def append_audit_once_def keys_of_def
    keyed_tenancy_def sample_tenancy_def sample_key_def sample_store_def)

theorem revoked_key_never_authenticates_witness:
  "\<exists>s'. revoke_key sample_store ''key'' aa None sample_context keyed_tenancy = Inr (True, s') \<and>
    authenticate_key sample_key_env (kc_key sample_credential) keyed_tenancy s' 2000 2000 \<noteq>
      Inr (Some \<lparr>kp_apiKeyId = ''key'', kp_deviceFamilyId = None, kp_organizationId = aa, kp_projectId = None, kp_scopes = {''machines:read''}\<rparr>)"
proof -
  obtain s' where r: "revoke_key sample_store ''key'' aa None sample_context keyed_tenancy = Inr (True, s')" using sample_revoked by blast
  have u: "keys_unique keyed_tenancy" by (simp add: keys_unique_def keyed_tenancy_def sample_tenancy_def)
  have "authenticate_key sample_key_env (kc_key sample_credential) keyed_tenancy s' 2000 2000 \<noteq>
      Inr (Some \<lparr>kp_apiKeyId = ''key'', kp_deviceFamilyId = None, kp_organizationId = aa, kp_projectId = None, kp_scopes = {''machines:read''}\<rparr>)"
    by (rule revoked_key_never_authenticates [OF u runs_none r runs_none]) simp
  with r show ?thesis by blast
qed

lemma sample_rotated:
  "\<exists>s'. rotate_api_key (sample_key_env\<lparr>kv_id := (\<lambda>n. ''key2''), kv_material := (\<lambda>n. (''ba9876543210'', replicate 43 (CHR ''s'')))\<rparr>) ''key'' aa None sample_context
      (keyed_tenancy\<lparr>tn_grants := [sample_grant]\<rparr>) =
    Inr (Some \<lparr>kc_id = ''key2'', kc_key = ''bc_test_ba9876543210_'' @ replicate 43 (CHR ''s''), kc_prefix = ''bc_test_ba9876543210''\<rparr>, s')"
proof -
  let ?e = "sample_key_env\<lparr>kv_id := (\<lambda>n. ''key2''), kv_material := (\<lambda>n. (''ba9876543210'', replicate 43 (CHR ''s'')))\<rparr>"
  have c: "credential ?e 0 = Inr \<lparr>kc_id = ''key2'', kc_key = ''bc_test_ba9876543210_'' @ replicate 43 (CHR ''s''), kc_prefix = ''bc_test_ba9876543210''\<rparr>"
    by (simp add: credential_def sample_key_env_def validateMaterial_def Let_def list_all_iff secret_char_def is_alnum_def
      is_hex_def is_digit_def is_lower_def less_eq_char_def)
  have "\<exists>s'. rotate_key sample_store ''key'' aa ''key2'' ''bc_test_ba9876543210'' ''$argon2id$h'' None sample_context
      (keyed_tenancy\<lparr>tn_grants := [sample_grant]\<rparr>) = Inr (True, s')"
    by (simp add: rotate_key_def lockApiKeyAdministrator_def bindt_Inr update_keys_def revoke_grants_def append_audit_def keys_of_def usable_key_def
      keyed_tenancy_def sample_tenancy_def sample_key_def sample_store_def organization_enabled_def key_cut_off_def issued_by_def sample_grant_def
      acting_user_def insert_key_def enforce_api_key_allocation_bounds_def replacement_key_def unrevoked_def argon_hash_def startsWith_def
      key_audit_def)
  then obtain s' where r: "rotate_key sample_store ''key'' aa ''key2'' ''bc_test_ba9876543210'' ''$argon2id$h'' None sample_context
      (keyed_tenancy\<lparr>tn_grants := [sample_grant]\<rparr>) = Inr (True, s')" by blast
  have h: "kv_hashSecret sample_key_env 0 k = Inr ''$argon2id$h''" "kv_store sample_key_env 0 = sample_store" for k by (simp_all add: sample_key_env_def)
  show ?thesis
    unfolding rotate_api_key_def allocationAttempts_def by (simp add: upt_rec c h bindt_def r returnt_def)
qed

theorem rotate_api_key_exact_witness:
  "\<exists>s' k creator keyHash. rotate_api_key (sample_key_env\<lparr>kv_id := (\<lambda>n. ''key2''), kv_material := (\<lambda>n. (''ba9876543210'', replicate 43 (CHR ''s'')))\<rparr>) ''key'' aa None
      sample_context (keyed_tenancy\<lparr>tn_grants := [sample_grant]\<rparr>) =
    Inr (Some \<lparr>kc_id = ''key2'', kc_key = ''bc_test_ba9876543210_'' @ replicate 43 (CHR ''s''), kc_prefix = ''bc_test_ba9876543210''\<rparr>, s') \<and>
    k \<in> set (tn_api_keys keyed_tenancy) \<and>
    tn_api_keys s' = sql_update (\<lambda>x. ak_id x = ''key'') (\<lambda>x. x\<lparr>ak_revoked_at := Some 1000\<rparr>) (tn_api_keys keyed_tenancy) @
      [replacement_key k ''key2'' ''bc_test_ba9876543210'' keyHash creator 1000] \<and>
    \<not> list_ex (issued_by ''api_key'' ''key'' aa) (tn_grants s')"
proof -
  obtain s' where r: "rotate_api_key (sample_key_env\<lparr>kv_id := (\<lambda>n. ''key2''), kv_material := (\<lambda>n. (''ba9876543210'', replicate 43 (CHR ''s'')))\<rparr>) ''key'' aa None
      sample_context (keyed_tenancy\<lparr>tn_grants := [sample_grant]\<rparr>) =
    Inr (Some \<lparr>kc_id = ''key2'', kc_key = ''bc_test_ba9876543210_'' @ replicate 43 (CHR ''s''), kc_prefix = ''bc_test_ba9876543210''\<rparr>, s')"
    using sample_rotated by blast
  from rotate_api_key_exact [OF r] obtain k creator keyHash where
    "k \<in> set (tn_api_keys keyed_tenancy)" "\<not> list_ex (issued_by ''api_key'' ''key'' aa) (tn_grants s')"
    "tn_api_keys s' = sql_update (\<lambda>x. ak_id x = ''key'') (\<lambda>x. x\<lparr>ak_revoked_at := Some 1000\<rparr>) (tn_api_keys keyed_tenancy) @
      [replacement_key k ''key2'' ''bc_test_ba9876543210'' keyHash creator 1000]"
    by (auto simp: sample_key_env_def sample_store_def)
  with r show ?thesis by blast
qed

section \<open>Device logins\<close>

definition sample_secret :: string where "sample_secret = replicate 43 (CHR ''s'')"

definition sample_device_env :: "time \<Rightarrow> device_env" where
  "sample_device_env now = \<lparr>dv_now = now, dv_clock = (\<lambda>n. now), dv_id = (\<lambda>n. if n = 0 then aa else if n = 1 then bb else cc), dv_event = ''event'',
     dv_operation = ''operation'', dv_secret = (\<lambda>n. sample_secret), dv_code = (\<lambda>n. ''ABCDEFGH''),
     dv_sha256 = (\<lambda>s. replicate 32 (CHR ''d'')), dv_hex = (\<lambda>s. []), dv_lookup = (\<lambda>s. s)\<rparr>"

definition sample_device :: device_row where
  "sample_device = \<lparr>da_id = cc, da_device_token_hash = replicate 32 (CHR ''d''), da_user_code_hash = ''ABCDEFGH'', da_client_id = ''nehemiah-cli'',
     da_requested_scopes = [''machines:read'', ''machines:write''], da_approved_scopes = Some [''machines:read''], da_status = DeviceApproved,
     da_organization_id = Some aa, da_project_id = Some bb, da_approved_by = Some ''user'', da_poll_interval_seconds = 5, da_next_poll_at = 5000,
     da_poll_violations = 0, da_created_at = 0, da_expires_at = 600000, da_authorized_at = Some 1000, da_denied_at = None, da_consumed_at = None\<rparr>"

definition approved_tenancy :: tenancy where
  "approved_tenancy = sample_tenancy\<lparr>tn_devices := [sample_device]\<rparr>"

lemma sample_token: "toLowerCase kind = kind \<Longrightarrow> i \<in> {aa, bb, cc} \<Longrightarrow> tokenId (opaqueToken kind i sample_secret) kind = Some i"
  by (rule tokenId_opaqueToken) (auto simp: sample_uuids sample_secret_def list_all_iff secret_char_def is_alnum_def is_digit_def is_lower_def less_eq_char_def)

lemma sample_kinds: "toLowerCase ''device'' = ''device''" "toLowerCase ''refresh'' = ''refresh''" "toLowerCase ''access'' = ''access''"
  by (simp_all add: toLowerCase_def lower_char_def is_upper_def less_eq_char_def)

lemma sample_exchange_tx:
  "\<exists>s'. exchange_tx (sample_device_env 6000) cc sample_context approved_tenancy = Inr (Inr (aa, bb, [''machines:read''], 900, 2592000), s')"
  by (simp add: exchange_tx_def sample_stream_lower bindt_Inr Let_def approved_tenancy_def sample_tenancy_def sample_device_env_def sample_device_def
    current_role_def member_role_def organization_enabled_def rolePermits_def grant_tokens_def insert_family_def insert_refresh_def insert_access_def
    new_family_def new_refresh_def new_access_def validScopes_def apiKeyScopes_def tenant_exists_def belongsToOrganization_def projects_of_def
    new_project_def REFRESH_LIFETIME_MS_def ACCESS_LIFETIME_MS_def update_device_def device_row_ok_def device_audit_def append_audit_def)

lemma sample_exchange:
  "\<exists>tk s'. exchange_code (sample_device_env 6000) (opaqueToken ''device'' cc sample_secret) sample_context approved_tenancy approved_tenancy = (Inr tk, s')"
proof -
  obtain s' where x: "exchange_tx (sample_device_env 6000) cc sample_context approved_tenancy = Inr (Inr (aa, bb, [''machines:read''], 900, 2592000), s')"
    using sample_exchange_tx by blast
  have d: "equalTokenDigest (sample_device_env 6000)
      (map_option da_device_token_hash (find (\<lambda>d. da_id d = cc) (tn_devices approved_tenancy))) raw" for raw
    by (simp add: equalTokenDigest_def sample_device_env_def approved_tenancy_def sample_device_def)
  show ?thesis
    by (simp add: exchange_code_def sample_token sample_kinds sample_stream_lower d andThen_def commit_def maperr_def x tokens_or_throw_def answer_def)
qed

theorem device_code_exchanged_once_witness:
  "\<exists>tk s'. exchange_code (sample_device_env 6000) (opaqueToken ''device'' cc sample_secret) sample_context approved_tenancy approved_tenancy = (Inr tk, s') \<and>
    isl (fst (exchange_code (sample_device_env 7000) (opaqueToken ''device'' cc sample_secret) sample_context s' s'))"
proof -
  obtain tk s' where x: "exchange_code (sample_device_env 6000) (opaqueToken ''device'' cc sample_secret) sample_context approved_tenancy approved_tenancy = (Inr tk, s')"
    using sample_exchange by blast
  have t: "tokenId (opaqueToken ''device'' cc sample_secret) ''device'' = Some cc" by (simp add: sample_token sample_kinds)
  from device_code_exchanged_once [OF x t runs_none t refl] x show ?thesis by blast
qed

text \<open>A login: an authorization that was exchanged, its family, a refresh token that was replaced, an access token.\<close>

definition sample_family :: family_row where
  "sample_family = \<lparr>df_id = ''family'', df_device_authorization_id = cc, df_organization_id = aa, df_project_id = bb, df_scopes = [''machines:read''],
     df_created_at = 6000, df_expires_at = 90000000, df_revoked_at = None, df_reuse_detected_at = None\<rparr>"

definition sample_refresh :: refresh_row where
  "sample_refresh = \<lparr>rt_id = bb, rt_family_id = ''family'', rt_generation = 0, rt_token_hash = replicate 32 (CHR ''d''), rt_created_at = 6000,
     rt_expires_at = 90000000, rt_used_at = Some 700000, rt_replaced_by = Some cc\<rparr>"

definition sample_access :: "uuid \<Rightarrow> time \<Rightarrow> access_row" where
  "sample_access i expires = \<lparr>dt_id = i, dt_family_id = ''family'', dt_organization_id = aa, dt_project_id = bb, dt_scopes = [''machines:read''],
     dt_token_hash = replicate 32 (CHR ''d''), dt_created_at = 6000, dt_expires_at = expires, dt_last_used_at = None, dt_revoked_at = None\<rparr>"

definition login_tenancy :: tenancy where
  "login_tenancy = sample_tenancy\<lparr>tn_devices := [sample_device\<lparr>da_status := DeviceConsumed, da_consumed_at := Some 6000\<rparr>],
     tn_families := [sample_family], tn_refresh := [sample_refresh], tn_access := [sample_access bb 906000, sample_access aa 8000000]\<rparr>"

lemmas login_defs = login_tenancy_def sample_tenancy_def sample_device_def sample_family_def sample_refresh_def sample_access_def sample_device_env_def

definition sample_principal_of_device :: api_key_principal where
  "sample_principal_of_device = \<lparr>kp_apiKeyId = ''device-access:'' @ aa, kp_deviceFamilyId = Some ''family'', kp_organizationId = aa,
     kp_projectId = Some bb, kp_scopes = {''machines:read''}\<rparr>"

lemma sample_identity: "family_identity sample_family login_tenancy = Some \<lparr>is_membership_role = Some Owner, is_user_disabled_at = None,
    is_organization_disabled_at = None\<rparr>"
  by (simp add: family_identity_def member_role_def login_defs)

lemma sample_live: "live_access aa 7500000 login_tenancy = Some (sample_access aa 8000000, sample_family)"
  by (simp add: live_access_Some_iff login_defs)

lemma sample_parts [simp]:
  "dv_now (sample_device_env t) = t" "dt_scopes (sample_access i t) = [''machines:read'']" "dt_family_id (sample_access i t) = ''family''"
  "dt_organization_id (sample_access i t) = aa" "dt_project_id (sample_access i t) = bb"
  "equalTokenDigest (sample_device_env t) (Some (dt_token_hash (sample_access i t'))) raw" "df_id sample_family = ''family''"
  by (simp_all add: sample_device_env_def sample_access_def equalTokenDigest_def sample_family_def)

lemma sample_access_accepted:
  "fst (authenticateAccess (sample_device_env 7500000) (opaqueToken ''access'' aa sample_secret) sample_context login_tenancy login_tenancy) =
    Inr (Some sample_principal_of_device)"
  unfolding authenticateAccess_iff
  by (intro exI [of _ aa] exI [of _ "sample_access aa 8000000"] exI [of _ sample_family])
    (simp add: sample_live sample_identity sample_token sample_kinds sample_stream_lower identityPermits_def rolePermits_def
      sample_principal_of_device_def)

theorem device_principal_within_role_witness:
  "\<exists>s' f d u role. authenticateAccess (sample_device_env 7500000) (opaqueToken ''access'' aa sample_secret) sample_context login_tenancy login_tenancy =
      (Inr (Some sample_principal_of_device), s') \<and>
    f \<in> set (tn_families login_tenancy) \<and> df_id f = ''family'' \<and> da_approved_by d = Some (us_id u) \<and> u \<in> set (tn_users login_tenancy) \<and>
    us_disabled_at u = None \<and> member_role (us_id u) (df_organization_id f) login_tenancy = Some role \<and>
    {''machines:read''} \<inter> {c. \<not> rolePermits role c} = {} \<and> d \<in> set (tn_devices login_tenancy)"
proof -
  obtain s' where a: "authenticateAccess (sample_device_env 7500000) (opaqueToken ''access'' aa sample_secret) sample_context login_tenancy login_tenancy =
      (Inr (Some sample_principal_of_device), s')"
    using sample_access_accepted by (metis prod.collapse)
  have p: "kp_deviceFamilyId sample_principal_of_device = Some ''family''" "kp_scopes sample_principal_of_device = {''machines:read''}"
    by (simp_all add: sample_principal_of_device_def)
  from device_principal_within_role [OF a] obtain f d u role where
    "f \<in> set (tn_families login_tenancy)" "''family'' = df_id f"
    "find (\<lambda>d. da_id d = df_device_authorization_id f) (tn_devices login_tenancy) = Some d" "da_approved_by d = Some (us_id u)"
    "u \<in> set (tn_users login_tenancy)" "us_disabled_at u = None" "member_role (us_id u) (df_organization_id f) login_tenancy = Some role"
    "{''machines:read''} \<inter> {c. \<not> rolePermits role c} = {}"
    unfolding p option.inject by (elim exE conjE) (rule that)
  with a show ?thesis
    by (intro exI [of _ s'] exI [of _ f] exI [of _ d] exI [of _ u] exI [of _ role]) (auto dest: find_SomeD)
qed

lemma sample_reuse:
  "\<exists>s'. refresh_tx (sample_device_env 800000) bb sample_context login_tenancy = Inr (refresh_error ''refresh_reuse_detected'', s') \<and>
    map_option (df_id \<circ> snd) (refresh_family bb s') = Some ''family''"
proof -
  have l: "live_refresh bb 800000 login_tenancy = Some (sample_refresh, sample_family)"
    by (simp add: live_refresh_def refresh_family_def login_defs)
  have "\<exists>s'. reuse_detected (sample_device_env 800000) sample_family sample_context login_tenancy = Inr (refresh_error ''refresh_reuse_detected'', s') \<and>
      map_option (df_id \<circ> snd) (refresh_family bb s') = Some ''family''"
    by (simp add: reuse_detected_def end_family_def note_reuse_def revoke_access_def revoke_grants_def bindt_Inr family_audit_def device_audit_def
      append_audit_def login_defs refresh_family_def)
  then show ?thesis
    by (simp add: refresh_tx_def bindt_readt Let_def l sample_identity) (simp add: sample_refresh_def)
qed


definition sample_system :: lifecycle_context where
  "sample_system = \<lparr>lc_actorType = ''system'', lc_actorId = ''cron'', lc_actorOrganizationId = None, lc_reason = ''left'', lc_requestId = None,
     lc_userAgent = None\<rparr>"

definition sample_identity_env :: identity_env where
  "sample_identity_env = \<lparr>ie_clock = (\<lambda>n. 700000), ie_event = ''event'', ie_operation = ''operation'', ie_sha256 = (\<lambda>s. [])\<rparr>"

lemma sample_disabled:
  "\<exists>s'. user_disabled_tx sample_identity_env ''user'' True sample_system login_tenancy =
    Inr (Inr (Some \<lparr>ls_id = ''user'', ls_disabledAt = Some 700000, ls_changed = True\<rparr>), s')"
  by (simp add: user_disabled_tx_def set_disabled_tx_def bindt_Inr Let_def lockLifecycleActor_def sample_system_def login_defs approved_by_user_def
    sample_identity_env_def set_user_disabled_at_def identity_revoke_user_dependents_def revoke_dependents_def revoke_families_def revoke_access_def
    revoke_grants_def lifecycle_audit_def append_audit_def disabled_event_def) blast


definition sample_batches :: reap_options where
  "sample_batches = \<lparr>ro_accessBatch = 10, ro_familyBatch = 2, ro_authorizationBatch = 10\<rparr>"

lemma sample_reaped:
  "\<exists>rep s'. reapExpiredDeviceAuthorizations (\<lambda>n. 7500000) (\<lambda>i. False) True sample_batches login_tenancy = Inr (rep, s') \<and>
    tn_access s' = [sample_access aa 8000000]"
  by (simp add: reapExpiredDeviceAuthorizations_def sample_batches_def positiveBatch_def reapTransaction_def reap_access_def ended_families_def
    reap_families_def reap_codes_def bindt_Inr oldest_def sort_by_def delete_access_def delete_devices_def access_ended_def family_ended_def hour_def
    has_family_def login_defs)

theorem device_reaper_spares_live_witness:
  "\<exists>rep s'. reapExpiredDeviceAuthorizations (\<lambda>n. 7500000) (\<lambda>i. False) True sample_batches login_tenancy = Inr (rep, s') \<and>
    tn_access s' = [sample_access aa 8000000] \<and> length (tn_access login_tenancy) = 2 \<and>
    fst (authenticateAccess (sample_device_env 7500000) (opaqueToken ''access'' aa sample_secret) sample_context s' s') =
      Inr (Some sample_principal_of_device)"
proof -
  obtain rep s' where r: "reapExpiredDeviceAuthorizations (\<lambda>n. 7500000) (\<lambda>i. False) True sample_batches login_tenancy = Inr (rep, s')"
    and k: "tn_access s' = [sample_access aa 8000000]" using sample_reaped by blast
  have d: "distinct (map dt_id (tn_access login_tenancy))" "distinct (map df_id (tn_families login_tenancy))"
    by (simp_all add: login_defs)
  have c: "7500000 - hour \<le> dv_now (sample_device_env 7500000)" "7500000 - 24 * hour \<le> dv_now (sample_device_env 7500000)"
    by (simp_all add: hour_def)
  from device_reaper_spares_live [OF r d c] sample_access_accepted r k show ?thesis
    by (intro exI [of _ rep] exI [of _ s']) (simp add: login_tenancy_def)
qed

section \<open>An event of the identity provider\<close>

definition sample_operator :: lifecycle_context where
  "sample_operator = sample_system\<lparr>lc_actorType := ''user'', lc_actorId := ''clerk'', lc_actorOrganizationId := Some aa\<rparr>"

definition sample_event :: sync_input where
  "sample_event = \<lparr>si_provider = ''clerk'', si_eventId = ''evt1'', si_sourceVersion = JSInt 7, si_eventType = ''membership.upserted'',
     si_clerkUserId = ''clerk'', si_organizationId = Some aa, si_role = Some ''admin''\<rparr>"

lemma sample_event_valid: "validateContext sample_operator = None" "validateSyncInput sample_event = None" "source_version sample_event = Some 7"
  by (simp_all add: validateContext_def sample_operator_def sample_system_def js_trim_def is_space_def sample_uuids validateSyncInput_def sample_event_def
    safeProviderToken_def is_alnum_def is_digit_def is_lower_def is_upper_def less_eq_char_def source_version_def MAX_SAFE_INTEGER_def eventTypes_def
    startsWith_def sync_target_def role_of_text_def)

definition sample_receipt :: sync_receipt where
  "sample_receipt = sync_receipt_of sample_identity_env sample_event sample_operator 7 ''user'' ''applied'' True"

lemma sample_reason: "\<not> le_retainReason (sync_event x p a b c d t)"
  by (simp add: sync_event_def)

lemma ex_flag: "(\<exists>b. b \<and> P b) = P True"
  by (metis (full_types))

lemma sample_synced:
  "\<exists>r s'. sync_tx sample_identity_env sample_event sample_operator 7 sample_tenancy = Inr (Inr r, s') \<and> tn_receipts s' = [sample_receipt]"
  by (simp add: sync_tx_def bindt_Inr Let_def lockLifecycleActor_def sample_operator_def sample_system_def sample_stream_lower organization_enabled_def
    administrates_def sample_tenancy_def sample_event_def sync_target_def stream_of_def apply_event_def role_of_text_def upsert_member_def member_role_def
    insert_receipt_def lifecycle_audit_def append_audit_def sample_receipt_def sample_reason ex_flag)

theorem membership_follows_newest_event_witness:
  "\<exists>r s'. sync_tx sample_identity_env sample_event sample_operator 7 sample_tenancy = Inr (Inr r, s') \<and>
    applied_for ''user'' aa s' = [sample_receipt] \<and> member_role ''user'' aa sample_tenancy = Some Owner \<and> member_role ''user'' aa s' = Some Admin"
proof -
  obtain r s' where x: "sync_tx sample_identity_env sample_event sample_operator 7 sample_tenancy = Inr (Inr r, s')"
    and rs: "tn_receipts s' = [sample_receipt]" using sample_synced by blast
  have e: "tn_receipts sample_tenancy = []" by (simp add: sample_tenancy_def)
  have run: "runs (\<lambda>s. []) {} sample_tenancy s'"
    by (rule runs_step [OF runs_none transaction.intros(16) [OF _ sample_event_valid]]) (use x in \<open>auto simp: sample_identity_env_def\<close>)
  have m: "sy_user_id sample_receipt = ''user''" "sy_organization_id sample_receipt = Some aa" "sy_result sample_receipt = ''applied''"
    "event_role sample_receipt = Some Admin"
    by (simp_all add: sample_receipt_def sync_receipt_of_def sample_event_def sync_target_def sample_stream_lower event_role_def role_of_text_def)
  then have a: "applied_for ''user'' aa s' = [sample_receipt]" by (simp add: applied_for_def rs)
  then have mem: "sample_receipt \<in> set (applied_for ''user'' aa s')" by simp
  have "member_role ''user'' aa s' = event_role sample_receipt"
    by (rule membership_follows_newest_event [OF e run mem]) (simp add: a)
  with x a m show ?thesis
    by (intro exI [of _ r] exI [of _ s']) (simp add: member_role_def sample_tenancy_def)
qed

end
