(* ===== verification/Spec2Isabelle.thy ===== *)
theory Spec2Isabelle
  imports SampleRuns SampleHosts SampleMeters SampleStorage SampleAdmission SampleTenancy
begin

text \<open>
  A verification development for Nehemiah, the control plane of a fleet of microVM hosts
  (TypeScript, \<open>src/apps/nehemiah/src\<close>).

  \<^bold>\<open>The program.\<close> Users create, extend, fork and delete machines through the machine service
  (\<open>domain/machines.ts\<close>). A machine is a row of PostgreSQL; the scheduler (\<open>scheduler/scheduler.ts\<close>)
  places it on a host within the quotas and the spend cap (\<open>billing/admission.ts\<close>) and reserves its
  resources there; the host daemon is told over HTTP (\<open>clients/nehemiahd.ts\<close>). Hosts enroll, send
  heartbeats and are drained or revoked through the host service (\<open>domain/hosts.ts\<close>). The reconciler
  (\<open>jobs/reconcile-machines.ts\<close>) repairs what calls left unfinished, gives back reservations, enqueues
  and books usage (\<open>billing/usage.ts\<close>, \<open>billing/metering.ts\<close>), and the expiry job
  (\<open>jobs/reap-expired-machines.ts\<close>) deletes what has run out. Hosts report what their machines used,
  and the reports become usage or take the host out of service (\<open>billing/metering.ts\<close>). Projects keep
  volumes in an object store (\<open>domain/volumes.ts\<close>, \<open>jobs/schedule-volume-deletions.ts\<close>) and publish
  machines as templates, which a job copies to the hosts (\<open>domain/templates.ts\<close>,
  \<open>jobs/replicate-template.ts\<close>). All of them share one database and interleave transaction by
  transaction. In front of authentication stand rate limits (\<open>auth/api-admission.ts\<close>,
  \<open>auth/host-admission.ts\<close>), and streams to machines hold leases (\<open>domain/stream-admission.ts\<close>).
  Who may call is decided by API keys (\<open>auth/api-key.ts\<close>) and by device logins with rotating refresh
  tokens (\<open>auth/device.ts\<close>, cleaned up by \<open>jobs/reap-expired-device-authorizations.ts\<close>). Users,
  organizations and memberships follow an identity provider (\<open>domain/identity-lifecycle.ts\<close>,
  \<open>domain/organizations.ts\<close>), and organizations create projects (\<open>domain/projects.ts\<close>).

  \<^bold>\<open>How it is modelled.\<close> The database is the record \<open>fleet\<close>, a list of rows for each table. A
  transaction is a function from a fleet to an error or a result and the new fleet (\<open>tx\<close>): an error
  rolls back. The tables of users, keys and logins are a record of their own, \<open>tenancy\<close>, with
  transactions \<open>ttx\<close> and calls \<open>tcall\<close>; the two records share no table that both sides write. A call of a service is a function from a fleet to a result and the fleet as it is when
  the call ends (\<open>svc\<close>), composed of transactions, reads and requests to hosts. Every exception and
  early return is a branch. Constraints and triggers of the schema are checked by the statements
  (\<open>Store\<close>), so a statement can fail as it does in the database. Instants are integers of
  milliseconds and are arguments, as are fresh identifiers, the rows other transactions hold locked
  (\<open>SKIP LOCKED\<close>) and the answers of hosts. \<open>NUMERIC\<close> columns are integers scaled by ten to the
  thirteenth. Code outside the repository is an argument of what uses it, collected in records:
  \<open>net.isIP\<close>, \<open>BlockList\<close> and \<open>Number\<close> (\<open>js_net\<close>), SHA-256, the division of \<open>numeric\<close>, the double of
  a usage quantity, \<open>localeCompare\<close>, the credential cipher, Argon2 and \<open>inet\<close> (\<open>host_env\<close>), the URL
  parser, the object stores and the HTTP exchange.

  \<^bold>\<open>The theories.\<close>
  \<^item> \<open>Prelude\<close>, \<open>Json\<close>: numbers, strings, dates and JSON of the language; \<open>UPDATE\<close> and \<open>ORDER BY\<close> on
    lists of rows, with locales for keyed tables and for comparators.
  \<^item> \<open>Capacity\<close>: \<open>scheduler/capacity.ts\<close> and \<open>scheduler/placement.ts\<close>. Which sizes are accepted, and
    that \<open>chooseHost\<close> is best fit.
  \<^item> \<open>NetPolicy\<close>: \<open>domain/network-policy.ts\<close>. The declaration is canonical, allowed addresses are
    outside the deny floor, learned addresses expire.
  \<^item> \<open>Cohort\<close>: \<open>domain/runtime-cohort.ts\<close>. The wire form round-trips and the identifier binds the
    digests.
  \<^item> \<open>HostApi\<close>: \<open>clients/nehemiahd.ts\<close>, each method as a check of the exchange's answer.
  \<^item> \<open>Fleet\<close>, \<open>Store\<close>: the tables, and the statements with their constraints and triggers
    (\<open>db/schema.ts\<close>, \<open>db/migrations\<close>).
  \<^item> \<open>Billing\<close>: \<open>billing/admission.ts\<close> and \<open>billing/usage.ts\<close>. The spend cap is exact up to the
    rounding of eleven prices; a run is recorded exactly once, day by day, and the loop over days
    ends.
  \<^item> \<open>Scheduler\<close>: \<open>reserve\<close>, \<open>release\<close> and \<open>enforceQuota\<close>; the best host, and the quotas.
  \<^item> \<open>Accounting\<close>: the invariant \<open>fleet_inv\<close> (keys, checks, and that each host's reserved capacity is
    the sum over its unreleased machines) and two orders with the lemmas by which statements keep them:
    \<open>fleet_before\<close> (machines only move forward), which every single transaction keeps, and \<open>fleet_le\<close>,
    which also says that capacity is given back only for machines that have ended and is kept by
    whole calls.
  \<^item> \<open>Machines\<close>, \<open>Forks\<close>: \<open>PostgresMachineRepository\<close>, method by method, each shown to keep the
    invariant and the order; claims are exclusive, extensions are idempotent and final, a fork is
    all or nothing.
  \<^item> \<open>Calls\<close>: how calls are composed; the locale \<open>progress\<close> of an invariant and an order kept by
    every step, interpreted on \<open>fleet_inv\<close> and \<open>fleet_le\<close>.
  \<^item> \<open>MachineService\<close>: \<open>create\<close>, \<open>destroy\<close>, \<open>extend\<close>, \<open>fork\<close> and \<open>exec\<close>, with every host error and
    compensation; whole calls are sound, and give back capacity only for machines that ended.
  \<^item> \<open>UsageJobs\<close>: \<open>closeHostLoss\<close>, \<open>enqueueUsageIntervals\<close> and \<open>flushUsageOutbox\<close>; no moment is metered
    twice.
  \<^item> \<open>Reconciler\<close>: the rest of \<open>MachineReconciler\<close> and the expiry job; claims are exclusive, a machine
    ends once, a delete is given up only on the host's word and then completes.
  \<^item> \<open>Hosts\<close>: \<open>HostService\<close> as a state machine \<open>host_step\<close>; enrollment tokens work once, revocation is
    final, rotation fences old credentials, the heartbeat ring is bounded.
  \<^item> \<open>System\<close>: the transactions of all of these as one step relation. The books balance in every
    reachable state, lives move forward, and whole calls keep the books: each host's reserved capacity
    stays the exact sum, and a reservation that is given back belongs to a machine that ended.
  \<^item> \<open>Observations\<close>, \<open>Metering\<close>, \<open>MeterBooks\<close>: the reports of hosts, from their validation to usage
    rows. A machine is charged exactly for what its reports grew, and a repeated report charges nothing.
    A report found impossible on arrival takes its host out of service in the same transaction; one
    that is found impossible later, when a gap before it is filled, quarantines only its meter.
  \<^item> \<open>Volumes\<close>, \<open>VolumeService\<close>: the volume repository, the service and the deletion worker. Quotas
    hold, reservations and the observed size add up to the size limit, a write grant is backed by a
    reservation, and nothing is erased before its retention has passed.
  \<^item> \<open>Templates\<close>: publication, removal and replication of templates. What is published was verified
    three times, failures are cleaned up, and ready replicas carry the verified checksum.
  \<^item> \<open>Windows\<close>: the locale \<open>fixed_window\<close> of a rate limit and the upsert of the window tables; no window
    admits more than its limit.
  \<^item> \<open>Admission\<close>, \<open>Streams\<close>: REST admission, the host credential verifier, and stream admission, each an
    interpretation of \<open>fixed_window\<close>; the verifier's concurrency is bounded and the stream quotas hold
    at every instant.
  \<^item> \<open>Tenancy\<close>: the record \<open>tenancy\<close>, its transactions, the triggers by which disabling a user or an
    organization, removing a member or revoking a key revokes what depends on it
    (\<open>0022_identity_lifecycle.sql\<close>) and by which keys are counted (\<open>0032\<close>); projects and organizations.
  \<^item> \<open>ApiKeys\<close>: the key store and the key service. A created key authenticates as what it was created
    for, a rotation replaces exactly one key, and the quotas of keys hold.
  \<^item> \<open>Devices\<close>: the device login from the issue of a code to its exchange, refresh tokens and their
    families, access tokens, and the retention job.
  \<^item> \<open>Identity\<close>: synchronisation with the identity provider, and disabling users and organizations.
  \<^item> \<open>Credentials\<close>: the transactions of these four as one relation \<open>runs\<close> (identifiers given as not
    issued again are a parameter of it) and the invariants that hold along it, each an interpretation
    of one locale: revoked keys and ended families stay refused, a code is exchanged once, a disabled
    user is cut off, a membership is what the newest event of the provider asks for.
  \<^item> \<open>Samples\<close>, \<open>SampleRuns\<close>, \<open>SampleHosts\<close>, \<open>SampleMeters\<close>, \<open>SampleStorage\<close>, \<open>SampleAdmission\<close>,
    \<open>SampleTenancy\<close>: an IPv4 instance of the network functions, a fleet with a machine in each phase, a
    tenancy with a key and a device login in each phase, and every property with hypotheses applied to
    them.

  \<^bold>\<open>Recursion.\<close> No model uses fuel. The loops over days of \<open>recordMachineRuntime\<close> and of the
  metering split, and the loop that drains stored observations, have termination proofs; all other
  loops are over lists.

  \<^bold>\<open>Interleaving.\<close> The step relation of \<open>System\<close> lets the transactions of any number of calls and
  jobs run in any order. Whole calls (\<open>calls_keep_books\<close>) and the workers of a reconciler's batch are
  modelled one after another, since nothing else writes between their transactions there; the step
  relation has the interleavings. A transaction is atomic, as row locks and the advisory lock make
  it.

  \<^bold>\<open>Not modelled.\<close> Stripe, the credential cipher and the signature checks of capability tokens and of
  Clerk, which belong to external services and libraries (the model takes the cipher and the hashes as
  arguments); the HTTP routes, the OpenAPI document, configuration, logging and the database driver;
  the SDK, CLI, MCP server and web application, and the daemons written in Go.
\<close>

end
